(* ===== verification/Prelude.thy ===== *)
theory Prelude
  imports Main "HOL-Library.Sublist"
begin

text \<open>
  Shared vocabulary of the development: the application errors of
  \<^verbatim>\<open>src/src/shared/errors/\<close>, the result type of a call that may throw, Postgres tables as
  lists of rows with the three statements the repositories use (\<^verbatim>\<open>SELECT .. WHERE .. LIMIT 1\<close>,
  \<^verbatim>\<open>UPDATE .. WHERE .. RETURNING\<close>, \<^verbatim>\<open>DELETE .. WHERE\<close>), and the Redis key space with
  expiry and the commands the source sends (\<^verbatim>\<open>GET\<close>, \<^verbatim>\<open>SET EX\<close>, \<^verbatim>\<open>SET EX NX\<close>, \<^verbatim>\<open>DEL\<close>,
  \<^verbatim>\<open>GETDEL\<close> and the \<^verbatim>\<open>INCR\<close>-with-first-\<^verbatim>\<open>EXPIRE\<close> Lua counter).  A statement and a Redis
  command each run atomically; interleavings of several requests are sequences of them.
  Instants are epoch milliseconds, as in \<^verbatim>\<open>Date.now()\<close>.
\<close>

named_theorems table_simps \<open>rewriting statements over tables\<close>
named_theorems redis_simps \<open>rewriting Redis commands\<close>

type_synonym millis = int

section \<open>Application errors\<close>

text \<open>One constructor per error class; the argument is the i18n message key (the resource name for
  \<^verbatim>\<open>NotFoundError\<close>).\<close>

datatype app_error =
    ValidationError string
  | NotFoundError string
  | UnauthorizedError string
  | ForbiddenError string
  | ConflictError string
  | RateLimitedError string
  | PayloadTooLargeError string
  | UnprocessableEntityError string
  | GoneError string
  | ServiceUnavailableError string
  | NotImplementedError string
  | ConfigurationError string
  | InternalError string   \<comment> \<open>any other exception, which the error handler answers with 500\<close>

fun statusCode :: "app_error \<Rightarrow> nat" where
  "statusCode (ValidationError _) = 400"
| "statusCode (NotFoundError _) = 404"
| "statusCode (UnauthorizedError _) = 401"
| "statusCode (ForbiddenError _) = 403"
| "statusCode (ConflictError _) = 409"
| "statusCode (RateLimitedError _) = 429"
| "statusCode (PayloadTooLargeError _) = 413"
| "statusCode (UnprocessableEntityError _) = 422"
| "statusCode (GoneError _) = 410"
| "statusCode (ServiceUnavailableError _) = 503"
| "statusCode (NotImplementedError _) = 501"
| "statusCode (ConfigurationError _) = 500"
| "statusCode (InternalError _) = 500"

section \<open>Tables\<close>

type_synonym 'r tbl = "'r list"

definition DEFAULT_REPOSITORY_LIST_LIMIT :: nat where "DEFAULT_REPOSITORY_LIST_LIMIT = 500"

definition capListWithWarning :: "nat \<Rightarrow> 'r list \<Rightarrow> 'r list" where
  "capListWithWarning limit rows = (if length rows > limit then take limit rows else rows)"

definition select_first :: "('r \<Rightarrow> bool) \<Rightarrow> 'r tbl \<Rightarrow> 'r option" where
  "select_first p t = List.find p t"

definition update_where :: "('r \<Rightarrow> bool) \<Rightarrow> ('r \<Rightarrow> 'r) \<Rightarrow> 'r tbl \<Rightarrow> 'r tbl" where
  "update_where p f t = map (\<lambda>r. if p r then f r else r) t"

definition update_returning :: "('r \<Rightarrow> bool) \<Rightarrow> ('r \<Rightarrow> 'r) \<Rightarrow> 'r tbl \<Rightarrow> 'r list" where
  "update_returning p f t = map f (filter p t)"

definition delete_where :: "('r \<Rightarrow> bool) \<Rightarrow> 'r tbl \<Rightarrow> 'r tbl" where
  "delete_where p t = filter (\<lambda>r. \<not> p r) t"

definition rows0 :: "'a list \<Rightarrow> 'a option" where
  "rows0 rs = (case rs of [] \<Rightarrow> None | r # _ \<Rightarrow> Some r)"

text \<open>\<^verbatim>\<open>UPDATE .. WHERE .. RETURNING\<close> read as \<^verbatim>\<open>rows[0] ?? null\<close>, with the table it leaves.\<close>

definition update_row :: "('r \<Rightarrow> bool) \<Rightarrow> ('r \<Rightarrow> 'r) \<Rightarrow> 'r tbl \<Rightarrow> 'r option \<times> 'r tbl" where
  "update_row p f t = (rows0 (update_returning p f t), update_where p f t)"

lemma rows0_simps [simp]: "rows0 [] = None" "rows0 (r # rs) = Some r"
  by (simp_all add: rows0_def)

lemma rows0_None_iff [simp]: "rows0 rs = None \<longleftrightarrow> rs = []"
  by (cases rs) simp_all

lemma rows0_in_set: "rows0 rs = Some r \<Longrightarrow> r \<in> set rs"
  by (cases rs) simp_all

lemma update_where_Nil [simp, table_simps]: "update_where p f [] = []"
  by (simp add: update_where_def)

lemma update_where_Cons [simp, table_simps]:
  "update_where p f (r # t) = (if p r then f r else r) # update_where p f t"
  by (simp add: update_where_def)

lemma update_returning_simps [simp, table_simps]:
  "update_returning p f [] = []"
  "update_returning p f (r # t) = (if p r then f r # update_returning p f t else update_returning p f t)"
  by (simp_all add: update_returning_def)

lemma length_update_where [simp, table_simps]: "length (update_where p f t) = length t"
  by (simp add: update_where_def)

lemma set_update_where: "set (update_where p f t) = (\<lambda>r. if p r then f r else r) ` set t"
  by (simp add: update_where_def)

lemma set_update_returning: "set (update_returning p f t) = f ` {r \<in> set t. p r}"
  by (simp add: update_returning_def)

lemma update_returning_empty_iff [table_simps]:
  "update_returning p f t = [] \<longleftrightarrow> (\<forall>r \<in> set t. \<not> p r)"
  by (simp add: update_returning_def filter_empty_conv)

lemma update_where_id: "(\<And>r. r \<in> set t \<Longrightarrow> \<not> p r) \<Longrightarrow> update_where p f t = t"
  unfolding update_where_def by (rule map_idI) auto

lemma update_where_key:
  assumes "\<And>r. k (f r) = k r"
  shows "map k (update_where p f t) = map k t"
  using assms by (simp add: update_where_def)

lemma select_first_Some_iff:
  "select_first p t = Some r \<Longrightarrow> r \<in> set t \<and> p r"
  by (auto simp: select_first_def find_Some_iff in_set_conv_nth)

lemma select_first_None_iff [table_simps]:
  "select_first p t = None \<longleftrightarrow> (\<forall>r \<in> set t. \<not> p r)"
  by (auto simp: select_first_def find_None_iff)

lemma select_first_simps [simp, table_simps]:
  "select_first p [] = None"
  "select_first p (r # t) = (if p r then Some r else select_first p t)"
  by (simp_all add: select_first_def)

lemma set_delete_where [table_simps]: "set (delete_where p t) = {r \<in> set t. \<not> p r}"
  by (simp add: delete_where_def)

lemma snd_update_row [simp, table_simps]: "snd (update_row p f t) = update_where p f t"
  by (simp add: update_row_def)

lemma update_row_None [table_simps]: "fst (update_row p f t) = None \<longleftrightarrow> (\<forall>r \<in> set t. \<not> p r)"
  by (simp add: update_row_def update_returning_empty_iff)

lemma update_row_Some: "fst (update_row p f t) = Some r \<Longrightarrow> \<exists>r0 \<in> set t. p r0 \<and> r = f r0"
  by (auto simp: update_row_def set_update_returning dest!: rows0_in_set)

text \<open>A statement that selects by a unique key touches one row at most.\<close>

lemma filter_distinct_key_le_1:
  "distinct (map k t) \<Longrightarrow> length (filter (\<lambda>r. k r = x \<and> p r) t) \<le> 1"
proof (induction t)
  case (Cons a t)
  show ?case
  proof (cases "k a = x \<and> p a")
    case True
    with Cons.prems have "filter (\<lambda>r. k r = x \<and> p r) t = []"
      by (auto simp: filter_empty_conv image_iff)
    with True show ?thesis by simp
  qed (use Cons in auto)
qed simp

lemma select_first_key:
  "distinct (map k t) \<Longrightarrow> r \<in> set t \<Longrightarrow> select_first (\<lambda>x. k x = k r \<and> p x) t = (if p r then Some r else None)"
proof (induction t)
  case (Cons a t)
  then show ?case by (cases "a = r") (auto simp: image_iff select_first_None_iff)
qed simp

lemma select_first_key_only:
  "distinct (map k t) \<Longrightarrow> r \<in> set t \<Longrightarrow> select_first (\<lambda>x. k x = k r) t = Some r"
  using select_first_key [of k t r "\<lambda>_. True"] by simp

lemma update_row_key:
  "distinct (map k t) \<Longrightarrow> r \<in> set t \<Longrightarrow> (\<And>x. p x \<Longrightarrow> k x = k r) \<Longrightarrow>
   fst (update_row p f t) = (if p r then Some (f r) else None)"
proof (induction t)
  case (Cons a t)
  show ?case
  proof (cases "a = r")
    case True
    have "\<not> p x" if "x \<in> set t" for x
      using Cons.prems(1,3) that True by (auto simp: image_iff)
    then have "update_returning p f t = []" by (simp add: update_returning_empty_iff)
    with True show ?thesis by (simp add: update_row_def)
  next
    case False
    with Cons.prems have "k a \<noteq> k r" by (auto simp: image_iff)
    with Cons.prems(3) have "\<not> p a" by blast
    with False Cons show ?thesis by (simp add: update_row_def)
  qed
qed simp

section \<open>Redis\<close>

text \<open>A key holds a value and, when \<^verbatim>\<open>EX\<close>/\<^verbatim>\<open>PEXPIRE\<close> set one, the instant it expires at.\<close>

type_synonym 'v redis = "string \<Rightarrow> ('v \<times> millis option) option"

definition live_entry :: "millis \<Rightarrow> ('v \<times> millis option) option \<Rightarrow> 'v option" where
  "live_entry now e = (case e of None \<Rightarrow> None
     | Some (v, None) \<Rightarrow> Some v
     | Some (v, Some t) \<Rightarrow> (if now < t then Some v else None))"

definition redis_get :: "millis \<Rightarrow> 'v redis \<Rightarrow> string \<Rightarrow> 'v option" where
  "redis_get now r k = live_entry now (r k)"

definition redis_set_ex :: "millis \<Rightarrow> string \<Rightarrow> 'v \<Rightarrow> int \<Rightarrow> 'v redis \<Rightarrow> 'v redis" where
  "redis_set_ex now k v ttlSeconds r = r(k := Some (v, Some (now + ttlSeconds * 1000)))"

definition redis_set_ex_nx :: "millis \<Rightarrow> string \<Rightarrow> 'v \<Rightarrow> int \<Rightarrow> 'v redis \<Rightarrow> bool \<times> 'v redis" where
  "redis_set_ex_nx now k v ttlSeconds r =
     (case redis_get now r k of
        Some _ \<Rightarrow> (False, r)
      | None \<Rightarrow> (True, redis_set_ex now k v ttlSeconds r))"

definition redis_del :: "string \<Rightarrow> 'v redis \<Rightarrow> 'v redis" where
  "redis_del k r = r(k := None)"

definition redis_getdel :: "millis \<Rightarrow> string \<Rightarrow> 'v redis \<Rightarrow> 'v option \<times> 'v redis" where
  "redis_getdel now k r = (redis_get now r k, redis_del k r)"

lemma live_entry_simps [simp, redis_simps]:
  "live_entry now None = None"
  "live_entry now (Some (v, None)) = Some v"
  "live_entry now (Some (v, Some t)) = (if now < t then Some v else None)"
  by (simp_all add: live_entry_def)

lemma live_entry_mono: "live_entry now e = None \<Longrightarrow> now \<le> now' \<Longrightarrow> live_entry now' e = None"
  by (auto simp: live_entry_def split: option.splits prod.splits if_splits)

lemma redis_get_set_ex [redis_simps]:
  "redis_get t (redis_set_ex now k v ttl r) k' =
     (if k' = k then (if t < now + ttl * 1000 then Some v else None) else redis_get t r k')"
  by (simp add: redis_get_def redis_set_ex_def)

lemma redis_get_del [redis_simps]:
  "redis_get t (redis_del k r) k' = (if k' = k then None else redis_get t r k')"
  by (simp add: redis_get_def redis_del_def)

lemma redis_set_ex_nx_fst [redis_simps]:
  "fst (redis_set_ex_nx now k v ttl r) \<longleftrightarrow> redis_get now r k = None"
  by (simp add: redis_set_ex_nx_def split: option.splits)

lemma redis_get_set_ex_nx [redis_simps]:
  "redis_get t (snd (redis_set_ex_nx now k v ttl r)) k' =
     (if k' = k \<and> redis_get now r k = None
      then (if t < now + ttl * 1000 then Some v else None) else redis_get t r k')"
  by (simp add: redis_set_ex_nx_def redis_get_set_ex split: option.splits)

text \<open>\<^verbatim>\<open>incrementWithExpiryOnFirst\<close>: the Lua script \<^verbatim>\<open>INCR\<close>s and sets the expiry on the first
  increment only, so the window is anchored to the first increment.\<close>

definition incrementWithExpiryOnFirst ::
    "millis \<Rightarrow> int redis \<Rightarrow> string \<Rightarrow> int \<Rightarrow> int \<times> int redis" where
  "incrementWithExpiryOnFirst now r k ttlSeconds =
     (case redis_get now r k of
        None \<Rightarrow> (1, redis_set_ex now k 1 ttlSeconds r)
      | Some c \<Rightarrow> (c + 1, if c + 1 = 1
           then redis_set_ex now k 1 ttlSeconds r
           else r(k := Some (c + 1, snd (the (r k))))))"

end
