(* ===== verification/JS_Values.thy ===== *)
theory JS_Values
  imports Prelude "HOL-Library.Char_ord" "HOL-Library.List_Lexorder"
begin

text \<open>
  The part of JavaScript the modelled code computes with: string functions (\<^verbatim>\<open>trim\<close>,
  \<^verbatim>\<open>toUpperCase\<close>, \<^verbatim>\<open>toLowerCase\<close>, \<^verbatim>\<open>includes\<close>, \<^verbatim>\<open>startsWith\<close>, \<^verbatim>\<open>endsWith\<close>), calendar days, JSON values and
  \<^verbatim>\<open>JSON.stringify\<close> of a string.  Strings are lists of 8-bit characters (header values, keys and
  identifiers of this program are ASCII; case mapping is the ASCII one).
\<close>

section \<open>Strings\<close>

definition js_space :: "char \<Rightarrow> bool" where
  "js_space c \<longleftrightarrow> (of_char c :: nat) \<in> {9, 10, 11, 12, 13, 32, 160}"

definition js_trim :: "string \<Rightarrow> string" where
  "js_trim s = rev (dropWhile js_space (rev (dropWhile js_space s)))"

definition upper_char :: "char \<Rightarrow> char" where
  "upper_char c = (let n = of_char c :: nat in if 97 \<le> n \<and> n \<le> 122 then char_of (n - 32) else c)"

definition lower_char :: "char \<Rightarrow> char" where
  "lower_char c = (let n = of_char c :: nat in if 65 \<le> n \<and> n \<le> 90 then char_of (n + 32) else c)"

definition js_upper :: "string \<Rightarrow> string" where "js_upper = map upper_char"
definition js_lower :: "string \<Rightarrow> string" where "js_lower = map lower_char"

fun js_startsWith :: "string \<Rightarrow> string \<Rightarrow> bool" where
  "js_startsWith s [] = True"
| "js_startsWith [] (_ # _) = False"
| "js_startsWith (c # s) (d # p) = (c = d \<and> js_startsWith s p)"

definition js_endsWith :: "string \<Rightarrow> string \<Rightarrow> bool" where
  "js_endsWith s p = js_startsWith (rev s) (rev p)"

fun js_includes :: "string \<Rightarrow> string \<Rightarrow> bool" where
  "js_includes [] p = (p = [])"
| "js_includes (c # s) p = (js_startsWith (c # s) p \<or> js_includes s p)"

definition is_lower :: "char \<Rightarrow> bool" where
  "is_lower c \<longleftrightarrow> (let n = of_char c :: nat in 97 \<le> n \<and> n \<le> 122)"
definition is_upper :: "char \<Rightarrow> bool" where
  "is_upper c \<longleftrightarrow> (let n = of_char c :: nat in 65 \<le> n \<and> n \<le> 90)"
definition is_digit :: "char \<Rightarrow> bool" where
  "is_digit c \<longleftrightarrow> (let n = of_char c :: nat in 48 \<le> n \<and> n \<le> 57)"

lemma js_startsWith_prefix: "js_startsWith s p \<longleftrightarrow> prefix p s"
  by (induction s p rule: js_startsWith.induct) auto

lemma js_endsWith_suffix: "js_endsWith s p \<longleftrightarrow> suffix p s"
  by (simp add: js_endsWith_def js_startsWith_prefix suffix_to_prefix)

lemma js_includes_sublist: "js_includes s p \<longleftrightarrow> sublist p s"
proof (induction s)
  case (Cons c s)
  then show ?case
    by (auto simp: js_startsWith_prefix sublist_Cons_right simp del: js_startsWith.simps)
qed auto

lemma upper_char_idem [simp]: "upper_char (upper_char c) = upper_char c"
  by (auto simp: upper_char_def Let_def)

lemma js_upper_idem [simp]: "js_upper (js_upper s) = js_upper s"
  by (simp add: js_upper_def)

lemma dropWhile_idem_hd: "dropWhile P (dropWhile P xs) = dropWhile P xs"
  by (induction xs) auto

lemma dropWhile_none: "\<forall>c \<in> set t. \<not> P c \<Longrightarrow> dropWhile P t = t"
  by (cases t) auto

lemma js_trim_no_space: "\<forall>c \<in> set s. \<not> js_space c \<Longrightarrow> js_trim s = s"
  by (simp add: js_trim_def dropWhile_none)

lemma set_js_trim: "set (js_trim s) \<subseteq> set s"
  by (auto simp: js_trim_def dest!: set_dropWhileD)

section \<open>Calendar days\<close>

text \<open>The time zone of the process, as a \<^verbatim>\<open>Date\<close> reads it: the local time of an instant and the instant of a local time.
  \<^verbatim>\<open>setDate\<close> moves the local calendar day and keeps the local time of day, so a day is not always 86400000 ms.\<close>

record TimeZone =
  tz_local :: "int \<Rightarrow> int"
  tz_instant :: "int \<Rightarrow> int"

definition addDays :: "TimeZone \<Rightarrow> int \<Rightarrow> int \<Rightarrow> int" where
  "addDays tz date days = tz_instant tz (tz_local tz date + days * 86400000)"

definition utc :: TimeZone where
  "utc = \<lparr>tz_local = id, tz_instant = id\<rparr>"

section \<open>JSON values\<close>

text \<open>A finite number is identified with the text \<^verbatim>\<open>JSON.stringify\<close> prints for it.\<close>

datatype js =
    JUndefined
  | JNull
  | JBool bool
  | JNumber string
  | JString string
  | JArray "js list"
  | JObject "(string \<times> js) list"

definition hex_digit :: "nat \<Rightarrow> char" where
  "hex_digit n = (if n < 10 then char_of (48 + n) else char_of (87 + n))"

definition json_short_escapes :: "(char \<times> char) list" where
  "json_short_escapes = [(CHR 0x22, CHR 0x22), (CHR 0x5C, CHR 0x5C), (CHR 0x08, CHR ''b''),
     (CHR 0x0C, CHR ''f''), (CHR 0x0A, CHR ''n''), (CHR 0x0D, CHR ''r''), (CHR 0x09, CHR ''t'')]"

definition json_escape_char :: "char \<Rightarrow> string" where
  "json_escape_char c =
     (case map_of json_short_escapes c of
        Some e \<Rightarrow> [CHR 0x5C, e]
      | None \<Rightarrow>
          (let n = of_char c :: nat in
           if n < 32 then [CHR 0x5C, CHR ''u'', CHR ''0'', CHR ''0'', hex_digit (n div 16), hex_digit (n mod 16)]
           else [c]))"

definition quote :: char where "quote = CHR 0x22"

definition json_string :: "string \<Rightarrow> string" where
  "json_string s = quote # concat (map json_escape_char s) @ [quote]"

lemma hex_digit_inj: "n < 16 \<Longrightarrow> m < 16 \<Longrightarrow> hex_digit n = hex_digit m \<Longrightarrow> n = m"
  by (auto simp: hex_digit_def split: if_splits dest!: arg_cong [where f = "of_char :: char \<Rightarrow> nat"])


text \<open>An escaped character is self-delimiting, and so is a quoted string.\<close>

lemma json_short_escape_inj:
  "map_of json_short_escapes c = Some e \<Longrightarrow> map_of json_short_escapes d = Some e \<Longrightarrow> c = d"
  by (auto simp: json_short_escapes_def split: if_splits)

lemma json_short_escape_not_u: "map_of json_short_escapes c = Some e \<Longrightarrow> e \<noteq> CHR ''u''"
  by (auto simp: json_short_escapes_def split: if_splits)

lemma json_short_escape_None: "map_of json_short_escapes c = None \<Longrightarrow> c \<noteq> quote \<and> c \<noteq> CHR 0x5C"
  by (auto simp: json_short_escapes_def quote_def split: if_splits)

lemma json_escape_char_first:
  "\<exists>c' t. json_escape_char c = c' # t \<and> c' \<noteq> quote \<and> (c' = CHR 0x5C \<longleftrightarrow> t \<noteq> []) \<and> (t = [] \<longrightarrow> c' = c)"
  using json_short_escape_None [of c]
  by (auto simp: json_escape_char_def Let_def quote_def split: option.split)

lemma json_escape_char_long:
  assumes "json_escape_char c @ x = json_escape_char d @ y" and "length (json_escape_char c) \<noteq> 1"
    and "length (json_escape_char d) \<noteq> 1"
  shows "c = d \<and> x = y"
proof -
  have hex: "c = d"
    if "hex_digit (of_char c div 16) = hex_digit (of_char d div 16)"
      "hex_digit (of_char c mod 16) = hex_digit (of_char d mod 16)" "of_char c < (32::nat)" "of_char d < (32::nat)"
  proof -
    have "of_char c div 16 = (of_char d div 16 :: nat)" "of_char c mod 16 = (of_char d mod 16 :: nat)"
      using that by (auto intro: hex_digit_inj)
    then have "of_char c = (of_char d :: nat)" by (metis div_mult_mod_eq)
    then show ?thesis by simp
  qed
  show ?thesis
    using assms hex json_short_escape_inj [of c _ d] json_short_escape_not_u [of c] json_short_escape_not_u [of d]
    by (auto simp: json_escape_char_def Let_def split: option.splits if_splits)
qed

lemma json_escape_char_cancel:
  assumes "json_escape_char c @ x = json_escape_char d @ y"
  shows "c = d \<and> x = y"
proof -
  obtain c' t d' u where c: "json_escape_char c = c' # t" "c' = CHR 0x5C \<longleftrightarrow> t \<noteq> []" "t = [] \<longrightarrow> c' = c"
    and d: "json_escape_char d = d' # u" "d' = CHR 0x5C \<longleftrightarrow> u \<noteq> []" "u = [] \<longrightarrow> d' = d"
    using json_escape_char_first by metis
  show ?thesis
  proof (cases "t = []")
    case True
    with assms c d show ?thesis by auto
  next
    case False
    with assms c d have "u \<noteq> []" by auto
    with False c d show ?thesis by (intro json_escape_char_long [OF assms]) auto
  qed
qed

lemma json_escape_not_quote: "json_escape_char c @ x \<noteq> quote # y"
  using json_escape_char_first [of c] by auto

lemma json_body_cancel:
  "concat (map json_escape_char s) @ quote # x = concat (map json_escape_char t) @ quote # y \<Longrightarrow> s = t \<and> x = y"
proof (induction s arbitrary: t)
  case Nil
  then show ?case
  proof (cases t)
    case (Cons d t')
    with Nil json_escape_not_quote [of d "concat (map json_escape_char t') @ quote # y" x] show ?thesis by simp
  qed simp
next
  case (Cons c s)
  show ?case
  proof (cases t)
    case Nil
    with Cons.prems json_escape_not_quote [of c "concat (map json_escape_char s) @ quote # x" y] show ?thesis by simp
  next
    case t: (Cons d t')
    with Cons.prems have "c = d" "concat (map json_escape_char s) @ quote # x = concat (map json_escape_char t') @ quote # y"
      using json_escape_char_cancel [of c "concat (map json_escape_char s) @ quote # x" d] by auto
    with Cons.IH t show ?thesis by simp
  qed
qed

lemma json_string_cancel: "json_string s @ x = json_string t @ y \<Longrightarrow> s = t \<and> x = y"
  using json_body_cancel [of s x t y] by (simp add: json_string_def)

text \<open>\<^verbatim>\<open>String(n)\<close> of a natural number.\<close>

function dec :: "nat \<Rightarrow> string" where
  "dec n = (if n < 10 then [char_of (48 + n)] else dec (n div 10) @ [char_of (48 + n mod 10)])"
  by pat_completeness auto
termination by (relation "measure id") auto

declare dec.simps [simp del]

definition undec :: "string \<Rightarrow> nat" where
  "undec s = foldl (\<lambda>n c. 10 * n + (of_char c - 48)) 0 s"

lemma undec_snoc: "undec (s @ [c]) = 10 * undec s + (of_char c - 48)"
  by (simp add: undec_def)

lemma undec_dec: "undec (dec n) = n"
proof (induction n rule: dec.induct)
  case (1 n)
  show ?case
  proof (cases "n < 10")
    case True then show ?thesis by (subst dec.simps) (simp add: undec_def)
  next
    case False
    with 1 have "undec (dec (n div 10)) = n div 10" by simp
    then show ?thesis using False by (subst dec.simps) (simp add: undec_snoc)
  qed
qed

lemma dec_inject [simp]: "dec m = dec n \<longleftrightarrow> m = n"
  by (metis undec_dec)

end
