(* ===== verification/Mail_Outbox.thy ===== *)
theory Mail_Outbox
  imports JS_Values "HOL-Library.Multiset"
begin

text \<open>
  The transactional mail outbox: \<^verbatim>\<open>src/src/infrastructure/mail\<close> with \<^verbatim>\<open>mail-outbox.repository.ts\<close>, the worker
  \<^verbatim>\<open>workers/mail.processor.ts\<close>, the sweeper \<^verbatim>\<open>workers/mail-outbox-sweeper.processor.ts\<close> and the queue.  The worker runs
  outside a transaction: every statement commits alone, so its phases are steps between which other workers run.  Resend
  is a list of the requests it was sent and an answer per call; BullMQ may start any job at any time.  Shown: every
  request to Resend carries the message as it was recorded, under one idempotency key, in every interleaving; sweeping and
  delivering drains the outbox; and where it does not: an address the worker refuses, and a failure that is reported late.
\<close>

section \<open>The table\<close>

datatype MailStatus = Pending | Sending | Sent | Failed

record MailOutboxRow =
  mo_id :: nat
  mo_to :: "string list"
  mo_subject :: string
  mo_html :: string
  mo_text :: "string option"
  mo_reply_to :: "string option"
  mo_tags :: "(string \<times> string) list option"
  mo_status :: MailStatus
  mo_resend_id :: "string option"
  mo_created_at :: millis
  mo_updated_at :: millis
  mo_sent_at :: "millis option"
  mo_dedupe_key :: "string option"

record MailEnqueueInput =
  me_to :: "string list"
  me_subject :: string
  me_html :: string
  me_text :: "string option"
  me_reply_to :: "string option"
  me_tags :: "(string \<times> string) list option"
  me_dedupeKey :: "string option"

datatype MailOutboxClaimResult = Claimed | InFlight | AlreadySent | ClaimFailed | NotFound

text \<open>An empty key counts as none in the code's test, but is stored and unique.\<close>

definition insertMailOutbox :: "millis \<Rightarrow> nat \<Rightarrow> MailEnqueueInput \<Rightarrow> MailOutboxRow tbl \<Rightarrow> (nat \<times> MailOutboxRow tbl) option" where
  "insertMailOutbox now nextId data t =
     (let row = \<lparr>mo_id = nextId, mo_to = me_to data, mo_subject = me_subject data, mo_html = me_html data, mo_text = me_text data,
        mo_reply_to = me_reply_to data, mo_tags = me_tags data, mo_status = Pending, mo_resend_id = None, mo_created_at = now,
        mo_updated_at = now, mo_sent_at = None, mo_dedupe_key = me_dedupeKey data\<rparr>;
          taken = (me_dedupeKey data \<noteq> None \<and> list_ex (\<lambda>r. mo_dedupe_key r = me_dedupeKey data) t)
      in if \<not> taken then Some (nextId, t @ [row])
         else if me_dedupeKey data = Some [] then None
         else map_option (\<lambda>r. (mo_id r, t)) (select_first (\<lambda>r. mo_dedupe_key r = me_dedupeKey data) t))"

definition findMailOutboxById :: "nat \<Rightarrow> MailOutboxRow tbl \<Rightarrow> MailOutboxRow option" where
  "findMailOutboxById i = select_first (\<lambda>r. mo_id r = i)"

text \<open>The claim is one statement; when it matches nothing a second one reads the status.\<close>

definition claim_pending :: "millis \<Rightarrow> nat \<Rightarrow> MailOutboxRow tbl \<Rightarrow> bool \<times> MailOutboxRow tbl" where
  "claim_pending jsNow i t = map_prod (\<lambda>r. r \<noteq> None) id
     (update_row (\<lambda>r. mo_id r = i \<and> mo_status r = Pending) (\<lambda>r. r\<lparr>mo_status := Sending, mo_updated_at := jsNow\<rparr>) t)"

definition unclaimed_result :: "nat \<Rightarrow> MailOutboxRow tbl \<Rightarrow> MailOutboxClaimResult" where
  "unclaimed_result i t = (case findMailOutboxById i t of
       None \<Rightarrow> NotFound
     | Some r \<Rightarrow> (case mo_status r of Sent \<Rightarrow> AlreadySent | Failed \<Rightarrow> ClaimFailed | _ \<Rightarrow> InFlight))"

definition tryClaimPendingMailOutbox :: "millis \<Rightarrow> nat \<Rightarrow> MailOutboxRow tbl \<Rightarrow> MailOutboxClaimResult \<times> MailOutboxRow tbl" where
  "tryClaimPendingMailOutbox jsNow i t = (case claim_pending jsNow i t of
       (True, t') \<Rightarrow> (Claimed, t') | (False, t') \<Rightarrow> (unclaimed_result i t', t'))"

definition stale_sending :: "millis \<Rightarrow> MailOutboxRow \<Rightarrow> bool" where
  "stale_sending before r \<longleftrightarrow> mo_status r = Sending \<and> mo_updated_at r < before"

definition reclaimStaleSendingMailOutboxIds :: "millis \<Rightarrow> millis \<Rightarrow> nat \<Rightarrow> MailOutboxRow tbl \<Rightarrow> nat list \<times> MailOutboxRow tbl" where
  "reclaimStaleSendingMailOutboxIds jsNow before limit t =
     (let staleIds = map mo_id (take limit (sort_key mo_updated_at (filter (stale_sending before) t)));
          p = (\<lambda>r. stale_sending before r \<and> mo_id r \<in> set staleIds)
      in (map mo_id (filter p t), update_where p (\<lambda>r. r\<lparr>mo_status := Pending, mo_updated_at := jsNow\<rparr>) t))"

definition findStalePendingMailOutboxIds :: "millis \<Rightarrow> nat \<Rightarrow> MailOutboxRow tbl \<Rightarrow> nat list" where
  "findStalePendingMailOutboxIds before limit t =
     map mo_id (take limit (sort_key mo_created_at (filter (\<lambda>r. mo_status r = Pending \<and> mo_created_at r < before) t)))"

definition markMailOutboxSent :: "millis \<Rightarrow> nat \<Rightarrow> string \<Rightarrow> MailOutboxRow tbl \<Rightarrow> MailOutboxRow tbl" where
  "markMailOutboxSent jsNow i messageId = update_where (\<lambda>r. mo_id r = i)
     (\<lambda>r. r\<lparr>mo_status := Sent, mo_resend_id := Some messageId, mo_sent_at := Some jsNow, mo_updated_at := jsNow, mo_html := [], mo_text := None\<rparr>)"

definition markMailOutboxFailed :: "millis \<Rightarrow> nat \<Rightarrow> MailOutboxRow tbl \<Rightarrow> MailOutboxRow tbl" where
  "markMailOutboxFailed jsNow i = update_where (\<lambda>r. mo_id r = i)
     (\<lambda>r. r\<lparr>mo_status := Failed, mo_updated_at := jsNow, mo_html := [], mo_text := None\<rparr>)"

definition releaseMailOutboxClaim :: "millis \<Rightarrow> nat \<Rightarrow> MailOutboxRow tbl \<Rightarrow> MailOutboxRow tbl" where
  "releaseMailOutboxClaim jsNow i = update_where (\<lambda>r. mo_id r = i \<and> mo_status r = Sending)
     (\<lambda>r. r\<lparr>mo_status := Pending, mo_updated_at := jsNow\<rparr>)"

definition countPendingMailOutbox :: "MailOutboxRow tbl \<Rightarrow> nat" where
  "countPendingMailOutbox t = length (filter (\<lambda>r. mo_status r = Pending) t)"

section \<open>The worker\<close>

definition MAIL_QUEUE_MAX_ATTEMPTS :: nat where "MAIL_QUEUE_MAX_ATTEMPTS = 8"
definition FIVE_SECONDS_MS :: int where "FIVE_SECONDS_MS = 5000"

text \<open>What a send fails with: an open circuit with its retry delay, or anything else.\<close>

datatype SendError = CircuitOpen int | SendError

definition mailBackoffStrategy :: "nat \<Rightarrow> SendError \<Rightarrow> int" where
  "mailBackoffStrategy attemptsMade e = (case e of
     CircuitOpen retryAfterMs \<Rightarrow> retryAfterMs | SendError \<Rightarrow> FIVE_SECONDS_MS * 2 ^ (max attemptsMade 1 - 1))"

definition buildMailOutboxIdempotencyKey :: "nat \<Rightarrow> string" where
  "buildMailOutboxIdempotencyKey i = ''mail-outbox-'' @ dec i"

record SendEmailOptions =
  se_to :: "string list"
  se_subject :: string
  se_html :: string
  se_text :: "string option"
  se_reply_to :: "string option"
  se_tags :: "(string \<times> string) list option"
  se_idempotencyKey :: string

definition send_options :: "MailOutboxRow \<Rightarrow> SendEmailOptions" where
  "send_options r = \<lparr>se_to = mo_to r, se_subject = mo_subject r, se_html = mo_html r, se_text = mo_text r, se_reply_to = mo_reply_to r,
     se_tags = mo_tags r, se_idempotencyKey = buildMailOutboxIdempotencyKey (mo_id r)\<rparr>"

datatype MailJobOutcome = Skipped | Delivered string | NotFoundUnrecoverable | TerminalUnrecoverable | NotClaimable | BadAddresses | SendThrew SendError

text \<open>Where a worker stands: before the read, the claim, the second read, the call, the mark, in the catch, at the end.\<close>

datatype MailPhase = Reading | Claiming MailOutboxRow | Rereading MailOutboxRow | Calling MailOutboxRow | Marking MailOutboxRow string
  | Catching MailOutboxRow SendError | Finished MailJobOutcome

record MailWorld =
  mw_outbox :: "MailOutboxRow tbl"
  mw_requests :: "SendEmailOptions list"    \<comment> \<open>what reached Resend\<close>

record MailJob =
  mj_outbox_id :: nat
  mj_attempt :: nat        \<comment> \<open>\<^verbatim>\<open>attemptsMade\<close>, from zero\<close>
  mj_max_attempts :: nat

text \<open>What the outside answers during one step: the clock, Resend, and whether the statement that marks the row goes through.
  \<open>validEmail\<close> is the address check of the schema library.\<close>

record MailAnswer =
  ma_now :: millis
  ma_send :: "SendError + string"
  ma_mark_ok :: bool

fun mail_step :: "(string \<Rightarrow> bool) \<Rightarrow> MailJob \<Rightarrow> MailAnswer \<Rightarrow> MailPhase \<times> MailWorld \<Rightarrow> MailPhase \<times> MailWorld" where
  "mail_step validEmail job a (Reading, w) = (case findMailOutboxById (mj_outbox_id job) (mw_outbox w) of
     None \<Rightarrow> (Finished NotFoundUnrecoverable, w) | Some r \<Rightarrow> (Claiming r, w))"
| "mail_step validEmail job a (Claiming r, w) = (case claim_pending (ma_now a) (mj_outbox_id job) (mw_outbox w) of
     (True, t) \<Rightarrow> (if list_all validEmail (mo_to r) then Calling r else Finished BadAddresses, w\<lparr>mw_outbox := t\<rparr>)
   | (False, t) \<Rightarrow> (Rereading r, w\<lparr>mw_outbox := t\<rparr>))"
| "mail_step validEmail job a (Rereading r, w) = (Finished (case unclaimed_result (mj_outbox_id job) (mw_outbox w) of
     AlreadySent \<Rightarrow> Skipped | InFlight \<Rightarrow> Skipped | ClaimFailed \<Rightarrow> TerminalUnrecoverable | _ \<Rightarrow> NotClaimable), w)"
| "mail_step validEmail job a (Calling r, w) = (case ma_send a of
     Inl (CircuitOpen ms) \<Rightarrow> (Catching r (CircuitOpen ms), w)
   | Inl SendError \<Rightarrow> (Catching r SendError, w\<lparr>mw_requests := mw_requests w @ [send_options r]\<rparr>)
   | Inr messageId \<Rightarrow> (Marking r messageId, w\<lparr>mw_requests := mw_requests w @ [send_options r]\<rparr>))"
| "mail_step validEmail job a (Marking r messageId, w) = (if ma_mark_ok a
     then (Finished (Delivered messageId), w\<lparr>mw_outbox := markMailOutboxSent (ma_now a) (mj_outbox_id job) messageId (mw_outbox w)\<rparr>)
     else (Catching r SendError, w))"
| "mail_step validEmail job a (Catching r e, w) = (Finished (SendThrew e), w\<lparr>mw_outbox :=
     (if mj_attempt job + 1 \<ge> mj_max_attempts job \<and> e = SendError then markMailOutboxFailed (ma_now a) (mj_outbox_id job) (mw_outbox w)
      else releaseMailOutboxClaim (ma_now a) (mj_outbox_id job) (mw_outbox w))\<rparr>)"
| "mail_step validEmail job a (Finished res, w) = (Finished res, w)"

text \<open>A job that nothing overlaps: five steps reach the end.\<close>

definition processMailOutboxJob :: "(string \<Rightarrow> bool) \<Rightarrow> MailJob \<Rightarrow> MailAnswer \<Rightarrow> MailWorld \<Rightarrow> MailJobOutcome \<times> MailWorld" where
  "processMailOutboxJob validEmail job a w = (case (mail_step validEmail job a ^^ 5) (Reading, w) of
     (Finished res, w') \<Rightarrow> (res, w') | (_, w') \<Rightarrow> (Skipped, w'))"

section \<open>The sweeper\<close>

definition MAIL_OUTBOX_RECLAIM_CIRCUIT_OPEN_MULTIPLIER :: int where "MAIL_OUTBOX_RECLAIM_CIRCUIT_OPEN_MULTIPLIER = 2"

record SweepEnv =
  sw_pending_minutes :: int
  sw_reclaim_minutes :: int
  sw_batch_size :: nat
  sw_circuit_open :: bool

text \<open>One pass: the ids handed to the queue (\<open>queue\<close> says which enqueues go through) and the table it leaves.\<close>

definition runMailOutboxSweeperJob :: "SweepEnv \<Rightarrow> (nat \<Rightarrow> bool) \<Rightarrow> millis \<Rightarrow> MailOutboxRow tbl \<Rightarrow> nat list \<times> MailOutboxRow tbl" where
  "runMailOutboxSweeperJob env queue jsNow t =
     (let reclaimMinutes = sw_reclaim_minutes env * (if sw_circuit_open env then MAIL_OUTBOX_RECLAIM_CIRCUIT_OPEN_MULTIPLIER else 1);
          (reclaimed, t1) = reclaimStaleSendingMailOutboxIds jsNow (jsNow - reclaimMinutes * 60000) (sw_batch_size env) t;
          pendingBatchSize = sw_batch_size env - length reclaimed;
          stalePending = (if pendingBatchSize > 0 then findStalePendingMailOutboxIds (jsNow - sw_pending_minutes env * 60000) pendingBatchSize t1 else [])
      in (filter queue (reclaimed @ stalePending), t1))"

section \<open>Every request carries the recorded message\<close>

text \<open>The outbox, the workers that run a job, and what each row was recorded with.\<close>

record MailSystem =
  ms_world :: MailWorld
  ms_workers :: "nat \<Rightarrow> (MailJob \<times> MailPhase) option"
  ms_recorded :: "nat \<Rightarrow> SendEmailOptions option"

inductive mail_system :: "(string \<Rightarrow> bool) \<Rightarrow> MailSystem \<Rightarrow> bool" for validEmail where
  start: "mail_system validEmail \<lparr>ms_world = \<lparr>mw_outbox = [], mw_requests = []\<rparr>, ms_workers = Map.empty, ms_recorded = Map.empty\<rparr>"
| record_mail: "mail_system validEmail s \<Longrightarrow> i \<notin> mo_id ` set (mw_outbox (ms_world s)) \<Longrightarrow>
    insertMailOutbox now i data (mw_outbox (ms_world s)) = Some (j, t) \<Longrightarrow>
    mail_system validEmail (s\<lparr>ms_world := (ms_world s)\<lparr>mw_outbox := t\<rparr>,
      ms_recorded := (if j = i then (ms_recorded s)(i \<mapsto> send_options (last t)) else ms_recorded s)\<rparr>)"
| job: "mail_system validEmail s \<Longrightarrow> mail_system validEmail (s\<lparr>ms_workers := (ms_workers s)(k \<mapsto> (job, Reading))\<rparr>)"
| work: "mail_system validEmail s \<Longrightarrow> ms_workers s k = Some (job, ph) \<Longrightarrow> mail_step validEmail job a (ph, ms_world s) = (ph', w) \<Longrightarrow>
    mail_system validEmail (s\<lparr>ms_world := w, ms_workers := (ms_workers s)(k \<mapsto> (job, ph'))\<rparr>)"
| crash: "mail_system validEmail s \<Longrightarrow> mail_system validEmail (s\<lparr>ms_workers := (ms_workers s)(k := None)\<rparr>)"
| sweep: "mail_system validEmail s \<Longrightarrow>
    mail_system validEmail (s\<lparr>ms_world := (ms_world s)\<lparr>mw_outbox := snd (runMailOutboxSweeperJob env queue now (mw_outbox (ms_world s)))\<rparr>\<rparr>)"

definition terminal_mail :: "MailOutboxRow \<Rightarrow> bool" where
  "terminal_mail r \<longleftrightarrow> mo_status r = Sent \<or> mo_status r = Failed"

text \<open>A row keeps its id and, until it is terminal, its message; a terminal row stays terminal.\<close>

definition row_evolves :: "MailOutboxRow \<Rightarrow> MailOutboxRow \<Rightarrow> bool" where
  "row_evolves r r' \<longleftrightarrow> mo_id r' = mo_id r \<and> (terminal_mail r \<longrightarrow> terminal_mail r') \<and> (\<not> terminal_mail r' \<longrightarrow> send_options r' = send_options r)"

definition outbox_evolves :: "MailOutboxRow tbl \<Rightarrow> MailOutboxRow tbl \<Rightarrow> bool" where
  "outbox_evolves t t' \<longleftrightarrow> list_all2 row_evolves t t'"

lemma update_evolves:
  assumes "\<And>r. p r \<Longrightarrow> row_evolves r (f r)"
  shows "outbox_evolves t (update_where p f t)"
proof -
  have "row_evolves r r" for r by (simp add: row_evolves_def)
  with assms show ?thesis by (auto simp: outbox_evolves_def update_where_def list_all2_conv_all_nth)
qed

lemma statements_evolve:
  "outbox_evolves t (snd (claim_pending now i t))" "outbox_evolves t (markMailOutboxSent now i m t)"
  "outbox_evolves t (markMailOutboxFailed now i t)" "outbox_evolves t (releaseMailOutboxClaim now i t)"
  "outbox_evolves t (snd (runMailOutboxSweeperJob env queue now t))"
  unfolding claim_pending_def markMailOutboxSent_def markMailOutboxFailed_def releaseMailOutboxClaim_def runMailOutboxSweeperJob_def
    reclaimStaleSendingMailOutboxIds_def Let_def
  by (auto simp: row_evolves_def terminal_mail_def send_options_def stale_sending_def intro!: update_evolves)

text \<open>A worker holds the message of its row, or has not claimed it and the row is terminal.\<close>

fun phase_ok :: "(nat \<Rightarrow> SendEmailOptions option) \<Rightarrow> MailOutboxRow tbl \<Rightarrow> MailJob \<Rightarrow> MailPhase \<Rightarrow> bool" where
  "phase_ok rec t job (Claiming r) \<longleftrightarrow> mo_id r = mj_outbox_id job \<and>
     (rec (mo_id r) = Some (send_options r) \<or> (\<exists>r' \<in> set t. mo_id r' = mo_id r \<and> terminal_mail r'))"
| "phase_ok rec t job (Calling r) \<longleftrightarrow> rec (mo_id r) = Some (send_options r)"
| "phase_ok rec t job _ \<longleftrightarrow> True"

definition mail_inv :: "MailSystem \<Rightarrow> bool" where
  "mail_inv s \<longleftrightarrow> distinct (map mo_id (mw_outbox (ms_world s))) \<and>
     (\<forall>r \<in> set (mw_outbox (ms_world s)). \<exists>m. ms_recorded s (mo_id r) = Some m \<and> (\<not> terminal_mail r \<longrightarrow> send_options r = m)) \<and>
     (\<forall>k job ph. ms_workers s k = Some (job, ph) \<longrightarrow> phase_ok (ms_recorded s) (mw_outbox (ms_world s)) job ph) \<and>
     (\<forall>q \<in> set (mw_requests (ms_world s)). \<exists>i. ms_recorded s i = Some q) \<and>
     (\<forall>i m. ms_recorded s i = Some m \<longrightarrow> se_idempotencyKey m = buildMailOutboxIdempotencyKey i \<and> i \<in> mo_id ` set (mw_outbox (ms_world s)))"

lemma evolves_ids: "outbox_evolves t t' \<Longrightarrow> map mo_id t' = map mo_id t"
  by (auto simp: outbox_evolves_def list_all2_conv_all_nth row_evolves_def intro!: nth_equalityI)

lemma evolves_row: "outbox_evolves t t' \<Longrightarrow> r' \<in> set t' \<Longrightarrow> \<exists>r \<in> set t. row_evolves r r'"
  unfolding outbox_evolves_def list_all2_conv_all_nth by (metis in_set_conv_nth)

lemma evolves_row_forward: "outbox_evolves t t' \<Longrightarrow> r \<in> set t \<Longrightarrow> \<exists>r' \<in> set t'. row_evolves r r'"
  unfolding outbox_evolves_def list_all2_conv_all_nth by (metis in_set_conv_nth)

lemma phase_evolves:
  assumes "outbox_evolves t t'" and "phase_ok rec t job ph"
  shows "phase_ok rec t' job ph"
proof (cases ph)
  case (Claiming r)
  show ?thesis
  proof (cases "rec (mo_id r) = Some (send_options r)")
    case False
    then obtain r0 where "r0 \<in> set t" "mo_id r0 = mo_id r" "terminal_mail r0" using assms(2) Claiming by auto
    with evolves_row_forward [OF assms(1)] have "\<exists>r' \<in> set t'. mo_id r' = mo_id r \<and> terminal_mail r'" by (fastforce simp: row_evolves_def)
    then show ?thesis using assms(2) Claiming by simp
  qed (use assms(2) Claiming in simp)
qed (use assms(2) in simp_all)

lemma inv_world:
  assumes "mail_inv s" and "outbox_evolves (mw_outbox (ms_world s)) (mw_outbox w)" and "set (mw_requests w) \<subseteq> set (mw_requests (ms_world s)) \<union> {m. \<exists>i. ms_recorded s i = Some m}"
    and "\<And>k job ph. ws k = Some (job, ph) \<Longrightarrow> ms_workers s k = Some (job, ph) \<or> phase_ok (ms_recorded s) (mw_outbox w) job ph"
  shows "mail_inv (s\<lparr>ms_world := w, ms_workers := ws\<rparr>)"
proof -
  let ?t = "mw_outbox (ms_world s)" and ?t' = "mw_outbox w"
  have ids: "map mo_id ?t' = map mo_id ?t" by (rule evolves_ids [OF assms(2)])
  then have set_ids: "mo_id ` set ?t' = mo_id ` set ?t" by (metis set_map)
  have rows: "\<exists>m. ms_recorded s (mo_id r') = Some m \<and> (\<not> terminal_mail r' \<longrightarrow> send_options r' = m)" if r': "r' \<in> set ?t'" for r'
  proof -
    obtain r where r: "r \<in> set ?t" "row_evolves r r'" using evolves_row [OF assms(2) r'] by blast
    from assms(1) r(1) obtain m where "ms_recorded s (mo_id r) = Some m" "\<not> terminal_mail r \<longrightarrow> send_options r = m" by (auto simp: mail_inv_def)
    with r(2) show ?thesis by (auto simp: row_evolves_def)
  qed
  have phases: "phase_ok (ms_recorded s) ?t' job ph" if "ws k = Some (job, ph)" for k job ph
    using assms(4) [OF that] assms(1) phase_evolves [OF assms(2)] by (auto simp: mail_inv_def)
  show ?thesis
    using assms(1,3) ids set_ids rows phases by (auto simp: mail_inv_def)
qed

lemma claim_holds_message:
  assumes "mail_inv s" and "phase_ok (ms_recorded s) (mw_outbox (ms_world s)) job (Claiming r)"
    and "fst (claim_pending now (mj_outbox_id job) (mw_outbox (ms_world s)))"
  shows "ms_recorded s (mo_id r) = Some (send_options r)"
proof (rule ccontr)
  let ?t = "mw_outbox (ms_world s)"
  assume "\<not> ?thesis"
  then obtain r' where r': "r' \<in> set ?t" "mo_id r' = mj_outbox_id job" "terminal_mail r'" using assms(2) by auto
  have "\<exists>x \<in> set ?t. mo_id x = mj_outbox_id job \<and> mo_status x = Pending"
    using assms(3) update_row_Some unfolding claim_pending_def by fastforce
  then obtain x where x: "x \<in> set ?t" "mo_id x = mj_outbox_id job" "mo_status x = Pending" by blast
  have "x = r'" using assms(1) x r' by (auto simp: mail_inv_def distinct_map inj_on_def)
  with x(3) r'(3) show False by (simp add: terminal_mail_def)
qed

lemma work_inv:
  assumes "mail_inv s" and "ms_workers s k = Some (job, ph)" and "mail_step validEmail job a (ph, ms_world s) = (ph', w)"
  shows "mail_inv (s\<lparr>ms_world := w, ms_workers := (ms_workers s)(k \<mapsto> (job, ph'))\<rparr>)"
proof -
  let ?t = "mw_outbox (ms_world s)"
  have ok: "phase_ok (ms_recorded s) ?t job ph" using assms(1,2) by (auto simp: mail_inv_def)
  have refl: "outbox_evolves ?t ?t" by (simp add: outbox_evolves_def row_evolves_def list_all2_same)
  have goal: "mail_inv (s\<lparr>ms_world := w, ms_workers := (ms_workers s)(k \<mapsto> (job, ph'))\<rparr>)"
    if "outbox_evolves ?t (mw_outbox w)" "set (mw_requests w) \<subseteq> set (mw_requests (ms_world s)) \<union> {m. \<exists>i. ms_recorded s i = Some m}"
      "phase_ok (ms_recorded s) (mw_outbox w) job ph'"
    using that by (intro inv_world [OF assms(1)]) (auto split: if_splits)
  show ?thesis
  proof (cases ph)
    case Reading
    have found: "phase_ok (ms_recorded s) ?t job (Claiming r)" if "findMailOutboxById (mj_outbox_id job) ?t = Some r" for r
    proof -
      have r: "r \<in> set ?t" "mo_id r = mj_outbox_id job" using select_first_Some_iff [OF that [unfolded findMailOutboxById_def]] by auto
      with assms(1) show ?thesis by (cases "terminal_mail r") (auto simp: mail_inv_def)
    qed
    show ?thesis using assms(3) Reading found refl by (intro goal) (auto split: option.splits)
  next
    case (Claiming r)
    obtain b t where c: "claim_pending (ma_now a) (mj_outbox_id job) ?t = (b, t)" by fastforce
    have ev: "outbox_evolves ?t t" using statements_evolve(1) c by (metis snd_conv)
    have "ms_recorded s (mo_id r) = Some (send_options r)" if b
      using claim_holds_message [OF assms(1) ok [unfolded Claiming], of "ma_now a"] c that by simp
    then show ?thesis using assms(3) Claiming c ev by (intro goal) (auto split: bool.splits if_splits)
  next
    case (Rereading r)
    then show ?thesis using assms(3) refl by (intro goal) auto
  next
    case (Calling r)
    then have "ms_recorded s (mo_id r) = Some (send_options r)" using ok by simp
    then show ?thesis using assms(3) Calling refl by (intro goal) (auto split: sum.splits SendError.splits)
  next
    case (Marking r m)
    then show ?thesis using assms(3) refl statements_evolve(2) by (intro goal) (auto split: if_splits)
  next
    case (Catching r e)
    then show ?thesis using assms(3) statements_evolve(3,4) by (intro goal) (auto split: if_splits)
  next
    case (Finished res)
    then show ?thesis using assms(3) refl by (intro goal) auto
  qed
qed

lemma mail_system_inv: "mail_system validEmail s \<Longrightarrow> mail_inv s"
proof (induction rule: mail_system.induct)
  case start
  show ?case by (simp add: mail_inv_def)
next
  case (record_mail s i now data j t)
  show ?case
  proof (cases "j = i")
    case True
    let ?t = "mw_outbox (ms_world s)"
    obtain row where t: "t = ?t @ [row]" and row: "mo_id row = i" "\<not> terminal_mail row"
      using record_mail(2,3) True
      by (auto simp: insertMailOutbox_def Let_def terminal_mail_def split: if_splits dest!: select_first_Some_iff)
    have new: "ms_recorded s i = None" using record_mail(2,4) by (cases "ms_recorded s i") (auto simp: mail_inv_def)
    have phases: "phase_ok ((ms_recorded s)(i \<mapsto> send_options row)) t job ph" if "phase_ok (ms_recorded s) ?t job ph" for job ph
      using that new record_mail(2) by (cases ph) (auto simp: t image_iff)
    have requests: "\<exists>i'. ((ms_recorded s)(i \<mapsto> send_options row)) i' = Some q" if "\<exists>i. ms_recorded s i = Some q" for q
      using that new by (metis fun_upd_apply option.distinct(1))
    show ?thesis
      using record_mail(2,4) True new phases row requests
      by (auto simp: mail_inv_def t send_options_def split: if_splits)
  next
    case False
    then have "t = mw_outbox (ms_world s)" using record_mail(3) by (auto simp: insertMailOutbox_def Let_def split: if_splits)
    with False record_mail(4) show ?thesis by simp
  qed
next
  case (job s k j)
  then show ?case by (auto simp: mail_inv_def)
next
  case (work s k job ph a ph' w)
  then show ?case by (intro work_inv) auto
next
  case (crash s k)
  then show ?case by (auto simp: mail_inv_def split: if_splits)
next
  case (sweep s env queue now)
  then show ?case using inv_world [OF sweep(2) _ _ disjI1, of "(ms_world s)\<lparr>mw_outbox := snd (runMailOutboxSweeperJob env queue now (mw_outbox (ms_world s)))\<rparr>" "ms_workers s"]
    statements_evolve(5) by simp
qed

text \<open>C5 Whatever workers, crashes, retries and sweeps interleave, every request that reaches Resend is the message of some row as it
  was recorded, body included, under the idempotency key of that row; and two requests with the same key are equal, so the provider may
  answer the second from the first.  A worker that read the row before another delivered and scrubbed it never sends the empty body.\<close>

theorem requests_carry_recorded_message:
  assumes "mail_system validEmail s" and "q \<in> set (mw_requests (ms_world s))" and "q' \<in> set (mw_requests (ms_world s))"
  shows "(\<exists>i. ms_recorded s i = Some q \<and> se_idempotencyKey q = buildMailOutboxIdempotencyKey i) \<and>
    (se_idempotencyKey q = se_idempotencyKey q' \<longrightarrow> q = q')"
proof -
  have one: "\<exists>i. ms_recorded s i = Some q \<and> se_idempotencyKey q = buildMailOutboxIdempotencyKey i" if "q \<in> set (mw_requests (ms_world s))" for q
    using mail_system_inv [OF assms(1)] that unfolding mail_inv_def by blast
  from one [OF assms(2)] one [OF assms(3)] show ?thesis by (auto simp: buildMailOutboxIdempotencyKey_def)
qed

definition demo_mail :: MailEnqueueInput where
  "demo_mail = \<lparr>me_to = [''a''], me_subject = ''s'', me_html = ''h'', me_text = None, me_reply_to = None, me_tags = None, me_dedupeKey = None\<rparr>"

definition demo_mail_row :: MailOutboxRow where
  "demo_mail_row = \<lparr>mo_id = 1, mo_to = [''a''], mo_subject = ''s'', mo_html = ''h'', mo_text = None, mo_reply_to = None, mo_tags = None,
     mo_status = Pending, mo_resend_id = None, mo_created_at = 0, mo_updated_at = 0, mo_sent_at = None, mo_dedupe_key = None\<rparr>"

definition demo_job :: "nat \<Rightarrow> MailJob" where
  "demo_job n = \<lparr>mj_outbox_id = 1, mj_attempt = n, mj_max_attempts = MAIL_QUEUE_MAX_ATTEMPTS\<rparr>"

definition demo_answer :: "millis \<Rightarrow> SendError + string \<Rightarrow> MailAnswer" where
  "demo_answer now a = \<lparr>ma_now = now, ma_send = a, ma_mark_ok = True\<rparr>"

lemmas mail_demo = demo_mail_def demo_mail_row_def demo_job_def demo_answer_def insertMailOutbox_def findMailOutboxById_def claim_pending_def
  update_row_def update_returning_def update_where_def select_first_def rows0_def

definition called_state :: MailSystem where
  "called_state = \<lparr>ms_world = \<lparr>mw_outbox = [demo_mail_row\<lparr>mo_status := Sending, mo_updated_at := 2\<rparr>], mw_requests = [send_options demo_mail_row]\<rparr>,
     ms_workers = [0 \<mapsto> (demo_job 0, Marking demo_mail_row ''m'')], ms_recorded = [1 \<mapsto> send_options demo_mail_row]\<rparr>"

lemma called_state_reached: "mail_system (\<lambda>_. True) called_state"
proof -
  have 1: "mail_system (\<lambda>_. True) \<lparr>ms_world = \<lparr>mw_outbox = [demo_mail_row], mw_requests = []\<rparr>, ms_workers = Map.empty, ms_recorded = [1 \<mapsto> send_options demo_mail_row]\<rparr>"
    using record_mail [OF start, of 1 0 demo_mail 1 "[demo_mail_row]"] by (simp add: mail_demo)
  from job [OF this, of 0 "demo_job 0"]
  have 2: "mail_system (\<lambda>_. True) \<lparr>ms_world = \<lparr>mw_outbox = [demo_mail_row], mw_requests = []\<rparr>, ms_workers = [0 \<mapsto> (demo_job 0, Reading)], ms_recorded = [1 \<mapsto> send_options demo_mail_row]\<rparr>"
    by simp
  from work [OF this, of 0 "demo_job 0" Reading "demo_answer 1 (Inr ''m'')"]
  have 3: "mail_system (\<lambda>_. True) \<lparr>ms_world = \<lparr>mw_outbox = [demo_mail_row], mw_requests = []\<rparr>, ms_workers = [0 \<mapsto> (demo_job 0, Claiming demo_mail_row)], ms_recorded = [1 \<mapsto> send_options demo_mail_row]\<rparr>"
    by (simp add: mail_demo)
  from work [OF this, of 0 "demo_job 0" "Claiming demo_mail_row" "demo_answer 2 (Inr ''m'')"]
  have 4: "mail_system (\<lambda>_. True) \<lparr>ms_world = \<lparr>mw_outbox = [demo_mail_row\<lparr>mo_status := Sending, mo_updated_at := 2\<rparr>], mw_requests = []\<rparr>,
      ms_workers = [0 \<mapsto> (demo_job 0, Calling demo_mail_row)], ms_recorded = [1 \<mapsto> send_options demo_mail_row]\<rparr>"
    by (simp add: mail_demo)
  from work [OF this, of 0 "demo_job 0" "Calling demo_mail_row" "demo_answer 3 (Inr ''m'')"] show ?thesis
    by (simp add: demo_answer_def called_state_def)
qed

theorem requests_carry_recorded_message_witness: "\<exists>i. ms_recorded called_state i = Some (send_options demo_mail_row)"
  using requests_carry_recorded_message [OF called_state_reached, of "send_options demo_mail_row" "send_options demo_mail_row"]
  by (auto simp: called_state_def)

section \<open>Sweeping and delivering drains the outbox\<close>

definition unfinished :: "MailOutboxRow tbl \<Rightarrow> MailOutboxRow list" where
  "unfinished t = filter (\<lambda>r. \<not> terminal_mail r) t"

text \<open>A pass of the sweeper whose enqueues all go through, then the jobs it enqueued, one after the other.\<close>

fun deliver_round :: "(string \<Rightarrow> bool) \<Rightarrow> SweepEnv \<Rightarrow> MailWorld \<Rightarrow> millis \<times> (nat \<Rightarrow> MailAnswer) \<Rightarrow> MailWorld" where
  "deliver_round validEmail env w (now, answer) = (case runMailOutboxSweeperJob env (\<lambda>_. True) now (mw_outbox w) of
     (ids, t) \<Rightarrow> foldl (\<lambda>w i. snd (processMailOutboxJob validEmail \<lparr>mj_outbox_id = i, mj_attempt = 0, mj_max_attempts = MAIL_QUEUE_MAX_ATTEMPTS\<rparr> (answer i) w))
       (w\<lparr>mw_outbox := t\<rparr>) ids)"

text \<open>Old enough for the sweeper at that time.\<close>

definition sweepable :: "SweepEnv \<Rightarrow> millis \<Rightarrow> MailOutboxRow \<Rightarrow> bool" where
  "sweepable env now r \<longleftrightarrow> (case mo_status r of
       Pending \<Rightarrow> mo_created_at r < now - sw_pending_minutes env * 60000
     | Sending \<Rightarrow> stale_sending (now - sw_reclaim_minutes env * (if sw_circuit_open env then MAIL_OUTBOX_RECLAIM_CIRCUIT_OPEN_MULTIPLIER else 1) * 60000) r
     | _ \<Rightarrow> True)"

definition accepts :: "MailAnswer \<Rightarrow> bool" where
  "accepts a \<longleftrightarrow> \<not> isl (ma_send a) \<and> ma_mark_ok a"

lemma find_unique:
  assumes "distinct (map mo_id t)" and "r \<in> set t"
  shows "findMailOutboxById (mo_id r) t = Some r"
  using assms by (induction t) (auto simp: findMailOutboxById_def select_first_def rows0_def)

lemma claim_unique:
  assumes "distinct (map mo_id t)" and "r \<in> set t"
  shows "claim_pending now (mo_id r) t = (mo_status r = Pending,
    update_where (\<lambda>x. mo_id x = mo_id r \<and> mo_status x = Pending) (\<lambda>x. x\<lparr>mo_status := Sending, mo_updated_at := now\<rparr>) t)"
proof -
  have "(\<exists>x \<in> set t. mo_id x = mo_id r \<and> mo_status x = Pending) \<longleftrightarrow> mo_status r = Pending"
    using assms by (auto simp: distinct_map inj_on_def)
  then have "fst (update_row (\<lambda>x. mo_id x = mo_id r \<and> mo_status x = Pending) f t) \<noteq> None \<longleftrightarrow> mo_status r = Pending" for f
    unfolding update_row_None by blast
  then show ?thesis by (intro prod_eqI) (simp_all add: claim_pending_def)
qed

text \<open>A job for a pending row delivers it once; a job for a terminal row changes nothing.\<close>

lemma job_delivers:
  assumes "distinct (map mo_id (mw_outbox w))" and "r \<in> set (mw_outbox w)" and "mo_status r = Pending" and "list_all validEmail (mo_to r)"
    and "accepts a" and "w' = snd (processMailOutboxJob validEmail \<lparr>mj_outbox_id = mo_id r, mj_attempt = n, mj_max_attempts = m\<rparr> a w)"
  shows "map mo_id (mw_outbox w') = map mo_id (mw_outbox w)"
    and "unfinished (mw_outbox w') = filter (\<lambda>x. mo_id x \<noteq> mo_id r) (unfinished (mw_outbox w))"
    and "mw_requests w' = mw_requests w @ [send_options r]"
    and "\<And>x. x \<in> set (mw_outbox w') \<Longrightarrow> terminal_mail x \<or> x \<in> set (mw_outbox w)"
proof -
  let ?c = "update_where (\<lambda>x. mo_id x = mo_id r \<and> mo_status x = Pending) (\<lambda>x. x\<lparr>mo_status := Sending, mo_updated_at := ma_now a\<rparr>) (mw_outbox w)"
  obtain mid where mid: "ma_send a = Inr mid" "ma_mark_ok a" using assms(5) by (cases "ma_send a") (auto simp: accepts_def)
  have w': "w' = w\<lparr>mw_outbox := markMailOutboxSent (ma_now a) (mo_id r) mid ?c, mw_requests := mw_requests w @ [send_options r]\<rparr>"
    using assms(3,4) mid find_unique [OF assms(1,2)] claim_unique [OF assms(1,2), of "ma_now a"]
    unfolding assms(6) processMailOutboxJob_def by (simp add: eval_nat_numeral)
  then show "map mo_id (mw_outbox w') = map mo_id (mw_outbox w)" "mw_requests w' = mw_requests w @ [send_options r]"
    by (auto simp: markMailOutboxSent_def update_where_def)
  show "unfinished (mw_outbox w') = filter (\<lambda>x. mo_id x \<noteq> mo_id r) (unfinished (mw_outbox w))"
  proof -
    have "unfinished (markMailOutboxSent (ma_now a) (mo_id r) mid (update_where (\<lambda>x. mo_id x = mo_id r \<and> mo_status x = Pending)
        (\<lambda>x. x\<lparr>mo_status := Sending, mo_updated_at := ma_now a\<rparr>) t)) = filter (\<lambda>x. mo_id x \<noteq> mo_id r) (unfinished t)" for t
      by (induction t) (auto simp: unfinished_def markMailOutboxSent_def terminal_mail_def)
    then show ?thesis by (simp add: w')
  qed
  show "terminal_mail x \<or> x \<in> set (mw_outbox w)" if "x \<in> set (mw_outbox w')" for x
    using that unfolding w' by (auto simp: markMailOutboxSent_def update_where_def terminal_mail_def split: if_splits)
qed

lemma job_skips:
  assumes "distinct (map mo_id (mw_outbox w))" and "r \<in> set (mw_outbox w)" and "terminal_mail r"
  shows "snd (processMailOutboxJob validEmail \<lparr>mj_outbox_id = mo_id r, mj_attempt = n, mj_max_attempts = m\<rparr> a w) = w"
proof -
  have "update_where (\<lambda>x. mo_id x = mo_id r \<and> mo_status x = Pending) f (mw_outbox w) = mw_outbox w" for f
    using assms by (intro update_where_id) (auto simp: distinct_map inj_on_def terminal_mail_def)
  moreover have "mo_status r \<noteq> Pending" using assms(3) by (auto simp: terminal_mail_def)
  ultimately show ?thesis
    using find_unique [OF assms(1,2)] claim_unique [OF assms(1,2), of "ma_now a"]
    by (simp add: processMailOutboxJob_def eval_nat_numeral)
qed

lemma unfinished_split:
  assumes "distinct (map mo_id u)" and "r \<in> set u"
  shows "mset u = add_mset r (mset (filter (\<lambda>x. mo_id x \<noteq> mo_id r) u))"
  using assms
proof (induction u)
  case (Cons x u)
  show ?case
  proof (cases "x = r")
    case True
    with Cons(2) have "filter (\<lambda>y. mo_id y \<noteq> mo_id r) u = u" by (auto simp: filter_id_conv image_iff)
    with True show ?thesis by simp
  next
    case False
    with Cons(2,3) have "mo_id x \<noteq> mo_id r" "r \<in> set u" by (auto simp: image_iff)
    with Cons(1,2) show ?thesis by simp
  qed
qed simp

text \<open>The requests made and the messages still to send make up the same collection before and after.\<close>

definition mail_due :: "MailWorld \<Rightarrow> SendEmailOptions multiset" where
  "mail_due w = mset (mw_requests w) + image_mset send_options (mset (unfinished (mw_outbox w)))"

definition claimable :: "MailOutboxRow tbl \<Rightarrow> nat \<Rightarrow> bool" where
  "claimable t i \<longleftrightarrow> (\<exists>r \<in> set t. mo_id r = i \<and> (mo_status r = Pending \<or> terminal_mail r))"

lemma distinct_unfinished: "distinct (map mo_id t) \<Longrightarrow> distinct (map mo_id (unfinished t))"
  by (simp add: unfinished_def distinct_map_filter)

lemma jobs_drain:
  assumes "distinct (map mo_id (mw_outbox w))" and "\<And>i. i \<in> set ids \<Longrightarrow> claimable (mw_outbox w) i"
    and "\<And>r. r \<in> set (unfinished (mw_outbox w)) \<Longrightarrow> list_all validEmail (mo_to r)" and "\<And>i. accepts (answer i)"
    and "w' = foldl (\<lambda>w i. snd (processMailOutboxJob validEmail \<lparr>mj_outbox_id = i, mj_attempt = n, mj_max_attempts = m\<rparr> (answer i) w)) w ids"
  shows "map mo_id (mw_outbox w') = map mo_id (mw_outbox w) \<and> mail_due w' = mail_due w \<and>
    unfinished (mw_outbox w') = filter (\<lambda>r. mo_id r \<notin> set ids) (unfinished (mw_outbox w))"
  using assms(1-3,5)
proof (induction ids arbitrary: w)
  case (Cons i ids)
  define w1 where "w1 = snd (processMailOutboxJob validEmail \<lparr>mj_outbox_id = i, mj_attempt = n, mj_max_attempts = m\<rparr> (answer i) w)"
  from Cons(3) [of i] obtain r where r: "r \<in> set (mw_outbox w)" "mo_id r = i" "mo_status r = Pending \<or> terminal_mail r"
    by (auto simp: claimable_def)
  have one: "map mo_id (mw_outbox w1) = map mo_id (mw_outbox w) \<and> mail_due w1 = mail_due w \<and>
      unfinished (mw_outbox w1) = filter (\<lambda>r. mo_id r \<noteq> i) (unfinished (mw_outbox w)) \<and>
      (\<forall>x \<in> set (mw_outbox w1). terminal_mail x \<or> x \<in> set (mw_outbox w))"
  proof (cases "terminal_mail r")
    case True
    then have "w1 = w" using job_skips [OF Cons(2) r(1)] r(2) by (simp add: w1_def)
    moreover have "filter (\<lambda>r. mo_id r \<noteq> i) (unfinished (mw_outbox w)) = unfinished (mw_outbox w)"
      using Cons(2) r(1,2) True unfolding filter_id_conv by (auto simp: unfinished_def distinct_map inj_on_def)
    ultimately show ?thesis by simp
  next
    case False
    then have u: "r \<in> set (unfinished (mw_outbox w))" using r(1) by (simp add: unfinished_def)
    have p: "mo_status r = Pending" using r(3) False by simp
    note d = job_delivers [OF Cons(2) r(1) p Cons(4) [OF u] assms(4), of w1 n m i, unfolded r(2), OF w1_def]
    have "image_mset send_options (mset (unfinished (mw_outbox w))) =
        add_mset (send_options r) (image_mset send_options (mset (filter (\<lambda>x. mo_id x \<noteq> i) (unfinished (mw_outbox w)))))"
      using unfinished_split [OF distinct_unfinished [OF Cons(2)] u] unfolding r(2) by (metis image_mset_add_mset)
    then have "mail_due w1 = mail_due w" unfolding mail_due_def d(2,3) by (simp del: mset_filter)
    with d show ?thesis by blast
  qed
  have c: "claimable (mw_outbox w1) j" if j: "j \<in> set ids" for j
  proof -
    from Cons(3) [of j] j obtain x where x: "x \<in> set (mw_outbox w)" "mo_id x = j" "mo_status x = Pending \<or> terminal_mail x"
      by (auto simp: claimable_def)
    from one have "mo_id ` set (mw_outbox w1) = mo_id ` set (mw_outbox w)" by (metis set_map)
    with x obtain y where y: "y \<in> set (mw_outbox w1)" "mo_id y = j" by (metis imageE imageI)
    from one y(1) Cons(2) x y(2) have "terminal_mail y \<or> y = x" by (auto simp: distinct_map inj_on_def)
    with x y show ?thesis by (auto simp: claimable_def)
  qed
  have d: "distinct (map mo_id (mw_outbox w1))" using one Cons(2) by simp
  have v: "list_all validEmail (mo_to x)" if "x \<in> set (unfinished (mw_outbox w1))" for x using that one Cons(4) by auto
  have f: "w' = foldl (\<lambda>w i. snd (processMailOutboxJob validEmail \<lparr>mj_outbox_id = i, mj_attempt = n, mj_max_attempts = m\<rparr> (answer i) w)) w1 ids"
    using Cons(5) by (simp add: w1_def)
  have ih: "map mo_id (mw_outbox w') = map mo_id (mw_outbox w1) \<and> mail_due w' = mail_due w1 \<and>
      unfinished (mw_outbox w') = filter (\<lambda>r. mo_id r \<notin> set ids) (unfinished (mw_outbox w1))"
    by (rule Cons(1) [OF d c v f])
  have "filter (\<lambda>r. mo_id r \<notin> set ids) (filter (\<lambda>r. mo_id r \<noteq> i) u) = filter (\<lambda>r. mo_id r \<notin> set (i # ids)) u" for u
    by (auto intro!: filter_cong)
  with ih one show ?case by (simp del: filter_filter)
qed simp

lemma sweep_cases:
  assumes "runMailOutboxSweeperJob env (\<lambda>_. True) now t = (ids, t1)"
  shows "\<exists>p pending. t1 = update_where p (\<lambda>r. r\<lparr>mo_status := Pending, mo_updated_at := now\<rparr>) t \<and> (\<forall>r. p r \<longrightarrow> mo_status r = Sending) \<and>
    ids = map mo_id (filter p t) @ map mo_id pending \<and> (\<forall>r \<in> set pending. r \<in> set t1 \<and> mo_status r = Pending) \<and>
    (0 < sw_batch_size env \<and> list_all (sweepable env now) t \<and> unfinished t \<noteq> [] \<longrightarrow> filter p t @ pending \<noteq> [])"
proof -
  define before where "before = now - sw_reclaim_minutes env * (if sw_circuit_open env then MAIL_OUTBOX_RECLAIM_CIRCUIT_OPEN_MULTIPLIER else 1) * 60000"
  define stale where "stale = filter (stale_sending before) t"
  define p where "p r \<longleftrightarrow> stale_sending before r \<and> mo_id r \<in> set (map mo_id (take (sw_batch_size env) (sort_key mo_updated_at stale)))" for r
  define n where "n = sw_batch_size env - length (filter p t)"
  define old where "old = filter (\<lambda>r. mo_status r = Pending \<and> mo_created_at r < now - sw_pending_minutes env * 60000) t1"
  define pending where "pending = (if n > 0 then take n (sort_key mo_created_at old) else [])"
  have t1: "t1 = update_where p (\<lambda>r. r\<lparr>mo_status := Pending, mo_updated_at := now\<rparr>) t"
    and ids: "ids = map mo_id (filter p t) @ map mo_id pending"
    using assms
    by (auto simp: runMailOutboxSweeperJob_def reclaimStaleSendingMailOutboxIds_def findStalePendingMailOutboxIds_def Let_def p_def [abs_def] stale_def
      before_def pending_def old_def n_def split: if_splits)
  have taken: "r \<in> set t1 \<and> mo_status r = Pending" if "r \<in> set pending" for r
    using that by (auto simp: pending_def old_def split: if_splits dest!: in_set_takeD)
  have progress: "filter p t @ pending \<noteq> []" if pos: "0 < sw_batch_size env" and sw: "list_all (sweepable env now) t" and un: "unfinished t \<noteq> []"
  proof (cases "stale = []")
    case False
    then obtain x where "x \<in> set (take (sw_batch_size env) (sort_key mo_updated_at stale))"
      using pos by (metis length_0_conv length_greater_0_conv length_sort list.set_sel(1) take_eq_Nil neq0_conv)
    moreover from this have "x \<in> set stale" by (auto dest!: in_set_takeD)
    ultimately have "x \<in> set (filter p t)" by (auto simp: p_def stale_def)
    then show ?thesis by (metis append_is_Nil_conv empty_iff empty_set)
  next
    case True
    then have no: "\<not> p r" for r by (simp add: p_def)
    then have same: "t1 = t" by (simp add: t1 update_where_id)
    from un obtain r where r: "r \<in> set t" "\<not> terminal_mail r" by (auto simp: unfinished_def filter_empty_conv)
    from sw r(1) have "sweepable env now r" by (simp add: list_all_iff)
    with True r have "mo_status r = Pending \<and> mo_created_at r < now - sw_pending_minutes env * 60000"
      by (cases "mo_status r") (auto simp: sweepable_def terminal_mail_def stale_def before_def filter_empty_conv)
    with r(1) same have "old \<noteq> []" by (auto simp: old_def filter_empty_conv)
    with no pos have "pending \<noteq> []" by (simp add: pending_def n_def) (metis length_0_conv length_sort)
    then show ?thesis by simp
  qed
  have "\<forall>r. p r \<longrightarrow> mo_status r = Sending" by (simp add: p_def stale_sending_def)
  with t1 ids taken progress show ?thesis by (intro exI [of _ p] exI [of _ pending]) auto
qed

lemma sweep_effect:
  assumes "distinct (map mo_id t)" and "runMailOutboxSweeperJob env (\<lambda>_. True) now t = (ids, t1)"
  shows "map mo_id t1 = map mo_id t" and "map send_options (unfinished t1) = map send_options (unfinished t)"
    and "\<And>i. i \<in> set ids \<Longrightarrow> claimable t1 i"
    and "\<And>r. r \<in> set (unfinished t1) \<Longrightarrow> mo_id r \<notin> set ids \<Longrightarrow> r \<in> set (unfinished t)"
    and "0 < sw_batch_size env \<Longrightarrow> list_all (sweepable env now) t \<Longrightarrow> unfinished t \<noteq> [] \<Longrightarrow> \<exists>r \<in> set (unfinished t1). mo_id r \<in> set ids"
proof -
  obtain p pending where t1: "t1 = update_where p (\<lambda>r. r\<lparr>mo_status := Pending, mo_updated_at := now\<rparr>) t" and p: "\<And>r. p r \<Longrightarrow> mo_status r = Sending"
    and ids: "ids = map mo_id (filter p t) @ map mo_id pending" and pending: "\<And>r. r \<in> set pending \<Longrightarrow> r \<in> set t1 \<and> mo_status r = Pending"
    and progress: "0 < sw_batch_size env \<Longrightarrow> list_all (sweepable env now) t \<Longrightarrow> unfinished t \<noteq> [] \<Longrightarrow> filter p t @ pending \<noteq> []"
    using sweep_cases [OF assms(2)] by (elim exE conjE) blast
  show "map mo_id t1 = map mo_id t" by (simp add: t1 update_where_def)
  show "map send_options (unfinished t1) = map send_options (unfinished t)"
    using p unfolding t1 by (induction t) (auto simp: unfinished_def terminal_mail_def send_options_def)
  have rows: "\<exists>r \<in> set t1. mo_id r = i \<and> mo_status r = Pending" if i: "i \<in> set ids" for i
  proof -
    consider r where "r \<in> set t" "p r" "mo_id r = i" | r where "r \<in> set pending" "mo_id r = i" using i by (auto simp: ids)
    then show ?thesis
    proof cases
      case 1
      then show ?thesis by (intro bexI [of _ "r\<lparr>mo_status := Pending, mo_updated_at := now\<rparr>"]) (auto simp: t1 set_update_where image_iff intro!: bexI [of _ r])
    qed (use pending in blast)
  qed
  then show "claimable t1 i" if "i \<in> set ids" for i using that by (auto simp: claimable_def)
  show "r \<in> set (unfinished t)" if "r \<in> set (unfinished t1)" "mo_id r \<notin> set ids" for r
    using that unfolding t1 ids by (auto simp: unfinished_def set_update_where split: if_splits)
  show "\<exists>r \<in> set (unfinished t1). mo_id r \<in> set ids" if "0 < sw_batch_size env" "list_all (sweepable env now) t" "unfinished t \<noteq> []"
  proof -
    from progress [OF that] have "ids \<noteq> []" by (auto simp: ids)
    then obtain i where "i \<in> set ids" using hd_in_set by blast
    with rows [of i] show ?thesis by (auto simp: unfinished_def terminal_mail_def)
  qed
qed

text \<open>One round delivers something while anything is unfinished, each delivery once, and leaves the other rows as they are.\<close>

lemma round_drains:
  assumes "distinct (map mo_id (mw_outbox w))" and "0 < sw_batch_size env" and "list_all (sweepable env now) (mw_outbox w)"
    and "\<And>r. r \<in> set (unfinished (mw_outbox w)) \<Longrightarrow> list_all validEmail (mo_to r)" and "\<And>i. accepts (answer i)"
    and "w' = deliver_round validEmail env w (now, answer)"
  shows "map mo_id (mw_outbox w') = map mo_id (mw_outbox w) \<and> mail_due w' = mail_due w \<and>
    set (unfinished (mw_outbox w')) \<subseteq> set (unfinished (mw_outbox w)) \<and>
    (unfinished (mw_outbox w) \<noteq> [] \<longrightarrow> length (unfinished (mw_outbox w')) < length (unfinished (mw_outbox w)))"
proof -
  obtain ids t1 where sw: "runMailOutboxSweeperJob env (\<lambda>_. True) now (mw_outbox w) = (ids, t1)" by fastforce
  note e = sweep_effect [OF assms(1) sw]
  have addresses: "list_all validEmail (mo_to r)" if "r \<in> set (unfinished t1)" for r
  proof -
    have "send_options r \<in> send_options ` set (unfinished (mw_outbox w))" using e(2) that by (metis image_eqI set_map)
    then obtain r0 where "r0 \<in> set (unfinished (mw_outbox w))" "mo_to r0 = mo_to r" by (auto simp: send_options_def)
    with assms(4) show ?thesis by metis
  qed
  have d: "map mo_id (mw_outbox w') = map mo_id t1 \<and> mail_due w' = mail_due (w\<lparr>mw_outbox := t1\<rparr>) \<and>
      unfinished (mw_outbox w') = filter (\<lambda>r. mo_id r \<notin> set ids) (unfinished t1)"
    using jobs_drain [of "w\<lparr>mw_outbox := t1\<rparr>" ids validEmail answer w' 0 MAIL_QUEUE_MAX_ATTEMPTS] e(1,3) assms(1,5,6) addresses sw by simp
  have len: "length (unfinished t1) = length (unfinished (mw_outbox w))" using e(2) by (metis length_map)
  have due: "mail_due (w\<lparr>mw_outbox := t1\<rparr>) = mail_due w" using arg_cong [OF e(2), of mset] by (simp add: mail_due_def)
  have shrinks: "length (unfinished (mw_outbox w')) < length (unfinished (mw_outbox w))" if "unfinished (mw_outbox w) \<noteq> []"
    using e(5) [OF assms(2,3) that] d len by (metis length_filter_less)
  show ?thesis using d due e(1,4) shrinks by auto
qed

text \<open>A round that comes late enough for the rows, and in which Resend and the database answer.\<close>

definition good_round :: "SweepEnv \<Rightarrow> MailOutboxRow list \<Rightarrow> millis \<times> (nat \<Rightarrow> MailAnswer) \<Rightarrow> bool" where
  "good_round env u round \<longleftrightarrow> list_all (sweepable env (fst round)) u \<and> (\<forall>i. accepts (snd round i))"

lemma rounds_drain:
  assumes "0 < sw_batch_size env"
  shows "distinct (map mo_id (mw_outbox w)) \<Longrightarrow> list_all (\<lambda>r. list_all validEmail (mo_to r)) (unfinished (mw_outbox w)) \<Longrightarrow>
    list_all (good_round env (unfinished (mw_outbox w))) rounds \<Longrightarrow>
    length (unfinished (mw_outbox w)) \<le> length rounds \<Longrightarrow> w' = foldl (deliver_round validEmail env) w rounds \<Longrightarrow>
    unfinished (mw_outbox w') = [] \<and> mail_due w' = mail_due w"
proof (induction rounds arbitrary: w)
  case (Cons round rounds)
  obtain now answer where round: "round = (now, answer)" by fastforce
  define w1 where "w1 = deliver_round validEmail env w round"
  have good: "list_all (sweepable env now) (unfinished (mw_outbox w))" "\<And>i. accepts (answer i)"
    using Cons(4) by (auto simp: good_round_def round)
  have "sweepable env now r" if "terminal_mail r" for r using that by (auto simp: sweepable_def terminal_mail_def)
  then have sw: "list_all (sweepable env now) (mw_outbox w)"
    using good(1) by (auto simp: list_all_iff unfinished_def)
  have w1: "w1 = deliver_round validEmail env w (now, answer)" by (simp only: w1_def round)
  have one: "map mo_id (mw_outbox w1) = map mo_id (mw_outbox w) \<and> mail_due w1 = mail_due w \<and>
      set (unfinished (mw_outbox w1)) \<subseteq> set (unfinished (mw_outbox w)) \<and>
      (unfinished (mw_outbox w) \<noteq> [] \<longrightarrow> length (unfinished (mw_outbox w1)) < length (unfinished (mw_outbox w)))"
    using Cons(3) good(2) by (intro round_drains [OF Cons(2) assms(1) sw _ _ w1]) (auto simp: list_all_iff)
  have len: "length (unfinished (mw_outbox w1)) \<le> length rounds"
    using one Cons(5) by (cases "unfinished (mw_outbox w)") auto
  have sub: "list_all q (unfinished (mw_outbox w1))" if "list_all q (unfinished (mw_outbox w))" for q
    using one that by (auto simp: list_all_iff)
  have dist: "distinct (map mo_id (mw_outbox w1))" using one Cons(2) by simp
  have goods: "list_all (good_round env (unfinished (mw_outbox w1))) rounds"
    using Cons(4) sub by (auto simp: good_round_def elim!: list.pred_mono_strong)
  have w': "w' = foldl (deliver_round validEmail env) w1 rounds" using Cons(6) by (simp add: w1_def)
  from Cons(1) [OF dist sub [OF Cons(3)] goods len w'] one show ?case by simp
qed simp

text \<open>C6 The outbox drains when delivery is possible.  Take any outbox with distinct ids in which the addresses of every unfinished row
  pass the worker's check, a batch size of one or more, and rounds of sweeping and delivering each of which comes late enough for every
  unfinished row to be due (rows left in \<^verbatim>\<open>sending\<close> by a crashed worker included) and in which Resend and the database accept every call.
  After as many such rounds as there are unfinished rows, no row is unfinished, and Resend was sent the message of each exactly once and
  nothing else.  A row with a refused address is outside of this: it stays in \<^verbatim>\<open>sending\<close> (\<open>refused_address_ends_as_skipped\<close> below).\<close>

theorem outbox_drains:
  assumes "distinct (map mo_id (mw_outbox w))" and "0 < sw_batch_size env"
    and "list_all (\<lambda>r. list_all validEmail (mo_to r)) (unfinished (mw_outbox w))"
    and "list_all (good_round env (unfinished (mw_outbox w))) rounds" and "length (unfinished (mw_outbox w)) \<le> length rounds"
  shows "list_all terminal_mail (mw_outbox (foldl (deliver_round validEmail env) w rounds)) \<and>
    mset (mw_requests (foldl (deliver_round validEmail env) w rounds)) =
      mset (mw_requests w) + mset (map send_options (unfinished (mw_outbox w)))"
proof -
  have d: "unfinished (mw_outbox (foldl (deliver_round validEmail env) w rounds)) = [] \<and>
    mail_due (foldl (deliver_round validEmail env) w rounds) = mail_due w"
    by (rule rounds_drain [OF assms(2) assms(1,3-5) refl])
  then have "list_all terminal_mail (mw_outbox (foldl (deliver_round validEmail env) w rounds))"
    by (auto simp: unfinished_def filter_empty_conv list_all_iff)
  then show ?thesis using d unfolding mail_due_def by (elim conjE) simp
qed

definition demo_stuck :: MailWorld where
  "demo_stuck = \<lparr>mw_outbox = [demo_mail_row\<lparr>mo_status := Sending\<rparr>, demo_mail_row\<lparr>mo_id := 2\<rparr>], mw_requests = []\<rparr>"

definition demo_env :: SweepEnv where
  "demo_env = \<lparr>sw_pending_minutes = 2, sw_reclaim_minutes = 10, sw_batch_size = 1, sw_circuit_open = False\<rparr>"

definition demo_round :: "millis \<times> (nat \<Rightarrow> MailAnswer)" where
  "demo_round = (1000000, \<lambda>_. demo_answer 1000000 (Inr ''m''))"

theorem outbox_drains_witness:
  "mset (mw_requests (foldl (deliver_round (\<lambda>_. True) demo_env) demo_stuck [demo_round, demo_round])) =
     {#send_options demo_mail_row, send_options (demo_mail_row\<lparr>mo_id := 2\<rparr>)#}"
proof -
  have u: "unfinished (mw_outbox demo_stuck) = mw_outbox demo_stuck" by (simp add: demo_stuck_def unfinished_def terminal_mail_def demo_mail_row_def)
  have "list_all (good_round demo_env (mw_outbox demo_stuck)) [demo_round, demo_round]"
    by (simp add: demo_stuck_def demo_env_def demo_mail_row_def demo_round_def demo_answer_def good_round_def sweepable_def accepts_def stale_sending_def)
  then have "mset (mw_requests (foldl (deliver_round (\<lambda>_. True) demo_env) demo_stuck [demo_round, demo_round])) =
      mset (mw_requests demo_stuck) + mset (map send_options (mw_outbox demo_stuck))"
    using outbox_drains [of demo_stuck demo_env "\<lambda>_. True" "[demo_round, demo_round]", unfolded u]
    by (simp only: demo_stuck_def) (simp add: demo_mail_row_def demo_env_def list_all_iff)
  then show ?thesis by (simp add: demo_stuck_def send_options_def demo_mail_row_def)
qed

section \<open>An address the worker refuses\<close>

text \<open>The addresses are checked after the claim and before the \<^verbatim>\<open>try\<close>: when one is refused the job throws and its row stays in
  \<^verbatim>\<open>sending\<close>.  Every later attempt, the final one included, then reports \<^verbatim>\<open>skipped\<close> without touching anything, so the mail is never
  marked failed and the job ends as a success that delivered nothing.\<close>

theorem refused_address_ends_as_skipped:
  assumes "distinct (map mo_id (mw_outbox w))" and "r \<in> set (mw_outbox w)" and "mo_status r = Pending" and "\<not> list_all validEmail (mo_to r)"
    and "w1 = snd (processMailOutboxJob validEmail \<lparr>mj_outbox_id = mo_id r, mj_attempt = n, mj_max_attempts = m\<rparr> a w)"
  shows "fst (processMailOutboxJob validEmail \<lparr>mj_outbox_id = mo_id r, mj_attempt = n, mj_max_attempts = m\<rparr> a w) = BadAddresses \<and>
    processMailOutboxJob validEmail \<lparr>mj_outbox_id = mo_id r, mj_attempt = n', mj_max_attempts = m'\<rparr> a' w1 = (Skipped, w1) \<and>
    findMailOutboxById (mo_id r) (mw_outbox w1) = Some (r\<lparr>mo_status := Sending, mo_updated_at := ma_now a\<rparr>) \<and> mw_requests w1 = mw_requests w"
proof -
  let ?p = "\<lambda>x. mo_id x = mo_id r \<and> mo_status x = Pending" and ?f = "\<lambda>x. x\<lparr>mo_status := Sending, mo_updated_at := ma_now a\<rparr>"
  have first: "processMailOutboxJob validEmail \<lparr>mj_outbox_id = mo_id r, mj_attempt = n, mj_max_attempts = m\<rparr> a w =
      (BadAddresses, w\<lparr>mw_outbox := update_where ?p ?f (mw_outbox w)\<rparr>)"
    using assms(3,4) find_unique [OF assms(1,2)] claim_unique [OF assms(1,2), of "ma_now a"]
    by (simp add: processMailOutboxJob_def eval_nat_numeral)
  then have w1: "w1 = w\<lparr>mw_outbox := update_where ?p ?f (mw_outbox w)\<rparr>" using assms(5) by simp
  have r1: "?f r \<in> set (mw_outbox w1)" using assms(2,3) by (auto simp: w1 set_update_where image_iff intro!: bexI [of _ r])
  have "map mo_id (mw_outbox w1) = map mo_id (mw_outbox w)" by (simp add: w1 update_where_def)
  then have d1: "distinct (map mo_id (mw_outbox w1))" using assms(1) by simp
  have same: "update_where ?p g (mw_outbox w1) = mw_outbox w1" for g
    using d1 r1 by (intro update_where_id) (auto simp: distinct_map inj_on_def)
  have "processMailOutboxJob validEmail \<lparr>mj_outbox_id = mo_id r, mj_attempt = n', mj_max_attempts = m'\<rparr> a' w1 = (Skipped, w1)"
    using find_unique [OF d1 r1] claim_unique [OF d1 r1, of "ma_now a'"] same
    by (simp add: processMailOutboxJob_def eval_nat_numeral unclaimed_result_def)
  with first find_unique [OF d1 r1] w1 show ?thesis by simp
qed

theorem refused_address_ends_as_skipped_witness:
  "fst (processMailOutboxJob (\<lambda>_. False) (demo_job 7) (demo_answer 2 (Inr ''m''))
     (snd (processMailOutboxJob (\<lambda>_. False) (demo_job 0) (demo_answer 1 (Inr ''m'')) \<lparr>mw_outbox = [demo_mail_row], mw_requests = []\<rparr>))) = Skipped"
  using refused_address_ends_as_skipped [of "\<lparr>mw_outbox = [demo_mail_row], mw_requests = []\<rparr>" demo_mail_row "\<lambda>_. False" _ 0 MAIL_QUEUE_MAX_ATTEMPTS
    "demo_answer 1 (Inr ''m'')" 7 MAIL_QUEUE_MAX_ATTEMPTS "demo_answer 2 (Inr ''m'')"]
  by (simp add: demo_job_def demo_mail_row_def)

end
