(* ===== verification/Transactions.thy ===== *)
theory Transactions
  imports Prelude
begin

text \<open>
  A database transaction as the code drives it: \<^verbatim>\<open>withAppDatabaseContext\<close> of
  \<^verbatim>\<open>src/src/infrastructure/database/contexts/database-context.ts\<close> opens one transaction, runs the
  callback and commits, or rolls back when the callback throws.  A statement that fails (a unique
  index, a check) leaves the transaction aborted, and Postgres refuses every later statement of it
  with \<^verbatim>\<open>25P02\<close> even when the code has caught the error; the driver then rolls back at the end whatever the
  callback returned.  Exceptions are values of \<^verbatim>\<open>thrown\<close>.  The locale
  \<open>action_order\<close> carries a preorder on worlds through the sequencing operators; a component interprets it
  once per property it tracks, on its state through \<open>state_order\<close>.  Last, \<^verbatim>\<open>runInsertWithPublicIdentifierRetry\<close> of
  \<^verbatim>\<open>src/src/shared/utils/infrastructure/postgres-error.util.ts\<close>.
\<close>

datatype thrown =
    App app_error
  | Plain string             \<comment> \<open>\<^verbatim>\<open>new Error(message)\<close>\<close>
  | Sql_unique string        \<comment> \<open>\<^verbatim>\<open>23505\<close> with the name of the index\<close>
  | Sql_foreign_key string   \<comment> \<open>\<^verbatim>\<open>23503\<close> with the name of the constraint\<close>
  | Sql_check string         \<comment> \<open>\<^verbatim>\<open>23514\<close> with the name of the check, or a refused row-level policy\<close>
  | Sql_aborted              \<comment> \<open>\<^verbatim>\<open>25P02\<close>\<close>

fun isPostgresUniqueViolation :: "thrown \<Rightarrow> bool" where
  "isPostgresUniqueViolation (Sql_unique _) = True"
| "isPostgresUniqueViolation _ = False"

fun isPostgresForeignKeyViolation :: "thrown \<Rightarrow> bool" where
  "isPostgresForeignKeyViolation (Sql_foreign_key _) = True"
| "isPostgresForeignKeyViolation _ = False"

fun getPostgresConstraintName :: "thrown \<Rightarrow> string option" where
  "getPostgresConstraintName (Sql_unique c) = Some c"
| "getPostgresConstraintName (Sql_foreign_key c) = Some c"
| "getPostgresConstraintName (Sql_check c) = Some c"
| "getPostgresConstraintName _ = None"

record 's tx =
  tx_state :: 's
  tx_aborted :: bool
  tx_error :: thrown         \<comment> \<open>the first statement that failed, once \<^verbatim>\<open>tx_aborted\<close> holds\<close>

abbreviation tx_begin :: "'s \<Rightarrow> 's tx" where
  "tx_begin s \<equiv> \<lparr>tx_state = s, tx_aborted = False, tx_error = Sql_aborted\<rparr>"

type_synonym ('w, 'a) act = "'w \<Rightarrow> (thrown + 'a) \<times> 'w"
type_synonym ('s, 'a) db = "('s tx, 'a) act"

definition act_return :: "'a \<Rightarrow> ('w, 'a) act" where
  "act_return a t = (Inr a, t)"

definition act_throw :: "thrown \<Rightarrow> ('w, 'a) act" where
  "act_throw e t = (Inl e, t)"

definition act_bind :: "('w, 'a) act \<Rightarrow> ('a \<Rightarrow> ('w, 'b) act) \<Rightarrow> ('w, 'b) act" where
  "act_bind m f t = (case m t of (Inl e, t') \<Rightarrow> (Inl e, t') | (Inr a, t') \<Rightarrow> f a t')"

definition act_catch :: "('w, 'a) act \<Rightarrow> (thrown \<Rightarrow> ('w, 'a) act) \<Rightarrow> ('w, 'a) act" where
  "act_catch m h t = (case m t of (Inl e, t') \<Rightarrow> h e t' | (Inr a, t') \<Rightarrow> (Inr a, t'))"

text \<open>One statement.\<close>

definition sql :: "('s \<Rightarrow> thrown + 'a \<times> 's) \<Rightarrow> ('s, 'a) db" where
  "sql f t = (if tx_aborted t then (Inl Sql_aborted, t)
     else case f (tx_state t) of
            Inl e \<Rightarrow> (Inl e, t\<lparr>tx_aborted := True, tx_error := e\<rparr>)
          | Inr (a, s) \<Rightarrow> (Inr a, t\<lparr>tx_state := s\<rparr>))"

definition sql_read :: "('s \<Rightarrow> 'a) \<Rightarrow> ('s, 'a) db" where
  "sql_read f = sql (\<lambda>s. Inr (f s, s))"

text \<open>The driver's \<^verbatim>\<open>begin\<close>: a callback that throws, or that returns after one of its statements failed, rolls
  back.  The error it reports is the callback's, and the first failed statement's where the callback
  returned or met only the aborted transaction.\<close>

definition run_transaction :: "('s, 'a) db \<Rightarrow> 's \<Rightarrow> (thrown + 'a) \<times> 's" where
  "run_transaction m s = (case m (tx_begin s) of
       (Inl e, t) \<Rightarrow> (Inl (if tx_aborted t \<and> e = Sql_aborted then tx_error t else e), s)
     | (Inr a, t) \<Rightarrow> if tx_aborted t then (Inl (tx_error t), s) else (Inr a, tx_state t))"

named_theorems tx_simps \<open>running a transaction\<close>

lemma act_run_simps [tx_simps]:
  "act_return a t = (Inr a, t)"
  "act_throw e t = (Inl e, t)"
  by (simp_all add: act_return_def act_throw_def)

lemma act_bind_Inr [tx_simps]: "m t = (Inr a, t') \<Longrightarrow> act_bind m f t = f a t'"
  by (simp add: act_bind_def)

lemma act_bind_Inl [tx_simps]: "m t = (Inl e, t') \<Longrightarrow> act_bind m f t = (Inl e, t')"
  by (simp add: act_bind_def)

lemma act_catch_Inr [tx_simps]: "m t = (Inr a, t') \<Longrightarrow> act_catch m h t = (Inr a, t')"
  by (simp add: act_catch_def)

lemma act_catch_Inl [tx_simps]: "m t = (Inl e, t') \<Longrightarrow> act_catch m h t = h e t'"
  by (simp add: act_catch_def)

lemma sql_aborted_eq [tx_simps]: "tx_aborted t \<Longrightarrow> sql f t = (Inl Sql_aborted, t)"
  by (simp add: sql_def)

lemma sql_live_eq [tx_simps]:
  "\<not> tx_aborted t \<Longrightarrow> sql f t =
     (case f (tx_state t) of Inl e \<Rightarrow> (Inl e, t\<lparr>tx_aborted := True, tx_error := e\<rparr>) | Inr (a, s) \<Rightarrow> (Inr a, t\<lparr>tx_state := s\<rparr>))"
  by (simp add: sql_def)

lemma sql_read_live [tx_simps]: "\<not> tx_aborted t \<Longrightarrow> sql_read f t = (Inr (f (tx_state t)), t)"
  by (simp add: sql_read_def sql_def)

lemma sql_read_aborted [tx_simps]: "tx_aborted t \<Longrightarrow> sql_read f t = (Inl Sql_aborted, t)"
  by (simp add: sql_read_def sql_def)

text \<open>Splitting a successful run at its statements.\<close>

lemma act_bind_InrE:
  assumes "act_bind m f t = (Inr b, t'')"
  obtains a t' where "m t = (Inr a, t')" and "f a t' = (Inr b, t'')"
  using assms by (auto simp: act_bind_def split: prod.splits sum.splits)

lemma sql_InrE:
  assumes "sql f t = (Inr a, t')"
  obtains s where "\<not> tx_aborted t" and "f (tx_state t) = Inr (a, s)" and "t' = t\<lparr>tx_state := s\<rparr>"
  using assms by (auto simp: sql_def split: if_splits sum.splits)

lemma sql_read_InrE:
  assumes "sql_read f t = (Inr a, t')"
  obtains "\<not> tx_aborted t" and "a = f (tx_state t)" and "t' = t"
  using assms by (auto simp: sql_read_def elim!: sql_InrE)

lemma run_transaction_InrE:
  assumes "run_transaction m s = (Inr a, s')"
  obtains t where "m (tx_begin s) = (Inr a, t)" and "\<not> tx_aborted t" and "s' = tx_state t"
  using assms by (auto simp: run_transaction_def split: prod.splits sum.splits if_splits)

lemma run_transaction_Inl_state: "fst (run_transaction m s) = Inl e \<Longrightarrow> snd (run_transaction m s) = s"
  by (auto simp: run_transaction_def split: prod.splits sum.splits if_splits)

section \<open>Preorders that every step respects\<close>

locale action_order =
  fixes le :: "'w \<Rightarrow> 'w \<Rightarrow> bool"
  assumes le_refl: "le w w"
    and le_trans: "le w1 w2 \<Longrightarrow> le w2 w3 \<Longrightarrow> le w1 w3"
begin

definition advances :: "('w, 'a) act \<Rightarrow> bool" where
  "advances m \<longleftrightarrow> (\<forall>w. le w (snd (m w)))"

lemma advancesD: "advances m \<Longrightarrow> le w (snd (m w))"
  by (simp add: advances_def)

lemma advances_return: "advances (act_return a)"
  by (simp add: advances_def act_return_def le_refl)

lemma advances_throw: "advances (act_throw e)"
  by (simp add: advances_def act_throw_def le_refl)

lemma advances_bind:
  assumes "advances m" and "\<And>a. advances (f a)"
  shows "advances (act_bind m f)"
  unfolding advances_def
proof
  fix w
  obtain r w' where "m w = (r, w')" by fastforce
  moreover from this have "le w w'" using advancesD [OF assms(1), of w] by simp
  ultimately show "le w (snd (act_bind m f w))"
    using advancesD [OF assms(2), of w'] by (cases r) (auto simp: act_bind_def intro: le_trans)
qed

lemma advances_catch:
  assumes "advances m" and "\<And>e. advances (h e)"
  shows "advances (act_catch m h)"
  unfolding advances_def
proof
  fix w
  obtain r w' where "m w = (r, w')" by fastforce
  moreover from this have "le w w'" using advancesD [OF assms(1), of w] by simp
  ultimately show "le w (snd (act_catch m h w))"
    using advancesD [OF assms(2), of w'] by (cases r) (auto simp: act_catch_def intro: le_trans)
qed

lemma advances_if: "advances m \<Longrightarrow> advances n \<Longrightarrow> advances (if b then m else n)"
  by simp

lemma advances_option:
  "advances m \<Longrightarrow> (\<And>x. advances (f x)) \<Longrightarrow> advances (case z of None \<Rightarrow> m | Some x \<Rightarrow> f x)"
  by (cases z) simp_all

lemma advances_prod: "(\<And>x y. advances (f x y)) \<Longrightarrow> advances (case z of (x, y) \<Rightarrow> f x y)"
  by (cases z) simp

lemma advances_sum:
  "(\<And>e. advances (f e)) \<Longrightarrow> (\<And>x. advances (g x)) \<Longrightarrow> advances (case z of Inl e \<Rightarrow> f e | Inr x \<Rightarrow> g x)"
  by (cases z) simp_all

lemmas advances_intros = advances_return advances_throw advances_bind advances_catch advances_if
  advances_option advances_prod advances_sum

end

text \<open>A preorder on database states orders the transactions over them.\<close>

locale state_order =
  fixes le_state :: "'s \<Rightarrow> 's \<Rightarrow> bool"
  assumes state_refl: "le_state s s"
    and state_trans: "le_state s1 s2 \<Longrightarrow> le_state s2 s3 \<Longrightarrow> le_state s1 s3"

sublocale state_order \<subseteq> action_order "\<lambda>t t'. le_state (tx_state t) (tx_state t')"
  by unfold_locales (auto intro: state_refl state_trans)

context state_order
begin

lemma advances_sql:
  assumes "\<And>s a s'. f s = Inr (a, s') \<Longrightarrow> le_state s s'"
  shows "advances (sql f)"
  unfolding advances_def sql_def using assms by (auto simp: state_refl split: sum.splits prod.splits)

lemma advances_read: "advances (sql_read f)"
  unfolding sql_read_def by (rule advances_sql) (auto simp: state_refl)

lemma advances_run: "advances m \<Longrightarrow> le_state s (snd (run_transaction m s))"
  using advancesD [of m "tx_begin s"]
  by (auto simp: run_transaction_def state_refl split: prod.splits sum.splits)

end

section \<open>Retrying an insert with a fresh public id\<close>

text \<open>\<^verbatim>\<open>runInsertWithPublicIdentifierRetry(insert, maxAttempts)\<close>; \<^verbatim>\<open>attempt n\<close> is the \<^verbatim>\<open>n\<close>-th call of the callback,
  which generates a new id each time, and \<^verbatim>\<open>left\<close> the attempts left after this one.\<close>

definition mentions_public_id :: "string \<Rightarrow> bool" where
  "mentions_public_id c \<longleftrightarrow> sublist ''public_id'' c"

definition is_public_id_collision :: "thrown \<Rightarrow> bool" where
  "is_public_id_collision e \<longleftrightarrow> isPostgresUniqueViolation e \<and>
     (case getPostgresConstraintName e of None \<Rightarrow> False | Some c \<Rightarrow> mentions_public_id c)"

primrec insert_attempts :: "(nat \<Rightarrow> ('w, 'a) act) \<Rightarrow> nat \<Rightarrow> nat \<Rightarrow> ('w, 'a) act" where
  "insert_attempts attempt n 0 = attempt n"
| "insert_attempts attempt n (Suc left) = act_catch (attempt n)
     (\<lambda>e. if is_public_id_collision e then insert_attempts attempt (Suc n) left else act_throw e)"

definition runInsertWithPublicIdentifierRetry :: "(nat \<Rightarrow> ('w, 'a) act) \<Rightarrow> ('w, 'a) act" where
  "runInsertWithPublicIdentifierRetry attempt = insert_attempts attempt 1 4"

context action_order
begin

lemma advances_attempts: "(\<And>n. advances (attempt n)) \<Longrightarrow> advances (insert_attempts attempt n left)"
  by (induction left arbitrary: n) (auto intro!: advances_intros)

lemma advances_insert_retry:
  "(\<And>n. advances (attempt n)) \<Longrightarrow> advances (runInsertWithPublicIdentifierRetry attempt)"
  by (simp add: runInsertWithPublicIdentifierRetry_def advances_attempts)

end

text \<open>Inside a transaction the attempts after a collision meet the aborted transaction.\<close>

lemma insert_attempts_sql:
  "insert_attempts (\<lambda>n. sql (f n)) n left t =
     (case fst (sql (f n) t) of
        Inl e \<Rightarrow> (if is_public_id_collision e \<and> left \<noteq> 0 then (Inl Sql_aborted, snd (sql (f n) t)) else sql (f n) t)
      | Inr _ \<Rightarrow> sql (f n) t)"
proof (cases left)
  case 0
  then show ?thesis by (simp split: sum.splits)
next
  case (Suc left')
  have aborted: "insert_attempts (\<lambda>n. sql (f n)) m l u = (Inl Sql_aborted, u)" if "tx_aborted u" for m l u
    using that by (induction l arbitrary: m) (simp_all add: sql_def act_catch_def act_throw_def is_public_id_collision_def)
  show ?thesis
    using Suc by (auto simp: sql_def act_catch_def act_throw_def aborted is_public_id_collision_def
        split: sum.splits prod.splits)
qed

section \<open>What a successful run ensures\<close>

text \<open>\<open>ensures m Q s\<close>: whenever \<open>m\<close>, started in state \<open>s\<close>, returns a value, \<open>Q\<close> holds of the value and the state it
  leaves.  A run that throws leaves nothing behind once its transaction rolls back, so it owes nothing.
  The rules peel a callback from its first statement on.\<close>

definition ensures :: "('s, 'a) db \<Rightarrow> ('a \<Rightarrow> 's \<Rightarrow> bool) \<Rightarrow> 's \<Rightarrow> bool" where
  "ensures m Q s \<longleftrightarrow> (\<forall>t a t'. tx_state t = s \<longrightarrow> m t = (Inr a, t') \<longrightarrow> Q a (tx_state t'))"

named_theorems ensures_intros \<open>peeling a callback\<close>

lemma ensures_return [ensures_intros]: "Q a s \<Longrightarrow> ensures (act_return a) Q s"
  by (simp add: ensures_def act_return_def)

lemma ensures_throw [ensures_intros]: "ensures (act_throw e) Q s"
  by (simp add: ensures_def act_throw_def)

lemma ensures_bind [ensures_intros]:
  "ensures m (\<lambda>a. ensures (f a) Q) s \<Longrightarrow> ensures (act_bind m f) Q s"
  unfolding ensures_def by (blast elim: act_bind_InrE)

lemma ensures_catch_rethrow [ensures_intros]:
  "ensures m Q s \<Longrightarrow> ensures (act_catch m (\<lambda>e. act_throw (g e))) Q s"
  by (fastforce simp: ensures_def act_catch_def act_throw_def split: prod.splits sum.splits)

lemma ensures_if [ensures_intros]:
  "(b \<Longrightarrow> ensures m Q s) \<Longrightarrow> (\<not> b \<Longrightarrow> ensures n Q s) \<Longrightarrow> ensures (if b then m else n) Q s"
  by simp

lemma ensures_option [ensures_intros]:
  "(z = None \<Longrightarrow> ensures m Q s) \<Longrightarrow> (\<And>x. z = Some x \<Longrightarrow> ensures (f x) Q s) \<Longrightarrow>
   ensures (case z of None \<Rightarrow> m | Some x \<Rightarrow> f x) Q s"
  by (cases z) simp_all

lemma ensures_prod [ensures_intros]:
  "(\<And>x y. z = (x, y) \<Longrightarrow> ensures (f x y) Q s) \<Longrightarrow> ensures (case z of (x, y) \<Rightarrow> f x y) Q s"
  by (cases z) simp

lemma ensures_sum [ensures_intros]:
  "(\<And>e. z = Inl e \<Longrightarrow> ensures (f e) Q s) \<Longrightarrow> (\<And>x. z = Inr x \<Longrightarrow> ensures (g x) Q s) \<Longrightarrow>
   ensures (case z of Inl e \<Rightarrow> f e | Inr x \<Rightarrow> g x) Q s"
  by (cases z) simp_all

lemma ensures_sql: "(\<And>a s'. f s = Inr (a, s') \<Longrightarrow> Q a s') \<Longrightarrow> ensures (sql f) Q s"
  by (auto simp: ensures_def elim!: sql_InrE)

lemma ensures_read [ensures_intros]: "Q (f s) s \<Longrightarrow> ensures (sql_read f) Q s"
  by (auto simp: ensures_def elim!: sql_read_InrE)

lemma ensures_retry:
  assumes "ensures (sql (f 1)) Q s"
  shows "ensures (runInsertWithPublicIdentifierRetry (\<lambda>n. sql (f n))) Q s"
  using assms unfolding ensures_def runInsertWithPublicIdentifierRetry_def insert_attempts_sql
  by (auto split: sum.splits if_splits)

text \<open>A callback whose every statement keeps \<open>P\<close> keeps it.\<close>

definition steady :: "('s \<Rightarrow> bool) \<Rightarrow> ('s, 'a) db \<Rightarrow> bool" where
  "steady P m \<longleftrightarrow> (\<forall>s. P s \<longrightarrow> ensures m (\<lambda>_. P) s)"

named_theorems steady_intros \<open>callbacks that keep a predicate\<close>

lemma steadyI: "(\<And>s. P s \<Longrightarrow> ensures m (\<lambda>_. P) s) \<Longrightarrow> steady P m"
  by (simp add: steady_def)

lemma steadyD: "steady P m \<Longrightarrow> P s \<Longrightarrow> ensures m (\<lambda>_. P) s"
  by (simp add: steady_def)

lemma steady_basic [steady_intros]:
  "steady P (act_return a)" "steady P (act_throw e)" "steady P (sql_read f)"
  by (auto intro!: steadyI ensures_intros)

lemma steady_bind [steady_intros]: "steady P m \<Longrightarrow> (\<And>a. steady P (f a)) \<Longrightarrow> steady P (act_bind m f)"
  by (rule steadyI, rule ensures_bind) (unfold steady_def ensures_def, blast)

lemma steady_catch [steady_intros]: "steady P m \<Longrightarrow> steady P (act_catch m (\<lambda>e. act_throw (g e)))"
  by (auto simp: steady_def intro: ensures_catch_rethrow)

lemma steady_if [steady_intros]: "(b \<Longrightarrow> steady P m) \<Longrightarrow> (\<not> b \<Longrightarrow> steady P n) \<Longrightarrow> steady P (if b then m else n)"
  by simp

lemma steady_option [steady_intros]:
  "steady P m \<Longrightarrow> (\<And>x. steady P (f x)) \<Longrightarrow> steady P (case z of None \<Rightarrow> m | Some x \<Rightarrow> f x)"
  by (cases z) simp_all

lemma steady_prod [steady_intros]: "(\<And>x y. steady P (f x y)) \<Longrightarrow> steady P (case z of (x, y) \<Rightarrow> f x y)"
  by (cases z) simp

lemma ensures_mono:
  "ensures m Q s \<Longrightarrow> (\<And>a s'. Q a s' \<Longrightarrow> R a s') \<Longrightarrow> ensures m R s"
  unfolding ensures_def by blast

lemma ensures_conj: "ensures m Q s \<Longrightarrow> ensures m R s \<Longrightarrow> ensures m (\<lambda>a s'. Q a s' \<and> R a s') s"
  unfolding ensures_def by blast

lemma ensures_run:
  assumes "ensures m Q s"
  shows "case run_transaction m s of (Inl e, s') \<Rightarrow> s' = s | (Inr a, s') \<Rightarrow> Q a s'"
proof -
  obtain r t where run: "m (tx_begin s) = (r, t)" by fastforce
  show ?thesis
  proof (cases r)
    case (Inr a)
    with assms run have "Q a (tx_state t)"
      unfolding ensures_def by (metis tx.select_convs(1))
    with run Inr show ?thesis by (simp add: run_transaction_def)
  qed (use run in \<open>simp add: run_transaction_def\<close>)
qed

lemma ensures_run_kept: "ensures m (\<lambda>_ s'. P s s') s \<Longrightarrow> P s s \<Longrightarrow> P s (snd (run_transaction m s))"
  using ensures_run [of m "\<lambda>_ s'. P s s'" s] by (auto split: prod.splits sum.splits)

text \<open>An insert whose generated \<^verbatim>\<open>public_id\<close> collides is not rescued by the retry when it runs inside a
  transaction, as every repository create of a request does: the transaction fails with the collision
  and writes nothing, whatever ids the later attempts would have used.\<close>

theorem public_id_retry_is_void_in_transaction:
  assumes "f (1 :: nat) s = Inl (Sql_unique c)" and "mentions_public_id c"
  shows "run_transaction (runInsertWithPublicIdentifierRetry (\<lambda>n. sql (f n))) s = (Inl (Sql_unique c), s)"
  using assms
  by (simp add: run_transaction_def runInsertWithPublicIdentifierRetry_def insert_attempts_sql sql_def
      is_public_id_collision_def)

definition demo_public_id_insert :: "nat \<Rightarrow> string list \<Rightarrow> thrown + unit \<times> string list" where
  "demo_public_id_insert n ids = (let new = (if n = 1 then ''sub_a'' else ''sub_b'') in
     if new \<in> set ids then Inl (Sql_unique ''idx_subscriptions_public_id'') else Inr ((), new # ids))"

theorem public_id_retry_is_void_in_transaction_witness:
  "run_transaction (runInsertWithPublicIdentifierRetry (\<lambda>n. sql (demo_public_id_insert n))) [''sub_a''] =
     (Inl (Sql_unique ''idx_subscriptions_public_id''), [''sub_a''])"
  by (rule public_id_retry_is_void_in_transaction [where c = "''idx_subscriptions_public_id''"])
     (simp_all add: demo_public_id_insert_def mentions_public_id_def sublist_code)

end
