(* ===== verification/Pagination.thy ===== *)
theory Pagination
  imports JS_Values "HOL-Library.Char_ord" "HOL-Library.List_Lexorder"
begin

text \<open>
  Cursor pagination: \<^verbatim>\<open>src/src/shared/utils/http/pagination.util.ts\<close> and \<^verbatim>\<open>list-query.util.ts\<close>, which every list endpoint
  uses.  A row has its id, its creation instant in microseconds, as PostgreSQL keeps it, and the text of the
  column sorted by; a \<^verbatim>\<open>Date\<close> has milliseconds.  Text is compared bytewise, as under the C collation; the arguments use
  only that the order is linear.  \<^verbatim>\<open>JSON.parse\<close>, the ISO form of a \<^verbatim>\<open>Date\<close> and SHA-256 are arguments.
  Shown: a cursor decodes to the row it was made of; walking the pages of a list yields the whole list once, in order; and where
  both fail: rows of one millisecond, and long names.
\<close>

section \<open>Base64url\<close>

fun base64_digits :: "nat list \<Rightarrow> nat list" where
  "base64_digits [] = []"
| "base64_digits [a] = [a div 4, (a mod 4) * 16]"
| "base64_digits [a, b] = [a div 4, (a mod 4) * 16 + b div 16, (b mod 16) * 4]"
| "base64_digits (a # b # c # bs) =
     [a div 4, (a mod 4) * 16 + b div 16, (b mod 16) * 4 + c div 64, c mod 64] @ base64_digits bs"

fun base64_bytes :: "nat list \<Rightarrow> nat list" where
  "base64_bytes [] = []"
| "base64_bytes [w] = []"
| "base64_bytes [w, x] = [w * 4 + x div 16]"
| "base64_bytes [w, x, y] = [w * 4 + x div 16, (x mod 16) * 16 + y div 4]"
| "base64_bytes (w # x # y # z # ds) =
     [w * 4 + x div 16, (x mod 16) * 16 + y div 4, (y mod 4) * 64 + z] @ base64_bytes ds"

definition BASE64URL_ALPHABET :: string where
  "BASE64URL_ALPHABET = ''ABCDEFGHIJKLMNOPQRSTUVWXYZabcdefghijklmnopqrstuvwxyz0123456789-_''"

definition base64_digit :: "char \<Rightarrow> nat option" where
  "base64_digit c = (if c = CHR ''+'' then Some 62 else if c = CHR ''/'' then Some 63
     else map_of (zip BASE64URL_ALPHABET [0..<64]) c)"

text \<open>\<^verbatim>\<open>Buffer.from(s).toString('base64url')\<close> and \<^verbatim>\<open>Buffer.from(s, 'base64url').toString()\<close>; decoding stops at padding and skips
  what is not of the alphabet.\<close>

definition base64url_encode :: "string \<Rightarrow> string" where
  "base64url_encode s = map (\<lambda>d. BASE64URL_ALPHABET ! d) (base64_digits (map of_char s))"

definition base64url_decode :: "string \<Rightarrow> string" where
  "base64url_decode s = map char_of (base64_bytes (List.map_filter base64_digit (takeWhile (\<lambda>c. c \<noteq> CHR ''='') s)))"

section \<open>Cursors\<close>

record ListCursorPayload =
  lc_created_at :: string
  lc_sort_value :: "string option"
  lc_public_id :: "string option"
  lc_id :: "nat option"
  lc_filter_fingerprint :: "string option"

record ParsedListCursor =
  pc_created_at :: int                 \<comment> \<open>epoch milliseconds of the \<^verbatim>\<open>Date\<close>\<close>
  pc_sort_value :: "string option"
  pc_public_id :: "string option"
  pc_id :: "nat option"
  pc_filter_fingerprint :: "string option"

record KeyRow =
  kr_id :: nat
  kr_public_id :: "string option"
  kr_created_at :: int                 \<comment> \<open>epoch microseconds\<close>
  kr_text :: string

record CursorEnv =
  cu_iso :: "int \<Rightarrow> string"            \<comment> \<open>\<^verbatim>\<open>toISOString\<close>\<close>
  cu_date :: "string \<Rightarrow> int option"    \<comment> \<open>\<^verbatim>\<open>z.iso.datetime\<close> followed by \<^verbatim>\<open>new Date\<close>\<close>
  cu_parse :: "string \<Rightarrow> js option"    \<comment> \<open>\<^verbatim>\<open>JSON.parse\<close>\<close>
  cu_sha256hex :: "string \<Rightarrow> string"

fun json_member :: "string \<times> js \<Rightarrow> string" where
  "json_member (k, JString s) = json_string k @ '':'' @ json_string s"
| "json_member (k, JNumber n) = json_string k @ '':'' @ n"
| "json_member (k, v) = []"

fun json_members :: "(string \<times> js) list \<Rightarrow> string" where
  "json_members [] = []"
| "json_members [m] = json_member m"
| "json_members (m # ms) = json_member m @ '','' @ json_members ms"

text \<open>\<^verbatim>\<open>JSON.stringify\<close> of an object of strings and numbers.\<close>

definition json_flat :: "(string \<times> js) list \<Rightarrow> string" where
  "json_flat ms = ''{'' @ json_members ms @ ''}''"

definition optional_member :: "string \<Rightarrow> ('a \<Rightarrow> js) \<Rightarrow> 'a option \<Rightarrow> (string \<times> js) list" where
  "optional_member k f v = (case v of None \<Rightarrow> [] | Some x \<Rightarrow> [(k, f x)])"

definition payload_members :: "ListCursorPayload \<Rightarrow> (string \<times> js) list" where
  "payload_members p = (''created_at'', JString (lc_created_at p)) # optional_member ''sort_value'' JString (lc_sort_value p) @
     optional_member ''public_id'' JString (lc_public_id p) @ optional_member ''id'' (\<lambda>n. JNumber (dec n)) (lc_id p) @
     optional_member ''filter_fingerprint'' JString (lc_filter_fingerprint p)"

definition encodeListCursor :: "ListCursorPayload \<Rightarrow> string" where
  "encodeListCursor p = base64url_encode (json_flat (payload_members p))"

definition hex_char :: "char \<Rightarrow> bool" where
  "hex_char c \<longleftrightarrow> is_digit c \<or> c \<in> set ''abcdef''"

text \<open>An optional field: absent, or a value that passes.  \<^const>\<open>None\<close> is a failed check.\<close>

definition optional_field :: "(string \<times> js) list \<Rightarrow> string \<Rightarrow> (js \<Rightarrow> 'a option) \<Rightarrow> 'a option option" where
  "optional_field ms k check = (case map_of ms k of None \<Rightarrow> Some None | Some v \<Rightarrow> map_option Some (check v))"

fun string_field :: "(string \<Rightarrow> bool) \<Rightarrow> js \<Rightarrow> string option" where
  "string_field p (JString s) = (if p s then Some s else None)"
| "string_field p _ = None"

fun positive_int_field :: "js \<Rightarrow> nat option" where
  "positive_int_field (JNumber n) = (if n \<noteq> [] \<and> list_all is_digit n \<and> undec n > 0 \<and> undec n < 2 ^ 53 then Some (undec n) else None)"
| "positive_int_field _ = None"

definition listCursorPayloadSchema :: "CursorEnv \<Rightarrow> js \<Rightarrow> ListCursorPayload option" where
  "listCursorPayloadSchema env v = (case v of
       JObject ms \<Rightarrow>
         if \<not> list_all (\<lambda>(k, _). k \<in> set [''created_at'', ''sort_value'', ''public_id'', ''id'', ''filter_fingerprint'']) ms then None
         else (case (Option.bind (map_of ms ''created_at'') (string_field (\<lambda>s. cu_date env s \<noteq> None)),
               optional_field ms ''sort_value'' (string_field (\<lambda>_. True)),
               optional_field ms ''public_id'' (string_field (\<lambda>s. 1 \<le> length s \<and> length s \<le> 28)),
               optional_field ms ''id'' positive_int_field,
               optional_field ms ''filter_fingerprint'' (string_field (\<lambda>s. length s = 64 \<and> list_all hex_char s))) of
             (Some c, Some sv, Some pub, Some i, Some fp) \<Rightarrow>
               Some \<lparr>lc_created_at = c, lc_sort_value = sv, lc_public_id = pub, lc_id = i, lc_filter_fingerprint = fp\<rparr>
           | _ \<Rightarrow> None)
     | _ \<Rightarrow> None)"

definition decodeListCursor :: "CursorEnv \<Rightarrow> string \<Rightarrow> ListCursorPayload option" where
  "decodeListCursor env cursor = Option.bind (cu_parse env (base64url_decode cursor)) (listCursorPayloadSchema env)"

definition parseListCursor :: "CursorEnv \<Rightarrow> string option \<Rightarrow> ParsedListCursor option" where
  "parseListCursor env after = (case after of
       None \<Rightarrow> None
     | Some a \<Rightarrow> if a = [] then None
         else map_option (\<lambda>p. \<lparr>pc_created_at = the (cu_date env (lc_created_at p)), pc_sort_value = lc_sort_value p,
                pc_public_id = lc_public_id p, pc_id = lc_id p, pc_filter_fingerprint = lc_filter_fingerprint p\<rparr>) (decodeListCursor env a))"

text \<open>The driver hands the instant over as a \<^verbatim>\<open>Date\<close>: the microseconds below the millisecond are cut off.\<close>

definition js_date :: "int \<Rightarrow> int" where
  "js_date micros = micros div 1000"

definition createOpaqueCursorFromRow :: "CursorEnv \<Rightarrow> KeyRow \<Rightarrow> string option \<Rightarrow> string option \<Rightarrow> string" where
  "createOpaqueCursorFromRow env r sortValue fingerprint = encodeListCursor
     \<lparr>lc_created_at = cu_iso env (js_date (kr_created_at r)), lc_sort_value = sortValue, lc_public_id = kr_public_id r, lc_id = Some (kr_id r),
      lc_filter_fingerprint = fingerprint\<rparr>"

section \<open>A cursor decodes to its row\<close>

lemma base64_digits_bound: "\<forall>b \<in> set bs. b < 256 \<Longrightarrow> \<forall>d \<in> set (base64_digits bs). d < 64"
proof (induction bs rule: base64_digits.induct)
  case (4 a b c bs)
  have "a div 4 < 64" "(a mod 4) * 16 + b div 16 < 64" "(b mod 16) * 4 + c div 64 < 64" using "4.prems" by auto
  with 4 show ?case by simp
qed auto

lemma base64_roundtrip: "\<forall>b \<in> set bs. b < 256 \<Longrightarrow> base64_bytes (base64_digits bs) = bs"
proof (induction bs rule: base64_digits.induct)
  case (4 a b c bs)
  have "a div 4 * 4 + (a mod 4 * 16 + b div 16) div 16 = a" "((a mod 4 * 16 + b div 16) mod 16) * 16 + ((b mod 16) * 4 + c div 64) div 4 = b"
    "(((b mod 16) * 4 + c div 64) mod 4) * 64 + c mod 64 = c"
    using "4.prems" by auto
  with 4 show ?case by simp
qed auto

lemma alphabet_facts: "length BASE64URL_ALPHABET = 64" "distinct BASE64URL_ALPHABET" "CHR ''='' \<notin> set BASE64URL_ALPHABET"
    "CHR ''+'' \<notin> set BASE64URL_ALPHABET" "CHR ''/'' \<notin> set BASE64URL_ALPHABET"
  by (simp_all add: BASE64URL_ALPHABET_def)

lemma base64_digit_char: "d < 64 \<Longrightarrow> base64_digit (BASE64URL_ALPHABET ! d) = Some d"
proof -
  assume d: "d < 64"
  then have "BASE64URL_ALPHABET ! d \<in> set BASE64URL_ALPHABET" by (simp add: alphabet_facts)
  moreover have "map_of (zip BASE64URL_ALPHABET [0..<64]) (BASE64URL_ALPHABET ! d) = Some ([0..<64] ! d)"
    using d alphabet_facts by (intro map_of_zip_nth) simp_all
  moreover have "BASE64URL_ALPHABET ! d \<noteq> CHR ''+''" "BASE64URL_ALPHABET ! d \<noteq> CHR ''/''"
    using d alphabet_facts nth_mem by metis+
  ultimately show ?thesis using d by (simp add: base64_digit_def)
qed

lemma base64url_roundtrip: "base64url_decode (base64url_encode s) = s"
proof -
  let ?ds = "base64_digits (map of_char s)"
  have b: "\<forall>b \<in> set (map of_char s :: nat list). b < 256" by auto
  have ds: "\<forall>d \<in> set ?ds. d < 64" by (rule base64_digits_bound [OF b])
  have "BASE64URL_ALPHABET ! d \<noteq> CHR ''=''" if "d < 64" for d
    using that alphabet_facts by (metis nth_mem)
  then have tw: "takeWhile (\<lambda>c. c \<noteq> CHR ''='') (base64url_encode s) = base64url_encode s"
    using ds by (auto simp: base64url_encode_def)
  have mf: "List.map_filter base64_digit (map (\<lambda>d. BASE64URL_ALPHABET ! d) ds) = ds" if "\<forall>d \<in> set ds. d < 64" for ds
    using that by (induction ds) (auto simp: base64_digit_char List.map_filter_simps)
  have "base64url_decode (base64url_encode s) = map char_of (base64_bytes ?ds)"
    unfolding base64url_decode_def tw by (simp add: base64url_encode_def mf [OF ds])
  then show ?thesis by (simp add: base64_roundtrip [OF b] comp_def)
qed

lemma dec_digits: "list_all is_digit (dec n) \<and> dec n \<noteq> []"
proof (induction n rule: dec.induct)
  case (1 n)
  have "is_digit (char_of (48 + d))" if "d < 10" for d :: nat
    using that by (auto simp: is_digit_def)
  with 1 show ?case by (subst (1 2) dec.simps) auto
qed

definition row_payload :: "CursorEnv \<Rightarrow> KeyRow \<Rightarrow> string option \<Rightarrow> string option \<Rightarrow> ListCursorPayload" where
  "row_payload env r sortValue fingerprint = \<lparr>lc_created_at = cu_iso env (js_date (kr_created_at r)), lc_sort_value = sortValue,
     lc_public_id = kr_public_id r, lc_id = Some (kr_id r), lc_filter_fingerprint = fingerprint\<rparr>"

text \<open>What the standard library promises for one row: \<^verbatim>\<open>JSON.parse\<close> reads back what \<^verbatim>\<open>JSON.stringify\<close> wrote, and \<^verbatim>\<open>new Date\<close> what
  \<^verbatim>\<open>toISOString\<close> wrote.\<close>

definition codec_reads :: "CursorEnv \<Rightarrow> KeyRow \<Rightarrow> string option \<Rightarrow> string option \<Rightarrow> bool" where
  "codec_reads env r sortValue fingerprint \<longleftrightarrow>
     cu_parse env (json_flat (payload_members (row_payload env r sortValue fingerprint))) =
       Some (JObject (payload_members (row_payload env r sortValue fingerprint))) \<and>
     cu_date env (cu_iso env (js_date (kr_created_at r))) = Some (js_date (kr_created_at r))"

text \<open>A row of a table: a positive id and a public id of at most 28 characters.\<close>

definition row_ok :: "KeyRow \<Rightarrow> bool" where
  "row_ok r \<longleftrightarrow> 0 < kr_id r \<and> kr_id r < 2 ^ 53 \<and> (case kr_public_id r of None \<Rightarrow> True | Some p \<Rightarrow> 1 \<le> length p \<and> length p \<le> 28)"

definition fingerprint_ok :: "string option \<Rightarrow> bool" where
  "fingerprint_ok f \<longleftrightarrow> (case f of None \<Rightarrow> True | Some s \<Rightarrow> length s = 64 \<and> list_all hex_char s)"

lemma optional_member_lookup: "map_of (optional_member k f v) j = (if j = k then map_option f v else None)"
  by (simp add: optional_member_def split: option.splits)

lemma payload_schema:
  assumes "row_ok r" and "fingerprint_ok fp" and "codec_reads env r sv fp"
  shows "listCursorPayloadSchema env (JObject (payload_members (row_payload env r sv fp))) = Some (row_payload env r sv fp)"
proof -
  let ?ms = "payload_members (row_payload env r sv fp)"
  have known: "list_all (\<lambda>(k, _). k \<in> set [''created_at'', ''sort_value'', ''public_id'', ''id'', ''filter_fingerprint'']) ?ms"
    by (simp add: payload_members_def optional_member_def split: option.splits)
  have c: "map_of ?ms ''created_at'' = Some (JString (cu_iso env (js_date (kr_created_at r))))"
    by (simp add: payload_members_def row_payload_def)
  have look: "map_of ?ms ''sort_value'' = map_option JString sv" "map_of ?ms ''public_id'' = map_option JString (kr_public_id r)"
    "map_of ?ms ''id'' = Some (JNumber (dec (kr_id r)))" "map_of ?ms ''filter_fingerprint'' = map_option JString fp"
    by (simp_all add: payload_members_def row_payload_def optional_member_lookup map_add_def split: option.splits)
  have f1: "optional_field ?ms ''sort_value'' (string_field (\<lambda>_. True)) = Some sv"
    by (simp add: optional_field_def look split: option.splits)
  have f2: "optional_field ?ms ''public_id'' (string_field (\<lambda>s. 1 \<le> length s \<and> length s \<le> 28)) = Some (kr_public_id r)"
    using assms(1) by (auto simp: optional_field_def look row_ok_def split: option.splits)
  have f3: "optional_field ?ms ''id'' positive_int_field = Some (Some (kr_id r))"
    using assms(1) by (simp add: optional_field_def look row_ok_def undec_dec dec_digits)
  have f4: "optional_field ?ms ''filter_fingerprint'' (string_field (\<lambda>s. length s = 64 \<and> list_all hex_char s)) = Some fp"
    using assms(2) by (auto simp: optional_field_def look fingerprint_ok_def split: option.splits)
  have f0: "Option.bind (map_of ?ms ''created_at'') (string_field (\<lambda>s. cu_date env s \<noteq> None)) = Some (cu_iso env (js_date (kr_created_at r)))"
    using assms(3) by (simp add: c codec_reads_def)
  show ?thesis
    unfolding listCursorPayloadSchema_def by (simp only: js.case f0 f1 f2 f3 f4 known if_False not_True_eq_False prod.case option.case) (simp add: row_payload_def)
qed

lemma base64_digits_empty: "base64_digits bs = [] \<longleftrightarrow> bs = []"
  by (cases bs rule: base64_digits.cases) simp_all

lemma cursor_parses:
  assumes "row_ok r" and "fingerprint_ok fp" and "codec_reads env r sv fp"
  shows "parseListCursor env (Some (createOpaqueCursorFromRow env r sv fp)) =
    Some \<lparr>pc_created_at = js_date (kr_created_at r), pc_sort_value = sv, pc_public_id = kr_public_id r, pc_id = Some (kr_id r),
      pc_filter_fingerprint = fp\<rparr>"
proof -
  have mint: "createOpaqueCursorFromRow env r sv fp = base64url_encode (json_flat (payload_members (row_payload env r sv fp)))"
    by (simp add: createOpaqueCursorFromRow_def encodeListCursor_def row_payload_def)
  have "createOpaqueCursorFromRow env r sv fp \<noteq> []"
    by (simp add: mint base64url_encode_def json_flat_def base64_digits_empty)
  moreover have "decodeListCursor env (createOpaqueCursorFromRow env r sv fp) = Some (row_payload env r sv fp)"
    using assms(3) payload_schema [OF assms] by (simp add: decodeListCursor_def mint base64url_roundtrip codec_reads_def)
  ultimately show ?thesis using assms(3) by (simp add: parseListCursor_def row_payload_def codec_reads_def)
qed

text \<open>C17 A cursor decodes to the row it was made of: for every row of a table and every sort value and filter fingerprint, parsing the
  cursor minted for the row gives back its id, public id, sort value and fingerprint, and its creation instant down to the millisecond.\<close>

theorem cursor_roundtrip:
  assumes "row_ok r" and "fingerprint_ok fp" and "codec_reads env r sv fp"
  shows "parseListCursor env (Some (createOpaqueCursorFromRow env r sv fp)) =
    Some \<lparr>pc_created_at = js_date (kr_created_at r), pc_sort_value = sv, pc_public_id = kr_public_id r, pc_id = Some (kr_id r),
      pc_filter_fingerprint = fp\<rparr>"
  by (rule cursor_parses [OF assms])

section \<open>Pages\<close>

fun insert_by :: "('r \<Rightarrow> 'r \<Rightarrow> bool) \<Rightarrow> 'r \<Rightarrow> 'r list \<Rightarrow> 'r list" where
  "insert_by before x [] = [x]"
| "insert_by before x (y # ys) = (if before x y then x # y # ys else y # insert_by before x ys)"

text \<open>\<^verbatim>\<open>ORDER BY\<close> a linear order.\<close>

definition order_by :: "('r \<Rightarrow> 'r \<Rightarrow> bool) \<Rightarrow> 'r list \<Rightarrow> 'r list" where
  "order_by before rows = foldr (insert_by before) rows []"

definition created_asc :: "KeyRow \<Rightarrow> KeyRow \<Rightarrow> bool" where
  "created_asc r x \<longleftrightarrow> kr_created_at r < kr_created_at x \<or> (kr_created_at r = kr_created_at x \<and> kr_id r < kr_id x)"

definition created_desc :: "KeyRow \<Rightarrow> KeyRow \<Rightarrow> bool" where
  "created_desc r x \<longleftrightarrow> kr_created_at x < kr_created_at r \<or> (kr_created_at r = kr_created_at x \<and> kr_id x < kr_id r)"

definition text_asc :: "KeyRow \<Rightarrow> KeyRow \<Rightarrow> bool" where
  "text_asc r x \<longleftrightarrow> kr_text r < kr_text x \<or> (kr_text r = kr_text x \<and> kr_id r < kr_id x)"

definition text_desc :: "KeyRow \<Rightarrow> KeyRow \<Rightarrow> bool" where
  "text_desc r x \<longleftrightarrow> kr_text x < kr_text r \<or> (kr_text r = kr_text x \<and> kr_id r < kr_id x)"

text \<open>The conditions; \<^const>\<open>None\<close> is no condition.  A \<^verbatim>\<open>Date\<close> parameter is compared as an instant with microseconds zero.\<close>

definition resolveAscendingIdAfter :: "ParsedListCursor option \<Rightarrow> nat option" where
  "resolveAscendingIdAfter cursor = Option.bind cursor pc_id"

definition buildAscendingIdCursorCondition :: "ParsedListCursor option \<Rightarrow> KeyRow \<Rightarrow> bool" where
  "buildAscendingIdCursorCondition cursor x = (case resolveAscendingIdAfter cursor of None \<Rightarrow> True | Some i \<Rightarrow> kr_id x > i)"

definition buildAscendingCreatedAtIdCursorCondition :: "ParsedListCursor option \<Rightarrow> KeyRow \<Rightarrow> bool" where
  "buildAscendingCreatedAtIdCursorCondition cursor x = (case cursor of
       None \<Rightarrow> True
     | Some c \<Rightarrow> (case pc_id c of
         None \<Rightarrow> kr_created_at x > 1000 * pc_created_at c
       | Some i \<Rightarrow> (kr_created_at x > 1000 * pc_created_at c \<and> kr_id x \<noteq> i) \<or> (kr_created_at x = 1000 * pc_created_at c \<and> kr_id x > i)))"

definition buildDescendingCreatedAtIdCursorCondition :: "ParsedListCursor option \<Rightarrow> KeyRow \<Rightarrow> bool" where
  "buildDescendingCreatedAtIdCursorCondition cursor x = (case cursor of
       None \<Rightarrow> True
     | Some c \<Rightarrow> (case pc_id c of
         None \<Rightarrow> kr_created_at x < 1000 * pc_created_at c
       | Some i \<Rightarrow> (kr_created_at x < 1000 * pc_created_at c \<and> kr_id x \<noteq> i) \<or> (kr_created_at x = 1000 * pc_created_at c \<and> kr_id x < i)))"

definition buildAscendingTextIdCursorCondition :: "ParsedListCursor option \<Rightarrow> KeyRow \<Rightarrow> bool" where
  "buildAscendingTextIdCursorCondition cursor x = (case cursor of
       None \<Rightarrow> True
     | Some c \<Rightarrow> (case (pc_sort_value c, pc_id c) of
         (Some v, Some i) \<Rightarrow> kr_text x > v \<or> (kr_text x = v \<and> kr_id x > i)
       | _ \<Rightarrow> True))"

definition buildDescendingTextIdCursorCondition :: "ParsedListCursor option \<Rightarrow> KeyRow \<Rightarrow> bool" where
  "buildDescendingTextIdCursorCondition cursor x = (case cursor of
       None \<Rightarrow> True
     | Some c \<Rightarrow> (case (pc_sort_value c, pc_id c) of
         (Some v, Some i) \<Rightarrow> kr_text x < v \<or> (kr_text x = v \<and> kr_id x > i)
       | _ \<Rightarrow> True))"

datatype KeysetKind = TextKind | CreatedAtKind

definition computeListFilterFingerprint :: "CursorEnv \<Rightarrow> string option \<Rightarrow> string \<Rightarrow> string \<Rightarrow> string" where
  "computeListFilterFingerprint env q sortField order = cu_sha256hex env
     (json_flat [(''q'', JString (case q of None \<Rightarrow> [] | Some s \<Rightarrow> s)), (''sort'', JString sortField), (''order'', JString order)])"

record KeysetSort =
  ks_sort_field :: string
  ks_order_by :: "KeyRow \<Rightarrow> KeyRow \<Rightarrow> bool"
  ks_condition :: "KeyRow \<Rightarrow> bool"
  ks_sortValueFor :: "KeyRow \<Rightarrow> string option"
  ks_fingerprint :: string

text \<open>What the query asks: sort field, order, search term, cursor.\<close>

record KeysetQuery =
  kq_sort :: "string option"
  kq_order :: "string option"
  kq_q :: "string option"
  kq_after :: "string option"

definition keyset_order :: "KeysetKind \<Rightarrow> string \<Rightarrow> KeyRow \<Rightarrow> KeyRow \<Rightarrow> bool" where
  "keyset_order kind order = (case kind of
       CreatedAtKind \<Rightarrow> if order = ''desc'' then created_desc else created_asc
     | TextKind \<Rightarrow> if order = ''desc'' then text_desc else text_asc)"

definition keyset_condition :: "KeysetKind \<Rightarrow> string \<Rightarrow> ParsedListCursor option \<Rightarrow> KeyRow \<Rightarrow> bool" where
  "keyset_condition kind order = (case kind of
       CreatedAtKind \<Rightarrow> if order = ''desc'' then buildDescendingCreatedAtIdCursorCondition else buildAscendingCreatedAtIdCursorCondition
     | TextKind \<Rightarrow> if order = ''desc'' then buildDescendingTextIdCursorCondition else buildAscendingTextIdCursorCondition)"

definition sort_value_for :: "KeysetKind \<Rightarrow> KeyRow \<Rightarrow> string option" where
  "sort_value_for kind r = (case kind of TextKind \<Rightarrow> Some (kr_text r) | CreatedAtKind \<Rightarrow> None)"

definition resolveKeysetSort :: "CursorEnv \<Rightarrow> (string \<rightharpoonup> KeysetKind) \<Rightarrow> string \<Rightarrow> KeysetQuery \<Rightarrow> app_error + KeysetSort" where
  "resolveKeysetSort env columns defaultSort query =
     (let sortField = (case kq_sort query of Some s \<Rightarrow> s | None \<Rightarrow> defaultSort);
          spec = (case columns sortField of Some k \<Rightarrow> Some k | None \<Rightarrow> columns defaultSort)
      in case spec of
        None \<Rightarrow> Inl (InternalError ''No keyset sort column configured'')
      | Some kind \<Rightarrow>
          (let effectiveOrder = (case kq_order query of Some ord \<Rightarrow> ord | None \<Rightarrow> ''asc'');
               filterFingerprint = computeListFilterFingerprint env (kq_q query) sortField effectiveOrder;
               parsed = parseListCursor env (kq_after query);
               cursor = (case Option.bind parsed pc_filter_fingerprint of
                  Some f \<Rightarrow> if f \<noteq> filterFingerprint then None else parsed | None \<Rightarrow> parsed)
           in Inr \<lparr>ks_sort_field = sortField, ks_order_by = keyset_order kind effectiveOrder,
                ks_condition = keyset_condition kind effectiveOrder cursor, ks_sortValueFor = sort_value_for kind,
                ks_fingerprint = filterFingerprint\<rparr>))"

record KeysetPage =
  kp_items :: "KeyRow list"
  kp_has_more :: bool
  kp_next_cursor :: "string option"

definition finishKeysetPage :: "CursorEnv \<Rightarrow> nat \<Rightarrow> (KeyRow \<Rightarrow> string option) \<Rightarrow> string option \<Rightarrow> KeyRow list \<Rightarrow> KeysetPage" where
  "finishKeysetPage env limit sortValueFor fingerprint rows =
     (let hasMore = length rows > limit; items = (if hasMore then take limit rows else rows)
      in \<lparr>kp_items = items, kp_has_more = hasMore,
          kp_next_cursor = (if hasMore \<and> items \<noteq> [] then Some (createOpaqueCursorFromRow env (last items) (sortValueFor (last items)) fingerprint) else None)\<rparr>)"

text \<open>The query of one list: the role list, the API key list and the member list by creation have this body.\<close>

definition list_rows :: "CursorEnv \<Rightarrow> (string \<rightharpoonup> KeysetKind) \<Rightarrow> string \<Rightarrow> (KeyRow \<Rightarrow> bool) \<Rightarrow> nat \<Rightarrow> KeysetQuery \<Rightarrow> KeyRow list \<Rightarrow> app_error + KeysetPage" where
  "list_rows env columns defaultSort wh limit query rows = (case resolveKeysetSort env columns defaultSort query of
       Inl e \<Rightarrow> Inl e
     | Inr ks \<Rightarrow> Inr (finishKeysetPage env limit (ks_sortValueFor ks) (Some (ks_fingerprint ks))
         (take (limit + 1) (order_by (ks_order_by ks) (filter (\<lambda>r. wh r \<and> ks_condition ks r) rows)))))"

text \<open>\<^verbatim>\<open>cursorPaginationSchema\<close>; the limit is the number the query coerces to, \<^const>\<open>None\<close> of the result a failed parse.\<close>

definition PAGINATION_DEFAULT_LIMIT :: int where "PAGINATION_DEFAULT_LIMIT = 25"

definition PAGINATION_MAX_LIMIT :: int where "PAGINATION_MAX_LIMIT = 100"

definition cursorPaginationSchema :: "string option \<Rightarrow> int option \<Rightarrow> (string option \<times> int) option" where
  "cursorPaginationSchema after limit =
     (if (case after of None \<Rightarrow> False | Some a \<Rightarrow> length a > 512) then None
      else case limit of
        None \<Rightarrow> Some (after, PAGINATION_DEFAULT_LIMIT)
      | Some l \<Rightarrow> if 1 \<le> l \<and> l \<le> PAGINATION_MAX_LIMIT then Some (after, l) else None)"

text \<open>One request to a list endpoint: the validator parses the query, then the repository answers.\<close>

definition list_page :: "CursorEnv \<Rightarrow> (string \<rightharpoonup> KeysetKind) \<Rightarrow> string \<Rightarrow> (KeyRow \<Rightarrow> bool) \<Rightarrow> int option \<Rightarrow> KeysetQuery \<Rightarrow> KeyRow list \<Rightarrow> app_error + KeysetPage" where
  "list_page env columns defaultSort wh limit query rows = (case cursorPaginationSchema (kq_after query) limit of
       None \<Rightarrow> Inl (ValidationError ''errors:validation.invalidPagination'')
     | Some (after, l) \<Rightarrow> list_rows env columns defaultSort wh (nat l) (query\<lparr>kq_after := after\<rparr>) rows)"

text \<open>The audit list refuses a cursor of another filter; \<open>fingerprint\<close> is that of the request.\<close>

definition findWithFilters :: "CursorEnv \<Rightarrow> (KeyRow \<Rightarrow> bool) \<Rightarrow> string \<Rightarrow> nat \<Rightarrow> string option \<Rightarrow> KeyRow list \<Rightarrow> app_error + KeysetPage" where
  "findWithFilters env wh fingerprint limit after rows =
     (let cursor = parseListCursor env after in
      case Option.bind cursor pc_filter_fingerprint of
        Some f \<Rightarrow> if f \<noteq> fingerprint then Inl (ValidationError ''errors:validation.invalidPagination'')
          else Inr (finishKeysetPage env limit (\<lambda>_. None) (Some fingerprint)
            (take (limit + 1) (order_by created_desc (filter (\<lambda>r. wh r \<and> buildDescendingCreatedAtIdCursorCondition cursor r) rows))))
      | None \<Rightarrow> Inr (finishKeysetPage env limit (\<lambda>_. None) (Some fingerprint)
            (take (limit + 1) (order_by created_desc (filter (\<lambda>r. wh r \<and> buildDescendingCreatedAtIdCursorCondition cursor r) rows)))))"

definition notification_findByUser :: "CursorEnv \<Rightarrow> (KeyRow \<Rightarrow> bool) \<Rightarrow> nat \<Rightarrow> string option \<Rightarrow> KeyRow list \<Rightarrow> KeysetPage" where
  "notification_findByUser env wh limit after rows = finishKeysetPage env limit (\<lambda>_. None) None
     (take (limit + 1) (order_by created_desc (filter (\<lambda>r. wh r \<and> buildDescendingCreatedAtIdCursorCondition (parseListCursor env after) r) rows)))"

text \<open>A client follows the cursors: \<open>page\<close> answers one request.\<close>

fun follow_cursors :: "nat \<Rightarrow> (string option \<Rightarrow> KeysetPage) \<Rightarrow> string option \<Rightarrow> KeyRow list list" where
  "follow_cursors 0 page after = []"
| "follow_cursors (Suc n) page after = (case kp_next_cursor (page after) of
     None \<Rightarrow> [kp_items (page after)] | Some c \<Rightarrow> kp_items (page after) # follow_cursors n page (Some c))"

text \<open>The same walk over requests that can be refused: the error that ended it, if one did, and the pages got.\<close>

fun list_walk :: "nat \<Rightarrow> (string option \<Rightarrow> app_error + KeysetPage) \<Rightarrow> string option \<Rightarrow> app_error option \<times> KeyRow list list" where
  "list_walk 0 request after = (None, [])"
| "list_walk (Suc n) request after = (case request after of
     Inl e \<Rightarrow> (Some e, [])
   | Inr page \<Rightarrow> (case kp_next_cursor page of
       None \<Rightarrow> (None, [kp_items page])
     | Some c \<Rightarrow> (case list_walk n request (Some c) of (e, pages) \<Rightarrow> (e, kp_items page # pages))))"

text \<open>Requests that are all answered make it the plain walk.\<close>

lemma list_walk_answered:
  assumes "\<And>a. A a \<Longrightarrow> request a = Inr (page a)" and "\<And>a c. A a \<Longrightarrow> kp_next_cursor (page a) = Some c \<Longrightarrow> A (Some c)" and "A after"
  shows "list_walk n request after = (None, follow_cursors n page after)"
  using assms(3) by (induction n arbitrary: after) (simp_all add: assms(1,2) split: option.splits)

section \<open>Walking the pages\<close>

lemma set_insert_by [simp]: "set (insert_by before x ys) = insert x (set ys)"
  by (induction ys) auto

lemma set_order_by [simp]: "set (order_by before rows) = set rows"
  by (induction rows) (simp_all add: order_by_def)

lemma length_order_by [simp]: "length (order_by before rows) = length rows"
proof -
  have "length (insert_by before x ys) = Suc (length ys)" for x ys by (induction ys) auto
  then show ?thesis by (induction rows) (simp_all add: order_by_def)
qed

text \<open>A linear order of the rows of one table, and the cursor condition that names it.  \<open>ok\<close> is what the cursor needs of a row.\<close>

locale keyset =
  fixes before :: "KeyRow \<Rightarrow> KeyRow \<Rightarrow> bool" and condition :: "ParsedListCursor option \<Rightarrow> KeyRow \<Rightarrow> bool"
    and sort_value :: "KeyRow \<Rightarrow> string option" and ok :: "KeyRow \<Rightarrow> bool"
  assumes trans: "before r x \<Longrightarrow> before x y \<Longrightarrow> before r y"
    and irreflexive: "\<not> before r r"
    and total: "kr_id r \<noteq> kr_id x \<Longrightarrow> before r x \<or> before x r"
    and first_page: "condition None r"
    and next_page: "ok r \<Longrightarrow> kr_id x = kr_id r \<longrightarrow> x = r \<Longrightarrow> pc_created_at c = js_date (kr_created_at r) \<Longrightarrow> pc_sort_value c = sort_value r \<Longrightarrow>
      pc_id c = Some (kr_id r) \<Longrightarrow> condition (Some c) x \<longleftrightarrow> before r x"
begin

lemma sorted_insert_by:
  "sorted_wrt before ys \<Longrightarrow> kr_id x \<notin> kr_id ` set ys \<Longrightarrow> sorted_wrt before (insert_by before x ys)"
proof (induction ys)
  case (Cons y ys)
  then show ?case using total [of x y] by (auto intro: trans)
qed simp

lemma sorted_order_by: "distinct (map kr_id rows) \<Longrightarrow> sorted_wrt before (order_by before rows)"
proof (induction rows)
  case (Cons r rows)
  have "set (foldr (insert_by before) rows []) = set rows" using set_order_by [of before rows] by (simp add: order_by_def)
  with Cons show ?case by (auto simp: order_by_def intro!: sorted_insert_by)
qed (simp add: order_by_def)

lemma sorted_unique: "sorted_wrt before xs \<Longrightarrow> sorted_wrt before ys \<Longrightarrow> set xs = set ys \<Longrightarrow> xs = ys"
proof (induction xs arbitrary: ys)
  case (Cons x xs)
  then obtain y ys' where ys: "ys = y # ys'" by (cases ys) auto
  have xy: "x = y"
  proof (rule ccontr)
    assume ne: "x \<noteq> y"
    then have "x \<in> set ys'" "y \<in> set xs" using Cons.prems(3) ys by auto
    then have "before y x" "before x y" using Cons.prems ys by auto
    then show False using trans irreflexive by blast
  qed
  have "x \<notin> set xs" "x \<notin> set ys'" using Cons.prems ys xy irreflexive by auto
  then have "set xs = set ys'" using Cons.prems(3) ys xy by auto
  with Cons ys xy show ?case by simp
qed simp

lemma order_by_filter: "distinct (map kr_id rows) \<Longrightarrow> order_by before (filter P rows) = filter P (order_by before rows)"
proof (rule sorted_unique)
  assume d: "distinct (map kr_id rows)"
  show "sorted_wrt before (order_by before (filter P rows))" by (rule sorted_order_by [OF distinct_map_filter [OF d]])
  show "sorted_wrt before (filter P (order_by before rows))" by (rule sorted_wrt_filter [OF sorted_order_by [OF d]])
  show "set (order_by before (filter P rows)) = set (filter P (order_by before rows))" by simp
qed

text \<open>The rows after the last row of a page are the rest of the list.\<close>

lemma rest_of_list:
  assumes "sorted_wrt before (xs @ r # ys)" and "\<And>x. x \<in> set (xs @ r # ys) \<Longrightarrow> P x \<longleftrightarrow> before r x"
  shows "filter P (xs @ r # ys) = ys"
proof -
  have "\<not> P x" if "x \<in> set xs" for x
  proof
    assume "P x"
    then have "before r x" using assms(2) that by simp
    moreover have "before x r" using assms(1) that by (simp add: sorted_wrt_append)
    ultimately show False using trans irreflexive by blast
  qed
  moreover have "\<not> P r" using assms(2) irreflexive by simp
  moreover have "P y" if "y \<in> set ys" for y using assms that by (simp add: sorted_wrt_append)
  ultimately show ?thesis by (simp add: filter_empty_conv)
qed

lemma condition_after:
  assumes "row_ok r" and "fingerprint_ok fp" and "codec_reads env r (sort_value r) fp" and "ok r" and "kr_id x = kr_id r \<longrightarrow> x = r"
  shows "condition (parseListCursor env (Some (createOpaqueCursorFromRow env r (sort_value r) fp))) x \<longleftrightarrow> before r x"
  by (simp add: cursor_parses [OF assms(1-3)] next_page [OF assms(4,5)])

text \<open>Following the cursors from a row on lists what comes after it.\<close>

lemma follow_from:
  assumes "distinct (map kr_id rows)" and "fingerprint_ok fp" and "0 < limit"
    and "\<And>r. r \<in> set rows \<Longrightarrow> row_ok r \<and> ok r \<and> codec_reads env r (sort_value r) fp"
    and page: "\<And>after. after = None \<or> (\<exists>r \<in> set rows. after = Some (createOpaqueCursorFromRow env r (sort_value r) fp)) \<Longrightarrow>
      page after = finishKeysetPage env limit sort_value fp
        (take (limit + 1) (order_by before (filter (\<lambda>r. wh r \<and> condition (parseListCursor env after) r) rows)))"
    and "order_by before (filter wh rows) = xs @ ys"
    and "after = (if xs = [] then None else Some (createOpaqueCursorFromRow env (last xs) (sort_value (last xs)) fp))"
    and "length ys < n"
  shows "concat (follow_cursors n page after) = ys \<and> (\<forall>p \<in> set (follow_cursors n page after). length p \<le> limit)"
  using assms(6-8)
proof (induction n arbitrary: xs ys after)
  case (Suc n)
  let ?S = "order_by before (filter wh rows)"
  have sorted: "sorted_wrt before ?S" by (rule sorted_order_by [OF distinct_map_filter [OF assms(1)]])
  have inS: "x \<in> set rows" if "x \<in> set ?S" for x using that by auto
  have uniq: "kr_id x = kr_id r \<longrightarrow> x = r" if "x \<in> set rows" "r \<in> set rows" for x r
    using that assms(1) by (auto simp: distinct_map inj_on_def)
  have after: "after = None \<or> (\<exists>r \<in> set rows. after = Some (createOpaqueCursorFromRow env r (sort_value r) fp))"
  proof (cases "xs = []")
    case False
    then have "last xs \<in> set ?S" using Suc.prems(1) by simp
    with False Suc.prems(2) inS show ?thesis by auto
  qed (simp add: Suc.prems(2))
  have rest: "order_by before (filter (\<lambda>r. wh r \<and> condition (parseListCursor env after) r) rows) = ys"
  proof -
    have "order_by before (filter (\<lambda>r. wh r \<and> condition (parseListCursor env after) r) rows) =
        filter (condition (parseListCursor env after)) ?S"
      by (simp add: order_by_filter assms(1) conj_commute)
    also have "\<dots> = ys"
    proof (cases xs rule: rev_cases)
      case Nil
      then show ?thesis using Suc.prems(1,2) first_page by (simp add: parseListCursor_def)
    next
      case (snoc us r)
      have r: "r \<in> set rows" using inS Suc.prems(1) snoc by simp
      have "condition (parseListCursor env after) x \<longleftrightarrow> before r x" if "x \<in> set ?S" for x
        using Suc.prems(2) snoc assms(2) assms(4) [of r] r inS [OF that] uniq by (simp add: condition_after)
      then show ?thesis using rest_of_list [of us r ys] sorted Suc.prems(1) snoc by simp
    qed
    finally show ?thesis .
  qed
  have pg: "page after = finishKeysetPage env limit sort_value fp (take (limit + 1) ys)" using page [OF after] by (simp add: rest)
  show ?case
  proof (cases "length ys > limit")
    case False
    then show ?thesis by (simp add: pg finishKeysetPage_def Let_def)
  next
    case True
    let ?items = "take limit ys"
    have ne: "?items \<noteq> []" using True assms(3) by auto
    have items: "take limit (take (limit + 1) ys) = ?items" by (simp add: min_def)
    let ?c = "Some (createOpaqueCursorFromRow env (last ?items) (sort_value (last ?items)) fp)"
    have p: "kp_items (page after) = ?items" "kp_next_cursor (page after) = ?c"
      using True ne items by (simp_all add: pg finishKeysetPage_def Let_def)
    have f: "follow_cursors (Suc n) page after = ?items # follow_cursors n page ?c" unfolding follow_cursors.simps p by (simp only: option.case)
    have glue: "concat (?items # F) = ys \<and> (\<forall>p \<in> set (?items # F). length p \<le> limit)"
      if "concat F = drop limit ys \<and> (\<forall>p \<in> set F. length p \<le> limit)" for F
      using that by auto
    have "concat (follow_cursors n page ?c) = drop limit ys \<and> (\<forall>p \<in> set (follow_cursors n page ?c). length p \<le> limit)"
    proof (rule Suc.IH [of "xs @ ?items"])
      show "?S = (xs @ ?items) @ drop limit ys" using Suc.prems(1) by simp
      show "?c = (if xs @ ?items = [] then None else Some (createOpaqueCursorFromRow env (last (xs @ ?items)) (sort_value (last (xs @ ?items))) fp))"
        using ne by simp
      show "length (drop limit ys) < n" using Suc.prems(3) True assms(3) by simp
    qed
    from glue [OF this] show ?thesis unfolding f .
  qed
qed simp

end

text \<open>The cursor keeps the instant of a row whose microseconds are whole milliseconds.\<close>

definition whole_millis :: "KeyRow \<Rightarrow> bool" where
  "whole_millis r \<longleftrightarrow> kr_created_at r mod 1000 = 0"

lemma whole_millis_date: "whole_millis r \<Longrightarrow> 1000 * js_date (kr_created_at r) = kr_created_at r"
  by (simp add: whole_millis_def js_date_def) (metis add.right_neutral mult_div_mod_eq)

interpretation created_asc_keyset: keyset created_asc buildAscendingCreatedAtIdCursorCondition "sort_value_for CreatedAtKind" whole_millis
  by unfold_locales
    (auto simp: created_asc_def buildAscendingCreatedAtIdCursorCondition_def whole_millis_date split: option.splits)

interpretation created_desc_keyset: keyset created_desc buildDescendingCreatedAtIdCursorCondition "sort_value_for CreatedAtKind" whole_millis
  by unfold_locales
    (auto simp: created_desc_def buildDescendingCreatedAtIdCursorCondition_def whole_millis_date split: option.splits)

interpretation text_asc_keyset: keyset text_asc buildAscendingTextIdCursorCondition "sort_value_for TextKind" "\<lambda>_. True"
  by unfold_locales
    (auto simp: text_asc_def buildAscendingTextIdCursorCondition_def sort_value_for_def split: option.splits)

interpretation text_desc_keyset: keyset text_desc buildDescendingTextIdCursorCondition "sort_value_for TextKind" "\<lambda>_. True"
  by unfold_locales
    (auto simp: text_desc_def buildDescendingTextIdCursorCondition_def sort_value_for_def split: option.splits)

text \<open>The endpoint with the cursor of its previous answer is the walk of the locale.\<close>

lemma list_rows_form:
  assumes "columns (case kq_sort query of Some s \<Rightarrow> s | None \<Rightarrow> defaultSort) = Some kind"
    and "fp = computeListFilterFingerprint env (kq_q query) (case kq_sort query of Some s \<Rightarrow> s | None \<Rightarrow> defaultSort) order"
    and "order = (case kq_order query of Some ord \<Rightarrow> ord | None \<Rightarrow> ''asc'')"
    and "after = None \<or> (\<exists>c. parseListCursor env after = Some c \<and> pc_filter_fingerprint c = Some fp)"
  shows "list_rows env columns defaultSort wh limit (query\<lparr>kq_after := after\<rparr>) rows =
    Inr (finishKeysetPage env limit (sort_value_for kind) (Some fp)
      (take (limit + 1) (order_by (keyset_order kind order) (filter (\<lambda>r. wh r \<and> keyset_condition kind order (parseListCursor env after) r) rows))))"
  using assms(4)
proof
  assume "after = None"
  then show ?thesis
    using assms(1) by (simp add: list_rows_def resolveKeysetSort_def Let_def assms(2) assms(3)[symmetric] parseListCursor_def)
next
  assume "\<exists>c. parseListCursor env after = Some c \<and> pc_filter_fingerprint c = Some fp"
  then obtain c where "parseListCursor env after = Some c" "pc_filter_fingerprint c = Some fp" by blast
  then show ?thesis
    using assms(1) by (simp add: list_rows_def resolveKeysetSort_def Let_def assms(2) assms(3)[symmetric])
qed

text \<open>What the walk needs of a table: ids of its own, cursors that decode and that are no longer than the 512 characters
  the query schema admits, and whole milliseconds when it is sorted by creation.\<close>

definition table_ok :: "CursorEnv \<Rightarrow> KeysetKind \<Rightarrow> string \<Rightarrow> KeyRow list \<Rightarrow> bool" where
  "table_ok env kind fp rows \<longleftrightarrow> distinct (map kr_id rows) \<and> fingerprint_ok (Some fp) \<and>
     (\<forall>r \<in> set rows. row_ok r \<and> codec_reads env r (sort_value_for kind r) (Some fp) \<and> (kind = CreatedAtKind \<longrightarrow> whole_millis r) \<and>
        length (createOpaqueCursorFromRow env r (sort_value_for kind r) (Some fp)) \<le> 512)"

lemma finish_next:
  "kp_next_cursor (finishKeysetPage env limit sv fp rows) = Some c \<Longrightarrow> \<exists>r \<in> set rows. c = createOpaqueCursorFromRow env r (sv r) fp"
proof -
  assume next': "kp_next_cursor (finishKeysetPage env limit sv fp rows) = Some c"
  then have "take limit rows \<noteq> []" "c = createOpaqueCursorFromRow env (last (take limit rows)) (sv (last (take limit rows))) fp"
    by (auto simp: finishKeysetPage_def Let_def split: if_splits)
  moreover have "last (take limit rows) \<in> set rows" using calculation(1) by (meson in_set_takeD last_in_set)
  ultimately show ?thesis by blast
qed


lemma rows_walk:
  assumes "table_ok env kind fp rows" and "0 < limit"
    and pg: "\<And>after. page after = finishKeysetPage env limit (sort_value_for kind) (Some fp)
      (take (limit + 1) (order_by (keyset_order kind order) (filter (\<lambda>r. wh r \<and> keyset_condition kind order (parseListCursor env after) r) rows)))"
  shows "concat (follow_cursors (Suc (length rows)) page None) = order_by (keyset_order kind order) (filter wh rows) \<and>
    (\<forall>p \<in> set (follow_cursors (Suc (length rows)) page None). length p \<le> limit)" (is ?goal)
proof -
  have ok: "distinct (map kr_id rows)" "fingerprint_ok (Some fp)"
    and rows: "\<And>r. r \<in> set rows \<Longrightarrow> row_ok r \<and> codec_reads env r (sort_value_for kind r) (Some fp) \<and> (kind = CreatedAtKind \<longrightarrow> whole_millis r)"
    using assms(1) by (simp_all add: table_ok_def)
  have len: "length (order_by (keyset_order kind order) (filter wh rows)) < Suc (length rows)" by (simp add: le_imp_less_Suc)
  show ?thesis
  proof (cases kind)
    case TextKind
    note defs = TextKind keyset_order_def keyset_condition_def
    show ?thesis
    proof (cases "order = ''desc''")
      case True
      show ?thesis using text_desc_keyset.follow_from [OF ok assms(2), where env = env and page = page and wh = wh and xs = "[]" and ys = "order_by text_desc (filter wh rows)"
          and after = None and n = "Suc (length rows)"] rows pg len by (simp add: defs True del: follow_cursors.simps)
    next
      case False
      show ?thesis using text_asc_keyset.follow_from [OF ok assms(2), where env = env and page = page and wh = wh and xs = "[]" and ys = "order_by text_asc (filter wh rows)"
          and after = None and n = "Suc (length rows)"] rows pg len by (simp add: defs False del: follow_cursors.simps)
    qed
  next
    case CreatedAtKind
    note defs = CreatedAtKind keyset_order_def keyset_condition_def
    show ?thesis
    proof (cases "order = ''desc''")
      case True
      show ?thesis using created_desc_keyset.follow_from [OF ok assms(2), where env = env and page = page and wh = wh and xs = "[]" and ys = "order_by created_desc (filter wh rows)"
          and after = None and n = "Suc (length rows)"] rows pg len by (simp add: defs True del: follow_cursors.simps)
    next
      case False
      show ?thesis using created_asc_keyset.follow_from [OF ok assms(2), where env = env and page = page and wh = wh and xs = "[]" and ys = "order_by created_asc (filter wh rows)"
          and after = None and n = "Suc (length rows)"] rows pg len by (simp add: defs False del: follow_cursors.simps)
    qed
  qed
qed

text \<open>C16 Following the cursors of a list endpoint, from the first page on, lists every row that matches once, in the order asked for, on pages
  of at most the limit, and ends: no request is refused and the pages one after the other are the sorted list.  The limit is one the
  query schema admits; the cursors of the rows are no longer than the 512 characters it admits (a name of 235 characters is too
  long, as shown below); and the creation instants of a list sorted by creation are whole milliseconds.\<close>

theorem pages_list_everything_once:
  assumes "columns (case kq_sort query of Some s \<Rightarrow> s | None \<Rightarrow> defaultSort) = Some kind"
    and "order = (case kq_order query of Some ord \<Rightarrow> ord | None \<Rightarrow> ''asc'')"
    and "table_ok env kind (computeListFilterFingerprint env (kq_q query) (case kq_sort query of Some s \<Rightarrow> s | None \<Rightarrow> defaultSort) order) rows"
    and "cursorPaginationSchema None limit = Some (None, l)"
    and "(refused, pages) = list_walk (Suc (length rows)) (\<lambda>after. list_page env columns defaultSort wh limit (query\<lparr>kq_after := after\<rparr>) rows) None"
  shows "refused = None \<and> concat pages = order_by (keyset_order kind order) (filter wh rows) \<and> (\<forall>p \<in> set pages. int (length p) \<le> l)"
proof -
  define fp where "fp = computeListFilterFingerprint env (kq_q query) (case kq_sort query of Some s \<Rightarrow> s | None \<Rightarrow> defaultSort) order"
  let ?request = "\<lambda>after. list_page env columns defaultSort wh limit (query\<lparr>kq_after := after\<rparr>) rows"
  define page where "page = (\<lambda>after. finishKeysetPage env (nat l) (sort_value_for kind) (Some fp)
    (take (nat l + 1) (order_by (keyset_order kind order) (filter (\<lambda>r. wh r \<and> keyset_condition kind order (parseListCursor env after) r) rows))))"
  let ?A = "\<lambda>after. after = None \<or> (\<exists>r \<in> set rows. after = Some (createOpaqueCursorFromRow env r (sort_value_for kind r) (Some fp)))"
  have rows: "row_ok r \<and> codec_reads env r (sort_value_for kind r) (Some fp) \<and>
      length (createOpaqueCursorFromRow env r (sort_value_for kind r) (Some fp)) \<le> 512" if "r \<in> set rows" for r
    using assms(3) that by (simp add: table_ok_def fp_def)
  have fpok: "fingerprint_ok (Some fp)" using assms(3) by (simp add: table_ok_def fp_def)
  have l: "1 \<le> l" using assms(4) by (auto simp: cursorPaginationSchema_def PAGINATION_DEFAULT_LIMIT_def split: option.splits if_splits)
  have answered: "?request after = Inr (page after)" if "?A after" for after
  proof -
    have "after = None \<or> (\<exists>c. parseListCursor env after = Some c \<and> pc_filter_fingerprint c = Some fp)"
      using that rows fpok by (auto simp: cursor_parses)
    from list_rows_form [where query = query and columns = columns and defaultSort = defaultSort, OF assms(1) fp_def assms(2) this]
    have "list_rows env columns defaultSort wh (nat l) (query\<lparr>kq_after := after\<rparr>) rows = Inr (page after)" by (simp add: page_def)
    moreover have "cursorPaginationSchema after limit = Some (after, l)"
      using assms(4) that rows by (fastforce simp: cursorPaginationSchema_def split: option.splits if_splits)
    ultimately show ?thesis by (simp add: list_page_def)
  qed
  have onward: "?A (Some c)" if "?A a" "kp_next_cursor (page a) = Some c" for a c
    using finish_next [OF that(2) [unfolded page_def]] by (auto dest!: in_set_takeD)
  have "list_walk (Suc (length rows)) ?request None = (None, follow_cursors (Suc (length rows)) page None)"
    by (rule list_walk_answered [where A = ?A, OF answered onward]) simp_all
  then have walk: "refused = None" "pages = follow_cursors (Suc (length rows)) page None"
    using assms(5) by (simp_all del: list_walk.simps follow_cursors.simps)
  have "concat pages = order_by (keyset_order kind order) (filter wh rows) \<and> (\<forall>p \<in> set pages. length p \<le> nat l)"
    unfolding walk(2) using l
    by (intro rows_walk [OF assms(3) [folded fp_def]]) (simp_all add: page_def)
  with walk(1) l show ?thesis by (simp add: le_nat_iff)
qed

section \<open>Where paging fails\<close>

lemma finish_items_subset: "set (kp_items (finishKeysetPage env limit sv fp rows)) \<subseteq> set rows"
  by (auto simp: finishKeysetPage_def Let_def dest: in_set_takeD)

text \<open>A notification page after a cursor lists nothing created later than the cursor's millisecond.\<close>

lemma pages_below:
  assumes "\<And>r. r \<in> set rows \<Longrightarrow> row_ok r \<and> codec_reads env r None None"
    and "r \<in> set rows" and "c = createOpaqueCursorFromRow env r None None"
  shows "\<forall>x \<in> set (concat (follow_cursors n (\<lambda>after. notification_findByUser env wh limit after rows) (Some c))).
    kr_created_at x \<le> 1000 * js_date (kr_created_at r)"
  using assms(2,3)
proof (induction n arbitrary: r c)
  case (Suc n)
  let ?page = "notification_findByUser env wh limit (Some c) rows"
  let ?rs = "take (limit + 1) (order_by created_desc (filter (\<lambda>r. wh r \<and> buildDescendingCreatedAtIdCursorCondition (parseListCursor env (Some c)) r) rows))"
  have page: "?page = finishKeysetPage env limit (\<lambda>_. None) None ?rs" by (simp add: notification_findByUser_def)
  have parse: "parseListCursor env (Some c) = Some \<lparr>pc_created_at = js_date (kr_created_at r), pc_sort_value = None, pc_public_id = kr_public_id r,
      pc_id = Some (kr_id r), pc_filter_fingerprint = None\<rparr>"
    using cursor_parses [of r None env None] assms(1) Suc.prems by (simp add: fingerprint_ok_def)
  have below: "kr_created_at x \<le> 1000 * js_date (kr_created_at r) \<and> x \<in> set rows" if "x \<in> set ?rs" for x
    using in_set_takeD [OF that] by (auto simp: parse buildDescendingCreatedAtIdCursorCondition_def)
  have items: "kr_created_at x \<le> 1000 * js_date (kr_created_at r)" if "x \<in> set (kp_items ?page)" for x
    using below [OF subsetD [OF finish_items_subset that [unfolded page]]] by blast
  show ?case
  proof (cases "kp_next_cursor ?page")
    case None
    then have "follow_cursors (Suc n) (\<lambda>after. notification_findByUser env wh limit after rows) (Some c) = [kp_items ?page]"
      by (simp only: follow_cursors.simps option.case)
    then show ?thesis using items by (simp del: follow_cursors.simps)
  next
    case (Some c')
    then have f: "follow_cursors (Suc n) (\<lambda>after. notification_findByUser env wh limit after rows) (Some c) =
        kp_items ?page # follow_cursors n (\<lambda>after. notification_findByUser env wh limit after rows) (Some c')"
      by (simp only: follow_cursors.simps option.case)
    obtain r' where r': "r' \<in> set ?rs" "c' = createOpaqueCursorFromRow env r' None None"
      using finish_next [of env limit "\<lambda>_. None" None ?rs c'] Some page by auto
    have le: "1000 * js_date (kr_created_at r') \<le> 1000 * js_date (kr_created_at r)"
      using below [OF r'(1)] unfolding js_date_def by linarith
    have "\<forall>x \<in> set (concat (follow_cursors n (\<lambda>after. notification_findByUser env wh limit after rows) (Some c'))).
        kr_created_at x \<le> 1000 * js_date (kr_created_at r')"
      by (rule Suc.IH) (use below [OF r'(1)] r'(2) in simp_all)
    then have "kr_created_at x \<le> 1000 * js_date (kr_created_at r)"
      if "x \<in> set (concat (follow_cursors n (\<lambda>after. notification_findByUser env wh limit after rows) (Some c')))" for x
      using that le by (meson order_trans)
    with items show ?thesis unfolding f concat.simps set_append by blast
  qed
qed simp

text \<open>Rows of the boundary row's millisecond are lost from a descending list.  When a page ends with a row, every other row of the same
  millisecond that is not at its very start, such as one written by the same transaction, is on no later page, though the order puts it
  after the boundary row: the cursor keeps milliseconds and the table microseconds.\<close>

theorem rows_of_one_millisecond_are_skipped:
  assumes "\<And>r. r \<in> set rows \<Longrightarrow> row_ok r \<and> codec_reads env r None None" and "r \<in> set rows"
    and "created_desc r x" and "js_date (kr_created_at x) = js_date (kr_created_at r)" and "\<not> whole_millis x"
  shows "x \<notin> set (concat (follow_cursors n (\<lambda>after. notification_findByUser env wh limit after rows)
    (Some (createOpaqueCursorFromRow env r None None))))"
proof
  assume "x \<in> set (concat (follow_cursors n (\<lambda>after. notification_findByUser env wh limit after rows)
    (Some (createOpaqueCursorFromRow env r None None))))"
  then have "kr_created_at x \<le> 1000 * js_date (kr_created_at x)"
    using pages_below [OF assms(1,2) refl] assms(4) by metis
  moreover have "1000 * js_date (kr_created_at x) + kr_created_at x mod 1000 = kr_created_at x" by (simp add: js_date_def)
  moreover have "kr_created_at x mod 1000 > 0" using assms(5) by (simp add: whole_millis_def order_less_le)
  ultimately show False by linarith
qed

lemma length_base64_digits: "length (base64_digits bs) = (4 * length bs + 2) div 3"
  by (induction bs rule: base64_digits.induct) simp_all

lemma length_json_string: "length (json_string s) \<ge> length s + 2"
proof -
  have one: "length (json_escape_char c) \<ge> 1" for c by (simp add: json_escape_char_def Let_def split: option.splits)
  have "length (concat (map json_escape_char s)) \<ge> length s"
  proof (induction s)
    case (Cons c s)
    then show ?case using one [of c] by simp
  qed simp
  then show ?thesis by (simp add: json_string_def)
qed

lemma length_members: "length (json_members ms) + 1 \<ge> (\<Sum>m\<leftarrow>ms. length (json_member m) + 1)"
  by (induction ms rule: json_members.induct) simp_all

text \<open>C A list sorted by name cannot be paged past a long name.  When the last row of a page has a name of 235 characters or more, which an API
  key may have (its limit is 255), the cursor the page hands out is longer than the 512 characters the query schema admits, so the
  request for the next page is refused.\<close>

theorem long_name_cursor_is_refused:
  assumes "length (kr_text r) \<ge> 235" and "length fp = 64" and "length (cu_iso env (js_date (kr_created_at r))) = 24"
    and "last (take limit rows) = r" and "0 < limit" and "limit < length rows"
  shows "\<exists>c. kp_next_cursor (finishKeysetPage env limit (sort_value_for TextKind) (Some fp) rows) = Some c \<and>
    cursorPaginationSchema (Some c) l = None"
proof -
  let ?c = "createOpaqueCursorFromRow env r (Some (kr_text r)) (Some fp)"
  let ?p = "row_payload env r (Some (kr_text r)) (Some fp)"
  have m: "(\<Sum>m\<leftarrow>payload_members ?p. length (json_member m) + 1) \<ge> 385"
    using length_json_string [of "kr_text r"] length_json_string [of fp] length_json_string [of "cu_iso env (js_date (kr_created_at r))"] assms(1-3)
      length_json_string [of "''created_at''"] length_json_string [of "''sort_value''"] length_json_string [of "''filter_fingerprint''"] length_json_string [of "''id''"]
    by (simp add: payload_members_def row_payload_def optional_member_def split: option.splits)
  then have "length (json_flat (payload_members ?p)) \<ge> 386"
    using length_members [of "payload_members ?p"] by (simp add: json_flat_def)
  moreover have "length ?c = (4 * length (json_flat (payload_members ?p)) + 2) div 3"
    by (simp add: createOpaqueCursorFromRow_def encodeListCursor_def row_payload_def base64url_encode_def length_base64_digits)
  ultimately have "length ?c > 512" by simp
  moreover have "take limit rows \<noteq> []" using assms(5,6) by auto
  ultimately show ?thesis
    using assms(4,6) by (simp add: finishKeysetPage_def Let_def cursorPaginationSchema_def sort_value_for_def)
qed

section \<open>The hypotheses at a small table\<close>

definition demo_row :: "nat \<Rightarrow> int \<Rightarrow> string \<Rightarrow> KeyRow" where
  "demo_row i t name = \<lparr>kr_id = i, kr_public_id = None, kr_created_at = t, kr_text = name\<rparr>"

definition demo_fingerprint :: string where "demo_fingerprint = replicate 64 CHR ''a''"

text \<open>\<^verbatim>\<open>JSON.parse\<close> on the cursors of known rows.\<close>

definition demo_cursor_env :: "(KeyRow \<times> string option \<times> string option) list \<Rightarrow> CursorEnv" where
  "demo_cursor_env known = (let
       iso = (\<lambda>t. dec (nat t));
       base = \<lparr>cu_iso = iso, cu_date = (\<lambda>s. Some (int (undec s))), cu_parse = (\<lambda>_. None), cu_sha256hex = (\<lambda>_. demo_fingerprint)\<rparr>;
       payloads = map (\<lambda>(r, sv, fp). payload_members (row_payload base r sv fp)) known
     in base\<lparr>cu_parse := (\<lambda>s. map_option JObject (List.find (\<lambda>ms. json_flat ms = s) payloads))\<rparr>)"

lemma demo_codec:
  "codec_reads (demo_cursor_env [(demo_row 1 5000 ''b'', Some ''b'', Some demo_fingerprint), (demo_row 2 7000 ''a'', Some ''a'', Some demo_fingerprint)])
     (demo_row 1 5000 ''b'') (Some ''b'') (Some demo_fingerprint)"
  "codec_reads (demo_cursor_env [(demo_row 1 5000 ''b'', Some ''b'', Some demo_fingerprint), (demo_row 2 7000 ''a'', Some ''a'', Some demo_fingerprint)])
     (demo_row 2 7000 ''a'') (Some ''a'') (Some demo_fingerprint)"
  "codec_reads (demo_cursor_env [(demo_row 1 5003 [], None, None), (demo_row 2 5003 [], None, None)]) (demo_row 1 5003 []) None None"
  "codec_reads (demo_cursor_env [(demo_row 1 5003 [], None, None), (demo_row 2 5003 [], None, None)]) (demo_row 2 5003 []) None None"
  by code_simp+

theorem cursor_roundtrip_witness:
  "\<exists>env. parseListCursor env (Some (createOpaqueCursorFromRow env (demo_row 1 5003 []) None None)) =
    Some \<lparr>pc_created_at = 5, pc_sort_value = None, pc_public_id = None, pc_id = Some 1, pc_filter_fingerprint = None\<rparr>"
proof -
  have "row_ok (demo_row 1 5003 [])" "fingerprint_ok None" by (simp_all add: row_ok_def demo_row_def fingerprint_ok_def)
  from cursor_roundtrip [OF this demo_codec(3)] show ?thesis by (auto simp: demo_row_def js_date_def)
qed

definition demo_names :: CursorEnv where
  "demo_names = demo_cursor_env [(demo_row 1 5000 ''b'', Some ''b'', Some demo_fingerprint), (demo_row 2 7000 ''a'', Some ''a'', Some demo_fingerprint)]"

lemma demo_cursors_fit:
  "length (createOpaqueCursorFromRow demo_names (demo_row 1 5000 ''b'') (Some ''b'') (Some demo_fingerprint)) \<le> 512"
  "length (createOpaqueCursorFromRow demo_names (demo_row 2 7000 ''a'') (Some ''a'') (Some demo_fingerprint)) \<le> 512"
  by code_simp+

theorem pages_list_everything_once_witness:
  "\<exists>pages. (None, pages) = list_walk 3 (\<lambda>after. list_page demo_names [''name'' \<mapsto> TextKind] ''name'' (\<lambda>_. True) (Some 1)
      \<lparr>kq_sort = None, kq_order = None, kq_q = None, kq_after = after\<rparr> [demo_row 1 5000 ''b'', demo_row 2 7000 ''a'']) None \<and>
    concat pages = [demo_row 2 7000 ''a'', demo_row 1 5000 ''b'']"
proof -
  let ?rows = "[demo_row 1 5000 ''b'', demo_row 2 7000 ''a'']"
  let ?q = "\<lparr>kq_sort = None, kq_order = None, kq_q = None, kq_after = None\<rparr>"
  let ?w = "list_walk (Suc (length ?rows)) (\<lambda>after. list_page demo_names [''name'' \<mapsto> TextKind] ''name'' (\<lambda>_. True) (Some 1) (?q\<lparr>kq_after := after\<rparr>) ?rows) None"
  have fp: "computeListFilterFingerprint demo_names q s ord = demo_fingerprint" for q s ord
    by (simp add: computeListFilterFingerprint_def demo_names_def demo_cursor_env_def Let_def)
  have "fingerprint_ok (Some demo_fingerprint)" by code_simp
  then have ok: "table_ok demo_names TextKind (computeListFilterFingerprint demo_names (kq_q ?q) (case kq_sort ?q of Some s \<Rightarrow> s | None \<Rightarrow> ''name'') ''asc'') ?rows"
    using demo_codec(1,2) demo_cursors_fit unfolding fp
    by (simp add: table_ok_def row_ok_def sort_value_for_def demo_names_def) (simp add: demo_row_def)
  have col: "[''name'' \<mapsto> TextKind] (case kq_sort ?q of Some s \<Rightarrow> s | None \<Rightarrow> ''name'') = Some TextKind" by simp
  have asc: "''asc'' = (case kq_order ?q of Some ord \<Rightarrow> ord | None \<Rightarrow> ''asc'')" by simp
  have o: "order_by (keyset_order TextKind ''asc'') (filter (\<lambda>_. True) ?rows) = [demo_row 2 7000 ''a'', demo_row 1 5000 ''b'']" by code_simp
  have lim: "cursorPaginationSchema None (Some 1) = Some (None, 1)" by (simp add: cursorPaginationSchema_def PAGINATION_MAX_LIMIT_def)
  obtain refused pages where w: "(refused, pages) = ?w" by (metis surj_pair)
  have "refused = None \<and> concat pages = [demo_row 2 7000 ''a'', demo_row 1 5000 ''b'']"
    using pages_list_everything_once [where columns = "[''name'' \<mapsto> TextKind]" and query = ?q and defaultSort = "''name''", OF col asc ok lim w] o by simp
  with w show ?thesis by (intro exI [of _ pages]) (simp add: eval_nat_numeral del: list_walk.simps)
qed

theorem rows_of_one_millisecond_are_skipped_witness:
  "\<exists>env. demo_row 1 5003 [] \<notin> set (concat (follow_cursors 9 (\<lambda>after. notification_findByUser env (\<lambda>_. True) 1 after [demo_row 1 5003 [], demo_row 2 5003 []])
    (Some (createOpaqueCursorFromRow env (demo_row 2 5003 []) None None))))"
proof -
  let ?rows = "[demo_row 1 5003 [], demo_row 2 5003 []]"
  let ?env = "demo_cursor_env [(demo_row 1 5003 [], None, None), (demo_row 2 5003 [], None, None)]"
  have "\<And>r. r \<in> set ?rows \<Longrightarrow> row_ok r \<and> codec_reads ?env r None None"
    using demo_codec(3,4) by (auto simp: row_ok_def) (simp_all add: demo_row_def)
  from rows_of_one_millisecond_are_skipped [where rows = ?rows, OF this, where r = "demo_row 2 5003 []" and x = "demo_row 1 5003 []" and n = 9 and wh = "\<lambda>_. True" and limit = 1]
  show ?thesis by (intro exI [of _ ?env]) (simp add: created_desc_def demo_row_def whole_millis_def del: follow_cursors.simps)
qed

theorem long_name_cursor_is_refused_witness:
  "\<exists>c l. cursorPaginationSchema (Some c) l = None"
proof -
  let ?env = "\<lparr>cu_iso = (\<lambda>_. replicate 24 CHR ''0''), cu_date = (\<lambda>_. None), cu_parse = (\<lambda>_. None), cu_sha256hex = id\<rparr>"
  let ?r = "demo_row 1 0 (replicate 235 CHR ''n'')"
  have "length (kr_text ?r) \<ge> 235" "length demo_fingerprint = 64" "length (cu_iso ?env (js_date (kr_created_at ?r))) = 24"
    "last (take 1 [?r, ?r]) = ?r" "0 < (1::nat)" "1 < length [?r, ?r]"
    by (simp_all add: demo_row_def demo_fingerprint_def)
  from long_name_cursor_is_refused [OF this] show ?thesis by blast
qed

end
