(* ===== verification/Webhooks.thy ===== *)
theory Webhooks
  imports Transactions Pagination
begin

text \<open>
  Outgoing webhooks, the configuration side: \<^verbatim>\<open>src/src/domains/notify/sub-domains/webhook\<close> (\<^verbatim>\<open>webhook.repository.ts\<close>, \<^verbatim>\<open>webhook.service.ts\<close>)
  with the URL guard \<^verbatim>\<open>shared/utils/security/webhook-url.util.ts\<close>, the pinned target of \<^verbatim>\<open>webhook-outbound-fetch.util.ts\<close> and the secrets of
  \<^verbatim>\<open>field-secret-encryption.util.ts\<close>.  The URL parser, the DNS answer, \<^verbatim>\<open>ipaddr.js\<close> and AES-GCM are arguments; the organization
  and the acting user are resolved by the tenancy services, whose answers are arguments too.  A service method runs in one
  transaction: when it throws, the tables are as before.
\<close>

section \<open>The URL guard\<close>

record Url =
  u_protocol :: string
  u_username :: string
  u_password :: string
  u_hostname :: string
  u_port :: string

text \<open>What \<^verbatim>\<open>ipaddr.parse\<close> gives: the kind, the range, and for an IPv4-mapped address the range of the IPv4 address in it.\<close>

record ParsedIp =
  pi_is_ipv6 :: bool
  pi_range :: string
  pi_mapped_range :: "string option"

record GuardEnv =
  ge_url :: "string \<Rightarrow> Url option"                 \<comment> \<open>\<^verbatim>\<open>new URL\<close>, which throws on bad input\<close>
  ge_isIP :: "string \<Rightarrow> nat"
  ge_ip :: "string \<Rightarrow> ParsedIp option"
  ge_allowlist :: "string list"                    \<comment> \<open>\<^verbatim>\<open>WEBHOOK_URL_ALLOWLIST\<close> split at its commas\<close>
  ge_allowlist_required :: bool

definition BLOCKED_HOSTNAMES :: "string list" where
  "BLOCKED_HOSTNAMES = [''localhost'', ''127.0.0.1'', ''0.0.0.0'']"

definition BLOCKED_IP_RANGES :: "string list" where
  "BLOCKED_IP_RANGES = [''loopback'', ''private'', ''linkLocal'', ''uniqueLocal'', ''unspecified'', ''multicast'', ''reserved'',
     ''broadcast'', ''carrierGradeNat'', ''rfc6052'', ''ipv4Mapped'']"

definition unbracketIpv6Hostname :: "string \<Rightarrow> string" where
  "unbracketIpv6Hostname h = (if js_startsWith h ''['' \<and> js_endsWith h '']'' then butlast (tl h) else h)"

definition normalizeParsedAddress :: "ParsedIp \<Rightarrow> string" where
  "normalizeParsedAddress ip = (case pi_mapped_range ip of Some r \<Rightarrow> (if pi_is_ipv6 ip then r else pi_range ip) | None \<Rightarrow> pi_range ip)"

definition isUnsafeIpLiteral :: "GuardEnv \<Rightarrow> string \<Rightarrow> bool" where
  "isUnsafeIpLiteral env a = (case ge_ip env a of None \<Rightarrow> True | Some ip \<Rightarrow> normalizeParsedAddress ip \<in> set BLOCKED_IP_RANGES)"

definition webhookUrlNotAllowed :: thrown where
  "webhookUrlNotAllowed = App (ValidationError ''errors:webhookUrlNotAllowed'')"

text \<open>\<open>dns\<close> is the answer of the one lookup; \<^const>\<open>None\<close> when it fails.\<close>

definition resolveLiteralHostname :: "GuardEnv \<Rightarrow> string \<Rightarrow> thrown + string list" where
  "resolveLiteralHostname env hostname = (let literalHost = unbracketIpv6Hostname hostname in
     if ge_isIP env literalHost = 0 then Inr []
     else if isUnsafeIpLiteral env literalHost then Inl webhookUrlNotAllowed
     else Inr [literalHost])"

definition resolveWebhookUrlAddresses :: "GuardEnv \<Rightarrow> (string \<Rightarrow> string list option) \<Rightarrow> string \<Rightarrow> thrown + string list" where
  "resolveWebhookUrlAddresses env dns hostname = (case resolveLiteralHostname env hostname of
       Inl e \<Rightarrow> Inl e
     | Inr [] \<Rightarrow> (case dns hostname of None \<Rightarrow> Inl (App (ValidationError ''errors:webhookUrlDnsFailed'')) | Some as \<Rightarrow> Inr as)
     | Inr as \<Rightarrow> Inr as)"

definition assertWebhookUrlSafe :: "GuardEnv \<Rightarrow> (string \<Rightarrow> string list option) \<Rightarrow> string \<Rightarrow> thrown + string list" where
  "assertWebhookUrlSafe env dns urlString = (case ge_url env urlString of
       None \<Rightarrow> Inl (App (ValidationError ''errors:webhookUrlInvalid''))
     | Some parsed \<Rightarrow>
         if u_protocol parsed \<noteq> ''https:'' then Inl (App (ValidationError ''errors:webhookUrlInvalidScheme''))
         else if u_username parsed \<noteq> [] \<or> u_password parsed \<noteq> [] then Inl webhookUrlNotAllowed
         else if u_port parsed \<noteq> [] \<and> u_port parsed \<noteq> ''443'' then Inl webhookUrlNotAllowed
         else if js_lower (u_hostname parsed) \<in> set BLOCKED_HOSTNAMES then Inl webhookUrlNotAllowed
         else (case resolveWebhookUrlAddresses env dns (u_hostname parsed) of
             Inl e \<Rightarrow> Inl e
           | Inr as \<Rightarrow> if list_ex (isUnsafeIpLiteral env) as then Inl webhookUrlNotAllowed else Inr as))"

definition parseWebhookAllowlist :: "GuardEnv \<Rightarrow> string list" where
  "parseWebhookAllowlist env = filter (\<lambda>e. e \<noteq> []) (map (\<lambda>e. js_lower (js_trim e)) (ge_allowlist env))"

definition allowlist_entry_matches :: "string \<Rightarrow> string \<Rightarrow> bool" where
  "allowlist_entry_matches host entry = (if js_startsWith entry ''*.'' then js_endsWith host (''.'' @ drop 2 entry) else host = entry)"

definition assertWebhookHostAllowed :: "GuardEnv \<Rightarrow> string \<Rightarrow> thrown option" where
  "assertWebhookHostAllowed env hostname = (let allowlist = parseWebhookAllowlist env in
     if allowlist = [] then (if ge_allowlist_required env then Some (App (ValidationError ''errors:webhookUrlAllowlistRequired'')) else None)
     else if list_ex (allowlist_entry_matches (js_lower hostname)) allowlist then None
     else Some webhookUrlNotAllowed)"

record PinnedWebhookResolution =
  pw_hostname :: string
  pw_address :: string
  pw_port :: nat

definition resolveWebhookPort :: "Url \<Rightarrow> nat" where
  "resolveWebhookPort parsed = (if u_port parsed \<noteq> [] then undec (u_port parsed) else if u_protocol parsed = ''https:'' then 443 else 80)"

definition resolveAndPinWebhookUrl :: "GuardEnv \<Rightarrow> (string \<Rightarrow> string list option) \<Rightarrow> string \<Rightarrow> thrown + PinnedWebhookResolution" where
  "resolveAndPinWebhookUrl env dns webhookUrl = (case assertWebhookUrlSafe env dns webhookUrl of
       Inl e \<Rightarrow> Inl e
     | Inr addresses \<Rightarrow> (case ge_url env webhookUrl of
           None \<Rightarrow> Inl (App (ValidationError ''errors:webhookUrlInvalid''))
         | Some parsed \<Rightarrow> (case assertWebhookHostAllowed env (u_hostname parsed) of
               Some e \<Rightarrow> Inl e
             | None \<Rightarrow> (case addresses of
                   [] \<Rightarrow> Inl (App (ValidationError ''errors:webhookUrlDnsFailed''))
                 | a # _ \<Rightarrow> Inr \<lparr>pw_hostname = u_hostname parsed, pw_address = a, pw_port = resolveWebhookPort parsed\<rparr>))))"

text \<open>What is pinned is an address outside every blocked range, at the HTTPS port, of an allowed host.\<close>

lemma pinned_is_safe:
  assumes "resolveAndPinWebhookUrl env dns url = Inr p"
  shows "\<not> isUnsafeIpLiteral env (pw_address p) \<and> pw_port p = 443 \<and> assertWebhookHostAllowed env (pw_hostname p) = None"
proof -
  obtain addresses parsed where a: "assertWebhookUrlSafe env dns url = Inr addresses" and u: "ge_url env url = Some parsed"
    and h: "assertWebhookHostAllowed env (u_hostname parsed) = None" and hd: "addresses \<noteq> []"
    and p: "p = \<lparr>pw_hostname = u_hostname parsed, pw_address = hd addresses, pw_port = resolveWebhookPort parsed\<rparr>"
    using assms unfolding resolveAndPinWebhookUrl_def by (auto split: sum.splits option.splits list.splits)
  have safe: "\<not> list_ex (isUnsafeIpLiteral env) addresses" "u_protocol parsed = ''https:''" "u_port parsed = [] \<or> u_port parsed = ''443''"
    using a u unfolding assertWebhookUrlSafe_def by (auto split: if_splits sum.splits)
  have "undec ''443'' = 443" by (simp add: undec_def)
  then have "resolveWebhookPort parsed = 443" using safe(2,3) by (auto simp: resolveWebhookPort_def)
  then show ?thesis using safe(1) hd h by (auto simp: p list_ex_iff)
qed

section \<open>Secrets at rest\<close>

text \<open>AES-256-GCM under the key of a version: \<open>sk_seal\<close> gives tag and cipher text, \<open>sk_open\<close> the plain text unless the tag is wrong.  The
  keys of the versions are fixed here.\<close>

record SecretKeys =
  sk_version :: string
  sk_seal :: "string \<Rightarrow> string \<Rightarrow> string \<Rightarrow> string \<times> string"        \<comment> \<open>version, IV, plain text\<close>
  sk_open :: "string \<Rightarrow> string \<Rightarrow> string \<Rightarrow> string \<Rightarrow> string option"  \<comment> \<open>version, IV, tag, cipher text\<close>

definition AES_GCM_IV_LENGTH :: nat where "AES_GCM_IV_LENGTH = 12"
definition AUTH_TAG_LENGTH :: nat where "AUTH_TAG_LENGTH = 16"
definition SUPPORTED_VERSIONS :: "string list" where "SUPPORTED_VERSIONS = [''v1'', ''v2'']"

definition BASE64_ALPHABET :: string where
  "BASE64_ALPHABET = ''ABCDEFGHIJKLMNOPQRSTUVWXYZabcdefghijklmnopqrstuvwxyz0123456789+/''"

definition base64_encode :: "string \<Rightarrow> string" where
  "base64_encode s = map (\<lambda>d. BASE64_ALPHABET ! d) (base64_digits (map of_char s)) @ replicate ((3 - length s mod 3) mod 3) CHR ''=''"

definition parseVersionPrefix :: "string \<Rightarrow> string option" where
  "parseVersionPrefix stored = (let v = takeWhile (\<lambda>c. c \<noteq> CHR '':'') stored in
     if v \<noteq> [] \<and> CHR '':'' \<in> set stored \<and> v \<in> set SUPPORTED_VERSIONS then Some v else None)"

definition encryptFieldSecret :: "SecretKeys \<Rightarrow> string \<Rightarrow> string \<Rightarrow> string" where
  "encryptFieldSecret keys iv plaintext = (if plaintext = [] then plaintext
     else case sk_seal keys (sk_version keys) iv plaintext of
       (tag, cipher) \<Rightarrow> sk_version keys @ '':'' @ base64_encode (iv @ tag @ cipher))"

definition decryptFieldSecret :: "SecretKeys \<Rightarrow> string \<Rightarrow> string option" where
  "decryptFieldSecret keys stored = (if stored = [] then Some stored
     else case parseVersionPrefix stored of
       None \<Rightarrow> None
     | Some v \<Rightarrow> (let data = base64url_decode (drop (length v + 1) stored) in
         sk_open keys v (take AES_GCM_IV_LENGTH data) (take AUTH_TAG_LENGTH (drop AES_GCM_IV_LENGTH data))
           (drop (AES_GCM_IV_LENGTH + AUTH_TAG_LENGTH) data)))"

text \<open>What the cipher promises.\<close>

definition gcm_ok :: "SecretKeys \<Rightarrow> bool" where
  "gcm_ok keys \<longleftrightarrow> sk_version keys \<in> set SUPPORTED_VERSIONS \<and>
     (\<forall>v iv plain. length (fst (sk_seal keys v iv plain)) = AUTH_TAG_LENGTH \<and> length (snd (sk_seal keys v iv plain)) = length plain \<and>
       sk_open keys v iv (fst (sk_seal keys v iv plain)) (snd (sk_seal keys v iv plain)) = Some plain)"

lemma base64_digit_table: "list_all (\<lambda>d. base64_digit (BASE64_ALPHABET ! d) = Some d \<and> BASE64_ALPHABET ! d \<noteq> CHR ''='') [0..<64]"
  by code_simp

lemma base64_decode_encode: "base64url_decode (base64_encode s) = s"
proof -
  let ?ds = "base64_digits (map of_char s)"
  have b: "\<forall>b \<in> set (map of_char s :: nat list). b < 256" by auto
  have ds: "\<forall>d \<in> set ?ds. d < 64" by (rule base64_digits_bound [OF b])
  have digit: "base64_digit (BASE64_ALPHABET ! d) = Some d" "BASE64_ALPHABET ! d \<noteq> CHR ''=''" if "d < 64" for d
    using base64_digit_table that by (auto simp: list_all_iff)
  have "takeWhile (\<lambda>c. c \<noteq> CHR ''='') (base64_encode s) = map (\<lambda>d. BASE64_ALPHABET ! d) ?ds"
    using ds digit(2) by (subst base64_encode_def, subst takeWhile_append2) (auto simp: takeWhile_eq_Nil_iff)
  moreover have "List.map_filter base64_digit (map (\<lambda>d. BASE64_ALPHABET ! d) ds) = ds" if "\<forall>d \<in> set ds. d < 64" for ds
    using that by (induction ds) (auto simp: digit(1) List.map_filter_simps)
  ultimately have "base64url_decode (base64_encode s) = map char_of (base64_bytes ?ds)" using ds by (simp add: base64url_decode_def)
  then show ?thesis by (simp add: base64_roundtrip [OF b] comp_def)
qed

lemma base64_digits_length: "length (base64_digits bs) + (3 - length bs mod 3) mod 3 = 4 * ((length bs + 2) div 3)"
proof (induction bs rule: base64_digits.induct)
  case (4 a b c bs)
  have aux: "x + 4 + y = 4 * (z + 1)" if "x + y = 4 * z" for x y z :: nat using that by simp
  have "(3 - (length bs + 3) mod 3) mod 3 = (3 - length bs mod 3) mod 3" by simp
  moreover have "(length bs + 3 + 2) div 3 = (length bs + 2) div 3 + 1" by simp
  moreover have "length (base64_digits (a # b # c # bs)) = length (base64_digits bs) + 4" "length (a # b # c # bs) = length bs + 3" by simp_all
  ultimately show ?case using aux [OF 4] by (simp only:)
qed simp_all

lemma base64_encode_length: "length (base64_encode s) = 4 * ((length s + 2) div 3)"
  using base64_digits_length [of "map of_char s"] by (simp add: base64_encode_def)

lemma encrypt_shape:
  assumes "gcm_ok keys" and "length iv = AES_GCM_IV_LENGTH" and "plaintext \<noteq> []"
  obtains data where "encryptFieldSecret keys iv plaintext = sk_version keys @ '':'' @ base64_encode data"
    and "length data = 28 + length plaintext" and "sk_version keys \<in> set SUPPORTED_VERSIONS"
    and "sk_open keys (sk_version keys) (take 12 data) (take 16 (drop 12 data)) (drop 28 data) = Some plaintext"
proof -
  obtain tag cipher where s: "sk_seal keys (sk_version keys) iv plaintext = (tag, cipher)" by fastforce
  with assms(1) have "length tag = 16" "length cipher = length plaintext" "sk_open keys (sk_version keys) iv tag cipher = Some plaintext"
    "sk_version keys \<in> set SUPPORTED_VERSIONS"
    unfolding gcm_ok_def AUTH_TAG_LENGTH_def by (metis fst_conv snd_conv)+
  with assms(2,3) s show thesis
    by (intro that [of "iv @ tag @ cipher"]) (auto simp: encryptFieldSecret_def AES_GCM_IV_LENGTH_def)
qed

text \<open>A stored secret reads back.\<close>

lemma field_secret_roundtrip:
  assumes "gcm_ok keys" and "length iv = AES_GCM_IV_LENGTH"
  shows "decryptFieldSecret keys (encryptFieldSecret keys iv plaintext) = Some plaintext"
proof (cases "plaintext = []")
  case False
  obtain data where d: "encryptFieldSecret keys iv plaintext = sk_version keys @ '':'' @ base64_encode data"
    "sk_version keys \<in> set SUPPORTED_VERSIONS"
    "sk_open keys (sk_version keys) (take 12 data) (take 16 (drop 12 data)) (drop 28 data) = Some plaintext"
    using encrypt_shape [OF assms False] by metis
  have "takeWhile (\<lambda>c. c \<noteq> CHR '':'') (sk_version keys @ '':'' @ x) = sk_version keys" "sk_version keys \<noteq> []" for x
    using d(2) by (auto simp: SUPPORTED_VERSIONS_def)
  then have "parseVersionPrefix (sk_version keys @ '':'' @ x) = Some (sk_version keys)" for x
    using d(2) by (simp add: parseVersionPrefix_def Let_def)
  with d show ?thesis
    by (simp add: decryptFieldSecret_def base64_decode_encode AES_GCM_IV_LENGTH_def AUTH_TAG_LENGTH_def add.commute)
qed (simp add: encryptFieldSecret_def decryptFieldSecret_def)

lemma encrypted_length:
  assumes "gcm_ok keys" and "length iv = AES_GCM_IV_LENGTH" and "plaintext \<noteq> []"
  shows "length (encryptFieldSecret keys iv plaintext) = 3 + 4 * ((length plaintext + 30) div 3)"
proof -
  obtain data where d: "encryptFieldSecret keys iv plaintext = sk_version keys @ '':'' @ base64_encode data"
    "length data = 28 + length plaintext" "sk_version keys \<in> set SUPPORTED_VERSIONS"
    using encrypt_shape [OF assms] by metis
  then have "length (sk_version keys) = 2" by (auto simp: SUPPORTED_VERSIONS_def)
  with d show ?thesis by (simp add: base64_encode_length add.commute)
qed

section \<open>The tables\<close>

record WebhookRow =
  wh_id :: nat
  wh_public_id :: string
  wh_organization_id :: nat
  wh_url :: string
  wh_encrypted_secret :: string
  wh_encrypted_secret_previous :: "string option"
  wh_secret_rotated_at :: "millis option"
  wh_events :: "string list"
  wh_is_enabled :: bool
  wh_deleted_at :: "millis option"
  wh_created_at :: millis
  wh_updated_at :: millis
  wh_created_by_user_id :: "nat option"
  wh_updated_by_user_id :: "nat option"

record WebhookCreateData =
  wc_organization_id :: nat
  wc_url :: string
  wc_encrypted_secret :: string
  wc_events :: "string list"
  wc_is_enabled :: bool
  wc_created_by_user_id :: "nat option"

record WebhookUpdateData =
  wu_url :: "string option"
  wu_encrypted_secret :: "string option"
  wu_events :: "string list option"
  wu_is_enabled :: "bool option"

definition live_webhook :: "nat \<Rightarrow> WebhookRow \<Rightarrow> bool" where
  "live_webhook org w \<longleftrightarrow> wh_organization_id w = org \<and> wh_deleted_at w = None"

text \<open>The checks of the table and the width of the columns, on a row that is written.\<close>

definition webhook_checks :: "WebhookRow \<Rightarrow> thrown option" where
  "webhook_checks w = (if length (wh_encrypted_secret w) > 255 then Some (Plain ''22001'')
     else if \<not> js_startsWith (wh_url w) ''https://'' then Some (Sql_check ''chk_webhooks_url'')
     else if wh_updated_at w < wh_created_at w then Some (Sql_check ''chk_webhooks_updated'')
     else if wh_encrypted_secret w = [] then Some (Sql_check ''chk_webhooks_encrypted_secret_not_empty'')
     else None)"

definition countActiveWebhooks :: "nat \<Rightarrow> WebhookRow tbl \<Rightarrow> nat" where
  "countActiveWebhooks org t = length (filter (live_webhook org) t)"

definition webhook_findByPublicId :: "string \<Rightarrow> nat \<Rightarrow> WebhookRow tbl \<Rightarrow> WebhookRow option" where
  "webhook_findByPublicId publicId org = select_first (\<lambda>w. wh_public_id w = publicId \<and> live_webhook org w)"

text \<open>\<^verbatim>\<open>INSERT .. ON CONFLICT (organization_id, url) DO UPDATE\<close>: a row with that URL, deleted or not, is overwritten.\<close>

definition webhook_revive :: "millis \<Rightarrow> WebhookCreateData \<Rightarrow> WebhookRow \<Rightarrow> WebhookRow" where
  "webhook_revive dbNow data w = w\<lparr>wh_deleted_at := None, wh_encrypted_secret := wc_encrypted_secret data, wh_events := wc_events data,
     wh_is_enabled := wc_is_enabled data, wh_updated_at := max (wh_created_at w) dbNow,
     wh_updated_by_user_id := (case wc_created_by_user_id data of None \<Rightarrow> wh_updated_by_user_id w | Some u \<Rightarrow> Some u)\<rparr>"

definition webhook_create :: "millis \<Rightarrow> nat \<Rightarrow> string \<Rightarrow> WebhookCreateData \<Rightarrow> WebhookRow tbl \<Rightarrow> (thrown + WebhookRow) \<times> WebhookRow tbl" where
  "webhook_create dbNow nextId publicId data t =
     (let conflict = (\<lambda>w. wh_organization_id w = wc_organization_id data \<and> wh_url w = wc_url data);
          fresh = \<lparr>wh_id = nextId, wh_public_id = publicId, wh_organization_id = wc_organization_id data, wh_url = wc_url data,
            wh_encrypted_secret = wc_encrypted_secret data, wh_encrypted_secret_previous = None, wh_secret_rotated_at = None,
            wh_events = wc_events data, wh_is_enabled = wc_is_enabled data, wh_deleted_at = None, wh_created_at = dbNow, wh_updated_at = dbNow,
            wh_created_by_user_id = wc_created_by_user_id data, wh_updated_by_user_id = None\<rparr>
      in case webhook_checks fresh of Some e \<Rightarrow> (Inl e, t) | None \<Rightarrow>
         (case select_first conflict t of
            Some w \<Rightarrow> (Inr (webhook_revive dbNow data w), update_where conflict (webhook_revive dbNow data) t)
          | None \<Rightarrow> if list_ex (\<lambda>w. wh_public_id w = publicId) t then (Inl Sql_aborted, t) else (Inr fresh, t @ [fresh])))"

definition or_keep :: "'a option \<Rightarrow> 'a \<Rightarrow> 'a" where
  "or_keep v old = (case v of None \<Rightarrow> old | Some x \<Rightarrow> x)"

definition webhook_set :: "millis \<Rightarrow> WebhookUpdateData \<Rightarrow> nat option \<Rightarrow> WebhookRow \<Rightarrow> WebhookRow" where
  "webhook_set dbNow data userId w =
     (let w1 = w\<lparr>wh_url := or_keep (wu_url data) (wh_url w), wh_events := or_keep (wu_events data) (wh_events w),
            wh_is_enabled := or_keep (wu_is_enabled data) (wh_is_enabled w), wh_updated_at := max (wh_created_at w) dbNow,
            wh_updated_by_user_id := (case userId of None \<Rightarrow> wh_updated_by_user_id w | Some u \<Rightarrow> Some u)\<rparr>
      in case wu_encrypted_secret data of None \<Rightarrow> w1
         | Some s \<Rightarrow> w1\<lparr>wh_encrypted_secret := s, wh_encrypted_secret_previous := Some (wh_encrypted_secret w), wh_secret_rotated_at := Some dbNow\<rparr>)"

definition rotation_eligible :: "millis \<Rightarrow> WebhookRow \<Rightarrow> bool" where
  "rotation_eligible cutoff w = (case wh_secret_rotated_at w of None \<Rightarrow> True | Some t \<Rightarrow> t \<le> cutoff)"

text \<open>The update; the unique index on organization and URL covers deleted rows too.\<close>

definition webhook_update :: "millis \<Rightarrow> string \<Rightarrow> nat \<Rightarrow> WebhookUpdateData \<Rightarrow> nat option \<Rightarrow> millis option \<Rightarrow> WebhookRow tbl \<Rightarrow> (thrown + WebhookRow option) \<times> WebhookRow tbl" where
  "webhook_update dbNow publicId org data userId cutoff t =
     (let p = (\<lambda>w. wh_public_id w = publicId \<and> live_webhook org w \<and>
            (wu_encrypted_secret data \<noteq> None \<and> cutoff \<noteq> None \<longrightarrow> rotation_eligible (the cutoff) w));
          f = webhook_set dbNow data userId
      in case select_first p t of
           None \<Rightarrow> (Inr None, t)
         | Some w \<Rightarrow> (case webhook_checks (f w) of Some e \<Rightarrow> (Inl e, t)
             | None \<Rightarrow> if list_ex (\<lambda>x. wh_id x \<noteq> wh_id w \<and> wh_organization_id x = org \<and> wh_url x = wh_url (f w)) t
                 then (Inl (Sql_unique ''idx_webhooks_organization_id_url_unique''), t)
                 else (Inr (Some (f w)), update_where p f t)))"

definition webhook_softDelete :: "millis \<Rightarrow> string \<Rightarrow> nat \<Rightarrow> WebhookRow tbl \<Rightarrow> WebhookRow option \<times> WebhookRow tbl" where
  "webhook_softDelete dbNow publicId org = update_row (\<lambda>w. wh_public_id w = publicId \<and> live_webhook org w)
     (\<lambda>w. w\<lparr>wh_deleted_at := Some dbNow, wh_updated_at := max (wh_created_at w) dbNow\<rparr>)"

section \<open>The service\<close>

definition MILLISECONDS_PER_HOUR :: int where "MILLISECONDS_PER_HOUR = 3600000"

record CreateWebhookInput =
  ci_url :: string
  ci_secret :: "string option"
  ci_events :: "string list"
  ci_is_enabled :: bool

record UpdateWebhookInput =
  ui_url :: "string option"
  ui_secret :: "string option"
  ui_events :: "string list option"
  ui_is_enabled :: "bool option"

record WebhookConfig =
  wv_guard :: GuardEnv
  wv_keys :: SecretKeys
  wv_max_per_org :: nat
  wv_overlap_hours :: nat
  wv_organization :: "string \<Rightarrow> thrown + nat"
  wv_user :: "string option \<Rightarrow> nat option"

text \<open>What one request draws from outside: the DNS, the clocks of the process and of the database, the IV, the generated ids and secret.\<close>

record WebhookDraw =
  wd_dns :: "string \<Rightarrow> string list option"
  wd_checkNow :: millis
  wd_jsNow :: millis
  wd_dbNow :: millis
  wd_iv :: string
  wd_nextId :: nat
  wd_publicId :: string
  wd_secret :: string
  wd_user :: "string option"

text \<open>The DTOs, on trimmed strings.\<close>

definition httpsUrl :: "GuardEnv \<Rightarrow> string \<Rightarrow> bool" where
  "httpsUrl env url \<longleftrightarrow> ge_url env url \<noteq> None \<and> length url \<le> 2048 \<and> js_startsWith url ''https://''"

definition webhookSecret :: "string \<Rightarrow> bool" where
  "webhookSecret s \<longleftrightarrow> 16 \<le> length s \<and> length s \<le> 255"

definition webhookEvents :: "string list \<Rightarrow> bool" where
  "webhookEvents es \<longleftrightarrow> list_all (\<lambda>e. length e \<le> 100) es \<and> 1 \<le> length es \<and> length es \<le> 50"

definition validateCreateWebhook :: "GuardEnv \<Rightarrow> CreateWebhookInput \<Rightarrow> bool" where
  "validateCreateWebhook env i \<longleftrightarrow> httpsUrl env (ci_url i) \<and> pred_option webhookSecret (ci_secret i) \<and> webhookEvents (ci_events i)"

definition validateUpdateWebhook :: "GuardEnv \<Rightarrow> UpdateWebhookInput \<Rightarrow> bool" where
  "validateUpdateWebhook env i \<longleftrightarrow> pred_option (httpsUrl env) (ui_url i) \<and> pred_option webhookSecret (ui_secret i) \<and> pred_option webhookEvents (ui_events i)"

definition webhook_service_create :: "WebhookConfig \<Rightarrow> string \<Rightarrow> WebhookDraw \<Rightarrow> CreateWebhookInput \<Rightarrow> WebhookRow tbl \<Rightarrow> (thrown + WebhookRow) \<times> WebhookRow tbl" where
  "webhook_service_create env scope x parsed t =
     (if \<not> validateCreateWebhook (wv_guard env) parsed then (Inl (App (ValidationError ''errors:invalidInput'')), t)
      else case resolveAndPinWebhookUrl (wv_guard env) (wd_dns x) (ci_url parsed) of Inl e \<Rightarrow> (Inl e, t) | Inr _ \<Rightarrow>
        (case wv_organization env scope of Inl e \<Rightarrow> (Inl e, t) | Inr org \<Rightarrow>
          if countActiveWebhooks org t \<ge> wv_max_per_org env then (Inl (App (ConflictError ''errors:webhookMaxReached'')), t)
          else webhook_create (wd_dbNow x) (wd_nextId x) (wd_publicId x)
            \<lparr>wc_organization_id = org, wc_url = ci_url parsed,
             wc_encrypted_secret = encryptFieldSecret (wv_keys env) (wd_iv x) (or_keep (ci_secret parsed) (wd_secret x)),
             wc_events = ci_events parsed, wc_is_enabled = ci_is_enabled parsed, wc_created_by_user_id = wv_user env (wd_user x)\<rparr> t))"

definition overlapWindowMs :: "WebhookConfig \<Rightarrow> millis" where
  "overlapWindowMs env = int (wv_overlap_hours env) * MILLISECONDS_PER_HOUR"

definition assertSecretRotationEligible :: "WebhookConfig \<Rightarrow> WebhookDraw \<Rightarrow> string \<Rightarrow> nat \<Rightarrow> WebhookRow tbl \<Rightarrow> thrown option" where
  "assertSecretRotationEligible env x publicId org t = (case webhook_findByPublicId publicId org t of
       None \<Rightarrow> Some (App (NotFoundError ''Webhook''))
     | Some w \<Rightarrow> (case wh_secret_rotated_at w of
           Some rotatedAt \<Rightarrow> if wd_checkNow x < rotatedAt + overlapWindowMs env then Some (App (ConflictError ''errors:webhookSecretRotationTooSoon'')) else None
         | None \<Rightarrow> None))"

definition buildUnmatchedWebhookUpdateError :: "string \<Rightarrow> nat \<Rightarrow> bool \<Rightarrow> WebhookRow tbl \<Rightarrow> thrown" where
  "buildUnmatchedWebhookUpdateError publicId org rotatingSecret t =
     (if rotatingSecret \<and> webhook_findByPublicId publicId org t \<noteq> None then App (ConflictError ''errors:webhookSecretRotationTooSoon'')
      else App (NotFoundError ''Webhook''))"

definition webhook_update_data :: "WebhookConfig \<Rightarrow> WebhookDraw \<Rightarrow> UpdateWebhookInput \<Rightarrow> WebhookUpdateData" where
  "webhook_update_data env x parsed = \<lparr>wu_url = ui_url parsed,
     wu_encrypted_secret = map_option (encryptFieldSecret (wv_keys env) (wd_iv x)) (ui_secret parsed),
     wu_events = ui_events parsed, wu_is_enabled = ui_is_enabled parsed\<rparr>"

definition webhook_service_update :: "WebhookConfig \<Rightarrow> string \<Rightarrow> WebhookDraw \<Rightarrow> string \<Rightarrow> UpdateWebhookInput \<Rightarrow> WebhookRow tbl \<Rightarrow> (thrown + WebhookRow) \<times> WebhookRow tbl" where
  "webhook_service_update env scope x publicId parsed t =
     (if \<not> validateUpdateWebhook (wv_guard env) parsed then (Inl (App (ValidationError ''errors:invalidInput'')), t)
      else case (case ui_url parsed of None \<Rightarrow> None
                 | Some u \<Rightarrow> (case resolveAndPinWebhookUrl (wv_guard env) (wd_dns x) u of Inl e \<Rightarrow> Some e | Inr _ \<Rightarrow> None)) of
        Some e \<Rightarrow> (Inl e, t) | None \<Rightarrow>
        (case wv_organization env scope of Inl e \<Rightarrow> (Inl e, t) | Inr org \<Rightarrow>
          (case (if ui_secret parsed \<noteq> None then assertSecretRotationEligible env x publicId org t else None) of
             Some e \<Rightarrow> (Inl e, t) | None \<Rightarrow>
             (case webhook_update (wd_dbNow x) publicId org (webhook_update_data env x parsed) (wv_user env (wd_user x))
                 (if ui_secret parsed \<noteq> None then Some (wd_jsNow x - overlapWindowMs env) else None) t of
                (Inl e, _) \<Rightarrow> (Inl (if isPostgresUniqueViolation e then App (ConflictError ''errors:webhookUrlExists'') else e), t)
              | (Inr None, _) \<Rightarrow> (Inl (buildUnmatchedWebhookUpdateError publicId org (ui_secret parsed \<noteq> None) t), t)
              | (Inr (Some w), t') \<Rightarrow> (Inr w, t')))))"

definition webhook_service_delete :: "WebhookConfig \<Rightarrow> string \<Rightarrow> WebhookDraw \<Rightarrow> string \<Rightarrow> WebhookRow tbl \<Rightarrow> (thrown + unit) \<times> WebhookRow tbl" where
  "webhook_service_delete env scope x publicId t = (case wv_organization env scope of Inl e \<Rightarrow> (Inl e, t) | Inr org \<Rightarrow>
     (case webhook_softDelete (wd_dbNow x) publicId org t of
        (None, _) \<Rightarrow> (Inl (App (NotFoundError ''Webhook'')), t) | (Some _, t') \<Rightarrow> (Inr (), t')))"

text \<open>The retention job deletes tombstones past the cutoff.\<close>

definition runWebhookTombstoneRetentionJob :: "millis \<Rightarrow> nat \<Rightarrow> WebhookRow tbl \<Rightarrow> WebhookRow tbl" where
  "runWebhookTombstoneRetentionJob jsNow retentionDays =
     delete_where (\<lambda>w. \<exists>d. wh_deleted_at w = Some d \<and> d < jsNow - int retentionDays * 24 * MILLISECONDS_PER_HOUR)"

datatype WebhookRequest = CreateWebhook CreateWebhookInput | UpdateWebhook string UpdateWebhookInput | DeleteWebhook string

fun webhook_request :: "WebhookConfig \<Rightarrow> WebhookRow tbl \<Rightarrow> string \<times> WebhookDraw \<times> WebhookRequest \<Rightarrow> WebhookRow tbl" where
  "webhook_request env t (scope, x, CreateWebhook i) = snd (webhook_service_create env scope x i t)"
| "webhook_request env t (scope, x, UpdateWebhook publicId i) = snd (webhook_service_update env scope x publicId i t)"
| "webhook_request env t (scope, x, DeleteWebhook publicId) = snd (webhook_service_delete env scope x publicId t)"

section \<open>Rotation keeps the previous secret for the overlap window\<close>

text \<open>What a request may say about URLs when the row's URLs are those of \<open>us\<close>: a create names another one.\<close>

fun url_discipline :: "string list \<Rightarrow> WebhookRequest \<Rightarrow> bool" where
  "url_discipline us (CreateWebhook i) \<longleftrightarrow> ci_url i \<notin> set us"
| "url_discipline us (UpdateWebhook _ i) \<longleftrightarrow> pred_option (\<lambda>u. u \<in> set us) (ui_url i)"
| "url_discipline us (DeleteWebhook _) \<longleftrightarrow> True"

definition secrets_of :: "WebhookRow \<Rightarrow> string \<times> string option \<times> millis option" where
  "secrets_of w = (wh_encrypted_secret w, wh_encrypted_secret_previous w, wh_secret_rotated_at w)"

definition holds_secrets :: "string list \<Rightarrow> nat \<Rightarrow> string \<times> string option \<times> millis option \<Rightarrow> WebhookRow tbl \<Rightarrow> bool" where
  "holds_secrets us i sec t \<longleftrightarrow> list_all (\<lambda>w. wh_id w = i \<longrightarrow> secrets_of w = sec \<and> wh_url w \<in> set us) t"

lemma holds_update:
  assumes "holds_secrets us i sec t" and "\<And>w. w \<in> set t \<Longrightarrow> wh_id w = i \<Longrightarrow> p w \<Longrightarrow> secrets_of (f w) = secrets_of w \<and> wh_url (f w) \<in> set us"
    and "\<And>w. wh_id (f w) = wh_id w"
  shows "holds_secrets us i sec (update_where p f t)"
  using assms by (auto simp: holds_secrets_def list_all_iff set_update_where)

lemma set_keeps_id: "wh_id (webhook_set dbNow data userId w) = wh_id w"
  by (simp add: webhook_set_def Let_def split: option.splits)

lemma update_keeps_secrets:
  assumes "holds_secrets us i (s, prev, Some rotatedAt) t" and "pred_option (\<lambda>u. u \<in> set us) (wu_url data)"
    and "wu_encrypted_secret data \<noteq> None \<Longrightarrow> \<exists>c. cutoff = Some c \<and> c < rotatedAt"
  shows "holds_secrets us i (s, prev, Some rotatedAt) (snd (webhook_update dbNow publicId org data userId cutoff t))"
proof -
  let ?f = "webhook_set dbNow data userId"
  have keep: "secrets_of (?f w) = secrets_of w \<and> wh_url (?f w) \<in> set us"
    if w: "w \<in> set t" "wh_id w = i" and e: "wu_encrypted_secret data \<noteq> None \<and> cutoff \<noteq> None \<longrightarrow> rotation_eligible (the cutoff) w" for w
  proof -
    have h: "secrets_of w = (s, prev, Some rotatedAt)" "wh_url w \<in> set us" using assms(1) w by (auto simp: holds_secrets_def list_all_iff)
    then have "wu_encrypted_secret data = None" using e assms(3) by (fastforce simp: secrets_of_def rotation_eligible_def)
    with h(2) assms(2) show ?thesis by (auto simp: webhook_set_def secrets_of_def or_keep_def Let_def split: option.splits)
  qed
  show ?thesis
    unfolding webhook_update_def Let_def
    using assms(1) keep by (auto split: option.splits intro!: holds_update simp: set_keeps_id)
qed

lemma request_keeps_secrets:
  assumes "holds_secrets us i (s, prev, Some rotatedAt) t" and "url_discipline us q" and "wd_jsNow x < rotatedAt + overlapWindowMs env" and "wd_nextId x \<noteq> i"
  shows "holds_secrets us i (s, prev, Some rotatedAt) (webhook_request env t (scope, x, q))"
proof (cases q)
  case (CreateWebhook inp)
  have create: "holds_secrets us i (s, prev, Some rotatedAt) (snd (webhook_create dbNow (wd_nextId x) publicId data t))"
    if "wc_url data \<notin> set us" for dbNow publicId data
    unfolding webhook_create_def Let_def
    using assms(1,4) that by (auto simp: webhook_revive_def holds_secrets_def list_all_iff set_update_where split: option.splits)
  show ?thesis using assms(1,2) CreateWebhook create by (auto simp: webhook_service_create_def split: sum.splits)
next
  case (UpdateWebhook publicId inp)
  let ?data = "webhook_update_data env x inp" and ?cutoff = "if ui_secret inp \<noteq> None then Some (wd_jsNow x - overlapWindowMs env) else None"
  have u: "holds_secrets us i (s, prev, Some rotatedAt) (snd (webhook_update (wd_dbNow x) publicId org ?data userId ?cutoff t))" for org userId
    using assms UpdateWebhook by (intro update_keeps_secrets) (auto simp: webhook_update_data_def)
  have "holds_secrets us i (s, prev, Some rotatedAt) t'"
    if "webhook_update (wd_dbNow x) publicId org ?data userId ?cutoff t = (y, t')" for org userId y t'
    using u [of org userId] that by simp
  then show ?thesis using assms(1) UpdateWebhook by (auto simp: webhook_service_update_def split: prod.splits sum.splits option.splits)
next
  case (DeleteWebhook publicId)
  then show ?thesis using assms(1)
    by (auto simp: webhook_service_delete_def webhook_softDelete_def secrets_of_def holds_secrets_def list_all_iff set_update_where
      update_row_def split: sum.splits option.splits)
qed

lemma requests_keep_secrets:
  assumes "holds_secrets us i (s, prev, Some rotatedAt) t"
    and "list_all (\<lambda>(scope, x, q). url_discipline us q \<and> wd_jsNow x < rotatedAt + overlapWindowMs env \<and> wd_nextId x \<noteq> i) qs"
  shows "holds_secrets us i (s, prev, Some rotatedAt) (foldl (webhook_request env) t qs)"
  using assms by (induction qs arbitrary: t) (auto intro!: request_keeps_secrets)

lemma service_update_Inr:
  assumes "webhook_service_update env scope x publicId inp t = (Inr w', t')"
  shows "\<exists>org cutoff. webhook_update (wd_dbNow x) publicId org (webhook_update_data env x inp) (wv_user env (wd_user x)) cutoff t = (Inr (Some w'), t')"
  using assms unfolding webhook_service_update_def by (auto split: if_splits sum.splits option.splits prod.splits)

lemma update_Inr:
  assumes "webhook_update dbNow publicId org data userId cutoff t = (Inr (Some w'), t')"
  shows "\<exists>w p. w \<in> set t \<and> p w \<and> w' = webhook_set dbNow data userId w \<and> t' = update_where p (webhook_set dbNow data userId) t"
proof -
  let ?p = "\<lambda>w. wh_public_id w = publicId \<and> live_webhook org w \<and> (wu_encrypted_secret data \<noteq> None \<and> cutoff \<noteq> None \<longrightarrow> rotation_eligible (the cutoff) w)"
  obtain w where "select_first ?p t = Some w" "w' = webhook_set dbNow data userId w" "t' = update_where ?p (webhook_set dbNow data userId) t"
    using assms unfolding webhook_update_def Let_def by (simp split: if_splits option.splits)
  then show ?thesis using select_first_Some_iff [of ?p t w] by (intro exI [of _ w] exI [of _ ?p]) simp
qed

text \<open>C14 A rotation keeps its promise: after a PATCH that sets a new secret, the row holds the new secret, the one it replaced and the instant of
  the rotation, and it does so after any requests of any organization during the overlap window, further rotations included (they are
  refused), as long as nobody creates a webhook with the URL of that row.\<close>

theorem rotation_overlap_kept:
  assumes "distinct (map wh_id t)" and "webhook_service_update env scope x publicId inp t = (Inr w', t')" and "ui_secret inp = Some newSecret"
    and "wh_url w' \<in> set us"
    and "list_all (\<lambda>(scope, y, q). url_discipline us q \<and> wd_jsNow y < wd_dbNow x + overlapWindowMs env \<and> wd_nextId y \<noteq> wh_id w') qs"
    and "r \<in> set (foldl (webhook_request env) t' qs)" and "wh_id r = wh_id w'"
  shows "\<exists>w \<in> set t. wh_id w = wh_id w' \<and>
    secrets_of r = (encryptFieldSecret (wv_keys env) (wd_iv x) newSecret, Some (wh_encrypted_secret w), Some (wd_dbNow x))"
proof -
  let ?f = "webhook_set (wd_dbNow x) (webhook_update_data env x inp) (wv_user env (wd_user x))"
  obtain w p where w: "w \<in> set t" "w' = ?f w" "p w" and t': "t' = update_where p ?f t"
    using service_update_Inr [OF assms(2)] update_Inr by metis
  let ?sec = "(encryptFieldSecret (wv_keys env) (wd_iv x) newSecret, Some (wh_encrypted_secret w), Some (wd_dbNow x))"
  have sec: "secrets_of w' = ?sec" using assms(3) by (simp add: w(2) webhook_set_def webhook_update_data_def secrets_of_def Let_def)
  have uniq: "y = w" if "y \<in> set t" "wh_id y = wh_id w'" for y
    using that w(1,2) assms(1) by (auto simp: set_keeps_id distinct_map inj_on_def)
  have "y = w'" if y: "y \<in> set t'" "wh_id y = wh_id w'" for y
  proof -
    obtain z where z: "z \<in> set t" "y = (if p z then ?f z else z)" using y(1) unfolding t' set_update_where by blast
    then have "wh_id z = wh_id y" using set_keeps_id by (cases "p z") simp_all
    with uniq z(1) y(2) have "z = w" by simp
    with z(2) w(2,3) show ?thesis by simp
  qed
  then have "holds_secrets us (wh_id w') ?sec t'"
    using sec assms(4) unfolding holds_secrets_def list_all_iff by blast
  from requests_keep_secrets [OF this assms(5)] assms(6,7) have "secrets_of r = ?sec" by (auto simp: holds_secrets_def list_all_iff)
  with w(1,2) show ?thesis by (auto simp: set_keeps_id)
qed

section \<open>Where the secret is lost or refused\<close>

lemma service_create_run:
  assumes "validateCreateWebhook (wv_guard env) inp" and "resolveAndPinWebhookUrl (wv_guard env) (wd_dns x) (ci_url inp) = Inr pin"
    and "wv_organization env scope = Inr org" and "countActiveWebhooks org t < wv_max_per_org env"
  shows "webhook_service_create env scope x inp t = webhook_create (wd_dbNow x) (wd_nextId x) (wd_publicId x)
    \<lparr>wc_organization_id = org, wc_url = ci_url inp,
     wc_encrypted_secret = encryptFieldSecret (wv_keys env) (wd_iv x) (or_keep (ci_secret inp) (wd_secret x)),
     wc_events = ci_events inp, wc_is_enabled = ci_is_enabled inp, wc_created_by_user_id = wv_user env (wd_user x)\<rparr> t"
  using assms by (simp add: webhook_service_create_def)

text \<open>C The DTO admits secrets of up to 255 characters, but the column holds 255 characters of the encrypted form: a create that passes
  every other check fails with a database error exactly when its secret is longer than 161 characters.\<close>

theorem long_secret_does_not_fit:
  assumes "validateCreateWebhook (wv_guard env) inp" and "resolveAndPinWebhookUrl (wv_guard env) (wd_dns x) (ci_url inp) = Inr pin"
    and "wv_organization env scope = Inr org" and "countActiveWebhooks org t < wv_max_per_org env"
    and "gcm_ok (wv_keys env)" and "length (wd_iv x) = AES_GCM_IV_LENGTH" and "ci_secret inp = Some s"
  shows "fst (webhook_service_create env scope x inp t) = Inl (Plain ''22001'') \<longleftrightarrow> 161 < length s"
proof -
  have s: "webhookSecret s" using assms(1,7) by (simp add: validateCreateWebhook_def)
  then have "s \<noteq> []" by (auto simp: webhookSecret_def)
  then have len: "length (encryptFieldSecret (wv_keys env) (wd_iv x) s) = 3 + 4 * ((length s + 30) div 3)"
    by (rule encrypted_length [OF assms(5,6)])
  have "255 < length (encryptFieldSecret (wv_keys env) (wd_iv x) s) \<longleftrightarrow> 161 < length s" unfolding len by presburger
  then show ?thesis
    unfolding service_create_run [OF assms(1-4)] webhook_create_def Let_def
    using assms(7) by (auto simp: webhook_checks_def or_keep_def split: option.splits)
qed

text \<open>C A create whose URL belongs to a live webhook overwrites that webhook instead of being refused: the secret is replaced
  at once, the replaced one is kept nowhere, and the rotation instant does not move, so no delivery is signed with the secret its receiver
  still verifies.\<close>

theorem repeated_create_drops_the_old_secret:
  assumes "distinct (map (\<lambda>w. (wh_organization_id w, wh_url w)) t)" and "w \<in> set t" and "live_webhook org w" and "wv_organization env scope = Inr org"
    and "ci_url inp = wh_url w" and "webhook_service_create env scope x inp t = (Inr w', t')"
  shows "wh_id w' = wh_id w \<and> w' \<in> set t' \<and>
    secrets_of w' = (encryptFieldSecret (wv_keys env) (wd_iv x) (or_keep (ci_secret inp) (wd_secret x)), wh_encrypted_secret_previous w, wh_secret_rotated_at w)"
proof -
  let ?data = "\<lparr>wc_organization_id = org, wc_url = ci_url inp,
     wc_encrypted_secret = encryptFieldSecret (wv_keys env) (wd_iv x) (or_keep (ci_secret inp) (wd_secret x)),
     wc_events = ci_events inp, wc_is_enabled = ci_is_enabled inp, wc_created_by_user_id = wv_user env (wd_user x)\<rparr>"
  let ?c = "\<lambda>w. wh_organization_id w = org \<and> wh_url w = ci_url inp"
  have c: "?c w" using assms(3,5) by (simp add: live_webhook_def)
  have uniq: "y = w" if "y \<in> set t" "?c y" for y using assms(1,2) that c by (auto simp: distinct_map inj_on_def)
  have first: "select_first ?c t = Some w"
  proof (cases "select_first ?c t")
    case None
    then show ?thesis using assms(2) c unfolding select_first_None_iff by blast
  next
    case (Some y)
    with select_first_Some_iff [OF Some] uniq show ?thesis by simp
  qed
  have "webhook_create (wd_dbNow x) (wd_nextId x) (wd_publicId x) ?data t = (Inr w', t')"
    using assms(4,6) by (auto simp: webhook_service_create_def split: if_splits sum.splits)
  then have "w' = webhook_revive (wd_dbNow x) ?data w" "t' = update_where ?c (webhook_revive (wd_dbNow x) ?data) t"
    using first by (auto simp: webhook_create_def Let_def split: option.splits)
  then show ?thesis using assms(2) c by (auto simp: webhook_revive_def secrets_of_def set_update_where image_iff intro!: bexI [of _ w])
qed

section \<open>The theorems at work\<close>

definition demo_keys :: SecretKeys where
  "demo_keys = \<lparr>sk_version = ''v1'', sk_seal = (\<lambda>_ _ plain. (replicate 16 CHR ''t'', plain)), sk_open = (\<lambda>_ _ _ cipher. Some cipher)\<rparr>"

definition demo_guard :: GuardEnv where
  "demo_guard = \<lparr>ge_url = (\<lambda>_. Some \<lparr>u_protocol = ''https:'', u_username = [], u_password = [], u_hostname = ''h'', u_port = []\<rparr>),
     ge_isIP = (\<lambda>_. 0), ge_ip = (\<lambda>_. Some \<lparr>pi_is_ipv6 = False, pi_range = ''unicast'', pi_mapped_range = None\<rparr>),
     ge_allowlist = [], ge_allowlist_required = False\<rparr>"

definition demo_webhook_config :: WebhookConfig where
  "demo_webhook_config = \<lparr>wv_guard = demo_guard, wv_keys = demo_keys, wv_max_per_org = 25, wv_overlap_hours = 24, wv_organization = (\<lambda>_. Inr 1), wv_user = (\<lambda>_. None)\<rparr>"

definition demo_draw :: "millis \<Rightarrow> WebhookDraw" where
  "demo_draw now = \<lparr>wd_dns = (\<lambda>_. Some [''a'']), wd_checkNow = now, wd_jsNow = now, wd_dbNow = now, wd_iv = replicate 12 CHR ''i'', wd_nextId = 2,
     wd_publicId = ''p2'', wd_secret = replicate 64 CHR ''g'', wd_user = None\<rparr>"

definition demo_webhook :: WebhookRow where
  "demo_webhook = \<lparr>wh_id = 1, wh_public_id = ''p1'', wh_organization_id = 1, wh_url = ''https://h'', wh_encrypted_secret = ''c'',
     wh_encrypted_secret_previous = None, wh_secret_rotated_at = None, wh_events = [''e''], wh_is_enabled = True, wh_deleted_at = None,
     wh_created_at = 0, wh_updated_at = 0, wh_created_by_user_id = None, wh_updated_by_user_id = None\<rparr>"

definition demo_create :: "nat \<Rightarrow> CreateWebhookInput" where
  "demo_create n = \<lparr>ci_url = ''https://h'', ci_secret = Some (replicate n CHR ''s''), ci_events = [''e''], ci_is_enabled = True\<rparr>"

definition demo_rotation :: UpdateWebhookInput where
  "demo_rotation = \<lparr>ui_url = None, ui_secret = Some (replicate 16 CHR ''n''), ui_events = None, ui_is_enabled = None\<rparr>"

lemma demo_gcm: "gcm_ok demo_keys"
  by (simp add: gcm_ok_def demo_keys_def SUPPORTED_VERSIONS_def AUTH_TAG_LENGTH_def)

lemma demo_create_valid: "16 \<le> n \<Longrightarrow> n \<le> 255 \<Longrightarrow> validateCreateWebhook demo_guard (demo_create n)"
  by (simp add: validateCreateWebhook_def httpsUrl_def webhookSecret_def webhookEvents_def demo_create_def demo_guard_def)

lemma demo_pin: "resolveAndPinWebhookUrl demo_guard (\<lambda>_. Some [''a'']) ''https://h'' = Inr \<lparr>pw_hostname = ''h'', pw_address = ''a'', pw_port = 443\<rparr>"
  by (simp add: resolveAndPinWebhookUrl_def assertWebhookUrlSafe_def resolveWebhookUrlAddresses_def resolveLiteralHostname_def unbracketIpv6Hostname_def
      isUnsafeIpLiteral_def normalizeParsedAddress_def BLOCKED_HOSTNAMES_def BLOCKED_IP_RANGES_def assertWebhookHostAllowed_def
      parseWebhookAllowlist_def resolveWebhookPort_def demo_guard_def js_lower_def lower_char_def is_upper_def Let_def)

theorem long_secret_does_not_fit_witness:
  "fst (webhook_service_create demo_webhook_config ''o'' (demo_draw 5) (demo_create 200) []) = Inl (Plain ''22001'')"
proof -
  have "validateCreateWebhook (wv_guard demo_webhook_config) (demo_create 200)"
    "resolveAndPinWebhookUrl (wv_guard demo_webhook_config) (wd_dns (demo_draw 5)) (ci_url (demo_create 200)) = Inr \<lparr>pw_hostname = ''h'', pw_address = ''a'', pw_port = 443\<rparr>"
    "wv_organization demo_webhook_config ''o'' = Inr 1" "countActiveWebhooks 1 [] < wv_max_per_org demo_webhook_config" "gcm_ok (wv_keys demo_webhook_config)"
    "length (wd_iv (demo_draw 5)) = AES_GCM_IV_LENGTH" "ci_secret (demo_create 200) = Some (replicate 200 CHR ''s'')"
    using demo_create_valid [of 200] demo_pin demo_gcm
    by (simp_all add: demo_webhook_config_def demo_draw_def demo_create_def countActiveWebhooks_def AES_GCM_IV_LENGTH_def)
  from long_secret_does_not_fit [OF this] show ?thesis by simp
qed

definition demo_rotated :: WebhookRow where
  "demo_rotated = demo_webhook\<lparr>wh_updated_at := 5, wh_encrypted_secret := encryptFieldSecret demo_keys (wd_iv (demo_draw 5)) (replicate 16 CHR ''n''),
     wh_encrypted_secret_previous := Some ''c'', wh_secret_rotated_at := Some 5\<rparr>"

lemma demo_cipher_length: "length (encryptFieldSecret demo_keys (replicate 12 CHR ''i'') (replicate 16 CHR ''n'')) = 63"
  using encrypted_length [OF demo_gcm, of "replicate 12 CHR ''i''" "replicate 16 CHR ''n''"] by (simp add: AES_GCM_IV_LENGTH_def)

lemma demo_rotates: "webhook_service_update demo_webhook_config ''o'' (demo_draw 5) ''p1'' demo_rotation [demo_webhook] = (Inr demo_rotated, [demo_rotated])"
proof -
  have "webhook_checks demo_rotated = None"
    using demo_cipher_length by (auto simp: webhook_checks_def demo_rotated_def demo_webhook_def demo_draw_def)
  then show ?thesis
    by (simp add: webhook_service_update_def validateUpdateWebhook_def webhookSecret_def assertSecretRotationEligible_def webhook_findByPublicId_def
        live_webhook_def webhook_update_def rotation_eligible_def webhook_set_def webhook_update_data_def or_keep_def demo_rotation_def
        demo_webhook_config_def demo_draw_def demo_rotated_def demo_webhook_def)
qed

theorem rotation_overlap_kept_witness:
  "list_all (\<lambda>r. wh_encrypted_secret_previous r = Some ''c'')
     (filter (\<lambda>r. wh_id r = 1) (foldl (webhook_request demo_webhook_config) [demo_rotated] [(''o'', demo_draw 10, UpdateWebhook ''p1'' demo_rotation)]))"
proof -
  let ?qs = "[(''o'', demo_draw 10, UpdateWebhook ''p1'' demo_rotation)]"
  have "wh_encrypted_secret_previous r = Some ''c''" if "r \<in> set (foldl (webhook_request demo_webhook_config) [demo_rotated] ?qs)" "wh_id r = 1" for r
  proof -
    have "\<exists>w \<in> set [demo_webhook]. wh_id w = wh_id demo_rotated \<and> secrets_of r =
        (encryptFieldSecret (wv_keys demo_webhook_config) (wd_iv (demo_draw 5)) (replicate 16 CHR ''n''), Some (wh_encrypted_secret w), Some (wd_dbNow (demo_draw 5)))"
    proof (rule rotation_overlap_kept [OF _ demo_rotates])
      show "distinct (map wh_id [demo_webhook])" "wh_url demo_rotated \<in> set [''https://h'']" "ui_secret demo_rotation = Some (replicate 16 CHR ''n'')"
        by (simp_all add: demo_rotated_def demo_webhook_def demo_rotation_def)
      show "list_all (\<lambda>(scope, y, q). url_discipline [''https://h''] q \<and> wd_jsNow y < wd_dbNow (demo_draw 5) + overlapWindowMs demo_webhook_config \<and>
          wd_nextId y \<noteq> wh_id demo_rotated) ?qs"
        by (simp add: demo_draw_def demo_rotation_def overlapWindowMs_def demo_webhook_config_def MILLISECONDS_PER_HOUR_def demo_rotated_def demo_webhook_def)
      show "r \<in> set (foldl (webhook_request demo_webhook_config) [demo_rotated] ?qs)" "wh_id r = wh_id demo_rotated"
        using that by (simp_all add: demo_rotated_def demo_webhook_def)
    qed
    then show ?thesis by (simp add: secrets_of_def demo_webhook_def)
  qed
  then show ?thesis by (auto simp: list_all_iff simp del: foldl_Cons)
qed

definition demo_replaced :: WebhookRow where
  "demo_replaced = demo_webhook\<lparr>wh_updated_at := 5, wh_encrypted_secret := encryptFieldSecret demo_keys (wd_iv (demo_draw 5)) (replicate 16 CHR ''s'')\<rparr>"

lemma demo_recreates: "webhook_service_create demo_webhook_config ''o'' (demo_draw 5) (demo_create 16) [demo_webhook] = (Inr demo_replaced, [demo_replaced])"
proof -
  have l: "length (encryptFieldSecret demo_keys (replicate 12 CHR ''i'') (replicate 16 CHR ''s'')) = 63"
    using encrypted_length [OF demo_gcm, of "replicate 12 CHR ''i''" "replicate 16 CHR ''s''"] by (simp add: AES_GCM_IV_LENGTH_def)
  then have ne: "encryptFieldSecret demo_keys (replicate 12 CHR ''i'') (replicate 16 CHR ''s'') \<noteq> []" by auto
  have v: "validateCreateWebhook (wv_guard demo_webhook_config) (demo_create 16)" using demo_create_valid [of 16] by (simp add: demo_webhook_config_def)
  have pin: "resolveAndPinWebhookUrl (wv_guard demo_webhook_config) (wd_dns (demo_draw 5)) (ci_url (demo_create 16)) = Inr \<lparr>pw_hostname = ''h'', pw_address = ''a'', pw_port = 443\<rparr>"
    using demo_pin by (simp add: demo_webhook_config_def demo_draw_def demo_create_def)
  have o: "wv_organization demo_webhook_config ''o'' = Inr 1" "countActiveWebhooks 1 [demo_webhook] < wv_max_per_org demo_webhook_config"
    by (simp_all add: demo_webhook_config_def countActiveWebhooks_def live_webhook_def demo_webhook_def)
  show ?thesis
    unfolding service_create_run [OF v pin o]
    using l ne by (simp add: webhook_create_def webhook_checks_def webhook_revive_def or_keep_def demo_create_def demo_draw_def demo_webhook_config_def
        demo_replaced_def demo_webhook_def)
qed

theorem repeated_create_drops_the_old_secret_witness:
  "wh_encrypted_secret_previous demo_replaced = None \<and> wh_encrypted_secret demo_replaced \<noteq> wh_encrypted_secret demo_webhook"
proof -
  have "length (encryptFieldSecret demo_keys (replicate 12 CHR ''i'') (replicate 16 CHR ''s'')) = 63"
    using encrypted_length [OF demo_gcm, of "replicate 12 CHR ''i''" "replicate 16 CHR ''s''"] by (simp add: AES_GCM_IV_LENGTH_def)
  then have "encryptFieldSecret demo_keys (replicate 12 CHR ''i'') (replicate 16 CHR ''s'') \<noteq> ''c''" by auto
  moreover have "secrets_of demo_replaced = (encryptFieldSecret (wv_keys demo_webhook_config) (wd_iv (demo_draw 5)) (or_keep (ci_secret (demo_create 16)) (wd_secret (demo_draw 5))),
      wh_encrypted_secret_previous demo_webhook, wh_secret_rotated_at demo_webhook)"
    using repeated_create_drops_the_old_secret [OF _ _ _ _ _ demo_recreates, of demo_webhook 1]
    by (simp add: live_webhook_def demo_webhook_def demo_webhook_config_def demo_create_def)
  ultimately show ?thesis by (simp add: secrets_of_def demo_webhook_def demo_create_def demo_draw_def demo_webhook_config_def or_keep_def)
qed

end
