(* ===== verification/Webhook_Delivery.thy ===== *)
theory Webhook_Delivery
  imports Webhooks
begin

text \<open>
  Outgoing webhooks, the delivery side: \<^verbatim>\<open>webhook-delivery/webhook-delivery-attempt.repository.ts\<close>, \<^verbatim>\<open>webhook-delivery.repository.ts\<close>, the worker
  \<^verbatim>\<open>workers/webhook-delivery.worker.ts\<close> and the cache of circuit breakers \<^verbatim>\<open>workers/webhook-outbound-circuit.ts\<close> below
  \<^verbatim>\<open>src/src/domains/notify/sub-domains/webhook\<close>.  The worker holds no transaction over its network call, so each of its statements is a step
  between which requests and other workers run.  HMAC, the DNS and the answer of the endpoint (behind opossum's breaker)
  are arguments.  Payloads are kept as the text \<^verbatim>\<open>JSON.stringify\<close> gives.  Shown: every POST goes to a checked address and is signed;
  what a job does on every branch; the breaker cache evicts what a full scan would; and two ways a delivery is lost.
\<close>

section \<open>The table of attempts\<close>

datatype DeliveryStatus = PENDING | SENDING | SENT | FAILED

record DeliveryAttempt =
  wa_id :: nat
  wa_public_id :: string
  wa_webhook_id :: nat
  wa_event_type :: string
  wa_event_key :: "string option"
  wa_payload :: string
  wa_status :: DeliveryStatus
  wa_http_status_code :: "nat option"
  wa_response_body :: "string option"
  wa_sent_at :: "millis option"
  wa_attempt_count :: nat
  wa_next_retry_at :: "millis option"
  wa_created_at :: millis

record NotifyDb =
  nd_webhooks :: "WebhookRow tbl"
  nd_attempts :: "DeliveryAttempt tbl"

text \<open>The row-level policy: an attempt belongs to the organization of its webhook.\<close>

definition attempt_in_org :: "WebhookRow tbl \<Rightarrow> nat \<Rightarrow> DeliveryAttempt \<Rightarrow> bool" where
  "attempt_in_org whs org a \<longleftrightarrow> list_ex (\<lambda>w. wh_id w = wa_webhook_id a \<and> wh_organization_id w = org) whs"

record WebhookDeliveryAttemptWithWebhook =
  dc_deliveryAttemptId :: nat
  dc_deliveryAttemptPublicId :: string
  dc_webhookId :: nat
  dc_webhookUrl :: string
  dc_encryptedSecret :: string
  dc_eventType :: string
  dc_payload :: string
  dc_attemptCount :: nat
  dc_webhookIsEnabled :: bool
  dc_webhookDeletedAt :: "millis option"
  dc_encryptedSecretPrevious :: "string option"
  dc_secretRotatedAt :: "millis option"

definition delivery_context :: "DeliveryAttempt \<Rightarrow> WebhookRow \<Rightarrow> WebhookDeliveryAttemptWithWebhook" where
  "delivery_context a w = \<lparr>dc_deliveryAttemptId = wa_id a, dc_deliveryAttemptPublicId = wa_public_id a, dc_webhookId = wh_id w, dc_webhookUrl = wh_url w,
     dc_encryptedSecret = wh_encrypted_secret w, dc_eventType = wa_event_type a, dc_payload = wa_payload a, dc_attemptCount = wa_attempt_count a,
     dc_webhookIsEnabled = wh_is_enabled w, dc_webhookDeletedAt = wh_deleted_at w, dc_encryptedSecretPrevious = wh_encrypted_secret_previous w,
     dc_secretRotatedAt = wh_secret_rotated_at w\<rparr>"

definition findWebhookDeliveryAttemptWithWebhook :: "nat \<Rightarrow> nat \<Rightarrow> NotifyDb \<Rightarrow> WebhookDeliveryAttemptWithWebhook option" where
  "findWebhookDeliveryAttemptWithWebhook i org d =
     (case select_first (\<lambda>a. wa_id a = i \<and> attempt_in_org (nd_webhooks d) org a) (nd_attempts d) of
        None \<Rightarrow> None
      | Some a \<Rightarrow> map_option (delivery_context a) (select_first (\<lambda>w. wh_id w = wa_webhook_id a \<and> wh_organization_id w = org) (nd_webhooks d)))"

text \<open>The attempt for an event, without the optional event key, which no caller passes.\<close>

definition createPendingWebhookDeliveryAttempt :: "millis \<Rightarrow> nat \<Rightarrow> string \<Rightarrow> nat \<Rightarrow> string \<Rightarrow> string \<Rightarrow> NotifyDb \<Rightarrow> nat \<times> NotifyDb" where
  "createPendingWebhookDeliveryAttempt dbNow nextId publicId webhookId eventType payload d =
     (nextId, d\<lparr>nd_attempts := nd_attempts d @ [\<lparr>wa_id = nextId, wa_public_id = publicId, wa_webhook_id = webhookId, wa_event_type = eventType,
        wa_event_key = None, wa_payload = payload, wa_status = PENDING, wa_http_status_code = None, wa_response_body = None, wa_sent_at = None,
        wa_attempt_count = 0, wa_next_retry_at = None, wa_created_at = dbNow\<rparr>]\<rparr>)"

definition markDeliveryAttemptEnqueueFailed :: "nat \<Rightarrow> NotifyDb \<Rightarrow> NotifyDb" where
  "markDeliveryAttemptEnqueueFailed i d = d\<lparr>nd_attempts := update_where (\<lambda>a. wa_id a = i)
     (\<lambda>a. a\<lparr>wa_status := FAILED, wa_response_body := Some ''enqueue_failed'', wa_http_status_code := None, wa_next_retry_at := None\<rparr>) (nd_attempts d)\<rparr>"

definition WEBHOOK_DELIVERY_STUCK_SENDING_LEASE_MINUTES :: int where "WEBHOOK_DELIVERY_STUCK_SENDING_LEASE_MINUTES = 15"
definition MILLISECONDS_PER_MINUTE :: int where "MILLISECONDS_PER_MINUTE = 60000"

definition staleSendingBefore :: "millis \<Rightarrow> millis" where
  "staleSendingBefore jsNow = jsNow - WEBHOOK_DELIVERY_STUCK_SENDING_LEASE_MINUTES * MILLISECONDS_PER_MINUTE"

text \<open>The three conditional updates of the claim, and the read when none of them matched.\<close>

definition update_attempt :: "nat \<Rightarrow> nat \<Rightarrow> (DeliveryAttempt \<Rightarrow> bool) \<Rightarrow> (DeliveryAttempt \<Rightarrow> DeliveryAttempt) \<Rightarrow> NotifyDb \<Rightarrow> bool \<times> NotifyDb" where
  "update_attempt i org p f d =
     (let q = (\<lambda>a. wa_id a = i \<and> attempt_in_org (nd_webhooks d) org a \<and> p a)
      in (list_ex q (nd_attempts d), d\<lparr>nd_attempts := update_where q f (nd_attempts d)\<rparr>))"

definition claimFromPending :: "millis \<Rightarrow> nat \<Rightarrow> nat \<Rightarrow> nat \<Rightarrow> NotifyDb \<Rightarrow> bool \<times> NotifyDb" where
  "claimFromPending jsNow i org attemptCount = update_attempt i org (\<lambda>a. wa_status a = PENDING)
     (\<lambda>a. a\<lparr>wa_status := SENDING, wa_attempt_count := attemptCount, wa_sent_at := Some jsNow\<rparr>)"

definition reclaimFailedRetry :: "millis \<Rightarrow> nat \<Rightarrow> nat \<Rightarrow> nat \<Rightarrow> NotifyDb \<Rightarrow> bool \<times> NotifyDb" where
  "reclaimFailedRetry jsNow i org attemptCount = update_attempt i org (\<lambda>a. wa_status a = FAILED \<and> wa_attempt_count a < attemptCount)
     (\<lambda>a. a\<lparr>wa_status := SENDING, wa_attempt_count := attemptCount, wa_sent_at := Some jsNow, wa_http_status_code := None,
        wa_response_body := None, wa_next_retry_at := None\<rparr>)"

definition reclaimStaleSending :: "millis \<Rightarrow> millis \<Rightarrow> nat \<Rightarrow> nat \<Rightarrow> nat \<Rightarrow> NotifyDb \<Rightarrow> bool \<times> NotifyDb" where
  "reclaimStaleSending jsNow before i org attemptCount = update_attempt i org
     (\<lambda>a. wa_status a = SENDING \<and> (case wa_sent_at a of None \<Rightarrow> False | Some t \<Rightarrow> t < before))
     (\<lambda>a. a\<lparr>wa_status := SENDING, wa_attempt_count := attemptCount, wa_sent_at := Some jsNow\<rparr>)"

definition unclaimed_reason :: "nat \<Rightarrow> nat \<Rightarrow> NotifyDb \<Rightarrow> string" where
  "unclaimed_reason i org d = (case select_first (\<lambda>a. wa_id a = i \<and> attempt_in_org (nd_webhooks d) org a) (nd_attempts d) of
       Some a \<Rightarrow> (if wa_status a = SENT then ''already_sent'' else ''in_flight'') | None \<Rightarrow> ''in_flight'')"

record DeliveryOutcome =
  do_status :: DeliveryStatus
  do_http_status_code :: "nat option"
  do_response_body :: "string option"
  do_next_retry_at :: "millis option"

definition recordOutcome :: "nat \<Rightarrow> nat \<Rightarrow> DeliveryOutcome \<Rightarrow> NotifyDb \<Rightarrow> NotifyDb" where
  "recordOutcome i org out d = snd (update_attempt i org (\<lambda>a. wa_status a \<noteq> SENT)
     (\<lambda>a. a\<lparr>wa_status := do_status out, wa_http_status_code := do_http_status_code out, wa_response_body := do_response_body out,
        wa_next_retry_at := do_next_retry_at out\<rparr>) d)"

section \<open>The response body\<close>

definition WEBHOOK_DELIVERY_RESPONSE_BODY_STORED_MAX_LENGTH :: nat where "WEBHOOK_DELIVERY_RESPONSE_BODY_STORED_MAX_LENGTH = 2000"
definition WEBHOOK_DELIVERY_RESPONSE_BODY_READ_MAX_BYTES :: nat where "WEBHOOK_DELIVERY_RESPONSE_BODY_READ_MAX_BYTES = 16384"

text \<open>The marker begins with an ellipsis, one character.\<close>

definition WEBHOOK_DELIVERY_RESPONSE_BODY_TRUNCATION_MARKER :: string where
  "WEBHOOK_DELIVERY_RESPONSE_BODY_TRUNCATION_MARKER = CHR 0x85 # ''[truncated]''"

text \<open>Reading chunk by chunk, with the total read so far.\<close>

fun readResponseBodyCapped :: "nat \<Rightarrow> nat \<Rightarrow> string list \<Rightarrow> string \<times> bool" where
  "readResponseBodyCapped maxBytes sofar [] = ([], False)"
| "readResponseBodyCapped maxBytes sofar (value # chunks) =
     (if value = [] then readResponseBodyCapped maxBytes sofar chunks
      else if length value > maxBytes - sofar then (take (maxBytes - sofar) value, True)
      else map_prod (append value) id (readResponseBodyCapped maxBytes (sofar + length value) chunks))"

definition formatStoredResponseBody :: "string \<Rightarrow> bool \<Rightarrow> string" where
  "formatStoredResponseBody decoded networkTruncated =
     (if \<not> (networkTruncated \<or> length decoded > WEBHOOK_DELIVERY_RESPONSE_BODY_STORED_MAX_LENGTH) then decoded
      else take (WEBHOOK_DELIVERY_RESPONSE_BODY_STORED_MAX_LENGTH - length WEBHOOK_DELIVERY_RESPONSE_BODY_TRUNCATION_MARKER) decoded @
        WEBHOOK_DELIVERY_RESPONSE_BODY_TRUNCATION_MARKER)"

text \<open>\<^const>\<open>None\<close>: the body could not be read.\<close>

definition readWebhookResponseBodyOrPlaceholder :: "string list option \<Rightarrow> string" where
  "readWebhookResponseBodyOrPlaceholder body = (case body of None \<Rightarrow> ''[parse error]''
     | Some chunks \<Rightarrow> (case readResponseBodyCapped WEBHOOK_DELIVERY_RESPONSE_BODY_READ_MAX_BYTES 0 chunks of (b, truncated) \<Rightarrow> formatStoredResponseBody b truncated))"

lemma read_capped: "sofar + length (fst (readResponseBodyCapped maxBytes sofar chunks)) \<le> max sofar maxBytes"
proof (induction maxBytes sofar chunks rule: readResponseBodyCapped.induct)
  case (2 maxBytes sofar chunk chunks)
  show ?case
  proof (cases "chunk = [] \<or> length chunk > maxBytes - sofar")
    case False
    with 2(2) have "sofar + length chunk + length (fst (readResponseBodyCapped maxBytes (sofar + length chunk) chunks)) \<le> max (sofar + length chunk) maxBytes" by simp
    moreover have "sofar + length chunk \<le> maxBytes" using False by (cases chunk) auto
    ultimately show ?thesis using False by auto
  qed (use 2 in auto)
qed simp

text \<open>What is stored of a response is bounded, whatever the endpoint sends.\<close>

lemma stored_body_bounded: "length (readWebhookResponseBodyOrPlaceholder body) \<le> WEBHOOK_DELIVERY_RESPONSE_BODY_STORED_MAX_LENGTH"
  by (auto simp: readWebhookResponseBodyOrPlaceholder_def formatStoredResponseBody_def WEBHOOK_DELIVERY_RESPONSE_BODY_STORED_MAX_LENGTH_def
      WEBHOOK_DELIVERY_RESPONSE_BODY_TRUNCATION_MARKER_def split: option.splits prod.splits)

section \<open>Signing\<close>

record DeliveryEnv =
  de_guard :: GuardEnv
  de_keys :: SecretKeys
  de_overlap_hours :: nat
  de_hmac :: "string \<Rightarrow> string \<Rightarrow> string"        \<comment> \<open>hex of HMAC-SHA256: secret, message\<close>
  de_organization :: "string \<Rightarrow> nat option"

definition signPayload :: "DeliveryEnv \<Rightarrow> string \<Rightarrow> string \<Rightarrow> nat \<Rightarrow> string" where
  "signPayload env secret payload timestamp = de_hmac env secret (dec timestamp @ ''.'' @ payload)"

definition signature_header :: "DeliveryEnv \<Rightarrow> string \<Rightarrow> string \<Rightarrow> nat \<Rightarrow> string" where
  "signature_header env secret payload timestamp = ''t='' @ dec timestamp @ '',v1='' @ signPayload env secret payload timestamp"

definition computeWebhookPreviousSignatureHeader :: "DeliveryEnv \<Rightarrow> millis \<Rightarrow> WebhookDeliveryAttemptWithWebhook \<Rightarrow> nat \<Rightarrow> string option" where
  "computeWebhookPreviousSignatureHeader env jsNow c timestamp = (case (dc_encryptedSecretPrevious c, dc_secretRotatedAt c) of
       (Some enc, Some rotatedAt) \<Rightarrow>
         if enc = [] \<or> jsNow \<ge> rotatedAt + int (de_overlap_hours env) * MILLISECONDS_PER_HOUR then None
         else map_option (\<lambda>s. signature_header env s (dc_payload c) timestamp) (decryptFieldSecret (de_keys env) enc)
     | _ \<Rightarrow> None)"

text \<open>A POST as it leaves the process: the address and port connected to, and what is sent.\<close>

record WebhookPost =
  wp_address :: string
  wp_port :: nat
  wp_hostname :: string
  wp_body :: string
  wp_signature :: string
  wp_event :: string
  wp_timestamp :: string
  wp_delivery_id :: string
  wp_signature_previous :: "string option"

definition buildWebhookRequest :: "PinnedWebhookResolution \<Rightarrow> WebhookDeliveryAttemptWithWebhook \<Rightarrow> nat \<Rightarrow> string \<Rightarrow> string option \<Rightarrow> WebhookPost" where
  "buildWebhookRequest pin c timestamp signature previous = \<lparr>wp_address = pw_address pin, wp_port = pw_port pin, wp_hostname = pw_hostname pin,
     wp_body = dc_payload c, wp_signature = signature, wp_event = dc_eventType c, wp_timestamp = dec timestamp,
     wp_delivery_id = dc_deliveryAttemptPublicId c, wp_signature_previous = previous\<rparr>"

section \<open>The worker\<close>

definition WEBHOOK_DELIVERY_JOB_ATTEMPTS :: nat where "WEBHOOK_DELIVERY_JOB_ATTEMPTS = 5"
definition WEBHOOK_DELIVERY_MAX_RETRY_ATTEMPTS :: nat where "WEBHOOK_DELIVERY_MAX_RETRY_ATTEMPTS = WEBHOOK_DELIVERY_JOB_ATTEMPTS - 1"
definition WEBHOOK_DELIVERY_RETRY_BASE_DELAY_MS :: int where "WEBHOOK_DELIVERY_RETRY_BASE_DELAY_MS = 10000"

definition computeNextRetryAt :: "millis \<Rightarrow> nat \<Rightarrow> millis option" where
  "computeNextRetryAt jsNow attemptsMade = (if attemptsMade \<ge> WEBHOOK_DELIVERY_MAX_RETRY_ATTEMPTS then None
     else Some (jsNow + WEBHOOK_DELIVERY_RETRY_BASE_DELAY_MS * 2 ^ attemptsMade))"

record DeliveryJob =
  dj_deliveryAttemptId :: nat
  dj_organizationPublicId :: string
  dj_attemptsMade :: nat

record DeliveryWorld =
  dw_db :: NotifyDb
  dw_posts :: "WebhookPost list"

text \<open>What the endpoint answers: nothing left the process (open breaker), the call failed, or a response with its body.\<close>

datatype EndpointReply = BreakerOpen | CallFailed string | Response nat "string list option"

record DeliveryAnswer =
  da_now :: millis
  da_ok :: bool                                   \<comment> \<open>whether the statement of this step goes through\<close>
  da_dns :: "string \<Rightarrow> string list option"
  da_reply :: EndpointReply

datatype DeliveryResult = NoOp string | DeliveredWith nat | AttemptNotFound | ClaimThrew | EmptySigningSecret | DecryptThrew | HttpFailure nat | CallThrew

datatype DeliveryPhase = Loading | Disabling | ClaimPending WebhookDeliveryAttemptWithWebhook | ClaimFailedRetry WebhookDeliveryAttemptWithWebhook millis
  | ClaimStale WebhookDeliveryAttemptWithWebhook millis | ReadStatus | Signing WebhookDeliveryAttemptWithWebhook
  | Pinning WebhookDeliveryAttemptWithWebhook nat string "string option" | Posting WebhookPost
  | Recording bool DeliveryOutcome DeliveryResult | Ended DeliveryResult

definition failed_outcome :: "nat option \<Rightarrow> string \<Rightarrow> millis option \<Rightarrow> DeliveryOutcome" where
  "failed_outcome code body next = \<lparr>do_status = FAILED, do_http_status_code = code, do_response_body = Some body, do_next_retry_at = next\<rparr>"

text \<open>A claim statement: it may fail as a statement (the check bounds the count by five), match, or not match.\<close>

definition claim_step :: "DeliveryJob \<Rightarrow> DeliveryAnswer \<Rightarrow> bool \<times> NotifyDb \<Rightarrow> DeliveryPhase \<Rightarrow> DeliveryPhase \<Rightarrow> DeliveryWorld \<Rightarrow> DeliveryPhase \<times> DeliveryWorld" where
  "claim_step job a res hit miss w = (if \<not> da_ok a \<or> (fst res \<and> dj_attemptsMade job + 1 > 5)
     then (Recording False (failed_outcome None ''error'' (computeNextRetryAt (da_now a) (dj_attemptsMade job))) ClaimThrew, w)
     else if fst res then (hit, w\<lparr>dw_db := snd res\<rparr>) else (miss, w))"

fun delivery_step :: "DeliveryEnv \<Rightarrow> DeliveryJob \<Rightarrow> nat \<Rightarrow> DeliveryAnswer \<Rightarrow> DeliveryPhase \<times> DeliveryWorld \<Rightarrow> DeliveryPhase \<times> DeliveryWorld" where
  "delivery_step env job org a (Loading, w) =
     (if \<not> da_ok a then (Recording False (failed_outcome None ''error'' (computeNextRetryAt (da_now a) (dj_attemptsMade job))) ClaimThrew, w)
      else case findWebhookDeliveryAttemptWithWebhook (dj_deliveryAttemptId job) org (dw_db w) of
        None \<Rightarrow> (Ended AttemptNotFound, w)
      | Some c \<Rightarrow> (if \<not> dc_webhookIsEnabled c \<or> dc_webhookDeletedAt c \<noteq> None then Disabling else ClaimPending c, w))"
| "delivery_step env job org a (Disabling, w) =
     (if \<not> da_ok a then (Recording False (failed_outcome None ''error'' (computeNextRetryAt (da_now a) (dj_attemptsMade job))) ClaimThrew, w)
      else (Ended (NoOp ''webhook_disabled''), w\<lparr>dw_db := recordOutcome (dj_deliveryAttemptId job) org (failed_outcome None ''webhook_disabled'' None) (dw_db w)\<rparr>))"
| "delivery_step env job org a (ClaimPending c, w) = claim_step job a
     (claimFromPending (da_now a) (dj_deliveryAttemptId job) org (dj_attemptsMade job + 1) (dw_db w)) (Signing c) (ClaimFailedRetry c (staleSendingBefore (da_now a))) w"
| "delivery_step env job org a (ClaimFailedRetry c before, w) = claim_step job a
     (reclaimFailedRetry (da_now a) (dj_deliveryAttemptId job) org (dj_attemptsMade job + 1) (dw_db w)) (Signing c) (ClaimStale c before) w"
| "delivery_step env job org a (ClaimStale c before, w) = claim_step job a
     (reclaimStaleSending (da_now a) before (dj_deliveryAttemptId job) org (dj_attemptsMade job + 1) (dw_db w)) (Signing c) ReadStatus w"
| "delivery_step env job org a (ReadStatus, w) =
     (if \<not> da_ok a then (Recording False (failed_outcome None ''error'' (computeNextRetryAt (da_now a) (dj_attemptsMade job))) ClaimThrew, w)
      else (Ended (NoOp (unclaimed_reason (dj_deliveryAttemptId job) org (dw_db w))), w))"
| "delivery_step env job org a (Signing c, w) = (case decryptFieldSecret (de_keys env) (dc_encryptedSecret c) of
       None \<Rightarrow> (Ended DecryptThrew, w)
     | Some secret \<Rightarrow> if secret = [] then (Recording False (failed_outcome None ''empty_signing_secret'' None) EmptySigningSecret, w)
         else (let timestamp = nat (da_now a div 1000)
               in (Pinning c timestamp (signature_header env secret (dc_payload c) timestamp)
                     (computeWebhookPreviousSignatureHeader env (da_now a) c timestamp), w)))"
| "delivery_step env job org a (Pinning c timestamp signature previous, w) = (case resolveAndPinWebhookUrl (de_guard env) (da_dns a) (dc_webhookUrl c) of
       Inl e \<Rightarrow> (Recording False (failed_outcome None ''error'' (computeNextRetryAt (da_now a) (dj_attemptsMade job))) CallThrew, w)
     | Inr pin \<Rightarrow> (Posting (buildWebhookRequest pin c timestamp signature previous), w))"
| "delivery_step env job org a (Posting req, w) = (case da_reply a of
       BreakerOpen \<Rightarrow> (Recording False (failed_outcome None ''error'' (computeNextRetryAt (da_now a) (dj_attemptsMade job))) CallThrew, w)
     | CallFailed msg \<Rightarrow> (Recording False (failed_outcome None msg (computeNextRetryAt (da_now a) (dj_attemptsMade job))) CallThrew, w\<lparr>dw_posts := dw_posts w @ [req]\<rparr>)
     | Response httpStatus body \<Rightarrow> (let responseBody = readWebhookResponseBodyOrPlaceholder body in
         (if 200 \<le> httpStatus \<and> httpStatus < 300
          then Recording True \<lparr>do_status = SENT, do_http_status_code = Some httpStatus, do_response_body = Some responseBody, do_next_retry_at = None\<rparr> (DeliveredWith httpStatus)
          else Recording True (failed_outcome (Some httpStatus) responseBody (computeNextRetryAt (da_now a) (dj_attemptsMade job))) (HttpFailure httpStatus),
          w\<lparr>dw_posts := dw_posts w @ [req]\<rparr>)))"
| "delivery_step env job org a (Recording inTry out res, w) =
     (if da_ok a then (Ended res, w\<lparr>dw_db := recordOutcome (dj_deliveryAttemptId job) org out (dw_db w)\<rparr>)
      else if inTry then (Recording False (failed_outcome None ''error'' (computeNextRetryAt (da_now a) (dj_attemptsMade job))) CallThrew, w)
      else (Ended res, w))"
| "delivery_step env job org a (Ended res, w) = (Ended res, w)"

text \<open>A job that nothing overlaps; ten steps reach the end.  An organization that does not exist has no attempts.\<close>

definition processWebhookDeliveryAttempt :: "DeliveryEnv \<Rightarrow> DeliveryJob \<Rightarrow> DeliveryAnswer \<Rightarrow> DeliveryWorld \<Rightarrow> DeliveryResult \<times> DeliveryWorld" where
  "processWebhookDeliveryAttempt env job a w = (case de_organization env (dj_organizationPublicId job) of
       None \<Rightarrow> (AttemptNotFound, w)
     | Some org \<Rightarrow> (case (delivery_step env job org a ^^ 10) (Loading, w) of (Ended res, w') \<Rightarrow> (res, w') | (_, w') \<Rightarrow> (CallThrew, w')))"

section \<open>The cache of circuit breakers\<close>

text \<open>The map in insertion order: webhook ids with the last access.  The breakers themselves are opossum's.\<close>

type_synonym CircuitCache = "(nat \<times> millis) list"

definition WEBHOOK_CIRCUIT_CACHE_MAX_ENTRIES :: nat where "WEBHOOK_CIRCUIT_CACHE_MAX_ENTRIES = 5000"
definition WEBHOOK_CIRCUIT_CACHE_IDLE_TTL_MS :: int where "WEBHOOK_CIRCUIT_CACHE_IDLE_TTL_MS = MILLISECONDS_PER_HOUR"

definition touchCircuitCacheEntry :: "nat \<Rightarrow> millis \<Rightarrow> CircuitCache \<Rightarrow> CircuitCache" where
  "touchCircuitCacheEntry webhookId now c = filter (\<lambda>e. fst e \<noteq> webhookId) c @ [(webhookId, now)]"

fun evictExpiredCircuits :: "millis \<Rightarrow> CircuitCache \<Rightarrow> CircuitCache" where
  "evictExpiredCircuits now [] = []"
| "evictExpiredCircuits now ((webhookId, lastAccessedAtMs) # c) =
     (if now - lastAccessedAtMs \<le> WEBHOOK_CIRCUIT_CACHE_IDLE_TTL_MS then (webhookId, lastAccessedAtMs) # c else evictExpiredCircuits now c)"

fun evictLeastRecentlyUsedIfFull :: "CircuitCache \<Rightarrow> CircuitCache" where
  "evictLeastRecentlyUsedIfFull [] = []"
| "evictLeastRecentlyUsedIfFull (e # c) = (if length (e # c) \<ge> WEBHOOK_CIRCUIT_CACHE_MAX_ENTRIES then evictLeastRecentlyUsedIfFull c else e # c)"

definition getWebhookOutboundCircuit :: "millis \<Rightarrow> nat \<Rightarrow> CircuitCache \<Rightarrow> CircuitCache" where
  "getWebhookOutboundCircuit now webhookId c = (let c1 = evictExpiredCircuits now c in
     if webhookId \<in> fst ` set c1 then touchCircuitCacheEntry webhookId now c1
     else evictLeastRecentlyUsedIfFull c1 @ [(webhookId, now)])"

definition invalidateWebhookOutboundCircuit :: "nat \<Rightarrow> CircuitCache \<Rightarrow> CircuitCache" where
  "invalidateWebhookOutboundCircuit webhookId = filter (\<lambda>e. fst e \<noteq> webhookId)"

text \<open>A history of the cache in one process: deliveries and invalidations, with the clock.\<close>

fun circuit_history :: "(millis \<times> bool \<times> nat) list \<Rightarrow> CircuitCache" where
  "circuit_history [] = []"
| "circuit_history ((now, fire, webhookId) # h) =
     (if fire then getWebhookOutboundCircuit now webhookId (circuit_history h) else invalidateWebhookOutboundCircuit webhookId (circuit_history h))"

definition circuit_inv :: "millis \<Rightarrow> CircuitCache \<Rightarrow> bool" where
  "circuit_inv now c \<longleftrightarrow> distinct (map fst c) \<and> sorted (map snd c) \<and> length c \<le> WEBHOOK_CIRCUIT_CACHE_MAX_ENTRIES \<and> (\<forall>e \<in> set c. snd e \<le> now)"

lemma evictExpired_filter:
  "sorted (map snd c) \<Longrightarrow> evictExpiredCircuits now c = filter (\<lambda>e. now - snd e \<le> WEBHOOK_CIRCUIT_CACHE_IDLE_TTL_MS) c"
proof (induction now c rule: evictExpiredCircuits.induct)
  case (2 now webhookId t c)
  show ?case
  proof (cases "now - t \<le> WEBHOOK_CIRCUIT_CACHE_IDLE_TTL_MS")
    case True
    with 2(2) have "filter (\<lambda>e. now - snd e \<le> WEBHOOK_CIRCUIT_CACHE_IDLE_TTL_MS) c = c" by (fastforce simp: filter_id_conv)
    with True show ?thesis by simp
  qed (use 2 in simp)
qed simp

lemma evictLRU_drop: "evictLeastRecentlyUsedIfFull c = drop (length c + 1 - WEBHOOK_CIRCUIT_CACHE_MAX_ENTRIES) c"
proof (induction c)
  case (Cons e c)
  have "0 < WEBHOOK_CIRCUIT_CACHE_MAX_ENTRIES" by (simp add: WEBHOOK_CIRCUIT_CACHE_MAX_ENTRIES_def)
  with Cons show ?case by (auto simp: Suc_diff_le not_le)
qed simp

text \<open>What a lookup should leave: the fresh entries of the others, oldest out beyond the cap, and this one last.\<close>

definition circuit_reference :: "millis \<Rightarrow> nat \<Rightarrow> CircuitCache \<Rightarrow> CircuitCache" where
  "circuit_reference now webhookId c =
     (let kept = filter (\<lambda>e. now - snd e \<le> WEBHOOK_CIRCUIT_CACHE_IDLE_TTL_MS \<and> fst e \<noteq> webhookId) c @ [(webhookId, now)]
      in drop (length kept - WEBHOOK_CIRCUIT_CACHE_MAX_ENTRIES) kept)"

lemma get_is_reference:
  assumes "circuit_inv t c"
  shows "getWebhookOutboundCircuit now webhookId c = circuit_reference now webhookId c"
proof -
  let ?fresh = "filter (\<lambda>e. now - snd e \<le> WEBHOOK_CIRCUIT_CACHE_IDLE_TTL_MS) c"
  let ?others = "filter (\<lambda>e. fst e \<noteq> webhookId) ?fresh"
  have ev: "evictExpiredCircuits now c = ?fresh" using assms by (intro evictExpired_filter) (simp add: circuit_inv_def)
  have others: "filter (\<lambda>e. now - snd e \<le> WEBHOOK_CIRCUIT_CACHE_IDLE_TTL_MS \<and> fst e \<noteq> webhookId) c = ?others" by (simp add: conj_commute)
  show ?thesis
  proof (cases "webhookId \<in> fst ` set ?fresh")
    case True
    then obtain e where "e \<in> set ?fresh" "fst e = webhookId" by auto
    then have "length ?others < length ?fresh" by (intro length_filter_less [of e]) auto
    moreover have "length ?fresh \<le> WEBHOOK_CIRCUIT_CACHE_MAX_ENTRIES" using assms length_filter_le [of _ c] by (metis circuit_inv_def le_trans)
    ultimately show ?thesis using True
      unfolding getWebhookOutboundCircuit_def ev Let_def circuit_reference_def others by (simp add: touchCircuitCacheEntry_def)
  next
    case False
    then have "fst e \<noteq> webhookId" if "e \<in> set ?fresh" for e using that by (metis image_eqI)
    then have "?others = ?fresh" unfolding filter_id_conv by blast
    with False show ?thesis
      unfolding getWebhookOutboundCircuit_def ev Let_def circuit_reference_def others evictLRU_drop by (simp add: WEBHOOK_CIRCUIT_CACHE_MAX_ENTRIES_def)
  qed
qed

lemma capped_inv:
  assumes "distinct (map fst k)" and "sorted (map snd k)" and "\<forall>e \<in> set k. snd e \<le> t"
  shows "circuit_inv t (drop (length k - WEBHOOK_CIRCUIT_CACHE_MAX_ENTRIES) k)"
  using assms unfolding circuit_inv_def by (auto simp: drop_map [symmetric] sorted_wrt_drop dest: in_set_dropD)

lemma circuit_history_inv:
  "sorted (rev (map fst h)) \<Longrightarrow> list_all (\<lambda>e. fst e \<le> now) h \<Longrightarrow> circuit_inv now (circuit_history h)"
proof (induction h arbitrary: now)
  case (Cons step h)
  obtain t fire webhookId where step: "step = (t, fire, webhookId)" by (cases step) auto
  let ?c = "circuit_history h"
  have "sorted (rev (map fst h))" "list_all (\<lambda>e. fst e \<le> t) h" using Cons(2) by (auto simp: step sorted_append list_all_iff)
  then have inv: "circuit_inv t ?c" by (rule Cons(1))
  have "t \<le> now" using Cons(3) by (simp add: step)
  have "circuit_inv t (circuit_history (step # h))"
  proof (cases fire)
    case True
    let ?kept = "filter (\<lambda>e. t - snd e \<le> WEBHOOK_CIRCUIT_CACHE_IDLE_TTL_MS \<and> fst e \<noteq> webhookId) ?c @ [(webhookId, t)]"
    have "distinct (map fst ?kept)" using inv by (auto simp: circuit_inv_def distinct_map_filter)
    moreover have "sorted (map snd ?kept)" using inv by (auto simp: circuit_inv_def sorted_append intro: sorted_filter)
    moreover have "\<forall>e \<in> set ?kept. snd e \<le> t" using inv by (auto simp: circuit_inv_def)
    ultimately have "circuit_inv t (drop (length ?kept - WEBHOOK_CIRCUIT_CACHE_MAX_ENTRIES) ?kept)" by (rule capped_inv)
    then show ?thesis using True get_is_reference [OF inv] by (simp add: step circuit_reference_def Let_def)
  next
    case False
    then show ?thesis using inv
      by (auto simp: step circuit_inv_def invalidateWebhookOutboundCircuit_def distinct_map_filter sorted_filter intro: le_trans [OF length_filter_le])
  qed
  with \<open>t \<le> now\<close> show ?case by (auto simp: circuit_inv_def)
qed (simp add: circuit_inv_def)

text \<open>C The breaker cache does in constant amortised work what a full scan would: after any history of deliveries and invalidations under a
  clock that does not go back, a lookup leaves the fresh entries of the other webhooks in order of use, without the oldest beyond the cap of
  5000, and the looked-up webhook last; the cache never exceeds the cap.\<close>

theorem circuit_cache_is_lru:
  assumes "sorted (rev (map fst h))" and "list_all (\<lambda>e. fst e \<le> now) h"
  shows "getWebhookOutboundCircuit now webhookId (circuit_history h) = circuit_reference now webhookId (circuit_history h) \<and>
    length (circuit_history h) \<le> WEBHOOK_CIRCUIT_CACHE_MAX_ENTRIES"
  using get_is_reference circuit_history_inv [OF assms] by (auto simp: circuit_inv_def)

theorem circuit_cache_is_lru_witness:
  "getWebhookOutboundCircuit 4000000 1 (circuit_history [(3900000, True, 2), (1, True, 1), (0, True, 3)]) = [(2, 3900000), (1, 4000000)]"
proof -
  have "circuit_history [(3900000, True, 2), (1, True, 1), (0, True, 3)] = [(2, 3900000)]"
    by (simp add: getWebhookOutboundCircuit_def touchCircuitCacheEntry_def WEBHOOK_CIRCUIT_CACHE_IDLE_TTL_MS_def MILLISECONDS_PER_HOUR_def
        WEBHOOK_CIRCUIT_CACHE_MAX_ENTRIES_def)
  then show ?thesis
    using circuit_cache_is_lru [of "[(3900000, True, 2), (1, True, 1), (0, True, 3)]" 4000000 1]
    by (auto simp: circuit_reference_def WEBHOOK_CIRCUIT_CACHE_IDLE_TTL_MS_def MILLISECONDS_PER_HOUR_def WEBHOOK_CIRCUIT_CACHE_MAX_ENTRIES_def)
qed

section \<open>What one job does\<close>

definition claimable_delivery :: "millis \<Rightarrow> nat \<Rightarrow> DeliveryAttempt \<Rightarrow> bool" where
  "claimable_delivery now n a \<longleftrightarrow> (case wa_status a of
       PENDING \<Rightarrow> True
     | FAILED \<Rightarrow> wa_attempt_count a < n
     | SENDING \<Rightarrow> (case wa_sent_at a of None \<Rightarrow> False | Some t \<Rightarrow> t < staleSendingBefore now)
     | SENT \<Rightarrow> False)"

text \<open>The attempt and its webhook, found by their unique ids.\<close>

definition attempt_of :: "NotifyDb \<Rightarrow> nat \<Rightarrow> DeliveryAttempt \<Rightarrow> WebhookRow \<Rightarrow> bool" where
  "attempt_of d org a w \<longleftrightarrow> distinct (map wa_id (nd_attempts d)) \<and> distinct (map wh_id (nd_webhooks d)) \<and> a \<in> set (nd_attempts d) \<and>
     w \<in> set (nd_webhooks d) \<and> wh_id w = wa_webhook_id a \<and> wh_organization_id w = org"

lemma attempt_of_unique: "attempt_of d org a w \<Longrightarrow> x \<in> set (nd_attempts d) \<Longrightarrow> wa_id x = wa_id a \<Longrightarrow> x = a"
  by (auto simp: attempt_of_def distinct_map inj_on_def)

lemma attempt_in_organization: "attempt_of d org a w \<Longrightarrow> attempt_in_org (nd_webhooks d) org a"
  by (auto simp: attempt_of_def attempt_in_org_def list_ex_iff)

lemma select_unique:
  assumes "x \<in> set t" and "p x" and "\<And>y. y \<in> set t \<Longrightarrow> p y \<Longrightarrow> y = x"
  shows "select_first p t = Some x"
proof (cases "select_first p t")
  case None
  with assms(1,2) show ?thesis unfolding select_first_None_iff by blast
next
  case (Some y)
  from select_first_Some_iff [OF Some] assms(3) Some show ?thesis by simp
qed

lemma attempt_selected:
  "attempt_of d org a w \<Longrightarrow> select_first (\<lambda>x. wa_id x = wa_id a \<and> attempt_in_org (nd_webhooks d) org x) (nd_attempts d) = Some a"
  by (intro select_unique) (auto simp: attempt_in_organization attempt_of_unique, simp add: attempt_of_def)

lemma context_found:
  assumes "attempt_of d org a w"
  shows "findWebhookDeliveryAttemptWithWebhook (wa_id a) org d = Some (delivery_context a w)"
proof -
  have "select_first (\<lambda>x. wh_id x = wa_webhook_id a \<and> wh_organization_id x = org) (nd_webhooks d) = Some w"
    using assms by (intro select_unique) (auto simp: attempt_of_def distinct_map inj_on_def)
  then show ?thesis by (simp add: findWebhookDeliveryAttemptWithWebhook_def attempt_selected [OF assms])
qed

lemma update_attempt_unique:
  assumes "attempt_of d org a w"
  shows "update_attempt (wa_id a) org p f d = (p a, if p a then d\<lparr>nd_attempts := update_where (\<lambda>x. wa_id x = wa_id a) f (nd_attempts d)\<rparr> else d)"
proof -
  let ?q = "\<lambda>x. wa_id x = wa_id a \<and> attempt_in_org (nd_webhooks d) org x \<and> p x"
  have mem: "a \<in> set (nd_attempts d)" using assms by (simp add: attempt_of_def)
  have q: "?q x \<longleftrightarrow> wa_id x = wa_id a \<and> p a" if "x \<in> set (nd_attempts d)" for x
    using attempt_of_unique [OF assms that] attempt_in_organization [OF assms] by auto
  have ex: "list_ex ?q (nd_attempts d) \<longleftrightarrow> p a" using q mem unfolding list_ex_iff by blast
  have "update_where ?q f (nd_attempts d) = update_where (\<lambda>x. wa_id x = wa_id a \<and> p a) f (nd_attempts d)"
    using q by (auto simp: update_where_def)
  moreover have "update_where (\<lambda>x. False) f t = t" for t by (simp add: update_where_id)
  ultimately have up: "update_where ?q f (nd_attempts d) = (if p a then update_where (\<lambda>x. wa_id x = wa_id a) f (nd_attempts d) else nd_attempts d)"
    by simp
  show ?thesis unfolding update_attempt_def Let_def ex up by simp
qed

lemma attempt_of_updated:
  assumes "attempt_of d org a w" and "\<And>x. wa_id (f x) = wa_id x" and "\<And>x. wa_webhook_id (f x) = wa_webhook_id x"
  shows "attempt_of (d\<lparr>nd_attempts := update_where (\<lambda>x. wa_id x = wa_id a) f (nd_attempts d)\<rparr>) org (f a) w"
proof -
  have "map wa_id (update_where p f t) = map wa_id t" for p t using assms(2) by (simp add: update_where_def)
  moreover have "f a \<in> set (update_where (\<lambda>x. wa_id x = wa_id a) f (nd_attempts d))" using assms(1) by (auto simp: attempt_of_def set_update_where)
  ultimately show ?thesis using assms by (simp add: attempt_of_def)
qed

lemma update_where_twice:
  "(\<And>x. wa_id (f x) = wa_id x) \<Longrightarrow> update_where (\<lambda>x. wa_id x = i) g (update_where (\<lambda>x. wa_id x = i) f t) = update_where (\<lambda>x. wa_id x = i) (\<lambda>x. g (f x)) t"
  by (simp add: update_where_def)

lemma funpow_ten: "(f ^^ 10) x = f (f (f (f (f (f (f (f (f (f x)))))))))"
  by (simp add: eval_nat_numeral)

section \<open>Deliveries that are lost\<close>

text \<open>C15 A job that cannot claim its attempt reports success.  This is what a restarted job meets when its worker died after the claim (the row
  is in \<^verbatim>\<open>SENDING\<close> and the lease lasts fifteen minutes), and what every replay from the dead-letter queue meets: it starts again at attempt
  one, while the row is \<^verbatim>\<open>FAILED\<close> with the count it reached.  Nothing is sent, nothing changes, and no other job is left.\<close>

theorem unclaimable_delivery_reports_success:
  assumes "de_organization env (dj_organizationPublicId job) = Some org" and "attempt_of (dw_db w) org att wh" and "wh_is_enabled wh" and "wh_deleted_at wh = None"
    and "dj_deliveryAttemptId job = wa_id att" and "da_ok a"
    and "wa_status att = SENDING \<and> (\<exists>t. wa_sent_at att = Some t \<and> staleSendingBefore (da_now a) \<le> t) \<or>
      wa_status att = FAILED \<and> dj_attemptsMade job + 1 \<le> wa_attempt_count att"
  shows "processWebhookDeliveryAttempt env job a w = (NoOp ''in_flight'', w)"
proof -
  let ?c = "delivery_context att wh" and ?s = "delivery_step env job org a"
  note up = update_attempt_unique [OF assms(2)]
  have 1: "?s (Loading, w) = (ClaimPending ?c, w)"
    using assms(3-6) by (simp add: context_found [OF assms(2)] delivery_context_def)
  have 2: "?s (ClaimPending ?c, w) = (ClaimFailedRetry ?c (staleSendingBefore (da_now a)), w)"
    using assms(5-7) by (auto simp: claimFromPending_def up claim_step_def)
  have 3: "?s (ClaimFailedRetry ?c b, w) = (ClaimStale ?c b, w)" for b
    using assms(5-7) by (auto simp: reclaimFailedRetry_def up claim_step_def)
  have 4: "?s (ClaimStale ?c (staleSendingBefore (da_now a)), w) = (ReadStatus, w)"
    using assms(5-7) by (auto simp: reclaimStaleSending_def up claim_step_def)
  have 5: "?s (ReadStatus, w) = (Ended (NoOp ''in_flight''), w)"
    using assms(5-7) by (auto simp: unclaimed_reason_def attempt_selected [OF assms(2)])
  have "(?s ^^ 10) (Loading, w) = (Ended (NoOp ''in_flight''), w)"
    by (simp only: funpow_ten 1 2 3 4 5 delivery_step.simps(11))
  then show ?thesis using assms(1) by (simp add: processWebhookDeliveryAttempt_def)
qed

section \<open>A job that claims its attempt\<close>

definition delivery_result :: "nat \<Rightarrow> DeliveryResult" where
  "delivery_result httpStatus = (if 200 \<le> httpStatus \<and> httpStatus < 300 then DeliveredWith httpStatus else HttpFailure httpStatus)"

definition delivery_outcome :: "millis \<Rightarrow> nat \<Rightarrow> nat \<Rightarrow> string list option \<Rightarrow> DeliveryOutcome" where
  "delivery_outcome now attemptsMade httpStatus body = (let responseBody = readWebhookResponseBodyOrPlaceholder body in
     if 200 \<le> httpStatus \<and> httpStatus < 300
     then \<lparr>do_status = SENT, do_http_status_code = Some httpStatus, do_response_body = Some responseBody, do_next_retry_at = None\<rparr>
     else failed_outcome (Some httpStatus) responseBody (computeNextRetryAt now attemptsMade))"

definition recorded :: "DeliveryOutcome \<Rightarrow> DeliveryAttempt \<Rightarrow> DeliveryAttempt" where
  "recorded out a = a\<lparr>wa_status := do_status out, wa_http_status_code := do_http_status_code out, wa_response_body := do_response_body out,
     wa_next_retry_at := do_next_retry_at out\<rparr>"

definition signed_request :: "DeliveryEnv \<Rightarrow> millis \<Rightarrow> PinnedWebhookResolution \<Rightarrow> WebhookDeliveryAttemptWithWebhook \<Rightarrow> string \<Rightarrow> WebhookPost" where
  "signed_request env now pin c secret = (let timestamp = nat (now div 1000) in
     buildWebhookRequest pin c timestamp (signature_header env secret (dc_payload c) timestamp) (computeWebhookPreviousSignatureHeader env now c timestamp))"

lemma deliver_claimed:
  assumes "attempt_of (dw_db w) org att wh" and "wa_status att \<noteq> SENT" and "dj_deliveryAttemptId job = wa_id att" and "da_ok a"
    and "decryptFieldSecret (de_keys env) (dc_encryptedSecret c) = Some secret" and "secret \<noteq> []"
    and "resolveAndPinWebhookUrl (de_guard env) (da_dns a) (dc_webhookUrl c) = Inr pin" and "da_reply a = Response httpStatus body"
  shows "delivery_step env job org a (delivery_step env job org a (delivery_step env job org a (delivery_step env job org a (Signing c, w)))) =
    (Ended (delivery_result httpStatus), w\<lparr>dw_posts := dw_posts w @ [signed_request env (da_now a) pin c secret],
       dw_db := (dw_db w)\<lparr>nd_attempts := update_where (\<lambda>x. wa_id x = wa_id att)
         (recorded (delivery_outcome (da_now a) (dj_attemptsMade job) httpStatus body)) (nd_attempts (dw_db w))\<rparr>\<rparr>)"
proof -
  have rec: "recordOutcome (wa_id att) org out (dw_db w) = (dw_db w)\<lparr>nd_attempts := update_where (\<lambda>x. wa_id x = wa_id att) (recorded out) (nd_attempts (dw_db w))\<rparr>" for out
    using assms(2) by (simp add: recordOutcome_def update_attempt_unique [OF assms(1)] recorded_def [abs_def])
  show ?thesis
    using assms(3-8) by (simp add: rec delivery_result_def delivery_outcome_def signed_request_def Let_def)
qed

text \<open>What a job does when it can claim its attempt (pending, failed in an earlier try, or stale) and the endpoint answers: one POST, to the
  pinned address, with the payload, the stable delivery id, the signature of the current secret and, within the overlap
  window, that of the previous one; the attempt ends as sent on a 2xx and as failed with its retry time otherwise; no other row changes.\<close>

theorem delivery_job_posts_once:
  assumes "de_organization env (dj_organizationPublicId job) = Some org" and "attempt_of (dw_db w) org att wh" and "wh_is_enabled wh" and "wh_deleted_at wh = None"
    and "dj_deliveryAttemptId job = wa_id att" and "da_ok a" and "dj_attemptsMade job < WEBHOOK_DELIVERY_JOB_ATTEMPTS"
    and "claimable_delivery (da_now a) (dj_attemptsMade job + 1) att"
    and "decryptFieldSecret (de_keys env) (wh_encrypted_secret wh) = Some secret" and "secret \<noteq> []"
    and "resolveAndPinWebhookUrl (de_guard env) (da_dns a) (wh_url wh) = Inr pin" and "da_reply a = Response httpStatus body"
  shows "processWebhookDeliveryAttempt env job a w = (delivery_result httpStatus,
    w\<lparr>dw_posts := dw_posts w @ [signed_request env (da_now a) pin (delivery_context att wh) secret],
      dw_db := (dw_db w)\<lparr>nd_attempts := update_where (\<lambda>x. wa_id x = wa_id att)
        (\<lambda>x. recorded (delivery_outcome (da_now a) (dj_attemptsMade job) httpStatus body)
          (x\<lparr>wa_attempt_count := dj_attemptsMade job + 1, wa_sent_at := Some (da_now a)\<rparr>)) (nd_attempts (dw_db w))\<rparr>\<rparr>)"
proof -
  let ?c = "delivery_context att wh" and ?s = "delivery_step env job org a" and ?n = "dj_attemptsMade job + 1"
  let ?fP = "\<lambda>x. x\<lparr>wa_status := SENDING, wa_attempt_count := ?n, wa_sent_at := Some (da_now a)\<rparr>"
  let ?fF = "\<lambda>x. x\<lparr>wa_status := SENDING, wa_attempt_count := ?n, wa_sent_at := Some (da_now a), wa_http_status_code := None, wa_response_body := None, wa_next_retry_at := None\<rparr>"
  let ?w = "\<lambda>f. w\<lparr>dw_db := (dw_db w)\<lparr>nd_attempts := update_where (\<lambda>x. wa_id x = wa_id att) f (nd_attempts (dw_db w))\<rparr>\<rparr>"
  let ?final = "w\<lparr>dw_posts := dw_posts w @ [signed_request env (da_now a) pin ?c secret],
      dw_db := (dw_db w)\<lparr>nd_attempts := update_where (\<lambda>x. wa_id x = wa_id att)
        (\<lambda>x. recorded (delivery_outcome (da_now a) (dj_attemptsMade job) httpStatus body)
          (x\<lparr>wa_attempt_count := ?n, wa_sent_at := Some (da_now a)\<rparr>)) (nd_attempts (dw_db w))\<rparr>\<rparr>"
  note up = update_attempt_unique [OF assms(2)]
  have five: "\<not> dj_attemptsMade job + 1 > 5" using assms(7) by (simp add: WEBHOOK_DELIVERY_JOB_ATTEMPTS_def)
  have 1: "?s (Loading, w) = (ClaimPending ?c, w)"
    using assms(3-6) by (simp add: context_found [OF assms(2)] delivery_context_def)
  have end4: "?s (?s (?s (?s (Signing ?c, ?w f)))) = (Ended (delivery_result httpStatus), ?final)"
    if f: "f = ?fP \<or> f = ?fF" for f
  proof -
    have keeps: "wa_id (f x) = wa_id x" "wa_webhook_id (f x) = wa_webhook_id x" "wa_status (f x) = SENDING" for x using f by auto
    have at: "attempt_of (dw_db (?w f)) org (f att) wh" using attempt_of_updated [OF assms(2), of f] keeps by simp
    have "recorded out (f x) = recorded out (x\<lparr>wa_attempt_count := ?n, wa_sent_at := Some (da_now a)\<rparr>)" for out x
      using f by (auto simp: recorded_def)
    then have comp: "update_where (\<lambda>x. wa_id x = wa_id att) (recorded out) (update_where (\<lambda>x. wa_id x = wa_id att) f t) =
        update_where (\<lambda>x. wa_id x = wa_id att) (\<lambda>x. recorded out (x\<lparr>wa_attempt_count := ?n, wa_sent_at := Some (da_now a)\<rparr>)) t" for out t
      using update_where_twice [of f] keeps(1) by simp
    show ?thesis
      using deliver_claimed [OF at, of job a env ?c secret pin httpStatus body] keeps assms(5,6,9-12) comp
      by (simp add: delivery_context_def)
  qed
  have "(?s ^^ 10) (Loading, w) = (Ended (delivery_result httpStatus), ?final)"
  proof (cases "wa_status att")
    case PENDING
    have "?s (ClaimPending ?c, w) = (Signing ?c, ?w ?fP)"
      using assms(5,6) five PENDING by (simp add: claimFromPending_def up claim_step_def)
    then show ?thesis using end4 [of ?fP] by (simp only: funpow_ten 1 delivery_step.simps(11) simp_thms)
  next
    case FAILED
    have 2: "?s (ClaimPending ?c, w) = (ClaimFailedRetry ?c (staleSendingBefore (da_now a)), w)"
      using assms(5,6) FAILED by (simp add: claimFromPending_def up claim_step_def)
    have "?s (ClaimFailedRetry ?c b, w) = (Signing ?c, ?w ?fF)" for b
      using assms(5,6,8) five FAILED by (simp add: reclaimFailedRetry_def up claim_step_def claimable_delivery_def)
    then show ?thesis using end4 [of ?fF] by (simp only: funpow_ten 1 2 delivery_step.simps(11) simp_thms)
  next
    case SENDING
    have 2: "?s (ClaimPending ?c, w) = (ClaimFailedRetry ?c (staleSendingBefore (da_now a)), w)"
      using assms(5,6) SENDING by (simp add: claimFromPending_def up claim_step_def)
    have 3: "?s (ClaimFailedRetry ?c b, w) = (ClaimStale ?c b, w)" for b
      using assms(5,6) SENDING by (simp add: reclaimFailedRetry_def up claim_step_def)
    have "?s (ClaimStale ?c (staleSendingBefore (da_now a)), w) = (Signing ?c, ?w ?fP)"
      using assms(5,6,8) five SENDING by (simp add: reclaimStaleSending_def up claim_step_def claimable_delivery_def split: option.splits)
    then show ?thesis using end4 [of ?fP] by (simp only: funpow_ten 1 2 3 delivery_step.simps(11) simp_thms)
  next
    case SENT
    then show ?thesis using assms(8) by (simp add: claimable_delivery_def)
  qed
  then show ?thesis using assms(1) by (simp add: processWebhookDeliveryAttempt_def)
qed

section \<open>Every interleaving\<close>

record DeliverySystem =
  ds_world :: DeliveryWorld
  ds_workers :: "nat \<Rightarrow> (DeliveryJob \<times> nat \<times> DeliveryPhase) option"

text \<open>Requests change the webhooks at any time (\<open>request\<close> allows any change of that table), events add attempts, jobs start, run one
  statement or call at a time, and crash.\<close>

inductive delivery_system :: "DeliveryEnv \<Rightarrow> DeliverySystem \<Rightarrow> bool" for env where
  start: "delivery_system env \<lparr>ds_world = \<lparr>dw_db = d, dw_posts = []\<rparr>, ds_workers = Map.empty\<rparr>"
| request: "delivery_system env s \<Longrightarrow>
    delivery_system env (s\<lparr>ds_world := (ds_world s)\<lparr>dw_db := (dw_db (ds_world s))\<lparr>nd_webhooks := whs\<rparr>\<rparr>\<rparr>)"
| event: "delivery_system env s \<Longrightarrow>
    delivery_system env (s\<lparr>ds_world := (ds_world s)\<lparr>dw_db := snd (createPendingWebhookDeliveryAttempt dbNow i publicId webhookId eventType payload (dw_db (ds_world s)))\<rparr>\<rparr>)"
| enqueue_failed: "delivery_system env s \<Longrightarrow>
    delivery_system env (s\<lparr>ds_world := (ds_world s)\<lparr>dw_db := markDeliveryAttemptEnqueueFailed i (dw_db (ds_world s))\<rparr>\<rparr>)"
| job: "delivery_system env s \<Longrightarrow> de_organization env (dj_organizationPublicId j) = Some org \<Longrightarrow>
    delivery_system env (s\<lparr>ds_workers := (ds_workers s)(k \<mapsto> (j, org, Loading))\<rparr>)"
| work: "delivery_system env s \<Longrightarrow> ds_workers s k = Some (j, org, ph) \<Longrightarrow> delivery_step env j org a (ph, ds_world s) = (ph', w) \<Longrightarrow>
    delivery_system env (s\<lparr>ds_world := w, ds_workers := (ds_workers s)(k \<mapsto> (j, org, ph'))\<rparr>)"
| crash: "delivery_system env s \<Longrightarrow> delivery_system env (s\<lparr>ds_workers := (ds_workers s)(k := None)\<rparr>)"

text \<open>What of an attempt never changes.\<close>

definition attempt_message :: "DeliveryAttempt \<Rightarrow> string \<times> string \<times> string" where
  "attempt_message a = (wa_public_id a, wa_payload a, wa_event_type a)"

definition messages :: "NotifyDb \<Rightarrow> (string \<times> string \<times> string) set" where
  "messages d = attempt_message ` set (nd_attempts d)"

definition context_message :: "WebhookDeliveryAttemptWithWebhook \<Rightarrow> string \<times> string \<times> string" where
  "context_message c = (dc_deliveryAttemptPublicId c, dc_payload c, dc_eventType c)"

definition signed_with_a_secret :: "DeliveryEnv \<Rightarrow> string \<Rightarrow> string \<Rightarrow> string \<Rightarrow> bool" where
  "signed_with_a_secret env signature body timestamp \<longleftrightarrow>
     (\<exists>secret ts. secret \<noteq> [] \<and> timestamp = dec ts \<and> signature = signature_header env secret body ts)"

definition safe_post :: "DeliveryEnv \<Rightarrow> NotifyDb \<Rightarrow> WebhookPost \<Rightarrow> bool" where
  "safe_post env d q \<longleftrightarrow> \<not> isUnsafeIpLiteral (de_guard env) (wp_address q) \<and> wp_port q = 443 \<and> assertWebhookHostAllowed (de_guard env) (wp_hostname q) = None \<and>
     signed_with_a_secret env (wp_signature q) (wp_body q) (wp_timestamp q) \<and> (wp_delivery_id q, wp_body q, wp_event q) \<in> messages d"

fun delivery_phase_ok :: "DeliveryEnv \<Rightarrow> NotifyDb \<Rightarrow> DeliveryPhase \<Rightarrow> bool" where
  "delivery_phase_ok env d (ClaimPending c) \<longleftrightarrow> context_message c \<in> messages d"
| "delivery_phase_ok env d (ClaimFailedRetry c _) \<longleftrightarrow> context_message c \<in> messages d"
| "delivery_phase_ok env d (ClaimStale c _) \<longleftrightarrow> context_message c \<in> messages d"
| "delivery_phase_ok env d (Signing c) \<longleftrightarrow> context_message c \<in> messages d"
| "delivery_phase_ok env d (Pinning c ts signature previous) \<longleftrightarrow> context_message c \<in> messages d \<and> signed_with_a_secret env signature (dc_payload c) (dec ts)"
| "delivery_phase_ok env d (Posting q) \<longleftrightarrow> safe_post env d q"
| "delivery_phase_ok env d _ \<longleftrightarrow> True"

definition delivery_inv :: "DeliveryEnv \<Rightarrow> DeliverySystem \<Rightarrow> bool" where
  "delivery_inv env s \<longleftrightarrow> (\<forall>q \<in> set (dw_posts (ds_world s)). safe_post env (dw_db (ds_world s)) q) \<and>
     (\<forall>k j org ph. ds_workers s k = Some (j, org, ph) \<longrightarrow> delivery_phase_ok env (dw_db (ds_world s)) ph)"

lemma messages_mono:
  assumes "messages d \<subseteq> messages d'"
  shows "safe_post env d q \<Longrightarrow> safe_post env d' q" and "delivery_phase_ok env d ph \<Longrightarrow> delivery_phase_ok env d' ph"
  using assms by (auto simp: safe_post_def) (cases ph; auto simp: safe_post_def)

lemma messages_webhooks [simp]: "messages (d\<lparr>nd_webhooks := whs\<rparr>) = messages d"
  by (simp add: messages_def)

lemma messages_rows:
  assumes "\<And>a. attempt_message (f a) = attempt_message a"
  shows "messages (d\<lparr>nd_attempts := update_where p f (nd_attempts d)\<rparr>) = messages d"
proof -
  have "(\<lambda>a. attempt_message (if p a then f a else a)) = attempt_message" using assms by auto
  then have "map attempt_message (update_where p f t) = map attempt_message t" for t by (simp add: update_where_def comp_def)
  then show ?thesis unfolding messages_def set_map [symmetric] by simp
qed

lemma messages_update: "(\<And>a. attempt_message (f a) = attempt_message a) \<Longrightarrow> messages (snd (update_attempt i org p f d)) = messages d"
  by (simp add: update_attempt_def Let_def messages_rows)

lemma statements_keep_messages:
  "messages (snd (claimFromPending now i org n d)) = messages d" "messages (snd (reclaimFailedRetry now i org n d)) = messages d"
  "messages (snd (reclaimStaleSending now before i org n d)) = messages d" "messages (recordOutcome i org out d) = messages d"
  unfolding claimFromPending_def reclaimFailedRetry_def reclaimStaleSending_def recordOutcome_def
  by (rule messages_update; simp add: attempt_message_def)+

lemma loaded_message: "findWebhookDeliveryAttemptWithWebhook i org d = Some c \<Longrightarrow> context_message c \<in> messages d"
  by (auto simp: findWebhookDeliveryAttemptWithWebhook_def messages_def context_message_def delivery_context_def attempt_message_def image_iff
      split: option.splits dest!: select_first_Some_iff)

lemma step_keeps_messages:
  assumes "delivery_step env j org a (ph, w) = (ph', w')"
  shows "messages (dw_db w') = messages (dw_db w)"
  using assms
  by (cases ph)
    (auto simp: claim_step_def Let_def statements_keep_messages split: if_splits option.splits sum.splits EndpointReply.splits)

lemma step_phase_ok:
  assumes "delivery_step env j org a (ph, w) = (ph', w')" and "delivery_phase_ok env (dw_db w) ph"
  shows "delivery_phase_ok env (dw_db w) ph' \<and> (\<forall>q \<in> set (dw_posts w'). q \<in> set (dw_posts w) \<or> safe_post env (dw_db w) q)"
proof (cases ph)
  case (Signing c)
  then show ?thesis using assms
    by (auto simp: Let_def signed_with_a_secret_def split: option.splits if_splits)
next
  case (Pinning c ts signature previous)
  show ?thesis
  proof (cases "resolveAndPinWebhookUrl (de_guard env) (da_dns a) (dc_webhookUrl c)")
    case (Inr pin)
    from pinned_is_safe [OF Inr] assms(2) Pinning have "safe_post env (dw_db w) (buildWebhookRequest pin c ts signature previous)"
      by (simp add: safe_post_def buildWebhookRequest_def context_message_def)
    then show ?thesis using assms(1) Pinning Inr by auto
  qed (use assms(1) Pinning in auto)
next
  case (Posting q)
  then show ?thesis using assms by (auto simp: Let_def split: EndpointReply.splits if_splits)
qed (use assms loaded_message in \<open>auto simp: claim_step_def Let_def split: if_splits option.splits\<close>)

lemma delivery_system_inv: "delivery_system env s \<Longrightarrow> delivery_inv env s"
proof (induction rule: delivery_system.induct)
  case (start d)
  show ?case by (simp add: delivery_inv_def)
next
  case (request s whs)
  then show ?case using messages_mono [of "dw_db (ds_world s)" "(dw_db (ds_world s))\<lparr>nd_webhooks := whs\<rparr>"] by (auto simp: delivery_inv_def)
next
  case (event s dbNow i publicId webhookId eventType payload)
  let ?d = "snd (createPendingWebhookDeliveryAttempt dbNow i publicId webhookId eventType payload (dw_db (ds_world s)))"
  have "messages (dw_db (ds_world s)) \<subseteq> messages ?d" by (auto simp: createPendingWebhookDeliveryAttempt_def messages_def)
  from messages_mono [OF this] event(2) show ?case by (auto simp: delivery_inv_def)
next
  case (enqueue_failed s i)
  have "messages (markDeliveryAttemptEnqueueFailed i (dw_db (ds_world s))) = messages (dw_db (ds_world s))"
    by (simp add: markDeliveryAttemptEnqueueFailed_def messages_rows attempt_message_def)
  then show ?case using enqueue_failed(2) messages_mono [of "dw_db (ds_world s)" "markDeliveryAttemptEnqueueFailed i (dw_db (ds_world s))"]
    by (auto simp: delivery_inv_def)
next
  case (job s j org k)
  then show ?case by (auto simp: delivery_inv_def)
next
  case (work s k j org ph a ph' w)
  from work(2,4) have "delivery_phase_ok env (dw_db (ds_world s)) ph" by (auto simp: delivery_inv_def)
  note ok = step_phase_ok [OF work(3) this]
  have "messages (dw_db (ds_world s)) \<subseteq> messages (dw_db w)" using step_keeps_messages [OF work(3)] by simp
  note mono = messages_mono [OF this]
  have "\<forall>q \<in> set (dw_posts w). safe_post env (dw_db w) q" using ok work(4) mono(1) by (auto simp: delivery_inv_def)
  moreover have "delivery_phase_ok env (dw_db w) x" if "((ds_workers s)(k \<mapsto> (j, org, ph'))) k' = Some (j', org', x)" for k' j' org' x
    using that ok work(4) mono(2) by (auto simp: delivery_inv_def split: if_splits)
  ultimately show ?case unfolding delivery_inv_def by auto
next
  case (crash s k)
  then show ?case by (auto simp: delivery_inv_def split: if_splits)
qed

text \<open>C13 However configuration requests, events, jobs and crashes interleave, every POST that leaves goes to an address outside the blocked
  ranges, at port 443 of a host the allowlist admits, carries the payload, event type and delivery id of one recorded attempt, and is signed
  with a non-empty secret over that payload and its timestamp.\<close>

theorem webhook_posts_are_safe:
  assumes "delivery_system env s" and "q \<in> set (dw_posts (ds_world s))"
  shows "\<not> isUnsafeIpLiteral (de_guard env) (wp_address q) \<and> wp_port q = 443 \<and> assertWebhookHostAllowed (de_guard env) (wp_hostname q) = None \<and>
    (\<exists>secret ts. secret \<noteq> [] \<and> wp_timestamp q = dec ts \<and> wp_signature q = signature_header env secret (wp_body q) ts) \<and>
    (\<exists>a \<in> set (nd_attempts (dw_db (ds_world s))). wp_delivery_id q = wa_public_id a \<and> wp_body q = wa_payload a \<and> wp_event q = wa_event_type a)"
proof -
  have "safe_post env (dw_db (ds_world s)) q" using delivery_system_inv [OF assms(1)] assms(2) by (simp add: delivery_inv_def)
  then show ?thesis by (auto simp: safe_post_def signed_with_a_secret_def messages_def attempt_message_def)
qed

section \<open>The theorems at work\<close>

definition demo_delivery_env :: DeliveryEnv where
  "demo_delivery_env = \<lparr>de_guard = demo_guard, de_keys = demo_keys, de_overlap_hours = 24, de_hmac = (\<lambda>secret message. secret @ message), de_organization = (\<lambda>_. Some 1)\<rparr>"

definition demo_attempt :: DeliveryAttempt where
  "demo_attempt = \<lparr>wa_id = 7, wa_public_id = ''d7'', wa_webhook_id = 1, wa_event_type = ''e'', wa_event_key = None, wa_payload = ''{}'', wa_status = PENDING,
     wa_http_status_code = None, wa_response_body = None, wa_sent_at = None, wa_attempt_count = 0, wa_next_retry_at = None, wa_created_at = 0\<rparr>"

definition demo_delivery_world :: "DeliveryAttempt \<Rightarrow> DeliveryWorld" where
  "demo_delivery_world a = \<lparr>dw_db = \<lparr>nd_webhooks = [demo_rotated], nd_attempts = [a]\<rparr>, dw_posts = []\<rparr>"

definition demo_delivery :: "nat \<Rightarrow> DeliveryJob" where
  "demo_delivery n = \<lparr>dj_deliveryAttemptId = 7, dj_organizationPublicId = ''o'', dj_attemptsMade = n\<rparr>"

definition demo_endpoint :: "nat \<Rightarrow> DeliveryAnswer" where
  "demo_endpoint httpStatus = \<lparr>da_now = 6000, da_ok = True, da_dns = (\<lambda>_. Some [''a'']), da_reply = Response httpStatus (Some [''ok''])\<rparr>"

definition demo_pinned :: PinnedWebhookResolution where
  "demo_pinned = \<lparr>pw_hostname = ''h'', pw_address = ''a'', pw_port = 443\<rparr>"

lemma demo_pins: "resolveAndPinWebhookUrl (de_guard demo_delivery_env) (da_dns (demo_endpoint n)) (wh_url demo_rotated) = Inr demo_pinned"
  using demo_pin by (simp add: demo_delivery_env_def demo_endpoint_def demo_rotated_def demo_webhook_def demo_pinned_def)

lemma demo_decrypts: "decryptFieldSecret (de_keys demo_delivery_env) (wh_encrypted_secret demo_rotated) = Some (replicate 16 CHR ''n'')"
  using field_secret_roundtrip [OF demo_gcm, of "replicate 12 CHR ''i''" "replicate 16 CHR ''n''"]
  by (simp add: demo_delivery_env_def demo_rotated_def demo_draw_def AES_GCM_IV_LENGTH_def)

lemma demo_attempt_of: "wa_webhook_id a = 1 \<Longrightarrow> attempt_of (dw_db (demo_delivery_world a)) 1 a demo_rotated"
  by (simp add: attempt_of_def demo_delivery_world_def demo_rotated_def demo_webhook_def)

lemma demo_webhook_live: "wh_is_enabled demo_rotated" "wh_deleted_at demo_rotated = None" "wh_id demo_rotated = 1" "wh_organization_id demo_rotated = 1"
  by (simp_all add: demo_rotated_def demo_webhook_def)

theorem delivery_job_posts_once_witness:
  "fst (processWebhookDeliveryAttempt demo_delivery_env (demo_delivery 0) (demo_endpoint 200) (demo_delivery_world demo_attempt)) = DeliveredWith 200"
proof -
  have "processWebhookDeliveryAttempt demo_delivery_env (demo_delivery 0) (demo_endpoint 200) (demo_delivery_world demo_attempt) = (delivery_result 200,
      (demo_delivery_world demo_attempt)\<lparr>dw_posts := dw_posts (demo_delivery_world demo_attempt) @
          [signed_request demo_delivery_env (da_now (demo_endpoint 200)) demo_pinned (delivery_context demo_attempt demo_rotated) (replicate 16 CHR ''n'')],
        dw_db := (dw_db (demo_delivery_world demo_attempt))\<lparr>nd_attempts := update_where (\<lambda>x. wa_id x = wa_id demo_attempt)
          (\<lambda>x. recorded (delivery_outcome (da_now (demo_endpoint 200)) (dj_attemptsMade (demo_delivery 0)) 200 (Some [''ok'']))
            (x\<lparr>wa_attempt_count := dj_attemptsMade (demo_delivery 0) + 1, wa_sent_at := Some (da_now (demo_endpoint 200))\<rparr>)) (nd_attempts (dw_db (demo_delivery_world demo_attempt)))\<rparr>\<rparr>)"
    by (rule delivery_job_posts_once [OF _ demo_attempt_of demo_webhook_live(1,2) _ _ _ _ demo_decrypts _ demo_pins])
      (simp_all add: demo_delivery_env_def demo_attempt_def demo_delivery_def demo_endpoint_def WEBHOOK_DELIVERY_JOB_ATTEMPTS_def claimable_delivery_def)
  then show ?thesis by (simp add: delivery_result_def)
qed

text \<open>A replay from the dead-letter queue, and a restart one minute after a crash.\<close>

theorem unclaimable_delivery_reports_success_witness:
  "processWebhookDeliveryAttempt demo_delivery_env (demo_delivery 0) (demo_endpoint 200) (demo_delivery_world (demo_attempt\<lparr>wa_status := FAILED, wa_attempt_count := 5\<rparr>)) =
     (NoOp ''in_flight'', demo_delivery_world (demo_attempt\<lparr>wa_status := FAILED, wa_attempt_count := 5\<rparr>)) \<and>
   processWebhookDeliveryAttempt demo_delivery_env (demo_delivery 0) (demo_endpoint 200) (demo_delivery_world (demo_attempt\<lparr>wa_status := SENDING, wa_attempt_count := 1, wa_sent_at := Some (- 54000)\<rparr>)) =
     (NoOp ''in_flight'', demo_delivery_world (demo_attempt\<lparr>wa_status := SENDING, wa_attempt_count := 1, wa_sent_at := Some (- 54000)\<rparr>))"
  (is "?replay \<and> ?restart")
proof
  show ?replay
    by (rule unclaimable_delivery_reports_success [OF _ demo_attempt_of demo_webhook_live(1,2)])
      (simp_all add: demo_delivery_env_def demo_attempt_def demo_delivery_def demo_endpoint_def)
  show ?restart
    by (rule unclaimable_delivery_reports_success [OF _ demo_attempt_of demo_webhook_live(1,2)])
      (simp_all add: demo_delivery_env_def demo_attempt_def demo_delivery_def demo_endpoint_def staleSendingBefore_def
        WEBHOOK_DELIVERY_STUCK_SENDING_LEASE_MINUTES_def MILLISECONDS_PER_MINUTE_def)
qed

lemma funpow_six: "(f ^^ 6) x = f (f (f (f (f (f x)))))"
  by (simp add: eval_nat_numeral)

lemma steps_reachable:
  "delivery_system env s \<Longrightarrow> ds_workers s k = Some (j, org, ph) \<Longrightarrow> (delivery_step env j org a ^^ n) (ph, ds_world s) = (ph', w) \<Longrightarrow>
   delivery_system env (s\<lparr>ds_world := w, ds_workers := (ds_workers s)(k \<mapsto> (j, org, ph'))\<rparr>)"
proof (induction n arbitrary: ph' w)
  case (Suc n)
  obtain ph1 w1 where 1: "(delivery_step env j org a ^^ n) (ph, ds_world s) = (ph1, w1)" by fastforce
  have "delivery_step env j org a (ph1, w1) = (ph', w)" using Suc(4) 1 by simp
  then show ?case using work [OF Suc(1) [OF Suc(2,3) 1], of k j org ph1 a ph' w] by (simp del: fun_upd_apply add: fun_upd_same)
qed (simp add: fun_upd_idem)

definition demo_posted :: WebhookPost where
  "demo_posted = signed_request demo_delivery_env 6000 demo_pinned (delivery_context demo_attempt demo_rotated) (replicate 16 CHR ''n'')"

lemma demo_posts: "\<exists>s. delivery_system demo_delivery_env s \<and> dw_posts (ds_world s) = [demo_posted]"
proof -
  let ?s = "\<lparr>ds_world = demo_delivery_world demo_attempt, ds_workers = [0 \<mapsto> (demo_delivery 0, 1, Loading)]\<rparr>"
  let ?f = "\<lambda>x. x\<lparr>wa_status := SENDING, wa_attempt_count := 1, wa_sent_at := Some 6000\<rparr>"
  let ?w = "(demo_delivery_world demo_attempt)\<lparr>dw_db := (dw_db (demo_delivery_world demo_attempt))\<lparr>nd_attempts := [?f demo_attempt]\<rparr>\<rparr>"
  have "delivery_system demo_delivery_env ?s"
    using job [OF start, of demo_delivery_env "demo_delivery 0" 1 _ 0] by (simp add: demo_delivery_world_def demo_delivery_env_def)
  note reach = steps_reachable [OF this, where k = 0 and j = "demo_delivery 0" and org = 1 and ph = Loading and a = "demo_endpoint 200"]
  have at: "attempt_of (dw_db (demo_delivery_world demo_attempt)) 1 demo_attempt demo_rotated" by (rule demo_attempt_of) (simp add: demo_attempt_def)
  have "delivery_step demo_delivery_env (demo_delivery 0) 1 (demo_endpoint 200) (Loading, demo_delivery_world demo_attempt) =
      (ClaimPending (delivery_context demo_attempt demo_rotated), demo_delivery_world demo_attempt)"
    using context_found [OF at] demo_webhook_live by (simp add: demo_delivery_def demo_attempt_def demo_endpoint_def delivery_context_def)
  moreover have "delivery_step demo_delivery_env (demo_delivery 0) 1 (demo_endpoint 200) (ClaimPending (delivery_context demo_attempt demo_rotated), demo_delivery_world demo_attempt) =
      (Signing (delivery_context demo_attempt demo_rotated), ?w)"
    using update_attempt_unique [OF at] by (simp add: claimFromPending_def claim_step_def demo_delivery_def demo_attempt_def demo_endpoint_def demo_delivery_world_def)
  moreover have "dw_posts (snd (delivery_step demo_delivery_env (demo_delivery 0) 1 (demo_endpoint 200) (delivery_step demo_delivery_env (demo_delivery 0) 1 (demo_endpoint 200)
      (delivery_step demo_delivery_env (demo_delivery 0) 1 (demo_endpoint 200) (delivery_step demo_delivery_env (demo_delivery 0) 1 (demo_endpoint 200)
        (Signing (delivery_context demo_attempt demo_rotated), ?w)))))) = [demo_posted]"
  proof -
    have "attempt_of (dw_db ?w) 1 (?f demo_attempt) demo_rotated" using at by (simp add: attempt_of_def demo_delivery_world_def)
    from deliver_claimed [OF this, of "demo_delivery 0" "demo_endpoint 200" demo_delivery_env "delivery_context demo_attempt demo_rotated" "replicate 16 CHR ''n''" demo_pinned 200]
    show ?thesis using demo_decrypts demo_pins
      by (simp add: demo_delivery_def demo_endpoint_def demo_attempt_def delivery_context_def demo_delivery_world_def demo_posted_def)
  qed
  ultimately have "dw_posts (snd ((delivery_step demo_delivery_env (demo_delivery 0) 1 (demo_endpoint 200) ^^ 6) (Loading, demo_delivery_world demo_attempt))) = [demo_posted]"
    by (simp only: funpow_six)
  moreover obtain ph w where run: "(delivery_step demo_delivery_env (demo_delivery 0) 1 (demo_endpoint 200) ^^ 6) (Loading, demo_delivery_world demo_attempt) = (ph, w)" by fastforce
  ultimately have "dw_posts w = [demo_posted]" by simp
  with reach [of 6 ph w] run show ?thesis by (intro exI conjI) (auto simp del: fun_upd_apply simp: fun_upd_same)
qed

theorem webhook_posts_are_safe_witness: "wp_port demo_posted = 443 \<and> \<not> isUnsafeIpLiteral demo_guard (wp_address demo_posted)"
proof -
  obtain s where "delivery_system demo_delivery_env s" "dw_posts (ds_world s) = [demo_posted]" using demo_posts by blast
  then show ?thesis using webhook_posts_are_safe [of demo_delivery_env s demo_posted] by (simp add: demo_delivery_env_def)
qed

end
