(* ===== verification/Circuit_Breaker.thy ===== *)
theory Circuit_Breaker
  imports Prelude
begin

text \<open>
  The circuit breaker around the external providers, \<^verbatim>\<open>src/src/infrastructure/resilience/\<close>:
  the shared state machine as the Lua script \<^verbatim>\<open>circuit-mutate.lua\<close> runs it inside Redis, the
  in-process copy \<^verbatim>\<open>applyLocalMutation\<close> that replaces it while Redis is down, and
  \<^verbatim>\<open>CircuitBreaker.execute\<close>.  Shown: the two implementations of the machine agree (the fall-back
  is a refinement of the shared one), the half-open budget is an invariant of every reachable
  state, an open circuit fails fast, and the circuit trips after exactly the threshold of
  consecutive failures.  Logging and Sentry reports are not modelled.
\<close>

section \<open>State\<close>

datatype CircuitState = CLOSED | OPEN | HALF_OPEN

record CircuitStateData =
  state :: "CircuitState option"   \<comment> \<open>\<^const>\<open>None\<close> is \<^verbatim>\<open>undefined\<close>\<close>
  failures :: int
  lastFailureTime :: millis
  halfOpenAttempts :: int

definition DEFAULT_STATE :: CircuitStateData where
  "DEFAULT_STATE = \<lparr>state = Some CLOSED, failures = 0, lastFailureTime = 0, halfOpenAttempts = 0\<rparr>"

datatype CircuitMutateCommand = record_success | record_failure | attempt_half_open | force_open

record CircuitBreakerOptions =
  failureThreshold :: int
  resetTimeoutMs :: millis
  maxHalfOpenAttempts :: int

text \<open>The JSON object under the circuit's Redis key; a missing field is \<^const>\<open>None\<close>.\<close>

record CircuitJson =
  json_state :: "CircuitState option"
  json_failures :: "int option"
  json_lastFailureTime :: "millis option"
  json_halfOpenAttempts :: "int option"

definition encode_state :: "CircuitStateData \<Rightarrow> CircuitJson" where
  "encode_state d = \<lparr>json_state = state d, json_failures = Some (failures d),
     json_lastFailureTime = Some (lastFailureTime d), json_halfOpenAttempts = Some (halfOpenAttempts d)\<rparr>"

definition or_default :: "'a option \<Rightarrow> 'a \<Rightarrow> 'a" where
  "or_default o1 d = (case o1 of Some x \<Rightarrow> x | None \<Rightarrow> d)"

text \<open>\<^verbatim>\<open>deserializeState\<close>: a missing \<^verbatim>\<open>state\<close> stays \<^verbatim>\<open>undefined\<close>, the counters default to 0.\<close>

definition deserializeState :: "CircuitJson \<Rightarrow> CircuitStateData" where
  "deserializeState j = \<lparr>state = json_state j, failures = or_default (json_failures j) 0,
     lastFailureTime = or_default (json_lastFailureTime j) 0,
     halfOpenAttempts = or_default (json_halfOpenAttempts j) 0\<rparr>"

section \<open>Transitions\<close>

text \<open>\<^verbatim>\<open>applyLocalMutation\<close>, the new \<^verbatim>\<open>localState\<close> (which it also returns).\<close>

fun applyLocalMutation ::
    "CircuitBreakerOptions \<Rightarrow> millis \<Rightarrow> CircuitMutateCommand \<Rightarrow> CircuitStateData \<Rightarrow> CircuitStateData" where
  "applyLocalMutation cfg now record_success previous = DEFAULT_STATE"
| "applyLocalMutation cfg now record_failure previous =
     (let nextFailures = failures previous + 1;
          nextHalfOpen = (if state previous = Some HALF_OPEN then halfOpenAttempts previous + 1 else 0);
          nextState = (if nextFailures \<ge> failureThreshold cfg \<or>
                          (state previous = Some HALF_OPEN \<and> nextHalfOpen \<ge> maxHalfOpenAttempts cfg)
                       then Some OPEN else state previous)
      in \<lparr>state = nextState, failures = nextFailures, lastFailureTime = now,
          halfOpenAttempts = nextHalfOpen\<rparr>)"
| "applyLocalMutation cfg now attempt_half_open previous =
     (if state previous \<noteq> Some OPEN then previous
      else if now - lastFailureTime previous < resetTimeoutMs cfg then previous
      else \<lparr>state = Some HALF_OPEN, failures = 0, lastFailureTime = lastFailureTime previous,
            halfOpenAttempts = 0\<rparr>)"
| "applyLocalMutation cfg now force_open previous =
     \<lparr>state = Some OPEN, failures = failures previous, lastFailureTime = lastFailureTime previous,
      halfOpenAttempts = halfOpenAttempts previous\<rparr>"

text \<open>The Lua script: its reply and, when it writes, the JSON it stores; \<^verbatim>\<open>write\<close> sets it with
  \<^verbatim>\<open>EX 3600\<close>.\<close>

definition CIRCUIT_KEY_TTL :: millis where
  "CIRCUIT_KEY_TTL = 3600 * 1000"

definition lua_state :: "CircuitJson option \<Rightarrow> CircuitJson" where
  "lua_state raw = (case raw of None \<Rightarrow> encode_state DEFAULT_STATE
     | Some j \<Rightarrow> (if json_state j = None then encode_state DEFAULT_STATE else j))"

fun circuit_mutate ::
    "CircuitBreakerOptions \<Rightarrow> millis \<Rightarrow> CircuitMutateCommand \<Rightarrow> CircuitJson option
      \<Rightarrow> CircuitJson \<times> CircuitJson option" where
  "circuit_mutate cfg now record_success raw =
     (let next = encode_state DEFAULT_STATE in (next, Some next))"
| "circuit_mutate cfg now record_failure raw =
     (let st = lua_state raw;
          next_failures = or_default (json_failures st) 0 + 1;
          next_half_open_attempts =
            (if json_state st = Some HALF_OPEN then or_default (json_halfOpenAttempts st) 0 + 1 else 0);
          next_state =
            (if next_failures \<ge> failureThreshold cfg then OPEN
             else if json_state st = Some HALF_OPEN \<and> next_half_open_attempts \<ge> maxHalfOpenAttempts cfg
             then OPEN else or_default (json_state st) CLOSED);
          next = \<lparr>json_state = Some next_state, json_failures = Some next_failures,
                  json_lastFailureTime = Some now, json_halfOpenAttempts = Some next_half_open_attempts\<rparr>
      in (next, Some next))"
| "circuit_mutate cfg now attempt_half_open raw =
     (let st = lua_state raw in
      if json_state st \<noteq> Some OPEN then (st, None)
      else if now - or_default (json_lastFailureTime st) 0 < resetTimeoutMs cfg then (st, None)
      else let next = \<lparr>json_state = Some HALF_OPEN, json_failures = Some 0,
                       json_lastFailureTime = Some (or_default (json_lastFailureTime st) 0),
                       json_halfOpenAttempts = Some 0\<rparr>
           in (next, Some next))"
| "circuit_mutate cfg now force_open raw =
     (let st = lua_state raw;
          next = \<lparr>json_state = Some OPEN, json_failures = Some (or_default (json_failures st) 0),
                  json_lastFailureTime = Some (or_default (json_lastFailureTime st) now),
                  json_halfOpenAttempts = Some (or_default (json_halfOpenAttempts st) 0)\<rparr>
      in (next, Some next))"

section \<open>The breaker\<close>

text \<open>An instance holds \<^verbatim>\<open>localState\<close>; the circuit's Redis key is shared by every instance.\<close>

type_synonym circuit_key = "(CircuitJson \<times> millis) option"

record Breaker =
  localState :: CircuitStateData
  redisKey :: circuit_key   \<comment> \<open>the JSON and the instant it expires\<close>

text \<open>What a \<^verbatim>\<open>GET\<close> of the key answers: nothing once its time to live has run out.\<close>

definition live_raw :: "millis \<Rightarrow> circuit_key \<Rightarrow> CircuitJson option" where
  "live_raw now key = (case key of None \<Rightarrow> None
     | Some (j, expiry) \<Rightarrow> (if now < expiry then Some j else None))"

definition redis_raw :: "millis \<Rightarrow> Breaker \<Rightarrow> CircuitJson option" where
  "redis_raw now b = live_raw now (redisKey b)"

text \<open>\<^verbatim>\<open>getStateData\<close>: the Redis copy (which also refreshes \<^verbatim>\<open>localState\<close>), else the local one.
  The flag says whether Redis answers (\<^const>\<open>False\<close> also stands for a breaker without Redis).\<close>

definition getStateData :: "bool \<Rightarrow> millis \<Rightarrow> Breaker \<Rightarrow> CircuitStateData \<times> Breaker" where
  "getStateData redis_up now b =
     (if \<not> redis_up then (localState b, b)
      else case redis_raw now b of
        None \<Rightarrow> (localState b, b)
      | Some j \<Rightarrow> (let d = deserializeState j in (d, b\<lparr>localState := d\<rparr>)))"

definition mutateStateInRedis ::
    "CircuitBreakerOptions \<Rightarrow> bool \<Rightarrow> millis \<Rightarrow> CircuitMutateCommand \<Rightarrow> Breaker \<Rightarrow> CircuitStateData \<times> Breaker" where
  "mutateStateInRedis cfg redis_up now cmd b =
     (if \<not> redis_up then
        let d = applyLocalMutation cfg now cmd (localState b) in (d, b\<lparr>localState := d\<rparr>)
      else
        let (reply, written) = circuit_mutate cfg now cmd (redis_raw now b);
            d = deserializeState reply;
            key = (case written of None \<Rightarrow> redisKey b | Some j \<Rightarrow> Some (j, now + CIRCUIT_KEY_TTL))
        in (d, b\<lparr>localState := d, redisKey := key\<rparr>))"

text \<open>What the awaits of one \<^verbatim>\<open>execute\<close> observe: whether Redis answers each command, and the clock
  at each \<^verbatim>\<open>Date.now()\<close>.\<close>

record ExecEnv =
  up_get :: bool
  now_get :: millis
  up_probe :: bool
  now_probe :: millis
  up_force :: bool
  now_force :: millis
  up_record :: bool
  now_record :: millis
  up_reget :: bool
  now_reget :: millis

datatype ('e, 'a) ExecResult =
    Returned 'a
  | OperationFailed 'e
  | CircuitBreakerOpenError millis

text \<open>\<^verbatim>\<open>execute\<close>: the result, whether the operation ran, and the breaker afterwards. The argument
  \<^verbatim>\<open>operation\<close> is what the wrapped call resolves or rejects with.\<close>

definition execute ::
    "CircuitBreakerOptions \<Rightarrow> ExecEnv \<Rightarrow> 'e + 'a \<Rightarrow> Breaker \<Rightarrow> ('e, 'a) ExecResult \<times> bool \<times> Breaker" where
  "execute cfg env operation b0 =
     (let (data0, b1) = getStateData (up_get env) (now_get env) b0;
          elapsed = now_get env - lastFailureTime data0
      in if state data0 = Some OPEN \<and> elapsed < resetTimeoutMs cfg
         then (CircuitBreakerOpenError (max (resetTimeoutMs cfg - elapsed) 1000), False, b1)
         else
         let (data, b2) =
               (if state data0 = Some OPEN
                then mutateStateInRedis cfg (up_probe env) (now_probe env) attempt_half_open b1
                else (data0, b1))
         in if state data = Some HALF_OPEN \<and> halfOpenAttempts data \<ge> maxHalfOpenAttempts cfg
            then let (_, b3) = mutateStateInRedis cfg (up_force env) (now_force env) force_open b2
                 in (CircuitBreakerOpenError
                       (max (resetTimeoutMs cfg - (now_force env - lastFailureTime data)) 1000), False, b3)
            else case operation of
              Inr result \<Rightarrow>
                let (_, b3) = mutateStateInRedis cfg (up_record env) (now_record env) record_success b2
                in (Returned result, True, b3)
            | Inl e \<Rightarrow>
                let (_, b3) = mutateStateInRedis cfg (up_record env) (now_record env) record_failure b2;
                    (_, b4) = getStateData (up_reget env) (now_reget env) b3
                in (OperationFailed e, True, b4))"


section \<open>The half-open budget\<close>

text \<open>While half-open the failed probes stay below the budget, and while closed the failures stay
  below the threshold.\<close>

definition half_open_budget :: "CircuitBreakerOptions \<Rightarrow> CircuitStateData \<Rightarrow> bool" where
  "half_open_budget cfg d \<longleftrightarrow>
     (state d = Some HALF_OPEN \<longrightarrow>
        0 \<le> halfOpenAttempts d \<and> halfOpenAttempts d < maxHalfOpenAttempts cfg \<and>
        failures d = halfOpenAttempts d \<and> failures d < failureThreshold cfg) \<and>
     (state d = Some CLOSED \<longrightarrow> 0 \<le> failures d \<and> failures d < failureThreshold cfg) \<and>
     state d \<noteq> None"

definition sane_options :: "CircuitBreakerOptions \<Rightarrow> bool" where
  "sane_options cfg \<longleftrightarrow> 0 < failureThreshold cfg \<and> 0 < maxHalfOpenAttempts cfg"

lemma half_open_budget_default: "sane_options cfg \<Longrightarrow> half_open_budget cfg DEFAULT_STATE"
  by (simp add: half_open_budget_def DEFAULT_STATE_def sane_options_def)

lemma half_open_budget_step:
  "sane_options cfg \<Longrightarrow> half_open_budget cfg d \<Longrightarrow> half_open_budget cfg (applyLocalMutation cfg now cmd d)"
  by (cases cmd; cases "state d")
    (auto simp: half_open_budget_def Let_def DEFAULT_STATE_def sane_options_def)

section \<open>The shared machine and its fall-back\<close>

text \<open>What a client of the breaker relies on: however the state is stored, a command that finds
  it still stored moves its view as the in-process transition function does.\<close>

locale circuit_store =
  fixes cfg :: CircuitBreakerOptions
    and step :: "millis \<Rightarrow> CircuitMutateCommand \<Rightarrow> 's \<Rightarrow> 's"
    and view :: "'s \<Rightarrow> CircuitStateData"
    and ok :: "'s \<Rightarrow> bool"
    and alive :: "millis \<Rightarrow> 's \<Rightarrow> bool"
  assumes view_step: "ok s \<Longrightarrow> alive now s \<Longrightarrow> view (step now cmd s) = applyLocalMutation cfg now cmd (view s)"
    and ok_step: "ok s \<Longrightarrow> ok (step now cmd s)"
begin

primrec run :: "(millis \<times> CircuitMutateCommand) list \<Rightarrow> 's \<Rightarrow> 's" where
  "run [] s = s"
| "run (c # cs) s = run cs (step (fst c) (snd c) s)"

primrec stays_alive :: "(millis \<times> CircuitMutateCommand) list \<Rightarrow> 's \<Rightarrow> bool" where
  "stays_alive [] s = True"
| "stays_alive (c # cs) s = (alive (fst c) s \<and> stays_alive cs (step (fst c) (snd c) s))"

lemma run_append: "run (cs @ ds) s = run ds (run cs s)"
  by (induction cs arbitrary: s) simp_all

lemma stays_alive_append: "stays_alive (cs @ ds) s = (stays_alive cs s \<and> stays_alive ds (run cs s))"
  by (induction cs arbitrary: s) simp_all

lemma ok_run: "ok s \<Longrightarrow> ok (run cs s)"
  by (induction cs arbitrary: s) (simp_all add: ok_step)

lemma view_run:
  "ok s \<Longrightarrow> stays_alive cs s \<Longrightarrow>
   view (run cs s) = fold (\<lambda>(now, cmd). applyLocalMutation cfg now cmd) cs (view s)"
  by (induction cs arbitrary: s) (simp_all add: view_step ok_step split_def)

lemma budget_run:
  "sane_options cfg \<Longrightarrow> ok s \<Longrightarrow> stays_alive cs s \<Longrightarrow> half_open_budget cfg (view s) \<Longrightarrow>
   half_open_budget cfg (view (run cs s))"
  by (induction cs arbitrary: s) (simp_all add: view_step ok_step half_open_budget_step)

text \<open>A closed circuit under consecutive failures: it opens with the failure that reaches the
  threshold, not before.\<close>

lemma failures_run:
  assumes "ok s" and "stays_alive (map (\<lambda>t. (t, record_failure)) ts) s"
    and "state (view s) = Some CLOSED" and "failures (view s) < failureThreshold cfg"
  shows "failures (view (run (map (\<lambda>t. (t, record_failure)) ts) s)) = failures (view s) + int (length ts) \<and>
         state (view (run (map (\<lambda>t. (t, record_failure)) ts) s)) =
           (if failures (view s) + int (length ts) < failureThreshold cfg then Some CLOSED else Some OPEN)"
  using assms
proof (induction ts rule: rev_induct)
  case (snoc t ts)
  let ?r = "run (map (\<lambda>t. (t, record_failure)) ts) s"
  have okr: "ok ?r" by (rule ok_run) (rule snoc.prems)
  have al: "stays_alive (map (\<lambda>t. (t, record_failure)) ts) s" "alive t ?r"
    using snoc.prems(2) by (simp_all add: stays_alive_append)
  have "view (run (map (\<lambda>t. (t, record_failure)) (ts @ [t])) s) = applyLocalMutation cfg t record_failure (view ?r)"
    by (simp add: run_append view_step [OF okr al(2)])
  then show ?case
    using snoc.IH [OF snoc.prems(1) al(1) snoc.prems(3,4)] snoc.prems(3,4) by (auto simp: Let_def)
qed simp

end

definition shared_step ::
    "CircuitBreakerOptions \<Rightarrow> millis \<Rightarrow> CircuitMutateCommand \<Rightarrow> circuit_key \<Rightarrow> circuit_key" where
  "shared_step cfg now cmd key =
     (case snd (circuit_mutate cfg now cmd (live_raw now key)) of
        None \<Rightarrow> key | Some j \<Rightarrow> Some (j, now + CIRCUIT_KEY_TTL))"

definition shared_view :: "CircuitJson option \<Rightarrow> CircuitStateData" where
  "shared_view raw = deserializeState (lua_state raw)"

definition key_view :: "circuit_key \<Rightarrow> CircuitStateData" where
  "key_view key = shared_view (map_option fst key)"

definition key_alive :: "millis \<Rightarrow> circuit_key \<Rightarrow> bool" where
  "key_alive now key = (case key of None \<Rightarrow> True | Some (_, expiry) \<Rightarrow> now < expiry)"

text \<open>Every JSON object the script has written carries all four fields.\<close>

definition full_json :: "CircuitJson option \<Rightarrow> bool" where
  "full_json raw = (case raw of None \<Rightarrow> True
     | Some j \<Rightarrow> json_state j \<noteq> None \<and> json_failures j \<noteq> None \<and>
                 json_lastFailureTime j \<noteq> None \<and> json_halfOpenAttempts j \<noteq> None)"

definition full_key :: "circuit_key \<Rightarrow> bool" where
  "full_key key = full_json (map_option fst key)"

lemmas circuit_defs =
  lua_state_def encode_state_def deserializeState_def or_default_def DEFAULT_STATE_def

lemma live_raw_alive: "key_alive now key \<Longrightarrow> live_raw now key = map_option fst key"
  by (auto simp: live_raw_def key_alive_def split: option.splits)

lemma live_raw_expired: "\<not> key_alive now key \<Longrightarrow> live_raw now key = None"
  by (auto simp: live_raw_def key_alive_def split: option.splits)

lemma full_json_live_raw: "full_key key \<Longrightarrow> full_json (live_raw now key)"
  by (auto simp: live_raw_def full_key_def full_json_def split: option.splits)

lemma circuit_mutate_reply:
  assumes "full_json raw"
  shows "deserializeState (fst (circuit_mutate cfg now cmd raw)) =
           applyLocalMutation cfg now cmd (shared_view raw)"
  using assms
  by (cases cmd; cases raw)
    (auto simp: Let_def shared_view_def full_json_def circuit_defs split: option.splits)

lemma circuit_mutate_written:
  "snd (circuit_mutate cfg now cmd raw) \<in> {None, Some (fst (circuit_mutate cfg now cmd raw))}"
  by (cases cmd) (auto simp: Let_def)

lemma full_json_written:
  "full_json raw \<Longrightarrow> snd (circuit_mutate cfg now cmd raw) = Some j \<Longrightarrow> full_json (Some j)"
  by (cases cmd; cases raw)
    (auto simp: Let_def full_json_def circuit_defs split: option.splits if_splits)

lemma shared_view_written:
  assumes "full_json raw"
  shows "shared_view (case snd (circuit_mutate cfg now cmd raw) of None \<Rightarrow> raw | Some j \<Rightarrow> Some j) =
           applyLocalMutation cfg now cmd (shared_view raw)"
  using assms
  by (cases cmd; cases raw)
    (auto simp: Let_def shared_view_def full_json_def circuit_defs split: option.splits)

lemma full_key_shared_step: "full_key key \<Longrightarrow> full_key (shared_step cfg now cmd key)"
  using full_json_written [of "live_raw now key" cfg now cmd] full_json_live_raw [of key now]
  by (auto simp: shared_step_def full_key_def split: option.splits)

lemma key_view_step:
  assumes "full_key key" and "key_alive now key"
  shows "key_view (shared_step cfg now cmd key) = applyLocalMutation cfg now cmd (key_view key)"
  using shared_view_written [of "map_option fst key" cfg now cmd] assms
  by (auto simp: key_view_def shared_step_def full_key_def live_raw_alive split: option.splits)

interpretation shared: circuit_store cfg "shared_step cfg" key_view full_key key_alive for cfg
  by unfold_locales (simp_all add: key_view_step full_key_shared_step)

interpretation inprocess: circuit_store cfg "applyLocalMutation cfg" "\<lambda>d. d" "\<lambda>_. True" "\<lambda>_ _. True" for cfg
  by unfold_locales simp_all

text \<open>A sequence of commands given to \<^verbatim>\<open>mutateStateInRedis\<close>, with what each call returns.\<close>

fun mutate_run ::
    "CircuitBreakerOptions \<Rightarrow> bool \<Rightarrow> (millis \<times> CircuitMutateCommand) list \<Rightarrow> Breaker
      \<Rightarrow> CircuitStateData list \<times> Breaker" where
  "mutate_run cfg redis_up [] b = ([], b)"
| "mutate_run cfg redis_up ((now, cmd) # cs) b =
     (let (d, b1) = mutateStateInRedis cfg redis_up now cmd b;
          (ds, b2) = mutate_run cfg redis_up cs b1
      in (d # ds, b2))"

text \<open>No command of the sequence finds the key expired.\<close>

fun key_kept :: "CircuitBreakerOptions \<Rightarrow> (millis \<times> CircuitMutateCommand) list \<Rightarrow> circuit_key \<Rightarrow> bool" where
  "key_kept cfg [] key = True"
| "key_kept cfg ((now, cmd) # cs) key = (key_alive now key \<and> key_kept cfg cs (shared_step cfg now cmd key))"

lemma mutate_in_redis:
  assumes "full_key (redisKey b)"
  shows "mutateStateInRedis cfg True now cmd b =
           (applyLocalMutation cfg now cmd (shared_view (live_raw now (redisKey b))),
            b\<lparr>localState := applyLocalMutation cfg now cmd (shared_view (live_raw now (redisKey b))),
              redisKey := shared_step cfg now cmd (redisKey b)\<rparr>)"
  using circuit_mutate_reply [OF full_json_live_raw [OF assms, of now], of cfg now cmd]
  by (simp add: mutateStateInRedis_def redis_raw_def shared_step_def Let_def split_def split: option.splits)

lemma mutate_in_process:
  "mutateStateInRedis cfg False now cmd b =
     (applyLocalMutation cfg now cmd (localState b),
      b\<lparr>localState := applyLocalMutation cfg now cmd (localState b)\<rparr>)"
  by (simp add: mutateStateInRedis_def Let_def)

text \<open>The simulation: a breaker \<open>c\<close> cut off from Redis mirrors the key a breaker \<open>b\<close> writes.\<close>

definition mirrors :: "Breaker \<Rightarrow> Breaker \<Rightarrow> bool" where
  "mirrors c b \<longleftrightarrow> full_key (redisKey b) \<and> localState c = key_view (redisKey b)"

lemma mirrors_step:
  assumes "mirrors c b" and "key_alive now (redisKey b)"
  shows "fst (mutateStateInRedis cfg True now cmd b) = fst (mutateStateInRedis cfg False now cmd c)"
    and "mirrors (snd (mutateStateInRedis cfg False now cmd c)) (snd (mutateStateInRedis cfg True now cmd b))"
    and "redisKey (snd (mutateStateInRedis cfg True now cmd b)) = shared_step cfg now cmd (redisKey b)"
  using assms key_view_step [of "redisKey b" now cfg cmd] full_key_shared_step [of "redisKey b" cfg now cmd]
  by (simp_all add: mirrors_def mutate_in_redis mutate_in_process live_raw_alive key_view_def)

lemma mirrors_run:
  assumes "mirrors c b" and "key_kept cfg cs (redisKey b)"
  shows "fst (mutate_run cfg True cs b) = fst (mutate_run cfg False cs c) \<and>
         mirrors (snd (mutate_run cfg False cs c)) (snd (mutate_run cfg True cs b))"
  using assms
proof (induction cfg True cs b arbitrary: c rule: mutate_run.induct)
  case (2 cfg now cmd cs b)
  note st = mirrors_step [OF "2.prems"(1), of now cfg cmd]
  have "mirrors (snd (mutate_run cfg False cs (snd (mutateStateInRedis cfg False now cmd c))))
          (snd (mutate_run cfg True cs (snd (mutateStateInRedis cfg True now cmd b)))) \<and>
        fst (mutate_run cfg True cs (snd (mutateStateInRedis cfg True now cmd b))) =
          fst (mutate_run cfg False cs (snd (mutateStateInRedis cfg False now cmd c)))"
    using "2.hyps" [OF refl, of _ "snd (mutateStateInRedis cfg True now cmd b)"] "2.prems" st
    by (metis key_kept.simps(2) prod.collapse)
  then show ?case using st(1) "2.prems"(2) by (simp add: split_def Let_def)
qed simp


section \<open>Correctness of the breaker\<close>

text \<open>Both copies of the state a breaker may read respect the budget.\<close>

definition breaker_ok :: "CircuitBreakerOptions \<Rightarrow> Breaker \<Rightarrow> bool" where
  "breaker_ok cfg b \<longleftrightarrow> half_open_budget cfg (localState b) \<and>
     (case redisKey b of None \<Rightarrow> True
      | Some (j, _) \<Rightarrow> full_json (Some j) \<and> half_open_budget cfg (deserializeState j))"

lemma full_json_redis_raw: "breaker_ok cfg b \<Longrightarrow> full_json (redis_raw now b)"
  by (auto simp: breaker_ok_def redis_raw_def live_raw_def full_json_def split: option.splits prod.splits)

lemma shared_view_redis_raw:
  "sane_options cfg \<Longrightarrow> breaker_ok cfg b \<Longrightarrow> half_open_budget cfg (shared_view (redis_raw now b))"
  by (auto simp: breaker_ok_def redis_raw_def live_raw_def full_json_def shared_view_def lua_state_def half_open_budget_default
      split: option.splits prod.splits)
    (simp_all add: half_open_budget_def circuit_defs sane_options_def)

lemma getStateData_ok:
  assumes "breaker_ok cfg b" and "getStateData up now b = (d, b')"
  shows "breaker_ok cfg b'" and "half_open_budget cfg d"
  using assms
  by (auto simp: getStateData_def breaker_ok_def redis_raw_def live_raw_def Let_def split: if_splits option.splits prod.splits)

lemma mutateStateInRedis_ok:
  assumes "sane_options cfg" and "breaker_ok cfg b" and "mutateStateInRedis cfg up now cmd b = (d, b')"
  shows "breaker_ok cfg b'" and "half_open_budget cfg d"
proof -
  note full = full_json_redis_raw [OF assms(2), of now]
  have reply: "half_open_budget cfg (deserializeState (fst (circuit_mutate cfg now cmd (redis_raw now b))))"
    unfolding circuit_mutate_reply [OF full]
    using assms(1,2) by (intro half_open_budget_step shared_view_redis_raw)
  have written: "full_json (Some j)" if "snd (circuit_mutate cfg now cmd (redis_raw now b)) = Some j" for j
    using full_json_written [OF full that] .
  have same: "j = fst (circuit_mutate cfg now cmd (redis_raw now b))"
    if "snd (circuit_mutate cfg now cmd (redis_raw now b)) = Some j" for j
    using circuit_mutate_written [of cfg now cmd "redis_raw now b"] that by simp
  show "breaker_ok cfg b'" and "half_open_budget cfg d"
    using assms(2,3) reply written same half_open_budget_step [OF assms(1)]
    by (auto simp: mutateStateInRedis_def breaker_ok_def Let_def split: if_splits option.splits prod.splits)
qed


lemma execute_rejection_cases:
  assumes sane: "sane_options cfg" and b: "breaker_ok cfg b"
    and d: "getStateData (up_get env) (now_get env) b = (d, b1)"
  shows "fst (snd (execute cfg env operation b)) \<longleftrightarrow>
           \<not> (state d = Some OPEN \<and> now_get env - lastFailureTime d < resetTimeoutMs cfg)"
    and "\<not> fst (snd (execute cfg env operation b)) \<Longrightarrow>
           execute cfg env operation b =
             (CircuitBreakerOpenError (max (resetTimeoutMs cfg - (now_get env - lastFailureTime d)) 1000), False, b1)"
    and "breaker_ok cfg (snd (snd (execute cfg env operation b)))"
proof -
  note b1 = getStateData_ok [OF b d]
  obtain d2 b2 where p: "mutateStateInRedis cfg (up_probe env) (now_probe env) attempt_half_open b1 = (d2, b2)"
    by fastforce
  note b2 = mutateStateInRedis_ok [OF sane b1(1) p]
  define data where "data = (if state d = Some OPEN then d2 else d)"
  define b' where "b' = (if state d = Some OPEN then b2 else b1)"
  have ok': "breaker_ok cfg b'" and budget: "half_open_budget cfg data"
    using b1 b2 by (auto simp: data_def b'_def)
  have never_forced: "\<not> (state data = Some HALF_OPEN \<and> halfOpenAttempts data \<ge> maxHalfOpenAttempts cfg)"
    using budget by (auto simp: half_open_budget_def)
  have rec: "breaker_ok cfg (snd (mutateStateInRedis cfg up now cmd b'))" for up now cmd
    using mutateStateInRedis_ok(1) [OF sane ok'] by (metis prod.collapse)
  have reget: "breaker_ok cfg (snd (getStateData u n (snd (mutateStateInRedis cfg up now cmd b'))))" for u n up now cmd
    using getStateData_ok(1) [OF rec] by (metis prod.collapse)
  have eq: "execute cfg env operation b =
     (if state d = Some OPEN \<and> now_get env - lastFailureTime d < resetTimeoutMs cfg
      then (CircuitBreakerOpenError (max (resetTimeoutMs cfg - (now_get env - lastFailureTime d)) 1000), False, b1)
      else case operation of
         Inr x \<Rightarrow> (Returned x, True,
            snd (mutateStateInRedis cfg (up_record env) (now_record env) record_success b'))
       | Inl e \<Rightarrow> (OperationFailed e, True,
            snd (getStateData (up_reget env) (now_reget env)
              (snd (mutateStateInRedis cfg (up_record env) (now_record env) record_failure b')))))"
    using never_forced by (auto simp: execute_def d p Let_def data_def b'_def split: sum.splits prod.splits)
  show "fst (snd (execute cfg env operation b)) \<longleftrightarrow>
           \<not> (state d = Some OPEN \<and> now_get env - lastFailureTime d < resetTimeoutMs cfg)"
    unfolding eq by (auto split: sum.splits)
  show "execute cfg env operation b =
       (CircuitBreakerOpenError (max (resetTimeoutMs cfg - (now_get env - lastFailureTime d)) 1000), False, b1)"
    if "\<not> fst (snd (execute cfg env operation b))"
    using that unfolding eq by (auto split: sum.splits if_splits)
  show "breaker_ok cfg (snd (snd (execute cfg env operation b)))"
    unfolding eq using b1 rec reget by (auto split: sum.splits)
qed

text \<open>C40 The in-process transition function is a refinement of the Lua script over every sequence
  of commands. Give the same commands at the same instants to a breaker that reaches Redis and to
  one that does not, whose local copy holds what the circuit's key holds (for a missing key, the
  default state). As long as no command comes after the key has expired (the script stores it for
  3600 seconds), every call returns the same state on both sides, and afterwards the local copy
  again holds what the key holds. A command that does come after the expiry is where they part:
  the shared circuit answers it from the default, closed state.\<close>

theorem circuit_fallback_refines_shared:
  assumes "full_key (redisKey b)" and "localState c = key_view (redisKey b)"
  shows "(key_kept cfg cs (redisKey b) \<longrightarrow>
            fst (mutate_run cfg True cs b) = fst (mutate_run cfg False cs c) \<and>
            full_key (redisKey (snd (mutate_run cfg True cs b))) \<and>
            localState (snd (mutate_run cfg False cs c)) = key_view (redisKey (snd (mutate_run cfg True cs b)))) \<and>
         (\<not> key_alive now (redisKey b) \<longrightarrow>
            fst (mutateStateInRedis cfg True now cmd b) = applyLocalMutation cfg now cmd DEFAULT_STATE)"
  using mirrors_run [of c b cfg cs] assms
  by (auto simp: mirrors_def mutate_in_redis live_raw_expired shared_view_def circuit_defs)

definition stripeOptions :: CircuitBreakerOptions where
  "stripeOptions = \<lparr>failureThreshold = 5, resetTimeoutMs = 30000, maxHalfOpenAttempts = 2\<rparr>"

definition freshBreaker :: Breaker where
  "freshBreaker = \<lparr>localState = DEFAULT_STATE, redisKey = None\<rparr>"

definition five_failures_then_probe :: "(millis \<times> CircuitMutateCommand) list" where
  "five_failures_then_probe =
     [(1000, record_failure), (2000, record_failure), (3000, record_failure), (4000, record_failure),
      (5000, record_failure), (40000, attempt_half_open)]"

text \<open>Five failures open the circuit and a probe after the reset timeout half-opens it, on both
  sides; a probe two hours later finds the shared circuit closed.\<close>

theorem circuit_fallback_refines_shared_witness:
  "map state (fst (mutate_run stripeOptions False five_failures_then_probe freshBreaker)) =
     [Some CLOSED, Some CLOSED, Some CLOSED, Some CLOSED, Some OPEN, Some HALF_OPEN] \<and>
   fst (mutate_run stripeOptions True five_failures_then_probe freshBreaker) =
     fst (mutate_run stripeOptions False five_failures_then_probe freshBreaker) \<and>
   state (fst (mutateStateInRedis stripeOptions True 7200000 attempt_half_open
     (freshBreaker\<lparr>redisKey := Some (encode_state
        \<lparr>state = Some OPEN, failures = 5, lastFailureTime = 5000, halfOpenAttempts = 0\<rparr>, 3605000)\<rparr>))) = Some CLOSED"
proof -
  have start: "full_key (redisKey freshBreaker)" "localState freshBreaker = key_view (redisKey freshBreaker)"
    by (simp_all add: full_key_def full_json_def freshBreaker_def key_view_def shared_view_def circuit_defs)
  have kept: "key_kept stripeOptions five_failures_then_probe (redisKey freshBreaker)"
    by (simp add: five_failures_then_probe_def key_alive_def shared_step_def live_raw_def freshBreaker_def
        stripeOptions_def circuit_defs CIRCUIT_KEY_TTL_def Let_def)
  have local: "map state (fst (mutate_run stripeOptions False five_failures_then_probe freshBreaker)) =
     [Some CLOSED, Some CLOSED, Some CLOSED, Some CLOSED, Some OPEN, Some HALF_OPEN]"
    by (simp add: five_failures_then_probe_def mutate_in_process freshBreaker_def stripeOptions_def
        DEFAULT_STATE_def Let_def)
  let ?d = "\<lparr>state = Some OPEN, failures = 5, lastFailureTime = 5000, halfOpenAttempts = 0\<rparr>"
  let ?b = "freshBreaker\<lparr>redisKey := Some (encode_state ?d, 3605000)\<rparr>"
  have late: "full_key (redisKey ?b)" "key_view (redisKey ?b) = ?d" "\<not> key_alive 7200000 (redisKey ?b)"
    by (simp_all add: full_key_def full_json_def key_view_def shared_view_def circuit_defs key_alive_def)
  have "state (fst (mutateStateInRedis stripeOptions True 7200000 attempt_half_open ?b)) = Some CLOSED"
    using circuit_fallback_refines_shared
      [of ?b "freshBreaker\<lparr>localState := ?d\<rparr>" stripeOptions "[]" 7200000 attempt_half_open] late
    by (simp add: DEFAULT_STATE_def)
  then show ?thesis
    using circuit_fallback_refines_shared [OF start, of stripeOptions five_failures_then_probe] kept local by blast
qed

text \<open>A call through the breaker is rejected exactly when the state it reads is open and the
  reset window has not elapsed: the operation does not run, the error asks for a wait of at least
  one second and at least the rest of the window, and otherwise the operation runs. The guard that
  re-opens a half-open circuit with an exhausted budget is never taken, and the budget that makes
  it dead is kept.\<close>

theorem execute_rejects_iff_open:
  assumes "sane_options cfg" and "breaker_ok cfg b"
    and "getStateData (up_get env) (now_get env) b = (d, b1)"
  shows "(if state d = Some OPEN \<and> now_get env - lastFailureTime d < resetTimeoutMs cfg
          then \<exists>r. execute cfg env operation b = (CircuitBreakerOpenError r, False, b1) \<and>
                 1000 \<le> r \<and> lastFailureTime d + resetTimeoutMs cfg \<le> now_get env + r
          else fst (snd (execute cfg env operation b)))
         \<and> breaker_ok cfg (snd (snd (execute cfg env operation b)))"
  using execute_rejection_cases [OF assms] by (auto simp: max_def)

definition openStripe :: Breaker where
  "openStripe = \<lparr>localState = \<lparr>state = Some OPEN, failures = 5, lastFailureTime = 100000, halfOpenAttempts = 0\<rparr>,
     redisKey = None\<rparr>"

definition envAt :: "millis \<Rightarrow> bool \<Rightarrow> ExecEnv" where
  "envAt now up = \<lparr>up_get = up, now_get = now, up_probe = up, now_probe = now, up_force = up, now_force = now,
     up_record = up, now_record = now, up_reget = up, now_reget = now\<rparr>"

theorem execute_rejects_iff_open_witness:
  "\<exists>r. execute stripeOptions (envAt 110000 False) (Inr () :: string + unit) openStripe =
         (CircuitBreakerOpenError r, False, openStripe) \<and> 1000 \<le> r \<and> 130000 \<le> 110000 + r"
proof -
  have h: "sane_options stripeOptions" "breaker_ok stripeOptions openStripe"
    "getStateData (up_get (envAt 110000 False)) (now_get (envAt 110000 False)) openStripe =
       (localState openStripe, openStripe)"
    by (simp_all add: sane_options_def stripeOptions_def breaker_ok_def openStripe_def half_open_budget_def
        getStateData_def envAt_def)
  show ?thesis
    using execute_rejects_iff_open [OF h, of "Inr () :: string + unit"]
    by (simp add: stripeOptions_def envAt_def openStripe_def)
qed

text \<open>Under consecutive failures, less than an hour apart, the shared circuit trips with the failure
  that reaches the threshold and not before, and every later failure keeps it open.\<close>

lemma failures_keep_key:
  assumes "successively (\<lambda>t u. u < t + CIRCUIT_KEY_TTL) ts" and "ts \<noteq> [] \<longrightarrow> key_alive (hd ts) key"
  shows "shared.stays_alive cfg (map (\<lambda>t. (t, record_failure)) ts) key"
  using assms
proof (induction ts arbitrary: key)
  case (Cons t ts)
  have "ts \<noteq> [] \<longrightarrow> key_alive (hd ts) (shared_step cfg t record_failure key)"
    using Cons.prems(1) by (cases ts) (simp_all add: shared_step_def Let_def key_alive_def)
  then show ?case using Cons by (cases ts) simp_all
qed simp

theorem circuit_trips_at_threshold:
  assumes "sane_options cfg" and "successively (\<lambda>t u. u < t + CIRCUIT_KEY_TTL) ts"
  shows "state (key_view (fold (\<lambda>t. shared_step cfg t record_failure) ts None)) =
           (if int (length ts) < failureThreshold cfg then Some CLOSED else Some OPEN)"
proof -
  have "fold (\<lambda>t. shared_step cfg t record_failure) ts s =
          shared.run cfg (map (\<lambda>t. (t, record_failure)) ts) s" for s
    by (induction ts arbitrary: s) simp_all
  moreover have "key_view None = DEFAULT_STATE"
    by (simp add: key_view_def shared_view_def circuit_defs)
  moreover have "shared.stays_alive cfg (map (\<lambda>t. (t, record_failure)) ts) None"
    by (rule failures_keep_key [OF assms(2)]) (simp add: key_alive_def)
  ultimately show ?thesis
    using shared.failures_run [of None cfg ts] assms
    by (simp add: full_key_def full_json_def DEFAULT_STATE_def sane_options_def)
qed

theorem circuit_trips_at_threshold_witness:
  "state (key_view (fold (\<lambda>t. shared_step stripeOptions t record_failure) [1, 2, 3, 4, 5] None)) = Some OPEN"
  using circuit_trips_at_threshold [of stripeOptions "[1, 2, 3, 4, 5]"]
  by (simp add: sane_options_def stripeOptions_def CIRCUIT_KEY_TTL_def)

end
