(* ===== verification/Rate_Limit_Store.thy ===== *)
theory Rate_Limit_Store
  imports Prelude
begin

text \<open>
  The rate-limit store of \<^verbatim>\<open>src/src/shared/middlewares/rate-limit/rate-limit-fallback-store.ts\<close>:
  a fixed-window counter in Redis and, when Redis rejects, a per-process counter in a JavaScript
  \<^verbatim>\<open>Map\<close> bounded to 10000 keys.  The \<^verbatim>\<open>Map\<close> is an association list in insertion order.  Shown: the
  bound is an invariant, and while nothing is evicted the fall-back counts exactly as Redis does.
\<close>

section \<open>Counting in Redis\<close>

record RateLimitIncrResult =
  current :: int
  ttl :: int

text \<open>\<^verbatim>\<open>RATE_LIMIT_INCR_SCRIPT\<close>: \<^verbatim>\<open>INCR\<close>, \<^verbatim>\<open>PEXPIRE\<close> on the first increment, then \<^verbatim>\<open>PTTL\<close>.\<close>

definition rate_limit_incr_script ::
    "millis \<Rightarrow> string \<Rightarrow> int \<Rightarrow> int redis \<Rightarrow> RateLimitIncrResult \<times> int redis" where
  "rate_limit_incr_script now key timeWindow r =
     (let cur = (case redis_get now r key of None \<Rightarrow> 1 | Some c \<Rightarrow> c + 1);
          kept = (case redis_get now r key of None \<Rightarrow> None | Some _ \<Rightarrow> snd (the (r key)));
          expiry = (if cur = 1 then Some (now + timeWindow) else kept);
          pttl = (case expiry of None \<Rightarrow> -1 | Some t \<Rightarrow> t - now)
      in (\<lparr>current = cur, ttl = (if pttl \<ge> 0 then pttl else timeWindow)\<rparr>, r(key := Some (cur, expiry))))"

section \<open>Counting in memory\<close>

record LocalCounter =
  counter_count :: int
  expiresAtMs :: millis

type_synonym counters = "(string \<times> LocalCounter) list"

definition LOCAL_COUNTER_MAX_KEYS :: nat where
  "LOCAL_COUNTER_MAX_KEYS = 10000"

definition map_set :: "string \<Rightarrow> LocalCounter \<Rightarrow> counters \<Rightarrow> counters" where
  "map_set k v m = (if k \<in> fst ` set m
     then map (\<lambda>(k', v'). (k', if k' = k then v else v')) m else m @ [(k, v)])"

definition map_delete :: "string \<Rightarrow> counters \<Rightarrow> counters" where
  "map_delete k m = filter (\<lambda>(k', _). k' \<noteq> k) m"

definition pruneExpiredLocalCounters :: "millis \<Rightarrow> counters \<Rightarrow> counters" where
  "pruneExpiredLocalCounters now m = filter (\<lambda>(_, v). \<not> expiresAtMs v \<le> now) m"

text \<open>The eviction loop deletes the oldest key until there is room.\<close>

function evictOldest :: "counters \<Rightarrow> counters" where
  "evictOldest m =
     (if length m \<ge> LOCAL_COUNTER_MAX_KEYS
      then case m of [] \<Rightarrow> m | (oldestKey, _) # _ \<Rightarrow> evictOldest (map_delete oldestKey m)
      else m)"
  by pat_completeness auto
termination
  by (relation "measure length") (auto simp: map_delete_def less_Suc_eq_le)

declare evictOldest.simps [simp del]

definition ensureLocalCounterCapacity :: "millis \<Rightarrow> counters \<Rightarrow> counters" where
  "ensureLocalCounterCapacity now m =
     (if length m < LOCAL_COUNTER_MAX_KEYS then m else evictOldest (pruneExpiredLocalCounters now m))"

definition incrInMemory :: "millis \<Rightarrow> string \<Rightarrow> int \<Rightarrow> counters \<Rightarrow> RateLimitIncrResult \<times> counters" where
  "incrInMemory now fullKey timeWindow m =
     (let fresh = (\<lparr>current = 1, ttl = timeWindow\<rparr>,
            map_set fullKey \<lparr>counter_count = 1, expiresAtMs = now + timeWindow\<rparr> (ensureLocalCounterCapacity now m))
      in case map_of m fullKey of
           None \<Rightarrow> fresh
         | Some existing \<Rightarrow>
             (if expiresAtMs existing \<le> now then fresh
              else (\<lparr>current = counter_count existing + 1, ttl = expiresAtMs existing - now\<rparr>,
                    map_set fullKey (existing\<lparr>counter_count := counter_count existing + 1\<rparr>) m)))"

section \<open>The store\<close>

record RateLimitStore =
  keyPrefix :: string
  localCounters :: counters

definition DEFAULT_KEY_PREFIX :: string where
  "DEFAULT_KEY_PREFIX = ''fastify-rate-limit-''"

text \<open>\<^verbatim>\<open>incr\<close>: Redis when it answers, the in-memory counter when it rejects.\<close>

definition incr ::
    "bool \<Rightarrow> millis \<Rightarrow> string \<Rightarrow> int \<Rightarrow> RateLimitStore \<times> int redis \<Rightarrow> RateLimitIncrResult \<times> RateLimitStore \<times> int redis" where
  "incr redis_up now key timeWindow sr =
     (let (st, r) = sr; fullKey = keyPrefix st @ key in
      if redis_up then
        let (res, r') = rate_limit_incr_script now fullKey timeWindow r in (res, st, r')
      else
        let (res, m) = incrInMemory now fullKey timeWindow (localCounters st)
        in (res, st\<lparr>localCounters := m\<rparr>, r))"

definition child :: "RateLimitStore \<Rightarrow> string option \<Rightarrow> string option \<Rightarrow> RateLimitStore" where
  "child st method1 url =
     \<lparr>keyPrefix = keyPrefix st @ (case method1 of None \<Rightarrow> [] | Some x \<Rightarrow> x) @
        (case url of None \<Rightarrow> [] | Some x \<Rightarrow> x) @ ''-'', localCounters = []\<rparr>"

section \<open>The bound on the in-memory counters\<close>

definition counters_ok :: "counters \<Rightarrow> bool" where
  "counters_ok m \<longleftrightarrow> distinct (map fst m) \<and> length m \<le> LOCAL_COUNTER_MAX_KEYS"

lemma map_fst_map_set:
  "map fst (map_set k v m) = (if k \<in> set (map fst m) then map fst m else map fst m @ [k])"
proof -
  have "map fst (map (\<lambda>(k', v'). (k', if k' = k then v else v')) m) = map fst m"
    by (induction m) auto
  then show ?thesis by (simp add: map_set_def)
qed

lemma length_map_set: "length (map_set k v m) = (if k \<in> fst ` set m then length m else Suc (length m))"
  by (simp add: map_set_def)

lemma map_of_map_values:
  "map_of (map (\<lambda>(k, v). (k, f k v)) m) k' = map_option (f k') (map_of m k')"
  by (induction m) auto

lemma map_of_map_set: "map_of (map_set k v m) k' = (if k' = k then Some v else map_of m k')"
proof (cases "k \<in> fst ` set m")
  case True
  then obtain v0 where "map_of m k = Some v0"
    by (metis map_of_eq_None_iff not_None_eq)
  with True show ?thesis
    by (cases "map_of m k'") (auto simp: map_set_def map_of_map_values [where f = "\<lambda>k' v'. if k' = k then v else v'"])
next
  case False
  then have "map_of m k = None" by (simp add: map_of_eq_None_iff)
  with False show ?thesis by (auto simp: map_set_def map_add_def split: option.splits)
qed

lemma distinct_filter_keys: "distinct (map fst m) \<Longrightarrow> distinct (map fst (filter p m))"
  by (induction m) auto

lemma evictOldest_bound:
  "length (evictOldest m) < LOCAL_COUNTER_MAX_KEYS \<and>
   (distinct (map fst m) \<longrightarrow> distinct (map fst (evictOldest m)))"
proof (induction m rule: evictOldest.induct)
  case (1 m)
  show ?case
  proof (cases "length m \<ge> LOCAL_COUNTER_MAX_KEYS")
    case True
    then obtain k v m' where m: "m = (k, v) # m'"
      by (cases m) (auto simp: LOCAL_COUNTER_MAX_KEYS_def)
    have "evictOldest m = evictOldest (map_delete k m)"
      using True by (subst evictOldest.simps) (simp add: m)
    moreover have "distinct (map fst m) \<Longrightarrow> distinct (map fst (map_delete k m))"
      unfolding map_delete_def by (rule distinct_filter_keys)
    ultimately show ?thesis
      using "1.IH" [OF True m refl] by simp
  qed (simp add: evictOldest.simps [of m])
qed

lemma ensureLocalCounterCapacity_room:
  assumes "distinct (map fst m)"
  shows "length (ensureLocalCounterCapacity now m) < LOCAL_COUNTER_MAX_KEYS \<and>
         distinct (map fst (ensureLocalCounterCapacity now m))"
  using assms evictOldest_bound [of "pruneExpiredLocalCounters now m"]
  by (auto simp: ensureLocalCounterCapacity_def pruneExpiredLocalCounters_def distinct_filter_keys)

lemma incrInMemory_ok: "counters_ok m \<Longrightarrow> counters_ok (snd (incrInMemory now k w m))"
proof -
  assume m: "counters_ok m"
  have fresh: "counters_ok (map_set k v (ensureLocalCounterCapacity now m))" for v
    using ensureLocalCounterCapacity_room [of m now] m
    by (auto simp: counters_ok_def length_map_set map_fst_map_set)
  have upd: "counters_ok (map_set k v m)" if "map_of m k = Some v'" for v v'
    using m map_of_SomeD [OF that] by (force simp: counters_ok_def length_map_set map_fst_map_set)
  show ?thesis
    using fresh upd by (auto simp: incrInMemory_def Let_def split: option.splits)
qed

text \<open>However the store is driven (Redis up or down at each call, any keys, windows and clock),
  the in-memory map never holds more than 10000 counters and never two for one key.\<close>

theorem local_counters_bounded:
  "counters_ok (localCounters (fst (fold (\<lambda>(up, now, key, w) sr. snd (incr up now key w sr)) calls
      (\<lparr>keyPrefix = p, localCounters = []\<rparr>, r))))"
proof -
  have "counters_ok (localCounters (fst sr)) \<Longrightarrow>
        counters_ok (localCounters (fst (fold (\<lambda>(up, now, key, w) sr. snd (incr up now key w sr)) calls sr)))" for sr
  proof (induction calls arbitrary: sr)
    case (Cons c calls)
    obtain up now key w st r where [simp]: "c = (up, now, key, w)" "sr = (st, r)"
      by (metis prod_cases4 surj_pair)
    have "counters_ok (localCounters (fst (snd (incr up now key w (st, r)))))"
      using Cons.prems incrInMemory_ok by (auto simp: incr_def Let_def split: prod.splits) (metis snd_conv)
    from Cons.IH [OF this] show ?case by simp
  qed simp
  then show ?thesis by (simp add: counters_ok_def)
qed

section \<open>The fall-back counts as Redis does\<close>

text \<open>The two stores agree at an instant when every key has the same live counter and window end.\<close>

definition live_counter :: "millis \<Rightarrow> counters \<Rightarrow> string \<Rightarrow> (int \<times> millis) option" where
  "live_counter now m k = (case map_of m k of None \<Rightarrow> None
     | Some c \<Rightarrow> (if expiresAtMs c \<le> now then None else Some (counter_count c, expiresAtMs c)))"

definition live_redis_counter :: "millis \<Rightarrow> int redis \<Rightarrow> string \<Rightarrow> (int \<times> millis) option" where
  "live_redis_counter now r k = (case r k of Some (c, Some t) \<Rightarrow> (if now < t then Some (c, t) else None) | _ \<Rightarrow> None)"

definition window_redis :: "int redis \<Rightarrow> bool" where
  "window_redis r \<longleftrightarrow> (\<forall>k c e. r k = Some (c, e) \<longrightarrow> 1 \<le> c \<and> e \<noteq> None)"

definition agree :: "millis \<Rightarrow> counters \<Rightarrow> int redis \<Rightarrow> bool" where
  "agree now m r \<longleftrightarrow> live_counter now m = live_redis_counter now r"

definition next_counter :: "millis \<Rightarrow> int \<Rightarrow> (int \<times> millis) option \<Rightarrow> int \<times> millis" where
  "next_counter now w c = (case c of None \<Rightarrow> (1, now + w) | Some (n, t) \<Rightarrow> (n + 1, t))"

definition incr_result :: "millis \<Rightarrow> int \<times> millis \<Rightarrow> RateLimitIncrResult" where
  "incr_result now c = \<lparr>current = fst c, ttl = snd c - now\<rparr>"

definition live_count :: "millis \<Rightarrow> counters \<Rightarrow> nat" where
  "live_count now m = length (pruneExpiredLocalCounters now m)"

lemma map_of_prune:
  assumes "distinct (map fst m)"
  shows "map_of (pruneExpiredLocalCounters now m) k =
     (case map_of m k of None \<Rightarrow> None | Some c \<Rightarrow> if expiresAtMs c \<le> now then None else Some c)"
  using assms
  by (induction m) (auto simp: pruneExpiredLocalCounters_def map_of_eq_None_iff image_iff split: option.splits)

lemma live_counter_ensure:
  assumes "distinct (map fst m)" and "live_count now m < LOCAL_COUNTER_MAX_KEYS"
  shows "live_counter now (ensureLocalCounterCapacity now m) = live_counter now m"
proof (cases "length m < LOCAL_COUNTER_MAX_KEYS")
  case False
  have "evictOldest (pruneExpiredLocalCounters now m) = pruneExpiredLocalCounters now m"
    using assms(2) by (subst evictOldest.simps) (simp add: live_count_def)
  with False assms(1) show ?thesis
    by (auto simp: fun_eq_iff ensureLocalCounterCapacity_def live_counter_def map_of_prune split: option.splits)
qed (simp add: ensureLocalCounterCapacity_def)

lemma incrInMemory_live:
  assumes "distinct (map fst m)" and "live_count now m < LOCAL_COUNTER_MAX_KEYS" and "0 < w"
  shows "fst (incrInMemory now k w m) = incr_result now (next_counter now w (live_counter now m k))"
    and "live_counter now (snd (incrInMemory now k w m)) =
           (live_counter now m)(k := Some (next_counter now w (live_counter now m k)))"
  using live_counter_ensure [OF assms(1,2)] assms(3)
  by (auto simp: incrInMemory_def Let_def live_counter_def next_counter_def incr_result_def map_of_map_set
      fun_eq_iff split: option.splits)

lemma rate_limit_incr_script_live:
  assumes "window_redis r" and "0 < w"
  shows "fst (rate_limit_incr_script now k w r) = incr_result now (next_counter now w (live_redis_counter now r k))"
    and "live_redis_counter now (snd (rate_limit_incr_script now k w r)) =
           (live_redis_counter now r)(k := Some (next_counter now w (live_redis_counter now r k)))"
    and "window_redis (snd (rate_limit_incr_script now k w r))"
proof -
  consider (none) "r k = None" | (dead) c t where "r k = Some (c, Some t)" "t \<le> now"
    | (live) c t where "r k = Some (c, Some t)" "now < t" "1 \<le> c"
    using assms(1) unfolding window_redis_def by (metis linorder_not_le option.exhaust prod.exhaust)
  note cs = this
  show "fst (rate_limit_incr_script now k w r) = incr_result now (next_counter now w (live_redis_counter now r k))"
    using assms(2)
    by (cases rule: cs) (simp_all add: rate_limit_incr_script_def redis_get_def live_redis_counter_def
        next_counter_def incr_result_def Let_def)
  show "live_redis_counter now (snd (rate_limit_incr_script now k w r)) =
           (live_redis_counter now r)(k := Some (next_counter now w (live_redis_counter now r k)))"
    using assms(2)
    by (cases rule: cs) (auto simp: rate_limit_incr_script_def redis_get_def live_redis_counter_def
        next_counter_def fun_eq_iff Let_def)
  show "window_redis (snd (rate_limit_incr_script now k w r))"
    using assms
    by (cases rule: cs) (force simp: rate_limit_incr_script_def redis_get_def window_redis_def Let_def)+
qed

definition still_live :: "millis \<Rightarrow> (int \<times> millis) option \<Rightarrow> (int \<times> millis) option" where
  "still_live now c = (case c of None \<Rightarrow> None | Some (n, t) \<Rightarrow> if now < t then Some (n, t) else None)"

lemma live_counter_later: "now \<le> now' \<Longrightarrow> live_counter now' m k = still_live now' (live_counter now m k)"
  by (simp add: live_counter_def still_live_def split: option.split)

lemma live_redis_counter_later:
  "now \<le> now' \<Longrightarrow> live_redis_counter now' r k = still_live now' (live_redis_counter now r k)"
  by (simp add: live_redis_counter_def still_live_def split: option.split prod.split)

lemma agree_later: "agree now m r \<Longrightarrow> now \<le> now' \<Longrightarrow> agree now' m r"
  by (simp add: agree_def fun_eq_iff live_counter_later [of now now'] live_redis_counter_later [of now now'])

lemma length_ensure: "length (ensureLocalCounterCapacity now m) \<le> length m"
proof -
  have "length (evictOldest m') \<le> length m'" for m'
  proof (induction m' rule: evictOldest.induct)
    case (1 m')
    show ?case
    proof (cases "length m' \<ge> LOCAL_COUNTER_MAX_KEYS \<and> m' \<noteq> []")
      case True
      then obtain k v m'' where m: "m' = (k, v) # m''" by (cases m') auto
      have "evictOldest m' = evictOldest (map_delete k m')"
        using True by (subst evictOldest.simps) (simp add: m)
      moreover have "length (map_delete k m') \<le> length m'" by (simp add: map_delete_def)
      ultimately show ?thesis using "1.IH" [OF _ m refl] True by (metis order_trans)
    next
      case False
      then have "evictOldest m' = m'" by (subst evictOldest.simps) (auto split: list.split)
      then show ?thesis by simp
    qed
  qed
  from this [of "pruneExpiredLocalCounters now m"] show ?thesis
    by (auto simp: ensureLocalCounterCapacity_def pruneExpiredLocalCounters_def intro: order_trans)
qed

lemma length_incrInMemory: "length (snd (incrInMemory now k w m)) \<le> Suc (length m)"
  using length_ensure [of now m]
  by (auto simp: incrInMemory_def Let_def length_map_set split: option.splits)

fun run_memory :: "(millis \<times> string \<times> int) list \<Rightarrow> counters \<Rightarrow> RateLimitIncrResult list" where
  "run_memory [] m = []"
| "run_memory ((now, k, w) # cs) m = (let (res, m') = incrInMemory now k w m in res # run_memory cs m')"

fun run_redis :: "(millis \<times> string \<times> int) list \<Rightarrow> int redis \<Rightarrow> RateLimitIncrResult list" where
  "run_redis [] r = []"
| "run_redis ((now, k, w) # cs) r = (let (res, r') = rate_limit_incr_script now k w r in res # run_redis cs r')"

lemma run_memory_agrees:
  assumes "agree now0 m r" and "window_redis r" and "counters_ok m"
    and "sorted (now0 # map fst cs)" and "\<forall>(_, _, w) \<in> set cs. 0 < w"
    and "length m + length cs \<le> LOCAL_COUNTER_MAX_KEYS"
  shows "run_memory cs m = run_redis cs r"
  using assms
proof (induction cs arbitrary: now0 m r)
  case (Cons c cs)
  obtain now k w where c: "c = (now, k, w)" by (metis prod_cases3)
  have ag: "agree now m r" using Cons.prems(1,4) c by (auto intro: agree_later)
  have d: "distinct (map fst m)" and w: "0 < w" using Cons.prems(3,5) c by (auto simp: counters_ok_def)
  have room: "live_count now m < LOCAL_COUNTER_MAX_KEYS"
  proof -
    have "live_count now m \<le> length m" by (simp add: live_count_def pruneExpiredLocalCounters_def)
    then show ?thesis using Cons.prems(6) by simp
  qed
  note mem = incrInMemory_live [OF d room w, of k]
  note red = rate_limit_incr_script_live [OF Cons.prems(2) w, of now k]
  have res: "fst (incrInMemory now k w m) = fst (rate_limit_incr_script now k w r)"
    and ag': "agree now (snd (incrInMemory now k w m)) (snd (rate_limit_incr_script now k w r))"
    using ag mem red by (simp_all add: agree_def)
  have "run_memory cs (snd (incrInMemory now k w m)) = run_redis cs (snd (rate_limit_incr_script now k w r))"
  proof (rule Cons.IH [OF ag' red(3) incrInMemory_ok [OF Cons.prems(3)]])
    show "length (snd (incrInMemory now k w m)) + length cs \<le> LOCAL_COUNTER_MAX_KEYS"
      using length_incrInMemory [of now k w m] Cons.prems(6) by simp
  qed (use Cons.prems c in auto)
  with res show ?case by (simp add: c case_prod_beta)
qed simp

text \<open>The in-memory fall-back is equivalent to the Redis counter: any run of up to 10000
  increments (more cannot fill the map) on a clock that does not go back, with positive windows,
  returns the same counts and the same remaining windows from the one as from the other.\<close>

theorem fallback_counts_as_redis:
  assumes "sorted (map fst cs)" and "\<forall>(_, _, w) \<in> set cs. 0 < w" and "length cs \<le> LOCAL_COUNTER_MAX_KEYS"
  shows "run_memory cs [] = run_redis cs (\<lambda>_. None)"
proof (cases cs)
  case (Cons c cs')
  have "sorted (fst c # map fst cs)" using assms(1) Cons by auto
  then show ?thesis
    using assms run_memory_agrees [of "fst c" "[]" "\<lambda>_. None" cs]
    by (simp add: agree_def live_counter_def live_redis_counter_def window_redis_def counters_ok_def fun_eq_iff)
qed simp

theorem fallback_counts_as_redis_witness:
  "run_memory [(0, ''k'', 60), (10, ''k'', 60), (20, ''j'', 60), (60, ''k'', 60)] [] =
   run_redis [(0, ''k'', 60), (10, ''k'', 60), (20, ''j'', 60), (60, ''k'', 60)] (\<lambda>_. None)"
  by (rule fallback_counts_as_redis) (simp_all add: LOCAL_COUNTER_MAX_KEYS_def)

end
