(* ===== verification/Redis_Protocols.thy ===== *)
theory Redis_Protocols
  imports Prelude
begin

text \<open>
  The two Redis protocols the services build on, \<^verbatim>\<open>src/src/infrastructure/cache/\<close>: the read-through
  cache with invalidation tombstones (\<^verbatim>\<open>redis-tombstone-cache.util.ts\<close>) and the best-effort
  distributed lock (\<^verbatim>\<open>redis-lock.util.ts\<close>).  Each is given as the functions of the source and as a
  step relation over the interleavings of several processes; the theorems are invariants of every
  reachable state.
\<close>

section \<open>The cache with tombstones\<close>

definition CACHE_INVALIDATION_TOMBSTONE :: string where
  "CACHE_INVALIDATION_TOMBSTONE = ''__invalidated__''"

definition readTombstonedCacheEntry :: "bool \<Rightarrow> millis \<Rightarrow> string redis \<Rightarrow> string \<Rightarrow> string option" where
  "readTombstonedCacheEntry redis_up now r key =
     (if \<not> redis_up then None
      else case redis_get now r key of
        None \<Rightarrow> None
      | Some cached \<Rightarrow> (if length cached = 0 then None
          else if cached = CACHE_INVALIDATION_TOMBSTONE then None else Some cached))"

definition populateTombstonedCacheEntry ::
    "bool \<Rightarrow> millis \<Rightarrow> string \<Rightarrow> string \<Rightarrow> int \<Rightarrow> string redis \<Rightarrow> string redis" where
  "populateTombstonedCacheEntry redis_up now key v ttlSeconds r =
     (if ttlSeconds \<le> 0 then r
      else if redis_up then snd (redis_set_ex_nx now key v ttlSeconds r) else r)"

definition invalidateTombstonedCacheEntry ::
    "bool \<Rightarrow> millis \<Rightarrow> string \<Rightarrow> int \<Rightarrow> string redis \<Rightarrow> string redis" where
  "invalidateTombstonedCacheEntry redis_up now key ttlSeconds r =
     (if redis_up then redis_set_ex now key CACHE_INVALIDATION_TOMBSTONE ttlSeconds r else r)"

text \<open>The contract of one cached key whose invalidation must beat every population still in flight:
  an invalidated key reads as a miss, and nothing can be put in its place for the window of the
  tombstone.  The session-token cache gives it too.\<close>

locale revocable_cache =
  fixes read_entry :: "millis \<Rightarrow> string redis \<Rightarrow> string option"
    and populate :: "millis \<Rightarrow> 'p \<Rightarrow> string redis \<Rightarrow> string redis"
    and invalidate :: "millis \<Rightarrow> string redis \<Rightarrow> string redis"
    and window :: millis
  assumes read_invalidated: "read_entry t (invalidate t0 c) = None"
    and populate_blocked: "t < t0 + window \<Longrightarrow> populate t p (invalidate t0 c) = invalidate t0 c"
begin

lemma late_populates:
  "\<forall>(t, p) \<in> set ps. t < t0 + window \<Longrightarrow> fold (\<lambda>(t, p). populate t p) ps (invalidate t0 c) = invalidate t0 c"
  by (induction ps) (auto simp: populate_blocked)

lemma stays_invalidated:
  "\<forall>(t, p) \<in> set ps. t < t0 + window \<Longrightarrow> read_entry t' (fold (\<lambda>(t, p). populate t p) ps (invalidate t0 c)) = None"
  by (simp add: late_populates read_invalidated)

end

interpretation tombstone: revocable_cache
  "\<lambda>t c. readTombstonedCacheEntry True t c key" "\<lambda>t (up, v, ttl). populateTombstonedCacheEntry up t key v ttl"
  "\<lambda>t. invalidateTombstonedCacheEntry True t key tombTtl" "tombTtl * 1000" for key tombTtl
  by unfold_locales
    (auto simp: readTombstonedCacheEntry_def invalidateTombstonedCacheEntry_def populateTombstonedCacheEntry_def
      redis_get_set_ex redis_set_ex_nx_def)

text \<open>A key's readers and writers: the committed value, the reads that have queried Postgres but not
  yet populated the cache (value read and instant of the read), and the instant of the last commit.\<close>

record CacheSystem =
  clock :: millis
  db :: string
  inflight :: "(string \<times> millis) set"
  lastCommit :: "millis option"
  cache :: "string redis"

inductive cache_step :: "string \<Rightarrow> int \<Rightarrow> CacheSystem \<Rightarrow> CacheSystem \<Rightarrow> bool" for key tombTtl where
  tick: "clock s \<le> t \<Longrightarrow> cache_step key tombTtl s (s\<lparr>clock := t\<rparr>)"
| query: "cache_step key tombTtl s (s\<lparr>inflight := insert (db s, clock s) (inflight s)\<rparr>)"
| populate: "(v, rt) \<in> inflight s \<Longrightarrow> clock s < rt + tombTtl * 1000 \<Longrightarrow>
    cache_step key tombTtl s (s\<lparr>inflight := inflight s - {(v, rt)},
      cache := populateTombstonedCacheEntry redis_up (clock s) key v ttlSeconds (cache s)\<rparr>)"
| abandon: "cache_step key tombTtl s (s\<lparr>inflight := inflight s - {(v, rt)}\<rparr>)"
| commit: "cache_step key tombTtl s (s\<lparr>db := v, lastCommit := Some (clock s),
      cache := invalidateTombstonedCacheEntry True (clock s) key tombTtl (cache s)\<rparr>)"

inductive cache_reachable :: "string \<Rightarrow> int \<Rightarrow> CacheSystem \<Rightarrow> bool" for key tombTtl where
  initial: "inflight s = {} \<Longrightarrow> lastCommit s = None \<Longrightarrow> cache s key = None \<Longrightarrow> cache_reachable key tombTtl s"
| step: "cache_reachable key tombTtl s \<Longrightarrow> cache_step key tombTtl s s' \<Longrightarrow> cache_reachable key tombTtl s'"

text \<open>A read that is still in flight either holds the committed value or started before the last
  commit; the tombstone of that commit lives for its full time to live; and the cached value is the
  committed one.\<close>

definition tombstone_until :: "string \<Rightarrow> millis \<Rightarrow> CacheSystem \<Rightarrow> bool" where
  "tombstone_until key t s \<longleftrightarrow> (\<forall>n. clock s \<le> n \<and> n < t \<longrightarrow>
     redis_get n (cache s) key = Some CACHE_INVALIDATION_TOMBSTONE)"

definition cache_inv :: "string \<Rightarrow> int \<Rightarrow> CacheSystem \<Rightarrow> bool" where
  "cache_inv key tombTtl s \<longleftrightarrow>
     (\<forall>(v, rt) \<in> inflight s. rt \<le> clock s) \<and>
     (\<forall>(v, rt) \<in> inflight s. v = db s \<or> (\<exists>ct. lastCommit s = Some ct \<and> rt \<le> ct)) \<and>
     (\<forall>ct. lastCommit s = Some ct \<longrightarrow> tombstone_until key (ct + tombTtl * 1000) s) \<and>
     (\<forall>n v. clock s \<le> n \<longrightarrow> redis_get n (cache s) key = Some v \<longrightarrow>
        v = db s \<or> v = CACHE_INVALIDATION_TOMBSTONE)"

lemma cache_inv_populate:
  assumes inv: "cache_inv key tombTtl s" and fl: "(v, rt) \<in> inflight s" and quick: "clock s < rt + tombTtl * 1000"
  shows "cache_inv key tombTtl (s\<lparr>inflight := inflight s - {(v, rt)},
      cache := populateTombstonedCacheEntry up (clock s) key v ttl (cache s)\<rparr>)"
proof (cases "v = db s")
  case True
  with inv show ?thesis
    by (auto simp: cache_inv_def tombstone_until_def populateTombstonedCacheEntry_def redis_simps split: if_splits)
next
  case False
  with inv fl obtain ct where ct: "lastCommit s = Some ct" "rt \<le> ct"
    by (auto simp: cache_inv_def)
  with inv quick have "redis_get (clock s) (cache s) key = Some CACHE_INVALIDATION_TOMBSTONE"
    by (auto simp: cache_inv_def tombstone_until_def)
  then have "populateTombstonedCacheEntry up (clock s) key v ttl (cache s) = cache s"
    by (simp add: populateTombstonedCacheEntry_def redis_set_ex_nx_def)
  with inv show ?thesis by (auto simp: cache_inv_def tombstone_until_def)
qed

lemma cache_inv_step: "cache_step key tombTtl s s' \<Longrightarrow> cache_inv key tombTtl s \<Longrightarrow> cache_inv key tombTtl s'"
proof (induction rule: cache_step.induct)
  case (tick s t)
  then show ?case unfolding cache_inv_def tombstone_until_def by (auto 0 3 dest: order_trans)
next
  case (query s)
  then show ?case by (auto simp: cache_inv_def tombstone_until_def)
next
  case (populate v rt s up ttl)
  then show ?case by (blast intro: cache_inv_populate)
next
  case (abandon s v rt)
  then show ?case by (auto simp: cache_inv_def tombstone_until_def)
next
  case (commit s v)
  have "rt \<le> clock s" if "(w, rt) \<in> inflight s" for w rt
    using commit that by (auto simp: cache_inv_def)
  then show ?case
    by (auto simp: cache_inv_def tombstone_until_def invalidateTombstonedCacheEntry_def redis_get_set_ex split: if_splits)
qed

lemma cache_reachable_inv: "cache_reachable key tombTtl s \<Longrightarrow> cache_inv key tombTtl s"
proof (induction rule: cache_reachable.induct)
  case (initial s)
  then show ?case by (auto simp: cache_inv_def redis_get_def)
qed (rule cache_inv_step)

text \<open>The tombstone protocol: in every interleaving of reads and committed writes in which a read
  populates the cache before the tombstone's time to live has passed since its query, a cache hit
  is the committed value. A read that queried before a commit and populates after it loses.\<close>

theorem tombstone_cache_never_stale:
  assumes "cache_reachable key tombTtl s"
    and "readTombstonedCacheEntry redis_up (clock s) (cache s) key = Some v"
  shows "v = db s"
  using cache_reachable_inv [OF assms(1)] assms(2)
  by (auto simp: cache_inv_def readTombstonedCacheEntry_def split: if_splits option.splits)

theorem tombstone_cache_never_stale_witness:
  "\<exists>s. cache_reachable ''k'' 15 s \<and> readTombstonedCacheEntry True (clock s) (cache s) ''k'' = Some (db s)"
proof -
  let ?s0 = "\<lparr>clock = 0, db = ''old'', inflight = {}, lastCommit = None, cache = (\<lambda>_. None)\<rparr> :: CacheSystem"
  let ?s1 = "?s0\<lparr>db := ''new'', lastCommit := Some (clock ?s0),
      cache := invalidateTombstonedCacheEntry True (clock ?s0) ''k'' 15 (cache ?s0)\<rparr>"
  let ?s2 = "?s1\<lparr>clock := 20000\<rparr>"
  let ?s3 = "?s2\<lparr>inflight := insert (db ?s2, clock ?s2) (inflight ?s2)\<rparr>"
  let ?s4 = "?s3\<lparr>inflight := inflight ?s3 - {(''new'', 20000)},
      cache := populateTombstonedCacheEntry True (clock ?s3) ''k'' ''new'' 60 (cache ?s3)\<rparr>"
  have r0: "cache_reachable ''k'' 15 ?s0" by (rule cache_reachable.initial) simp_all
  have r1: "cache_reachable ''k'' 15 ?s1" by (rule cache_reachable.step [OF r0 cache_step.commit])
  have r2: "cache_reachable ''k'' 15 ?s2" by (rule cache_reachable.step [OF r1 cache_step.tick]) simp
  have r3: "cache_reachable ''k'' 15 ?s3" by (rule cache_reachable.step [OF r2 cache_step.query])
  have r4: "cache_reachable ''k'' 15 ?s4" by (rule cache_reachable.step [OF r3 cache_step.populate]) simp_all
  have hit: "readTombstonedCacheEntry True (clock ?s4) (cache ?s4) ''k'' = Some ''new''"
    by (simp add: readTombstonedCacheEntry_def populateTombstonedCacheEntry_def invalidateTombstonedCacheEntry_def
        redis_set_ex_nx_def redis_get_def redis_set_ex_def CACHE_INVALIDATION_TOMBSTONE_def)
  show ?thesis using tombstone_cache_never_stale [OF r4 hit] hit r4 by metis
qed


section \<open>The distributed lock\<close>

text \<open>\<^verbatim>\<open>SET key nonce EX ttl NX\<close>, and the nonce-guarded compare-and-delete script.\<close>

definition tryAcquireLock :: "millis \<Rightarrow> string \<Rightarrow> string \<Rightarrow> int \<Rightarrow> string redis \<Rightarrow> bool \<times> string redis" where
  "tryAcquireLock now key nonce ttlSeconds r = redis_set_ex_nx now key nonce ttlSeconds r"

definition releaseLockIfHeld :: "millis \<Rightarrow> string \<Rightarrow> string \<Rightarrow> string redis \<Rightarrow> string redis" where
  "releaseLockIfHeld now key nonce r =
     (if redis_get now r key = Some nonce then redis_del key r else r)"

text \<open>The acquire loop of \<^verbatim>\<open>withRedisLock\<close> over the polls it makes: whether \<^verbatim>\<open>SET NX\<close> answered
  \<^verbatim>\<open>OK\<close>, and \<^verbatim>\<open>Date.now()\<close> after the sleep. \<^const>\<open>None\<close>: it is still polling.\<close>

fun acquireLoop :: "int \<Rightarrow> millis \<Rightarrow> (bool \<times> millis) list \<Rightarrow> bool option" where
  "acquireLoop waitTimeoutMs deadline [] = None"
| "acquireLoop waitTimeoutMs deadline ((ok, now) # polls) =
     (if ok then Some True
      else if waitTimeoutMs \<le> 0 then Some False
      else if now < deadline then acquireLoop waitTimeoutMs deadline polls
      else Some False)"

record LockSystem =
  lockClock :: millis
  lockStore :: "string redis"
  holders :: "(string \<times> millis) set"   \<comment> \<open>nonce, instant it acquired at\<close>
  usedNonces :: "string set"

inductive lock_step :: "string \<Rightarrow> int \<Rightarrow> LockSystem \<Rightarrow> LockSystem \<Rightarrow> bool" for key ttlSeconds where
  tick: "lockClock s \<le> t \<Longrightarrow> lock_step key ttlSeconds s (s\<lparr>lockClock := t\<rparr>)"
| acquire: "nonce \<notin> usedNonces s \<Longrightarrow> tryAcquireLock (lockClock s) key nonce ttlSeconds (lockStore s) = (True, r) \<Longrightarrow>
    lock_step key ttlSeconds s (s\<lparr>lockStore := r, holders := insert (nonce, lockClock s) (holders s),
      usedNonces := insert nonce (usedNonces s)\<rparr>)"
| release: "(nonce, at) \<in> holders s \<Longrightarrow>
    lock_step key ttlSeconds s (s\<lparr>lockStore := releaseLockIfHeld (lockClock s) key nonce (lockStore s),
      holders := holders s - {(nonce, at)}\<rparr>)"
| crash: "(nonce, at) \<in> holders s \<Longrightarrow> lock_step key ttlSeconds s (s\<lparr>holders := holders s - {(nonce, at)}\<rparr>)"

inductive lock_reachable :: "string \<Rightarrow> int \<Rightarrow> LockSystem \<Rightarrow> bool" for key ttlSeconds where
  initial: "holders s = {} \<Longrightarrow> usedNonces s = {} \<Longrightarrow> lockStore s key = None \<Longrightarrow> lock_reachable key ttlSeconds s"
| step: "lock_reachable key ttlSeconds s \<Longrightarrow> lock_step key ttlSeconds s s' \<Longrightarrow> lock_reachable key ttlSeconds s'"

text \<open>A holder whose time to live has not lapsed is the one the store names, and a nonce acquired once.\<close>

definition lock_inv :: "string \<Rightarrow> int \<Rightarrow> LockSystem \<Rightarrow> bool" where
  "lock_inv key ttlSeconds s \<longleftrightarrow>
     (\<forall>(nonce, at) \<in> holders s. nonce \<in> usedNonces s \<and> at \<le> lockClock s \<and>
        (\<forall>n. lockClock s \<le> n \<and> n < at + ttlSeconds * 1000 \<longrightarrow> redis_get n (lockStore s) key = Some nonce)) \<and>
     (\<forall>nonce at at'. (nonce, at) \<in> holders s \<longrightarrow> (nonce, at') \<in> holders s \<longrightarrow> at = at')"

lemma lock_inv_acquire:
  assumes inv: "lock_inv key ttl s" and fresh: "nonce \<notin> usedNonces s"
    and got: "tryAcquireLock (lockClock s) key nonce ttl (lockStore s) = (True, r)"
  shows "lock_inv key ttl (s\<lparr>lockStore := r, holders := insert (nonce, lockClock s) (holders s),
      usedNonces := insert nonce (usedNonces s)\<rparr>)"
proof -
  have free: "redis_get (lockClock s) (lockStore s) key = None" and r: "r = redis_set_ex (lockClock s) key nonce ttl (lockStore s)"
    using got by (auto simp: tryAcquireLock_def redis_set_ex_nx_def split: option.splits)
  have lapsed: "at + ttl * 1000 \<le> lockClock s" if "(n, at) \<in> holders s" for n at
  proof (rule ccontr)
    assume "\<not> at + ttl * 1000 \<le> lockClock s"
    with inv that have "redis_get (lockClock s) (lockStore s) key = Some n"
      by (fastforce simp: lock_inv_def)
    with free show False by simp
  qed
  show ?thesis
    using inv fresh lapsed by (fastforce simp: lock_inv_def r redis_get_set_ex)
qed

lemma lock_inv_release:
  assumes inv: "lock_inv key ttl s" and h: "(nonce, at) \<in> holders s"
  shows "lock_inv key ttl (s\<lparr>lockStore := releaseLockIfHeld (lockClock s) key nonce (lockStore s),
      holders := holders s - {(nonce, at)}\<rparr>)"
proof (cases "redis_get (lockClock s) (lockStore s) key = Some nonce")
  case True
  have "at' + ttl * 1000 \<le> lockClock s" if "(n, at') \<in> holders s" "(n, at') \<noteq> (nonce, at)" for n at'
  proof (rule ccontr)
    assume "\<not> at' + ttl * 1000 \<le> lockClock s"
    with inv that(1) have "redis_get (lockClock s) (lockStore s) key = Some n"
      by (fastforce simp: lock_inv_def)
    with True have "n = nonce" by simp
    with inv h that show False by (auto simp: lock_inv_def)
  qed
  with inv show ?thesis by (fastforce simp: lock_inv_def releaseLockIfHeld_def redis_get_del)
next
  case False
  with inv show ?thesis by (auto simp: lock_inv_def releaseLockIfHeld_def)
qed

lemma lock_inv_step: "lock_step key ttl s s' \<Longrightarrow> lock_inv key ttl s \<Longrightarrow> lock_inv key ttl s'"
proof (induction rule: lock_step.induct)
  case (tick s t)
  then show ?case by (fastforce simp: lock_inv_def)
next
  case (acquire nonce s r)
  then show ?case by (blast intro: lock_inv_acquire)
next
  case (release nonce at s)
  then show ?case by (blast intro: lock_inv_release)
next
  case (crash nonce at s)
  then show ?case by (auto simp: lock_inv_def)
qed

lemma lock_reachable_inv: "lock_reachable key ttl s \<Longrightarrow> lock_inv key ttl s"
proof (induction rule: lock_reachable.induct)
  case (initial s)
  then show ?case by (simp add: lock_inv_def)
qed (rule lock_inv_step)

text \<open>Mutual exclusion of the lock within its time to live: in every interleaving of acquires,
  releases, crashes and delays, two critical sections that are both inside their time to live are
  the same one (a late release by a lapsed holder included).\<close>

theorem redis_lock_mutual_exclusion:
  assumes "lock_reachable key ttlSeconds s"
    and "(n1, at1) \<in> holders s" and "lockClock s < at1 + ttlSeconds * 1000"
    and "(n2, at2) \<in> holders s" and "lockClock s < at2 + ttlSeconds * 1000"
  shows "n1 = n2 \<and> at1 = at2"
proof -
  note inv = lock_reachable_inv [OF assms(1)]
  have named: "redis_get (lockClock s) (lockStore s) key = Some n"
    if "(n, at) \<in> holders s" "lockClock s < at + ttlSeconds * 1000" for n at
    using inv that unfolding lock_inv_def by blast
  have "n1 = n2" using named [OF assms(2,3)] named [OF assms(4,5)] by simp
  with inv assms(2,4) show ?thesis by (auto simp: lock_inv_def)
qed

theorem redis_lock_mutual_exclusion_witness:
  "\<exists>s. lock_reachable ''lock'' 30 s \<and> holders s = {(''a'', 0)} \<and> lockClock s < 0 + 30 * 1000 \<and>
     (\<forall>n at. (n, at) \<in> holders s \<longrightarrow> n = ''a'' \<and> at = 0)"
proof -
  let ?s0 = "\<lparr>lockClock = 0, lockStore = (\<lambda>_. None), holders = {}, usedNonces = {}\<rparr> :: LockSystem"
  let ?r = "redis_set_ex 0 ''lock'' ''a'' 30 (\<lambda>_. None)"
  let ?s1 = "?s0\<lparr>lockStore := ?r, holders := insert (''a'', lockClock ?s0) (holders ?s0),
      usedNonces := insert ''a'' (usedNonces ?s0)\<rparr>"
  have r0: "lock_reachable ''lock'' 30 ?s0" by (rule lock_reachable.initial) simp_all
  have got: "tryAcquireLock (lockClock ?s0) ''lock'' ''a'' 30 (lockStore ?s0) = (True, ?r)"
    by (simp add: tryAcquireLock_def redis_set_ex_nx_def redis_get_def)
  have r1: "lock_reachable ''lock'' 30 ?s1"
    by (rule lock_reachable.step [OF r0 lock_step.acquire [OF _ got]]) simp
  have "n = ''a'' \<and> at = 0" if "(n, at) \<in> holders ?s1" for n at
    using redis_lock_mutual_exclusion [OF r1, of n at "''a''" 0] that by auto
  with r1 show ?thesis by (intro exI [of _ ?s1]) simp
qed

end
