(* ===== verification/Idempotency_Key.thy ===== *)
theory Idempotency_Key
  imports JS_Values
begin

text \<open>
  Keys and fingerprints of the idempotency layer: \<^verbatim>\<open>src/src/shared/utils/idempotency/\<close>
  (\<^verbatim>\<open>idempotency-key.util.ts\<close>, \<^verbatim>\<open>idempotency-fingerprint.util.ts\<close>) with the public-id format of
  \<^verbatim>\<open>identity/public-id.util.ts\<close> and \<^verbatim>\<open>isSensitiveKey\<close> of \<^verbatim>\<open>sensitive-redaction.util.ts\<close>.
  SHA-256 is a parameter of the fingerprint.  Shown: a parsed key is well-formed, a cache key
  identifies tenant, actor and client key, the canonical serialisation of a request body is
  injective up to the order of object keys on JSON bodies, and where it is not.
\<close>

section \<open>The client key\<close>

definition IDEMPOTENCY_KEY_MAX_LENGTH :: nat where "IDEMPOTENCY_KEY_MAX_LENGTH = 255"
definition IDEMPOTENCY_KEY_MIN_LENGTH :: nat where "IDEMPOTENCY_KEY_MIN_LENGTH = 16"

definition idempotency_key_char :: "char \<Rightarrow> bool" where
  "idempotency_key_char c \<longleftrightarrow> is_upper c \<or> is_lower c \<or> is_digit c \<or> c \<in> set ''._:~+/=-''"

definition IDEMPOTENCY_KEY_BODY_PATTERN :: "string \<Rightarrow> bool" where
  "IDEMPOTENCY_KEY_BODY_PATTERN s \<longleftrightarrow> s \<noteq> [] \<and> list_all idempotency_key_char s"

text \<open>A header is undefined, one string, or an array of strings.\<close>

datatype header = HUndefined | HString string | HArray "string list"

datatype ParsedIdempotencyKeyHeader = Absent | Invalid | Valid string

definition parseIdempotencyKeyHeader :: "header \<Rightarrow> ParsedIdempotencyKeyHeader" where
  "parseIdempotencyKeyHeader headerValue =
     (let raw = (case headerValue of HUndefined \<Rightarrow> None | HString s \<Rightarrow> Some s
                 | HArray (s # _) \<Rightarrow> Some s | HArray [] \<Rightarrow> None)
      in case raw of
           None \<Rightarrow> Absent
         | Some s \<Rightarrow>
             (let trimmed = js_trim s in
              if length trimmed = 0 then Absent
              else if length trimmed < IDEMPOTENCY_KEY_MIN_LENGTH then Invalid
              else if length trimmed > IDEMPOTENCY_KEY_MAX_LENGTH then Invalid
              else if \<not> IDEMPOTENCY_KEY_BODY_PATTERN trimmed then Invalid
              else Valid trimmed))"

section \<open>The cache key\<close>

record IdempotencyScope =
  userId :: "string option"
  organizationId :: "string option"
  apiKeyPublicId :: "string option"

definition present :: "string option \<Rightarrow> bool" where
  "present s = (case s of None \<Rightarrow> False | Some x \<Rightarrow> length x > 0)"

definition hasAuthenticatedIdempotencyActor :: "IdempotencyScope \<Rightarrow> bool" where
  "hasAuthenticatedIdempotencyActor scope \<longleftrightarrow> present (apiKeyPublicId scope) \<or> present (userId scope)"

definition buildIdempotencyCacheKey :: "string \<Rightarrow> IdempotencyScope \<Rightarrow> string" where
  "buildIdempotencyCacheKey idempotencyKey scope =
     (let actorSegment =
            (if present (apiKeyPublicId scope) then ''api-key:'' @ the (apiKeyPublicId scope)
             else if present (userId scope) then the (userId scope)
             else ''anonymous'');
          organizationSegment = (case organizationId scope of Some x \<Rightarrow> x | None \<Rightarrow> ''none'')
      in ''idempotency:'' @ organizationSegment @ '':'' @ actorSegment @ '':'' @ idempotencyKey)"

definition buildIdempotencyActorRateKey :: "IdempotencyScope \<Rightarrow> string option" where
  "buildIdempotencyActorRateKey scope =
     (if present (apiKeyPublicId scope) then Some (''idempotency:actor-rate:api-key:'' @ the (apiKeyPublicId scope))
      else if present (userId scope) then Some (''idempotency:actor-rate:user:'' @ the (userId scope))
      else None)"

text \<open>\<^verbatim>\<open>PUBLIC_ID_REGEX\<close>: \<^verbatim>\<open>^[a-z]{2,5}_[a-z0-9]{21}$\<close>.\<close>

definition PUBLIC_ID_LENGTH :: nat where "PUBLIC_ID_LENGTH = 21"

definition PUBLIC_ID_REGEX :: "string \<Rightarrow> bool" where
  "PUBLIC_ID_REGEX s \<longleftrightarrow>
     (let pre = takeWhile is_lower s; rest = dropWhile is_lower s in
      2 \<le> length pre \<and> length pre \<le> 5 \<and> length rest = Suc PUBLIC_ID_LENGTH \<and>
      hd rest = CHR ''_'' \<and> list_all (\<lambda>c. is_lower c \<or> is_digit c) (tl rest))"

section \<open>Fingerprints\<close>

text \<open>\<^verbatim>\<open>split('?')[0]\<close>, then runs of slashes collapsed, then one trailing slash dropped.\<close>

fun collapse_slashes :: "string \<Rightarrow> string" where
  "collapse_slashes (a # b # s) =
     (if a = CHR ''/'' \<and> b = CHR ''/'' then collapse_slashes (b # s) else a # collapse_slashes (b # s))"
| "collapse_slashes s = s"

definition drop_trailing_slash :: "string \<Rightarrow> string" where
  "drop_trailing_slash s = (if s \<noteq> [] \<and> last s = CHR ''/'' then butlast s else s)"

definition normalizeIdempotencyRoutePath :: "string \<Rightarrow> string" where
  "normalizeIdempotencyRoutePath routePath =
     (if length routePath = 0 then ''/''
      else let withoutQuery = takeWhile (\<lambda>c. c \<noteq> CHR ''?'') routePath;
               p = drop_trailing_slash (collapse_slashes withoutQuery)
           in if p = [] then ''/'' else p)"

definition join_with :: "string \<Rightarrow> string list \<Rightarrow> string" where
  "join_with sep xs = (case xs of [] \<Rightarrow> [] | x # r \<Rightarrow> x @ concat (map (\<lambda>s. sep @ s) r))"

text \<open>The key comparator orders by code points, as \<^verbatim>\<open><\<close> on strings does.\<close>

function canonicalSerializeForFingerprint :: "js \<Rightarrow> string" where
  "canonicalSerializeForFingerprint JUndefined = json_string ''__undefined__''"
| "canonicalSerializeForFingerprint JNull = ''null''"
| "canonicalSerializeForFingerprint (JBool b) = (if b then ''true'' else ''false'')"
| "canonicalSerializeForFingerprint (JNumber n) = n"
| "canonicalSerializeForFingerprint (JString s) = json_string s"
| "canonicalSerializeForFingerprint (JArray xs) =
     ''['' @ join_with '','' (map canonicalSerializeForFingerprint xs) @ '']''"
| "canonicalSerializeForFingerprint (JObject entries) =
     CHR ''{'' # join_with '','' (map (\<lambda>(key, nested). json_string key @ '':'' @ canonicalSerializeForFingerprint nested)
        (sort_key fst entries)) @ ''}''"
  by pat_completeness auto
termination
proof (relation "measure size", goal_cases)
  case (3 entries x key nested)
  then have "x \<in> set entries" by simp
  with 3 show ?case
    by (auto simp: less_Suc_eq_le intro: size_list_estimation' [of "(key, nested)"])
qed (auto simp: less_Suc_eq_le intro: size_list_estimation')

definition buildIdempotencyRequestFingerprint :: "(string \<Rightarrow> string) \<Rightarrow> string \<Rightarrow> string \<Rightarrow> js \<Rightarrow> string" where
  "buildIdempotencyRequestFingerprint sha256hex method1 routePath body =
     (let normalizedRoute = normalizeIdempotencyRoutePath routePath;
          bodySegment = (case body of JUndefined \<Rightarrow> [] | JNull \<Rightarrow> [] | JString s \<Rightarrow> s
                         | _ \<Rightarrow> canonicalSerializeForFingerprint body);
          canonical = js_upper method1 @ '':'' @ normalizedRoute @ '':'' @ bodySegment
      in take 16 (sha256hex canonical))"


section \<open>Excluded routes and secret responses\<close>

definition oauth_callback_route :: "string \<Rightarrow> bool" where
  "oauth_callback_route p \<longleftrightarrow>
     (let r = rev p; r1 = drop (length ''/callback'') r; provider = takeWhile (\<lambda>c. c \<noteq> CHR ''/'') r1;
          r2 = dropWhile (\<lambda>c. c \<noteq> CHR ''/'') r1
      in js_startsWith r (rev ''/callback'') \<and> provider \<noteq> [] \<and> js_startsWith r2 (rev ''/auth/oauth/''))"

definition isIdempotencyRouteExcluded :: "string \<Rightarrow> bool" where
  "isIdempotencyRouteExcluded routePath \<longleftrightarrow>
     (let normalized = normalizeIdempotencyRoutePath routePath in
      list_ex (js_endsWith normalized)
        [''/auth/login'', ''/auth/email/login'', ''/auth/mfa/login'', ''/auth/webauthn/authenticate/verify'',
         ''/auth/refresh'', ''/tenancy/organization/api-keys''] \<or>
      oauth_callback_route normalized)"

definition SENSITIVE_KEY_FRAGMENTS :: "string list" where
  "SENSITIVE_KEY_FRAGMENTS = [''authorization'', ''password'', ''passwd'', ''secret'', ''token'', ''cookie'',
     ''api_key'', ''apikey'', ''api-key'', ''raw_key'', ''rawkey'', ''access_key_id'', ''private_key'',
     ''encryption_key'', ''session_id'', ''jwt'', ''credential'', ''email'']"

definition isSensitiveKey :: "string \<Rightarrow> bool" where
  "isSensitiveKey key \<longleftrightarrow> list_ex (js_includes (js_lower key)) SENSITIVE_KEY_FRAGMENTS"

definition IDEMPOTENCY_SECRET_RESPONSE_FIELD_NAMES :: "string list" where
  "IDEMPOTENCY_SECRET_RESPONSE_FIELD_NAMES = [''access_token'', ''raw_key'', ''mfa_session_token'',
     ''refresh_token'', ''recovery_codes'', ''download_url'', ''upload_url'']"

fun objectContainsSecretField :: "js \<Rightarrow> bool" where
  "objectContainsSecretField (JArray xs) = list_ex objectContainsSecretField xs"
| "objectContainsSecretField (JObject entries) =
     list_ex (\<lambda>(key, nested). List.member IDEMPOTENCY_SECRET_RESPONSE_FIELD_NAMES key \<or> isSensitiveKey key \<or>
        objectContainsSecretField nested) entries"
| "objectContainsSecretField _ = False"

definition RESPONSE_BODY_SECRET_FRAGMENTS :: "string list" where
  "RESPONSE_BODY_SECRET_FRAGMENTS = [''token'', ''secret'', ''password'', ''credential'', ''cookie'', ''jwt'',
     ''private_key'', ''api_key'', ''recovery_code'']"

text \<open>The parser is the parameter; \<^const>\<open>None\<close> is a body \<^verbatim>\<open>JSON.parse\<close> rejects.\<close>

definition responseBodyContainsSecretFields :: "(string \<Rightarrow> js option) \<Rightarrow> string \<Rightarrow> bool" where
  "responseBodyContainsSecretFields json_parse body =
     (case json_parse body of
        Some parsed \<Rightarrow> objectContainsSecretField parsed
      | None \<Rightarrow>
          (let lower = js_lower body in
           list_ex (\<lambda>fragment. js_includes lower ([quote] @ fragment @ [quote]) \<or>
                               js_includes lower (''_'' @ fragment @ [quote]) \<or>
                               js_includes lower ([quote] @ fragment @ ''_''))
             RESPONSE_BODY_SECRET_FRAGMENTS))"

section \<open>Well-formed keys\<close>

lemma idempotency_key_char_no_space: "idempotency_key_char c \<Longrightarrow> \<not> js_space c"
  by (auto simp: idempotency_key_char_def js_space_def is_upper_def is_lower_def is_digit_def Let_def)

text \<open>A key the parser accepts is 16 to 255 characters of the allowed alphabet, and parsing what
  was accepted gives it back.\<close>

theorem parseIdempotencyKeyHeader_valid:
  assumes "parseIdempotencyKeyHeader h = Valid k"
  shows "16 \<le> length k \<and> length k \<le> 255 \<and> list_all idempotency_key_char k \<and>
         parseIdempotencyKeyHeader (HString k) = Valid k"
proof -
  have k: "16 \<le> length k" "length k \<le> 255" "list_all idempotency_key_char k" "k \<noteq> []"
    using assms
    by (auto simp: parseIdempotencyKeyHeader_def Let_def IDEMPOTENCY_KEY_MIN_LENGTH_def IDEMPOTENCY_KEY_MAX_LENGTH_def
        IDEMPOTENCY_KEY_BODY_PATTERN_def split: option.splits if_splits)
  have "js_trim k = k"
    using k(3) by (intro js_trim_no_space) (auto simp: list_all_iff idempotency_key_char_no_space)
  with k show ?thesis
    by (simp add: parseIdempotencyKeyHeader_def Let_def IDEMPOTENCY_KEY_MIN_LENGTH_def IDEMPOTENCY_KEY_MAX_LENGTH_def
        IDEMPOTENCY_KEY_BODY_PATTERN_def)
qed

theorem parseIdempotencyKeyHeader_valid_witness:
  "parseIdempotencyKeyHeader (HString '' order-2026-07-0001 '') = Valid ''order-2026-07-0001'' \<and>
   parseIdempotencyKeyHeader (HString ''order-2026-07-0001'') = Valid ''order-2026-07-0001''"
proof -
  have "parseIdempotencyKeyHeader (HString '' order-2026-07-0001 '') = Valid ''order-2026-07-0001''"
    by code_simp
  from parseIdempotencyKeyHeader_valid [OF this] this show ?thesis by blast
qed

section \<open>Cache keys identify tenant, actor and client key\<close>

datatype actor = ApiKeyActor string | UserActor string | Anonymous

definition actor_of :: "IdempotencyScope \<Rightarrow> actor" where
  "actor_of scope = (if present (apiKeyPublicId scope) then ApiKeyActor (the (apiKeyPublicId scope))
     else if present (userId scope) then UserActor (the (userId scope)) else Anonymous)"

text \<open>The identifiers of a scope are public ids, as the authentication middleware sets them.\<close>

definition public_scope :: "IdempotencyScope \<Rightarrow> bool" where
  "public_scope scope \<longleftrightarrow> list_all (\<lambda>x. case x of None \<Rightarrow> True | Some i \<Rightarrow> PUBLIC_ID_REGEX i)
     [userId scope, organizationId scope, apiKeyPublicId scope]"

lemma PUBLIC_ID_REGEX_chars:
  assumes "PUBLIC_ID_REGEX s"
  shows "\<forall>c \<in> set s. is_lower c \<or> is_digit c \<or> c = CHR ''_''" and "21 < length s" and "s \<noteq> ''none''"
proof -
  let ?p = "takeWhile is_lower s" and ?r = "dropWhile is_lower s"
  have split: "s = ?p @ ?r" by simp
  have r: "length ?r = 22" "hd ?r = CHR ''_''" "list_all (\<lambda>c. is_lower c \<or> is_digit c) (tl ?r)"
    using assms by (simp_all add: PUBLIC_ID_REGEX_def PUBLIC_ID_LENGTH_def Let_def)
  then have "?r = CHR ''_'' # tl ?r" by (metis list.size(3) list.exhaust_sel zero_neq_numeral)
  then have "set ?r \<subseteq> insert (CHR ''_'') (set (tl ?r))" by (metis list.simps(15) set_eq_subset)
  then have *: "\<forall>c \<in> set ?p \<union> set ?r. is_lower c \<or> is_digit c \<or> c = CHR ''_''"
    using r(3) by (auto simp: list_all_iff dest: set_takeWhileD)
  show "\<forall>c \<in> set s. is_lower c \<or> is_digit c \<or> c = CHR ''_''"
    using * by (metis set_append split)
  show "21 < length s" using r(1) length_dropWhile_le [of is_lower s] by linarith
  then show "s \<noteq> ''none''" by auto
qed

lemma public_id_no_colon: "PUBLIC_ID_REGEX s \<Longrightarrow> CHR '':'' \<notin> set s"
  using PUBLIC_ID_REGEX_chars(1) [of s] by (auto simp: is_lower_def is_digit_def)

lemma public_id_no_dash: "PUBLIC_ID_REGEX s \<Longrightarrow> CHR ''-'' \<notin> set s"
  using PUBLIC_ID_REGEX_chars(1) [of s] by (auto simp: is_lower_def is_digit_def)

lemma split_at_first:
  assumes "c \<notin> set a" "c \<notin> set b" "a @ c # x = b @ c # y"
  shows "a = b \<and> x = y"
  using assms
proof (induction a arbitrary: b)
  case Nil
  then show ?case by (cases b) auto
next
  case (Cons d a)
  then show ?case by (cases b) auto
qed

definition org_segment :: "IdempotencyScope \<Rightarrow> string" where
  "org_segment scope = (case organizationId scope of Some x \<Rightarrow> x | None \<Rightarrow> ''none'')"

fun actor_segment :: "actor \<Rightarrow> string" where
  "actor_segment (ApiKeyActor k) = ''api-key:'' @ k"
| "actor_segment (UserActor u) = u"
| "actor_segment Anonymous = ''anonymous''"

lemma buildIdempotencyCacheKey_segments:
  "buildIdempotencyCacheKey k scope =
     ''idempotency:'' @ org_segment scope @ CHR '':'' # actor_segment (actor_of scope) @ CHR '':'' # k"
  by (simp add: buildIdempotencyCacheKey_def org_segment_def actor_of_def Let_def)

lemma actor_segment_cancel:
  assumes "case a of ApiKeyActor k \<Rightarrow> PUBLIC_ID_REGEX k | UserActor u \<Rightarrow> PUBLIC_ID_REGEX u | Anonymous \<Rightarrow> False"
    and "case b of ApiKeyActor k \<Rightarrow> PUBLIC_ID_REGEX k | UserActor u \<Rightarrow> PUBLIC_ID_REGEX u | Anonymous \<Rightarrow> False"
    and "actor_segment a @ CHR '':'' # x = actor_segment b @ CHR '':'' # y"
  shows "a = b \<and> x = y"
proof -
  have user_key: "u @ CHR '':'' # z \<noteq> ''api-key:'' @ w" if "PUBLIC_ID_REGEX u" for u z w
  proof
    assume eq: "u @ CHR '':'' # z = ''api-key:'' @ w"
    then have "u = ''api-key''"
      using split_at_first [of "CHR '':''" u "''api-key''" z w] public_id_no_colon [OF that] by simp
    with public_id_no_dash [OF that] show False by simp
  qed
  have same: "u = v \<and> z = w" if "PUBLIC_ID_REGEX u" "PUBLIC_ID_REGEX v" "u @ CHR '':'' # z = v @ CHR '':'' # w" for u v z w
    by (rule split_at_first [OF public_id_no_colon [OF that(1)] public_id_no_colon [OF that(2)] that(3)])
  show ?thesis
  proof (cases a)
    case a: (ApiKeyActor k)
    show ?thesis
    proof (cases b)
      case (ApiKeyActor l)
      with a assms same [of k l x y] show ?thesis by simp
    next
      case (UserActor u)
      with a assms user_key [of u y "k @ CHR '':'' # x"] show ?thesis by simp
    qed (use assms in simp)
  next
    case a: (UserActor u)
    show ?thesis
    proof (cases b)
      case (ApiKeyActor l)
      with a assms user_key [of u x "l @ CHR '':'' # y"] show ?thesis by simp
    next
      case (UserActor v)
      with a assms same [of u v x y] show ?thesis by simp
    qed (use assms in simp)
  qed (use assms in simp)
qed

text \<open>Two requests share a cache entry exactly when tenant, acting principal and client key agree:
  no key of one tenant or actor can collide with one of another, whatever characters the client
  puts in it.\<close>

theorem buildIdempotencyCacheKey_injective:
  assumes "public_scope s1" and "public_scope s2"
    and "hasAuthenticatedIdempotencyActor s1" and "hasAuthenticatedIdempotencyActor s2"
  shows "buildIdempotencyCacheKey k1 s1 = buildIdempotencyCacheKey k2 s2 \<longleftrightarrow>
           k1 = k2 \<and> organizationId s1 = organizationId s2 \<and> actor_of s1 = actor_of s2"
proof
  assume eq: "buildIdempotencyCacheKey k1 s1 = buildIdempotencyCacheKey k2 s2"
  have noc: "CHR '':'' \<notin> set (org_segment s)" if "public_scope s" for s
    using that public_id_no_colon by (auto simp: org_segment_def public_scope_def split: option.splits)
  have act: "case actor_of s of ApiKeyActor k \<Rightarrow> PUBLIC_ID_REGEX k | UserActor u \<Rightarrow> PUBLIC_ID_REGEX u | Anonymous \<Rightarrow> False"
    if "public_scope s" "hasAuthenticatedIdempotencyActor s" for s
    using that by (auto simp: actor_of_def public_scope_def hasAuthenticatedIdempotencyActor_def present_def
        split: option.splits)
  have org: "org_segment s1 = org_segment s2"
    and rest: "actor_segment (actor_of s1) @ CHR '':'' # k1 = actor_segment (actor_of s2) @ CHR '':'' # k2"
    using split_at_first [OF noc [OF assms(1)] noc [OF assms(2)]] eq
    by (simp_all add: buildIdempotencyCacheKey_segments)
  have "organizationId s1 = organizationId s2"
    using org assms(1,2) PUBLIC_ID_REGEX_chars(3)
    by (auto simp: org_segment_def public_scope_def split: option.splits)
  with actor_segment_cancel [OF act [OF assms(1,3)] act [OF assms(2,4)] rest]
  show "k1 = k2 \<and> organizationId s1 = organizationId s2 \<and> actor_of s1 = actor_of s2" by blast
next
  assume "k1 = k2 \<and> organizationId s1 = organizationId s2 \<and> actor_of s1 = actor_of s2"
  then show "buildIdempotencyCacheKey k1 s1 = buildIdempotencyCacheKey k2 s2"
    by (simp add: buildIdempotencyCacheKey_segments org_segment_def)
qed

definition user_scope :: IdempotencyScope where
  "user_scope = \<lparr>userId = Some ''usr_000000000000000000000'', organizationId = None, apiKeyPublicId = None\<rparr>"

definition key_scope :: IdempotencyScope where
  "key_scope = \<lparr>userId = None, organizationId = Some ''org_000000000000000000000'',
     apiKeyPublicId = Some ''key_000000000000000000000''\<rparr>"

theorem buildIdempotencyCacheKey_injective_witness:
  "buildIdempotencyCacheKey ''order-2026-07-0001'' user_scope \<noteq>
   buildIdempotencyCacheKey ''order-2026-07-0001'' key_scope"
proof -
  have "public_scope user_scope" "public_scope key_scope" "hasAuthenticatedIdempotencyActor user_scope"
    "hasAuthenticatedIdempotencyActor key_scope" by code_simp+
  from buildIdempotencyCacheKey_injective [OF this] show ?thesis
    by (simp add: user_scope_def key_scope_def)
qed


section \<open>The canonical serialisation is injective on JSON bodies\<close>

text \<open>A number's text: a digit or a minus sign, then digits, signs, points and exponents.\<close>

definition number_char :: "char \<Rightarrow> bool" where
  "number_char c \<longleftrightarrow> is_digit c \<or> c \<in> set ''+-.eE''"

definition number_text :: "string \<Rightarrow> bool" where
  "number_text n \<longleftrightarrow> n \<noteq> [] \<and> (is_digit (hd n) \<or> hd n = CHR ''-'') \<and> list_all number_char n"

text \<open>The values \<^verbatim>\<open>JSON.parse\<close> returns: no \<^verbatim>\<open>undefined\<close>, numbers that print as numbers.\<close>

fun json_value :: "js \<Rightarrow> bool" where
  "json_value JUndefined = False"
| "json_value (JNumber n) = number_text n"
| "json_value (JArray xs) = list_all json_value xs"
| "json_value (JObject es) = list_all (\<lambda>(k, v). json_value v) es"
| "json_value _ = True"

text \<open>The same value with every object's keys in order.\<close>

function js_norm :: "js \<Rightarrow> js" where
  "js_norm (JArray xs) = JArray (map js_norm xs)"
| "js_norm (JObject es) = JObject (map (\<lambda>(k, v). (k, js_norm v)) (sort_key fst es))"
| "js_norm JUndefined = JUndefined"
| "js_norm JNull = JNull"
| "js_norm (JBool b) = JBool b"
| "js_norm (JNumber n) = JNumber n"
| "js_norm (JString t) = JString t"
  by pat_completeness auto
termination
proof (relation "measure size", goal_cases)
  case (3 es x k v)
  then have "x \<in> set es" by simp
  with 3 show ?case
    by (auto simp: less_Suc_eq_le intro: size_list_estimation' [of "(k, v)"])
qed (auto simp: less_Suc_eq_le intro: size_list_estimation')

definition delimited :: "string \<Rightarrow> bool" where
  "delimited x \<longleftrightarrow> x = [] \<or> hd x \<in> set '',]}''"

definition cancels :: "js \<Rightarrow> bool" where
  "cancels v \<longleftrightarrow> (\<forall>w x y. json_value v \<longrightarrow> json_value w \<longrightarrow> delimited x \<longrightarrow> delimited y \<longrightarrow>
     canonicalSerializeForFingerprint v @ x = canonicalSerializeForFingerprint w @ y \<longrightarrow> js_norm v = js_norm w \<and> x = y)"

lemma number_cancel:
  assumes "list_all number_char n" "list_all number_char m" "delimited x" "delimited y" "n @ x = m @ y"
  shows "n = m \<and> x = y"
proof -
  have stop: "takeWhile number_char (k @ z) = k" if "list_all number_char k" "delimited z" for k z
  proof -
    have "takeWhile number_char z = []"
      using that(2) by (cases z) (auto simp: delimited_def number_char_def is_digit_def)
    with that(1) show ?thesis by (simp add: takeWhile_append2 list_all_iff)
  qed
  from stop [OF assms(1,3)] stop [OF assms(2,4)] assms(5) show ?thesis by auto
qed

text \<open>The first character tells the kind of value.\<close>

definition char_kind :: "char \<Rightarrow> nat" where
  "char_kind c = (if is_digit c \<or> c = CHR ''-'' then 0 else if c = CHR ''n'' then 1 else if c = CHR ''t'' then 2
     else if c = CHR ''f'' then 3 else if c = quote then 4 else if c = CHR ''['' then 5 else if c = CHR ''{'' then 6 else 7)"

fun js_kind :: "js \<Rightarrow> nat" where
  "js_kind (JNumber _) = 0"
| "js_kind JNull = 1"
| "js_kind (JBool b) = (if b then 2 else 3)"
| "js_kind (JString _) = 4"
| "js_kind JUndefined = 4"
| "js_kind (JArray _) = 5"
| "js_kind (JObject _) = 6"

lemma char_kind_simps [simp]:
  "char_kind (CHR ''n'') = 1" "char_kind (CHR ''t'') = 2" "char_kind (CHR ''f'') = 3" "char_kind quote = 4"
  "char_kind (CHR ''['') = 5" "char_kind (CHR ''{'') = 6" "char_kind (CHR '']'') = 7" "char_kind (CHR ''}'') = 7"
  by (simp_all add: char_kind_def quote_def is_digit_def)

lemma canonical_first:
  assumes "json_value v"
  shows "\<exists>c t. canonicalSerializeForFingerprint v = c # t \<and> char_kind c = js_kind v"
proof (cases v)
  case (JNumber n)
  with assms obtain c t where "n = c # t" "is_digit c \<or> c = CHR ''-''"
    by (cases n) (auto simp: number_text_def)
  with JNumber show ?thesis by (simp add: char_kind_def)
qed (simp_all add: json_string_def)

lemma delimited_Cons: "delimited (c # x) \<longleftrightarrow> c \<in> set '',]}''"
  by (simp add: delimited_def)

text \<open>A comma-separated list closed by a bracket, whose elements cancel, cancels.\<close>

lemma join_with_simps:
  "join_with sep [] = []" "join_with sep (a # as) = a @ concat (map (\<lambda>s. sep @ s) as)"
  by (simp_all add: join_with_def)

lemma tail_cancel:
  assumes "\<And>a b x y. a \<in> set as \<Longrightarrow> b \<in> set bs \<Longrightarrow> delimited x \<Longrightarrow> delimited y \<Longrightarrow> f a @ x = f b @ y \<Longrightarrow> g a = g b \<and> x = y"
    and "close \<in> set '']}''"
    and "concat (map (\<lambda>a. '','' @ f a) as) @ close # x = concat (map (\<lambda>a. '','' @ f a) bs) @ close # y"
  shows "map g as = map g bs \<and> x = y"
  using assms
proof (induction as arbitrary: bs)
  case Nil
  then show ?case by (cases bs) auto
next
  case (Cons a as)
  obtain b bs' where bs: "bs = b # bs'" using Cons.prems(2,3) by (cases bs) auto
  have d: "delimited (concat (map (\<lambda>a. '','' @ f a) as') @ close # z)" for as' z
    using Cons.prems(2) by (cases as') (auto simp: delimited_def)
  have "g a = g b \<and> concat (map (\<lambda>a. '','' @ f a) as) @ close # x = concat (map (\<lambda>a. '','' @ f a) bs') @ close # y"
    using Cons.prems(3) by (intro Cons.prems(1) d) (simp_all add: bs)
  with Cons.IH [of bs'] Cons.prems(1,2) bs show ?case by auto
qed

lemma join_cancel:
  assumes el: "\<And>a b x y. a \<in> set as \<Longrightarrow> b \<in> set bs \<Longrightarrow> delimited x \<Longrightarrow> delimited y \<Longrightarrow> f a @ x = f b @ y \<Longrightarrow> g a = g b \<and> x = y"
    and ne: "\<And>a. a \<in> set as \<union> set bs \<Longrightarrow> \<exists>c t. f a = c # t \<and> c \<notin> set '']}''"
    and cl: "close \<in> set '']}''"
    and eq: "join_with '','' (map f as) @ close # x = join_with '','' (map f bs) @ close # y"
  shows "map g as = map g bs \<and> x = y"
proof -
  have nonempty: "join_with '','' (map f (a # as')) @ z \<noteq> close # z'" if "a \<in> set as \<union> set bs" for a as' z z'
    using ne [OF that] cl by (auto simp: join_with_simps)
  have tl: "concat (map (\<lambda>s. '','' @ s) (map f as')) = concat (map (\<lambda>a. '','' @ f a) as')" for as'
    by (simp add: comp_def)
  show ?thesis
  proof (cases as)
    case Nil
    then show ?thesis using eq nonempty by (cases bs) (auto simp: join_with_simps(1) dest: sym)
  next
    case a: (Cons a as')
    obtain b bs' where b: "bs = b # bs'"
      using eq nonempty a by (cases bs) (auto simp: join_with_simps(1))
    have d: "delimited (concat (map (\<lambda>a. '','' @ f a) ys) @ close # z)" for ys z
      using cl by (cases ys) (auto simp: delimited_def)
    have *: "g a = g b \<and> concat (map (\<lambda>a. '','' @ f a) as') @ close # x = concat (map (\<lambda>a. '','' @ f a) bs') @ close # y"
      using eq by (intro el d) (simp_all add: a b join_with_simps comp_def)
    have "map g as' = map g bs' \<and> x = y"
      using * el cl by (intro tail_cancel [where f = f and close = close]) (auto simp: a b)
    with * a b show ?thesis by simp
  qed
qed


lemma js_kind_le: "js_kind v < 7"
  by (cases v) simp_all

lemma canonical_not_close: "json_value v \<Longrightarrow> \<exists>c t. canonicalSerializeForFingerprint v = c # t \<and> c \<notin> set '']}''"
  using canonical_first [of v] js_kind_le [of v] by fastforce

lemma same_kind:
  assumes "json_value v" "json_value w"
    and "canonicalSerializeForFingerprint v @ x = canonicalSerializeForFingerprint w @ y"
  shows "js_kind w = js_kind v"
  using canonical_first [OF assms(1)] canonical_first [OF assms(2)] assms(3) by fastforce

lemma js_kind_cases:
  "js_kind w = 0 \<Longrightarrow> \<exists>n. w = JNumber n" "js_kind w = Suc 0 \<Longrightarrow> w = JNull"
  "js_kind w = 2 \<Longrightarrow> w = JBool True" "js_kind w = 3 \<Longrightarrow> w = JBool False"
  "js_kind w = 4 \<Longrightarrow> json_value w \<Longrightarrow> \<exists>t. w = JString t"
  "js_kind w = 5 \<Longrightarrow> \<exists>xs. w = JArray xs" "js_kind w = 6 \<Longrightarrow> \<exists>es. w = JObject es"
  by (cases w; simp split: if_splits)+

lemma cancels_array:
  assumes "\<And>a. a \<in> set xs \<Longrightarrow> cancels a"
  shows "cancels (JArray xs)"
  unfolding cancels_def
proof (intro allI impI)
  fix w x y
  assume v: "json_value (JArray xs)" and w: "json_value w"
    and eq: "canonicalSerializeForFingerprint (JArray xs) @ x = canonicalSerializeForFingerprint w @ y"
  obtain ys where ys: "w = JArray ys"
    using same_kind [OF v w eq] js_kind_cases [of w] w by auto
  have "map js_norm xs = map js_norm ys \<and> x = y"
  proof (rule join_cancel [where f = canonicalSerializeForFingerprint and close = "CHR '']''"])
    show "join_with '','' (map canonicalSerializeForFingerprint xs) @ CHR '']'' # x =
            join_with '','' (map canonicalSerializeForFingerprint ys) @ CHR '']'' # y"
      using eq ys by simp
  next
    fix a b z z'
    assume "a \<in> set xs" "b \<in> set ys" "delimited z" "delimited z'"
      "canonicalSerializeForFingerprint a @ z = canonicalSerializeForFingerprint b @ z'"
    then show "js_norm a = js_norm b \<and> z = z'"
      using assms [of a] v w ys unfolding cancels_def by (auto simp: list_all_iff)
  qed (use v w ys canonical_not_close in \<open>auto simp: list_all_iff\<close>)
  with ys show "js_norm (JArray xs) = js_norm w \<and> x = y" by simp
qed

lemma entry_cancel:
  assumes "cancels v" "json_value v" "json_value w" "delimited x" "delimited y"
    and "(json_string k @ '':'' @ canonicalSerializeForFingerprint v) @ x =
         (json_string l @ '':'' @ canonicalSerializeForFingerprint w) @ y"
  shows "(k, js_norm v) = (l, js_norm w) \<and> x = y"
proof -
  have "k = l \<and> '':'' @ (canonicalSerializeForFingerprint v @ x) = '':'' @ (canonicalSerializeForFingerprint w @ y)"
    by (rule json_string_cancel) (use assms(6) in \<open>simp only: append_assoc\<close>)
  then have "k = l" and "canonicalSerializeForFingerprint v @ x = canonicalSerializeForFingerprint w @ y"
    by simp_all
  moreover have "js_norm v = js_norm w \<and> x = y"
    by (rule assms(1) [unfolded cancels_def, rule_format]) (fact assms(2-5) calculation(2))+
  ultimately show ?thesis by simp
qed

lemma cancels_object:
  assumes "\<And>k a. (k, a) \<in> set es \<Longrightarrow> cancels a"
  shows "cancels (JObject es)"
  unfolding cancels_def
proof (intro allI impI)
  fix w x y
  let ?f = "\<lambda>(k, v). json_string k @ '':'' @ canonicalSerializeForFingerprint v"
  let ?g = "\<lambda>(k, v). (k, js_norm v)"
  assume v: "json_value (JObject es)" and w: "json_value w"
    and eq: "canonicalSerializeForFingerprint (JObject es) @ x = canonicalSerializeForFingerprint w @ y"
  obtain fs where fs: "w = JObject fs"
    using same_kind [OF v w eq] js_kind_cases [of w] w by auto
  have "map ?g (sort_key fst es) = map ?g (sort_key fst fs) \<and> x = y"
  proof (rule join_cancel [where f = ?f and close = "CHR ''}''"])
    show "join_with '','' (map ?f (sort_key fst es)) @ CHR ''}'' # x = join_with '','' (map ?f (sort_key fst fs)) @ CHR ''}'' # y"
      using eq fs by simp
  next
    fix a b z z'
    assume *: "a \<in> set (sort_key fst es)" "b \<in> set (sort_key fst fs)" "delimited z" "delimited z'" "?f a @ z = ?f b @ z'"
    obtain k u l t where "a = (k, u)" "b = (l, t)" by fastforce
    with * v w fs assms show "?g a = ?g b \<and> z = z'"
      using entry_cancel [of u t z z' k l] by (auto simp: list_all_iff)
  next
    fix a
    assume "a \<in> set (sort_key fst es) \<union> set (sort_key fst fs)"
    then show "\<exists>c t. ?f a = c # t \<and> c \<notin> set '']}''"
      by (cases a) (auto simp: json_string_def quote_def)
  qed simp
  with fs show "js_norm (JObject es) = js_norm w \<and> x = y" by simp
qed

lemma cancels_all: "cancels v"
proof (induction v rule: canonicalSerializeForFingerprint.induct)
  case (6 xs)
  then show ?case by (rule cancels_array)
next
  case (7 es)
  show ?case by (rule cancels_object) (use 7 in auto)
next
  case (4 n)
  show ?case
    unfolding cancels_def
  proof (intro allI impI)
    fix w x y
    assume v: "json_value (JNumber n)" and w: "json_value w" and d: "delimited x" "delimited y"
      and eq: "canonicalSerializeForFingerprint (JNumber n) @ x = canonicalSerializeForFingerprint w @ y"
    obtain m where "w = JNumber m"
      using same_kind [OF v w eq] js_kind_cases [of w] w by auto
    with v w d eq number_cancel [of n m x y] show "js_norm (JNumber n) = js_norm w \<and> x = y"
      by (simp add: number_text_def)
  qed
next
  case (5 s)
  show ?case
    unfolding cancels_def
  proof (intro allI impI)
    fix w x y
    assume v: "json_value (JString s)" and w: "json_value w"
      and eq: "canonicalSerializeForFingerprint (JString s) @ x = canonicalSerializeForFingerprint w @ y"
    obtain t where "w = JString t"
      using same_kind [OF v w eq] js_kind_cases [of w] w by auto
    with eq json_string_cancel [of s x t y] show "js_norm (JString s) = js_norm w \<and> x = y" by simp
  qed
next
  case 2
  show ?case
    unfolding cancels_def
  proof (intro allI impI)
    fix w x y
    assume w: "json_value w" and eq: "canonicalSerializeForFingerprint JNull @ x = canonicalSerializeForFingerprint w @ y"
    have "w = JNull"
      using same_kind [OF _ w eq] js_kind_cases(2) [of w] by simp
    with eq show "js_norm JNull = js_norm w \<and> x = y" by simp
  qed
next
  case (3 b)
  show ?case
    unfolding cancels_def
  proof (intro allI impI)
    fix w x y
    assume w: "json_value w" and eq: "canonicalSerializeForFingerprint (JBool b) @ x = canonicalSerializeForFingerprint w @ y"
    have "w = JBool b"
      using same_kind [OF _ w eq] js_kind_cases(3,4) [of w] by (cases b) simp_all
    with eq show "js_norm (JBool b) = js_norm w \<and> x = y" by simp
  qed
qed (simp add: cancels_def)

lemma canonical_norm: "canonicalSerializeForFingerprint (js_norm v) = canonicalSerializeForFingerprint v"
proof (induction v rule: canonicalSerializeForFingerprint.induct)
  case (6 xs)
  then show ?case by (simp add: comp_def cong: map_cong)
next
  case (7 es)
  let ?n = "map (\<lambda>(k, v). (k, js_norm v)) (sort_key fst es)"
  have keys: "map fst ?n = map fst (sort_key fst es)"
    by (simp add: case_prod_beta comp_def)
  have "sort_key fst ?n = ?n"
    by (rule sort_key_id_if_sorted) (simp only: keys sorted_sort_key)
  then show ?case
    using 7 by (auto simp: comp_def case_prod_beta intro!: arg_cong [where f = "join_with '',''"] map_cong)
qed simp_all

text \<open>On JSON bodies (what a parsed request body can be) the canonical serialisation identifies
  the body up to the order of object keys: equal serialisations exactly for bodies that differ in
  that order only, so two structurally different bodies cannot replay each other through it.\<close>

theorem canonicalSerialize_injective:
  assumes "json_value v" and "json_value w"
  shows "canonicalSerializeForFingerprint v = canonicalSerializeForFingerprint w \<longleftrightarrow> js_norm v = js_norm w"
proof
  assume "canonicalSerializeForFingerprint v = canonicalSerializeForFingerprint w"
  with cancels_all [of v, unfolded cancels_def, rule_format, of w "[]" "[]"] assms
  show "js_norm v = js_norm w" by (simp add: delimited_def)
next
  assume "js_norm v = js_norm w"
  then show "canonicalSerializeForFingerprint v = canonicalSerializeForFingerprint w"
    by (metis canonical_norm)
qed

theorem canonicalSerialize_injective_witness:
  "canonicalSerializeForFingerprint (JObject [(''b'', JNumber ''2''), (''a'', JArray [JNull])]) =
   canonicalSerializeForFingerprint (JObject [(''a'', JArray [JNull]), (''b'', JNumber ''2'')])"
proof -
  have "json_value (JObject [(''b'', JNumber ''2''), (''a'', JArray [JNull])])"
    "json_value (JObject [(''a'', JArray [JNull]), (''b'', JNumber ''2'')])"
    by (simp_all add: number_text_def number_char_def is_digit_def)
  from canonicalSerialize_injective [OF this] show ?thesis
    by (simp add: less_char_def less_list_code)
qed

text \<open>The serialisation is not injective beyond JSON bodies: a field that is \<^verbatim>\<open>undefined\<close> and a field
  holding the text \<^verbatim>\<open>__undefined__\<close> serialise alike, so the two requests share every fingerprint.\<close>

theorem canonicalSerialize_undefined_collision:
  "JObject [(''a'', JUndefined)] \<noteq> JObject [(''a'', JString ''__undefined__'')] \<and>
   buildIdempotencyRequestFingerprint sha256hex m route (JObject [(''a'', JUndefined)]) =
   buildIdempotencyRequestFingerprint sha256hex m route (JObject [(''a'', JString ''__undefined__'')])"
  by (simp add: buildIdempotencyRequestFingerprint_def)

end
