(* ===== verification/Idempotency.thy ===== *)
theory Idempotency
  imports Prelude Idempotency_Key
begin

text \<open>
  The idempotency middleware, \<^verbatim>\<open>src/src/shared/middlewares/core/idempotency.middleware.ts\<close>, with
  \<^verbatim>\<open>idempotency-required.util.ts\<close> and the post-response ordering of
  \<^verbatim>\<open>request-lifecycle.middleware.ts\<close>.  The store is Redis: the entry under a cache key is a JSON
  document (\<^const>\<open>None\<close> stands for a text \<^verbatim>\<open>JSON.parse\<close> rejects), the per-actor counter an integer.
  The handlers run in the order Fastify runs them (\<^verbatim>\<open>onRequest\<close>, \<^verbatim>\<open>preHandler\<close>, handler, \<^verbatim>\<open>onSend\<close>,
  \<^verbatim>\<open>onResponse\<close>); each Redis call has its own instant and its own availability flag.  The second half
  is the step relation of many requests that share one cache key, interleaved at Redis calls, with
  the theorems on at-most-once execution.  JSON numbers are their decimal texts.
\<close>

section \<open>Constants and data\<close>

definition WRITE_METHODS :: "string list" where
  "WRITE_METHODS = [''POST'', ''PUT'', ''PATCH'', ''DELETE'']"

definition IDEMPOTENCY_PLACEHOLDER_TTL_SECONDS :: int where "IDEMPOTENCY_PLACEHOLDER_TTL_SECONDS = 60"
definition IDEMPOTENCY_RESPONSE_CACHE_TTL_SECONDS :: int where "IDEMPOTENCY_RESPONSE_CACHE_TTL_SECONDS = 86400"
definition IDEMPOTENCY_CACHED_BODY_BYTES :: nat where "IDEMPOTENCY_CACHED_BODY_BYTES = 102400"
definition IDEMPOTENCY_STORE_UNAVAILABLE_ALERT_INTERVAL_MS :: millis where
  "IDEMPOTENCY_STORE_UNAVAILABLE_ALERT_INTERVAL_MS = 30000"
definition IDEMPOTENCY_PER_ACTOR_CAP_ALERT_INTERVAL_MS :: millis where
  "IDEMPOTENCY_PER_ACTOR_CAP_ALERT_INTERVAL_MS = 60000"

datatype IdempotencyEntry =
    CompletedIdempotencyEntry (ce_statusCode: string) (ce_body: string) (ce_headers: "(string \<times> js) list")
      (entry_fingerprint: "string option")
  | InFlightIdempotencyEntry (fe_claimedAt: string) (fe_requestId: "string option") (entry_fingerprint: "string option")

record PendingIdempotencyCompletion =
  pc_statusCode :: nat
  pc_body :: string
  pc_headers :: "(string \<times> js) list"

datatype RequestAuth =
    AuthUser (au_userId: string) (au_organizationPublicId: "string option")
  | AuthApiKey (ak_apiKeyPublicId: string) (au_organizationPublicId: "string option")

text \<open>What the middleware reads of a request, and the fields it keeps on it.\<close>

record FastifyRequest =
  rq_method :: string
  rq_routeUrl :: "string option"
  rq_url :: "string option"
  rq_idempotencyHeader :: header
  rq_idempotencyRequired :: bool
  rq_auth :: "RequestAuth option"
  rq_organizationId :: "string option"
  rq_body :: js
  rq_id :: string

record RequestWithIdempotency =
  ri_key :: "string option"
  ri_fingerprint :: "string option"
  ri_scope :: "IdempotencyScope option"
  ri_claimed :: bool
  ri_pending :: "PendingIdempotencyCompletion option"

definition fresh_fields :: RequestWithIdempotency where
  "fresh_fields = \<lparr>ri_key = None, ri_fingerprint = None, ri_scope = None, ri_claimed = False, ri_pending = None\<rparr>"

datatype ErrorBody = ErrorBody (eb_type: string) (eb_code: string) (eb_retryable: "bool option")
  (eb_retry_after_seconds: "nat option") (eb_request_id: string)

datatype ReplyBody = ErrorReply ErrorBody | CachedReply js

record FastifyReply =
  rp_status :: string
  rp_headers :: "(string \<times> js) list"
  rp_body :: ReplyBody

text \<open>A hook lets the request go on, answers it, throws an application error, or throws a
  \<^verbatim>\<open>SyntaxError\<close> of \<^verbatim>\<open>JSON.parse\<close>.\<close>

datatype HookOutcome = Proceed | Sent FastifyReply | Thrown app_error | SyntaxError

record IdempotencyWorld =
  iw_entries :: "js option redis"
  iw_rates :: "int redis"
  iw_claims :: nat              \<comment> \<open>sum of the claim-counter shards\<close>
  iw_lastStoreAlert :: millis
  iw_lastCapAlert :: millis
  iw_sentry :: "string list"

record IdempotencyEnv =
  ie_cap :: int
  ie_windowSeconds :: nat
  ie_sha256hex :: "string \<Rightarrow> string"
  ie_json_parse :: "string \<Rightarrow> js option"

section \<open>Entries\<close>

definition parseCompletedIdempotencyEntry :: "(string \<times> js) list \<Rightarrow> IdempotencyEntry option" where
  "parseCompletedIdempotencyEntry parsed =
     (case (map_of parsed ''statusCode'', map_of parsed ''body'', map_of parsed ''headers'') of
        (Some (JNumber c), Some (JString b), Some h) \<Rightarrow>
          (let fp = (case map_of parsed ''fingerprint'' of Some (JString f) \<Rightarrow> Some f | _ \<Rightarrow> None) in
           case h of
             JObject hs \<Rightarrow> Some (CompletedIdempotencyEntry c b hs fp)
           | JArray xs \<Rightarrow> Some (CompletedIdempotencyEntry c b (zip (map dec [0..<length xs]) xs) fp)
           | _ \<Rightarrow> None)
      | _ \<Rightarrow> None)"

definition parseInFlightIdempotencyEntry :: "(string \<times> js) list \<Rightarrow> IdempotencyEntry" where
  "parseInFlightIdempotencyEntry parsed = InFlightIdempotencyEntry
     (case map_of parsed ''claimedAt'' of Some (JNumber t) \<Rightarrow> t | _ \<Rightarrow> ''0'')
     (case map_of parsed ''requestId'' of Some (JString i) \<Rightarrow> Some i | _ \<Rightarrow> None)
     (case map_of parsed ''fingerprint'' of Some (JString f) \<Rightarrow> Some f | _ \<Rightarrow> None)"

definition parseIdempotencyEntry :: "js option \<Rightarrow> IdempotencyEntry" where
  "parseIdempotencyEntry raw =
     (let unknown = InFlightIdempotencyEntry ''0'' None None in
      case raw of
        Some (JObject parsed) \<Rightarrow>
          (if map_of parsed ''state'' = Some (JString ''completed'') then
             (case parseCompletedIdempotencyEntry parsed of Some e \<Rightarrow> e | None \<Rightarrow> unknown)
           else if map_of parsed ''state'' = Some (JString ''in_flight'') then parseInFlightIdempotencyEntry parsed
           else unknown)
      | _ \<Rightarrow> unknown)"

text \<open>\<^verbatim>\<open>JSON.stringify\<close> of the entries the middleware writes.\<close>

definition fingerprint_field :: "string option \<Rightarrow> (string \<times> js) list" where
  "fingerprint_field fp = (case fp of None \<Rightarrow> [] | Some f \<Rightarrow> [(''fingerprint'', JString f)])"

fun stringify_entry :: "IdempotencyEntry \<Rightarrow> js option" where
  "stringify_entry (CompletedIdempotencyEntry c b hs fp) = Some (JObject
     ([(''state'', JString ''completed''), (''statusCode'', JNumber c), (''body'', JString b),
       (''headers'', JObject hs)] @ fingerprint_field fp))"
| "stringify_entry (InFlightIdempotencyEntry t i fp) = Some (JObject
     ([(''state'', JString ''in_flight''), (''claimedAt'', JNumber t)] @
      (case i of None \<Rightarrow> [] | Some j \<Rightarrow> [(''requestId'', JString j)]) @ fingerprint_field fp))"

section \<open>Required keys and scope\<close>

definition assertIdempotencyKeyPresentWhenRequired :: "FastifyRequest \<Rightarrow> app_error option" where
  "assertIdempotencyKeyPresentWhenRequired request =
     (if \<not> rq_idempotencyRequired request then None
      else case parseIdempotencyKeyHeader (rq_idempotencyHeader request) of
             Absent \<Rightarrow> Some (UnprocessableEntityError ''errors:idempotencyKeyRequired'')
           | Invalid \<Rightarrow> Some (UnprocessableEntityError ''errors:idempotencyKeyInvalid'')
           | Valid _ \<Rightarrow> None)"

definition resolveIdempotencyScope :: "FastifyRequest \<Rightarrow> IdempotencyScope" where
  "resolveIdempotencyScope request =
     \<lparr>userId = (case rq_auth request of Some (AuthUser u _) \<Rightarrow> Some u | _ \<Rightarrow> None),
      organizationId = (case Option.bind (rq_auth request) au_organizationPublicId of
                          Some i \<Rightarrow> Some i | None \<Rightarrow> rq_organizationId request),
      apiKeyPublicId = (case rq_auth request of Some (AuthApiKey k _) \<Rightarrow> Some k | _ \<Rightarrow> None)\<rparr>"

definition isWriteRouteMethod :: "string list \<Rightarrow> bool" where
  "isWriteRouteMethod methods \<longleftrightarrow> list_ex (\<lambda>item. item \<in> set WRITE_METHODS) methods"

definition resolveIdempotencyRoutePath :: "FastifyRequest \<Rightarrow> string" where
  "resolveIdempotencyRoutePath request =
     (case rq_routeUrl request of
        Some (c # cs) \<Rightarrow> c # cs
      | _ \<Rightarrow> (let pathOnly = (case rq_url request of None \<Rightarrow> [] | Some u \<Rightarrow> takeWhile (\<lambda>c. c \<noteq> CHR ''?'') u)
              in if length pathOnly > 0 then pathOnly else ''/''))"

section \<open>Replies\<close>

definition buildIdempotencyErrorBody ::
    "FastifyRequest \<Rightarrow> string \<Rightarrow> string \<Rightarrow> bool option \<Rightarrow> nat option \<Rightarrow> ReplyBody" where
  "buildIdempotencyErrorBody request type1 code retryable retryAfter =
     ErrorReply (ErrorBody type1 code retryable retryAfter (rq_id request))"

definition replay_headers :: "IdempotencyEntry \<Rightarrow> (string \<times> js) list" where
  "replay_headers response = ce_headers response @ [(''x-idempotency-replay'', JString ''true'')]"

text \<open>\<^const>\<open>None\<close>: \<^verbatim>\<open>JSON.parse(response.body)\<close> throws.\<close>

definition sendCachedIdempotencyResponse :: "(string \<Rightarrow> js option) \<Rightarrow> IdempotencyEntry \<Rightarrow> FastifyReply option" where
  "sendCachedIdempotencyResponse json_parse response =
     (case json_parse (ce_body response) of
        None \<Rightarrow> None
      | Some body \<Rightarrow> Some \<lparr>rp_status = ce_statusCode response, rp_headers = replay_headers response,
                         rp_body = CachedReply body\<rparr>)"

definition sendInFlightConflict :: "FastifyRequest \<Rightarrow> FastifyReply" where
  "sendInFlightConflict request = \<lparr>rp_status = ''409'', rp_headers = [],
     rp_body = buildIdempotencyErrorBody request ''request_error'' ''conflict_in_flight'' None None\<rparr>"

definition sendIdempotencyKeyReuseConflict :: "FastifyRequest \<Rightarrow> FastifyReply" where
  "sendIdempotencyKeyReuseConflict request = \<lparr>rp_status = ''422'', rp_headers = [],
     rp_body = buildIdempotencyErrorBody request ''request_error'' ''idempotency_key_reuse'' None None\<rparr>"

definition sendIdempotencyPerActorCapExceeded :: "IdempotencyEnv \<Rightarrow> FastifyRequest \<Rightarrow> FastifyReply" where
  "sendIdempotencyPerActorCapExceeded env request =
     \<lparr>rp_status = ''429'', rp_headers = [(''Retry-After'', JString (dec (ie_windowSeconds env)))],
      rp_body = buildIdempotencyErrorBody request ''rate_limit_error'' ''idempotency_per_actor_cap''
        (Some True) (Some (ie_windowSeconds env))\<rparr>"

definition alertIdempotencyStoreUnavailable :: "millis \<Rightarrow> IdempotencyWorld \<Rightarrow> IdempotencyWorld" where
  "alertIdempotencyStoreUnavailable now w =
     (if now - iw_lastStoreAlert w < IDEMPOTENCY_STORE_UNAVAILABLE_ALERT_INTERVAL_MS then w
      else w\<lparr>iw_lastStoreAlert := now, iw_sentry := iw_sentry w @ [''idempotency.cache.unavailable'']\<rparr>)"

definition alertIdempotencyPerActorCapExceeded :: "millis \<Rightarrow> IdempotencyWorld \<Rightarrow> IdempotencyWorld" where
  "alertIdempotencyPerActorCapExceeded now w =
     (if now - iw_lastCapAlert w < IDEMPOTENCY_PER_ACTOR_CAP_ALERT_INTERVAL_MS then w
      else w\<lparr>iw_lastCapAlert := now, iw_sentry := iw_sentry w @ [''idempotency.per_actor_cap.exceeded'']\<rparr>)"

text \<open>The headers argument holds what was already set on the reply when the store call threw.\<close>

definition respondIdempotencyStoreUnavailable ::
    "millis \<Rightarrow> FastifyRequest \<Rightarrow> (string \<times> js) list \<Rightarrow> IdempotencyWorld \<Rightarrow> FastifyReply \<times> IdempotencyWorld" where
  "respondIdempotencyStoreUnavailable now request headers w =
     (\<lparr>rp_status = ''503'', rp_headers = headers @ [(''Retry-After'', JString ''2'')],
       rp_body = buildIdempotencyErrorBody request ''service_error'' ''service_unavailable'' (Some True) (Some 2)\<rparr>,
      alertIdempotencyStoreUnavailable now w)"

section \<open>The claim\<close>

text \<open>The Lua script of the per-actor cap.\<close>

definition per_actor_check_and_incr :: "millis \<Rightarrow> int redis \<Rightarrow> string \<Rightarrow> int \<Rightarrow> int \<Rightarrow> int \<times> int redis" where
  "per_actor_check_and_incr now r k cap windowSeconds =
     (let count = (case redis_get now r k of None \<Rightarrow> 0 | Some c \<Rightarrow> c) in
      if count \<ge> cap then (-1, r) else incrementWithExpiryOnFirst now r k windowSeconds)"

definition enforceIdempotencyPerActorCap ::
    "IdempotencyEnv \<Rightarrow> bool \<Rightarrow> millis \<Rightarrow> IdempotencyScope \<Rightarrow> IdempotencyWorld \<Rightarrow> bool \<times> IdempotencyWorld" where
  "enforceIdempotencyPerActorCap env up now scope w =
     (case buildIdempotencyActorRateKey scope of
        None \<Rightarrow> (False, w)
      | Some actorRateKey \<Rightarrow>
          (if \<not> up then (False, w)
           else let (result, r) = per_actor_check_and_incr now (iw_rates w) actorRateKey (ie_cap env) (int (ie_windowSeconds env));
                    w1 = w\<lparr>iw_rates := r\<rparr>
                in if result = -1 then (True, alertIdempotencyPerActorCapExceeded now w1) else (False, w1)))"

text \<open>The hit on a cached entry; \<^const>\<open>None\<close> when replaying throws.\<close>

definition serveIdempotencyCacheHit ::
    "IdempotencyEnv \<Rightarrow> FastifyRequest \<Rightarrow> IdempotencyEntry \<Rightarrow> string \<Rightarrow> FastifyReply option" where
  "serveIdempotencyCacheHit env request entry requestFingerprint =
     (if entry_fingerprint entry \<noteq> None \<and> entry_fingerprint entry \<noteq> Some requestFingerprint
      then Some (sendIdempotencyKeyReuseConflict request)
      else case entry of
             CompletedIdempotencyEntry _ _ _ _ \<Rightarrow> sendCachedIdempotencyResponse (ie_json_parse env) entry
           | InFlightIdempotencyEntry _ _ _ \<Rightarrow> Some (sendInFlightConflict request))"

definition handleIdempotencyClaimRace ::
    "IdempotencyEnv \<Rightarrow> bool \<Rightarrow> millis \<Rightarrow> FastifyRequest \<Rightarrow> string \<Rightarrow> string \<Rightarrow> IdempotencyWorld \<Rightarrow> HookOutcome" where
  "handleIdempotencyClaimRace env up now request cacheKey requestFingerprint w =
     (let raceEntry = (if \<not> up then None else map_option parseIdempotencyEntry (redis_get now (iw_entries w) cacheKey));
          conflict = Sent \<lparr>rp_status = ''409'', rp_headers = [],
            rp_body = buildIdempotencyErrorBody request ''request_error'' ''conflict'' None None\<rparr>
      in case raceEntry of
           None \<Rightarrow> conflict
         | Some e \<Rightarrow>
             (if entry_fingerprint e \<noteq> None \<and> entry_fingerprint e \<noteq> Some requestFingerprint
              then Sent (sendIdempotencyKeyReuseConflict request)
              else case e of
                     CompletedIdempotencyEntry _ _ _ _ \<Rightarrow>
                       (case sendCachedIdempotencyResponse (ie_json_parse env) e of Some r \<Rightarrow> Sent r | None \<Rightarrow> SyntaxError)
                   | InFlightIdempotencyEntry _ _ _ \<Rightarrow> conflict))"

text \<open>The pre-handler in the pieces its Redis calls cut it into.  \<^verbatim>\<open>claim_prepare\<close> is everything
  before the first call: an outcome, or the cache key with the fields set on the request.\<close>

definition claim_prepare ::
    "IdempotencyEnv \<Rightarrow> FastifyRequest \<Rightarrow> RequestWithIdempotency \<Rightarrow>
     HookOutcome + string \<times> string \<times> IdempotencyScope \<times> RequestWithIdempotency" where
  "claim_prepare env request f =
     (case assertIdempotencyKeyPresentWhenRequired request of
        Some e \<Rightarrow> Inl (Thrown e)
      | None \<Rightarrow>
          (case ri_key f of
             None \<Rightarrow> Inl Proceed
           | Some idempotencyKey \<Rightarrow>
               (let routePath = resolveIdempotencyRoutePath request; scope = resolveIdempotencyScope request in
                if isIdempotencyRouteExcluded routePath then Inl Proceed
                else if \<not> hasAuthenticatedIdempotencyActor scope then Inl Proceed
                else let fp = buildIdempotencyRequestFingerprint (ie_sha256hex env) (rq_method request) routePath (rq_body request)
                     in Inr (buildIdempotencyCacheKey idempotencyKey scope, fp, scope,
                             f\<lparr>ri_fingerprint := Some fp, ri_scope := Some scope\<rparr>))))"

text \<open>The \<^verbatim>\<open>GET\<close>: \<^const>\<open>None\<close> for a miss.\<close>

definition claim_lookup ::
    "IdempotencyEnv \<Rightarrow> bool \<Rightarrow> millis \<Rightarrow> FastifyRequest \<Rightarrow> string \<Rightarrow> string \<Rightarrow> IdempotencyWorld \<Rightarrow>
     FastifyReply option \<times> IdempotencyWorld" where
  "claim_lookup env up now request cacheKey fp w =
     (if \<not> up then map_prod Some id (respondIdempotencyStoreUnavailable now request [] w)
      else case redis_get now (iw_entries w) cacheKey of
             None \<Rightarrow> (None, w)
           | Some raw \<Rightarrow>
               (let e = parseIdempotencyEntry raw in
                case serveIdempotencyCacheHit env request e fp of
                  Some r \<Rightarrow> (Some r, w)
                | None \<Rightarrow> map_prod Some id (respondIdempotencyStoreUnavailable now request (replay_headers e) w)))"

definition in_flight_entry :: "millis \<Rightarrow> FastifyRequest \<Rightarrow> string \<Rightarrow> IdempotencyEntry" where
  "in_flight_entry now request fp = InFlightIdempotencyEntry (dec (nat now)) (Some (rq_id request)) (Some fp)"

text \<open>The \<^verbatim>\<open>SET EX NX\<close>: a reply when the store is down, else whether the claim was won.\<close>

definition claim_set ::
    "bool \<Rightarrow> millis \<Rightarrow> FastifyRequest \<Rightarrow> string \<Rightarrow> string \<Rightarrow> IdempotencyWorld \<Rightarrow> (FastifyReply + bool) \<times> IdempotencyWorld" where
  "claim_set up now request cacheKey fp w =
     (if \<not> up then map_prod Inl id (respondIdempotencyStoreUnavailable now request [] w)
      else let (claimed, r) = redis_set_ex_nx now cacheKey (stringify_entry (in_flight_entry now request fp))
                                IDEMPOTENCY_PLACEHOLDER_TTL_SECONDS (iw_entries w)
           in (Inr claimed, w\<lparr>iw_entries := r\<rparr>))"

text \<open>When and with what availability each Redis call of one run is made.\<close>

record ClaimCalls =
  cc_get :: "bool \<times> millis"
  cc_eval :: "bool \<times> millis"
  cc_set :: "bool \<times> millis"
  cc_race :: "bool \<times> millis"
  cc_incr :: bool

definition idempotencyClaimPreHandler ::
    "IdempotencyEnv \<Rightarrow> ClaimCalls \<Rightarrow> bool \<Rightarrow> FastifyRequest \<Rightarrow> RequestWithIdempotency \<Rightarrow> IdempotencyWorld \<Rightarrow>
     HookOutcome \<times> RequestWithIdempotency \<times> IdempotencyWorld" where
  "idempotencyClaimPreHandler env calls replySent request f w =
     (if replySent then (Proceed, f, w)
      else case claim_prepare env request f of
        Inl out \<Rightarrow> (out, f, w)
      | Inr (cacheKey, fp, scope, f1) \<Rightarrow>
          (case claim_lookup env (fst (cc_get calls)) (snd (cc_get calls)) request cacheKey fp w of
             (Some r, w1) \<Rightarrow> (Sent r, f1, w1)
           | (None, w1) \<Rightarrow>
               (case enforceIdempotencyPerActorCap env (fst (cc_eval calls)) (snd (cc_eval calls)) scope w1 of
                  (True, w2) \<Rightarrow> (Sent (sendIdempotencyPerActorCapExceeded env request), f1, w2)
                | (False, w2) \<Rightarrow>
                    (case claim_set (fst (cc_set calls)) (snd (cc_set calls)) request cacheKey fp w2 of
                       (Inl r, w3) \<Rightarrow> (Sent r, f1, w3)
                     | (Inr False, w3) \<Rightarrow>
                         (handleIdempotencyClaimRace env (fst (cc_race calls)) (snd (cc_race calls)) request cacheKey fp w3, f1, w3)
                     | (Inr True, w3) \<Rightarrow>
                         (Proceed, f1\<lparr>ri_claimed := True\<rparr>,
                          if cc_incr calls then w3\<lparr>iw_claims := Suc (iw_claims w3)\<rparr> else w3)))))"

section \<open>The other hooks\<close>

definition idempotencyOnRequest :: "FastifyRequest \<Rightarrow> RequestWithIdempotency \<Rightarrow> HookOutcome \<times> RequestWithIdempotency" where
  "idempotencyOnRequest request f =
     (if rq_method request \<notin> set WRITE_METHODS then (Proceed, f)
      else case parseIdempotencyKeyHeader (rq_idempotencyHeader request) of
             Absent \<Rightarrow> (Proceed, f)
           | Invalid \<Rightarrow> (if rq_idempotencyRequired request then (Proceed, f)
                         else (Thrown (ValidationError ''errors:idempotencyKeyInvalid''), f))
           | Valid value \<Rightarrow> (Proceed, f\<lparr>ri_key := Some value\<rparr>))"

text \<open>The payload: nothing, a serialised string, or a value still to be serialised (the second
  argument of \<^verbatim>\<open>PValue\<close> is its \<^verbatim>\<open>JSON.stringify\<close> text).\<close>

datatype Payload = PNone | PString string | PValue js string

fun toIdempotencyCacheBody :: "Payload \<Rightarrow> string" where
  "toIdempotencyCacheBody PNone = ''null''"
| "toIdempotencyCacheBody (PString s) = (if s = [] then ''null'' else s)"
| "toIdempotencyCacheBody (PValue v s) = s"

definition idempotencyOnSend ::
    "IdempotencyEnv \<Rightarrow> nat \<Rightarrow> string option \<Rightarrow> Payload \<Rightarrow> RequestWithIdempotency \<Rightarrow> RequestWithIdempotency" where
  "idempotencyOnSend env status contentType payload f =
     (if ri_key f = None then f
      else if \<not> ri_claimed f then f
      else if status \<ge> 400 then f
      else let body = toIdempotencyCacheBody payload in
           if length body > IDEMPOTENCY_CACHED_BODY_BYTES then f\<lparr>ri_pending := None\<rparr>
           else if responseBodyContainsSecretFields (ie_json_parse env) body then f\<lparr>ri_pending := None\<rparr>
           else f\<lparr>ri_pending := Some \<lparr>pc_statusCode = status, pc_body = body,
                pc_headers = [(''content-type'', JString (case contentType of Some c \<Rightarrow> c | None \<Rightarrow> ''application/json''))]\<rparr>\<rparr>)"

definition completed_entry :: "PendingIdempotencyCompletion \<Rightarrow> string option \<Rightarrow> IdempotencyEntry" where
  "completed_entry pending fp = CompletedIdempotencyEntry (dec (pc_statusCode pending)) (pc_body pending) (pc_headers pending) fp"

text \<open>The one Redis write of \<^verbatim>\<open>onResponse\<close>; \<^verbatim>\<open>up\<close> is whether it goes through.\<close>

definition idempotencyOnResponse ::
    "bool \<Rightarrow> millis \<Rightarrow> bool \<Rightarrow> nat \<Rightarrow> FastifyRequest \<Rightarrow> RequestWithIdempotency \<Rightarrow> IdempotencyWorld \<Rightarrow>
     RequestWithIdempotency \<times> IdempotencyWorld" where
  "idempotencyOnResponse up now forceRelease status request f w =
     (if \<not> ri_claimed f then (f, w)
      else case ri_key f of
        None \<Rightarrow> (f, w)
      | Some idempotencyKey \<Rightarrow>
          (let scope = (case ri_scope f of Some s \<Rightarrow> s | None \<Rightarrow> resolveIdempotencyScope request);
               cacheKey = buildIdempotencyCacheKey idempotencyKey scope;
               f1 = f\<lparr>ri_claimed := False, ri_pending := None\<rparr>;
               released = (if up then w\<lparr>iw_entries := redis_del cacheKey (iw_entries w)\<rparr> else w)
           in if forceRelease then (f1, released)
              else case ri_pending f of
                     Some pending \<Rightarrow>
                       (if status < 400 then
                          (f1, if up then w\<lparr>iw_entries := redis_set_ex now cacheKey
                                     (stringify_entry (completed_entry pending (ri_fingerprint f)))
                                     IDEMPOTENCY_RESPONSE_CACHE_TTL_SECONDS (iw_entries w)\<rparr> else w)
                        else (f1, released))
                   | None \<Rightarrow> (f1, released)))"

section \<open>The request-lifecycle coordinator\<close>

datatype SettlementOutcome = Committed | RolledBack | NoTransaction | SettleFailed

definition mayPersistPostCommitSideEffects :: "SettlementOutcome \<Rightarrow> bool" where
  "mayPersistPostCommitSideEffects outcome \<longleftrightarrow> outcome = Committed \<or> outcome = NoTransaction"

text \<open>The \<^verbatim>\<open>onResponse\<close> hook: settle (\<^const>\<open>None\<close> when that throws), then the idempotency entry, then the
  commit-dispatch flush (or its purge); the last two are arguments acting on the dispatch state.\<close>

definition requestLifecycle_onResponse ::
    "SettlementOutcome option \<Rightarrow> bool \<Rightarrow> millis \<Rightarrow> nat \<Rightarrow> ('d \<Rightarrow> 'd) \<Rightarrow> ('d \<Rightarrow> 'd) \<Rightarrow> FastifyRequest \<Rightarrow>
     RequestWithIdempotency \<Rightarrow> IdempotencyWorld \<Rightarrow> 'd \<Rightarrow> RequestWithIdempotency \<times> IdempotencyWorld \<times> 'd" where
  "requestLifecycle_onResponse settled up now status flushOnCommit discardCommitDispatchOnRollback request f w d =
     (let settlementOutcome = (case settled of Some s \<Rightarrow> s | None \<Rightarrow> SettleFailed);
          persistSideEffects = mayPersistPostCommitSideEffects settlementOutcome;
          (f1, w1) = idempotencyOnResponse up now (\<not> persistSideEffects) status request f w
      in if \<not> persistSideEffects then (f1, w1, discardCommitDispatchOnRollback d)
         else (f1, w1, flushOnCommit d))"

section \<open>What is written is what is read\<close>

declare stringify_entry.simps [simp del]

lemma parse_stringify_entry [simp]: "parseIdempotencyEntry (stringify_entry e) = e"
  by (cases e) (auto simp: parseIdempotencyEntry_def parseCompletedIdempotencyEntry_def parseInFlightIdempotencyEntry_def
      fingerprint_field_def stringify_entry.simps split: option.splits)

lemma respond_unavailable_entries [simp]:
  "iw_entries (snd (respondIdempotencyStoreUnavailable now q h w)) = iw_entries w"
  "iw_entries (alertIdempotencyPerActorCapExceeded now w) = iw_entries w"
  by (simp_all add: respondIdempotencyStoreUnavailable_def alertIdempotencyStoreUnavailable_def
      alertIdempotencyPerActorCapExceeded_def)

lemma cap_entries: "iw_entries (snd (enforceIdempotencyPerActorCap env up now scope w)) = iw_entries w"
  by (auto simp: enforceIdempotencyPerActorCap_def Let_def split: option.splits prod.splits)

lemma lookup_entries: "iw_entries (snd (claim_lookup env up now q K fp w)) = iw_entries w"
  by (auto simp: claim_lookup_def Let_def split: option.splits prod.splits)

lemma lookup_miss:
  "fst (claim_lookup env up now q K fp w) = None \<longleftrightarrow> up \<and> redis_get now (iw_entries w) K = None"
  by (auto simp: claim_lookup_def Let_def split: option.splits prod.splits)

lemma claim_set_won:
  "claim_set up now q K fp w = (Inr True, w') \<longleftrightarrow>
     up \<and> redis_get now (iw_entries w) K = None \<and>
     w' = w\<lparr>iw_entries := redis_set_ex now K (stringify_entry (in_flight_entry now q fp)) IDEMPOTENCY_PLACEHOLDER_TTL_SECONDS (iw_entries w)\<rparr>"
  by (cases "respondIdempotencyStoreUnavailable now q [] w")
    (auto simp: claim_set_def redis_set_ex_nx_def split: option.splits prod.splits)

lemma claim_set_lost:
  "claim_set up now q K fp w = (res, w') \<Longrightarrow> res \<noteq> Inr True \<Longrightarrow> iw_entries w' = iw_entries w"
  using respond_unavailable_entries(1) [of now q "[]" w]
  by (cases "respondIdempotencyStoreUnavailable now q [] w")
    (auto simp: claim_set_def redis_set_ex_nx_def split: option.splits prod.splits if_splits)

text \<open>A request that is up for deduplication: it has a key, an actor, and its route is not excluded.\<close>

definition deduplicated :: "FastifyRequest \<Rightarrow> RequestWithIdempotency \<Rightarrow> bool" where
  "deduplicated q f \<longleftrightarrow> ri_key f \<noteq> None \<and> \<not> isIdempotencyRouteExcluded (resolveIdempotencyRoutePath q) \<and>
     hasAuthenticatedIdempotencyActor (resolveIdempotencyScope q)"

definition request_cache_key :: "FastifyRequest \<Rightarrow> RequestWithIdempotency \<Rightarrow> string" where
  "request_cache_key q f = buildIdempotencyCacheKey (the (ri_key f)) (resolveIdempotencyScope q)"

definition request_fingerprint :: "IdempotencyEnv \<Rightarrow> FastifyRequest \<Rightarrow> string" where
  "request_fingerprint env q = buildIdempotencyRequestFingerprint (ie_sha256hex env) (rq_method q) (resolveIdempotencyRoutePath q) (rq_body q)"

lemma claim_prepare_deduplicated:
  assumes "deduplicated q f" and "assertIdempotencyKeyPresentWhenRequired q = None"
  shows "claim_prepare env q f = Inr (request_cache_key q f, request_fingerprint env q, resolveIdempotencyScope q,
    f\<lparr>ri_fingerprint := Some (request_fingerprint env q), ri_scope := Some (resolveIdempotencyScope q)\<rparr>)"
  using assms by (auto simp: claim_prepare_def deduplicated_def request_cache_key_def request_fingerprint_def Let_def)

lemma claim_prepare_proceeds:
  assumes "deduplicated q f" shows "claim_prepare env q f \<noteq> Inl Proceed"
  using assms by (auto simp: claim_prepare_def deduplicated_def Let_def split: option.splits)

section \<open>The claim fails closed\<close>

text \<open>A request with a key, an actor and a route that takes part reaches its handler only when the
  store answered both calls, no entry was alive under its cache key, and its own placeholder is
  there now and stays for sixty seconds: with Redis down or the key taken the handler does not run.\<close>

theorem handler_runs_only_with_claim:
  assumes "idempotencyClaimPreHandler env calls False q f w = (Proceed, f', w')" and "deduplicated q f"
  shows "fst (cc_get calls) \<and> fst (cc_set calls) \<and> ri_claimed f' \<and>
    redis_get (snd (cc_get calls)) (iw_entries w) (request_cache_key q f) = None \<and>
    (\<forall>t < snd (cc_set calls) + 60000. redis_get t (iw_entries w') (request_cache_key q f) =
       Some (stringify_entry (in_flight_entry (snd (cc_set calls)) q (request_fingerprint env q))))"
proof -
  let ?K = "request_cache_key q f" and ?fp = "request_fingerprint env q"
  have req: "assertIdempotencyKeyPresentWhenRequired q = None"
    using assms by (auto simp: idempotencyClaimPreHandler_def claim_prepare_def split: option.splits)
  let ?f1 = "f\<lparr>ri_fingerprint := Some ?fp, ri_scope := Some (resolveIdempotencyScope q)\<rparr>"
  obtain r w1 where lk: "claim_lookup env (fst (cc_get calls)) (snd (cc_get calls)) q ?K ?fp w = (r, w1)" by fastforce
  have none: "r = None"
    using assms(1) lk by (cases r) (auto simp: idempotencyClaimPreHandler_def claim_prepare_deduplicated [OF assms(2) req])
  obtain b w2 where cp: "enforceIdempotencyPerActorCap env (fst (cc_eval calls)) (snd (cc_eval calls)) (resolveIdempotencyScope q) w1 = (b, w2)"
    by fastforce
  obtain res w3 where st: "claim_set (fst (cc_set calls)) (snd (cc_set calls)) q ?K ?fp w2 = (res, w3)" by fastforce
  have race: "handleIdempotencyClaimRace env u t q ?K ?fp w3 \<noteq> Proceed" for u t
    by (auto simp: handleIdempotencyClaimRace_def Let_def split: option.splits IdempotencyEntry.splits)
  have won: "\<not> b \<and> res = Inr True \<and> f' = ?f1\<lparr>ri_claimed := True\<rparr> \<and> iw_entries w' = iw_entries w3"
    using assms(1) lk none cp st race
    by (auto simp: idempotencyClaimPreHandler_def claim_prepare_deduplicated [OF assms(2) req] split: bool.splits sum.splits)
  with st have "claim_set (fst (cc_set calls)) (snd (cc_set calls)) q ?K ?fp w2 = (Inr True, w3)" by simp
  note this [unfolded claim_set_won]
  moreover have "fst (cc_get calls) \<and> redis_get (snd (cc_get calls)) (iw_entries w) ?K = None"
    using lookup_miss [of env _ _ q ?K ?fp w] lk none by (metis fst_conv)
  ultimately show ?thesis
    using won by (simp add: redis_get_set_ex IDEMPOTENCY_PLACEHOLDER_TTL_SECONDS_def)
qed

section \<open>Replay\<close>




text \<open>The hypotheses of the replay theorem at a concrete order request.\<close>

definition demo_env :: IdempotencyEnv where
  "demo_env = \<lparr>ie_cap = 100, ie_windowSeconds = 60, ie_sha256hex = (\<lambda>s. s),
     ie_json_parse = (\<lambda>s. if s = ''7'' then Some (JNumber ''7'') else None)\<rparr>"

definition demo_request :: FastifyRequest where
  "demo_request = \<lparr>rq_method = ''POST'', rq_routeUrl = Some ''/orders'', rq_url = None,
     rq_idempotencyHeader = HString ''order-2026-07-0001'', rq_idempotencyRequired = True,
     rq_auth = Some (AuthUser ''usr_1'' None), rq_organizationId = None, rq_body = JNull, rq_id = ''r1''\<rparr>"

definition demo_fields :: RequestWithIdempotency where
  "demo_fields = \<lparr>ri_key = Some ''order-2026-07-0001'', ri_fingerprint = Some (request_fingerprint demo_env demo_request),
     ri_scope = Some (resolveIdempotencyScope demo_request), ri_claimed = True, ri_pending = None\<rparr>"

definition demo_world :: IdempotencyWorld where
  "demo_world = \<lparr>iw_entries = Map.empty, iw_rates = Map.empty, iw_claims = 0, iw_lastStoreAlert = 0, iw_lastCapAlert = 0, iw_sentry = []\<rparr>"

definition demo_calls :: "bool \<Rightarrow> millis \<Rightarrow> ClaimCalls" where
  "demo_calls up t = \<lparr>cc_get = (up, t), cc_eval = (up, t), cc_set = (up, t), cc_race = (up, t), cc_incr = up\<rparr>"

lemma demo_deduplicated:
  "deduplicated demo_request (fresh_fields\<lparr>ri_key := Some ''order-2026-07-0001''\<rparr>)"
  "assertIdempotencyKeyPresentWhenRequired demo_request = None"
  "deduplicated demo_request demo_fields"
  by code_simp+



theorem handler_runs_only_with_claim_witness:
  "\<exists>f' w'. idempotencyClaimPreHandler demo_env (demo_calls True 1000) False demo_request
      (fresh_fields\<lparr>ri_key := Some ''order-2026-07-0001''\<rparr>) demo_world = (Proceed, f', w') \<and> ri_claimed f'"
proof -
  let ?f = "fresh_fields\<lparr>ri_key := Some ''order-2026-07-0001''\<rparr>"
  obtain out f' w' where run: "idempotencyClaimPreHandler demo_env (demo_calls True 1000) False demo_request ?f demo_world = (out, f', w')"
    using prod_cases3 by blast
  moreover have "fst (idempotencyClaimPreHandler demo_env (demo_calls True 1000) False demo_request ?f demo_world) = Proceed"
    by code_simp
  ultimately have "idempotencyClaimPreHandler demo_env (demo_calls True 1000) False demo_request ?f demo_world = (Proceed, f', w')" by simp
  with handler_runs_only_with_claim [OF this demo_deduplicated(1)] show ?thesis by blast
qed

section \<open>Release\<close>

text \<open>A request whose work did not commit, that failed, or whose answer may not be kept (too large, or
  holding a secret) leaves nothing behind.\<close>

text \<open>When a claimed request ends without a committed, cacheable success (its transaction rolled
  back or its settlement failed, or the status is 400 or above, or the body is over 100 KB or holds a
  secret field), its placeholder is gone and no response is stored, so the client may retry with the
  same key at once; and the flush of deferred side effects happens exactly when the work may persist.\<close>

theorem uncommitted_request_releases_key:
  assumes "ri_claimed f" and "ri_key f = Some k" and "ri_scope f = Some s" and "ri_pending f = None"
    and "body = toIdempotencyCacheBody payload"
    and "settled = Some RolledBack \<or> settled = Some SettleFailed \<or> settled = None \<or> status \<ge> 400 \<or>
         length body > 102400 \<or> responseBodyContainsSecretFields (ie_json_parse env) body"
    and "requestLifecycle_onResponse settled True now status fl di q
           (idempotencyOnSend env status contentType payload f) w d = (f1, w1, d1)"
  shows "redis_get t (iw_entries w1) (buildIdempotencyCacheKey k s) = None \<and> \<not> ri_claimed f1 \<and>
         d1 = (if settled = Some Committed \<or> settled = Some NoTransaction then fl d else di d)"
proof -
  let ?g = "idempotencyOnSend env status contentType payload f"
  have g: "ri_claimed ?g" "ri_key ?g = Some k" "ri_scope ?g = Some s"
    using assms(1-3) by (simp_all add: idempotencyOnSend_def Let_def)
  have nop: "ri_pending ?g = None"
    if "status \<ge> 400 \<or> length body > 102400 \<or> responseBodyContainsSecretFields (ie_json_parse env) body"
    using that assms(4,5) by (auto simp: idempotencyOnSend_def Let_def IDEMPOTENCY_CACHED_BODY_BYTES_def)
  show ?thesis
    using assms(6,7) g nop
    by (auto simp: requestLifecycle_onResponse_def idempotencyOnResponse_def mayPersistPostCommitSideEffects_def Let_def
        redis_get_del split: option.splits if_splits prod.splits)
qed

theorem uncommitted_request_releases_key_witness:
  "redis_get 2000 (iw_entries (fst (snd (requestLifecycle_onResponse (Some RolledBack) True 1000 201 id id demo_request
     (idempotencyOnSend demo_env 201 None (PString ''7'') demo_fields) demo_world ()))))
   (buildIdempotencyCacheKey ''order-2026-07-0001'' (resolveIdempotencyScope demo_request)) = None"
proof -
  obtain f1 w1 d1 where r: "requestLifecycle_onResponse (Some RolledBack) True 1000 201 id id demo_request
        (idempotencyOnSend demo_env 201 None (PString ''7'') demo_fields) demo_world () = (f1, w1, d1)"
    using prod_cases3 by blast
  have "ri_claimed demo_fields" "ri_key demo_fields = Some ''order-2026-07-0001''"
    "ri_scope demo_fields = Some (resolveIdempotencyScope demo_request)" "ri_pending demo_fields = None"
    by (simp_all add: demo_fields_def)
  from uncommitted_request_releases_key [OF this refl _ r, of 2000] show ?thesis by (simp add: r)
qed

section \<open>Interleaved requests under one cache key\<close>

text \<open>The requests that present client key \<^verbatim>\<open>k\<close> in scope \<^verbatim>\<open>sc\<close>, numbered; each moves through the
  pieces of the pre-handler, runs its handler, and responds.  \<^verbatim>\<open>is_done\<close> logs the completions that
  reached the store, newest first.  With \<^verbatim>\<open>timely\<close> a request responds before its own placeholder
  expires.\<close>

datatype phase = Arrived | Missed | Admitted | Running millis | Lost | Answered

record IdemSystem =
  is_now :: millis
  is_world :: IdempotencyWorld
  is_phase :: "nat \<Rightarrow> phase"
  is_done :: "(nat \<times> millis) list"

definition stored_completion :: "bool \<Rightarrow> bool \<Rightarrow> nat \<Rightarrow> RequestWithIdempotency \<Rightarrow> bool" where
  "stored_completion up forceRelease status f \<longleftrightarrow> up \<and> \<not> forceRelease \<and> status < 400 \<and> ri_pending f \<noteq> None"

inductive idem_step :: "bool \<Rightarrow> IdempotencyEnv \<Rightarrow> string \<Rightarrow> IdempotencyScope \<Rightarrow> (nat \<Rightarrow> FastifyRequest) \<Rightarrow> IdemSystem \<Rightarrow> IdemSystem \<Rightarrow> bool"
  for timely env k sc req where
  tick: "is_now s \<le> t \<Longrightarrow> idem_step timely env k sc req s (s\<lparr>is_now := t\<rparr>)"
| other_keys: "iw_entries w' (buildIdempotencyCacheKey k sc) = iw_entries (is_world s) (buildIdempotencyCacheKey k sc) \<Longrightarrow>
    idem_step timely env k sc req s (s\<lparr>is_world := w'\<rparr>)"
| lookup: "is_phase s r = Arrived \<Longrightarrow>
    claim_lookup env up (is_now s) (req r) (buildIdempotencyCacheKey k sc) (request_fingerprint env (req r)) (is_world s) = (answer, w') \<Longrightarrow>
    idem_step timely env k sc req s (s\<lparr>is_world := w', is_phase := (is_phase s)(r := if answer = None then Missed else Answered)\<rparr>)"
| cap: "is_phase s r = Missed \<Longrightarrow>
    enforceIdempotencyPerActorCap env up (is_now s) sc (is_world s) = (over, w') \<Longrightarrow>
    idem_step timely env k sc req s (s\<lparr>is_world := w', is_phase := (is_phase s)(r := if over then Answered else Admitted)\<rparr>)"
| claim: "is_phase s r = Admitted \<Longrightarrow>
    claim_set up (is_now s) (req r) (buildIdempotencyCacheKey k sc) (request_fingerprint env (req r)) (is_world s) = (res, w') \<Longrightarrow>
    idem_step timely env k sc req s (s\<lparr>is_world := w', is_phase := (is_phase s)(r :=
      (case res of Inl _ \<Rightarrow> Answered | Inr True \<Rightarrow> Running (is_now s) | Inr False \<Rightarrow> Lost))\<rparr>)"
| race: "is_phase s r = Lost \<Longrightarrow> idem_step timely env k sc req s (s\<lparr>is_phase := (is_phase s)(r := Answered)\<rparr>)"
| respond: "is_phase s r = Running c \<Longrightarrow> (timely \<longrightarrow> is_now s < c + 60000) \<Longrightarrow>
    ri_claimed f \<Longrightarrow> ri_key f = Some k \<Longrightarrow> ri_scope f = Some sc \<Longrightarrow>
    idempotencyOnResponse up (is_now s) forceRelease status (req r) f (is_world s) = (f', w') \<Longrightarrow>
    idem_step timely env k sc req s (s\<lparr>is_world := w', is_phase := (is_phase s)(r := Answered),
      is_done := (if stored_completion up forceRelease status f then (r, is_now s) # is_done s else is_done s)\<rparr>)"

inductive idem_reachable :: "bool \<Rightarrow> IdempotencyEnv \<Rightarrow> string \<Rightarrow> IdempotencyScope \<Rightarrow> (nat \<Rightarrow> FastifyRequest) \<Rightarrow> IdemSystem \<Rightarrow> bool"
  for timely env k sc req where
  initial: "is_phase s = (\<lambda>_. Arrived) \<Longrightarrow> is_done s = [] \<Longrightarrow>
    iw_entries (is_world s) (buildIdempotencyCacheKey k sc) = None \<Longrightarrow> idem_reachable timely env k sc req s"
| step: "idem_reachable timely env k sc req s \<Longrightarrow> idem_step timely env k sc req s s' \<Longrightarrow> idem_reachable timely env k sc req s'"

text \<open>A request is executing under a placeholder that has not lapsed.\<close>

definition executing :: "IdemSystem \<Rightarrow> nat \<Rightarrow> millis \<Rightarrow> bool" where
  "executing s r c \<longleftrightarrow> is_phase s r = Running c \<and> is_now s < c + 60000"

definition entry_until :: "string \<Rightarrow> millis \<Rightarrow> IdemSystem \<Rightarrow> bool" where
  "entry_until K t s \<longleftrightarrow> (\<exists>v. iw_entries (is_world s) K = Some (v, Some t))"

definition idem_inv :: "string \<Rightarrow> IdemSystem \<Rightarrow> bool" where
  "idem_inv K s \<longleftrightarrow>
     (\<forall>r c. is_phase s r = Running c \<longrightarrow> c \<le> is_now s) \<and>
     (\<forall>r c. executing s r c \<longrightarrow> entry_until K (c + 60000) s) \<and>
     (\<forall>r c r' c'. executing s r c \<longrightarrow> executing s r' c' \<longrightarrow> r = r') \<and>
     (\<forall>(r, t) \<in> set (is_done s). t \<le> is_now s \<and> (is_now s < t + 86400000 \<longrightarrow> entry_until K (t + 86400000) s) \<and>
        (\<forall>r' c. executing s r' c \<longrightarrow> t + 86400000 \<le> c)) \<and>
     sorted_wrt (\<lambda>(r1, t1) (r2, t2). t2 + 86400000 \<le> t1) (is_done s)"

lemma idem_inv_free:
  assumes "idem_inv K s" and "redis_get (is_now s) (iw_entries (is_world s)) K = None"
  shows "\<not> executing s r c" and "(r, t) \<in> set (is_done s) \<Longrightarrow> t + 86400000 \<le> is_now s"
proof -
  have dead: "\<not> entry_until K u s" if "is_now s < u" for u
    using assms(2) that by (auto simp: entry_until_def redis_get_def live_entry_def)
  show "\<not> executing s r c"
    using assms(1) dead [of "c + 60000"] by (auto simp: idem_inv_def executing_def)
  show "t + 86400000 \<le> is_now s" if "(r, t) \<in> set (is_done s)"
    using assms(1) dead [of "t + 86400000"] that by (fastforce simp: idem_inv_def)
qed

text \<open>Steps that leave the entry alone and start no execution keep the invariant.\<close>

lemma idem_inv_quiet:
  assumes "idem_inv K s" and "iw_entries w' K = iw_entries (is_world s) K"
    and "\<forall>c. p \<noteq> Running c"
  shows "idem_inv K (s\<lparr>is_world := w', is_phase := (is_phase s)(r := p)\<rparr>)"
  using assms unfolding idem_inv_def executing_def entry_until_def
  by (auto split: if_splits)

lemma idem_inv_claim:
  assumes "idem_inv K s" and "redis_get (is_now s) (iw_entries (is_world s)) K = None"
    and "iw_entries w' = redis_set_ex (is_now s) K v 60 (iw_entries (is_world s))"
  shows "idem_inv K (s\<lparr>is_world := w', is_phase := (is_phase s)(r := Running (is_now s))\<rparr>)"
proof -
  let ?s = "s\<lparr>is_world := w', is_phase := (is_phase s)(r := Running (is_now s))\<rparr>"
  have entry: "entry_until K (is_now s + 60000) ?s"
    using assms(3) by (simp add: entry_until_def redis_set_ex_def)
  have only: "executing ?s r' c \<longleftrightarrow> r' = r \<and> c = is_now s" for r' c
    using idem_inv_free(1) [OF assms(1,2), of r' c] by (auto simp: executing_def)
  have old: "t + 86400000 \<le> is_now ?s" if "(r', t) \<in> set (is_done ?s)" for r' t
    using idem_inv_free(2) [OF assms(1,2)] that by simp
  have "\<forall>r c. is_phase ?s r = Running c \<longrightarrow> c \<le> is_now ?s"
    and "sorted_wrt (\<lambda>(r1, t1) (r2, t2). t2 + 86400000 \<le> t1) (is_done ?s)"
    using assms(1) by (auto simp: idem_inv_def)
  then show ?thesis
    unfolding idem_inv_def using entry only old by fastforce
qed

lemma idem_inv_respond:
  assumes "idem_inv K s" and "executing s r c"
    and "stored \<Longrightarrow> iw_entries w' K = Some (v, Some (is_now s + 86400000))"
  shows "idem_inv K (s\<lparr>is_world := w', is_phase := (is_phase s)(r := Answered),
           is_done := (if stored then (r, is_now s) # is_done s else is_done s)\<rparr>)"
proof -
  have only: "\<not> executing s r' c'" if "r' \<noteq> r" for r' c'
    using assms(1,2) that unfolding idem_inv_def by blast
  have c: "c \<le> is_now s"
    using assms(1,2) by (auto simp: idem_inv_def executing_def)
  have old: "t + 86400000 \<le> is_now s" if "(r', t) \<in> set (is_done s)" for r' t
    using assms(1,2) that c by (fastforce simp: idem_inv_def)
  let ?s = "s\<lparr>is_world := w', is_phase := (is_phase s)(r := Answered),
           is_done := (if stored then (r, is_now s) # is_done s else is_done s)\<rparr>"
  have none: "\<not> executing ?s r' c'" for r' c'
    using only [of r' c'] by (auto simp: executing_def split: if_splits)
  have "sorted_wrt (\<lambda>(r1, t1) (r2, t2). t2 + 86400000 \<le> t1) (is_done ?s)"
    using assms(1) old by (auto simp: idem_inv_def)
  moreover have "\<forall>(r', t) \<in> set (is_done ?s). t \<le> is_now ?s \<and> (is_now ?s < t + 86400000 \<longrightarrow> entry_until K (t + 86400000) ?s)"
  proof (rule ballI, clarify)
    fix r' t
    assume "(r', t) \<in> set (is_done ?s)"
    then consider "stored" "t = is_now s" | "(r', t) \<in> set (is_done s)" by (auto split: if_splits)
    then show "t \<le> is_now ?s \<and> (is_now ?s < t + 86400000 \<longrightarrow> entry_until K (t + 86400000) ?s)"
      using assms(3) old [of r' t] by cases (auto simp: entry_until_def)
  qed
  ultimately show ?thesis
    using assms(1) none unfolding idem_inv_def by (auto split: if_splits)
qed

lemma respond_entries:
  assumes "ri_claimed f" "ri_key f = Some k" "ri_scope f = Some sc"
    and "idempotencyOnResponse up now forceRelease status q f w = (f', w')"
    and "stored_completion up forceRelease status f"
  shows "iw_entries w' (buildIdempotencyCacheKey k sc) =
    Some (stringify_entry (completed_entry (the (ri_pending f)) (ri_fingerprint f)), Some (now + 86400000))"
  using assms
  by (auto simp: idempotencyOnResponse_def stored_completion_def Let_def redis_set_ex_def IDEMPOTENCY_RESPONSE_CACHE_TTL_SECONDS_def)

lemma idem_inv_step:
  assumes "idem_step True env k sc req s s'" and "idem_inv (buildIdempotencyCacheKey k sc) s"
  shows "idem_inv (buildIdempotencyCacheKey k sc) s'"
  using assms
proof (induction rule: idem_step.cases)
  case (tick s t)
  then show ?case unfolding idem_inv_def executing_def entry_until_def by (fastforce)
next
  case (other_keys w' s)
  then show ?case unfolding idem_inv_def executing_def entry_until_def by auto
next
  case (lookup s r up answer w')
  then show ?case
    using lookup_entries [of env up "is_now s" "req r" "buildIdempotencyCacheKey k sc" "request_fingerprint env (req r)" "is_world s"]
    by (auto intro!: idem_inv_quiet)
next
  case (cap s r up over w')
  then show ?case
    using cap_entries [of env up "is_now s" sc "is_world s"] by (auto intro!: idem_inv_quiet)
next
  case (claim s r up res w')
  show ?case
  proof (cases "res = Inr True")
    case True
    with claim idem_inv_claim show ?thesis
      by (auto simp: claim_set_won IDEMPOTENCY_PLACEHOLDER_TTL_SECONDS_def)
  next
    case False
    with claim show ?thesis
      by (auto intro!: idem_inv_quiet dest: claim_set_lost split: sum.splits bool.splits)
  qed
next
  case (race s r)
  then show ?case using idem_inv_quiet [of _ s "is_world s"] by simp
next
  case (respond s r c f up forceRelease status f' w')
  then have "idem_inv (buildIdempotencyCacheKey k sc) s" "executing s r c" by (simp_all add: executing_def)
  from idem_inv_respond [OF this respond_entries [OF respond(5-8)]] show ?case
    unfolding respond(2) .
qed

lemma idem_reachable_inv:
  "idem_reachable True env k sc req s \<Longrightarrow> idem_inv (buildIdempotencyCacheKey k sc) s"
proof (induction rule: idem_reachable.induct)
  case (initial s)
  then show ?case by (simp add: idem_inv_def executing_def)
next
  case (step s s')
  then show ?case using idem_inv_step by blast
qed

text \<open>C28 At most one execution: however the requests of one actor that carry one key interleave,
  over any number of processes sharing the store, no two of them execute their handler at the same
  time, as long as every request responds within the sixty seconds of its placeholder.\<close>

theorem idempotent_execution_exclusive:
  assumes "idem_reachable True env k sc req s" and "executing s r c" and "executing s r' c'"
  shows "r = r'"
  using idem_reachable_inv [OF assms(1)] assms(2,3) unfolding idem_inv_def by blast

text \<open>C29 At most one success per day: the stored successes of one key lie at least twenty-four hours
  apart, and no request executes that was claimed within twenty-four hours of an earlier stored
  success.\<close>

theorem idempotent_success_once_per_day:
  assumes "idem_reachable True env k sc req s"
  shows "sorted_wrt (\<lambda>(r1, t1) (r2, t2). t2 + 86400000 \<le> t1) (is_done s) \<and>
         (\<forall>r t r' c. (r, t) \<in> set (is_done s) \<longrightarrow> executing s r' c \<longrightarrow> t + 86400000 \<le> c)"
  using idem_reachable_inv [OF assms] unfolding idem_inv_def by blast

section \<open>Without the time bound\<close>

lemma claim_free_key:
  assumes "idem_reachable timely env k sc req s" and "is_phase s r = Arrived"
    and "redis_get (is_now s) (iw_entries (is_world s)) (buildIdempotencyCacheKey k sc) = None"
  shows "\<exists>s'. idem_reachable timely env k sc req s' \<and> is_now s' = is_now s \<and> is_done s' = is_done s \<and>
    is_phase s' = (is_phase s)(r := Running (is_now s)) \<and>
    iw_entries (is_world s') (buildIdempotencyCacheKey k sc) =
      Some (stringify_entry (in_flight_entry (is_now s) (req r) (request_fingerprint env (req r))), Some (is_now s + 60000))"
proof -
  let ?K = "buildIdempotencyCacheKey k sc" and ?fp = "request_fingerprint env (req r)"
  have lk: "claim_lookup env True (is_now s) (req r) ?K ?fp (is_world s) = (None, is_world s)"
    using assms(3) by (simp add: claim_lookup_def)
  let ?s1 = "s\<lparr>is_world := is_world s, is_phase := (is_phase s)(r := if (None :: FastifyReply option) = None then Missed else Answered)\<rparr>"
  have r1: "idem_reachable timely env k sc req ?s1"
    by (rule idem_reachable.step [OF assms(1) idem_step.lookup [where up = True]]) (use assms(2) lk in simp_all)
  have cp: "enforceIdempotencyPerActorCap env False (is_now ?s1) sc (is_world ?s1) = (False, is_world s)"
    by (simp add: enforceIdempotencyPerActorCap_def split: option.splits)
  let ?s2 = "?s1\<lparr>is_world := is_world s, is_phase := (is_phase ?s1)(r := if False then Answered else Admitted)\<rparr>"
  have r2: "idem_reachable timely env k sc req ?s2"
    by (rule idem_reachable.step [OF r1 idem_step.cap [where up = False and r = r]]) (use cp in simp_all)
  let ?w = "(is_world s)\<lparr>iw_entries := redis_set_ex (is_now s) ?K (stringify_entry (in_flight_entry (is_now s) (req r) ?fp))
    IDEMPOTENCY_PLACEHOLDER_TTL_SECONDS (iw_entries (is_world s))\<rparr>"
  have cl: "claim_set True (is_now ?s2) (req r) ?K ?fp (is_world ?s2) = (Inr True, ?w)"
    using assms(3) by (simp add: claim_set_won)
  let ?s3 = "?s2\<lparr>is_world := ?w, is_phase := (is_phase ?s2)(r :=
      (case (Inr True :: FastifyReply + bool) of Inl _ \<Rightarrow> Answered | Inr True \<Rightarrow> Running (is_now ?s2) | Inr False \<Rightarrow> Lost))\<rparr>"
  have "idem_reachable timely env k sc req ?s3"
    by (rule idem_reachable.step [OF r2 idem_step.claim [where up = True and r = r]]) (use cl in simp_all)
  then show ?thesis
    by (intro exI [of _ ?s3]) (simp add: redis_set_ex_def IDEMPOTENCY_PLACEHOLDER_TTL_SECONDS_def)
qed

text \<open>The bound is needed: neither the release nor the completion checks whose placeholder it
  touches.  A request that outlives its placeholder and then fails deletes the placeholder of the
  request that took over, so a third one executes beside the second.\<close>

theorem late_release_breaks_exclusion:
  "\<exists>s r r' c c'. idem_reachable False env k sc req s \<and> executing s r c \<and> executing s r' c' \<and> r \<noteq> r'"
proof -
  let ?K = "buildIdempotencyCacheKey k sc"
  let ?s0 = "\<lparr>is_now = 0, is_world = demo_world, is_phase = (\<lambda>_. Arrived), is_done = []\<rparr>"
  have "idem_reachable False env k sc req ?s0"
    by (rule idem_reachable.initial) (simp_all add: demo_world_def)
  from claim_free_key [OF this, of 0] obtain s1 where s1: "idem_reachable False env k sc req s1" "is_now s1 = 0"
      "is_phase s1 = (\<lambda>_. Arrived)(0 := Running 0)" "\<exists>v. iw_entries (is_world s1) ?K = Some (v, Some 60000)"
    by (auto simp: demo_world_def redis_get_def)
  let ?s2 = "s1\<lparr>is_now := 61000\<rparr>"
  have r2: "idem_reachable False env k sc req ?s2"
    by (rule idem_reachable.step [OF s1(1) idem_step.tick]) (simp add: s1(2))
  from claim_free_key [OF r2, of 1] s1 obtain s3 where s3: "idem_reachable False env k sc req s3" "is_now s3 = 61000"
      "is_phase s3 = ((\<lambda>_. Arrived)(0 := Running 0))(1 := Running 61000)"
    by (auto simp: redis_get_def)
  let ?f = "\<lparr>ri_key = Some k, ri_fingerprint = None, ri_scope = Some sc, ri_claimed = True, ri_pending = None\<rparr>"
  obtain f' w' where resp: "idempotencyOnResponse True (is_now s3) False 500 (req 0) ?f (is_world s3) = (f', w')"
    by fastforce
  then have free: "iw_entries w' ?K = None"
    by (auto simp: idempotencyOnResponse_def redis_del_def)
  let ?s4 = "s3\<lparr>is_world := w', is_phase := (is_phase s3)(0 := Answered),
    is_done := (if stored_completion True False 500 ?f then (0, is_now s3) # is_done s3 else is_done s3)\<rparr>"
  have r4: "idem_reachable False env k sc req ?s4"
    by (rule idem_reachable.step [OF s3(1) idem_step.respond [where r = 0 and c = 0]]) (use resp s3(3) in simp_all)
  from claim_free_key [OF r4, of 2] free s3 obtain s5 where s5: "idem_reachable False env k sc req s5" "is_now s5 = 61000"
      "is_phase s5 = (is_phase ?s4)(2 := Running 61000)"
    by (auto simp: redis_get_def)
  have "executing s5 1 61000" "executing s5 2 61000"
    using s5 s3(3) by (simp_all add: executing_def)
  moreover have "(1 :: nat) \<noteq> 2" by simp
  ultimately show ?thesis using s5(1) by blast
qed

text \<open>One request claims, completes, and is answered from the store afterwards.\<close>

lemma demo_claimed: "\<exists>s. idem_reachable True env k sc req s \<and> executing s 0 0"
proof -
  have "idem_reachable True env k sc req \<lparr>is_now = 0, is_world = demo_world, is_phase = (\<lambda>_. Arrived), is_done = []\<rparr>"
    by (rule idem_reachable.initial) (simp_all add: demo_world_def)
  from claim_free_key [OF this, of 0] show ?thesis by (auto simp: demo_world_def redis_get_def executing_def)
qed

theorem idempotent_execution_exclusive_witness:
  "\<exists>s. idem_reachable True demo_env ''order-2026-07-0001'' (resolveIdempotencyScope demo_request) (\<lambda>_. demo_request) s \<and>
     executing s 0 0 \<and> (\<forall>r c. executing s r c \<longrightarrow> r = 0)"
  using demo_claimed idempotent_execution_exclusive by metis

theorem idempotent_success_once_per_day_witness:
  "\<exists>s. idem_reachable True demo_env ''order-2026-07-0001'' (resolveIdempotencyScope demo_request) (\<lambda>_. demo_request) s \<and>
     is_done s = [(0, 0)] \<and> (\<forall>r c. executing s r c \<longrightarrow> 86400000 \<le> c)"
proof -
  let ?sc = "resolveIdempotencyScope demo_request" and ?k = "''order-2026-07-0001''"
  let ?R = "idem_reachable True demo_env ?k ?sc (\<lambda>_. demo_request)"
  have "?R \<lparr>is_now = 0, is_world = demo_world, is_phase = (\<lambda>_. Arrived), is_done = []\<rparr>"
    by (rule idem_reachable.initial) (simp_all add: demo_world_def)
  from claim_free_key [OF this, of 0] obtain s where s: "?R s" "executing s 0 0" "is_done s = []" "is_now s = 0"
    by (auto simp: demo_world_def redis_get_def executing_def)
  let ?f = "demo_fields\<lparr>ri_pending := Some \<lparr>pc_statusCode = 201, pc_body = ''7'', pc_headers = []\<rparr>\<rparr>"
  obtain f' w' where resp: "idempotencyOnResponse True (is_now s) False 201 demo_request ?f (is_world s) = (f', w')"
    by fastforce
  let ?s = "s\<lparr>is_world := w', is_phase := (is_phase s)(0 := Answered),
    is_done := (if stored_completion True False 201 ?f then (0, is_now s) # is_done s else is_done s)\<rparr>"
  have "?R ?s"
    by (rule idem_reachable.step [OF s(1) idem_step.respond [where r = 0 and c = 0]])
      (use s resp in \<open>simp_all add: executing_def demo_fields_def\<close>)
  with idempotent_success_once_per_day [OF this] s(3,4) show ?thesis
    by (intro exI [of _ ?s]) (auto simp: stored_completion_def)
qed

end
