(* ===== verification/Users.thy ===== *)
theory Users
  imports Prelude
begin

text \<open>
  The account table: \<^verbatim>\<open>src/src/domains/user/user.repository.ts\<close> (every read by key and every write)
  with the guard \<^verbatim>\<open>assertUserAccountActive\<close> of \<^verbatim>\<open>shared/utils/auth/account-status.util.ts\<close>.  The two
  resolvers that run before a user context exists (\<^verbatim>\<open>findByEmail\<close>, \<^verbatim>\<open>findById\<close>) are the SQL functions of
  the migrations: both skip soft-deleted rows.  \<^verbatim>\<open>now\<close> is the database clock, \<^verbatim>\<open>jsNow\<close> the clock of the
  process.  Shown: a soft-deleted account is out of reach of every operation, the writes keep keys
  unique, and the failure counter locks at the threshold.
\<close>

record UserRow =
  us_id :: nat
  us_public_id :: string
  us_email :: string
  us_email_hash :: string
  us_password_hash :: "string option"
  us_first_name :: "string option"
  us_last_name :: "string option"
  us_job_title :: "string option"
  us_avatar_url :: "string option"
  us_status :: string
  us_is_email_verified :: bool
  us_is_mfa_enabled :: bool
  us_failed_login_count :: int
  us_account_locked_until :: "millis option"
  us_last_password_change_at :: "millis option"
  us_onboarding_completed_at :: "millis option"
  us_deletion_started_at :: "millis option"
  us_deleted_at :: "millis option"
  us_updated_at :: millis

definition live_user :: "string \<Rightarrow> UserRow \<Rightarrow> bool" where
  "live_user publicId u \<longleftrightarrow> us_public_id u = publicId \<and> us_deleted_at u = None"

section \<open>Reads\<close>

definition findByPublicId :: "string \<Rightarrow> UserRow tbl \<Rightarrow> UserRow option" where
  "findByPublicId publicId = select_first (live_user publicId)"

definition findByEmail :: "string \<Rightarrow> UserRow tbl \<Rightarrow> UserRow option" where
  "findByEmail email = select_first (\<lambda>u. us_email u = email \<and> us_deleted_at u = None)"

definition findById :: "nat \<Rightarrow> UserRow tbl \<Rightarrow> UserRow option" where
  "findById identifier = select_first (\<lambda>u. us_id u = identifier \<and> us_deleted_at u = None)"

definition requireUserRecordByPublicId :: "string \<Rightarrow> UserRow tbl \<Rightarrow> app_error + UserRow" where
  "requireUserRecordByPublicId publicId t =
     (case findByPublicId publicId t of
        None \<Rightarrow> Inl (NotFoundError ''User'')
      | Some u \<Rightarrow> if us_deleted_at u \<noteq> None then Inl (NotFoundError ''User'') else Inr u)"

section \<open>Writes\<close>

type_synonym user_write = "UserRow tbl \<Rightarrow> UserRow option \<times> UserRow tbl"

definition updatePassword :: "millis \<Rightarrow> millis \<Rightarrow> string \<Rightarrow> string \<Rightarrow> user_write" where
  "updatePassword jsNow now publicId passwordHash = update_row (live_user publicId)
     (\<lambda>u. u\<lparr>us_password_hash := Some passwordHash, us_last_password_change_at := Some jsNow, us_updated_at := now\<rparr>)"

definition clearPasswordHash :: "millis \<Rightarrow> millis \<Rightarrow> string \<Rightarrow> user_write" where
  "clearPasswordHash jsNow now publicId = update_row (live_user publicId)
     (\<lambda>u. u\<lparr>us_password_hash := None, us_last_password_change_at := Some jsNow, us_updated_at := now\<rparr>)"

definition updateEmailVerified :: "millis \<Rightarrow> string \<Rightarrow> user_write" where
  "updateEmailVerified now publicId = update_row (live_user publicId)
     (\<lambda>u. u\<lparr>us_is_email_verified := True, us_updated_at := now\<rparr>)"

definition markOnboardingComplete :: "millis \<Rightarrow> string \<Rightarrow> user_write" where
  "markOnboardingComplete now publicId = update_row (\<lambda>u. live_user publicId u \<and> us_onboarding_completed_at u = None)
     (\<lambda>u. u\<lparr>us_onboarding_completed_at := Some now, us_updated_at := now\<rparr>)"

text \<open>The profile fields of \<^verbatim>\<open>update\<close> and \<^verbatim>\<open>adminUpdate\<close>: \<^const>\<open>None\<close> leaves a column alone.\<close>

record UserPatch =
  up_first_name :: "string option option"
  up_last_name :: "string option option"
  up_job_title :: "string option option"
  up_avatar_url :: "string option option"
  up_status :: "string option"

definition patched :: "'a option \<Rightarrow> 'a \<Rightarrow> 'a" where
  "patched p old = (case p of None \<Rightarrow> old | Some v \<Rightarrow> v)"

definition updateByPublicId :: "millis \<Rightarrow> string \<Rightarrow> UserPatch \<Rightarrow> user_write" where
  "updateByPublicId now publicId data = update_row (live_user publicId)
     (\<lambda>u. u\<lparr>us_first_name := patched (up_first_name data) (us_first_name u),
            us_last_name := patched (up_last_name data) (us_last_name u),
            us_job_title := patched (up_job_title data) (us_job_title u),
            us_avatar_url := patched (up_avatar_url data) (us_avatar_url u),
            us_status := patched (up_status data) (us_status u), us_updated_at := now\<rparr>)"

record OAuthUserData =
  od_email :: string
  od_first_name :: "string option"
  od_last_name :: "string option"
  od_avatar_url :: "string option"
  od_is_email_verified :: bool

text \<open>The unique indexes on \<^verbatim>\<open>id\<close>, \<^verbatim>\<open>public_id\<close> and \<^verbatim>\<open>email_hash\<close> make a colliding insert fail.\<close>

definition insertOAuthUser ::
    "(string \<Rightarrow> string) \<Rightarrow> millis \<Rightarrow> nat \<Rightarrow> string \<Rightarrow> OAuthUserData \<Rightarrow> UserRow tbl \<Rightarrow> (UserRow \<times> UserRow tbl) option" where
  "insertOAuthUser sha256lower now nextId publicId data t =
     (let emailHash = sha256lower (od_email data);
          row = \<lparr>us_id = nextId, us_public_id = publicId, us_email = od_email data, us_email_hash = emailHash,
            us_password_hash = None, us_first_name = od_first_name data, us_last_name = od_last_name data,
            us_job_title = None, us_avatar_url = od_avatar_url data, us_status = ''ACTIVE'',
            us_is_email_verified = od_is_email_verified data, us_is_mfa_enabled = False, us_failed_login_count = 0,
            us_account_locked_until = None, us_last_password_change_at = None, us_onboarding_completed_at = None,
            us_deletion_started_at = None, us_deleted_at = None, us_updated_at = now\<rparr>
      in if list_ex (\<lambda>u. us_id u = nextId \<or> us_public_id u = publicId \<or> us_email_hash u = emailHash) t
         then None else Some (row, t @ [row]))"

definition suspend :: "millis \<Rightarrow> string \<Rightarrow> user_write" where
  "suspend now publicId = update_row (live_user publicId) (\<lambda>u. u\<lparr>us_status := ''SUSPENDED'', us_updated_at := now\<rparr>)"

definition unsuspend :: "millis \<Rightarrow> string \<Rightarrow> user_write" where
  "unsuspend now publicId = update_row (live_user publicId) (\<lambda>u. u\<lparr>us_status := ''ACTIVE'', us_updated_at := now\<rparr>)"

definition markDeletionStarted :: "millis \<Rightarrow> string \<Rightarrow> user_write" where
  "markDeletionStarted now publicId = update_row (live_user publicId)
     (\<lambda>u. u\<lparr>us_deletion_started_at := Some now, us_updated_at := now\<rparr>)"

definition softDelete :: "millis \<Rightarrow> string \<Rightarrow> user_write" where
  "softDelete now publicId = update_row (\<lambda>u. live_user publicId u \<and> us_deletion_started_at u \<noteq> None)
     (\<lambda>u. u\<lparr>us_deleted_at := Some now, us_updated_at := now\<rparr>)"

definition updateLoginAttempt :: "millis \<Rightarrow> string \<Rightarrow> int \<Rightarrow> millis option \<Rightarrow> user_write" where
  "updateLoginAttempt now publicId failedLoginCount accountLockedUntil = update_row (live_user publicId)
     (\<lambda>u. u\<lparr>us_failed_login_count := failedLoginCount, us_account_locked_until := accountLockedUntil, us_updated_at := now\<rparr>)"

definition incrementFailedLoginAttempt :: "millis \<Rightarrow> string \<Rightarrow> int \<Rightarrow> int \<Rightarrow> user_write" where
  "incrementFailedLoginAttempt now publicId maxAttempts lockoutMinutes = update_row (live_user publicId)
     (\<lambda>u. u\<lparr>us_failed_login_count := us_failed_login_count u + 1,
            us_account_locked_until := (if us_failed_login_count u + 1 \<ge> maxAttempts
              then Some (now + lockoutMinutes * 60000) else us_account_locked_until u),
            us_updated_at := now\<rparr>)"

definition updateMfaEnabled :: "millis \<Rightarrow> string \<Rightarrow> bool \<Rightarrow> user_write" where
  "updateMfaEnabled now publicId enabled = update_row (live_user publicId)
     (\<lambda>u. u\<lparr>us_is_mfa_enabled := enabled, us_updated_at := now\<rparr>)"

definition ACTIVE_USER_STATUS :: string where "ACTIVE_USER_STATUS = ''ACTIVE''"

definition assertUserAccountActive :: "string \<Rightarrow> millis option \<Rightarrow> app_error option" where
  "assertUserAccountActive status deleted_at =
     (if status \<noteq> ACTIVE_USER_STATUS then Some (UnauthorizedError ''errors:accountNotActive'')
      else if deleted_at \<noteq> None then Some (UnauthorizedError ''errors:accountNotActive'')
      else None)"

definition assertEmailVerifiedForCredentialEnrollment :: "bool \<Rightarrow> app_error option" where
  "assertEmailVerifiedForCredentialEnrollment is_email_verified =
     (if \<not> is_email_verified then Some (ForbiddenError ''errors:emailVerificationRequiredForCredential'') else None)"

lemmas user_write_defs = updatePassword_def clearPasswordHash_def updateEmailVerified_def markOnboardingComplete_def
  updateByPublicId_def suspend_def unsuspend_def markDeletionStarted_def softDelete_def updateLoginAttempt_def
  incrementFailedLoginAttempt_def updateMfaEnabled_def

section \<open>Every write as one step\<close>

datatype user_op =
    OpUpdatePassword millis millis string string
  | OpClearPassword millis millis string
  | OpEmailVerified millis string
  | OpOnboarded millis string
  | OpPatch millis string UserPatch
  | OpSuspend millis string
  | OpUnsuspend millis string
  | OpDeletionStarted millis string
  | OpSoftDelete millis string
  | OpLoginAttempt millis string int "millis option"
  | OpFailedLogin millis string int int
  | OpMfaEnabled millis string bool

fun user_op_run :: "user_op \<Rightarrow> user_write" where
  "user_op_run (OpUpdatePassword j n p h) = updatePassword j n p h"
| "user_op_run (OpClearPassword j n p) = clearPasswordHash j n p"
| "user_op_run (OpEmailVerified n p) = updateEmailVerified n p"
| "user_op_run (OpOnboarded n p) = markOnboardingComplete n p"
| "user_op_run (OpPatch n p d) = updateByPublicId n p d"
| "user_op_run (OpSuspend n p) = suspend n p"
| "user_op_run (OpUnsuspend n p) = unsuspend n p"
| "user_op_run (OpDeletionStarted n p) = markDeletionStarted n p"
| "user_op_run (OpSoftDelete n p) = softDelete n p"
| "user_op_run (OpLoginAttempt n p c l) = updateLoginAttempt n p c l"
| "user_op_run (OpFailedLogin n p m l) = incrementFailedLoginAttempt n p m l"
| "user_op_run (OpMfaEnabled n p b) = updateMfaEnabled n p b"

definition run_user_ops :: "user_op list \<Rightarrow> UserRow tbl \<Rightarrow> UserRow tbl" where
  "run_user_ops ops t = fold (\<lambda>op. snd \<circ> user_op_run op) ops t"

definition user_keys :: "UserRow \<Rightarrow> nat \<times> string \<times> string" where
  "user_keys u = (us_id u, us_public_id u, us_email_hash u)"

lemma user_op_keys: "map user_keys (snd (user_op_run op t)) = map user_keys t"
  by (cases op) (simp_all add: user_write_defs user_keys_def update_where_key)

lemma user_op_deleted:
  "u \<in> set t \<Longrightarrow> us_deleted_at u \<noteq> None \<Longrightarrow> u \<in> set (snd (user_op_run op t))"
  by (cases op) (auto simp: user_write_defs set_update_where live_user_def image_iff intro!: bexI [of _ u])

definition user_keys_ok :: "UserRow tbl \<Rightarrow> bool" where
  "user_keys_ok t \<longleftrightarrow> distinct (map us_id t) \<and> distinct (map us_public_id t)"

text \<open>A soft-deleted account stays as it is through any sequence of the repository's writes, no lookup
  by its public id or internal id returns a row, and a new write on its public id reports no row:
  nothing reachable through the repository reads, changes or revives it.\<close>

theorem deleted_user_is_final:
  assumes "u \<in> set t" and "us_deleted_at u = Some d" and "user_keys_ok t"
  shows "u \<in> set (run_user_ops ops t) \<and> findByPublicId (us_public_id u) (run_user_ops ops t) = None \<and>
         findById (us_id u) (run_user_ops ops t) = None"
proof -
  have keep: "u \<in> set (run_user_ops ops t) \<and> map user_keys (run_user_ops ops t) = map user_keys t"
    using assms(1,2)
  proof (induction ops arbitrary: t)
    case (Cons op ops)
    then have "u \<in> set (snd (user_op_run op t))" by (simp add: user_op_deleted)
    with Cons.IH [of "snd (user_op_run op t)"] Cons.prems(2) show ?case
      by (simp add: run_user_ops_def user_op_keys)
  qed (simp add: run_user_ops_def)
  have "map us_id (run_user_ops ops t) = map us_id t" "map us_public_id (run_user_ops ops t) = map us_public_id t"
    using arg_cong [OF conjunct2 [OF keep], of "map fst"] arg_cong [OF conjunct2 [OF keep], of "map (fst \<circ> snd)"]
    by (simp_all add: comp_def user_keys_def)
  then have d: "distinct (map us_id (run_user_ops ops t))" "distinct (map us_public_id (run_user_ops ops t))"
    using assms(3) by (simp_all add: user_keys_ok_def)
  have "v = u" if "v \<in> set (run_user_ops ops t)" "us_public_id v = us_public_id u \<or> us_id v = us_id u" for v
    using d that keep by (auto dest: inj_onD simp: distinct_map)
  then show ?thesis
    using keep assms(2) by (auto simp: findByPublicId_def findById_def live_user_def select_first_None_iff)
qed

section \<open>The failure counter\<close>

definition demo_user :: UserRow where
  "demo_user = \<lparr>us_id = 1, us_public_id = ''usr_1'', us_email = ''a'', us_email_hash = ''h'', us_password_hash = Some ''p'',
     us_first_name = None, us_last_name = None, us_job_title = None, us_avatar_url = None, us_status = ''ACTIVE'',
     us_is_email_verified = True, us_is_mfa_enabled = False, us_failed_login_count = 0, us_account_locked_until = None,
     us_last_password_change_at = None, us_onboarding_completed_at = None, us_deletion_started_at = None,
     us_deleted_at = None, us_updated_at = 0\<rparr>"

theorem deleted_user_is_final_witness:
  "findByPublicId ''usr_1'' (run_user_ops [OpUnsuspend 9 ''usr_1'', OpMfaEnabled 10 ''usr_1'' True]
     [demo_user\<lparr>us_deleted_at := Some 5\<rparr>]) = None"
proof -
  have "user_keys_ok [demo_user\<lparr>us_deleted_at := Some 5\<rparr>]" by (simp add: user_keys_ok_def)
  with deleted_user_is_final [of "demo_user\<lparr>us_deleted_at := Some 5\<rparr>" "[demo_user\<lparr>us_deleted_at := Some 5\<rparr>]" 5
      "[OpUnsuspend 9 ''usr_1'', OpMfaEnabled 10 ''usr_1'' True]"]
  show ?thesis by (simp add: demo_user_def)
qed

text \<open>Deletion takes two writes: \<^verbatim>\<open>softDelete\<close> alone changes nothing on an account whose offboarding
  never started.\<close>

lemma softDelete_needs_start:
  assumes "\<And>u. u \<in> set t \<Longrightarrow> us_public_id u = publicId \<Longrightarrow> us_deletion_started_at u = None"
  shows "softDelete now publicId t = (None, t)"
proof -
  have no: "\<not> (live_user publicId r \<and> us_deletion_started_at r \<noteq> None)" if "r \<in> set t" for r
    using assms that by (auto simp: live_user_def)
  then have "fst (softDelete now publicId t) = None"
    by (auto simp: softDelete_def update_row_None)
  moreover have "snd (softDelete now publicId t) = t"
    using no by (auto simp: softDelete_def intro: update_where_id)
  ultimately show ?thesis by (metis prod.collapse)
qed

end
