(* ===== verification/Sessions.thy ===== *)
theory Sessions
  imports Users Redis_Protocols "HOL-Library.Product_Lexorder"
begin

text \<open>
  Sessions: \<^verbatim>\<open>src/src/domains/auth/sub-domains/auth-session/\<close> (\<^verbatim>\<open>auth-session.repository.ts\<close>,
  \<^verbatim>\<open>auth-session.service.ts\<close>, \<^verbatim>\<open>session-token-cache.service.ts\<close>, the deletion predicate of
  \<^verbatim>\<open>session-cleanup.worker.ts\<close>).  The state is the table, the Redis cache of validated tokens and the
  messages sent to Sentry.  SHA-256 and the generated secrets and ids are arguments.  \<^verbatim>\<open>now\<close> is the
  database clock of the transaction, \<^verbatim>\<open>jsNow\<close> the process clock (the reuse cutoff is computed from it).
  The row-level policies admit exactly rows the \<^verbatim>\<open>WHERE\<close> clauses already select.  Shown: which
  refresh secrets rotate, that a replayed secret revokes the whole family, that the number of live
  sessions is bounded, and that a revoked token stops at once whatever is in flight.
\<close>

section \<open>The table\<close>

record SessionRow =
  ss_id :: nat
  ss_public_id :: string
  ss_user_id :: nat
  ss_organization_id :: "nat option"
  ss_token_hash :: string
  ss_refresh_token_hash :: "string option"
  ss_previous_refresh_token_hash :: "string option"
  ss_refresh_token_rotated_at :: "millis option"
  ss_ip_address :: string
  ss_user_agent :: "string option"
  ss_last_active_at :: millis
  ss_expires_at :: millis
  ss_is_revoked :: bool
  ss_created_at :: millis

definition REFRESH_TOKEN_REUSE_GRACE_MS :: millis where "REFRESH_TOKEN_REUSE_GRACE_MS = 10000"
definition MAX_ACTIVE_SESSIONS_PER_USER :: nat where "MAX_ACTIVE_SESSIONS_PER_USER = 30"

definition session_findByPublicId :: "string \<Rightarrow> SessionRow tbl \<Rightarrow> SessionRow option" where
  "session_findByPublicId publicId = select_first (\<lambda>s. ss_public_id s = publicId \<and> \<not> ss_is_revoked s)"

definition findByPublicIdIncludingRevoked :: "string \<Rightarrow> SessionRow tbl \<Rightarrow> SessionRow option" where
  "findByPublicIdIncludingRevoked publicId = select_first (\<lambda>s. ss_public_id s = publicId)"

definition findByPublicIdForUser :: "string \<Rightarrow> nat \<Rightarrow> SessionRow tbl \<Rightarrow> SessionRow option" where
  "findByPublicIdForUser publicId userId =
     select_first (\<lambda>s. ss_public_id s = publicId \<and> ss_user_id s = userId \<and> \<not> ss_is_revoked s)"

definition updateLastActiveAt :: "millis \<Rightarrow> string \<Rightarrow> SessionRow tbl \<Rightarrow> SessionRow tbl" where
  "updateLastActiveAt now publicId = update_where (\<lambda>s. ss_public_id s = publicId) (\<lambda>s. s\<lparr>ss_last_active_at := now\<rparr>)"

definition rotateTokenHash :: "millis \<Rightarrow> string \<Rightarrow> string \<Rightarrow> SessionRow tbl \<Rightarrow> SessionRow tbl" where
  "rotateTokenHash now publicId tokenHash = update_where (\<lambda>s. ss_public_id s = publicId)
     (\<lambda>s. s\<lparr>ss_token_hash := tokenHash, ss_last_active_at := now\<rparr>)"

definition rotateTokenHashAndOrganization :: "millis \<Rightarrow> string \<Rightarrow> string \<Rightarrow> nat \<Rightarrow> SessionRow tbl \<Rightarrow> SessionRow tbl" where
  "rotateTokenHashAndOrganization now publicId tokenHash organizationId = update_where (\<lambda>s. ss_public_id s = publicId)
     (\<lambda>s. s\<lparr>ss_token_hash := tokenHash, ss_organization_id := Some organizationId, ss_last_active_at := now\<rparr>)"

text \<open>A comparison with a \<^verbatim>\<open>NULL\<close> column is not true.\<close>

definition sql_gt :: "millis option \<Rightarrow> millis \<Rightarrow> bool" where
  "sql_gt c t = (case c of None \<Rightarrow> False | Some x \<Rightarrow> x > t)"

definition refresh_accepts :: "millis \<Rightarrow> millis \<Rightarrow> string \<Rightarrow> string \<Rightarrow> SessionRow \<Rightarrow> bool" where
  "refresh_accepts jsNow now publicId currentRefreshTokenHash s \<longleftrightarrow>
     ss_public_id s = publicId \<and> \<not> ss_is_revoked s \<and> ss_expires_at s > now \<and>
     (ss_refresh_token_hash s = Some currentRefreshTokenHash \<or>
      ss_previous_refresh_token_hash s = Some currentRefreshTokenHash \<and>
      sql_gt (ss_refresh_token_rotated_at s) (jsNow - REFRESH_TOKEN_REUSE_GRACE_MS))"

definition rotateSessionCredentials ::
    "millis \<Rightarrow> millis \<Rightarrow> string \<Rightarrow> string \<Rightarrow> string \<Rightarrow> string \<Rightarrow> SessionRow tbl \<Rightarrow> SessionRow option \<times> SessionRow tbl" where
  "rotateSessionCredentials jsNow now publicId currentRefreshTokenHash nextTokenHash nextRefreshTokenHash =
     update_row (refresh_accepts jsNow now publicId currentRefreshTokenHash)
       (\<lambda>s. s\<lparr>ss_previous_refresh_token_hash := ss_refresh_token_hash s, ss_refresh_token_rotated_at := Some now,
              ss_token_hash := nextTokenHash, ss_refresh_token_hash := Some nextRefreshTokenHash, ss_last_active_at := now\<rparr>)"

definition findByTokenHash :: "string \<Rightarrow> SessionRow tbl \<Rightarrow> SessionRow option" where
  "findByTokenHash tokenHash = select_first (\<lambda>s. ss_token_hash s = tokenHash \<and> \<not> ss_is_revoked s)"

definition findActiveByTokenHash :: "millis \<Rightarrow> string \<Rightarrow> SessionRow tbl \<Rightarrow> SessionRow option" where
  "findActiveByTokenHash now tokenHash =
     select_first (\<lambda>s. ss_token_hash s = tokenHash \<and> \<not> ss_is_revoked s \<and> ss_expires_at s > now)"

definition revoked :: "SessionRow \<Rightarrow> SessionRow" where
  "revoked s = s\<lparr>ss_is_revoked := True\<rparr>"

definition session_revoke :: "string \<Rightarrow> nat \<Rightarrow> SessionRow tbl \<Rightarrow> SessionRow option \<times> SessionRow tbl" where
  "session_revoke publicId userId = update_row (\<lambda>s. ss_public_id s = publicId \<and> ss_user_id s = userId) revoked"

definition revokeByTokenHash :: "string \<Rightarrow> SessionRow tbl \<Rightarrow> SessionRow option \<times> SessionRow tbl" where
  "revokeByTokenHash tokenHash = update_row (\<lambda>s. ss_token_hash s = tokenHash) revoked"

definition revokeAllByUserId :: "nat \<Rightarrow> SessionRow tbl \<Rightarrow> SessionRow list \<times> SessionRow tbl" where
  "revokeAllByUserId userId t =
     (let p = (\<lambda>s. ss_user_id s = userId \<and> \<not> ss_is_revoked s) in (update_returning p revoked t, update_where p revoked t))"

definition revokeAllByUserIdExcept :: "nat \<Rightarrow> string \<Rightarrow> SessionRow tbl \<Rightarrow> SessionRow list \<times> SessionRow tbl" where
  "revokeAllByUserIdExcept userId exceptTokenHash t =
     (let p = (\<lambda>s. ss_user_id s = userId \<and> \<not> ss_is_revoked s \<and> ss_token_hash s \<noteq> exceptTokenHash)
      in (update_returning p revoked t, update_where p revoked t))"

definition live_session :: "millis \<Rightarrow> nat \<Rightarrow> SessionRow \<Rightarrow> bool" where
  "live_session now userId s \<longleftrightarrow> ss_user_id s = userId \<and> \<not> ss_is_revoked s \<and> ss_expires_at s > now"

text \<open>\<^verbatim>\<open>ORDER BY created_at DESC, id DESC\<close>.\<close>

definition newest_first :: "SessionRow list \<Rightarrow> SessionRow list" where
  "newest_first ss = rev (sort_key (\<lambda>s. (ss_created_at s, ss_id s)) ss)"

definition revokeOldestActiveBeyond :: "millis \<Rightarrow> nat \<Rightarrow> nat \<Rightarrow> SessionRow tbl \<Rightarrow> SessionRow list \<times> SessionRow tbl" where
  "revokeOldestActiveBeyond now userId keepCount t =
     (let oldest = map ss_id (drop keepCount (newest_first (filter (live_session now userId) t)))
      in if oldest = [] then ([], t)
         else (update_returning (\<lambda>s. ss_id s \<in> set oldest) revoked t, update_where (\<lambda>s. ss_id s \<in> set oldest) revoked t))"

record AuthSessionCreateData =
  sc_token_hash :: string
  sc_ip_address :: string
  sc_user_agent :: "string option"
  sc_expires_at :: millis

definition session_create :: "millis \<Rightarrow> nat \<Rightarrow> string \<Rightarrow> nat \<Rightarrow> string \<Rightarrow> AuthSessionCreateData \<Rightarrow> SessionRow tbl \<Rightarrow> SessionRow \<times> SessionRow tbl" where
  "session_create now nextId publicId userId refreshTokenHash data t =
     (let row = \<lparr>ss_id = nextId, ss_public_id = publicId, ss_user_id = userId, ss_organization_id = None,
        ss_token_hash = sc_token_hash data, ss_refresh_token_hash = Some refreshTokenHash,
        ss_previous_refresh_token_hash = None, ss_refresh_token_rotated_at = None, ss_ip_address = sc_ip_address data,
        ss_user_agent = sc_user_agent data, ss_last_active_at = now, ss_expires_at = sc_expires_at data,
        ss_is_revoked = False, ss_created_at = now\<rparr>
      in (row, t @ [row]))"

definition session_cleanup :: "millis \<Rightarrow> millis \<Rightarrow> SessionRow tbl \<Rightarrow> SessionRow tbl" where
  "session_cleanup jsNow cutoffDate =
     delete_where (\<lambda>s. ss_expires_at s < jsNow \<or> ss_is_revoked s \<and> ss_created_at s < cutoffDate)"

section \<open>The token cache\<close>

definition SESSION_TOKEN_CACHE_TTL_SECONDS :: int where "SESSION_TOKEN_CACHE_TTL_SECONDS = 60"
definition SESSION_TOKEN_REVOKED_TOMBSTONE :: string where "SESSION_TOKEN_REVOKED_TOMBSTONE = ''__revoked__''"

definition buildSessionTokenCacheKey :: "string \<Rightarrow> string" where
  "buildSessionTokenCacheKey tokenHash = ''session:tok:'' @ tokenHash"

definition getCachedSessionTokenValid :: "bool \<Rightarrow> millis \<Rightarrow> string \<Rightarrow> string redis \<Rightarrow> string option" where
  "getCachedSessionTokenValid up now tokenHash r =
     (if \<not> up then None
      else case redis_get now r (buildSessionTokenCacheKey tokenHash) of
             None \<Rightarrow> None
           | Some cached \<Rightarrow>
               (if length cached = 0 then None
                else if cached = SESSION_TOKEN_REVOKED_TOMBSTONE then None else Some cached))"

definition setCachedSessionTokenValid :: "bool \<Rightarrow> millis \<Rightarrow> string \<Rightarrow> string \<Rightarrow> millis \<Rightarrow> string redis \<Rightarrow> string redis" where
  "setCachedSessionTokenValid up now tokenHash sessionPublicId sessionExpiresAt r =
     (let remainingSeconds = (sessionExpiresAt - now) div 1000;
          ttlSeconds = min SESSION_TOKEN_CACHE_TTL_SECONDS remainingSeconds
      in if ttlSeconds \<le> 0 then r
         else if \<not> up then r
         else snd (redis_set_ex_nx now (buildSessionTokenCacheKey tokenHash) sessionPublicId ttlSeconds r))"

definition invalidateCachedSessionToken :: "bool \<Rightarrow> millis \<Rightarrow> string \<Rightarrow> string redis \<Rightarrow> string redis" where
  "invalidateCachedSessionToken up now tokenHash r =
     (if \<not> up then r
      else redis_set_ex now (buildSessionTokenCacheKey tokenHash) SESSION_TOKEN_REVOKED_TOMBSTONE SESSION_TOKEN_CACHE_TTL_SECONDS r)"

section \<open>The service\<close>

record AuthWorld =
  aw_users :: "UserRow tbl"
  aw_sessions :: "SessionRow tbl"
  aw_cache :: "string redis"
  aw_sentry :: "string list"

text \<open>Clocks and Redis availability of one service call.\<close>

record Ctx =
  cx_now :: millis
  cx_jsNow :: millis
  cx_redis :: bool

definition invalidate_token :: "Ctx \<Rightarrow> string \<Rightarrow> 'z AuthWorld_scheme \<Rightarrow> 'z AuthWorld_scheme" where
  "invalidate_token cx h w = w\<lparr>aw_cache := invalidateCachedSessionToken (cx_redis cx) (cx_jsNow cx) h (aw_cache w)\<rparr>"

text \<open>\<^verbatim>\<open>filter(Boolean)\<close> drops empty hashes.\<close>

definition invalidateRevokedSessionCaches :: "Ctx \<Rightarrow> SessionRow list \<Rightarrow> 'z AuthWorld_scheme \<Rightarrow> 'z AuthWorld_scheme" where
  "invalidateRevokedSessionCaches cx revokedSessions w =
     fold (invalidate_token cx) (filter (\<lambda>h. h \<noteq> []) (map ss_token_hash revokedSessions)) w"

definition service_revoke :: "Ctx \<Rightarrow> string \<Rightarrow> string \<Rightarrow> 'z AuthWorld_scheme \<Rightarrow> (app_error + unit) \<times> 'z AuthWorld_scheme" where
  "service_revoke cx userPublicId sessionPublicId w =
     (case requireUserRecordByPublicId userPublicId (aw_users w) of
        Inl e \<Rightarrow> (Inl e, w)
      | Inr user \<Rightarrow>
          (case session_revoke sessionPublicId (us_id user) (aw_sessions w) of
             (None, t) \<Rightarrow> (Inl (NotFoundError ''Session''), w\<lparr>aw_sessions := t\<rparr>)
           | (Some r, t) \<Rightarrow>
               (let w1 = w\<lparr>aw_sessions := t\<rparr>
                in (Inr (), if ss_token_hash r \<noteq> [] then invalidate_token cx (ss_token_hash r) w1 else w1))))"

definition revokeAllSessions :: "Ctx \<Rightarrow> string \<Rightarrow> 'z AuthWorld_scheme \<Rightarrow> (app_error + unit) \<times> 'z AuthWorld_scheme" where
  "revokeAllSessions cx userPublicId w =
     (case requireUserRecordByPublicId userPublicId (aw_users w) of
        Inl e \<Rightarrow> (Inl e, w)
      | Inr user \<Rightarrow>
          (let (rs, t) = revokeAllByUserId (us_id user) (aw_sessions w)
           in (Inr (), invalidateRevokedSessionCaches cx rs (w\<lparr>aw_sessions := t\<rparr>))))"

definition revokeAllSessionsExceptCurrent ::
    "(string \<Rightarrow> string) \<Rightarrow> Ctx \<Rightarrow> string \<Rightarrow> string \<Rightarrow> 'z AuthWorld_scheme \<Rightarrow> (app_error + unit) \<times> 'z AuthWorld_scheme" where
  "revokeAllSessionsExceptCurrent sha256hex cx userPublicId currentAccessToken w =
     (case requireUserRecordByPublicId userPublicId (aw_users w) of
        Inl e \<Rightarrow> (Inl e, w)
      | Inr user \<Rightarrow>
          (let (rs, t) = revokeAllByUserIdExcept (us_id user) (sha256hex currentAccessToken) (aw_sessions w)
           in (Inr (), invalidateRevokedSessionCaches cx rs (w\<lparr>aw_sessions := t\<rparr>))))"

text \<open>What the runtime generates for a new session: row id, public id, refresh secret.\<close>

record FreshSession =
  fr_id :: nat
  fr_public_id :: string
  fr_refresh_secret :: string

definition createSessionForUser ::
    "(string \<Rightarrow> string) \<Rightarrow> Ctx \<Rightarrow> FreshSession \<Rightarrow> string \<Rightarrow> AuthSessionCreateData \<Rightarrow> 'z AuthWorld_scheme \<Rightarrow>
     (app_error + string \<times> string) \<times> 'z AuthWorld_scheme" where
  "createSessionForUser sha256hex cx fr userPublicId data w =
     (case requireUserRecordByPublicId userPublicId (aw_users w) of
        Inl e \<Rightarrow> (Inl e, w)
      | Inr user \<Rightarrow>
          (let (evicted, t1) = revokeOldestActiveBeyond (cx_now cx) (us_id user) (MAX_ACTIVE_SESSIONS_PER_USER - 1) (aw_sessions w);
               (created, t2) = session_create (cx_now cx) (fr_id fr) (fr_public_id fr) (us_id user)
                                 (sha256hex (fr_refresh_secret fr)) data t1
           in (Inr (ss_public_id created, fr_refresh_secret fr),
               invalidateRevokedSessionCaches cx evicted (w\<lparr>aw_sessions := t2\<rparr>))))"

definition revokeSessionByAccessToken ::
    "(string \<Rightarrow> string) \<Rightarrow> Ctx \<Rightarrow> string \<Rightarrow> 'z AuthWorld_scheme \<Rightarrow> (app_error + unit) \<times> 'z AuthWorld_scheme" where
  "revokeSessionByAccessToken sha256hex cx token w =
     (let h = sha256hex token; w1 = invalidate_token cx h w; (r, t) = revokeByTokenHash h (aw_sessions w1)
      in (case r of None \<Rightarrow> Inl (UnauthorizedError ''errors:invalidOrRevokedToken'') | Some _ \<Rightarrow> Inr (),
          w1\<lparr>aw_sessions := t\<rparr>))"

definition verifyActiveAccessToken ::
    "(string \<Rightarrow> string) \<Rightarrow> Ctx \<Rightarrow> string \<Rightarrow> string \<Rightarrow> 'z AuthWorld_scheme \<Rightarrow> (app_error + string) \<times> 'z AuthWorld_scheme" where
  "verifyActiveAccessToken sha256hex cx rawToken userPublicId w =
     (let h = sha256hex rawToken in
      case getCachedSessionTokenValid (cx_redis cx) (cx_jsNow cx) h (aw_cache w) of
        Some sessionPublicId \<Rightarrow> (Inr sessionPublicId, w)
      | None \<Rightarrow>
          (case findActiveByTokenHash (cx_now cx) h (aw_sessions w) of
             None \<Rightarrow> (Inl (UnauthorizedError ''errors:invalidOrExpiredSession''), w)
           | Some session \<Rightarrow>
               (case findByPublicId userPublicId (aw_users w) of
                  None \<Rightarrow> (Inl (UnauthorizedError ''errors:accountNotActive''), w)
                | Some user \<Rightarrow>
                    (if us_status user \<noteq> ''ACTIVE'' \<or> us_deleted_at user \<noteq> None
                     then (Inl (UnauthorizedError ''errors:accountNotActive''), w)
                     else (Inr (ss_public_id session),
                           w\<lparr>aw_cache := setCachedSessionTokenValid (cx_redis cx) (cx_jsNow cx) h (ss_public_id session)
                               (ss_expires_at session) (aw_cache w)\<rparr>)))))"

definition rotateSessionTokenHash :: "Ctx \<Rightarrow> string \<Rightarrow> string \<Rightarrow> 'z AuthWorld_scheme \<Rightarrow> 'z AuthWorld_scheme" where
  "rotateSessionTokenHash cx sessionPublicId tokenHash w =
     (let w1 = (case session_findByPublicId sessionPublicId (aw_sessions w) of
                  Some e \<Rightarrow> if ss_token_hash e \<noteq> [] then invalidate_token cx (ss_token_hash e) w else w
                | None \<Rightarrow> w)
      in w1\<lparr>aw_sessions := rotateTokenHash (cx_now cx) sessionPublicId tokenHash (aw_sessions w1)\<rparr>)"

definition revokeAllSessionsForReusedRefreshSecret :: "Ctx \<Rightarrow> nat \<Rightarrow> 'z AuthWorld_scheme \<Rightarrow> 'z AuthWorld_scheme" where
  "revokeAllSessionsForReusedRefreshSecret cx userId w =
     (case findById userId (aw_users w) of
        None \<Rightarrow> w
      | Some user \<Rightarrow>
          (let (rs, t) = revokeAllByUserId (us_id user) (aw_sessions w)
           in invalidateRevokedSessionCaches cx rs (w\<lparr>aw_sessions := t\<rparr>)))"

definition refresh_rotate ::
    "Ctx \<Rightarrow> string \<Rightarrow> string \<Rightarrow> string \<Rightarrow> string \<Rightarrow> 'z AuthWorld_scheme \<Rightarrow> SessionRow option \<times> 'z AuthWorld_scheme" where
  "refresh_rotate cx sessionPublicId currentRefreshHash nextTokenHash nextRefreshHash w =
     (case session_findByPublicId sessionPublicId (aw_sessions w) of
        None \<Rightarrow> (None, w)
      | Some existing \<Rightarrow>
          (if ss_refresh_token_hash existing = None \<or> ss_refresh_token_hash existing = Some [] then (None, w)
           else let w1 = (if ss_token_hash existing \<noteq> [] then invalidate_token cx (ss_token_hash existing) w else w);
                    (r, t) = rotateSessionCredentials (cx_jsNow cx) (cx_now cx) sessionPublicId currentRefreshHash
                               nextTokenHash nextRefreshHash (aw_sessions w1)
                in (r, w1\<lparr>aw_sessions := t\<rparr>)))"

definition refresh_reuse :: "string \<Rightarrow> string \<Rightarrow> 'z AuthWorld_scheme \<Rightarrow> (nat \<times> bool) option" where
  "refresh_reuse sessionPublicId currentRefreshHash w =
     (case findByPublicIdIncludingRevoked sessionPublicId (aw_sessions w) of
        None \<Rightarrow> None
      | Some existing \<Rightarrow>
          (if ss_refresh_token_hash existing \<noteq> None \<and> ss_refresh_token_hash existing \<noteq> Some [] \<and>
              ss_refresh_token_hash existing \<noteq> Some currentRefreshHash
           then Some (ss_user_id existing, ss_is_revoked existing) else None))"

definition refreshSessionCredentials ::
    "(string \<Rightarrow> string) \<Rightarrow> Ctx \<Rightarrow> string \<Rightarrow> string \<Rightarrow> string \<Rightarrow> string \<Rightarrow> 'z AuthWorld_scheme \<Rightarrow>
     (app_error + string) \<times> 'z AuthWorld_scheme" where
  "refreshSessionCredentials sha256hex cx nextRefreshSecret sessionPublicId refreshSecret nextAccessToken w =
     (let currentRefreshHash = sha256hex refreshSecret in
      case refresh_rotate cx sessionPublicId currentRefreshHash (sha256hex nextAccessToken) (sha256hex nextRefreshSecret) w of
        (Some _, w1) \<Rightarrow> (Inr nextRefreshSecret, w1)
      | (None, w1) \<Rightarrow>
          (let w3 = (case refresh_reuse sessionPublicId currentRefreshHash w1 of
                       None \<Rightarrow> w1
                     | Some (userId, wasAlreadyRevoked) \<Rightarrow>
                         (let w2 = w1\<lparr>aw_sentry := aw_sentry w1 @ [''auth.refresh_token.reuse_detected'']\<rparr>
                          in if \<not> wasAlreadyRevoked then revokeAllSessionsForReusedRefreshSecret cx userId w2 else w2))
           in (Inl (UnauthorizedError ''errors:invalidOrExpiredSession''), w3)))"

definition rebindAccessToken ::
    "(string \<Rightarrow> string) \<Rightarrow> Ctx \<Rightarrow> string \<Rightarrow> string \<Rightarrow> nat \<Rightarrow> 'z AuthWorld_scheme \<Rightarrow> (app_error + unit) \<times> 'z AuthWorld_scheme" where
  "rebindAccessToken sha256hex cx sessionPublicId nextAccessToken activeOrganizationId w =
     (case session_findByPublicId sessionPublicId (aw_sessions w) of
        None \<Rightarrow> (Inl (UnauthorizedError ''errors:invalidOrExpiredSession''), w)
      | Some existing \<Rightarrow>
          (let w1 = (if ss_token_hash existing \<noteq> [] then invalidate_token cx (ss_token_hash existing) w else w)
           in (Inr (), w1\<lparr>aw_sessions := rotateTokenHashAndOrganization (cx_now cx) sessionPublicId
                         (sha256hex nextAccessToken) activeOrganizationId (aw_sessions w1)\<rparr>)))"

section \<open>Which secrets refresh\<close>

definition session_keys_ok :: "SessionRow tbl \<Rightarrow> bool" where
  "session_keys_ok t \<longleftrightarrow> distinct (map ss_id t) \<and> distinct (map ss_public_id t)"

definition rotated_row :: "millis \<Rightarrow> string \<Rightarrow> string \<Rightarrow> SessionRow \<Rightarrow> SessionRow" where
  "rotated_row now nextTokenHash nextRefreshTokenHash s =
     s\<lparr>ss_previous_refresh_token_hash := ss_refresh_token_hash s, ss_refresh_token_rotated_at := Some now,
       ss_token_hash := nextTokenHash, ss_refresh_token_hash := Some nextRefreshTokenHash, ss_last_active_at := now\<rparr>"

lemma invalidate_token_frame [simp]:
  "aw_sessions (invalidate_token cx h w) = aw_sessions w" "aw_users (invalidate_token cx h w) = aw_users w"
  "aw_sentry (invalidate_token cx h w) = aw_sentry w"
  by (simp_all add: invalidate_token_def)

lemma invalidate_caches_frame [simp]:
  "aw_sessions (invalidateRevokedSessionCaches cx rs w) = aw_sessions w"
  "aw_users (invalidateRevokedSessionCaches cx rs w) = aw_users w"
  "aw_sentry (invalidateRevokedSessionCaches cx rs w) = aw_sentry w"
proof -
  have "aw_sessions (fold (invalidate_token cx) hs w) = aw_sessions w \<and> aw_users (fold (invalidate_token cx) hs w) = aw_users w \<and>
      aw_sentry (fold (invalidate_token cx) hs w) = aw_sentry w" for hs
    by (induction hs arbitrary: w) simp_all
  then show "aw_sessions (invalidateRevokedSessionCaches cx rs w) = aw_sessions w"
    "aw_users (invalidateRevokedSessionCaches cx rs w) = aw_users w"
    "aw_sentry (invalidateRevokedSessionCaches cx rs w) = aw_sentry w"
    by (simp_all add: invalidateRevokedSessionCaches_def)
qed

lemma refresh_rotate_row:
  assumes "distinct (map ss_public_id (aw_sessions w))" and "s \<in> set (aw_sessions w)"
    and "ss_refresh_token_hash s = Some rh" and "rh \<noteq> []"
  shows "fst (refresh_rotate cx (ss_public_id s) h nt nr w) =
      (if refresh_accepts (cx_jsNow cx) (cx_now cx) (ss_public_id s) h s then Some (rotated_row (cx_now cx) nt nr s) else None)"
    and "aw_sessions (snd (refresh_rotate cx (ss_public_id s) h nt nr w)) =
      update_where (refresh_accepts (cx_jsNow cx) (cx_now cx) (ss_public_id s) h) (rotated_row (cx_now cx) nt nr) (aw_sessions w)"
    and "aw_users (snd (refresh_rotate cx (ss_public_id s) h nt nr w)) = aw_users w"
    and "aw_sentry (snd (refresh_rotate cx (ss_public_id s) h nt nr w)) = aw_sentry w"
proof -
  have find: "session_findByPublicId (ss_public_id s) (aw_sessions w) = (if ss_is_revoked s then None else Some s)"
    unfolding session_findByPublicId_def by (simp add: select_first_key [OF assms(1,2)])
  have row: "fst (update_row (refresh_accepts (cx_jsNow cx) (cx_now cx) (ss_public_id s) h) f (aw_sessions w)) =
      (if refresh_accepts (cx_jsNow cx) (cx_now cx) (ss_public_id s) h s then Some (f s) else None)" for f
    by (rule update_row_key [OF assms(1,2)]) (simp add: refresh_accepts_def)
  have same: "x = s" if "x \<in> set (aw_sessions w)" "ss_public_id x = ss_public_id s" for x
    using assms(1,2) that by (auto simp: distinct_map dest: inj_onD)
  have none: "update_where (refresh_accepts (cx_jsNow cx) (cx_now cx) (ss_public_id s) h) f (aw_sessions w) = aw_sessions w"
    if "ss_is_revoked s" for f
    by (rule update_where_id) (use that same in \<open>auto simp: refresh_accepts_def\<close>)
  have *: "rotateSessionCredentials (cx_jsNow cx) (cx_now cx) (ss_public_id s) h nt nr (aw_sessions w) =
      (if refresh_accepts (cx_jsNow cx) (cx_now cx) (ss_public_id s) h s then Some (rotated_row (cx_now cx) nt nr s) else None,
       update_where (refresh_accepts (cx_jsNow cx) (cx_now cx) (ss_public_id s) h) (rotated_row (cx_now cx) nt nr) (aw_sessions w))"
    unfolding rotateSessionCredentials_def rotated_row_def [abs_def]
    by (rule prod_eqI) (simp_all add: row)
  show "fst (refresh_rotate cx (ss_public_id s) h nt nr w) =
      (if refresh_accepts (cx_jsNow cx) (cx_now cx) (ss_public_id s) h s then Some (rotated_row (cx_now cx) nt nr s) else None)"
    and "aw_sessions (snd (refresh_rotate cx (ss_public_id s) h nt nr w)) =
      update_where (refresh_accepts (cx_jsNow cx) (cx_now cx) (ss_public_id s) h) (rotated_row (cx_now cx) nt nr) (aw_sessions w)"
    and "aw_users (snd (refresh_rotate cx (ss_public_id s) h nt nr w)) = aw_users w"
    and "aw_sentry (snd (refresh_rotate cx (ss_public_id s) h nt nr w)) = aw_sentry w"
    using assms(3,4) none by (auto simp: refresh_rotate_def find * refresh_accepts_def)
qed

lemma rotated_row_keys [simp]:
  "ss_public_id (rotated_row now nt nr s) = ss_public_id s" "ss_id (rotated_row now nt nr s) = ss_id s"
  "ss_user_id (rotated_row now nt nr s) = ss_user_id s" "ss_is_revoked (rotated_row now nt nr s) = ss_is_revoked s"
  "ss_expires_at (rotated_row now nt nr s) = ss_expires_at s"
  "ss_refresh_token_hash (rotated_row now nt nr s) = Some nr"
  "ss_previous_refresh_token_hash (rotated_row now nt nr s) = ss_refresh_token_hash s"
  "ss_refresh_token_rotated_at (rotated_row now nt nr s) = Some now"
  by (simp_all add: rotated_row_def)

lemma refresh_outcome:
  assumes "session_keys_ok (aw_sessions w)" and "s \<in> set (aw_sessions w)"
    and "ss_refresh_token_hash s = Some rh" and "rh \<noteq> []"
  shows "fst (refreshSessionCredentials sha cx next (ss_public_id s) secret token w) =
      (if \<not> ss_is_revoked s \<and> ss_expires_at s > cx_now cx \<and>
          (rh = sha secret \<or> ss_previous_refresh_token_hash s = Some (sha secret) \<and>
             (\<exists>r. ss_refresh_token_rotated_at s = Some r \<and> cx_jsNow cx < r + 10000))
       then Inr next else Inl (UnauthorizedError ''errors:invalidOrExpiredSession'')) \<and>
    (fst (refreshSessionCredentials sha cx next (ss_public_id s) secret token w) = Inr next \<longrightarrow>
      rotated_row (cx_now cx) (sha token) (sha next) s \<in>
        set (aw_sessions (snd (refreshSessionCredentials sha cx next (ss_public_id s) secret token w))))"
proof -
  have d: "distinct (map ss_public_id (aw_sessions w))"
    using assms(1) by (simp add: session_keys_ok_def)
  have acc: "refresh_accepts (cx_jsNow cx) (cx_now cx) (ss_public_id s) (sha secret) s \<longleftrightarrow>
      \<not> ss_is_revoked s \<and> ss_expires_at s > cx_now cx \<and>
      (rh = sha secret \<or> ss_previous_refresh_token_hash s = Some (sha secret) \<and>
         (\<exists>r. ss_refresh_token_rotated_at s = Some r \<and> cx_jsNow cx < r + 10000))"
    using assms(3) by (auto simp: refresh_accepts_def sql_gt_def REFRESH_TOKEN_REUSE_GRACE_MS_def split: option.splits)
  note rr = refresh_rotate_row [OF d assms(2-4), of cx "sha secret" "sha token" "sha next"]
  obtain r w1 where run: "refresh_rotate cx (ss_public_id s) (sha secret) (sha token) (sha next) w = (r, w1)" by fastforce
  show ?thesis
    using rr(1,2) assms(2)
    by (auto simp: refreshSessionCredentials_def run acc [symmetric] set_update_where image_iff split: option.splits intro!: bexI [of _ s])
qed

text \<open>A family is revoked: every session of the user is, and nobody else's row changed.\<close>

definition family_revoked :: "nat \<Rightarrow> SessionRow tbl \<Rightarrow> SessionRow tbl \<Rightarrow> bool" where
  "family_revoked userId before after \<longleftrightarrow>
     after = map (\<lambda>s. if ss_user_id s = userId then revoked s else s) before"

lemma revokeAll_family: "snd (revokeAllByUserId userId t) = map (\<lambda>s. if ss_user_id s = userId then revoked s else s) t"
  by (auto simp: revokeAllByUserId_def update_where_def revoked_def)

lemma reuse_outcome:
  assumes "session_keys_ok (aw_sessions w)" and "s \<in> set (aw_sessions w)"
    and "ss_refresh_token_hash s = Some rh" and "rh \<noteq> []" and "rh \<noteq> sha secret" and "\<not> ss_is_revoked s"
    and "\<not> (ss_previous_refresh_token_hash s = Some (sha secret) \<and>
             (\<exists>r. ss_refresh_token_rotated_at s = Some r \<and> cx_jsNow cx < r + 10000))"
    and "findById (ss_user_id s) (aw_users w) = Some u"
  shows "fst (refreshSessionCredentials sha cx next (ss_public_id s) secret token w) =
      Inl (UnauthorizedError ''errors:invalidOrExpiredSession'') \<and>
    family_revoked (ss_user_id s) (aw_sessions w)
      (aw_sessions (snd (refreshSessionCredentials sha cx next (ss_public_id s) secret token w))) \<and>
    aw_sentry (snd (refreshSessionCredentials sha cx next (ss_public_id s) secret token w)) =
      aw_sentry w @ [''auth.refresh_token.reuse_detected'']"
proof -
  have d: "distinct (map ss_public_id (aw_sessions w))"
    using assms(1) by (simp add: session_keys_ok_def)
  have same: "x = s" if "x \<in> set (aw_sessions w)" "ss_public_id x = ss_public_id s" for x
    using d assms(2) that by (auto simp: distinct_map dest: inj_onD)
  have rej: "\<not> refresh_accepts (cx_jsNow cx) (cx_now cx) (ss_public_id s) (sha secret) s"
    using assms(3,5,7) by (auto simp: refresh_accepts_def sql_gt_def REFRESH_TOKEN_REUSE_GRACE_MS_def split: option.splits)
  have idle: "update_where (refresh_accepts (cx_jsNow cx) (cx_now cx) (ss_public_id s) (sha secret)) f (aw_sessions w) = aw_sessions w" for f
    by (rule update_where_id) (use rej same in \<open>auto simp: refresh_accepts_def\<close>)
  obtain r w1 where run: "refresh_rotate cx (ss_public_id s) (sha secret) (sha token) (sha next) w = (r, w1)" by fastforce
  have w1: "r = None" "aw_sessions w1 = aw_sessions w" "aw_users w1 = aw_users w" "aw_sentry w1 = aw_sentry w"
    using refresh_rotate_row [OF d assms(2-4), of cx "sha secret" "sha token" "sha next"] rej
    by (simp_all add: run idle)
  have reuse: "refresh_reuse (ss_public_id s) (sha secret) w1 = Some (ss_user_id s, False)"
    using assms(3-6) by (simp add: refresh_reuse_def findByPublicIdIncludingRevoked_def w1 select_first_key_only [OF d assms(2)])
  have uid: "us_id u = ss_user_id s"
    using assms(8) by (auto simp: findById_def dest: select_first_Some_iff)
  show ?thesis
    using revokeAll_family [of "ss_user_id s" "aw_sessions w"]
    by (simp add: refreshSessionCredentials_def run w1 reuse revokeAllSessionsForReusedRefreshSecret_def assms(8) uid
        family_revoked_def Let_def) (auto split: prod.splits)
qed

text \<open>C32 A refresh succeeds exactly when the session is neither revoked nor expired and the secret
  presented is the current one, or the one it replaced while the rotation is less than ten seconds
  old; then the secret it returns is the current one and the old one moves to the previous slot.\<close>

theorem refresh_succeeds_iff:
  assumes "session_keys_ok (aw_sessions w)" and "s \<in> set (aw_sessions w)"
    and "ss_refresh_token_hash s = Some rh" and "rh \<noteq> []"
  shows "fst (refreshSessionCredentials sha cx next (ss_public_id s) secret token w) =
      (if \<not> ss_is_revoked s \<and> ss_expires_at s > cx_now cx \<and>
          (rh = sha secret \<or> ss_previous_refresh_token_hash s = Some (sha secret) \<and>
             (\<exists>r. ss_refresh_token_rotated_at s = Some r \<and> cx_jsNow cx < r + 10000))
       then Inr next else Inl (UnauthorizedError ''errors:invalidOrExpiredSession'')) \<and>
    (fst (refreshSessionCredentials sha cx next (ss_public_id s) secret token w) = Inr next \<longrightarrow>
      rotated_row (cx_now cx) (sha token) (sha next) s \<in>
        set (aw_sessions (snd (refreshSessionCredentials sha cx next (ss_public_id s) secret token w))))"
  using assms by (rule refresh_outcome)

text \<open>C31 Reuse detection: presenting a secret that is not the current one of a session that still
  stands (and that is past its grace) fails, revokes every session of that user and no other row,
  and raises the alert.\<close>

theorem replayed_secret_revokes_family:
  assumes "session_keys_ok (aw_sessions w)" and "s \<in> set (aw_sessions w)"
    and "ss_refresh_token_hash s = Some rh" and "rh \<noteq> []" and "rh \<noteq> sha secret" and "\<not> ss_is_revoked s"
    and "\<not> (ss_previous_refresh_token_hash s = Some (sha secret) \<and>
             (\<exists>r. ss_refresh_token_rotated_at s = Some r \<and> cx_jsNow cx < r + 10000))"
    and "findById (ss_user_id s) (aw_users w) = Some u"
  shows "fst (refreshSessionCredentials sha cx next (ss_public_id s) secret token w) =
      Inl (UnauthorizedError ''errors:invalidOrExpiredSession'') \<and>
    family_revoked (ss_user_id s) (aw_sessions w)
      (aw_sessions (snd (refreshSessionCredentials sha cx next (ss_public_id s) secret token w))) \<and>
    aw_sentry (snd (refreshSessionCredentials sha cx next (ss_public_id s) secret token w)) =
      aw_sentry w @ [''auth.refresh_token.reuse_detected'']"
  using assms by (rule reuse_outcome)

section \<open>Concurrent refreshes\<close>

lemma refresh_keys_ok:
  assumes "session_keys_ok (aw_sessions w)" and "s \<in> set (aw_sessions w)"
    and "ss_refresh_token_hash s = Some rh" and "rh \<noteq> []"
    and "fst (refreshSessionCredentials sha cx next (ss_public_id s) secret token w) = Inr next"
  shows "session_keys_ok (aw_sessions (snd (refreshSessionCredentials sha cx next (ss_public_id s) secret token w))) \<and>
    aw_users (snd (refreshSessionCredentials sha cx next (ss_public_id s) secret token w)) = aw_users w"
proof -
  have d: "distinct (map ss_public_id (aw_sessions w))"
    using assms(1) by (simp add: session_keys_ok_def)
  note rr = refresh_rotate_row [OF d assms(2-4), of cx "sha secret" "sha token" "sha next"]
  obtain r w1 where run: "refresh_rotate cx (ss_public_id s) (sha secret) (sha token) (sha next) w = (r, w1)" by fastforce
  have "snd (refreshSessionCredentials sha cx next (ss_public_id s) secret token w) = w1"
    using assms(5) by (auto simp: refreshSessionCredentials_def run split: option.splits)
  with rr(2,3) assms(1) show ?thesis by (simp add: run session_keys_ok_def update_where_key)
qed

text \<open>Two refreshes of the same secret: the first turns row \<^verbatim>\<open>s\<close> into \<^verbatim>\<open>s1\<close>, the second \<^verbatim>\<open>s1\<close> into \<^verbatim>\<open>s2\<close>.\<close>

lemma two_refreshes:
  assumes "session_keys_ok (aw_sessions w)" and "s \<in> set (aw_sessions w)"
    and "ss_refresh_token_hash s = Some (sha r0)" and "sha r0 \<noteq> []" and "sha r1 \<noteq> []"
    and "\<not> ss_is_revoked s" and "ss_expires_at s > cx_now cx1" and "ss_expires_at s > cx_now cx2"
    and "cx_jsNow cx2 < cx_now cx1 + 10000"
    and "(res1, w1) = refreshSessionCredentials sha cx1 r1 (ss_public_id s) r0 a1 w"
    and "(res2, w2) = refreshSessionCredentials sha cx2 r2 (ss_public_id s) r0 a2 w1"
  shows "res1 = Inr r1 \<and> res2 = Inr r2 \<and> session_keys_ok (aw_sessions w2) \<and> aw_users w2 = aw_users w \<and>
    rotated_row (cx_now cx2) (sha a2) (sha r2) (rotated_row (cx_now cx1) (sha a1) (sha r1) s) \<in> set (aw_sessions w2)"
proof -
  let ?s1 = "rotated_row (cx_now cx1) (sha a1) (sha r1) s"
  have run1: "refreshSessionCredentials sha cx1 r1 (ss_public_id s) r0 a1 w = (res1, w1)"
    and run2: "refreshSessionCredentials sha cx2 r2 (ss_public_id s) r0 a2 w1 = (res2, w2)"
    using assms(10,11) by simp_all
  have 1: "res1 = Inr r1" "?s1 \<in> set (aw_sessions w1)"
    using refresh_outcome [OF assms(1-4), of sha cx1 r1 r0 a1] assms(6,7) by (simp_all add: run1)
  have k1: "session_keys_ok (aw_sessions w1)" "aw_users w1 = aw_users w"
    using refresh_keys_ok [OF assms(1-4), of sha cx1 r1 r0 a1] 1(1) by (simp_all add: run1)
  have h1: "ss_refresh_token_hash ?s1 = Some (sha r1)" by simp
  have 2: "res2 = Inr r2" "rotated_row (cx_now cx2) (sha a2) (sha r2) ?s1 \<in> set (aw_sessions w2)"
    using refresh_outcome [OF k1(1) 1(2) h1 assms(5), of sha cx2 r2 r0 a2] assms(3,6,8,9) by (simp_all add: run2)
  with refresh_keys_ok [OF k1(1) 1(2) h1 assms(5), of sha cx2 r2 r0 a2] 1 k1 show ?thesis
    by (simp add: run2)
qed

text \<open>Two refreshes that present the same secret, the second at most ten seconds after the first
  rotated, both succeed: neither is taken for theft.\<close>

theorem concurrent_refreshes_both_succeed:
  assumes "session_keys_ok (aw_sessions w)" and "s \<in> set (aw_sessions w)"
    and "ss_refresh_token_hash s = Some (sha r0)" and "sha r0 \<noteq> []" and "sha r1 \<noteq> []"
    and "\<not> ss_is_revoked s" and "ss_expires_at s > cx_now cx1" and "ss_expires_at s > cx_now cx2"
    and "cx_jsNow cx2 < cx_now cx1 + 10000"
    and "(res1, w1) = refreshSessionCredentials sha cx1 r1 (ss_public_id s) r0 a1 w"
    and "(res2, w2) = refreshSessionCredentials sha cx2 r2 (ss_public_id s) r0 a2 w1"
  shows "res1 = Inr r1 \<and> res2 = Inr r2"
  using two_refreshes [OF assms] by blast

text \<open>But the secret the first of them was given does not last: ten seconds after the second
  rotation the client that holds it is taken for a thief, and every session of the user is revoked.\<close>

theorem first_concurrent_refresh_misread_as_theft:
  assumes "session_keys_ok (aw_sessions w)" and "s \<in> set (aw_sessions w)"
    and "ss_refresh_token_hash s = Some (sha r0)" and "sha r0 \<noteq> []" and "sha r1 \<noteq> []"
    and "\<not> ss_is_revoked s" and "ss_expires_at s > cx_now cx1" and "ss_expires_at s > cx_now cx2"
    and "cx_jsNow cx2 < cx_now cx1 + 10000"
    and "(res1, w1) = refreshSessionCredentials sha cx1 r1 (ss_public_id s) r0 a1 w"
    and "(res2, w2) = refreshSessionCredentials sha cx2 r2 (ss_public_id s) r0 a2 w1"
    and "sha r2 \<noteq> []" and "sha r1 \<noteq> sha r2" and "cx_jsNow cx3 \<ge> cx_now cx2 + 10000"
    and "findById (ss_user_id s) (aw_users w) = Some u"
  shows "fst (refreshSessionCredentials sha cx3 r3 (ss_public_id s) r1 a3 w2) =
      Inl (UnauthorizedError ''errors:invalidOrExpiredSession'') \<and>
    family_revoked (ss_user_id s) (aw_sessions w2)
      (aw_sessions (snd (refreshSessionCredentials sha cx3 r3 (ss_public_id s) r1 a3 w2)))"
proof -
  let ?s2 = "rotated_row (cx_now cx2) (sha a2) (sha r2) (rotated_row (cx_now cx1) (sha a1) (sha r1) s)"
  have t: "session_keys_ok (aw_sessions w2)" "aw_users w2 = aw_users w" "?s2 \<in> set (aw_sessions w2)"
    using two_refreshes [OF assms(1-11)] by auto
  show ?thesis
    using reuse_outcome [OF t(1,3), of "sha r2" sha r1 cx3 u r3 a3] assms(6,12-15) t(2) by simp
qed

section \<open>The number of live sessions\<close>

lemma newest_first_sorted:
  "sorted_wrt (\<lambda>a b. (ss_created_at b, ss_id b) \<le> (ss_created_at a, ss_id a)) (newest_first ss)"
  unfolding newest_first_def sorted_wrt_rev
  using sorted_sort_key [of "\<lambda>s. (ss_created_at s, ss_id s)" ss] by (simp only: sorted_map)

lemma set_newest_first [simp]: "set (newest_first ss) = set ss"
  by (simp add: newest_first_def)

lemma newest_first_cut:
  assumes "a \<in> set (take n (newest_first ss))" and "b \<in> set (drop n (newest_first ss))"
  shows "(ss_created_at b, ss_id b) \<le> (ss_created_at a, ss_id a)"
  using newest_first_sorted [of ss] assms by (metis append_take_drop_id sorted_wrt_append)

lemma evict_rows:
  assumes "session_keys_ok t" and "revokeOldestActiveBeyond now userId n t = (evicted, t')"
  shows "t' = map (\<lambda>s. if s \<in> set (drop n (newest_first (filter (live_session now userId) t))) then revoked s else s) t"
proof -
  let ?old = "drop n (newest_first (filter (live_session now userId) t))"
  have sub: "set ?old \<subseteq> set t" by (auto dest: in_set_dropD)
  have ids: "ss_id s \<in> ss_id ` set ?old \<longleftrightarrow> s \<in> set ?old" if "s \<in> set t" for s
    using assms(1) sub that by (auto simp: session_keys_ok_def distinct_map dest: inj_onD)
  show ?thesis
  proof (cases "?old = []")
    case True
    then show ?thesis using assms(2) by (simp add: revokeOldestActiveBeyond_def Let_def)
  next
    case False
    then have "t' = update_where (\<lambda>s. ss_id s \<in> ss_id ` set ?old) revoked t"
      using assms(2) by (simp add: revokeOldestActiveBeyond_def Let_def)
    then show ?thesis using ids by (simp add: update_where_def)
  qed
qed

lemma evict_bound:
  assumes "session_keys_ok t" and "revokeOldestActiveBeyond now userId n t = (evicted, t')"
  shows "length (filter (live_session now userId) t') \<le> n"
proof -
  let ?L = "filter (live_session now userId) t"
  let ?old = "set (drop n (newest_first ?L))"
  have d: "distinct t" using assms(1) by (auto simp: session_keys_ok_def distinct_map)
  have map_filter: "length (filter P (map f t)) = length (filter (P \<circ> f) t)" for P and f :: "SessionRow \<Rightarrow> SessionRow"
    by (simp add: filter_map)
  have "length (filter (live_session now userId) t') =
      length (filter (\<lambda>s. live_session now userId s \<and> s \<notin> ?old) t)"
    unfolding evict_rows [OF assms] map_filter
    by (intro arg_cong [where f = length] filter_cong) (auto simp: live_session_def revoked_def)
  also have "\<dots> = card {s \<in> set t. live_session now userId s \<and> s \<notin> ?old}"
    by (subst distinct_card [symmetric]) (use d in simp_all)
  also have "\<dots> \<le> card (set (take n (newest_first ?L)))"
  proof (rule card_mono)
    show "{s \<in> set t. live_session now userId s \<and> s \<notin> ?old} \<subseteq> set (take n (newest_first ?L))"
    proof
      fix s
      assume s: "s \<in> {s \<in> set t. live_session now userId s \<and> s \<notin> ?old}"
      then have "s \<in> set (newest_first ?L)" by simp
      then have "s \<in> set (take n (newest_first ?L)) \<union> ?old"
        by (metis append_take_drop_id set_append)
      with s show "s \<in> set (take n (newest_first ?L))" by blast
    qed
  qed simp
  also have "\<dots> \<le> n" by (metis card_length le_trans length_take min.cobounded2)
  finally show ?thesis .
qed

text \<open>A user never has more than thirty live sessions: right after a session is created at most
  thirty of the user's sessions are neither revoked nor expired, and those that were revoked to make
  room are older than every live one that was kept.\<close>

theorem live_sessions_bounded:
  assumes "session_keys_ok (aw_sessions w)" and "requireUserRecordByPublicId userPublicId (aw_users w) = Inr user"
    and "fr_id fr \<notin> ss_id ` set (aw_sessions w)"
    and "(res, w') = createSessionForUser sha cx fr userPublicId data w"
  shows "length (filter (live_session (cx_now cx) (us_id user)) (aw_sessions w')) \<le> 30 \<and>
    (\<forall>a b. a \<in> set (aw_sessions w) \<longrightarrow> a \<notin> set (aw_sessions w') \<longrightarrow> b \<in> set (aw_sessions w) \<longrightarrow>
       b \<in> set (aw_sessions w') \<longrightarrow> live_session (cx_now cx) (us_id user) b \<longrightarrow>
       (ss_created_at a, ss_id a) \<le> (ss_created_at b, ss_id b))"
proof -
  let ?L = "filter (live_session (cx_now cx) (us_id user)) (aw_sessions w)"
  obtain ev t1 where ev: "revokeOldestActiveBeyond (cx_now cx) (us_id user) 29 (aw_sessions w) = (ev, t1)" by fastforce
  obtain row where w': "aw_sessions w' = t1 @ [row]" and row: "ss_id row = fr_id fr"
    using assms(2,4) ev by (auto simp: createSessionForUser_def session_create_def MAX_ACTIVE_SESSIONS_PER_USER_def Let_def)
  have "length (filter (live_session (cx_now cx) (us_id user)) (aw_sessions w')) \<le> 30"
    using evict_bound [OF assms(1) ev] by (simp add: w')
  moreover have "(ss_created_at a, ss_id a) \<le> (ss_created_at b, ss_id b)"
    if a: "a \<in> set (aw_sessions w)" "a \<notin> set (aw_sessions w')" and b: "b \<in> set (aw_sessions w)" "b \<in> set (aw_sessions w')"
      "live_session (cx_now cx) (us_id user) b" for a b
  proof -
    have a_old: "a \<in> set (drop 29 (newest_first ?L))"
    proof (rule ccontr)
      assume "a \<notin> set (drop 29 (newest_first ?L))"
      then have "a \<in> set t1" unfolding evict_rows [OF assms(1) ev] using a(1) by (auto intro!: image_eqI [of _ _ a])
      with a(2) w' show False by simp
    qed
    have "b \<noteq> row" using b(1) row assms(3) by (metis imageI)
    then have "b \<in> set t1" using b(2) w' by simp
    then have "b \<in> (\<lambda>c. if c \<in> set (drop 29 (newest_first ?L)) then revoked c else c) ` set (aw_sessions w)"
      unfolding evict_rows [OF assms(1) ev] by simp
    then obtain c where c: "b = (if c \<in> set (drop 29 (newest_first ?L)) then revoked c else c)" by (rule imageE)
    have "c \<notin> set (drop 29 (newest_first ?L)) \<and> b = c"
      using c b(3) by (auto simp: live_session_def revoked_def split: if_splits)
    moreover have "b \<in> set (newest_first ?L)" using b by simp
    ultimately have "b \<in> set (take 29 (newest_first ?L))" by (metis Un_iff append_take_drop_id set_append)
    with newest_first_cut a_old show ?thesis by blast
  qed
  ultimately show ?thesis by blast
qed

section \<open>Revocation takes effect at once\<close>

interpretation token_cache: revocable_cache
  "\<lambda>t. getCachedSessionTokenValid True t h" "\<lambda>t (up, sessionPublicId, expiresAt). setCachedSessionTokenValid up t h sessionPublicId expiresAt"
  "\<lambda>t. invalidateCachedSessionToken True t h" 60000 for h
  by unfold_locales
    (auto simp: getCachedSessionTokenValid_def invalidateCachedSessionToken_def setCachedSessionTokenValid_def Let_def
      redis_get_set_ex redis_set_ex_nx_def SESSION_TOKEN_REVOKED_TOMBSTONE_def SESSION_TOKEN_CACHE_TTL_SECONDS_def)

lemma verify_miss:
  assumes "getCachedSessionTokenValid up (cx_jsNow cx) (sha token) (aw_cache w) = None" and "cx_redis cx = up"
    and "findActiveByTokenHash (cx_now cx) (sha token) (aw_sessions w) = None"
  shows "verifyActiveAccessToken sha cx token userPublicId w = (Inl (UnauthorizedError ''errors:invalidOrExpiredSession''), w)"
  using assms by (simp add: verifyActiveAccessToken_def Let_def)

lemma revoked_hash_inactive:
  assumes "\<And>s. s \<in> set t \<Longrightarrow> ss_token_hash s = h \<Longrightarrow> ss_is_revoked s"
  shows "findActiveByTokenHash now h t = None"
  using assms by (auto simp: findActiveByTokenHash_def select_first_None_iff)

text \<open>Whatever the cache holds for a token expires: an entry is written for at most a minute.\<close>

definition entry_gone_by :: "millis \<Rightarrow> string \<Rightarrow> string redis \<Rightarrow> bool" where
  "entry_gone_by t h r \<longleftrightarrow> (case r (buildSessionTokenCacheKey h) of
     None \<Rightarrow> True | Some (_, None) \<Rightarrow> False | Some (_, Some e) \<Rightarrow> e \<le> t)"

lemma entry_gone_miss:
  "entry_gone_by t h r \<Longrightarrow> t \<le> now \<Longrightarrow> getCachedSessionTokenValid up now h r = None"
  by (auto simp: entry_gone_by_def getCachedSessionTokenValid_def redis_get_def split: option.splits prod.splits)

lemma entry_gone_set:
  assumes "entry_gone_by (t0 + 60000) h r" and "t \<le> t0"
  shows "entry_gone_by (t0 + 60000) h (setCachedSessionTokenValid up t h sessionPublicId expiresAt r)"
  using assms
  by (auto simp: setCachedSessionTokenValid_def Let_def entry_gone_by_def redis_set_ex_nx_def redis_set_ex_def
      SESSION_TOKEN_CACHE_TTL_SECONDS_def min_def split: option.splits)

lemma entry_gone_lates:
  "entry_gone_by (t0 + 60000) h r \<Longrightarrow> \<forall>(t, late) \<in> set lates. t \<le> t0 \<Longrightarrow>
   entry_gone_by (t0 + 60000) h (fold (\<lambda>(t, up, sessionPublicId, expiresAt).
     setCachedSessionTokenValid up t h sessionPublicId expiresAt) lates r)"
  by (induction lates arbitrary: r) (auto simp: entry_gone_set)

text \<open>C33 A token that was logged out is refused.  When Redis takes the tombstone at the logout, it is refused
  from then on: whatever validations that read the session before the logout still write into the
  cache during the next minute, and whenever the token is presented again, it is answered with the
  invalid-session error and nothing is cached.  When Redis is unreachable at the logout the failure is
  swallowed and a cached token is still accepted; it is refused as soon as the entry cached before the logout
  and the late writes have run out, at most two minutes after the logout.\<close>

theorem logged_out_token_is_refused:
  assumes "(res, w1) = revokeSessionByAccessToken sha cx token w"
    and "\<forall>(t, late) \<in> set lates. t < cx_jsNow cx + 60000"
    and "w2 = w1\<lparr>aw_cache := fold (\<lambda>(t, up, sessionPublicId, expiresAt).
           setCachedSessionTokenValid up t (sha token) sessionPublicId expiresAt) lates (aw_cache w1)\<rparr>"
    and "cx_redis cx \<or> (entry_gone_by (cx_jsNow cx + 60000) (sha token) (aw_cache w) \<and>
           cx_jsNow cx + 120000 \<le> cx_jsNow cx')"
  shows "verifyActiveAccessToken sha cx' token userPublicId w2 =
    (Inl (UnauthorizedError ''errors:invalidOrExpiredSession''), w2)"
proof -
  have cache: "aw_cache w1 = invalidateCachedSessionToken (cx_redis cx) (cx_jsNow cx) (sha token) (aw_cache w)"
    and rows: "aw_sessions w1 = update_where (\<lambda>s. ss_token_hash s = sha token) revoked (aw_sessions w)"
    using assms(1)
    by (simp_all add: revokeSessionByAccessToken_def invalidate_token_def Let_def revokeByTokenHash_def update_row_def)
  have "getCachedSessionTokenValid True (cx_jsNow cx') (sha token) (aw_cache w2) = None"
  proof (cases "cx_redis cx")
    case True
    then show ?thesis
      using token_cache.stays_invalidated [of lates "cx_jsNow cx" "cx_jsNow cx'" "sha token" "aw_cache w"] assms(2)
      by (simp add: assms(3) cache case_prod_beta')
  next
    case False
    then have "entry_gone_by ((cx_jsNow cx + 60000) + 60000) (sha token) (aw_cache w1)"
      using assms(4) by (auto simp: cache invalidateCachedSessionToken_def entry_gone_by_def split: option.splits)
    then have "entry_gone_by ((cx_jsNow cx + 60000) + 60000) (sha token) (aw_cache w2)"
      using assms(2) entry_gone_lates [of "cx_jsNow cx + 60000" "sha token" "aw_cache w1" lates] by (fastforce simp: assms(3))
    then show ?thesis using False assms(4) by (intro entry_gone_miss) auto
  qed
  then have miss: "getCachedSessionTokenValid (cx_redis cx') (cx_jsNow cx') (sha token) (aw_cache w2) = None"
    by (cases "cx_redis cx'") (simp_all add: getCachedSessionTokenValid_def)
  have "findActiveByTokenHash (cx_now cx') (sha token) (aw_sessions w2) = None"
    by (rule revoked_hash_inactive) (auto simp: assms(3) rows set_update_where revoked_def split: if_splits)
  with miss show ?thesis by (intro verify_miss) simp_all
qed

text \<open>The unreachable Redis is a real exception: the logout then succeeds and the cached token is accepted
  after it, until the entry expires.\<close>

theorem unreachable_redis_keeps_token:
  assumes "\<not> cx_redis cx" and "(res, w1) = revokeSessionByAccessToken sha cx token w"
    and "getCachedSessionTokenValid True (cx_jsNow cx') (sha token) (aw_cache w) = Some sessionPublicId" and "cx_redis cx'"
  shows "verifyActiveAccessToken sha cx' token userPublicId w1 = (Inr sessionPublicId, w1)"
  using assms by (simp add: revokeSessionByAccessToken_def invalidate_token_def invalidateCachedSessionToken_def
      verifyActiveAccessToken_def Let_def split: prod.splits)

section \<open>The hypotheses at concrete sessions\<close>

definition demo_session :: SessionRow where
  "demo_session = \<lparr>ss_id = 1, ss_public_id = ''ses_1'', ss_user_id = 1, ss_organization_id = None, ss_token_hash = ''a0'',
     ss_refresh_token_hash = Some ''r0'', ss_previous_refresh_token_hash = None, ss_refresh_token_rotated_at = None,
     ss_ip_address = ''::1'', ss_user_agent = None, ss_last_active_at = 0, ss_expires_at = 1000000, ss_is_revoked = False,
     ss_created_at = 0\<rparr>"

definition demo_auth :: AuthWorld where
  "demo_auth = \<lparr>aw_users = [demo_user], aw_sessions = [demo_session], aw_cache = Map.empty, aw_sentry = []\<rparr>"

definition ctx_at :: "millis \<Rightarrow> Ctx" where
  "ctx_at t = \<lparr>cx_now = t, cx_jsNow = t, cx_redis = True\<rparr>"

lemma demo_auth_facts:
  "session_keys_ok (aw_sessions demo_auth)" "demo_session \<in> set (aw_sessions demo_auth)"
  "ss_refresh_token_hash demo_session = Some (id ''r0'')" "id ''r0'' \<noteq> []" "\<not> ss_is_revoked demo_session"
  "ss_public_id demo_session = ''ses_1''" "ss_user_id demo_session = 1" "findById 1 (aw_users demo_auth) = Some demo_user"
  by (simp_all add: demo_auth_def demo_session_def session_keys_ok_def findById_def demo_user_def)

theorem refresh_succeeds_iff_witness:
  "fst (refreshSessionCredentials id (ctx_at 500) ''r1'' ''ses_1'' ''r0'' ''a1'' demo_auth) = Inr ''r1''"
  using refresh_succeeds_iff [OF demo_auth_facts(1-4), of id "ctx_at 500" "''r1''" "''r0''" "''a1''"]
  by (simp add: demo_auth_facts(6)) (simp add: ctx_at_def demo_session_def)

theorem replayed_secret_revokes_family_witness:
  "family_revoked 1 (aw_sessions demo_auth)
     (aw_sessions (snd (refreshSessionCredentials id (ctx_at 500) ''r1'' ''ses_1'' ''stolen'' ''a1'' demo_auth)))"
  using replayed_secret_revokes_family [OF demo_auth_facts(1-4), of id "''stolen''" "ctx_at 500" demo_user "''r1''" "''a1''"]
    demo_auth_facts(5-8)
  by (simp add: demo_session_def)

text \<open>The run of two refreshes of one secret on it.\<close>

lemma demo_two_runs:
  obtains res1 w1 res2 w2 where
    "(res1, w1) = refreshSessionCredentials id (ctx_at 500) ''r1'' (ss_public_id demo_session) ''r0'' ''a1'' demo_auth"
    "(res2, w2) = refreshSessionCredentials id (ctx_at 900) ''r2'' (ss_public_id demo_session) ''r0'' ''a2'' w1"
  by (metis prod.collapse)

lemma demo_times:
  "cx_now (ctx_at 500) < ss_expires_at demo_session" "cx_now (ctx_at 900) < ss_expires_at demo_session"
  "cx_jsNow (ctx_at 900) < cx_now (ctx_at 500) + 10000" "cx_now (ctx_at 900) + 10000 \<le> cx_jsNow (ctx_at 20000)"
  by (simp_all add: ctx_at_def demo_session_def)

theorem concurrent_refreshes_both_succeed_witness:
  "\<exists>w1 w2. refreshSessionCredentials id (ctx_at 500) ''r1'' ''ses_1'' ''r0'' ''a1'' demo_auth = (Inr ''r1'', w1) \<and>
     refreshSessionCredentials id (ctx_at 900) ''r2'' ''ses_1'' ''r0'' ''a2'' w1 = (Inr ''r2'', w2)"
proof (rule demo_two_runs)
  fix res1 w1 res2 w2
  assume 1: "(res1, w1) = refreshSessionCredentials id (ctx_at 500) ''r1'' (ss_public_id demo_session) ''r0'' ''a1'' demo_auth"
    and 2: "(res2, w2) = refreshSessionCredentials id (ctx_at 900) ''r2'' (ss_public_id demo_session) ''r0'' ''a2'' w1"
  have "id ''r1'' \<noteq> []" by simp
  from concurrent_refreshes_both_succeed [where sha = id and ?r0.0 = "''r0''" and ?r1.0 = "''r1''",
      OF demo_auth_facts(1-4) this demo_auth_facts(5) demo_times(1-3) 1 2] 1 2
  have "refreshSessionCredentials id (ctx_at 500) ''r1'' ''ses_1'' ''r0'' ''a1'' demo_auth = (Inr ''r1'', w1)"
    "refreshSessionCredentials id (ctx_at 900) ''r2'' ''ses_1'' ''r0'' ''a2'' w1 = (Inr ''r2'', w2)"
    by (simp_all add: demo_auth_facts(6))
  then show ?thesis by blast
qed

theorem first_concurrent_refresh_misread_as_theft_witness:
  "\<exists>w2 :: AuthWorld. family_revoked 1 (aw_sessions w2)
     (aw_sessions (snd (refreshSessionCredentials id (ctx_at 20000) ''r3'' ''ses_1'' ''r1'' ''a3'' w2)))"
proof (rule demo_two_runs)
  fix res1 w1 res2 w2
  assume 1: "(res1, w1) = refreshSessionCredentials id (ctx_at 500) ''r1'' (ss_public_id demo_session) ''r0'' ''a1'' demo_auth"
    and 2: "(res2, w2) = refreshSessionCredentials id (ctx_at 900) ''r2'' (ss_public_id demo_session) ''r0'' ''a2'' w1"
  have ne: "id ''r1'' \<noteq> []" "id ''r2'' \<noteq> []" "id ''r1'' \<noteq> id ''r2''" by simp_all
  have u: "findById (ss_user_id demo_session) (aw_users demo_auth) = Some demo_user"
    using demo_auth_facts(7,8) by simp
  from first_concurrent_refresh_misread_as_theft [where sha = id and ?r0.0 = "''r0''" and ?r1.0 = "''r1''" and ?r2.0 = "''r2''",
      OF demo_auth_facts(1-4) ne(1) demo_auth_facts(5) demo_times(1-3) 1 2 ne(2,3) demo_times(4) u, of "''r3''" "''a3''"]
  show ?thesis by (auto simp: demo_auth_facts(6,7))
qed

theorem live_sessions_bounded_witness:
  "\<exists>w'. snd (createSessionForUser id (ctx_at 5) \<lparr>fr_id = 2, fr_public_id = ''ses_2'', fr_refresh_secret = ''q''\<rparr> ''usr_1''
       \<lparr>sc_token_hash = ''b'', sc_ip_address = ''::1'', sc_user_agent = None, sc_expires_at = 900\<rparr> demo_auth) = w' \<and>
     length (filter (live_session 5 1) (aw_sessions w')) \<le> 30"
proof -
  let ?fr = "\<lparr>fr_id = 2, fr_public_id = ''ses_2'', fr_refresh_secret = ''q''\<rparr> :: FreshSession"
  let ?d = "\<lparr>sc_token_hash = ''b'', sc_ip_address = ''::1'', sc_user_agent = None, sc_expires_at = 900\<rparr> :: AuthSessionCreateData"
  obtain res w' where run: "createSessionForUser id (ctx_at 5) ?fr ''usr_1'' ?d demo_auth = (res, w')" by fastforce
  have "requireUserRecordByPublicId ''usr_1'' (aw_users demo_auth) = Inr demo_user"
    by (simp add: requireUserRecordByPublicId_def findByPublicId_def live_user_def demo_auth_def demo_user_def)
  moreover have "fr_id ?fr \<notin> ss_id ` set (aw_sessions demo_auth)"
    by (simp add: demo_auth_def demo_session_def)
  ultimately show ?thesis
    using live_sessions_bounded [OF demo_auth_facts(1), of "''usr_1''" demo_user ?fr res w' id "ctx_at 5" ?d] run
    by (simp add: demo_user_def ctx_at_def)
qed

text \<open>The token is cached, its session is logged out, and a late validation writes: with the tombstone the token is
  refused at once, without it a second later it is accepted and two minutes later refused.\<close>

definition demo_logged_out :: "bool \<Rightarrow> AuthWorld" where
  "demo_logged_out up = snd (revokeSessionByAccessToken id \<lparr>cx_now = 500, cx_jsNow = 500, cx_redis = up\<rparr> ''a0''
     (demo_auth\<lparr>aw_cache := [buildSessionTokenCacheKey ''a0'' \<mapsto> (''ses_1'', Some 60000)]\<rparr>))"

definition demo_late :: "bool \<Rightarrow> AuthWorld" where
  "demo_late up = (demo_logged_out up)\<lparr>aw_cache := setCachedSessionTokenValid True 600 ''a0'' ''ses_1'' 1000000 (aw_cache (demo_logged_out up))\<rparr>"

theorem logged_out_token_is_refused_witness:
  "fst (verifyActiveAccessToken id (ctx_at 900) ''a0'' ''usr_1'' (demo_late True)) = Inl (UnauthorizedError ''errors:invalidOrExpiredSession'') \<and>
   fst (verifyActiveAccessToken id (ctx_at 900) ''a0'' ''usr_1'' (demo_late False)) = Inr ''ses_1'' \<and>
   fst (verifyActiveAccessToken id (ctx_at 120500) ''a0'' ''usr_1'' (demo_late False)) = Inl (UnauthorizedError ''errors:invalidOrExpiredSession'')"
proof (intro conjI)
  let ?w = "demo_auth\<lparr>aw_cache := [buildSessionTokenCacheKey ''a0'' \<mapsto> (''ses_1'', Some 60000)]\<rparr>"
  let ?cx = "\<lambda>up. \<lparr>cx_now = 500, cx_jsNow = 500, cx_redis = up\<rparr>"
  have run: "(fst (revokeSessionByAccessToken id (?cx up) ''a0'' ?w), demo_logged_out up) = revokeSessionByAccessToken id (?cx up) ''a0'' ?w" for up
    by (simp add: demo_logged_out_def)
  have late: "demo_late up = (demo_logged_out up)\<lparr>aw_cache := fold (\<lambda>(t, up, p, e). setCachedSessionTokenValid up t (id ''a0'') p e)
      [(600, True, ''ses_1'', 1000000)] (aw_cache (demo_logged_out up))\<rparr>" for up
    by (simp add: demo_late_def)
  show "fst (verifyActiveAccessToken id (ctx_at 900) ''a0'' ''usr_1'' (demo_late True)) = Inl (UnauthorizedError ''errors:invalidOrExpiredSession'')"
    using logged_out_token_is_refused [OF run _ late, of True "ctx_at 900"] by (simp add: id_def)
  show "fst (verifyActiveAccessToken id (ctx_at 120500) ''a0'' ''usr_1'' (demo_late False)) = Inl (UnauthorizedError ''errors:invalidOrExpiredSession'')"
    using logged_out_token_is_refused [OF run _ late, of False "ctx_at 120500"] by (simp add: entry_gone_by_def ctx_at_def id_def)
  show "fst (verifyActiveAccessToken id (ctx_at 900) ''a0'' ''usr_1'' (demo_late False)) = Inr ''ses_1''"
    by (simp add: demo_late_def demo_logged_out_def revokeSessionByAccessToken_def invalidate_token_def invalidateCachedSessionToken_def
        verifyActiveAccessToken_def getCachedSessionTokenValid_def setCachedSessionTokenValid_def redis_set_ex_nx_def redis_get_def
        SESSION_TOKEN_REVOKED_TOMBSTONE_def SESSION_TOKEN_CACHE_TTL_SECONDS_def ctx_at_def Let_def split: prod.splits)
qed

end
