(* ===== verification/Single_Use.thy ===== *)
theory Single_Use
  imports Prelude JS_Values
begin

text \<open>
  The one-time artifacts of the auth domain: the MFA session handle (\<^verbatim>\<open>auth-mfa-session.ts\<close>), the
  WebAuthn challenge (\<^verbatim>\<open>webauthn-challenge.ts\<close>), the OAuth state (\<^verbatim>\<open>oauth-state.ts\<close>), and the rows
  of \<^verbatim>\<open>verification_tokens\<close> (\<^verbatim>\<open>verification-token.repository.ts\<close>) with the email codes kept in them
  (\<^verbatim>\<open>verification-code.ts\<close>).  The first three are consumed by \<^verbatim>\<open>GETDEL\<close>, the last by one guarded
  \<^verbatim>\<open>UPDATE\<close>.  A Redis payload is what \<^verbatim>\<open>JSON.parse\<close> makes of it, \<^const>\<open>None\<close> for a text it rejects.  All
  four satisfy one contract, the locale \<^verbatim>\<open>single_use\<close>: however often and by whomever an artifact is
  presented, it is accepted once at most.
\<close>

section \<open>The contract\<close>

text \<open>The answers to a sequence of attempts.\<close>

fun attempts :: "('t \<Rightarrow> 's \<Rightarrow> ('e + 'v) \<times> 's) \<Rightarrow> 't list \<Rightarrow> 's \<Rightarrow> ('e + 'v) list" where
  "attempts consume [] s = []"
| "attempts consume (t # ts) s = (let (r, s') = consume t s in r # attempts consume ts s')"

definition accepted :: "'e + 'v \<Rightarrow> bool" where
  "accepted r \<longleftrightarrow> (case r of Inl _ \<Rightarrow> False | Inr _ \<Rightarrow> True)"

lemma accepted_simps [simp]: "\<not> accepted (Inl e)" "accepted (Inr v)"
  by (simp_all add: accepted_def)

locale single_use =
  fixes consume :: "'t \<Rightarrow> 's \<Rightarrow> ('e + 'v) \<times> 's"
    and ok :: "'s \<Rightarrow> bool"
    and spent :: "'s \<Rightarrow> bool"
  assumes ok_kept: "ok s \<Longrightarrow> ok (snd (consume t s))"
    and accepted_is_spent: "ok s \<Longrightarrow> accepted (fst (consume t s)) \<Longrightarrow> spent (snd (consume t s))"
    and spent_is_refused: "spent s \<Longrightarrow> \<not> accepted (fst (consume t s))"
    and spent_stays_spent: "spent s \<Longrightarrow> spent (snd (consume t s))"
begin

lemma none_after_spent: "spent s \<Longrightarrow> filter accepted (attempts consume ts s) = []"
proof (induction ts arbitrary: s)
  case (Cons t ts)
  then show ?case
    using spent_is_refused [of s t] spent_stays_spent [of s t] by (simp add: Let_def case_prod_beta)
qed simp

lemma at_most_one_accepted: "ok s \<Longrightarrow> length (filter accepted (attempts consume ts s)) \<le> 1"
proof (induction ts arbitrary: s)
  case (Cons t ts)
  show ?case
  proof (cases "accepted (fst (consume t s))")
    case False
    with Cons.IH [OF ok_kept [OF Cons.prems], of t] show ?thesis by (simp add: Let_def case_prod_beta)
  next
    case True
    then show ?thesis
      using none_after_spent [OF accepted_is_spent [OF Cons.prems True], of ts] by (simp add: Let_def case_prod_beta)
  qed
qed simp

end

section \<open>The MFA session handle\<close>

definition MFA_SESSION_KEY_PREFIX :: string where "MFA_SESSION_KEY_PREFIX = ''mfa:session:''"
definition MFA_SESSION_TTL_SECONDS :: int where "MFA_SESSION_TTL_SECONDS = 300"

text \<open>The payload is the user's public id (empty when the field is missing).\<close>

definition createMfaSession :: "millis \<Rightarrow> string \<Rightarrow> string \<Rightarrow> string option redis \<Rightarrow> string option redis" where
  "createMfaSession now mfaSessionToken userPublicId r =
     redis_set_ex now (MFA_SESSION_KEY_PREFIX @ mfaSessionToken) (Some userPublicId) MFA_SESSION_TTL_SECONDS r"

definition verifyMfaSession :: "string \<Rightarrow> millis \<Rightarrow> string option redis \<Rightarrow> (app_error + string) \<times> string option redis" where
  "verifyMfaSession mfaSessionToken now r =
     (let invalid = Inl (UnauthorizedError ''errors:mfaInvalidOrExpiredSession'') in
      if length mfaSessionToken = 0 then (invalid, r)
      else let (stored, r') = redis_getdel now (MFA_SESSION_KEY_PREFIX @ mfaSessionToken) r
           in case stored of
                None \<Rightarrow> (invalid, r')
              | Some None \<Rightarrow> (invalid, r')
              | Some (Some userPublicId) \<Rightarrow> (if length userPublicId = 0 then invalid else Inr userPublicId, r'))"

section \<open>The WebAuthn challenge\<close>

definition WEBAUTHN_CHALLENGE_KEY_PREFIX :: string where "WEBAUTHN_CHALLENGE_KEY_PREFIX = ''webauthn:challenge:''"
definition WEBAUTHN_CHALLENGE_TTL_SECONDS :: int where "WEBAUTHN_CHALLENGE_TTL_SECONDS = 300"

datatype WebauthnChallengeKind = Registration | Authentication

record WebauthnChallengePayload =
  wc_kind :: WebauthnChallengeKind
  wc_user_public_id :: string
  wc_challenge :: string

definition createWebauthnChallenge ::
    "millis \<Rightarrow> string \<Rightarrow> WebauthnChallengeKind \<Rightarrow> string \<Rightarrow> string \<Rightarrow>
     WebauthnChallengePayload option redis \<Rightarrow> WebauthnChallengePayload option redis" where
  "createWebauthnChallenge now challengeToken kind userPublicId challenge r =
     redis_set_ex now (WEBAUTHN_CHALLENGE_KEY_PREFIX @ challengeToken)
       (Some \<lparr>wc_kind = kind, wc_user_public_id = userPublicId, wc_challenge = challenge\<rparr>) WEBAUTHN_CHALLENGE_TTL_SECONDS r"

definition consumeWebauthnChallenge ::
    "string \<Rightarrow> WebauthnChallengeKind \<Rightarrow> millis \<Rightarrow> WebauthnChallengePayload option redis \<Rightarrow>
     (app_error + WebauthnChallengePayload) \<times> WebauthnChallengePayload option redis" where
  "consumeWebauthnChallenge challengeToken expectedKind now r =
     (let invalid = Inl (UnauthorizedError ''errors:webauthnInvalidChallenge'') in
      if length challengeToken = 0 then (invalid, r)
      else let (stored, r') = redis_getdel now (WEBAUTHN_CHALLENGE_KEY_PREFIX @ challengeToken) r
           in case stored of
                None \<Rightarrow> (invalid, r')
              | Some None \<Rightarrow> (invalid, r')
              | Some (Some payload) \<Rightarrow> (if wc_kind payload \<noteq> expectedKind then invalid else Inr payload, r'))"

section \<open>The OAuth state\<close>

definition OAUTH_STATE_KEY_PREFIX :: string where "OAUTH_STATE_KEY_PREFIX = ''oauth:state:''"
definition OAUTH_STATE_TTL_SECONDS :: int where "OAUTH_STATE_TTL_SECONDS = 600"
definition SUPPORTED_OAUTH_PROVIDERS :: "string list" where "SUPPORTED_OAUTH_PROVIDERS = [''google'', ''github'']"

record OAuthStatePayload =
  os_provider :: string
  os_code_verifier :: string
  os_nonce_hash :: string

definition normalizeOAuthProvider :: "string \<Rightarrow> string" where
  "normalizeOAuthProvider provider = js_lower provider"

definition assertOAuthProviderSupported :: "string \<Rightarrow> app_error + string" where
  "assertOAuthProviderSupported provider =
     (let normalizedProvider = normalizeOAuthProvider provider
      in if normalizedProvider \<notin> set SUPPORTED_OAUTH_PROVIDERS then Inl (NotFoundError ''OAuth provider'')
         else Inr normalizedProvider)"

definition createOAuthState ::
    "(string \<Rightarrow> string) \<Rightarrow> millis \<Rightarrow> string \<Rightarrow> string \<Rightarrow> string \<Rightarrow> string \<Rightarrow> OAuthStatePayload option redis \<Rightarrow> OAuthStatePayload option redis" where
  "createOAuthState sha256hex now provider state codeVerifier nonce r =
     redis_set_ex now (OAUTH_STATE_KEY_PREFIX @ state)
       (Some \<lparr>os_provider = provider, os_code_verifier = codeVerifier, os_nonce_hash = sha256hex nonce\<rparr>) OAUTH_STATE_TTL_SECONDS r"

definition consumeOAuthState ::
    "(string \<Rightarrow> string) \<Rightarrow> string option \<Rightarrow> string \<times> string option \<times> millis \<Rightarrow> OAuthStatePayload option redis \<Rightarrow>
     (app_error + string \<times> string) \<times> OAuthStatePayload option redis" where
  "consumeOAuthState sha256hex state call r =
     (let (provider, nonce, now) = call; invalid = Inl (UnauthorizedError ''errors:oauthInvalidState'') in
      if state = None \<or> state = Some [] then (invalid, r)
      else let (stored, r') = redis_getdel now (OAUTH_STATE_KEY_PREFIX @ the state) r
           in case stored of
                None \<Rightarrow> (invalid, r')
              | Some None \<Rightarrow> (invalid, r')
              | Some (Some payload) \<Rightarrow>
                  (let normalizedProvider = normalizeOAuthProvider provider in
                   if os_provider payload \<noteq> normalizedProvider then (invalid, r')
                   else if nonce = None \<or> nonce = Some [] \<or> sha256hex (the nonce) \<noteq> os_nonce_hash payload then (invalid, r')
                   else (case assertOAuthProviderSupported normalizedProvider of
                           Inl e \<Rightarrow> Inl e
                         | Inr p \<Rightarrow> Inr (p, os_code_verifier payload), r')))"

section \<open>Verification tokens\<close>

datatype VerificationTokenType = EMAIL_CODE | PASSWORD_RESET | EMAIL_CHANGE

record VerificationTokenRow =
  vt_id :: nat
  vt_token_type :: VerificationTokenType
  vt_token_hash :: string
  vt_user_id :: nat
  vt_email :: string
  vt_expires_at :: millis
  vt_used_at :: "millis option"

text \<open>The unique index on \<^verbatim>\<open>token_hash\<close> makes an insert of a known hash fail.\<close>

definition token_create ::
    "nat \<Rightarrow> VerificationTokenType \<Rightarrow> nat \<Rightarrow> string \<Rightarrow> string \<Rightarrow> millis \<Rightarrow> VerificationTokenRow tbl \<Rightarrow> VerificationTokenRow tbl option" where
  "token_create nextId tokenType userId email tokenHash expiresAt t =
     (if list_ex (\<lambda>v. vt_token_hash v = tokenHash) t then None
      else Some (t @ [\<lparr>vt_id = nextId, vt_token_type = tokenType, vt_token_hash = tokenHash, vt_user_id = userId,
                       vt_email = email, vt_expires_at = expiresAt, vt_used_at = None\<rparr>]))"

definition findValidByTokenHash :: "millis \<Rightarrow> string \<Rightarrow> VerificationTokenRow tbl \<Rightarrow> VerificationTokenRow option" where
  "findValidByTokenHash jsNow tokenHash =
     select_first (\<lambda>v. vt_token_hash v = tokenHash \<and> vt_expires_at v > jsNow \<and> vt_used_at v = None)"

definition consumeIfValid ::
    "string \<Rightarrow> VerificationTokenType \<Rightarrow> millis \<Rightarrow> VerificationTokenRow tbl \<Rightarrow> VerificationTokenRow option \<times> VerificationTokenRow tbl" where
  "consumeIfValid tokenHash expectedType jsNow =
     update_row (\<lambda>v. vt_token_hash v = tokenHash \<and> vt_token_type v = expectedType \<and> vt_expires_at v > jsNow \<and> vt_used_at v = None)
       (\<lambda>v. v\<lparr>vt_used_at := Some jsNow\<rparr>)"

definition consumeOtpForUser ::
    "nat \<Rightarrow> VerificationTokenType \<Rightarrow> string \<Rightarrow> millis \<Rightarrow> VerificationTokenRow tbl \<Rightarrow> VerificationTokenRow option \<times> VerificationTokenRow tbl" where
  "consumeOtpForUser userId tokenType codeHash jsNow =
     update_row (\<lambda>v. vt_user_id v = userId \<and> vt_token_type v = tokenType \<and> vt_token_hash v = codeHash \<and>
                     vt_expires_at v > jsNow \<and> vt_used_at v = None)
       (\<lambda>v. v\<lparr>vt_used_at := Some jsNow\<rparr>)"

definition invalidateAllForUser :: "nat \<Rightarrow> VerificationTokenType \<Rightarrow> millis \<Rightarrow> VerificationTokenRow tbl \<Rightarrow> VerificationTokenRow tbl" where
  "invalidateAllForUser userId tokenType jsNow =
     update_where (\<lambda>v. vt_user_id v = userId \<and> vt_token_type v = tokenType \<and> vt_used_at v = None)
       (\<lambda>v. v\<lparr>vt_used_at := Some jsNow\<rparr>)"

definition invalidateAllByUser :: "nat \<Rightarrow> millis \<Rightarrow> VerificationTokenRow tbl \<Rightarrow> VerificationTokenRow tbl" where
  "invalidateAllByUser userId jsNow =
     update_where (\<lambda>v. vt_user_id v = userId \<and> vt_used_at v = None) (\<lambda>v. v\<lparr>vt_used_at := Some jsNow\<rparr>)"

section \<open>Email codes\<close>

definition VERIFICATION_CODE_LENGTH :: nat where "VERIFICATION_CODE_LENGTH = 6"
definition VERIFICATION_CODE_CHARSET :: string where "VERIFICATION_CODE_CHARSET = ''ABCDEFGHJKMNPQRSTUVWXYZ23456789''"
definition VERIFICATION_CODE_TTL_MINUTES :: int where "VERIFICATION_CODE_TTL_MINUTES = 15"
definition VERIFICATION_CODE_MAX_VERIFY_ATTEMPTS :: int where "VERIFICATION_CODE_MAX_VERIFY_ATTEMPTS = 5"
definition VERIFICATION_CODE_RESEND_COOLDOWN_SECONDS :: int where "VERIFICATION_CODE_RESEND_COOLDOWN_SECONDS = 60"
definition STATIC_VERIFICATION_CODE :: string where "STATIC_VERIFICATION_CODE = ''TEST24''"

text \<open>The draws of \<^verbatim>\<open>randomInt(0, 31)\<close> are the argument.\<close>

definition generateVerificationCode :: "(nat \<Rightarrow> nat) \<Rightarrow> string" where
  "generateVerificationCode randomInt =
     map (\<lambda>index. VERIFICATION_CODE_CHARSET ! (randomInt index mod length VERIFICATION_CODE_CHARSET)) [0..<VERIFICATION_CODE_LENGTH]"

definition normalizeVerificationCode :: "string \<Rightarrow> string" where
  "normalizeVerificationCode raw = js_upper (filter (\<lambda>c. \<not> (js_space c \<or> c = CHR ''-'')) (js_trim raw))"

text \<open>\<^verbatim>\<open>hmac\<close> is HMAC-SHA-256 under the pepper, applied to the three parts the source joins with colons.\<close>

definition hashVerificationCode :: "(VerificationTokenType \<times> nat \<times> string \<Rightarrow> string) \<Rightarrow> VerificationTokenType \<Rightarrow> nat \<Rightarrow> string \<Rightarrow> string" where
  "hashVerificationCode hmac tokenType userId code = hmac (tokenType, userId, normalizeVerificationCode code)"

section \<open>Each artifact is single-use\<close>

definition key_gone :: "string \<Rightarrow> 'v redis \<Rightarrow> bool" where
  "key_gone k r \<longleftrightarrow> r k = None"

lemma getdel_gone [simp]: "key_gone k (snd (redis_getdel now k r))"
  by (simp add: key_gone_def redis_getdel_def redis_del_def)

lemma getdel_of_gone: "key_gone k r \<Longrightarrow> fst (redis_getdel now k r) = None"
  by (simp add: key_gone_def redis_getdel_def redis_get_def)

interpretation mfa_session: single_use
  "verifyMfaSession token" "\<lambda>_. True" "\<lambda>r. token = [] \<or> key_gone (MFA_SESSION_KEY_PREFIX @ token) r" for token
  using getdel_of_gone [of "MFA_SESSION_KEY_PREFIX @ token"] getdel_gone [of "MFA_SESSION_KEY_PREFIX @ token"]
  by unfold_locales
    (auto simp: verifyMfaSession_def Let_def redis_getdel_def split: prod.splits option.splits if_splits)

interpretation webauthn_challenge: single_use
  "consumeWebauthnChallenge token kind" "\<lambda>_. True" "\<lambda>r. token = [] \<or> key_gone (WEBAUTHN_CHALLENGE_KEY_PREFIX @ token) r" for token kind
  using getdel_of_gone [of "WEBAUTHN_CHALLENGE_KEY_PREFIX @ token"] getdel_gone [of "WEBAUTHN_CHALLENGE_KEY_PREFIX @ token"]
  by unfold_locales
    (auto simp: consumeWebauthnChallenge_def Let_def redis_getdel_def split: prod.splits option.splits if_splits)

interpretation oauth_state: single_use
  "consumeOAuthState sha256hex state" "\<lambda>_. True"
  "\<lambda>r. state = None \<or> state = Some [] \<or> key_gone (OAUTH_STATE_KEY_PREFIX @ the state) r" for sha256hex state
  using getdel_of_gone [of "OAUTH_STATE_KEY_PREFIX @ the state"] getdel_gone [of "OAUTH_STATE_KEY_PREFIX @ the state"]
  by unfold_locales
    (auto simp: consumeOAuthState_def Let_def redis_getdel_def split: prod.splits option.splits if_splits sum.splits)

text \<open>Rows: the table has no live row of that hash and type.\<close>

definition token_spent :: "string \<Rightarrow> VerificationTokenType \<Rightarrow> VerificationTokenRow tbl \<Rightarrow> bool" where
  "token_spent h ty t \<longleftrightarrow> (\<forall>v \<in> set t. vt_token_hash v = h \<longrightarrow> vt_token_type v = ty \<longrightarrow> vt_used_at v \<noteq> None)"

text \<open>The sum form of the nullable result of \<^verbatim>\<open>consumeIfValid\<close> and \<^verbatim>\<open>consumeOtpForUser\<close>.\<close>

definition or_null :: "'v option \<times> 's \<Rightarrow> (unit + 'v) \<times> 's" where
  "or_null r = (case fst r of None \<Rightarrow> Inl () | Some v \<Rightarrow> Inr v, snd r)"

lemma or_null_simps [simp]:
  "fst (or_null r) = Inr v \<longleftrightarrow> fst r = Some v" "accepted (fst (or_null r)) \<longleftrightarrow> fst r \<noteq> None" "snd (or_null r) = snd r"
  by (auto simp: or_null_def split: option.splits)

definition token_keys_ok :: "VerificationTokenRow tbl \<Rightarrow> bool" where
  "token_keys_ok t \<longleftrightarrow> distinct (map vt_token_hash t)"

lemma consumed_row_is_used:
  assumes "token_keys_ok t" and "fst (update_row p (\<lambda>v. v\<lparr>vt_used_at := Some n\<rparr>) t) = Some v"
    and "\<And>v. p v \<Longrightarrow> vt_token_hash v = h"
  shows "token_spent h ty (snd (update_row p (\<lambda>v. v\<lparr>vt_used_at := Some n\<rparr>) t))"
proof -
  obtain r where r: "r \<in> set t" "p r"
    using update_row_Some [OF assms(2)] by blast
  have only: "x = r" if "x \<in> set t" "vt_token_hash x = h" for x
    using assms(1,3) r that by (auto simp: token_keys_ok_def distinct_map dest: inj_onD)
  show ?thesis
    using only r by (auto simp: token_spent_def set_update_where)
qed

lemma use_row_keys: "token_keys_ok (snd (update_row p (\<lambda>v. v\<lparr>vt_used_at := Some n\<rparr>) t)) \<longleftrightarrow> token_keys_ok t"
  by (simp add: token_keys_ok_def update_where_key)

lemma use_row_stays: "token_spent h ty t \<Longrightarrow> token_spent h ty (snd (update_row p (\<lambda>v. v\<lparr>vt_used_at := Some n\<rparr>) t))"
  by (auto simp: token_spent_def set_update_where)

interpretation reset_token: single_use
  "\<lambda>jsNow t. or_null (consumeIfValid h ty jsNow t)" token_keys_ok "token_spent h ty" for h ty
proof
  fix t jsNow
  show "token_keys_ok t \<Longrightarrow> token_keys_ok (snd (or_null (consumeIfValid h ty jsNow t)))"
    by (simp only: or_null_simps consumeIfValid_def use_row_keys)
  show "token_spent h ty (snd (or_null (consumeIfValid h ty jsNow t)))"
    if "token_keys_ok t" "accepted (fst (or_null (consumeIfValid h ty jsNow t)))"
    using that unfolding or_null_simps consumeIfValid_def by (auto simp del: snd_update_row intro: consumed_row_is_used)
  show "token_spent h ty t \<Longrightarrow> \<not> accepted (fst (or_null (consumeIfValid h ty jsNow t)))"
    by (auto simp: consumeIfValid_def update_row_None token_spent_def)
  show "token_spent h ty t \<Longrightarrow> token_spent h ty (snd (or_null (consumeIfValid h ty jsNow t)))"
    by (simp only: or_null_simps consumeIfValid_def use_row_stays)
qed

interpretation email_code: single_use
  "\<lambda>jsNow t. or_null (consumeOtpForUser userId ty h jsNow t)" token_keys_ok "token_spent h ty" for userId h ty
proof
  fix t jsNow
  show "token_keys_ok t \<Longrightarrow> token_keys_ok (snd (or_null (consumeOtpForUser userId ty h jsNow t)))"
    by (simp only: or_null_simps consumeOtpForUser_def use_row_keys)
  show "token_spent h ty (snd (or_null (consumeOtpForUser userId ty h jsNow t)))"
    if "token_keys_ok t" "accepted (fst (or_null (consumeOtpForUser userId ty h jsNow t)))"
    using that unfolding or_null_simps consumeOtpForUser_def by (auto simp del: snd_update_row intro: consumed_row_is_used)
  show "token_spent h ty t \<Longrightarrow> \<not> accepted (fst (or_null (consumeOtpForUser userId ty h jsNow t)))"
    by (auto simp: consumeOtpForUser_def update_row_None token_spent_def)
  show "token_spent h ty t \<Longrightarrow> token_spent h ty (snd (or_null (consumeOtpForUser userId ty h jsNow t)))"
    by (simp only: or_null_simps consumeOtpForUser_def use_row_stays)
qed

text \<open>C36 However many requests present the same one-time artifact, in whatever order and at whatever
  times, at most one is accepted: an MFA session handle, a WebAuthn challenge, an OAuth state (whatever
  provider and browser nonce come with it), a password-reset token and an email code.\<close>

theorem one_time_artifacts_accepted_once:
  "length (filter accepted (attempts (verifyMfaSession token) instants mfaStore)) \<le> 1 \<and>
   length (filter accepted (attempts (consumeWebauthnChallenge token kind) instants challengeStore)) \<le> 1 \<and>
   length (filter accepted (attempts (consumeOAuthState sha256hex state) calls stateStore)) \<le> 1 \<and>
   (token_keys_ok t \<longrightarrow>
      length (filter accepted (attempts (\<lambda>jsNow t. or_null (consumeIfValid h ty jsNow t)) instants t)) \<le> 1 \<and>
      length (filter accepted (attempts (\<lambda>jsNow t. or_null (consumeOtpForUser userId ty h jsNow t)) instants t)) \<le> 1)"
  using mfa_session.at_most_one_accepted [OF TrueI] webauthn_challenge.at_most_one_accepted [OF TrueI]
    oauth_state.at_most_one_accepted [OF TrueI] reset_token.at_most_one_accepted email_code.at_most_one_accepted
  by blast

theorem one_time_artifacts_accepted_once_witness:
  "length (filter accepted (attempts (\<lambda>jsNow t. or_null (consumeIfValid ''h'' PASSWORD_RESET jsNow t)) [5, 6]
     [\<lparr>vt_id = 1, vt_token_type = PASSWORD_RESET, vt_token_hash = ''h'', vt_user_id = 1, vt_email = ''a'',
       vt_expires_at = 100, vt_used_at = None\<rparr>])) \<le> 1"
  using one_time_artifacts_accepted_once
    [where t = "[\<lparr>vt_id = 1, vt_token_type = PASSWORD_RESET, vt_token_hash = ''h'', vt_user_id = 1, vt_email = ''a'',
       vt_expires_at = 100, vt_used_at = None\<rparr>]" and h = "''h''" and ty = PASSWORD_RESET and instants = "[5, 6]"]
  by (simp add: token_keys_ok_def)

end
