(* ===== verification/Auth_Methods.thy ===== *)
theory Auth_Methods
  imports Users Single_Use
begin

text \<open>
  The credential tables: linked auth methods (\<^verbatim>\<open>src/src/domains/auth/sub-domains/auth-method\<close>), recovery codes
  (\<^verbatim>\<open>auth-mfa\<close>) and passkeys (\<^verbatim>\<open>auth-webauthn\<close>).  Every statement runs in the context of the user whose id it names,
  so the owner policies add nothing to its condition.  Columns nothing reads are left out.
\<close>

section \<open>Auth methods\<close>

definition AUTH_METHOD_TYPES :: "string list" where
  "AUTH_METHOD_TYPES = [''PASSWORD'', ''EMAIL_CODE'', ''OAUTH'', ''MFA_TOTP'', ''MFA_SMS'', ''MFA_EMAIL'']"

definition LOGIN_CAPABLE_METHOD_TYPES :: "string list" where
  "LOGIN_CAPABLE_METHOD_TYPES = [''PASSWORD'', ''OAUTH'', ''EMAIL_CODE'']"

record AuthMethodRow =
  am_id :: nat
  am_public_id :: string
  am_user_id :: nat
  am_method_type :: string
  am_provider :: "string option"
  am_provider_user_id :: "string option"
  am_encrypted_secret :: "string option"
  am_is_primary :: bool
  am_last_used_at :: "millis option"
  am_created_at :: millis
  am_revoked_at :: "millis option"

record AuthMethodCreateData =
  ad_user_id :: nat
  ad_method_type :: string
  ad_provider :: "string option"
  ad_provider_user_id :: "string option"
  ad_encrypted_secret :: "string option"
  ad_is_primary :: bool

definition active_method :: "nat \<Rightarrow> AuthMethodRow \<Rightarrow> bool" where
  "active_method userId r \<longleftrightarrow> am_user_id r = userId \<and> am_revoked_at r = None"

definition active_totp :: "nat \<Rightarrow> AuthMethodRow \<Rightarrow> bool" where
  "active_totp userId r \<longleftrightarrow> active_method userId r \<and> am_method_type r = ''MFA_TOTP''"

definition login_capable :: "nat \<Rightarrow> AuthMethodRow \<Rightarrow> bool" where
  "login_capable userId r \<longleftrightarrow> active_method userId r \<and> am_method_type r \<in> set LOGIN_CAPABLE_METHOD_TYPES"

definition listByUserId :: "nat \<Rightarrow> AuthMethodRow tbl \<Rightarrow> AuthMethodRow list" where
  "listByUserId userId t = capListWithWarning DEFAULT_REPOSITORY_LIST_LIMIT
     (take (DEFAULT_REPOSITORY_LIST_LIMIT + 1) (filter (active_method userId) t))"

definition countActiveByUserId :: "nat \<Rightarrow> AuthMethodRow tbl \<Rightarrow> nat" where
  "countActiveByUserId userId t = length (filter (active_method userId) t)"

definition listMfaByUserId :: "nat \<Rightarrow> AuthMethodRow tbl \<Rightarrow> AuthMethodRow list" where
  "listMfaByUserId userId t = capListWithWarning DEFAULT_REPOSITORY_LIST_LIMIT
     (take (DEFAULT_REPOSITORY_LIST_LIMIT + 1) (filter (active_totp userId) t))"

text \<open>\<^verbatim>\<open>ORDER BY created_at DESC, id DESC LIMIT 1\<close>.\<close>

definition findTotpByUserId :: "nat \<Rightarrow> AuthMethodRow tbl \<Rightarrow> AuthMethodRow option" where
  "findTotpByUserId userId t = rows0 (rev (sort_key am_created_at (sort_key am_id (filter (active_totp userId) t))))"

definition updateLastUsedAt :: "millis \<Rightarrow> nat \<Rightarrow> nat \<Rightarrow> AuthMethodRow tbl \<Rightarrow> AuthMethodRow option \<times> AuthMethodRow tbl" where
  "updateLastUsedAt jsNow i userId = update_row (\<lambda>r. am_id r = i \<and> am_user_id r = userId) (\<lambda>r. r\<lparr>am_last_used_at := Some jsNow\<rparr>)"

definition findByIdForUser :: "nat \<Rightarrow> nat \<Rightarrow> AuthMethodRow tbl \<Rightarrow> AuthMethodRow option" where
  "findByIdForUser i userId = select_first (\<lambda>r. am_id r = i \<and> active_method userId r)"

definition method_findByPublicIdForUser :: "string \<Rightarrow> nat \<Rightarrow> AuthMethodRow tbl \<Rightarrow> AuthMethodRow option" where
  "method_findByPublicIdForUser publicId userId = select_first (\<lambda>r. am_public_id r = publicId \<and> active_method userId r)"

text \<open>The resolver of the OAuth callback joins the user of the row, live or not.\<close>

definition findByProviderUserId :: "string \<Rightarrow> string \<Rightarrow> UserRow tbl \<Rightarrow> AuthMethodRow tbl \<Rightarrow> AuthMethodRow option" where
  "findByProviderUserId provider providerUserId users = select_first (\<lambda>r. am_provider r = Some provider \<and>
     am_provider_user_id r = Some providerUserId \<and> am_revoked_at r = None \<and> am_user_id r \<in> us_id ` set users)"

text \<open>The insert fails on an unknown type, a known public id or a second active TOTP method of the user.\<close>

definition method_create ::
    "nat \<Rightarrow> string \<Rightarrow> millis \<Rightarrow> AuthMethodCreateData \<Rightarrow> AuthMethodRow tbl \<Rightarrow> (AuthMethodRow \<times> AuthMethodRow tbl) option" where
  "method_create nextId publicId now data t =
     (let row = \<lparr>am_id = nextId, am_public_id = publicId, am_user_id = ad_user_id data, am_method_type = ad_method_type data,
        am_provider = ad_provider data, am_provider_user_id = ad_provider_user_id data, am_encrypted_secret = ad_encrypted_secret data,
        am_is_primary = ad_is_primary data, am_last_used_at = None, am_created_at = now, am_revoked_at = None\<rparr>
      in if ad_method_type data \<notin> set AUTH_METHOD_TYPES \<or> list_ex (\<lambda>r. am_id r = nextId \<or> am_public_id r = publicId) t \<or>
            (ad_method_type data = ''MFA_TOTP'' \<and> list_ex (active_totp (ad_user_id data)) t)
         then None else Some (row, t @ [row]))"

definition method_revoke :: "millis \<Rightarrow> nat \<Rightarrow> nat \<Rightarrow> AuthMethodRow tbl \<Rightarrow> AuthMethodRow option \<times> AuthMethodRow tbl" where
  "method_revoke jsNow i userId = update_row (\<lambda>r. am_id r = i \<and> am_user_id r = userId) (\<lambda>r. r\<lparr>am_revoked_at := Some jsNow\<rparr>)"

text \<open>One \<^verbatim>\<open>UPDATE\<close> with an \<^verbatim>\<open>EXISTS\<close> over the other rows.  Its subquery reads the snapshot the statement started
  with, \<open>snapshot\<close>; the row it updates is the committed one.\<close>

definition revokeUnlessLastLoginCapable ::
    "AuthMethodRow tbl \<Rightarrow> millis \<Rightarrow> nat \<Rightarrow> nat \<Rightarrow> AuthMethodRow tbl \<Rightarrow> AuthMethodRow option \<times> AuthMethodRow tbl" where
  "revokeUnlessLastLoginCapable snapshot jsNow i userId = update_row
     (\<lambda>r. am_id r = i \<and> active_method userId r \<and>
        (am_method_type r \<notin> set LOGIN_CAPABLE_METHOD_TYPES \<or> list_ex (\<lambda>other. am_id other \<noteq> i \<and> login_capable userId other) snapshot))
     (\<lambda>r. r\<lparr>am_revoked_at := Some jsNow\<rparr>)"

definition method_revokeAllByUserId :: "millis \<Rightarrow> nat \<Rightarrow> AuthMethodRow tbl \<Rightarrow> AuthMethodRow tbl" where
  "method_revokeAllByUserId jsNow userId = update_where (active_method userId) (\<lambda>r. r\<lparr>am_revoked_at := Some jsNow\<rparr>)"

section \<open>Recovery codes\<close>

record RecoveryCodeRow =
  rc_user_id :: nat
  rc_code_hash :: string
  rc_used_at :: "millis option"

definition hashMfaRecoveryCode :: "(string \<Rightarrow> string) \<Rightarrow> string \<Rightarrow> string" where
  "hashMfaRecoveryCode sha256hex plainCode = sha256hex (js_upper plainCode)"

text \<open>\<^verbatim>\<open>ON CONFLICT DO NOTHING\<close> on user and hash.\<close>

definition insertMfaRecoveryCodes :: "nat \<Rightarrow> string list \<Rightarrow> RecoveryCodeRow tbl \<Rightarrow> RecoveryCodeRow tbl" where
  "insertMfaRecoveryCodes userId codeHashes t = foldl (\<lambda>t h.
     if list_ex (\<lambda>r. rc_user_id r = userId \<and> rc_code_hash r = h) t then t
     else t @ [\<lparr>rc_user_id = userId, rc_code_hash = h, rc_used_at = None\<rparr>]) t codeHashes"

definition invalidateAllUnusedRecoveryCodesForUser :: "millis \<Rightarrow> nat \<Rightarrow> RecoveryCodeRow tbl \<Rightarrow> RecoveryCodeRow tbl" where
  "invalidateAllUnusedRecoveryCodesForUser now userId =
     update_where (\<lambda>r. rc_user_id r = userId \<and> rc_used_at r = None) (\<lambda>r. r\<lparr>rc_used_at := Some now\<rparr>)"

definition consumeMfaRecoveryCode ::
    "(string \<Rightarrow> string) \<Rightarrow> millis \<Rightarrow> nat \<Rightarrow> string \<Rightarrow> RecoveryCodeRow tbl \<Rightarrow> bool \<times> RecoveryCodeRow tbl" where
  "consumeMfaRecoveryCode sha256hex now userId plainCode t =
     (let p = (\<lambda>r. rc_user_id r = userId \<and> rc_code_hash r = hashMfaRecoveryCode sha256hex plainCode \<and> rc_used_at r = None)
      in (list_ex p t, update_where p (\<lambda>r. r\<lparr>rc_used_at := Some now\<rparr>) t))"

definition MFA_RECOVERY_CODE_LENGTH :: nat where "MFA_RECOVERY_CODE_LENGTH = 12"
definition MFA_RECOVERY_CODE_COUNT :: nat where "MFA_RECOVERY_CODE_COUNT = 10"

definition RECOVERY_CODE_ALPHABET :: string where
  "RECOVERY_CODE_ALPHABET = ''ABCDEFGHJKMNPQRSTUVWXYZ23456789''"

text \<open>Rejection sampling over the chunks the random source returns, one list of bytes per call of \<^verbatim>\<open>randomBytes\<close>.  A source
  that gives no usable byte for ever never returns, which a list cannot: running out of chunks is \<^const>\<open>None\<close>.\<close>

fun recovery_chars :: "nat list \<Rightarrow> string \<Rightarrow> string" where
  "recovery_chars [] result = result"
| "recovery_chars (b # bytes) result =
     (if length result = MFA_RECOVERY_CODE_LENGTH then result
      else if b \<ge> (256 div length RECOVERY_CODE_ALPHABET) * length RECOVERY_CODE_ALPHABET then recovery_chars bytes result
      else recovery_chars bytes (result @ [RECOVERY_CODE_ALPHABET ! (b mod length RECOVERY_CODE_ALPHABET)]))"

fun recovery_code :: "nat list list \<Rightarrow> string \<Rightarrow> (string \<times> nat list list) option" where
  "recovery_code chunks result =
     (if length result = MFA_RECOVERY_CODE_LENGTH then Some (result, chunks)
      else case chunks of [] \<Rightarrow> None | bytes # rest \<Rightarrow> recovery_code rest (recovery_chars bytes result))"

definition generateMfaRecoveryCode :: "nat list list \<Rightarrow> (string \<times> nat list list) option" where
  "generateMfaRecoveryCode chunks = recovery_code chunks ''''"

section \<open>Passkeys\<close>

definition MAX_WEBAUTHN_CREDENTIALS_PER_USER :: nat where "MAX_WEBAUTHN_CREDENTIALS_PER_USER = 20"
definition MAX_LINKED_AUTH_METHODS_PER_USER :: nat where "MAX_LINKED_AUTH_METHODS_PER_USER = 20"

record PasskeyRow =
  wk_id :: nat
  wk_public_id :: string
  wk_user_id :: nat
  wk_credential_id :: string
  wk_public_key :: string
  wk_counter :: nat
  wk_last_used_at :: "millis option"
  wk_revoked_at :: "millis option"

definition active_passkey :: "nat \<Rightarrow> PasskeyRow \<Rightarrow> bool" where
  "active_passkey userId r \<longleftrightarrow> wk_user_id r = userId \<and> wk_revoked_at r = None"

definition listActiveByUserId :: "nat \<Rightarrow> PasskeyRow tbl \<Rightarrow> PasskeyRow list" where
  "listActiveByUserId userId t = capListWithWarning DEFAULT_REPOSITORY_LIST_LIMIT
     (take (DEFAULT_REPOSITORY_LIST_LIMIT + 1) (filter (active_passkey userId) t))"

text \<open>The lookup names no user; the policy of the context restricts it to the passkeys of \<open>owner\<close>.\<close>

definition findActiveByCredentialId :: "nat option \<Rightarrow> string \<Rightarrow> PasskeyRow tbl \<Rightarrow> PasskeyRow option" where
  "findActiveByCredentialId owner credentialId = select_first
     (\<lambda>r. wk_credential_id r = credentialId \<and> wk_revoked_at r = None \<and> Some (wk_user_id r) = owner)"

definition passkey_countActiveByUserId :: "nat \<Rightarrow> PasskeyRow tbl \<Rightarrow> nat" where
  "passkey_countActiveByUserId userId t = length (filter (active_passkey userId) t)"

definition createCredential :: "nat \<Rightarrow> string \<Rightarrow> nat \<Rightarrow> string \<Rightarrow> string \<Rightarrow> nat \<Rightarrow> PasskeyRow tbl \<Rightarrow> (PasskeyRow \<times> PasskeyRow tbl) option" where
  "createCredential nextId publicId userId credentialId publicKey counter t =
     (let row = \<lparr>wk_id = nextId, wk_public_id = publicId, wk_user_id = userId, wk_credential_id = credentialId,
        wk_public_key = publicKey, wk_counter = counter, wk_last_used_at = None, wk_revoked_at = None\<rparr>
      in if list_ex (\<lambda>r. wk_id r = nextId \<or> wk_public_id r = publicId \<or> (wk_credential_id r = credentialId \<and> wk_revoked_at r = None)) t
         then None else Some (row, t @ [row]))"

definition updateCounter :: "nat option \<Rightarrow> millis \<Rightarrow> string \<Rightarrow> nat \<Rightarrow> PasskeyRow tbl \<Rightarrow> PasskeyRow tbl" where
  "updateCounter owner now credentialId counter = update_where
     (\<lambda>r. Some (wk_user_id r) = owner \<and> wk_credential_id r = credentialId \<and> wk_revoked_at r = None \<and>
        (if counter = 0 then wk_counter r = 0 else wk_counter r < counter))
     (\<lambda>r. r\<lparr>wk_counter := counter, wk_last_used_at := Some now\<rparr>)"

definition revokeByUserId :: "millis \<Rightarrow> nat \<Rightarrow> nat \<Rightarrow> PasskeyRow tbl \<Rightarrow> PasskeyRow tbl" where
  "revokeByUserId now userId i = update_where (\<lambda>r. wk_id r = i \<and> active_passkey userId r) (\<lambda>r. r\<lparr>wk_revoked_at := Some now\<rparr>)"

end
