(* ===== verification/Login.thy ===== *)
theory Login
  imports Sessions Auth_Methods
begin

text \<open>
  Signing in: \<^verbatim>\<open>src/src/domains/auth/auth.service.ts\<close>, \<^verbatim>\<open>shared/complete-first-factor-auth.ts\<close> and
  \<^verbatim>\<open>sub-domains/auth-method/email-login.service.ts\<close>, over the accounts, sessions and one-time artifacts
  of the theories below them.  Arguments of the model: the password hash functions, SHA-256, HMAC, the
  disposable-domain list, the JWT signer, and the answers of the tenancy service (does an
  organization of the user require MFA, which organization is active).  The minimum-duration waits
  only delay an answer and are left out.  A transaction that throws leaves the tables as they were;
  what it wrote to Redis stays.  Shown: a second factor is never skipped, a right password is never
  locked out, and an email code can be guessed at most five times in its life and used once.
\<close>

definition MAX_FAILED_LOGIN_ATTEMPTS :: int where "MAX_FAILED_LOGIN_ATTEMPTS = 10"
definition ACCOUNT_LOCKOUT_MINUTES :: int where "ACCOUNT_LOCKOUT_MINUTES = 30"
definition IP_FAILED_LOGIN_THRESHOLD :: int where "IP_FAILED_LOGIN_THRESHOLD = 50"
definition IP_FAILED_LOGIN_WINDOW_SECONDS :: int where "IP_FAILED_LOGIN_WINDOW_SECONDS = 900"
definition IP_FAILED_LOGIN_KEY_PREFIX :: string where "IP_FAILED_LOGIN_KEY_PREFIX = ''auth:failed_login:ip:''"
definition EMAIL_CODE_VERIFY_ATTEMPT_KEY_PREFIX :: string where
  "EMAIL_CODE_VERIFY_ATTEMPT_KEY_PREFIX = ''auth:email_code_verify_attempts:''"
definition EMAIL_CODE_SEND_COOLDOWN_KEY_PREFIX :: string where
  "EMAIL_CODE_SEND_COOLDOWN_KEY_PREFIX = ''auth:email_code_send_cooldown:''"

record LoginWorld = AuthWorld +
  lw_mfa_sessions :: "string option redis"
  lw_ip_failures :: "int redis"
  lw_tokens :: "VerificationTokenRow tbl"
  lw_code_attempts :: "int redis"
  lw_cooldowns :: "unit redis"
  lw_code_mails :: "(string \<times> string) list"   \<comment> \<open>address and code handed to the mail outbox\<close>
  lw_methods :: "AuthMethodRow tbl"
  lw_provisioned :: "nat list"                 \<comment> \<open>calls of \<open>ensurePersonalOrganization\<close>\<close>

text \<open>What a call of the tenancy service answers, and the pure functions.\<close>

record LoginEnv =
  le_sha256hex :: "string \<Rightarrow> string"
  le_disposable :: "string \<Rightarrow> bool"
  le_verifyPassword :: "string \<Rightarrow> string \<Rightarrow> bool \<times> bool"   \<comment> \<open>valid, needs rehash\<close>
  le_hashPassword :: "string \<Rightarrow> string"
  le_hmac :: "VerificationTokenType \<times> nat \<times> string \<Rightarrow> string"
  le_orgRequiresMfa :: "nat \<Rightarrow> bool"
  le_defaultOrg :: "nat \<Rightarrow> string option"
  le_ensuredOrg :: "nat \<Rightarrow> string option"
  le_personalEnabled :: bool
  le_role :: "string \<Rightarrow> string \<Rightarrow> bool \<Rightarrow> string"
  le_sign :: "string \<Rightarrow> string \<Rightarrow> string \<Rightarrow> string option \<Rightarrow> string"  \<comment> \<open>jti, user, role, organization\<close>
  le_sessionMaxAgeDays :: int
  le_staticCodeEnabled :: bool
  le_cooldownEnabled :: bool

text \<open>What the runtime draws at random for one call.\<close>

record LoginFresh =
  lf_session :: FreshSession
  lf_jti :: string
  lf_mfa_token :: string
  lf_code :: string
  lf_token_id :: nat
  lf_user_id :: nat
  lf_user_public_id :: string
  lf_method_id :: nat
  lf_method_public_id :: string

datatype LoginResult = SessionIssued (lr_access_token: string) (lr_session_public_id: string) (lr_refresh_secret: string)
  | MfaRequired (lr_mfa_session_token: string)

section \<open>After the first factor\<close>

definition provision :: "nat \<Rightarrow> 'z LoginWorld_scheme \<Rightarrow> 'z LoginWorld_scheme" where
  "provision userId w = w\<lparr>lw_provisioned := lw_provisioned w @ [userId]\<rparr>"

text \<open>The call of the MFA session store throws when Redis is down.\<close>

definition completeFirstFactorAuth ::
    "LoginEnv \<Rightarrow> Ctx \<Rightarrow> LoginFresh \<Rightarrow> string \<Rightarrow> string option \<Rightarrow> bool \<Rightarrow> bool \<Rightarrow> UserRow \<Rightarrow> 'z LoginWorld_scheme \<Rightarrow>
     (app_error + LoginResult) \<times> 'z LoginWorld_scheme" where
  "completeFirstFactorAuth env cx fr ipAddress userAgent ensureOnMiss emailVerified user w =
     (if us_is_mfa_enabled user \<or> le_orgRequiresMfa env (us_id user) then
        (if \<not> cx_redis cx then (Inl (InternalError ''redis''), w)
         else (Inr (MfaRequired (lf_mfa_token fr)),
               w\<lparr>lw_mfa_sessions := createMfaSession (cx_jsNow cx) (lf_mfa_token fr) (us_public_id user) (lw_mfa_sessions w)\<rparr>))
      else
        let heal = le_defaultOrg env (us_id user) = None \<and> ensureOnMiss \<and> le_personalEnabled env;
            organizationPublicId = (if heal then le_ensuredOrg env (us_id user) else le_defaultOrg env (us_id user));
            w1 = (if heal then provision (us_id user) w else w);
            jwt = le_sign env (lf_jti fr) (us_public_id user) (le_role env (us_email user) (us_status user) emailVerified) organizationPublicId;
            expiresAt = cx_jsNow cx + le_sessionMaxAgeDays env * 86400000
        in case createSessionForUser (le_sha256hex env) cx (lf_session fr) (us_public_id user)
                  \<lparr>sc_token_hash = le_sha256hex env jwt, sc_ip_address = ipAddress, sc_user_agent = userAgent, sc_expires_at = expiresAt\<rparr> w1 of
             (Inl e, w2) \<Rightarrow> (Inl e, w2)
           | (Inr (sessionPublicId, refreshSecret), w2) \<Rightarrow> (Inr (SessionIssued jwt sessionPublicId refreshSecret), w2))"

section \<open>Password login\<close>

definition buildIpKey :: "LoginEnv \<Rightarrow> string \<Rightarrow> string" where
  "buildIpKey env ipAddress = IP_FAILED_LOGIN_KEY_PREFIX @ le_sha256hex env ipAddress"

definition checkIpLoginLimit :: "LoginEnv \<Rightarrow> Ctx \<Rightarrow> string \<Rightarrow> 'z LoginWorld_scheme \<Rightarrow> app_error option" where
  "checkIpLoginLimit env cx ipAddress w =
     (if \<not> cx_redis cx then None
      else case redis_get (cx_jsNow cx) (lw_ip_failures w) (buildIpKey env ipAddress) of
             None \<Rightarrow> None
           | Some n \<Rightarrow> if n \<ge> IP_FAILED_LOGIN_THRESHOLD then Some (UnauthorizedError ''errors:rateLimited'') else None)"

definition recordIpFailedLogin :: "LoginEnv \<Rightarrow> Ctx \<Rightarrow> string \<Rightarrow> 'z LoginWorld_scheme \<Rightarrow> 'z LoginWorld_scheme" where
  "recordIpFailedLogin env cx ipAddress w =
     (if \<not> cx_redis cx then w
      else let (count, r) = incrementWithExpiryOnFirst (cx_jsNow cx) (lw_ip_failures w) (buildIpKey env ipAddress) IP_FAILED_LOGIN_WINDOW_SECONDS;
               w1 = w\<lparr>lw_ip_failures := r\<rparr>
           in if count = IP_FAILED_LOGIN_THRESHOLD
              then w1\<lparr>aw_sentry := aw_sentry w1 @ [''auth.ip_failed_login.threshold_reached'']\<rparr> else w1)"

definition user_write :: "user_write \<Rightarrow> 'z LoginWorld_scheme \<Rightarrow> 'z LoginWorld_scheme" where
  "user_write op w = w\<lparr>aw_users := snd (op (aw_users w))\<rparr>"

definition login ::
    "LoginEnv \<Rightarrow> Ctx \<Rightarrow> LoginFresh \<Rightarrow> string \<Rightarrow> string \<Rightarrow> string \<Rightarrow> string option \<Rightarrow> 'z LoginWorld_scheme \<Rightarrow>
     (app_error + LoginResult) \<times> 'z LoginWorld_scheme" where
  "login env cx fr email password ipAddress userAgent w =
     (if le_disposable env email then (Inl (ValidationError ''errors:disposableEmail''), w)
      else case checkIpLoginLimit env cx ipAddress w of
        Some e \<Rightarrow> (Inl e, w)
      | None \<Rightarrow>
        (let failed = Inl (UnauthorizedError ''errors:invalidEmailOrPassword'') in
         case findByEmail email (aw_users w) of
           None \<Rightarrow> (failed, recordIpFailedLogin env cx ipAddress w)
         | Some user \<Rightarrow>
           (case us_password_hash user of
              None \<Rightarrow> (failed, recordIpFailedLogin env cx ipAddress w)
            | Some passwordHash \<Rightarrow>
              (if passwordHash = [] then (failed, recordIpFailedLogin env cx ipAddress w)
               else
                 let isLockedOut = (case us_account_locked_until user of None \<Rightarrow> False | Some t \<Rightarrow> t > cx_jsNow cx);
                     (isValid, needsRehash) = le_verifyPassword env password passwordHash
                 in if \<not> isValid then
                      (failed, recordIpFailedLogin env cx ipAddress
                         (user_write (incrementFailedLoginAttempt (cx_now cx) (us_public_id user) MAX_FAILED_LOGIN_ATTEMPTS ACCOUNT_LOCKOUT_MINUTES) w))
                    else case assertUserAccountActive (us_status user) (us_deleted_at user) of
                      Some e \<Rightarrow> (Inl e, w)
                    | None \<Rightarrow>
                        (let w1 = (if us_failed_login_count user > 0 \<or> isLockedOut
                                   then user_write (updateLoginAttempt (cx_now cx) (us_public_id user) 0 None) w else w);
                             w2 = (if needsRehash
                                   then user_write (updatePassword (cx_jsNow cx) (cx_now cx) (us_public_id user) (le_hashPassword env password)) w1 else w1)
                         in completeFirstFactorAuth env cx fr ipAddress userAgent True (us_is_email_verified user) user w2)))))"

definition logout :: "LoginEnv \<Rightarrow> Ctx \<Rightarrow> string \<Rightarrow> 'z LoginWorld_scheme \<Rightarrow> (app_error + unit) \<times> 'z LoginWorld_scheme" where
  "logout env cx token w = revokeSessionByAccessToken (le_sha256hex env) cx token w"

text \<open>The organization argument is what the revalidation of the persisted organization answers.\<close>

definition refreshToken ::
    "LoginEnv \<Rightarrow> Ctx \<Rightarrow> LoginFresh \<Rightarrow> (nat \<Rightarrow> nat \<Rightarrow> string option) \<Rightarrow> string \<Rightarrow> string \<Rightarrow> 'z LoginWorld_scheme \<Rightarrow>
     (app_error + string \<times> string) \<times> 'z LoginWorld_scheme" where
  "refreshToken env cx fr activeOrganization sessionPublicId refreshSecret w =
     (case findByPublicIdIncludingRevoked sessionPublicId (aw_sessions w) of
        None \<Rightarrow> (Inl (UnauthorizedError ''errors:invalidOrExpiredSession''), w)
      | Some session \<Rightarrow>
          (if ss_expires_at session \<le> cx_jsNow cx then (Inl (UnauthorizedError ''errors:sessionExpired''), w)
           else case findById (ss_user_id session) (aw_users w) of
             None \<Rightarrow> (Inl (UnauthorizedError ''errors:userNotFound''), w)
           | Some user \<Rightarrow>
               (if us_status user \<noteq> ''ACTIVE'' then (Inl (UnauthorizedError ''errors:accountNotActive''), w)
                else let persisted = Option.bind (ss_organization_id session) (activeOrganization (us_id user));
                         organizationPublicId = (case persisted of Some p \<Rightarrow> Some p | None \<Rightarrow> le_defaultOrg env (us_id user));
                         jwt = le_sign env (lf_jti fr) (us_public_id user)
                                 (le_role env (us_email user) (us_status user) (us_is_email_verified user)) organizationPublicId
                     in case refreshSessionCredentials (le_sha256hex env) cx (fr_refresh_secret (lf_session fr)) sessionPublicId refreshSecret jwt w of
                          (Inl e, w1) \<Rightarrow> (Inl e, w1)
                        | (Inr secret, w1) \<Rightarrow> (Inr (jwt, secret), w1))))"

definition mintForActiveOrganization ::
    "LoginEnv \<Rightarrow> Ctx \<Rightarrow> LoginFresh \<Rightarrow> UserRow \<Rightarrow> string \<Rightarrow> nat \<times> string \<Rightarrow> 'z LoginWorld_scheme \<Rightarrow>
     (app_error + string \<times> string) \<times> 'z LoginWorld_scheme" where
  "mintForActiveOrganization env cx fr user sessionPublicId organization w =
     (let jwt = le_sign env (lf_jti fr) (us_public_id user)
                  (le_role env (us_email user) (us_status user) (us_is_email_verified user)) (Some (snd organization))
      in case rebindAccessToken (le_sha256hex env) cx sessionPublicId jwt (fst organization) w of
           (Inl e, w1) \<Rightarrow> (Inl e, w1)
         | (Inr _, w1) \<Rightarrow> (Inr (jwt, snd organization), w1))"

text \<open>\<^verbatim>\<open>memberOrganization\<close> answers \<^verbatim>\<open>findUserActiveOrganizationByPublicId\<close>.\<close>

definition switchToOrganization ::
    "LoginEnv \<Rightarrow> Ctx \<Rightarrow> LoginFresh \<Rightarrow> (nat \<Rightarrow> string \<Rightarrow> (nat \<times> string) option) \<Rightarrow> string \<Rightarrow> string \<Rightarrow> string \<Rightarrow>
     'z LoginWorld_scheme \<Rightarrow> (app_error + string \<times> string) \<times> 'z LoginWorld_scheme" where
  "switchToOrganization env cx fr memberOrganization userPublicId sessionPublicId organizationPublicId w =
     (case requireUserRecordByPublicId userPublicId (aw_users w) of
        Inl e \<Rightarrow> (Inl e, w)
      | Inr user \<Rightarrow>
          (if us_status user \<noteq> ''ACTIVE'' then (Inl (UnauthorizedError ''errors:accountNotActive''), w)
           else case memberOrganization (us_id user) organizationPublicId of
                  None \<Rightarrow> (Inl (ForbiddenError ''errors:insufficientOrganizationPermissions''), w)
                | Some organization \<Rightarrow> mintForActiveOrganization env cx fr user sessionPublicId organization w))"

definition switchToPersonal ::
    "LoginEnv \<Rightarrow> Ctx \<Rightarrow> LoginFresh \<Rightarrow> (nat \<Rightarrow> (nat \<times> string) option) \<Rightarrow> string \<Rightarrow> string \<Rightarrow>
     'z LoginWorld_scheme \<Rightarrow> (app_error + string \<times> string) \<times> 'z LoginWorld_scheme" where
  "switchToPersonal env cx fr personalOrganization userPublicId sessionPublicId w =
     (case requireUserRecordByPublicId userPublicId (aw_users w) of
        Inl e \<Rightarrow> (Inl e, w)
      | Inr user \<Rightarrow>
          (if us_status user \<noteq> ''ACTIVE'' then (Inl (UnauthorizedError ''errors:accountNotActive''), w)
           else let w1 = provision (us_id user) w
                in case personalOrganization (us_id user) of
                     None \<Rightarrow> (Inl (NotFoundError ''Personal organization''), w1)
                   | Some organization \<Rightarrow> mintForActiveOrganization env cx fr user sessionPublicId organization w1))"

section \<open>Email codes\<close>

definition attempt_key :: "nat \<Rightarrow> string" where
  "attempt_key userId = EMAIL_CODE_VERIFY_ATTEMPT_KEY_PREFIX @ dec userId"

definition clearVerifyAttemptCounter :: "Ctx \<Rightarrow> nat \<Rightarrow> 'z LoginWorld_scheme \<Rightarrow> 'z LoginWorld_scheme" where
  "clearVerifyAttemptCounter cx userId w =
     (if \<not> cx_redis cx then w else w\<lparr>lw_code_attempts := redis_del (attempt_key userId) (lw_code_attempts w)\<rparr>)"

definition issueVerificationCode :: "LoginEnv \<Rightarrow> Ctx \<Rightarrow> LoginFresh \<Rightarrow> UserRow \<Rightarrow> 'z LoginWorld_scheme \<Rightarrow> (app_error + string) \<times> 'z LoginWorld_scheme" where
  "issueVerificationCode env cx fr user w =
     (let code = lf_code fr; expiresAt = cx_jsNow cx + VERIFICATION_CODE_TTL_MINUTES * 60000 in
      case token_create (lf_token_id fr) EMAIL_CODE (us_id user) (us_email user)
             (hashVerificationCode (le_hmac env) EMAIL_CODE (us_id user) code) expiresAt
             (invalidateAllForUser (us_id user) EMAIL_CODE (cx_jsNow cx) (lw_tokens w)) of
        None \<Rightarrow> (Inl (InternalError ''unique_violation''), w)
      | Some tokens \<Rightarrow>
          (Inr code, clearVerifyAttemptCounter cx (us_id user)
             (w\<lparr>lw_tokens := tokens, lw_code_mails := lw_code_mails w @ [(us_email user, code)]\<rparr>)))"

text \<open>Auto-signup: the account and its \<^verbatim>\<open>EMAIL_CODE\<close> method in one transaction, then the personal
  organization; on a lost creation race the existing account.\<close>

definition createEmailCodeMethod :: "Ctx \<Rightarrow> LoginFresh \<Rightarrow> nat \<Rightarrow> AuthMethodRow tbl \<Rightarrow> (AuthMethodRow \<times> AuthMethodRow tbl) option" where
  "createEmailCodeMethod cx fr userId = method_create (lf_method_id fr) (lf_method_public_id fr) (cx_now cx)
     \<lparr>ad_user_id = userId, ad_method_type = ''EMAIL_CODE'', ad_provider = None, ad_provider_user_id = None, ad_encrypted_secret = None,
      ad_is_primary = True\<rparr>"

definition createEmailCodeUser :: "LoginEnv \<Rightarrow> Ctx \<Rightarrow> LoginFresh \<Rightarrow> string \<Rightarrow> 'z LoginWorld_scheme \<Rightarrow> (app_error + UserRow) \<times> 'z LoginWorld_scheme" where
  "createEmailCodeUser env cx fr email w =
     (case (case insertOAuthUser (\<lambda>e. le_sha256hex env (js_lower e)) (cx_now cx) (lf_user_id fr) (lf_user_public_id fr)
             \<lparr>od_email = email, od_first_name = None, od_last_name = None, od_avatar_url = None, od_is_email_verified = False\<rparr> (aw_users w) of
           None \<Rightarrow> None
         | Some (user, users) \<Rightarrow> (case createEmailCodeMethod cx fr (us_id user) (lw_methods w) of
             None \<Rightarrow> None | Some (_, methods) \<Rightarrow> Some (user, w\<lparr>aw_users := users, lw_methods := methods\<rparr>))) of
        None \<Rightarrow> (case findByEmail email (aw_users w) of
                    Some existing \<Rightarrow> (Inr existing, w)
                  | None \<Rightarrow> (Inl (InternalError ''unique_violation''), w))
      | Some (user, w1) \<Rightarrow> (Inr user, if le_personalEnabled env then provision (us_id user) w1 else w1))"

definition sendCode :: "LoginEnv \<Rightarrow> Ctx \<Rightarrow> LoginFresh \<Rightarrow> string \<Rightarrow> 'z LoginWorld_scheme \<Rightarrow> (app_error + unit) \<times> 'z LoginWorld_scheme" where
  "sendCode env cx fr email w =
     (if le_disposable env email then (Inl (ValidationError ''errors:disposableEmail''), w)
      else
        let cooldownKey = EMAIL_CODE_SEND_COOLDOWN_KEY_PREFIX @ le_sha256hex env email;
            (cooldownClaimed, w1) =
              (if \<not> le_cooldownEnabled env \<or> \<not> cx_redis cx then (True, w)
               else let (c, r) = redis_set_ex_nx (cx_jsNow cx) cooldownKey () VERIFICATION_CODE_RESEND_COOLDOWN_SECONDS (lw_cooldowns w)
                    in (c, w\<lparr>lw_cooldowns := r\<rparr>))
        in if \<not> cooldownClaimed then (Inr (), w1)
           else case (case findByEmail email (aw_users w1) of Some u \<Rightarrow> (Inr u, w1) | None \<Rightarrow> createEmailCodeUser env cx fr email w1) of
                  (Inl e, w2) \<Rightarrow> (Inl e, w2)
                | (Inr user, w2) \<Rightarrow>
                    (case issueVerificationCode env cx fr user w2 of (Inl e, w3) \<Rightarrow> (Inl e, w3) | (Inr _, w3) \<Rightarrow> (Inr (), w3)))"

text \<open>The pinned transaction of \<^verbatim>\<open>login\<close>: what it leaves when it does not throw.\<close>

definition redeem_claim :: "LoginEnv \<Rightarrow> Ctx \<Rightarrow> UserRow \<Rightarrow> string \<Rightarrow> 'z LoginWorld_scheme \<Rightarrow> app_error + 'z LoginWorld_scheme" where
  "redeem_claim env cx user code w =
     (let usedStaticCode = le_staticCodeEnabled env \<and> normalizeVerificationCode code = STATIC_VERIFICATION_CODE;
          (consumed, tokens) =
            (if usedStaticCode then (True, lw_tokens w)
             else let (r, t) = consumeOtpForUser (us_id user) EMAIL_CODE (hashVerificationCode (le_hmac env) EMAIL_CODE (us_id user) code)
                                 (cx_jsNow cx) (lw_tokens w)
                  in (r \<noteq> None, t))
      in if \<not> consumed then Inl (UnauthorizedError ''errors:invalidOrExpiredVerificationCode'')
         else case assertUserAccountActive (us_status user) (us_deleted_at user) of
                Some e \<Rightarrow> Inl e
              | None \<Rightarrow>
                  (let w1 = w\<lparr>lw_tokens := invalidateAllForUser (us_id user) EMAIL_CODE (cx_jsNow cx) tokens\<rparr>
                   in Inr (if \<not> us_is_email_verified user then user_write (updateEmailVerified (cx_now cx) (us_public_id user)) w1 else w1)))"

definition redeem_code ::
    "LoginEnv \<Rightarrow> Ctx \<Rightarrow> LoginFresh \<Rightarrow> UserRow \<Rightarrow> string \<Rightarrow> string \<Rightarrow> string option \<Rightarrow> 'z LoginWorld_scheme \<Rightarrow>
     (app_error + LoginResult) \<times> 'z LoginWorld_scheme" where
  "redeem_code env cx fr user code ipAddress userAgent w =
     (case redeem_claim env cx user code w of
        Inl e \<Rightarrow> (Inl e, w)
      | Inr w2 \<Rightarrow>
          (case completeFirstFactorAuth env cx fr ipAddress userAgent False True user w2 of
             (Inr r, w3) \<Rightarrow> (Inr r, w3)
           | (Inl e, w3) \<Rightarrow> (Inl e, w\<lparr>aw_cache := aw_cache w3, lw_mfa_sessions := lw_mfa_sessions w3\<rparr>)))"

text \<open>The attempt counter has no fallback: without Redis the call throws.\<close>

definition charge_attempt :: "Ctx \<Rightarrow> nat \<Rightarrow> 'z LoginWorld_scheme \<Rightarrow> int \<times> 'z LoginWorld_scheme" where
  "charge_attempt cx userId w =
     (let (attempts, r) = incrementWithExpiryOnFirst (cx_jsNow cx) (lw_code_attempts w) (attempt_key userId) (VERIFICATION_CODE_TTL_MINUTES * 60)
      in (attempts, w\<lparr>lw_code_attempts := r\<rparr>))"

definition email_login ::
    "LoginEnv \<Rightarrow> Ctx \<Rightarrow> LoginFresh \<Rightarrow> string \<Rightarrow> string \<Rightarrow> string \<Rightarrow> string option \<Rightarrow> 'z LoginWorld_scheme \<Rightarrow>
     (app_error + LoginResult) \<times> 'z LoginWorld_scheme" where
  "email_login env cx fr email code ipAddress userAgent w =
     (let normalizedEmail = js_lower (js_trim email);
          invalid = Inl (UnauthorizedError ''errors:invalidOrExpiredVerificationCode'') in
      case findByEmail normalizedEmail (aw_users w) of
        None \<Rightarrow> (invalid, w)
      | Some user \<Rightarrow>
          (if \<not> cx_redis cx then (Inl (InternalError ''redis''), w)
           else let (attempts, w1) = charge_attempt cx (us_id user) w in
                if attempts > VERIFICATION_CODE_MAX_VERIFY_ATTEMPTS then (invalid, w1)
                else case redeem_code env cx fr user code ipAddress userAgent w1 of
                       (Inl e, w2) \<Rightarrow> (Inl e, w2)
                     | (Inr r, w2) \<Rightarrow>
                         (let w3 = clearVerifyAttemptCounter cx (us_id user) w2
                          in (Inr r, if \<not> us_is_email_verified user \<and> le_personalEnabled env then provision (us_id user) w3 else w3))))"

definition verifyCodeForStepUp :: "LoginEnv \<Rightarrow> Ctx \<Rightarrow> string \<Rightarrow> string \<Rightarrow> 'z LoginWorld_scheme \<Rightarrow> (app_error + unit) \<times> 'z LoginWorld_scheme" where
  "verifyCodeForStepUp env cx userPublicId code w =
     (case requireUserRecordByPublicId userPublicId (aw_users w) of
        Inl e \<Rightarrow> (Inl e, w)
      | Inr user \<Rightarrow>
          (if us_is_mfa_enabled user then (Inl (ForbiddenError ''errors:mfaStepUpRequired''), w)
           else if us_password_hash user \<noteq> None \<and> us_password_hash user \<noteq> Some [] then (Inl (ForbiddenError ''errors:passwordStepUpRequired''), w)
           else if \<not> cx_redis cx then (Inl (InternalError ''redis''), w)
           else let (attempts, w1) = charge_attempt cx (us_id user) w;
                    invalid = Inl (UnauthorizedError ''errors:invalidOrExpiredVerificationCode'') in
                if attempts > VERIFICATION_CODE_MAX_VERIFY_ATTEMPTS then (invalid, w1)
                else case consumeOtpForUser (us_id user) EMAIL_CODE (hashVerificationCode (le_hmac env) EMAIL_CODE (us_id user) code) (cx_jsNow cx) (lw_tokens w1) of
                       (None, t) \<Rightarrow> (invalid, w1\<lparr>lw_tokens := t\<rparr>)
                     | (Some _, t) \<Rightarrow>
                         (Inr (), clearVerifyAttemptCounter cx (us_id user)
                            (w1\<lparr>lw_tokens := invalidateAllForUser (us_id user) EMAIL_CODE (cx_jsNow cx) t\<rparr>))))"

section \<open>The second factor is never skipped\<close>

lemma record_ip_frame [simp]:
  "aw_sessions (recordIpFailedLogin env cx ip w) = aw_sessions w" "aw_users (recordIpFailedLogin env cx ip w) = aw_users w"
  by (simp_all add: recordIpFailedLogin_def Let_def split: prod.splits)

lemma user_write_frame [simp]:
  "aw_sessions (user_write op w) = aw_sessions w" "lw_tokens (user_write op w) = lw_tokens w"
  "lw_code_attempts (user_write op w) = lw_code_attempts w" "aw_users (user_write op w) = snd (op (aw_users w))"
  by (simp_all add: user_write_def)

lemma provision_frame [simp]:
  "aw_sessions (provision u w) = aw_sessions w" "aw_users (provision u w) = aw_users w"
  by (simp_all add: provision_def)

lemma clear_counter_frame [simp]:
  "aw_sessions (clearVerifyAttemptCounter cx u w) = aw_sessions w" "lw_tokens (clearVerifyAttemptCounter cx u w) = lw_tokens w"
  by (simp_all add: clearVerifyAttemptCounter_def)

lemma charge_frame [simp]:
  "aw_sessions (snd (charge_attempt cx u w)) = aw_sessions w" "aw_users (snd (charge_attempt cx u w)) = aw_users w"
  "lw_tokens (snd (charge_attempt cx u w)) = lw_tokens w"
  by (simp_all add: charge_attempt_def Let_def case_prod_beta)

definition needs_second_factor :: "LoginEnv \<Rightarrow> UserRow \<Rightarrow> bool" where
  "needs_second_factor env user \<longleftrightarrow> us_is_mfa_enabled user \<or> le_orgRequiresMfa env (us_id user)"

definition no_session :: "(app_error + LoginResult) \<Rightarrow> bool" where
  "no_session r \<longleftrightarrow> (\<forall>a p s. r \<noteq> Inr (SessionIssued a p s))"

lemma no_session_simps [simp]: "no_session (Inl e)" "no_session (Inr (MfaRequired t))"
  by (simp_all add: no_session_def)

lemma complete_second_factor:
  assumes "needs_second_factor env user"
  shows "no_session (fst (completeFirstFactorAuth env cx fr ip ua b v user w))"
    and "aw_sessions (snd (completeFirstFactorAuth env cx fr ip ua b v user w)) = aw_sessions w"
  using assms by (auto simp: completeFirstFactorAuth_def needs_second_factor_def)

lemma login_second_factor:
  assumes "findByEmail email (aw_users w) = Some user" and "needs_second_factor env user"
  shows "no_session (fst (login env cx fr email password ip ua w))"
    and "aw_sessions (snd (login env cx fr email password ip ua w)) = aw_sessions w"
  using assms(1)
  by (auto simp: login_def Let_def complete_second_factor [OF assms(2)] split: option.splits prod.splits)

lemma redeem_claim_sessions: "redeem_claim env cx user code w = Inr w2 \<Longrightarrow> aw_sessions w2 = aw_sessions w"
  by (auto simp: redeem_claim_def Let_def split: prod.splits option.splits if_splits)

lemma redeem_cases:
  "redeem_code env cx fr user code ip ua w = (res, w') \<Longrightarrow>
   (\<exists>e. res = Inl e \<and> lw_tokens w' = lw_tokens w \<and> aw_users w' = aw_users w \<and> aw_sessions w' = aw_sessions w \<and>
        lw_code_attempts w' = lw_code_attempts w) \<or>
   (\<exists>w2 r. res = Inr r \<and> completeFirstFactorAuth env cx fr ip ua False True user w2 = (Inr r, w') \<and> aw_sessions w2 = aw_sessions w)"
  using redeem_claim_sessions [of env cx user code w]
  by (auto simp: redeem_code_def split: prod.splits sum.splits)

lemma redeem_second_factor:
  assumes "needs_second_factor env user"
  shows "no_session (fst (redeem_code env cx fr user code ip ua w))"
    and "aw_sessions (snd (redeem_code env cx fr user code ip ua w)) = aw_sessions w"
proof -
  obtain res w' where run: "redeem_code env cx fr user code ip ua w = (res, w')" by fastforce
  have "no_session res \<and> aw_sessions w' = aw_sessions w"
    using redeem_cases [OF run] complete_second_factor [OF assms, of cx fr ip ua False True] by (metis fst_conv no_session_simps(1) snd_conv)
  then show "no_session (fst (redeem_code env cx fr user code ip ua w))"
    "aw_sessions (snd (redeem_code env cx fr user code ip ua w)) = aw_sessions w"
    by (simp_all add: run)
qed

lemma email_login_second_factor:
  assumes "findByEmail (js_lower (js_trim email)) (aw_users w) = Some user" and "needs_second_factor env user"
  shows "no_session (fst (email_login env cx fr email code ip ua w))"
    and "aw_sessions (snd (email_login env cx fr email code ip ua w)) = aw_sessions w"
proof -
  obtain n w1 where ch: "charge_attempt cx (us_id user) w = (n, w1)" by fastforce
  have w1: "aw_sessions w1 = aw_sessions w" using charge_frame(1) [of cx "us_id user" w] ch by simp
  obtain res w' where run: "redeem_code env cx fr user code ip ua w1 = (res, w')" by fastforce
  have r: "no_session res" "aw_sessions w' = aw_sessions w"
    using redeem_second_factor [OF assms(2), of cx fr code ip ua w1] w1 by (simp_all add: run)
  then show "no_session (fst (email_login env cx fr email code ip ua w))"
    "aw_sessions (snd (email_login env cx fr email code ip ua w)) = aw_sessions w"
    using assms(1) w1 by (auto simp: email_login_def ch run Let_def split: sum.splits)
qed

text \<open>C34 An account that has MFA on, or belongs to an organization that demands it, gets no session
  from a first factor alone: neither a password login nor an email-code login ever answers with a
  token pair for it, and neither adds a row to the session table.\<close>

theorem second_factor_never_skipped:
  assumes "needs_second_factor env user"
  shows "(findByEmail email (aw_users w) = Some user \<longrightarrow>
      no_session (fst (login env cx fr email password ip ua w)) \<and>
      aw_sessions (snd (login env cx fr email password ip ua w)) = aw_sessions w) \<and>
    (findByEmail (js_lower (js_trim email)) (aw_users w) = Some user \<longrightarrow>
      no_session (fst (email_login env cx fr email code ip ua w)) \<and>
      aw_sessions (snd (email_login env cx fr email code ip ua w)) = aw_sessions w)"
  by (simp add: login_second_factor [OF _ assms] email_login_second_factor [OF _ assms])

section \<open>Guessing an email code\<close>

text \<open>One try to redeem a user's code: by logging in with the address, or as a step-up of a session of the user.\<close>

datatype CodeTry =
    LoginTry (ct_cx: Ctx) LoginFresh string string "string option"   \<comment> \<open>fresh values, code, IP address, user agent\<close>
  | StepUpTry (ct_cx: Ctx) string                                    \<comment> \<open>code\<close>

fun code_try :: "LoginEnv \<Rightarrow> string \<Rightarrow> UserRow \<Rightarrow> CodeTry \<Rightarrow> 'z LoginWorld_scheme \<Rightarrow> (app_error + unit) \<times> 'z LoginWorld_scheme" where
  "code_try env email user (LoginTry cx fr code ip ua) w =
     (case email_login env cx fr email code ip ua w of (Inl e, w') \<Rightarrow> (Inl e, w') | (Inr _, w') \<Rightarrow> (Inr (), w'))"
| "code_try env email user (StepUpTry cx code) w = verifyCodeForStepUp env cx (us_public_id user) code w"

text \<open>Tries one after the other that are all refused, and the state they leave.\<close>

fun refused_tries :: "LoginEnv \<Rightarrow> string \<Rightarrow> UserRow \<Rightarrow> CodeTry list \<Rightarrow> 'z LoginWorld_scheme \<Rightarrow> 'z LoginWorld_scheme option" where
  "refused_tries env email user [] w = Some w"
| "refused_tries env email user (q # qs) w =
     (case code_try env email user q w of (Inl e, w') \<Rightarrow> refused_tries env email user qs w' | (Inr _, w') \<Rightarrow> None)"

text \<open>A step-up with a code is open only to a user with neither MFA nor a password.\<close>

fun takes_code :: "UserRow \<Rightarrow> CodeTry \<Rightarrow> bool" where
  "takes_code user (LoginTry _ _ _ _ _) = True"
| "takes_code user (StepUpTry _ _) = (\<not> us_is_mfa_enabled user \<and> us_password_hash user \<in> {None, Some []})"

definition knows_user :: "string \<Rightarrow> UserRow \<Rightarrow> 'z LoginWorld_scheme \<Rightarrow> bool" where
  "knows_user email user w \<longleftrightarrow> findByEmail (js_lower (js_trim email)) (aw_users w) = Some user \<and>
     requireUserRecordByPublicId (us_public_id user) (aw_users w) = Inr user"

text \<open>The counter stands at \<open>c\<close>, until the end of the window at least.\<close>

definition counter_is :: "nat \<Rightarrow> nat \<Rightarrow> millis \<Rightarrow> 'z LoginWorld_scheme \<Rightarrow> bool" where
  "counter_is userId c till w \<longleftrightarrow> (if c = 0 then lw_code_attempts w (attempt_key userId) = None
     else \<exists>e. lw_code_attempts w (attempt_key userId) = Some (int c, Some e) \<and> till \<le> e)"

lemma charge_counter:
  assumes "counter_is userId c till w" and "cx_jsNow cx < till" and "till \<le> cx_jsNow cx + 900000"
  shows "fst (charge_attempt cx userId w) = int (Suc c)" and "counter_is userId (Suc c) till (snd (charge_attempt cx userId w))"
  using assms
  by (auto simp: counter_is_def charge_attempt_def Let_def incrementWithExpiryOnFirst_def redis_get_def redis_set_ex_def
      VERIFICATION_CODE_TTL_MINUTES_def split: if_splits)

lemma counter_is_frame: "lw_code_attempts w' = lw_code_attempts w \<Longrightarrow> counter_is userId c till w' = counter_is userId c till w"
  by (simp add: counter_is_def)

text \<open>What a try does beyond the counter: one that is refused leaves the users and counts, and one that comes after five
  is refused without a look at the codes.\<close>

lemma refused_try:
  assumes "knows_user email user w" and "cx_redis (ct_cx q)" and "code_try env email user q w = (Inl e, w')"
  shows "aw_users w' = aw_users w"
    and "lw_code_attempts w' = lw_code_attempts (if takes_code user q then snd (charge_attempt (ct_cx q) (us_id user) w) else w)"
proof -
  obtain n w1 where ch: "charge_attempt (ct_cx q) (us_id user) w = (n, w1)" by fastforce
  have u: "aw_users w1 = aw_users w" using charge_frame(2) [of "ct_cx q" "us_id user" w] ch by simp
  have "aw_users w' = aw_users w \<and>
      lw_code_attempts w' = lw_code_attempts (if takes_code user q then snd (charge_attempt (ct_cx q) (us_id user) w) else w)"
  proof (cases q)
    case (LoginTry cx fr code ip ua)
    obtain res w2 where run: "redeem_code env cx fr user code ip ua w1 = (res, w2)" by fastforce
    show ?thesis using assms LoginTry ch u redeem_cases [OF run]
      by (auto simp: knows_user_def email_login_def run Let_def split: if_splits sum.splits prod.splits)
  next
    case (StepUpTry cx code)
    then show ?thesis using assms ch u
      by (auto simp: knows_user_def verifyCodeForStepUp_def Let_def split: if_splits prod.splits option.splits)
  qed
  then show "aw_users w' = aw_users w"
    and "lw_code_attempts w' = lw_code_attempts (if takes_code user q then snd (charge_attempt (ct_cx q) (us_id user) w) else w)" by blast+
qed

lemma try_beyond_cap:
  assumes "knows_user email user w" and "cx_redis (ct_cx q)" and "fst (charge_attempt (ct_cx q) (us_id user) w) > 5"
  shows "\<exists>e. code_try env email user q w =
      (Inl e, if takes_code user q then snd (charge_attempt (ct_cx q) (us_id user) w) else w) \<and>
    (takes_code user q \<longrightarrow> e = UnauthorizedError ''errors:invalidOrExpiredVerificationCode'')"
proof -
  obtain n w1 where ch: "charge_attempt (ct_cx q) (us_id user) w = (n, w1)" by fastforce
  show ?thesis
  proof (cases q)
    case (LoginTry cx fr code ip ua)
    then show ?thesis using assms ch
      by (simp add: knows_user_def email_login_def Let_def VERIFICATION_CODE_MAX_VERIFY_ATTEMPTS_def)
  next
    case (StepUpTry cx code)
    then show ?thesis using assms ch
      by (auto simp: knows_user_def verifyCodeForStepUp_def Let_def VERIFICATION_CODE_MAX_VERIFY_ATTEMPTS_def)
  qed
qed

lemma refused_tries_count:
  assumes "counter_is (us_id user) c till w" and "knows_user email user w"
    and "\<forall>q \<in> set qs. cx_redis (ct_cx q) \<and> cx_jsNow (ct_cx q) < till \<and> till \<le> cx_jsNow (ct_cx q) + 900000"
    and "refused_tries env email user qs w = Some w'"
  shows "knows_user email user w' \<and> counter_is (us_id user) (c + length (filter (takes_code user) qs)) till w'"
  using assms
proof (induction qs arbitrary: c w)
  case (Cons q qs)
  obtain e w1 where run: "code_try env email user q w = (Inl e, w1)" and rest: "refused_tries env email user qs w1 = Some w'"
    using Cons.prems(4) by (auto split: prod.splits sum.splits)
  have q: "cx_redis (ct_cx q)" "cx_jsNow (ct_cx q) < till" "till \<le> cx_jsNow (ct_cx q) + 900000" using Cons.prems(3) by simp_all
  note fr = refused_try [OF Cons.prems(2) q(1) run]
  have k: "knows_user email user w1" using Cons.prems(2) fr(1) by (simp add: knows_user_def)
  have "counter_is (us_id user) (c + (if takes_code user q then 1 else 0)) till w1"
    using charge_counter(2) [OF Cons.prems(1) q(2,3)] Cons.prems(1) by (simp add: counter_is_frame [OF fr(2)])
  from Cons.IH [OF this k _ rest] show ?case using Cons.prems(3) by (cases "takes_code user q") simp_all
qed simp

text \<open>C35 An email code gives five guesses.  After a code was issued (with Redis up, so that the attempt counter is
  cleared), take any sequence of tries at it within its fifteen minutes, as logins or as step-ups, whatever codes
  they carry and wherever they come from, that were all refused.  When five of them were of a kind that takes the
  code, every further try in that time is refused too, with the invalid-code error where the code is taken, even
  with the right code: it neither consumes the code nor opens a session, and only the counter moves.\<close>

theorem email_code_guesses_bounded:
  assumes "issueVerificationCode env cx0 fr0 user w0 = (Inr code, w)" and "cx_redis cx0" and "knows_user email user w"
    and "\<forall>q \<in> set (qs @ [q']). cx_redis (ct_cx q) \<and> cx_jsNow cx0 \<le> cx_jsNow (ct_cx q) \<and> cx_jsNow (ct_cx q) < cx_jsNow cx0 + 15 * 60000"
    and "refused_tries env email user qs w = Some w'" and "5 \<le> length (filter (takes_code user) qs)"
  shows "\<exists>e. fst (code_try env email user q' w') = Inl e \<and>
    (takes_code user q' \<longrightarrow> e = UnauthorizedError ''errors:invalidOrExpiredVerificationCode'') \<and>
    lw_tokens (snd (code_try env email user q' w')) = lw_tokens w' \<and> aw_sessions (snd (code_try env email user q' w')) = aw_sessions w' \<and>
    lw_mfa_sessions (snd (code_try env email user q' w')) = lw_mfa_sessions w'"
proof -
  let ?till = "cx_jsNow cx0 + 900000"
  have start: "counter_is (us_id user) 0 ?till w"
    using assms(1,2) by (auto simp: issueVerificationCode_def Let_def counter_is_def clearVerifyAttemptCounter_def redis_del_def
        split: option.splits if_splits prod.splits)
  have "\<forall>q \<in> set qs. cx_redis (ct_cx q) \<and> cx_jsNow (ct_cx q) < ?till \<and> ?till \<le> cx_jsNow (ct_cx q) + 900000"
    using assms(4) by auto
  from refused_tries_count [OF start assms(3) this assms(5)]
  have w': "knows_user email user w'" "counter_is (us_id user) (length (filter (takes_code user) qs)) ?till w'" by simp_all
  have q': "cx_redis (ct_cx q')" "cx_jsNow (ct_cx q') < ?till" "?till \<le> cx_jsNow (ct_cx q') + 900000" using assms(4) by auto
  have "fst (charge_attempt (ct_cx q') (us_id user) w') > 5" using charge_counter(1) [OF w'(2) q'(2,3)] assms(6) by simp
  from try_beyond_cap [OF w'(1) q'(1) this, of env] show ?thesis by (auto simp: charge_attempt_def Let_def split: prod.splits)
qed

section \<open>Passwords and the lockout\<close>

lemma findByEmail_live:
  assumes "findByEmail email t = Some u"
  shows "u \<in> set t" and "us_deleted_at u = None"
  using select_first_Some_iff [OF assms [unfolded findByEmail_def]] by auto

lemma live_user_write:
  assumes "user_keys_ok t" and "u \<in> set t" and "us_deleted_at u = None"
    and "\<And>r. us_public_id (f r) = us_public_id r" and "\<And>r. us_deleted_at (f r) = us_deleted_at r" and "\<And>r. us_id (f r) = us_id r"
  shows "f u \<in> set (snd (update_row (live_user (us_public_id u)) f t))"
    and "user_keys_ok (snd (update_row (live_user (us_public_id u)) f t))"
  using assms by (auto simp: user_keys_ok_def update_where_key set_update_where live_user_def image_iff intro!: bexI [of _ u])

lemma require_live_user:
  assumes "user_keys_ok t" and "u \<in> set t" and "us_deleted_at u = None"
  shows "requireUserRecordByPublicId (us_public_id u) t = Inr u"
proof -
  have "findByPublicId (us_public_id u) t = Some u"
    unfolding findByPublicId_def live_user_def
    using assms select_first_key [of us_public_id t u "\<lambda>u. us_deleted_at u = None"] by (simp add: user_keys_ok_def)
  with assms(3) show ?thesis by (simp add: requireUserRecordByPublicId_def)
qed

lemma complete_answers:
  assumes "user_keys_ok (aw_users w)" and "v \<in> set (aw_users w)" and "us_deleted_at v = None"
    and "us_public_id v = us_public_id user" and "cx_redis cx"
  shows "accepted (fst (completeFirstFactorAuth env cx fr ip ua b e user w)) \<and>
    aw_users (snd (completeFirstFactorAuth env cx fr ip ua b e user w)) = aw_users w"
proof -
  have req: "requireUserRecordByPublicId (us_public_id user) (aw_users w) = Inr v"
    using require_live_user [OF assms(1-3)] assms(4) by simp
  have create: "createSessionForUser sha cx fs (us_public_id user) d w' = (Inr x, w'')
      \<Longrightarrow> aw_users w'' = aw_users w'" for sha fs d w' w'' x
    by (auto simp: createSessionForUser_def Let_def split: sum.splits prod.splits)
  have ok: "\<exists>p w''. createSessionForUser sha cx fs (us_public_id user) d w' = (Inr p, w'')" if "aw_users w' = aw_users w" for sha fs d w'
    using req that by (auto simp: createSessionForUser_def Let_def split: prod.splits)
  let ?heal = "le_defaultOrg env (us_id user) = None \<and> b \<and> le_personalEnabled env"
  let ?w1 = "if ?heal then provision (us_id user) w else w"
  let ?jwt = "le_sign env (lf_jti fr) (us_public_id user) (le_role env (us_email user) (us_status user) e)
    (if ?heal then le_ensuredOrg env (us_id user) else le_defaultOrg env (us_id user))"
  let ?d = "\<lparr>sc_token_hash = le_sha256hex env ?jwt, sc_ip_address = ip, sc_user_agent = ua,
    sc_expires_at = cx_jsNow cx + le_sessionMaxAgeDays env * 86400000\<rparr>"
  have users: "aw_users ?w1 = aw_users w" by simp
  obtain p w'' where c: "createSessionForUser (le_sha256hex env) cx (lf_session fr) (us_public_id user) ?d ?w1 = (Inr p, w'')"
    using ok [OF users] by blast
  have "aw_users w'' = aw_users w" using create [OF c] users by simp
  then show ?thesis
    using assms(5) unfolding completeFirstFactorAuth_def Let_def c by (auto split: prod.splits)
qed

text \<open>The owner is never locked out: with the right password, an active account and an address under
  its failure budget, login answers (with a session or an MFA challenge) whether or not the account
  is in its lockout window, and afterwards the account is out of it with no failures counted.\<close>

theorem right_password_never_locked_out:
  assumes "findByEmail email (aw_users w) = Some u" and "user_keys_ok (aw_users w)"
    and "us_password_hash u = Some h" and "h \<noteq> []" and "fst (le_verifyPassword env password h)"
    and "us_status u = ''ACTIVE''" and "\<not> le_disposable env email" and "checkIpLoginLimit env cx ip w = None" and "cx_redis cx"
    and "us_failed_login_count u \<ge> 0"
  shows "accepted (fst (login env cx fr email password ip ua w)) \<and>
    (\<exists>u' \<in> set (aw_users (snd (login env cx fr email password ip ua w))). us_public_id u' = us_public_id u \<and>
       us_failed_login_count u' = 0 \<and> (\<forall>t. us_account_locked_until u' = Some t \<longrightarrow> t \<le> cx_jsNow cx))"
proof -
  note live = findByEmail_live [OF assms(1)]
  obtain valid rehash where vp: "le_verifyPassword env password h = (valid, rehash)" by fastforce
  let ?locked = "case us_account_locked_until u of None \<Rightarrow> False | Some t \<Rightarrow> t > cx_jsNow cx"
  let ?reset = "\<lambda>u. u\<lparr>us_failed_login_count := 0, us_account_locked_until := None, us_updated_at := cx_now cx\<rparr>"
  let ?pw = "\<lambda>u. u\<lparr>us_password_hash := Some (le_hashPassword env password), us_last_password_change_at := Some (cx_jsNow cx), us_updated_at := cx_now cx\<rparr>"
  define u1 where "u1 = (if us_failed_login_count u > 0 \<or> ?locked then ?reset u else u)"
  define w1 where "w1 = (if us_failed_login_count u > 0 \<or> ?locked
    then user_write (updateLoginAttempt (cx_now cx) (us_public_id u) 0 None) w else w)"
  define u2 where "u2 = (if rehash then ?pw u1 else u1)"
  define w2 where "w2 = (if rehash then user_write (updatePassword (cx_jsNow cx) (cx_now cx) (us_public_id u) (le_hashPassword env password)) w1 else w1)"
  have 1: "u1 \<in> set (aw_users w1)" "user_keys_ok (aw_users w1)" "us_deleted_at u1 = None" "us_public_id u1 = us_public_id u"
    using live_user_write [OF assms(2) live, of ?reset] live assms(2) unfolding w1_def u1_def user_write_frame updateLoginAttempt_def
    by (simp_all del: snd_update_row)
  have 2: "u2 \<in> set (aw_users w2)" "user_keys_ok (aw_users w2)" "us_deleted_at u2 = None" "us_public_id u2 = us_public_id u"
    using live_user_write [OF 1(2,1,3), of ?pw] 1 unfolding w2_def u2_def user_write_frame updatePassword_def
    by (simp_all del: snd_update_row)
  have run: "login env cx fr email password ip ua w = completeFirstFactorAuth env cx fr ip ua True (us_is_email_verified u) u w2"
    using assms(1,3-8) live(2) vp
    by (simp add: login_def assertUserAccountActive_def ACTIVE_USER_STATUS_def w1_def w2_def Let_def)
  have "us_failed_login_count u2 = 0 \<and> (\<forall>t. us_account_locked_until u2 = Some t \<longrightarrow> t \<le> cx_jsNow cx)"
    using assms(10) by (auto simp: u2_def u1_def split: option.splits)
  with complete_answers [OF 2(2,1,3,4) assms(9)] 2(1,4) show ?thesis by (auto simp: run)
qed

text \<open>A wrong password never signs in: the answer is the uniform error, no session is added, the
  account's failure count goes up by one, and from the tenth failure on each one locks the account
  for thirty minutes; the address is charged as well.\<close>

theorem wrong_password_counts_and_locks:
  assumes "findByEmail email (aw_users w) = Some u" and "user_keys_ok (aw_users w)"
    and "us_password_hash u = Some h" and "h \<noteq> []" and "\<not> fst (le_verifyPassword env password h)"
    and "\<not> le_disposable env email" and "checkIpLoginLimit env cx ip w = None"
  shows "fst (login env cx fr email password ip ua w) = Inl (UnauthorizedError ''errors:invalidEmailOrPassword'') \<and>
    aw_sessions (snd (login env cx fr email password ip ua w)) = aw_sessions w \<and>
    (\<exists>u' \<in> set (aw_users (snd (login env cx fr email password ip ua w))). us_public_id u' = us_public_id u \<and>
       us_failed_login_count u' = us_failed_login_count u + 1 \<and>
       (us_failed_login_count u + 1 \<ge> 10 \<longrightarrow> us_account_locked_until u' = Some (cx_now cx + 30 * 60000)))"
proof -
  note live = findByEmail_live [OF assms(1)]
  let ?inc = "\<lambda>u. u\<lparr>us_failed_login_count := us_failed_login_count u + 1,
     us_account_locked_until := (if us_failed_login_count u + 1 \<ge> MAX_FAILED_LOGIN_ATTEMPTS
       then Some (cx_now cx + ACCOUNT_LOCKOUT_MINUTES * 60000) else us_account_locked_until u), us_updated_at := cx_now cx\<rparr>"
  have row: "?inc u \<in> set (snd (update_row (live_user (us_public_id u)) ?inc (aw_users w)))"
    using live_user_write(1) [OF assms(2) live, of ?inc] by simp
  obtain valid rehash where vp: "le_verifyPassword env password h = (valid, rehash)" by fastforce
  have run: "login env cx fr email password ip ua w = (Inl (UnauthorizedError ''errors:invalidEmailOrPassword''),
      recordIpFailedLogin env cx ip (user_write (incrementFailedLoginAttempt (cx_now cx) (us_public_id u) MAX_FAILED_LOGIN_ATTEMPTS ACCOUNT_LOCKOUT_MINUTES) w))"
    using assms(1,3-7) vp by (simp add: login_def Let_def)
  show ?thesis
    using row unfolding run incrementFailedLoginAttempt_def
    by (auto simp: MAX_FAILED_LOGIN_ATTEMPTS_def ACCOUNT_LOCKOUT_MINUTES_def simp del: snd_update_row intro!: bexI [of _ "?inc u"])
qed

text \<open>Issuing a code leaves the user exactly one live code, the new one.\<close>

lemma issued_code_is_the_only_live_one:
  assumes "issueVerificationCode env cx fr user w = (Inr code, w')"
  shows "filter (\<lambda>v. vt_user_id v = us_id user \<and> vt_token_type v = EMAIL_CODE \<and> vt_used_at v = None) (lw_tokens w') =
    [\<lparr>vt_id = lf_token_id fr, vt_token_type = EMAIL_CODE, vt_token_hash = hashVerificationCode (le_hmac env) EMAIL_CODE (us_id user) code,
      vt_user_id = us_id user, vt_email = us_email user, vt_expires_at = cx_jsNow cx + 900000, vt_used_at = None\<rparr>]"
  using assms
  by (auto simp: issueVerificationCode_def Let_def token_create_def invalidateAllForUser_def update_where_def filter_empty_conv
      VERIFICATION_CODE_TTL_MINUTES_def split: option.splits if_splits)

section \<open>The hypotheses at a concrete account\<close>

definition demo_login_env :: LoginEnv where
  "demo_login_env = \<lparr>le_sha256hex = id, le_disposable = (\<lambda>_. False), le_verifyPassword = (\<lambda>p h. (p = h, False)),
     le_hashPassword = id, le_hmac = (\<lambda>(_, _, c). c), le_orgRequiresMfa = (\<lambda>_. False), le_defaultOrg = (\<lambda>_. None),
     le_ensuredOrg = (\<lambda>_. None), le_personalEnabled = False, le_role = (\<lambda>_ _ _. ''user''), le_sign = (\<lambda>j _ _ _. j),
     le_sessionMaxAgeDays = 30, le_staticCodeEnabled = False, le_cooldownEnabled = True\<rparr>"

definition demo_fresh :: LoginFresh where
  "demo_fresh = \<lparr>lf_session = \<lparr>fr_id = 2, fr_public_id = ''ses_2'', fr_refresh_secret = ''q''\<rparr>, lf_jti = ''j'', lf_mfa_token = ''m'',
     lf_code = ''ABC234'', lf_token_id = 1, lf_user_id = 9, lf_user_public_id = ''usr_9'', lf_method_id = 9, lf_method_public_id = ''amt_9''\<rparr>"

definition login_world :: "UserRow \<Rightarrow> LoginWorld" where
  "login_world u = \<lparr>aw_users = [u], aw_sessions = [], aw_cache = Map.empty, aw_sentry = [], lw_mfa_sessions = Map.empty,
     lw_ip_failures = Map.empty, lw_tokens = [], lw_code_attempts = Map.empty, lw_cooldowns = Map.empty, lw_code_mails = [],
     lw_methods = [], lw_provisioned = []\<rparr>"

lemma login_world_facts:
  "findByEmail ''a'' (aw_users (login_world (demo_user\<lparr>us_failed_login_count := n, us_account_locked_until := l, us_is_mfa_enabled := b\<rparr>))) =
     Some (demo_user\<lparr>us_failed_login_count := n, us_account_locked_until := l, us_is_mfa_enabled := b\<rparr>)"
  "user_keys_ok (aw_users (login_world u))" "checkIpLoginLimit env cx ip (login_world u) = None"
  "lw_code_attempts (login_world u) key = None"
  by (simp_all add: login_world_def findByEmail_def demo_user_def user_keys_ok_def checkIpLoginLimit_def redis_get_def)

theorem right_password_never_locked_out_witness:
  "accepted (fst (login demo_login_env (ctx_at 5) demo_fresh ''a'' ''p'' ''::1'' None
     (login_world (demo_user\<lparr>us_failed_login_count := 12, us_account_locked_until := Some 999, us_is_mfa_enabled := False\<rparr>))))"
  using right_password_never_locked_out [OF login_world_facts(1) [where n = 12 and l = "Some 999" and b = False] login_world_facts(2), of "''p''" demo_login_env "''p''" "ctx_at 5" "''::1''" demo_fresh None]
    login_world_facts(3)
  by (simp add: demo_user_def demo_login_env_def ctx_at_def)

theorem wrong_password_counts_and_locks_witness:
  "fst (login demo_login_env (ctx_at 5) demo_fresh ''a'' ''wrong'' ''::1'' None
     (login_world (demo_user\<lparr>us_failed_login_count := 9, us_account_locked_until := None, us_is_mfa_enabled := False\<rparr>))) =
   Inl (UnauthorizedError ''errors:invalidEmailOrPassword'')"
  using wrong_password_counts_and_locks [OF login_world_facts(1) [where n = 9 and l = None and b = False] login_world_facts(2), of "''p''" demo_login_env "''wrong''" "ctx_at 5" "''::1''" demo_fresh None]
    login_world_facts(3)
  by (simp add: demo_user_def demo_login_env_def)

theorem second_factor_never_skipped_witness:
  "no_session (fst (login demo_login_env (ctx_at 5) demo_fresh ''a'' ''p'' ''::1'' None
     (login_world (demo_user\<lparr>us_failed_login_count := 0, us_account_locked_until := None, us_is_mfa_enabled := True\<rparr>))))"
proof -
  have "needs_second_factor demo_login_env (demo_user\<lparr>us_failed_login_count := 0, us_account_locked_until := None, us_is_mfa_enabled := True\<rparr>)"
    by (simp add: needs_second_factor_def)
  from conjunct1 [OF second_factor_never_skipped [OF this], rule_format, OF login_world_facts(1)] show ?thesis by blast
qed

text \<open>A code is issued; the right one is accepted at first, and refused after five wrong ones.\<close>

definition demo_issued :: LoginWorld where
  "demo_issued = snd (issueVerificationCode demo_login_env (ctx_at 0) demo_fresh demo_user (login_world demo_user))"

definition demo_try :: "millis \<Rightarrow> string \<Rightarrow> CodeTry" where
  "demo_try t code = LoginTry (ctx_at t) demo_fresh code ''::1'' None"

definition demo_guesses :: "CodeTry list" where
  "demo_guesses = [demo_try 1 ''X'', demo_try 2 ''Y'', demo_try 3 ''Z'', demo_try 4 ''V'', demo_try 5 ''W'']"

lemma demo_issue_facts:
  "fst (issueVerificationCode demo_login_env (ctx_at 0) demo_fresh demo_user (login_world demo_user)) = Inr ''ABC234''"
  "findByEmail (js_lower (js_trim '' A '')) (aw_users demo_issued) = Some demo_user"
  "requireUserRecordByPublicId (us_public_id demo_user) (aw_users demo_issued) = Inr demo_user"
  "fst (code_try demo_login_env '' A '' demo_user (demo_try 1 ''ABC234'') demo_issued) = Inr ()"
  "refused_tries demo_login_env '' A '' demo_user demo_guesses demo_issued \<noteq> None"
  by code_simp+

theorem email_code_guesses_bounded_witness:
  "\<exists>w'. refused_tries demo_login_env '' A '' demo_user demo_guesses demo_issued = Some w' \<and>
     fst (code_try demo_login_env '' A '' demo_user (demo_try 1 ''ABC234'') demo_issued) = Inr () \<and>
     fst (code_try demo_login_env '' A '' demo_user (demo_try 6 ''ABC234'') w') =
       Inl (UnauthorizedError ''errors:invalidOrExpiredVerificationCode'')"
proof -
  obtain w' where w': "refused_tries demo_login_env '' A '' demo_user demo_guesses demo_issued = Some w'"
    using demo_issue_facts(5) by blast
  have run: "issueVerificationCode demo_login_env (ctx_at 0) demo_fresh demo_user (login_world demo_user) = (Inr ''ABC234'', demo_issued)"
    using demo_issue_facts(1) by (simp add: demo_issued_def prod_eq_iff)
  have known: "knows_user '' A '' demo_user demo_issued" using demo_issue_facts(2,3) by (simp add: knows_user_def)
  have "fst (code_try demo_login_env '' A '' demo_user (demo_try 6 ''ABC234'') w') =
      Inl (UnauthorizedError ''errors:invalidOrExpiredVerificationCode'')"
    using email_code_guesses_bounded [OF run _ known _ w', of "demo_try 6 ''ABC234''"]
    by (auto simp: ctx_at_def demo_guesses_def demo_try_def)
  with w' demo_issue_facts(4) show ?thesis by blast
qed

end
