(* ===== verification/Credentials.thy ===== *)
theory Credentials
  imports Login
begin

text \<open>
  Managing credentials: \<^verbatim>\<open>src/src/domains/auth/sub-domains/auth-method/auth-method.service.ts\<close> (linking and removing methods,
  password reset and change, step-up) and \<^verbatim>\<open>auth-mfa/auth-mfa.service.ts\<close> (enrolment, verification, recovery codes).  The TOTP
  check of the library and the field encryption are arguments.  Redis calls of these services are not guarded: with Redis
  down they throw.  A transaction that throws leaves the tables as they were.
\<close>

record CredentialWorld = LoginWorld +
  cw_recovery :: "RecoveryCodeRow tbl"
  cw_passkeys :: "PasskeyRow tbl"
  cw_totp_used :: "unit redis"
  cw_mfa_failures :: "int redis"
  cw_enroll :: "string redis"                      \<comment> \<open>staged secrets, encrypted\<close>
  cw_reset_mails :: "(string \<times> string) list"       \<comment> \<open>address and reset token handed to the mail outbox\<close>

record CredentialEnv =
  ce_encrypt :: "string \<Rightarrow> string"
  ce_decrypt :: "string \<Rightarrow> string"
  ce_totp :: "string \<Rightarrow> string \<Rightarrow> millis \<Rightarrow> bool"      \<comment> \<open>\<^verbatim>\<open>otplib.verify\<close>: secret, code, instant, tolerance of the source\<close>

section \<open>Auth methods\<close>

definition service_list :: "string \<Rightarrow> 'z CredentialWorld_scheme \<Rightarrow> app_error + AuthMethodRow list" where
  "service_list userPublicId w = map_sum id (\<lambda>u. listByUserId (us_id u) (lw_methods w)) (requireUserRecordByPublicId userPublicId (aw_users w))"

definition hasLoginCapableMethod :: "string \<Rightarrow> 'z CredentialWorld_scheme \<Rightarrow> app_error + bool" where
  "hasLoginCapableMethod userPublicId w =
     map_sum id (list_ex (\<lambda>m. am_method_type m \<in> set LOGIN_CAPABLE_METHOD_TYPES)) (service_list userPublicId w)"

definition hasActiveLoginCredential :: "string \<Rightarrow> 'z CredentialWorld_scheme \<Rightarrow> app_error + bool" where
  "hasActiveLoginCredential userPublicId w = (case requireUserRecordByPublicId userPublicId (aw_users w) of
       Inl e \<Rightarrow> Inl e
     | Inr u \<Rightarrow> Inr (list_ex (\<lambda>m. am_method_type m \<in> set LOGIN_CAPABLE_METHOD_TYPES) (listByUserId (us_id u) (lw_methods w)) \<or>
         listActiveByUserId (us_id u) (cw_passkeys w) \<noteq> []))"

text \<open>The body of \<^verbatim>\<open>create\<close> admits \<^verbatim>\<open>EMAIL_CODE\<close> only; count and insert are under the advisory lock.\<close>

definition service_create :: "Ctx \<Rightarrow> LoginFresh \<Rightarrow> string \<Rightarrow> bool \<Rightarrow> 'z CredentialWorld_scheme \<Rightarrow> (app_error + AuthMethodRow) \<times> 'z CredentialWorld_scheme" where
  "service_create cx fr userPublicId isPrimary w = (case requireUserRecordByPublicId userPublicId (aw_users w) of
       Inl e \<Rightarrow> (Inl e, w)
     | Inr u \<Rightarrow>
         if countActiveByUserId (us_id u) (lw_methods w) \<ge> MAX_LINKED_AUTH_METHODS_PER_USER
         then (Inl (ConflictError ''errors:authMethodMaxReached''), w)
         else case method_create (lf_method_id fr) (lf_method_public_id fr) (cx_now cx)
             \<lparr>ad_user_id = us_id u, ad_method_type = ''EMAIL_CODE'', ad_provider = None, ad_provider_user_id = None,
              ad_encrypted_secret = None, ad_is_primary = isPrimary\<rparr> (lw_methods w) of
           None \<Rightarrow> (Inl (InternalError ''sql''), w)
         | Some (row, t) \<Rightarrow> (Inr row, w\<lparr>lw_methods := t\<rparr>))"

text \<open>\<open>snapshot\<close> is what the guarded \<^verbatim>\<open>UPDATE\<close> reads; a deletion that nothing overlaps reads its own table.\<close>

definition delete_on :: "AuthMethodRow tbl \<Rightarrow> Ctx \<Rightarrow> UserRow \<Rightarrow> AuthMethodRow \<Rightarrow> 'z CredentialWorld_scheme \<Rightarrow> (app_error + unit) \<times> 'z CredentialWorld_scheme" where
  "delete_on snapshot cx u existing w =
     (case revokeUnlessLastLoginCapable snapshot (cx_jsNow cx) (am_id existing) (us_id u) (lw_methods w) of
        (None, _) \<Rightarrow> (Inl (if am_method_type existing \<in> set LOGIN_CAPABLE_METHOD_TYPES
            then ForbiddenError ''errors:cannotRemoveLastAuthMethod'' else NotFoundError ''Auth method''), w)
      | (Some _, t) \<Rightarrow>
          (Inr (), (if am_method_type existing = ''PASSWORD''
             then user_write (clearPasswordHash (cx_jsNow cx) (cx_now cx) (us_public_id u)) else id) (w\<lparr>lw_methods := t\<rparr>)))"

definition service_delete :: "Ctx \<Rightarrow> string \<Rightarrow> string \<Rightarrow> 'z CredentialWorld_scheme \<Rightarrow> (app_error + unit) \<times> 'z CredentialWorld_scheme" where
  "service_delete cx userPublicId methodPublicId w = (case requireUserRecordByPublicId userPublicId (aw_users w) of
       Inl e \<Rightarrow> (Inl e, w)
     | Inr u \<Rightarrow> (case method_findByPublicIdForUser methodPublicId (us_id u) (lw_methods w) of
         None \<Rightarrow> (Inl (NotFoundError ''Auth method''), w)
       | Some existing \<Rightarrow> delete_on (lw_methods w) cx u existing w))"

definition revokeAllForUser :: "Ctx \<Rightarrow> string \<Rightarrow> 'z LoginWorld_scheme \<Rightarrow> (app_error + unit) \<times> 'z LoginWorld_scheme" where
  "revokeAllForUser cx userPublicId w = (case requireUserRecordByPublicId userPublicId (aw_users w) of
       Inl e \<Rightarrow> (Inl e, w)
     | Inr u \<Rightarrow> (Inr (), w\<lparr>lw_methods := method_revokeAllByUserId (cx_jsNow cx) (us_id u) (lw_methods w)\<rparr>))"

definition invalidateAllVerificationTokensForUser :: "Ctx \<Rightarrow> string \<Rightarrow> 'z LoginWorld_scheme \<Rightarrow> (app_error + unit) \<times> 'z LoginWorld_scheme" where
  "invalidateAllVerificationTokensForUser cx userPublicId w = (case requireUserRecordByPublicId userPublicId (aw_users w) of
       Inl e \<Rightarrow> (Inl e, w)
     | Inr u \<Rightarrow> (Inr (), w\<lparr>lw_tokens := invalidateAllByUser (us_id u) (cx_jsNow cx) (lw_tokens w)\<rparr>))"

definition linkOAuthProviderIfMissing :: "Ctx \<Rightarrow> LoginFresh \<Rightarrow> nat \<Rightarrow> string \<Rightarrow> string \<Rightarrow> 'z LoginWorld_scheme \<Rightarrow> (app_error + unit) \<times> 'z LoginWorld_scheme" where
  "linkOAuthProviderIfMissing cx fr userId provider providerUserId w =
     (if provider = '''' \<or> providerUserId = '''' then (Inr (), w)
      else case findByProviderUserId provider providerUserId (aw_users w) (lw_methods w) of
        Some _ \<Rightarrow> (Inr (), w)
      | None \<Rightarrow> (case method_create (lf_method_id fr) (lf_method_public_id fr) (cx_now cx)
            \<lparr>ad_user_id = userId, ad_method_type = ''OAUTH'', ad_provider = Some provider, ad_provider_user_id = Some providerUserId,
             ad_encrypted_secret = None, ad_is_primary = False\<rparr> (lw_methods w) of
          None \<Rightarrow> (Inl (InternalError ''sql''), w) | Some (_, t) \<Rightarrow> (Inr (), w\<lparr>lw_methods := t\<rparr>)))"

section \<open>Passwords\<close>

definition PASSWORD_RESET_EXPIRES_IN_MINUTES :: int where "PASSWORD_RESET_EXPIRES_IN_MINUTES = 60"
definition PASSWORD_RESET_COOLDOWN_KEY_PREFIX :: string where "PASSWORD_RESET_COOLDOWN_KEY_PREFIX = ''auth:password_reset_cooldown:''"

definition issuePasswordResetIfUserExists ::
    "LoginEnv \<Rightarrow> Ctx \<Rightarrow> nat \<Rightarrow> string \<Rightarrow> string \<Rightarrow> 'z CredentialWorld_scheme \<Rightarrow> (app_error + unit) \<times> 'z CredentialWorld_scheme" where
  "issuePasswordResetIfUserExists env cx tokenId rawToken email w = (case findByEmail email (aw_users w) of
       None \<Rightarrow> (Inr (), w)
     | Some user \<Rightarrow> (case token_create tokenId PASSWORD_RESET (us_id user) (us_email user) (le_sha256hex env rawToken)
           (cx_jsNow cx + PASSWORD_RESET_EXPIRES_IN_MINUTES * 60000)
           (invalidateAllForUser (us_id user) PASSWORD_RESET (cx_jsNow cx) (lw_tokens w)) of
         None \<Rightarrow> (Inl (InternalError ''unique_violation''), w)
       | Some tokens \<Rightarrow> (Inr (), w\<lparr>lw_tokens := tokens, cw_reset_mails := cw_reset_mails w @ [(us_email user, rawToken)]\<rparr>)))"

definition forgotPassword :: "LoginEnv \<Rightarrow> Ctx \<Rightarrow> nat \<Rightarrow> string \<Rightarrow> string \<Rightarrow> 'z CredentialWorld_scheme \<Rightarrow> (app_error + unit) \<times> 'z CredentialWorld_scheme" where
  "forgotPassword env cx tokenId rawToken email w =
     (if le_disposable env email then (Inl (ValidationError ''errors:disposableEmail''), w)
      else if \<not> cx_redis cx then (Inl (InternalError ''redis''), w)
      else let (claimed, r) = redis_set_ex_nx (cx_jsNow cx) (PASSWORD_RESET_COOLDOWN_KEY_PREFIX @ le_sha256hex env email) ()
                 VERIFICATION_CODE_RESEND_COOLDOWN_SECONDS (lw_cooldowns w);
               w1 = w\<lparr>lw_cooldowns := r\<rparr>
           in if claimed then issuePasswordResetIfUserExists env cx tokenId rawToken email w1 else (Inr (), w1))"

definition method_resetPassword :: "LoginEnv \<Rightarrow> Ctx \<Rightarrow> string \<Rightarrow> string \<Rightarrow> 'z LoginWorld_scheme \<Rightarrow> (app_error + UserRow) \<times> 'z LoginWorld_scheme" where
  "method_resetPassword env cx token password w =
     (case consumeIfValid (le_sha256hex env token) PASSWORD_RESET (cx_jsNow cx) (lw_tokens w) of
        (None, _) \<Rightarrow> (Inl (UnauthorizedError ''errors:invalidOrExpiredResetToken''), w)
      | (Some record, tokens) \<Rightarrow> (case findById (vt_user_id record) (aw_users w) of
          None \<Rightarrow> (Inl (NotFoundError ''User''), w)
        | Some user \<Rightarrow>
            (let w1 = user_write (updatePassword (cx_jsNow cx) (cx_now cx) (us_public_id user) (le_hashPassword env password)) (w\<lparr>lw_tokens := tokens\<rparr>);
                 w2 = user_write (updateEmailVerified (cx_now cx) (us_public_id user)) w1;
                 (recovered, users) = updateLoginAttempt (cx_now cx) (us_public_id user) 0 None (aw_users w2);
                 w3 = w2\<lparr>aw_users := users, lw_tokens := invalidateAllForUser (us_id user) PASSWORD_RESET (cx_jsNow cx) (lw_tokens w2)\<rparr>
             in case revokeAllSessions cx (us_public_id user) w3 of
                  (Inl e, w4) \<Rightarrow> (Inl e, w\<lparr>aw_cache := aw_cache w4\<rparr>)
                | (Inr _, w4) \<Rightarrow> (Inr (case recovered of Some u \<Rightarrow> u | None \<Rightarrow> user), w4))))"

definition resetPassword ::
    "LoginEnv \<Rightarrow> Ctx \<Rightarrow> LoginFresh \<Rightarrow> string \<Rightarrow> string \<Rightarrow> string \<Rightarrow> string option \<Rightarrow> 'z LoginWorld_scheme \<Rightarrow>
     (app_error + LoginResult) \<times> 'z LoginWorld_scheme" where
  "resetPassword env cx fr token password ipAddress userAgent w = (case method_resetPassword env cx token password w of
       (Inl e, w1) \<Rightarrow> (Inl e, w1)
     | (Inr user, w1) \<Rightarrow> (case assertUserAccountActive (us_status user) (us_deleted_at user) of
         Some e \<Rightarrow> (Inl e, w1)
       | None \<Rightarrow> completeFirstFactorAuth env cx fr ipAddress userAgent True (us_is_email_verified user) user w1))"

definition changePassword ::
    "LoginEnv \<Rightarrow> Ctx \<Rightarrow> string \<Rightarrow> string \<Rightarrow> string \<Rightarrow> string option \<Rightarrow> 'z LoginWorld_scheme \<Rightarrow> (app_error + unit) \<times> 'z LoginWorld_scheme" where
  "changePassword env cx userPublicId currentPassword newPassword currentAccessToken w =
     (case requireUserRecordByPublicId userPublicId (aw_users w) of
        Inl e \<Rightarrow> (Inl e, w)
      | Inr user \<Rightarrow>
          if us_password_hash user = None \<or> us_password_hash user = Some '''' then (Inl (UnauthorizedError ''errors:passwordAuthNotEnabled''), w)
          else if \<not> fst (le_verifyPassword env currentPassword (the (us_password_hash user)))
          then (Inl (UnauthorizedError ''errors:currentPasswordIncorrect''), w)
          else (case updatePassword (cx_jsNow cx) (cx_now cx) (us_public_id user) (le_hashPassword env newPassword) (aw_users w) of
              (None, _) \<Rightarrow> (Inl (NotFoundError ''User''), w)
            | (Some _, users) \<Rightarrow>
                (let w1 = w\<lparr>aw_users := users\<rparr>
                 in case (case currentAccessToken of
                       Some token \<Rightarrow> if token = '''' then revokeAllSessions cx (us_public_id user) w1
                         else revokeAllSessionsExceptCurrent (le_sha256hex env) cx (us_public_id user) token w1
                     | None \<Rightarrow> revokeAllSessions cx (us_public_id user) w1) of
                   (Inl e, w2) \<Rightarrow> (Inl e, w\<lparr>aw_cache := aw_cache w2\<rparr>) | (Inr _, w2) \<Rightarrow> (Inr (), w2))))"

definition verifyPasswordForStepUp :: "LoginEnv \<Rightarrow> string \<Rightarrow> string \<Rightarrow> 'z LoginWorld_scheme \<Rightarrow> app_error option" where
  "verifyPasswordForStepUp env userPublicId password w = (case requireUserRecordByPublicId userPublicId (aw_users w) of
       Inl e \<Rightarrow> Some e
     | Inr user \<Rightarrow>
         if us_is_mfa_enabled user then Some (ForbiddenError ''errors:mfaStepUpRequired'')
         else if us_password_hash user = None \<or> us_password_hash user = Some '''' then Some (UnauthorizedError ''errors:passwordAuthNotEnabled'')
         else if \<not> fst (le_verifyPassword env password (the (us_password_hash user)))
         then Some (UnauthorizedError ''errors:currentPasswordIncorrect'') else None)"

section \<open>TOTP and recovery codes\<close>

definition MAX_MFA_VERIFICATION_ATTEMPTS :: int where "MAX_MFA_VERIFICATION_ATTEMPTS = 10"
definition MFA_VERIFICATION_LOCKOUT_TTL_SECONDS :: int where "MFA_VERIFICATION_LOCKOUT_TTL_SECONDS = 900"
definition TOTP_STEP_SECONDS :: int where "TOTP_STEP_SECONDS = 30"
definition MFA_TOTP_TOLERANCE_STEPS :: int where "MFA_TOTP_TOLERANCE_STEPS = 1"
definition MFA_TOTP_CODE_REPLAY_TTL_SECONDS :: int where
  "MFA_TOTP_CODE_REPLAY_TTL_SECONDS = (MFA_TOTP_TOLERANCE_STEPS + 2) * TOTP_STEP_SECONDS"
definition MFA_TOTP_ENROLLMENT_STAGE_TTL_SECONDS :: int where "MFA_TOTP_ENROLLMENT_STAGE_TTL_SECONDS = 600"
definition MFA_TOTP_CONSUMED_KEY_PREFIX :: string where "MFA_TOTP_CONSUMED_KEY_PREFIX = ''mfa:totp:consumed:''"
definition MFA_VERIFICATION_FAILURE_KEY_PREFIX :: string where "MFA_VERIFICATION_FAILURE_KEY_PREFIX = ''mfa:verify:fail:''"
definition MFA_TOTP_ENROLLMENT_STAGE_KEY_PREFIX :: string where "MFA_TOTP_ENROLLMENT_STAGE_KEY_PREFIX = ''mfa:enroll:''"

definition totp_key :: "LoginEnv \<Rightarrow> nat \<Rightarrow> string \<Rightarrow> string" where
  "totp_key env userId totpCode = MFA_TOTP_CONSUMED_KEY_PREFIX @ dec userId @ '':'' @ le_sha256hex env totpCode"

definition failure_key :: "nat \<Rightarrow> string" where
  "failure_key userId = MFA_VERIFICATION_FAILURE_KEY_PREFIX @ dec userId"

definition mfa_invalid :: app_error where "mfa_invalid = UnauthorizedError ''errors:mfaInvalidOrExpiredCode''"

definition rejectReplayedTotpCode :: "LoginEnv \<Rightarrow> Ctx \<Rightarrow> nat \<Rightarrow> string \<Rightarrow> 'z CredentialWorld_scheme \<Rightarrow> app_error option \<times> 'z CredentialWorld_scheme" where
  "rejectReplayedTotpCode env cx userId totpCode w =
     (let (stored, r) = redis_set_ex_nx (cx_jsNow cx) (totp_key env userId totpCode) () MFA_TOTP_CODE_REPLAY_TTL_SECONDS (cw_totp_used w)
      in (if stored then None else Some mfa_invalid, w\<lparr>cw_totp_used := r\<rparr>))"

definition consumeMfaVerificationAttempt :: "Ctx \<Rightarrow> nat \<Rightarrow> 'z CredentialWorld_scheme \<Rightarrow> app_error option \<times> 'z CredentialWorld_scheme" where
  "consumeMfaVerificationAttempt cx userId w =
     (let (count, r) = incrementWithExpiryOnFirst (cx_jsNow cx) (cw_mfa_failures w) (failure_key userId) MFA_VERIFICATION_LOCKOUT_TTL_SECONDS
      in (if count > MAX_MFA_VERIFICATION_ATTEMPTS then Some mfa_invalid else None, w\<lparr>cw_mfa_failures := r\<rparr>))"

definition clearMfaVerificationFailures :: "nat \<Rightarrow> 'z CredentialWorld_scheme \<Rightarrow> 'z CredentialWorld_scheme" where
  "clearMfaVerificationFailures userId w = w\<lparr>cw_mfa_failures := redis_del (failure_key userId) (cw_mfa_failures w)\<rparr>"

text \<open>The TOTP branch of sign-in: count the attempt, compare the code, refuse a code that was used.\<close>

definition check_login_totp ::
    "LoginEnv \<Rightarrow> CredentialEnv \<Rightarrow> Ctx \<Rightarrow> nat \<Rightarrow> string \<Rightarrow> 'z CredentialWorld_scheme \<Rightarrow> (app_error + AuthMethodRow) \<times> 'z CredentialWorld_scheme" where
  "check_login_totp env cenv cx userId code w = (case consumeMfaVerificationAttempt cx userId w of
       (Some e, w1) \<Rightarrow> (Inl e, w1)
     | (None, w1) \<Rightarrow> (case findTotpByUserId userId (lw_methods w1) of
         None \<Rightarrow> (Inl (UnauthorizedError ''errors:mfaNotEnabled''), w1)
       | Some m \<Rightarrow> (case am_encrypted_secret m of
           None \<Rightarrow> (Inl (UnauthorizedError ''errors:mfaNotEnabled''), w1)
         | Some secret \<Rightarrow>
             if secret = '''' then (Inl (UnauthorizedError ''errors:mfaNotEnabled''), w1)
             else if \<not> ce_totp cenv (ce_decrypt cenv secret) code (cx_jsNow cx) then (Inl mfa_invalid, w1)
             else (case rejectReplayedTotpCode env cx userId code w1 of
                 (Some e, w2) \<Rightarrow> (Inl e, w2) | (None, w2) \<Rightarrow> (Inr m, w2)))))"

text \<open>The check of step-up, which the source writes out a second time.\<close>

definition check_step_up_totp ::
    "LoginEnv \<Rightarrow> CredentialEnv \<Rightarrow> Ctx \<Rightarrow> nat \<Rightarrow> string \<Rightarrow> 'z CredentialWorld_scheme \<Rightarrow> (app_error + AuthMethodRow) \<times> 'z CredentialWorld_scheme" where
  "check_step_up_totp env cenv cx userId code w = (case consumeMfaVerificationAttempt cx userId w of
       (Some e, w1) \<Rightarrow> (Inl e, w1)
     | (None, w1) \<Rightarrow> (case findTotpByUserId userId (lw_methods w1) of
         None \<Rightarrow> (Inl (UnauthorizedError ''errors:mfaNotEnabled''), w1)
       | Some m \<Rightarrow> (case am_encrypted_secret m of
           None \<Rightarrow> (Inl (UnauthorizedError ''errors:mfaNotEnabled''), w1)
         | Some secret \<Rightarrow>
             if secret = '''' then (Inl (UnauthorizedError ''errors:mfaNotEnabled''), w1)
             else if \<not> ce_totp cenv (ce_decrypt cenv secret) code (cx_jsNow cx) then (Inl mfa_invalid, w1)
             else (case rejectReplayedTotpCode env cx userId code w1 of
                 (Some e, w2) \<Rightarrow> (Inl e, w2) | (None, w2) \<Rightarrow> (Inr m, w2)))))"

definition touch_method :: "Ctx \<Rightarrow> AuthMethodRow \<Rightarrow> nat \<Rightarrow> 'z LoginWorld_scheme \<Rightarrow> 'z LoginWorld_scheme" where
  "touch_method cx m userId w = w\<lparr>lw_methods := snd (updateLastUsedAt (cx_jsNow cx) (am_id m) userId (lw_methods w))\<rparr>"

definition issueAccessTokenAndSession ::
    "LoginEnv \<Rightarrow> Ctx \<Rightarrow> LoginFresh \<Rightarrow> UserRow \<Rightarrow> string \<Rightarrow> string option \<Rightarrow> 'z LoginWorld_scheme \<Rightarrow>
     (app_error + LoginResult) \<times> 'z LoginWorld_scheme" where
  "issueAccessTokenAndSession env cx fr user ipAddress userAgent w =
     (let jwt = le_sign env (lf_jti fr) (us_public_id user) (le_role env (us_email user) (us_status user) (us_is_email_verified user))
           (le_defaultOrg env (us_id user))
      in case createSessionForUser (le_sha256hex env) cx (lf_session fr) (us_public_id user)
            \<lparr>sc_token_hash = le_sha256hex env jwt, sc_ip_address = ipAddress, sc_user_agent = userAgent,
             sc_expires_at = cx_jsNow cx + le_sessionMaxAgeDays env * 86400000\<rparr> w of
          (Inl e, w1) \<Rightarrow> (Inl e, w1)
        | (Inr (sessionPublicId, refreshSecret), w1) \<Rightarrow> (Inr (SessionIssued jwt sessionPublicId refreshSecret), w1))"

text \<open>The second factor of a login: a TOTP code when the body has one, else a recovery code.\<close>

definition login_factor ::
    "LoginEnv \<Rightarrow> CredentialEnv \<Rightarrow> Ctx \<Rightarrow> UserRow \<Rightarrow> string option \<Rightarrow> string option \<Rightarrow> 'z CredentialWorld_scheme \<Rightarrow>
     (app_error + string) \<times> 'z CredentialWorld_scheme" where
  "login_factor env cenv cx user totpCode recoveryCode w =
     (case (totpCode, recoveryCode) of
        (Some code, _) \<Rightarrow> (case check_login_totp env cenv cx (us_id user) code w of
            (Inl e, w1) \<Rightarrow> (Inl e, w1) | (Inr m, w1) \<Rightarrow> (Inr ''totp'', touch_method cx m (us_id user) w1))
      | (None, Some code) \<Rightarrow> (case consumeMfaRecoveryCode (le_sha256hex env) (cx_now cx) (us_id user) code (cw_recovery w) of
            (False, t) \<Rightarrow> (Inl (UnauthorizedError ''errors:mfaInvalidOrExpiredRecoveryCode''), w\<lparr>cw_recovery := t\<rparr>)
          | (True, t) \<Rightarrow> (Inr ''recovery_code'', w\<lparr>cw_recovery := t\<rparr>))
      | (None, None) \<Rightarrow> (Inl mfa_invalid, w))"

definition verifyLoginMfa ::
    "LoginEnv \<Rightarrow> CredentialEnv \<Rightarrow> Ctx \<Rightarrow> LoginFresh \<Rightarrow> string \<Rightarrow> string option \<Rightarrow> string option \<Rightarrow> string \<Rightarrow> string option \<Rightarrow>
     'z CredentialWorld_scheme \<Rightarrow> (app_error + LoginResult \<times> string) \<times> 'z CredentialWorld_scheme" where
  "verifyLoginMfa env cenv cx fr mfaSessionToken totpCode recoveryCode ipAddress userAgent w =
     (if \<not> cx_redis cx then (Inl (InternalError ''redis''), w)
      else case verifyMfaSession mfaSessionToken (cx_jsNow cx) (lw_mfa_sessions w) of
        (Inl e, r) \<Rightarrow> (Inl e, w\<lparr>lw_mfa_sessions := r\<rparr>)
      | (Inr userPublicId, r) \<Rightarrow> (let w1 = w\<lparr>lw_mfa_sessions := r\<rparr> in
          case requireUserRecordByPublicId userPublicId (aw_users w1) of
            Inl e \<Rightarrow> (Inl e, w1)
          | Inr user \<Rightarrow> (case assertUserAccountActive (us_status user) (us_deleted_at user) of
              Some e \<Rightarrow> (Inl e, w1)
            | None \<Rightarrow> (case login_factor env cenv cx user totpCode recoveryCode w1 of
                (Inl e, w2) \<Rightarrow> (Inl e, w2)
              | (Inr factor, w2) \<Rightarrow>
                  (case issueAccessTokenAndSession env cx fr user ipAddress userAgent (clearMfaVerificationFailures (us_id user) w2) of
                     (Inl e, w3) \<Rightarrow> (Inl e, w3) | (Inr issued, w3) \<Rightarrow> (Inr (issued, factor), w3))))))"

definition verify ::
    "LoginEnv \<Rightarrow> CredentialEnv \<Rightarrow> Ctx \<Rightarrow> string \<Rightarrow> string \<Rightarrow> 'z CredentialWorld_scheme \<Rightarrow> (app_error + unit) \<times> 'z CredentialWorld_scheme" where
  "verify env cenv cx userPublicId code w = (case requireUserRecordByPublicId userPublicId (aw_users w) of
       Inl e \<Rightarrow> (Inl e, w)
     | Inr user \<Rightarrow>
         if \<not> cx_redis cx then (Inl (InternalError ''redis''), w)
         else case check_step_up_totp env cenv cx (us_id user) code w of
           (Inl e, w1) \<Rightarrow> (Inl e, w1)
         | (Inr m, w1) \<Rightarrow> (Inr (), touch_method cx m (us_id user) (clearMfaVerificationFailures (us_id user) w1)))"

definition stage_key :: "UserRow \<Rightarrow> string" where
  "stage_key user = MFA_TOTP_ENROLLMENT_STAGE_KEY_PREFIX @ us_public_id user"

text \<open>\<open>secret\<close> is the generated one.\<close>

definition enrollInit ::
    "CredentialEnv \<Rightarrow> Ctx \<Rightarrow> string \<Rightarrow> string \<Rightarrow> string \<Rightarrow> 'z CredentialWorld_scheme \<Rightarrow> (app_error + string) \<times> 'z CredentialWorld_scheme" where
  "enrollInit cenv cx secret userPublicId methodType w = (case requireUserRecordByPublicId userPublicId (aw_users w) of
       Inl e \<Rightarrow> (Inl e, w)
     | Inr user \<Rightarrow> (case assertEmailVerifiedForCredentialEnrollment (us_is_email_verified user) of
         Some e \<Rightarrow> (Inl e, w)
       | None \<Rightarrow>
           if methodType \<noteq> ''MFA_TOTP'' then (Inl (UnauthorizedError ''errors:mfaOnlyTotpSupported''), w)
           else if \<not> cx_redis cx then (Inl (InternalError ''redis''), w)
           else (Inr secret, w\<lparr>cw_enroll := redis_set_ex (cx_jsNow cx) (stage_key user) (ce_encrypt cenv secret)
                   MFA_TOTP_ENROLLMENT_STAGE_TTL_SECONDS (cw_enroll w)\<rparr>)))"

fun revoke_each :: "millis \<Rightarrow> nat \<Rightarrow> AuthMethodRow list \<Rightarrow> AuthMethodRow tbl \<Rightarrow> app_error + AuthMethodRow tbl" where
  "revoke_each jsNow userId [] t = Inr t"
| "revoke_each jsNow userId (m # ms) t =
     (if am_method_type m = ''MFA_TOTP'' then (case method_revoke jsNow (am_id m) userId t of
          (None, _) \<Rightarrow> Inl (NotFoundError ''Auth method'') | (Some _, t') \<Rightarrow> revoke_each jsNow userId ms t')
      else revoke_each jsNow userId ms t)"

text \<open>The transaction that replaces the factor; \<open>codes\<close> are the generated recovery codes.\<close>

definition enroll_factor ::
    "LoginEnv \<Rightarrow> CredentialEnv \<Rightarrow> Ctx \<Rightarrow> LoginFresh \<Rightarrow> string list \<Rightarrow> UserRow \<Rightarrow> string \<Rightarrow> 'z CredentialWorld_scheme \<Rightarrow>
     app_error + AuthMethodRow \<times> 'z CredentialWorld_scheme" where
  "enroll_factor env cenv cx fr codes user secret w =
     (case revoke_each (cx_jsNow cx) (us_id user) (listMfaByUserId (us_id user) (lw_methods w)) (lw_methods w) of
        Inl e \<Rightarrow> Inl e
      | Inr t \<Rightarrow> (case method_create (lf_method_id fr) (lf_method_public_id fr) (cx_now cx)
            \<lparr>ad_user_id = us_id user, ad_method_type = ''MFA_TOTP'', ad_provider = None, ad_provider_user_id = None,
             ad_encrypted_secret = Some (ce_encrypt cenv secret), ad_is_primary = False\<rparr> t of
          None \<Rightarrow> Inl (InternalError ''sql'')
        | Some (row, t') \<Rightarrow> Inr (row, user_write (updateMfaEnabled (cx_now cx) (us_public_id user) True)
            (w\<lparr>lw_methods := t', cw_recovery := insertMfaRecoveryCodes (us_id user) (map (hashMfaRecoveryCode (le_sha256hex env)) codes)
                 (invalidateAllUnusedRecoveryCodesForUser (cx_now cx) (us_id user) (cw_recovery w))\<rparr>))))"

definition enrollConfirm ::
    "LoginEnv \<Rightarrow> CredentialEnv \<Rightarrow> Ctx \<Rightarrow> LoginFresh \<Rightarrow> string list \<Rightarrow> string \<Rightarrow> string \<Rightarrow> 'z CredentialWorld_scheme \<Rightarrow>
     (app_error + string list \<times> string) \<times> 'z CredentialWorld_scheme" where
  "enrollConfirm env cenv cx fr codes userPublicId code w = (case requireUserRecordByPublicId userPublicId (aw_users w) of
       Inl e \<Rightarrow> (Inl e, w)
     | Inr user \<Rightarrow>
         if \<not> cx_redis cx then (Inl (InternalError ''redis''), w)
         else let (staged, r) = redis_getdel (cx_jsNow cx) (stage_key user) (cw_enroll w); w1 = w\<lparr>cw_enroll := r\<rparr> in
           if staged = None \<or> staged = Some '''' then (Inl (UnauthorizedError ''errors:mfaEnrollExpired''), w1)
           else let secret = ce_decrypt cenv (the staged) in
             if \<not> ce_totp cenv secret code (cx_jsNow cx) then (Inl mfa_invalid, w1)
             else (case rejectReplayedTotpCode env cx (us_id user) code w1 of
                 (Some e, w2) \<Rightarrow> (Inl e, w2)
               | (None, w2) \<Rightarrow> (case enroll_factor env cenv cx fr codes user secret w2 of
                   Inl e \<Rightarrow> (Inl e, w2) | Inr (row, w3) \<Rightarrow> (Inr (codes, am_public_id row), w3))))"

definition deleteMfa :: "LoginEnv \<Rightarrow> Ctx \<Rightarrow> string \<Rightarrow> string \<Rightarrow> 'z CredentialWorld_scheme \<Rightarrow> (app_error + unit) \<times> 'z CredentialWorld_scheme" where
  "deleteMfa env cx userPublicId mfaMethodPublicId w = (case requireUserRecordByPublicId userPublicId (aw_users w) of
       Inl e \<Rightarrow> (Inl e, w)
     | Inr user \<Rightarrow> (case method_findByPublicIdForUser mfaMethodPublicId (us_id user) (lw_methods w) of
         None \<Rightarrow> (Inl (UnauthorizedError ''errors:mfaMethodNotFound''), w)
       | Some found \<Rightarrow>
           if am_method_type found \<noteq> ''MFA_TOTP'' then (Inl (UnauthorizedError ''errors:mfaNotTotpMethod''), w)
           else if length (listMfaByUserId (us_id user) (lw_methods w)) \<le> 1 \<and> le_orgRequiresMfa env (us_id user)
           then (Inl (ForbiddenError ''errors:lastMfaRequiredByOrganization''), w)
           else (case method_revoke (cx_jsNow cx) (am_id found) (us_id user) (lw_methods w) of
               (None, _) \<Rightarrow> (Inl (NotFoundError ''Auth method''), w)
             | (Some _, t) \<Rightarrow>
                 (let w1 = w\<lparr>lw_methods := t\<rparr> in
                  (Inr (), if listMfaByUserId (us_id user) t = [] then user_write (updateMfaEnabled (cx_now cx) (us_public_id user) False) w1 else w1)))))"

definition listMfaMethods :: "string \<Rightarrow> 'z CredentialWorld_scheme \<Rightarrow> app_error + AuthMethodRow list" where
  "listMfaMethods userPublicId w = map_sum id (\<lambda>u. listMfaByUserId (us_id u) (lw_methods w)) (requireUserRecordByPublicId userPublicId (aw_users w))"

end
