(* ===== verification/Federated_Login.thy ===== *)
theory Federated_Login
  imports Credentials
begin

text \<open>
  Signing in with OAuth and passkeys: \<^verbatim>\<open>src/src/domains/auth/sub-domains/auth-method/oauth\<close> (the two providers, the find-or-link
  transaction) and \<^verbatim>\<open>auth-webauthn/webauthn.service.ts\<close>.  The answers of Google and GitHub and the checks of
  the WebAuthn library are arguments; random tokens too.
\<close>

record FederatedWorld = CredentialWorld +
  fw_challenges :: "WebauthnChallengePayload option redis"
  fw_oauth_states :: "OAuthStatePayload option redis"

section \<open>The providers\<close>

text \<open>An HTTP answer, the failure \<^verbatim>\<open>outboundFetch\<close> wraps, or an error it passes on.\<close>

datatype 'a answer = Answer 'a | Unavailable | Broken

record OAuthProfile =
  op_email :: string
  op_name :: "string option"
  op_avatar_url :: "string option"
  op_provider_user_id :: string

record GoogleUserInfo =
  gi_sub :: "string option"
  gi_email :: "string option"
  gi_email_verified :: "bool option"
  gi_name :: "string option"
  gi_picture :: "string option"

definition falsy :: "string option \<Rightarrow> bool" where
  "falsy s \<longleftrightarrow> s = None \<or> s = Some ''''"

definition exchangeGoogleOAuthCode :: "bool \<Rightarrow> string option answer \<Rightarrow> GoogleUserInfo answer \<Rightarrow> app_error + OAuthProfile" where
  "exchangeGoogleOAuthCode configured token userInfo =
     (if \<not> configured then Inl (NotImplementedError ''errors:googleOAuthNotConfigured'')
      else case token of
        Unavailable \<Rightarrow> Inl (UnauthorizedError ''errors:googleExchangeFailed'')
      | Broken \<Rightarrow> Inl (InternalError ''outbound'')
      | Answer accessToken \<Rightarrow>
          if falsy accessToken then Inl (UnauthorizedError ''errors:googleTokenMissingAccessToken'')
          else case userInfo of
            Unavailable \<Rightarrow> Inl (UnauthorizedError ''errors:googleFetchUserFailed'')
          | Broken \<Rightarrow> Inl (InternalError ''outbound'')
          | Answer u \<Rightarrow>
              if falsy (gi_email u) \<or> falsy (gi_sub u) then Inl (UnauthorizedError ''errors:googleUserMissingEmailOrSub'')
              else if gi_email_verified u \<noteq> Some True then Inl (UnauthorizedError ''errors:googleEmailNotVerified'')
              else Inr \<lparr>op_email = the (gi_email u), op_name = gi_name u, op_avatar_url = gi_picture u, op_provider_user_id = the (gi_sub u)\<rparr>)"

record GitHubUser =
  gh_id :: "nat option"
  gh_name :: "string option"
  gh_avatar_url :: "string option"

record GitHubEmail =
  ge_email :: string
  ge_primary :: bool
  ge_verified :: bool

text \<open>The token answer carries an access token and an error; a failure of the emails call counts as no address.\<close>

definition exchangeGitHubOAuthCode ::
    "bool \<Rightarrow> (string option \<times> string option) answer \<Rightarrow> GitHubUser answer \<Rightarrow> GitHubEmail list answer \<Rightarrow> app_error + OAuthProfile" where
  "exchangeGitHubOAuthCode configured token user emails =
     (if \<not> configured then Inl (NotImplementedError ''errors:githubOAuthNotConfigured'')
      else case token of
        Unavailable \<Rightarrow> Inl (UnauthorizedError ''errors:githubExchangeFailed'')
      | Broken \<Rightarrow> Inl (InternalError ''outbound'')
      | Answer (accessToken, error) \<Rightarrow>
          if \<not> falsy error \<or> falsy accessToken then Inl (UnauthorizedError ''errors:githubTokenMissing'')
          else case user of
            Unavailable \<Rightarrow> Inl (UnauthorizedError ''errors:githubFetchUserFailed'')
          | Broken \<Rightarrow> Inl (InternalError ''outbound'')
          | Answer u \<Rightarrow>
              (let primary = (case emails of Answer es \<Rightarrow> map_option ge_email (select_first (\<lambda>e. ge_primary e \<and> ge_verified e) es) | _ \<Rightarrow> None) in
               if falsy primary \<or> gh_id u = None \<or> gh_id u = Some 0 then Inl (UnauthorizedError ''errors:githubUserMissingVerifiedEmail'')
               else Inr \<lparr>op_email = the primary, op_name = gh_name u, op_avatar_url = gh_avatar_url u,
                      op_provider_user_id = dec (the (gh_id u))\<rparr>))"

section \<open>Find or link\<close>

text \<open>The result: the row after a claim, and whether a bare placeholder was claimed.\<close>

definition resolveExistingOAuthAccount ::
    "Ctx \<Rightarrow> string \<Rightarrow> OAuthProfile \<Rightarrow> UserRow \<Rightarrow> 'z CredentialWorld_scheme \<Rightarrow> app_error + (UserRow \<times> bool) \<times> 'z CredentialWorld_scheme" where
  "resolveExistingOAuthAccount cx provider profile existing w =
     (let linked = (case findByProviderUserId provider (op_provider_user_id profile) (aw_users w) (lw_methods w) of
            None \<Rightarrow> False | Some m \<Rightarrow> am_user_id m = us_id existing);
          usable = (if \<not> falsy (us_password_hash existing) then Inr True else hasActiveLoginCredential (us_public_id existing) w)
      in case usable of
           Inl e \<Rightarrow> Inl e
         | Inr hasUsableCredential \<Rightarrow>
             if \<not> (linked \<or> us_is_email_verified existing \<or> \<not> hasUsableCredential)
             then Inl (ForbiddenError ''errors:oauthLinkRequiresVerifiedAccount'')
             else if \<not> hasUsableCredential \<and> \<not> us_is_email_verified existing then
               (let (verified, users) = updateEmailVerified (cx_now cx) (us_public_id existing) (aw_users w)
                in Inr ((case verified of Some u \<Rightarrow> u | None \<Rightarrow> existing, True), w\<lparr>aw_users := users\<rparr>))
             else Inr ((existing, False), w))"

definition first_name_of :: "string option \<Rightarrow> string option" where
  "first_name_of name = map_option (takeWhile (\<lambda>c. c \<noteq> CHR '' '')) name"

definition last_name_of :: "string option \<Rightarrow> string option" where
  "last_name_of name = (case name of None \<Rightarrow> None
     | Some n \<Rightarrow> (let rest = drop 1 (dropWhile (\<lambda>c. c \<noteq> CHR '' '') n) in if rest = '''' then None else Some rest))"

text \<open>The pinned transaction: the user, whether it is new or claimed, and the tables it leaves.\<close>

definition oauth_find_or_link ::
    "LoginEnv \<Rightarrow> Ctx \<Rightarrow> LoginFresh \<Rightarrow> string \<Rightarrow> OAuthProfile \<Rightarrow> 'z CredentialWorld_scheme \<Rightarrow> app_error + (UserRow \<times> bool) \<times> 'z CredentialWorld_scheme" where
  "oauth_find_or_link env cx fr provider profile w =
     (let email = js_lower (js_trim (op_email profile)) in
      case (case findByEmail email (aw_users w) of
          None \<Rightarrow>
            if le_disposable env email then Inl (ForbiddenError ''errors:disposableEmail'')
            else (case insertOAuthUser (\<lambda>e. le_sha256hex env (js_lower e)) (cx_now cx) (lf_user_id fr) (lf_user_public_id fr)
                \<lparr>od_email = email, od_first_name = first_name_of (op_name profile), od_last_name = last_name_of (op_name profile),
                 od_avatar_url = op_avatar_url profile, od_is_email_verified = True\<rparr> (aw_users w) of
              None \<Rightarrow> Inl (InternalError ''unique_violation'')
            | Some (user, users) \<Rightarrow> Inr ((user, True), w\<lparr>aw_users := users\<rparr>))
        | Some existing \<Rightarrow> resolveExistingOAuthAccount cx provider profile existing w) of
        Inl e \<Rightarrow> Inl e
      | Inr ((user, onboard), w1) \<Rightarrow>
          (case linkOAuthProviderIfMissing cx fr (us_id user) provider (op_provider_user_id profile) w1 of
             (Inl e, _) \<Rightarrow> Inl e
           | (Inr _, w2) \<Rightarrow> (case assertUserAccountActive (us_status user) (us_deleted_at user) of
               Some e \<Rightarrow> Inl e | None \<Rightarrow> Inr ((user, onboard), w2))))"

definition completeOAuthUserSession ::
    "LoginEnv \<Rightarrow> Ctx \<Rightarrow> LoginFresh \<Rightarrow> string \<Rightarrow> OAuthProfile \<Rightarrow> string \<Rightarrow> string option \<Rightarrow> 'z CredentialWorld_scheme \<Rightarrow>
     (app_error + LoginResult \<times> UserRow) \<times> 'z CredentialWorld_scheme" where
  "completeOAuthUserSession env cx fr provider profile ipAddress userAgent w =
     (case oauth_find_or_link env cx fr provider profile w of
        Inl e \<Rightarrow> (Inl e, w)
      | Inr ((user, onboard), w1) \<Rightarrow>
          (let w2 = (if onboard \<and> le_personalEnabled env then provision (us_id user) w1 else w1)
           in case completeFirstFactorAuth env cx fr ipAddress userAgent False (us_is_email_verified user) user w2 of
                (Inl e, w3) \<Rightarrow> (Inl e, w3) | (Inr r, w3) \<Rightarrow> (Inr (r, user), w3)))"

text \<open>\<open>exchange\<close> is what the provider of the state answers for the code and the PKCE verifier.\<close>

definition handleCallback ::
    "LoginEnv \<Rightarrow> Ctx \<Rightarrow> LoginFresh \<Rightarrow> (string \<Rightarrow> string \<Rightarrow> app_error + OAuthProfile) \<Rightarrow> string \<Rightarrow> string option \<Rightarrow> string option \<Rightarrow> string \<Rightarrow> string option \<Rightarrow>
     'z FederatedWorld_scheme \<Rightarrow> (app_error + LoginResult) \<times> 'z FederatedWorld_scheme" where
  "handleCallback env cx fr exchange provider state nonce ipAddress userAgent w =
     (if \<not> cx_redis cx then (Inl (InternalError ''redis''), w)
      else case consumeOAuthState (le_sha256hex env) state (provider, nonce, cx_jsNow cx) (fw_oauth_states w) of
        (Inl e, r) \<Rightarrow> (Inl e, w\<lparr>fw_oauth_states := r\<rparr>)
      | (Inr (normalizedProvider, codeVerifier), r) \<Rightarrow> (let w1 = w\<lparr>fw_oauth_states := r\<rparr> in
          case exchange normalizedProvider codeVerifier of
            Inl e \<Rightarrow> (Inl e, w1)
          | Inr profile \<Rightarrow> map_prod (map_sum id fst) id (completeOAuthUserSession env cx fr normalizedProvider profile ipAddress userAgent w1)))"

text \<open>The state is stored before the authorize URL is built, which an unconfigured provider refuses.\<close>

definition getRedirectUrl ::
    "LoginEnv \<Rightarrow> (string \<Rightarrow> bool) \<Rightarrow> Ctx \<Rightarrow> string \<Rightarrow> string \<Rightarrow> string \<Rightarrow> string \<Rightarrow> 'z FederatedWorld_scheme \<Rightarrow>
     (app_error + string) \<times> 'z FederatedWorld_scheme" where
  "getRedirectUrl env configured cx state codeVerifier nonce provider w = (case assertOAuthProviderSupported provider of
       Inl e \<Rightarrow> (Inl e, w)
     | Inr p \<Rightarrow> if \<not> cx_redis cx then (Inl (InternalError ''redis''), w)
         else (let w1 = w\<lparr>fw_oauth_states := createOAuthState (le_sha256hex env) (cx_jsNow cx) p state codeVerifier nonce (fw_oauth_states w)\<rparr>
               in if configured p then (Inr nonce, w1)
                  else (Inl (NotImplementedError (if p = ''google'' then ''errors:googleOAuthNotConfigured'' else ''errors:githubOAuthNotConfigured'')), w1)))"

section \<open>Passkeys\<close>

text \<open>What the client sends, and the two checks of the library against a challenge; the second yields the new counter.\<close>

record PasskeyResponse =
  pr_credential_id :: string
  pr_user_handle :: "string option"    \<comment> \<open>decoded\<close>
  pr_data :: string

record WebauthnEnv =
  we_register :: "PasskeyResponse \<Rightarrow> string \<Rightarrow> (string \<times> string \<times> nat) option"
  we_authenticate :: "PasskeyResponse \<Rightarrow> string \<Rightarrow> string \<Rightarrow> nat \<Rightarrow> nat option"
  we_decoy :: "string \<Rightarrow> string"

definition generateRegistrationOptions ::
    "Ctx \<Rightarrow> string \<Rightarrow> string \<Rightarrow> string \<Rightarrow> 'z FederatedWorld_scheme \<Rightarrow> (app_error + string list) \<times> 'z FederatedWorld_scheme" where
  "generateRegistrationOptions cx challengeToken challenge userPublicId w = (case requireUserRecordByPublicId userPublicId (aw_users w) of
       Inl e \<Rightarrow> (Inl e, w)
     | Inr user \<Rightarrow> (case assertEmailVerifiedForCredentialEnrollment (us_is_email_verified user) of
         Some e \<Rightarrow> (Inl e, w)
       | None \<Rightarrow> if \<not> cx_redis cx then (Inl (InternalError ''redis''), w)
           else (Inr (map wk_credential_id (listActiveByUserId (us_id user) (cw_passkeys w))),
             w\<lparr>fw_challenges := createWebauthnChallenge (cx_jsNow cx) challengeToken Registration (us_public_id user) challenge (fw_challenges w)\<rparr>)))"

definition verifyRegistration ::
    "WebauthnEnv \<Rightarrow> Ctx \<Rightarrow> nat \<Rightarrow> string \<Rightarrow> string \<Rightarrow> string \<Rightarrow> PasskeyResponse \<Rightarrow> 'z FederatedWorld_scheme \<Rightarrow> (app_error + string) \<times> 'z FederatedWorld_scheme" where
  "verifyRegistration wenv cx nextId publicId userPublicId challengeToken response w =
     (if \<not> cx_redis cx then (Inl (InternalError ''redis''), w)
      else case consumeWebauthnChallenge challengeToken Registration (cx_jsNow cx) (fw_challenges w) of
        (Inl e, r) \<Rightarrow> (Inl e, w\<lparr>fw_challenges := r\<rparr>)
      | (Inr challenge, r) \<Rightarrow> (let w1 = w\<lparr>fw_challenges := r\<rparr> in
          if wc_user_public_id challenge \<noteq> userPublicId then (Inl (UnauthorizedError ''errors:webauthnInvalidChallenge''), w1)
          else case requireUserRecordByPublicId userPublicId (aw_users w1) of
            Inl e \<Rightarrow> (Inl e, w1)
          | Inr user \<Rightarrow> (case we_register wenv response (wc_challenge challenge) of
              None \<Rightarrow> (Inl (ValidationError ''errors:webauthnRegistrationFailed''), w1)
            | Some (credentialId, publicKey, counter) \<Rightarrow>
                if passkey_countActiveByUserId (us_id user) (cw_passkeys w1) \<ge> MAX_WEBAUTHN_CREDENTIALS_PER_USER
                then (Inl (ConflictError ''errors:webauthnCredentialMaxReached''), w1)
                else (case createCredential nextId publicId (us_id user) credentialId publicKey counter (cw_passkeys w1) of
                    None \<Rightarrow> (Inl (ConflictError ''errors:webauthnCredentialExists''), w1)
                  | Some (row, t) \<Rightarrow> (Inr (wk_credential_id row), w1\<lparr>cw_passkeys := t\<rparr>)))))"

text \<open>The credential ids a client is asked for: the account's passkeys, or a decoy derived from the address.  \<open>decoyOwner\<close> is the
  generated owner no account has.\<close>

definition generateAuthenticationOptions ::
    "WebauthnEnv \<Rightarrow> Ctx \<Rightarrow> string \<Rightarrow> string \<Rightarrow> string \<Rightarrow> string \<Rightarrow> 'z FederatedWorld_scheme \<Rightarrow> (app_error + string list) \<times> 'z FederatedWorld_scheme" where
  "generateAuthenticationOptions wenv cx challengeToken challenge decoyOwner email w =
     (if \<not> cx_redis cx then (Inl (InternalError ''redis''), w)
      else let passkeys = (case findByEmail email (aw_users w) of None \<Rightarrow> [] | Some u \<Rightarrow> listActiveByUserId (us_id u) (cw_passkeys w));
               owner = (case findByEmail email (aw_users w) of Some u \<Rightarrow> if passkeys = [] then ''decoy:'' @ decoyOwner else us_public_id u
                 | None \<Rightarrow> ''decoy:'' @ decoyOwner)
           in (Inr (if passkeys = [] then [we_decoy wenv (js_lower email)] else map wk_credential_id passkeys),
               w\<lparr>fw_challenges := createWebauthnChallenge (cx_jsNow cx) challengeToken Authentication owner challenge (fw_challenges w)\<rparr>))"

definition verifyAuthentication ::
    "LoginEnv \<Rightarrow> WebauthnEnv \<Rightarrow> Ctx \<Rightarrow> LoginFresh \<Rightarrow> string \<Rightarrow> PasskeyResponse \<Rightarrow> string \<Rightarrow> string option \<Rightarrow> 'z FederatedWorld_scheme \<Rightarrow>
     (app_error + LoginResult) \<times> 'z FederatedWorld_scheme" where
  "verifyAuthentication env wenv cx fr challengeToken response ipAddress userAgent w =
     (if \<not> cx_redis cx then (Inl (InternalError ''redis''), w)
      else case consumeWebauthnChallenge challengeToken Authentication (cx_jsNow cx) (fw_challenges w) of
        (Inl e, r) \<Rightarrow> (Inl e, w\<lparr>fw_challenges := r\<rparr>)
      | (Inr challenge, r) \<Rightarrow> (let w1 = w\<lparr>fw_challenges := r\<rparr>; owner = findByPublicId (wc_user_public_id challenge) (aw_users w) in
          if pr_user_handle response \<noteq> None \<and> pr_user_handle response \<noteq> Some (wc_user_public_id challenge)
          then (Inl (UnauthorizedError ''errors:webauthnInvalidChallenge''), w1)
          else case findActiveByCredentialId (map_option us_id owner) (pr_credential_id response) (cw_passkeys w1) of
            None \<Rightarrow> (Inl (UnauthorizedError ''errors:webauthnCredentialNotFound''), w1)
          | Some stored \<Rightarrow> (case requireUserRecordByPublicId (wc_user_public_id challenge) (aw_users w1) of
              Inl e \<Rightarrow> (Inl e, w1)
            | Inr user \<Rightarrow>
                if us_id user \<noteq> wk_user_id stored then (Inl (UnauthorizedError ''errors:webauthnInvalidChallenge''), w1)
                else (case assertUserAccountActive (us_status user) (us_deleted_at user) of
                    Some e \<Rightarrow> (Inl e, w1)
                  | None \<Rightarrow> (case we_authenticate wenv response (wc_challenge challenge) (wk_public_key stored) (wk_counter stored) of
                      None \<Rightarrow> (Inl (UnauthorizedError ''errors:webauthnAuthenticationFailed''), w1)
                    | Some newCounter \<Rightarrow> completeFirstFactorAuth env cx fr ipAddress userAgent True (us_is_email_verified user) user
                        (w1\<lparr>cw_passkeys := updateCounter (Some (us_id user)) (cx_now cx) (wk_credential_id stored) newCounter (cw_passkeys w1)\<rparr>))))))"

definition revokeCredential :: "Ctx \<Rightarrow> string \<Rightarrow> string \<Rightarrow> 'z CredentialWorld_scheme \<Rightarrow> (app_error + unit) \<times> 'z CredentialWorld_scheme" where
  "revokeCredential cx userPublicId credentialPublicId w = (case requireUserRecordByPublicId userPublicId (aw_users w) of
       Inl e \<Rightarrow> (Inl e, w)
     | Inr user \<Rightarrow> (let active = listActiveByUserId (us_id user) (cw_passkeys w) in
         case select_first (\<lambda>c. wk_public_id c = credentialPublicId) active of
           None \<Rightarrow> (Inl (NotFoundError ''Passkey''), w)
         | Some target \<Rightarrow>
             if length active \<le> 1 \<and> hasLoginCapableMethod (us_public_id user) w \<noteq> Inr True
             then (Inl (ConflictError ''errors:webauthnCannotRevokeLastCredential''), w)
             else (Inr (), w\<lparr>cw_passkeys := revokeByUserId (cx_now cx) (us_id user) (wk_id target) (cw_passkeys w)\<rparr>)))"

section \<open>Nobody enters an account that is not theirs\<close>

definition oauth_exchange ::
    "bool \<Rightarrow> string option answer \<Rightarrow> GoogleUserInfo answer \<Rightarrow> bool \<Rightarrow> (string option \<times> string option) answer \<Rightarrow> GitHubUser answer \<Rightarrow> GitHubEmail list answer \<Rightarrow>
     string \<Rightarrow> string \<Rightarrow> app_error + OAuthProfile" where
  "oauth_exchange gconf gtoken guser hconf htoken huser hemails p codeVerifier =
     (if p = ''google'' then exchangeGoogleOAuthCode gconf gtoken guser else exchangeGitHubOAuthCode hconf htoken huser hemails)"

text \<open>The provider vouches for an address of one of its users: Google says that the address of the user with this \<^verbatim>\<open>sub\<close> is verified,
  GitHub that it is the verified primary one among the addresses of the user with this id.\<close>

definition attested :: "GoogleUserInfo answer \<Rightarrow> GitHubUser answer \<Rightarrow> GitHubEmail list answer \<Rightarrow> string \<Rightarrow> string \<Rightarrow> string \<Rightarrow> bool" where
  "attested guser huser hemails p e i \<longleftrightarrow>
     (if p = ''google'' then \<exists>u. guser = Answer u \<and> gi_sub u = Some i \<and> gi_email u = Some e \<and> gi_email_verified u = Some True
      else (\<exists>u n. huser = Answer u \<and> gh_id u = Some n \<and> i = dec n) \<and>
        (\<exists>es x. hemails = Answer es \<and> x \<in> set es \<and> ge_email x = e \<and> ge_primary x \<and> ge_verified x))"

text \<open>The answer of a login is for the account: an MFA session that names it, or a token signed for it with a new live session of it.\<close>

definition answered_for :: "LoginEnv \<Rightarrow> Ctx \<Rightarrow> LoginFresh \<Rightarrow> LoginResult \<Rightarrow> UserRow \<Rightarrow> 'z LoginWorld_scheme \<Rightarrow> bool" where
  "answered_for env cx fr r account w = (case r of
       MfaRequired t \<Rightarrow> redis_get (cx_jsNow cx) (lw_mfa_sessions w) (MFA_SESSION_KEY_PREFIX @ t) = Some (Some (us_public_id account))
     | SessionIssued jwt sessionPublicId refreshSecret \<Rightarrow>
         (\<exists>role org. jwt = le_sign env (lf_jti fr) (us_public_id account) role org) \<and>
         (\<exists>s \<in> set (aw_sessions w). ss_public_id s = sessionPublicId \<and> ss_user_id s = us_id account \<and> ss_token_hash s = le_sha256hex env jwt \<and>
            ss_refresh_token_hash s = Some (le_sha256hex env refreshSecret) \<and> \<not> ss_is_revoked s))"

definition linked_identity :: "string \<Rightarrow> string \<Rightarrow> UserRow \<Rightarrow> 'z CredentialWorld_scheme \<Rightarrow> bool" where
  "linked_identity p providerUserId u w \<longleftrightarrow> (\<exists>m. findByProviderUserId p providerUserId (aw_users w) (lw_methods w) = Some m \<and> am_user_id m = us_id u)"

definition bare_account :: "UserRow \<Rightarrow> 'z CredentialWorld_scheme \<Rightarrow> bool" where
  "bare_account u w \<longleftrightarrow> falsy (us_password_hash u) \<and> hasActiveLoginCredential (us_public_id u) w = Inr False"

lemma map_sum_eq_Inr: "map_sum id f x = Inr y \<longleftrightarrow> (\<exists>z. x = Inr z \<and> f z = y)"
  by (cases x) auto

lemma exchange_attested:
  assumes "oauth_exchange gconf gtoken guser hconf htoken huser hemails p v = Inr profile"
  shows "attested guser huser hemails p (op_email profile) (op_provider_user_id profile)"
proof (cases "p = ''google''")
  case True
  with assms show ?thesis
    by (auto simp: oauth_exchange_def attested_def exchangeGoogleOAuthCode_def falsy_def split: if_splits answer.splits option.splits)
next
  case False
  have first: "\<exists>x \<in> set es. ge_email x = e \<and> ge_primary x \<and> ge_verified x"
    if "map_option ge_email (select_first (\<lambda>e. ge_primary e \<and> ge_verified e) es) = Some e" for es e
    using that select_first_Some_iff [of "\<lambda>e. ge_primary e \<and> ge_verified e" es] by fastforce
  from assms False obtain es u n where "hemails = Answer es"
    "map_option ge_email (select_first (\<lambda>e. ge_primary e \<and> ge_verified e) es) = Some (op_email profile)"
    and "huser = Answer u" "gh_id u = Some n" "op_provider_user_id profile = dec n"
    by (auto simp: oauth_exchange_def exchangeGitHubOAuthCode_def Let_def falsy_def split: if_splits answer.splits prod.splits option.splits)
  with first False show ?thesis by (fastforce simp: attested_def)
qed

lemma resolve_existing:
  assumes "resolveExistingOAuthAccount cx p profile existing w = Inr ((u, onboard), w')" and "user_keys_ok (aw_users w)"
    and "existing \<in> set (aw_users w)" "us_deleted_at existing = None"
  shows "us_is_email_verified existing \<or> linked_identity p (op_provider_user_id profile) existing w \<or> bare_account existing w"
    and "us_id u = us_id existing" "us_email u = us_email existing" "us_status u = us_status existing" "u \<in> set (aw_users w')"
    and "aw_sessions w' = aw_sessions w" "lw_methods w' = lw_methods w" "us_deleted_at u = None"
    and "user_keys_ok (aw_users w')"
proof -
  have fst: "fst (updateEmailVerified (cx_now cx) (us_public_id existing) (aw_users w)) = Some (existing\<lparr>us_is_email_verified := True, us_updated_at := cx_now cx\<rparr>)"
    using assms(2-4) unfolding updateEmailVerified_def by (subst update_row_key [of us_public_id _ existing]) (auto simp: user_keys_ok_def live_user_def)
  have mem: "existing\<lparr>us_is_email_verified := True, us_updated_at := cx_now cx\<rparr> \<in> set (snd (updateEmailVerified (cx_now cx) (us_public_id existing) (aw_users w)))"
    unfolding updateEmailVerified_def using live_user_write(1) [OF assms(2-4), of "\<lambda>u. u\<lparr>us_is_email_verified := True, us_updated_at := cx_now cx\<rparr>"] by simp
  obtain v users where split: "updateEmailVerified (cx_now cx) (us_public_id existing) (aw_users w) = (v, users)" by (rule prod.exhaust)
  have keys: "user_keys_ok (snd (updateEmailVerified (cx_now cx) (us_public_id existing) (aw_users w)))"
    unfolding updateEmailVerified_def using live_user_write(2) [OF assms(2-4), of "\<lambda>u. u\<lparr>us_is_email_verified := True, us_updated_at := cx_now cx\<rparr>"] by simp
  note verified = keys [unfolded split snd_conv] fst [unfolded split fst_conv] mem [unfolded split snd_conv] split
  show "us_is_email_verified existing \<or> linked_identity p (op_provider_user_id profile) existing w \<or> bare_account existing w"
    using assms(1) by (auto simp: resolveExistingOAuthAccount_def Let_def linked_identity_def bare_account_def split: if_splits sum.splits option.splits)
  have "us_id u = us_id existing \<and> us_email u = us_email existing \<and> us_status u = us_status existing \<and> u \<in> set (aw_users w') \<and>
      aw_sessions w' = aw_sessions w \<and> lw_methods w' = lw_methods w \<and> us_deleted_at u = None \<and> user_keys_ok (aw_users w')"
    using assms verified
    by (auto simp: resolveExistingOAuthAccount_def Let_def split: if_splits sum.splits option.splits)
  then show "us_id u = us_id existing" "us_email u = us_email existing" "us_status u = us_status existing" "u \<in> set (aw_users w')"
    "aw_sessions w' = aw_sessions w" "lw_methods w' = lw_methods w" "us_deleted_at u = None"
    "user_keys_ok (aw_users w')" by auto
qed

lemma new_session_owner:
  assumes "requireUserRecordByPublicId (us_public_id user) (aw_users w) = Inr user'" "us_id user' = us_id user"
    and "completeFirstFactorAuth env cx fr ip ua b v user w = (r, w')"
  shows "s \<in> set (aw_sessions w') \<Longrightarrow> ss_id s \<notin> ss_id ` set (aw_sessions w) \<Longrightarrow> ss_user_id s = us_id user" and "aw_users w' = aw_users w"
proof -
  have evict: "map ss_id (snd (revokeOldestActiveBeyond now u k t)) = map ss_id t" for now u k t
    by (simp add: revokeOldestActiveBeyond_def Let_def update_where_key revoked_def)
  have create: "(\<forall>s \<in> set (aw_sessions w2). ss_id s \<notin> ss_id ` set (aw_sessions x) \<longrightarrow> ss_user_id s = us_id user) \<and> aw_users w2 = aw_users x"
    if "createSessionForUser sha cx fr' (us_public_id user) data x = (res, w2)" "aw_users x = aw_users w" for sha fr' data x res w2
  proof -
    obtain evicted t1 where t1: "revokeOldestActiveBeyond (cx_now cx) (us_id user') (MAX_ACTIVE_SESSIONS_PER_USER - 1) (aw_sessions x) = (evicted, t1)"
      by (rule prod.exhaust)
    have "ss_id ` set t1 = ss_id ` set (aw_sessions x)"
      using arg_cong [OF evict, of set "cx_now cx" "us_id user'" "MAX_ACTIVE_SESSIONS_PER_USER - 1" "aw_sessions x"] t1 by simp
    then have "ss_id s \<in> ss_id ` set (aw_sessions x)" if "s \<in> set t1" for s using that by (metis imageI)
    with that t1 assms(1,2) show ?thesis
      by (auto simp: createSessionForUser_def session_create_def Let_def)
  qed
  have "(\<forall>s \<in> set (aw_sessions w'). ss_id s \<notin> ss_id ` set (aw_sessions w) \<longrightarrow> ss_user_id s = us_id user) \<and> aw_users w' = aw_users w"
    using assms(3) by (auto simp: completeFirstFactorAuth_def Let_def split: if_splits sum.splits prod.splits dest!: create)
  then show "s \<in> set (aw_sessions w') \<Longrightarrow> ss_id s \<notin> ss_id ` set (aw_sessions w) \<Longrightarrow> ss_user_id s = us_id user" "aw_users w' = aw_users w"
    by auto
qed

lemma created_session:
  assumes "createSessionForUser sha cx fs pub data w = (Inr (sid, secret), w')" and "requireUserRecordByPublicId pub (aw_users w) = Inr user"
  shows "\<exists>s \<in> set (aw_sessions w'). ss_public_id s = sid \<and> ss_user_id s = us_id user \<and> ss_token_hash s = sc_token_hash data \<and>
    ss_refresh_token_hash s = Some (sha secret) \<and> \<not> ss_is_revoked s"
  using assms by (auto simp: createSessionForUser_def session_create_def Let_def split: prod.splits)

lemma first_factor_answer:
  assumes "completeFirstFactorAuth env cx fr ip ua b v user w = (Inr r, w')"
    and "requireUserRecordByPublicId (us_public_id user) (aw_users w) = Inr user"
  shows "answered_for env cx fr r user w'"
proof (cases "us_is_mfa_enabled user \<or> le_orgRequiresMfa env (us_id user)")
  case True
  with assms(1) show ?thesis
    by (auto simp: completeFirstFactorAuth_def answered_for_def createMfaSession_def redis_set_ex_def redis_get_def MFA_SESSION_TTL_SECONDS_def
        split: if_splits)
next
  case False
  define heal where "heal = (le_defaultOrg env (us_id user) = None \<and> b \<and> le_personalEnabled env)"
  define w1 where "w1 = (if heal then provision (us_id user) w else w)"
  define jwt where "jwt = le_sign env (lf_jti fr) (us_public_id user) (le_role env (us_email user) (us_status user) v)
      (if heal then le_ensuredOrg env (us_id user) else le_defaultOrg env (us_id user))"
  define data where "data = \<lparr>sc_token_hash = le_sha256hex env jwt, sc_ip_address = ip, sc_user_agent = ua,
      sc_expires_at = cx_jsNow cx + le_sessionMaxAgeDays env * 86400000\<rparr>"
  from assms(1) False have "(case createSessionForUser (le_sha256hex env) cx (lf_session fr) (us_public_id user) data w1 of
      (Inl e, w2) \<Rightarrow> (Inl e, w2) | (Inr (sid, secret), w2) \<Rightarrow> (Inr (SessionIssued jwt sid secret), w2)) = (Inr r, w')"
    unfolding completeFirstFactorAuth_def Let_def data_def jwt_def w1_def heal_def by simp
  then obtain sid secret where r: "r = SessionIssued jwt sid secret"
    and made: "createSessionForUser (le_sha256hex env) cx (lf_session fr) (us_public_id user) data w1 = (Inr (sid, secret), w')"
    by (auto split: sum.splits prod.splits)
  have "requireUserRecordByPublicId (us_public_id user) (aw_users w1) = Inr user" using assms(2) by (simp add: w1_def)
  from created_session [OF made this] show ?thesis by (auto simp: answered_for_def r data_def jwt_def)
qed

lemma find_or_link_user:
  assumes "oauth_find_or_link env cx fr p profile w = Inr ((u, onboard), w')" and "user_keys_ok (aw_users w)"
  defines "e \<equiv> js_lower (js_trim (op_email profile))"
  shows "u \<in> set (aw_users w') \<and> us_email u = e \<and> us_status u = ''ACTIVE'' \<and> us_deleted_at u = None \<and> aw_sessions w' = aw_sessions w \<and>
    user_keys_ok (aw_users w') \<and>
    (case findByEmail e (aw_users w) of None \<Rightarrow> True
     | Some existing \<Rightarrow> us_id u = us_id existing \<and> (us_is_email_verified existing \<or>
         linked_identity p (op_provider_user_id profile) existing w \<or> bare_account existing w))"
proof -
  have link: "aw_users w2 = aw_users w1 \<and> aw_sessions w2 = aw_sessions w1"
    if "linkOAuthProviderIfMissing cx fr i p q w1 = (x, w2)" for i q w1 x w2
    using that by (auto simp: linkOAuthProviderIfMissing_def split: if_splits option.splits prod.splits)
  have active: "us_status u = ''ACTIVE''"
    using assms(1) by (auto simp: oauth_find_or_link_def Let_def assertUserAccountActive_def ACTIVE_USER_STATUS_def split: sum.splits prod.splits option.splits if_splits)
  show ?thesis
  proof (cases "findByEmail e (aw_users w)")
    case None
    from assms(1) None obtain users w1 where made: "insertOAuthUser (\<lambda>e. le_sha256hex env (js_lower e)) (cx_now cx) (lf_user_id fr) (lf_user_public_id fr)
        \<lparr>od_email = e, od_first_name = first_name_of (op_name profile), od_last_name = last_name_of (op_name profile),
         od_avatar_url = op_avatar_url profile, od_is_email_verified = True\<rparr> (aw_users w) = Some (u, users)"
      "aw_users w' = users" "aw_sessions w' = aw_sessions w"
      by (auto simp: oauth_find_or_link_def Let_def e_def split: sum.splits prod.splits option.splits if_splits dest!: link)
    from made(1) assms(2) have "u \<in> set users \<and> us_email u = e \<and> us_deleted_at u = None \<and> user_keys_ok users"
      by (force simp: insertOAuthUser_def Let_def user_keys_ok_def list_ex_iff split: if_splits)
    with made(2,3) active None show ?thesis by simp
  next
    case (Some existing)
    with findByEmail_live have ex: "existing \<in> set (aw_users w)" "us_deleted_at existing = None" "us_email existing = e"
      by (auto simp: findByEmail_def dest!: select_first_Some_iff)
    from assms(1) Some obtain w1 where res: "resolveExistingOAuthAccount cx p profile existing w = Inr ((u, onboard), w1)"
      and "aw_users w' = aw_users w1" "aw_sessions w' = aw_sessions w1"
      by (auto simp: oauth_find_or_link_def Let_def e_def split: sum.splits prod.splits option.splits dest!: link)
    with resolve_existing [OF res assms(2) ex(1,2)] Some ex(3) active show ?thesis by simp
  qed
qed

lemma js_lower_idem [simp]: "js_lower (js_lower s) = js_lower s"
  by (simp add: js_lower_def lower_char_def Let_def)

text \<open>The provider whose answer counts is the one the callback names.\<close>

lemma callback_profile:
  assumes "handleCallback env cx fr exchange provider state nonce ip ua w = (Inr r, w')"
  obtains v s0 profile u where "exchange (js_lower provider) v = Inr profile"
    and "completeOAuthUserSession env cx fr (js_lower provider) profile ip ua (w\<lparr>fw_oauth_states := s0\<rparr>) = (Inr (r, u), w')"
proof -
  have p: "p = js_lower provider" if "consumeOAuthState sha state (provider, nonce, now) t = (Inr (p, v), t')" for sha now t p v t'
    using that by (auto simp: consumeOAuthState_def assertOAuthProviderSupported_def normalizeOAuthProvider_def Let_def
        split: if_splits option.splits sum.splits prod.splits)
  from assms obtain q v s0 profile u where state: "consumeOAuthState (le_sha256hex env) state (provider, nonce, cx_jsNow cx) (fw_oauth_states w) = (Inr (q, v), s0)"
    and "exchange q v = Inr profile" "completeOAuthUserSession env cx fr q profile ip ua (w\<lparr>fw_oauth_states := s0\<rparr>) = (Inr (r, u), w')"
    by (auto simp: handleCallback_def Let_def map_prod_def map_sum_eq_Inr split: if_splits sum.splits prod.splits)
  with that p [OF state] show thesis by blast
qed

text \<open>C1 Nobody enters an account through OAuth that is not theirs: when a callback is answered with a session or a second-factor prompt,
  then the provider the callback names has vouched for an address of one of its users, and the answer is for the live, active account with that address: the
  MFA session it opens names that account, the token it issues is signed for it and the new session belongs to it, as does every session the
  callback adds.  If that account existed before, its own address was verified, or the identity of this callback (the provider's user id)
  was already linked to it, or it had no credential of any kind.  Assumed of the users table: ids and public ids are unique.\<close>

theorem oauth_never_takes_over:
  assumes "handleCallback env cx fr (oauth_exchange gconf gtoken guser hconf htoken huser hemails) provider state nonce ip ua w = (Inr r, w')"
    and "user_keys_ok (aw_users w)"
  shows "\<exists>e i account. attested guser huser hemails (js_lower provider) e i \<and> account \<in> set (aw_users w') \<and> us_email account = js_lower (js_trim e) \<and>
    us_status account = ''ACTIVE'' \<and> us_deleted_at account = None \<and> answered_for env cx fr r account w' \<and>
    {s \<in> set (aw_sessions w'). ss_id s \<notin> ss_id ` set (aw_sessions w)} \<subseteq> {s. ss_user_id s = us_id account} \<and>
    (case findByEmail (js_lower (js_trim e)) (aw_users w) of None \<Rightarrow> True
     | Some existing \<Rightarrow> us_id account = us_id existing \<and> (us_is_email_verified existing \<or>
         linked_identity (js_lower provider) i existing w \<or> bare_account existing w))"
proof -
  let ?p = "js_lower provider"
  obtain v s0 profile u where p: "oauth_exchange gconf gtoken guser hconf htoken huser hemails ?p v = Inr profile"
    and run: "completeOAuthUserSession env cx fr ?p profile ip ua (w\<lparr>fw_oauth_states := s0\<rparr>) = (Inr (r, u), w')" by (rule callback_profile [OF assms(1)])
  let ?w = "w\<lparr>fw_oauth_states := s0\<rparr>" and ?e = "js_lower (js_trim (op_email profile))"
  from run obtain onboard w1 w2 where find: "oauth_find_or_link env cx fr ?p profile ?w = Inr ((u, onboard), w1)"
    and w2: "w2 = (if onboard \<and> le_personalEnabled env then provision (us_id u) w1 else w1)"
    and issue: "completeFirstFactorAuth env cx fr ip ua False (us_is_email_verified u) u w2 = (Inr r, w')"
    by (auto simp: completeOAuthUserSession_def Let_def split: sum.splits prod.splits)
  have "user_keys_ok (aw_users ?w)" using assms(2) by simp
  note u = find_or_link_user [OF find this]
  have same: "aw_users w2 = aw_users w1" "aw_sessions w2 = aw_sessions w1" by (simp_all add: w2)
  with u have req: "requireUserRecordByPublicId (us_public_id u) (aw_users w2) = Inr u" by (simp add: require_live_user)
  note own = new_session_owner [OF req refl issue] and answer = first_factor_answer [OF issue req]
  have "{s \<in> set (aw_sessions w'). ss_id s \<notin> ss_id ` set (aw_sessions w)} \<subseteq> {s. ss_user_id s = us_id u}"
    using own(1) u same by auto
  moreover have "linked_identity ?p i x ?w = linked_identity ?p i x w" "bare_account x ?w = bare_account x w" for i x
    by (simp_all add: linked_identity_def bare_account_def hasActiveLoginCredential_def split: sum.splits)
  ultimately show ?thesis using exchange_attested [OF p] u own(2) same answer
    by (intro exI [of _ "op_email profile"] exI [of _ "op_provider_user_id profile"] exI [of _ u]) (auto split: option.splits)
qed

text \<open>A callback from Google for the verified account of the demonstration user.\<close>

definition demo_federated :: FederatedWorld where
  "demo_federated = \<lparr>aw_users = [demo_user\<lparr>us_is_mfa_enabled := True\<rparr>], aw_sessions = [], aw_cache = Map.empty, aw_sentry = [], lw_mfa_sessions = Map.empty,
     lw_ip_failures = Map.empty, lw_tokens = [], lw_code_attempts = Map.empty, lw_cooldowns = Map.empty, lw_code_mails = [],
     lw_methods = [], lw_provisioned = [], cw_recovery = [], cw_passkeys = [], cw_totp_used = Map.empty, cw_mfa_failures = Map.empty,
     cw_enroll = Map.empty, cw_reset_mails = [], fw_challenges = Map.empty,
     fw_oauth_states = createOAuthState id 0 ''google'' ''st'' ''v'' ''n'' Map.empty\<rparr>"

definition demo_google :: "GoogleUserInfo answer" where
  "demo_google = Answer \<lparr>gi_sub = Some ''7'', gi_email = Some ''A'', gi_email_verified = Some True, gi_name = None, gi_picture = None\<rparr>"

definition demo_callback :: "(app_error + LoginResult) \<times> FederatedWorld" where
  "demo_callback = handleCallback demo_login_env (ctx_at 5) demo_fresh (oauth_exchange True (Answer (Some ''t'')) demo_google False Unavailable Unavailable Unavailable)
     ''google'' (Some ''st'') (Some ''n'') ''::1'' None demo_federated"

lemma lower_char_A: "lower_char (CHR ''A'') = CHR ''a''"
  by code_simp

lemma demo_callback_answer: "fst demo_callback = Inr (MfaRequired ''m'')"
  by (simp add: demo_callback_def handleCallback_def demo_federated_def demo_login_env_def demo_fresh_def ctx_at_def demo_google_def
      consumeOAuthState_def createOAuthState_def redis_getdel_def redis_set_ex_def redis_get_def OAUTH_STATE_KEY_PREFIX_def OAUTH_STATE_TTL_SECONDS_def
      normalizeOAuthProvider_def assertOAuthProviderSupported_def SUPPORTED_OAUTH_PROVIDERS_def js_lower_def lower_char_A js_trim_def js_space_def Let_def
      oauth_exchange_def exchangeGoogleOAuthCode_def falsy_def completeOAuthUserSession_def oauth_find_or_link_def findByEmail_def demo_user_def
      resolveExistingOAuthAccount_def findByProviderUserId_def linkOAuthProviderIfMissing_def method_create_def AUTH_METHOD_TYPES_def
      assertUserAccountActive_def ACTIVE_USER_STATUS_def completeFirstFactorAuth_def hasActiveLoginCredential_def) (simp_all add: lower_char_def)

theorem oauth_never_takes_over_witness:
  "\<exists>e i account. attested demo_google Unavailable Unavailable (js_lower ''google'') e i \<and> account \<in> set (aw_users (snd demo_callback)) \<and>
    us_email account = js_lower (js_trim e) \<and> us_status account = ''ACTIVE'' \<and>
    answered_for demo_login_env (ctx_at 5) demo_fresh (MfaRequired ''m'') account (snd demo_callback)"
proof -
  have run: "handleCallback demo_login_env (ctx_at 5) demo_fresh (oauth_exchange True (Answer (Some ''t'')) demo_google False Unavailable Unavailable Unavailable)
     ''google'' (Some ''st'') (Some ''n'') ''::1'' None demo_federated = (Inr (MfaRequired ''m''), snd demo_callback)"
    using demo_callback_answer by (metis demo_callback_def surjective_pairing)
  have "user_keys_ok (aw_users demo_federated)" by (simp add: demo_federated_def user_keys_ok_def)
  from oauth_never_takes_over [OF run this] show ?thesis by (elim exE conjE) (intro exI conjI)
qed

end
