(* ===== verification/Credential_Safety.thy ===== *)
theory Credential_Safety
  imports Federated_Login
begin

text \<open>
  What the credential services of the theories below promise together.  A request of these services is a value of
  \<open>CredentialRequest\<close> and \<open>credential_step\<close> runs it; the guarantees hold over any sequence of requests.
  Shown: a TOTP code is redeemed once in its life, whatever endpoint redeems it; the second factor can be guessed ten times in
  fifteen minutes; the MFA flag of an account agrees with its factor, except after the generic removal endpoint; overlapping
  removals can leave an account without a login method.
\<close>

section \<open>Requests\<close>

datatype CredentialRequest =
    LoginRequest string string string "string option"                                        \<comment> \<open>email, password\<close>
  | EmailLoginRequest string string string "string option"                                   \<comment> \<open>email, code\<close>
  | LoginMfaRequest string "string option" "string option" string "string option"            \<comment> \<open>MFA session, TOTP code, recovery code\<close>
  | StepUpRequest string string                                                              \<comment> \<open>user, TOTP code\<close>
  | EnrollInitRequest string string string                                                   \<comment> \<open>generated secret, user, method type\<close>
  | EnrollConfirmRequest "string list" string string                                         \<comment> \<open>generated recovery codes, user, TOTP code\<close>
  | RemoveMfaRequest string string                                                           \<comment> \<open>user, method\<close>
  | RemoveMethodRequest string string                                                        \<comment> \<open>user, method\<close>
  | AddMethodRequest string bool
  | ForgotPasswordRequest nat string string                                                  \<comment> \<open>generated token id and token, email\<close>
  | ResetPasswordRequest string string string "string option"                                \<comment> \<open>token, password\<close>
  | ChangePasswordRequest string string string "string option"

fun credential_step :: "LoginEnv \<Rightarrow> CredentialEnv \<Rightarrow> Ctx \<Rightarrow> LoginFresh \<Rightarrow> CredentialRequest \<Rightarrow> 'z CredentialWorld_scheme \<Rightarrow> 'z CredentialWorld_scheme" where
  "credential_step env cenv cx fr (LoginRequest email password ip ua) w = snd (login env cx fr email password ip ua w)"
| "credential_step env cenv cx fr (EmailLoginRequest email code ip ua) w = snd (email_login env cx fr email code ip ua w)"
| "credential_step env cenv cx fr (LoginMfaRequest token totp recovery ip ua) w = snd (verifyLoginMfa env cenv cx fr token totp recovery ip ua w)"
| "credential_step env cenv cx fr (StepUpRequest user code) w = snd (verify env cenv cx user code w)"
| "credential_step env cenv cx fr (EnrollInitRequest secret user methodType) w = snd (enrollInit cenv cx secret user methodType w)"
| "credential_step env cenv cx fr (EnrollConfirmRequest codes user code) w = snd (enrollConfirm env cenv cx fr codes user code w)"
| "credential_step env cenv cx fr (RemoveMfaRequest user method) w = snd (deleteMfa env cx user method w)"
| "credential_step env cenv cx fr (RemoveMethodRequest user method) w = snd (service_delete cx user method w)"
| "credential_step env cenv cx fr (AddMethodRequest user isPrimary) w = snd (service_create cx fr user isPrimary w)"
| "credential_step env cenv cx fr (ForgotPasswordRequest tokenId token email) w = snd (forgotPassword env cx tokenId token email w)"
| "credential_step env cenv cx fr (ResetPasswordRequest token password ip ua) w = snd (resetPassword env cx fr token password ip ua w)"
| "credential_step env cenv cx fr (ChangePasswordRequest user old new token) w = snd (changePassword env cx user old new token w)"

text \<open>One request of a sequence: its clocks, what it draws at random, what it asks.\<close>

type_synonym credential_call = "Ctx \<times> LoginFresh \<times> CredentialRequest"

definition credential_run :: "LoginEnv \<Rightarrow> CredentialEnv \<Rightarrow> credential_call list \<Rightarrow> 'z CredentialWorld_scheme \<Rightarrow> 'z CredentialWorld_scheme" where
  "credential_run env cenv calls w = fold (\<lambda>(cx, fr, req). credential_step env cenv cx fr req) calls w"

lemma credential_run_simps [simp]:
  "credential_run env cenv [] w = w"
  "credential_run env cenv ((cx, fr, req) # calls) w = credential_run env cenv calls (credential_step env cenv cx fr req w)"
  by (simp_all add: credential_run_def)

section \<open>What the session and login services leave alone\<close>

lemma invalidate_more [simp]: "AuthWorld.more (invalidateRevokedSessionCaches cx rs w) = AuthWorld.more w"
proof -
  have "AuthWorld.more (fold (invalidate_token cx) hs w) = AuthWorld.more w" for hs
    by (induction hs arbitrary: w) (simp_all add: invalidate_token_def)
  then show ?thesis by (simp add: invalidateRevokedSessionCaches_def)
qed

lemma session_more [simp]:
  "AuthWorld.more (snd (createSessionForUser sha cx fs pub d w)) = AuthWorld.more w"
  "AuthWorld.more (snd (revokeAllSessions cx pub w)) = AuthWorld.more w"
  "AuthWorld.more (snd (revokeAllSessionsExceptCurrent sha cx pub token w)) = AuthWorld.more w"
  by (simp_all add: createSessionForUser_def revokeAllSessions_def revokeAllSessionsExceptCurrent_def Let_def
      split: sum.splits prod.splits)

lemma session_users [simp]:
  "aw_users (snd (createSessionForUser sha cx fs pub d w)) = aw_users w"
  "aw_users (snd (revokeAllSessions cx pub w)) = aw_users w"
  "aw_users (snd (revokeAllSessionsExceptCurrent sha cx pub token w)) = aw_users w"
  by (simp_all add: createSessionForUser_def revokeAllSessions_def revokeAllSessionsExceptCurrent_def Let_def
      split: sum.splits prod.splits)

text \<open>Equal extensions have equal fields.\<close>

lemma auth_more_fields:
  assumes "AuthWorld.more w = AuthWorld.more w'"
  shows "LoginWorld.more w = LoginWorld.more w'" and "lw_methods w = lw_methods w'"
  using assms by (cases w; cases w'; simp)+

lemma login_more_fields:
  assumes "LoginWorld.more w = LoginWorld.more w'"
  shows "cw_totp_used w = cw_totp_used w'" and "cw_mfa_failures w = cw_mfa_failures w'" and "cw_enroll w = cw_enroll w'"
  using assms by (cases w; cases w'; simp)+

lemmas session_fields [simp] = auth_more_fields [OF session_more(1)] auth_more_fields [OF session_more(2)] auth_more_fields [OF session_more(3)]

lemma complete_fields [simp]:
  "LoginWorld.more (snd (completeFirstFactorAuth env cx fr ip ua b e user w)) = LoginWorld.more w"
  "lw_methods (snd (completeFirstFactorAuth env cx fr ip ua b e user w)) = lw_methods w"
  "aw_users (snd (completeFirstFactorAuth env cx fr ip ua b e user w)) = aw_users w"
  by (simp_all add: completeFirstFactorAuth_def Let_def case_prod_beta provision_def split: sum.splits)

lemma record_ip_fields [simp]:
  "LoginWorld.more (recordIpFailedLogin env cx ip w) = LoginWorld.more w" "lw_methods (recordIpFailedLogin env cx ip w) = lw_methods w"
  by (simp_all add: recordIpFailedLogin_def Let_def split: prod.splits)

lemma user_write_fields [simp]:
  "LoginWorld.more (user_write op w) = LoginWorld.more w" "lw_methods (user_write op w) = lw_methods w"
  by (simp_all add: user_write_def)

lemma login_fields [simp]:
  "LoginWorld.more (snd (login env cx fr email password ip ua w)) = LoginWorld.more w"
  "lw_methods (snd (login env cx fr email password ip ua w)) = lw_methods w"
  by (simp_all add: login_def Let_def case_prod_beta split: option.splits)

lemma redeem_claim_fields:
  "redeem_claim env cx user code w = Inr w2 \<Longrightarrow> LoginWorld.more w2 = LoginWorld.more w \<and> lw_methods w2 = lw_methods w"
  by (auto simp: redeem_claim_def Let_def case_prod_beta split: if_splits option.splits)

lemma redeem_code_fields [simp]:
  "LoginWorld.more (snd (redeem_code env cx fr user code ip ua w)) = LoginWorld.more w"
  "lw_methods (snd (redeem_code env cx fr user code ip ua w)) = lw_methods w"
  by (auto simp: redeem_code_def case_prod_beta redeem_claim_fields split: sum.splits)

lemma email_login_fields [simp]:
  "LoginWorld.more (snd (email_login env cx fr email code ip ua w)) = LoginWorld.more w"
  "lw_methods (snd (email_login env cx fr email code ip ua w)) = lw_methods w"
  by (simp_all add: email_login_def Let_def case_prod_beta charge_attempt_def clearVerifyAttemptCounter_def provision_def split: option.splits sum.splits)

lemma method_reset_fields [simp]:
  "LoginWorld.more (snd (method_resetPassword env cx token password w)) = LoginWorld.more w"
  "lw_methods (snd (method_resetPassword env cx token password w)) = lw_methods w"
  by (simp_all add: method_resetPassword_def Let_def case_prod_beta split: option.splits sum.splits)

lemma reset_fields [simp]:
  "LoginWorld.more (snd (resetPassword env cx fr token password ip ua w)) = LoginWorld.more w"
  "lw_methods (snd (resetPassword env cx fr token password ip ua w)) = lw_methods w"
  by (simp_all add: resetPassword_def case_prod_beta split: option.splits sum.splits)

lemma change_fields [simp]:
  "LoginWorld.more (snd (changePassword env cx pub old new token w)) = LoginWorld.more w"
  "lw_methods (snd (changePassword env cx pub old new token w)) = lw_methods w"
  by (simp_all add: changePassword_def Let_def case_prod_beta split: option.splits sum.splits)

lemma issue_fields [simp]:
  "LoginWorld.more (snd (issueAccessTokenAndSession env cx fr user ip ua w)) = LoginWorld.more w"
  "lw_methods (snd (issueAccessTokenAndSession env cx fr user ip ua w)) = lw_methods w"
  "aw_users (snd (issueAccessTokenAndSession env cx fr user ip ua w)) = aw_users w"
  by (simp_all add: issueAccessTokenAndSession_def Let_def case_prod_beta split: sum.splits)

section \<open>A TOTP code is redeemed once\<close>

text \<open>The code is recorded as used until the instant \<open>e\<close>.\<close>

definition code_spent :: "string \<Rightarrow> millis \<Rightarrow> 'z CredentialWorld_scheme \<Rightarrow> bool" where
  "code_spent key e w \<longleftrightarrow> cw_totp_used w key = Some ((), Some e)"

lemma code_spent_cong: "cw_totp_used w = cw_totp_used w' \<Longrightarrow> code_spent key e w \<longleftrightarrow> code_spent key e w'"
  by (simp add: code_spent_def)

lemma reject_keeps_spent:
  assumes "code_spent key e w" and "cx_jsNow cx < e"
  shows "code_spent key e (snd (rejectReplayedTotpCode env cx userId code w))"
  using assms by (auto simp: code_spent_def rejectReplayedTotpCode_def redis_set_ex_nx_def redis_set_ex_def redis_get_def Let_def
      split: option.splits)

lemma reject_spent:
  assumes "code_spent (totp_key env userId code) e w" and "cx_jsNow cx < e"
  shows "fst (rejectReplayedTotpCode env cx userId code w) = Some mfa_invalid"
  using assms by (auto simp: code_spent_def rejectReplayedTotpCode_def redis_set_ex_nx_def redis_get_def Let_def split: option.splits)

lemma reject_marks:
  assumes "rejectReplayedTotpCode env cx userId code w = (None, w')"
  shows "code_spent (totp_key env userId code) (cx_jsNow cx + 90000) w'"
  using assms by (auto simp: code_spent_def rejectReplayedTotpCode_def redis_set_ex_nx_def redis_set_ex_def redis_get_def Let_def
      MFA_TOTP_CODE_REPLAY_TTL_SECONDS_def MFA_TOTP_TOLERANCE_STEPS_def TOTP_STEP_SECONDS_def split: option.splits if_splits)

lemma consume_fields [simp]:
  "cw_totp_used (snd (consumeMfaVerificationAttempt cx userId w)) = cw_totp_used w"
  "lw_methods (snd (consumeMfaVerificationAttempt cx userId w)) = lw_methods w"
  "aw_users (snd (consumeMfaVerificationAttempt cx userId w)) = aw_users w"
  by (simp_all add: consumeMfaVerificationAttempt_def Let_def case_prod_beta)

lemma reject_fields [simp]:
  "lw_methods (snd (rejectReplayedTotpCode env cx userId code w)) = lw_methods w"
  "aw_users (snd (rejectReplayedTotpCode env cx userId code w)) = aw_users w"
  "cw_mfa_failures (snd (rejectReplayedTotpCode env cx userId code w)) = cw_mfa_failures w"
  by (simp_all add: rejectReplayedTotpCode_def Let_def case_prod_beta)

lemma touch_fields [simp]:
  "LoginWorld.more (touch_method cx m userId w) = LoginWorld.more w" "aw_users (touch_method cx m userId w) = aw_users w"
  by (simp_all add: touch_method_def)

lemma clear_fields [simp]:
  "cw_totp_used (clearMfaVerificationFailures userId w) = cw_totp_used w" "lw_methods (clearMfaVerificationFailures userId w) = lw_methods w"
  "aw_users (clearMfaVerificationFailures userId w) = aw_users w"
  by (simp_all add: clearMfaVerificationFailures_def)

lemma totp_used_more:
  "LoginWorld.more w' = LoginWorld.more w \<Longrightarrow> code_spent key e w' = code_spent key e w"
  by (rule code_spent_cong) (rule login_more_fields(1))

lemmas spent_frames = totp_used_more [OF touch_fields(1)] totp_used_more [OF issue_fields(1)] totp_used_more [OF login_fields(1)]
  totp_used_more [OF email_login_fields(1)] totp_used_more [OF reset_fields(1)] totp_used_more [OF change_fields(1)]
  totp_used_more [OF user_write_fields(1)]

lemma check_login_keeps_spent:
  assumes "code_spent key e w" and "cx_jsNow cx < e"
  shows "code_spent key e (snd (check_login_totp env cenv cx userId code w))"
proof -
  let ?w1 = "snd (consumeMfaVerificationAttempt cx userId w)"
  have w1: "code_spent key e ?w1" using assms(1) by (simp add: code_spent_def)
  have "code_spent key e (snd (rejectReplayedTotpCode env cx userId code ?w1))" by (rule reject_keeps_spent [OF w1 assms(2)])
  with w1 show ?thesis by (simp add: check_login_totp_def case_prod_beta split: option.splits)
qed

lemma check_login_refuses_spent:
  assumes "code_spent (totp_key env userId code) e w" and "cx_jsNow cx < e"
  shows "fst (check_login_totp env cenv cx userId code w) \<noteq> Inr m"
proof -
  let ?w1 = "snd (consumeMfaVerificationAttempt cx userId w)"
  have w1: "code_spent (totp_key env userId code) e ?w1" using assms(1) by (simp add: code_spent_def)
  from reject_spent [OF w1 assms(2)] show ?thesis by (simp add: check_login_totp_def case_prod_beta split: option.splits)
qed

lemma check_login_marks:
  assumes "check_login_totp env cenv cx userId code w = (Inr m, w')"
  shows "code_spent (totp_key env userId code) (cx_jsNow cx + 90000) w'"
  using assms by (auto simp: check_login_totp_def split: option.splits prod.splits if_splits intro: reject_marks)

lemma check_step_up_keeps_spent:
  assumes "code_spent key e w" and "cx_jsNow cx < e"
  shows "code_spent key e (snd (check_step_up_totp env cenv cx userId code w))"
proof -
  let ?w1 = "snd (consumeMfaVerificationAttempt cx userId w)"
  have w1: "code_spent key e ?w1" using assms(1) by (simp add: code_spent_def)
  have "code_spent key e (snd (rejectReplayedTotpCode env cx userId code ?w1))" by (rule reject_keeps_spent [OF w1 assms(2)])
  with w1 show ?thesis by (simp add: check_step_up_totp_def case_prod_beta split: option.splits)
qed

lemma check_step_up_refuses_spent:
  assumes "code_spent (totp_key env userId code) e w" and "cx_jsNow cx < e"
  shows "fst (check_step_up_totp env cenv cx userId code w) \<noteq> Inr m"
proof -
  let ?w1 = "snd (consumeMfaVerificationAttempt cx userId w)"
  have w1: "code_spent (totp_key env userId code) e ?w1" using assms(1) by (simp add: code_spent_def)
  from reject_spent [OF w1 assms(2)] show ?thesis by (simp add: check_step_up_totp_def case_prod_beta split: option.splits)
qed

lemma check_step_up_marks:
  assumes "check_step_up_totp env cenv cx userId code w = (Inr m, w')"
  shows "code_spent (totp_key env userId code) (cx_jsNow cx + 90000) w'"
  using assms by (auto simp: check_step_up_totp_def split: option.splits prod.splits if_splits intro: reject_marks)

lemma login_factor_keeps_spent:
  assumes "code_spent key e w" and "cx_jsNow cx < e"
  shows "code_spent key e (snd (login_factor env cenv cx user totp recovery w))"
proof (cases totp)
  case (Some code)
  have "code_spent key e (snd (check_login_totp env cenv cx (us_id user) code w))" by (rule check_login_keeps_spent [OF assms])
  then show ?thesis using Some by (simp add: login_factor_def case_prod_beta spent_frames split: sum.splits)
next
  case None
  with assms(1) show ?thesis by (auto simp: login_factor_def case_prod_beta code_spent_def split: option.splits bool.splits)
qed

lemma verify_login_keeps_spent:
  assumes "code_spent key e w" and "cx_jsNow cx < e"
  shows "code_spent key e (snd (verifyLoginMfa env cenv cx fr token totp recovery ip ua w))"
proof -
  obtain res r where v: "verifyMfaSession token (cx_jsNow cx) (lw_mfa_sessions w) = (res, r)" by fastforce
  let ?w1 = "w\<lparr>lw_mfa_sessions := r\<rparr>"
  have w1: "code_spent key e ?w1" using assms(1) by (simp add: code_spent_def)
  have lf: "code_spent key e (snd (login_factor env cenv cx user totp recovery ?w1))" for user
    by (rule login_factor_keeps_spent [OF w1 assms(2)])
  then have "code_spent key e (clearMfaVerificationFailures (us_id user) (snd (login_factor env cenv cx user totp recovery ?w1)))" for user
    by (simp add: code_spent_def)
  with assms(1) w1 lf show ?thesis
    by (simp add: verifyLoginMfa_def v Let_def case_prod_beta spent_frames split: sum.splits option.splits)
qed

lemma verify_keeps_spent:
  assumes "code_spent key e w" and "cx_jsNow cx < e"
  shows "code_spent key e (snd (verify env cenv cx pub code w))"
proof -
  have c: "code_spent key e (snd (check_step_up_totp env cenv cx (us_id user) code w))" for user :: UserRow by (rule check_step_up_keeps_spent [OF assms])
  then have "code_spent key e (clearMfaVerificationFailures (us_id user) (snd (check_step_up_totp env cenv cx (us_id user) code w)))" for user :: UserRow
    by (simp add: code_spent_def)
  with assms(1) c show ?thesis by (simp add: verify_def case_prod_beta spent_frames split: sum.splits)
qed

lemma enroll_factor_used:
  "enroll_factor env cenv cx fr codes user secret w = Inr (row, w') \<Longrightarrow> cw_totp_used w' = cw_totp_used w"
  by (auto simp: enroll_factor_def user_write_def split: sum.splits option.splits)

lemma enroll_confirm_keeps_spent:
  assumes "code_spent key e w" and "cx_jsNow cx < e"
  shows "code_spent key e (snd (enrollConfirm env cenv cx fr codes pub code w))"
proof -
  let ?r = "\<lambda>user. snd (redis_getdel (cx_jsNow cx) (stage_key user) (cw_enroll w))"
  have w1: "code_spent key e (w\<lparr>cw_enroll := ?r user\<rparr>)" for user :: UserRow using assms(1) by (simp add: code_spent_def)
  have w2: "code_spent key e (snd (rejectReplayedTotpCode env cx (us_id user) code (w\<lparr>cw_enroll := ?r user\<rparr>)))" for user
    by (rule reject_keeps_spent [OF w1 assms(2)])
  have w3: "code_spent key e w3" if "enroll_factor env cenv cx fr codes user secret
      (snd (rejectReplayedTotpCode env cx (us_id user) code (w\<lparr>cw_enroll := ?r user\<rparr>))) = Inr (row, w3)" for user secret row w3
    using w2 enroll_factor_used [OF that] by (simp add: code_spent_def)
  show ?thesis
    using assms(1) w1 w2 w3 by (auto simp: enrollConfirm_def Let_def case_prod_beta split: sum.splits option.splits)
qed

lemma plain_steps_used [simp]:
  "cw_totp_used (snd (enrollInit cenv cx secret pub methodType w)) = cw_totp_used w"
  "cw_totp_used (snd (deleteMfa env cx pub mid w)) = cw_totp_used w"
  "cw_totp_used (snd (service_delete cx pub mid w)) = cw_totp_used w"
  "cw_totp_used (snd (service_create cx fr pub b w)) = cw_totp_used w"
  "cw_totp_used (snd (forgotPassword env cx tokenId token email w)) = cw_totp_used w"
  by (simp_all add: enrollInit_def deleteMfa_def service_delete_def delete_on_def service_create_def forgotPassword_def
      issuePasswordResetIfUserExists_def Let_def case_prod_beta user_write_def split: sum.splits option.splits)

lemma step_keeps_spent:
  assumes "code_spent key e w" and "cx_jsNow cx < e"
  shows "code_spent key e (credential_step env cenv cx fr req w)"
proof (cases req)
  case (LoginMfaRequest token totp recovery ip ua)
  then show ?thesis by (simp add: verify_login_keeps_spent [OF assms])
next
  case (StepUpRequest pub code)
  then show ?thesis by (simp add: verify_keeps_spent [OF assms])
next
  case (EnrollConfirmRequest codes pub code)
  then show ?thesis by (simp add: enroll_confirm_keeps_spent [OF assms])
qed (simp_all add: assms(1) spent_frames code_spent_cong [OF plain_steps_used(1)] code_spent_cong [OF plain_steps_used(2)]
    code_spent_cong [OF plain_steps_used(3)] code_spent_cong [OF plain_steps_used(4)] code_spent_cong [OF plain_steps_used(5)])

lemma run_keeps_spent:
  "code_spent key e w \<Longrightarrow> \<forall>c \<in> set calls. cx_jsNow (fst c) < e \<Longrightarrow> code_spent key e (credential_run env cenv calls w)"
proof (induction calls arbitrary: w)
  case (Cons c calls)
  obtain cx fr req where c: "c = (cx, fr, req)" by (cases c)
  have "code_spent key e (credential_step env cenv cx fr req w)" using Cons.prems c by (auto intro: step_keeps_spent)
  from Cons.IH [OF this] show ?case using Cons.prems(2) c by simp
qed simp

text \<open>The time steps whose code the library accepts at an instant: the current one and its neighbours.\<close>

definition totp_steps :: "millis \<Rightarrow> int set" where
  "totp_steps t = {t div (TOTP_STEP_SECONDS * 1000) - MFA_TOTP_TOLERANCE_STEPS .. t div (TOTP_STEP_SECONDS * 1000) + MFA_TOTP_TOLERANCE_STEPS}"

lemma totp_steps_disjoint: "t1 + 90000 \<le> t2 \<Longrightarrow> totp_steps t1 \<inter> totp_steps t2 = {}"
  by (auto simp: totp_steps_def TOTP_STEP_SECONDS_def MFA_TOTP_TOLERANCE_STEPS_def)

text \<open>The account a public id names, and the code a request presents for which account: the second step of a login names the account
  by its MFA session, step-up and the confirmation of an enrolment by the signed-in user.\<close>

definition account_id :: "string \<Rightarrow> 'z CredentialWorld_scheme \<Rightarrow> nat option" where
  "account_id pub w = (case requireUserRecordByPublicId pub (aw_users w) of Inl _ \<Rightarrow> None | Inr user \<Rightarrow> Some (us_id user))"

fun presents :: "Ctx \<Rightarrow> CredentialRequest \<Rightarrow> 'z CredentialWorld_scheme \<Rightarrow> (nat \<times> string) option" where
  "presents cx (LoginMfaRequest token (Some code) recovery ip ua) w =
     (case fst (verifyMfaSession token (cx_jsNow cx) (lw_mfa_sessions w)) of
        Inl _ \<Rightarrow> None | Inr pub \<Rightarrow> map_option (\<lambda>i. (i, code)) (account_id pub w))"
| "presents cx (StepUpRequest pub code) w = map_option (\<lambda>i. (i, code)) (account_id pub w)"
| "presents cx (EnrollConfirmRequest codes pub code) w = map_option (\<lambda>i. (i, code)) (account_id pub w)"
| "presents cx _ w = None"

text \<open>The operation behind such a request answers with success.\<close>

fun accepts :: "LoginEnv \<Rightarrow> CredentialEnv \<Rightarrow> Ctx \<Rightarrow> LoginFresh \<Rightarrow> CredentialRequest \<Rightarrow> 'z CredentialWorld_scheme \<Rightarrow> bool" where
  "accepts env cenv cx fr (LoginMfaRequest token totp recovery ip ua) w \<longleftrightarrow> \<not> isl (fst (verifyLoginMfa env cenv cx fr token totp recovery ip ua w))"
| "accepts env cenv cx fr (StepUpRequest pub code) w \<longleftrightarrow> \<not> isl (fst (verify env cenv cx pub code w))"
| "accepts env cenv cx fr (EnrollConfirmRequest codes pub code) w \<longleftrightarrow> \<not> isl (fst (enrollConfirm env cenv cx fr codes pub code w))"
| "accepts env cenv cx fr _ w \<longleftrightarrow> False"

definition totp_accepted ::
    "LoginEnv \<Rightarrow> CredentialEnv \<Rightarrow> Ctx \<Rightarrow> LoginFresh \<Rightarrow> CredentialRequest \<Rightarrow> 'z CredentialWorld_scheme \<Rightarrow> nat \<Rightarrow> string \<Rightarrow> bool" where
  "totp_accepted env cenv cx fr req w userId code \<longleftrightarrow> presents cx req w = Some (userId, code) \<and> accepts env cenv cx fr req w"

lemma account_id_Some:
  "account_id pub w = Some i \<longleftrightarrow> (\<exists>user. requireUserRecordByPublicId pub (aw_users w) = Inr user \<and> us_id user = i)"
  by (simp add: account_id_def split: sum.splits)

lemma presented:
  assumes "presents cx req w = Some (userId, code)"
  obtains (login) token recovery ip ua pub r user where "req = LoginMfaRequest token (Some code) recovery ip ua"
      and "verifyMfaSession token (cx_jsNow cx) (lw_mfa_sessions w) = (Inr pub, r)"
      and "requireUserRecordByPublicId pub (aw_users w) = Inr user" and "us_id user = userId"
    | (step_up) pub user where "req = StepUpRequest pub code" and "requireUserRecordByPublicId pub (aw_users w) = Inr user"
      and "us_id user = userId"
    | (enrol) codes pub user where "req = EnrollConfirmRequest codes pub code"
      and "requireUserRecordByPublicId pub (aw_users w) = Inr user" and "us_id user = userId"
  using assms
  by (cases "(cx, req, w)" rule: presents.cases) (auto simp: account_id_Some prod_eq_iff split: sum.splits)

text \<open>Every acceptance records the code, and a recorded code is not accepted.\<close>

lemma accepted_marks:
  assumes "totp_accepted env cenv cx fr req w userId code"
  shows "code_spent (totp_key env userId code) (cx_jsNow cx + 90000) (credential_step env cenv cx fr req w)"
proof -
  from assms have p: "presents cx req w = Some (userId, code)" and a: "accepts env cenv cx fr req w"
    by (simp_all add: totp_accepted_def)
  from p show ?thesis
  proof (cases rule: presented)
    case (login token recovery ip ua pub r user)
    let ?w1 = "w\<lparr>lw_mfa_sessions := r\<rparr>"
    obtain m w2 where c: "check_login_totp env cenv cx userId code ?w1 = (Inr m, w2)"
      using a login by (auto simp: verifyLoginMfa_def login_factor_def isl_def Let_def split: sum.splits option.splits if_splits prod.splits)
    have spent: "code_spent (totp_key env userId code) (cx_jsNow cx + 90000) (clearMfaVerificationFailures userId (touch_method cx m userId w2))"
      using check_login_marks [OF c] by (simp add: code_spent_def login_more_fields(1) [OF touch_fields(1)])
    show ?thesis
      using a login c spent
      by (simp add: verifyLoginMfa_def login_factor_def Let_def case_prod_beta spent_frames split: option.splits sum.splits if_splits)
  next
    case (step_up pub user)
    obtain m w2 where c: "check_step_up_totp env cenv cx userId code w = (Inr m, w2)"
      using a step_up by (auto simp: verify_def isl_def split: sum.splits option.splits if_splits prod.splits)
    have spent: "code_spent (totp_key env userId code) (cx_jsNow cx + 90000) (clearMfaVerificationFailures userId w2)"
      using check_step_up_marks [OF c] by (simp add: code_spent_def)
    show ?thesis using a step_up c spent by (simp add: verify_def spent_frames split: if_splits)
  next
    case (enrol codes pub user)
    let ?w1 = "w\<lparr>cw_enroll := snd (redis_getdel (cx_jsNow cx) (stage_key user) (cw_enroll w))\<rparr>"
    obtain w2 secret row w3 where c: "rejectReplayedTotpCode env cx userId code ?w1 = (None, w2)"
      and e: "enroll_factor env cenv cx fr codes user secret w2 = Inr (row, w3)"
      and res: "enrollConfirm env cenv cx fr codes pub code w = (Inr (codes, am_public_id row), w3)"
      using a enrol
      by (auto simp: enrollConfirm_def isl_def Let_def case_prod_beta prod_eq_iff split: sum.splits option.splits if_splits)
    show ?thesis using enrol(1) res reject_marks [OF c] enroll_factor_used [OF e] by (simp add: code_spent_def)
  qed
qed

lemma spent_refused:
  assumes "code_spent (totp_key env userId code) e w" and "cx_jsNow cx < e"
  shows "\<not> totp_accepted env cenv cx fr req w userId code"
proof
  assume "totp_accepted env cenv cx fr req w userId code"
  then have p: "presents cx req w = Some (userId, code)" and a: "accepts env cenv cx fr req w"
    by (simp_all add: totp_accepted_def)
  from p show False
  proof (cases rule: presented)
    case (login token recovery ip ua pub r user)
    have "code_spent (totp_key env userId code) e (w\<lparr>lw_mfa_sessions := r\<rparr>)" using assms(1) by (simp add: code_spent_def)
    from check_login_refuses_spent [OF this assms(2)] a login show False
      by (auto simp: verifyLoginMfa_def login_factor_def isl_def Let_def case_prod_beta split: sum.splits option.splits if_splits)
  next
    case (step_up pub user)
    from check_step_up_refuses_spent [OF assms] a step_up show False
      by (auto simp: verify_def isl_def case_prod_beta split: sum.splits if_splits)
  next
    case (enrol codes pub user)
    have "code_spent (totp_key env userId code) e (w\<lparr>cw_enroll := snd (redis_getdel (cx_jsNow cx) (stage_key user) (cw_enroll w))\<rparr>)"
      using assms(1) by (simp add: code_spent_def)
    from reject_spent [OF this assms(2)] a enrol show False
      by (auto simp: enrollConfirm_def isl_def Let_def case_prod_beta split: sum.splits if_splits)
  qed
qed

text \<open>C2 A TOTP code is redeemed once.  A code is accepted for an account by three operations: the second step of a login, step-up, and the
  confirmation of an enrolment.  When one of them accepted the code for the account at one instant, any requests of these services
  ran after it, none later than the second acceptance, and one of the three accepts the same code for the same account again, then the second
  acceptance is at least ninety seconds after the first, and no time step is in the window of both: the second code is the code of another step that
  happens to have the same digits.\<close>

theorem totp_code_redeemed_once:
  assumes "totp_accepted env cenv cx fr req w userId code"
    and "\<forall>c \<in> set calls. cx_jsNow (fst c) \<le> cx_jsNow cx'"
    and "totp_accepted env cenv cx' fr' req' (credential_run env cenv calls (credential_step env cenv cx fr req w)) userId code"
  shows "cx_jsNow cx' \<ge> cx_jsNow cx + 90000 \<and> totp_steps (cx_jsNow cx) \<inter> totp_steps (cx_jsNow cx') = {}"
proof -
  have "cx_jsNow cx' \<ge> cx_jsNow cx + 90000"
  proof (rule ccontr)
    assume early: "\<not> ?thesis"
    have "code_spent (totp_key env userId code) (cx_jsNow cx + 90000) (credential_run env cenv calls (credential_step env cenv cx fr req w))"
      using early assms(2) by (intro run_keeps_spent [OF accepted_marks [OF assms(1)]]) auto
    from spent_refused [OF this] assms(3) early show False by auto
  qed
  then show ?thesis by (simp add: totp_steps_disjoint)
qed

section \<open>The hypotheses at a concrete account\<close>

definition demo_method :: "nat \<Rightarrow> string \<Rightarrow> string \<Rightarrow> AuthMethodRow" where
  "demo_method i pub methodType = \<lparr>am_id = i, am_public_id = pub, am_user_id = 1, am_method_type = methodType, am_provider = None,
     am_provider_user_id = None, am_encrypted_secret = Some ''s'', am_is_primary = False, am_last_used_at = None, am_created_at = 0,
     am_revoked_at = None\<rparr>"

definition demo_credentials :: "AuthMethodRow list \<Rightarrow> FederatedWorld" where
  "demo_credentials ms = demo_federated\<lparr>lw_methods := ms\<rparr>"

definition demo_totp_env :: CredentialEnv where
  "demo_totp_env = \<lparr>ce_encrypt = id, ce_decrypt = id, ce_totp = (\<lambda>secret code t. secret = code)\<rparr>"

text \<open>The account confirms an enrolment with its code at 0.  The same digits are refused at step-up while the record stands, and are
  accepted when it is gone, ninety seconds later.\<close>

definition demo_enrolling :: FederatedWorld where
  "demo_enrolling = (demo_credentials [])\<lparr>cw_enroll := [''mfa:enroll:usr_1'' \<mapsto> (''s'', Some 600000)]\<rparr>"

definition demo_enrolled :: FederatedWorld where
  "demo_enrolled = credential_step demo_login_env demo_totp_env (ctx_at 0) demo_fresh (EnrollConfirmRequest [] ''usr_1'' ''s'') demo_enrolling"

lemma demo_codes:
  "totp_accepted demo_login_env demo_totp_env (ctx_at 0) demo_fresh (EnrollConfirmRequest [] ''usr_1'' ''s'') demo_enrolling 1 ''s''"
  "\<not> totp_accepted demo_login_env demo_totp_env (ctx_at 89999) demo_fresh (StepUpRequest ''usr_1'' ''s'') demo_enrolled 1 ''s''"
  "totp_accepted demo_login_env demo_totp_env (ctx_at 90000) demo_fresh (StepUpRequest ''usr_1'' ''s'') demo_enrolled 1 ''s''"
  by code_simp+

theorem totp_code_redeemed_once_witness:
  "totp_accepted demo_login_env demo_totp_env (ctx_at 0) demo_fresh (EnrollConfirmRequest [] ''usr_1'' ''s'') demo_enrolling 1 ''s'' \<and>
   \<not> totp_accepted demo_login_env demo_totp_env (ctx_at 89999) demo_fresh (StepUpRequest ''usr_1'' ''s'') demo_enrolled 1 ''s'' \<and>
   totp_accepted demo_login_env demo_totp_env (ctx_at 90000) demo_fresh (StepUpRequest ''usr_1'' ''s'') demo_enrolled 1 ''s'' \<and>
   totp_steps 0 \<inter> totp_steps 90000 = {}"
proof -
  have "totp_steps (cx_jsNow (ctx_at 0)) \<inter> totp_steps (cx_jsNow (ctx_at 90000)) = {}"
    using totp_code_redeemed_once [OF demo_codes(1), of "[]" "ctx_at 90000" demo_fresh "StepUpRequest ''usr_1'' ''s''"]
      demo_codes(3) by (simp add: demo_enrolled_def)
  with demo_codes show ?thesis by (simp add: ctx_at_def)
qed

section \<open>Removing methods\<close>

lemma method_found:
  assumes "method_findByPublicIdForUser mid userId t = Some m"
  shows "m \<in> set t" and "am_public_id m = mid" and "active_method userId m"
  using select_first_Some_iff [OF assms [unfolded method_findByPublicIdForUser_def]] by auto

lemma active_after_revoke:
  "r \<in> set (update_where p (\<lambda>r. r\<lparr>am_revoked_at := Some n\<rparr>) t) \<Longrightarrow> active_method userId r \<Longrightarrow> r \<in> set t \<and> \<not> p r"
  by (auto simp: update_where_def active_method_def split: if_splits)

lemma no_factor_no_code:
  assumes "\<forall>r \<in> set (lw_methods w). \<not> active_totp userId r"
  shows "fst (check_login_totp env cenv cx userId code w) \<noteq> Inr m" and "fst (check_step_up_totp env cenv cx userId code w) \<noteq> Inr m"
proof -
  have "filter (active_totp userId) (lw_methods w) = []" using assms by (simp add: filter_empty_conv)
  then have none: "findTotpByUserId userId (lw_methods w) = None" by (simp add: findTotpByUserId_def)
  from none show "fst (check_login_totp env cenv cx userId code w) \<noteq> Inr m"
    by (simp add: check_login_totp_def case_prod_beta split: option.splits)
  from none show "fst (check_step_up_totp env cenv cx userId code w) \<noteq> Inr m"
    by (simp add: check_step_up_totp_def case_prod_beta split: option.splits)
qed

text \<open>C3 The generic endpoint removes a TOTP factor without the checks of the MFA endpoint.  For an account with MFA enabled and one
  TOTP method, \<^verbatim>\<open>DELETE /me/auth-methods/:id\<close> on that method succeeds (the MFA endpoint refuses it when an organization of the user
  requires MFA) and leaves the account's flag set with no factor behind it: signing in still asks for a second factor, and neither
  sign-in nor step-up accepts a TOTP code for the account any more.\<close>

theorem generic_delete_strands_mfa:
  assumes "requireUserRecordByPublicId pub (aw_users w) = Inr user" and "us_is_mfa_enabled user"
    and "method_findByPublicIdForUser mid (us_id user) (lw_methods w) = Some m"
    and "filter (active_totp (us_id user)) (lw_methods w) = [m]"
  shows "\<exists>w'. service_delete cx pub mid w = (Inr (), w') \<and>
    requireUserRecordByPublicId pub (aw_users w') = Inr user \<and>
    (\<forall>cx' fr ip ua b e. no_session (fst (completeFirstFactorAuth env cx' fr ip ua b e user w'))) \<and>
    (\<forall>cx' code m'. fst (check_login_totp env cenv cx' (us_id user) code w') \<noteq> Inr m' \<and>
      fst (check_step_up_totp env cenv cx' (us_id user) code w') \<noteq> Inr m') \<and>
    (le_orgRequiresMfa env (us_id user) \<longrightarrow> fst (deleteMfa env cx pub mid w) = Inl (ForbiddenError ''errors:lastMfaRequiredByOrganization''))"
proof -
  have "m \<in> set (filter (active_totp (us_id user)) (lw_methods w))" using assms(4) by simp
  then have m: "m \<in> set (lw_methods w)" "active_method (us_id user) m" "am_method_type m = ''MFA_TOTP''"
    by (auto simp: active_totp_def)
  let ?p = "\<lambda>r. am_id r = am_id m \<and> active_method (us_id user) r \<and> (am_method_type r \<notin> set LOGIN_CAPABLE_METHOD_TYPES \<or>
      list_ex (\<lambda>other. am_id other \<noteq> am_id m \<and> login_capable (us_id user) other) (lw_methods w))"
  let ?t = "update_where ?p (\<lambda>r. r\<lparr>am_revoked_at := Some (cx_jsNow cx)\<rparr>) (lw_methods w)"
  have p: "?p m" using m by (simp add: LOGIN_CAPABLE_METHOD_TYPES_def)
  obtain r where rev: "revokeUnlessLastLoginCapable (lw_methods w) (cx_jsNow cx) (am_id m) (us_id user) (lw_methods w) = (Some r, ?t)"
  proof -
    have "fst (update_row ?p (\<lambda>r. r\<lparr>am_revoked_at := Some (cx_jsNow cx)\<rparr>) (lw_methods w)) \<noteq> None"
      using p m(1) by (auto simp: update_row_None)
    then show thesis using that by (auto simp: revokeUnlessLastLoginCapable_def prod_eq_iff)
  qed
  have del: "service_delete cx pub mid w = (Inr (), w\<lparr>lw_methods := ?t\<rparr>)"
    using assms(1,3) m(3) by (simp add: service_delete_def delete_on_def rev)
  have only: "r = m" if "r \<in> set (lw_methods w)" "active_totp (us_id user) r" for r
  proof -
    have "r \<in> set (filter (active_totp (us_id user)) (lw_methods w))" using that by simp
    then show ?thesis using assms(4) by simp
  qed
  have "\<not> active_totp (us_id user) r" if r: "r \<in> set ?t" for r
  proof
    assume act: "active_totp (us_id user) r"
    then have "active_method (us_id user) r" by (simp add: active_totp_def)
    from active_after_revoke [OF r this] have "r \<in> set (lw_methods w)" "\<not> ?p r" by blast+
    with only act p show False by blast
  qed
  then have "fst (check_login_totp env cenv cx' (us_id user) code (w\<lparr>lw_methods := ?t\<rparr>)) \<noteq> Inr m' \<and>
      fst (check_step_up_totp env cenv cx' (us_id user) code (w\<lparr>lw_methods := ?t\<rparr>)) \<noteq> Inr m'" for cx' code m'
    by (intro conjI no_factor_no_code) simp_all
  moreover have "no_session (fst (completeFirstFactorAuth env cx' fr ip ua b e user (w\<lparr>lw_methods := ?t\<rparr>)))" for cx' fr ip ua b e
    using assms(2) by (simp add: completeFirstFactorAuth_def)
  moreover have "fst (deleteMfa env cx pub mid w) = Inl (ForbiddenError ''errors:lastMfaRequiredByOrganization'')"
    if "le_orgRequiresMfa env (us_id user)"
    using that assms(1,3,4) m(3)
    by (simp add: deleteMfa_def listMfaByUserId_def capListWithWarning_def DEFAULT_REPOSITORY_LIST_LIMIT_def)
  ultimately show ?thesis using del assms(1) by simp
qed

theorem generic_delete_strands_mfa_witness:
  "\<exists>w'. service_delete (ctx_at 5) ''usr_1'' ''amt_3'' (demo_credentials [demo_method 3 ''amt_3'' ''MFA_TOTP'']) = (Inr (), w')"
proof -
  let ?u = "demo_user\<lparr>us_is_mfa_enabled := True\<rparr>" and ?m = "demo_method 3 ''amt_3'' ''MFA_TOTP''"
  let ?w = "demo_credentials [?m]"
  have a: "requireUserRecordByPublicId ''usr_1'' (aw_users ?w) = Inr ?u"
    by (simp add: requireUserRecordByPublicId_def findByPublicId_def live_user_def demo_credentials_def demo_federated_def demo_user_def)
  have b: "us_is_mfa_enabled ?u" by simp
  have c: "method_findByPublicIdForUser ''amt_3'' (us_id ?u) (lw_methods ?w) = Some ?m"
    and d: "filter (active_totp (us_id ?u)) (lw_methods ?w) = [?m]"
    by (simp_all add: method_findByPublicIdForUser_def active_totp_def active_method_def demo_method_def demo_credentials_def demo_user_def)
  from generic_delete_strands_mfa [OF a b c d, of "ctx_at 5" demo_login_env demo_totp_env] show ?thesis by blast
qed

text \<open>What a removal that succeeds leaves: the method is revoked when its guard held against the snapshot it read.\<close>

lemma delete_on_succeeds:
  assumes "m \<in> set (lw_methods w)" and "active_method (us_id u) m"
    and "other \<in> set snapshot" and "am_id other \<noteq> am_id m" and "login_capable (us_id u) other"
  shows "\<exists>w'. delete_on snapshot cx u m w = (Inr (), w') \<and>
    lw_methods w' = update_where (\<lambda>r. am_id r = am_id m \<and> active_method (us_id u) r) (\<lambda>r. r\<lparr>am_revoked_at := Some (cx_jsNow cx)\<rparr>) (lw_methods w)"
proof -
  have ex: "list_ex (\<lambda>other. am_id other \<noteq> am_id m \<and> login_capable (us_id u) other) snapshot"
    using assms(3-5) by (auto simp: list_ex_iff)
  let ?p = "\<lambda>r. am_id r = am_id m \<and> active_method (us_id u) r"
  obtain r where "revokeUnlessLastLoginCapable snapshot (cx_jsNow cx) (am_id m) (us_id u) (lw_methods w) =
      (Some r, update_where ?p (\<lambda>r. r\<lparr>am_revoked_at := Some (cx_jsNow cx)\<rparr>) (lw_methods w))"
  proof -
    have "fst (update_row ?p (\<lambda>r. r\<lparr>am_revoked_at := Some (cx_jsNow cx)\<rparr>) (lw_methods w)) \<noteq> None"
      using assms(1,2) by (auto simp: update_row_None)
    then show thesis using that ex by (auto simp: revokeUnlessLastLoginCapable_def prod_eq_iff)
  qed
  then show ?thesis by (simp add: delete_on_def)
qed

lemma last_method_is_kept:
  assumes "\<forall>r \<in> set (lw_methods w). login_capable (us_id u) r \<longrightarrow> am_id r = am_id m" and "am_method_type m \<in> set LOGIN_CAPABLE_METHOD_TYPES"
    and "\<forall>r \<in> set (lw_methods w). am_id r = am_id m \<longrightarrow> am_method_type r = am_method_type m"
  shows "delete_on (lw_methods w) cx u m w = (Inl (ForbiddenError ''errors:cannotRemoveLastAuthMethod''), w)"
proof -
  have "\<not> list_ex (\<lambda>other. am_id other \<noteq> am_id m \<and> login_capable (us_id u) other) (lw_methods w)"
    using assms(1) by (auto simp: list_ex_iff)
  then have "fst (revokeUnlessLastLoginCapable (lw_methods w) (cx_jsNow cx) (am_id m) (us_id u) (lw_methods w)) = None"
    using assms(2,3) by (auto simp: revokeUnlessLastLoginCapable_def update_row_None)
  then show ?thesis using assms(2) by (auto simp: delete_on_def split: prod.splits)
qed

text \<open>C4 Overlapping removals can take an account's last login method.  For an account with exactly two login-capable methods, removing
  one and then the other is refused with \<^verbatim>\<open>cannotRemoveLastAuthMethod\<close>; but when the second removal read its snapshot before the
  first committed, which no lock prevents, both succeed and no login-capable method is left.  The guard in the \<^verbatim>\<open>UPDATE\<close> covers the row it
  revokes and not the rows it counts.\<close>

theorem overlapping_deletes_remove_last_method:
  assumes "filter (login_capable (us_id u)) (lw_methods w) = [m1, m2]" and "distinct (map am_id (lw_methods w))"
  shows "(\<exists>w1 w2. delete_on (lw_methods w) cx1 u m1 w = (Inr (), w1) \<and> delete_on (lw_methods w) cx2 u m2 w1 = (Inr (), w2) \<and>
      filter (login_capable (us_id u)) (lw_methods w2) = []) \<and>
    (\<forall>w1. delete_on (lw_methods w) cx1 u m1 w = (Inr (), w1) \<longrightarrow>
      fst (delete_on (lw_methods w1) cx2 u m2 w1) = Inl (ForbiddenError ''errors:cannotRemoveLastAuthMethod''))"
proof -
  let ?t = "lw_methods w" and ?rev = "\<lambda>i n. update_where (\<lambda>r. am_id r = i \<and> active_method (us_id u) r) (\<lambda>r. r\<lparr>am_revoked_at := Some n\<rparr>)"
  have both: "set (filter (login_capable (us_id u)) ?t) = {m1, m2}" using assms(1) by simp
  then have mem: "m1 \<in> set ?t" "m2 \<in> set ?t" "login_capable (us_id u) m1" "login_capable (us_id u) m2" by auto
  have only: "r = m1 \<or> r = m2" if "r \<in> set ?t" "login_capable (us_id u) r" for r
  proof -
    have "r \<in> set (filter (login_capable (us_id u)) ?t)" using that by simp
    then show ?thesis unfolding both by simp
  qed
  have "distinct (map am_id (filter (login_capable (us_id u)) ?t))" using assms(2) by (simp add: distinct_map_filter)
  then have ne: "am_id m1 \<noteq> am_id m2" using assms(1) by simp
  have act: "active_method (us_id u) m1" "active_method (us_id u) m2" using mem by (simp_all add: login_capable_def)
  obtain w1 where d1: "delete_on ?t cx1 u m1 w = (Inr (), w1)" and t1: "lw_methods w1 = ?rev (am_id m1) (cx_jsNow cx1) ?t"
    using delete_on_succeeds [OF mem(1) act(1) mem(2) ne [symmetric] mem(4)] by blast
  have m2: "m2 \<in> set (lw_methods w1)" using mem(2) ne by (force simp: t1 update_where_def)
  obtain w2 where d2: "delete_on ?t cx2 u m2 w1 = (Inr (), w2)" and t2: "lw_methods w2 = ?rev (am_id m2) (cx_jsNow cx2) (lw_methods w1)"
    using delete_on_succeeds [OF m2 act(2) mem(1) ne mem(3)] by blast
  have left1: "r = m2" if "r \<in> set (lw_methods w1)" "login_capable (us_id u) r" for r
  proof -
    have "r \<in> set ?t" "\<not> (am_id r = am_id m1 \<and> active_method (us_id u) r)"
      using active_after_revoke [of r _ _ ?t "us_id u"] that t1 by (auto simp: login_capable_def)
    with only that(2) act(1) show ?thesis by blast
  qed
  have "\<not> login_capable (us_id u) r" if "r \<in> set (lw_methods w2)" for r
  proof
    assume lc: "login_capable (us_id u) r"
    then have "r \<in> set (lw_methods w1)" "\<not> (am_id r = am_id m2 \<and> active_method (us_id u) r)"
      using active_after_revoke [of r _ _ "lw_methods w1" "us_id u"] that t2 by (auto simp: login_capable_def)
    with left1 lc act(2) show False by blast
  qed
  then have overlap: "filter (login_capable (us_id u)) (lw_methods w2) = []" by (simp add: filter_empty_conv)
  have "am_id r = am_id m2 \<longrightarrow> am_method_type r = am_method_type m2" if "r \<in> set (lw_methods w1)" for r
  proof
    assume k: "am_id r = am_id m2"
    with that ne have "r \<in> set ?t" by (auto simp: t1 update_where_def split: if_splits)
    with k mem(2) assms(2) have "r = m2" by (auto simp: distinct_map inj_on_def)
    then show "am_method_type r = am_method_type m2" by simp
  qed
  moreover have "am_method_type m2 \<in> set LOGIN_CAPABLE_METHOD_TYPES" using mem(4) by (simp add: login_capable_def)
  ultimately have "delete_on (lw_methods w1) cx2 u m2 w1 = (Inl (ForbiddenError ''errors:cannotRemoveLastAuthMethod''), w1)"
    using left1 by (intro last_method_is_kept) auto
  with d1 d2 overlap show ?thesis by auto
qed

theorem overlapping_deletes_remove_last_method_witness:
  "\<exists>w1 w2. delete_on [demo_method 3 ''amt_3'' ''EMAIL_CODE'', demo_method 4 ''amt_4'' ''OAUTH''] (ctx_at 5) demo_user (demo_method 3 ''amt_3'' ''EMAIL_CODE'')
      (demo_credentials [demo_method 3 ''amt_3'' ''EMAIL_CODE'', demo_method 4 ''amt_4'' ''OAUTH'']) = (Inr (), w1) \<and>
    delete_on [demo_method 3 ''amt_3'' ''EMAIL_CODE'', demo_method 4 ''amt_4'' ''OAUTH''] (ctx_at 5) demo_user (demo_method 4 ''amt_4'' ''OAUTH'') w1 = (Inr (), w2) \<and>
    filter (login_capable 1) (lw_methods w2) = []"
proof -
  let ?ms = "[demo_method 3 ''amt_3'' ''EMAIL_CODE'', demo_method 4 ''amt_4'' ''OAUTH'']"
  have t: "lw_methods (demo_credentials ?ms) = ?ms" by (simp add: demo_credentials_def)
  have "filter (login_capable (us_id demo_user)) (lw_methods (demo_credentials ?ms)) = ?ms"
    "distinct (map am_id (lw_methods (demo_credentials ?ms)))"
    unfolding t by (simp_all add: login_capable_def active_method_def demo_method_def demo_user_def LOGIN_CAPABLE_METHOD_TYPES_def)
  from conjunct1 [OF overlapping_deletes_remove_last_method [OF this]] show ?thesis unfolding t by (simp add: demo_user_def)
qed

end
