(* ===== verification/Subscriptions.thy ===== *)
theory Subscriptions
  imports Transactions JS_Values
begin

text \<open>
  Plans and subscriptions: \<^verbatim>\<open>src/src/domains/billing/sub-domains/plan/\<close> (repository, service),
  \<^verbatim>\<open>sub-domains/subscription/\<close> (\<^verbatim>\<open>subscription.schema.ts\<close>, \<^verbatim>\<open>subscription.repository.ts\<close>,
  \<^verbatim>\<open>subscription.service.ts\<close>, \<^verbatim>\<open>stripe-payment-provider.ts\<close>).  The tables carry the unique indexes and checks of the
  schema; row-level security shows a statement only the rows of the organization the transaction is
  pinned to, and none when that organization is soft-deleted.  What Stripe accepts, and the ids it
  returns, are arguments; the calls it accepted are recorded.  Shown: a terminal subscription is never
  revived and an organization never holds two live ones, a refused provider call leaves the
  subscriptions alone, and a create that fails cancels what it made at Stripe.
\<close>

section \<open>The tables\<close>

record PlanRow =
  pl_id :: nat
  pl_public_id :: string
  pl_is_active :: bool
  pl_price_monthly :: int   \<comment> \<open>in hundredths: \<^verbatim>\<open>decimal(10, 2)\<close>\<close>
  pl_included_seats :: "int option"
  pl_stripe_price_monthly_id :: "string option"
  pl_stripe_price_yearly_id :: "string option"

record OrganizationRow =
  og_id :: nat
  og_public_id :: string
  og_name :: string
  og_slug :: "string option"
  og_type :: string
  og_owner_user_id :: nat
  og_status :: string
  og_stripe_customer_id :: "string option"
  og_deletion_started_at :: "millis option"
  og_deleted_at :: "millis option"

record SubscriptionRow =
  su_id :: nat
  su_public_id :: string
  su_organization_id :: nat
  su_plan_id :: nat
  su_provider :: "string option"
  su_provider_subscription_id :: "string option"
  su_provider_customer_id :: "string option"
  su_billing_cycle :: string
  su_seats :: "int option"
  su_status :: string
  su_current_period_start :: millis
  su_current_period_end :: millis
  su_trial_end :: "millis option"
  su_cancel_at_period_end :: bool
  su_canceled_at :: "millis option"
  su_last_stripe_event_created_at :: "millis option"
  su_created_at :: millis
  su_updated_at :: millis
  su_created_by_user_id :: "nat option"

record BillingDb =
  bd_plans :: "PlanRow tbl"
  bd_organizations :: "OrganizationRow tbl"
  bd_subscriptions :: "SubscriptionRow tbl"
  bd_tombstones :: "string \<Rightarrow> millis option"   \<comment> \<open>\<^verbatim>\<open>stripe_subscription_tombstones\<close>, by provider id\<close>
  bd_next_id :: nat

definition INACTIVE_SUBSCRIPTION_STATUSES :: "string list" where
  "INACTIVE_SUBSCRIPTION_STATUSES = [''CANCELED'', ''INCOMPLETE_EXPIRED'']"

definition terminal :: "SubscriptionRow \<Rightarrow> bool" where
  "terminal s \<longleftrightarrow> su_status s \<in> set INACTIVE_SUBSCRIPTION_STATUSES"

definition SUBSCRIPTION_STATUSES :: "string list" where
  "SUBSCRIPTION_STATUSES = [''TRIALING'', ''ACTIVE'', ''PAST_DUE'', ''CANCELED'', ''PAUSED'', ''UNPAID'',
     ''INCOMPLETE'', ''INCOMPLETE_EXPIRED'']"

text \<open>The first check constraint a row fails, and the first unique index a table fails.\<close>

definition failed_check :: "SubscriptionRow \<Rightarrow> string option" where
  "failed_check s =
     (if su_status s \<notin> set SUBSCRIPTION_STATUSES then Some ''chk_subs_status''
      else if su_billing_cycle s \<notin> {''MONTHLY'', ''YEARLY''} then Some ''chk_subs_cycle''
      else if (case su_seats s of None \<Rightarrow> False | Some n \<Rightarrow> n < 0) then Some ''chk_subs_seats''
      else if su_current_period_end s \<le> su_current_period_start s then Some ''chk_subs_period''
      else if su_updated_at s < su_created_at s then Some ''chk_subs_updated''
      else None)"

definition failed_check_of :: "SubscriptionRow list \<Rightarrow> string option" where
  "failed_check_of rows = (case filter (\<lambda>r. failed_check r \<noteq> None) rows of [] \<Rightarrow> None | r # _ \<Rightarrow> failed_check r)"

definition public_ids_unique :: "SubscriptionRow tbl \<Rightarrow> bool" where
  "public_ids_unique t = distinct (map su_public_id t)"

definition one_live_per_organization :: "SubscriptionRow tbl \<Rightarrow> bool" where
  "one_live_per_organization t = distinct (map su_organization_id (filter (\<lambda>s. \<not> terminal s) t))"

definition provider_ids_unique :: "SubscriptionRow tbl \<Rightarrow> bool" where
  "provider_ids_unique t =
     distinct (map su_provider_subscription_id (filter (\<lambda>s. su_provider_subscription_id s \<noteq> None) t))"

definition failed_index :: "SubscriptionRow tbl \<Rightarrow> string option" where
  "failed_index t =
     (if \<not> public_ids_unique t then Some ''idx_subscriptions_public_id''
      else if \<not> one_live_per_organization t then Some ''idx_subscriptions_org''
      else if \<not> provider_ids_unique t then Some ''idx_subscriptions_provider_subscription_id_unique''
      else None)"

section \<open>Statements under row-level security\<close>

definition findOrganization :: "string \<Rightarrow> BillingDb \<Rightarrow> OrganizationRow option" where
  "findOrganization publicId d =
     select_first (\<lambda>o'. og_public_id o' = publicId \<and> og_deleted_at o' = None) (bd_organizations d)"

text \<open>\<^verbatim>\<open>org\<close> is the public id in \<^verbatim>\<open>app.current_organization_public_id\<close>.\<close>

definition visible :: "string \<Rightarrow> BillingDb \<Rightarrow> SubscriptionRow \<Rightarrow> bool" where
  "visible org d s \<longleftrightarrow> (case findOrganization org d of None \<Rightarrow> False | Some o' \<Rightarrow> su_organization_id s = og_id o')"

definition select_subscription :: "string \<Rightarrow> (SubscriptionRow \<Rightarrow> bool) \<Rightarrow> BillingDb \<Rightarrow> SubscriptionRow option" where
  "select_subscription org p d = select_first (\<lambda>s. visible org d s \<and> p s) (bd_subscriptions d)"

definition update_subscription ::
    "string \<Rightarrow> (SubscriptionRow \<Rightarrow> bool) \<Rightarrow> (SubscriptionRow \<Rightarrow> SubscriptionRow) \<Rightarrow>
     BillingDb \<Rightarrow> thrown + SubscriptionRow option \<times> BillingDb" where
  "update_subscription org p f d =
     (let q = (\<lambda>s. visible org d s \<and> p s);
          hit = update_returning q f (bd_subscriptions d);
          t' = update_where q f (bd_subscriptions d)
      in case failed_check_of hit of
           Some c \<Rightarrow> Inl (Sql_check c)
         | None \<Rightarrow> (case failed_index t' of
             Some c \<Rightarrow> Inl (Sql_unique c)
           | None \<Rightarrow> Inr (rows0 hit, d\<lparr>bd_subscriptions := t'\<rparr>)))"

record SubscriptionCreateData =
  sc_organization_id :: nat
  sc_plan_id :: nat
  sc_billing_cycle :: string
  sc_status :: "string option"
  sc_current_period_start :: millis
  sc_current_period_end :: millis
  sc_canceled_at :: "millis option"
  sc_cancel_at_period_end :: bool
  sc_provider :: "string option"
  sc_provider_subscription_id :: "string option"
  sc_provider_customer_id :: "string option"
  sc_created_by_user_id :: "nat option"
  sc_last_stripe_event_created_at :: "millis option"

definition new_subscription :: "millis \<Rightarrow> nat \<Rightarrow> string \<Rightarrow> SubscriptionCreateData \<Rightarrow> SubscriptionRow" where
  "new_subscription now i publicId data =
     \<lparr>su_id = i, su_public_id = publicId, su_organization_id = sc_organization_id data, su_plan_id = sc_plan_id data,
      su_provider = sc_provider data, su_provider_subscription_id = sc_provider_subscription_id data,
      su_provider_customer_id = sc_provider_customer_id data, su_billing_cycle = sc_billing_cycle data,
      su_seats = None,
      su_status = (case sc_status data of None \<Rightarrow> ''TRIALING'' | Some s \<Rightarrow> s),
      su_current_period_start = sc_current_period_start data, su_current_period_end = sc_current_period_end data,
      su_trial_end = None, su_cancel_at_period_end = sc_cancel_at_period_end data,
      su_canceled_at = sc_canceled_at data,
      su_last_stripe_event_created_at = sc_last_stripe_event_created_at data,
      su_created_at = now, su_updated_at = now, su_created_by_user_id = sc_created_by_user_id data\<rparr>"

definition insert_subscription ::
    "string \<Rightarrow> millis \<Rightarrow> string \<Rightarrow> SubscriptionCreateData \<Rightarrow> BillingDb \<Rightarrow> thrown + SubscriptionRow \<times> BillingDb" where
  "insert_subscription org now publicId data d =
     (let row = new_subscription now (bd_next_id d) publicId data;
          t' = bd_subscriptions d @ [row]
      in if \<not> visible org d row then Inl (Sql_check ''subscriptions_tenant_isolation'')
         else case failed_check row of
           Some c \<Rightarrow> Inl (Sql_check c)
         | None \<Rightarrow> (case failed_index t' of
             Some c \<Rightarrow> Inl (Sql_unique c)
           | None \<Rightarrow> Inr (row, d\<lparr>bd_subscriptions := t', bd_next_id := Suc (bd_next_id d)\<rparr>)))"

section \<open>Plans\<close>

definition plan_findByPublicId :: "string \<Rightarrow> BillingDb \<Rightarrow> PlanRow option" where
  "plan_findByPublicId publicId d = select_first (\<lambda>p. pl_public_id p = publicId) (bd_plans d)"

definition plan_findById :: "nat \<Rightarrow> BillingDb \<Rightarrow> PlanRow option" where
  "plan_findById i d = select_first (\<lambda>p. pl_id p = i) (bd_plans d)"

definition findByStripePriceId :: "string \<Rightarrow> BillingDb \<Rightarrow> PlanRow option" where
  "findByStripePriceId priceId d = select_first (\<lambda>p. pl_is_active p \<and>
     (pl_stripe_price_monthly_id p = Some priceId \<or> pl_stripe_price_yearly_id p = Some priceId)) (bd_plans d)"

definition findFreePlanSeatCeiling :: "BillingDb \<Rightarrow> int option" where
  "findFreePlanSeatCeiling d =
     (case sort_key pl_price_monthly (filter pl_is_active (bd_plans d)) of
        [] \<Rightarrow> None
      | p # _ \<Rightarrow> pl_included_seats p)"

definition requireActivePlanByPublicId :: "string \<Rightarrow> (BillingDb, PlanRow) db" where
  "requireActivePlanByPublicId publicId = act_bind (sql_read (plan_findByPublicId publicId))
     (\<lambda>row. case row of None \<Rightarrow> act_throw (App (NotFoundError ''Plan''))
        | Some p \<Rightarrow> if pl_is_active p then act_return p else act_throw (App (NotFoundError ''Plan'')))"

definition requirePlanRecordByInternalId :: "nat \<Rightarrow> (BillingDb, PlanRow) db" where
  "requirePlanRecordByInternalId i = act_bind (sql_read (plan_findById i))
     (\<lambda>row. case row of None \<Rightarrow> act_throw (App (NotFoundError ''Plan'')) | Some p \<Rightarrow> act_return p)"

section \<open>The subscription repository\<close>

text \<open>A row joined with its plan.\<close>

type_synonym SubscriptionWithPlan = "SubscriptionRow \<times> PlanRow option"

definition with_plan :: "BillingDb \<Rightarrow> SubscriptionRow \<Rightarrow> SubscriptionWithPlan" where
  "with_plan d s = (s, plan_findById (su_plan_id s) d)"

definition findActiveByOrganization :: "string \<Rightarrow> nat \<Rightarrow> (BillingDb, SubscriptionWithPlan option) db" where
  "findActiveByOrganization org organizationId = sql_read (\<lambda>d. map_option (with_plan d)
     (select_subscription org (\<lambda>s. su_organization_id s = organizationId \<and> \<not> terminal s) d))"

definition subscription_findByPublicId :: "string \<Rightarrow> string \<Rightarrow> nat \<Rightarrow> (BillingDb, SubscriptionWithPlan option) db" where
  "subscription_findByPublicId org publicId organizationId = sql_read (\<lambda>d. map_option (with_plan d)
     (select_subscription org (\<lambda>s. su_public_id s = publicId \<and> su_organization_id s = organizationId) d))"

definition findOrganizationIdFromCurrentContext :: "string \<Rightarrow> (BillingDb, nat option) db" where
  "findOrganizationIdFromCurrentContext org = sql_read (\<lambda>d. map_option og_id (findOrganization org d))"

text \<open>\<^verbatim>\<open>genId n\<close> is the public id generated by the \<^verbatim>\<open>n\<close>-th attempt.\<close>

definition subscription_create ::
    "string \<Rightarrow> millis \<Rightarrow> (nat \<Rightarrow> string) \<Rightarrow> SubscriptionCreateData \<Rightarrow> (BillingDb, SubscriptionWithPlan) db" where
  "subscription_create org now genId data =
     act_bind (runInsertWithPublicIdentifierRetry (\<lambda>n. sql (insert_subscription org now (genId n) data)))
       (\<lambda>row. act_bind (subscription_findByPublicId org (su_public_id row) (sc_organization_id data))
         (\<lambda>joined. case joined of
             None \<Rightarrow> act_throw (Plain ''subscription.create: row not visible after insert (context/RLS mismatch?)'')
           | Some x \<Rightarrow> act_return x))"

record SubscriptionUpdateData =
  ud_cancel_at_period_end :: "bool option"
  ud_status :: "string option"
  ud_canceled_at :: "millis option"
  ud_current_period_start :: "millis option"
  ud_current_period_end :: "millis option"
  ud_plan_id :: "nat option"
  ud_seats :: "int option"
  ud_last_stripe_event_created_at :: "millis option"

definition no_update :: SubscriptionUpdateData where
  "no_update = \<lparr>ud_cancel_at_period_end = None, ud_status = None, ud_canceled_at = None,
     ud_current_period_start = None, ud_current_period_end = None, ud_plan_id = None, ud_seats = None,
     ud_last_stripe_event_created_at = None\<rparr>"

definition set_if :: "'a option \<Rightarrow> 'a \<Rightarrow> 'a" where
  "set_if v old = (case v of None \<Rightarrow> old | Some x \<Rightarrow> x)"

definition set_nullable_if :: "'a option \<Rightarrow> 'a option \<Rightarrow> 'a option" where
  "set_nullable_if v old = (case v of None \<Rightarrow> old | Some x \<Rightarrow> Some x)"

definition apply_update :: "millis \<Rightarrow> SubscriptionUpdateData \<Rightarrow> SubscriptionRow \<Rightarrow> SubscriptionRow" where
  "apply_update now data s = s\<lparr>
     su_cancel_at_period_end := set_if (ud_cancel_at_period_end data) (su_cancel_at_period_end s),
     su_status := set_if (ud_status data) (su_status s),
     su_canceled_at := set_nullable_if (ud_canceled_at data) (su_canceled_at s),
     su_current_period_start := set_if (ud_current_period_start data) (su_current_period_start s),
     su_current_period_end := set_if (ud_current_period_end data) (su_current_period_end s),
     su_plan_id := set_if (ud_plan_id data) (su_plan_id s),
     su_seats := set_nullable_if (ud_seats data) (su_seats s),
     su_last_stripe_event_created_at :=
       set_nullable_if (ud_last_stripe_event_created_at data) (su_last_stripe_event_created_at s),
     su_updated_at := now\<rparr>"

definition subscription_update ::
    "string \<Rightarrow> millis \<Rightarrow> string \<Rightarrow> nat \<Rightarrow> SubscriptionUpdateData \<Rightarrow> (BillingDb, SubscriptionWithPlan option) db" where
  "subscription_update org now publicId organizationId data =
     act_bind (sql (update_subscription org
         (\<lambda>s. su_public_id s = publicId \<and> su_organization_id s = organizationId \<and> \<not> terminal s)
         (apply_update now data)))
       (\<lambda>row. case row of None \<Rightarrow> act_return None
          | Some _ \<Rightarrow> subscription_findByPublicId org publicId organizationId)"

definition existsByProviderSubscriptionId :: "string \<Rightarrow> string \<Rightarrow> (BillingDb, bool) db" where
  "existsByProviderSubscriptionId org providerId = sql_read (\<lambda>d.
     select_subscription org (\<lambda>s. su_provider_subscription_id s = Some providerId) d \<noteq> None)"

definition watermark_before :: "millis \<Rightarrow> SubscriptionRow \<Rightarrow> bool" where
  "watermark_before t s = (case su_last_stripe_event_created_at s of None \<Rightarrow> True | Some w \<Rightarrow> w < t)"

definition watermark_upto :: "millis \<Rightarrow> SubscriptionRow \<Rightarrow> bool" where
  "watermark_upto t s = (case su_last_stripe_event_created_at s of None \<Rightarrow> True | Some w \<Rightarrow> w \<le> t)"

definition syncFromStripeProviderSubscription ::
    "string \<Rightarrow> millis \<Rightarrow> string \<Rightarrow> SubscriptionUpdateData \<Rightarrow> millis \<Rightarrow> (BillingDb, SubscriptionRow option) db" where
  "syncFromStripeProviderSubscription org now providerId data eventCreatedAt = sql (update_subscription org
     (\<lambda>s. su_provider_subscription_id s = Some providerId \<and> \<not> terminal s \<and> watermark_before eventCreatedAt s)
     (apply_update now (data\<lparr>ud_last_stripe_event_created_at := Some eventCreatedAt\<rparr>)))"

definition markCanceledByProviderSubscriptionId ::
    "string \<Rightarrow> millis \<Rightarrow> millis \<Rightarrow> string \<Rightarrow> millis \<Rightarrow> (BillingDb, SubscriptionRow option) db" where
  "markCanceledByProviderSubscriptionId org now jsNow providerId eventCreatedAt = sql (update_subscription org
     (\<lambda>s. su_provider_subscription_id s = Some providerId \<and> watermark_upto eventCreatedAt s)
     (apply_update now (no_update\<lparr>ud_status := Some ''CANCELED'', ud_canceled_at := Some jsNow,
        ud_last_stripe_event_created_at := Some eventCreatedAt\<rparr>)))"

section \<open>How a table evolves\<close>

text \<open>Every statement keeps the rows with their keys in place, appends new ones, leaves what is
  terminal terminal, and keeps the indexes.\<close>

definition row_le :: "SubscriptionRow \<Rightarrow> SubscriptionRow \<Rightarrow> bool" where
  "row_le r r' \<longleftrightarrow> su_id r' = su_id r \<and> su_public_id r' = su_public_id r \<and>
     su_organization_id r' = su_organization_id r \<and>
     su_provider_subscription_id r' = su_provider_subscription_id r \<and> (terminal r \<longrightarrow> terminal r')"

definition table_le :: "SubscriptionRow tbl \<Rightarrow> SubscriptionRow tbl \<Rightarrow> bool" where
  "table_le t t' \<longleftrightarrow> list_all2 row_le t (take (length t) t')"

definition evolves :: "BillingDb \<Rightarrow> BillingDb \<Rightarrow> bool" where
  "evolves d d' \<longleftrightarrow> table_le (bd_subscriptions d) (bd_subscriptions d') \<and>
     (failed_index (bd_subscriptions d) = None \<longrightarrow> failed_index (bd_subscriptions d') = None)"

lemma row_le_refl [simp]: "row_le r r"
  by (simp add: row_le_def)

lemma row_le_trans: "row_le r1 r2 \<Longrightarrow> row_le r2 r3 \<Longrightarrow> row_le r1 r3"
  by (auto simp: row_le_def)

lemma table_le_refl [simp]: "table_le t t"
  by (simp add: table_le_def list_all2_refl)

lemma table_le_iff: "table_le t t' \<longleftrightarrow> length t \<le> length t' \<and> (\<forall>i < length t. row_le (t ! i) (t' ! i))"
  by (auto simp: table_le_def list_all2_conv_all_nth)

lemma table_le_trans: "table_le t1 t2 \<Longrightarrow> table_le t2 t3 \<Longrightarrow> table_le t1 t3"
  unfolding table_le_iff by (meson le_trans order_less_le_trans row_le_trans)

lemma table_le_append [simp]: "table_le t (t @ rows)"
  by (simp add: table_le_def list_all2_refl)

lemma table_le_update: "(\<And>r. p r \<Longrightarrow> row_le r (f r)) \<Longrightarrow> table_le t (update_where p f t)"
  by (simp add: table_le_iff update_where_def)

lemma table_le_row:
  assumes "table_le t t'" and "r \<in> set t"
  obtains r' where "r' \<in> set t'" and "row_le r r'"
  using assms unfolding table_le_iff by (metis in_set_conv_nth order_less_le_trans)

interpretation billing: state_order evolves
  by unfold_locales (auto simp: evolves_def intro: table_le_trans)

lemma update_subscription_Inr:
  "update_subscription org p f d = Inr (r, d') \<Longrightarrow>
     d' = d\<lparr>bd_subscriptions := update_where (\<lambda>s. visible org d s \<and> p s) f (bd_subscriptions d)\<rparr> \<and>
     r = rows0 (update_returning (\<lambda>s. visible org d s \<and> p s) f (bd_subscriptions d)) \<and>
     failed_index (bd_subscriptions d') = None"
  by (auto simp: update_subscription_def Let_def split: option.splits)

lemma insert_subscription_Inr:
  "insert_subscription org now publicId data d = Inr (r, d') \<Longrightarrow>
     r = new_subscription now (bd_next_id d) publicId data \<and> visible org d r \<and>
     d' = d\<lparr>bd_subscriptions := bd_subscriptions d @ [r], bd_next_id := Suc (bd_next_id d)\<rparr> \<and>
     failed_index (bd_subscriptions d') = None"
  by (auto simp: insert_subscription_def Let_def split: option.splits if_splits)

lemma billing_update:
  "(\<And>r. p r \<Longrightarrow> row_le r (f r)) \<Longrightarrow> billing.advances (sql (update_subscription org p f))"
  by (rule billing.advances_sql) (auto simp: evolves_def dest!: update_subscription_Inr intro!: table_le_update)

lemma billing_insert: "billing.advances (sql (insert_subscription org now publicId data))"
  by (rule billing.advances_sql) (auto simp: evolves_def dest!: insert_subscription_Inr)

lemma row_le_apply_update:
  "\<not> terminal s \<or> ud_status data = None \<or> ud_status data = Some ''CANCELED'' \<Longrightarrow> row_le s (apply_update now data s)"
  by (auto simp: row_le_def apply_update_def terminal_def set_if_def INACTIVE_SUBSCRIPTION_STATUSES_def)

lemmas billing_intros = billing.advances_intros billing.advances_read billing.advances_insert_retry
  billing_insert

lemma billing_repository:
  "billing.advances (subscription_create org now genId data)"
  "billing.advances (subscription_update org now publicId organizationId upd)"
  "billing.advances (syncFromStripeProviderSubscription org now providerId upd created)"
  "billing.advances (markCanceledByProviderSubscriptionId org now jsNow providerId created)"
  by (auto simp: subscription_create_def subscription_update_def subscription_findByPublicId_def
        syncFromStripeProviderSubscription_def markCanceledByProviderSubscriptionId_def no_update_def
      intro!: billing_intros billing_update row_le_apply_update)

text \<open>Rows another tenant owns are out of reach of a transaction.\<close>

definition tenant_le :: "string \<Rightarrow> BillingDb \<Rightarrow> BillingDb \<Rightarrow> bool" where
  "tenant_le org d d' \<longleftrightarrow> bd_organizations d' = bd_organizations d \<and>
     filter (\<lambda>s. \<not> visible org d s) (bd_subscriptions d') = filter (\<lambda>s. \<not> visible org d s) (bd_subscriptions d)"

lemma visible_cong: "bd_organizations d' = bd_organizations d \<Longrightarrow> visible org d' = visible org d"
  by (simp add: visible_def findOrganization_def fun_eq_iff)

interpretation tenant: state_order "tenant_le org" for org
proof
  fix s1 s2 s3
  assume "tenant_le org s1 s2" and "tenant_le org s2 s3"
  then show "tenant_le org s1 s3" using visible_cong [of s2 s1 org] by (simp add: tenant_le_def)
qed (simp add: tenant_le_def)

lemma visible_organization: "su_organization_id s' = su_organization_id s \<Longrightarrow> visible org d s' = visible org d s"
  by (simp add: visible_def split: option.splits)

lemma filter_update_where_outside:
  assumes "\<And>r. p r \<Longrightarrow> q r" and "\<And>r. q (f r) = q r"
  shows "filter (\<lambda>r. \<not> q r) (update_where p f t) = filter (\<lambda>r. \<not> q r) t"
  using assms by (induction t) auto

lemma tenant_update:
  assumes "\<And>r. su_organization_id (f r) = su_organization_id r"
  shows "tenant.advances org (sql (update_subscription org p f))"
proof (rule tenant.advances_sql)
  fix d r d'
  assume "update_subscription org p f d = Inr (r, d')"
  then have d': "d' = d\<lparr>bd_subscriptions := update_where (\<lambda>s. visible org d s \<and> p s) f (bd_subscriptions d)\<rparr>"
    by (simp add: update_subscription_Inr)
  have "visible org d (f s) = visible org d s" for s
    by (rule visible_organization) (rule assms)
  then show "tenant_le org d d'"
    unfolding tenant_le_def d' using filter_update_where_outside [of "\<lambda>s. visible org d s \<and> p s" "visible org d" f]
    by simp
qed

lemma tenant_insert: "tenant.advances org (sql (insert_subscription org now publicId data))"
  by (rule tenant.advances_sql) (auto simp: tenant_le_def dest!: insert_subscription_Inr)

lemma apply_update_organization [simp]: "su_organization_id (apply_update now data s) = su_organization_id s"
  by (simp add: apply_update_def)

lemmas tenant_intros = tenant.advances_intros tenant.advances_read tenant.advances_insert_retry tenant_insert

lemma tenant_repository:
  "tenant.advances org (subscription_create org now genId data)"
  "tenant.advances org (subscription_update org now publicId organizationId upd)"
  "tenant.advances org (syncFromStripeProviderSubscription org now providerId upd created)"
  "tenant.advances org (markCanceledByProviderSubscriptionId org now jsNow providerId created)"
  by (auto simp: subscription_create_def subscription_update_def subscription_findByPublicId_def
        syncFromStripeProviderSubscription_def markCanceledByProviderSubscriptionId_def
      intro!: tenant_intros tenant_update)

section \<open>The indexes\<close>

lemma distinct_map_filter_update:
  assumes "distinct (map k (filter q t))" and "\<And>r. k (f r) = k r" and "\<And>r. p r \<Longrightarrow> q (f r) \<Longrightarrow> q r"
  shows "distinct (map k (filter q (update_where p f t)))"
  using assms
proof (induction t)
  case (Cons a t)
  have "k ` {x \<in> set (update_where p f t). q x} \<subseteq> k ` {x \<in> set t. q x}"
    using Cons.prems(2,3) by (auto simp: set_update_where image_iff)
  then show ?case using Cons by (auto split: if_splits)
qed simp

text \<open>No update can run into an index: keys stay and nothing becomes live.\<close>

lemma update_keeps_indexes:
  assumes "failed_index t = None"
    and "\<And>r. su_public_id (f r) = su_public_id r" "\<And>r. su_organization_id (f r) = su_organization_id r"
      "\<And>r. su_provider_subscription_id (f r) = su_provider_subscription_id r"
    and "\<And>r. p r \<Longrightarrow> terminal r \<Longrightarrow> terminal (f r)"
  shows "failed_index (update_where p f t) = None"
  using assms distinct_map_filter_update [where k = su_organization_id and q = "\<lambda>s. \<not> terminal s" and p = p and f = f and t = t]
    distinct_map_filter_update [where k = su_provider_subscription_id and p = p and f = f and t = t
      and q = "\<lambda>s. su_provider_subscription_id s \<noteq> None"]
  by (fastforce simp: failed_index_def public_ids_unique_def one_live_per_organization_def provider_ids_unique_def
      update_where_key split: if_splits)

section \<open>The payment provider\<close>

text \<open>Requests to Stripe, with their idempotency key.\<close>

datatype StripeCall =
    createStripeCustomer string string
  | createStripeSubscription string string "string option"
  | cancelStripeSubscription string bool "string option"   \<comment> \<open>the flag: at period end\<close>
  | resumeStripeSubscription string "string option"
  | updateStripeSubscription string string "string option"
  | updateStripeSubscriptionQuantity string int "string option"

record BillingWorld =
  bw_db :: BillingDb
  bw_stripe :: "StripeCall list"                \<comment> \<open>the requests Stripe accepted, in order\<close>
  bw_seat_jobs :: "(string \<times> string) list"    \<comment> \<open>jobs on the seat-sync queue\<close>
  bw_suspensions :: "(string \<times> int) list"      \<comment> \<open>calls of \<^verbatim>\<open>suspendExcessActiveMembersToFitCeiling\<close>\<close>

record BillingEnv =
  be_now :: millis
  be_jsNow :: millis
  be_periodEnd :: millis                         \<comment> \<open>\<^verbatim>\<open>addMonths(now, ..)\<close>\<close>
  be_stripeConfigured :: bool
  be_emailFrom :: "string option"
  be_accepts :: "StripeCall \<Rightarrow> bool"            \<comment> \<open>whether Stripe answers this request with success\<close>
  be_customerId :: string
  be_subscriptionId :: string
  be_publicId :: "nat \<Rightarrow> string"
  be_lockAcquired :: bool
  be_actorId :: "nat option"
  be_countActiveMembers :: "thrown + int"       \<comment> \<open>the membership port; its query may fail\<close>
  be_uuid :: string
  be_enqueueOk :: bool
  be_graceDays :: int

type_synonym 'a billing = "(BillingWorld, 'a) act"

definition in_transaction :: "(BillingDb, 'a) db \<Rightarrow> 'a billing" where
  "in_transaction m w = (let (r, d) = run_transaction m (bw_db w) in (r, w\<lparr>bw_db := d\<rparr>))"

definition stripe_request :: "BillingEnv \<Rightarrow> StripeCall \<Rightarrow> unit billing" where
  "stripe_request env call w =
     (if be_accepts env call then (Inr (), w\<lparr>bw_stripe := bw_stripe w @ [call]\<rparr>)
      else (Inl (Plain ''stripe''), w))"

definition paymentProviderUnavailable :: thrown where
  "paymentProviderUnavailable = App (ServiceUnavailableError ''errors:paymentProviderUnavailable'')"

text \<open>The shape of every mutating method of \<^verbatim>\<open>StripePaymentProvider\<close>: nothing when Stripe is not configured,
  and a failure becomes \<^verbatim>\<open>ServiceUnavailableError\<close>.\<close>

definition provider_call :: "BillingEnv \<Rightarrow> StripeCall \<Rightarrow> unit billing" where
  "provider_call env call =
     (if \<not> be_stripeConfigured env then act_return ()
      else act_catch (stripe_request env call) (\<lambda>_. act_throw paymentProviderUnavailable))"

definition cancelSubscriptionAtPeriodEnd :: "BillingEnv \<Rightarrow> string \<Rightarrow> string option \<Rightarrow> unit billing" where
  "cancelSubscriptionAtPeriodEnd env providerId key = provider_call env (cancelStripeSubscription providerId True key)"

definition cancelSubscriptionImmediately :: "BillingEnv \<Rightarrow> string \<Rightarrow> string option \<Rightarrow> unit billing" where
  "cancelSubscriptionImmediately env providerId key = provider_call env (cancelStripeSubscription providerId False key)"

definition resumeSubscription :: "BillingEnv \<Rightarrow> string \<Rightarrow> string option \<Rightarrow> unit billing" where
  "resumeSubscription env providerId key = provider_call env (resumeStripeSubscription providerId key)"

definition updateSubscriptionPrice :: "BillingEnv \<Rightarrow> string \<Rightarrow> string \<Rightarrow> string option \<Rightarrow> unit billing" where
  "updateSubscriptionPrice env providerId priceId key = provider_call env (updateStripeSubscription providerId priceId key)"

definition updateSubscriptionQuantity :: "BillingEnv \<Rightarrow> string \<Rightarrow> int \<Rightarrow> string option \<Rightarrow> unit billing" where
  "updateSubscriptionQuantity env providerId quantity key =
     provider_call env (updateStripeSubscriptionQuantity providerId quantity key)"

definition compensateFailedCreate :: "BillingEnv \<Rightarrow> string \<Rightarrow> unit billing" where
  "compensateFailedCreate env providerId =
     act_catch (stripe_request env (cancelStripeSubscription providerId False None)) (\<lambda>_. act_return ())"

definition compensatePlanChange :: "BillingEnv \<Rightarrow> string \<Rightarrow> string \<Rightarrow> unit billing" where
  "compensatePlanChange env providerId previousPriceId =
     act_catch (stripe_request env (updateStripeSubscription providerId previousPriceId None)) (\<lambda>_. act_return ())"

definition getProviderPriceId :: "PlanRow \<Rightarrow> bool \<Rightarrow> string option" where
  "getProviderPriceId plan yearly =
     (if yearly then pl_stripe_price_yearly_id plan else pl_stripe_price_monthly_id plan)"

text \<open>\<^verbatim>\<open>slice(lastIndexOf('@') + 1)\<close> and the two misconfigurations it refuses.\<close>

definition buildStripeCustomerEmail :: "BillingEnv \<Rightarrow> string \<Rightarrow> thrown + string" where
  "buildStripeCustomerEmail env organizationPublicId =
     (case be_emailFrom env of
        None \<Rightarrow> Inl (App (ConfigurationError ''EMAIL_FROM_ADDRESS''))
      | Some from \<Rightarrow> if from = [] \<or> CHR ''@'' \<notin> set from then Inl (App (ConfigurationError ''EMAIL_FROM_ADDRESS''))
          else Inr (''billing+'' @ organizationPublicId @ ''@'' @ rev (takeWhile (\<lambda>c. c \<noteq> CHR ''@'') (rev from))))"

definition updateStripeCustomerId :: "nat \<Rightarrow> string \<Rightarrow> BillingDb \<Rightarrow> BillingDb" where
  "updateStripeCustomerId organizationId customerId d = d\<lparr>bd_organizations :=
     update_where (\<lambda>o'. og_id o' = organizationId \<and> og_deleted_at o' = None)
       (\<lambda>o'. o'\<lparr>og_stripe_customer_id := Some customerId\<rparr>) (bd_organizations d)\<rparr>"

definition updateStripeCustomerIdForOrganization :: "string \<Rightarrow> string \<Rightarrow> unit billing" where
  "updateStripeCustomerIdForOrganization organizationPublicId customerId = in_transaction
     (act_bind (sql_read (findOrganization organizationPublicId))
       (\<lambda>organization. case organization of
           None \<Rightarrow> act_throw (App (NotFoundError ''Organization''))
         | Some o' \<Rightarrow> sql (\<lambda>d. Inr ((), updateStripeCustomerId (og_id o') customerId d))))"

text \<open>\<^verbatim>\<open>createSubscription\<close> returns the provider's subscription id (none for a plan without a price) and
  customer id.\<close>

definition createSubscription ::
    "BillingEnv \<Rightarrow> OrganizationRow \<Rightarrow> PlanRow \<Rightarrow> bool \<Rightarrow> string option \<Rightarrow> (string option \<times> string option) billing" where
  "createSubscription env organization plan yearly key =
     (if \<not> be_stripeConfigured env then act_return (None, None)
      else act_catch
        (act_bind
          (case og_stripe_customer_id organization of
             Some c \<Rightarrow> act_return c
           | None \<Rightarrow> (case buildStripeCustomerEmail env (og_public_id organization) of
               Inl e \<Rightarrow> act_throw e
             | Inr email \<Rightarrow> act_bind (stripe_request env (createStripeCustomer email (''customer-create:'' @ og_public_id organization)))
                 (\<lambda>_. act_bind (updateStripeCustomerIdForOrganization (og_public_id organization) (be_customerId env))
                   (\<lambda>_. act_return (be_customerId env)))))
          (\<lambda>customerId. case getProviderPriceId plan yearly of
               None \<Rightarrow> act_return (None, Some customerId)
             | Some priceId \<Rightarrow> act_bind (stripe_request env (createStripeSubscription customerId priceId key))
                 (\<lambda>_. act_return (Some (be_subscriptionId env), Some customerId))))
        (\<lambda>_. act_throw paymentProviderUnavailable))"

section \<open>The subscription service\<close>

definition buildStripeIdempotencyKey :: "string \<Rightarrow> string \<Rightarrow> string option \<Rightarrow> string option" where
  "buildStripeIdempotencyKey operation organizationPublicId clientKey =
     map_option (\<lambda>k. operation @ '':'' @ organizationPublicId @ '':'' @ k) clientKey"

definition requireOrganizationByPublicId :: "string \<Rightarrow> (BillingDb, OrganizationRow) db" where
  "requireOrganizationByPublicId publicId = act_bind (sql_read (findOrganization publicId))
     (\<lambda>o'. case o' of None \<Rightarrow> act_throw (App (NotFoundError ''Organization'')) | Some x \<Rightarrow> act_return x)"

definition assertTeamOrganization :: "OrganizationRow \<Rightarrow> (BillingDb, unit) db" where
  "assertTeamOrganization o' = (if og_type o' = ''PERSONAL''
     then act_throw (App (UnprocessableEntityError ''errors:personalOrganizationNoBilling'')) else act_return ())"

definition assertProviderPriceForStripeBackedPlanChange :: "string option \<Rightarrow> string option \<Rightarrow> ('w, unit) act" where
  "assertProviderPriceForStripeBackedPlanChange providerId priceId =
     (if providerId \<noteq> None \<and> priceId = None
      then act_throw (App (UnprocessableEntityError ''errors:planNotAvailableForBillingCycle'')) else act_return ())"

text \<open>The first phase of \<^verbatim>\<open>cancel\<close>, \<^verbatim>\<open>resume\<close> and \<^verbatim>\<open>changePlan\<close>; \<^verbatim>\<open>before\<close> is the plan lookup of \<^verbatim>\<open>changePlan\<close>, which runs
  between the capability check and the subscription lookup.\<close>

definition load_mutable_subscription ::
    "string \<Rightarrow> string \<Rightarrow> (BillingDb, 'p) db \<Rightarrow> (BillingDb, OrganizationRow \<times> 'p \<times> SubscriptionRow) db" where
  "load_mutable_subscription org publicId before =
     act_bind (requireOrganizationByPublicId org) (\<lambda>o'.
     act_bind (assertTeamOrganization o') (\<lambda>_.
     act_bind before (\<lambda>p.
     act_bind (subscription_findByPublicId org publicId (og_id o')) (\<lambda>found. case found of
         None \<Rightarrow> act_throw (App (NotFoundError ''Subscription''))
       | Some (s, _) \<Rightarrow> if terminal s then act_throw (App (UnprocessableEntityError ''errors:subscriptionNotMutable''))
           else act_return (o', p, s)))))"

text \<open>The second phase: the guarded write, where a row that has become terminal meanwhile is not found.\<close>

definition write_subscription ::
    "BillingEnv \<Rightarrow> string \<Rightarrow> string \<Rightarrow> nat \<Rightarrow> SubscriptionUpdateData \<Rightarrow> SubscriptionWithPlan billing" where
  "write_subscription env org publicId organizationId data =
     act_bind (in_transaction (subscription_update org (be_now env) publicId organizationId data))
       (\<lambda>updated. case updated of None \<Rightarrow> act_throw (App (NotFoundError ''Subscription'')) | Some x \<Rightarrow> act_return x)"

type_synonym DecoratedSubscription = "SubscriptionWithPlan \<times> int option \<times> int"

definition countActiveMembers :: "BillingEnv \<Rightarrow> int billing" where
  "countActiveMembers env = (case be_countActiveMembers env of Inl e \<Rightarrow> act_throw e | Inr n \<Rightarrow> act_return n)"

definition seats_total :: "SubscriptionWithPlan \<Rightarrow> int option" where
  "seats_total x = (case su_seats (fst x) of Some n \<Rightarrow> Some n
     | None \<Rightarrow> (case snd x of None \<Rightarrow> None | Some p \<Rightarrow> pl_included_seats p))"

definition decorateWithSeatCounts :: "BillingEnv \<Rightarrow> SubscriptionWithPlan \<Rightarrow> DecoratedSubscription billing" where
  "decorateWithSeatCounts env x = act_bind (countActiveMembers env) (\<lambda>used. act_return (x, seats_total x, used))"

definition when_some :: "'a option \<Rightarrow> ('a \<Rightarrow> ('w, unit) act) \<Rightarrow> ('w, unit) act" where
  "when_some z f = (case z of None \<Rightarrow> act_return () | Some x \<Rightarrow> f x)"

text \<open>\<^verbatim>\<open>create\<close> in its three phases: the checks, the provider's call, and the insert, which compensates at
  Stripe when anything after that call fails.\<close>

definition create_precheck :: "string \<Rightarrow> string \<Rightarrow> (BillingDb, OrganizationRow \<times> PlanRow) db" where
  "create_precheck org planPublicId =
     act_bind (requireOrganizationByPublicId org) (\<lambda>o'.
     act_bind (assertTeamOrganization o') (\<lambda>_.
     act_bind (findActiveByOrganization org (og_id o')) (\<lambda>existing.
       if existing \<noteq> None then act_throw (App (ConflictError ''errors:subscriptionAlreadyExists''))
       else act_bind (requireActivePlanByPublicId planPublicId) (\<lambda>plan. act_return (o', plan)))))"

definition create_persist ::
    "BillingEnv \<Rightarrow> string \<Rightarrow> bool \<Rightarrow> OrganizationRow \<Rightarrow> PlanRow \<Rightarrow> string option \<Rightarrow> string option \<Rightarrow> DecoratedSubscription billing" where
  "create_persist env org yearly o' plan providerSubscriptionId providerCustomerId = act_catch
     (act_bind (in_transaction (subscription_create org (be_now env) (be_publicId env)
        \<lparr>sc_organization_id = og_id o', sc_plan_id = pl_id plan,
         sc_billing_cycle = (if yearly then ''YEARLY'' else ''MONTHLY''),
         sc_status = (if providerSubscriptionId \<noteq> None then Some ''INCOMPLETE'' else None),
         sc_current_period_start = be_jsNow env, sc_current_period_end = be_periodEnd env,
         sc_canceled_at = None, sc_cancel_at_period_end = False,
         sc_provider = (if providerSubscriptionId \<noteq> None then Some ''stripe'' else None),
         sc_provider_subscription_id = providerSubscriptionId, sc_provider_customer_id = providerCustomerId,
         sc_created_by_user_id = be_actorId env,
         sc_last_stripe_event_created_at = (if providerSubscriptionId \<noteq> None then Some (be_jsNow env) else None)\<rparr>))
        (decorateWithSeatCounts env))
     (\<lambda>e. act_bind (when_some providerSubscriptionId (compensateFailedCreate env))
        (\<lambda>_. if isPostgresUniqueViolation e then act_throw (App (ConflictError ''errors:subscriptionAlreadyExists''))
             else act_throw e))"

definition subscription_run_create ::
    "BillingEnv \<Rightarrow> string \<Rightarrow> string \<Rightarrow> bool \<Rightarrow> string option \<Rightarrow> DecoratedSubscription billing" where
  "subscription_run_create env org planPublicId yearly key =
     act_bind (in_transaction (create_precheck org planPublicId)) (\<lambda>(o', plan).
     act_bind (createSubscription env o' plan yearly (buildStripeIdempotencyKey ''sub-create'' org key))
       (\<lambda>(providerSubscriptionId, providerCustomerId).
          create_persist env org yearly o' plan providerSubscriptionId providerCustomerId))"

definition subscription_service_create ::
    "BillingEnv \<Rightarrow> string \<Rightarrow> string \<Rightarrow> bool \<Rightarrow> string option \<Rightarrow> DecoratedSubscription billing" where
  "subscription_service_create env org planPublicId yearly key =
     (if be_lockAcquired env then subscription_run_create env org planPublicId yearly key
      else act_throw (App (ConflictError ''errors:subscriptionCreateInProgress'')))"

definition enqueueSeatQuantitySync :: "BillingEnv \<Rightarrow> string \<Rightarrow> string option \<Rightarrow> unit billing" where
  "enqueueSeatQuantitySync env org key w =
     (let token = (case buildStripeIdempotencyKey ''sub-seat-sync'' org key of
          Some t \<Rightarrow> t | None \<Rightarrow> ''seat-sync:'' @ org @ '':'' @ be_uuid env)
      in (Inr (), if be_enqueueOk env then w\<lparr>bw_seat_jobs := bw_seat_jobs w @ [(org, token)]\<rparr> else w))"

definition suspendExcessMembersForDowngrade :: "string \<Rightarrow> PlanRow \<Rightarrow> unit billing" where
  "suspendExcessMembersForDowngrade org plan w = (Inr (), case pl_included_seats plan of
     None \<Rightarrow> w | Some n \<Rightarrow> w\<lparr>bw_suspensions := bw_suspensions w @ [(org, n)]\<rparr>)"

definition change_plan_load ::
    "string \<Rightarrow> string \<Rightarrow> string \<Rightarrow> (BillingDb, OrganizationRow \<times> PlanRow \<times> SubscriptionRow \<times> PlanRow) db" where
  "change_plan_load org publicId planPublicId =
     act_bind (load_mutable_subscription org publicId (requireActivePlanByPublicId planPublicId)) (\<lambda>(o', plan, s).
     act_bind (requirePlanRecordByInternalId (su_plan_id s)) (\<lambda>previousPlan. act_return (o', plan, s, previousPlan)))"

definition change_plan_persist ::
    "BillingEnv \<Rightarrow> string \<Rightarrow> string option \<Rightarrow> OrganizationRow \<Rightarrow> PlanRow \<Rightarrow> SubscriptionRow \<Rightarrow> DecoratedSubscription billing" where
  "change_plan_persist env org key o' plan s =
     act_bind (write_subscription env org (su_public_id s) (og_id o')
         (no_update\<lparr>ud_plan_id := Some (pl_id plan), ud_current_period_start := Some (su_current_period_start s),
            ud_current_period_end := Some (su_current_period_end s),
            ud_last_stripe_event_created_at := Some (be_jsNow env)\<rparr>)) (\<lambda>updated.
     act_bind (suspendExcessMembersForDowngrade org plan) (\<lambda>_.
     act_bind (enqueueSeatQuantitySync env org key) (\<lambda>_. decorateWithSeatCounts env updated)))"

definition changePlan ::
    "BillingEnv \<Rightarrow> string \<Rightarrow> string \<Rightarrow> string \<Rightarrow> string option \<Rightarrow> DecoratedSubscription billing" where
  "changePlan env org publicId planPublicId key =
     act_bind (in_transaction (change_plan_load org publicId planPublicId)) (\<lambda>(o', plan, s, previousPlan).
       let yearly = (su_billing_cycle s = ''YEARLY''); priceId = getProviderPriceId plan yearly;
           providerId = su_provider_subscription_id s in
       act_bind (assertProviderPriceForStripeBackedPlanChange providerId priceId) (\<lambda>_.
       act_bind (case (providerId, priceId) of
             (Some i, Some p) \<Rightarrow> updateSubscriptionPrice env i p (buildStripeIdempotencyKey ''sub-change-plan'' org key)
           | _ \<Rightarrow> act_return ()) (\<lambda>_.
       act_catch (change_plan_persist env org key o' plan s)
         (\<lambda>e. act_bind (case (providerId, priceId, getProviderPriceId previousPlan yearly) of
                (Some i, Some _, Some previous) \<Rightarrow> compensatePlanChange env i previous
              | _ \<Rightarrow> act_return ()) (\<lambda>_. act_throw e)))))"

definition subscription_cancel :: "BillingEnv \<Rightarrow> string \<Rightarrow> string \<Rightarrow> string option \<Rightarrow> DecoratedSubscription billing" where
  "subscription_cancel env org publicId key =
     act_bind (in_transaction (load_mutable_subscription org publicId (act_return ()))) (\<lambda>(o', _, s).
       if su_status s = ''INCOMPLETE''
       then act_bind (when_some (su_provider_subscription_id s)
              (\<lambda>i. cancelSubscriptionImmediately env i (buildStripeIdempotencyKey ''sub-cancel-now'' org key))) (\<lambda>_.
            act_bind (write_subscription env org publicId (og_id o')
              (no_update\<lparr>ud_status := Some ''CANCELED'', ud_canceled_at := Some (be_jsNow env),
                 ud_last_stripe_event_created_at := Some (be_jsNow env)\<rparr>)) (decorateWithSeatCounts env))
       else act_bind (when_some (su_provider_subscription_id s)
              (\<lambda>i. cancelSubscriptionAtPeriodEnd env i (buildStripeIdempotencyKey ''sub-cancel'' org key))) (\<lambda>_.
            act_bind (write_subscription env org publicId (og_id o')
              (no_update\<lparr>ud_cancel_at_period_end := Some True, ud_last_stripe_event_created_at := Some (be_jsNow env)\<rparr>))
              (decorateWithSeatCounts env)))"

definition subscription_resume :: "BillingEnv \<Rightarrow> string \<Rightarrow> string \<Rightarrow> string option \<Rightarrow> DecoratedSubscription billing" where
  "subscription_resume env org publicId key =
     act_bind (in_transaction (load_mutable_subscription org publicId (act_return ()))) (\<lambda>(o', _, s).
       act_bind (when_some (su_provider_subscription_id s)
         (\<lambda>i. resumeSubscription env i (buildStripeIdempotencyKey ''sub-resume'' org key))) (\<lambda>_.
       act_bind (write_subscription env org publicId (og_id o')
         (no_update\<lparr>ud_cancel_at_period_end := Some False, ud_last_stripe_event_created_at := Some (be_jsNow env)\<rparr>))
         (decorateWithSeatCounts env)))"

text \<open>The phase shared by offboarding and seat sync: the organization with its live subscription.\<close>

definition load_active_subscription :: "string \<Rightarrow> (BillingDb, OrganizationRow \<times> SubscriptionWithPlan option) db" where
  "load_active_subscription org = act_bind (requireOrganizationByPublicId org) (\<lambda>o'.
     act_bind (findActiveByOrganization org (og_id o')) (\<lambda>s. act_return (o', s)))"

definition cancelActiveForOrganizationOffboarding :: "BillingEnv \<Rightarrow> string \<Rightarrow> unit billing" where
  "cancelActiveForOrganizationOffboarding env org =
     act_bind (in_transaction (load_active_subscription org)) (\<lambda>(o', found).
       when_some found (\<lambda>(s, _).
         act_bind (when_some (su_provider_subscription_id s)
           (\<lambda>i. cancelSubscriptionImmediately env i (buildStripeIdempotencyKey ''sub-cancel-offboarding'' org (Some i)))) (\<lambda>_.
         act_bind (in_transaction (subscription_update org (be_now env) (su_public_id s) (og_id o')
           (no_update\<lparr>ud_status := Some ''CANCELED'', ud_canceled_at := Some (be_jsNow env),
              ud_last_stripe_event_created_at := Some (be_jsNow env)\<rparr>))) (\<lambda>_. act_return ()))))"

definition syncSeatQuantityForOrganization :: "BillingEnv \<Rightarrow> string \<Rightarrow> string option \<Rightarrow> unit billing" where
  "syncSeatQuantityForOrganization env org key =
     act_bind (in_transaction (load_active_subscription org)) (\<lambda>(o', found).
       when_some found (\<lambda>(s, _). act_bind (countActiveMembers env) (\<lambda>seatsUsed. let quantity = max 1 seatsUsed in
         act_bind (when_some (su_provider_subscription_id s)
           (\<lambda>i. updateSubscriptionQuantity env i quantity (map_option (\<lambda>k. k @ '':qty:'' @ dec (nat quantity)) key))) (\<lambda>_.
         act_bind (in_transaction (subscription_update org (be_now env) (su_public_id s) (og_id o')
           (no_update\<lparr>ud_seats := Some quantity\<rparr>))) (\<lambda>_. act_return ())))))"

text \<open>The seat ceiling of an organization; \<^const>\<open>None\<close> is no ceiling.\<close>

definition DUNNING_STATUSES :: "string list" where
  "DUNNING_STATUSES = [''PAST_DUE'', ''UNPAID'', ''INCOMPLETE'']"

definition isDunningEntitlementLapsed :: "BillingEnv \<Rightarrow> SubscriptionRow \<Rightarrow> bool" where
  "isDunningEntitlementLapsed env s \<longleftrightarrow> su_status s \<in> set DUNNING_STATUSES \<and>
     be_jsNow env > su_current_period_end s + be_graceDays env * (24 * 60 * 60 * 1000)"

definition reserveSeatCeilingForMemberAdd :: "BillingEnv \<Rightarrow> string \<Rightarrow> nat \<Rightarrow> (BillingDb, int option) db" where
  "reserveSeatCeilingForMemberAdd env org organizationId =
     act_bind (findActiveByOrganization org organizationId) (\<lambda>found. case found of
         None \<Rightarrow> sql_read findFreePlanSeatCeiling
       | Some (s, plan) \<Rightarrow> if isDunningEntitlementLapsed env s then sql_read findFreePlanSeatCeiling
           else act_return (seats_total (s, plan)))"

section \<open>What the service keeps\<close>

interpretation world: action_order "\<lambda>w w'. evolves (bw_db w) (bw_db w')"
  by unfold_locales (auto intro: billing.state_refl billing.state_trans)

interpretation readonly_db: state_order "(=)"
  by unfold_locales auto

interpretation readonly: action_order "\<lambda>w w'. bw_db w = bw_db w'"
  by unfold_locales auto

lemma snd_in_transaction: "bw_db (snd (in_transaction m w)) = snd (run_transaction m (bw_db w))"
  by (simp add: in_transaction_def split: prod.splits)

lemma fst_in_transaction: "fst (in_transaction m w) = fst (run_transaction m (bw_db w))"
  by (simp add: in_transaction_def split: prod.splits)

lemma world_in_transaction: "billing.advances m \<Longrightarrow> world.advances (in_transaction m)"
  by (simp add: world.advances_def snd_in_transaction billing.advances_run)

lemma readonly_in_transaction: "readonly_db.advances m \<Longrightarrow> readonly.advances (in_transaction m)"
  by (simp add: readonly.advances_def snd_in_transaction readonly_db.advances_run [symmetric])

lemma readonly_world: "readonly.advances m \<Longrightarrow> world.advances m"
  by (simp add: readonly.advances_def world.advances_def billing.state_refl)

lemma readonly_when_some: "(\<And>x. readonly.advances (f x)) \<Longrightarrow> readonly.advances (when_some z f)"
  by (simp add: when_some_def readonly.advances_option readonly.advances_return)

lemma world_when_some: "(\<And>x. world.advances (f x)) \<Longrightarrow> world.advances (when_some z f)"
  by (simp add: when_some_def world.advances_option world.advances_return)

lemma readonly_stripe_request: "readonly.advances (stripe_request env call)"
  by (simp add: readonly.advances_def stripe_request_def)

lemmas provider_defs = provider_call_def cancelSubscriptionAtPeriodEnd_def cancelSubscriptionImmediately_def
  resumeSubscription_def updateSubscriptionPrice_def updateSubscriptionQuantity_def compensateFailedCreate_def
  compensatePlanChange_def

lemma readonly_provider:
  "readonly.advances (provider_call env call)"
  "readonly.advances (cancelSubscriptionAtPeriodEnd env i key)"
  "readonly.advances (cancelSubscriptionImmediately env i key)"
  "readonly.advances (resumeSubscription env i key)"
  "readonly.advances (updateSubscriptionPrice env i p key)"
  "readonly.advances (updateSubscriptionQuantity env i n key)"
  "readonly.advances (compensateFailedCreate env i)"
  "readonly.advances (compensatePlanChange env i p)"
  by (simp_all add: provider_defs readonly.advances_intros readonly_stripe_request)

lemma readonly_side_effects:
  "readonly.advances (enqueueSeatQuantitySync env org key)"
  "readonly.advances (suspendExcessMembersForDowngrade org plan)"
  "readonly.advances (countActiveMembers env)"
  "readonly.advances (decorateWithSeatCounts env x)"
  by (auto simp: readonly.advances_def enqueueSeatQuantitySync_def suspendExcessMembersForDowngrade_def Let_def
      countActiveMembers_def decorateWithSeatCounts_def act_bind_def act_throw_def act_return_def
      split: option.splits sum.splits)

lemmas load_defs = requireOrganizationByPublicId_def assertTeamOrganization_def findActiveByOrganization_def
  requireActivePlanByPublicId_def requirePlanRecordByInternalId_def subscription_findByPublicId_def
  load_active_subscription_def

lemmas readonly_db_intros = readonly_db.advances_intros readonly_db.advances_read

lemma readonly_load_mutable:
  "readonly_db.advances before \<Longrightarrow> readonly_db.advances (load_mutable_subscription org publicId before)"
  by (auto simp: load_mutable_subscription_def load_defs intro!: readonly_db_intros)

lemma readonly_loads:
  "readonly_db.advances (requireOrganizationByPublicId org)"
  "readonly_db.advances (assertTeamOrganization o')"
  "readonly_db.advances (findActiveByOrganization org i)"
  "readonly_db.advances (requireActivePlanByPublicId p)"
  "readonly_db.advances (requirePlanRecordByInternalId i)"
  "readonly_db.advances (load_active_subscription org)"
  by (auto simp: load_defs intro!: readonly_db_intros)

lemmas world_intros = world.advances_intros world_in_transaction world_when_some billing_repository
  readonly_world readonly_provider readonly_side_effects readonly_in_transaction readonly_loads readonly_load_mutable

lemma world_createSubscription: "world.advances (createSubscription env o' plan yearly key)"
proof -
  have "billing.advances (sql (\<lambda>d. Inr ((), updateStripeCustomerId i c d)))" for i c
    by (rule billing.advances_sql) (auto simp: evolves_def updateStripeCustomerId_def)
  then have "world.advances (updateStripeCustomerIdForOrganization p c)" for p c
    unfolding updateStripeCustomerIdForOrganization_def
    by (intro world_in_transaction billing_intros)
  then show ?thesis
    unfolding createSubscription_def
    by (intro world.advances_intros readonly_world [OF readonly_stripe_request])
qed

lemma world_write: "world.advances (write_subscription env org publicId i data)"
  unfolding write_subscription_def by (intro world.advances_intros world_in_transaction billing_repository)

lemma world_create: "world.advances (subscription_service_create env org plan yearly key)"
  unfolding subscription_service_create_def subscription_run_create_def create_precheck_def create_persist_def
  by (intro world.advances_intros world_createSubscription world_in_transaction billing_repository world_when_some
      readonly_world [OF readonly_in_transaction] readonly_db_intros readonly_loads
      readonly_world [OF readonly_provider(7)] readonly_world [OF readonly_side_effects(4)])

lemma world_changePlan: "world.advances (changePlan env org publicId planPublicId key)"
  unfolding changePlan_def change_plan_load_def change_plan_persist_def Let_def assertProviderPriceForStripeBackedPlanChange_def
  by (intro world.advances_intros world_write
      readonly_world [OF readonly_in_transaction] readonly_db_intros readonly_loads readonly_load_mutable
      readonly_world [OF readonly_provider(5)] readonly_world [OF readonly_provider(8)]
      readonly_world [OF readonly_side_effects(1)] readonly_world [OF readonly_side_effects(2)]
      readonly_world [OF readonly_side_effects(4)])

lemma world_cancel: "world.advances (subscription_cancel env org publicId key)"
  unfolding subscription_cancel_def
  by (intro world.advances_intros world_write world_when_some
      readonly_world [OF readonly_in_transaction] readonly_db_intros readonly_load_mutable
      readonly_world [OF readonly_provider(2)] readonly_world [OF readonly_provider(3)]
      readonly_world [OF readonly_side_effects(4)])

lemma world_resume: "world.advances (subscription_resume env org publicId key)"
  unfolding subscription_resume_def
  by (intro world.advances_intros world_write world_when_some
      readonly_world [OF readonly_in_transaction] readonly_db_intros readonly_load_mutable
      readonly_world [OF readonly_provider(4)] readonly_world [OF readonly_side_effects(4)])

lemma world_offboarding: "world.advances (cancelActiveForOrganizationOffboarding env org)"
  unfolding cancelActiveForOrganizationOffboarding_def
  by (intro world.advances_intros world_when_some world_in_transaction billing_repository
      readonly_world [OF readonly_in_transaction] readonly_loads readonly_world [OF readonly_provider(3)])

lemma world_seat_sync: "world.advances (syncSeatQuantityForOrganization env org key)"
  unfolding syncSeatQuantityForOrganization_def Let_def
  by (intro world.advances_intros world_when_some world_in_transaction billing_repository
      readonly_world [OF readonly_in_transaction] readonly_loads readonly_world [OF readonly_provider(6)]
      readonly_world [OF readonly_side_effects(3)])

section \<open>A refused provider call\<close>

text \<open>\<^verbatim>\<open>clean m\<close>: when \<^verbatim>\<open>m\<close> ends with the provider's 503 the subscriptions are what they were.\<close>

definition same_subscriptions :: "BillingWorld \<Rightarrow> BillingWorld \<Rightarrow> bool" where
  "same_subscriptions w w' \<longleftrightarrow> bd_subscriptions (bw_db w') = bd_subscriptions (bw_db w)"

interpretation frame: action_order same_subscriptions
  by unfold_locales (auto simp: same_subscriptions_def)

definition clean :: "'a billing \<Rightarrow> bool" where
  "clean m \<longleftrightarrow> (\<forall>w. fst (m w) = Inl paymentProviderUnavailable \<longrightarrow> same_subscriptions w (snd (m w)))"

definition never_unavailable :: "'a billing \<Rightarrow> bool" where
  "never_unavailable m \<longleftrightarrow> (\<forall>w. fst (m w) \<noteq> Inl paymentProviderUnavailable)"

lemma frame_readonly: "readonly.advances m \<Longrightarrow> frame.advances m"
  by (simp add: frame.advances_def readonly.advances_def same_subscriptions_def)

lemma clean_in_transaction: "clean (in_transaction m)"
  by (auto simp: clean_def same_subscriptions_def snd_in_transaction fst_in_transaction run_transaction_Inl_state)

lemma clean_frame: "frame.advances m \<Longrightarrow> clean m"
  by (simp add: clean_def frame.advances_def)

lemma clean_bind_frame:
  assumes "frame.advances m" and "\<And>a. clean (f a)"
  shows "clean (act_bind m f)"
  unfolding clean_def
proof (intro allI impI)
  fix w
  assume *: "fst (act_bind m f w) = Inl paymentProviderUnavailable"
  obtain r w' where m: "m w = (r, w')" by fastforce
  moreover from this have "same_subscriptions w w'" using frame.advancesD [OF assms(1), of w] by simp
  ultimately show "same_subscriptions w (snd (act_bind m f w))"
    using * assms(2) by (cases r) (auto simp: act_bind_def clean_def intro: frame.le_trans)
qed

lemma clean_bind_never:
  assumes "clean m" and "\<And>a. never_unavailable (f a)"
  shows "clean (act_bind m f)"
  unfolding clean_def
proof (intro allI impI)
  fix w
  assume *: "fst (act_bind m f w) = Inl paymentProviderUnavailable"
  obtain r w' where "m w = (r, w')" by fastforce
  then show "same_subscriptions w (snd (act_bind m f w))"
    using * assms unfolding clean_def never_unavailable_def
    by (cases r) (auto simp: act_bind_def, metis fst_conv snd_conv)
qed

lemma clean_catch:
  assumes "clean m" and "\<And>e. frame.advances (h e)" and "\<And>e. never_unavailable (h e)"
    and "\<And>e. g e = paymentProviderUnavailable \<Longrightarrow> e = paymentProviderUnavailable"
  shows "clean (act_catch m (\<lambda>e. act_bind (h e) (\<lambda>_. act_throw (g e))))"
  unfolding clean_def
proof (intro allI impI)
  fix w
  assume *: "fst (act_catch m (\<lambda>e. act_bind (h e) (\<lambda>_. act_throw (g e))) w) = Inl paymentProviderUnavailable"
  obtain r w' where m: "m w = (r, w')" by fastforce
  show "same_subscriptions w (snd (act_catch m (\<lambda>e. act_bind (h e) (\<lambda>_. act_throw (g e))) w))"
  proof (cases r)
    case (Inl e)
    obtain r2 w2 where h: "h e w' = (r2, w2)" by fastforce
    then have "r2 \<noteq> Inl paymentProviderUnavailable" using assms(3) unfolding never_unavailable_def by (metis fst_conv)
    with * m h Inl have "g e = paymentProviderUnavailable"
      by (cases r2) (auto simp: act_catch_def act_bind_def act_throw_def)
    with assms(4) have "e = paymentProviderUnavailable" by blast
    with assms(1) m Inl have "same_subscriptions w w'" unfolding clean_def by (metis fst_conv snd_conv)
    moreover have "same_subscriptions w' w2" using frame.advancesD [OF assms(2), of w' e] h by simp
    ultimately have "same_subscriptions w w2" by (rule frame.le_trans)
    then show ?thesis using m h Inl by (cases r2) (auto simp: act_catch_def act_bind_def act_throw_def)
  next
    case (Inr a)
    with * m show ?thesis by (simp add: act_catch_def)
  qed
qed

lemma never_bind: "never_unavailable m \<Longrightarrow> (\<And>a. never_unavailable (f a)) \<Longrightarrow> never_unavailable (act_bind m f)"
  unfolding never_unavailable_def act_bind_def by (simp split: prod.splits sum.splits) (metis fst_conv)

lemma never_simple:
  "never_unavailable (act_return a)"
  "e \<noteq> paymentProviderUnavailable \<Longrightarrow> never_unavailable (act_throw e)"
  "never_unavailable (enqueueSeatQuantitySync env org key)"
  "never_unavailable (suspendExcessMembersForDowngrade org plan)"
  "never_unavailable (compensateFailedCreate env i)"
  "never_unavailable (compensatePlanChange env i p)"
  by (auto simp: never_unavailable_def act_return_def act_throw_def enqueueSeatQuantitySync_def Let_def
      suspendExcessMembersForDowngrade_def provider_defs act_catch_def stripe_request_def)

lemma never_decorate:
  "be_countActiveMembers env \<noteq> Inl paymentProviderUnavailable \<Longrightarrow> never_unavailable (decorateWithSeatCounts env x)"
  by (auto simp: never_unavailable_def decorateWithSeatCounts_def countActiveMembers_def act_bind_def act_return_def
      act_throw_def split: sum.splits)

lemma never_if: "never_unavailable m \<Longrightarrow> never_unavailable n \<Longrightarrow> never_unavailable (if b then m else n)"
  by simp

lemma clean_write: "clean (write_subscription env org publicId i data)"
  unfolding write_subscription_def
  by (rule clean_bind_never [OF clean_in_transaction])
     (auto intro!: never_simple simp: paymentProviderUnavailable_def split: option.splits)

lemma frame_createSubscription: "frame.advances (createSubscription env o' plan yearly key)"
proof -
  have *: "bd_subscriptions (snd (run_transaction (act_bind (sql_read (findOrganization p))
      (\<lambda>organization. case organization of None \<Rightarrow> act_throw e
         | Some o' \<Rightarrow> sql (\<lambda>d. Inr ((), updateStripeCustomerId (og_id o') c d)))) d)) = bd_subscriptions d" for p c d e
    by (auto simp: run_transaction_def act_bind_def sql_read_def sql_def act_throw_def updateStripeCustomerId_def
        split: option.splits)
  have "frame.advances (updateStripeCustomerIdForOrganization p c)" for p c
    by (simp add: frame.advances_def same_subscriptions_def updateStripeCustomerIdForOrganization_def snd_in_transaction *)
  then show ?thesis
    unfolding createSubscription_def
    by (intro frame.advances_intros frame_readonly [OF readonly_stripe_request])
qed

lemmas frame_intros = frame.advances_intros frame_readonly [OF readonly_in_transaction] readonly_db_intros
  readonly_loads readonly_load_mutable

lemma frame_when_some: "(\<And>x. frame.advances (f x)) \<Longrightarrow> frame.advances (when_some z f)"
  by (simp add: when_some_def frame.advances_option frame.advances_return)

lemma clean_prod: "(\<And>x y. clean (f x y)) \<Longrightarrow> clean (case z of (x, y) \<Rightarrow> f x y)"
  by (cases z) simp

lemma clean_if: "clean m \<Longrightarrow> clean n \<Longrightarrow> clean (if b then m else n)"
  by simp

lemma never_when_some: "(\<And>x. never_unavailable (f x)) \<Longrightarrow> never_unavailable (when_some z f)"
  by (simp add: when_some_def never_simple split: option.splits)

lemma clean_create:
  assumes "be_countActiveMembers env \<noteq> Inl paymentProviderUnavailable"
  shows "clean (subscription_service_create env org planPublicId yearly key)"
proof -
  have handler: "(if isPostgresUniqueViolation e then act_throw (App (ConflictError m)) else act_throw e) =
      act_throw (if isPostgresUniqueViolation e then App (ConflictError m) else e)" for e m
    by simp
  show ?thesis
    unfolding subscription_service_create_def subscription_run_create_def create_precheck_def create_persist_def handler
    by (intro clean_if clean_bind_frame clean_prod clean_catch clean_bind_never clean_in_transaction frame_intros
        frame_createSubscription frame_when_some frame_readonly [OF readonly_provider(7)] never_decorate assms
        never_when_some never_simple clean_frame [OF frame.advances_throw])
       (auto simp: paymentProviderUnavailable_def split: if_splits)
qed

lemma clean_changePlan:
  assumes "be_countActiveMembers env \<noteq> Inl paymentProviderUnavailable"
  shows "clean (changePlan env org publicId planPublicId key)"
proof -
  have persist: "clean (change_plan_persist env org key o' plan s)" for o' plan s
    unfolding change_plan_persist_def
    by (intro clean_bind_never clean_write never_bind never_decorate assms never_simple)
  show ?thesis
    unfolding changePlan_def change_plan_load_def Let_def assertProviderPriceForStripeBackedPlanChange_def
    by (intro persist clean_bind_frame clean_prod clean_catch frame_intros
        frame_readonly [OF readonly_provider(5)] frame_readonly [OF readonly_provider(8)])
       (auto intro: never_simple split: option.splits)
qed

lemma clean_cancel:
  assumes "be_countActiveMembers env \<noteq> Inl paymentProviderUnavailable"
  shows "clean (subscription_cancel env org publicId key)"
  unfolding subscription_cancel_def
  by (intro clean_bind_frame clean_prod clean_if clean_bind_never clean_write frame_intros frame_when_some
      frame_readonly [OF readonly_provider(2)] frame_readonly [OF readonly_provider(3)] never_decorate assms)

lemma clean_resume:
  assumes "be_countActiveMembers env \<noteq> Inl paymentProviderUnavailable"
  shows "clean (subscription_resume env org publicId key)"
  unfolding subscription_resume_def
  by (intro clean_bind_frame clean_prod clean_bind_never clean_write frame_intros frame_when_some
      frame_readonly [OF readonly_provider(4)] never_decorate assms)

lemma clean_offboarding: "clean (cancelActiveForOrganizationOffboarding env org)"
proof -
  have persist: "clean (act_bind (in_transaction m) (\<lambda>_. act_return ()))" for m :: "(BillingDb, 'b) db"
    by (intro clean_bind_never clean_in_transaction never_simple)
  show ?thesis
    unfolding cancelActiveForOrganizationOffboarding_def when_some_def
    by (auto intro!: clean_bind_frame persist frame_intros frame_readonly [OF readonly_provider(3)]
        clean_frame [OF frame.advances_return] split: option.splits)
qed

lemma clean_seat_sync: "clean (syncSeatQuantityForOrganization env org key)"
proof -
  have persist: "clean (act_bind (in_transaction m) (\<lambda>_. act_return ()))" for m :: "(BillingDb, 'b) db"
    by (intro clean_bind_never clean_in_transaction never_simple)
  show ?thesis
    unfolding syncSeatQuantityForOrganization_def when_some_def Let_def
    by (auto intro!: clean_bind_frame persist frame_intros frame_readonly [OF readonly_provider(6)]
        frame_readonly [OF readonly_side_effects(3)] clean_frame [OF frame.advances_return] split: option.splits)
qed

text \<open>The requests that write subscriptions.\<close>

datatype BillingRequest =
    Create string bool "string option"
  | ChangePlan string string "string option"
  | Cancel string "string option"
  | Resume string "string option"
  | Offboard
  | SyncSeats "string option"

definition discard :: "('w, 'a) act \<Rightarrow> ('w, unit) act" where
  "discard m = act_bind m (\<lambda>_. act_return ())"

fun billing_request :: "BillingEnv \<Rightarrow> string \<Rightarrow> BillingRequest \<Rightarrow> unit billing" where
  "billing_request env org (Create plan yearly key) = discard (subscription_service_create env org plan yearly key)"
| "billing_request env org (ChangePlan publicId plan key) = discard (changePlan env org publicId plan key)"
| "billing_request env org (Cancel publicId key) = discard (subscription_cancel env org publicId key)"
| "billing_request env org (Resume publicId key) = discard (subscription_resume env org publicId key)"
| "billing_request env org Offboard = cancelActiveForOrganizationOffboarding env org"
| "billing_request env org (SyncSeats key) = syncSeatQuantityForOrganization env org key"

lemma world_billing_request: "world.advances (billing_request env org req)"
  by (cases req) (simp_all add: discard_def world.advances_bind world.advances_return world_create world_changePlan
      world_cancel world_resume world_offboarding world_seat_sync)

lemma clean_billing_request:
  "be_countActiveMembers env \<noteq> Inl paymentProviderUnavailable \<Longrightarrow> clean (billing_request env org req)"
  by (cases req) (simp_all add: discard_def clean_bind_never never_simple clean_create clean_changePlan clean_cancel
      clean_resume clean_offboarding clean_seat_sync)

section \<open>Demonstration data\<close>

definition demo_plan :: PlanRow where
  "demo_plan = \<lparr>pl_id = 1, pl_public_id = ''pln_team'', pl_is_active = True, pl_price_monthly = 2000,
     pl_included_seats = Some 5, pl_stripe_price_monthly_id = Some ''price_tm'', pl_stripe_price_yearly_id = Some ''price_ty''\<rparr>"

definition demo_plan_pro :: PlanRow where
  "demo_plan_pro = demo_plan\<lparr>pl_id := 2, pl_public_id := ''pln_pro'', pl_price_monthly := 5000,
     pl_stripe_price_monthly_id := Some ''price_pm'', pl_stripe_price_yearly_id := Some ''price_py''\<rparr>"

definition demo_organization :: OrganizationRow where
  "demo_organization = \<lparr>og_id = 7, og_public_id = ''org_a'', og_name = ''Acme'', og_slug = Some ''acme'', og_type = ''TEAM'',
     og_owner_user_id = 1, og_status = ''ACTIVE'',
     og_stripe_customer_id = Some ''cus_1'', og_deletion_started_at = None, og_deleted_at = None\<rparr>"

definition demo_subscription :: SubscriptionRow where
  "demo_subscription = \<lparr>su_id = 1, su_public_id = ''sub_a'', su_organization_id = 7, su_plan_id = 1,
     su_provider = Some ''stripe'', su_provider_subscription_id = Some ''si_1'', su_provider_customer_id = Some ''cus_1'',
     su_billing_cycle = ''MONTHLY'', su_seats = None, su_status = ''ACTIVE'', su_current_period_start = 0,
     su_current_period_end = 1000, su_trial_end = None, su_cancel_at_period_end = False, su_canceled_at = None,
     su_last_stripe_event_created_at = Some 100, su_created_at = 50, su_updated_at = 60, su_created_by_user_id = None\<rparr>"

definition demo_billing :: "SubscriptionRow list \<Rightarrow> BillingDb" where
  "demo_billing subs = \<lparr>bd_plans = [demo_plan, demo_plan_pro], bd_organizations = [demo_organization],
     bd_subscriptions = subs, bd_tombstones = (\<lambda>_. None), bd_next_id = 10\<rparr>"

definition demo_billing_world :: "SubscriptionRow list \<Rightarrow> BillingWorld" where
  "demo_billing_world subs = \<lparr>bw_db = demo_billing subs, bw_stripe = [], bw_seat_jobs = [], bw_suspensions = []\<rparr>"

definition demo_billing_env :: BillingEnv where
  "demo_billing_env = \<lparr>be_now = 500, be_jsNow = 505, be_periodEnd = 3000, be_stripeConfigured = True,
     be_emailFrom = Some ''no-reply@example.com'', be_accepts = (\<lambda>_. True), be_customerId = ''cus_9'',
     be_subscriptionId = ''si_9'', be_publicId = (\<lambda>n. ''sub_new''), be_lockAcquired = True, be_actorId = None,
     be_countActiveMembers = Inr 3, be_uuid = ''u'', be_enqueueOk = True, be_graceDays = 14\<rparr>"

lemmas demo_billing_defs = demo_plan_def demo_plan_pro_def demo_organization_def demo_subscription_def
  demo_billing_def demo_billing_world_def demo_billing_env_def

lemmas billing_run_defs = act_bind_def act_return_def act_throw_def act_catch_def sql_def sql_read_def
  run_transaction_def in_transaction_def stripe_request_def provider_defs when_some_def discard_def
  load_mutable_subscription_def load_defs findOrganization_def visible_def select_subscription_def
  plan_findByPublicId_def plan_findById_def with_plan_def terminal_def INACTIVE_SUBSCRIPTION_STATUSES_def
  write_subscription_def subscription_update_def update_subscription_def apply_update_def no_update_def set_if_def
  set_nullable_if_def failed_check_of_def failed_check_def SUBSCRIPTION_STATUSES_def failed_index_def
  public_ids_unique_def one_live_per_organization_def provider_ids_unique_def decorateWithSeatCounts_def
  countActiveMembers_def seats_total_def getProviderPriceId_def buildStripeIdempotencyKey_def
  assertProviderPriceForStripeBackedPlanChange_def enqueueSeatQuantitySync_def suspendExcessMembersForDowngrade_def

text \<open>The payment provider fails closed: when a request to create, change, cancel or resume a
  subscription, to offboard an organization or to sync its seats ends with the provider's 503, the
  table of subscriptions is exactly what it was.\<close>

theorem refused_provider_call_keeps_subscriptions:
  assumes "be_countActiveMembers env \<noteq> Inl paymentProviderUnavailable"
    and "fst (billing_request env org req w) = Inl paymentProviderUnavailable"
  shows "bd_subscriptions (bw_db (snd (billing_request env org req w))) = bd_subscriptions (bw_db w)"
  using clean_billing_request [OF assms(1)] assms(2) by (simp add: clean_def same_subscriptions_def)

definition demo_refusing_env :: BillingEnv where
  "demo_refusing_env = demo_billing_env\<lparr>be_accepts := (\<lambda>_. False)\<rparr>"

theorem refused_provider_call_keeps_subscriptions_witness:
  "bd_subscriptions (bw_db (snd (billing_request demo_refusing_env ''org_a'' (Cancel ''sub_a'' None)
     (demo_billing_world [demo_subscription])))) = [demo_subscription]"
proof -
  have "fst (billing_request demo_refusing_env ''org_a'' (Cancel ''sub_a'' None) (demo_billing_world [demo_subscription]))
      = Inl paymentProviderUnavailable"
    by (simp add: demo_refusing_env_def subscription_cancel_def billing_run_defs demo_billing_defs)
  moreover have "be_countActiveMembers demo_refusing_env \<noteq> Inl paymentProviderUnavailable"
    by (simp add: demo_refusing_env_def demo_billing_defs)
  ultimately show ?thesis
    using refused_provider_call_keeps_subscriptions
      [of demo_refusing_env "''org_a''" "Cancel ''sub_a'' None" "demo_billing_world [demo_subscription]"]
    by (simp add: demo_billing_world_def demo_billing_def)
qed

section \<open>Compensation\<close>

lemma in_transaction_stripe [simp]: "bw_stripe (snd (in_transaction m w)) = bw_stripe w"
  by (simp add: in_transaction_def split: prod.splits)

lemma decorate_world [simp]: "snd (decorateWithSeatCounts env x w) = w"
  by (simp add: decorateWithSeatCounts_def countActiveMembers_def act_bind_def act_return_def act_throw_def
      split: sum.splits)

definition mints_nothing :: "BillingWorld \<Rightarrow> BillingWorld \<Rightarrow> bool" where
  "mints_nothing w w' \<longleftrightarrow> take (length (bw_stripe w)) (bw_stripe w') = bw_stripe w \<and>
     (\<forall>c p k. createStripeSubscription c p k \<notin> set (drop (length (bw_stripe w)) (bw_stripe w')))"

lemma mints_nothing_iff:
  "mints_nothing w w' \<longleftrightarrow> (\<exists>calls. bw_stripe w' = bw_stripe w @ calls \<and> (\<forall>c p k. createStripeSubscription c p k \<notin> set calls))"
  unfolding mints_nothing_def by (metis append_eq_conv_conj append_take_drop_id)

interpretation minting: action_order mints_nothing
proof
  fix w1 w2 w3
  assume "mints_nothing w1 w2" and "mints_nothing w2 w3"
  then show "mints_nothing w1 w3" unfolding mints_nothing_iff by (auto simp del: append_assoc) (metis Un_iff append.assoc set_append)
qed (simp add: mints_nothing_iff)

lemma minting_request: "(\<And>c p k. call \<noteq> createStripeSubscription c p k) \<Longrightarrow> minting.advances (stripe_request env call)"
  by (auto simp: minting.advances_def mints_nothing_iff stripe_request_def)

lemma minting_in_transaction: "minting.advances (in_transaction m)"
  by (simp add: minting.advances_def mints_nothing_iff)

text \<open>\<^verbatim>\<open>createSubscription\<close> mints a subscription only when it returns its id.\<close>

lemma createSubscription_calls:
  assumes "createSubscription env o' plan yearly key w = (r, w')" and "\<not> mints_nothing w w'"
  shows "\<exists>c. r = Inr (Some (be_subscriptionId env), c)"
proof -
  define M where "M = (case og_stripe_customer_id o' of Some c \<Rightarrow> act_return c
     | None \<Rightarrow> (case buildStripeCustomerEmail env (og_public_id o') of
         Inl e \<Rightarrow> act_throw e
       | Inr email \<Rightarrow> act_bind (stripe_request env (createStripeCustomer email (''customer-create:'' @ og_public_id o')))
           (\<lambda>_. act_bind (updateStripeCustomerIdForOrganization (og_public_id o') (be_customerId env))
             (\<lambda>_. act_return (be_customerId env)))))"
  have M: "minting.advances M"
    unfolding M_def updateStripeCustomerIdForOrganization_def
    by (intro minting.advances_intros minting_in_transaction minting_request) simp
  obtain r1 w1 where M1: "M w = (r1, w1)" by fastforce
  with minting.advancesD [OF M, of w] have w1: "mints_nothing w w1" by simp
  have "mints_nothing w1 w'" if "bw_stripe w' = bw_stripe w1" using that by (simp add: mints_nothing_iff)
  then have "bw_stripe w' \<noteq> bw_stripe w1" using assms(2) w1 minting.le_trans by blast
  with assms M1 show ?thesis
    unfolding createSubscription_def M_def [symmetric]
    by (auto simp: act_catch_def act_bind_def act_return_def act_throw_def stripe_request_def minting.le_refl
        split: if_splits option.splits sum.splits)
qed


lemma create_persist_calls:
  assumes "create_persist env org yearly o' plan p c w = (r, w')"
  shows "mints_nothing w w'"
    and "r = Inl e \<Longrightarrow> p = Some i \<Longrightarrow> be_accepts env (cancelStripeSubscription i False None) \<Longrightarrow>
      last (bw_stripe w') = cancelStripeSubscription i False None"
proof -
  have "minting.advances (create_persist env org yearly o' plan p c)"
    unfolding create_persist_def when_some_def compensateFailedCreate_def decorateWithSeatCounts_def countActiveMembers_def
    by (intro minting.advances_intros minting_in_transaction minting_request) simp
  then show "mints_nothing w w'" using assms unfolding minting.advances_def by (metis snd_conv)
  show "last (bw_stripe w') = cancelStripeSubscription i False None"
    if "r = Inl e" and "p = Some i" and "be_accepts env (cancelStripeSubscription i False None)"
    using assms that unfolding create_persist_def when_some_def compensateFailedCreate_def
    by (auto simp: act_catch_def act_bind_def act_throw_def act_return_def stripe_request_def
        split: sum.splits prod.splits if_splits)
qed

text \<open>A failed create leaves no paid subscription behind: when the request ends in an error after it
  created a subscription at Stripe, the last thing it did there was to cancel that subscription at once.\<close>

theorem failed_create_cancels_at_stripe:
  assumes "fst (subscription_service_create env org planPublicId yearly key w) = Inl e"
    and "\<not> mints_nothing w (snd (subscription_service_create env org planPublicId yearly key w))"
    and "be_accepts env (cancelStripeSubscription (be_subscriptionId env) False None)"
  shows "last (bw_stripe (snd (subscription_service_create env org planPublicId yearly key w))) =
    cancelStripeSubscription (be_subscriptionId env) False None"
proof -
  have lock: "be_lockAcquired env"
    using assms(2) by (auto simp: subscription_service_create_def act_throw_def minting.le_refl split: if_splits)
  obtain r1 w1 where load: "in_transaction (create_precheck org planPublicId) w = (r1, w1)" by fastforce
  with minting.advancesD [OF minting_in_transaction] have w1: "mints_nothing w w1" by (metis snd_conv)
  note run = lock subscription_service_create_def subscription_run_create_def act_bind_Inr act_bind_Inl load
  show ?thesis
  proof (cases r1)
    case (Inl e1)
    with assms(2) w1 show ?thesis by (simp add: run)
  next
    case (Inr x)
    obtain o' plan where x: "x = (o', plan)" by fastforce
    obtain r2 w2 where create: "createSubscription env o' plan yearly (buildStripeIdempotencyKey ''sub-create'' org key) w1 = (r2, w2)"
      by fastforce
    show ?thesis
    proof (cases r2)
      case (Inl e2)
      with createSubscription_calls [OF create] have "mints_nothing w1 w2" by blast
      with assms(2) w1 Inr x create Inl show ?thesis by (auto simp: run intro: minting.le_trans)
    next
      case y: (Inr y)
      obtain p c r w' where "y = (p, c)" and persist: "create_persist env org yearly o' plan p c w2 = (r, w')" by fastforce
      then have result: "subscription_service_create env org planPublicId yearly key w = (r, w')"
        using Inr x create y by (simp add: run)
      with assms(2) w1 create_persist_calls(1) [OF persist] have "\<not> mints_nothing w1 w2"
        by (auto intro: minting.le_trans)
      from createSubscription_calls [OF create this] y \<open>y = (p, c)\<close> have "p = Some (be_subscriptionId env)" by simp
      with create_persist_calls(2) [OF persist] result assms(1,3) show ?thesis by simp
    qed
  qed
qed


definition demo_failing_count_env :: BillingEnv where
  "demo_failing_count_env = demo_billing_env\<lparr>be_countActiveMembers := Inl (Plain ''pool'')\<rparr>"

theorem failed_create_cancels_at_stripe_witness:
  "last (bw_stripe (snd (subscription_service_create demo_failing_count_env ''org_a'' ''pln_pro'' False None
     (demo_billing_world [])))) = cancelStripeSubscription ''si_9'' False None"
proof -
  let ?run = "subscription_service_create demo_failing_count_env ''org_a'' ''pln_pro'' False None (demo_billing_world [])"
  note defs = subscription_service_create_def subscription_run_create_def create_precheck_def create_persist_def
    createSubscription_def subscription_create_def runInsertWithPublicIdentifierRetry_def insert_attempts_sql Let_def
    insert_subscription_def new_subscription_def mints_nothing_def billing_run_defs demo_billing_defs
    demo_failing_count_env_def
  have "fst ?run = Inl (Plain ''pool'')" by (simp add: defs)
  moreover have "\<not> mints_nothing (demo_billing_world []) (snd ?run)" by (simp add: defs)
  moreover have "be_accepts demo_failing_count_env (cancelStripeSubscription (be_subscriptionId demo_failing_count_env) False None)"
    by (simp add: defs)
  ultimately have "last (bw_stripe (snd ?run)) = cancelStripeSubscription (be_subscriptionId demo_failing_count_env) False None"
    by (rule failed_create_cancels_at_stripe)
  then show ?thesis by (simp add: demo_failing_count_env_def demo_billing_env_def)
qed

text \<open>What \<^verbatim>\<open>changePlan\<close> has read when its first phase succeeds.\<close>

lemma change_plan_load_InrE:
  assumes "run_transaction (change_plan_load org publicId planPublicId) d = (Inr (o', plan, s, previous), d')"
  obtains "d' = d" and "findOrganization org d = Some o'" and "su_public_id s = publicId"
    and "select_subscription org (\<lambda>s. su_public_id s = publicId \<and> su_organization_id s = og_id o') d = Some s"
    and "plan_findById (su_plan_id s) d = Some previous" and "plan_findByPublicId planPublicId d = Some plan"
    and "\<not> terminal s"
proof -
  have "select_subscription org (\<lambda>s. su_public_id s = publicId \<and> su_organization_id s = i) d = Some r \<Longrightarrow>
      su_public_id r = publicId" for i r
    by (auto simp: select_subscription_def dest!: select_first_Some_iff)
  then show ?thesis
    using assms that unfolding run_transaction_def change_plan_load_def load_mutable_subscription_def load_defs
    by (auto simp: act_bind_def act_throw_def act_return_def sql_read_def sql_def with_plan_def
        split: option.splits if_splits)
qed

lemma change_plan_persist_count:
  assumes "change_plan_persist (env\<lparr>be_countActiveMembers := Inr n\<rparr>) org key o' plan s w = (Inr x, w')"
    and "be_countActiveMembers env = Inl e"
  shows "change_plan_persist env org key o' plan s w = (Inl e, w')"
  using assms unfolding change_plan_persist_def write_subscription_def enqueueSeatQuantitySync_def
    suspendExcessMembersForDowngrade_def decorateWithSeatCounts_def countActiveMembers_def
  by (auto simp: act_bind_def act_return_def act_throw_def Let_def split: prod.splits sum.splits option.splits)

text \<open>\<^verbatim>\<open>changePlan\<close> reads the seat count for its response inside the \<^verbatim>\<open>try\<close> whose \<^verbatim>\<open>catch\<close> compensates at Stripe.  So
  when only that read fails, the request answers with an error, the new plan stays committed locally,
  exactly as in a successful change, and Stripe is put back on the price of the old plan.\<close>

theorem failed_seat_count_splits_plan_change:
  assumes "changePlan (env\<lparr>be_countActiveMembers := Inr n\<rparr>) org publicId planPublicId key w = (Inr x, w')"
    and "be_countActiveMembers env = Inl e"
    and "findOrganization org (bw_db w) = Some o'"
    and "select_subscription org (\<lambda>s. su_public_id s = publicId \<and> su_organization_id s = og_id o') (bw_db w) = Some s"
    and "su_provider_subscription_id s = Some i"
    and "plan_findById (su_plan_id s) (bw_db w) = Some previous"
    and "getProviderPriceId previous (su_billing_cycle s = ''YEARLY'') = Some q"
    and "be_accepts env (updateStripeSubscription i q None)"
  shows "fst (changePlan env org publicId planPublicId key w) = Inl e \<and>
    bw_db (snd (changePlan env org publicId planPublicId key w)) = bw_db w' \<and>
    bw_stripe (snd (changePlan env org publicId planPublicId key w)) = bw_stripe w' @ [updateStripeSubscription i q None]"
proof -
  have price: "updateSubscriptionPrice (env\<lparr>be_countActiveMembers := Inr n\<rparr>) = updateSubscriptionPrice env"
    by (simp add: fun_eq_iff provider_defs act_catch_def stripe_request_def)
  obtain r1 w1 where load: "in_transaction (change_plan_load org publicId planPublicId) w = (r1, w1)" by fastforce
  with assms(1) obtain o2 plan s2 prev2 where r1: "r1 = Inr (o2, plan, s2, prev2)"
    by (cases r1) (auto simp: changePlan_def act_bind_def)
  with load have "run_transaction (change_plan_load org publicId planPublicId) (bw_db w) = (Inr (o2, plan, s2, prev2), bw_db w1)"
    by (auto simp: in_transaction_def split: prod.splits)
  then have eqs: "o2 = o'" "s2 = s" "prev2 = previous"
    using assms(3,4,6) by (auto elim!: change_plan_load_InrE)
  note step = changePlan_def load r1 eqs assms(5,7) price act_bind_Inr Let_def
  obtain p where p: "getProviderPriceId plan (su_billing_cycle s = ''YEARLY'') = Some p"
    using assms(1) by (cases "getProviderPriceId plan (su_billing_cycle s = ''YEARLY'')")
      (simp_all add: step assertProviderPriceForStripeBackedPlanChange_def act_bind_def act_throw_def)
  obtain r2 w2 where paid: "updateSubscriptionPrice env i p (buildStripeIdempotencyKey ''sub-change-plan'' org key) w1 = (r2, w2)"
    by fastforce
  obtain r3 w3 where persist: "change_plan_persist (env\<lparr>be_countActiveMembers := Inr n\<rparr>) org key o' plan s w2 = (r3, w3)"
    by fastforce
  have r2: "r2 = Inr ()" and r3: "r3 = Inr x" and w3: "w3 = w'"
    using assms(1) p paid persist
    by (cases r2; cases r3; auto simp: step assertProviderPriceForStripeBackedPlanChange_def act_return_def act_bind_def
        act_catch_def act_throw_def compensatePlanChange_def stripe_request_def split: option.splits if_splits)+
  from change_plan_persist_count [OF persist [unfolded r3 w3] assms(2)]
  have run: "changePlan env org publicId planPublicId key w = (Inl e, w'\<lparr>bw_stripe := bw_stripe w' @ [updateStripeSubscription i q None]\<rparr>)"
    using p paid r2 assms(8)
    by (simp add: step assertProviderPriceForStripeBackedPlanChange_def act_return_def act_catch_def act_throw_def
        compensatePlanChange_def stripe_request_def)
  then show ?thesis by simp
qed


theorem failed_seat_count_splits_plan_change_witness:
  "map su_plan_id (bd_subscriptions (bw_db (snd (changePlan demo_failing_count_env ''org_a'' ''sub_a'' ''pln_pro'' None
     (demo_billing_world [demo_subscription]))))) = [2] \<and>
   bw_stripe (snd (changePlan demo_failing_count_env ''org_a'' ''sub_a'' ''pln_pro'' None (demo_billing_world [demo_subscription]))) =
     [updateStripeSubscription ''si_1'' ''price_pm'' None, updateStripeSubscription ''si_1'' ''price_tm'' None]"
proof -
  let ?w = "demo_billing_world [demo_subscription]"
  let ?good = "changePlan (demo_failing_count_env\<lparr>be_countActiveMembers := Inr 3\<rparr>) ''org_a'' ''sub_a'' ''pln_pro'' None ?w"
  note defs = changePlan_def change_plan_load_def change_plan_persist_def Let_def billing_run_defs demo_billing_defs
    demo_failing_count_env_def
  obtain r w' where good: "?good = (r, w')" by fastforce
  then have "map su_plan_id (bd_subscriptions (bw_db w')) = [2]" and "bw_stripe w' = [updateStripeSubscription ''si_1'' ''price_pm'' None]"
    by (auto simp: defs)
  moreover obtain x where "r = Inr x" using good by (auto simp: defs)
  ultimately show ?thesis
    using failed_seat_count_splits_plan_change [OF good [unfolded \<open>r = Inr x\<close>], where e = "Plain ''pool''"
        and o' = demo_organization and s = demo_subscription and i = "''si_1''" and previous = demo_plan and q = "''price_tm''"]
    by (simp add: demo_failing_count_env_def demo_billing_defs findOrganization_def select_subscription_def visible_def
        plan_findById_def getProviderPriceId_def)
qed

end
