(* ===== verification/Stripe_Webhooks.thy ===== *)
theory Stripe_Webhooks
  imports Subscriptions
begin

text \<open>
  Stripe webhook events: \<^verbatim>\<open>src/src/domains/billing/sub-domains/stripe-webhook/\<close> (the ledger repository, the
  service, the organization resolver, the queue, and the processors of the worker, of the reclaim and
  catch-up sweeps and of the retention job).  The state is the billing database with its ledger and the
  jobs on the queue.  A ledger statement commits on its own; the handler of an event runs in one
  transaction pinned to the organization the event resolves to.  Events are those Stripe returns for
  their id.  Shown: a deleted subscription is never live again whatever arrives in whatever order,
  updates commute up to their timestamps, a handler writes one tenant only, one dispatch per lease, and
  the two situations in which the ledger does not do what its comments say.
\<close>

section \<open>Events\<close>

datatype StripeCustomerRef = CustomerId string | CustomerObject "string option"

record StripeItem =
  it_price_id :: "string option"
  it_current_period_start :: int
  it_current_period_end :: int
  it_quantity :: "int option"

record StripeSubscription =
  st_id :: string
  st_status :: string
  st_items :: "StripeItem list"
  st_cancel_at_period_end :: bool
  st_canceled_at :: "int option"
  st_customer :: StripeCustomerRef
  st_metadata_organization_id :: "string option"

record StripeEvent =
  se_id :: string
  se_type :: string
  se_created :: int
  se_object :: StripeSubscription

definition event_time :: "StripeEvent \<Rightarrow> millis" where
  "event_time e = se_created e * 1000"

definition CREATED :: string where "CREATED = ''customer.subscription.created''"
definition UPDATED :: string where "UPDATED = ''customer.subscription.updated''"
definition DELETED :: string where "DELETED = ''customer.subscription.deleted''"

definition isStripeSubscriptionEvent :: "StripeEvent \<Rightarrow> bool" where
  "isStripeSubscriptionEvent e \<longleftrightarrow> se_type e = CREATED \<or> se_type e = UPDATED \<or> se_type e = DELETED"

section \<open>The ledger\<close>

record StripeWebhookEventRow =
  ev_stripe_event_id :: string
  ev_event_type :: string
  ev_stripe_created_at :: millis
  ev_processed_at :: "millis option"
  ev_processing_status :: string
  ev_failure_reason :: "string option"
  ev_request_id :: "string option"
  ev_attempt_count :: nat
  ev_created_at :: millis
  ev_updated_at :: millis

type_synonym ledger = "StripeWebhookEventRow tbl"

datatype StripeWebhookEventClaimResult =
  claimed | processed_duplicate | reclaimed | still_processing_within_lease

definition STRIPE_WEBHOOK_STUCK_PROCESSING_LEASE_MS :: millis where
  "STRIPE_WEBHOOK_STUCK_PROCESSING_LEASE_MS = 15 * 60 * 1000"

definition stuck :: "millis \<Rightarrow> StripeWebhookEventRow \<Rightarrow> bool" where
  "stuck jsNow r \<longleftrightarrow> ev_processing_status r = ''processing'' \<and>
     ev_updated_at r < jsNow - STRIPE_WEBHOOK_STUCK_PROCESSING_LEASE_MS"

definition reclaimable :: "millis \<Rightarrow> StripeWebhookEventRow \<Rightarrow> bool" where
  "reclaimable jsNow r \<longleftrightarrow> ev_processing_status r = ''failed'' \<or> stuck jsNow r \<or>
     (ev_processing_status r = ''processing'' \<and> ev_attempt_count r = 0)"

definition tryReclaimEvent :: "millis \<Rightarrow> millis \<Rightarrow> string \<Rightarrow> ledger \<Rightarrow> bool \<times> ledger" where
  "tryReclaimEvent now jsNow eventId t =
     (let (row, t') = update_row (\<lambda>r. ev_stripe_event_id r = eventId \<and> reclaimable jsNow r)
        (\<lambda>r. r\<lparr>ev_processing_status := ''processing'', ev_attempt_count := ev_attempt_count r + 1, ev_updated_at := now,
               ev_failure_reason := None, ev_processed_at := None\<rparr>) t
      in (row \<noteq> None, t'))"

definition tryClaimEvent ::
    "millis \<Rightarrow> millis \<Rightarrow> StripeEvent \<Rightarrow> string option \<Rightarrow> ledger \<Rightarrow> StripeWebhookEventClaimResult \<times> ledger" where
  "tryClaimEvent now jsNow e requestId t =
     (case select_first (\<lambda>r. ev_stripe_event_id r = se_id e) t of
        None \<Rightarrow> (claimed, t @ [\<lparr>ev_stripe_event_id = se_id e, ev_event_type = se_type e, ev_stripe_created_at = event_time e,
            ev_processed_at = None, ev_processing_status = ''processing'', ev_failure_reason = None,
            ev_request_id = requestId, ev_attempt_count = 0, ev_created_at = now, ev_updated_at = now\<rparr>])
      | Some existing \<Rightarrow>
          if ev_processing_status existing = ''processed'' then (processed_duplicate, t)
          else (let (ok, t') = tryReclaimEvent now jsNow (se_id e) t
                in (if ok then reclaimed else still_processing_within_lease, t')))"

definition markProcessed :: "millis \<Rightarrow> millis \<Rightarrow> string \<Rightarrow> ledger \<Rightarrow> ledger" where
  "markProcessed now jsNow eventId = update_where (\<lambda>r. ev_stripe_event_id r = eventId)
     (\<lambda>r. r\<lparr>ev_processing_status := ''processed'', ev_processed_at := Some jsNow, ev_updated_at := now\<rparr>)"

definition FAILURE_REASON_MAX_LENGTH :: nat where "FAILURE_REASON_MAX_LENGTH = 2000"

definition markFailed :: "millis \<Rightarrow> millis \<Rightarrow> string \<Rightarrow> string \<Rightarrow> ledger \<Rightarrow> ledger" where
  "markFailed now jsNow eventId reason = update_where (\<lambda>r. ev_stripe_event_id r = eventId)
     (\<lambda>r. r\<lparr>ev_processing_status := ''failed'', ev_processed_at := Some jsNow,
            ev_failure_reason := Some (if length reason > FAILURE_REASON_MAX_LENGTH
              then take FAILURE_REASON_MAX_LENGTH reason else reason), ev_updated_at := now\<rparr>)"

definition STRIPE_WEBHOOK_FAILED_COUNT_CAP :: nat where "STRIPE_WEBHOOK_FAILED_COUNT_CAP = 10000"

definition countFailedEvents :: "ledger \<Rightarrow> nat" where
  "countFailedEvents t =
     length (take STRIPE_WEBHOOK_FAILED_COUNT_CAP (filter (\<lambda>r. ev_processing_status r = ''failed'') t))"

definition findReclaimableStripeEventIds :: "millis \<Rightarrow> nat \<Rightarrow> ledger \<Rightarrow> string list" where
  "findReclaimableStripeEventIds jsNow limit t = map ev_stripe_event_id (take limit
     (sort_key ev_updated_at (filter (\<lambda>r. ev_processing_status r = ''failed'' \<or> stuck jsNow r) t)))"

definition findExistingStripeEventIds :: "string list \<Rightarrow> ledger \<Rightarrow> string set" where
  "findExistingStripeEventIds ids t = set (filter (\<lambda>i. i \<in> set ids) (map ev_stripe_event_id t))"

section \<open>The organization of an event\<close>

text \<open>The \<^verbatim>\<open>SECURITY DEFINER\<close> resolvers join subscriptions with organizations, outside row-level security.\<close>

definition resolve_organization :: "(SubscriptionRow \<Rightarrow> bool) \<Rightarrow> BillingDb \<Rightarrow> string option" where
  "resolve_organization p d = (case filter (\<lambda>x. x \<noteq> None)
       (map (\<lambda>s. select_first (\<lambda>o'. og_id o' = su_organization_id s) (bd_organizations d)) (filter p (bd_subscriptions d)))
     of (Some o' # _) \<Rightarrow> Some (og_public_id o') | _ \<Rightarrow> None)"

definition resolveOrganizationPublicIdByProviderSubscriptionId :: "string \<Rightarrow> BillingDb \<Rightarrow> string option" where
  "resolveOrganizationPublicIdByProviderSubscriptionId i =
     resolve_organization (\<lambda>s. su_provider_subscription_id s = Some i)"

definition resolveOrganizationPublicIdByStripeCustomerId :: "string \<Rightarrow> BillingDb \<Rightarrow> string option" where
  "resolveOrganizationPublicIdByStripeCustomerId c = resolve_organization (\<lambda>s. su_provider_customer_id s = Some c)"

definition readOrganizationPublicIdFromStripeMetadata :: "StripeSubscription \<Rightarrow> string option" where
  "readOrganizationPublicIdFromStripeMetadata sub = (case st_metadata_organization_id sub of
     None \<Rightarrow> None | Some i \<Rightarrow> if i = [] then None else Some i)"

fun readStripeCustomerId :: "StripeCustomerRef \<Rightarrow> string option" where
  "readStripeCustomerId (CustomerId c) = (if c = [] then None else Some c)"
| "readStripeCustomerId (CustomerObject None) = None"
| "readStripeCustomerId (CustomerObject (Some c)) = (if c = [] then None else Some c)"

definition resolveOrganizationPublicIdForStripeEvent :: "StripeEvent \<Rightarrow> BillingDb \<Rightarrow> thrown + string option" where
  "resolveOrganizationPublicIdForStripeEvent e d =
     (if \<not> isStripeSubscriptionEvent e then Inr None
      else let sub = se_object e;
               fromMetadata = readOrganizationPublicIdFromStripeMetadata sub;
               fromSubscription = resolveOrganizationPublicIdByProviderSubscriptionId (st_id sub) d;
               fromCustomer = (case (fromSubscription, readStripeCustomerId (st_customer sub)) of
                 (None, Some c) \<Rightarrow> resolveOrganizationPublicIdByStripeCustomerId c d | _ \<Rightarrow> None);
               fromDatabase = (case fromSubscription of Some i \<Rightarrow> Some i | None \<Rightarrow> fromCustomer)
           in if fromMetadata \<noteq> None \<and> fromDatabase \<noteq> None \<and> fromMetadata \<noteq> fromDatabase
              then Inl (Plain ''Stripe webhook event has mismatched organization metadata'')
              else Inr (case fromDatabase of Some i \<Rightarrow> Some i | None \<Rightarrow> fromMetadata))"

section \<open>Handling a subscription event\<close>

record WebhookEnv =
  we_now :: millis
  we_jsNow :: millis
  we_jsNowEnd :: millis      \<comment> \<open>the second \<^verbatim>\<open>new Date()\<close> of a payload without items\<close>
  we_publicId :: "nat \<Rightarrow> string"

definition statusMap :: "(string \<times> string) list" where
  "statusMap = [(''active'', ''ACTIVE''), (''past_due'', ''PAST_DUE''), (''canceled'', ''CANCELED''), (''unpaid'', ''UNPAID''),
     (''trialing'', ''TRIALING''), (''paused'', ''PAUSED''), (''incomplete'', ''INCOMPLETE''),
     (''incomplete_expired'', ''INCOMPLETE_EXPIRED'')]"

definition mappedStatus :: "string \<Rightarrow> string" where
  "mappedStatus status = (case map_of statusMap status of Some s \<Rightarrow> s | None \<Rightarrow> js_upper status)"

definition firstItem :: "StripeSubscription \<Rightarrow> StripeItem option" where
  "firstItem sub = rows0 (st_items sub)"

definition stripePriceId :: "StripeSubscription \<Rightarrow> string option" where
  "stripePriceId sub = Option.bind (firstItem sub) it_price_id"

definition periodStart :: "WebhookEnv \<Rightarrow> StripeSubscription \<Rightarrow> millis" where
  "periodStart env sub = (case firstItem sub of None \<Rightarrow> we_jsNow env | Some i \<Rightarrow> it_current_period_start i * 1000)"

definition periodEnd :: "WebhookEnv \<Rightarrow> StripeSubscription \<Rightarrow> millis" where
  "periodEnd env sub = (case firstItem sub of None \<Rightarrow> we_jsNowEnd env | Some i \<Rightarrow> it_current_period_end i * 1000)"

definition syncedSeats :: "StripeSubscription \<Rightarrow> int option" where
  "syncedSeats sub = (case firstItem sub of None \<Rightarrow> None | Some i \<Rightarrow>
     (case it_quantity i of None \<Rightarrow> None | Some n \<Rightarrow> if n \<ge> 0 then Some n else None))"

definition resolveBillingCycleForStripePrice :: "string option \<Rightarrow> PlanRow \<Rightarrow> string" where
  "resolveBillingCycleForStripePrice priceId plan =
     (if priceId \<noteq> None \<and> pl_stripe_price_yearly_id plan = priceId then ''yearly'' else ''monthly'')"

fun customer_id_if_string :: "StripeCustomerRef \<Rightarrow> string option" where
  "customer_id_if_string (CustomerId c) = Some c"
| "customer_id_if_string (CustomerObject _) = None"

definition createFromStripeWebhookEvent ::
    "WebhookEnv \<Rightarrow> string \<Rightarrow> StripeSubscription \<Rightarrow> PlanRow \<Rightarrow> string \<Rightarrow> millis \<Rightarrow> (BillingDb, SubscriptionWithPlan option) db" where
  "createFromStripeWebhookEvent env org sub plan billingCycle created =
     act_bind (findOrganizationIdFromCurrentContext org) (\<lambda>oid. case oid of None \<Rightarrow> act_return None
       | Some i \<Rightarrow> act_bind (subscription_create org (we_now env) (we_publicId env)
           \<lparr>sc_organization_id = i, sc_plan_id = pl_id plan, sc_billing_cycle = billingCycle,
            sc_status = Some (mappedStatus (st_status sub)), sc_current_period_start = periodStart env sub,
            sc_current_period_end = periodEnd env sub, sc_canceled_at = None, sc_cancel_at_period_end = False,
            sc_provider = Some ''stripe'', sc_provider_subscription_id = Some (st_id sub),
            sc_provider_customer_id = customer_id_if_string (st_customer sub), sc_created_by_user_id = None,
            sc_last_stripe_event_created_at = Some created\<rparr>) (\<lambda>x. act_return (Some x)))"

definition canceled_tombstone ::
    "WebhookEnv \<Rightarrow> StripeSubscription \<Rightarrow> PlanRow \<Rightarrow> string \<Rightarrow> millis \<Rightarrow> nat \<Rightarrow> SubscriptionCreateData" where
  "canceled_tombstone env sub plan billingCycle created organizationId =
     \<lparr>sc_organization_id = organizationId, sc_plan_id = pl_id plan, sc_billing_cycle = billingCycle,
      sc_status = Some ''CANCELED'', sc_current_period_start = periodStart env sub,
      sc_current_period_end = periodEnd env sub,
      sc_canceled_at = Some (case st_canceled_at sub of Some c \<Rightarrow> c * 1000 | None \<Rightarrow> created),
      sc_cancel_at_period_end = False,
      sc_provider = Some ''stripe'', sc_provider_subscription_id = Some (st_id sub),
      sc_provider_customer_id = customer_id_if_string (st_customer sub), sc_created_by_user_id = None,
      sc_last_stripe_event_created_at = Some created\<rparr>"

definition insertCanceledTombstoneFromStripeWebhookEvent ::
    "WebhookEnv \<Rightarrow> string \<Rightarrow> StripeSubscription \<Rightarrow> PlanRow \<Rightarrow> string \<Rightarrow> millis \<Rightarrow> (BillingDb, SubscriptionWithPlan option) db" where
  "insertCanceledTombstoneFromStripeWebhookEvent env org sub plan billingCycle created =
     act_bind (findOrganizationIdFromCurrentContext org) (\<lambda>oid. case oid of None \<Rightarrow> act_return None
       | Some i \<Rightarrow> act_bind (subscription_create org (we_now env) (we_publicId env)
           (canceled_tombstone env sub plan billingCycle created i)) (\<lambda>x. act_return (Some x)))"

text \<open>The \<^verbatim>\<open>catch\<close> of both insert paths: a lost unique race is \<^verbatim>\<open>false\<close>.\<close>

definition inserted_unless_race :: "(BillingDb, SubscriptionWithPlan option) db \<Rightarrow> (BillingDb, bool) db" where
  "inserted_unless_race m = act_catch (act_bind m (\<lambda>x. act_return (x \<noteq> None)))
     (\<lambda>e. if isPostgresUniqueViolation e then act_return False else act_throw e)"

definition tryFallbackInsertForCreated ::
    "WebhookEnv \<Rightarrow> string \<Rightarrow> StripeSubscription \<Rightarrow> PlanRow option \<Rightarrow> millis \<Rightarrow> (BillingDb, bool) db" where
  "tryFallbackInsertForCreated env org sub matchedPlan created = (case matchedPlan of
       None \<Rightarrow> act_return False
     | Some plan \<Rightarrow> inserted_unless_race (createFromStripeWebhookEvent env org sub plan
         (js_upper (resolveBillingCycleForStripePrice (stripePriceId sub) plan)) created))"

definition recoverMissingSubscriptionRowForUpsert ::
    "WebhookEnv \<Rightarrow> string \<Rightarrow> string \<Rightarrow> StripeSubscription \<Rightarrow> PlanRow option \<Rightarrow> millis \<Rightarrow> (BillingDb, unit) db" where
  "recoverMissingSubscriptionRowForUpsert env org eventType sub matchedPlan created =
     act_bind (existsByProviderSubscriptionId org (st_id sub)) (\<lambda>exists.
       if exists then act_return ()
       else act_bind (if eventType = CREATED then tryFallbackInsertForCreated env org sub matchedPlan created
                      else act_return False) (\<lambda>recovered.
         if recovered then act_return ()
         else act_bind (existsByProviderSubscriptionId org (st_id sub)) (\<lambda>exists2.
           if exists2 then act_return ()
           else act_throw (Plain (''stripe.webhook.subscription_local_row_missing:'' @ eventType @ '':'' @ st_id sub)))))"

definition find_plan_for_price :: "string option \<Rightarrow> (BillingDb, PlanRow option) db" where
  "find_plan_for_price priceId = (case priceId of None \<Rightarrow> act_return None | Some p \<Rightarrow> sql_read (findByStripePriceId p))"

definition sync_data :: "WebhookEnv \<Rightarrow> StripeSubscription \<Rightarrow> PlanRow option \<Rightarrow> SubscriptionUpdateData" where
  "sync_data env sub matchedPlan = no_update\<lparr>ud_status := Some (mappedStatus (st_status sub)),
     ud_cancel_at_period_end := Some (st_cancel_at_period_end sub),
     ud_canceled_at := map_option (\<lambda>c. c * 1000) (st_canceled_at sub),
     ud_current_period_start := Some (periodStart env sub), ud_current_period_end := Some (periodEnd env sub),
     ud_plan_id := map_option pl_id matchedPlan, ud_seats := syncedSeats sub\<rparr>"

definition findSubscriptionDeletionTombstone :: "string \<Rightarrow> (BillingDb, millis option) db" where
  "findSubscriptionDeletionTombstone i = sql_read (\<lambda>d. bd_tombstones d i)"

definition recordSubscriptionDeletionTombstone :: "string \<Rightarrow> millis \<Rightarrow> (BillingDb, unit) db" where
  "recordSubscriptionDeletionTombstone i deletedAt = sql (\<lambda>d. Inr ((), d\<lparr>bd_tombstones := (bd_tombstones d)(i :=
     Some (case bd_tombstones d i of None \<Rightarrow> deletedAt | Some t \<Rightarrow> max t deletedAt))\<rparr>))"

definition handleSubscriptionUpdated ::
    "WebhookEnv \<Rightarrow> string \<Rightarrow> string \<Rightarrow> StripeSubscription \<Rightarrow> millis \<Rightarrow> (BillingDb, unit) db" where
  "handleSubscriptionUpdated env org eventType sub created =
     act_bind (find_plan_for_price (stripePriceId sub)) (\<lambda>matchedPlan.
     act_bind (syncFromStripeProviderSubscription org (we_now env) (st_id sub) (sync_data env sub matchedPlan) created) (\<lambda>row.
       if row \<noteq> None then act_return ()
       else act_bind (findSubscriptionDeletionTombstone (st_id sub)) (\<lambda>tombstone.
         if (case tombstone of None \<Rightarrow> False | Some t \<Rightarrow> t \<ge> created) then act_return ()
         else recoverMissingSubscriptionRowForUpsert env org eventType sub matchedPlan created)))"

definition tryInsertCancellationTombstone ::
    "WebhookEnv \<Rightarrow> string \<Rightarrow> StripeSubscription \<Rightarrow> millis \<Rightarrow> (BillingDb, bool) db" where
  "tryInsertCancellationTombstone env org sub created =
     act_bind (find_plan_for_price (stripePriceId sub)) (\<lambda>matchedPlan. case matchedPlan of
         None \<Rightarrow> act_return False
       | Some plan \<Rightarrow> inserted_unless_race (insertCanceledTombstoneFromStripeWebhookEvent env org sub plan
           (js_upper (resolveBillingCycleForStripePrice (stripePriceId sub) plan)) created))"

definition handleSubscriptionDeleted ::
    "WebhookEnv \<Rightarrow> string \<Rightarrow> StripeSubscription \<Rightarrow> millis \<Rightarrow> (BillingDb, unit) db" where
  "handleSubscriptionDeleted env org sub created =
     act_bind (markCanceledByProviderSubscriptionId org (we_now env) (we_jsNow env) (st_id sub) created) (\<lambda>row.
       if row \<noteq> None then act_return ()
       else act_bind (recordSubscriptionDeletionTombstone (st_id sub) created) (\<lambda>_.
         act_bind (tryInsertCancellationTombstone env org sub created) (\<lambda>tombstoned.
           if tombstoned then act_return ()
           else act_bind (markCanceledByProviderSubscriptionId org (we_now env) (we_jsNow env) (st_id sub) created) (\<lambda>recovered.
             if recovered \<noteq> None then act_return ()
             else act_throw (Plain (''stripe.webhook.subscription_cancel_local_row_missing:'' @ st_id sub))))))"

definition dispatchEvent :: "WebhookEnv \<Rightarrow> string \<Rightarrow> StripeEvent \<Rightarrow> (BillingDb, unit) db" where
  "dispatchEvent env org e =
     (if se_type e = CREATED \<or> se_type e = UPDATED
      then handleSubscriptionUpdated env org (se_type e) (se_object e) (event_time e)
      else if se_type e = DELETED then handleSubscriptionDeleted env org (se_object e) (event_time e)
      else act_return ())"

definition runStripeWebhookHandlerWithOrganizationContext ::
    "WebhookEnv \<Rightarrow> StripeEvent \<Rightarrow> BillingDb \<Rightarrow> (thrown + unit) \<times> BillingDb" where
  "runStripeWebhookHandlerWithOrganizationContext env e d =
     (case resolveOrganizationPublicIdForStripeEvent e d of
        Inl err \<Rightarrow> (Inl err, d)
      | Inr None \<Rightarrow> if isStripeSubscriptionEvent e
          then (Inl (Plain ''Stripe webhook event requires organization context but organization could not be resolved''), d)
          else (Inr (), d)
      | Inr (Some org) \<Rightarrow> run_transaction (dispatchEvent env org e) d)"

section \<open>The service and the workers\<close>

record StripeWorld =
  sw_billing :: BillingWorld
  sw_ledger :: ledger
  sw_jobs :: "(string \<times> string) list"   \<comment> \<open>job id and event id on the \<^verbatim>\<open>stripe-webhook\<close> queue\<close>

definition sw_db :: "StripeWorld \<Rightarrow> BillingDb" where
  "sw_db w = bw_db (sw_billing w)"

definition set_db :: "BillingDb \<Rightarrow> StripeWorld \<Rightarrow> StripeWorld" where
  "set_db d w = w\<lparr>sw_billing := sw_billing w\<lparr>bw_db := d\<rparr>\<rparr>"

text \<open>\<^verbatim>\<open>error.message\<close>.\<close>

fun error_message :: "thrown \<Rightarrow> string" where
  "error_message (Plain m) = m"
| "error_message (Sql_unique c) = c"
| "error_message (Sql_check c) = c"
| "error_message Sql_aborted = ''25P02''"
| "error_message (App (ConflictError m)) = m"
| "error_message (App _) = ''error''"

definition stripeWebhookEventInFlight :: thrown where
  "stripeWebhookEventInFlight = App (ConflictError ''errors:stripeWebhookEventInFlight'')"

text \<open>\<^verbatim>\<open>handleEvent\<close> after its claim was granted: dispatch, then settle the ledger row.\<close>

definition dispatch_and_settle :: "WebhookEnv \<Rightarrow> StripeEvent \<Rightarrow> (StripeWorld, unit) act" where
  "dispatch_and_settle env e w =
     (case runStripeWebhookHandlerWithOrganizationContext env e (sw_db w) of
        (Inr _, d) \<Rightarrow> (Inr (), (set_db d w)\<lparr>sw_ledger := markProcessed (we_now env) (we_jsNow env) (se_id e) (sw_ledger w)\<rparr>)
      | (Inl err, d) \<Rightarrow> (Inl err, (set_db d w)\<lparr>sw_ledger :=
            markFailed (we_now env) (we_jsNow env) (se_id e) (error_message err) (sw_ledger w)\<rparr>))"

definition handleEvent :: "WebhookEnv \<Rightarrow> StripeEvent \<Rightarrow> string option \<Rightarrow> (StripeWorld, unit) act" where
  "handleEvent env e requestId w =
     (let (claim, t) = tryClaimEvent (we_now env) (we_jsNow env) e requestId (sw_ledger w); w1 = w\<lparr>sw_ledger := t\<rparr>
      in case claim of
           processed_duplicate \<Rightarrow> (Inr (), w1)
         | still_processing_within_lease \<Rightarrow> (Inl stripeWebhookEventInFlight, w1)
         | _ \<Rightarrow> dispatch_and_settle env e w1)"

text \<open>BullMQ ignores a job whose id it already holds.\<close>

definition add_job :: "string \<Rightarrow> string \<Rightarrow> StripeWorld \<Rightarrow> StripeWorld" where
  "add_job jobId eventId w = (if jobId \<in> set (map fst (sw_jobs w)) then w
     else w\<lparr>sw_jobs := sw_jobs w @ [(jobId, eventId)]\<rparr>)"

definition enqueueStripeWebhookByEventId :: "string \<Rightarrow> StripeWorld \<Rightarrow> StripeWorld" where
  "enqueueStripeWebhookByEventId eventId = add_job (''stripe-event-'' @ eventId) eventId"

definition enqueueStripeWebhookByEventIdForReclaim :: "millis \<Rightarrow> string \<Rightarrow> StripeWorld \<Rightarrow> StripeWorld" where
  "enqueueStripeWebhookByEventIdForReclaim jsNow eventId =
     add_job (''stripe-event-'' @ eventId @ ''-reclaim-'' @ dec (nat jsNow)) eventId"

definition ingestEvent :: "bool \<Rightarrow> WebhookEnv \<Rightarrow> StripeEvent \<Rightarrow> string option \<Rightarrow> (StripeWorld, StripeWebhookEventClaimResult) act" where
  "ingestEvent queueUp env e requestId w =
     (let (claim, t) = tryClaimEvent (we_now env) (we_jsNow env) e requestId (sw_ledger w); w1 = w\<lparr>sw_ledger := t\<rparr>
      in if claim = claimed \<or> claim = reclaimed
         then (if queueUp then (Inr claim, enqueueStripeWebhookByEventId (se_id e) w1) else (Inl (Plain ''queue''), w1))
         else (Inr claim, w1))"

text \<open>The job processor takes the event Stripe returns for the id.\<close>

definition processStripeWebhookJob ::
    "(string \<Rightarrow> thrown + StripeEvent) \<Rightarrow> WebhookEnv \<Rightarrow> string \<Rightarrow> string option \<Rightarrow> (StripeWorld, unit) act" where
  "processStripeWebhookJob retrieveStripeEvent env eventId requestId w = (case retrieveStripeEvent eventId of
       Inl e \<Rightarrow> (Inl e, w) | Inr e \<Rightarrow> handleEvent env e requestId w)"

definition enqueue_all :: "(string \<Rightarrow> bool) \<Rightarrow> millis \<Rightarrow> string list \<Rightarrow> StripeWorld \<Rightarrow> nat \<times> StripeWorld" where
  "enqueue_all queueUp jsNow ids w = (length (filter queueUp ids),
     fold (enqueueStripeWebhookByEventIdForReclaim jsNow) (filter queueUp ids) w)"

definition runStripeWebhookEventReclaimJob ::
    "(string \<Rightarrow> bool) \<Rightarrow> millis \<Rightarrow> nat \<Rightarrow> StripeWorld \<Rightarrow> (nat \<times> nat) \<times> StripeWorld" where
  "runStripeWebhookEventReclaimJob queueUp jsNow batchSize w =
     (let ids = findReclaimableStripeEventIds jsNow batchSize (sw_ledger w);
          (enqueued, w') = enqueue_all queueUp jsNow ids w
      in ((length ids, enqueued), w'))"

definition runStripeWebhookEventCatchupJob ::
    "(string \<Rightarrow> bool) \<Rightarrow> millis \<Rightarrow> bool \<Rightarrow> StripeEvent list \<Rightarrow> StripeWorld \<Rightarrow> (nat \<times> nat \<times> nat) \<times> StripeWorld" where
  "runStripeWebhookEventCatchupJob queueUp jsNow stripeConfigured events w =
     (if \<not> stripeConfigured \<or> events = [] then ((0, 0, 0), w)
      else let ids = map se_id events;
               missing = filter (\<lambda>i. i \<notin> findExistingStripeEventIds ids (sw_ledger w)) ids;
               (enqueued, w') = enqueue_all queueUp jsNow missing w
           in ((length ids, length missing, enqueued), w'))"

definition runStripeWebhookEventRetentionJob :: "millis \<Rightarrow> StripeWorld \<Rightarrow> StripeWorld" where
  "runStripeWebhookEventRetentionJob cutoff w = w\<lparr>sw_ledger := delete_where
     (\<lambda>r. ev_processing_status r \<in> {''processed'', ''skipped_duplicate''} \<and> ev_updated_at r < cutoff) (sw_ledger w)\<rparr>"

text \<open>The delay before attempt \<^verbatim>\<open>n + 1\<close>; \<^verbatim>\<open>Some ms\<close> is the retry hint of an open circuit.\<close>

definition stripeWebhookBackoffStrategy :: "nat \<Rightarrow> millis option \<Rightarrow> millis" where
  "stripeWebhookBackoffStrategy attemptsMade circuitOpen = (case circuitOpen of Some ms \<Rightarrow> ms
     | None \<Rightarrow> 10000 * 2 ^ (max attemptsMade 1 - 1))"

text \<open>Everything that can happen to the billing database, as one step.\<close>

datatype StripeStep =
    Http BillingEnv string BillingRequest
  | Handle WebhookEnv StripeEvent
  | Ingest bool WebhookEnv StripeEvent
  | Reclaim "string \<Rightarrow> bool" millis nat
  | CatchUp "string \<Rightarrow> bool" millis bool "StripeEvent list"
  | Retention millis

fun stripe_step :: "StripeStep \<Rightarrow> StripeWorld \<Rightarrow> StripeWorld" where
  "stripe_step (Http env org req) w = w\<lparr>sw_billing := snd (billing_request env org req (sw_billing w))\<rparr>"
| "stripe_step (Handle env e) w = snd (handleEvent env e None w)"
| "stripe_step (Ingest up env e) w = snd (ingestEvent up env e None w)"
| "stripe_step (Reclaim up jsNow batch) w = snd (runStripeWebhookEventReclaimJob up jsNow batch w)"
| "stripe_step (CatchUp up jsNow configured events) w = snd (runStripeWebhookEventCatchupJob up jsNow configured events w)"
| "stripe_step (Retention cutoff) w = runStripeWebhookEventRetentionJob cutoff w"

section \<open>A deleted subscription\<close>

lemma sw_db_simps [simp]:
  "sw_db (w\<lparr>sw_ledger := t\<rparr>) = sw_db w"
  "sw_db (w\<lparr>sw_jobs := j\<rparr>) = sw_db w"
  "sw_db (set_db d w) = d"
  "sw_db (w\<lparr>sw_billing := b\<rparr>) = bw_db b"
  "sw_ledger (set_db d w) = sw_ledger w"
  by (simp_all add: sw_db_def set_db_def)

lemma add_job_db [simp]: "sw_db (add_job j e w) = sw_db w"
  by (simp add: add_job_def)

lemma enqueue_db [simp]:
  "sw_db (enqueueStripeWebhookByEventId e w) = sw_db w"
  "sw_db (enqueueStripeWebhookByEventIdForReclaim jsNow e w) = sw_db w"
  by (simp_all add: enqueueStripeWebhookByEventId_def enqueueStripeWebhookByEventIdForReclaim_def)

lemma enqueue_all_db [simp]: "sw_db (snd (enqueue_all up jsNow ids w)) = sw_db w"
proof -
  have "sw_db (fold (enqueueStripeWebhookByEventIdForReclaim jsNow) xs v) = sw_db v" for xs v
    by (induction xs arbitrary: v) simp_all
  then show ?thesis by (simp add: enqueue_all_def)
qed

lemmas dispatch_defs = dispatchEvent_def handleSubscriptionUpdated_def handleSubscriptionDeleted_def
  find_plan_for_price_def findSubscriptionDeletionTombstone_def recordSubscriptionDeletionTombstone_def
  recoverMissingSubscriptionRowForUpsert_def existsByProviderSubscriptionId_def tryFallbackInsertForCreated_def
  tryInsertCancellationTombstone_def inserted_unless_race_def createFromStripeWebhookEvent_def
  insertCanceledTombstoneFromStripeWebhookEvent_def canceled_tombstone_def findOrganizationIdFromCurrentContext_def

lemma billing_tombstone: "billing.advances (sql (\<lambda>d. Inr ((), d\<lparr>bd_tombstones := f d\<rparr>)))"
  by (rule billing.advances_sql) (auto simp: evolves_def)

lemma billing_dispatch: "billing.advances (dispatchEvent env org e)"
  unfolding dispatch_defs
  by (intro billing.advances_intros billing.advances_read billing_repository billing_tombstone)

lemma tenant_tombstone: "tenant.advances org (sql (\<lambda>d. Inr ((), d\<lparr>bd_tombstones := f d\<rparr>)))"
  by (rule tenant.advances_sql) (auto simp: tenant_le_def)

lemma tenant_dispatch: "tenant.advances org (dispatchEvent env org e)"
  unfolding dispatch_defs
  by (intro tenant.advances_intros tenant.advances_read tenant_repository tenant_tombstone)

lemma evolves_handler: "evolves d (snd (runStripeWebhookHandlerWithOrganizationContext env e d))"
  by (auto simp: runStripeWebhookHandlerWithOrganizationContext_def billing.state_refl
      intro: billing.advances_run [OF billing_dispatch] split: sum.splits option.splits)

lemma dispatch_and_settle_db:
  "sw_db (snd (dispatch_and_settle env e w)) = snd (runStripeWebhookHandlerWithOrganizationContext env e (sw_db w))"
  by (auto simp: dispatch_and_settle_def split: prod.splits sum.splits)

lemma evolves_handleEvent: "evolves (sw_db w) (sw_db (snd (handleEvent env e rid w)))"
  by (auto simp: handleEvent_def Let_def dispatch_and_settle_db billing.state_refl
      intro: evolves_handler [where d = "sw_db w"] split: prod.splits StripeWebhookEventClaimResult.splits)

lemma evolves_step: "evolves (sw_db w) (sw_db (stripe_step st w))"
proof (cases st)
  case (Http env org req)
  then show ?thesis using world.advancesD [OF world_billing_request] by (simp add: sw_db_def)
qed (auto simp: evolves_handleEvent ingestEvent_def runStripeWebhookEventReclaimJob_def runStripeWebhookEventCatchupJob_def
    runStripeWebhookEventRetentionJob_def Let_def billing.state_refl split: prod.splits,
    (metis enqueue_all_db snd_conv billing.state_refl)+)

lemma evolves_steps: "evolves (sw_db w) (sw_db (fold stripe_step sts w))"
proof (induction sts arbitrary: w)
  case (Cons st sts)
  show ?case using billing.state_trans [OF evolves_step Cons.IH] by simp
qed (simp add: billing.state_refl)

definition has_terminal :: "string \<Rightarrow> BillingDb tx \<Rightarrow> bool" where
  "has_terminal i t \<longleftrightarrow> \<not> tx_aborted t \<and>
     (\<exists>s \<in> set (bd_subscriptions (tx_state t)). su_provider_subscription_id s = Some i \<and> terminal s)"

lemma mark_canceled_terminal:
  assumes "markCanceledByProviderSubscriptionId org now jsNow i created t = (Inr (Some r), t')"
  shows "has_terminal i t'"
proof -
  let ?f = "apply_update now (no_update\<lparr>ud_status := Some ''CANCELED'', ud_canceled_at := Some jsNow,
      ud_last_stripe_event_created_at := Some created\<rparr>)"
  let ?p = "\<lambda>s. su_provider_subscription_id s = Some i \<and> watermark_upto created s"
  from assms obtain d' where live: "\<not> tx_aborted t" and upd: "update_subscription org ?p ?f (tx_state t) = Inr (Some r, d')"
    and t': "t' = t\<lparr>tx_state := d'\<rparr>"
    unfolding markCanceledByProviderSubscriptionId_def by (elim sql_InrE) auto
  let ?q = "\<lambda>s. visible org (tx_state t) s \<and> ?p s"
  from update_subscription_Inr [OF upd]
  have d': "bd_subscriptions d' = update_where ?q ?f (bd_subscriptions (tx_state t))"
    and r: "rows0 (update_returning ?q ?f (bd_subscriptions (tx_state t))) = Some r" by auto
  from rows0_in_set [OF r] obtain s where "s \<in> set (bd_subscriptions (tx_state t))" and "?q s" and "r = ?f s"
    by (auto simp: set_update_returning)
  then have "r \<in> set (bd_subscriptions d')" and "su_provider_subscription_id r = Some i" and "terminal r"
    by (auto simp: d' set_update_where apply_update_def no_update_def terminal_def set_if_def INACTIVE_SUBSCRIPTION_STATUSES_def)
  with live t' show ?thesis by (auto simp: has_terminal_def)
qed

lemma subscription_create_InrE:
  assumes "subscription_create org now genId data t = (Inr x, t')"
  obtains row d where "insert_subscription org now (genId 1) data (tx_state t) = Inr (row, d)"
    and "\<not> tx_aborted t" and "t' = t\<lparr>tx_state := d\<rparr>"
proof -
  from assms obtain row t1 where ins: "runInsertWithPublicIdentifierRetry
      (\<lambda>n. sql (insert_subscription org now (genId n) data)) t = (Inr row, t1)"
    and read: "act_bind (subscription_findByPublicId org (su_public_id row) (sc_organization_id data))
      (\<lambda>joined. case joined of None \<Rightarrow> act_throw (Plain ''subscription.create: row not visible after insert (context/RLS mismatch?)'')
         | Some x \<Rightarrow> act_return x) t1 = (Inr x, t')"
    unfolding subscription_create_def by (erule act_bind_InrE)
  from ins have "sql (insert_subscription org now (genId 1) data) t = (Inr row, t1)"
    by (auto simp: runInsertWithPublicIdentifierRetry_def insert_attempts_sql split: sum.splits if_splits)
  moreover from read have "t' = t1"
    by (auto simp: act_bind_def subscription_findByPublicId_def sql_read_def sql_def act_throw_def act_return_def
        split: if_splits option.splits)
  ultimately show ?thesis using that by (auto elim!: sql_InrE)
qed

lemma tombstone_insert_terminal:
  assumes "tryInsertCancellationTombstone env org sub created t = (Inr True, t')"
  shows "has_terminal (st_id sub) t'"
proof -
  have "\<exists>plan cycle x. insertCanceledTombstoneFromStripeWebhookEvent env org sub plan cycle created t = (Inr (Some x), t')"
    using assms unfolding tryInsertCancellationTombstone_def inserted_unless_race_def find_plan_for_price_def
    by (auto simp: act_bind_def act_catch_def act_return_def act_throw_def sql_read_def sql_def
        split: option.splits sum.splits prod.splits if_splits)
  then obtain plan cycle x where
    "insertCanceledTombstoneFromStripeWebhookEvent env org sub plan cycle created t = (Inr (Some x), t')" by blast
  then obtain i where create: "subscription_create org (we_now env) (we_publicId env)
      (canceled_tombstone env sub plan cycle created i) t = (Inr x, t')"
    unfolding insertCanceledTombstoneFromStripeWebhookEvent_def findOrganizationIdFromCurrentContext_def
    by (fastforce simp: act_bind_def act_return_def sql_read_def sql_def split: option.splits sum.splits prod.splits if_splits)
  from create obtain row d where "insert_subscription org (we_now env) (we_publicId env 1)
      (canceled_tombstone env sub plan cycle created i) (tx_state t) = Inr (row, d)"
    and "\<not> tx_aborted t" and "t' = t\<lparr>tx_state := d\<rparr>" by (rule subscription_create_InrE)
  then show ?thesis
    by (auto simp: canceled_tombstone_def has_terminal_def new_subscription_def terminal_def INACTIVE_SUBSCRIPTION_STATUSES_def
        dest!: insert_subscription_Inr)
qed

lemma deletion_leaves_terminal:
  assumes "run_transaction (handleSubscriptionDeleted env org sub created) d = (Inr (), d')"
  shows "\<exists>s \<in> set (bd_subscriptions d'). su_provider_subscription_id s = Some (st_id sub) \<and> terminal s"
proof -
  from assms obtain t where run: "handleSubscriptionDeleted env org sub created (tx_begin d) = (Inr (), t)"
    and d': "d' = tx_state t" by (rule run_transaction_InrE)
  have "has_terminal (st_id sub) t"
    using run unfolding handleSubscriptionDeleted_def
    by (auto simp: act_return_def act_throw_def elim!: act_bind_InrE split: if_splits)
       (rule mark_canceled_terminal tombstone_insert_terminal, assumption)+
  then show ?thesis using d' by (auto simp: has_terminal_def)
qed


lemma provider_id_unique_row:
  assumes "failed_index t = None" and "r \<in> set t" "r' \<in> set t"
    and "su_provider_subscription_id r = Some i" "su_provider_subscription_id r' = Some i"
  shows "r = r'"
proof -
  let ?t = "filter (\<lambda>s. su_provider_subscription_id s \<noteq> None) t"
  have "distinct (map su_provider_subscription_id ?t)"
    using assms(1) by (simp add: failed_index_def provider_ids_unique_def split: if_splits)
  then have "inj_on su_provider_subscription_id (set ?t)" by (simp add: distinct_map)
  moreover have "r \<in> set ?t" "r' \<in> set ?t" using assms by simp_all
  ultimately show ?thesis using assms(4,5) by (metis inj_onD)
qed

lemma terminal_forever:
  assumes "evolves d d'" and "failed_index (bd_subscriptions d) = None"
    and "s \<in> set (bd_subscriptions d)" "su_provider_subscription_id s = Some i" "terminal s"
  shows "(\<exists>r \<in> set (bd_subscriptions d'). su_provider_subscription_id r = Some i) \<and>
    (\<forall>r \<in> set (bd_subscriptions d'). su_provider_subscription_id r = Some i \<longrightarrow> terminal r)"
proof -
  from assms(1,3) obtain s' where s': "s' \<in> set (bd_subscriptions d')" "row_le s s'"
    by (auto simp: evolves_def elim: table_le_row)
  then have "su_provider_subscription_id s' = Some i" "terminal s'" using assms(4,5) by (auto simp: row_le_def)
  moreover have "failed_index (bd_subscriptions d') = None" using assms(1,2) by (simp add: evolves_def)
  ultimately show ?thesis using s'(1) provider_id_unique_row by blast
qed

text \<open>C37 A deleted subscription is never live again.  Once the handler of a \<^verbatim>\<open>customer.subscription.deleted\<close>
  event has succeeded, then after any further sequence of webhook events in any order, API requests,
  redeliveries and sweeps, the local row of that subscription exists and is terminal.\<close>

theorem deleted_subscription_never_live_again:
  assumes "failed_index (bd_subscriptions (sw_db w)) = None"
    and "se_type e = DELETED"
    and "handleEvent env e rid w = (Inr (), w1)"
    and "fst (tryClaimEvent (we_now env) (we_jsNow env) e rid (sw_ledger w)) \<noteq> processed_duplicate"
  shows "(\<exists>s \<in> set (bd_subscriptions (sw_db (fold stripe_step sts w1))).
       su_provider_subscription_id s = Some (st_id (se_object e))) \<and>
     (\<forall>s \<in> set (bd_subscriptions (sw_db (fold stripe_step sts w1))).
       su_provider_subscription_id s = Some (st_id (se_object e)) \<longrightarrow> terminal s)"
proof -
  obtain c t where claim: "tryClaimEvent (we_now env) (we_jsNow env) e rid (sw_ledger w) = (c, t)" by fastforce
  with assms(3,4) have "dispatch_and_settle env e (w\<lparr>sw_ledger := t\<rparr>) = (Inr (), w1)"
    by (cases c) (simp_all add: handleEvent_def)
  then have handled: "runStripeWebhookHandlerWithOrganizationContext env e (sw_db w) = (Inr (), sw_db w1)"
    by (auto simp: dispatch_and_settle_def split: prod.splits sum.splits)
  then obtain org where run: "run_transaction (dispatchEvent env org e) (sw_db w) = (Inr (), sw_db w1)"
    using assms(2) by (auto simp: runStripeWebhookHandlerWithOrganizationContext_def isStripeSubscriptionEvent_def
        split: sum.splits option.splits if_splits)
  then have "run_transaction (handleSubscriptionDeleted env org (se_object e) (event_time e)) (sw_db w) = (Inr (), sw_db w1)"
    using assms(2) by (simp add: dispatchEvent_def CREATED_def UPDATED_def DELETED_def)
  from deletion_leaves_terminal [OF this] obtain s where s: "s \<in> set (bd_subscriptions (sw_db w1))"
    "su_provider_subscription_id s = Some (st_id (se_object e))" "terminal s" by blast
  have "evolves (sw_db w) (sw_db w1)" using evolves_handler [of "sw_db w" env e] handled by simp
  with assms(1) have "failed_index (bd_subscriptions (sw_db w1)) = None" by (simp add: evolves_def)
  from terminal_forever [OF evolves_steps this s] show ?thesis .
qed


definition demo_stripe_subscription :: StripeSubscription where
  "demo_stripe_subscription = \<lparr>st_id = ''si_1'', st_status = ''active'',
     st_items = [\<lparr>it_price_id = Some ''price_tm'', it_current_period_start = 1, it_current_period_end = 2, it_quantity = Some 4\<rparr>],
     st_cancel_at_period_end = False, st_canceled_at = None, st_customer = CustomerId ''cus_1'',
     st_metadata_organization_id = Some ''org_a''\<rparr>"

definition demo_event :: "string \<Rightarrow> string \<Rightarrow> int \<Rightarrow> StripeEvent" where
  "demo_event i ty created = \<lparr>se_id = i, se_type = ty, se_created = created, se_object = demo_stripe_subscription\<rparr>"

definition demo_webhook_env :: "millis \<Rightarrow> WebhookEnv" where
  "demo_webhook_env now = \<lparr>we_now = now, we_jsNow = now, we_jsNowEnd = now + 1, we_publicId = (\<lambda>n. ''sub_w'')\<rparr>"

definition demo_stripe_world :: "SubscriptionRow list \<Rightarrow> ledger \<Rightarrow> StripeWorld" where
  "demo_stripe_world subs t = \<lparr>sw_billing = demo_billing_world subs, sw_ledger = t, sw_jobs = []\<rparr>"

lemma js_upper_cycles: "js_upper ''monthly'' = ''MONTHLY''" "js_upper ''yearly'' = ''YEARLY''"
  by code_simp+

lemmas stripe_run_defs = handleEvent_def dispatch_and_settle_def runStripeWebhookHandlerWithOrganizationContext_def
  resolveOrganizationPublicIdForStripeEvent_def isStripeSubscriptionEvent_def CREATED_def UPDATED_def DELETED_def
  readOrganizationPublicIdFromStripeMetadata_def resolveOrganizationPublicIdByProviderSubscriptionId_def
  resolveOrganizationPublicIdByStripeCustomerId_def resolve_organization_def dispatch_defs
  syncFromStripeProviderSubscription_def markCanceledByProviderSubscriptionId_def watermark_before_def watermark_upto_def
  sync_data_def mappedStatus_def statusMap_def firstItem_def stripePriceId_def periodStart_def periodEnd_def syncedSeats_def
  resolveBillingCycleForStripePrice_def findByStripePriceId_def subscription_create_def
  runInsertWithPublicIdentifierRetry_def insert_attempts_sql insert_subscription_def new_subscription_def
  event_time_def tryClaimEvent_def tryReclaimEvent_def reclaimable_def stuck_def update_row_def
  STRIPE_WEBHOOK_STUCK_PROCESSING_LEASE_MS_def markProcessed_def markFailed_def sw_db_def set_db_def
  js_upper_cycles Let_def billing_run_defs demo_billing_defs demo_stripe_subscription_def demo_event_def
  demo_webhook_env_def demo_stripe_world_def

theorem deleted_subscription_never_live_again_witness:
  "{s \<in> set (bd_subscriptions (sw_db (fold stripe_step [Handle (demo_webhook_env 9000) (demo_event ''evt_2'' CREATED 7)]
       (snd (handleEvent (demo_webhook_env 8000) (demo_event ''evt_1'' DELETED 6) None (demo_stripe_world [] [])))))).
     su_provider_subscription_id s = Some ''si_1'' \<and> \<not> terminal s} = {}"
proof -
  let ?w = "demo_stripe_world [] []" and ?env = "demo_webhook_env 8000" and ?e = "demo_event ''evt_1'' DELETED 6"
  have "fst (handleEvent ?env ?e None ?w) = Inr ()" by (simp add: stripe_run_defs)
  then obtain w1 where run: "handleEvent ?env ?e None ?w = (Inr (), w1)" by (metis prod.collapse)
  have "failed_index (bd_subscriptions (sw_db ?w)) = None" and "se_type ?e = DELETED"
    and "fst (tryClaimEvent (we_now ?env) (we_jsNow ?env) ?e None (sw_ledger ?w)) \<noteq> processed_duplicate"
    by (simp_all add: stripe_run_defs)
  note kept = deleted_subscription_never_live_again [OF this(1,2) run this(3)]
  have "st_id (se_object ?e) = ''si_1''" by (simp add: demo_event_def demo_stripe_subscription_def)
  from kept [unfolded this] show ?thesis unfolding run snd_conv by blast
qed


section \<open>A deletion behind the watermark\<close>

text \<open>The row is there with a newer watermark: no branch of the deletion handler succeeds.\<close>

lemma index_clash:
  assumes "s \<in> set t" and "su_provider_subscription_id s = Some i" and "su_provider_subscription_id r = Some i"
  shows "failed_index (t @ [r]) \<noteq> None"
  using assms by (force simp: failed_index_def provider_ids_unique_def)

lemma no_cancel_behind_watermark:
  assumes "failed_index (bd_subscriptions (tx_state t)) = None" and "\<not> tx_aborted t"
    and "s \<in> set (bd_subscriptions (tx_state t))" "su_provider_subscription_id s = Some i"
    and "su_last_stripe_event_created_at s = Some w" "created < w"
  shows "markCanceledByProviderSubscriptionId org now jsNow i created t = (Inr None, t)"
proof -
  let ?p = "\<lambda>r. visible org (tx_state t) r \<and> su_provider_subscription_id r = Some i \<and> watermark_upto created r"
  have none: "\<not> ?p r" if "r \<in> set (bd_subscriptions (tx_state t))" for r
    using provider_id_unique_row [OF assms(1) that assms(3) _ assms(4)] assms(5,6) by (auto simp: watermark_upto_def)
  then have "update_returning ?p f (bd_subscriptions (tx_state t)) = []"
    and "update_where ?p f (bd_subscriptions (tx_state t)) = bd_subscriptions (tx_state t)" for f
    by (simp_all add: update_returning_empty_iff update_where_id)
  then show ?thesis
    using assms(1,2) by (simp add: markCanceledByProviderSubscriptionId_def sql_def update_subscription_def Let_def
        failed_check_of_def)
qed

lemma create_clashes:
  assumes "\<not> tx_aborted t" and "s \<in> set (bd_subscriptions (tx_state t))"
    and "su_provider_subscription_id s = Some i" and "sc_provider_subscription_id data = Some i"
  shows "\<exists>e t'. subscription_create org now genId data t = (Inl e, t') \<and> tx_aborted t'"
proof -
  have "\<exists>e. insert_subscription org now (genId 1) data (tx_state t) = Inl e"
    using index_clash [OF assms(2,3), of "new_subscription now (bd_next_id (tx_state t)) (genId 1) data"] assms(4)
    by (auto simp: insert_subscription_def Let_def new_subscription_def split: option.splits)
  then obtain e where "insert_subscription org now (genId 1) data (tx_state t) = Inl e" by blast
  then show ?thesis
    using assms(1) by (auto simp: subscription_create_def act_bind_def runInsertWithPublicIdentifierRetry_def
        insert_attempts_sql sql_def split: if_splits)
qed

lemma tombstone_insert_clashes:
  assumes "\<not> tx_aborted t" and "s \<in> set (bd_subscriptions (tx_state t))" "su_provider_subscription_id s = Some (st_id sub)"
  shows "(\<exists>e t'. tryInsertCancellationTombstone env org sub created t = (Inl e, t')) \<or>
    tryInsertCancellationTombstone env org sub created t = (Inr False, t) \<or>
    (\<exists>t'. tryInsertCancellationTombstone env org sub created t = (Inr False, t') \<and> tx_aborted t')"
proof -
  have insert: "insertCanceledTombstoneFromStripeWebhookEvent env org sub plan cycle created t = (Inr None, t) \<or>
      (\<exists>e t'. insertCanceledTombstoneFromStripeWebhookEvent env org sub plan cycle created t = (Inl e, t') \<and> tx_aborted t')"
    for plan cycle
  proof (cases "findOrganization org (tx_state t)")
    case None
    then show ?thesis
      using assms(1) by (simp add: insertCanceledTombstoneFromStripeWebhookEvent_def findOrganizationIdFromCurrentContext_def
          act_bind_def sql_read_live act_return_def)
  next
    case (Some o')
    have "sc_provider_subscription_id (canceled_tombstone env sub plan cycle created (og_id o')) = Some (st_id sub)"
      by (simp add: canceled_tombstone_def)
    from create_clashes [OF assms this] obtain e t' where "subscription_create org (we_now env) (we_publicId env)
        (canceled_tombstone env sub plan cycle created (og_id o')) t = (Inl e, t')" and "tx_aborted t'" by blast
    then show ?thesis
      using assms(1) Some by (simp add: insertCanceledTombstoneFromStripeWebhookEvent_def
          findOrganizationIdFromCurrentContext_def act_bind_def sql_read_live)
  qed
  show ?thesis
  proof (cases "Option.bind (stripePriceId sub) (\<lambda>p. findByStripePriceId p (tx_state t))")
    case None
    then show ?thesis
      using assms(1) by (auto simp: tryInsertCancellationTombstone_def find_plan_for_price_def act_bind_def sql_read_live
          act_return_def split: option.splits)
  next
    case (Some plan)
    then have "tryInsertCancellationTombstone env org sub created t = inserted_unless_race
        (insertCanceledTombstoneFromStripeWebhookEvent env org sub plan
          (js_upper (resolveBillingCycleForStripePrice (stripePriceId sub) plan)) created) t"
      using assms(1) by (auto simp: tryInsertCancellationTombstone_def find_plan_for_price_def act_bind_def sql_read_live
          split: option.splits)
    then show ?thesis
      using insert [of plan "js_upper (resolveBillingCycleForStripePrice (stripePriceId sub) plan)"]
      by (auto simp: inserted_unless_race_def act_catch_def act_bind_def act_return_def act_throw_def split: if_splits)
  qed
qed

lemma mark_canceled_aborted:
  "tx_aborted t \<Longrightarrow> markCanceledByProviderSubscriptionId org now jsNow i created t = (Inl Sql_aborted, t)"
  by (simp add: markCanceledByProviderSubscriptionId_def sql_def)

lemma deletion_behind_watermark_throws:
  assumes "failed_index (bd_subscriptions d) = None"
    and "s \<in> set (bd_subscriptions d)" "su_provider_subscription_id s = Some (st_id sub)"
    and "su_last_stripe_event_created_at s = Some w" "created < w"
  shows "\<exists>e. run_transaction (handleSubscriptionDeleted env org sub created) d = (Inl e, d)"
proof -
  let ?t = "tx_begin d"
  obtain t1 where recorded: "recordSubscriptionDeletionTombstone (st_id sub) created ?t = (Inr (), t1)"
    and t1: "\<not> tx_aborted t1" "bd_subscriptions (tx_state t1) = bd_subscriptions d"
    by (simp add: recordSubscriptionDeletionTombstone_def sql_def)
  have cancel: "markCanceledByProviderSubscriptionId org now jsNow (st_id sub) created t = (Inr None, t)"
    if "\<not> tx_aborted t" and "bd_subscriptions (tx_state t) = bd_subscriptions d" for now jsNow t
    by (rule no_cancel_behind_watermark [where s = s and w = w]) (use assms that in simp_all)
  have clash: "(\<exists>e t'. tryInsertCancellationTombstone env org sub created t1 = (Inl e, t')) \<or>
      tryInsertCancellationTombstone env org sub created t1 = (Inr False, t1) \<or>
      (\<exists>t'. tryInsertCancellationTombstone env org sub created t1 = (Inr False, t') \<and> tx_aborted t')"
    by (rule tombstone_insert_clashes [where s = s]) (use assms t1 in simp_all)
  have "\<exists>e t. handleSubscriptionDeleted env org sub created ?t = (Inl e, t)"
    using clash cancel [of ?t] cancel [OF t1]
    by (auto simp: handleSubscriptionDeleted_def act_bind_def recorded act_throw_def mark_canceled_aborted)
  then show ?thesis by (auto simp: run_transaction_def)
qed


lemma deleted_dispatch: "se_type e = DELETED \<Longrightarrow>
    dispatchEvent env org e = handleSubscriptionDeleted env org (se_object e) (event_time e)"
  by (simp add: dispatchEvent_def CREATED_def UPDATED_def DELETED_def)

text \<open>A deletion event older than the watermark of its row is never processed.  An immediate cancellation
  through the API stamps the row with the process clock after Stripe has created the event, so the event
  of that very cancellation is such a one: every attempt to handle it throws, changes nothing but the
  ledger and leaves the event \<^verbatim>\<open>failed\<close>, from where the sweep enqueues it again.\<close>

theorem deletion_behind_watermark_never_processed:
  assumes "failed_index (bd_subscriptions (sw_db w)) = None"
    and "se_type e = DELETED"
    and "s \<in> set (bd_subscriptions (sw_db w))" and "su_provider_subscription_id s = Some (st_id (se_object e))"
    and "su_last_stripe_event_created_at s = Some m" and "event_time e < m"
    and "fst (tryClaimEvent (we_now env) (we_jsNow env) e rid (sw_ledger w)) \<in> {claimed, reclaimed}"
  shows "(\<exists>err. fst (handleEvent env e rid w) = Inl err) \<and>
    sw_db (snd (handleEvent env e rid w)) = sw_db w \<and>
    (\<forall>r \<in> set (sw_ledger (snd (handleEvent env e rid w))). ev_stripe_event_id r = se_id e \<longrightarrow> reclaimable jsNow r)"
proof -
  obtain c t where claim: "tryClaimEvent (we_now env) (we_jsNow env) e rid (sw_ledger w) = (c, t)" by fastforce
  with assms(7) have granted: "handleEvent env e rid w = dispatch_and_settle env e (w\<lparr>sw_ledger := t\<rparr>)"
    by (auto simp: handleEvent_def)
  have "\<exists>err. run_transaction (dispatchEvent env org e) (sw_db w) = (Inl err, sw_db w)" for org
    unfolding deleted_dispatch [OF assms(2)] by (rule deletion_behind_watermark_throws [OF assms(1,3,4,5,6)])
  then have "\<exists>err. runStripeWebhookHandlerWithOrganizationContext env e (sw_db w) = (Inl err, sw_db w)"
    using assms(2) by (auto simp: runStripeWebhookHandlerWithOrganizationContext_def isStripeSubscriptionEvent_def
        split: sum.splits option.splits)
  then obtain err where "runStripeWebhookHandlerWithOrganizationContext env e (sw_db w) = (Inl err, sw_db w)" by blast
  then show ?thesis
    by (auto simp: granted dispatch_and_settle_def markFailed_def set_update_where reclaimable_def)
qed

definition demo_incomplete :: SubscriptionRow where
  "demo_incomplete = demo_subscription\<lparr>su_status := ''INCOMPLETE''\<rparr>"

definition demo_cancel_env :: BillingEnv where
  "demo_cancel_env = demo_billing_env\<lparr>be_now := 6500, be_jsNow := 6505\<rparr>"

text \<open>The cancellation at 6505 ms, then Stripe's event of second 6.\<close>

theorem deletion_behind_watermark_never_processed_witness:
  "\<exists>err. fst (handleEvent (demo_webhook_env 8000) (demo_event ''evt_1'' DELETED 6) None
     (stripe_step (Http demo_cancel_env ''org_a'' (Cancel ''sub_a'' None)) (demo_stripe_world [demo_incomplete] []))) = Inl err"
proof -
  let ?w = "stripe_step (Http demo_cancel_env ''org_a'' (Cancel ''sub_a'' None)) (demo_stripe_world [demo_incomplete] [])"
  let ?e = "demo_event ''evt_1'' DELETED 6" and ?env = "demo_webhook_env 8000"
  let ?s = "demo_incomplete\<lparr>su_status := ''CANCELED'', su_canceled_at := Some 6505,
      su_last_stripe_event_created_at := Some 6505, su_updated_at := 6500\<rparr>"
  note defs = subscription_cancel_def stripe_run_defs demo_incomplete_def demo_cancel_env_def
  have "failed_index (bd_subscriptions (sw_db ?w)) = None" and "se_type ?e = DELETED"
    and "?s \<in> set (bd_subscriptions (sw_db ?w))" and "su_provider_subscription_id ?s = Some (st_id (se_object ?e))"
    and "su_last_stripe_event_created_at ?s = Some 6505" and "event_time ?e < 6505"
    and "fst (tryClaimEvent (we_now ?env) (we_jsNow ?env) ?e None (sw_ledger ?w)) \<in> {claimed, reclaimed}"
    by (simp_all add: defs)
  from deletion_behind_watermark_never_processed [OF this] show ?thesis by blast
qed

section \<open>Claims\<close>

definition reclaimed_row :: "millis \<Rightarrow> StripeWebhookEventRow \<Rightarrow> StripeWebhookEventRow" where
  "reclaimed_row now r = r\<lparr>ev_processing_status := ''processing'', ev_attempt_count := ev_attempt_count r + 1,
     ev_updated_at := now, ev_failure_reason := None, ev_processed_at := None\<rparr>"

text \<open>What a claim does to the one row of its event.\<close>

lemma tryClaimEvent_row:
  assumes "distinct (map ev_stripe_event_id t)" and "r \<in> set t" and "ev_stripe_event_id r = se_id e"
  shows "fst (tryClaimEvent now jsNow e rid t) =
      (if ev_processing_status r = ''processed'' then processed_duplicate
       else if reclaimable jsNow r then reclaimed else still_processing_within_lease)"
    and "snd (tryClaimEvent now jsNow e rid t) =
      (if ev_processing_status r \<noteq> ''processed'' \<and> reclaimable jsNow r
       then update_where (\<lambda>x. ev_stripe_event_id x = se_id e) (reclaimed_row now) t else t)"
proof -
  have sel: "select_first (\<lambda>x. ev_stripe_event_id x = se_id e) t = Some r"
    using select_first_key_only [OF assms(1,2)] assms(3) by simp
  let ?p = "\<lambda>x. ev_stripe_event_id x = se_id e \<and> reclaimable jsNow x"
  have upd: "fst (update_row ?p f t) = (if reclaimable jsNow r then Some (f r) else None)" for f
    using update_row_key [OF assms(1,2), of ?p f] assms(3) by simp
  have same: "x = r" if "x \<in> set t" and "ev_stripe_event_id x = se_id e" for x
    using that assms(1,2,3) unfolding distinct_map inj_on_def by metis
  have tab: "update_where ?p f t = (if reclaimable jsNow r then update_where (\<lambda>x. ev_stripe_event_id x = se_id e) f t else t)" for f
  proof (cases "reclaimable jsNow r")
    case True
    then have "?p x \<longleftrightarrow> ev_stripe_event_id x = se_id e" if "x \<in> set t" for x using same that by blast
    then show ?thesis using True by (simp add: update_where_def cong: map_cong)
  next
    case False
    then show ?thesis using same by (auto intro: update_where_id)
  qed
  have f: "(\<lambda>r. r\<lparr>ev_processing_status := ''processing'', ev_attempt_count := ev_attempt_count r + 1, ev_updated_at := now,
      ev_failure_reason := None, ev_processed_at := None\<rparr>) = reclaimed_row now"
    by (simp add: fun_eq_iff reclaimed_row_def)
  have re: "tryReclaimEvent now jsNow (se_id e) t = (reclaimable jsNow r, update_where ?p (reclaimed_row now) t)"
    unfolding tryReclaimEvent_def f using upd [of "reclaimed_row now"] snd_update_row [of ?p "reclaimed_row now" t]
    by (simp add: Let_def case_prod_beta)
  show "fst (tryClaimEvent now jsNow e rid t) = (if ev_processing_status r = ''processed'' then processed_duplicate
       else if reclaimable jsNow r then reclaimed else still_processing_within_lease)"
    and "snd (tryClaimEvent now jsNow e rid t) = (if ev_processing_status r \<noteq> ''processed'' \<and> reclaimable jsNow r
       then update_where (\<lambda>x. ev_stripe_event_id x = se_id e) (reclaimed_row now) t else t)"
    by (simp_all add: tryClaimEvent_def sel re tab)
qed

primrec claim_results :: "StripeEvent \<Rightarrow> (millis \<times> millis) list \<Rightarrow> ledger \<Rightarrow> StripeWebhookEventClaimResult list" where
  "claim_results e [] t = []"
| "claim_results e (c # cs) t = (let (r, t') = tryClaimEvent (fst c) (snd c) e None t in r # claim_results e cs t')"

definition grants :: "StripeWebhookEventClaimResult list \<Rightarrow> nat" where
  "grants rs = length (filter (\<lambda>r. r = claimed \<or> r = reclaimed) rs)"

lemma grants_simps [simp]: "grants [] = 0" "grants (r # rs) = (if r = claimed \<or> r = reclaimed then Suc (grants rs) else grants rs)"
  by (simp_all add: grants_def)

lemma no_grant_while_held:
  assumes "distinct (map ev_stripe_event_id t)" and "r \<in> set t" and "ev_stripe_event_id r = se_id e"
    and "ev_processing_status r = ''processing''" and "0 < ev_attempt_count r" and "T \<le> ev_updated_at r"
    and "\<forall>c \<in> set cs. snd c - STRIPE_WEBHOOK_STUCK_PROCESSING_LEASE_MS \<le> T"
  shows "grants (claim_results e cs t) = 0"
  using assms(7)
proof (induction cs)
  case (Cons c cs)
  have "\<not> reclaimable (snd c) r"
    using assms(4,5,6) Cons.prems by (auto simp: reclaimable_def stuck_def)
  then have "fst (tryClaimEvent (fst c) (snd c) e None t) = still_processing_within_lease"
    and "snd (tryClaimEvent (fst c) (snd c) e None t) = t"
    using tryClaimEvent_row [OF assms(1,2,3), of "fst c" "snd c" None] assms(4) by simp_all
  with Cons show ?case by (simp add: case_prod_beta Let_def)
qed simp

text \<open>At most one dispatch per lease.  Once an event has its ledger row, any number of claims by workers
  and redeliveries whose process clocks lie within one lease after the first of them grants the event to
  one of them at most.\<close>

theorem one_dispatch_per_lease:
  assumes "distinct (map ev_stripe_event_id t)" and "r \<in> set t" and "ev_stripe_event_id r = se_id e"
    and "\<forall>c \<in> set cs. T \<le> fst c \<and> snd c - STRIPE_WEBHOOK_STUCK_PROCESSING_LEASE_MS \<le> T"
  shows "grants (claim_results e cs t) \<le> 1"
  using assms(4)
proof (induction cs)
  case (Cons c cs)
  note row = tryClaimEvent_row [OF assms(1,2,3), of "fst c" "snd c" None]
  show ?case
  proof (cases "ev_processing_status r \<noteq> ''processed'' \<and> reclaimable (snd c) r")
    case True
    let ?t = "update_where (\<lambda>x. ev_stripe_event_id x = se_id e) (reclaimed_row (fst c)) t"
    let ?r = "reclaimed_row (fst c) r"
    have "distinct (map ev_stripe_event_id ?t)"
      using assms(1) by (simp add: update_where_key reclaimed_row_def)
    moreover have "?r \<in> set ?t" using assms(2,3) by (auto simp: set_update_where)
    ultimately have "grants (claim_results e cs ?t) = 0"
      by (rule no_grant_while_held [where T = T]) (use assms(3) Cons.prems in \<open>auto simp: reclaimed_row_def\<close>)
    with row True show ?thesis by (simp add: case_prod_beta Let_def)
  next
    case False
    with row have "snd (tryClaimEvent (fst c) (snd c) e None t) = t"
      and "fst (tryClaimEvent (fst c) (snd c) e None t) \<notin> {claimed, reclaimed}" by auto
    with Cons show ?thesis by (simp add: case_prod_beta Let_def)
  qed
qed simp

definition demo_ledger_row :: StripeWebhookEventRow where
  "demo_ledger_row = \<lparr>ev_stripe_event_id = ''evt_1'', ev_event_type = DELETED, ev_stripe_created_at = 6000, ev_processed_at = None,
     ev_processing_status = ''processing'', ev_failure_reason = None, ev_request_id = None, ev_attempt_count = 0,
     ev_created_at = 7000, ev_updated_at = 7000\<rparr>"

theorem one_dispatch_per_lease_witness:
  "grants (claim_results (demo_event ''evt_1'' DELETED 6) [(7100, 7100), (7200, 7200), (7300, 907000)] [demo_ledger_row]) \<le> 1"
  by (rule one_dispatch_per_lease [where r = demo_ledger_row and T = 7100])
     (simp_all add: demo_ledger_row_def demo_event_def STRIPE_WEBHOOK_STUCK_PROCESSING_LEASE_MS_def)

text \<open>The row is what the bound needs: a worker that meets an event without one, as after a catch-up
  sweep, claims it by the insert, which leaves \<^verbatim>\<open>attempt_count\<close> at 0.  The next claim, however soon, reads
  that as a row no worker has taken, so both workers dispatch the event.\<close>

theorem inserted_claim_is_granted_again:
  assumes "se_id e \<notin> set (map ev_stripe_event_id t)"
  shows "claim_results e [(now, jsNow), (now', jsNow')] t = [claimed, reclaimed]"
proof -
  have "select_first (\<lambda>r. ev_stripe_event_id r = se_id e) t = None"
    using assms by (force simp: select_first_None_iff)
  then obtain r where claim: "tryClaimEvent now jsNow e None t = (claimed, t @ [r])"
    and r: "ev_stripe_event_id r = se_id e" "ev_processing_status r = ''processing''" "ev_attempt_count r = 0"
    by (auto simp: tryClaimEvent_def)
  have "select_first (\<lambda>r. ev_stripe_event_id r = se_id e) (t @ [r]) = Some r"
    using assms r(1) by (induction t) auto
  moreover have "fst (update_row (\<lambda>r. ev_stripe_event_id r = se_id e \<and> reclaimable jsNow' r) f (t @ [r])) \<noteq> None" for f
    unfolding update_row_None using r by (auto simp: reclaimable_def)
  then have "fst (tryReclaimEvent now' jsNow' (se_id e) (t @ [r]))"
    by (simp add: tryReclaimEvent_def case_prod_beta)
  ultimately have "fst (tryClaimEvent now' jsNow' e None (t @ [r])) = reclaimed"
    using r by (simp add: tryClaimEvent_def case_prod_beta)
  with claim show ?thesis by (simp add: case_prod_beta)
qed

theorem inserted_claim_is_granted_again_witness:
  "claim_results (demo_event ''evt_2'' UPDATED 6) [(7100, 7100), (7101, 7101)] [demo_ledger_row] = [claimed, reclaimed]"
  by (rule inserted_claim_is_granted_again) (simp add: demo_ledger_row_def demo_event_def)

text \<open>Nothing fences a claim: \<^verbatim>\<open>markProcessed\<close> and \<^verbatim>\<open>markFailed\<close> are keyed by the event id alone, so a
  failure that a slow worker reports after another worker has processed the event opens it again.\<close>

lemma late_failure_reopens_event:
  assumes "r \<in> set (markFailed now jsNow i reason (markProcessed now' jsNow' i t))" and "ev_stripe_event_id r = i"
  shows "reclaimable later r"
proof -
  obtain x where r: "r = (if ev_stripe_event_id x = i then x\<lparr>ev_processing_status := ''failed'', ev_processed_at := Some jsNow,
      ev_failure_reason := Some (if length reason > FAILURE_REASON_MAX_LENGTH
        then take FAILURE_REASON_MAX_LENGTH reason else reason), ev_updated_at := now\<rparr> else x)"
    using assms(1) unfolding markFailed_def set_update_where by blast
  have "ev_stripe_event_id x = i" using assms(2) unfolding r by (cases "ev_stripe_event_id x = i") simp_all
  then show ?thesis by (simp add: r reclaimable_def)
qed

section \<open>Tenancy\<close>

lemma resolve_by_row:
  assumes "failed_index (bd_subscriptions d) = None" and "s \<in> set (bd_subscriptions d)"
    and "su_provider_subscription_id s = Some i"
    and "select_first (\<lambda>o'. og_id o' = su_organization_id s) (bd_organizations d) = Some o'"
  shows "resolveOrganizationPublicIdByProviderSubscriptionId i d = Some (og_public_id o')"
proof -
  let ?rows = "filter (\<lambda>s. su_provider_subscription_id s = Some i) (bd_subscriptions d)"
  have "r = s" if "r \<in> set ?rows" for r using that provider_id_unique_row [OF assms(1) _ assms(2) _ assms(3)] by auto
  moreover have "s \<in> set ?rows" using assms(2,3) by simp
  ultimately obtain rs where "?rows = s # rs" by (cases ?rows) auto
  with assms(4) show ?thesis
    by (simp add: resolveOrganizationPublicIdByProviderSubscriptionId_def resolve_organization_def)
qed

text \<open>C39 An event reaches one tenant.  When the subscription of an event is known, the database decides
  which organization that is: rows invisible to that organization are the same after the event, and an
  event whose metadata names another organization is refused and changes no row at all.\<close>

theorem event_writes_owning_tenant_only:
  assumes "failed_index (bd_subscriptions (sw_db w)) = None"
    and "s \<in> set (bd_subscriptions (sw_db w))" and "su_provider_subscription_id s = Some (st_id (se_object e))"
    and "select_first (\<lambda>o'. og_id o' = su_organization_id s) (bd_organizations (sw_db w)) = Some o'"
  shows "filter (\<lambda>r. \<not> visible (og_public_id o') (sw_db w) r) (bd_subscriptions (sw_db (snd (handleEvent env e rid w)))) =
      filter (\<lambda>r. \<not> visible (og_public_id o') (sw_db w) r) (bd_subscriptions (sw_db w)) \<and>
    (readOrganizationPublicIdFromStripeMetadata (se_object e) \<notin> {None, Some (og_public_id o')} \<longrightarrow>
      sw_db (snd (handleEvent env e rid w)) = sw_db w)"
proof -
  note db = resolve_by_row [OF assms]
  let ?d = "snd (runStripeWebhookHandlerWithOrganizationContext env e (sw_db w))"
  have handler: "tenant_le (og_public_id o') (sw_db w) ?d"
    using db tenant.advances_run [OF tenant_dispatch, of "og_public_id o'" "sw_db w" env e]
    by (auto simp: runStripeWebhookHandlerWithOrganizationContext_def resolveOrganizationPublicIdForStripeEvent_def
        Let_def tenant.state_refl split: sum.splits option.splits if_splits)
  have refused: "?d = sw_db w" if "readOrganizationPublicIdFromStripeMetadata (se_object e) \<notin> {None, Some (og_public_id o')}"
    using that db by (auto simp: runStripeWebhookHandlerWithOrganizationContext_def
        resolveOrganizationPublicIdForStripeEvent_def Let_def)
  have "sw_db (snd (handleEvent env e rid w)) \<in> {sw_db w, ?d}"
    by (auto simp: handleEvent_def Let_def dispatch_and_settle_db split: prod.splits StripeWebhookEventClaimResult.splits)
  then show ?thesis using handler refused by (auto simp: tenant_le_def)
qed

theorem event_writes_owning_tenant_only_witness:
  "sw_db (snd (handleEvent (demo_webhook_env 8000)
     (demo_event ''evt_1'' UPDATED 6\<lparr>se_object := demo_stripe_subscription\<lparr>st_metadata_organization_id := Some ''org_b''\<rparr>\<rparr>) None
     (demo_stripe_world [demo_subscription] []))) = demo_billing [demo_subscription]"
proof -
  let ?e = "demo_event ''evt_1'' UPDATED 6\<lparr>se_object := demo_stripe_subscription\<lparr>st_metadata_organization_id := Some ''org_b''\<rparr>\<rparr>"
  let ?w = "demo_stripe_world [demo_subscription] []"
  have "failed_index (bd_subscriptions (sw_db ?w)) = None" and "demo_subscription \<in> set (bd_subscriptions (sw_db ?w))"
    and "su_provider_subscription_id demo_subscription = Some (st_id (se_object ?e))"
    and "select_first (\<lambda>o'. og_id o' = su_organization_id demo_subscription) (bd_organizations (sw_db ?w)) = Some demo_organization"
    by (simp_all add: stripe_run_defs)
  note kept = event_writes_owning_tenant_only [OF this, of "demo_webhook_env 8000" None]
  have "readOrganizationPublicIdFromStripeMetadata (se_object ?e) \<notin> {None, Some (og_public_id demo_organization)}"
    by (simp add: readOrganizationPublicIdFromStripeMetadata_def demo_organization_def)
  with kept have "sw_db (snd (handleEvent (demo_webhook_env 8000) ?e None ?w)) = sw_db ?w" by blast
  then show ?thesis by (simp add: demo_stripe_world_def demo_billing_world_def sw_db_def)
qed

section \<open>Deliveries in any order\<close>

text \<open>The last writer by timestamp, and that only the set of writers matters.\<close>

definition newer :: "millis \<Rightarrow> millis option \<Rightarrow> bool" where
  "newer t w = (case w of None \<Rightarrow> True | Some v \<Rightarrow> v < t)"

definition pick :: "millis \<times> 'a \<Rightarrow> millis option \<times> 'a \<Rightarrow> millis option \<times> 'a" where
  "pick c acc = (if newer (fst c) (fst acc) then (Some (fst c), snd c) else acc)"

lemma fold_pick:
  "(fold pick cs acc = acc \<or> (\<exists>c \<in> set cs. fold pick cs acc = (Some (fst c), snd c) \<and> newer (fst c) (fst acc))) \<and>
   (\<forall>c \<in> set cs. \<not> newer (fst c) (fst (fold pick cs acc)))"
proof (induction cs rule: rev_induct)
  case (snoc c cs)
  then show ?case
    by (auto simp: pick_def newer_def split: option.splits if_splits)
qed simp

lemma fold_pick_cong:
  assumes "set cs = set cs'" and "\<And>c c'. c \<in> set cs \<Longrightarrow> c' \<in> set cs \<Longrightarrow> fst c = fst c' \<Longrightarrow> c = c'"
  shows "fold pick cs acc = fold pick cs' acc"
proof -
  let ?R = "fold pick cs acc" and ?R' = "fold pick cs' acc"
  have max: "\<not> newer (fst c) (fst ?R)" "\<not> newer (fst c) (fst ?R')" if "c \<in> set cs" for c
    using fold_pick [of cs acc] fold_pick [of cs' acc] assms(1) that by blast+
  consider "?R = acc" "?R' = acc"
    | c where "c \<in> set cs" "newer (fst c) (fst acc)" "?R = acc \<or> ?R' = acc"
    | c c' where "c \<in> set cs" "c' \<in> set cs" "?R = (Some (fst c), snd c)" "?R' = (Some (fst c'), snd c')"
    using fold_pick [of cs acc] fold_pick [of cs' acc] assms(1) by metis
  then show ?thesis
  proof cases
    case 2
    then show ?thesis using max by metis
  next
    case 3
    then have "fst c = fst c'" using max [of c] max [of c'] by (simp add: newer_def)
    with 3 assms(2) show ?thesis by metis
  qed simp
qed

definition deliver :: "string \<Rightarrow> WebhookEnv \<times> StripeEvent \<Rightarrow> BillingDb \<Rightarrow> BillingDb" where
  "deliver org x d = snd (run_transaction (dispatchEvent (fst x) org (snd x)) d)"

text \<open>The plan an update event names, and the row it writes over \<open>s\<close>.\<close>

definition plan_of :: "BillingDb \<Rightarrow> StripeEvent \<Rightarrow> PlanRow option" where
  "plan_of d e = (case stripePriceId (se_object e) of None \<Rightarrow> None | Some p \<Rightarrow> findByStripePriceId p d)"

definition sync_row :: "BillingDb \<Rightarrow> WebhookEnv \<times> StripeEvent \<Rightarrow> SubscriptionRow \<Rightarrow> SubscriptionRow" where
  "sync_row d x s = apply_update (we_now (fst x)) ((sync_data (fst x) (se_object (snd x)) (plan_of d (snd x)))
     \<lparr>ud_last_stripe_event_created_at := Some (event_time (snd x))\<rparr>) s"

text \<open>Three columns are written only by an event that carries them: the plan, when the price is one of a plan, the
  seats and the cancellation instant.  A row without its \<^verbatim>\<open>updated_at\<close> and its watermark, and without those of the three
  columns that are not asked for.\<close>

definition masked :: "bool \<Rightarrow> bool \<Rightarrow> bool \<Rightarrow> SubscriptionRow \<Rightarrow> SubscriptionRow" where
  "masked plan seats canceled s = s\<lparr>su_updated_at := 0, su_last_stripe_event_created_at := None,
     su_plan_id := (if plan then su_plan_id s else 0), su_seats := (if seats then su_seats s else None),
     su_canceled_at := (if canceled then su_canceled_at s else None)\<rparr>"

definition carries_plan :: "BillingDb \<Rightarrow> StripeEvent \<Rightarrow> bool" where
  "carries_plan d e \<longleftrightarrow> plan_of d e \<noteq> None"

definition carries_seats :: "StripeEvent \<Rightarrow> bool" where
  "carries_seats e \<longleftrightarrow> syncedSeats (se_object e) \<noteq> None"

definition carries_canceled_at :: "StripeEvent \<Rightarrow> bool" where
  "carries_canceled_at e \<longleftrightarrow> st_canceled_at (se_object e) \<noteq> None"

definition all_or_none :: "(StripeEvent \<Rightarrow> bool) \<Rightarrow> StripeEvent set \<Rightarrow> bool" where
  "all_or_none carries E \<longleftrightarrow> (\<forall>e \<in> E. carries e) \<or> (\<forall>e \<in> E. \<not> carries e)"

text \<open>What the events leave alone, when \<open>kp\<close>, \<open>kq\<close> and \<open>kc\<close> say which of the three columns they write.\<close>

definition untouched :: "bool \<Rightarrow> bool \<Rightarrow> bool \<Rightarrow> SubscriptionRow \<Rightarrow> SubscriptionRow" where
  "untouched kp kq kc s = s\<lparr>su_updated_at := 0, su_last_stripe_event_created_at := None, su_status := [],
     su_cancel_at_period_end := False, su_current_period_start := 0, su_current_period_end := 0,
     su_plan_id := (if kp then 0 else su_plan_id s), su_seats := (if kq then None else su_seats s),
     su_canceled_at := (if kc then None else su_canceled_at s)\<rparr>"

definition writes_as :: "BillingDb \<Rightarrow> bool \<Rightarrow> bool \<Rightarrow> bool \<Rightarrow> bool \<Rightarrow> bool \<Rightarrow> bool \<Rightarrow> StripeEvent \<Rightarrow> bool" where
  "writes_as d p q c kp kq kc e \<longleftrightarrow> (if p then carries_plan d e = kp else kp) \<and>
     (if q then carries_seats e = kq else kq) \<and> (if c then carries_canceled_at e = kc else kc)"

lemma sync_row_untouched:
  assumes "untouched kp kq kc s1 = untouched kp kq kc s" and "writes_as d p q c kp kq kc (snd x)"
  shows "masked p q c (sync_row d x s1) = masked p q c (sync_row d x s)"
    and "untouched kp kq kc (sync_row d x s1) = untouched kp kq kc s"
  using assms
  by (cases s; cases s1; auto simp: untouched_def masked_def writes_as_def carries_plan_def carries_seats_def carries_canceled_at_def
      sync_row_def apply_update_def sync_data_def no_update_def set_if_def set_nullable_if_def split: if_splits option.splits)+

definition well_formed_update :: "string \<Rightarrow> string \<Rightarrow> millis \<Rightarrow> WebhookEnv \<times> StripeEvent \<Rightarrow> bool" where
  "well_formed_update org i created x \<longleftrightarrow> (let sub = se_object (snd x) in
     se_type (snd x) = UPDATED \<and> st_id sub = i \<and> st_items sub \<noteq> [] \<and>
     mappedStatus (st_status sub) \<in> set SUBSCRIPTION_STATUSES - set INACTIVE_SUBSCRIPTION_STATUSES \<and>
     periodStart (fst x) sub < periodEnd (fst x) sub \<and> created \<le> we_now (fst x) \<and>
     readOrganizationPublicIdFromStripeMetadata sub \<in> {None, Some org})"

text \<open>The arrival time of an event shows in nothing but \<^verbatim>\<open>updated_at\<close>.\<close>

lemma sync_row_clock:
  "snd x = snd y \<Longrightarrow> well_formed_update org i t x \<Longrightarrow> masked p q c (sync_row d x s) = masked p q c (sync_row d y s)"
  by (cases "st_items (se_object (snd y))")
    (auto simp: masked_def sync_row_def apply_update_def sync_data_def no_update_def set_if_def periodStart_def periodEnd_def
      firstItem_def well_formed_update_def Let_def)

definition live_row :: "string \<Rightarrow> string \<Rightarrow> BillingDb \<Rightarrow> SubscriptionRow \<Rightarrow> bool" where
  "live_row org i d s \<longleftrightarrow> failed_index (bd_subscriptions d) = None \<and> s \<in> set (bd_subscriptions d) \<and>
     su_provider_subscription_id s = Some i \<and> visible org d s \<and> \<not> terminal s \<and> failed_check s = None"

definition owned :: "string \<Rightarrow> BillingDb \<Rightarrow> SubscriptionRow \<Rightarrow> bool" where
  "owned org d s \<longleftrightarrow> (\<exists>o'. select_first (\<lambda>o'. og_id o' = su_organization_id s) (bd_organizations d) = Some o' \<and> og_public_id o' = org)"

lemma live_row_unique:
  "live_row org i d s \<Longrightarrow> r \<in> set (bd_subscriptions d) \<Longrightarrow> su_provider_subscription_id r = Some i \<Longrightarrow> r = s"
  unfolding live_row_def by (metis provider_id_unique_row)

lemma apply_update_keys [simp]:
  "su_public_id (apply_update now u s) = su_public_id s"
  "su_provider_subscription_id (apply_update now u s) = su_provider_subscription_id s"
  "su_created_at (apply_update now u s) = su_created_at s"
  "su_organization_id (apply_update now u s) = su_organization_id s"
  by (simp_all add: apply_update_def)

lemma filter_single: "distinct t \<Longrightarrow> s \<in> set t \<Longrightarrow> filter (\<lambda>r. r = s) t = [s]"
  by (induction t) (auto simp: filter_empty_conv)

lemma sync_applies:
  assumes "live_row org i d s" and "watermark_before t s"
    and "failed_check (apply_update now (u\<lparr>ud_last_stripe_event_created_at := Some t\<rparr>) s) = None"
  shows "syncFromStripeProviderSubscription org now i u t (tx_begin d) =
    (Inr (Some (apply_update now (u\<lparr>ud_last_stripe_event_created_at := Some t\<rparr>) s)),
     tx_begin (d\<lparr>bd_subscriptions := update_where (\<lambda>r. r = s)
        (apply_update now (u\<lparr>ud_last_stripe_event_created_at := Some t\<rparr>)) (bd_subscriptions d)\<rparr>))"
proof -
  let ?f = "apply_update now (u\<lparr>ud_last_stripe_event_created_at := Some t\<rparr>)"
  let ?q = "\<lambda>r. visible org d r \<and> su_provider_subscription_id r = Some i \<and> \<not> terminal r \<and> watermark_before t r"
  let ?t = "bd_subscriptions d"
  have hit: "?q r \<longleftrightarrow> r = s" if "r \<in> set ?t" for r
    using that assms(1,2) live_row_unique [OF assms(1)] by (auto simp: live_row_def)
  have "update_returning ?q ?f ?t = update_returning (\<lambda>r. r = s) ?f ?t"
    using hit by (simp add: update_returning_def cong: filter_cong)
  moreover have "update_where ?q ?f ?t = update_where (\<lambda>r. r = s) ?f ?t"
    using hit by (simp add: update_where_def cong: map_cong)
  moreover have "distinct (map su_public_id ?t)"
    using assms(1) by (simp add: live_row_def failed_index_def public_ids_unique_def split: if_splits)
  then have "distinct ?t" by (simp add: distinct_map)
  then have "update_returning (\<lambda>r. r = s) ?f ?t = [?f s]"
    using assms(1) by (simp add: update_returning_def live_row_def filter_single)
  moreover have "failed_index (update_where (\<lambda>r. r = s) ?f ?t) = None"
    by (rule update_keeps_indexes) (use assms(1) in \<open>auto simp: live_row_def\<close>)
  ultimately show ?thesis
    using assms(3) by (simp add: syncFromStripeProviderSubscription_def sql_def update_subscription_def Let_def failed_check_of_def)
qed

lemma sync_stale:
  assumes "live_row org i d s" and "\<not> watermark_before t s"
  shows "syncFromStripeProviderSubscription org now i u t (tx_begin d) =
    (Inr None, tx_begin d)"
proof -
  let ?q = "\<lambda>r. visible org d r \<and> su_provider_subscription_id r = Some i \<and> \<not> terminal r \<and> watermark_before t r"
  have "\<not> ?q r" if "r \<in> set (bd_subscriptions d)" for r
    using that assms(2) live_row_unique [OF assms(1)] by blast
  then have "update_returning ?q f (bd_subscriptions d) = []" and "update_where ?q f (bd_subscriptions d) = bd_subscriptions d" for f
    by (simp_all add: update_returning_empty_iff update_where_id)
  then show ?thesis
    using assms(1) by (simp add: syncFromStripeProviderSubscription_def sql_def update_subscription_def Let_def
        failed_check_of_def live_row_def)
qed

lemma exists_live_row:
  "live_row org i d s \<Longrightarrow> existsByProviderSubscriptionId org i (tx_begin d) =
    (Inr True, tx_begin d)"
  by (auto simp: existsByProviderSubscriptionId_def sql_read_live select_subscription_def live_row_def select_first_None_iff)

lemma update_checks:
  assumes "failed_check s = None" and "well_formed_update org i (su_created_at s) x"
  shows "failed_check (sync_row d x s) = None"
  using assms by (auto simp: failed_check_def sync_row_def apply_update_def sync_data_def no_update_def set_if_def set_nullable_if_def
      well_formed_update_def Let_def syncedSeats_def split: if_splits option.splits)

text \<open>One dispatch to a live row.\<close>

lemma deliver_live_row:
  assumes "live_row org i d s" and "owned org d s" and "well_formed_update org i (su_created_at s) x"
    and "s' = (if watermark_before (event_time (snd x)) s then sync_row d x s else s)"
  shows "live_row org i (deliver org x d) s' \<and> owned org (deliver org x d) s' \<and> su_created_at s' = su_created_at s \<and>
    plan_of (deliver org x d) = plan_of d \<and> fst (run_transaction (dispatchEvent (fst x) org (snd x)) d) = Inr ()"
proof -
  let ?t0 = "tx_begin d"
  obtain env e where x: "x = (env, e)" by fastforce
  let ?sub = "se_object e"
  have ty: "se_type e = UPDATED" and i: "st_id ?sub = i" using assms(3) x by (auto simp: well_formed_update_def Let_def)
  have plan: "find_plan_for_price (stripePriceId ?sub) ?t0 = (Inr (plan_of d e), ?t0)"
    by (cases "stripePriceId ?sub") (auto simp: find_plan_for_price_def act_return_def sql_read_live plan_of_def)
  show ?thesis
  proof (cases "watermark_before (event_time e) s")
    case True
    let ?f = "sync_row d x"
    have s': "s' = ?f s" using True assms(4) x by simp
    have check: "failed_check (?f s) = None" using update_checks [OF _ assms(3)] assms(1) by (simp add: live_row_def)
    have f: "?f = apply_update (we_now env) ((sync_data env ?sub (plan_of d e))\<lparr>ud_last_stripe_event_created_at := Some (event_time e)\<rparr>)"
      by (simp add: fun_eq_iff sync_row_def x)
    have run: "run_transaction (dispatchEvent (fst x) org (snd x)) d =
        (Inr (), d\<lparr>bd_subscriptions := update_where (\<lambda>r. r = s) ?f (bd_subscriptions d)\<rparr>)"
      unfolding f using sync_applies [OF assms(1) True check [unfolded f]] plan i ty
      by (simp add: x dispatchEvent_def handleSubscriptionUpdated_def act_bind_Inr run_transaction_def act_return_def)
    then have d': "deliver org x d = d\<lparr>bd_subscriptions := update_where (\<lambda>r. r = s) ?f (bd_subscriptions d)\<rparr>"
      by (simp add: deliver_def)
    have "?f s \<in> set (bd_subscriptions (deliver org x d))"
      using assms(1) by (auto simp: d' live_row_def set_update_where)
    moreover have "failed_index (bd_subscriptions (deliver org x d)) = None"
      unfolding d' f by simp (rule update_keeps_indexes, use assms(1) in \<open>auto simp: live_row_def\<close>)
    moreover have "\<not> terminal (?f s)"
      unfolding f using assms(3) x by (auto simp: well_formed_update_def Let_def terminal_def apply_update_def sync_data_def no_update_def set_if_def)
    moreover have "visible org (deliver org x d) (?f s)"
      using assms(1) by (simp add: d' f live_row_def visible_def findOrganization_def split: option.splits)
    ultimately have "live_row org i (deliver org x d) (?f s)"
      using check assms(1) by (simp add: live_row_def f)
    moreover have "plan_of (deliver org x d) = plan_of d"
      by (simp add: d' fun_eq_iff plan_of_def findByStripePriceId_def split: option.splits)
    ultimately show ?thesis using assms(2) run by (simp add: s' d' owned_def f)
  next
    case False
    have "run_transaction (dispatchEvent (fst x) org (snd x)) d = (Inr (), d)"
      using sync_stale [OF assms(1) False] plan i ty exists_live_row [OF assms(1)]
      by (simp add: x dispatchEvent_def handleSubscriptionUpdated_def act_bind_Inr run_transaction_def act_return_def
          findSubscriptionDeletionTombstone_def sql_read_live recoverMissingSubscriptionRowForUpsert_def)
    then show ?thesis using assms False x by (simp add: deliver_def)
  qed
qed

text \<open>Dispatches to a live row: the last writer by timestamp wins, on every column all or none of them write.\<close>

lemma deliveries_live_row:
  assumes "live_row org i d s" and "owned org d s" and "untouched kp kq kc s = untouched kp kq kc s0" and "plan_of d = plan_of d0"
    and "\<forall>x \<in> set xs. well_formed_update org i (su_created_at s) x \<and> writes_as d0 p q c kp kq kc (snd x)"
  shows "\<exists>s'. live_row org i (fold (deliver org) xs d) s' \<and> (su_last_stripe_event_created_at s', masked p q c s') =
    fold pick (map (\<lambda>x. (event_time (snd x), masked p q c (sync_row d0 x s0))) xs) (su_last_stripe_event_created_at s, masked p q c s)"
  using assms
proof (induction xs arbitrary: d s)
  case (Cons x xs)
  define s1 where "s1 = (if watermark_before (event_time (snd x)) s then sync_row d x s else s)"
  have same: "sync_row d x r = sync_row d0 x r" for r using Cons.prems(4) by (simp add: sync_row_def)
  have wf: "well_formed_update org i (su_created_at s) x" "writes_as d0 p q c kp kq kc (snd x)" using Cons.prems(5) by simp_all
  note st = deliver_live_row [OF Cons.prems(1,2) wf(1) s1_def]
  note un = sync_row_untouched [OF Cons.prems(3) wf(2)]
  have "untouched kp kq kc s1 = untouched kp kq kc s0" using un(2) Cons.prems(3) by (simp add: s1_def same)
  moreover have "(su_last_stripe_event_created_at s1, masked p q c s1) =
      pick (event_time (snd x), masked p q c (sync_row d0 x s0)) (su_last_stripe_event_created_at s, masked p q c s)"
    using un(1) by (simp add: s1_def same pick_def newer_def watermark_before_def split: option.splits)
      (simp_all add: sync_row_def apply_update_def set_nullable_if_def)
  ultimately show ?case
    using Cons.IH [of "deliver org x d" s1] st Cons.prems(4,5) by simp
qed auto

text \<open>The ledger row of an event: none, or processed.\<close>

definition unseen :: "ledger \<Rightarrow> StripeEvent \<Rightarrow> bool" where
  "unseen t e \<longleftrightarrow> select_first (\<lambda>r. ev_stripe_event_id r = se_id e) t = None"

definition settled :: "ledger \<Rightarrow> StripeEvent \<Rightarrow> bool" where
  "settled t e \<longleftrightarrow> (\<exists>r. select_first (\<lambda>r. ev_stripe_event_id r = se_id e) t = Some r \<and> ev_processing_status r = ''processed'')"

lemma settle_ledger:
  assumes "unseen t e" and "ev_stripe_event_id r = se_id e"
  shows "settled (markProcessed now jsNow (se_id e) (t @ [r])) e"
    and "se_id e' \<noteq> se_id e \<Longrightarrow> unseen (markProcessed now jsNow (se_id e) (t @ [r])) e' = unseen t e'"
    and "se_id e' \<noteq> se_id e \<Longrightarrow> settled (markProcessed now jsNow (se_id e) (t @ [r])) e' = settled t e'"
proof -
  let ?f = "\<lambda>r. r\<lparr>ev_processing_status := ''processed'', ev_processed_at := Some jsNow, ev_updated_at := now\<rparr>"
  have other: "select_first (\<lambda>r. ev_stripe_event_id r = k) (markProcessed now jsNow (se_id e) (t @ [r])) =
      select_first (\<lambda>r. ev_stripe_event_id r = k) t" if "k \<noteq> se_id e" for k
    using that assms(2) unfolding markProcessed_def select_first_def by (induction t) (simp_all add: update_where_def)
  have "select_first (\<lambda>r. ev_stripe_event_id r = se_id e) (markProcessed now jsNow (se_id e) (t @ [r])) = Some (?f r)"
    using assms unfolding markProcessed_def select_first_def unseen_def
    by (induction t) (simp_all add: update_where_def split: if_splits)
  then show "settled (markProcessed now jsNow (se_id e) (t @ [r])) e" by (simp add: settled_def)
  show "se_id e' \<noteq> se_id e \<Longrightarrow> unseen (markProcessed now jsNow (se_id e) (t @ [r])) e' = unseen t e'"
    and "se_id e' \<noteq> se_id e \<Longrightarrow> settled (markProcessed now jsNow (se_id e) (t @ [r])) e' = settled t e'"
    by (simp_all add: unseen_def settled_def other)
qed

text \<open>The service takes a new event to the dispatch and settles it, and a settled one no further than the ledger.\<close>

lemma handle_unseen:
  assumes "unseen (sw_ledger w) (snd x)" and "live_row org i (sw_db w) s" and "owned org (sw_db w) s"
    and "well_formed_update org i (su_created_at s) x" and "handleEvent (fst x) (snd x) rid w = (res, w1)"
  shows "res = Inr ()" and "sw_db w1 = deliver org x (sw_db w)" and "settled (sw_ledger w1) (snd x)"
    and "se_id e' \<noteq> se_id (snd x) \<Longrightarrow> unseen (sw_ledger w1) e' = unseen (sw_ledger w) e'"
    and "se_id e' \<noteq> se_id (snd x) \<Longrightarrow> settled (sw_ledger w1) e' = settled (sw_ledger w) e'"
proof -
  let ?e = "snd x" and ?env = "fst x"
  let ?row = "\<lparr>ev_stripe_event_id = se_id ?e, ev_event_type = se_type ?e, ev_stripe_created_at = event_time ?e,
            ev_processed_at = None, ev_processing_status = ''processing'', ev_failure_reason = None,
            ev_request_id = rid, ev_attempt_count = 0, ev_created_at = we_now ?env, ev_updated_at = we_now ?env\<rparr>"
  have sub: "isStripeSubscriptionEvent ?e" "st_id (se_object ?e) = i"
      "readOrganizationPublicIdFromStripeMetadata (se_object ?e) \<in> {None, Some org}"
    using assms(4) by (auto simp: well_formed_update_def Let_def isStripeSubscriptionEvent_def CREATED_def UPDATED_def DELETED_def)
  obtain o' where "select_first (\<lambda>o'. og_id o' = su_organization_id s) (bd_organizations (sw_db w)) = Some o'" and o': "og_public_id o' = org"
    using assms(3) by (auto simp: owned_def)
  from resolve_by_row [OF _ _ _ this(1)]
  have "resolveOrganizationPublicIdByProviderSubscriptionId i (sw_db w) = Some org"
    using assms(2) o' by (simp add: live_row_def)
  then have "resolveOrganizationPublicIdForStripeEvent ?e (sw_db w) = Inr (Some org)"
    using sub by (auto simp: resolveOrganizationPublicIdForStripeEvent_def Let_def)
  moreover have "run_transaction (dispatchEvent ?env org ?e) (sw_db w) = (Inr (), deliver org x (sw_db w))"
    using deliver_live_row [OF assms(2-4) refl] by (simp add: deliver_def prod_eq_iff)
  ultimately have "handleEvent ?env ?e rid w = (Inr (), (set_db (deliver org x (sw_db w)) (w\<lparr>sw_ledger := sw_ledger w @ [?row]\<rparr>))
      \<lparr>sw_ledger := markProcessed (we_now ?env) (we_jsNow ?env) (se_id ?e) (sw_ledger w @ [?row])\<rparr>)"
    using assms(1) by (simp add: handleEvent_def dispatch_and_settle_def tryClaimEvent_def unseen_def Let_def
        runStripeWebhookHandlerWithOrganizationContext_def)
  with assms(5) have w1: "res = Inr ()" "w1 = (set_db (deliver org x (sw_db w)) (w\<lparr>sw_ledger := sw_ledger w @ [?row]\<rparr>))
      \<lparr>sw_ledger := markProcessed (we_now ?env) (we_jsNow ?env) (se_id ?e) (sw_ledger w @ [?row])\<rparr>" by simp_all
  have ledger: "sw_ledger w1 = markProcessed (we_now ?env) (we_jsNow ?env) (se_id ?e) (sw_ledger w @ [?row])" by (simp add: w1(2))
  show "res = Inr ()" by (rule w1(1))
  show "sw_db w1 = deliver org x (sw_db w)" by (simp add: w1(2))
  show "settled (sw_ledger w1) (snd x)" unfolding ledger by (rule settle_ledger(1) [OF assms(1)]) simp
  show "se_id e' \<noteq> se_id (snd x) \<Longrightarrow> unseen (sw_ledger w1) e' = unseen (sw_ledger w) e'"
    unfolding ledger by (rule settle_ledger(2) [OF assms(1)]) simp_all
  show "se_id e' \<noteq> se_id (snd x) \<Longrightarrow> settled (sw_ledger w1) e' = settled (sw_ledger w) e'"
    unfolding ledger by (rule settle_ledger(3) [OF assms(1)]) simp_all
qed

lemma handle_settled: "settled (sw_ledger w) (snd x) \<Longrightarrow> handleEvent (fst x) (snd x) rid w = (Inr (), w)"
  by (auto simp: handleEvent_def tryClaimEvent_def settled_def Let_def)

fun handle_all :: "string option \<Rightarrow> (WebhookEnv \<times> StripeEvent) list \<Rightarrow> StripeWorld \<Rightarrow> (thrown + unit) list \<times> StripeWorld" where
  "handle_all rid [] w = ([], w)"
| "handle_all rid (x # xs) w = (let (r, w1) = handleEvent (fst x) (snd x) rid w; (rs, w2) = handle_all rid xs w1 in (r # rs, w2))"

lemma handle_all_dispatches:
  assumes "live_row org i (sw_db w) s" and "owned org (sw_db w) s"
    and "\<forall>x \<in> set xs. well_formed_update org i (su_created_at s) x \<and> (unseen (sw_ledger w) (snd x) \<or> settled (sw_ledger w) (snd x))"
    and "\<forall>x \<in> set xs. \<forall>y \<in> set xs. se_id (snd x) = se_id (snd y) \<longrightarrow> snd x = snd y"
  shows "\<exists>ds. list_all (\<lambda>r. r = Inr ()) (fst (handle_all rid xs w)) \<and> sw_db (snd (handle_all rid xs w)) = fold (deliver org) ds (sw_db w) \<and>
    set ds \<subseteq> set xs \<and> snd ` set ds = {e \<in> snd ` set xs. unseen (sw_ledger w) e}"
  using assms
proof (induction xs arbitrary: w s)
  case (Cons x xs)
  obtain r w1 where run: "handleEvent (fst x) (snd x) rid w = (r, w1)" by fastforce
  show ?case
  proof (cases "unseen (sw_ledger w) (snd x)")
    case False
    then have st: "settled (sw_ledger w) (snd x)" using Cons.prems(3) by auto
    then have "r = Inr ()" "w1 = w" using handle_settled [OF st, of rid] run by simp_all
    moreover obtain ds where "list_all (\<lambda>r. r = Inr ()) (fst (handle_all rid xs w))"
        "sw_db (snd (handle_all rid xs w)) = fold (deliver org) ds (sw_db w)" "set ds \<subseteq> set xs"
        "snd ` set ds = {e \<in> snd ` set xs. unseen (sw_ledger w) e}"
      using Cons.IH [OF Cons.prems(1,2)] Cons.prems(3,4) by auto
    ultimately show ?thesis using False run by (intro exI [of _ ds]) (auto simp: split_def Let_def)
  next
    case True
    have wf: "well_formed_update org i (su_created_at s) x" using Cons.prems(3) by simp
    note h = handle_unseen [OF True Cons.prems(1,2) wf run]
    note st = deliver_live_row [OF Cons.prems(1,2) wf refl]
    have id: "se_id (snd y) = se_id (snd x) \<longleftrightarrow> snd y = snd x" if "y \<in> set xs" for y
      using bspec [OF bspec [OF Cons.prems(4), of y], of x] that by auto
    have seen: "unseen (sw_ledger w1) (snd y) \<longleftrightarrow> unseen (sw_ledger w) (snd y) \<and> snd y \<noteq> snd x" if "y \<in> set xs" for y
    proof (cases "snd y = snd x")
      case True
      then show ?thesis using h(3) by (auto simp: settled_def unseen_def)
    next
      case False
      then show ?thesis using h(4) id [OF that] by simp
    qed
    have ok: "unseen (sw_ledger w1) (snd y) \<or> settled (sw_ledger w1) (snd y)" if "y \<in> set xs" for y
    proof (cases "snd y = snd x")
      case False
      then show ?thesis using h(4,5) id [OF that] Cons.prems(3) that by simp
    qed (simp add: h(3))
    obtain ds where ds: "list_all (\<lambda>r. r = Inr ()) (fst (handle_all rid xs w1))"
        "sw_db (snd (handle_all rid xs w1)) = fold (deliver org) ds (sw_db w1)" "set ds \<subseteq> set xs"
        "snd ` set ds = {e \<in> snd ` set xs. unseen (sw_ledger w1) e}"
      using Cons.IH [of w1 "if watermark_before (event_time (snd x)) s then sync_row (sw_db w) x s else s"] st h(2) ok Cons.prems(3,4) by auto
    have "snd ` set (x # ds) = {e \<in> snd ` set (x # xs). unseen (sw_ledger w) e}"
      using ds(4) True seen by auto
    then show ?thesis using ds h(1,2) run by (intro exI [of _ "x # ds"]) (auto simp: split_def Let_def)
  qed
qed auto

text \<open>Which of the three columns a set of events writes, when it is all of them or none.\<close>

lemma writes_as_ex:
  assumes "p \<longrightarrow> all_or_none (carries_plan d) E" and "q \<longrightarrow> all_or_none carries_seats E" and "c \<longrightarrow> all_or_none carries_canceled_at E"
  shows "\<exists>kp kq kc. \<forall>e \<in> E. writes_as d p q c kp kq kc e"
proof -
  have one: "\<exists>k. \<forall>e \<in> E. if b then P e = k else k" if "b \<longrightarrow> all_or_none P E" for b P
    using that by (cases b) (auto simp: all_or_none_def)
  show ?thesis using one [OF assms(1)] one [OF assms(2)] one [OF assms(3)] unfolding writes_as_def by blast
qed

text \<open>C38 Update events commute.  Hand the same set of \<^verbatim>\<open>customer.subscription.updated\<close> events, new to the ledger, to
  \<^verbatim>\<open>handleEvent\<close> in two orders, with any repeats, for a live row of the organization that owns it.  Each event
  names a status that is not final, has an item with a period that ends after it starts, names no other organization
  in its metadata, and no two carry the same timestamp or, being different, the same id.  Then every delivery is acknowledged, and
  the two rows agree: on the watermark, which no event is newer than, and on every column but \<^verbatim>\<open>updated_at\<close> and possibly
  the plan, the seats and the cancellation instant; on each of these three as well when all of the events carry it or
  none does.\<close>

theorem updates_commute:
  assumes "live_row org i (sw_db w) s" and "owned org (sw_db w) s"
    and "\<forall>x \<in> set xs \<union> set ys. well_formed_update org i (su_created_at s) x"
    and "\<forall>x \<in> set xs. unseen (sw_ledger w) (snd x)"
    and "snd ` set xs = snd ` set ys"
    and "\<forall>x \<in> set xs. \<forall>y \<in> set xs. event_time (snd x) = event_time (snd y) \<or> se_id (snd x) = se_id (snd y) \<longrightarrow> snd x = snd y"
    and "p \<longrightarrow> all_or_none (carries_plan (sw_db w)) (snd ` set xs)" and "q \<longrightarrow> all_or_none carries_seats (snd ` set xs)"
    and "c \<longrightarrow> all_or_none carries_canceled_at (snd ` set xs)"
  shows "list_all (\<lambda>r. r = Inr ()) (fst (handle_all rid xs w)) \<and> list_all (\<lambda>r. r = Inr ()) (fst (handle_all rid ys w)) \<and>
    (\<exists>r r'. r \<in> set (bd_subscriptions (sw_db (snd (handle_all rid xs w)))) \<and> su_provider_subscription_id r = Some i \<and>
      r' \<in> set (bd_subscriptions (sw_db (snd (handle_all rid ys w)))) \<and> su_provider_subscription_id r' = Some i \<and>
      su_last_stripe_event_created_at r = su_last_stripe_event_created_at r' \<and> masked p q c r = masked p q c r' \<and>
      (\<forall>x \<in> set xs. \<not> watermark_before (event_time (snd x)) r))"
proof -
  let ?carry = "\<lambda>x. (event_time (snd x), masked p q c (sync_row (sw_db w) x s))"
  let ?s = "(su_last_stripe_event_created_at s, masked p q c s)"
  obtain kp kq kc where k: "\<forall>e \<in> snd ` set xs. writes_as (sw_db w) p q c kp kq kc e" using writes_as_ex [OF assms(7-9)] by blast
  have run: "\<exists>ds r. list_all (\<lambda>r. r = Inr ()) (fst (handle_all rid zs w)) \<and> set ds \<subseteq> set zs \<and> snd ` set ds = snd ` set xs \<and>
      r \<in> set (bd_subscriptions (sw_db (snd (handle_all rid zs w)))) \<and> su_provider_subscription_id r = Some i \<and>
      (su_last_stripe_event_created_at r, masked p q c r) = fold pick (map ?carry ds) ?s"
    if zs: "set zs \<subseteq> set xs \<union> set ys" "snd ` set zs = snd ` set xs" for zs
  proof -
    have in_xs: "\<exists>x \<in> set xs. snd z = snd x" if "z \<in> set zs" for z
      using zs(2) that imageI [OF that, of snd] by (metis (no_types, lifting) imageE)
    have new: "unseen (sw_ledger w) (snd z)" if "z \<in> set zs" for z using in_xs [OF that] assms(4) by auto
    have ids: "\<forall>x \<in> set zs. \<forall>y \<in> set zs. se_id (snd x) = se_id (snd y) \<longrightarrow> snd x = snd y"
    proof (intro ballI impI)
      fix a b assume ab: "a \<in> set zs" "b \<in> set zs" "se_id (snd a) = se_id (snd b)"
      obtain x y where "x \<in> set xs" "y \<in> set xs" "snd a = snd x" "snd b = snd y" using in_xs [OF ab(1)] in_xs [OF ab(2)] by blast
      with bspec [OF bspec [OF assms(6), of x], of y] ab(3) show "snd a = snd b" by simp
    qed
    have pre: "\<forall>x \<in> set zs. well_formed_update org i (su_created_at s) x \<and> (unseen (sw_ledger w) (snd x) \<or> settled (sw_ledger w) (snd x))"
      using new zs(1) assms(3) by blast
    have all_new: "{e \<in> snd ` set zs. unseen (sw_ledger w) e} = snd ` set xs" unfolding zs(2) [symmetric] using new by auto
    obtain ds where ds: "list_all (\<lambda>r. r = Inr ()) (fst (handle_all rid zs w))" "set ds \<subseteq> set zs" "snd ` set ds = snd ` set xs"
        "sw_db (snd (handle_all rid zs w)) = fold (deliver org) ds (sw_db w)"
      using handle_all_dispatches [OF assms(1,2) pre ids, of rid] unfolding all_new by blast
    have "\<forall>x \<in> set ds. well_formed_update org i (su_created_at s) x \<and> writes_as (sw_db w) p q c kp kq kc (snd x)"
      using ds(2,3) zs(1) assms(3) k by blast
    from deliveries_live_row [OF assms(1,2) refl refl this] obtain s' where "live_row org i (fold (deliver org) ds (sw_db w)) s'"
      "(su_last_stripe_event_created_at s', masked p q c s') = fold pick (map ?carry ds) ?s" by blast
    with ds show ?thesis by (intro exI [of _ ds] exI [of _ s'] conjI) (simp_all add: live_row_def)
  qed
  obtain ds r where x: "list_all (\<lambda>r. r = Inr ()) (fst (handle_all rid xs w))" "set ds \<subseteq> set xs" "snd ` set ds = snd ` set xs"
      "r \<in> set (bd_subscriptions (sw_db (snd (handle_all rid xs w))))" "su_provider_subscription_id r = Some i"
      "(su_last_stripe_event_created_at r, masked p q c r) = fold pick (map ?carry ds) ?s" using run [of xs] by auto
  obtain es r' where y: "list_all (\<lambda>r. r = Inr ()) (fst (handle_all rid ys w))" "set es \<subseteq> set ys" "snd ` set es = snd ` set xs"
      "r' \<in> set (bd_subscriptions (sw_db (snd (handle_all rid ys w))))" "su_provider_subscription_id r' = Some i"
      "(su_last_stripe_event_created_at r', masked p q c r') = fold pick (map ?carry es) ?s" using run [of ys] assms(5) by auto
  have clock: "?carry a = ?carry b" if "snd a = snd b" "a \<in> set xs \<union> set ys" for a b
    using sync_row_clock [OF that(1)] assms(3) that by fastforce
  have sub: "set (map ?carry as) \<subseteq> set (map ?carry bs)" if "snd ` set as \<subseteq> snd ` set bs" "set as \<subseteq> set xs \<union> set ys" for as bs
  proof
    fix v assume "v \<in> set (map ?carry as)"
    then obtain a where a: "a \<in> set as" "v = ?carry a" by auto
    have "snd a \<in> snd ` set bs" using a(1) that(1) by blast
    then obtain b where b: "b \<in> set bs" "snd a = snd b" by blast
    have "a \<in> set xs \<union> set ys" using a(1) that(2) by blast
    then have "v = ?carry b" using a(2) clock [OF b(2)] by simp
    with b(1) show "v \<in> set (map ?carry bs)" by simp
  qed
  have "set (map ?carry ds) = set (map ?carry es)"
  proof (rule equalityI)
    show "set (map ?carry ds) \<subseteq> set (map ?carry es)" by (rule sub) (use x(2,3) y(3) in auto)
    show "set (map ?carry es) \<subseteq> set (map ?carry ds)" by (rule sub) (use x(3) y(2,3) in auto)
  qed
  moreover have "v = v'" if vs: "v \<in> set (map ?carry ds)" "v' \<in> set (map ?carry ds)" "fst v = fst v'" for v v'
  proof -
    obtain a b where ab: "a \<in> set ds" "b \<in> set ds" "v = ?carry a" "v' = ?carry b" using vs(1,2) by auto
    have xs: "a \<in> set xs" "b \<in> set xs" using ab(1,2) x(2) by blast+
    from bspec [OF bspec [OF assms(6) xs(1)] xs(2)] have "snd a = snd b" using vs(3) ab(3,4) by simp
    then show ?thesis using clock [of a b] ab(3,4) xs(1) by simp
  qed
  ultimately have eq: "fold pick (map ?carry ds) ?s = fold pick (map ?carry es) ?s" by (rule fold_pick_cong)
  have "\<not> watermark_before (event_time (snd z)) r" if "z \<in> set xs" for z
  proof -
    have "snd z \<in> snd ` set ds" unfolding x(3) using that by blast
    then obtain a where "a \<in> set ds" "snd z = snd a" by blast
    then have "\<not> newer (event_time (snd z)) (fst (fold pick (map ?carry ds) ?s))"
      using fold_pick [of "map ?carry ds" ?s] by auto
    then show ?thesis unfolding x(6) [symmetric] by (simp add: newer_def watermark_before_def)
  qed
  moreover have "su_last_stripe_event_created_at r = su_last_stripe_event_created_at r'" "masked p q c r = masked p q c r'"
    using trans [OF trans [OF x(6) eq] y(6) [symmetric]] by simp_all
  ultimately show ?thesis using x(1,4,5) y(1,4,5) by (intro conjI exI [of _ r] exI [of _ r']) auto
qed

definition demo_pause :: StripeEvent where
  "demo_pause = (demo_event ''evt_8'' UPDATED 8)\<lparr>se_object := demo_stripe_subscription\<lparr>st_status := ''paused'', st_canceled_at := Some 7\<rparr>\<rparr>"

definition demo_overdue :: StripeEvent where
  "demo_overdue = (demo_event ''evt_9'' UPDATED 9)\<lparr>se_object := demo_stripe_subscription\<lparr>st_status := ''past_due''\<rparr>\<rparr>"

definition demo_in_order :: "(WebhookEnv \<times> StripeEvent) list" where
  "demo_in_order = [(demo_webhook_env 9500, demo_pause), (demo_webhook_env 9600, demo_overdue)]"

definition demo_out_of_order :: "(WebhookEnv \<times> StripeEvent) list" where
  "demo_out_of_order = [(demo_webhook_env 9500, demo_overdue), (demo_webhook_env 9600, demo_pause), (demo_webhook_env 9700, demo_overdue)]"

text \<open>The condition on the three columns is needed: the older of two events carries a cancellation instant, the newer one, in which the
  cancellation was withdrawn, does not.  In order, the withdrawn instant stays in the row; the other way round it never gets there.\<close>

lemma withdrawn_cancellation_depends_on_order:
  "map su_canceled_at (bd_subscriptions (sw_db (snd (handle_all None demo_in_order (demo_stripe_world [demo_subscription] []))))) = [Some 7000]"
  "map su_canceled_at (bd_subscriptions (sw_db (snd (handle_all None demo_out_of_order (demo_stripe_world [demo_subscription] []))))) = [None]"
  by (simp_all add: demo_in_order_def demo_out_of_order_def demo_pause_def demo_overdue_def stripe_run_defs)

theorem updates_commute_witness:
  "\<exists>r r'. r \<in> set (bd_subscriptions (sw_db (snd (handle_all None demo_in_order (demo_stripe_world [demo_subscription] []))))) \<and>
     r' \<in> set (bd_subscriptions (sw_db (snd (handle_all None demo_out_of_order (demo_stripe_world [demo_subscription] []))))) \<and>
     masked True True False r = masked True True False r' \<and> \<not> watermark_before 9000 r"
proof -
  let ?w = "demo_stripe_world [demo_subscription] []"
  note defs = demo_in_order_def demo_out_of_order_def demo_pause_def demo_overdue_def well_formed_update_def live_row_def owned_def
    unseen_def all_or_none_def carries_plan_def plan_of_def carries_seats_def stripe_run_defs
  have a: "live_row ''org_a'' ''si_1'' (sw_db ?w) demo_subscription" "owned ''org_a'' (sw_db ?w) demo_subscription" by (simp_all add: defs)
  have b: "\<forall>x \<in> set demo_in_order \<union> set demo_out_of_order. well_formed_update ''org_a'' ''si_1'' (su_created_at demo_subscription) x"
    by (simp add: defs)
  have c: "\<forall>x \<in> set demo_in_order. unseen (sw_ledger ?w) (snd x)" "snd ` set demo_in_order = snd ` set demo_out_of_order"
    by (auto simp: defs)
  have d: "\<forall>x \<in> set demo_in_order. \<forall>y \<in> set demo_in_order. event_time (snd x) = event_time (snd y) \<or> se_id (snd x) = se_id (snd y) \<longrightarrow>
      snd x = snd y" by (simp add: defs)
  have e: "True \<longrightarrow> all_or_none (carries_plan (sw_db ?w)) (snd ` set demo_in_order)" "True \<longrightarrow> all_or_none carries_seats (snd ` set demo_in_order)"
    "False \<longrightarrow> all_or_none carries_canceled_at (snd ` set demo_in_order)" by (simp_all add: defs)
  have last: "\<exists>x \<in> set demo_in_order. event_time (snd x) = 9000" by (simp add: defs)
  from updates_commute [OF a b c d e, of None] last show ?thesis by metis
qed

end
