(* ===== verification/Tenant_Tables.thy ===== *)
theory Tenant_Tables
  imports Subscriptions Users
begin

text \<open>
  The tables of a tenant: \<^verbatim>\<open>src/src/domains/tenancy/\<close>: memberships, invitations, roles with their
  permissions, API keys, next to the organizations and subscriptions of billing and the user
  accounts.  A statement runs under the row-level security of the organization the transaction is
  pinned to and fails on the checks and unique indexes of the schema.  The permission codes a user holds
  (\<^verbatim>\<open>permission.repository.ts\<close>) and the guard \<^verbatim>\<open>assertCallerCanGrantPermissionCodes\<close> are here, because roles,
  keys and memberships all use them.
\<close>

section \<open>Rows\<close>

record MembershipRow =
  mb_id :: nat
  mb_public_id :: string
  mb_user_id :: nat
  mb_organization_id :: nat
  mb_role_id :: nat
  mb_status :: string
  mb_invited_by_user_id :: "nat option"
  mb_joined_at :: "millis option"
  mb_deleted_at :: "millis option"
  mb_created_at :: millis
  mb_updated_at :: millis

record MemberInvitationRow =
  mi_id :: nat
  mi_public_id :: string
  mi_membership_id :: nat
  mi_email :: string
  mi_token_hash :: string
  mi_invited_by_user_id :: nat
  mi_expires_at :: millis
  mi_accepted_at :: "millis option"
  mi_revoked_at :: "millis option"
  mi_created_at :: millis

record MemberRoleRow =
  ro_id :: nat
  ro_public_id :: string
  ro_organization_id :: nat
  ro_name :: string
  ro_description :: "string option"
  ro_is_system :: bool
  ro_deleted_at :: "millis option"
  ro_created_at :: millis
  ro_updated_at :: millis

record OrganizationApiKeyRow =
  ak_id :: nat
  ak_public_id :: string
  ak_organization_id :: nat
  ak_name :: string
  ak_key_hash :: string
  ak_key_prefix :: string
  ak_scopes :: "string list"
  ak_last_used_at :: "millis option"
  ak_expires_at :: "millis option"
  ak_status :: string
  ak_deleted_at :: "millis option"
  ak_created_at :: millis
  ak_updated_at :: millis
  ak_created_by_user_id :: "nat option"

text \<open>Domain events whose handlers write in the transaction that emits them.\<close>

datatype MemberInvitationEvent =
    MemberInvitationCreated string string   \<comment> \<open>invitee address and raw token\<close>
  | MemberInvitationResent string string
  | MemberInvitationAccepted "nat list"     \<comment> \<open>the members to notify\<close>

record TenancyDb =
  td_billing :: BillingDb            \<comment> \<open>organizations, plans, subscriptions\<close>
  td_users :: "UserRow tbl"
  td_permissions :: "string list"    \<comment> \<open>the catalog of codes\<close>
  td_category :: "string \<Rightarrow> string"    \<comment> \<open>the category of a code\<close>
  td_roles :: "MemberRoleRow tbl"
  td_role_permissions :: "(nat \<times> string) tbl"
  td_memberships :: "MembershipRow tbl"
  td_invitations :: "MemberInvitationRow tbl"
  td_api_keys :: "OrganizationApiKeyRow tbl"
  td_next_id :: nat                  \<comment> \<open>above every id handed out\<close>
  td_events :: "MemberInvitationEvent list"

section \<open>Constraints\<close>

definition live_membership :: "MembershipRow \<Rightarrow> bool" where
  "live_membership m \<longleftrightarrow> mb_deleted_at m = None"

definition live_role :: "MemberRoleRow \<Rightarrow> bool" where
  "live_role r \<longleftrightarrow> ro_deleted_at r = None"

definition membership_check :: "MembershipRow \<Rightarrow> string option" where
  "membership_check m =
     (if mb_status m \<notin> {''INVITED'', ''ACTIVE'', ''SUSPENDED''} then Some ''chk_memberships_status''
      else if mb_status m = ''ACTIVE'' \<and> mb_joined_at m = None then Some ''chk_memberships_joined''
      else if mb_updated_at m < mb_created_at m then Some ''chk_memberships_updated''
      else None)"

definition membership_index :: "MembershipRow tbl \<Rightarrow> string option" where
  "membership_index t =
     (if \<not> distinct (map mb_public_id t) then Some ''idx_memberships_public_id''
      else if \<not> distinct (map (\<lambda>m. (mb_user_id m, mb_organization_id m)) (filter live_membership t))
        then Some ''idx_memberships_user_org_unique''
      else None)"

definition invitation_check :: "MemberInvitationRow \<Rightarrow> string option" where
  "invitation_check i =
     (if mi_expires_at i \<le> mi_created_at i then Some ''chk_member_inv_expires''
      else if mi_accepted_at i \<noteq> None \<and> mi_revoked_at i \<noteq> None then Some ''chk_member_inv_accepted''
      else None)"

definition invitation_index :: "MemberInvitationRow tbl \<Rightarrow> string option" where
  "invitation_index t =
     (if \<not> distinct (map mi_public_id t) then Some ''idx_member_invitations_public_id''
      else if \<not> distinct (map mi_token_hash t) then Some ''idx_member_invitations_token''
      else None)"

definition role_check :: "MemberRoleRow \<Rightarrow> string option" where
  "role_check r = (if ro_updated_at r < ro_created_at r then Some ''chk_roles_updated'' else None)"

definition role_index :: "MemberRoleRow tbl \<Rightarrow> string option" where
  "role_index t =
     (if \<not> distinct (map ro_public_id t) then Some ''idx_roles_public_id''
      else if \<not> distinct (map (\<lambda>r. (ro_organization_id r, ro_name r)) (filter live_role t))
        then Some ''idx_roles_org_name_unique''
      else None)"

definition api_key_check :: "OrganizationApiKeyRow \<Rightarrow> string option" where
  "api_key_check k =
     (if ak_status k \<notin> {''ACTIVE'', ''REVOKED''} then Some ''chk_api_keys_status''
      else if ak_updated_at k < ak_created_at k then Some ''chk_api_keys_updated'' else None)"

definition api_key_index :: "OrganizationApiKeyRow tbl \<Rightarrow> string option" where
  "api_key_index t =
     (if \<not> distinct (map ak_public_id t) then Some ''idx_api_keys_public_id''
      else if \<not> distinct (map ak_key_hash (filter (\<lambda>k. ak_status k = ''ACTIVE'' \<and> ak_deleted_at k = None) t))
        then Some ''idx_api_keys_key_hash_active_unique''
      else None)"

section \<open>Statements\<close>

text \<open>A table with its constraints, as a pair of accessor and writer.\<close>

definition checked_update ::
    "('r \<Rightarrow> string option) \<Rightarrow> ('r tbl \<Rightarrow> string option) \<Rightarrow> (TenancyDb \<Rightarrow> 'r tbl) \<Rightarrow> ('r tbl \<Rightarrow> TenancyDb \<Rightarrow> TenancyDb) \<Rightarrow>
     (TenancyDb \<Rightarrow> 'r \<Rightarrow> bool) \<Rightarrow> ('r \<Rightarrow> 'r) \<Rightarrow> (TenancyDb, 'r list) db" where
  "checked_update check index table put p f = sql (\<lambda>d.
     (let hit = update_returning (p d) f (table d); t' = update_where (p d) f (table d)
      in case rows0 (List.map_filter check hit) of
           Some c \<Rightarrow> Inl (Sql_check c)
         | None \<Rightarrow> (case index t' of Some i \<Rightarrow> Inl (Sql_unique i) | None \<Rightarrow> Inr (hit, put t' d))))"

definition checked_insert ::
    "('r \<Rightarrow> string option) \<Rightarrow> ('r tbl \<Rightarrow> string option) \<Rightarrow> (TenancyDb \<Rightarrow> 'r tbl) \<Rightarrow> ('r tbl \<Rightarrow> TenancyDb \<Rightarrow> TenancyDb) \<Rightarrow>
     (TenancyDb \<Rightarrow> 'r \<Rightarrow> string option) \<Rightarrow> (nat \<Rightarrow> 'r) \<Rightarrow> (TenancyDb, 'r) db" where
  "checked_insert check index table put refused row = sql (\<lambda>d.
     (let r = row (td_next_id d); t' = table d @ [r]
      in case refused d r of
           Some policy \<Rightarrow> Inl (Sql_check policy)
         | None \<Rightarrow> (case check r of
             Some c \<Rightarrow> Inl (Sql_check c)
           | None \<Rightarrow> (case index t' of
               Some i \<Rightarrow> Inl (Sql_unique i)
             | None \<Rightarrow> Inr (r, (put t' d)\<lparr>td_next_id := Suc (td_next_id d)\<rparr>)))))"

text \<open>\<^verbatim>\<open>org\<close> is the public id in \<^verbatim>\<open>app.current_organization_public_id\<close>.\<close>

definition in_organization :: "string \<Rightarrow> TenancyDb \<Rightarrow> nat \<Rightarrow> bool" where
  "in_organization org d i \<longleftrightarrow> (case findOrganization org (td_billing d) of None \<Rightarrow> False | Some o' \<Rightarrow> i = og_id o')"

definition role_in_organization :: "string \<Rightarrow> TenancyDb \<Rightarrow> nat \<Rightarrow> bool" where
  "role_in_organization org d i \<longleftrightarrow> (\<exists>r \<in> set (td_roles d). ro_id r = i \<and> in_organization org d (ro_organization_id r))"

definition membership_in_organization :: "string \<Rightarrow> TenancyDb \<Rightarrow> nat \<Rightarrow> bool" where
  "membership_in_organization org d i \<longleftrightarrow>
     (\<exists>m \<in> set (td_memberships d). mb_id m = i \<and> in_organization org d (mb_organization_id m))"

definition select_membership :: "string \<Rightarrow> (MembershipRow \<Rightarrow> bool) \<Rightarrow> (TenancyDb, MembershipRow option) db" where
  "select_membership org p = sql_read (\<lambda>d. select_first
     (\<lambda>m. in_organization org d (mb_organization_id m) \<and> live_membership m \<and> p m) (td_memberships d))"

definition update_membership ::
    "string \<Rightarrow> (TenancyDb \<Rightarrow> MembershipRow \<Rightarrow> bool) \<Rightarrow> (MembershipRow \<Rightarrow> MembershipRow) \<Rightarrow> (TenancyDb, MembershipRow list) db" where
  "update_membership org p = checked_update membership_check membership_index td_memberships
     (\<lambda>t d. d\<lparr>td_memberships := t\<rparr>) (\<lambda>d m. in_organization org d (mb_organization_id m) \<and> p d m)"

definition insert_membership :: "string \<Rightarrow> (nat \<Rightarrow> MembershipRow) \<Rightarrow> (TenancyDb, MembershipRow) db" where
  "insert_membership org = checked_insert membership_check membership_index td_memberships
     (\<lambda>t d. d\<lparr>td_memberships := t\<rparr>)
     (\<lambda>d m. if in_organization org d (mb_organization_id m) then None else Some ''memberships_tenant_isolation'')"

definition select_invitation :: "string \<Rightarrow> (MemberInvitationRow \<Rightarrow> bool) \<Rightarrow> (TenancyDb, MemberInvitationRow option) db" where
  "select_invitation org p = sql_read (\<lambda>d. select_first
     (\<lambda>i. membership_in_organization org d (mi_membership_id i) \<and> p i) (td_invitations d))"

definition update_invitation ::
    "string \<Rightarrow> (MemberInvitationRow \<Rightarrow> bool) \<Rightarrow> (MemberInvitationRow \<Rightarrow> MemberInvitationRow) \<Rightarrow> (TenancyDb, MemberInvitationRow list) db" where
  "update_invitation org p = checked_update invitation_check invitation_index td_invitations
     (\<lambda>t d. d\<lparr>td_invitations := t\<rparr>) (\<lambda>d i. membership_in_organization org d (mi_membership_id i) \<and> p i)"

definition insert_invitation :: "string \<Rightarrow> (nat \<Rightarrow> MemberInvitationRow) \<Rightarrow> (TenancyDb, MemberInvitationRow) db" where
  "insert_invitation org = checked_insert invitation_check invitation_index td_invitations
     (\<lambda>t d. d\<lparr>td_invitations := t\<rparr>)
     (\<lambda>d i. if membership_in_organization org d (mi_membership_id i) then None
            else Some ''member_invitations_tenant_isolation'')"

definition select_role :: "string \<Rightarrow> (MemberRoleRow \<Rightarrow> bool) \<Rightarrow> (TenancyDb, MemberRoleRow option) db" where
  "select_role org p = sql_read (\<lambda>d. select_first
     (\<lambda>r. in_organization org d (ro_organization_id r) \<and> live_role r \<and> p r) (td_roles d))"

definition update_role ::
    "string \<Rightarrow> (TenancyDb \<Rightarrow> MemberRoleRow \<Rightarrow> bool) \<Rightarrow> (MemberRoleRow \<Rightarrow> MemberRoleRow) \<Rightarrow> (TenancyDb, MemberRoleRow list) db" where
  "update_role org p = checked_update role_check role_index td_roles
     (\<lambda>t d. d\<lparr>td_roles := t\<rparr>) (\<lambda>d r. in_organization org d (ro_organization_id r) \<and> live_role r \<and> p d r)"

definition insert_role :: "string \<Rightarrow> (nat \<Rightarrow> MemberRoleRow) \<Rightarrow> (TenancyDb, MemberRoleRow) db" where
  "insert_role org = checked_insert role_check role_index td_roles
     (\<lambda>t d. d\<lparr>td_roles := t\<rparr>)
     (\<lambda>d r. if in_organization org d (ro_organization_id r) then None else Some ''roles_tenant_isolation'')"

definition select_api_key :: "string \<Rightarrow> (OrganizationApiKeyRow \<Rightarrow> bool) \<Rightarrow> (TenancyDb, OrganizationApiKeyRow option) db" where
  "select_api_key org p = sql_read (\<lambda>d. select_first
     (\<lambda>k. in_organization org d (ak_organization_id k) \<and> ak_deleted_at k = None \<and> p k) (td_api_keys d))"

definition update_api_key ::
    "string \<Rightarrow> (OrganizationApiKeyRow \<Rightarrow> bool) \<Rightarrow> (OrganizationApiKeyRow \<Rightarrow> OrganizationApiKeyRow) \<Rightarrow> (TenancyDb, OrganizationApiKeyRow list) db" where
  "update_api_key org p = checked_update api_key_check api_key_index td_api_keys
     (\<lambda>t d. d\<lparr>td_api_keys := t\<rparr>) (\<lambda>d k. in_organization org d (ak_organization_id k) \<and> p k)"

definition insert_api_key :: "string \<Rightarrow> (nat \<Rightarrow> OrganizationApiKeyRow) \<Rightarrow> (TenancyDb, OrganizationApiKeyRow) db" where
  "insert_api_key org = checked_insert api_key_check api_key_index td_api_keys
     (\<lambda>t d. d\<lparr>td_api_keys := t\<rparr>)
     (\<lambda>d k. if in_organization org d (ak_organization_id k) then None else Some ''api_keys_tenant_isolation'')"

text \<open>A statement of billing inside a tenancy transaction.\<close>

definition billing_part :: "(BillingDb, 'a) db \<Rightarrow> (TenancyDb, 'a) db" where
  "billing_part m t = (let (r, b) = m \<lparr>tx_state = td_billing (tx_state t), tx_aborted = tx_aborted t, tx_error = tx_error t\<rparr>
     in (r, t\<lparr>tx_state := (tx_state t)\<lparr>td_billing := tx_state b\<rparr>, tx_aborted := tx_aborted b, tx_error := tx_error b\<rparr>))"

section \<open>Organizations and users\<close>

definition requireOrganizationRecordByPublicId :: "string \<Rightarrow> (TenancyDb, OrganizationRow) db" where
  "requireOrganizationRecordByPublicId publicId = act_bind (sql_read (\<lambda>d. findOrganization publicId (td_billing d)))
     (\<lambda>o'. case o' of None \<Rightarrow> act_throw (App (NotFoundError ''Organization'')) | Some x \<Rightarrow> act_return x)"

text \<open>\<^verbatim>\<open>auth.resolve_user_id_by_public_id\<close> and its inverse; an absent caller resolves to nobody.\<close>

definition resolveUserInternalIdByPublicId :: "string option \<Rightarrow> TenancyDb \<Rightarrow> nat option" where
  "resolveUserInternalIdByPublicId caller d = (case caller of None \<Rightarrow> None
     | Some u \<Rightarrow> if u = '''' then None else map_option us_id (findByPublicId u (td_users d)))"

definition resolveUserPublicIdByInternalId :: "nat \<Rightarrow> TenancyDb \<Rightarrow> string option" where
  "resolveUserPublicIdByInternalId i d = map_option us_public_id (findById i (td_users d))"

section \<open>Permissions\<close>

definition MEMBER_ROLE_PERMISSION_MAX_ROWS_PER_ROLE :: nat where
  "MEMBER_ROLE_PERMISSION_MAX_ROWS_PER_ROLE = 256"

definition role_codes :: "TenancyDb \<Rightarrow> nat \<Rightarrow> string list" where
  "role_codes d i = map snd (filter (\<lambda>x. fst x = i) (td_role_permissions d))"

definition listPermissionCodesForRole :: "string \<Rightarrow> nat \<Rightarrow> (TenancyDb, string list) db" where
  "listPermissionCodesForRole org roleId = sql_read (\<lambda>d.
     if role_in_organization org d roleId then take MEMBER_ROLE_PERMISSION_MAX_ROWS_PER_ROLE (role_codes d roleId) else [])"

text \<open>Sorting by category keeps the order of the codes inside one.\<close>

definition permission_findAll :: "TenancyDb \<Rightarrow> string list" where
  "permission_findAll d = take DEFAULT_REPOSITORY_LIST_LIMIT (sort_key (td_category d) (sort (td_permissions d)))"

definition findPermissionCodesForUserInOrganization :: "string \<Rightarrow> string \<Rightarrow> TenancyDb \<Rightarrow> string list" where
  "findPermissionCodesForUserInOrganization user org d =
     (case (resolveUserInternalIdByPublicId (Some user) d, findOrganization org (td_billing d)) of
        (Some u, Some o') \<Rightarrow> map snd (filter (\<lambda>(i, c). \<exists>r \<in> set (td_roles d). ro_id r = i \<and> live_role r \<and>
          ro_organization_id r = og_id o' \<and>
          (\<exists>m \<in> set (td_memberships d). mb_role_id m = i \<and> mb_user_id m = u \<and> mb_organization_id m = og_id o' \<and>
             mb_status m = ''ACTIVE'' \<and> live_membership m)) (td_role_permissions d))
      | _ \<Rightarrow> [])"

definition cannotGrantPermissionNotHeld :: thrown where
  "cannotGrantPermissionNotHeld = App (ForbiddenError ''errors:cannotGrantPermissionNotHeld'')"

definition assertCallerCanGrantPermissionCodes :: "string option \<Rightarrow> string \<Rightarrow> string list \<Rightarrow> (TenancyDb, unit) db" where
  "assertCallerCanGrantPermissionCodes caller org codes =
     (if codes = [] then act_return ()
      else case caller of
        None \<Rightarrow> act_throw cannotGrantPermissionNotHeld
      | Some u \<Rightarrow> if u = '''' then act_throw cannotGrantPermissionNotHeld
          else act_bind (sql_read permission_findAll) (\<lambda>known.
            act_bind (sql_read (findPermissionCodesForUserInOrganization u org)) (\<lambda>held.
              if list_all (\<lambda>c. c \<in> set known \<and> c \<in> set held) codes then act_return ()
              else act_throw cannotGrantPermissionNotHeld)))"

section \<open>The world of the tenancy services\<close>

datatype PermissionInvalidation =
    invalidatePermissions string string             \<comment> \<open>user, organization\<close>
  | invalidateOrganizationPermissions string

record TenancyWorld =
  tw_db :: TenancyDb
  tw_invalidations :: "PermissionInvalidation list"   \<comment> \<open>calls of the permission cache, in order\<close>
  tw_seat_jobs :: "string list"                       \<comment> \<open>organizations queued for a seat sync\<close>
  tw_stripe :: "StripeCall list"                      \<comment> \<open>the requests Stripe accepted\<close>

record TenancyEnv =
  te_now :: millis
  te_jsNow :: millis
  te_timeZone :: TimeZone
  te_publicId :: "nat \<Rightarrow> string"        \<comment> \<open>the ids generated for the row the request is about, by attempt\<close>
  te_invitationId :: "nat \<Rightarrow> string"
  te_userId :: "nat \<Rightarrow> string"
  te_roleIds :: "nat \<Rightarrow> string"         \<comment> \<open>for the roles of a new organization\<close>
  te_membershipId :: string
  te_token :: string                    \<comment> \<open>random invitation token\<close>
  te_rawKey :: string                   \<comment> \<open>random API key\<close>
  te_sha256 :: "string \<Rightarrow> string"
  te_isDisposable :: "string \<Rightarrow> bool"
  te_billing :: BillingEnv
  te_emitFails :: "thrown option"       \<comment> \<open>the mail-outbox write of an event handler\<close>
  te_localeFails :: "thrown option"     \<comment> \<open>\<^verbatim>\<open>applyOrganizationLocaleDefaults\<close>\<close>
  te_uploadsFail :: "thrown option"     \<comment> \<open>\<^verbatim>\<open>tombstoneAllByOrganizationId\<close>\<close>
  te_seatQueueUp :: bool
  te_invitationMaxPending :: nat
  te_memberRoleMax :: nat
  te_apiKeyMax :: nat
  te_maxTeamOrganizations :: nat
  te_teamOrganizationEnabled :: bool

type_synonym 'a tenancy = "(TenancyWorld, 'a) act"

definition tenant_transaction :: "(TenancyDb, 'a) db \<Rightarrow> 'a tenancy" where
  "tenant_transaction m w = (let (r, d) = run_transaction m (tw_db w) in (r, w\<lparr>tw_db := d\<rparr>))"

definition billing_call :: "'a billing \<Rightarrow> 'a tenancy" where
  "billing_call m w = (let (r, b) = m \<lparr>bw_db = td_billing (tw_db w), bw_stripe = tw_stripe w, bw_seat_jobs = [], bw_suspensions = []\<rparr>
     in (r, w\<lparr>tw_db := (tw_db w)\<lparr>td_billing := bw_db b\<rparr>, tw_stripe := bw_stripe b\<rparr>))"

definition invalidate :: "PermissionInvalidation \<Rightarrow> unit tenancy" where
  "invalidate i w = (Inr (), w\<lparr>tw_invalidations := tw_invalidations w @ [i]\<rparr>)"

definition seat_sync :: "TenancyEnv \<Rightarrow> string \<Rightarrow> unit tenancy" where
  "seat_sync env org w = (Inr (), if te_seatQueueUp env then w\<lparr>tw_seat_jobs := tw_seat_jobs w @ [org]\<rparr> else w)"

definition assert_team :: "OrganizationRow \<Rightarrow> string \<Rightarrow> (TenancyDb, unit) db" where
  "assert_team o' capability = (if og_type o' = ''PERSONAL''
     then act_throw (App (UnprocessableEntityError capability)) else act_return ())"

section \<open>What the statements ensure\<close>

lemma ensures_checked_update:
  assumes "\<And>t'. t' = update_where (p s) f (table s) \<Longrightarrow>
      (\<And>r. r \<in> set (table s) \<Longrightarrow> p s r \<Longrightarrow> check (f r) = None) \<Longrightarrow> index t' = None \<Longrightarrow>
      Q (update_returning (p s) f (table s)) (put t' s)"
  shows "ensures (checked_update check index table put p f) Q s"
  unfolding checked_update_def
proof (rule ensures_sql)
  fix hit s'
  assume run: "(let hit = update_returning (p s) f (table s); t' = update_where (p s) f (table s)
      in case rows0 (List.map_filter check hit) of
           Some c \<Rightarrow> Inl (Sql_check c)
         | None \<Rightarrow> (case index t' of Some i \<Rightarrow> Inl (Sql_unique i) | None \<Rightarrow> Inr (hit, put t' s))) = Inr (hit, s')"
  then have "List.map_filter check (update_returning (p s) f (table s)) = []" and i: "index (update_where (p s) f (table s)) = None"
    and res: "hit = update_returning (p s) f (table s)" "s' = put (update_where (p s) f (table s)) s"
    by (auto simp: Let_def split: option.splits)
  then have "check (f r) = None" if "r \<in> set (table s)" "p s r" for r
    using that by (auto simp: List.map_filter_def filter_empty_conv set_update_returning)
  with i show "Q hit s'" using assms res by simp
qed

lemma ensures_checked_insert:
  assumes "refused s (row (td_next_id s)) = None \<Longrightarrow> check (row (td_next_id s)) = None \<Longrightarrow>
      index (table s @ [row (td_next_id s)]) = None \<Longrightarrow>
      Q (row (td_next_id s)) ((put (table s @ [row (td_next_id s)]) s)\<lparr>td_next_id := Suc (td_next_id s)\<rparr>)"
  shows "ensures (checked_insert check index table put refused row) Q s"
  unfolding checked_insert_def
  by (rule ensures_sql) (use assms in \<open>auto simp: Let_def split: option.splits\<close>)

lemma ensures_checked_insert_retry:
  "ensures (checked_insert check index table put refused (row 1)) Q s \<Longrightarrow>
   ensures (runInsertWithPublicIdentifierRetry (\<lambda>n. checked_insert check index table put refused (row n))) Q s"
  unfolding checked_insert_def by (rule ensures_retry)

lemma ensures_update_membership [ensures_intros]:
  assumes "\<And>t'. t' = update_where (\<lambda>m. in_organization org s (mb_organization_id m) \<and> p s m) f (td_memberships s) \<Longrightarrow>
      (\<And>m. m \<in> set (td_memberships s) \<Longrightarrow> in_organization org s (mb_organization_id m) \<Longrightarrow> p s m \<Longrightarrow> membership_check (f m) = None) \<Longrightarrow>
      membership_index t' = None \<Longrightarrow>
      Q (update_returning (\<lambda>m. in_organization org s (mb_organization_id m) \<and> p s m) f (td_memberships s)) (s\<lparr>td_memberships := t'\<rparr>)"
  shows "ensures (update_membership org p f) Q s"
  unfolding update_membership_def by (rule ensures_checked_update) (rule assms, auto)

lemma ensures_insert_membership [ensures_intros]:
  assumes "in_organization org s (mb_organization_id (row (td_next_id s))) \<Longrightarrow> membership_check (row (td_next_id s)) = None \<Longrightarrow>
      membership_index (td_memberships s @ [row (td_next_id s)]) = None \<Longrightarrow>
      Q (row (td_next_id s)) (s\<lparr>td_memberships := td_memberships s @ [row (td_next_id s)], td_next_id := Suc (td_next_id s)\<rparr>)"
  shows "ensures (insert_membership org row) Q s"
  unfolding insert_membership_def by (rule ensures_checked_insert, rule assms) (simp_all split: if_splits)

lemma ensures_update_invitation [ensures_intros]:
  assumes "\<And>t'. t' = update_where (\<lambda>i. membership_in_organization org s (mi_membership_id i) \<and> p i) f (td_invitations s) \<Longrightarrow>
      Q (update_returning (\<lambda>i. membership_in_organization org s (mi_membership_id i) \<and> p i) f (td_invitations s)) (s\<lparr>td_invitations := t'\<rparr>)"
  shows "ensures (update_invitation org p f) Q s"
  unfolding update_invitation_def by (rule ensures_checked_update) (rule assms)

lemma ensures_insert_invitation:
  assumes "\<And>i t'. Q i (s\<lparr>td_invitations := t', td_next_id := Suc (td_next_id s)\<rparr>)"
  shows "ensures (insert_invitation org row) Q s"
  unfolding insert_invitation_def by (rule ensures_checked_insert) (simp add: assms)

lemma ensures_update_role [ensures_intros]:
  assumes "\<And>t'. t' = update_where (\<lambda>r. in_organization org s (ro_organization_id r) \<and> live_role r \<and> p s r) f (td_roles s) \<Longrightarrow>
      role_index t' = None \<Longrightarrow>
      Q (update_returning (\<lambda>r. in_organization org s (ro_organization_id r) \<and> live_role r \<and> p s r) f (td_roles s)) (s\<lparr>td_roles := t'\<rparr>)"
  shows "ensures (update_role org p f) Q s"
  unfolding update_role_def by (rule ensures_checked_update) (rule assms)

lemma ensures_insert_role [ensures_intros]:
  assumes "in_organization org s (ro_organization_id (row (td_next_id s))) \<Longrightarrow> role_index (td_roles s @ [row (td_next_id s)]) = None \<Longrightarrow>
      Q (row (td_next_id s)) (s\<lparr>td_roles := td_roles s @ [row (td_next_id s)], td_next_id := Suc (td_next_id s)\<rparr>)"
  shows "ensures (insert_role org row) Q s"
  unfolding insert_role_def by (rule ensures_checked_insert, rule assms) (simp_all split: if_splits)

lemma ensures_update_api_key [ensures_intros]:
  assumes "\<And>t'. t' = update_where (\<lambda>k. in_organization org s (ak_organization_id k) \<and> p k) f (td_api_keys s) \<Longrightarrow>
      Q (update_returning (\<lambda>k. in_organization org s (ak_organization_id k) \<and> p k) f (td_api_keys s)) (s\<lparr>td_api_keys := t'\<rparr>)"
  shows "ensures (update_api_key org p f) Q s"
  unfolding update_api_key_def by (rule ensures_checked_update) (rule assms)

lemma ensures_insert_api_key [ensures_intros]:
  assumes "in_organization org s (ak_organization_id (row (td_next_id s))) \<Longrightarrow>
      Q (row (td_next_id s)) (s\<lparr>td_api_keys := td_api_keys s @ [row (td_next_id s)], td_next_id := Suc (td_next_id s)\<rparr>)"
  shows "ensures (insert_api_key org row) Q s"
  unfolding insert_api_key_def by (rule ensures_checked_insert, rule assms) (simp split: if_splits)

text \<open>Reads and lookups.\<close>

lemma ensures_require_organization [ensures_intros]:
  assumes "\<And>o'. findOrganization org (td_billing s) = Some o' \<Longrightarrow> Q o' s"
  shows "ensures (requireOrganizationRecordByPublicId org) Q s"
  unfolding requireOrganizationRecordByPublicId_def by (intro ensures_intros assms)

lemma ensures_select_membership [ensures_intros]:
  assumes "Q None s"
    and "\<And>m. m \<in> set (td_memberships s) \<Longrightarrow> in_organization org s (mb_organization_id m) \<Longrightarrow> live_membership m \<Longrightarrow> p m \<Longrightarrow> Q (Some m) s"
  shows "ensures (select_membership org p) Q s"
  unfolding select_membership_def
proof (rule ensures_read)
  let ?f = "select_first (\<lambda>m. in_organization org s (mb_organization_id m) \<and> live_membership m \<and> p m) (td_memberships s)"
  show "Q ?f s" using assms select_first_Some_iff [of _ "td_memberships s"] by (cases ?f) fastforce+
qed

lemma ensures_select_role [ensures_intros]:
  assumes "Q None s"
    and "\<And>r. r \<in> set (td_roles s) \<Longrightarrow> in_organization org s (ro_organization_id r) \<Longrightarrow> live_role r \<Longrightarrow> p r \<Longrightarrow> Q (Some r) s"
  shows "ensures (select_role org p) Q s"
  unfolding select_role_def
proof (rule ensures_read)
  let ?f = "select_first (\<lambda>r. in_organization org s (ro_organization_id r) \<and> live_role r \<and> p r) (td_roles s)"
  show "Q ?f s" using assms select_first_Some_iff [of _ "td_roles s"] by (cases ?f) fastforce+
qed

lemma ensures_select_invitation [ensures_intros]:
  assumes "Q None s"
    and "\<And>i. i \<in> set (td_invitations s) \<Longrightarrow> membership_in_organization org s (mi_membership_id i) \<Longrightarrow> p i \<Longrightarrow> Q (Some i) s"
  shows "ensures (select_invitation org p) Q s"
  unfolding select_invitation_def
proof (rule ensures_read)
  let ?f = "select_first (\<lambda>i. membership_in_organization org s (mi_membership_id i) \<and> p i) (td_invitations s)"
  show "Q ?f s" using assms select_first_Some_iff [of _ "td_invitations s"] by (cases ?f) fastforce+
qed

lemma ensures_select_api_key [ensures_intros]:
  assumes "Q None s"
    and "\<And>k. k \<in> set (td_api_keys s) \<Longrightarrow> in_organization org s (ak_organization_id k) \<Longrightarrow> ak_deleted_at k = None \<Longrightarrow> p k \<Longrightarrow> Q (Some k) s"
  shows "ensures (select_api_key org p) Q s"
  unfolding select_api_key_def
proof (rule ensures_read)
  let ?f = "select_first (\<lambda>k. in_organization org s (ak_organization_id k) \<and> ak_deleted_at k = None \<and> p k) (td_api_keys s)"
  show "Q ?f s" using assms select_first_Some_iff [of _ "td_api_keys s"] by (cases ?f) fastforce+
qed

definition listed_codes :: "TenancyDb \<Rightarrow> nat \<Rightarrow> string list" where
  "listed_codes d i = take MEMBER_ROLE_PERMISSION_MAX_ROWS_PER_ROLE (role_codes d i)"

definition may_grant :: "string option \<Rightarrow> string \<Rightarrow> TenancyDb \<Rightarrow> string list \<Rightarrow> bool" where
  "may_grant caller org d codes \<longleftrightarrow> codes = [] \<or>
     (\<exists>u. caller = Some u \<and> set codes \<subseteq> set (findPermissionCodesForUserInOrganization u org d))"

lemma ensures_permission_codes [ensures_intros]:
  assumes "\<And>codes. (role_in_organization org s i \<Longrightarrow> codes = listed_codes s i) \<Longrightarrow> Q codes s"
  shows "ensures (listPermissionCodesForRole org i) Q s"
  unfolding listPermissionCodesForRole_def by (rule ensures_read, rule assms) (simp add: listed_codes_def)

lemma ensures_can_grant [ensures_intros]:
  assumes "may_grant caller org s codes \<Longrightarrow> Q () s"
  shows "ensures (assertCallerCanGrantPermissionCodes caller org codes) Q s"
  unfolding assertCallerCanGrantPermissionCodes_def
  by (intro ensures_intros) (use assms in \<open>auto simp: list_all_iff may_grant_def\<close>)

lemma ensures_assert_team [ensures_intros]: "(og_type o' \<noteq> ''PERSONAL'' \<Longrightarrow> Q () s) \<Longrightarrow> ensures (assert_team o' c) Q s"
  unfolding assert_team_def by (intro ensures_intros)

text \<open>The seat ceiling billing computes, as a function of its tables.\<close>

definition seat_ceiling :: "BillingEnv \<Rightarrow> string \<Rightarrow> nat \<Rightarrow> BillingDb \<Rightarrow> int option" where
  "seat_ceiling env org oid b =
     (case select_subscription org (\<lambda>s. su_organization_id s = oid \<and> \<not> terminal s) b of
        None \<Rightarrow> findFreePlanSeatCeiling b
      | Some s \<Rightarrow> if isDunningEntitlementLapsed env s then findFreePlanSeatCeiling b else seats_total (with_plan b s))"

lemma reserveSeatCeiling_run:
  "reserveSeatCeilingForMemberAdd env org oid t =
     (if tx_aborted t then (Inl Sql_aborted, t) else (Inr (seat_ceiling env org oid (tx_state t)), t))"
  by (auto simp: reserveSeatCeilingForMemberAdd_def findActiveByOrganization_def seat_ceiling_def tx_simps
      act_bind_def sql_read_def sql_def act_return_def with_plan_def split: option.splits)

lemma ensures_reserve_seat [ensures_intros]:
  "Q (seat_ceiling env org oid (td_billing s)) s \<Longrightarrow>
   ensures (billing_part (reserveSeatCeilingForMemberAdd env org oid)) Q s"
  by (auto simp: ensures_def billing_part_def reserveSeatCeiling_run split: if_splits)

end
