(* ===== verification/Roles.thy ===== *)
theory Roles
  imports Tenant_Tables
begin

text \<open>
  Roles and API keys of an organization: \<^verbatim>\<open>src/src/domains/tenancy/sub-domains/member-roles/\<close> (role and
  role-permission repositories and services) and \<^verbatim>\<open>sub-domains/organization/organization-api-key/\<close>.  The advisory
  locks the services take before a count only order concurrent requests; a request is one transaction
  here.  SHA-256 and the random key are arguments.
\<close>

section \<open>Role repository\<close>

definition role_countActiveByOrganization :: "string \<Rightarrow> nat \<Rightarrow> TenancyDb \<Rightarrow> nat" where
  "role_countActiveByOrganization org oid d = length (filter (\<lambda>r. in_organization org d (ro_organization_id r) \<and>
     ro_organization_id r = oid \<and> live_role r) (td_roles d))"

definition role_findByPublicId :: "string \<Rightarrow> string \<Rightarrow> nat \<Rightarrow> (TenancyDb, MemberRoleRow option) db" where
  "role_findByPublicId org publicId oid = select_role org (\<lambda>r. ro_public_id r = publicId \<and> ro_organization_id r = oid)"

definition role_create ::
    "TenancyEnv \<Rightarrow> string \<Rightarrow> nat \<Rightarrow> string \<Rightarrow> string option \<Rightarrow> (TenancyDb, MemberRoleRow) db" where
  "role_create env org oid name description = runInsertWithPublicIdentifierRetry (\<lambda>n. insert_role org (\<lambda>i.
     \<lparr>ro_id = i, ro_public_id = te_publicId env n, ro_organization_id = oid, ro_name = name, ro_description = description,
      ro_is_system = False, ro_deleted_at = None, ro_created_at = te_now env, ro_updated_at = te_now env\<rparr>))"

text \<open>An omitted field of a patch is \<^const>\<open>None\<close>.\<close>

definition role_update ::
    "TenancyEnv \<Rightarrow> string \<Rightarrow> string \<Rightarrow> nat \<Rightarrow> string option \<Rightarrow> string option option \<Rightarrow> (TenancyDb, MemberRoleRow option) db" where
  "role_update env org publicId oid name description = act_bind
     (update_role org (\<lambda>d r. ro_public_id r = publicId \<and> ro_organization_id r = oid)
       (\<lambda>r. r\<lparr>ro_name := (case name of None \<Rightarrow> ro_name r | Some x \<Rightarrow> x),
              ro_description := (case description of None \<Rightarrow> ro_description r | Some x \<Rightarrow> x),
              ro_updated_at := te_now env\<rparr>))
     (\<lambda>rows. act_return (rows0 rows))"

definition softDeleteIfNoActiveMembers :: "TenancyEnv \<Rightarrow> string \<Rightarrow> string \<Rightarrow> nat \<Rightarrow> (TenancyDb, MemberRoleRow option) db" where
  "softDeleteIfNoActiveMembers env org publicId oid = act_bind
     (update_role org (\<lambda>d r. ro_public_id r = publicId \<and> ro_organization_id r = oid \<and>
         \<not> (\<exists>m \<in> set (td_memberships d). in_organization org d (mb_organization_id m) \<and>
              mb_role_id m = ro_id r \<and> mb_organization_id m = oid \<and> live_membership m))
       (\<lambda>r. r\<lparr>ro_deleted_at := Some (te_now env), ro_updated_at := te_now env\<rparr>))
     (\<lambda>rows. act_return (rows0 rows))"

definition role_permission_replace :: "string \<Rightarrow> nat \<Rightarrow> string list \<Rightarrow> (TenancyDb, unit) db" where
  "role_permission_replace org roleId codes =
     act_bind (sql (\<lambda>d. Inr ((), if role_in_organization org d roleId
         then d\<lparr>td_role_permissions := delete_where (\<lambda>x. fst x = roleId) (td_role_permissions d)\<rparr> else d)))
       (\<lambda>_. if codes = [] then act_return ()
         else sql (\<lambda>d. let t' = td_role_permissions d @ map (Pair roleId) codes
           in if \<not> role_in_organization org d roleId then Inl (Sql_check ''role_permissions_tenant_isolation'')
              else if \<not> distinct t' then Inl (Sql_unique ''pk_role_permissions'')
              else if \<not> list_all (\<lambda>c. c \<in> set (td_permissions d)) codes
                then Inl (Sql_check ''role_permissions_permission_code_fk'')
              else Inr ((), d\<lparr>td_role_permissions := t'\<rparr>)))"

section \<open>Role service\<close>

definition requireRoleRecordByPublicId :: "string \<Rightarrow> string \<Rightarrow> (TenancyDb, MemberRoleRow) db" where
  "requireRoleRecordByPublicId org rolePublicId =
     act_bind (requireOrganizationRecordByPublicId org) (\<lambda>o'.
     act_bind (role_findByPublicId org rolePublicId (og_id o')) (\<lambda>r. case r of
         None \<Rightarrow> act_throw (App (NotFoundError ''Role'')) | Some x \<Rightarrow> act_return x))"

definition mapRoleNameConflict :: "thrown \<Rightarrow> thrown" where
  "mapRoleNameConflict e = (if isPostgresUniqueViolation e then App (ConflictError ''errors:roleNameExists'') else e)"

definition member_role_create ::
    "TenancyEnv \<Rightarrow> string \<Rightarrow> string option \<Rightarrow> string \<Rightarrow> string option \<Rightarrow> string list \<Rightarrow> MemberRoleRow tenancy" where
  "member_role_create env org caller name description codes = tenant_transaction (
     act_bind (requireOrganizationRecordByPublicId org) (\<lambda>o'.
     act_bind (assert_team o' ''errors:personalOrganizationNoRoles'') (\<lambda>_.
     act_bind (sql_read (role_countActiveByOrganization org (og_id o'))) (\<lambda>activeCount.
       if activeCount \<ge> te_memberRoleMax env then act_throw (App (ConflictError ''errors:memberRoleMaxReached''))
       else act_bind (assertCallerCanGrantPermissionCodes caller org codes) (\<lambda>_.
         act_bind (act_catch (role_create env org (og_id o') name description) (\<lambda>e. act_throw (mapRoleNameConflict e)))
           (\<lambda>created. act_bind (if codes = [] then act_return () else role_permission_replace org (ro_id created) codes)
             (\<lambda>_. act_return created)))))))"

definition member_role_update ::
    "TenancyEnv \<Rightarrow> string \<Rightarrow> string \<Rightarrow> string option \<Rightarrow> string option option \<Rightarrow> MemberRoleRow tenancy" where
  "member_role_update env org rolePublicId name description = tenant_transaction (
     act_bind (requireOrganizationRecordByPublicId org) (\<lambda>o'.
     act_bind (role_findByPublicId org rolePublicId (og_id o')) (\<lambda>role. case role of
         None \<Rightarrow> act_throw (App (NotFoundError ''Role''))
       | Some r \<Rightarrow> if ro_is_system r then act_throw (App (ForbiddenError ''errors:cannotModifySystemRole''))
           else act_bind (act_catch (role_update env org rolePublicId (og_id o') name description)
               (\<lambda>e. act_throw (mapRoleNameConflict e)))
             (\<lambda>updated. case updated of None \<Rightarrow> act_throw (App (NotFoundError ''Role'')) | Some x \<Rightarrow> act_return x))))"

definition member_role_delete :: "TenancyEnv \<Rightarrow> string \<Rightarrow> string \<Rightarrow> unit tenancy" where
  "member_role_delete env org rolePublicId = act_bind (tenant_transaction (
     act_bind (requireOrganizationRecordByPublicId org) (\<lambda>o'.
     act_bind (role_findByPublicId org rolePublicId (og_id o')) (\<lambda>role. case role of
         None \<Rightarrow> act_throw (App (NotFoundError ''Role''))
       | Some r \<Rightarrow> if ro_is_system r then act_throw (App (ForbiddenError ''errors:cannotDeleteSystemRole''))
           else act_bind (softDeleteIfNoActiveMembers env org rolePublicId (og_id o')) (\<lambda>deleted.
             if deleted = None then act_throw (App (ConflictError ''errors:roleHasActiveMembers'')) else act_return ())))))
     (\<lambda>_. invalidate (invalidateOrganizationPermissions org))"

definition findByUserAndOrganization :: "string \<Rightarrow> nat \<Rightarrow> nat \<Rightarrow> (TenancyDb, MembershipRow option) db" where
  "findByUserAndOrganization org userId oid =
     select_membership org (\<lambda>m. mb_user_id m = userId \<and> mb_organization_id m = oid)"

definition member_role_permission_put :: "string \<Rightarrow> string option \<Rightarrow> string \<Rightarrow> string list \<Rightarrow> unit tenancy" where
  "member_role_permission_put org caller rolePublicId codes = act_bind (tenant_transaction (
     act_bind (requireOrganizationRecordByPublicId org) (\<lambda>o'.
     act_bind (role_findByPublicId org rolePublicId (og_id o')) (\<lambda>role. case role of
         None \<Rightarrow> act_throw (App (NotFoundError ''Role''))
       | Some r \<Rightarrow> act_bind (findByUserAndOrganization org (og_owner_user_id o') (og_id o')) (\<lambda>owner. case owner of
             None \<Rightarrow> act_throw (App (NotFoundError ''Owner membership''))
           | Some om \<Rightarrow> if mb_role_id om = ro_id r
               then act_throw (App (ForbiddenError ''errors:cannotModifyOwnerRolePermissions''))
               else act_bind (listPermissionCodesForRole org (ro_id r)) (\<lambda>current.
                 act_bind (assertCallerCanGrantPermissionCodes caller org (remdups (codes @ current))) (\<lambda>_.
                   role_permission_replace org (ro_id r) codes)))))))
     (\<lambda>_. invalidate (invalidateOrganizationPermissions org))"

section \<open>API keys\<close>

definition ORGANIZATION_API_KEY_PREFIX_DISPLAY_LENGTH :: nat where "ORGANIZATION_API_KEY_PREFIX_DISPLAY_LENGTH = 8"

definition API_KEY_PREFIX_RESOLVER_CAP :: nat where "API_KEY_PREFIX_RESOLVER_CAP = 16"

definition getKeyPrefix :: "string \<Rightarrow> string" where
  "getKeyPrefix key = take ORGANIZATION_API_KEY_PREFIX_DISPLAY_LENGTH key"

definition api_key_countActiveByOrganization :: "string \<Rightarrow> nat \<Rightarrow> TenancyDb \<Rightarrow> nat" where
  "api_key_countActiveByOrganization org oid d = length (filter (\<lambda>k. in_organization org d (ak_organization_id k) \<and>
     ak_organization_id k = oid \<and> ak_deleted_at k = None) (td_api_keys d))"

definition api_key_findByPublicId :: "string \<Rightarrow> string \<Rightarrow> nat \<Rightarrow> (TenancyDb, OrganizationApiKeyRow option) db" where
  "api_key_findByPublicId org publicId oid = select_api_key org (\<lambda>k. ak_public_id k = publicId \<and> ak_organization_id k = oid)"

definition api_key_create ::
    "TenancyEnv \<Rightarrow> string \<Rightarrow> nat \<Rightarrow> string \<Rightarrow> string list \<Rightarrow> millis option \<Rightarrow> nat option \<Rightarrow> (TenancyDb, OrganizationApiKeyRow) db" where
  "api_key_create env org oid name scopes expiresAt creator = runInsertWithPublicIdentifierRetry (\<lambda>n. insert_api_key org (\<lambda>i.
     \<lparr>ak_id = i, ak_public_id = te_publicId env n, ak_organization_id = oid, ak_name = name,
      ak_key_hash = te_sha256 env (te_rawKey env), ak_key_prefix = getKeyPrefix (te_rawKey env), ak_scopes = scopes,
      ak_last_used_at = None, ak_expires_at = expiresAt, ak_status = ''ACTIVE'', ak_deleted_at = None,
      ak_created_at = te_now env, ak_updated_at = te_now env, ak_created_by_user_id = creator\<rparr>))"

definition api_key_softDelete :: "TenancyEnv \<Rightarrow> string \<Rightarrow> string \<Rightarrow> nat \<Rightarrow> (TenancyDb, OrganizationApiKeyRow option) db" where
  "api_key_softDelete env org publicId oid = act_bind (update_api_key org
       (\<lambda>k. ak_public_id k = publicId \<and> ak_organization_id k = oid \<and> ak_deleted_at k = None)
       (\<lambda>k. k\<lparr>ak_deleted_at := Some (te_now env), ak_updated_at := te_now env\<rparr>))
     (\<lambda>rows. act_return (rows0 rows))"

definition revokeAllByCreatorInOrganization :: "TenancyEnv \<Rightarrow> string \<Rightarrow> nat \<Rightarrow> nat \<Rightarrow> (TenancyDb, nat) db" where
  "revokeAllByCreatorInOrganization env org oid creator = act_bind (update_api_key org
       (\<lambda>k. ak_organization_id k = oid \<and> ak_created_by_user_id k = Some creator \<and> ak_deleted_at k = None)
       (\<lambda>k. k\<lparr>ak_deleted_at := Some (te_now env), ak_updated_at := te_now env\<rparr>))
     (\<lambda>rows. act_return (length rows))"

text \<open>The body of \<^verbatim>\<open>create\<close>, which \<^verbatim>\<open>rotate\<close> runs in its own transaction.  \<^verbatim>\<open>expiresAt\<close> is the override of a rotation
  or the instant the requested days give.\<close>

definition api_key_mint ::
    "TenancyEnv \<Rightarrow> string \<Rightarrow> string \<Rightarrow> string \<Rightarrow> string list \<Rightarrow> millis option \<Rightarrow> (TenancyDb, OrganizationApiKeyRow \<times> string) db" where
  "api_key_mint env org caller name scopes expiresAt =
     act_bind (assertCallerCanGrantPermissionCodes (Some caller) org scopes) (\<lambda>_.
     act_bind (requireOrganizationRecordByPublicId org) (\<lambda>o'.
     act_bind (sql_read (api_key_countActiveByOrganization org (og_id o'))) (\<lambda>activeCount.
       if activeCount \<ge> te_apiKeyMax env then act_throw (App (ConflictError ''errors:organizationApiKeyMaxReached''))
       else act_bind (sql_read (resolveUserInternalIdByPublicId (Some caller))) (\<lambda>userId.
         act_bind (api_key_create env org (og_id o') name scopes expiresAt userId) (\<lambda>row.
           act_return (row, te_rawKey env))))))"

definition api_key_service_create ::
    "TenancyEnv \<Rightarrow> string \<Rightarrow> string \<Rightarrow> string \<Rightarrow> string list \<Rightarrow> nat option \<Rightarrow> (OrganizationApiKeyRow \<times> string) tenancy" where
  "api_key_service_create env org caller name scopes expiresInDays = tenant_transaction (api_key_mint env org caller name scopes
     (case expiresInDays of None \<Rightarrow> None | Some n \<Rightarrow> if n = 0 then None
        else Some (addDays (te_timeZone env) (te_jsNow env) (int n))))"

definition api_key_update ::
    "TenancyEnv \<Rightarrow> string \<Rightarrow> string \<Rightarrow> string option \<Rightarrow> string option \<Rightarrow> OrganizationApiKeyRow tenancy" where
  "api_key_update env org publicId name status = tenant_transaction (
     act_bind (requireOrganizationRecordByPublicId org) (\<lambda>o'.
     act_bind (api_key_findByPublicId org publicId (og_id o')) (\<lambda>found.
       if found = None then act_throw (App (NotFoundError ''API key''))
       else act_bind (update_api_key org
           (\<lambda>k. ak_public_id k = publicId \<and> ak_organization_id k = og_id o' \<and> ak_deleted_at k = None)
           (\<lambda>k. k\<lparr>ak_name := (case name of None \<Rightarrow> ak_name k | Some x \<Rightarrow> x),
                  ak_status := (case status of None \<Rightarrow> ak_status k | Some x \<Rightarrow> x), ak_updated_at := te_now env\<rparr>))
         (\<lambda>rows. case rows0 rows of None \<Rightarrow> act_throw (App (NotFoundError ''API key'')) | Some x \<Rightarrow> act_return x))))"

definition api_key_delete :: "TenancyEnv \<Rightarrow> string \<Rightarrow> string \<Rightarrow> unit tenancy" where
  "api_key_delete env org publicId = tenant_transaction (
     act_bind (requireOrganizationRecordByPublicId org) (\<lambda>o'.
     act_bind (api_key_softDelete env org publicId (og_id o')) (\<lambda>deleted.
       if deleted = None then act_throw (App (NotFoundError ''API key'')) else act_return ())))"

definition api_key_rotate :: "TenancyEnv \<Rightarrow> string \<Rightarrow> string \<Rightarrow> string \<Rightarrow> (OrganizationApiKeyRow \<times> string) tenancy" where
  "api_key_rotate env org caller publicId = tenant_transaction (
     act_bind (requireOrganizationRecordByPublicId org) (\<lambda>o'.
     act_bind (api_key_findByPublicId org publicId (og_id o')) (\<lambda>found. case found of
         None \<Rightarrow> act_throw (App (NotFoundError ''API key''))
       | Some k \<Rightarrow> act_bind (api_key_softDelete env org publicId (og_id o')) (\<lambda>retired.
           if retired = None then act_throw (App (ConflictError ''errors:apiKeyRotationConflict''))
           else api_key_mint env org caller (ak_name k) (ak_scopes k) (ak_expires_at k)))))"

text \<open>\<^verbatim>\<open>authenticate\<close>: the candidates of the resolver, bounded, then the first whose hash matches and that has
  not expired; the write of \<^verbatim>\<open>last_used_at\<close> goes to the key found.\<close>

definition findActiveByKeyPrefix :: "string \<Rightarrow> TenancyDb \<Rightarrow> (OrganizationApiKeyRow \<times> OrganizationRow) list" where
  "findActiveByKeyPrefix keyPrefix d = take API_KEY_PREFIX_RESOLVER_CAP
     [(k, o'). k \<leftarrow> td_api_keys d, ak_key_prefix k = keyPrefix, ak_status k = ''ACTIVE'', ak_deleted_at k = None,
        o' \<leftarrow> bd_organizations (td_billing d), og_id o' = ak_organization_id k, og_deleted_at o' = None]"

definition api_key_authenticate :: "millis \<Rightarrow> string \<Rightarrow> string \<Rightarrow> TenancyDb \<Rightarrow> (string \<times> string \<times> string list) option" where
  "api_key_authenticate jsNow keyPrefix hash d = map_option (\<lambda>(k, o'). (ak_public_id k, og_public_id o', ak_scopes k))
     (List.find (\<lambda>(k, o'). ak_key_hash k = hash \<and> (case ak_expires_at k of None \<Rightarrow> True | Some t \<Rightarrow> jsNow < t))
        (findActiveByKeyPrefix keyPrefix d))"

definition touchLastUsedAt :: "millis \<Rightarrow> string \<Rightarrow> string \<Rightarrow> (TenancyDb, OrganizationApiKeyRow list) db" where
  "touchLastUsedAt now org publicId = update_api_key org (\<lambda>k. ak_public_id k = publicId \<and>
       (case ak_last_used_at k of None \<Rightarrow> True | Some t \<Rightarrow> t < now - 60 * 1000))
     (\<lambda>k. k\<lparr>ak_last_used_at := Some now, ak_updated_at := now\<rparr>)"

section \<open>What the operations ensure\<close>

lemma ensures_role_find [ensures_intros]:
  assumes "Q None s"
    and "\<And>r. r \<in> set (td_roles s) \<Longrightarrow> in_organization org s (ro_organization_id r) \<Longrightarrow> live_role r \<Longrightarrow>
        ro_public_id r = publicId \<Longrightarrow> ro_organization_id r = oid \<Longrightarrow> Q (Some r) s"
  shows "ensures (role_findByPublicId org publicId oid) Q s"
  unfolding role_findByPublicId_def by (intro ensures_intros) (use assms in auto)

lemma ensures_require_role [ensures_intros]:
  assumes "\<And>r o'. findOrganization org (td_billing s) = Some o' \<Longrightarrow> r \<in> set (td_roles s) \<Longrightarrow>
      in_organization org s (ro_organization_id r) \<Longrightarrow> live_role r \<Longrightarrow> ro_public_id r = publicId \<Longrightarrow>
      ro_organization_id r = og_id o' \<Longrightarrow> Q r s"
  shows "ensures (requireRoleRecordByPublicId org publicId) Q s"
  unfolding requireRoleRecordByPublicId_def by (intro ensures_intros) (use assms in auto)

lemma ensures_role_create [ensures_intros]:
  assumes "\<And>r. ro_id r = td_next_id s \<Longrightarrow> ro_organization_id r = oid \<Longrightarrow> live_role r \<Longrightarrow> in_organization org s oid \<Longrightarrow>
      role_index (td_roles s @ [r]) = None \<Longrightarrow>
      Q r (s\<lparr>td_roles := td_roles s @ [r], td_next_id := Suc (td_next_id s)\<rparr>)"
  shows "ensures (role_create env org oid name description) Q s"
  unfolding role_create_def insert_role_def
  by (rule ensures_checked_insert_retry, fold insert_role_def, intro ensures_intros, rule assms) (simp_all add: live_role_def)

lemma ensures_permission_replace [ensures_intros]:
  assumes "role_in_organization org s i \<Longrightarrow> set codes \<subseteq> set (td_permissions s) \<Longrightarrow>
      distinct (delete_where (\<lambda>x. fst x = i) (td_role_permissions s) @ map (Pair i) codes) \<or> codes = [] \<Longrightarrow>
      Q () (s\<lparr>td_role_permissions := delete_where (\<lambda>x. fst x = i) (td_role_permissions s) @ map (Pair i) codes\<rparr>)"
    and "\<not> role_in_organization org s i \<Longrightarrow> codes = [] \<Longrightarrow> Q () s"
  shows "ensures (role_permission_replace org i codes) Q s"
  unfolding role_permission_replace_def
  by (intro ensures_intros ensures_sql)
     (use assms in \<open>auto simp: Let_def list_all_iff role_in_organization_def in_organization_def subset_iff split: if_splits\<close>)

lemma ensures_find_member [ensures_intros]:
  assumes "Q None s"
    and "\<And>m. m \<in> set (td_memberships s) \<Longrightarrow> in_organization org s (mb_organization_id m) \<Longrightarrow> live_membership m \<Longrightarrow>
        mb_user_id m = userId \<Longrightarrow> mb_organization_id m = oid \<Longrightarrow> Q (Some m) s"
  shows "ensures (findByUserAndOrganization org userId oid) Q s"
  unfolding findByUserAndOrganization_def by (intro ensures_intros) (use assms in auto)

lemma ensures_key_find [ensures_intros]:
  assumes "Q None s"
    and "\<And>k. k \<in> set (td_api_keys s) \<Longrightarrow> in_organization org s (ak_organization_id k) \<Longrightarrow> ak_deleted_at k = None \<Longrightarrow>
        ak_public_id k = publicId \<Longrightarrow> ak_organization_id k = oid \<Longrightarrow> Q (Some k) s"
  shows "ensures (api_key_findByPublicId org publicId oid) Q s"
  unfolding api_key_findByPublicId_def by (intro ensures_intros) (use assms in auto)

lemma ensures_key_create [ensures_intros]:
  assumes "\<And>k. ak_id k = td_next_id s \<Longrightarrow> ak_organization_id k = oid \<Longrightarrow> ak_scopes k = scopes \<Longrightarrow> ak_created_by_user_id k = creator \<Longrightarrow>
      ak_key_hash k = te_sha256 env (te_rawKey env) \<Longrightarrow> ak_status k = ''ACTIVE'' \<Longrightarrow> ak_deleted_at k = None \<Longrightarrow>
      ak_expires_at k = expiresAt \<Longrightarrow> in_organization org s oid \<Longrightarrow>
      Q k (s\<lparr>td_api_keys := td_api_keys s @ [k], td_next_id := Suc (td_next_id s)\<rparr>)"
  shows "ensures (api_key_create env org oid name scopes expiresAt creator) Q s"
  unfolding api_key_create_def insert_api_key_def
  by (rule ensures_checked_insert_retry, fold insert_api_key_def, intro ensures_intros, rule assms) simp_all

end
