(* ===== verification/Memberships.thy ===== *)
theory Memberships
  imports Roles JS_Values
begin

text \<open>
  Memberships, invitations and ownership: \<^verbatim>\<open>src/src/domains/tenancy/sub-domains/membership/\<close>
  (\<^verbatim>\<open>membership.repository.ts\<close>, \<^verbatim>\<open>membership.service.ts\<close>, \<^verbatim>\<open>member-invitation/\<close>), the ownership and creation
  operations of \<^verbatim>\<open>sub-domains/organization/\<close>, and the account \<^verbatim>\<open>findOrCreateInvitedByEmail\<close> makes for an invitee.
  The seat ceiling is the one billing computes, in the same transaction.
\<close>

section \<open>Membership repository\<close>

definition SEAT_CONSUMING_MEMBERSHIP_STATUSES :: "string list" where
  "SEAT_CONSUMING_MEMBERSHIP_STATUSES = [''ACTIVE'', ''INVITED'']"

definition membershipStatusConsumesSeat :: "string \<Rightarrow> bool" where
  "membershipStatusConsumesSeat status \<longleftrightarrow> status \<in> set SEAT_CONSUMING_MEMBERSHIP_STATUSES"

definition seat_of :: "nat \<Rightarrow> MembershipRow \<Rightarrow> bool" where
  "seat_of oid m \<longleftrightarrow> mb_organization_id m = oid \<and> membershipStatusConsumesSeat (mb_status m) \<and> live_membership m"

definition countActiveByOrganization :: "string \<Rightarrow> nat \<Rightarrow> TenancyDb \<Rightarrow> nat" where
  "countActiveByOrganization org oid d =
     length (filter (\<lambda>m. in_organization org d (mb_organization_id m) \<and> seat_of oid m) (td_memberships d))"

definition membership_findByPublicId :: "string \<Rightarrow> string \<Rightarrow> nat \<Rightarrow> (TenancyDb, MembershipRow option) db" where
  "membership_findByPublicId org publicId oid =
     select_membership org (\<lambda>m. mb_public_id m = publicId \<and> mb_organization_id m = oid)"

definition membership_findById :: "string \<Rightarrow> nat \<Rightarrow> (TenancyDb, MembershipRow option) db" where
  "membership_findById org i = select_membership org (\<lambda>m. mb_id m = i)"

definition membership_create ::
    "TenancyEnv \<Rightarrow> string \<Rightarrow> nat \<Rightarrow> nat \<Rightarrow> nat \<Rightarrow> nat \<Rightarrow> (TenancyDb, MembershipRow) db" where
  "membership_create env org oid userId roleId inviterId = runInsertWithPublicIdentifierRetry (\<lambda>n. insert_membership org (\<lambda>i.
     \<lparr>mb_id = i, mb_public_id = te_publicId env n, mb_user_id = userId, mb_organization_id = oid, mb_role_id = roleId,
      mb_status = ''INVITED'', mb_invited_by_user_id = Some inviterId, mb_joined_at = None, mb_deleted_at = None,
      mb_created_at = te_now env, mb_updated_at = te_now env\<rparr>))"

definition membership_patch :: "TenancyEnv \<Rightarrow> string option \<Rightarrow> nat option \<Rightarrow> MembershipRow \<Rightarrow> MembershipRow" where
  "membership_patch env status roleId m = m\<lparr>mb_updated_at := te_now env,
     mb_status := (case status of None \<Rightarrow> mb_status m | Some s \<Rightarrow> s),
     mb_joined_at := (if status = Some ''ACTIVE'' then Some (te_jsNow env) else mb_joined_at m),
     mb_role_id := (case roleId of None \<Rightarrow> mb_role_id m | Some r \<Rightarrow> r)\<rparr>"

definition membership_update ::
    "TenancyEnv \<Rightarrow> string \<Rightarrow> string \<Rightarrow> nat \<Rightarrow> string option \<Rightarrow> nat option \<Rightarrow> (TenancyDb, MembershipRow option) db" where
  "membership_update env org publicId oid status roleId = act_bind (update_membership org
       (\<lambda>d m. mb_public_id m = publicId \<and> mb_organization_id m = oid \<and> live_membership m) (membership_patch env status roleId))
     (\<lambda>rows. act_return (rows0 rows))"

definition activateForInvitationAccept :: "TenancyEnv \<Rightarrow> string \<Rightarrow> nat \<Rightarrow> nat \<Rightarrow> (TenancyDb, MembershipRow option) db" where
  "activateForInvitationAccept env org membershipId oid = act_bind (update_membership org
       (\<lambda>d m. mb_id m = membershipId \<and> mb_organization_id m = oid \<and> mb_status m = ''INVITED'' \<and> live_membership m)
       (\<lambda>m. m\<lparr>mb_status := ''ACTIVE'', mb_joined_at := Some (te_jsNow env), mb_updated_at := te_now env\<rparr>))
     (\<lambda>rows. act_return (rows0 rows))"

text \<open>The \<^verbatim>\<open>NOT EXISTS\<close> reads organizations under row-level security: the current one, unless deleted.\<close>

definition membership_softDelete :: "TenancyEnv \<Rightarrow> string \<Rightarrow> string \<Rightarrow> nat \<Rightarrow> (TenancyDb, MembershipRow option) db" where
  "membership_softDelete env org publicId oid = act_bind (update_membership org
       (\<lambda>d m. mb_public_id m = publicId \<and> mb_organization_id m = oid \<and> live_membership m \<and>
          \<not> (case findOrganization org (td_billing d) of None \<Rightarrow> False
             | Some o' \<Rightarrow> og_id o' = mb_organization_id m \<and> og_owner_user_id o' = mb_user_id m))
       (\<lambda>m. m\<lparr>mb_deleted_at := Some (te_now env), mb_updated_at := te_now env\<rparr>))
     (\<lambda>rows. act_return (rows0 rows))"

text \<open>Candidates in the order of \<^verbatim>\<open>joined_at DESC\<close>; an \<^verbatim>\<open>ACTIVE\<close> row always has a join date.\<close>

definition suspension_candidates :: "string \<Rightarrow> nat \<Rightarrow> nat \<Rightarrow> TenancyDb \<Rightarrow> MembershipRow list" where
  "suspension_candidates org oid ownerId d = sort_key (\<lambda>m. - the (mb_joined_at m))
     (filter (\<lambda>m. in_organization org d (mb_organization_id m) \<and> mb_organization_id m = oid \<and> mb_status m = ''ACTIVE'' \<and>
        mb_user_id m \<noteq> ownerId \<and> live_membership m) (td_memberships d))"

definition suspendExcessActiveMembers :: "TenancyEnv \<Rightarrow> string \<Rightarrow> nat \<Rightarrow> nat \<Rightarrow> nat \<Rightarrow> (TenancyDb, nat list) db" where
  "suspendExcessActiveMembers env org oid ownerId suspendCount =
     (if suspendCount = 0 then act_return []
      else act_bind (sql_read (\<lambda>d. take suspendCount (suspension_candidates org oid ownerId d))) (\<lambda>candidates.
        if candidates = [] then act_return []
        else act_bind (update_membership org (\<lambda>d m. mb_id m \<in> set (map mb_id candidates))
            (\<lambda>m. m\<lparr>mb_status := ''SUSPENDED'', mb_updated_at := te_jsNow env\<rparr>))
          (\<lambda>_. act_return (map mb_user_id candidates))))"

section \<open>Invitation repository\<close>

definition invitation_findByPublicId :: "string \<Rightarrow> string \<Rightarrow> (TenancyDb, MemberInvitationRow option) db" where
  "invitation_findByPublicId org publicId = select_invitation org (\<lambda>i. mi_public_id i = publicId)"

definition pending_invitation :: "millis \<Rightarrow> MemberInvitationRow \<Rightarrow> bool" where
  "pending_invitation jsNow i \<longleftrightarrow> mi_accepted_at i = None \<and> mi_revoked_at i = None \<and> mi_expires_at i > jsNow"

definition countPendingByOrganization :: "millis \<Rightarrow> string \<Rightarrow> nat \<Rightarrow> TenancyDb \<Rightarrow> nat" where
  "countPendingByOrganization jsNow org oid d = length [i. i \<leftarrow> td_invitations d, m \<leftarrow> td_memberships d,
     mi_membership_id i = mb_id m, in_organization org d (mb_organization_id m), mb_organization_id m = oid,
     pending_invitation jsNow i, live_membership m]"

definition invitation_create ::
    "TenancyEnv \<Rightarrow> string \<Rightarrow> nat \<Rightarrow> string \<Rightarrow> string \<Rightarrow> nat \<Rightarrow> millis \<Rightarrow> (TenancyDb, MemberInvitationRow) db" where
  "invitation_create env org membershipId email tokenHash inviterId expiresAt =
     runInsertWithPublicIdentifierRetry (\<lambda>n. insert_invitation org (\<lambda>i.
       \<lparr>mi_id = i, mi_public_id = te_invitationId env n, mi_membership_id = membershipId, mi_email = email,
        mi_token_hash = tokenHash, mi_invited_by_user_id = inviterId, mi_expires_at = expiresAt,
        mi_accepted_at = None, mi_revoked_at = None, mi_created_at = te_now env\<rparr>))"

definition invitation_accept :: "TenancyEnv \<Rightarrow> string \<Rightarrow> string \<Rightarrow> string \<Rightarrow> millis \<Rightarrow> (TenancyDb, MemberInvitationRow option) db" where
  "invitation_accept env org publicId tokenHash expiresAfter = act_bind (update_invitation org
       (\<lambda>i. mi_public_id i = publicId \<and> mi_token_hash i = tokenHash \<and> mi_expires_at i > expiresAfter \<and>
          mi_accepted_at i = None \<and> mi_revoked_at i = None)
       (\<lambda>i. i\<lparr>mi_accepted_at := Some (te_jsNow env)\<rparr>))
     (\<lambda>rows. act_return (rows0 rows))"

definition invitation_resend :: "string \<Rightarrow> string \<Rightarrow> string \<Rightarrow> millis \<Rightarrow> (TenancyDb, MemberInvitationRow option) db" where
  "invitation_resend org publicId tokenHash expiresAt = act_bind (update_invitation org
       (\<lambda>i. mi_public_id i = publicId \<and> mi_accepted_at i = None \<and> mi_revoked_at i = None)
       (\<lambda>i. i\<lparr>mi_token_hash := tokenHash, mi_expires_at := expiresAt\<rparr>))
     (\<lambda>rows. act_return (rows0 rows))"

definition invitation_revoke :: "TenancyEnv \<Rightarrow> string \<Rightarrow> string \<Rightarrow> (TenancyDb, MemberInvitationRow option) db" where
  "invitation_revoke env org publicId = act_bind (update_invitation org
       (\<lambda>i. mi_public_id i = publicId \<and> mi_accepted_at i = None)
       (\<lambda>i. i\<lparr>mi_revoked_at := Some (te_jsNow env)\<rparr>))
     (\<lambda>rows. act_return (rows0 rows))"

text \<open>The migration's \<^verbatim>\<open>resolve_member_invitation_lookup_by_public_id\<close>, which sees every tenant.\<close>

definition lookupOrganizationByInvitationPublicId ::
    "string \<Rightarrow> TenancyDb \<Rightarrow> (OrganizationRow \<times> MembershipRow) option" where
  "lookupOrganizationByInvitationPublicId publicId d = rows0 [(o', m). i \<leftarrow> td_invitations d, m \<leftarrow> td_memberships d,
     o' \<leftarrow> bd_organizations (td_billing d), mb_id m = mi_membership_id i, og_id o' = mb_organization_id m,
     mi_public_id i = publicId, mi_accepted_at i = None, mi_revoked_at i = None, live_membership m, og_deleted_at o' = None]"

section \<open>Invitee accounts\<close>

definition createFromOAuth :: "TenancyEnv \<Rightarrow> OAuthUserData \<Rightarrow> UserRow tenancy" where
  "createFromOAuth env data = runInsertWithPublicIdentifierRetry (\<lambda>n. tenant_transaction (sql (\<lambda>d.
     case insertOAuthUser (\<lambda>e. te_sha256 env (js_lower e)) (te_now env) (td_next_id d) (te_userId env n) data (td_users d) of
       None \<Rightarrow> Inl (Sql_unique (if list_ex (\<lambda>u. us_public_id u = te_userId env n) (td_users d)
         then ''idx_users_public_id'' else ''idx_users_email_unique''))
     | Some (row, t) \<Rightarrow> Inr (row, d\<lparr>td_users := t, td_next_id := Suc (td_next_id d)\<rparr>))))"

definition findOrCreateInvitedByEmail :: "TenancyEnv \<Rightarrow> string \<Rightarrow> UserRow tenancy" where
  "findOrCreateInvitedByEmail env email = act_bind (tenant_transaction (sql_read (\<lambda>d. findByEmail email (td_users d))))
     (\<lambda>existing. case existing of
        Some u \<Rightarrow> if us_deleted_at u = None then act_return u
          else createFromOAuth env \<lparr>od_email = email, od_first_name = None, od_last_name = None, od_avatar_url = None,
                 od_is_email_verified = False\<rparr>
      | None \<Rightarrow> createFromOAuth env \<lparr>od_email = email, od_first_name = None, od_last_name = None, od_avatar_url = None,
                 od_is_email_verified = False\<rparr>)"

section \<open>Seats\<close>

definition seatLimitReached :: thrown where
  "seatLimitReached = App (ConflictError ''errors:seatLimitReached'')"

definition assertSeatAvailableForMemberAdd :: "TenancyEnv \<Rightarrow> string \<Rightarrow> nat \<Rightarrow> (TenancyDb, unit) db" where
  "assertSeatAvailableForMemberAdd env org oid =
     act_bind (billing_part (reserveSeatCeilingForMemberAdd (te_billing env) org oid)) (\<lambda>ceiling. case ceiling of
         None \<Rightarrow> act_return ()
       | Some c \<Rightarrow> act_bind (sql_read (countActiveByOrganization org oid)) (\<lambda>used.
           if int used \<ge> c then act_throw seatLimitReached else act_return ()))"

section \<open>Invitations\<close>

definition emitStrict :: "TenancyEnv \<Rightarrow> MemberInvitationEvent \<Rightarrow> (TenancyDb, unit) db" where
  "emitStrict env e = (case te_emitFails env of
       Some err \<Rightarrow> act_throw err
     | None \<Rightarrow> sql (\<lambda>d. Inr ((), d\<lparr>td_events := td_events d @ [e]\<rparr>)))"

definition days_ahead :: "TenancyEnv \<Rightarrow> nat \<Rightarrow> millis" where
  "days_ahead env n = addDays (te_timeZone env) (te_jsNow env) (int n)"

definition createForMembership ::
    "TenancyEnv \<Rightarrow> string \<Rightarrow> nat \<Rightarrow> nat \<Rightarrow> string \<Rightarrow> nat \<Rightarrow> nat \<Rightarrow> (TenancyDb, MemberInvitationRow) db" where
  "createForMembership env org oid membershipId email expiresInDays inviterId =
     act_bind (sql_read (countPendingByOrganization (te_jsNow env) org oid)) (\<lambda>pendingCount.
       if pendingCount \<ge> te_invitationMaxPending env
       then act_throw (App (ConflictError ''errors:memberInvitationMaxReached''))
       else act_bind (invitation_create env org membershipId email (te_sha256 env (te_token env)) inviterId
           (days_ahead env expiresInDays)) (\<lambda>row.
         act_bind (emitStrict env (MemberInvitationCreated email (te_token env))) (\<lambda>_. act_return row)))"

definition assertInvitationAcceptable :: "MemberInvitationRow \<Rightarrow> millis \<Rightarrow> (TenancyDb, unit) db" where
  "assertInvitationAcceptable i now =
     (if mi_revoked_at i \<noteq> None then act_throw (App (ValidationError ''errors:validation.invitationRevoked''))
      else if mi_accepted_at i \<noteq> None then act_throw (App (ValidationError ''errors:validation.invitationAlreadyAccepted''))
      else if now > mi_expires_at i then act_throw (App (ValidationError ''errors:validation.invitationExpired''))
      else act_return ())"

definition throwInvitationAcceptFailure :: "MemberInvitationRow option \<Rightarrow> millis \<Rightarrow> (TenancyDb, 'a) db" where
  "throwInvitationAcceptFailure current now = (case current of
       None \<Rightarrow> act_throw (App (NotFoundError ''Member invitation''))
     | Some i \<Rightarrow> act_bind (assertInvitationAcceptable i now)
         (\<lambda>_. act_throw (App (ValidationError ''errors:validation.invalidToken''))))"

text \<open>The members who may manage memberships, less the invitee; a failure to notify them is swallowed.\<close>

definition findUserIdsWithPermission :: "string \<Rightarrow> nat \<Rightarrow> string \<Rightarrow> TenancyDb \<Rightarrow> nat list" where
  "findUserIdsWithPermission org oid code d = remdups (map mb_user_id (filter (\<lambda>m. in_organization org d (mb_organization_id m) \<and>
     mb_organization_id m = oid \<and> mb_status m = ''ACTIVE'' \<and> live_membership m \<and>
     (\<exists>r \<in> set (td_roles d). in_organization org d (ro_organization_id r) \<and> ro_id r = mb_role_id m \<and> live_role r \<and>
        code \<in> set (role_codes d (ro_id r)))) (td_memberships d)))"

definition notify_accepted :: "TenancyEnv \<Rightarrow> string \<Rightarrow> nat \<Rightarrow> nat \<Rightarrow> (TenancyDb, unit) db" where
  "notify_accepted env org oid invitee =
     act_bind (sql_read (findUserIdsWithPermission org oid ''membership:manage'')) (\<lambda>managers.
       let recipients = filter (\<lambda>u. u \<noteq> invitee) managers
       in if recipients = [] \<or> te_emitFails env \<noteq> None then act_return ()
          else sql (\<lambda>d. Inr ((), d\<lparr>td_events := td_events d @ [MemberInvitationAccepted recipients]\<rparr>)))"

definition accept_in_organization ::
    "TenancyEnv \<Rightarrow> string \<Rightarrow> string \<Rightarrow> UserRow \<Rightarrow> nat \<Rightarrow> nat \<Rightarrow> string \<Rightarrow> (TenancyDb, MemberInvitationRow \<times> nat) db" where
  "accept_in_organization env invitationPublicId token actingUser membershipId oid org =
     act_bind (invitation_findByPublicId org invitationPublicId) (\<lambda>found. case found of
         None \<Rightarrow> act_throw (App (NotFoundError ''Member invitation''))
       | Some row \<Rightarrow>
         if js_lower (mi_email row) \<noteq> js_lower (us_email actingUser)
         then act_throw (App (ForbiddenError ''errors:invitationEmailMismatch''))
         else act_bind (assertInvitationAcceptable row (te_jsNow env)) (\<lambda>_.
           act_bind (invitation_accept env org invitationPublicId (te_sha256 env token) (te_jsNow env)) (\<lambda>updated. case updated of
               None \<Rightarrow> act_bind (invitation_findByPublicId org invitationPublicId)
                 (\<lambda>current. throwInvitationAcceptFailure current (te_jsNow env))
             | Some i \<Rightarrow> act_bind (activateForInvitationAccept env org membershipId oid) (\<lambda>activated. case activated of
                   None \<Rightarrow> act_throw (App (NotFoundError ''Membership''))
                 | Some m \<Rightarrow> act_bind (notify_accepted env org oid (mb_user_id m)) (\<lambda>_. act_return (i, mb_user_id m))))))"

definition invalidate_user :: "nat \<Rightarrow> string \<Rightarrow> unit tenancy" where
  "invalidate_user userId org = act_bind (tenant_transaction (sql_read (resolveUserPublicIdByInternalId userId)))
     (\<lambda>u. case u of None \<Rightarrow> act_return () | Some p \<Rightarrow> invalidate (invalidatePermissions p org))"

definition member_invitation_accept :: "TenancyEnv \<Rightarrow> string \<Rightarrow> string \<Rightarrow> string \<Rightarrow> MemberInvitationRow tenancy" where
  "member_invitation_accept env invitationPublicId token actingUserPublicId =
     act_bind (tenant_transaction (sql_read (\<lambda>d. requireUserRecordByPublicId actingUserPublicId (td_users d)))) (\<lambda>acting. case acting of
         Inl e \<Rightarrow> act_throw (App e)
       | Inr actingUser \<Rightarrow>
         if \<not> us_is_email_verified actingUser then act_throw (App (ForbiddenError ''errors:invitationRequiresVerifiedEmail''))
         else act_bind (tenant_transaction (sql_read (lookupOrganizationByInvitationPublicId invitationPublicId))) (\<lambda>lookup. case lookup of
             None \<Rightarrow> act_throw (App (NotFoundError ''Member invitation''))
           | Some (o', m) \<Rightarrow>
             act_bind (tenant_transaction (accept_in_organization env invitationPublicId token actingUser
                 (mb_id m) (og_id o') (og_public_id o'))) (\<lambda>(i, member).
               act_bind (invalidate_user member (og_public_id o')) (\<lambda>_. act_return i))))"

text \<open>The organization, the invitation and its membership, as revoke and resend look them up.\<close>

definition load_invitation :: "string \<Rightarrow> string \<Rightarrow> (TenancyDb, OrganizationRow \<times> MemberInvitationRow \<times> MembershipRow) db" where
  "load_invitation org invitationPublicId =
     act_bind (requireOrganizationRecordByPublicId org) (\<lambda>o'.
     act_bind (invitation_findByPublicId org invitationPublicId) (\<lambda>found. case found of
         None \<Rightarrow> act_throw (App (NotFoundError ''Member invitation''))
       | Some i \<Rightarrow> act_bind (membership_findById org (mi_membership_id i)) (\<lambda>membership. case membership of
             None \<Rightarrow> act_throw (App (NotFoundError ''Member invitation''))
           | Some m \<Rightarrow> if mb_organization_id m \<noteq> og_id o' then act_throw (App (NotFoundError ''Member invitation''))
               else act_return (o', i, m))))"

definition member_invitation_revoke :: "TenancyEnv \<Rightarrow> string \<Rightarrow> string \<Rightarrow> unit tenancy" where
  "member_invitation_revoke env org invitationPublicId = act_bind (tenant_transaction (
     act_bind (load_invitation org invitationPublicId) (\<lambda>(o', i, m).
     act_bind (invitation_revoke env org invitationPublicId) (\<lambda>updated.
       if updated = None then act_throw (App (NotFoundError ''Member invitation''))
       else act_bind (membership_softDelete env org (mb_public_id m) (og_id o')) (\<lambda>_. act_return ())))))
     (\<lambda>_. seat_sync env org)"

definition member_invitation_resend :: "TenancyEnv \<Rightarrow> string \<Rightarrow> string \<Rightarrow> nat \<Rightarrow> MemberInvitationRow tenancy" where
  "member_invitation_resend env org invitationPublicId expiresInDays = tenant_transaction (
     act_bind (load_invitation org invitationPublicId) (\<lambda>(o', i, m).
       if mi_accepted_at i \<noteq> None then act_throw (App (ValidationError ''errors:validation.invitationAlreadyAccepted''))
       else if mi_revoked_at i \<noteq> None then act_throw (App (ValidationError ''errors:validation.invitationRevoked''))
       else if te_jsNow env > mi_expires_at i then act_throw (App (ValidationError ''errors:validation.invitationExpired''))
       else act_bind (invitation_resend org invitationPublicId (te_sha256 env (te_token env)) (days_ahead env expiresInDays))
         (\<lambda>updated. case updated of
             None \<Rightarrow> act_throw (App (NotFoundError ''Member invitation''))
           | Some row \<Rightarrow> act_bind (emitStrict env (MemberInvitationResent (mi_email i) (te_token env))) (\<lambda>_. act_return row))))"

section \<open>Membership service\<close>

definition applyOrganizationLocaleDefaults :: "TenancyEnv \<Rightarrow> (TenancyDb, unit) db" where
  "applyOrganizationLocaleDefaults env = (case te_localeFails env of Some e \<Rightarrow> act_throw e | None \<Rightarrow> act_return ())"

definition add_member ::
    "TenancyEnv \<Rightarrow> string \<Rightarrow> string option \<Rightarrow> UserRow \<Rightarrow> string \<Rightarrow> nat \<Rightarrow> (TenancyDb, MembershipRow) db" where
  "add_member env org caller invitee rolePublicId expiresInDays =
     act_bind (requireOrganizationRecordByPublicId org) (\<lambda>o'.
     act_bind (assert_team o' ''errors:personalOrganizationNoMembers'') (\<lambda>_.
     act_bind (requireRoleRecordByPublicId org rolePublicId) (\<lambda>role.
     act_bind (listPermissionCodesForRole org (ro_id role)) (\<lambda>codes.
     act_bind (assertCallerCanGrantPermissionCodes caller org codes) (\<lambda>_.
     act_bind (assertSeatAvailableForMemberAdd env org (og_id o')) (\<lambda>_.
     act_bind (sql_read (resolveUserInternalIdByPublicId caller)) (\<lambda>inviter. case inviter of
         None \<Rightarrow> act_throw (App (NotFoundError ''User''))
       | Some inviterId \<Rightarrow>
         act_bind (act_catch (membership_create env org (og_id o') (us_id invitee) (ro_id role) inviterId)
             (\<lambda>e. act_throw (if isPostgresUniqueViolation e
                then App (ConflictError ''errors:membershipAlreadyExists'') else e))) (\<lambda>created.
         act_bind (createForMembership env org (og_id o') (mb_id created) (us_email invitee) expiresInDays inviterId) (\<lambda>_.
         act_bind (applyOrganizationLocaleDefaults env) (\<lambda>_. act_return created))))))))))"

definition membership_service_create ::
    "TenancyEnv \<Rightarrow> string \<Rightarrow> string option \<Rightarrow> string \<Rightarrow> string \<Rightarrow> nat \<Rightarrow> MembershipRow tenancy" where
  "membership_service_create env org caller email rolePublicId expiresInDays =
     (if te_isDisposable env email then act_throw (App (ValidationError ''errors:disposableEmail''))
      else act_bind (findOrCreateInvitedByEmail env email) (\<lambda>invitee.
        act_bind (tenant_transaction (add_member env org caller invitee rolePublicId expiresInDays)) (\<lambda>created.
        act_bind (invalidate (invalidatePermissions (us_public_id invitee) org)) (\<lambda>_.
        act_bind (seat_sync env org) (\<lambda>_. act_return created)))))"

definition validateUpdateMembership :: "string option \<Rightarrow> string option \<Rightarrow> bool" where
  "validateUpdateMembership status rolePublicId \<longleftrightarrow> (status \<noteq> None \<or> rolePublicId \<noteq> None) \<and>
     (case status of None \<Rightarrow> True | Some s \<Rightarrow> s \<in> {''INVITED'', ''ACTIVE'', ''SUSPENDED''})"

text \<open>The checks of \<^verbatim>\<open>update\<close>, up to its one write.\<close>

definition grantable_role :: "string \<Rightarrow> string option \<Rightarrow> string option \<Rightarrow> (TenancyDb, nat option) db" where
  "grantable_role org caller rolePublicId = (case rolePublicId of
       None \<Rightarrow> act_return None
     | Some p \<Rightarrow> act_bind (requireRoleRecordByPublicId org p) (\<lambda>role.
         act_bind (listPermissionCodesForRole org (ro_id role)) (\<lambda>codes.
         act_bind (assertCallerCanGrantPermissionCodes caller org codes) (\<lambda>_. act_return (Some (ro_id role))))))"

definition update_checks ::
    "TenancyEnv \<Rightarrow> string \<Rightarrow> string option \<Rightarrow> string \<Rightarrow> string option \<Rightarrow> string option \<Rightarrow>
     (TenancyDb, OrganizationRow \<times> MembershipRow \<times> nat option) db" where
  "update_checks env org caller publicId status rolePublicId =
     act_bind (requireOrganizationRecordByPublicId org) (\<lambda>o'.
     act_bind (membership_findByPublicId org publicId (og_id o')) (\<lambda>found. case found of
         None \<Rightarrow> act_throw (App (NotFoundError ''Membership''))
       | Some m \<Rightarrow>
         if og_owner_user_id o' = mb_user_id m then act_throw (App (ForbiddenError ''errors:ownerMembershipCannotBeModified''))
         else if status = Some ''ACTIVE'' \<and> mb_joined_at m = None
         then act_throw (App (ForbiddenError ''errors:membershipActivationRequiresInvitationAccept''))
         else act_bind (if status = Some ''ACTIVE'' \<and> mb_status m \<noteq> ''ACTIVE''
             then assertSeatAvailableForMemberAdd env org (og_id o') else act_return ()) (\<lambda>_.
           act_bind (grantable_role org caller rolePublicId) (\<lambda>roleId. act_return (o', m, roleId)))))"

definition update_membership_row ::
    "TenancyEnv \<Rightarrow> string \<Rightarrow> string option \<Rightarrow> string \<Rightarrow> string option \<Rightarrow> string option \<Rightarrow>
     (TenancyDb, MembershipRow \<times> MembershipRow) db" where
  "update_membership_row env org caller publicId status rolePublicId =
     act_bind (update_checks env org caller publicId status rolePublicId) (\<lambda>(o', m, roleId).
     act_bind (membership_update env org publicId (og_id o') status roleId) (\<lambda>updated. case updated of
         None \<Rightarrow> act_throw (App (NotFoundError ''Membership'')) | Some u \<Rightarrow> act_return (m, u)))"

definition membership_service_update ::
    "TenancyEnv \<Rightarrow> string \<Rightarrow> string option \<Rightarrow> string \<Rightarrow> string option \<Rightarrow> string option \<Rightarrow> MembershipRow tenancy" where
  "membership_service_update env org caller publicId status rolePublicId =
     (if \<not> validateUpdateMembership status rolePublicId then act_throw (App (ValidationError ''errors:validation''))
      else act_bind (tenant_transaction (update_membership_row env org caller publicId status rolePublicId)) (\<lambda>(m, u).
        act_bind (invalidate_user (mb_user_id u) org) (\<lambda>_.
        act_bind (if membershipStatusConsumesSeat (mb_status m) \<noteq> membershipStatusConsumesSeat (mb_status u)
          then seat_sync env org else act_return ()) (\<lambda>_. act_return u))))"

text \<open>Removing a row with the owner guard, and the error when the guard refused.\<close>

definition remove_member :: "TenancyEnv \<Rightarrow> string \<Rightarrow> OrganizationRow \<Rightarrow> MembershipRow \<Rightarrow> string \<Rightarrow> (TenancyDb, nat) db" where
  "remove_member env org o' m ownerError =
     act_bind (membership_softDelete env org (mb_public_id m) (og_id o')) (\<lambda>deleted. case deleted of
         None \<Rightarrow> act_bind (requireOrganizationRecordByPublicId org) (\<lambda>current.
           if og_owner_user_id current = mb_user_id m then act_throw (App (ForbiddenError ownerError))
           else act_throw (App (NotFoundError ''Membership'')))
       | Some x \<Rightarrow> act_bind (revokeAllByCreatorInOrganization env org (og_id o') (mb_user_id x))
           (\<lambda>_. act_return (mb_user_id x)))"

definition membership_service_delete :: "TenancyEnv \<Rightarrow> string \<Rightarrow> string \<Rightarrow> unit tenancy" where
  "membership_service_delete env org publicId =
     act_bind (tenant_transaction (
       act_bind (requireOrganizationRecordByPublicId org) (\<lambda>o'.
       act_bind (membership_findByPublicId org publicId (og_id o')) (\<lambda>found. case found of
           None \<Rightarrow> act_throw (App (NotFoundError ''Membership''))
         | Some m \<Rightarrow> if og_owner_user_id o' = mb_user_id m then act_throw (App (ForbiddenError ''errors:ownerCannotBeRemoved''))
             else remove_member env org o' m ''errors:ownerCannotBeRemoved'')))) (\<lambda>userId.
     act_bind (invalidate_user userId org) (\<lambda>_. seat_sync env org))"

definition leaveOrganization :: "TenancyEnv \<Rightarrow> string \<Rightarrow> string \<Rightarrow> unit tenancy" where
  "leaveOrganization env org userPublicId =
     act_bind (tenant_transaction (
       act_bind (requireOrganizationRecordByPublicId org) (\<lambda>o'.
       act_bind (sql_read (resolveUserInternalIdByPublicId (Some userPublicId))) (\<lambda>user. case user of
           None \<Rightarrow> act_throw (App (NotFoundError ''User''))
         | Some userId \<Rightarrow> act_bind (findByUserAndOrganization org userId (og_id o')) (\<lambda>found. case found of
               None \<Rightarrow> act_throw (App (NotFoundError ''Membership''))
             | Some m \<Rightarrow> if og_owner_user_id o' = userId then act_throw (App (ForbiddenError ''errors:ownerCannotLeave''))
                 else remove_member env org o' m ''errors:ownerCannotLeave''))))) (\<lambda>_.
     act_bind (invalidate (invalidatePermissions userPublicId org)) (\<lambda>_. seat_sync env org))"

section \<open>Ownership\<close>

definition updateOwner :: "string \<Rightarrow> nat \<Rightarrow> (TenancyDb, OrganizationRow option) db" where
  "updateOwner org newOwner = sql (\<lambda>d.
     let p = (\<lambda>o'. og_public_id o' = org \<and> og_deleted_at o' = None \<and>
           (\<exists>m \<in> set (td_memberships d). mb_user_id m = newOwner \<and> mb_organization_id m = og_id o' \<and>
              mb_status m = ''ACTIVE'' \<and> live_membership m));
         f = (\<lambda>o'. o'\<lparr>og_owner_user_id := newOwner\<rparr>);
         (row, t) = update_row p f (bd_organizations (td_billing d))
     in Inr (row, d\<lparr>td_billing := (td_billing d)\<lparr>bd_organizations := t\<rparr>\<rparr>))"

definition transferOrganizationOwnership :: "string \<Rightarrow> nat \<Rightarrow> (TenancyDb, OrganizationRow) db" where
  "transferOrganizationOwnership org newOwner = act_bind (updateOwner org newOwner) (\<lambda>updated.
     if updated = None then act_throw (App (ConflictError ''errors:ownershipTransferTargetNotActive''))
     else requireOrganizationRecordByPublicId org)"

definition transfer_in_organization :: "string \<Rightarrow> string \<Rightarrow> string \<Rightarrow> (TenancyDb, MembershipRow) db" where
  "transfer_in_organization org newOwnerPublicId currentUserPublicId =
     act_bind (requireOrganizationRecordByPublicId org) (\<lambda>o'.
     act_bind (assert_team o' ''errors:personalOrganizationImmutable'') (\<lambda>_.
     act_bind (sql_read (resolveUserInternalIdByPublicId (Some currentUserPublicId))) (\<lambda>current. case current of
         None \<Rightarrow> act_throw (App (NotFoundError ''User''))
       | Some c \<Rightarrow> if og_owner_user_id o' \<noteq> c then act_throw (App (ForbiddenError ''errors:onlyOwnerCanTransfer''))
           else act_bind (sql_read (resolveUserInternalIdByPublicId (Some newOwnerPublicId))) (\<lambda>new. case new of
             None \<Rightarrow> act_throw (App (NotFoundError ''User''))
           | Some n \<Rightarrow> act_bind (findByUserAndOrganization org n (og_id o')) (\<lambda>found. case found of
                 None \<Rightarrow> act_throw (App (NotFoundError ''New owner must be an active member''))
               | Some m \<Rightarrow> if mb_status m \<noteq> ''ACTIVE'' then act_throw (App (NotFoundError ''New owner must be an active member''))
                   else act_bind (transferOrganizationOwnership org n) (\<lambda>_. act_return m))))))"

definition transferOwnership :: "string \<Rightarrow> string \<Rightarrow> string \<Rightarrow> MembershipRow tenancy" where
  "transferOwnership org newOwnerPublicId currentUserPublicId =
     act_bind (tenant_transaction (transfer_in_organization org newOwnerPublicId currentUserPublicId)) (\<lambda>m.
     act_bind (invalidate (invalidatePermissions currentUserPublicId org)) (\<lambda>_.
     act_bind (invalidate (invalidatePermissions newOwnerPublicId org)) (\<lambda>_. act_return m)))"

section \<open>Counting and suspending for billing\<close>

definition membership_countActiveMembers :: "string \<Rightarrow> nat tenancy" where
  "membership_countActiveMembers org = tenant_transaction (act_bind (requireOrganizationRecordByPublicId org)
     (\<lambda>o'. sql_read (countActiveByOrganization org (og_id o'))))"

definition invalidate_users :: "nat list \<Rightarrow> string \<Rightarrow> unit tenancy" where
  "invalidate_users ids org = foldr (\<lambda>i k. act_bind (invalidate_user i org) (\<lambda>_. k)) ids (act_return ())"

definition suspendExcessActiveMembersToFitCeiling :: "TenancyEnv \<Rightarrow> string \<Rightarrow> int \<Rightarrow> nat tenancy" where
  "suspendExcessActiveMembersToFitCeiling env org ceiling =
     act_bind (tenant_transaction (
       act_bind (requireOrganizationRecordByPublicId org) (\<lambda>o'.
       act_bind (sql_read (countActiveByOrganization org (og_id o'))) (\<lambda>used.
         if int used - ceiling \<le> 0 then act_return []
         else suspendExcessActiveMembers env org (og_id o') (og_owner_user_id o') (nat (int used - ceiling)))))) (\<lambda>suspended.
     act_bind (invalidate_users suspended org) (\<lambda>_. act_return (length suspended)))"

section \<open>What the operations ensure\<close>

lemma ensures_membership_find [ensures_intros]:
  assumes "Q None s"
    and "\<And>m. m \<in> set (td_memberships s) \<Longrightarrow> in_organization org s (mb_organization_id m) \<Longrightarrow> live_membership m \<Longrightarrow>
        mb_public_id m = publicId \<Longrightarrow> mb_organization_id m = oid \<Longrightarrow> Q (Some m) s"
  shows "ensures (membership_findByPublicId org publicId oid) Q s"
  unfolding membership_findByPublicId_def by (intro ensures_intros) (use assms in auto)

lemma ensures_membership_create [ensures_intros]:
  assumes "\<And>m. mb_id m = td_next_id s \<Longrightarrow> mb_user_id m = userId \<Longrightarrow> mb_organization_id m = oid \<Longrightarrow> mb_role_id m = roleId \<Longrightarrow>
      mb_status m = ''INVITED'' \<Longrightarrow> live_membership m \<Longrightarrow> mb_joined_at m = None \<Longrightarrow> in_organization org s oid \<Longrightarrow>
      membership_index (td_memberships s @ [m]) = None \<Longrightarrow>
      Q m (s\<lparr>td_memberships := td_memberships s @ [m], td_next_id := Suc (td_next_id s)\<rparr>)"
  shows "ensures (membership_create env org oid userId roleId inviterId) Q s"
  unfolding membership_create_def insert_membership_def
  by (rule ensures_checked_insert_retry, fold insert_membership_def, intro ensures_intros, rule assms)
     (simp_all add: live_membership_def)

lemma ensures_emit [ensures_intros]:
  assumes "\<And>evs. Q () (s\<lparr>td_events := evs\<rparr>)"
  shows "ensures (emitStrict env e) Q s"
  unfolding emitStrict_def by (intro ensures_intros ensures_sql) (use assms in auto)

lemma ensures_invitation_create [ensures_intros]:
  assumes "\<And>i t'. Q i (s\<lparr>td_invitations := t', td_next_id := Suc (td_next_id s)\<rparr>)"
  shows "ensures (invitation_create env org membershipId email tokenHash inviterId expiresAt) Q s"
  unfolding invitation_create_def insert_invitation_def
  by (rule ensures_checked_insert_retry, fold insert_invitation_def, rule ensures_insert_invitation) (rule assms)

lemma ensures_create_invitation [ensures_intros]:
  assumes "\<And>i t' evs. Q i (s\<lparr>td_invitations := t', td_next_id := Suc (td_next_id s), td_events := evs\<rparr>)"
  shows "ensures (createForMembership env org oid membershipId email days inviterId) Q s"
  unfolding createForMembership_def by (intro ensures_intros) (use assms in auto)

lemma ensures_locale [ensures_intros]: "Q () s \<Longrightarrow> ensures (applyOrganizationLocaleDefaults env) Q s"
  unfolding applyOrganizationLocaleDefaults_def by (intro ensures_intros)

lemma ensures_seat_available [ensures_intros]:
  assumes "(\<And>c. seat_ceiling (te_billing env) org oid (td_billing s) = Some c \<Longrightarrow> int (countActiveByOrganization org oid s) < c) \<Longrightarrow> Q () s"
  shows "ensures (assertSeatAvailableForMemberAdd env org oid) Q s"
  unfolding assertSeatAvailableForMemberAdd_def by (intro ensures_intros) (use assms in auto)

text \<open>Adding a member: the role is a live one of the organization, the caller holds its permissions, there is a
  seat, and the row that appears is an invited one.\<close>

lemma ensures_add_member:
  assumes "\<And>m o' r t' evs. findOrganization org (td_billing s) = Some o' \<Longrightarrow> r \<in> set (td_roles s) \<Longrightarrow>
      in_organization org s (ro_organization_id r) \<Longrightarrow> live_role r \<Longrightarrow> ro_organization_id r = og_id o' \<Longrightarrow>
      may_grant caller org s (listed_codes s (ro_id r)) \<Longrightarrow>
      (\<And>c. seat_ceiling (te_billing env) org (og_id o') (td_billing s) = Some c \<Longrightarrow> int (countActiveByOrganization org (og_id o') s) < c) \<Longrightarrow>
      mb_id m = td_next_id s \<Longrightarrow> mb_user_id m = us_id invitee \<Longrightarrow> mb_organization_id m = og_id o' \<Longrightarrow> mb_role_id m = ro_id r \<Longrightarrow>
      mb_status m = ''INVITED'' \<Longrightarrow> live_membership m \<Longrightarrow> membership_index (td_memberships s @ [m]) = None \<Longrightarrow>
      Q m (s\<lparr>td_memberships := td_memberships s @ [m], td_invitations := t', td_next_id := Suc (Suc (td_next_id s)), td_events := evs\<rparr>)"
  shows "ensures (add_member env org caller invitee rolePublicId days) Q s"
  unfolding add_member_def
proof (intro ensures_intros, goal_cases)
  case (1 o' r o2 codes inviterId m i t' evs)
  then have "role_in_organization org s (ro_id r)" by (auto simp: role_in_organization_def)
  with 1 show ?case using assms [of o2 r m evs t'] by simp
qed

lemma ensures_grantable_role [ensures_intros]:
  assumes "Q None s" and "\<And>r o'. rolePublicId \<noteq> None \<Longrightarrow> findOrganization org (td_billing s) = Some o' \<Longrightarrow> r \<in> set (td_roles s) \<Longrightarrow>
      in_organization org s (ro_organization_id r) \<Longrightarrow> live_role r \<Longrightarrow> ro_organization_id r = og_id o' \<Longrightarrow>
      may_grant caller org s (listed_codes s (ro_id r)) \<Longrightarrow>
      Q (Some (ro_id r)) s"
  shows "ensures (grantable_role org caller rolePublicId) Q s"
  unfolding grantable_role_def
proof (intro ensures_intros, goal_cases)
  case (2 p r o' codes)
  then have "role_in_organization org s (ro_id r)" by (auto simp: role_in_organization_def)
  with 2 show ?case by (intro assms(2)) auto
qed (rule assms(1))

lemma ensures_update_checks:
  assumes "\<And>o' m roleId. findOrganization org (td_billing s) = Some o' \<Longrightarrow> m \<in> set (td_memberships s) \<Longrightarrow>
      live_membership m \<Longrightarrow> mb_public_id m = publicId \<Longrightarrow> mb_organization_id m = og_id o' \<Longrightarrow> og_owner_user_id o' \<noteq> mb_user_id m \<Longrightarrow>
      (status = Some ''ACTIVE'' \<Longrightarrow> mb_joined_at m \<noteq> None) \<Longrightarrow>
      (status = Some ''ACTIVE'' \<Longrightarrow> mb_status m \<noteq> ''ACTIVE'' \<Longrightarrow>
         \<forall>c. seat_ceiling (te_billing env) org (og_id o') (td_billing s) = Some c \<longrightarrow> int (countActiveByOrganization org (og_id o') s) < c) \<Longrightarrow>
      (\<And>i. roleId = Some i \<Longrightarrow> \<exists>r \<in> set (td_roles s). ro_id r = i \<and> ro_organization_id r = og_id o' \<and> live_role r \<and>
         may_grant caller org s (listed_codes s i)) \<Longrightarrow>
      Q (o', m, roleId) s"
  shows "ensures (update_checks env org caller publicId status rolePublicId) Q s"
  unfolding update_checks_def
  by (intro ensures_intros assms) auto

end
