(* ===== verification/Organizations.thy ===== *)
theory Organizations
  imports Memberships
begin

text \<open>
  The life of an organization: \<^verbatim>\<open>src/src/domains/tenancy/sub-domains/organization/organization-provisioning.ts\<close>
  (creation with its owner, roles and grants) and the mutations of \<^verbatim>\<open>organization.service.ts\<close>.  Last, every
  request that changes a tenant as one datatype, and what holds through any sequence of them.
\<close>

section \<open>Permission codes\<close>

definition TENANCY_PERMISSIONS :: "string list" where
  "TENANCY_PERMISSIONS = [''organization:read'', ''organization:update'', ''organization:delete'', ''membership:read'',
     ''membership:manage'', ''invitation:manage'', ''role:read'', ''role:manage'', ''api-key:read'', ''api-key:manage'',
     ''notification-policy:read'', ''notification-policy:manage'']"

definition AUDIT_PERMISSIONS :: "string list" where "AUDIT_PERMISSIONS = [''audit-log:read'']"

definition UPLOAD_PERMISSIONS :: "string list" where "UPLOAD_PERMISSIONS = [''upload:manage'']"

definition NOTIFY_PERMISSIONS :: "string list" where "NOTIFY_PERMISSIONS = [''webhook:read'', ''webhook:manage'']"

definition ownerPermissionCodesForOrganizationType :: "string \<Rightarrow> string list" where
  "ownerPermissionCodesForOrganizationType type =
     (let everyOwnerCodes = TENANCY_PERMISSIONS @ AUDIT_PERMISSIONS @ UPLOAD_PERMISSIONS @ [''subscription:read'']
      in if type = ''TEAM'' then everyOwnerCodes @ [''subscription:manage''] @ NOTIFY_PERMISSIONS else everyOwnerCodes)"

definition DEFAULT_TEAM_ROLES :: "(string \<times> string \<times> string list) list" where
  "DEFAULT_TEAM_ROLES =
     [(''Admin'', ''Run the organization: members, roles, invitations, API keys, webhooks, billing and audit logs. Cannot delete the organization.'',
       [''organization:read'', ''organization:update'', ''membership:read'', ''membership:manage'', ''invitation:manage'',
        ''role:read'', ''role:manage'', ''api-key:read'', ''api-key:manage'', ''notification-policy:read'',
        ''notification-policy:manage'', ''subscription:read'', ''subscription:manage'', ''webhook:read'', ''webhook:manage'',
        ''audit-log:read'', ''upload:manage'']),
      (''Member'', ''Read organization data and view members and roles.'', [''organization:read'', ''membership:read'', ''role:read'']),
      (''Viewer'', ''Read-only access to the organization and its members.'', [''organization:read'', ''membership:read''])]"

section \<open>Organization rows\<close>

definition organization_check :: "OrganizationRow \<Rightarrow> string option" where
  "organization_check o' =
     (if og_status o' \<notin> {''ACTIVE'', ''SUSPENDED'', ''ARCHIVED''} then Some ''chk_organizations_status''
      else if og_type o' \<notin> {''PERSONAL'', ''TEAM''} then Some ''chk_organizations_type''
      else if (case og_slug o' of None \<Rightarrow> False
          | Some s \<Rightarrow> s = [] \<or> \<not> list_all (\<lambda>c. is_lower c \<or> is_digit c \<or> c = CHR ''-'') s) then Some ''chk_organizations_slug''
      else None)"

definition organization_index :: "OrganizationRow tbl \<Rightarrow> string option" where
  "organization_index t =
     (if \<not> distinct (map og_public_id t) then Some ''idx_organizations_public_id''
      else if \<not> distinct (List.map_filter (\<lambda>o'. if og_deleted_at o' = None then og_slug o' else None) t)
        then Some ''idx_organizations_slug''
      else if \<not> distinct (map og_owner_user_id (filter (\<lambda>o'. og_type o' = ''PERSONAL'') t))
        then Some ''idx_org_one_personal_per_owner''
      else None)"

definition put_organizations :: "OrganizationRow tbl \<Rightarrow> TenancyDb \<Rightarrow> TenancyDb" where
  "put_organizations t d = d\<lparr>td_billing := (td_billing d)\<lparr>bd_organizations := t\<rparr>\<rparr>"

definition update_organization ::
    "(OrganizationRow \<Rightarrow> bool) \<Rightarrow> (OrganizationRow \<Rightarrow> OrganizationRow) \<Rightarrow> (TenancyDb, OrganizationRow option) db" where
  "update_organization p f = act_bind (checked_update organization_check organization_index
       (\<lambda>d. bd_organizations (td_billing d)) put_organizations (\<lambda>d. p) f)
     (\<lambda>rows. act_return (rows0 rows))"

definition current_organization :: "string \<Rightarrow> OrganizationRow \<Rightarrow> bool" where
  "current_organization org o' \<longleftrightarrow> og_public_id o' = org \<and> og_deleted_at o' = None"

definition organization_update ::
    "string \<Rightarrow> string option \<Rightarrow> string option \<Rightarrow> string option \<Rightarrow> (TenancyDb, OrganizationRow option) db" where
  "organization_update org name slug status = update_organization (current_organization org)
     (\<lambda>o'. o'\<lparr>og_name := (case name of None \<Rightarrow> og_name o' | Some x \<Rightarrow> x),
            og_slug := (case slug of None \<Rightarrow> og_slug o' | Some x \<Rightarrow> Some x),
            og_status := (case status of None \<Rightarrow> og_status o' | Some x \<Rightarrow> x)\<rparr>)"

definition organization_markDeletionStarted :: "TenancyEnv \<Rightarrow> string \<Rightarrow> (TenancyDb, OrganizationRow option) db" where
  "organization_markDeletionStarted env org = update_organization (current_organization org)
     (\<lambda>o'. o'\<lparr>og_deletion_started_at := Some (te_now env)\<rparr>)"

definition organization_softDelete :: "TenancyEnv \<Rightarrow> string \<Rightarrow> (TenancyDb, OrganizationRow option) db" where
  "organization_softDelete env org = update_organization
     (\<lambda>o'. current_organization org o' \<and> og_deletion_started_at o' \<noteq> None)
     (\<lambda>o'. o'\<lparr>og_deleted_at := Some (te_now env)\<rparr>)"

definition findBySlug :: "string \<Rightarrow> TenancyDb \<Rightarrow> OrganizationRow option" where
  "findBySlug slug d = select_first (\<lambda>o'. og_slug o' = Some slug \<and> og_deleted_at o' = None) (bd_organizations (td_billing d))"

definition countActiveOwnedByUser :: "nat \<Rightarrow> TenancyDb \<Rightarrow> nat" where
  "countActiveOwnedByUser ownerId d = length (filter (\<lambda>o'. og_owner_user_id o' = ownerId \<and> og_type o' = ''TEAM'' \<and>
     og_deleted_at o' = None) (bd_organizations (td_billing d)))"

section \<open>Provisioning\<close>

definition insert_organization :: "(nat \<Rightarrow> OrganizationRow) \<Rightarrow> (TenancyDb, OrganizationRow) db" where
  "insert_organization = checked_insert organization_check organization_index (\<lambda>d. bd_organizations (td_billing d))
     put_organizations (\<lambda>d o'. None)"

definition insert_system_role :: "TenancyEnv \<Rightarrow> string \<Rightarrow> nat \<Rightarrow> nat \<Rightarrow> string \<Rightarrow> string option \<Rightarrow> (TenancyDb, MemberRoleRow) db" where
  "insert_system_role env org oid k name description = insert_role org (\<lambda>i.
     \<lparr>ro_id = i, ro_public_id = te_roleIds env k, ro_organization_id = oid, ro_name = name, ro_description = description,
      ro_is_system = True, ro_deleted_at = None, ro_created_at = te_now env, ro_updated_at = te_now env\<rparr>)"

definition insert_role_permissions :: "string \<Rightarrow> nat \<Rightarrow> string list \<Rightarrow> (TenancyDb, unit) db" where
  "insert_role_permissions org roleId codes = sql (\<lambda>d. let t' = td_role_permissions d @ map (Pair roleId) codes
     in if \<not> role_in_organization org d roleId then Inl (Sql_check ''role_permissions_tenant_isolation'')
        else if \<not> distinct t' then Inl (Sql_unique ''pk_role_permissions'')
        else if \<not> list_all (\<lambda>c. c \<in> set (td_permissions d)) codes then Inl (Sql_check ''role_permissions_permission_code_fk'')
        else Inr ((), d\<lparr>td_role_permissions := t'\<rparr>))"

primrec provision_default_roles ::
    "TenancyEnv \<Rightarrow> string \<Rightarrow> nat \<Rightarrow> nat \<Rightarrow> (string \<times> string \<times> string list) list \<Rightarrow> (TenancyDb, unit) db" where
  "provision_default_roles env org oid k [] = act_return ()"
| "provision_default_roles env org oid k (x # xs) =
     act_bind (insert_system_role env org oid k (fst x) (Some (fst (snd x)))) (\<lambda>r.
     act_bind (insert_role_permissions org (ro_id r) (snd (snd x))) (\<lambda>_.
       provision_default_roles env org oid (Suc k) xs))"

definition owner_membership :: "TenancyEnv \<Rightarrow> nat \<Rightarrow> nat \<Rightarrow> nat \<Rightarrow> nat \<Rightarrow> MembershipRow" where
  "owner_membership env ownerId oid roleId i = \<lparr>mb_id = i, mb_public_id = te_membershipId env, mb_user_id = ownerId,
     mb_organization_id = oid, mb_role_id = roleId, mb_status = ''ACTIVE'', mb_invited_by_user_id = None,
     mb_joined_at = Some (te_jsNow env), mb_deleted_at = None, mb_created_at = te_now env, mb_updated_at = te_now env\<rparr>"

definition provisionOrganization :: "TenancyEnv \<Rightarrow> string \<Rightarrow> string option \<Rightarrow> string \<Rightarrow> nat \<Rightarrow> (TenancyDb, OrganizationRow) db" where
  "provisionOrganization env name slug type ownerId =
     (let org = te_publicId env 1 in
      act_bind (insert_organization (\<lambda>i. \<lparr>og_id = i, og_public_id = org, og_name = name, og_slug = slug, og_type = type,
          og_owner_user_id = ownerId, og_status = ''ACTIVE'', og_stripe_customer_id = None,
          og_deletion_started_at = None, og_deleted_at = None\<rparr>)) (\<lambda>o'.
      act_bind (insert_system_role env org (og_id o') 0 ''Owner'' None) (\<lambda>role.
      act_bind (insert_role_permissions org (ro_id role) (ownerPermissionCodesForOrganizationType type)) (\<lambda>_.
      act_bind (insert_membership org (owner_membership env ownerId (og_id o') (ro_id role))) (\<lambda>_.
      act_bind (if type = ''TEAM'' then provision_default_roles env org (og_id o') 1 DEFAULT_TEAM_ROLES else act_return ())
        (\<lambda>_. act_return o'))))))"

definition provisionPersonalOrganization :: "TenancyEnv \<Rightarrow> nat \<Rightarrow> OrganizationRow tenancy" where
  "provisionPersonalOrganization env ownerId =
     tenant_transaction (provisionOrganization env ''Personal'' None ''PERSONAL'' ownerId)"

section \<open>Organization service\<close>

definition organizationSlugExists :: thrown where
  "organizationSlugExists = App (ConflictError ''errors:organizationSlugExists'')"

text \<open>The checks run in a transaction of the owner's scope; the provisioning opens its own.\<close>

definition organization_create :: "TenancyEnv \<Rightarrow> string \<Rightarrow> string \<Rightarrow> string \<Rightarrow> OrganizationRow tenancy" where
  "organization_create env ownerPublicId name slug =
     (if \<not> te_teamOrganizationEnabled env then act_throw (App (ForbiddenError ''errors:teamOrganizationsDisabled''))
      else act_bind (tenant_transaction (
        act_bind (sql_read (resolveUserInternalIdByPublicId (Some ownerPublicId))) (\<lambda>owner. case owner of
            None \<Rightarrow> act_throw (App (NotFoundError ''User''))
          | Some ownerId \<Rightarrow> act_bind (sql_read (countActiveOwnedByUser ownerId)) (\<lambda>owned.
              if owned \<ge> te_maxTeamOrganizations env then act_throw (App (ConflictError ''errors:maxTeamOrganizationsReached''))
              else act_bind (sql_read (findBySlug slug)) (\<lambda>existing.
                if existing \<noteq> None then act_throw organizationSlugExists else act_return ownerId))))) (\<lambda>ownerId.
      act_catch (tenant_transaction (provisionOrganization env name (Some slug) ''TEAM'' ownerId))
        (\<lambda>e. act_throw (if isPostgresUniqueViolation e then organizationSlugExists else e))))"

definition organization_service_update ::
    "string \<Rightarrow> string option \<Rightarrow> string option \<Rightarrow> string option \<Rightarrow> OrganizationRow tenancy" where
  "organization_service_update org name slug status = tenant_transaction (
     act_bind (requireOrganizationRecordByPublicId org) (\<lambda>o'.
     act_bind (sql_read (\<lambda>d. case slug of None \<Rightarrow> None | Some s \<Rightarrow> findBySlug s d)) (\<lambda>existing.
       if (case existing of None \<Rightarrow> False | Some x \<Rightarrow> og_public_id x \<noteq> org) then act_throw organizationSlugExists
       else act_bind (act_catch (organization_update org name slug status)
           (\<lambda>e. act_throw (if slug \<noteq> None \<and> isPostgresUniqueViolation e then organizationSlugExists else e)))
         (\<lambda>updated. case updated of None \<Rightarrow> act_throw (App (NotFoundError ''Organization'')) | Some x \<Rightarrow> act_return x))))"

definition begin_offboarding :: "TenancyEnv \<Rightarrow> string \<Rightarrow> (TenancyDb, unit) db" where
  "begin_offboarding env org =
     act_bind (requireOrganizationRecordByPublicId org) (\<lambda>found.
     act_bind (assert_team found ''errors:personalOrganizationImmutable'') (\<lambda>_.
     act_bind (organization_markDeletionStarted env org) (\<lambda>marked.
       if marked = None \<and> og_deletion_started_at found = None then act_throw (App (NotFoundError ''Organization''))
       else act_return ())))"

text \<open>\<^verbatim>\<open>clearOrganizationLogoStorage\<close> deletes the stored object outside the database and needs the row to be there
  still; the logo column is not modelled.\<close>

definition organization_delete :: "TenancyEnv \<Rightarrow> string \<Rightarrow> unit tenancy" where
  "organization_delete env org =
     act_bind (tenant_transaction (begin_offboarding env org)) (\<lambda>_.
     act_bind (tenant_transaction (act_bind (organization_update org None None None) (\<lambda>updated.
       if updated = None then act_throw (App (NotFoundError ''Organization'')) else act_return ()))) (\<lambda>_.
     act_bind (case te_uploadsFail env of Some e \<Rightarrow> act_throw e | None \<Rightarrow> act_return ()) (\<lambda>_.
     act_bind (billing_call (cancelActiveForOrganizationOffboarding (te_billing env) org)) (\<lambda>_.
     act_bind (tenant_transaction (act_bind (organization_softDelete env org) (\<lambda>deleted.
       if deleted = None then act_throw (App (NotFoundError ''Organization'')) else act_return ()))) (\<lambda>_.
     invalidate (invalidateOrganizationPermissions org))))))"

section \<open>Every request\<close>

datatype TenancyRequest =
    AddMember "string option" string string nat                          \<comment> \<open>caller, address, role, days\<close>
  | UpdateMember "string option" string "string option" "string option"  \<comment> \<open>caller, membership, status, role\<close>
  | RemoveMember string
  | Leave string
  | TransferOwnership string string                                      \<comment> \<open>new owner, caller\<close>
  | SuspendExcess int
  | AcceptInvitation string string string                                \<comment> \<open>invitation, token, acting user\<close>
  | RevokeInvitation string
  | ResendInvitation string nat
  | CreateRole "string option" string "string option" "string list"
  | UpdateRole string "string option" "string option option"
  | DeleteRole string
  | PutRolePermissions "string option" string "string list"
  | CreateApiKey string string "string list" "nat option"
  | UpdateApiKey string "string option" "string option"
  | DeleteApiKey string
  | RotateApiKey string string
  | CreateOrganization string string string
  | CreatePersonal nat
  | UpdateOrganization "string option" "string option" "string option"
  | DeleteOrganization

fun tenancy_request :: "TenancyEnv \<Rightarrow> string \<Rightarrow> TenancyRequest \<Rightarrow> unit tenancy" where
  "tenancy_request env org (AddMember caller email role days) = discard (membership_service_create env org caller email role days)"
| "tenancy_request env org (UpdateMember caller m status role) = discard (membership_service_update env org caller m status role)"
| "tenancy_request env org (RemoveMember m) = membership_service_delete env org m"
| "tenancy_request env org (Leave user) = leaveOrganization env org user"
| "tenancy_request env org (TransferOwnership new caller) = discard (transferOwnership org new caller)"
| "tenancy_request env org (SuspendExcess ceiling) = discard (suspendExcessActiveMembersToFitCeiling env org ceiling)"
| "tenancy_request env org (AcceptInvitation i token user) = discard (member_invitation_accept env i token user)"
| "tenancy_request env org (RevokeInvitation i) = member_invitation_revoke env org i"
| "tenancy_request env org (ResendInvitation i days) = discard (member_invitation_resend env org i days)"
| "tenancy_request env org (CreateRole caller name description codes) = discard (member_role_create env org caller name description codes)"
| "tenancy_request env org (UpdateRole role name description) = discard (member_role_update env org role name description)"
| "tenancy_request env org (DeleteRole role) = member_role_delete env org role"
| "tenancy_request env org (PutRolePermissions caller role codes) = member_role_permission_put org caller role codes"
| "tenancy_request env org (CreateApiKey caller name scopes days) = discard (api_key_service_create env org caller name scopes days)"
| "tenancy_request env org (UpdateApiKey k name status) = discard (api_key_update env org k name status)"
| "tenancy_request env org (DeleteApiKey k) = api_key_delete env org k"
| "tenancy_request env org (RotateApiKey caller k) = discard (api_key_rotate env org caller k)"
| "tenancy_request env org (CreateOrganization owner name slug) = discard (organization_create env owner name slug)"
| "tenancy_request env org (CreatePersonal owner) = discard (provisionPersonalOrganization env owner)"
| "tenancy_request env org (UpdateOrganization name slug status) = discard (organization_service_update org name slug status)"
| "tenancy_request env org DeleteOrganization = organization_delete env org"

definition tenancy_requests :: "(TenancyEnv \<times> string \<times> TenancyRequest) list \<Rightarrow> TenancyWorld \<Rightarrow> TenancyWorld" where
  "tenancy_requests rs w = foldl (\<lambda>w (env, org, r). snd (tenancy_request env org r w)) w rs"

section \<open>Demonstration data\<close>

text \<open>An organization with its owner (user 1) and an active administrator (user 2), and the account of user 3.\<close>

definition demo_membership :: "nat \<Rightarrow> string \<Rightarrow> nat \<Rightarrow> nat \<Rightarrow> MembershipRow" where
  "demo_membership i publicId user role = \<lparr>mb_id = i, mb_public_id = publicId, mb_user_id = user, mb_organization_id = 7,
     mb_role_id = role, mb_status = ''ACTIVE'', mb_invited_by_user_id = None, mb_joined_at = Some 10, mb_deleted_at = None,
     mb_created_at = 5, mb_updated_at = 5\<rparr>"

definition demo_role :: "nat \<Rightarrow> string \<Rightarrow> string \<Rightarrow> bool \<Rightarrow> MemberRoleRow" where
  "demo_role i publicId name system = \<lparr>ro_id = i, ro_public_id = publicId, ro_organization_id = 7, ro_name = name,
     ro_description = None, ro_is_system = system, ro_deleted_at = None, ro_created_at = 5, ro_updated_at = 5\<rparr>"

definition demo_tenancy_db :: TenancyDb where
  "demo_tenancy_db = \<lparr>td_billing = demo_billing [],
     td_users = [demo_user, demo_user\<lparr>us_id := 2, us_public_id := ''usr_2'', us_email := ''b''\<rparr>,
       demo_user\<lparr>us_id := 3, us_public_id := ''usr_3'', us_email := ''c''\<rparr>],
     td_permissions = [''organization:delete'', ''membership:manage'', ''role:manage'', ''membership:read''],
     td_category = takeWhile (\<lambda>c. c \<noteq> CHR '':''),
     td_roles = [demo_role 20 ''rol_owner'' ''Owner'' True, demo_role 21 ''rol_admin'' ''Admin'' True, demo_role 22 ''rol_ops'' ''Ops'' False],
     td_role_permissions = [(20, ''organization:delete''), (20, ''membership:manage''), (20, ''role:manage''), (20, ''membership:read''),
       (21, ''membership:manage''), (21, ''role:manage''), (21, ''membership:read''), (22, ''membership:read'')],
     td_memberships = [demo_membership 30 ''mem_1'' 1 20, demo_membership 31 ''mem_2'' 2 21],
     td_invitations = [], td_api_keys = [], td_next_id = 40, td_events = []\<rparr>"

definition demo_tenancy_world :: TenancyWorld where
  "demo_tenancy_world = \<lparr>tw_db = demo_tenancy_db, tw_invalidations = [], tw_seat_jobs = [], tw_stripe = []\<rparr>"

definition demo_tenancy_env :: TenancyEnv where
  "demo_tenancy_env = \<lparr>te_now = 500, te_jsNow = 505, te_timeZone = utc, te_publicId = (\<lambda>n. ''new_row''), te_invitationId = (\<lambda>n. ''inv_1''),
     te_userId = (\<lambda>n. ''usr_9''), te_roleIds = (\<lambda>n. ''rol_'' @ replicate n CHR ''x''), te_membershipId = ''mem_9'',
     te_token = ''tok'', te_rawKey = ''key_abcdefgh'', te_sha256 = (\<lambda>x. ''sha256:'' @ x), te_isDisposable = (\<lambda>_. False),
     te_billing = demo_billing_env, te_emitFails = None, te_localeFails = None, te_uploadsFail = None, te_seatQueueUp = True,
     te_invitationMaxPending = 50, te_memberRoleMax = 50, te_apiKeyMax = 20, te_maxTeamOrganizations = 5,
     te_teamOrganizationEnabled = True\<rparr>"

definition demo_run :: "TenancyRequest list \<Rightarrow> TenancyWorld" where
  "demo_run rs = tenancy_requests (map (\<lambda>r. (demo_tenancy_env, ''org_a'', r)) rs) demo_tenancy_world"

end
