(* ===== verification/Tenant_Integrity.thy ===== *)
theory Tenant_Integrity
  imports Organizations
begin

text \<open>
  What no sequence of tenancy requests breaks: keys stay unique, a live organization keeps an active
  membership of its owner, and a live membership keeps a live role of its own organization.  Each statement
  that could break it is one lemma over tables; the requests are peeled to those lemmas by the rules of
  \<^const>\<open>ensures\<close>.
\<close>

section \<open>The invariant\<close>

definition keys_ok :: "OrganizationRow tbl \<Rightarrow> MemberRoleRow tbl \<Rightarrow> MembershipRow tbl \<Rightarrow> nat \<Rightarrow> bool" where
  "keys_ok os rs ms n \<longleftrightarrow> distinct (map og_id os) \<and> distinct (map ro_id rs) \<and> distinct (map mb_id ms) \<and>
     distinct (map mb_public_id ms) \<and>
     (\<forall>o' \<in> set os. og_id o' < n) \<and> (\<forall>r \<in> set rs. ro_id r < n) \<and> (\<forall>m \<in> set ms. mb_id m < n)"

definition active_member :: "nat \<Rightarrow> nat \<Rightarrow> MembershipRow \<Rightarrow> bool" where
  "active_member user oid m \<longleftrightarrow> mb_user_id m = user \<and> mb_organization_id m = oid \<and> mb_status m = ''ACTIVE'' \<and> live_membership m"

definition owners_ok :: "OrganizationRow tbl \<Rightarrow> MembershipRow tbl \<Rightarrow> bool" where
  "owners_ok os ms \<longleftrightarrow> (\<forall>o' \<in> set os. og_deleted_at o' = None \<longrightarrow>
     (\<exists>m \<in> set ms. active_member (og_owner_user_id o') (og_id o') m))"

definition roles_ok :: "MemberRoleRow tbl \<Rightarrow> MembershipRow tbl \<Rightarrow> bool" where
  "roles_ok rs ms \<longleftrightarrow> (\<forall>m \<in> set ms. live_membership m \<longrightarrow>
     (\<exists>r \<in> set rs. ro_id r = mb_role_id m \<and> ro_organization_id r = mb_organization_id m \<and> live_role r))"

definition tenant_rows_ok :: "OrganizationRow tbl \<Rightarrow> MemberRoleRow tbl \<Rightarrow> MembershipRow tbl \<Rightarrow> nat \<Rightarrow> bool" where
  "tenant_rows_ok os rs ms n \<longleftrightarrow> keys_ok os rs ms n \<and> owners_ok os ms \<and> roles_ok rs ms"

definition tenant_ok :: "TenancyDb \<Rightarrow> bool" where
  "tenant_ok d \<longleftrightarrow> tenant_rows_ok (bd_organizations (td_billing d)) (td_roles d) (td_memberships d) (td_next_id d)"

lemma tenant_ok_parts:
  assumes "tenant_ok d"
  shows "keys_ok (bd_organizations (td_billing d)) (td_roles d) (td_memberships d) (td_next_id d)"
    and "owners_ok (bd_organizations (td_billing d)) (td_memberships d)" and "roles_ok (td_roles d) (td_memberships d)"
  using assms by (simp_all add: tenant_ok_def tenant_rows_ok_def)

lemma in_organizationD:
  assumes "in_organization org d i"
  obtains o' where "findOrganization org (td_billing d) = Some o'" and "og_id o' = i"
    and "o' \<in> set (bd_organizations (td_billing d))" and "og_deleted_at o' = None"
  using assms by (auto simp: in_organization_def findOrganization_def dest!: select_first_Some_iff split: option.splits)

lemma findOrganizationD:
  assumes "findOrganization org b = Some o'"
  shows "o' \<in> set (bd_organizations b)" and "og_deleted_at o' = None" and "og_public_id o' = org"
  using select_first_Some_iff [OF assms [unfolded findOrganization_def]] by auto

lemma distinct_key_eq: "distinct (map k t) \<Longrightarrow> x \<in> set t \<Longrightarrow> y \<in> set t \<Longrightarrow> k x = k y \<Longrightarrow> x = y"
  by (auto simp: distinct_map inj_on_def)

section \<open>Statements over memberships\<close>

text \<open>An update that keeps keys, user and organization, spares the owners' rows, and either keeps the role or
  moves to a live one.\<close>

lemma tenant_ok_update_memberships:
  assumes ok: "tenant_ok d"
    and keep: "\<And>m. mb_id (f m) = mb_id m" "\<And>m. mb_public_id (f m) = mb_public_id m"
      "\<And>m. mb_user_id (f m) = mb_user_id m" "\<And>m. mb_organization_id (f m) = mb_organization_id m"
    and owners: "\<And>m o'. m \<in> set (td_memberships d) \<Longrightarrow> p m \<Longrightarrow> o' \<in> set (bd_organizations (td_billing d)) \<Longrightarrow>
        og_deleted_at o' = None \<Longrightarrow> active_member (og_owner_user_id o') (og_id o') m \<Longrightarrow>
        mb_status (f m) = ''ACTIVE'' \<and> live_membership (f m)"
    and roles: "\<And>m. m \<in> set (td_memberships d) \<Longrightarrow> p m \<Longrightarrow> live_membership (f m) \<Longrightarrow>
        live_membership m \<and> (mb_role_id (f m) = mb_role_id m \<or>
          (\<exists>r \<in> set (td_roles d). ro_id r = mb_role_id (f m) \<and> ro_organization_id r = mb_organization_id m \<and> live_role r))"
  shows "tenant_ok (d\<lparr>td_memberships := update_where p f (td_memberships d)\<rparr>)"
proof -
  note parts = tenant_ok_parts [OF ok]
  have "keys_ok (bd_organizations (td_billing d)) (td_roles d) (update_where p f (td_memberships d)) (td_next_id d)"
    using parts(1) keep by (auto simp: keys_ok_def update_where_key set_update_where)
  moreover have "owners_ok (bd_organizations (td_billing d)) (update_where p f (td_memberships d))"
    unfolding owners_ok_def
  proof (intro ballI impI)
    fix o' assume o: "o' \<in> set (bd_organizations (td_billing d))" "og_deleted_at o' = None"
    then obtain m where m: "m \<in> set (td_memberships d)" "active_member (og_owner_user_id o') (og_id o') m"
      using parts(2) by (auto simp: owners_ok_def)
    let ?m = "if p m then f m else m"
    have "active_member (og_owner_user_id o') (og_id o') ?m"
      using m(2) owners [OF m(1) _ o m(2)] keep by (auto simp: active_member_def)
    moreover have "?m \<in> set (update_where p f (td_memberships d))" using m(1) unfolding set_update_where by blast
    ultimately show "\<exists>m \<in> set (update_where p f (td_memberships d)). active_member (og_owner_user_id o') (og_id o') m"
      by blast
  qed
  moreover have "roles_ok (td_roles d) (update_where p f (td_memberships d))"
    unfolding roles_ok_def set_update_where
  proof (intro ballI impI)
    fix x assume "x \<in> (\<lambda>r. if p r then f r else r) ` set (td_memberships d)" and live: "live_membership x"
    then obtain m where m: "m \<in> set (td_memberships d)" "x = (if p m then f m else m)" by auto
    have old: "\<exists>r \<in> set (td_roles d). ro_id r = mb_role_id m \<and> ro_organization_id r = mb_organization_id m \<and> live_role r"
      if "live_membership m" using parts(3) m(1) that by (auto simp: roles_ok_def)
    show "\<exists>r \<in> set (td_roles d). ro_id r = mb_role_id x \<and> ro_organization_id r = mb_organization_id x \<and> live_role r"
    proof (cases "p m")
      case True
      with m live roles [OF m(1) True] old keep(4) show ?thesis by auto
    next
      case False
      with m live old show ?thesis by auto
    qed
  qed
  ultimately show ?thesis by (simp add: tenant_ok_def tenant_rows_ok_def)
qed

lemma tenant_ok_insert_membership:
  assumes ok: "tenant_ok d" and row: "mb_id m = td_next_id d"
    and index: "membership_index (td_memberships d @ [m]) = None"
    and role: "\<exists>r \<in> set (td_roles d). ro_id r = mb_role_id m \<and> ro_organization_id r = mb_organization_id m \<and> live_role r"
  shows "tenant_ok (d\<lparr>td_memberships := td_memberships d @ [m], td_next_id := Suc (td_next_id d)\<rparr>)"
proof -
  have new: "distinct (map mb_public_id (td_memberships d @ [m]))"
    using index by (simp add: membership_index_def split: if_splits)
  have "keys_ok (bd_organizations (td_billing d)) (td_roles d) (td_memberships d @ [m]) (Suc (td_next_id d))"
    using tenant_ok_parts(1) [OF ok] row new unfolding keys_ok_def
    by (simp add: less_Suc_eq image_iff) (metis less_irrefl)
  moreover have "owners_ok (bd_organizations (td_billing d)) (td_memberships d @ [m])"
    using tenant_ok_parts(2) [OF ok] unfolding owners_ok_def set_append by blast
  moreover have "roles_ok (td_roles d) (td_memberships d @ [m])"
    using tenant_ok_parts(3) [OF ok] role unfolding roles_ok_def by simp
  ultimately show ?thesis by (simp add: tenant_ok_def tenant_rows_ok_def)
qed

section \<open>Statements over roles and organizations\<close>

lemma tenant_ok_update_roles:
  assumes ok: "tenant_ok d"
    and keep: "\<And>r. ro_id (f r) = ro_id r" "\<And>r. ro_organization_id (f r) = ro_organization_id r"
    and live: "\<And>r m. r \<in> set (td_roles d) \<Longrightarrow> p r \<Longrightarrow> live_role r \<Longrightarrow> m \<in> set (td_memberships d) \<Longrightarrow> live_membership m \<Longrightarrow>
        mb_role_id m = ro_id r \<Longrightarrow> mb_organization_id m = ro_organization_id r \<Longrightarrow> live_role (f r)"
  shows "tenant_ok (d\<lparr>td_roles := update_where p f (td_roles d)\<rparr>)"
proof -
  note parts = tenant_ok_parts [OF ok]
  have "roles_ok (update_where p f (td_roles d)) (td_memberships d)"
    unfolding roles_ok_def
  proof (intro ballI impI)
    fix m assume m: "m \<in> set (td_memberships d)" "live_membership m"
    then obtain r where r: "r \<in> set (td_roles d)" "ro_id r = mb_role_id m" "ro_organization_id r = mb_organization_id m" "live_role r"
      using parts(3) by (auto simp: roles_ok_def)
    let ?r = "if p r then f r else r"
    have "?r \<in> set (update_where p f (td_roles d))" using r(1) unfolding set_update_where by blast
    moreover have "ro_id ?r = mb_role_id m \<and> ro_organization_id ?r = mb_organization_id m \<and> live_role ?r"
      using r m keep live [OF r(1) _ r(4) m] by auto
    ultimately show "\<exists>r \<in> set (update_where p f (td_roles d)). ro_id r = mb_role_id m \<and>
        ro_organization_id r = mb_organization_id m \<and> live_role r" by blast
  qed
  then show ?thesis
    using parts keep by (auto simp: tenant_ok_def tenant_rows_ok_def keys_ok_def update_where_key set_update_where)
qed

lemma tenant_ok_insert_role:
  assumes "tenant_ok d" and "ro_id r = td_next_id d"
  shows "tenant_ok (d\<lparr>td_roles := td_roles d @ [r], td_next_id := Suc (td_next_id d)\<rparr>)"
proof -
  have "keys_ok (bd_organizations (td_billing d)) (td_roles d @ [r]) (td_memberships d) (Suc (td_next_id d))"
    using tenant_ok_parts(1) [OF assms(1)] assms(2) unfolding keys_ok_def
    by (simp add: less_Suc_eq image_iff) (metis less_irrefl)
  moreover have "roles_ok (td_roles d @ [r]) (td_memberships d)"
    using tenant_ok_parts(3) [OF assms(1)] unfolding roles_ok_def set_append by blast
  ultimately show ?thesis using tenant_ok_parts(2) [OF assms(1)] by (simp add: tenant_ok_def tenant_rows_ok_def)
qed

lemma tenant_ok_update_organizations:
  assumes ok: "tenant_ok d"
    and keep: "\<And>o'. og_id (f o') = og_id o'"
    and owner: "\<And>o'. o' \<in> set (bd_organizations (td_billing d)) \<Longrightarrow> p o' \<Longrightarrow> og_deleted_at (f o') = None \<Longrightarrow>
        og_deleted_at o' = None \<and> (og_owner_user_id (f o') = og_owner_user_id o' \<or>
          (\<exists>m \<in> set (td_memberships d). active_member (og_owner_user_id (f o')) (og_id o') m))"
  shows "tenant_ok (d\<lparr>td_billing := (td_billing d)\<lparr>bd_organizations := update_where p f (bd_organizations (td_billing d))\<rparr>\<rparr>)"
proof -
  note parts = tenant_ok_parts [OF ok]
  have "owners_ok (update_where p f (bd_organizations (td_billing d))) (td_memberships d)"
    unfolding owners_ok_def set_update_where
  proof (intro ballI impI)
    fix x assume "x \<in> (\<lambda>r. if p r then f r else r) ` set (bd_organizations (td_billing d))" and live: "og_deleted_at x = None"
    then obtain o' where o: "o' \<in> set (bd_organizations (td_billing d))" "x = (if p o' then f o' else o')" by auto
    have old: "\<exists>m \<in> set (td_memberships d). active_member (og_owner_user_id o') (og_id o') m" if "og_deleted_at o' = None"
      using parts(2) o(1) that by (auto simp: owners_ok_def)
    show "\<exists>m \<in> set (td_memberships d). active_member (og_owner_user_id x) (og_id x) m"
    proof (cases "p o'")
      case True
      with o live owner [OF o(1) True] old keep show ?thesis by auto
    next
      case False
      with o live old show ?thesis by auto
    qed
  qed
  then show ?thesis
    using parts keep by (auto simp: tenant_ok_def tenant_rows_ok_def keys_ok_def update_where_key set_update_where)
qed

section \<open>The transactions of the requests\<close>

text \<open>What a member patch leaves alone: the owner's row, and the roles that are not live ones of the organization.\<close>

lemma tenant_ok_patch:
  assumes ok: "tenant_ok s" and o: "findOrganization org (td_billing s) = Some o'" and m: "m \<in> set (td_memberships s)"
    and mo: "mb_organization_id m = og_id o'" and owner: "og_owner_user_id o' \<noteq> mb_user_id m"
    and role: "\<And>i. roleId = Some i \<Longrightarrow> \<exists>r \<in> set (td_roles s). ro_id r = i \<and> ro_organization_id r = og_id o' \<and> live_role r"
  shows "tenant_ok (s\<lparr>td_memberships := update_where (\<lambda>x. in_organization org s (mb_organization_id x) \<and>
     mb_public_id x = mb_public_id m \<and> mb_organization_id x = og_id o' \<and> live_membership x)
     (membership_patch env status roleId) (td_memberships s)\<rparr>)"
    (is "tenant_ok (s\<lparr>td_memberships := update_where ?p ?f _\<rparr>)")
proof (rule tenant_ok_update_memberships [OF ok])
  note keys = tenant_ok_parts(1) [OF ok, unfolded keys_ok_def]
  have only: "x = m" if "x \<in> set (td_memberships s)" "?p x" for x
    using that keys m by (blast intro: distinct_key_eq)
  have same: "o2 = o'" if "o2 \<in> set (bd_organizations (td_billing s))" "og_id o2 = og_id o'" for o2
    using that keys findOrganizationD(1) [OF o] by (blast intro: distinct_key_eq)
  show "mb_status (?f x) = ''ACTIVE'' \<and> live_membership (?f x)"
    if "x \<in> set (td_memberships s)" "?p x" "o2 \<in> set (bd_organizations (td_billing s))"
      "active_member (og_owner_user_id o2) (og_id o2) x" for x o2
  proof -
    have "x = m" using only that by blast
    moreover from this have "o2 = o'" using same that mo by (simp add: active_member_def)
    ultimately show ?thesis using that owner by (simp add: active_member_def)
  qed
  show "live_membership x \<and> (mb_role_id (?f x) = mb_role_id x \<or> (\<exists>r \<in> set (td_roles s). ro_id r = mb_role_id (?f x) \<and>
      ro_organization_id r = mb_organization_id x \<and> live_role r))" if "x \<in> set (td_memberships s)" "?p x" for x
    using that(2) role by (cases roleId) (auto simp: membership_patch_def)
qed (simp_all add: membership_patch_def)

lemma ok_update_membership_row:
  assumes ok: "tenant_ok s"
  shows "ensures (update_membership_row env org caller publicId status rolePublicId) (\<lambda>_. tenant_ok) s"
  unfolding update_membership_row_def membership_update_def
  by (intro ensures_intros ensures_update_checks; clarify; rule tenant_ok_patch [OF ok]; fastforce)

text \<open>Removing a member goes through the guard of the statement; suspending, through the choice of the candidates;
  an accepted invitation only touches a row that is not active.\<close>

lemma tenant_ok_soft_delete:
  assumes ok: "tenant_ok s"
  shows "tenant_ok (s\<lparr>td_memberships := update_where (\<lambda>m. in_organization org s (mb_organization_id m) \<and> mb_public_id m = publicId \<and>
     mb_organization_id m = oid \<and> live_membership m \<and>
     \<not> (case findOrganization org (td_billing s) of None \<Rightarrow> False
        | Some o' \<Rightarrow> og_id o' = mb_organization_id m \<and> og_owner_user_id o' = mb_user_id m))
     (\<lambda>m. m\<lparr>mb_deleted_at := Some now, mb_updated_at := now\<rparr>) (td_memberships s)\<rparr>)"
proof (rule tenant_ok_update_memberships [OF ok])
  note keys = tenant_ok_parts(1) [OF ok, unfolded keys_ok_def]
  fix m o2
  assume p: "in_organization org s (mb_organization_id m) \<and> mb_public_id m = publicId \<and>
     mb_organization_id m = oid \<and> live_membership m \<and>
     \<not> (case findOrganization org (td_billing s) of None \<Rightarrow> False
        | Some o' \<Rightarrow> og_id o' = mb_organization_id m \<and> og_owner_user_id o' = mb_user_id m)"
    and o: "o2 \<in> set (bd_organizations (td_billing s))" and am: "active_member (og_owner_user_id o2) (og_id o2) m"
  from p obtain o1 where o1: "findOrganization org (td_billing s) = Some o1" "og_id o1 = mb_organization_id m"
      "o1 \<in> set (bd_organizations (td_billing s))" by (auto elim: in_organizationD)
  have "o2 = o1" using keys o o1 am by (auto simp: active_member_def intro: distinct_key_eq)
  with p o1 am show "mb_status (m\<lparr>mb_deleted_at := Some now, mb_updated_at := now\<rparr>) = ''ACTIVE'' \<and>
      live_membership (m\<lparr>mb_deleted_at := Some now, mb_updated_at := now\<rparr>)"
    by (simp add: active_member_def)
qed (simp_all add: live_membership_def)

lemma tenant_ok_suspend:
  assumes ok: "tenant_ok s" and o: "findOrganization org (td_billing s) = Some o'"
  shows "tenant_ok (s\<lparr>td_memberships := update_where (\<lambda>m. in_organization org s (mb_organization_id m) \<and>
     mb_id m \<in> set (map mb_id (take n (suspension_candidates org (og_id o') (og_owner_user_id o') s))))
     (\<lambda>m. m\<lparr>mb_status := ''SUSPENDED'', mb_updated_at := now\<rparr>) (td_memberships s)\<rparr>)"
proof (rule tenant_ok_update_memberships [OF ok])
  note keys = tenant_ok_parts(1) [OF ok, unfolded keys_ok_def]
  fix m o2
  assume m: "m \<in> set (td_memberships s)" and o2: "o2 \<in> set (bd_organizations (td_billing s))"
    and am: "active_member (og_owner_user_id o2) (og_id o2) m"
    and p: "in_organization org s (mb_organization_id m) \<and>
       mb_id m \<in> set (map mb_id (take n (suspension_candidates org (og_id o') (og_owner_user_id o') s)))"
  then obtain c where "c \<in> set (suspension_candidates org (og_id o') (og_owner_user_id o') s)" "mb_id c = mb_id m"
    by (auto dest: in_set_takeD)
  then have c: "c \<in> set (td_memberships s)" "mb_organization_id c = og_id o'" "mb_user_id c \<noteq> og_owner_user_id o'" "mb_id c = mb_id m"
    by (auto simp: suspension_candidates_def)
  then have "c = m" using keys m by (blast intro: distinct_key_eq)
  moreover from this have "o2 = o'"
    using keys o2 findOrganizationD(1) [OF o] am c by (auto simp: active_member_def intro: distinct_key_eq)
  ultimately show "mb_status (m\<lparr>mb_status := ''SUSPENDED'', mb_updated_at := now\<rparr>) = ''ACTIVE'' \<and>
      live_membership (m\<lparr>mb_status := ''SUSPENDED'', mb_updated_at := now\<rparr>)"
    using c am by (simp add: active_member_def)
qed (simp_all add: live_membership_def)

lemma tenant_ok_provision:
  assumes ok: "tenant_ok s" and o: "og_id o' = td_next_id s" and r: "ro_id r = Suc (td_next_id s)" "ro_organization_id r = og_id o'" "live_role r"
    and m: "mb_id m = Suc (Suc (td_next_id s))" "active_member (og_owner_user_id o') (og_id o') m" "mb_role_id m = ro_id r"
    and index: "membership_index (td_memberships s @ [m]) = None"
  shows "tenant_rows_ok (bd_organizations (td_billing s) @ [o']) (td_roles s @ [r]) (td_memberships s @ [m]) (Suc (Suc (Suc (td_next_id s))))"
proof -
  note parts = tenant_ok_parts [OF ok]
  have "distinct (map mb_public_id (td_memberships s @ [m]))"
    using index by (simp add: membership_index_def split: if_splits)
  then have "keys_ok (bd_organizations (td_billing s) @ [o']) (td_roles s @ [r]) (td_memberships s @ [m]) (Suc (Suc (Suc (td_next_id s))))"
    using parts(1) o r(1) m(1) unfolding keys_ok_def by (simp add: image_iff less_Suc_eq) (metis less_irrefl Suc_lessD less_SucI)
  moreover have "owners_ok (bd_organizations (td_billing s) @ [o']) (td_memberships s @ [m])"
    using parts(2) m(2) unfolding owners_ok_def by (simp add: bex_Un)
  moreover have "roles_ok (td_roles s @ [r]) (td_memberships s @ [m])"
    using parts(3) r m unfolding roles_ok_def by (auto simp: active_member_def bex_Un)
  ultimately show ?thesis by (simp add: tenant_rows_ok_def)
qed

lemma ensures_insert_organization [ensures_intros]:
  assumes "Q (row (td_next_id s)) (s\<lparr>td_billing := (td_billing s)\<lparr>bd_organizations := bd_organizations (td_billing s) @ [row (td_next_id s)]\<rparr>,
      td_next_id := Suc (td_next_id s)\<rparr>)"
  shows "ensures (insert_organization row) Q s"
  unfolding insert_organization_def by (rule ensures_checked_insert) (use assms in \<open>simp add: put_organizations_def\<close>)

lemma ensures_update_organization [ensures_intros]:
  assumes "\<And>t'. t' = update_where p f (bd_organizations (td_billing s)) \<Longrightarrow>
      Q (rows0 (update_returning p f (bd_organizations (td_billing s)))) (s\<lparr>td_billing := (td_billing s)\<lparr>bd_organizations := t'\<rparr>\<rparr>)"
  shows "ensures (update_organization p f) Q s"
  unfolding update_organization_def
  by (intro ensures_intros ensures_checked_update) (use assms in \<open>simp add: put_organizations_def\<close>)

lemma ensures_system_role [ensures_intros]:
  assumes "\<And>r. ro_id r = td_next_id s \<Longrightarrow> ro_organization_id r = oid \<Longrightarrow> live_role r \<Longrightarrow>
      Q r (s\<lparr>td_roles := td_roles s @ [r], td_next_id := Suc (td_next_id s)\<rparr>)"
  shows "ensures (insert_system_role env org oid k name description) Q s"
  unfolding insert_system_role_def by (intro ensures_intros, rule assms) (simp_all add: live_role_def)

lemma ensures_insert_role_permissions [ensures_intros]:
  assumes "set codes \<subseteq> set (td_permissions s) \<Longrightarrow> distinct (td_role_permissions s @ map (Pair i) codes) \<Longrightarrow>
      Q () (s\<lparr>td_role_permissions := td_role_permissions s @ map (Pair i) codes\<rparr>)"
  shows "ensures (insert_role_permissions org i codes) Q s"
  unfolding insert_role_permissions_def
  by (rule ensures_sql) (use assms in \<open>auto simp: Let_def list_all_iff subset_iff split: if_splits\<close>)

lemma ok_default_roles:
  "tenant_ok s \<Longrightarrow> ensures (provision_default_roles env org oid k xs) (\<lambda>_. tenant_ok) s"
proof (induction xs arbitrary: k s)
  case (Cons x xs)
  have "tenant_ok (s'\<lparr>td_role_permissions := ps\<rparr>)" if "tenant_ok s'" for s' ps
    using that by (simp add: tenant_ok_def)
  with Cons show ?case
    unfolding provision_default_roles.simps by (intro ensures_intros Cons.IH) (blast intro: tenant_ok_insert_role)
qed (simp add: ensures_return)

text \<open>Provisioning up to the default roles: four rows with consecutive ids.\<close>

definition provisioned :: "TenancyDb \<Rightarrow> OrganizationRow \<Rightarrow> MemberRoleRow \<Rightarrow> string list \<Rightarrow> MembershipRow \<Rightarrow> TenancyDb" where
  "provisioned s o' r codes m = s\<lparr>td_billing := (td_billing s)\<lparr>bd_organizations := bd_organizations (td_billing s) @ [o']\<rparr>,
     td_roles := td_roles s @ [r], td_role_permissions := td_role_permissions s @ map (Pair (ro_id r)) codes,
     td_memberships := td_memberships s @ [m], td_next_id := Suc (Suc (Suc (td_next_id s)))\<rparr>"

lemma ensures_provision:
  assumes "\<And>o' r codes m. og_id o' = td_next_id s \<Longrightarrow> og_owner_user_id o' = ownerId \<Longrightarrow>
      ro_id r = Suc (td_next_id s) \<Longrightarrow> ro_organization_id r = og_id o' \<Longrightarrow> live_role r \<Longrightarrow>
      mb_id m = Suc (Suc (td_next_id s)) \<Longrightarrow> active_member ownerId (og_id o') m \<Longrightarrow> mb_role_id m = ro_id r \<Longrightarrow>
      membership_index (td_memberships s @ [m]) = None \<Longrightarrow>
      ensures (if type = ''TEAM'' then provision_default_roles env (te_publicId env 1) (og_id o') 1 DEFAULT_TEAM_ROLES else act_return ())
        (\<lambda>_. Q o') (provisioned s o' r codes m)"
  shows "ensures (provisionOrganization env name slug type ownerId) Q s"
  unfolding provisionOrganization_def Let_def
proof ((rule ensures_bind | rule ensures_insert_organization | rule ensures_system_role | rule ensures_insert_role_permissions |
    rule ensures_insert_membership)+, goal_cases)
  case (1 r)
  let ?o = "\<lparr>og_id = td_next_id s, og_public_id = te_publicId env 1, og_name = name, og_slug = slug, og_type = type,
      og_owner_user_id = ownerId, og_status = ''ACTIVE'', og_stripe_customer_id = None, og_deletion_started_at = None, og_deleted_at = None\<rparr>"
  let ?m = "owner_membership env ownerId (td_next_id s) (Suc (td_next_id s)) (Suc (Suc (td_next_id s)))"
  let ?codes = "ownerPermissionCodesForOrganizationType type"
  from 1 have "ensures (if type = ''TEAM'' then provision_default_roles env (te_publicId env 1) (og_id ?o) 1 DEFAULT_TEAM_ROLES
      else act_return ()) (\<lambda>_. Q ?o) (provisioned s ?o r ?codes ?m)"
    by (intro assms) (simp_all add: owner_membership_def active_member_def live_membership_def)
  then have "ensures (if type = ''TEAM'' then provision_default_roles env (te_publicId env 1) (og_id ?o) 1 DEFAULT_TEAM_ROLES
      else act_return ()) (\<lambda>_. ensures (act_return ?o) Q) (provisioned s ?o r ?codes ?m)"
    by (rule ensures_mono) (rule ensures_return)
  with 1(1) show ?case by (simp add: provisioned_def owner_membership_def)
qed

lemma ok_provisioned:
  assumes "tenant_ok s" "og_id o' = td_next_id s" "ro_id r = Suc (td_next_id s)" "ro_organization_id r = og_id o'" "live_role r"
    "mb_id m = Suc (Suc (td_next_id s))" "active_member (og_owner_user_id o') (og_id o') m" "mb_role_id m = ro_id r"
    "membership_index (td_memberships s @ [m]) = None"
  shows "tenant_ok (provisioned s o' r codes m)"
  using tenant_ok_provision [OF assms] by (simp add: tenant_ok_def provisioned_def)

lemma ok_provision:
  assumes ok: "tenant_ok s"
  shows "ensures (provisionOrganization env name slug type ownerId) (\<lambda>_. tenant_ok) s"
  by (rule ensures_provision, intro ensures_if ok_default_roles ensures_return ok_provisioned [OF ok]) auto

section \<open>Every request keeps the invariant\<close>

interpretation keeps: action_order "\<lambda>(w :: TenancyWorld) w'. P (tw_db w) \<longrightarrow> P (tw_db w')" for P
  by unfold_locales auto

lemma keeps_tx:
  assumes "\<And>s. P s \<Longrightarrow> ensures m (\<lambda>_. P) s"
  shows "keeps.advances P (tenant_transaction m)"
  unfolding keeps.advances_def
proof (intro allI impI)
  fix w :: TenancyWorld assume "P (tw_db w)"
  then have "P (snd (run_transaction m (tw_db w)))"
    using ensures_run_kept [of m "\<lambda>_. P" "tw_db w"] assms by blast
  then show "P (tw_db (snd (tenant_transaction m w)))" by (auto simp: tenant_transaction_def split: prod.splits)
qed

lemma keeps_read: "keeps.advances P (tenant_transaction (sql_read f))"
  by (rule keeps_tx) (rule ensures_read)

lemma keeps_quiet:
  "keeps.advances P (invalidate i)" "keeps.advances P (seat_sync env org)"
  by (simp_all add: keeps.advances_def invalidate_def seat_sync_def)

lemma keeps_invalidate_user: "keeps.advances P (invalidate_user u org)"
  unfolding invalidate_user_def by (intro keeps.advances_intros keeps_read keeps_quiet)

lemma keeps_invalidate_users: "keeps.advances P (invalidate_users us org)"
  unfolding invalidate_users_def by (induction us) (simp_all add: keeps.advances_intros keeps_invalidate_user)

lemma keeps_discard: "keeps.advances P m \<Longrightarrow> keeps.advances P (discard m)"
  unfolding discard_def by (intro keeps.advances_intros)

text \<open>An account for an invitee is a row of another table.\<close>

lemma keeps_createFromOAuth:
  assumes "\<And>d u. P d \<Longrightarrow> P (d\<lparr>td_users := td_users d @ [u], td_next_id := Suc (td_next_id d)\<rparr>)"
  shows "keeps.advances P (createFromOAuth env data)"
  unfolding createFromOAuth_def
proof (rule keeps.advances_insert_retry)
  fix n
  show "keeps.advances P (tenant_transaction (sql (\<lambda>d.
     case insertOAuthUser (\<lambda>e. te_sha256 env (js_lower e)) (te_now env) (td_next_id d) (te_userId env n) data (td_users d) of
       None \<Rightarrow> Inl (Sql_unique (if list_ex (\<lambda>u. us_public_id u = te_userId env n) (td_users d)
         then ''idx_users_public_id'' else ''idx_users_email_unique''))
     | Some (row, t) \<Rightarrow> Inr (row, d\<lparr>td_users := t, td_next_id := Suc (td_next_id d)\<rparr>))))"
    by (rule keeps_tx, rule ensures_sql) (auto simp: assms insertOAuthUser_def Let_def split: option.splits if_splits)
qed

lemma keeps_findOrCreate:
  assumes "\<And>d u. P d \<Longrightarrow> P (d\<lparr>td_users := td_users d @ [u], td_next_id := Suc (td_next_id d)\<rparr>)"
  shows "keeps.advances P (findOrCreateInvitedByEmail env email)"
  unfolding findOrCreateInvitedByEmail_def by (intro keeps.advances_intros keeps_read keeps_createFromOAuth assms)

lemmas keeps_intros = keeps.advances_intros keeps_read keeps_quiet keeps_invalidate_user keeps_invalidate_users
  keeps_discard

text \<open>Rows the invariant does not read.\<close>

lemma tenant_ok_frame:
  "tenant_ok (d\<lparr>td_invitations := is\<rparr>) = tenant_ok d"
  "tenant_ok (d\<lparr>td_api_keys := ks\<rparr>) = tenant_ok d"
  "tenant_ok (d\<lparr>td_events := es\<rparr>) = tenant_ok d"
  "tenant_ok (d\<lparr>td_role_permissions := ps\<rparr>) = tenant_ok d"
  "tenant_ok (d\<lparr>td_users := us\<rparr>) = tenant_ok d"
  by (simp_all add: tenant_ok_def)

lemma tenant_ok_next: "tenant_ok d \<Longrightarrow> tenant_ok (d\<lparr>td_next_id := Suc (td_next_id d)\<rparr>)"
  by (auto simp: tenant_ok_def tenant_rows_ok_def keys_ok_def less_Suc_eq)

lemma tenant_ok_new_user: "tenant_ok d \<Longrightarrow> tenant_ok (d\<lparr>td_users := t, td_next_id := Suc (td_next_id d)\<rparr>)"
  using tenant_ok_next [of "d\<lparr>td_users := t\<rparr>"] by (simp add: tenant_ok_frame)

lemma ok_add_member:
  assumes ok: "tenant_ok s"
  shows "ensures (add_member env org caller invitee role days) (\<lambda>_. tenant_ok) s"
proof (rule ensures_add_member)
  fix m o' r t' evs
  assume "r \<in> set (td_roles s)" "live_role r" "ro_organization_id r = og_id o'" "mb_id m = td_next_id s"
    "mb_organization_id m = og_id o'" "mb_role_id m = ro_id r" "membership_index (td_memberships s @ [m]) = None"
  then have "tenant_ok (s\<lparr>td_memberships := td_memberships s @ [m], td_next_id := Suc (td_next_id s)\<rparr>)"
    by (intro tenant_ok_insert_membership [OF ok]) auto
  from tenant_ok_next [OF this]
  show "tenant_ok (s\<lparr>td_memberships := td_memberships s @ [m], td_invitations := t', td_next_id := Suc (Suc (td_next_id s)), td_events := evs\<rparr>)"
    by (simp add: tenant_ok_def)
qed

lemma ok_remove_member:
  "tenant_ok s \<Longrightarrow> ensures (remove_member env org o' m e) (\<lambda>_. tenant_ok) s"
  unfolding remove_member_def membership_softDelete_def revokeAllByCreatorInOrganization_def
  by (intro ensures_intros) (simp_all add: tenant_ok_frame tenant_ok_soft_delete)

lemma steady_reads [steady_intros]:
  "steady P (requireOrganizationRecordByPublicId org)" "steady P (assert_team o' c)"
  "steady P (select_membership org p)" "steady P (select_role org q)" "steady P (select_invitation org pi)"
  "steady P (select_api_key org pk)" "steady P (listPermissionCodesForRole org i)"
  "steady P (assertCallerCanGrantPermissionCodes caller org codes)"
  "steady P (assertSeatAvailableForMemberAdd env org oid)"
  by (auto intro!: steadyI ensures_intros)

lemmas lookup_defs = role_findByPublicId_def requireRoleRecordByPublicId_def findByUserAndOrganization_def
  api_key_findByPublicId_def membership_findByPublicId_def membership_findById_def invitation_findByPublicId_def

lemma ok_frame_statements [steady_intros]:
  "steady tenant_ok (update_invitation org pi fi)"
  "steady tenant_ok (update_api_key org pk fk)"
  "steady tenant_ok (emitStrict env e)"
  "steady tenant_ok (role_permission_replace org i codes)"
  by (rule steadyI, intro ensures_intros, simp_all add: tenant_ok_frame)+

lemma ok_softDelete [steady_intros]: "steady tenant_ok (membership_softDelete env org p oid)"
  unfolding membership_softDelete_def
  by (rule steadyI, intro ensures_intros) (simp add: tenant_ok_soft_delete)

lemma ok_activate [steady_intros]: "steady tenant_ok (activateForInvitationAccept env org mid oid)"
  unfolding activateForInvitationAccept_def
  by (rule steadyI, intro ensures_intros, clarify, rule tenant_ok_update_memberships)
     (auto simp: active_member_def live_membership_def)

lemma ok_creates [steady_intros]:
  "steady tenant_ok (role_create env org oid name description)"
  "steady tenant_ok (api_key_create env org oid kname scopes expiresAt creator)"
  using tenant_ok_next [of "_\<lparr>td_api_keys := _\<rparr>"]
  by (auto intro!: steadyI ensures_intros simp: tenant_ok_insert_role tenant_ok_frame)

lemma ok_role_updates [steady_intros]:
  "steady tenant_ok (role_update env org publicId oid name description)"
  "steady tenant_ok (softDeleteIfNoActiveMembers env org publicId oid)"
  unfolding role_update_def softDeleteIfNoActiveMembers_def
  by (rule steadyI, intro ensures_intros, clarify, rule tenant_ok_update_roles; auto simp: live_role_def)+

lemma ok_revoke_all [steady_intros]: "steady tenant_ok (revokeAllByCreatorInOrganization env org oid creator)"
  unfolding revokeAllByCreatorInOrganization_def by (intro steady_intros)

lemma ok_notify [steady_intros]: "steady tenant_ok (notify_accepted env org oid u)"
  unfolding notify_accepted_def Let_def
  by (intro steady_intros, rule steadyI, rule ensures_sql) (auto simp: tenant_ok_frame)

lemma ok_update_organization [steady_intros]:
  assumes "\<And>o'. og_id (f o') = og_id o'" "\<And>o'. og_owner_user_id (f o') = og_owner_user_id o'"
    "\<And>o'. og_deleted_at (f o') = None \<Longrightarrow> og_deleted_at o' = None"
  shows "steady tenant_ok (update_organization p f)"
  by (rule steadyI, intro ensures_intros, clarify, rule tenant_ok_update_organizations) (use assms in auto)

lemma ok_update_owner [steady_intros]: "steady tenant_ok (updateOwner org new)"
  unfolding updateOwner_def
  by (rule steadyI, rule ensures_sql)
     (auto simp: Let_def update_row_def active_member_def intro!: tenant_ok_update_organizations)

lemma ok_suspend: "tenant_ok s \<Longrightarrow> findOrganization org (td_billing s) = Some o' \<Longrightarrow>
   ensures (suspendExcessActiveMembers env org (og_id o') (og_owner_user_id o') n) (\<lambda>_. tenant_ok) s"
  unfolding suspendExcessActiveMembers_def by (intro ensures_intros) (auto simp del: set_map intro: tenant_ok_suspend)

lemma keeps_steady: "steady P m \<Longrightarrow> keeps.advances P (tenant_transaction m)"
  by (rule keeps_tx) (rule steadyD)

lemma ok_members:
  "keeps.advances tenant_ok (membership_service_create env org caller email role days)"
  "keeps.advances tenant_ok (membership_service_update env org caller m status roleId)"
  "keeps.advances tenant_ok (membership_service_delete env org m)"
  "keeps.advances tenant_ok (leaveOrganization env org u)"
  unfolding membership_service_create_def membership_service_update_def membership_service_delete_def leaveOrganization_def
    remove_member_def lookup_defs
  by (intro keeps_intros keeps_findOrCreate tenant_ok_new_user keeps_tx [OF ok_add_member] keeps_tx [OF ok_update_membership_row]
      keeps_steady steady_intros; assumption)+

lemma ok_ownership:
  "keeps.advances tenant_ok (transferOwnership org new caller)"
  "keeps.advances tenant_ok (suspendExcessActiveMembersToFitCeiling env org ceiling)"
  unfolding transferOwnership_def transfer_in_organization_def transferOrganizationOwnership_def
    suspendExcessActiveMembersToFitCeiling_def lookup_defs
  by (intro keeps_intros keeps_steady steady_intros)
     (intro keeps_intros keeps_tx ensures_intros ok_suspend; assumption)

lemma ok_invitations:
  "keeps.advances tenant_ok (member_invitation_accept env i token user)"
  "keeps.advances tenant_ok (member_invitation_revoke env org i)"
  "keeps.advances tenant_ok (member_invitation_resend env org i days)"
  unfolding member_invitation_accept_def accept_in_organization_def member_invitation_revoke_def member_invitation_resend_def
    load_invitation_def lookup_defs invitation_accept_def invitation_revoke_def invitation_resend_def
    throwInvitationAcceptFailure_def assertInvitationAcceptable_def
  by (intro keeps_intros keeps_steady steady_intros)+

lemma ok_roles:
  "keeps.advances tenant_ok (member_role_create env org caller name description codes)"
  "keeps.advances tenant_ok (member_role_update env org role name' description')"
  "keeps.advances tenant_ok (member_role_delete env org role)"
  "keeps.advances tenant_ok (member_role_permission_put org caller role codes)"
  unfolding member_role_create_def member_role_update_def member_role_delete_def member_role_permission_put_def lookup_defs
  by (intro keeps_intros keeps_steady steady_intros)+

lemma ok_api_keys:
  "keeps.advances tenant_ok (api_key_service_create env org u name scopes days)"
  "keeps.advances tenant_ok (api_key_update env org k name' status)"
  "keeps.advances tenant_ok (api_key_delete env org k)"
  "keeps.advances tenant_ok (api_key_rotate env org u k)"
  unfolding api_key_service_create_def api_key_mint_def api_key_update_def api_key_delete_def api_key_rotate_def
    api_key_softDelete_def lookup_defs
  by (intro keeps_intros keeps_steady steady_intros)+

text \<open>The offboarding of billing writes subscriptions only.\<close>

interpretation same_organizations_db: state_order "\<lambda>b b'. bd_organizations b' = bd_organizations b"
  by unfold_locales auto

interpretation same_organizations: action_order "\<lambda>w w'. bd_organizations (bw_db w') = bd_organizations (bw_db w)"
  by unfold_locales auto

lemma offboarding_organizations: "same_organizations.advances (cancelActiveForOrganizationOffboarding env org)"
proof -
  have tx: "same_organizations.advances (in_transaction m)" if "same_organizations_db.advances m" for m :: "(BillingDb, 'a) db"
    using that by (simp add: same_organizations.advances_def snd_in_transaction same_organizations_db.advances_run)
  have readonly: "same_organizations.advances m" if "readonly.advances m" for m :: "'a billing"
    using that by (simp add: readonly.advances_def same_organizations.advances_def)
  have "same_organizations_db.advances (sql (update_subscription org p f))" for p f
    by (rule same_organizations_db.advances_sql) (auto simp: update_subscription_def Let_def split: option.splits)
  then have update: "same_organizations_db.advances (subscription_update org now p i data)" for now p i data
    unfolding subscription_update_def subscription_findByPublicId_def
    by (intro same_organizations_db.advances_intros same_organizations_db.advances_read)
  show ?thesis
    unfolding cancelActiveForOrganizationOffboarding_def when_some_def
    by (intro same_organizations.advances_intros tx [OF update] readonly [OF readonly_in_transaction] readonly_loads
        readonly [OF readonly_provider(3)])
qed

lemma ok_offboarding: "keeps.advances tenant_ok (billing_call (cancelActiveForOrganizationOffboarding env org))"
  unfolding keeps.advances_def
proof (intro allI impI)
  fix w :: TenancyWorld assume "tenant_ok (tw_db w)"
  then show "tenant_ok (tw_db (snd (billing_call (cancelActiveForOrganizationOffboarding env org) w)))"
    using same_organizations.advancesD [OF offboarding_organizations,
        of env org "\<lparr>bw_db = td_billing (tw_db w), bw_stripe = tw_stripe w, bw_seat_jobs = [], bw_suspensions = []\<rparr>"]
    by (auto simp: billing_call_def tenant_ok_def split: prod.splits)
qed

lemma ok_organizations:
  "keeps.advances tenant_ok (organization_create env owner name slug)"
  "keeps.advances tenant_ok (provisionPersonalOrganization env ownerId)"
  "keeps.advances tenant_ok (organization_service_update org name' slug' status)"
  "keeps.advances tenant_ok (organization_delete env org)"
  unfolding organization_create_def provisionPersonalOrganization_def organization_service_update_def organization_delete_def
    begin_offboarding_def organization_update_def organization_markDeletionStarted_def organization_softDelete_def
  by (intro keeps_intros keeps_tx [OF ok_provision] ok_offboarding keeps_steady steady_intros; simp?; assumption?)+

lemma ok_request: "keeps.advances tenant_ok (tenancy_request env org r)"
  by (cases r) (simp_all add: keeps_discard ok_members ok_ownership ok_invitations ok_roles ok_api_keys ok_organizations)

lemma ok_requests: "tenant_ok (tw_db w) \<Longrightarrow> tenant_ok (tw_db (tenancy_requests rs w))"
  unfolding tenancy_requests_def
proof (induction rs arbitrary: w)
  case (Cons x rs)
  obtain env org r where x: "x = (env, org, r)" by (metis surj_pair)
  have "tenant_ok (tw_db (snd (tenancy_request env org r w)))"
    using keeps.advancesD [OF ok_request] Cons.prems by blast
  with Cons.IH x show ?case by simp
qed simp

lemma demo_tenant_ok: "tenant_ok demo_tenancy_db"
  by (simp add: tenant_ok_def tenant_rows_ok_def keys_ok_def owners_ok_def roles_ok_def active_member_def live_membership_def
      live_role_def demo_tenancy_db_def demo_membership_def demo_role_def demo_billing_def demo_organization_def)

text \<open>C19 An organization always has an active owner: from any consistent state, after any sequence of requests of
  the tenancy services (members added, patched, removed or leaving, ownership transferred, seats cut,
  invitations, roles, keys, organizations created, renamed or deleted), whatever each request answered, the
  owner of every organization that is not deleted has an active membership of it.\<close>

theorem owner_stays_active_member:
  assumes "tenant_ok (tw_db w)"
    and "o' \<in> set (bd_organizations (td_billing (tw_db (tenancy_requests rs w))))" and "og_deleted_at o' = None"
  shows "\<exists>m \<in> set (td_memberships (tw_db (tenancy_requests rs w))). mb_user_id m = og_owner_user_id o' \<and>
     mb_organization_id m = og_id o' \<and> mb_status m = ''ACTIVE'' \<and> live_membership m"
  using tenant_ok_parts(2) [OF ok_requests [OF assms(1)]] assms(2,3)
  by (simp add: owners_ok_def active_member_def)

definition demo_handover :: "TenancyRequest list" where
  "demo_handover = [TransferOwnership ''usr_2'' ''usr_1'', Leave ''usr_1'', RemoveMember ''mem_2'']"

theorem owner_stays_active_member_witness:
  "map og_owner_user_id (bd_organizations (td_billing (tw_db (demo_run demo_handover)))) = [2] \<and>
   (\<exists>m \<in> set (td_memberships (tw_db (demo_run demo_handover))). mb_user_id m = 2 \<and>
     mb_organization_id m = 7 \<and> mb_status m = ''ACTIVE'' \<and> live_membership m)"
proof -
  have orgs: "bd_organizations (td_billing (tw_db (demo_run demo_handover))) = [demo_organization\<lparr>og_owner_user_id := 2\<rparr>]"
    by code_simp
  have "tenant_ok (tw_db demo_tenancy_world)" by (simp add: demo_tenancy_world_def demo_tenant_ok)
  from owner_stays_active_member [OF this, of "demo_organization\<lparr>og_owner_user_id := 2\<rparr>"
      "map (\<lambda>r. (demo_tenancy_env, ''org_a'', r)) demo_handover"] orgs
  show ?thesis by (simp add: demo_run_def demo_organization_def)
qed

text \<open>C24 A membership that is not removed, whatever its status, refers to exactly one role, which is not deleted and
  belongs to the same organization; no sequence of requests breaks the reference, a role being deletable only
  while nobody holds it.\<close>

theorem live_membership_has_its_role:
  assumes "tenant_ok (tw_db w)" and "m \<in> set (td_memberships (tw_db (tenancy_requests rs w)))" and "live_membership m"
  shows "\<exists>!r. r \<in> set (td_roles (tw_db (tenancy_requests rs w))) \<and> ro_id r = mb_role_id m \<and>
     ro_organization_id r = mb_organization_id m \<and> live_role r"
proof -
  let ?d = "tw_db (tenancy_requests rs w)"
  have ok: "tenant_ok ?d" by (rule ok_requests [OF assms(1)])
  obtain r where "r \<in> set (td_roles ?d) \<and> ro_id r = mb_role_id m \<and> ro_organization_id r = mb_organization_id m \<and> live_role r"
    using tenant_ok_parts(3) [OF ok] assms(2,3) by (auto simp: roles_ok_def)
  moreover have "distinct (map ro_id (td_roles ?d))" using tenant_ok_parts(1) [OF ok] by (simp add: keys_ok_def)
  ultimately show ?thesis by (intro ex1I [of _ r]) (auto intro: distinct_key_eq)
qed

definition demo_role_requests :: "TenancyRequest list" where
  "demo_role_requests = [DeleteRole ''rol_admin'', AddMember (Some ''usr_2'') ''c'' ''rol_ops'' 7, DeleteRole ''rol_ops'']"

theorem live_membership_has_its_role_witness:
  "map mb_role_id (td_memberships (tw_db (demo_run demo_role_requests))) = [20, 21, 22] \<and>
   (\<exists>!r. r \<in> set (td_roles (tw_db (demo_run demo_role_requests))) \<and> ro_id r = 22 \<and> ro_organization_id r = 7 \<and> live_role r)"
proof -
  let ?ms = "td_memberships (tw_db (demo_run demo_role_requests))"
  have m: "map mb_role_id ?ms = [20, 21, 22]" "mb_organization_id (?ms ! 2) = 7" "live_membership (?ms ! 2)" by code_simp+
  have "length ?ms = 3" using arg_cong [OF m(1), of length] by simp
  then have in_ms: "?ms ! 2 \<in> set ?ms" and role: "mb_role_id (?ms ! 2) = 22"
    using arg_cong [OF m(1), of "\<lambda>xs. xs ! 2"] by simp_all
  have "tenant_ok (tw_db demo_tenancy_world)" by (simp add: demo_tenancy_world_def demo_tenant_ok)
  from live_membership_has_its_role [OF this, of "?ms ! 2" "map (\<lambda>r. (demo_tenancy_env, ''org_a'', r)) demo_role_requests"]
  show ?thesis using m in_ms role by (simp add: demo_run_def)
qed

end
