(* ===== verification/Grants.thy ===== *)
theory Grants
  imports Tenant_Integrity
begin

text \<open>
  Who can come to hold which permission.  \<open>potential\<close> is what a user could do with the membership they have, active,
  suspended or only invited; the theorem bounds what one request adds to it, and to the scopes of API
  keys, by the permissions of the caller.  The hypotheses on the table of grants are its primary key, its
  foreign keys and that the catalog is smaller than the bound the queries put on a role.
\<close>

section \<open>Potential permissions\<close>

definition potential :: "TenancyDb \<Rightarrow> nat \<Rightarrow> nat \<Rightarrow> string set" where
  "potential d user oid = {c. \<exists>m \<in> set (td_memberships d). live_membership m \<and> mb_user_id m = user \<and> mb_organization_id m = oid \<and>
     (mb_role_id m, c) \<in> set (td_role_permissions d)}"

definition grants_ok :: "TenancyDb \<Rightarrow> bool" where
  "grants_ok d \<longleftrightarrow> distinct (td_role_permissions d) \<and> distinct (td_permissions d) \<and>
     snd ` set (td_role_permissions d) \<subseteq> set (td_permissions d) \<and>
     length (td_permissions d) \<le> MEMBER_ROLE_PERMISSION_MAX_ROWS_PER_ROLE"

fun request_caller :: "TenancyRequest \<Rightarrow> string option" where
  "request_caller (AddMember caller _ _ _) = caller"
| "request_caller (UpdateMember caller _ _ _) = caller"
| "request_caller (CreateRole caller _ _ _) = caller"
| "request_caller (PutRolePermissions caller _ _) = caller"
| "request_caller (CreateApiKey caller _ _ _) = Some caller"
| "request_caller (RotateApiKey caller _) = Some caller"
| "request_caller _ = None"

definition caller_codes :: "TenancyDb \<Rightarrow> string \<Rightarrow> string option \<Rightarrow> nat \<Rightarrow> string set" where
  "caller_codes d org caller oid = (case caller of None \<Rightarrow> {}
     | Some u \<Rightarrow> if in_organization org d oid then set (findPermissionCodesForUserInOrganization u org d) else {})"

text \<open>What a user holds is part of what they could.\<close>

lemma held_subset_potential:
  assumes "findOrganization org (td_billing d) = Some o'" and "resolveUserInternalIdByPublicId (Some u) d = Some i"
  shows "set (findPermissionCodesForUserInOrganization u org d) \<subseteq> potential d i (og_id o')"
  using assms by (fastforce simp: findPermissionCodesForUserInOrganization_def potential_def)

lemma listed_all:
  assumes "grants_ok d"
  shows "set (listed_codes d i) = {c. (i, c) \<in> set (td_role_permissions d)}"
proof -
  have codes: "set (role_codes d i) = {c. (i, c) \<in> set (td_role_permissions d)}"
    by (force simp: role_codes_def)
  have "distinct (role_codes d i)"
    using assms by (auto simp: grants_ok_def role_codes_def distinct_map inj_on_def)
  then have "length (role_codes d i) = card (set (role_codes d i))" by (simp add: distinct_card)
  also have "\<dots> \<le> card (set (td_permissions d))"
    using assms codes by (intro card_mono) (force simp: grants_ok_def)+
  also have "\<dots> \<le> MEMBER_ROLE_PERMISSION_MAX_ROWS_PER_ROLE"
    using assms by (simp add: grants_ok_def distinct_card)
  finally show ?thesis using codes by (simp add: listed_codes_def)
qed

section \<open>The bound on one request\<close>

definition bounded :: "TenancyDb \<Rightarrow> (nat \<Rightarrow> string set) \<Rightarrow> TenancyDb \<Rightarrow> bool" where
  "bounded d0 C d \<longleftrightarrow>
     (\<forall>u oid. oid < td_next_id d0 \<longrightarrow> potential d u oid \<subseteq> potential d0 u oid \<union> C oid) \<and>
     (\<forall>k \<in> set (td_api_keys d). set (ak_scopes k) \<subseteq> C (ak_organization_id k) \<or>
        (\<exists>k0 \<in> set (td_api_keys d0). ak_id k0 = ak_id k \<and> ak_scopes k0 = ak_scopes k))"

lemma bounded_refl: "bounded d C d"
  by (auto simp: bounded_def)

lemma bounded_frame:
  "bounded d0 C (d\<lparr>td_invitations := is\<rparr>) = bounded d0 C d"
  "bounded d0 C (d\<lparr>td_events := es\<rparr>) = bounded d0 C d"
  "bounded d0 C (d\<lparr>td_users := us\<rparr>) = bounded d0 C d"
  "bounded d0 C (d\<lparr>td_roles := rs\<rparr>) = bounded d0 C d"
  "bounded d0 C (d\<lparr>td_billing := b\<rparr>) = bounded d0 C d"
  "bounded d0 C (d\<lparr>td_next_id := n\<rparr>) = bounded d0 C d"
  by (simp_all add: bounded_def potential_def)

lemma bounded_update_keys:
  assumes "bounded d0 C d" and "\<And>k. ak_id (f k) = ak_id k" "\<And>k. ak_scopes (f k) = ak_scopes k"
    "\<And>k. ak_organization_id (f k) = ak_organization_id k"
  shows "bounded d0 C (d\<lparr>td_api_keys := update_where p f (td_api_keys d)\<rparr>)"
  using assms unfolding bounded_def by (simp add: potential_def set_update_where ball_Un)

lemma bounded_insert_key:
  assumes "bounded d0 C d" and "set (ak_scopes k) \<subseteq> C (ak_organization_id k)"
  shows "bounded d0 C (d\<lparr>td_api_keys := td_api_keys d @ [k]\<rparr>)"
  using assms by (auto simp: bounded_def potential_def)

text \<open>A membership update that revives nothing and keeps the role, or takes one within the bound.\<close>

lemma bounded_update_memberships:
  assumes b: "bounded d0 C d"
    and keep: "\<And>m. mb_user_id (f m) = mb_user_id m" "\<And>m. mb_organization_id (f m) = mb_organization_id m"
    and role: "\<And>m. m \<in> set (td_memberships d) \<Longrightarrow> p m \<Longrightarrow> live_membership (f m) \<Longrightarrow>
       live_membership m \<and> (mb_role_id (f m) = mb_role_id m \<or>
         {c. (mb_role_id (f m), c) \<in> set (td_role_permissions d)} \<subseteq> C (mb_organization_id m))"
  shows "bounded d0 C (d\<lparr>td_memberships := update_where p f (td_memberships d)\<rparr>)"
proof -
  have "potential (d\<lparr>td_memberships := update_where p f (td_memberships d)\<rparr>) u oid \<subseteq> potential d u oid \<union> C oid" for u oid
    using role keep unfolding potential_def by (fastforce simp: set_update_where split: if_splits)
  then show ?thesis using b unfolding bounded_def by (simp; blast)
qed

lemma bounded_insert_membership:
  assumes "bounded d0 C d" and "mb_organization_id m < td_next_id d0 \<Longrightarrow>
      {c. (mb_role_id m, c) \<in> set (td_role_permissions d)} \<subseteq> C (mb_organization_id m)"
  shows "bounded d0 C (d\<lparr>td_memberships := td_memberships d @ [m]\<rparr>)"
  using assms unfolding bounded_def potential_def by (simp; blast)

lemma bounded_grant_unused:
  assumes "bounded d0 C d" and "\<And>m. m \<in> set (td_memberships d) \<Longrightarrow> live_membership m \<Longrightarrow> mb_organization_id m < td_next_id d0 \<Longrightarrow> mb_role_id m \<noteq> i"
  shows "bounded d0 C (d\<lparr>td_role_permissions := td_role_permissions d @ map (Pair i) codes\<rparr>)"
  using assms unfolding bounded_def potential_def by (simp; blast)

lemma bounded_replace:
  assumes "bounded d0 C d" and "\<And>m. m \<in> set (td_memberships d) \<Longrightarrow> live_membership m \<Longrightarrow> mb_role_id m = i \<Longrightarrow> set codes \<subseteq> C (mb_organization_id m)"
  shows "bounded d0 C (d\<lparr>td_role_permissions := delete_where (\<lambda>x. fst x = i) (td_role_permissions d) @ map (Pair i) codes\<rparr>)"
proof -
  have "potential (d\<lparr>td_role_permissions := delete_where (\<lambda>x. fst x = i) (td_role_permissions d) @ map (Pair i) codes\<rparr>) u oid \<subseteq>
      potential d u oid \<union> C oid" for u oid
    using assms(2) unfolding potential_def by (fastforce simp: set_delete_where)
  then show ?thesis using assms(1) unfolding bounded_def by (simp; blast)
qed

section \<open>Requests that grant nothing\<close>

lemma bounded_statements [steady_intros]:
  "steady (bounded d0 C) (update_invitation org pi fi)"
  "steady (bounded d0 C) (emitStrict env e)"
  "steady (bounded d0 C) (update_role org pr fr)"
  "steady (bounded d0 C) (update_organization po fo)"
  by (rule steadyI, intro ensures_intros, simp_all add: bounded_frame)+

lemma bounded_owner [steady_intros]: "steady (bounded d0 C) (updateOwner org new)"
  unfolding updateOwner_def by (rule steadyI, rule ensures_sql) (auto simp: Let_def update_row_def bounded_frame)

lemma bounded_notify [steady_intros]: "steady (bounded d0 C) (notify_accepted env org oid u)"
  unfolding notify_accepted_def Let_def
  by (intro steady_intros, rule steadyI, rule ensures_sql) (auto simp: bounded_frame)

lemma bounded_members [steady_intros]:
  "steady (bounded d0 C) (membership_softDelete env org p oid)"
  "steady (bounded d0 C) (activateForInvitationAccept env org mid oid)"
  "steady (bounded d0 C) (suspendExcessActiveMembers env org oid owner n)"
  unfolding membership_softDelete_def activateForInvitationAccept_def suspendExcessActiveMembers_def
  by (rule steadyI, intro ensures_intros; (clarify, rule bounded_update_memberships)?; simp add: live_membership_def)+

lemma bounded_keys [steady_intros]:
  "steady (bounded d0 C) (revokeAllByCreatorInOrganization env org oid creator)"
  "steady (bounded d0 C) (api_key_softDelete env org p oid)"
  unfolding revokeAllByCreatorInOrganization_def api_key_softDelete_def
  by (rule steadyI, intro ensures_intros; (clarify, rule bounded_update_keys)?; simp)+

lemma bounded_key_update: "keeps.advances (bounded d0 C) (api_key_update env org k name status)"
  unfolding api_key_update_def lookup_defs
  by (intro keeps_steady steady_intros, rule steadyI, intro ensures_intros, clarify, rule bounded_update_keys) simp_all

lemma bounded_offboarding: "keeps.advances (bounded d0 C) (billing_call m)"
  by (auto simp: keeps.advances_def billing_call_def bounded_frame split: prod.splits)

lemmas quiet_request_defs = membership_service_delete_def leaveOrganization_def remove_member_def transferOwnership_def
  transfer_in_organization_def transferOrganizationOwnership_def suspendExcessActiveMembersToFitCeiling_def
  member_invitation_accept_def accept_in_organization_def member_invitation_revoke_def member_invitation_resend_def
  load_invitation_def invitation_accept_def invitation_revoke_def invitation_resend_def
  throwInvitationAcceptFailure_def assertInvitationAcceptable_def member_role_update_def role_update_def
  member_role_delete_def softDeleteIfNoActiveMembers_def api_key_delete_def organization_service_update_def
  organization_delete_def begin_offboarding_def organization_update_def organization_markDeletionStarted_def
  organization_softDelete_def lookup_defs

fun grants_nothing :: "TenancyRequest \<Rightarrow> bool" where
  "grants_nothing (AddMember _ _ _ _) = False"
| "grants_nothing (UpdateMember _ _ _ _) = False"
| "grants_nothing (CreateRole _ _ _ _) = False"
| "grants_nothing (PutRolePermissions _ _ _) = False"
| "grants_nothing (CreateApiKey _ _ _ _) = False"
| "grants_nothing (RotateApiKey _ _) = False"
| "grants_nothing (CreateOrganization _ _ _) = False"
| "grants_nothing (CreatePersonal _) = False"
| "grants_nothing _ = True"

lemma bounded_quiet_request: "grants_nothing r \<Longrightarrow> keeps.advances (bounded d0 C) (tenancy_request env org r)"
  by (cases r; simp add: bounded_key_update keeps_discard; unfold quiet_request_defs;
      intro keeps_intros keeps_steady steady_intros bounded_offboarding)

section \<open>Requests that grant\<close>

definition leads :: "(TenancyDb \<Rightarrow> bool) \<Rightarrow> 'a tenancy \<Rightarrow> (TenancyDb \<Rightarrow> bool) \<Rightarrow> bool" where
  "leads P m Q \<longleftrightarrow> (\<forall>w. P (tw_db w) \<longrightarrow> Q (tw_db (snd (m w))))"

lemma leads_tx:
  assumes "\<And>s. P s \<Longrightarrow> Q s" and "\<And>s. P s \<Longrightarrow> ensures m (\<lambda>_. Q) s"
  shows "leads P (tenant_transaction m) Q"
  unfolding leads_def
proof (intro allI impI)
  fix w :: TenancyWorld assume "P (tw_db w)"
  then have "Q (snd (run_transaction m (tw_db w)))"
    using ensures_run_kept [of m "\<lambda>_. Q" "tw_db w"] assms by blast
  then show "Q (tw_db (snd (tenant_transaction m w)))" by (auto simp: tenant_transaction_def split: prod.splits)
qed

lemma leads_bind: "leads P m Q \<Longrightarrow> (\<And>a. keeps.advances Q (f a)) \<Longrightarrow> leads P (act_bind m f) Q"
  unfolding leads_def keeps.advances_def act_bind_def by (fastforce split: prod.splits sum.splits)

lemma leads_after: "keeps.advances P m \<Longrightarrow> (\<And>s. P s \<Longrightarrow> Q s) \<Longrightarrow> (\<And>a. leads P (f a) Q) \<Longrightarrow> leads P (act_bind m f) Q"
  unfolding leads_def keeps.advances_def act_bind_def by (fastforce split: prod.splits sum.splits)

lemma leads_if: "leads P m Q \<Longrightarrow> leads P n Q \<Longrightarrow> leads P (if b then m else n) Q"
  by simp

lemma leads_throw: "(\<And>s. P s \<Longrightarrow> Q s) \<Longrightarrow> leads P (act_throw e) Q"
  by (simp add: leads_def act_throw_def)

lemma leads_catch: "leads P m Q \<Longrightarrow> leads P (act_catch m (\<lambda>e. act_throw (g e))) Q"
  unfolding leads_def act_catch_def act_throw_def by (fastforce split: prod.splits sum.splits)

text \<open>The state of a request before its granting transaction: what it was, with a new account at most.\<close>

definition before_grant :: "TenancyDb \<Rightarrow> TenancyDb \<Rightarrow> bool" where
  "before_grant d0 d \<longleftrightarrow> (\<exists>us n. td_next_id d0 \<le> n \<and> d = d0\<lparr>td_users := td_users d0 @ us, td_next_id := n\<rparr>)"

lemma before_grant_refl: "before_grant d d"
  unfolding before_grant_def by (rule exI [of _ "[]"], rule exI [of _ "td_next_id d"]) simp

lemma before_grant_user: "before_grant d0 d \<Longrightarrow> before_grant d0 (d\<lparr>td_users := td_users d @ [u], td_next_id := Suc (td_next_id d)\<rparr>)"
  unfolding before_grant_def by (elim exE conjE, rule exI, rule exI) (rule conjI, rule le_SucI, assumption, simp)

lemma before_grant_bounded: "before_grant d0 d \<Longrightarrow> bounded d0 C d"
  by (auto simp: before_grant_def bounded_frame bounded_refl)

definition known_caller :: "TenancyDb \<Rightarrow> string option \<Rightarrow> bool" where
  "known_caller d caller \<longleftrightarrow> caller = None \<or> resolveUserInternalIdByPublicId caller d \<noteq> None"

lemma select_first_append: "select_first p t = Some x \<Longrightarrow> select_first p (t @ t') = Some x"
  by (induction t) auto

text \<open>What the guard lets through is within the caller's permissions before the request.\<close>

lemma may_grant_bounded:
  assumes "before_grant d0 d" and "known_caller d0 caller" and "may_grant caller org d codes" and "in_organization org d0 oid"
  shows "set codes \<subseteq> caller_codes d0 org caller oid"
proof (cases "codes = []")
  case False
  then obtain u where u: "caller = Some u" "set codes \<subseteq> set (findPermissionCodesForUserInOrganization u org d)"
    using assms(3) by (auto simp: may_grant_def)
  obtain us n where d: "d = d0\<lparr>td_users := td_users d0 @ us, td_next_id := n\<rparr>" using assms(1) by (auto simp: before_grant_def)
  obtain v where "findByPublicId u (td_users d0) = Some v"
    using assms(2) u(1) by (auto simp: known_caller_def resolveUserInternalIdByPublicId_def split: if_splits)
  then have "resolveUserInternalIdByPublicId (Some u) d = resolveUserInternalIdByPublicId (Some u) d0"
    by (simp add: d resolveUserInternalIdByPublicId_def findByPublicId_def select_first_append)
  then have "findPermissionCodesForUserInOrganization u org d = findPermissionCodesForUserInOrganization u org d0"
    by (simp add: findPermissionCodesForUserInOrganization_def d split: option.splits)
  with u assms(4) show ?thesis by (simp add: caller_codes_def)
qed simp

lemma in_found: "findOrganization org (td_billing d) = Some o' \<Longrightarrow> in_organization org d (og_id o')"
  by (simp add: in_organization_def)

lemma before_grant_same:
  assumes "before_grant d0 d"
  shows "td_billing d = td_billing d0" "td_roles d = td_roles d0" "td_role_permissions d = td_role_permissions d0"
    "td_memberships d = td_memberships d0" "in_organization org d = in_organization org d0" "grants_ok d = grants_ok d0"
    "listed_codes d i = listed_codes d0 i"
proof -
  obtain us n where "d = d0\<lparr>td_users := td_users d0 @ us, td_next_id := n\<rparr>" using assms by (auto simp: before_grant_def)
  then show "td_billing d = td_billing d0" "td_roles d = td_roles d0" "td_role_permissions d = td_role_permissions d0"
    "td_memberships d = td_memberships d0" "in_organization org d = in_organization org d0" "grants_ok d = grants_ok d0"
    "listed_codes d i = listed_codes d0 i"
    by (simp_all add: in_organization_def fun_eq_iff grants_ok_def listed_codes_def role_codes_def)
qed

lemma bounded_add_member:
  assumes "grants_ok d0" and "known_caller d0 caller" and b: "before_grant d0 s"
  shows "ensures (add_member env org caller invitee role days) (\<lambda>_. bounded d0 (caller_codes d0 org caller)) s"
proof (rule ensures_add_member)
  fix m :: MembershipRow and o' and r :: MemberRoleRow and t' evs
  assume o: "findOrganization org (td_billing s) = Some o'" and r: "may_grant caller org s (listed_codes s (ro_id r))"
    and m: "mb_organization_id m = og_id o'" "mb_role_id m = ro_id r"
  note same = before_grant_same [OF b]
  have "set (listed_codes s (ro_id r)) \<subseteq> caller_codes d0 org caller (og_id o')"
    using may_grant_bounded [OF b assms(2) r] in_found [OF o] same by simp
  then have "bounded d0 (caller_codes d0 org caller) (s\<lparr>td_memberships := td_memberships s @ [m]\<rparr>)"
    using listed_all [of s "ro_id r"] assms(1) same m
    by (intro bounded_insert_membership before_grant_bounded [OF b]) simp_all
  then show "bounded d0 (caller_codes d0 org caller) (s\<lparr>td_memberships := td_memberships s @ [m], td_invitations := t',
      td_next_id := Suc (Suc (td_next_id s)), td_events := evs\<rparr>)"
    by (simp add: bounded_def potential_def)
qed

lemma bounded_AddMember:
  assumes "grants_ok d0" and "known_caller d0 caller"
  shows "leads (before_grant d0) (membership_service_create env org caller email role days) (bounded d0 (caller_codes d0 org caller))"
  unfolding membership_service_create_def
  by (intro leads_if leads_throw leads_after leads_bind leads_tx keeps_intros keeps_findOrCreate before_grant_bounded before_grant_user
      bounded_add_member assms)

lemma bounded_UpdateMember:
  assumes "grants_ok d0" and "known_caller d0 caller"
  shows "leads (before_grant d0) (membership_service_update env org caller m status role) (bounded d0 (caller_codes d0 org caller))"
proof -
  have "ensures (update_membership_row env org caller m status role) (\<lambda>_. bounded d0 (caller_codes d0 org caller)) s"
    if b: "before_grant d0 s" for s
    unfolding update_membership_row_def membership_update_def
  proof (intro ensures_intros ensures_update_checks, clarify, rule bounded_update_memberships [OF before_grant_bounded [OF b]])
    fix o' mm roleId x
    assume o: "findOrganization org (td_billing s) = Some o'"
      and role: "\<And>i. roleId = Some i \<Longrightarrow> \<exists>r\<in>set (td_roles s). ro_id r = i \<and> ro_organization_id r = og_id o' \<and> live_role r \<and>
            may_grant caller org s (listed_codes s i)"
      and x: "in_organization org s (mb_organization_id x) \<and> mb_public_id x = mb_public_id mm \<and> mb_organization_id x = og_id o' \<and> live_membership x"
    have "set (listed_codes s i) \<subseteq> caller_codes d0 org caller (og_id o')" if "roleId = Some i" for i
      using may_grant_bounded [OF b assms(2)] role [OF that] in_found [OF o] before_grant_same [OF b] by metis
    then show "live_membership x \<and> (mb_role_id (membership_patch env status roleId x) = mb_role_id x \<or>
        {c. (mb_role_id (membership_patch env status roleId x), c) \<in> set (td_role_permissions s)} \<subseteq> caller_codes d0 org caller (mb_organization_id x))"
      using x listed_all [of s] assms(1) before_grant_same [OF b] by (cases roleId) (auto simp: membership_patch_def)
  qed (simp_all add: membership_patch_def)
  then show ?thesis
    unfolding membership_service_update_def
    by (intro leads_if leads_throw leads_bind leads_tx keeps_intros before_grant_bounded)
qed

lemma role_ids_below:
  assumes "tenant_ok d" and "m \<in> set (td_memberships d)" and "live_membership m"
  shows "mb_role_id m < td_next_id d"
  using tenant_ok_parts [OF assms(1)] assms(2,3) by (fastforce simp: roles_ok_def keys_ok_def)

lemma before_grant_next: "before_grant d0 d \<Longrightarrow> td_next_id d0 \<le> td_next_id d"
  by (auto simp: before_grant_def)

lemma bounded_CreateRole:
  assumes ok: "tenant_ok d0"
  shows "leads (before_grant d0) (member_role_create env org caller name description codes) (bounded d0 C)"
proof -
  have grant: "bounded d0 C (s\<lparr>td_roles := rs, td_next_id := n, td_role_permissions :=
        delete_where (\<lambda>x. fst x = td_next_id s) (td_role_permissions s) @ map (Pair (td_next_id s)) codes\<rparr>)"
    if b: "before_grant d0 s" for s rs n
  proof -
    have "mb_role_id m \<noteq> td_next_id s" if "m \<in> set (td_memberships s)" "live_membership m" for m
      using role_ids_below [OF ok] that before_grant_same(4) [OF b] before_grant_next [OF b] by fastforce
    then have "bounded d0 C (s\<lparr>td_role_permissions :=
        delete_where (\<lambda>x. fst x = td_next_id s) (td_role_permissions s) @ map (Pair (td_next_id s)) codes\<rparr>)"
      by (intro bounded_replace before_grant_bounded [OF b]) auto
    then show ?thesis by (simp add: bounded_def potential_def)
  qed
  show ?thesis
    unfolding member_role_create_def
    by (rule leads_tx, erule before_grant_bounded, intro ensures_intros) (simp_all add: bounded_frame before_grant_bounded grant)
qed

lemma bounded_PutRolePermissions:
  assumes ok: "tenant_ok d0" and known: "known_caller d0 caller"
  shows "leads (before_grant d0) (member_role_permission_put org caller role codes) (bounded d0 (caller_codes d0 org caller))"
proof -
  let ?C = "caller_codes d0 org caller"
  have grant: "bounded d0 ?C (s\<lparr>td_role_permissions :=
        delete_where (\<lambda>x. fst x = ro_id r) (td_role_permissions s) @ map (Pair (ro_id r)) codes\<rparr>)"
    if b: "before_grant d0 s" and o: "findOrganization org (td_billing s) = Some o'" and r: "r \<in> set (td_roles s)" "ro_organization_id r = og_id o'"
      and g: "may_grant caller org s (remdups (codes @ current))" for s o' r current
  proof (rule bounded_replace [OF before_grant_bounded [OF b]])
    fix m assume m: "m \<in> set (td_memberships s)" "live_membership m" "mb_role_id m = ro_id r"
    note same = before_grant_same [OF b]
    obtain r' where "r' \<in> set (td_roles s)" "ro_id r' = ro_id r" "ro_organization_id r' = mb_organization_id m"
      using tenant_ok_parts(3) [OF ok] m same by (auto simp: roles_ok_def)
    moreover have "distinct (map ro_id (td_roles s))" using tenant_ok_parts(1) [OF ok] same by (simp add: keys_ok_def)
    ultimately have "mb_organization_id m = og_id o'" using r by (metis distinct_key_eq)
    then show "set codes \<subseteq> ?C (mb_organization_id m)"
      using may_grant_bounded [OF b known g] in_found [OF o] same by simp
  qed
  show ?thesis
    unfolding member_role_permission_put_def
    by (rule leads_bind [OF _ keeps_quiet(1)], rule leads_tx, erule before_grant_bounded)
       (intro ensures_intros; clarify?; (rule grant | rule before_grant_bounded); assumption)
qed

lemma may_grant_keys: "may_grant caller org (s\<lparr>td_api_keys := ks\<rparr>) codes = may_grant caller org s codes"
  by (simp add: may_grant_def findPermissionCodesForUserInOrganization_def resolveUserInternalIdByPublicId_def)

lemma bounded_mint:
  assumes b: "before_grant d0 d" and known: "known_caller d0 (Some caller)" and s: "s = d\<lparr>td_api_keys := ks\<rparr>"
    and sb: "bounded d0 (caller_codes d0 org (Some caller)) s"
  shows "ensures (api_key_mint env org caller name scopes expiresAt) (\<lambda>_. bounded d0 (caller_codes d0 org (Some caller))) s"
proof -
  have "bounded d0 (caller_codes d0 org (Some caller)) (s\<lparr>td_api_keys := td_api_keys s @ [k], td_next_id := n\<rparr>)"
    if "may_grant (Some caller) org s scopes" "findOrganization org (td_billing s) = Some o'" "ak_organization_id k = og_id o'"
      "ak_scopes k = scopes" for o' k n
  proof -
    have "set scopes \<subseteq> caller_codes d0 org (Some caller) (og_id o')"
      using that may_grant_bounded [OF b known] in_found [of org d o'] before_grant_same [OF b] s by (simp add: may_grant_keys)
    then have "bounded d0 (caller_codes d0 org (Some caller)) (s\<lparr>td_api_keys := td_api_keys s @ [k]\<rparr>)"
      using that by (intro bounded_insert_key sb) simp
    then show ?thesis by (simp add: bounded_def potential_def)
  qed
  then show ?thesis
    unfolding api_key_mint_def by (intro ensures_intros) simp_all
qed

lemma bounded_CreateApiKey:
  assumes "known_caller d0 (Some caller)"
  shows "leads (before_grant d0) (api_key_service_create env org caller name scopes days) (bounded d0 (caller_codes d0 org (Some caller)))"
  unfolding api_key_service_create_def
proof (intro leads_tx before_grant_bounded)
  fix s assume b: "before_grant d0 s"
  show "ensures (api_key_mint env org caller name scopes (case days of None \<Rightarrow> None | Some n \<Rightarrow> if n = 0 then None
        else Some (addDays (te_timeZone env) (te_jsNow env) (int n)))) (\<lambda>_. bounded d0 (caller_codes d0 org (Some caller))) s"
    by (rule bounded_mint [OF b assms, of _ "td_api_keys s"]) (simp_all add: before_grant_bounded [OF b])
qed

lemma bounded_RotateApiKey:
  assumes "known_caller d0 (Some caller)"
  shows "leads (before_grant d0) (api_key_rotate env org caller k) (bounded d0 (caller_codes d0 org (Some caller)))"
  unfolding api_key_rotate_def api_key_softDelete_def
  by (rule leads_tx, erule before_grant_bounded)
     (intro ensures_intros; clarify?; (rule bounded_mint [OF _ assms], assumption, rule refl,
        intro bounded_update_keys before_grant_bounded; simp))

lemma bounded_default_roles:
  "tenant_ok s \<Longrightarrow> bounded d0 C s \<Longrightarrow> ensures (provision_default_roles env org oid k xs) (\<lambda>_. bounded d0 C) s"
proof (induction xs arbitrary: k s)
  case (Cons x xs)
  show ?case
    unfolding provision_default_roles.simps
  proof (intro ensures_intros Cons.IH)
    fix r :: MemberRoleRow assume "ro_id r = td_next_id s"
    with Cons.prems show "tenant_ok (s\<lparr>td_roles := td_roles s @ [r], td_next_id := Suc (td_next_id s), td_role_permissions :=
        td_role_permissions (s\<lparr>td_roles := td_roles s @ [r], td_next_id := Suc (td_next_id s)\<rparr>) @ map (Pair (ro_id r)) (snd (snd x))\<rparr>)"
      by (simp add: tenant_ok_frame tenant_ok_insert_role)
    have "mb_role_id m \<noteq> ro_id r" if "m \<in> set (td_memberships s)" "live_membership m" for m
      using role_ids_below [OF Cons.prems(1) that] \<open>ro_id r = td_next_id s\<close> by simp
    then show "bounded d0 C (s\<lparr>td_roles := td_roles s @ [r], td_next_id := Suc (td_next_id s), td_role_permissions :=
        td_role_permissions (s\<lparr>td_roles := td_roles s @ [r], td_next_id := Suc (td_next_id s)\<rparr>) @ map (Pair (ro_id r)) (snd (snd x))\<rparr>)"
      using Cons.prems(2) by (intro bounded_grant_unused) (auto simp: bounded_frame)
  qed
qed (simp add: ensures_return)

lemma bounded_provision:
  assumes ok: "tenant_ok d0" and b: "before_grant d0 s"
  shows "ensures (provisionOrganization env name slug type ownerId) (\<lambda>_. bounded d0 C) s"
proof (rule ensures_provision)
  fix o' :: OrganizationRow and r :: MemberRoleRow and codes and m :: MembershipRow
  assume new: "og_id o' = td_next_id s" "og_owner_user_id o' = ownerId" "ro_id r = Suc (td_next_id s)" "ro_organization_id r = og_id o'"
    "live_role r" "mb_id m = Suc (Suc (td_next_id s))" "active_member ownerId (og_id o') m" "mb_role_id m = ro_id r"
    "membership_index (td_memberships s @ [m]) = None"
  have oks: "tenant_ok s"
    using ok b by (auto simp: before_grant_def tenant_ok_def tenant_rows_ok_def keys_ok_def) (meson less_le_trans)+
  have "mb_role_id x \<noteq> ro_id r" if "x \<in> set (td_memberships s @ [m])" "live_membership x" "mb_organization_id x < td_next_id d0" for x
    using that role_ids_below [OF oks] new before_grant_next [OF b] by (fastforce simp: active_member_def)
  moreover have "bounded d0 C (s\<lparr>td_memberships := td_memberships s @ [m]\<rparr>)"
    using new before_grant_next [OF b] by (intro bounded_insert_membership before_grant_bounded [OF b]) (simp add: active_member_def)
  ultimately have "bounded d0 C ((s\<lparr>td_memberships := td_memberships s @ [m]\<rparr>)\<lparr>td_role_permissions :=
      td_role_permissions (s\<lparr>td_memberships := td_memberships s @ [m]\<rparr>) @ map (Pair (ro_id r)) codes\<rparr>)"
    by (intro bounded_grant_unused) auto
  then have "bounded d0 C (provisioned s o' r codes m)" by (simp add: bounded_def potential_def provisioned_def)
  then show "ensures (if type = ''TEAM'' then provision_default_roles env (te_publicId env 1) (og_id o') 1 DEFAULT_TEAM_ROLES
      else act_return ()) (\<lambda>_. bounded d0 C) (provisioned s o' r codes m)"
    using new by (intro ensures_if bounded_default_roles ensures_return ok_provisioned [OF oks]) auto
qed

lemma bounded_Create:
  assumes "tenant_ok d0"
  shows "leads (before_grant d0) (organization_create env owner name slug) (bounded d0 C)"
    and "leads (before_grant d0) (provisionPersonalOrganization env ownerId) (bounded d0 C)"
  unfolding organization_create_def provisionPersonalOrganization_def
  by (intro leads_if leads_throw leads_after leads_tx leads_catch before_grant_bounded bounded_provision assms keeps_steady steady_intros;
      assumption)+

lemma leads_discard: "leads P m Q \<Longrightarrow> leads P (discard m) Q"
  unfolding discard_def by (rule leads_bind) (auto intro: keeps.advances_return)

lemma bounded_request:
  assumes ok: "tenant_ok d0" and "grants_ok d0" and "known_caller d0 (request_caller r)"
  shows "leads (before_grant d0) (tenancy_request env org r) (bounded d0 (caller_codes d0 org (request_caller r)))"
proof (cases "grants_nothing r")
  case True
  then show ?thesis
    using bounded_quiet_request before_grant_bounded unfolding leads_def keeps.advances_def by blast
next
  case False
  with assms show ?thesis
    by (cases r) (simp_all add: leads_discard bounded_AddMember bounded_UpdateMember bounded_CreateRole
        bounded_PutRolePermissions bounded_CreateApiKey bounded_RotateApiKey bounded_Create)
qed

text \<open>C18 Nobody gains a permission the caller does not hold: after any one request, what a user could do in an
  organization that existed before (the codes of their role, whether their membership is active, suspended or
  only invited) is within what they could before and what the caller holds in the organization of the
  request, in which alone it can grow; and a key's scopes are those of a key that was there, or within what
  the caller holds.\<close>

theorem no_privilege_escalation:
  assumes "tenant_ok (tw_db w)" and "grants_ok (tw_db w)" and "known_caller (tw_db w) (request_caller r)"
    and "oid < td_next_id (tw_db w)" and "(res, w') = tenancy_request env org r w"
  shows "potential (tw_db w') user oid \<subseteq> potential (tw_db w) user oid \<union> caller_codes (tw_db w) org (request_caller r) oid \<and>
    {k \<in> set (td_api_keys (tw_db w')). \<not> set (ak_scopes k) \<subseteq> caller_codes (tw_db w) org (request_caller r) (ak_organization_id k) \<and>
       (ak_id k, ak_scopes k) \<notin> (\<lambda>k. (ak_id k, ak_scopes k)) ` set (td_api_keys (tw_db w))} = {}"
proof -
  have w': "w' = snd (tenancy_request env org r w)" using assms(5) by (metis snd_conv)
  have "bounded (tw_db w) (caller_codes (tw_db w) org (request_caller r)) (tw_db w')"
    using bounded_request [OF assms(1-3)] before_grant_refl unfolding leads_def w' by blast
  then show ?thesis using assms(4) unfolding bounded_def by (fastforce simp: image_iff)
qed

lemma potential_code [code]:
  "potential d user oid = set (map snd (filter (\<lambda>x. \<exists>m \<in> set (td_memberships d). live_membership m \<and> mb_user_id m = user \<and>
     mb_organization_id m = oid \<and> mb_role_id m = fst x) (td_role_permissions d)))"
  by (force simp: potential_def)

theorem no_privilege_escalation_witness:
  "potential (tw_db (demo_run [AddMember (Some ''usr_2'') ''c'' ''rol_ops'' 7])) 3 7 = {''membership:read''} \<and>
   potential (tw_db (demo_run [AddMember (Some ''usr_2'') ''c'' ''rol_owner'' 7])) 3 7 = {} \<and>
   potential (tw_db (demo_run [AddMember (Some ''usr_2'') ''c'' ''rol_ops'' 7])) 3 7 \<subseteq>
     potential demo_tenancy_db 3 7 \<union> caller_codes demo_tenancy_db ''org_a'' (Some ''usr_2'') 7"
proof (intro conjI)
  show "potential (tw_db (demo_run [AddMember (Some ''usr_2'') ''c'' ''rol_ops'' 7])) 3 7 = {''membership:read''}"
    and "potential (tw_db (demo_run [AddMember (Some ''usr_2'') ''c'' ''rol_owner'' 7])) 3 7 = {}" by code_simp+
  let ?r = "AddMember (Some ''usr_2'') ''c'' ''rol_ops'' 7"
  have "grants_ok demo_tenancy_db" and "known_caller demo_tenancy_db (Some ''usr_2'')"
    by (simp_all add: grants_ok_def known_caller_def demo_tenancy_db_def MEMBER_ROLE_PERMISSION_MAX_ROWS_PER_ROLE_def
        resolveUserInternalIdByPublicId_def findByPublicId_def live_user_def demo_user_def)
  then show "potential (tw_db (demo_run [?r])) 3 7 \<subseteq>
      potential demo_tenancy_db 3 7 \<union> caller_codes demo_tenancy_db ''org_a'' (Some ''usr_2'') 7"
    using no_privilege_escalation [of demo_tenancy_world ?r 7 "fst (tenancy_request demo_tenancy_env ''org_a'' ?r demo_tenancy_world)"
        "snd (tenancy_request demo_tenancy_env ''org_a'' ?r demo_tenancy_world)" demo_tenancy_env "''org_a''" 3] demo_tenant_ok
    by (simp add: demo_tenancy_world_def demo_run_def tenancy_requests_def demo_tenancy_db_def)
qed

end
