(* ===== verification/Member_Lifecycle.thy ===== *)
theory Member_Lifecycle
  imports Grants
begin

text \<open>
  Seats and activation.  The locale \<open>membership_watch\<close> is for predicates that read memberships only and
  survive a suspension or a removal: the requests that add, patch, activate or create are the ones a
  predicate has to look at; the other fourteen are done once.  It is interpreted for the bound on seats and for
  the consent of the members.
\<close>

section \<open>Predicates on memberships\<close>

definition weakened :: "MembershipRow \<Rightarrow> MembershipRow \<Rightarrow> bool" where
  "weakened m m' \<longleftrightarrow> mb_id m' = mb_id m \<and> mb_user_id m' = mb_user_id m \<and> mb_organization_id m' = mb_organization_id m \<and>
     (mb_status m' = ''SUSPENDED'' \<or> \<not> live_membership m')"

fun raises :: "TenancyRequest \<Rightarrow> bool" where
  "raises (AddMember _ _ _ _) = True"
| "raises (UpdateMember _ _ _ _) = True"
| "raises (AcceptInvitation _ _ _) = True"
| "raises (CreateOrganization _ _ _) = True"
| "raises (CreatePersonal _) = True"
| "raises _ = False"

locale membership_watch =
  fixes P :: "TenancyDb \<Rightarrow> bool"
  assumes same_rows: "P d \<Longrightarrow> td_memberships d' = td_memberships d \<Longrightarrow> P d'"
    and weaker_rows: "P d \<Longrightarrow> (\<And>m. m \<in> set (td_memberships d) \<Longrightarrow> p m \<Longrightarrow> weakened m (f m)) \<Longrightarrow>
      P (d\<lparr>td_memberships := update_where p f (td_memberships d)\<rparr>)"
begin

lemma frame [simp]:
  "P (d\<lparr>td_invitations := is\<rparr>) = P d" "P (d\<lparr>td_api_keys := ks\<rparr>) = P d" "P (d\<lparr>td_events := es\<rparr>) = P d"
  "P (d\<lparr>td_roles := rs\<rparr>) = P d" "P (d\<lparr>td_role_permissions := ps\<rparr>) = P d" "P (d\<lparr>td_users := us\<rparr>) = P d"
  "P (d\<lparr>td_billing := b\<rparr>) = P d" "P (d\<lparr>td_next_id := n\<rparr>) = P d"
  by (auto elim: same_rows)

lemma watch_statements:
  "steady P (update_invitation org pi fi)" "steady P (update_api_key org pk fk)" "steady P (emitStrict env e)"
  "steady P (update_role org pr fr)" "steady P (update_organization po fo)" "steady P (role_permission_replace org i codes)"
  "steady P (role_create env org oid name description)" "steady P (api_key_create env org oid kname scopes expiresAt creator)"
  by (rule steadyI, intro ensures_intros, simp_all)+

lemma watch_owner: "steady P (updateOwner org new)"
  unfolding updateOwner_def by (rule steadyI, rule ensures_sql) (auto simp: Let_def update_row_def)

lemma watch_notify: "steady P (notify_accepted env org oid u)"
  unfolding notify_accepted_def Let_def by (intro steady_intros, rule steadyI, rule ensures_sql) auto

lemma watch_weaken:
  "steady P (membership_softDelete env org p oid)" "steady P (suspendExcessActiveMembers env org oid owner n)"
  unfolding membership_softDelete_def suspendExcessActiveMembers_def
  by (rule steadyI, intro ensures_intros; (clarify, rule weaker_rows)?; simp add: weakened_def live_membership_def)+

lemma watch_keys:
  "steady P (revokeAllByCreatorInOrganization env org oid creator)" "steady P (api_key_softDelete env org p oid)"
  unfolding revokeAllByCreatorInOrganization_def api_key_softDelete_def by (intro steady_intros watch_statements)+

lemma watch_offboarding: "keeps.advances P (billing_call m)"
  by (auto simp: keeps.advances_def billing_call_def split: prod.splits)

lemma watch_provider: "keeps.advances P (findOrCreateInvitedByEmail env email)"
  by (rule keeps_findOrCreate) simp

lemma watch_request: "\<not> raises r \<Longrightarrow> keeps.advances P (tenancy_request env org r)"
  by (cases r; simp add: keeps_discard;
      unfold quiet_request_defs member_role_create_def member_role_permission_put_def api_key_service_create_def api_key_mint_def
        api_key_update_def api_key_rotate_def;
      intro keeps_intros keeps_steady steady_intros watch_statements watch_owner watch_weaken watch_keys watch_offboarding)

lemma watch_accept:
  assumes "\<And>mid oid org. steady P (activateForInvitationAccept env org mid oid)"
  shows "keeps.advances P (member_invitation_accept env i token user)"
  unfolding quiet_request_defs
  by (intro keeps_intros keeps_steady steady_intros watch_statements watch_notify assms)

lemma watch_default_roles: "steady P (provision_default_roles env org oid k xs)"
proof (induction xs arbitrary: k)
  case (Cons x xs)
  have "steady P (insert_system_role env org oid k name description)" for name description
    by (rule steadyI, intro ensures_intros) simp
  moreover have "steady P (insert_role_permissions org i codes)" for i codes
    by (rule steadyI, intro ensures_intros) simp
  ultimately show ?case using Cons by (auto intro!: steady_intros)
qed (simp add: steady_basic)

lemma watch_create:
  assumes ok: "tenant_ok d0" and start: "\<And>s. before_grant d0 s \<Longrightarrow> P s"
    and new: "\<And>s m. before_grant d0 s \<Longrightarrow> mb_id m \<ge> td_next_id d0 \<Longrightarrow> mb_organization_id m \<ge> td_next_id d0 \<Longrightarrow>
      P (s\<lparr>td_memberships := td_memberships s @ [m]\<rparr>)"
  shows "leads (before_grant d0) (organization_create env owner name slug) P"
    and "leads (before_grant d0) (provisionPersonalOrganization env ownerId) P"
proof -
  have prov: "ensures (provisionOrganization env name slug type ownerId) (\<lambda>_. P) s" if b: "before_grant d0 s" for s name slug type ownerId
  proof (rule ensures_provision)
    fix o' :: OrganizationRow and r :: MemberRoleRow and codes and m :: MembershipRow
    assume "og_id o' = td_next_id s" "mb_id m = Suc (Suc (td_next_id s))" "active_member ownerId (og_id o') m"
    then have "P (s\<lparr>td_memberships := td_memberships s @ [m]\<rparr>)"
      using before_grant_next [OF b] by (intro new [OF b]) (auto simp: active_member_def)
    then have "P (provisioned s o' r codes m)" by (rule same_rows) (simp add: provisioned_def)
    then show "ensures (if type = ''TEAM'' then provision_default_roles env (te_publicId env 1) (og_id o') 1 DEFAULT_TEAM_ROLES
        else act_return ()) (\<lambda>_. P) (provisioned s o' r codes m)"
      by (intro ensures_if steadyD [OF watch_default_roles] ensures_return)
  qed
  show "leads (before_grant d0) (organization_create env owner name slug) P"
    and "leads (before_grant d0) (provisionPersonalOrganization env ownerId) P"
    unfolding organization_create_def provisionPersonalOrganization_def
    by (intro leads_if leads_throw leads_after leads_tx leads_catch start prov keeps_steady steady_intros; assumption)+
qed

end

section \<open>Seats\<close>

definition seats :: "TenancyDb \<Rightarrow> nat \<Rightarrow> nat" where
  "seats d oid = length (filter (seat_of oid) (td_memberships d))"

text \<open>The seats of an organization have not grown, or are within the ceiling billing gave at the start.\<close>

definition within_ceiling :: "TenancyDb \<Rightarrow> TenancyEnv \<Rightarrow> string \<Rightarrow> TenancyDb \<Rightarrow> bool" where
  "within_ceiling d0 env org d \<longleftrightarrow> (\<forall>oid < td_next_id d0. seats d oid \<le> seats d0 oid \<or>
     (in_organization org d0 oid \<and> (\<forall>c. seat_ceiling (te_billing env) org oid (td_billing d0) = Some c \<longrightarrow> int (seats d oid) \<le> c)))"

lemma length_filter_update_le:
  assumes "\<And>r. r \<in> set t \<Longrightarrow> p r \<Longrightarrow> q (f r) \<Longrightarrow> q r"
  shows "length (filter q (update_where p f t)) \<le> length (filter q t)"
  using assms
proof (induction t)
  case (Cons a t)
  then have "length (filter q (update_where p f t)) \<le> length (filter q t)" by simp
  with Cons.prems [of a] show ?case by auto
qed simp

lemma within_ceiling_le:
  assumes "within_ceiling d0 env org d" and "\<And>oid. seats d' oid \<le> seats d oid"
  shows "within_ceiling d0 env org d'"
  unfolding within_ceiling_def
proof (intro allI impI)
  fix oid assume "oid < td_next_id d0"
  then consider "seats d oid \<le> seats d0 oid" | "in_organization org d0 oid"
      "\<And>c. seat_ceiling (te_billing env) org oid (td_billing d0) = Some c \<Longrightarrow> int (seats d oid) \<le> c"
    using assms(1) unfolding within_ceiling_def by blast
  then show "seats d' oid \<le> seats d0 oid \<or> (in_organization org d0 oid \<and>
      (\<forall>c. seat_ceiling (te_billing env) org oid (td_billing d0) = Some c \<longrightarrow> int (seats d' oid) \<le> c))"
    using assms(2) [of oid] by cases fastforce+
qed

interpretation seats: membership_watch "within_ceiling d0 env org" for d0 env org
proof
  fix d p f assume P: "within_ceiling d0 env org d" and w: "\<And>m. m \<in> set (td_memberships d) \<Longrightarrow> p m \<Longrightarrow> weakened m (f m)"
  have "\<not> seat_of oid (f m)" if "m \<in> set (td_memberships d)" "p m" for m oid
    using w [OF that] by (auto simp: weakened_def seat_of_def membershipStatusConsumesSeat_def SEAT_CONSUMING_MEMBERSHIP_STATUSES_def)
  then show "within_ceiling d0 env org (d\<lparr>td_memberships := update_where p f (td_memberships d)\<rparr>)"
    by (intro within_ceiling_le [OF P]) (auto simp: seats_def intro: length_filter_update_le)
qed (simp add: within_ceiling_def seats_def)

lemma seats_activate: "steady (within_ceiling d0 env org) (activateForInvitationAccept env' org' mid oid)"
  unfolding activateForInvitationAccept_def
  by (rule steadyI, intro ensures_intros, clarify, erule within_ceiling_le)
     (auto intro!: length_filter_update_le simp: seats_def seat_of_def membershipStatusConsumesSeat_def
        SEAT_CONSUMING_MEMBERSHIP_STATUSES_def live_membership_def)

lemma before_grant_within: "before_grant d0 d \<Longrightarrow> within_ceiling d0 env org d"
  by (simp add: within_ceiling_def seats_def before_grant_same)

lemma seats_counted:
  "findOrganization org (td_billing d) = Some o' \<Longrightarrow> countActiveByOrganization org (og_id o') d = seats d (og_id o')"
  by (auto simp: countActiveByOrganization_def seats_def seat_of_def in_organization_def intro!: arg_cong [where f = length] filter_cong)

lemma within_ceiling_one:
  assumes b: "before_grant d0 s" and o: "findOrganization org (td_billing s) = Some o'"
    and one: "seats d (og_id o') \<le> Suc (seats s (og_id o'))" and other: "\<And>oid. oid \<noteq> og_id o' \<Longrightarrow> seats d oid \<le> seats s oid"
    and room: "\<And>c. seat_ceiling (te_billing env) org (og_id o') (td_billing s) = Some c \<Longrightarrow> int (countActiveByOrganization org (og_id o') s) < c"
  shows "within_ceiling d0 env org d"
  unfolding within_ceiling_def
proof (intro allI impI)
  fix oid
  have s0: "seats s oid = seats d0 oid" by (simp add: seats_def before_grant_same [OF b])
  show "seats d oid \<le> seats d0 oid \<or> (in_organization org d0 oid \<and>
      (\<forall>c. seat_ceiling (te_billing env) org oid (td_billing d0) = Some c \<longrightarrow> int (seats d oid) \<le> c))"
  proof (cases "oid = og_id o'")
    case True
    then have "in_organization org d0 oid" using in_found [OF o] before_grant_same(5) [OF b] by simp
    moreover have "int (seats d oid) \<le> c" if "seat_ceiling (te_billing env) org oid (td_billing d0) = Some c" for c
      using room [of c] one True that seats_counted [OF o] before_grant_same(1) [OF b] by simp
    ultimately show ?thesis by blast
  qed (use other [of oid] s0 in simp)
qed

lemma seats_add_member:
  assumes b: "before_grant d0 s"
  shows "ensures (add_member env org caller invitee role days) (\<lambda>_. within_ceiling d0 env org) s"
proof (rule ensures_add_member)
  fix m :: MembershipRow and o' and r :: MemberRoleRow and t' evs
  assume o: "findOrganization org (td_billing s) = Some o'" and m: "mb_organization_id m = og_id o'"
    and c: "\<And>c. seat_ceiling (te_billing env) org (og_id o') (td_billing s) = Some c \<Longrightarrow> int (countActiveByOrganization org (og_id o') s) < c"
  show "within_ceiling d0 env org (s\<lparr>td_memberships := td_memberships s @ [m], td_invitations := t',
      td_next_id := Suc (Suc (td_next_id s)), td_events := evs\<rparr>)"
    by (rule within_ceiling_one [OF b o _ _ c]) (use m in \<open>auto simp: seats_def seat_of_def\<close>)
qed

lemma length_filter_update_one:
  assumes "distinct (map k t)" and "\<And>r. r \<in> set t \<Longrightarrow> p r \<Longrightarrow> k r = key"
  shows "length (filter q (update_where p f t)) \<le> Suc (length (filter q t))"
  using assms
proof (induction t)
  case (Cons a t)
  show ?case
  proof (cases "p a")
    case True
    then have "\<not> p r" if "r \<in> set t" for r using Cons.prems that by (metis distinct.simps(2) image_eqI list.set_intros list.set_map list.simps(9))
    then have "update_where p f t = t" by (rule update_where_id)
    then show ?thesis by simp
  next
    case False
    then show ?thesis using Cons by simp
  qed
qed simp

lemma seats_update_member:
  assumes b: "before_grant d0 s" and ok: "tenant_ok d0" and status: "status \<in> {None, Some ''ACTIVE'', Some ''SUSPENDED''}"
  shows "ensures (update_membership_row env org caller publicId status role) (\<lambda>_. within_ceiling d0 env org) s"
  unfolding update_membership_row_def membership_update_def
proof (intro ensures_intros ensures_update_checks, clarify)
  fix o' m roleId
  assume o: "findOrganization org (td_billing s) = Some o'" and m: "m \<in> set (td_memberships s)"
    and c: "status = Some ''ACTIVE'' \<Longrightarrow> mb_status m \<noteq> ''ACTIVE'' \<Longrightarrow>
      \<forall>c. seat_ceiling (te_billing env) org (og_id o') (td_billing s) = Some c \<longrightarrow> int (countActiveByOrganization org (og_id o') s) < c"
  let ?p = "\<lambda>x. in_organization org s (mb_organization_id x) \<and> mb_public_id x = mb_public_id m \<and> mb_organization_id x = og_id o' \<and> live_membership x"
  let ?f = "membership_patch env status roleId"
  let ?s = "s\<lparr>td_memberships := update_where ?p ?f (td_memberships s)\<rparr>"
  note same = before_grant_same [OF b]
  have keys: "distinct (map mb_public_id (td_memberships s))" using tenant_ok_parts(1) [OF ok] same by (simp add: keys_ok_def)
  have org: "mb_organization_id (?f x) = mb_organization_id x" "live_membership (?f x) = live_membership x" for x
    by (simp_all add: membership_patch_def live_membership_def)
  show "within_ceiling d0 env org ?s"
  proof (cases "status = Some ''ACTIVE'' \<and> mb_status m \<noteq> ''ACTIVE''")
    case True
    show ?thesis
    proof (rule within_ceiling_one [OF b o])
      show "seats ?s (og_id o') \<le> Suc (seats s (og_id o'))"
        unfolding seats_def by (simp, rule length_filter_update_one [OF keys]) auto
      show "seats ?s oid \<le> seats s oid" if "oid \<noteq> og_id o'" for oid
        unfolding seats_def by (simp, rule length_filter_update_le) (use that in \<open>auto simp: seat_of_def org\<close>)
    qed (use c True in blast)
  next
    case False
    have "x = m" if "x \<in> set (td_memberships s)" "?p x" for x using that keys m by (blast intro: distinct_key_eq)
    then have "seat_of oid x" if "x \<in> set (td_memberships s)" "?p x" "seat_of oid (?f x)" for x oid
      using that status False org
      by (auto simp: seat_of_def membership_patch_def membershipStatusConsumesSeat_def SEAT_CONSUMING_MEMBERSHIP_STATUSES_def)
    then show ?thesis
      by (intro within_ceiling_le [OF before_grant_within [OF b]]) (simp add: seats_def, rule length_filter_update_le, blast)
  qed
qed

fun re_invites :: "TenancyRequest \<Rightarrow> bool" where
  "re_invites (UpdateMember _ _ status _) = (status = Some ''INVITED'')"
| "re_invites _ = False"

lemma seats_request:
  assumes ok: "tenant_ok d0" and "\<not> re_invites r"
  shows "leads (before_grant d0) (tenancy_request env org r) (within_ceiling d0 env org)"
proof (cases "raises r")
  case False
  then show ?thesis
    using seats.watch_request before_grant_within unfolding leads_def keeps.advances_def by blast
next
  case True
  have add: "leads (before_grant d0) (membership_service_create env org caller email role days) (within_ceiling d0 env org)"
    for caller email role days
    unfolding membership_service_create_def
    by (intro leads_if leads_throw leads_after leads_bind leads_tx keeps_intros keeps_findOrCreate before_grant_within before_grant_user
        seats_add_member)
  have patch: "leads (before_grant d0) (membership_service_update env org caller m status role) (within_ceiling d0 env org)"
    if "status \<noteq> Some ''INVITED''" for caller m status role
  proof (cases "validateUpdateMembership status role")
    case True
    with that have "status \<in> {None, Some ''ACTIVE'', Some ''SUSPENDED''}"
      by (auto simp: validateUpdateMembership_def split: option.splits)
    then show ?thesis
      unfolding membership_service_update_def
      by (intro leads_if leads_throw leads_bind leads_tx keeps_intros before_grant_within seats_update_member ok)
  qed (simp add: membership_service_update_def leads_throw before_grant_within)
  have accept: "leads (before_grant d0) (member_invitation_accept env i token user) (within_ceiling d0 env org)" for i token user
    using seats.watch_accept [OF seats_activate] before_grant_within unfolding leads_def keeps.advances_def by blast
  have "within_ceiling d0 env org (s\<lparr>td_memberships := td_memberships s @ [m]\<rparr>)"
    if "before_grant d0 s" "mb_organization_id m \<ge> td_next_id d0" for s m
    using that before_grant_within [OF that(1)] by (auto simp: within_ceiling_def seats_def seat_of_def)
  note create = seats.watch_create [OF ok before_grant_within this]
  from True assms(2) show ?thesis by (cases r) (auto simp: leads_discard add patch accept create)
qed

text \<open>C23 Seats stay within the plan: no request but a PATCH of a status to \<^verbatim>\<open>INVITED\<close> takes an organization that
  exists above its seat ceiling: either its seats, the live memberships that are active or invited, have not
  grown, or they are within the ceiling that billing computes (the seats bought or included, and the free
  plan's once a dunning grace has run out).\<close>

theorem seats_stay_within_ceiling:
  assumes "tenant_ok (tw_db w)" and "\<not> re_invites r" and "oid < td_next_id (tw_db w)"
    and "seats (tw_db (snd (tenancy_request env org r w))) oid > seats (tw_db w) oid"
  shows "in_organization org (tw_db w) oid \<and>
    (case seat_ceiling (te_billing env) org oid (td_billing (tw_db w)) of None \<Rightarrow> True
     | Some c \<Rightarrow> int (seats (tw_db (snd (tenancy_request env org r w))) oid) \<le> c)"
proof -
  have "within_ceiling (tw_db w) env org (tw_db (snd (tenancy_request env org r w)))"
    using seats_request [OF assms(1,2)] before_grant_refl unfolding leads_def by blast
  with assms(3,4) show ?thesis by (auto simp: within_ceiling_def split: option.splits)
qed

theorem seats_stay_within_ceiling_witness:
  "seats (tw_db (demo_run [AddMember (Some ''usr_2'') ''c'' ''rol_ops'' 7])) 7 = 3 \<and>
   seat_ceiling demo_billing_env ''org_a'' 7 (td_billing demo_tenancy_db) = Some 5 \<and>
   int (seats (tw_db (demo_run [AddMember (Some ''usr_2'') ''c'' ''rol_ops'' 7])) 7) \<le> 5"
proof -
  let ?r = "AddMember (Some ''usr_2'') ''c'' ''rol_ops'' 7"
  have *: "seats (tw_db (demo_run [?r])) 7 = 3" "seat_ceiling demo_billing_env ''org_a'' 7 (td_billing demo_tenancy_db) = Some 5"
      "seats demo_tenancy_db 7 = 2" by code_simp+
  have "te_billing demo_tenancy_env = demo_billing_env" "td_next_id demo_tenancy_db = 40"
    by (simp_all add: demo_tenancy_env_def demo_tenancy_db_def)
  with * show ?thesis
    using seats_stay_within_ceiling [of demo_tenancy_world ?r 7 demo_tenancy_env "''org_a''"] demo_tenant_ok
    by (simp add: demo_tenancy_world_def demo_run_def tenancy_requests_def)
qed

section \<open>Consent\<close>

text \<open>Every active membership that existed before was active before, or is one \<open>A\<close> allows to become so.\<close>

definition activated_by :: "(nat \<Rightarrow> bool) \<Rightarrow> TenancyDb \<Rightarrow> TenancyDb \<Rightarrow> bool" where
  "activated_by A d0 d \<longleftrightarrow> (\<forall>m \<in> set (td_memberships d). mb_status m = ''ACTIVE'' \<longrightarrow> live_membership m \<longrightarrow> mb_id m < td_next_id d0 \<longrightarrow>
     (\<exists>m0 \<in> set (td_memberships d0). mb_id m0 = mb_id m \<and> mb_status m0 = ''ACTIVE'') \<or> A (mb_id m))"

definition accepts_for :: "TenancyDb \<Rightarrow> TenancyEnv \<Rightarrow> string \<Rightarrow> string \<Rightarrow> string \<Rightarrow> nat \<Rightarrow> bool" where
  "accepts_for d env invId token user i \<longleftrightarrow> (\<exists>x \<in> set (td_invitations d). mi_public_id x = invId \<and> mi_membership_id x = i \<and>
     mi_token_hash x = te_sha256 env token \<and> mi_accepted_at x = None \<and> mi_revoked_at x = None \<and> te_jsNow env < mi_expires_at x \<and>
     (\<exists>v. findByPublicId user (td_users d) = Some v \<and> us_is_email_verified v \<and> js_lower (mi_email x) = js_lower (us_email v)))"

definition joined_before :: "TenancyDb \<Rightarrow> nat \<Rightarrow> bool" where
  "joined_before d i \<longleftrightarrow> (\<exists>m \<in> set (td_memberships d). mb_id m = i \<and> mb_joined_at m \<noteq> None)"

fun allowed :: "TenancyDb \<Rightarrow> TenancyEnv \<Rightarrow> TenancyRequest \<Rightarrow> nat \<Rightarrow> bool" where
  "allowed d env (AcceptInvitation invId token user) = accepts_for d env invId token user"
| "allowed d env (UpdateMember _ _ status _) = (\<lambda>i. status = Some ''ACTIVE'' \<and> joined_before d i)"
| "allowed d env _ = (\<lambda>_. False)"

interpretation consent: membership_watch "activated_by A d0" for A d0
proof
  fix d p f assume P: "activated_by A d0 d" and w: "\<And>m. m \<in> set (td_memberships d) \<Longrightarrow> p m \<Longrightarrow> weakened m (f m)"
  have "\<not> (mb_status (f m) = ''ACTIVE'' \<and> live_membership (f m))" if "m \<in> set (td_memberships d)" "p m" for m
    using w [OF that] by (auto simp: weakened_def)
  with P show "activated_by A d0 (d\<lparr>td_memberships := update_where p f (td_memberships d)\<rparr>)"
    unfolding activated_by_def by (auto simp: set_update_where)
qed (simp add: activated_by_def)

lemma activated_start: "before_grant d0 s \<Longrightarrow> activated_by A d0 s"
  unfolding activated_by_def using before_grant_same(4) by fastforce

lemma activated_update:
  assumes "activated_by A d0 s"
    and "\<And>m. m \<in> set (td_memberships s) \<Longrightarrow> p m \<Longrightarrow> mb_status (f m) = ''ACTIVE'' \<Longrightarrow> live_membership (f m) \<Longrightarrow>
       mb_id (f m) = mb_id m \<and> (mb_status m = ''ACTIVE'' \<and> live_membership m \<or> A (mb_id m))"
  shows "activated_by A d0 (s\<lparr>td_memberships := update_where p f (td_memberships s)\<rparr>)"
  using assms unfolding activated_by_def by (fastforce simp: set_update_where)

lemma activated_activate:
  "activated_by A d0 s \<Longrightarrow> A mid \<Longrightarrow> ensures (activateForInvitationAccept env org mid oid) (\<lambda>_. activated_by A d0) s"
  unfolding activateForInvitationAccept_def by (intro ensures_intros, clarify, erule activated_update) auto

lemma leads_read:
  assumes "\<And>s. P s \<Longrightarrow> Q s" and "\<And>s. P s \<Longrightarrow> leads P (k (f s)) Q"
  shows "leads P (act_bind (tenant_transaction (sql_read f)) k) Q"
proof -
  have run: "act_bind (tenant_transaction (sql_read f)) k w = k (f (tw_db w)) w" for w
    by (simp add: act_bind_def tenant_transaction_def run_transaction_def sql_read_def sql_def)
  show ?thesis using assms(2) unfolding leads_def run by blast
qed

lemma lookup_invitation:
  assumes "lookupOrganizationByInvitationPublicId invId d = Some (o', m)"
  obtains i where "i \<in> set (td_invitations d)" and "mi_public_id i = invId" and "mi_membership_id i = mb_id m"
  using rows0_in_set [OF assms [unfolded lookupOrganizationByInvitationPublicId_def]] by (auto split: if_splits)

lemma consent_accept:
  assumes keys: "distinct (map mi_public_id (td_invitations d0))"
  shows "leads ((=) d0) (member_invitation_accept env invId token user) (activated_by (accepts_for d0 env invId token user) d0)"
proof -
  let ?A = "accepts_for d0 env invId token user"
  have start: "activated_by ?A d0 d0" by (rule activated_start) (rule before_grant_refl)
  have activate: "ensures (activateForInvitationAccept env org mid oid) (\<lambda>x. ensures (case x of None \<Rightarrow> act_throw e
      | Some m \<Rightarrow> act_bind (notify_accepted env org oid (mb_user_id m)) (\<lambda>_. act_return (i, mb_user_id m))) (\<lambda>_. activated_by ?A d0)) s"
    if "activated_by ?A d0 s" "?A mid" for org mid oid e s and i :: MemberInvitationRow
    using activated_activate [of ?A d0 s mid env org oid, OF that]
    by (rule ensures_mono) (intro steadyD [where P = "activated_by ?A d0"] steady_intros consent.watch_notify; assumption)
  have tx: "ensures (accept_in_organization env invId token v (mb_id m) (og_id o') (og_public_id o')) (\<lambda>_. activated_by ?A d0) d0"
    if v: "findByPublicId user (td_users d0) = Some v" "us_is_email_verified v"
      and look: "lookupOrganizationByInvitationPublicId invId d0 = Some (o', m)" for v o' m
    unfolding accept_in_organization_def lookup_defs invitation_accept_def
      throwInvitationAcceptFailure_def assertInvitationAcceptable_def
  proof ((intro ensures_intros activate; (simp only: option.inject option.distinct simp_thms)?), goal_cases)
    case (2 found row t1 i)
    obtain i0 where i0: "i0 \<in> set (td_invitations d0)" "mi_public_id i0 = invId" "mi_membership_id i0 = mb_id m"
      by (rule lookup_invitation [OF look])
    from 2 obtain i1 where i1: "i1 \<in> set (td_invitations d0)" "mi_public_id i1 = invId" "mi_token_hash i1 = te_sha256 env token"
        "te_jsNow env < mi_expires_at i1" "mi_accepted_at i1 = None" "mi_revoked_at i1 = None"
      by (auto simp: set_update_returning dest!: rows0_in_set)
    from 2 have row: "row \<in> set (td_invitations d0)" "mi_public_id row = invId" "js_lower (mi_email row) = js_lower (us_email v)"
      by auto
    have "i1 = i0" "row = i0" using i0 i1 row by (simp_all add: distinct_key_eq [OF keys])
    with i0 i1 row v show ?case by (auto simp: accepts_for_def)
  qed (simp_all add: start)
  have known: "leads ((=) d0) (act_bind (tenant_transaction (sql_read (lookupOrganizationByInvitationPublicId invId))) (\<lambda>lookup. case lookup of
             None \<Rightarrow> act_throw (App (NotFoundError ''Member invitation''))
           | Some (o', m) \<Rightarrow>
             act_bind (tenant_transaction (accept_in_organization env invId token v (mb_id m) (og_id o') (og_public_id o'))) (\<lambda>(i, member).
               act_bind (invalidate_user member (og_public_id o')) (\<lambda>_. act_return i)))) (activated_by ?A d0)"
    if "findByPublicId user (td_users d0) = Some v" "us_is_email_verified v" for v
    by (rule leads_read)
       (auto simp: start that split: option.splits intro!: leads_throw leads_bind leads_tx tx keeps_intros)
  show ?thesis
    unfolding member_invitation_accept_def
    by (rule leads_read)
       (auto simp: start requireUserRecordByPublicId_def known split: option.splits intro!: leads_throw)
qed

lemma consent_UpdateMember:
  assumes ok: "tenant_ok d0"
  shows "leads ((=) d0) (membership_service_update env org caller p status role)
    (activated_by (\<lambda>i. status = Some ''ACTIVE'' \<and> joined_before d0 i) d0)"
proof -
  let ?A = "\<lambda>i. status = Some ''ACTIVE'' \<and> joined_before d0 i"
  have start: "activated_by ?A d0 d0" by (rule activated_start) (rule before_grant_refl)
  have keys: "distinct (map mb_public_id (td_memberships d0))" using tenant_ok_parts(1) [OF ok] by (simp add: keys_ok_def)
  have "ensures (update_membership_row env org caller p status role) (\<lambda>_. activated_by ?A d0) d0"
    unfolding update_membership_row_def membership_update_def
  proof (intro ensures_intros ensures_update_checks, clarify, rule activated_update [OF start])
    fix o' m roleId x
    assume m: "m \<in> set (td_memberships d0)" and joined: "status = Some ''ACTIVE'' \<Longrightarrow> mb_joined_at m \<noteq> None"
      and x: "x \<in> set (td_memberships d0)" "in_organization org d0 (mb_organization_id x) \<and> mb_public_id x = mb_public_id m \<and>
        mb_organization_id x = og_id o' \<and> live_membership x"
      and act: "mb_status (membership_patch env status roleId x) = ''ACTIVE''" "live_membership (membership_patch env status roleId x)"
    have "x = m" using x m by (simp add: distinct_key_eq [OF keys])
    then show "mb_id (membership_patch env status roleId x) = mb_id x \<and> (mb_status x = ''ACTIVE'' \<and> live_membership x \<or> ?A (mb_id x))"
      using act joined m x by (auto simp: membership_patch_def joined_before_def split: option.splits)
  qed
  then show ?thesis
    unfolding membership_service_update_def
    by (auto simp: start intro!: leads_throw leads_bind leads_tx keeps_intros)
qed

lemma leads_pre: "leads (before_grant d0) m Q \<Longrightarrow> leads ((=) d0) m Q"
  using before_grant_refl unfolding leads_def by blast

lemma consent_request:
  assumes ok: "tenant_ok d0" and keys: "distinct (map mi_public_id (td_invitations d0))"
  shows "leads ((=) d0) (tenancy_request env org r) (activated_by (allowed d0 env r) d0)"
proof (cases "raises r")
  case False
  then show ?thesis
    using consent.watch_request activated_start [OF before_grant_refl] unfolding leads_def keeps.advances_def by metis
next
  case True
  let ?A = "\<lambda>_. False"
  have new: "activated_by ?A d0 (s\<lparr>td_memberships := td_memberships s @ [m]\<rparr>)"
    if "before_grant d0 s" "mb_status m = ''ACTIVE'' \<Longrightarrow> mb_id m \<ge> td_next_id d0" for s m
    using that activated_start [OF that(1), of ?A] by (auto simp: activated_by_def)
  have invited: "ensures (add_member env org caller invitee role days) (\<lambda>_. activated_by ?A d0) s"
    if b: "before_grant d0 s" for caller invitee role days s
  proof (rule ensures_add_member)
    fix m :: MembershipRow and t' evs assume "mb_status m = ''INVITED''"
    then have "activated_by ?A d0 (s\<lparr>td_memberships := td_memberships s @ [m]\<rparr>)" by (intro new b) simp
    then show "activated_by ?A d0 (s\<lparr>td_memberships := td_memberships s @ [m], td_invitations := t',
        td_next_id := Suc (Suc (td_next_id s)), td_events := evs\<rparr>)" by (simp add: activated_by_def)
  qed
  have add: "leads (before_grant d0) (membership_service_create env org caller email role days) (activated_by ?A d0)"
    for caller email role days
    unfolding membership_service_create_def
    by (intro leads_if leads_throw leads_after leads_bind leads_tx keeps_intros keeps_findOrCreate activated_start before_grant_user invited)
  note create = consent.watch_create [of d0 ?A d0, OF ok activated_start new]
  from True show ?thesis
    by (cases r) (auto simp: leads_discard leads_pre add create consent_accept [OF keys] consent_UpdateMember [OF ok])
qed

text \<open>C20 Nobody becomes an active member without having agreed: when a request makes an existing membership
  active that was not, either it accepted a pending, unexpired invitation to that very membership, with the
  token that was mailed, from an account whose verified address is the invited one; or it was a PATCH
  to \<^verbatim>\<open>ACTIVE\<close> of a member who had joined before.\<close>

theorem activation_needs_consent:
  assumes "tenant_ok (tw_db w)" and "distinct (map mi_public_id (td_invitations (tw_db w)))"
    and "m \<in> set (td_memberships (tw_db (snd (tenancy_request env org r w))))"
    and "mb_status m = ''ACTIVE''" and "live_membership m" and "mb_id m < td_next_id (tw_db w)"
    and "m0 \<in> set (td_memberships (tw_db w))" and "mb_id m0 = mb_id m" and "mb_status m0 \<noteq> ''ACTIVE''"
  shows "(\<exists>i token user. r = AcceptInvitation i token user \<and> accepts_for (tw_db w) env i token user (mb_id m)) \<or>
    (\<exists>caller p role. r = UpdateMember caller p (Some ''ACTIVE'') role \<and> mb_joined_at m0 \<noteq> None)"
proof -
  have "activated_by (allowed (tw_db w) env r) (tw_db w) (tw_db (snd (tenancy_request env org r w)))"
    using consent_request [OF assms(1,2)] unfolding leads_def by blast
  moreover have one: "m1 = m0" if "m1 \<in> set (td_memberships (tw_db w))" "mb_id m1 = mb_id m" for m1
    using that assms tenant_ok_parts(1) [OF assms(1)] by (auto simp: keys_ok_def intro: distinct_key_eq)
  ultimately have "allowed (tw_db w) env r (mb_id m)"
    using assms(3-6,9) unfolding activated_by_def by blast
  then show ?thesis using one by (cases r) (auto simp: joined_before_def)
qed

theorem activation_needs_consent_witness:
  "map mb_status (td_memberships (tw_db (demo_run [AddMember (Some ''usr_2'') ''c'' ''rol_ops'' 7, AcceptInvitation ''inv_1'' ''tok'' ''usr_3'']))) =
     [''ACTIVE'', ''ACTIVE'', ''ACTIVE''] \<and>
   map mb_status (td_memberships (tw_db (demo_run [AddMember (Some ''usr_2'') ''c'' ''rol_ops'' 7, AcceptInvitation ''inv_1'' ''guess'' ''usr_3'']))) =
     [''ACTIVE'', ''ACTIVE'', ''INVITED''] \<and>
   accepts_for (tw_db (demo_run [AddMember (Some ''usr_2'') ''c'' ''rol_ops'' 7])) demo_tenancy_env ''inv_1'' ''tok'' ''usr_3'' 40"
proof (intro conjI)
  let ?add = "AddMember (Some ''usr_2'') ''c'' ''rol_ops'' 7" and ?acc = "AcceptInvitation ''inv_1'' ''tok'' ''usr_3''"
  show "map mb_status (td_memberships (tw_db (demo_run [?add, ?acc]))) = [''ACTIVE'', ''ACTIVE'', ''ACTIVE'']"
    and "map mb_status (td_memberships (tw_db (demo_run [?add, AcceptInvitation ''inv_1'' ''guess'' ''usr_3'']))) =
      [''ACTIVE'', ''ACTIVE'', ''INVITED'']" by code_simp+
  let ?w = "demo_run [?add]" and ?m = "td_memberships (tw_db (demo_run [?add, ?acc])) ! 2" and ?old = "td_memberships (tw_db (demo_run [?add])) ! 2"
  have run: "snd (tenancy_request demo_tenancy_env ''org_a'' ?acc ?w) = demo_run [?add, ?acc]"
    by (simp add: demo_run_def tenancy_requests_def)
  have ok: "tenant_ok (tw_db ?w)"
    unfolding demo_run_def by (rule ok_requests) (simp add: demo_tenancy_world_def demo_tenant_ok)
  have m: "mb_status ?m = ''ACTIVE''" "live_membership ?m" "mb_id ?m = 40" "mb_status ?old = ''INVITED''" "mb_id ?old = 40"
    "td_next_id (tw_db ?w) = 42" "distinct (map mi_public_id (td_invitations (tw_db ?w)))"
    "length (td_memberships (tw_db ?w)) = 3" "length (td_memberships (tw_db (demo_run [?add, ?acc]))) = 3" by code_simp+
  then show "accepts_for (tw_db ?w) demo_tenancy_env ''inv_1'' ''tok'' ''usr_3'' 40"
    using activation_needs_consent [OF ok m(7), of ?m demo_tenancy_env "''org_a''" ?acc ?old] run by simp
qed

end
