(* ===== verification/Membership_Races.thy ===== *)
theory Membership_Races
  imports Member_Lifecycle
begin

text \<open>
  Two ways around what the membership service promises, each followed through the statements of its
  transaction: a PATCH back to \<^verbatim>\<open>INVITED\<close>, which takes a seat without the seat check, and a suspension whose checks
  ran before an ownership transfer committed.  Then what a cut of the seats leaves.
\<close>

section \<open>Running the patch\<close>

lemma membership_index_same:
  assumes "membership_index t = None" and "\<And>m. mb_public_id (f m) = mb_public_id m" "\<And>m. mb_user_id (f m) = mb_user_id m"
    "\<And>m. mb_organization_id (f m) = mb_organization_id m" "\<And>m. live_membership (f m) = live_membership m"
  shows "membership_index (update_where p f t) = None"
proof -
  have live: "live_membership (if p m then f m else m) = live_membership m" for m using assms(5) by simp
  have "map (\<lambda>m. (mb_user_id m, mb_organization_id m)) (filter live_membership (update_where p f t)) =
      map (\<lambda>m. (mb_user_id m, mb_organization_id m)) (filter live_membership t)"
    by (induction t) (simp_all add: live assms)
  then show ?thesis using assms(1,2) by (simp add: membership_index_def update_where_key split: if_splits)
qed

lemma patch_keys:
  "mb_public_id (membership_patch env status roleId m) = mb_public_id m" "mb_user_id (membership_patch env status roleId m) = mb_user_id m"
  "mb_organization_id (membership_patch env status roleId m) = mb_organization_id m"
  "live_membership (membership_patch env status roleId m) = live_membership m" "mb_id (membership_patch env status roleId m) = mb_id m"
  by (simp_all add: membership_patch_def live_membership_def)

definition patched :: "TenancyEnv \<Rightarrow> string \<Rightarrow> string \<Rightarrow> nat \<Rightarrow> string option \<Rightarrow> nat option \<Rightarrow> TenancyDb \<Rightarrow> TenancyDb" where
  "patched env org publicId oid status roleId d = d\<lparr>td_memberships := update_where (\<lambda>x. in_organization org d (mb_organization_id x) \<and>
     mb_public_id x = publicId \<and> mb_organization_id x = oid \<and> live_membership x) (membership_patch env status roleId) (td_memberships d)\<rparr>"

lemma membership_update_run:
  assumes index: "membership_index (td_memberships (tx_state t)) = None" and m: "m \<in> set (td_memberships (tx_state t))" "live_membership m"
    and org: "in_organization org (tx_state t) (mb_organization_id m)"
    and check: "membership_check (membership_patch env status roleId m) = None" and live: "\<not> tx_aborted t"
  shows "membership_update env org (mb_public_id m) (mb_organization_id m) status roleId t =
    (Inr (Some (membership_patch env status roleId m)),
     t\<lparr>tx_state := patched env org (mb_public_id m) (mb_organization_id m) status roleId (tx_state t)\<rparr>)"
proof -
  let ?d = "tx_state t"
  let ?p = "\<lambda>x. in_organization org ?d (mb_organization_id x) \<and> mb_public_id x = mb_public_id m \<and>
      mb_organization_id x = mb_organization_id m \<and> live_membership x"
  let ?f = "membership_patch env status roleId"
  have keys: "distinct (map mb_public_id (td_memberships ?d))" using index by (simp add: membership_index_def split: if_splits)
  have one: "x = m" if "x \<in> set (td_memberships ?d)" "?p x" for x using that m by (simp add: distinct_key_eq [OF keys])
  have "rows0 (update_returning ?p ?f (td_memberships ?d)) = Some (?f m)"
    using update_row_key [OF keys m(1), of ?p ?f] m org by (simp add: update_row_def)
  moreover have "List.map_filter membership_check (update_returning ?p ?f (td_memberships ?d)) = []"
    using one check by (auto simp: List.map_filter_def filter_empty_conv set_update_returning)
  moreover have "membership_index (update_where ?p ?f (td_memberships ?d)) = None"
    using membership_index_same [OF index patch_keys(1-4)] .
  ultimately show ?thesis
    using live by (simp add: membership_update_def update_membership_def checked_update_def Let_def tx_simps act_bind_def
        act_return_def patched_def)
qed

section \<open>The seat a PATCH takes\<close>

lemma update_checks_run:
  assumes o: "findOrganization org (td_billing (tx_state t)) = Some o'" and live: "\<not> tx_aborted t"
    and index: "membership_index (td_memberships (tx_state t)) = None" and m: "m \<in> set (td_memberships (tx_state t))" "live_membership m"
    and mo: "mb_organization_id m = og_id o'" and owner: "og_owner_user_id o' \<noteq> mb_user_id m" and status: "status \<noteq> Some ''ACTIVE''"
  shows "update_checks env org caller (mb_public_id m) status None t = (Inr (o', m, None), t)"
proof -
  have keys: "distinct (map mb_public_id (td_memberships (tx_state t)))" using index by (simp add: membership_index_def split: if_splits)
  have "select_first (\<lambda>x. mb_public_id x = mb_public_id m \<and> (in_organization org (tx_state t) (mb_organization_id x) \<and>
      live_membership x \<and> mb_organization_id x = og_id o')) (td_memberships (tx_state t)) = Some m"
    using select_first_key [OF keys m(1)] m(2) mo in_found [OF o] by simp
  then have "select_first (\<lambda>x. in_organization org (tx_state t) (mb_organization_id x) \<and> live_membership x \<and>
      mb_public_id x = mb_public_id m \<and> mb_organization_id x = og_id o') (td_memberships (tx_state t)) = Some m"
    by (simp add: conj_ac cong: conj_cong)
  then show ?thesis
    using o live owner status
    by (simp add: update_checks_def requireOrganizationRecordByPublicId_def membership_findByPublicId_def select_membership_def
        grantable_role_def act_bind_def act_return_def act_throw_def sql_read_live)
qed

lemma length_filter_update_gain:
  assumes "r \<in> set t" and "distinct (map k t)" and "\<And>x. x \<in> set t \<Longrightarrow> p x \<longleftrightarrow> k x = k r" and "\<not> q r" and "q (f r)"
  shows "length (filter q (update_where p f t)) = Suc (length (filter q t))"
  using assms
proof (induction t)
  case (Cons a t)
  show ?case
  proof (cases "a = r")
    case True
    have "\<not> p x" if "x \<in> set t" for x
      using Cons.prems(2,3) that True by (auto simp: image_iff)
    then have "update_where p f t = t" by (rule update_where_id)
    with True Cons.prems show ?thesis by simp
  next
    case False
    then have r: "r \<in> set t" and "k a \<noteq> k r" using Cons.prems(1,2) by (auto simp: image_iff)
    then have "\<not> p a" using Cons.prems(3) by simp
    moreover have "length (filter q (update_where p f t)) = Suc (length (filter q t))"
      by (rule Cons.IH [OF r]) (use Cons.prems in auto)
    ultimately show ?thesis by simp
  qed
qed simp

lemma invalidate_user_run:
  "fst (invalidate_user i org w) = Inr ()" "tw_db (snd (invalidate_user i org w)) = tw_db w"
  by (auto simp: invalidate_user_def act_bind_def tenant_transaction_def run_transaction_def sql_read_def sql_def act_return_def
      invalidate_def split: option.splits)

lemma membership_service_update_run:
  assumes "run_transaction (update_membership_row env org caller p status role) (tw_db w) = (Inr (m, u), d)"
    and "validateUpdateMembership status role"
  shows "fst (membership_service_update env org caller p status role w) = Inr u \<and>
    tw_db (snd (membership_service_update env org caller p status role w)) = d"
  using assms invalidate_user_run [of "mb_user_id u" org "w\<lparr>tw_db := d\<rparr>"]
  by (auto simp: membership_service_update_def act_bind_def tenant_transaction_def seat_sync_def act_return_def split: prod.splits)

text \<open>A suspended member PATCHed to \<^verbatim>\<open>INVITED\<close> takes a seat whatever the ceiling: the seat check runs only for
  \<^verbatim>\<open>ACTIVE\<close>.  Where the member still has a pending invitation, accepting it then makes them active, again without
  a check, so suspending, filling the freed seat and re-inviting takes an organization above its plan.\<close>

theorem invited_patch_skips_seat_check:
  assumes "membership_index (td_memberships (tw_db w)) = None"
    and "findOrganization org (td_billing (tw_db w)) = Some o'" and "m \<in> set (td_memberships (tw_db w))" and "live_membership m"
    and "mb_organization_id m = og_id o'" and "og_owner_user_id o' \<noteq> mb_user_id m" and "mb_status m = ''SUSPENDED''"
    and "mb_created_at m \<le> te_now env"
  shows "fst (tenancy_request env org (UpdateMember caller (mb_public_id m) (Some ''INVITED'') None) w) = Inr () \<and>
    seats (tw_db (snd (tenancy_request env org (UpdateMember caller (mb_public_id m) (Some ''INVITED'') None) w))) (og_id o') =
      Suc (seats (tw_db w) (og_id o'))"
proof -
  let ?d = "tw_db w" and ?s = "Some ''INVITED''"
  have in_org: "in_organization org ?d (mb_organization_id m)" using in_found [OF assms(2)] assms(5) by simp
  have check: "membership_check (membership_patch env ?s None m) = None"
    using assms(7,8) by (simp add: membership_check_def membership_patch_def)
  have run: "run_transaction (update_membership_row env org caller (mb_public_id m) ?s None) ?d =
      (Inr (m, membership_patch env ?s None m), patched env org (mb_public_id m) (mb_organization_id m) ?s None ?d)"
    using update_checks_run [of org "tx_begin ?d" o' m ?s env caller] membership_update_run [of "tx_begin ?d" m org env ?s None]
      assms in_org check by (simp add: run_transaction_def update_membership_row_def act_bind_def act_return_def)
  have keys: "distinct (map mb_public_id (td_memberships ?d))" using assms(1) by (simp add: membership_index_def split: if_splits)
  have "seats (patched env org (mb_public_id m) (mb_organization_id m) ?s None ?d) (og_id o') = Suc (seats ?d (og_id o'))"
    unfolding seats_def patched_def using assms(3,4,5,7) in_org
    by (simp, intro length_filter_update_gain [OF _ keys])
       (auto simp: seat_of_def membership_patch_def membershipStatusConsumesSeat_def SEAT_CONSUMING_MEMBERSHIP_STATUSES_def
          live_membership_def dest: distinct_key_eq [OF keys])
  then show ?thesis
    using membership_service_update_run [OF run] by (simp add: validateUpdateMembership_def discard_def act_bind_def act_return_def
        split: prod.splits sum.splits) (metis fst_conv snd_conv sum.distinct(1))
qed

text \<open>A plan of three seats: invite, suspend the invitee, invite another into the seat that is free, re-invite, accept.\<close>

definition demo_three_seats :: TenancyWorld where
  "demo_three_seats = demo_tenancy_world\<lparr>tw_db := demo_tenancy_db\<lparr>td_billing :=
     (demo_billing [])\<lparr>bd_plans := [demo_plan\<lparr>pl_included_seats := Some 3\<rparr>]\<rparr>\<rparr>\<rparr>"

definition demo_second_env :: TenancyEnv where
  "demo_second_env = demo_tenancy_env\<lparr>te_publicId := (\<lambda>n. ''new_two''), te_invitationId := (\<lambda>n. ''inv_2''), te_token := ''tok2''\<rparr>"

definition demo_full :: TenancyWorld where
  "demo_full = tenancy_requests
     [(demo_tenancy_env, ''org_a'', AddMember (Some ''usr_2'') ''c'' ''rol_ops'' 7),
      (demo_tenancy_env, ''org_a'', UpdateMember (Some ''usr_2'') ''new_row'' (Some ''SUSPENDED'') None),
      (demo_second_env, ''org_a'', AddMember (Some ''usr_2'') ''d'' ''rol_ops'' 7)] demo_three_seats"

definition demo_re_invite :: TenancyRequest where
  "demo_re_invite = UpdateMember (Some ''usr_2'') ''new_row'' (Some ''INVITED'') None"

theorem invited_patch_skips_seat_check_witness:
  "seat_ceiling demo_billing_env ''org_a'' 7 (td_billing (tw_db demo_full)) = Some 3 \<and> seats (tw_db demo_full) 7 = 3 \<and>
   fst (tenancy_request demo_tenancy_env ''org_a'' (UpdateMember (Some ''usr_2'') ''new_row'' (Some ''ACTIVE'') None) demo_full) =
     Inl (App (ForbiddenError ''errors:membershipActivationRequiresInvitationAccept'')) \<and>
   seats (tw_db (snd (tenancy_request demo_tenancy_env ''org_a'' demo_re_invite demo_full))) 7 = 4 \<and>
   map mb_status (td_memberships (tw_db (tenancy_requests [(demo_tenancy_env, ''org_a'', demo_re_invite),
     (demo_tenancy_env, ''org_a'', AcceptInvitation ''inv_1'' ''tok'' ''usr_3'')] demo_full))) =
     [''ACTIVE'', ''ACTIVE'', ''ACTIVE'', ''INVITED'']"
proof (intro conjI)
  show "seat_ceiling demo_billing_env ''org_a'' 7 (td_billing (tw_db demo_full)) = Some 3" "seats (tw_db demo_full) 7 = 3"
   "fst (tenancy_request demo_tenancy_env ''org_a'' (UpdateMember (Some ''usr_2'') ''new_row'' (Some ''ACTIVE'') None) demo_full) =
     Inl (App (ForbiddenError ''errors:membershipActivationRequiresInvitationAccept''))"
   "map mb_status (td_memberships (tw_db (tenancy_requests [(demo_tenancy_env, ''org_a'', demo_re_invite),
     (demo_tenancy_env, ''org_a'', AcceptInvitation ''inv_1'' ''tok'' ''usr_3'')] demo_full))) =
     [''ACTIVE'', ''ACTIVE'', ''ACTIVE'', ''INVITED'']" by code_simp+
  let ?m = "td_memberships (tw_db demo_full) ! 2"
  have m: "membership_index (td_memberships (tw_db demo_full)) = None" "findOrganization ''org_a'' (td_billing (tw_db demo_full)) = Some demo_organization"
    "length (td_memberships (tw_db demo_full)) = 4" "live_membership ?m" "mb_organization_id ?m = og_id demo_organization"
    "og_owner_user_id demo_organization \<noteq> mb_user_id ?m" "mb_status ?m = ''SUSPENDED''" "mb_created_at ?m \<le> te_now demo_tenancy_env"
    "mb_public_id ?m = ''new_row''" "seats (tw_db demo_full) 7 = 3" "og_id demo_organization = 7" by code_simp+
  then have "?m \<in> set (td_memberships (tw_db demo_full))" by simp
  from invited_patch_skips_seat_check [OF m(1,2) this m(4-8), of "Some ''usr_2''"]
  show "seats (tw_db (snd (tenancy_request demo_tenancy_env ''org_a'' demo_re_invite demo_full))) 7 = 4"
    using m by (simp add: demo_re_invite_def)
qed

section \<open>A suspension that overtakes a transfer\<close>

text \<open>The checks of the PATCH read one state; the ownership transfer commits; the statement of the PATCH, which has
  no owner guard of its own, runs on the state the transfer left.\<close>

lemma one_live_membership:
  assumes "membership_index t = None" and "x \<in> set t" "y \<in> set t" "live_membership x" "live_membership y"
    and "mb_user_id x = mb_user_id y" "mb_organization_id x = mb_organization_id y"
  shows "x = y"
proof -
  have "distinct (map (\<lambda>m. (mb_user_id m, mb_organization_id m)) (filter live_membership t))"
    using assms(1) by (simp add: membership_index_def split: if_splits)
  from distinct_key_eq [OF this, of x y] assms show ?thesis by simp
qed

lemma ensures_value: "ensures m Q s \<Longrightarrow> fst (m (tx_begin s)) = Inr a \<Longrightarrow> Q a (tx_state (snd (m (tx_begin s))))"
  unfolding ensures_def by (metis prod.collapse tx.select_convs(1))

lemma in_update_whereE:
  assumes "x \<in> set (update_where p f t)"
  obtains y where "y \<in> set t" and "x = (if p y then f y else y)"
  using assms unfolding set_update_where by blast

lemma select_first_update:
  "(\<And>x. q (f x) = q x) \<Longrightarrow> select_first q (update_where p f t) = map_option (\<lambda>x. if p x then f x else x) (select_first q t)"
  by (induction t) auto

lemma ensures_update_owner:
  assumes "findOrganization org (td_billing s) = Some o'" and "organization_index (bd_organizations (td_billing s)) = None"
    and "\<And>row d. td_memberships d = td_memberships s \<Longrightarrow>
      (row \<noteq> None \<Longrightarrow> findOrganization org (td_billing d) = Some (o'\<lparr>og_owner_user_id := new\<rparr>)) \<Longrightarrow> Q row d"
  shows "ensures (updateOwner org new) Q s"
  unfolding updateOwner_def
proof (rule ensures_sql, clarsimp simp: Let_def update_row_def)
  let ?p = "\<lambda>x. og_public_id x = org \<and> og_deleted_at x = None \<and> (\<exists>m \<in> set (td_memberships s). mb_user_id m = new \<and>
      mb_organization_id m = og_id x \<and> mb_status m = ''ACTIVE'' \<and> live_membership m)"
  let ?f = "\<lambda>x. x\<lparr>og_owner_user_id := new\<rparr>"
  let ?os = "bd_organizations (td_billing s)"
  have keys: "distinct (map og_public_id ?os)" using assms(2) by (simp add: organization_index_def split: if_splits)
  have "?p o'" if "rows0 (update_returning ?p ?f ?os) \<noteq> None"
  proof -
    from that obtain x where "x \<in> set ?os" "?p x" by (auto simp: update_returning_empty_iff)
    moreover have "x = o'" using calculation findOrganizationD [OF assms(1)] by (simp add: distinct_key_eq [OF keys])
    ultimately show ?thesis by simp
  qed
  moreover have "select_first (\<lambda>x. og_public_id x = org \<and> og_deleted_at x = None) (update_where ?p ?f ?os) = Some (if ?p o' then ?f o' else o')"
    using assms(1) by (subst select_first_update) (auto simp: findOrganization_def)
  ultimately show "Q (rows0 (update_returning ?p ?f ?os)) (s\<lparr>td_billing := (td_billing s)\<lparr>bd_organizations := update_where ?p ?f ?os\<rparr>\<rparr>)"
    by (intro assms(3)) (simp_all add: findOrganization_def)
qed

lemma transfer_run:
  assumes "run_transaction (transfer_in_organization org new cur) d = (Inr x, d1)" and "findOrganization org (td_billing d) = Some o'"
    and "organization_index (bd_organizations (td_billing d)) = None"
  shows "td_memberships d1 = td_memberships d \<and> findOrganization org (td_billing d1) = Some (o'\<lparr>og_owner_user_id := mb_user_id x\<rparr>)"
proof -
  have "ensures (transfer_in_organization org new cur) (\<lambda>x d1. td_memberships d1 = td_memberships d \<and>
      findOrganization org (td_billing d1) = Some (o'\<lparr>og_owner_user_id := mb_user_id x\<rparr>)) d"
    unfolding transfer_in_organization_def transferOrganizationOwnership_def
    by (intro ensures_intros ensures_update_owner [OF assms(2,3)]) auto
  from ensures_run [OF this] assms(1) show ?thesis by simp
qed

text \<open>C26 A member can be suspended while becoming the owner: when the checks of a PATCH to \<^verbatim>\<open>SUSPENDED\<close> read the state before
  an ownership transfer to that member commits, its write then goes through, and the organization is left
  with an owner who has no active membership.\<close>

theorem stale_suspension_locks_out_new_owner:
  assumes "membership_index (td_memberships d) = None" and "organization_index (bd_organizations (td_billing d)) = None"
    and "fst (update_checks env org caller p (Some ''SUSPENDED'') None (tx_begin d)) = Inr (o', m, None)"
    and "run_transaction (transfer_in_organization org new cur) d = (Inr x, d1)" and "mb_user_id x = mb_user_id m"
    and "mb_created_at m \<le> te_now env"
  shows "\<exists>u d2. run_transaction (membership_update env org p (og_id o') (Some ''SUSPENDED'') None) d1 = (Inr (Some u), d2) \<and>
    (\<exists>o2 \<in> set (bd_organizations (td_billing d2)). og_public_id o2 = org \<and> og_deleted_at o2 = None \<and> og_owner_user_id o2 = mb_user_id m \<and>
       \<not> (\<exists>x \<in> set (td_memberships d2). active_member (og_owner_user_id o2) (og_id o2) x))"
proof -
  have "ensures (update_checks env org caller p (Some ''SUSPENDED'') None) (\<lambda>(o', m, i) _. findOrganization org (td_billing d) = Some o' \<and>
      m \<in> set (td_memberships d) \<and> live_membership m \<and> mb_public_id m = p \<and> mb_organization_id m = og_id o') d"
    by (rule ensures_update_checks) simp
  then have o: "findOrganization org (td_billing d) = Some o'" and m: "m \<in> set (td_memberships d)" "live_membership m"
      "mb_public_id m = p" "mb_organization_id m = og_id o'"
    using assms(3) ensures_value [of _ _ d] by fastforce+
  have d1: "td_memberships d1 = td_memberships d" "findOrganization org (td_billing d1) = Some (o'\<lparr>og_owner_user_id := mb_user_id m\<rparr>)"
    using transfer_run [OF assms(4) o assms(2)] assms(5) by simp_all
  let ?o = "o'\<lparr>og_owner_user_id := mb_user_id m\<rparr>" and ?s = "Some ''SUSPENDED''"
  let ?d2 = "patched env org p (og_id o') ?s None d1"
  have in_org: "in_organization org d1 (mb_organization_id m)" using in_found [OF d1(2)] m(4) by simp
  have "membership_check (membership_patch env ?s None m) = None"
    using assms(6) by (simp add: membership_check_def membership_patch_def)
  then have "run_transaction (membership_update env org p (og_id o') ?s None) d1 = (Inr (Some (membership_patch env ?s None m)), ?d2)"
    using membership_update_run [of "tx_begin d1" m org env ?s None] assms(1) m in_org d1(1) by (simp add: run_transaction_def)
  moreover have "?o \<in> set (bd_organizations (td_billing ?d2))" "og_public_id ?o = org" "og_deleted_at ?o = None"
    using findOrganizationD [OF d1(2)] by (simp_all add: patched_def)
  moreover have "\<not> active_member (mb_user_id m) (og_id o') x" if x: "x \<in> set (td_memberships ?d2)" for x
  proof
    assume act: "active_member (mb_user_id m) (og_id o') x"
    from x have "x \<in> set (update_where (\<lambda>y. in_organization org d1 (mb_organization_id y) \<and> mb_public_id y = p \<and>
        mb_organization_id y = og_id o' \<and> live_membership y) (membership_patch env ?s None) (td_memberships d))"
      by (simp add: patched_def d1(1))
    then obtain y where y: "y \<in> set (td_memberships d)"
        "x = (if in_organization org d1 (mb_organization_id y) \<and> mb_public_id y = p \<and> mb_organization_id y = og_id o' \<and> live_membership y
           then membership_patch env ?s None y else y)"
      by (rule in_update_whereE)
    have "mb_user_id y = mb_user_id x" "mb_organization_id y = mb_organization_id x" "live_membership y = live_membership x"
      using y(2) by (simp_all add: patch_keys split: if_splits)
    with act y(1) m have "y = m"
      using one_live_membership [OF assms(1), of y m] by (simp add: active_member_def)
    then have "x = membership_patch env ?s None m" using y(2) m in_org by simp
    with act show False by (simp add: active_member_def membership_patch_def)
  qed
  ultimately show ?thesis by (intro exI conjI bexI [of _ ?o]) auto
qed

theorem stale_suspension_locks_out_new_owner_witness:
  "\<exists>u d2. run_transaction (membership_update demo_tenancy_env ''org_a'' ''mem_2'' 7 (Some ''SUSPENDED'') None)
      (snd (run_transaction (transfer_in_organization ''org_a'' ''usr_2'' ''usr_1'') demo_tenancy_db)) = (Inr (Some u), d2) \<and>
    (\<exists>o2 \<in> set (bd_organizations (td_billing d2)). og_public_id o2 = ''org_a'' \<and> og_deleted_at o2 = None \<and> og_owner_user_id o2 = 2 \<and>
       \<not> (\<exists>x \<in> set (td_memberships d2). active_member (og_owner_user_id o2) (og_id o2) x))"
proof -
  let ?m = "demo_membership 31 ''mem_2'' 2 21"
  let ?run = "run_transaction (transfer_in_organization ''org_a'' ''usr_2'' ''usr_1'') demo_tenancy_db"
  have facts: "membership_index (td_memberships demo_tenancy_db) = None" "organization_index (bd_organizations (td_billing demo_tenancy_db)) = None"
    "fst (update_checks demo_tenancy_env ''org_a'' (Some ''usr_1'') ''mem_2'' (Some ''SUSPENDED'') None (tx_begin demo_tenancy_db)) =
       Inr (demo_organization, ?m, None)"
    "fst ?run = Inr ?m" "mb_created_at ?m \<le> te_now demo_tenancy_env" "og_id demo_organization = 7" "mb_user_id ?m = 2" by code_simp+
  then have "?run = (Inr ?m, snd ?run)" by (metis prod.collapse)
  from stale_suspension_locks_out_new_owner [OF facts(1-3) this refl facts(5)] show ?thesis using facts(6,7) by simp
qed

section \<open>Cutting the seats\<close>

lemma suspension_candidates_set:
  "set (suspension_candidates org oid owner d) = {m \<in> set (td_memberships d). in_organization org d (mb_organization_id m) \<and>
     mb_organization_id m = oid \<and> mb_status m = ''ACTIVE'' \<and> mb_user_id m \<noteq> owner \<and> live_membership m}"
  by (auto simp: suspension_candidates_def)

lemma length_filter_update_lose:
  assumes "distinct (map k t)" and "S \<subseteq> set t" and "\<And>x. x \<in> set t \<Longrightarrow> p x \<longleftrightarrow> x \<in> S" and "\<And>x. x \<in> S \<Longrightarrow> q x \<and> \<not> q (f x)"
  shows "length (filter q (update_where p f t)) + card S = length (filter q t)"
proof -
  have dt: "distinct t" using assms(1) by (simp add: distinct_map)
  have "length (filter q (update_where p f t)) = length (filter (\<lambda>x. q x \<and> \<not> p x) t)"
    using assms(3,4) by (induction t arbitrary: S) (auto simp: update_where_def filter_map comp_def intro!: arg_cong [where f = length] filter_cong)
  also have "\<dots> = card ({x \<in> set t. q x} - S)"
    using dt assms(3) by (subst distinct_card [symmetric]) (auto intro!: arg_cong [where f = card])
  also have "\<dots> = card {x \<in> set t. q x} - card S"
    using assms(2,4) by (intro card_Diff_subset) (auto intro: finite_subset)
  also have "card {x \<in> set t. q x} = length (filter q t)"
    using dt by (metis distinct_card distinct_filter set_filter)
  finally have len: "length (filter q (update_where p f t)) = length (filter q t) - card S" .
  have "S \<subseteq> {x \<in> set t. q x}" using assms(2,4) by blast
  then have "card S \<le> length (filter q t)"
    using card_mono [of "{x \<in> set t. q x}" S] \<open>card {x \<in> set t. q x} = length (filter q t)\<close> by simp
  with len show ?thesis by simp
qed

text \<open>The transaction of the cut, by the tables it leaves.\<close>

lemma ensures_seat_cut:
  assumes keys: "distinct (map mb_id (td_memberships s))" and o: "findOrganization org (td_billing s) = Some o'"
    and n: "n = nat (int (seats s (og_id o')) - ceiling)"
    and C: "C = take n (suspension_candidates org (og_id o') (og_owner_user_id o') s)"
  shows "ensures (act_bind (requireOrganizationRecordByPublicId org) (\<lambda>o'. act_bind (sql_read (countActiveByOrganization org (og_id o'))) (\<lambda>used.
      if int used - ceiling \<le> 0 then act_return []
      else suspendExcessActiveMembers env org (og_id o') (og_owner_user_id o') (nat (int used - ceiling)))))
    (\<lambda>ids d. ids = map mb_user_id C \<and> td_memberships d = update_where (\<lambda>m. m \<in> set C)
       (\<lambda>m. m\<lparr>mb_status := ''SUSPENDED'', mb_updated_at := te_jsNow env\<rparr>) (td_memberships s)) s"
proof -
  let ?f = "\<lambda>m. m\<lparr>mb_status := ''SUSPENDED'', mb_updated_at := te_jsNow env\<rparr>"
  have sub: "set C \<subseteq> set (td_memberships s)" "in_organization org s (mb_organization_id m)" if "m \<in> set C" for m
    using that in_set_takeD [of _ n "suspension_candidates org (og_id o') (og_owner_user_id o') s"]
    unfolding C suspension_candidates_set by blast+
  have "in_organization org s (mb_organization_id m) \<and> mb_id m \<in> mb_id ` set C \<longleftrightarrow> m \<in> set C" if "m \<in> set (td_memberships s)" for m
    using that sub by (auto dest: distinct_key_eq [OF keys])
  then have upd: "update_where (\<lambda>m. in_organization org s (mb_organization_id m) \<and> mb_id m \<in> mb_id ` set C) ?f (td_memberships s) =
      update_where (\<lambda>m. m \<in> set C) ?f (td_memberships s)"
    unfolding update_where_def by (intro map_cong) auto
  have none: "update_where (\<lambda>m. m \<in> set C) ?f (td_memberships s) = td_memberships s" if "C = []"
    using that by (simp add: update_where_id)
  show ?thesis
    unfolding suspendExcessActiveMembers_def
    by (intro ensures_intros) (use o n C upd none seats_counted [OF o] in \<open>auto\<close>)
qed

lemma invalidate_users_run: "fst (invalidate_users ids org w) = Inr () \<and> tw_db (snd (invalidate_users ids org w)) = tw_db w"
proof (induction ids arbitrary: w)
  case (Cons i ids)
  obtain w1 where "invalidate_user i org w = (Inr (), w1)" "tw_db w1 = tw_db w"
    using invalidate_user_run [of i org w] by (cases "invalidate_user i org w") auto
  with Cons [of w1] show ?case by (simp add: invalidate_users_def act_bind_def)
qed (simp add: invalidate_users_def act_return_def)

definition cuttable :: "OrganizationRow \<Rightarrow> MembershipRow \<Rightarrow> bool" where
  "cuttable o' m \<longleftrightarrow> mb_organization_id m = og_id o' \<and> mb_status m = ''ACTIVE'' \<and> mb_user_id m \<noteq> og_owner_user_id o' \<and> live_membership m"

lemma candidates_cuttable:
  assumes "findOrganization org (td_billing d) = Some o'"
  shows "set (suspension_candidates org (og_id o') (og_owner_user_id o') d) = {m \<in> set (td_memberships d). cuttable o' m}"
  unfolding suspension_candidates_set cuttable_def using in_found [OF assms] by auto

lemma seat_cut_seats:
  assumes keys: "distinct (map mb_id (td_memberships s))" and C: "set C \<subseteq> {m \<in> set (td_memberships s). cuttable o' m}" "distinct C"
    and ms: "td_memberships d = update_where (\<lambda>m. m \<in> set C) (\<lambda>m. m\<lparr>mb_status := ''SUSPENDED'', mb_updated_at := now\<rparr>) (td_memberships s)"
  shows "seats d (og_id o') + length C = seats s (og_id o')"
    and "{m \<in> set (td_memberships d). cuttable o' m} = {m \<in> set (td_memberships s). cuttable o' m} - set C"
    and "set (td_memberships s) - set (td_memberships d) = set C"
proof -
  let ?f = "\<lambda>m. m\<lparr>mb_status := ''SUSPENDED'', mb_updated_at := now\<rparr>"
  have "seat_of (og_id o') m \<and> \<not> seat_of (og_id o') (?f m)" if "m \<in> set C" for m
    using C that by (auto simp: cuttable_def seat_of_def membershipStatusConsumesSeat_def SEAT_CONSUMING_MEMBERSHIP_STATUSES_def)
  then have "length (filter (seat_of (og_id o')) (td_memberships d)) + card (set C) = length (filter (seat_of (og_id o')) (td_memberships s))"
    unfolding ms by (intro length_filter_update_lose [OF keys]) (use C in auto)
  then show "seats d (og_id o') + length C = seats s (og_id o')" using C(2) by (simp add: seats_def distinct_card)
  have rows: "set (td_memberships d) = ?f ` set C \<union> (set (td_memberships s) - set C)"
    unfolding ms set_update_where using C(1) by auto
  have cut: "\<not> cuttable o' (?f m)" for m by (simp add: cuttable_def)
  then show "{m \<in> set (td_memberships d). cuttable o' m} = {m \<in> set (td_memberships s). cuttable o' m} - set C"
    unfolding rows by auto
  have "m \<notin> ?f ` set C" if "m \<in> set C" for m using that C(1) cut by blast
  then show "set (td_memberships s) - set (td_memberships d) = set C" unfolding rows using C(1) by auto
qed

text \<open>A cut of the seats suspends as many active members as the ceiling asks for, the last to join first and never
  the owner: afterwards the organization is within the ceiling, or no active member but the owner is left (pending
  invitations keep their seats).\<close>

theorem seat_cut_fits_ceiling:
  assumes "distinct (map mb_id (td_memberships (tw_db w)))" and "findOrganization org (td_billing (tw_db w)) = Some o'" and "0 \<le> ceiling"
    and "suspendExcessActiveMembersToFitCeiling env org ceiling w = (Inr n, w')"
  shows "seats (tw_db w') (og_id o') + n = seats (tw_db w) (og_id o') \<and>
    (int (seats (tw_db w') (og_id o')) \<le> ceiling \<or> {m \<in> set (td_memberships (tw_db w')). cuttable o' m} = {}) \<and>
    {(x, y). x \<in> set (td_memberships (tw_db w)) - set (td_memberships (tw_db w')) \<and> y \<in> set (td_memberships (tw_db w')) \<and> cuttable o' y \<and>
       the (mb_joined_at x) < the (mb_joined_at y)} = {}"
proof -
  let ?s = "tw_db w" and ?body = "act_bind (requireOrganizationRecordByPublicId org) (\<lambda>o'. act_bind (sql_read (countActiveByOrganization org (og_id o'))) (\<lambda>used.
      if int used - ceiling \<le> 0 then act_return []
      else suspendExcessActiveMembers env org (og_id o') (og_owner_user_id o') (nat (int used - ceiling))))"
  let ?K = "suspension_candidates org (og_id o') (og_owner_user_id o') ?s"
  define k where "k = nat (int (seats ?s (og_id o')) - ceiling)"
  define C where "C = take k ?K"
  obtain ids w1 where w1: "tenant_transaction ?body w = (Inr ids, w1)"
      "act_bind (invalidate_users ids org) (\<lambda>_. act_return (length ids)) w1 = (Inr n, w')"
    using assms(4) unfolding suspendExcessActiveMembersToFitCeiling_def by (rule act_bind_InrE)
  define d where "d = tw_db w1"
  have run: "run_transaction ?body ?s = (Inr ids, d)"
    using w1(1) by (auto simp: tenant_transaction_def d_def split: prod.splits)
  have n: "n = length ids" and d: "tw_db w' = d"
    using w1(2) invalidate_users_run [of ids org w1] by (auto simp: act_bind_def act_return_def d_def split: prod.splits sum.splits)
  from ensures_run [OF ensures_seat_cut [OF assms(1,2) k_def C_def, of env]] run
  have cut: "ids = map mb_user_id C" "td_memberships d = update_where (\<lambda>m. m \<in> set C)
       (\<lambda>m. m\<lparr>mb_status := ''SUSPENDED'', mb_updated_at := te_jsNow env\<rparr>) (td_memberships ?s)" by simp_all
  have K: "set ?K = {m \<in> set (td_memberships ?s). cuttable o' m}" by (rule candidates_cuttable [OF assms(2)])
  have "distinct ?K" using assms(1) by (simp add: suspension_candidates_def distinct_map)
  then have C: "set C \<subseteq> {m \<in> set (td_memberships ?s). cuttable o' m}" "distinct C"
    using K set_take_subset [of k ?K] by (auto simp: C_def)
  note after = seat_cut_seats [OF assms(1) C cut(2)]
  have fits: "int (seats d (og_id o')) \<le> ceiling \<or> {m \<in> set (td_memberships d). cuttable o' m} = {}"
  proof (cases "k \<le> length ?K")
    case True
    then have "length C = k" by (simp add: C_def)
    then show ?thesis using after(1) assms(3) unfolding k_def by linarith
  next
    case False
    then show ?thesis using after(2) K by (simp add: C_def)
  qed
  have order: "the (mb_joined_at y) \<le> the (mb_joined_at x)" if "x \<in> set C" "y \<in> set ?K - set C" for x y
  proof -
    have "sorted (map (\<lambda>m. - the (mb_joined_at m)) (take k ?K @ drop k ?K))" by (simp add: suspension_candidates_def)
    moreover have "y \<in> set (drop k ?K)" using that(2) C_def by (metis DiffE UnE append_take_drop_id set_append)
    ultimately show ?thesis using that(1) by (auto simp: sorted_append C_def simp del: append_take_drop_id)
  qed
  have "\<not> the (mb_joined_at x) < the (mb_joined_at y)" if "x \<in> set (td_memberships ?s) - set (td_memberships d)"
      "y \<in> set (td_memberships d)" "cuttable o' y" for x y
  proof -
    have "x \<in> set C" using that(1) after(3) by blast
    moreover have "y \<in> set ?K - set C" using that(2,3) after(2) K by blast
    ultimately show ?thesis using order by fastforce
  qed
  then have "{(x, y). x \<in> set (td_memberships ?s) - set (td_memberships d) \<and> y \<in> set (td_memberships d) \<and> cuttable o' y \<and>
      the (mb_joined_at x) < the (mb_joined_at y)} = {}" by blast
  moreover have "length ids = length C" using cut(1) by simp
  ultimately show ?thesis using after(1) fits unfolding n d by simp
qed

definition demo_latecomer :: TenancyWorld where
  "demo_latecomer = demo_tenancy_world\<lparr>tw_db := demo_tenancy_db\<lparr>td_memberships := td_memberships demo_tenancy_db @
     [(demo_membership 32 ''mem_3'' 3 22)\<lparr>mb_joined_at := Some 90\<rparr>]\<rparr>\<rparr>"

theorem seat_cut_fits_ceiling_witness:
  "fst (suspendExcessActiveMembersToFitCeiling demo_tenancy_env ''org_a'' 2 demo_latecomer) = Inr 1 \<and>
   map mb_status (td_memberships (tw_db (snd (suspendExcessActiveMembersToFitCeiling demo_tenancy_env ''org_a'' 2 demo_latecomer)))) =
     [''ACTIVE'', ''ACTIVE'', ''SUSPENDED''] \<and>
   seats (tw_db (snd (suspendExcessActiveMembersToFitCeiling demo_tenancy_env ''org_a'' 2 demo_latecomer))) 7 + 1 = 3"
proof -
  let ?r = "suspendExcessActiveMembersToFitCeiling demo_tenancy_env ''org_a'' 2 demo_latecomer"
  have facts: "distinct (map mb_id (td_memberships (tw_db demo_latecomer)))"
    "findOrganization ''org_a'' (td_billing (tw_db demo_latecomer)) = Some demo_organization" "fst ?r = Inr 1"
    "map mb_status (td_memberships (tw_db (snd ?r))) = [''ACTIVE'', ''ACTIVE'', ''SUSPENDED'']" "seats (tw_db demo_latecomer) 7 = 3"
    "og_id demo_organization = 7" by code_simp+
  have run: "?r = (Inr 1, snd ?r)" using facts(3) by (metis prod.collapse)
  from seat_cut_fits_ceiling [OF facts(1,2) _ run] have "seats (tw_db (snd ?r)) 7 + 1 = 3" using facts(5,6) by simp
  with facts(3,4) show ?thesis by blast
qed

end
