(* ===== verification/Permission_Cache.thy ===== *)
theory Permission_Cache
  imports Prelude JS_Values
begin

text \<open>
  The cache of a user's permissions: \<^verbatim>\<open>src/src/domains/tenancy/sub-domains/permission/permission-cache.service.ts\<close>,
  as \<^verbatim>\<open>authorization.service.ts\<close> uses it.  Entries live under a version of their organization, so one \<^verbatim>\<open>INCR\<close> orphans
  them all; a miss is recomputed under a lock whose nonce guards the write.  The functions of the source come
  first, \<^verbatim>\<open>resolvePermissionsWithRepository\<close> and \<^verbatim>\<open>withPermissionCacheRecomputeLock\<close> as one step per timer, Redis command
  and database read; then the interleavings of lookups, committed changes and invalidations as a step relation.  \<^verbatim>\<open>JSON.stringify\<close> and \<^verbatim>\<open>JSON.parse\<close> of a list of codes
  cancel, so an entry holds the list.
\<close>

section \<open>Keys\<close>

function js_decimal :: "nat \<Rightarrow> string" where
  "js_decimal n = (if n < 10 then [char_of (48 + n)] else js_decimal (n div 10) @ [char_of (48 + n mod 10)])"
  by auto
termination by (relation "measure id") auto

declare js_decimal.simps [simp del]

definition digits_value :: "string \<Rightarrow> nat" where
  "digits_value s = foldl (\<lambda>a c. a * 10 + (of_char c - 48)) 0 s"

lemma digits_value_decimal: "digits_value (js_decimal n) = n"
proof (induction n rule: js_decimal.induct)
  case (1 n)
  show ?case
  proof (cases "n < 10")
    case True
    then show ?thesis by (simp add: js_decimal.simps [of n] digits_value_def)
  next
    case False
    have "n mod 10 < 10" by simp
    then have "(48 + n mod 10) mod 256 = 48 + n mod 10" by simp
    with False 1 show ?thesis by (simp add: js_decimal.simps [of n] digits_value_def)
  qed
qed

lemma js_decimal_inj [simp]: "js_decimal n = js_decimal m \<longleftrightarrow> n = m"
  by (metis digits_value_decimal)

lemma js_decimal_digits: "c \<in> set (js_decimal n) \<Longrightarrow> is_digit c"
proof (induction n rule: js_decimal.induct)
  case (1 n)
  have digit: "is_digit (char_of (48 + k))" if "k < 10" for k :: nat
    using that by (simp add: is_digit_def)
  from 1 show ?case by (cases "n < 10") (auto simp: js_decimal.simps [of n] digit)
qed

lemma js_decimal_Cons: "\<exists>c s. js_decimal n = c # s \<and> is_digit c"
  using js_decimal_digits [of _ n] by (cases "js_decimal n") (auto simp: js_decimal.simps [of n] split: if_splits)

definition buildOrganizationVersionKey :: "string \<Rightarrow> string" where
  "buildOrganizationVersionKey org = ''perm:org:'' @ org @ '':v''"

definition buildKey :: "nat \<Rightarrow> string \<Rightarrow> string \<Rightarrow> string" where
  "buildKey version user org = ''perm:'' @ js_decimal version @ '':'' @ user @ '':'' @ org"

definition buildRecomputeLockKey :: "string \<Rightarrow> string \<Rightarrow> string" where
  "buildRecomputeLockKey user org = ''perm:lock:'' @ user @ '':'' @ org"

lemma keys_apart [simp]:
  "buildKey v u o' = buildKey w u o' \<longleftrightarrow> v = w"
  "buildKey v u o' \<noteq> buildRecomputeLockKey u' o2" "buildRecomputeLockKey u' o2 \<noteq> buildKey v u o'"
  "buildKey v u o' \<noteq> buildOrganizationVersionKey o2" "buildOrganizationVersionKey o2 \<noteq> buildKey v u o'"
  "buildRecomputeLockKey u o' \<noteq> buildOrganizationVersionKey o2" "buildOrganizationVersionKey o2 \<noteq> buildRecomputeLockKey u o'"
  using js_decimal_Cons [of v]
  by (auto simp: buildKey_def buildRecomputeLockKey_def buildOrganizationVersionKey_def is_digit_def)

section \<open>The operations\<close>

datatype PermValue =
    Codes "string list"
  | Nonce string
  | Version nat
  | Corrupt              \<comment> \<open>not an integer\<close>

definition PERMISSION_CACHE_DEFAULT_TTL_SECONDS :: int where "PERMISSION_CACHE_DEFAULT_TTL_SECONDS = 300"

definition PERMISSION_CACHE_RECOMPUTE_LOCK_TTL_SECONDS :: int where "PERMISSION_CACHE_RECOMPUTE_LOCK_TTL_SECONDS = 15"

definition PERMISSION_CACHE_STAMPEDE_POLL_MS :: int where "PERMISSION_CACHE_STAMPEDE_POLL_MS = 50"

definition PERMISSION_CACHE_ORGANIZATION_VERSION_TTL_SECONDS :: int where
  "PERMISSION_CACHE_ORGANIZATION_VERSION_TTL_SECONDS = 24 * 60 * 60"

text \<open>\<^verbatim>\<open>Math.ceil((15 * 1000 * 0.9) / 50)\<close>.\<close>

definition STAMPEDE_POLL_ATTEMPTS :: nat where
  "STAMPEDE_POLL_ATTEMPTS = nat ((PERMISSION_CACHE_RECOMPUTE_LOCK_TTL_SECONDS * 1000 * 9 + PERMISSION_CACHE_STAMPEDE_POLL_MS * 10 - 1) div
     (PERMISSION_CACHE_STAMPEDE_POLL_MS * 10))"

text \<open>\<open>up\<close>: the command got an answer.  \<^const>\<open>None\<close> of the version is the exception.\<close>

definition getOrganizationCacheVersion :: "bool \<Rightarrow> millis \<Rightarrow> PermValue redis \<Rightarrow> string \<Rightarrow> nat option" where
  "getOrganizationCacheVersion up now r org = (if \<not> up then None
     else case redis_get now r (buildOrganizationVersionKey org) of
       None \<Rightarrow> Some 0 | Some (Version n) \<Rightarrow> Some n | Some _ \<Rightarrow> None)"

definition bumpOrganizationCacheVersion :: "bool \<Rightarrow> millis \<Rightarrow> string \<Rightarrow> PermValue redis \<Rightarrow> bool \<times> PermValue redis" where
  "bumpOrganizationCacheVersion up now org r = (if \<not> up then (False, r)
     else let key = buildOrganizationVersionKey org;
              put = (\<lambda>n. redis_set_ex now key (Version n) PERMISSION_CACHE_ORGANIZATION_VERSION_TTL_SECONDS r)
          in case redis_get now r key of
               None \<Rightarrow> (True, put 1) | Some (Version n) \<Rightarrow> (True, put (Suc n)) | Some _ \<Rightarrow> (False, r))"

text \<open>The second \<^verbatim>\<open>GET\<close> of \<^verbatim>\<open>getCachedPermissions\<close>, with the version its first has read.\<close>

definition getPermissionEntry :: "bool \<Rightarrow> millis \<Rightarrow> PermValue redis \<Rightarrow> nat \<Rightarrow> string \<Rightarrow> string \<Rightarrow> string list option" where
  "getPermissionEntry up now r version user org = (if \<not> up then None
     else case redis_get now r (buildKey version user org) of Some (Codes c) \<Rightarrow> Some c | _ \<Rightarrow> None)"

text \<open>The two commands of a lookup find Redis as it is when each of them runs: first \<open>(up1, now1, r1)\<close>, then
  \<open>(up2, now2, r2)\<close>.\<close>

definition getCachedPermissions ::
    "bool \<Rightarrow> millis \<Rightarrow> PermValue redis \<Rightarrow> bool \<Rightarrow> millis \<Rightarrow> PermValue redis \<Rightarrow> string \<Rightarrow> string \<Rightarrow> string list option" where
  "getCachedPermissions up1 now1 r1 up2 now2 r2 user org = (case getOrganizationCacheVersion up1 now1 r1 org of
       None \<Rightarrow> None | Some v \<Rightarrow> getPermissionEntry up2 now2 r2 v user org)"

definition setCachedPermissions ::
    "bool \<Rightarrow> millis \<Rightarrow> PermValue redis \<Rightarrow> bool \<Rightarrow> millis \<Rightarrow> string \<Rightarrow> string \<Rightarrow> string list \<Rightarrow> int \<Rightarrow> int \<Rightarrow> PermValue redis \<Rightarrow> PermValue redis" where
  "setCachedPermissions up1 now1 r1 up2 now2 user org codes ttlSeconds jitter r = (case getOrganizationCacheVersion up1 now1 r1 org of
       None \<Rightarrow> r
     | Some v \<Rightarrow> if up2 then redis_set_ex now2 (buildKey v user org) (Codes codes) (ttlSeconds + jitter) r else r)"

definition commitCachedPermissionsIfLockHeld ::
    "bool \<Rightarrow> millis \<Rightarrow> string \<Rightarrow> string \<Rightarrow> nat \<Rightarrow> string \<Rightarrow> string list \<Rightarrow> int \<Rightarrow> PermValue redis \<Rightarrow> PermValue redis" where
  "commitCachedPermissionsIfLockHeld up now user org version nonce codes jitter r =
     (if up \<and> redis_get now r (buildRecomputeLockKey user org) = Some (Nonce nonce)
      then redis_set_ex now (buildKey version user org) (Codes codes) (PERMISSION_CACHE_DEFAULT_TTL_SECONDS + jitter) r else r)"

definition releaseRecomputeLockIfHeld :: "bool \<Rightarrow> millis \<Rightarrow> string \<Rightarrow> string \<Rightarrow> string \<Rightarrow> PermValue redis \<Rightarrow> PermValue redis" where
  "releaseRecomputeLockIfHeld up now user org nonce r =
     (if up \<and> redis_get now r (buildRecomputeLockKey user org) = Some (Nonce nonce)
      then redis_del (buildRecomputeLockKey user org) r else r)"

text \<open>The second command of \<^verbatim>\<open>invalidatePermissions\<close>, with the version its first has read.\<close>

definition deletePermissionKeys :: "string \<Rightarrow> string \<Rightarrow> nat \<Rightarrow> PermValue redis \<Rightarrow> PermValue redis" where
  "deletePermissionKeys user org version r =
     redis_del (buildRecomputeLockKey user org) (redis_del (buildKey version user org) r)"

definition invalidatePermissions_now ::
    "bool \<Rightarrow> bool \<Rightarrow> bool \<Rightarrow> millis \<Rightarrow> string \<Rightarrow> string \<Rightarrow> PermValue redis \<Rightarrow> PermValue redis" where
  "invalidatePermissions_now up1 up2 up3 now user org r = (case getOrganizationCacheVersion up1 now r org of
       Some v \<Rightarrow> if up2 then deletePermissionKeys user org v r else snd (bumpOrganizationCacheVersion up3 now org r)
     | None \<Rightarrow> snd (bumpOrganizationCacheVersion up3 now org r))"

definition invalidateOrganizationPermissions_now :: "bool \<Rightarrow> millis \<Rightarrow> string \<Rightarrow> PermValue redis \<Rightarrow> PermValue redis" where
  "invalidateOrganizationPermissions_now up now org r = snd (bumpOrganizationCacheVersion up now org r)"

section \<open>A lookup, one await at a time\<close>

text \<open>\<^verbatim>\<open>resolvePermissionsWithRepository\<close>: the cache lookup, then \<^verbatim>\<open>withPermissionCacheRecomputeLock\<close> from its \<^verbatim>\<open>SET NX\<close> on.
  A phase names the timer, the Redis command or the database read that is awaited next.\<close>

datatype RecomputePhase =
    LookupVersion
  | LookupEntry nat                           \<comment> \<open>the version read\<close>
  | Acquire
  | PollWait nat                              \<comment> \<open>attempts made: the timer, then the two \<^verbatim>\<open>GET\<close>s\<close>
  | PollVersion nat
  | PollEntry nat nat
  | DoubleCheckVersion bool                   \<comment> \<open>\<^verbatim>\<open>acquiredLock\<close>\<close>
  | DoubleCheckEntry bool nat
  | CaptureVersion bool
  | Query bool "nat option"
  | Commit bool nat "string list"
  | Release "string list option"
  | Answered "string list option"             \<comment> \<open>\<^const>\<open>None\<close>: the recompute's own error\<close>

definition finish :: "bool \<Rightarrow> string list option \<Rightarrow> RecomputePhase" where
  "finish acquiredLock result = (if acquiredLock then Release result else Answered result)"

definition poll_missed :: "nat \<Rightarrow> RecomputePhase" where
  "poll_missed k = (if Suc k < STAMPEDE_POLL_ATTEMPTS then PollWait (Suc k) else DoubleCheckVersion False)"

fun recompute_step ::
    "bool \<Rightarrow> millis \<Rightarrow> int \<Rightarrow> string list option \<Rightarrow> string \<Rightarrow> string \<Rightarrow> string \<Rightarrow> RecomputePhase \<Rightarrow> PermValue redis \<Rightarrow> RecomputePhase \<times> PermValue redis" where
  "recompute_step up now jitter recomputed user org nonce LookupVersion r =
     (case getOrganizationCacheVersion up now r org of Some v \<Rightarrow> (LookupEntry v, r) | None \<Rightarrow> (Acquire, r))"
| "recompute_step up now jitter recomputed user org nonce (LookupEntry v) r =
     (case getPermissionEntry up now r v user org of Some c \<Rightarrow> (Answered (Some c), r) | None \<Rightarrow> (Acquire, r))"
| "recompute_step up now jitter recomputed user org nonce Acquire r =
     (if \<not> up then (Query False None, r)
      else case redis_set_ex_nx now (buildRecomputeLockKey user org) (Nonce nonce) PERMISSION_CACHE_RECOMPUTE_LOCK_TTL_SECONDS r of
        (ok, r') \<Rightarrow> (if ok then DoubleCheckVersion True else PollWait 0, r'))"
| "recompute_step up now jitter recomputed user org nonce (PollWait k) r = (PollVersion k, r)"
| "recompute_step up now jitter recomputed user org nonce (PollVersion k) r =
     (case getOrganizationCacheVersion up now r org of Some v \<Rightarrow> (PollEntry k v, r) | None \<Rightarrow> (poll_missed k, r))"
| "recompute_step up now jitter recomputed user org nonce (PollEntry k v) r =
     (case getPermissionEntry up now r v user org of Some c \<Rightarrow> (Answered (Some c), r) | None \<Rightarrow> (poll_missed k, r))"
| "recompute_step up now jitter recomputed user org nonce (DoubleCheckVersion a) r =
     (case getOrganizationCacheVersion up now r org of Some v \<Rightarrow> (DoubleCheckEntry a v, r) | None \<Rightarrow> (CaptureVersion a, r))"
| "recompute_step up now jitter recomputed user org nonce (DoubleCheckEntry a v) r =
     (case getPermissionEntry up now r v user org of Some c \<Rightarrow> (finish a (Some c), r) | None \<Rightarrow> (CaptureVersion a, r))"
| "recompute_step up now jitter recomputed user org nonce (CaptureVersion a) r =
     (Query a (getOrganizationCacheVersion up now r org), r)"
| "recompute_step up now jitter recomputed user org nonce (Query a v) r =
     (case recomputed of None \<Rightarrow> (finish a None, r)
      | Some codes \<Rightarrow> (case v of None \<Rightarrow> (finish a (Some codes), r) | Some n \<Rightarrow> (Commit a n codes, r)))"
| "recompute_step up now jitter recomputed user org nonce (Commit a v codes) r =
     (finish a (Some codes), commitCachedPermissionsIfLockHeld up now user org v nonce codes jitter r)"
| "recompute_step up now jitter recomputed user org nonce (Release result) r =
     (Answered result, releaseRecomputeLockIfHeld up now user org nonce r)"
| "recompute_step up now jitter recomputed user org nonce (Answered result) r = (Answered result, r)"

text \<open>The phases that read an entry are \<^verbatim>\<open>getCachedPermissions\<close> split at its second \<^verbatim>\<open>await\<close>.\<close>

lemma lookup_is_getCachedPermissions:
  assumes "recompute_step up1 now1 j1 c1 user org nonce LookupVersion r1 = (p, r1')"
    and "getCachedPermissions up1 now1 r1 up2 now2 r2 user org = Some codes"
  shows "recompute_step up2 now2 j2 c2 user org nonce p r2 = (Answered (Some codes), r2)"
  using assms by (auto simp: getCachedPermissions_def split: option.splits)

text \<open>What an await finds: whether Redis answers, the clock, the jitter, the database's answer, and what the other
  processes have made of Redis meanwhile.\<close>

record Await =
  aw_up :: bool
  aw_now :: millis
  aw_jitter :: int
  aw_recomputed :: "string list option"
  aw_redis :: "PermValue redis"

definition withPermissionCacheRecomputeLock :: "string \<Rightarrow> string \<Rightarrow> string \<Rightarrow> Await list \<Rightarrow> RecomputePhase" where
  "withPermissionCacheRecomputeLock user org nonce awaits = foldl (\<lambda>p a. fst (recompute_step (aw_up a) (aw_now a) (aw_jitter a)
     (aw_recomputed a) user org nonce p (aw_redis a))) Acquire awaits"

definition resolvePermissionsWithRepository :: "string \<Rightarrow> string \<Rightarrow> string \<Rightarrow> Await list \<Rightarrow> RecomputePhase" where
  "resolvePermissionsWithRepository user org nonce awaits = foldl (\<lambda>p a. fst (recompute_step (aw_up a) (aw_now a) (aw_jitter a)
     (aw_recomputed a) user org nonce p (aw_redis a))) LookupVersion awaits"

definition release_left :: "bool \<Rightarrow> nat" where
  "release_left acquiredLock = (if acquiredLock then 1 else 0)"

fun awaits_left :: "RecomputePhase \<Rightarrow> nat" where
  "awaits_left LookupVersion = 3 * STAMPEDE_POLL_ATTEMPTS + 8"
| "awaits_left (LookupEntry _) = 3 * STAMPEDE_POLL_ATTEMPTS + 7"
| "awaits_left Acquire = 3 * STAMPEDE_POLL_ATTEMPTS + 6"
| "awaits_left (PollWait k) = 3 * (STAMPEDE_POLL_ATTEMPTS - Suc k) + 8"
| "awaits_left (PollVersion k) = 3 * (STAMPEDE_POLL_ATTEMPTS - Suc k) + 7"
| "awaits_left (PollEntry k _) = 3 * (STAMPEDE_POLL_ATTEMPTS - Suc k) + 6"
| "awaits_left (DoubleCheckVersion a) = 5 + release_left a"
| "awaits_left (DoubleCheckEntry a _) = 4 + release_left a"
| "awaits_left (CaptureVersion a) = 3 + release_left a"
| "awaits_left (Query a _) = 2 + release_left a"
| "awaits_left (Commit a _ _) = 1 + release_left a"
| "awaits_left (Release _) = 1"
| "awaits_left (Answered _) = 0"

lemma poll_attempts: "STAMPEDE_POLL_ATTEMPTS = 270"
  by (simp add: STAMPEDE_POLL_ATTEMPTS_def PERMISSION_CACHE_RECOMPUTE_LOCK_TTL_SECONDS_def PERMISSION_CACHE_STAMPEDE_POLL_MS_def)

lemma awaits_left_0: "awaits_left p = 0 \<longleftrightarrow> (\<exists>x. p = Answered x)"
  by (cases p) auto

lemma awaits_left_step:
  "awaits_left p > 0 \<Longrightarrow> awaits_left (fst (recompute_step up now j c u o' n p r)) < awaits_left p"
  using poll_attempts by (cases p) (auto simp: finish_def poll_missed_def release_left_def split: prod.splits option.splits)

lemma awaits_enough:
  "awaits_left p \<le> length awaits \<Longrightarrow> \<exists>x. foldl (\<lambda>p a. fst (recompute_step (aw_up a) (aw_now a) (aw_jitter a)
     (aw_recomputed a) u o' n p (aw_redis a))) p awaits = Answered x"
proof (induction awaits arbitrary: p)
  case Nil
  then show ?case by (simp add: awaits_left_0)
next
  case (Cons a awaits)
  let ?p = "fst (recompute_step (aw_up a) (aw_now a) (aw_jitter a) (aw_recomputed a) u o' n p (aw_redis a))"
  have "awaits_left ?p \<le> length awaits"
  proof (cases "awaits_left p = 0")
    case True
    then show ?thesis by (auto simp: awaits_left_0)
  next
    case False
    then have "awaits_left ?p < awaits_left p" by (intro awaits_left_step) simp
    with Cons.prems show ?thesis by simp
  qed
  from Cons.IH [OF this] show ?case by simp
qed

text \<open>How far a waiter gets that finds the lock taken and the cache empty all along.\<close>

definition waiting_await :: Await where
  "waiting_await = \<lparr>aw_up = True, aw_now = 1000, aw_jitter = 7, aw_recomputed = Some [''role:read''],
     aw_redis = [''perm:lock:usr_1:org_a'' \<mapsto> (Nonce ''other'', Some 9000)]\<rparr>"

abbreviation waits :: "nat \<Rightarrow> RecomputePhase \<Rightarrow> RecomputePhase" where
  "waits n p \<equiv> foldl (\<lambda>p a. fst (recompute_step (aw_up a) (aw_now a) (aw_jitter a)
     (aw_recomputed a) ''usr_1'' ''org_a'' ''mine'' p (aw_redis a))) p (replicate n waiting_await)"

lemma waits_add: "waits (m + n) p = waits n (waits m p)"
  by (simp add: replicate_add)

lemma waiting_step:
  "waits 1 Acquire = PollWait 0"
  "waits 3 (PollWait k) = poll_missed k"
  "waits 5 (DoubleCheckVersion False) = Answered (Some [''role:read''])"
  "waits 4 (DoubleCheckVersion False) = Commit False 0 [''role:read'']"
  by (simp_all add: waiting_await_def redis_set_ex_nx_def redis_get_def live_entry_def buildRecomputeLockKey_def numeral_nat
      getOrganizationCacheVersion_def getPermissionEntry_def buildOrganizationVersionKey_def buildKey_def finish_def
      js_decimal.simps [of 0])

lemma waiting_polls: "k < STAMPEDE_POLL_ATTEMPTS \<Longrightarrow> waits (3 * (STAMPEDE_POLL_ATTEMPTS - k)) (PollWait k) = DoubleCheckVersion False"
proof (induction "STAMPEDE_POLL_ATTEMPTS - Suc k" arbitrary: k)
  case 0
  then have "STAMPEDE_POLL_ATTEMPTS - k = 1" by simp
  with 0 show ?case using waiting_step(2) [of k] by (simp add: poll_missed_def)
next
  case (Suc m)
  then have nx: "Suc k < STAMPEDE_POLL_ATTEMPTS" "m = STAMPEDE_POLL_ATTEMPTS - Suc (Suc k)" by simp_all
  then have split: "3 * (STAMPEDE_POLL_ATTEMPTS - k) = 3 + 3 * (STAMPEDE_POLL_ATTEMPTS - Suc k)" by simp
  show ?case
    unfolding split waits_add waiting_step(2) using Suc.hyps(1) [OF nx(2) nx(1)] nx(1) by (simp only: poll_missed_def if_True)
qed

lemma waiter_uses_all_awaits: "waits 815 Acquire = Commit False 0 [''role:read'']"
proof -
  have "waits (1 + (3 * (STAMPEDE_POLL_ATTEMPTS - 0) + 4)) Acquire = Commit False 0 [''role:read'']"
    unfolding waits_add waiting_step(1) using waiting_polls [of 0] waiting_step(4) by (simp only: poll_attempts zero_less_numeral if_True True_implies_equals)
  then show ?thesis by (simp add: poll_attempts)
qed

text \<open>C25 A permission lookup always answers: whatever Redis does, fails at or is changed to by other requests between
  its awaits, \<^verbatim>\<open>withPermissionCacheRecomputeLock\<close> is over after at most 816 of them (one \<^verbatim>\<open>SET NX\<close>, 270 polls of a timer and
  two \<^verbatim>\<open>GET\<close>s, two \<^verbatim>\<open>GET\<close>s of the double check, the version, the recompute callback, and the commit), and the lookup
  with its two first \<^verbatim>\<open>GET\<close>s after at most 818.  The bound is exact: a waiter that finds the lock taken and the cache
  empty throughout has not answered after 815.\<close>

theorem recompute_terminates:
  shows "(816 \<le> length awaits \<longrightarrow> (\<exists>result. withPermissionCacheRecomputeLock user org nonce awaits = Answered result)) \<and>
    (818 \<le> length awaits \<longrightarrow> (\<exists>result. resolvePermissionsWithRepository user org nonce awaits = Answered result)) \<and>
    withPermissionCacheRecomputeLock ''usr_1'' ''org_a'' ''mine'' (replicate 815 waiting_await) = Commit False 0 [''role:read'']"
proof -
  have "awaits_left Acquire = 816" "awaits_left LookupVersion = 818" by (simp_all add: poll_attempts)
  then show ?thesis
    unfolding withPermissionCacheRecomputeLock_def resolvePermissionsWithRepository_def
    using awaits_enough [of Acquire awaits] awaits_enough [of LookupVersion awaits] waiter_uses_all_awaits by auto
qed

theorem recompute_terminates_witness:
  "\<exists>result. withPermissionCacheRecomputeLock ''usr_1'' ''org_a'' ''mine'' (replicate 816 waiting_await) = Answered result"
  using recompute_terminates [of "replicate 816 waiting_await" "''usr_1''" "''org_a''" "''mine''"] by simp

section \<open>Interleavings\<close>

text \<open>One user in one organization: the clock, Redis, the committed codes, the lookups by nonce, the
  invalidations that have read the version and not yet deleted, each with whether it began after the last
  commit, and whether an invalidation begun after the last commit has completed.  \<open>ps_fresh\<close> says of a lookup whether
  that was so at its last step and nothing was committed since; \<open>ps_version_kept\<close> whether the organization's version
  key has outlived every tick of the clock so far.\<close>

record PermSystem =
  ps_now :: millis
  ps_redis :: "PermValue redis"
  ps_db :: "string list"
  ps_procs :: "string \<Rightarrow> RecomputePhase option"
  ps_deletes :: "(nat \<times> bool) set"
  ps_clean :: bool
  ps_fresh :: "string \<Rightarrow> bool"
  ps_version_kept :: bool

definition version_alive :: "string \<Rightarrow> millis \<Rightarrow> PermValue redis \<Rightarrow> bool" where
  "version_alive org t r \<longleftrightarrow> (case r (buildOrganizationVersionKey org) of Some (_, Some e) \<Rightarrow> t < e | _ \<Rightarrow> True)"

inductive perm_step :: "string \<Rightarrow> string \<Rightarrow> PermSystem \<Rightarrow> PermSystem \<Rightarrow> bool" for user org where
  tick: "ps_now s \<le> t \<Longrightarrow>
    perm_step user org s (s\<lparr>ps_now := t, ps_version_kept := ps_version_kept s \<and> version_alive org t (ps_redis s)\<rparr>)"
| change: "perm_step user org s (s\<lparr>ps_db := codes, ps_deletes := (\<lambda>(v, _). (v, False)) ` ps_deletes s, ps_clean := False,
    ps_fresh := (\<lambda>_. False)\<rparr>)"
| begin_lookup: "ps_procs s nonce = None \<Longrightarrow> perm_step user org s (s\<lparr>ps_procs := (ps_procs s)(nonce \<mapsto> LookupVersion)\<rparr>)"
| recompute: "ps_procs s nonce = Some p \<Longrightarrow> recomputed \<in> {None, Some (ps_db s)} \<Longrightarrow>
    recompute_step up (ps_now s) jitter recomputed user org nonce p (ps_redis s) = (p', r') \<Longrightarrow>
    perm_step user org s (s\<lparr>ps_procs := (ps_procs s)(nonce \<mapsto> p'), ps_redis := r', ps_fresh := (ps_fresh s)(nonce := ps_clean s)\<rparr>)"
| read_version: "getOrganizationCacheVersion True (ps_now s) (ps_redis s) org = Some v \<Longrightarrow>
    perm_step user org s (s\<lparr>ps_deletes := insert (v, True) (ps_deletes s)\<rparr>)"
| delete_keys: "(v, since) \<in> ps_deletes s \<Longrightarrow>
    perm_step user org s (s\<lparr>ps_redis := deletePermissionKeys user org v (ps_redis s), ps_deletes := ps_deletes s - {(v, since)},
      ps_clean := ps_clean s \<or> since\<rparr>)"
| bump: "bumpOrganizationCacheVersion True (ps_now s) org (ps_redis s) = (True, r') \<Longrightarrow>
    perm_step user org s (s\<lparr>ps_redis := r', ps_clean := True\<rparr>)"

inductive perm_reachable :: "string \<Rightarrow> string \<Rightarrow> PermSystem \<Rightarrow> bool" for user org where
  initial: "ps_redis s = (\<lambda>_. None) \<Longrightarrow> ps_procs s = (\<lambda>_. None) \<Longrightarrow> ps_deletes s = {} \<Longrightarrow> perm_reachable user org s"
| step: "perm_reachable user org s \<Longrightarrow> perm_step user org s s' \<Longrightarrow> perm_reachable user org s'"

section \<open>The invariant\<close>

definition current_version :: "string \<Rightarrow> PermValue redis \<Rightarrow> nat" where
  "current_version org r = (case r (buildOrganizationVersionKey org) of Some (Version n, _) \<Rightarrow> n | _ \<Rightarrow> 0)"

definition version_ok :: "string \<Rightarrow> millis \<Rightarrow> PermValue redis \<Rightarrow> bool" where
  "version_ok org now r \<longleftrightarrow> (case r (buildOrganizationVersionKey org) of None \<Rightarrow> True
     | Some (Version _, Some e) \<Rightarrow> now < e | _ \<Rightarrow> False)"

definition entry :: "string \<Rightarrow> string \<Rightarrow> PermValue redis \<Rightarrow> nat \<Rightarrow> PermValue option" where
  "entry user org r v = map_option fst (r (buildKey v user org))"

definition holds_lock :: "string \<Rightarrow> string \<Rightarrow> PermValue redis \<Rightarrow> string \<Rightarrow> bool" where
  "holds_lock user org r nonce \<longleftrightarrow> map_option fst (r (buildRecomputeLockKey user org)) = Some (Nonce nonce)"

fun bound_version :: "RecomputePhase \<Rightarrow> nat option" where
  "bound_version (Query _ v) = v"
| "bound_version (Commit _ v _) = Some v"
| "bound_version _ = None"

text \<open>The version whose entry a lookup reads next, and the codes a lookup has come back with.\<close>

fun entry_version :: "RecomputePhase \<Rightarrow> nat option" where
  "entry_version (LookupEntry v) = Some v"
| "entry_version (PollEntry _ v) = Some v"
| "entry_version (DoubleCheckEntry _ v) = Some v"
| "entry_version _ = None"

fun answer_of :: "RecomputePhase \<Rightarrow> string list option" where
  "answer_of (Release result) = result"
| "answer_of (Answered result) = result"
| "answer_of _ = None"

definition perm_inv :: "string \<Rightarrow> string \<Rightarrow> PermSystem \<Rightarrow> bool" where
  "perm_inv user org s \<longleftrightarrow> (let r = ps_redis s; V = current_version org r in
     version_ok org (ps_now s) r \<and>
     (\<forall>v x. entry user org r v = Some x \<longrightarrow> v \<le> V) \<and>
     (\<forall>n p v. ps_procs s n = Some p \<longrightarrow> bound_version p = Some v \<longrightarrow> v \<le> V) \<and>
     (ps_clean s \<longrightarrow> (\<forall>c. entry user org r V = Some (Codes c) \<longrightarrow> c = ps_db s)) \<and>
     (ps_clean s \<longrightarrow> (\<forall>n a v c. ps_procs s n = Some (Commit a v c) \<longrightarrow> c \<noteq> ps_db s \<longrightarrow> holds_lock user org r n \<longrightarrow> v < V)) \<and>
     (\<forall>v. (v, True) \<in> ps_deletes s \<longrightarrow> v \<le> V \<and> (\<forall>w c. v < w \<longrightarrow> entry user org r w = Some (Codes c) \<longrightarrow> c = ps_db s) \<and>
        (\<forall>n a w c. ps_procs s n = Some (Commit a w c) \<longrightarrow> v < w \<longrightarrow> c = ps_db s)) \<and>
     (\<forall>n p v. ps_procs s n = Some p \<longrightarrow> entry_version p = Some v \<longrightarrow> ps_fresh s n \<longrightarrow>
        (\<forall>c. entry user org r v = Some (Codes c) \<longrightarrow> c = ps_db s) \<and>
        (\<forall>m a c. ps_procs s m = Some (Commit a v c) \<longrightarrow> holds_lock user org r m \<longrightarrow> c = ps_db s)))"

lemma redis_get_raw: "redis_get now r k = Some x \<Longrightarrow> map_option fst (r k) = Some x"
  by (auto simp: redis_get_def live_entry_def split: option.splits prod.splits if_splits)

lemma version_read:
  assumes "version_ok org now r"
  shows "getOrganizationCacheVersion True now r org = Some (current_version org r)"
    and "bumpOrganizationCacheVersion True now org r =
      (True, redis_set_ex now (buildOrganizationVersionKey org) (Version (Suc (current_version org r))) PERMISSION_CACHE_ORGANIZATION_VERSION_TTL_SECONDS r)"
  using assms
  by (auto simp: version_ok_def getOrganizationCacheVersion_def bumpOrganizationCacheVersion_def current_version_def redis_get_def Let_def
      split: option.splits prod.splits PermValue.splits if_splits)

text \<open>How the writes change what the invariant reads.\<close>

lemma raw_updates [simp]:
  "entry user org (r(buildOrganizationVersionKey org := x)) v = entry user org r v"
  "entry user org (r(buildRecomputeLockKey user org := x)) v = entry user org r v"
  "entry user org (r(buildKey w user org := x)) v = (if v = w then map_option fst x else entry user org r v)"
  "holds_lock user org (r(buildOrganizationVersionKey org := x)) n = holds_lock user org r n"
  "holds_lock user org (r(buildKey w user org := x)) n = holds_lock user org r n"
  "holds_lock user org (r(buildRecomputeLockKey user org := x)) n = (map_option fst x = Some (Nonce n))"
  "current_version org (r(buildKey w user org := x)) = current_version org r"
  "current_version org (r(buildRecomputeLockKey user org := x)) = current_version org r"
  "current_version org (r(buildOrganizationVersionKey org := Some (Version m, e))) = m"
  "version_ok org now (r(buildKey w user org := x)) = version_ok org now r"
  "version_ok org now (r(buildRecomputeLockKey user org := x)) = version_ok org now r"
  "version_ok org now (r(buildOrganizationVersionKey org := Some (Version m, Some expires))) = (now < expires)"
  by (simp_all add: entry_def holds_lock_def current_version_def version_ok_def)

lemma lock_get: "redis_get now r (buildRecomputeLockKey user org) = Some (Nonce n) \<Longrightarrow> holds_lock user org r n"
  by (simp add: holds_lock_def redis_get_raw)

lemma commit_cases:
  assumes "commitCachedPermissionsIfLockHeld up now user org v n c j r = r'"
  obtains "r' = r" | e where "holds_lock user org r n" and "r' = r(buildKey v user org := Some (Codes c, e))"
proof (cases "up \<and> redis_get now r (buildRecomputeLockKey user org) = Some (Nonce n)")
  case True
  with assms have "r' = r(buildKey v user org := Some (Codes c, Some (now + (PERMISSION_CACHE_DEFAULT_TTL_SECONDS + j) * 1000)))"
    by (simp add: commitCachedPermissionsIfLockHeld_def redis_set_ex_def)
  with True show ?thesis by (intro that(2) [OF lock_get [of now]]) auto
next
  case False
  with assms show ?thesis by (intro that(1)) (simp add: commitCachedPermissionsIfLockHeld_def split: if_splits)
qed

lemma release_cases:
  assumes "releaseRecomputeLockIfHeld up now user org n r = r'"
  obtains "r' = r" | "r' = r(buildRecomputeLockKey user org := None)"
  using assms by (auto simp: releaseRecomputeLockIfHeld_def redis_del_def split: if_splits)

lemma acquire_cases:
  assumes "redis_set_ex_nx now (buildRecomputeLockKey user org) (Nonce n) ttl r = (ok, r')"
  obtains "\<not> ok" "r' = r" | e where "ok" and "r' = r(buildRecomputeLockKey user org := Some (Nonce n, e))"
  using assms by (auto simp: redis_set_ex_nx_def redis_set_ex_def split: option.splits)

lemma perm_invI:
  assumes "version_ok org (ps_now s) (ps_redis s)"
    and "\<And>v x. entry user org (ps_redis s) v = Some x \<Longrightarrow> v \<le> current_version org (ps_redis s)"
    and "\<And>n p v. ps_procs s n = Some p \<Longrightarrow> bound_version p = Some v \<Longrightarrow> v \<le> current_version org (ps_redis s)"
    and "\<And>c. ps_clean s \<Longrightarrow> entry user org (ps_redis s) (current_version org (ps_redis s)) = Some (Codes c) \<Longrightarrow> c = ps_db s"
    and "\<And>n a v c. ps_clean s \<Longrightarrow> ps_procs s n = Some (Commit a v c) \<Longrightarrow> c \<noteq> ps_db s \<Longrightarrow> holds_lock user org (ps_redis s) n \<Longrightarrow>
      v < current_version org (ps_redis s)"
    and "\<And>v w c. (v, True) \<in> ps_deletes s \<Longrightarrow> v < w \<Longrightarrow> entry user org (ps_redis s) w = Some (Codes c) \<Longrightarrow> c = ps_db s"
    and "\<And>v n a w c. (v, True) \<in> ps_deletes s \<Longrightarrow> ps_procs s n = Some (Commit a w c) \<Longrightarrow> v < w \<Longrightarrow> c = ps_db s"
    and "\<And>v. (v, True) \<in> ps_deletes s \<Longrightarrow> v \<le> current_version org (ps_redis s)"
    and "\<And>n p v c. ps_procs s n = Some p \<Longrightarrow> entry_version p = Some v \<Longrightarrow> ps_fresh s n \<Longrightarrow>
      entry user org (ps_redis s) v = Some (Codes c) \<Longrightarrow> c = ps_db s"
    and "\<And>n p v m a c. ps_procs s n = Some p \<Longrightarrow> entry_version p = Some v \<Longrightarrow> ps_fresh s n \<Longrightarrow>
      ps_procs s m = Some (Commit a v c) \<Longrightarrow> holds_lock user org (ps_redis s) m \<Longrightarrow> c = ps_db s"
  shows "perm_inv user org s"
  unfolding perm_inv_def Let_def by (intro conjI allI impI; rule assms; assumption)

lemma perm_invD:
  assumes "perm_inv user org s"
  shows "version_ok org (ps_now s) (ps_redis s)"
    and "entry user org (ps_redis s) v = Some x \<Longrightarrow> v \<le> current_version org (ps_redis s)"
    and "ps_procs s n = Some p \<Longrightarrow> bound_version p = Some v \<Longrightarrow> v \<le> current_version org (ps_redis s)"
    and "ps_clean s \<Longrightarrow> entry user org (ps_redis s) (current_version org (ps_redis s)) = Some (Codes c) \<Longrightarrow> c = ps_db s"
    and "ps_clean s \<Longrightarrow> ps_procs s n = Some (Commit a v c) \<Longrightarrow> c \<noteq> ps_db s \<Longrightarrow> holds_lock user org (ps_redis s) n \<Longrightarrow>
      v < current_version org (ps_redis s)"
    and "(v, True) \<in> ps_deletes s \<Longrightarrow> v < w \<Longrightarrow> entry user org (ps_redis s) w = Some (Codes c) \<Longrightarrow> c = ps_db s"
    and "(v, True) \<in> ps_deletes s \<Longrightarrow> ps_procs s n = Some (Commit a w c) \<Longrightarrow> v < w \<Longrightarrow> c = ps_db s"
    and "(v, True) \<in> ps_deletes s \<Longrightarrow> v \<le> current_version org (ps_redis s)"
    and "ps_procs s n = Some p \<Longrightarrow> entry_version p = Some v \<Longrightarrow> ps_fresh s n \<Longrightarrow>
      entry user org (ps_redis s) v = Some (Codes c) \<Longrightarrow> c = ps_db s"
    and "ps_procs s n = Some p \<Longrightarrow> entry_version p = Some v \<Longrightarrow> ps_fresh s n \<Longrightarrow>
      ps_procs s m = Some (Commit a v c) \<Longrightarrow> holds_lock user org (ps_redis s) m \<Longrightarrow> c = ps_db s"
proof -
  note all = assms [unfolded perm_inv_def Let_def]
  note rest = all [THEN conjunct2] note rest2 = rest [THEN conjunct2] note rest3 = rest2 [THEN conjunct2]
  note rest4 = rest3 [THEN conjunct2] note rest5 = rest4 [THEN conjunct2] note rest6 = rest5 [THEN conjunct2]
  show "version_ok org (ps_now s) (ps_redis s)" using all by (rule conjunct1)
  show "entry user org (ps_redis s) v = Some x \<Longrightarrow> v \<le> current_version org (ps_redis s)"
    using rest [THEN conjunct1] by simp
  show "ps_procs s n = Some p \<Longrightarrow> bound_version p = Some v \<Longrightarrow> v \<le> current_version org (ps_redis s)"
    using rest2 [THEN conjunct1] by simp
  show "ps_clean s \<Longrightarrow> entry user org (ps_redis s) (current_version org (ps_redis s)) = Some (Codes c) \<Longrightarrow> c = ps_db s"
    using rest3 [THEN conjunct1] by simp
  show "ps_clean s \<Longrightarrow> ps_procs s n = Some (Commit a v c) \<Longrightarrow> c \<noteq> ps_db s \<Longrightarrow> holds_lock user org (ps_redis s) n \<Longrightarrow>
      v < current_version org (ps_redis s)"
    using rest4 [THEN conjunct1] by blast
  show "(v, True) \<in> ps_deletes s \<Longrightarrow> v < w \<Longrightarrow> entry user org (ps_redis s) w = Some (Codes c) \<Longrightarrow> c = ps_db s"
    and "(v, True) \<in> ps_deletes s \<Longrightarrow> ps_procs s n = Some (Commit a w c) \<Longrightarrow> v < w \<Longrightarrow> c = ps_db s"
    and "(v, True) \<in> ps_deletes s \<Longrightarrow> v \<le> current_version org (ps_redis s)"
    using rest5 [THEN conjunct1] by blast+
  show "ps_procs s n = Some p \<Longrightarrow> entry_version p = Some v \<Longrightarrow> ps_fresh s n \<Longrightarrow>
      entry user org (ps_redis s) v = Some (Codes c) \<Longrightarrow> c = ps_db s"
    and "ps_procs s n = Some p \<Longrightarrow> entry_version p = Some v \<Longrightarrow> ps_fresh s n \<Longrightarrow>
      ps_procs s m = Some (Commit a v c) \<Longrightarrow> holds_lock user org (ps_redis s) m \<Longrightarrow> c = ps_db s"
    using rest6 by blast+
qed

lemma version_ok_tick: "version_ok org now r \<Longrightarrow> version_alive org t r \<Longrightarrow> version_ok org t r"
  by (auto simp: version_ok_def version_alive_def split: option.splits prod.splits PermValue.splits)

text \<open>A lookup's step keeps the version key, writes an entry only at the bound version while its nonce holds
  the lock, and binds or looks up no version but the current one.\<close>

lemma version_read_only:
  "version_ok org now r \<Longrightarrow> getOrganizationCacheVersion up now r org = Some v \<Longrightarrow> v = current_version org r"
  using version_read(1) [of org now r] by (cases up) (auto simp: getOrganizationCacheVersion_def)

lemma recompute_step_cases:
  assumes "recompute_step up now jitter recomputed user org nonce p r = (p', r')" "version_ok org now r"
  obtains (quiet) "r' = r \<or> r' = r(buildRecomputeLockKey user org := None)" "\<And>v. bound_version p' = Some v \<Longrightarrow> v = current_version org r"
      "\<And>v. entry_version p' = Some v \<Longrightarrow> v = current_version org r" "\<And>a v c. p' \<noteq> Commit a v c"
    | (locked) e where "r' = r(buildRecomputeLockKey user org := Some (Nonce nonce, e))" "p' = DoubleCheckVersion True"
    | (queried) a v codes where "r' = r" "bound_version p = Some v" "recomputed = Some codes" "p' = Commit a v codes"
    | (committed) a v codes e where "p = Commit a v codes" "holds_lock user org r nonce" "bound_version p' = None"
      "entry_version p' = None" "r' = r(buildKey v user org := Some (Codes codes, e))"
proof (cases p)
  case Acquire
  then show ?thesis
  proof (cases up)
    case True
    with Acquire assms obtain ok where set: "redis_set_ex_nx now (buildRecomputeLockKey user org) (Nonce nonce)
        PERMISSION_CACHE_RECOMPUTE_LOCK_TTL_SECONDS r = (ok, r')" and p': "p' = (if ok then DoubleCheckVersion True else PollWait 0)"
      by (auto split: prod.splits)
    from set show ?thesis by (rule acquire_cases) (auto simp: p' intro: quiet locked)
  qed (use Acquire assms in \<open>auto intro: quiet\<close>)
next
  case (CaptureVersion a)
  with assms show ?thesis using version_read_only [OF assms(2)] by (intro quiet) auto
next
  case (Query a v)
  with assms show ?thesis
    by (cases recomputed; cases v; cases a) (auto simp: finish_def intro: quiet queried)
next
  case (Commit a v codes)
  then have "commitCachedPermissionsIfLockHeld up now user org v nonce codes jitter r = r'" and p': "bound_version p' = None"
      "entry_version p' = None" "\<And>a v c. p' \<noteq> Commit a v c"
    using assms by (auto simp: finish_def split: if_splits)
  from this(1) show ?thesis by (rule commit_cases) (use Commit p' in \<open>auto intro: quiet committed\<close>)
next
  case (Release result)
  then have "releaseRecomputeLockIfHeld up now user org nonce r = r'" and p': "p' = Answered result"
    using assms by auto
  from this(1) show ?thesis by (rule release_cases) (use p' in \<open>auto intro: quiet\<close>)
qed (use assms in \<open>auto simp: finish_def poll_missed_def dest: version_read_only intro!: quiet split: option.splits if_splits\<close>)

lemma perm_inv_recompute:
  assumes inv: "perm_inv user org s" and p: "ps_procs s nonce = Some p" and db: "recomputed \<in> {None, Some (ps_db s)}"
    and run: "recompute_step up (ps_now s) jitter recomputed user org nonce p (ps_redis s) = (p', r')"
  shows "perm_inv user org (s\<lparr>ps_procs := (ps_procs s)(nonce \<mapsto> p'), ps_redis := r', ps_fresh := (ps_fresh s)(nonce := ps_clean s)\<rparr>)"
proof -
  note I = perm_invD [OF inv]
  have stale: "c = ps_db s" if "ps_clean s" "ps_procs s m = Some (Commit a (current_version org (ps_redis s)) c)"
      "holds_lock user org (ps_redis s) m" for m a c
    using I(5) [OF that(1,2) _ that(3)] by blast
  show ?thesis
  proof (rule recompute_step_cases [OF run I(1)], goal_cases)
    case 1
    then show ?case by (intro perm_invI) (auto dest: I(2-10) stale split: if_splits intro: I(1))
  next
    case (2 e)
    then show ?case by (intro perm_invI) (auto dest: I(2-10) split: if_splits intro: I(1))
  next
    case (3 a v codes)
    then show ?case using I(3) [OF p] db by (intro perm_invI) (auto dest: I(2-10) split: if_splits intro: I(1))
  next
    case (4 a v codes e)
    then have "v \<le> current_version org (ps_redis s)" using I(3) [OF p] by simp
    with 4 show ?case using I(5) [of nonce a v codes] I(7) [of _ nonce a v codes] p
      by (intro perm_invI) (auto dest: I(2-10) split: if_splits intro: I(1))
  qed
qed

lemma perm_inv_step:
  assumes "perm_step user org s s'" "perm_inv user org s" "ps_version_kept s'"
  shows "perm_inv user org s'"
  using assms
proof (induction rule: perm_step.induct)
  case (tick s t)
  note I = perm_invD [OF tick(2)]
  have "version_ok org t (ps_redis s)" using version_ok_tick [OF I(1)] tick(3) by simp
  then show ?case by (intro perm_invI) (auto dest: I(2-10))
next
  case (change s codes)
  note I = perm_invD [OF change(1)]
  show ?case using I(1) by (intro perm_invI) (auto dest: I(2-3))
next
  case (begin_lookup s nonce)
  note I = perm_invD [OF begin_lookup(2)]
  show ?case using I(1) by (intro perm_invI) (auto dest: I(2-10) split: if_splits)
next
  case (recompute s nonce p recomputed up jitter p' r')
  then show ?case by (intro perm_inv_recompute)
next
  case (read_version s v)
  note I = perm_invD [OF read_version(2)]
  have v: "v = current_version org (ps_redis s)" using read_version(1) version_read(1) [OF I(1)] by simp
  have "bound_version (Commit a w c) = Some w" for a w c by simp
  then have "\<not> (ps_procs s n = Some (Commit a w c) \<and> v < w)" for n a w c using I(3) [of n "Commit a w c" w] v by auto
  then show ?case using I(1) v by (intro perm_invI) (auto dest: I(2-10))
next
  case (delete_keys v since s)
  note I = perm_invD [OF delete_keys(2)]
  show ?case using I(1) I(8) [of v] delete_keys(1) by (intro perm_invI) (auto simp: deletePermissionKeys_def redis_del_def le_less dest: I(2-10) split: if_splits)
next
  case (bump s r')
  note I = perm_invD [OF bump(2)]
  have r': "r' = (ps_redis s)(buildOrganizationVersionKey org := Some (Version (Suc (current_version org (ps_redis s))),
      Some (ps_now s + PERMISSION_CACHE_ORGANIZATION_VERSION_TTL_SECONDS * 1000)))"
    using bump(1) version_read(2) [OF I(1)] by (simp add: redis_set_ex_def)
  have "v \<le> current_version org (ps_redis s)" if "ps_procs s n = Some (Commit a v c)" for n a v c
    using I(3) [OF that] by simp
  then show ?case unfolding r'
    by (intro perm_invI) (auto simp: PERMISSION_CACHE_ORGANIZATION_VERSION_TTL_SECONDS_def le_Suc_eq less_Suc_eq_le dest: I(2-10))
qed

lemma version_kept_before: "perm_step user org s s' \<Longrightarrow> ps_version_kept s' \<Longrightarrow> ps_version_kept s"
  by (induction rule: perm_step.induct) simp_all

lemma perm_inv_reachable: "perm_reachable user org s \<Longrightarrow> ps_version_kept s \<Longrightarrow> perm_inv user org s"
proof (induction rule: perm_reachable.induct)
  case (initial s)
  then show ?case by (intro perm_invI) (simp_all add: version_ok_def entry_def)
next
  case (step s s')
  then show ?case using version_kept_before [OF step(2) step(4)] by (blast intro: perm_inv_step)
qed

lemma entry_read_cases:
  assumes "recompute_step up now jitter recomputed user org nonce p r = (p', r')" and "entry_version p = Some v"
    and "answer_of p' = Some codes"
  shows "entry user org r v = Some (Codes codes)"
proof -
  have "getPermissionEntry up now r v user org = Some codes"
    using assms by (cases p) (auto simp: finish_def poll_missed_def split: option.splits if_splits)
  then show ?thesis
    by (auto simp: getPermissionEntry_def entry_def split: if_splits option.splits PermValue.splits dest: redis_get_raw)
qed

text \<open>C21 No stale hit: take any interleaving of lookups, one Redis command or database read at a time, with committed
  changes, deletions, bumps and the passing of time, with Redis failing at any command.  If an invalidation begun after
  the last committed change had completed when a lookup read the organization's version, and nothing was committed
  since, then what that lookup finds under the version, and so answers with, is the committed codes: no recomputation
  that read the old rows can still publish them there.  This holds as long as the organization's version key
  has not expired (24 hours after the last bump): from then on an orphaned entry can come back.\<close>

theorem permission_cache_no_stale_hit:
  assumes "perm_reachable user org s" and "ps_version_kept s"
    and "ps_procs s nonce = Some p" and "entry_version p = Some v" and "ps_fresh s nonce"
    and "recompute_step up (ps_now s) jitter recomputed user org nonce p (ps_redis s) = (p', r')"
    and "answer_of p' = Some codes"
  shows "codes = ps_db s"
  using perm_invD(9) [OF perm_inv_reachable [OF assms(1,2)] assms(3,4,5) entry_read_cases [OF assms(6,4,7)]] .

definition go_on :: "string \<Rightarrow> PermSystem \<Rightarrow> PermSystem" where
  "go_on nonce s = (case ps_procs s nonce of None \<Rightarrow> s\<lparr>ps_procs := (ps_procs s)(nonce \<mapsto> LookupVersion)\<rparr>
     | Some p \<Rightarrow> (case recompute_step True (ps_now s) 0 (Some (ps_db s)) ''usr_1'' ''org_a'' nonce p (ps_redis s) of
         (p', r') \<Rightarrow> s\<lparr>ps_procs := (ps_procs s)(nonce \<mapsto> p'), ps_redis := r', ps_fresh := (ps_fresh s)(nonce := ps_clean s)\<rparr>))"

lemma reachable_go_on: "perm_reachable ''usr_1'' ''org_a'' s \<Longrightarrow> perm_reachable ''usr_1'' ''org_a'' (go_on nonce s)"
proof -
  assume s: "perm_reachable ''usr_1'' ''org_a'' s"
  have "perm_step ''usr_1'' ''org_a'' s (go_on nonce s)"
  proof (cases "ps_procs s nonce")
    case None
    then show ?thesis by (simp add: go_on_def perm_step.begin_lookup)
  next
    case (Some p)
    obtain p' r' where "recompute_step True (ps_now s) 0 (Some (ps_db s)) ''usr_1'' ''org_a'' nonce p (ps_redis s) = (p', r')"
      by (rule prod.exhaust)
    from perm_step.recompute [OF Some _ this] Some this show ?thesis by (simp add: go_on_def)
  qed
  with s show ?thesis by (rule perm_reachable.step)
qed

text \<open>A recomputation reads the old row; the change commits and its invalidation runs; the first recomputation tries to
  publish; a second one publishes the new row; a third lookup reads the version.\<close>

definition demo_queried :: PermSystem where
  "demo_queried = (go_on ''n1'' ^^ 8) \<lparr>ps_now = 1000, ps_redis = (\<lambda>_. None), ps_db = [''role:read''], ps_procs = (\<lambda>_. None),
     ps_deletes = {}, ps_clean = True, ps_fresh = (\<lambda>_. False), ps_version_kept = True\<rparr>"

definition demo_invalidated :: PermSystem where
  "demo_invalidated = demo_queried\<lparr>ps_db := [''role:write''], ps_redis := deletePermissionKeys ''usr_1'' ''org_a'' 0 (ps_redis demo_queried),
     ps_deletes := {}, ps_clean := True, ps_fresh := (\<lambda>_. False)\<rparr>"

definition demo_published :: PermSystem where
  "demo_published = (go_on ''n3'' ^^ 2) ((go_on ''n2'' ^^ 9) ((go_on ''n1'' ^^ 2) demo_invalidated))"

lemmas go_on_simps = go_on_def getPermissionEntry_def getOrganizationCacheVersion_def finish_def redis_set_ex_nx_def redis_get_def
  redis_set_ex_def redis_del_def commitCachedPermissionsIfLockHeld_def releaseRecomputeLockIfHeld_def deletePermissionKeys_def
  PERMISSION_CACHE_RECOMPUTE_LOCK_TTL_SECONDS_def PERMISSION_CACHE_DEFAULT_TTL_SECONDS_def numeral_nat

lemma demo_queried_eq: "demo_queried = \<lparr>ps_now = 1000,
    ps_redis = [buildRecomputeLockKey ''usr_1'' ''org_a'' \<mapsto> (Nonce ''n1'', Some 16000)], ps_db = [''role:read''],
    ps_procs = [''n1'' \<mapsto> Commit True 0 [''role:read'']], ps_deletes = {}, ps_clean = True,
    ps_fresh = (\<lambda>_. False)(''n1'' := True), ps_version_kept = True\<rparr>"
  by (simp add: demo_queried_def go_on_simps)

lemma demo_published_eq: "ps_now demo_published = 1000" "ps_db demo_published = [''role:write'']" "ps_version_kept demo_published"
    "ps_procs demo_published ''n3'' = Some (LookupEntry 0)" "ps_fresh demo_published ''n3''"
    "getPermissionEntry True 1000 (ps_redis demo_published) 0 ''usr_1'' ''org_a'' = Some [''role:write'']"
  by (simp_all add: demo_published_def demo_invalidated_def demo_queried_eq go_on_simps)

lemma reachable_go_on_n: "perm_reachable ''usr_1'' ''org_a'' s \<Longrightarrow> perm_reachable ''usr_1'' ''org_a'' ((go_on nonce ^^ k) s)"
  by (induction k) (auto intro: reachable_go_on)

lemma demo_reachable: "perm_reachable ''usr_1'' ''org_a'' demo_published"
proof -
  let ?changed = "demo_queried\<lparr>ps_db := [''role:write''], ps_deletes := (\<lambda>(v, _). (v, False)) ` ps_deletes demo_queried, ps_clean := False,
    ps_fresh := (\<lambda>_. False)\<rparr>"
  let ?read = "?changed\<lparr>ps_deletes := insert (0, True) (ps_deletes ?changed)\<rparr>"
  have "perm_reachable ''usr_1'' ''org_a'' demo_queried"
    unfolding demo_queried_def by (intro reachable_go_on_n perm_reachable.initial) simp_all
  then have "perm_reachable ''usr_1'' ''org_a'' ?changed" by (blast intro: perm_reachable.step perm_step.change)
  moreover have "getOrganizationCacheVersion True (ps_now ?changed) (ps_redis ?changed) ''org_a'' = Some 0"
    by (simp add: demo_queried_eq go_on_simps)
  ultimately have "perm_reachable ''usr_1'' ''org_a'' ?read" by (blast intro: perm_reachable.step perm_step.read_version)
  moreover have "perm_step ''usr_1'' ''org_a'' ?read demo_invalidated"
    using perm_step.delete_keys [of 0 True ?read] by (simp add: demo_invalidated_def demo_queried_eq)
  ultimately have "perm_reachable ''usr_1'' ''org_a'' demo_invalidated" by (rule perm_reachable.step)
  then show ?thesis unfolding demo_published_def by (intro reachable_go_on_n)
qed

theorem permission_cache_no_stale_hit_witness:
  "recompute_step True 1000 0 None ''usr_1'' ''org_a'' ''n3'' (LookupEntry 0) (ps_redis demo_published) =
     (Answered (Some [''role:write'']), ps_redis demo_published) \<and> [''role:write''] = ps_db demo_published"
proof (intro conjI)
  show hit: "recompute_step True 1000 0 None ''usr_1'' ''org_a'' ''n3'' (LookupEntry 0) (ps_redis demo_published) =
     (Answered (Some [''role:write'']), ps_redis demo_published)"
    by (simp add: demo_published_eq(6))
  show "[''role:write''] = ps_db demo_published"
    using permission_cache_no_stale_hit [OF demo_reachable demo_published_eq(3,4) _ demo_published_eq(5), of 0 True 0 None]
      hit by (simp add: demo_published_eq(1))
qed

section \<open>When the version key expires\<close>

text \<open>The version can run backwards: the key lives for 24 hours from the last bump while entries are written under its
  version until it expires; if it has expired and an entry of version 1 is still live (it was written within the
  last minutes), the next organization-wide invalidation counts from 1 again, and where the cache held nothing
  for the user before, it now answers the old codes.\<close>

theorem version_expiry_resurrects_entries:
  assumes "redis_get t r (buildOrganizationVersionKey org) = None"
    and "redis_get t r (buildKey 1 user org) = Some (Codes old)" and "redis_get t r (buildKey 0 user org) = None"
  shows "getCachedPermissions True t r True t r user org = None \<and>
    getCachedPermissions True t (invalidateOrganizationPermissions_now True t org r)
      True t (invalidateOrganizationPermissions_now True t org r) user org = Some old"
  using assms by (simp add: getCachedPermissions_def getPermissionEntry_def getOrganizationCacheVersion_def invalidateOrganizationPermissions_now_def
    bumpOrganizationCacheVersion_def redis_get_set_ex PERMISSION_CACHE_ORGANIZATION_VERSION_TTL_SECONDS_def Let_def)

text \<open>A bump at 0, an entry of version 1 written a minute before the key expires, and an invalidation a minute after.\<close>

definition demo_revived :: "PermValue redis" where
  "demo_revived = setCachedPermissions True 86340000 (invalidateOrganizationPermissions_now True 0 ''org_a'' (\<lambda>_. None)) True 86340000
     ''usr_1'' ''org_a'' [''role:read''] PERMISSION_CACHE_DEFAULT_TTL_SECONDS 0
     (invalidateOrganizationPermissions_now True 0 ''org_a'' (\<lambda>_. None))"

theorem version_expiry_resurrects_entries_witness:
  "getCachedPermissions True 86460000 demo_revived True 86460000 demo_revived ''usr_1'' ''org_a'' = None \<and>
   getCachedPermissions True 86460000 (invalidateOrganizationPermissions_now True 86460000 ''org_a'' demo_revived)
     True 86460000 (invalidateOrganizationPermissions_now True 86460000 ''org_a'' demo_revived) ''usr_1'' ''org_a'' =
     Some [''role:read'']"
  by (rule version_expiry_resurrects_entries)
    (simp_all add: demo_revived_def setCachedPermissions_def getOrganizationCacheVersion_def invalidateOrganizationPermissions_now_def
      bumpOrganizationCacheVersion_def redis_get_def redis_set_ex_def Let_def
      PERMISSION_CACHE_ORGANIZATION_VERSION_TTL_SECONDS_def PERMISSION_CACHE_DEFAULT_TTL_SECONDS_def)

end
