(* ===== verification/Uploads.thy ===== *)
theory Uploads
  imports Organizations JS_Values
begin

text \<open>
  Uploads: \<^verbatim>\<open>src/src/domains/upload/\<close>: the rules on what may be uploaded, the table of uploads with its two
  arms of row-level security, the S3 adapter, the creation of an upload with its quotas, and confirmation,
  deletion, the sweep of stale uploads and offboarding, one storage call or statement at a time.  A client
  writes only under \<^verbatim>\<open>pending/\<close>; confirmation verifies the bytes there and publishes them under the final key.
  An object's body is a list of bytes.  \<^verbatim>\<open>DOMPurify\<close> and the S3 entity tag are arguments.
\<close>

section \<open>What may be uploaded\<close>

datatype UploadPurpose = AVATAR | ORGANIZATION_LOGO | USER_FILE | ORGANIZATION_FILE

datatype UploadTarget = ForUser | ForOrganization

record UploadPurposeConfig =
  allowedTypes :: "string list"
  maxSize :: nat
  keyPrefix :: string

fun UPLOAD_PURPOSE_CONFIG :: "UploadPurpose \<Rightarrow> UploadPurposeConfig" where
  "UPLOAD_PURPOSE_CONFIG AVATAR = \<lparr>allowedTypes = [''image/png'', ''image/jpeg'', ''image/webp''],
     maxSize = 2 * 1024 * 1024, keyPrefix = ''avatars''\<rparr>"
| "UPLOAD_PURPOSE_CONFIG ORGANIZATION_LOGO = \<lparr>allowedTypes = [''image/png'', ''image/jpeg'', ''image/webp''],
     maxSize = 5 * 1024 * 1024, keyPrefix = ''organization-logos''\<rparr>"
| "UPLOAD_PURPOSE_CONFIG USER_FILE = \<lparr>allowedTypes = [''image/png'', ''image/jpeg'', ''image/webp'', ''application/pdf''],
     maxSize = 10 * 1024 * 1024, keyPrefix = ''user-files''\<rparr>"
| "UPLOAD_PURPOSE_CONFIG ORGANIZATION_FILE = \<lparr>allowedTypes = [''image/png'', ''image/jpeg'', ''image/webp'', ''application/pdf''],
     maxSize = 10 * 1024 * 1024, keyPrefix = ''organization-files''\<rparr>"

fun UPLOAD_PURPOSE_REQUIRED_TARGET :: "UploadPurpose \<Rightarrow> UploadTarget" where
  "UPLOAD_PURPOSE_REQUIRED_TARGET AVATAR = ForUser"
| "UPLOAD_PURPOSE_REQUIRED_TARGET USER_FILE = ForUser"
| "UPLOAD_PURPOSE_REQUIRED_TARGET ORGANIZATION_LOGO = ForOrganization"
| "UPLOAD_PURPOSE_REQUIRED_TARGET ORGANIZATION_FILE = ForOrganization"

definition SVG_CONTENT_TYPE :: string where "SVG_CONTENT_TYPE = ''image/svg+xml''"

definition isSvgContentType :: "string \<Rightarrow> bool" where
  "isSvgContentType contentType \<longleftrightarrow> js_lower contentType = SVG_CONTENT_TYPE"

definition CONTENT_TYPE_TO_EXTENSIONS :: "(string \<times> string list) list" where
  "CONTENT_TYPE_TO_EXTENSIONS = [(''image/png'', [''.png'']), (''image/jpeg'', [''.jpg'', ''.jpeg'']),
     (''image/webp'', [''.webp'']), (''image/svg+xml'', [''.svg'']), (''application/pdf'', [''.pdf''])]"

definition getAllowedContentTypesForPurpose :: "bool \<Rightarrow> UploadPurpose \<Rightarrow> string list" where
  "getAllowedContentTypesForPurpose allowSvg purpose =
     (let base = allowedTypes (UPLOAD_PURPOSE_CONFIG purpose) in
      if \<not> allowSvg then base
      else if \<not> list_ex (\<lambda>t. js_startsWith t ''image/'') base \<or> SVG_CONTENT_TYPE \<in> set base then base
      else base @ [SVG_CONTENT_TYPE])"

definition getAllowedExtensionsForContentType :: "string \<Rightarrow> string list" where
  "getAllowedExtensionsForContentType contentType =
     (case map_of CONTENT_TYPE_TO_EXTENSIONS contentType of None \<Rightarrow> [] | Some es \<Rightarrow> es)"

definition getCanonicalExtensionForContentType :: "string \<Rightarrow> string" where
  "getCanonicalExtensionForContentType contentType =
     (case getAllowedExtensionsForContentType contentType of [] \<Rightarrow> '''' | e # _ \<Rightarrow> e)"

text \<open>\<^verbatim>\<open>path.extname\<close> of a name without separators and without two dots in a row.\<close>

definition extname :: "string \<Rightarrow> string" where
  "extname name = (let tail = takeWhile (\<lambda>c. c \<noteq> CHR ''.'') (rev name) in
     if length tail \<ge> length name - 1 then '''' else CHR ''.'' # rev tail)"

record CreateUploadInput =
  ci_purpose :: UploadPurpose
  ci_for :: UploadTarget
  ci_organization_id :: "string option"
  ci_content_type :: string
  ci_file_name :: string
  ci_file_size :: nat

definition hasControlCharacters :: "string \<Rightarrow> bool" where
  "hasControlCharacters name \<longleftrightarrow> list_ex (\<lambda>c. of_char c \<le> (0x1f :: nat) \<or> of_char c = (0x7f :: nat)) name"

text \<open>The policy of \<^verbatim>\<open>validateCreateUpload\<close> behind its schema; \<open>isPublicId\<close> is the pattern of public ids.\<close>

definition validateCreateUpload :: "(string \<Rightarrow> bool) \<Rightarrow> bool \<Rightarrow> CreateUploadInput \<Rightarrow> app_error + CreateUploadInput" where
  "validateCreateUpload isPublicId allowSvg i =
     (let org = (case ci_organization_id i of None \<Rightarrow> '''' | Some x \<Rightarrow> x); ext = js_lower (extname (ci_file_name i)) in
      if ci_for i \<noteq> UPLOAD_PURPOSE_REQUIRED_TARGET (ci_purpose i) then Inl (ValidationError ''errors:uploadPurposeTargetMismatch'')
      else if ci_for i = ForUser \<and> org \<noteq> '''' then Inl (ValidationError ''errors:uploadOrganizationIdNotAllowed'')
      else if ci_for i = ForOrganization \<and> org = '''' then Inl (ValidationError ''errors:uploadOrganizationIdRequired'')
      else if ci_organization_id i \<noteq> None \<and> \<not> isPublicId org then Inl (ValidationError ''errors:invalidInput'')
      else if ci_content_type i \<notin> set (getAllowedContentTypesForPurpose allowSvg (ci_purpose i))
        then Inl (ValidationError ''errors:uploadContentTypeNotAllowed'')
      else if js_includes (ci_file_name i) ''/'' \<or> CHR 0x5c \<in> set (ci_file_name i) \<or> js_includes (ci_file_name i) ''..'' \<or>
          hasControlCharacters (ci_file_name i) then Inl (ValidationError ''errors:uploadFilenameUnsafe'')
      else if ext \<noteq> '''' \<and> ext \<notin> set (getAllowedExtensionsForContentType (ci_content_type i))
        then Inl (ValidationError ''errors:uploadFilenameExtensionMismatch'')
      else if ci_file_size i > maxSize (UPLOAD_PURPOSE_CONFIG (ci_purpose i)) then Inl (ValidationError ''errors:uploadFileSizeExceeded'')
      else Inr i)"

section \<open>Magic bytes\<close>

record MagicSignature =
  mg_contentType :: string
  mg_signature :: string
  mg_offset :: nat

definition MAGIC_SIGNATURES :: "MagicSignature list" where
  "MAGIC_SIGNATURES =
     [\<lparr>mg_contentType = ''image/png'', mg_signature = [CHR 0x89, CHR 0x50, CHR 0x4e, CHR 0x47, CHR 0x0d, CHR 0x0a, CHR 0x1a, CHR 0x0a], mg_offset = 0\<rparr>,
      \<lparr>mg_contentType = ''image/jpeg'', mg_signature = [CHR 0xff, CHR 0xd8, CHR 0xff], mg_offset = 0\<rparr>,
      \<lparr>mg_contentType = ''image/webp'', mg_signature = [CHR 0x52, CHR 0x49, CHR 0x46, CHR 0x46], mg_offset = 0\<rparr>,
      \<lparr>mg_contentType = ''application/pdf'', mg_signature = [CHR 0x25, CHR 0x50, CHR 0x44, CHR 0x46], mg_offset = 0\<rparr>]"

definition WEBP_FORMAT_MARKER_OFFSET :: nat where "WEBP_FORMAT_MARKER_OFFSET = 8"

definition WEBP_FORMAT_MARKER :: string where "WEBP_FORMAT_MARKER = [CHR 0x57, CHR 0x45, CHR 0x42, CHR 0x50]"

definition WEBP_MINIMUM_LENGTH :: nat where "WEBP_MINIMUM_LENGTH = WEBP_FORMAT_MARKER_OFFSET + length WEBP_FORMAT_MARKER"

definition isMagicByteVerifiable :: "string \<Rightarrow> bool" where
  "isMagicByteVerifiable contentType \<longleftrightarrow> list_ex (\<lambda>e. mg_contentType e = contentType) MAGIC_SIGNATURES"

definition subarray :: "nat \<Rightarrow> nat \<Rightarrow> string \<Rightarrow> string" where
  "subarray from to b = take (to - from) (drop from b)"

definition verifyFileMagicBytes :: "string \<Rightarrow> string \<Rightarrow> bool" where
  "verifyFileMagicBytes buffer contentType = (case List.find (\<lambda>e. mg_contentType e = contentType) MAGIC_SIGNATURES of
       None \<Rightarrow> False
     | Some e \<Rightarrow>
         let n = length (mg_signature e);
             minimum = (if contentType = ''image/webp'' then WEBP_MINIMUM_LENGTH else mg_offset e + n)
         in length buffer \<ge> minimum \<and> subarray (mg_offset e) (mg_offset e + n) buffer = mg_signature e \<and>
            (contentType = ''image/webp'' \<longrightarrow>
               subarray WEBP_FORMAT_MARKER_OFFSET (WEBP_FORMAT_MARKER_OFFSET + length WEBP_FORMAT_MARKER) buffer = WEBP_FORMAT_MARKER))"

lemma subarray_take [simp]: "to \<le> n \<Longrightarrow> subarray from to (take n b) = subarray from to b"
  by (simp add: subarray_def drop_take min_def)

text \<open>The first 32 bytes decide.\<close>

lemma verify_leading_bytes:
  assumes "32 \<le> n"
  shows "verifyFileMagicBytes (take n b) t = verifyFileMagicBytes b t"
  using assms
  by (auto simp: verifyFileMagicBytes_def MAGIC_SIGNATURES_def WEBP_MINIMUM_LENGTH_def WEBP_FORMAT_MARKER_OFFSET_def
      WEBP_FORMAT_MARKER_def Let_def)

lemma verifiable_not_svg: "isMagicByteVerifiable t \<Longrightarrow> \<not> isSvgContentType t"
  by (auto simp: isMagicByteVerifiable_def isSvgContentType_def MAGIC_SIGNATURES_def SVG_CONTENT_TYPE_def js_lower_def lower_char_def)

section \<open>The table\<close>

record UploadRow =
  up_id :: nat
  up_public_id :: string
  up_user_id :: nat
  up_organization_id :: "nat option"
  up_file_name :: string
  up_file_key :: string
  up_mime_type :: string
  up_file_size :: nat
  up_status :: string
  up_deleted_at :: "millis option"
  up_created_at :: millis
  up_updated_at :: millis

record StoredObject =
  so_body :: string
  so_content_type :: "string option"

record UploadWorld =
  uw_now :: millis
  uw_tenancy :: TenancyDb
  uw_rows :: "UploadRow tbl"
  uw_next_id :: nat
  uw_objects :: "string \<Rightarrow> StoredObject option"

record UploadEnv =
  ue_etag :: "string \<Rightarrow> string"                \<comment> \<open>S3's entity tag of a body\<close>
  ue_sanitizeSvg :: "string \<Rightarrow> string"         \<comment> \<open>\<^verbatim>\<open>DOMPurify.sanitize\<close> with the options of the source\<close>
  ue_bucket :: "string option"
  ue_maxPendingPerUser :: nat
  ue_maxPendingPerOrganization :: nat
  ue_graceSeconds :: nat

definition PRESIGNED_URL_EXPIRY_SECONDS :: int where "PRESIGNED_URL_EXPIRY_SECONDS = 900"

text \<open>The scope of a statement and the rows its policies show: the owner arm, the tenant arm, the retention arm.\<close>

datatype UploadScope = UserScope string | OrganizationScope string | GlobalRetention

fun upload_visible :: "UploadScope \<Rightarrow> TenancyDb \<Rightarrow> UploadRow \<Rightarrow> bool" where
  "upload_visible (UserScope user) d r \<longleftrightarrow> up_organization_id r = None \<and>
     (case findByPublicId user (td_users d) of None \<Rightarrow> False | Some u \<Rightarrow> up_user_id r = us_id u)"
| "upload_visible (OrganizationScope org) d r \<longleftrightarrow> (case up_organization_id r of None \<Rightarrow> False | Some i \<Rightarrow> in_organization org d i)"
| "upload_visible GlobalRetention d r \<longleftrightarrow> True"

definition live_upload :: "UploadRow \<Rightarrow> bool" where
  "live_upload r \<longleftrightarrow> up_deleted_at r = None"

definition upload_findByPublicId :: "UploadScope \<Rightarrow> string \<Rightarrow> UploadWorld \<Rightarrow> UploadRow option" where
  "upload_findByPublicId scope publicId w = select_first
     (\<lambda>r. upload_visible scope (uw_tenancy w) r \<and> up_public_id r = publicId \<and> live_upload r) (uw_rows w)"

definition findByFileKey :: "UploadScope \<Rightarrow> string \<Rightarrow> UploadWorld \<Rightarrow> UploadRow option" where
  "findByFileKey scope fileKey w = select_first
     (\<lambda>r. upload_visible scope (uw_tenancy w) r \<and> up_file_key r = fileKey \<and> live_upload r) (uw_rows w)"

definition countPendingByUserId :: "UploadScope \<Rightarrow> nat \<Rightarrow> UploadWorld \<Rightarrow> nat" where
  "countPendingByUserId scope userId w = length (filter
     (\<lambda>r. upload_visible scope (uw_tenancy w) r \<and> up_user_id r = userId \<and> up_status r = ''PENDING'' \<and> live_upload r) (uw_rows w))"

definition countPendingByOrganizationId :: "UploadScope \<Rightarrow> nat \<Rightarrow> UploadWorld \<Rightarrow> nat" where
  "countPendingByOrganizationId scope oid w = length (filter
     (\<lambda>r. upload_visible scope (uw_tenancy w) r \<and> up_organization_id r = Some oid \<and> up_status r = ''PENDING'' \<and> live_upload r) (uw_rows w))"

definition update_uploads ::
    "UploadScope \<Rightarrow> (UploadRow \<Rightarrow> bool) \<Rightarrow> (UploadRow \<Rightarrow> UploadRow) \<Rightarrow> UploadWorld \<Rightarrow> UploadRow option \<times> UploadWorld" where
  "update_uploads scope p f w = (let (r, t) = update_row (\<lambda>r. upload_visible scope (uw_tenancy w) r \<and> p r)
       (\<lambda>r. (f r)\<lparr>up_updated_at := uw_now w\<rparr>) (uw_rows w) in (r, w\<lparr>uw_rows := t\<rparr>))"

definition markStatusByPublicId :: "UploadScope \<Rightarrow> string \<Rightarrow> string \<Rightarrow> UploadWorld \<Rightarrow> UploadRow option \<times> UploadWorld" where
  "markStatusByPublicId scope publicId status = update_uploads scope
     (\<lambda>r. up_public_id r = publicId \<and> live_upload r) (\<lambda>r. r\<lparr>up_status := status\<rparr>)"

definition markConfirmedByPublicId :: "UploadScope \<Rightarrow> string \<Rightarrow> string \<Rightarrow> UploadWorld \<Rightarrow> UploadRow option \<times> UploadWorld" where
  "markConfirmedByPublicId scope publicId fileKey = update_uploads scope
     (\<lambda>r. up_public_id r = publicId \<and> live_upload r) (\<lambda>r. r\<lparr>up_status := ''UPLOADED'', up_file_key := fileKey\<rparr>)"

definition softDeleteByPublicId :: "UploadScope \<Rightarrow> string \<Rightarrow> UploadWorld \<Rightarrow> UploadRow option \<times> UploadWorld" where
  "softDeleteByPublicId scope publicId w = update_uploads scope
     (\<lambda>r. up_public_id r = publicId \<and> live_upload r) (\<lambda>r. r\<lparr>up_deleted_at := Some (uw_now w)\<rparr>) w"

definition upload_findByPublicIdForUser :: "UploadScope \<Rightarrow> string \<Rightarrow> nat \<Rightarrow> UploadWorld \<Rightarrow> UploadRow option" where
  "upload_findByPublicIdForUser scope publicId userId w = select_first (\<lambda>r. upload_visible scope (uw_tenancy w) r \<and>
     up_public_id r = publicId \<and> up_user_id r = userId \<and> live_upload r) (uw_rows w)"

definition upload_softDelete :: "UploadScope \<Rightarrow> string \<Rightarrow> nat \<Rightarrow> UploadWorld \<Rightarrow> UploadRow option \<times> UploadWorld" where
  "upload_softDelete scope publicId userId w = update_uploads scope
     (\<lambda>r. up_public_id r = publicId \<and> up_user_id r = userId \<and> live_upload r) (\<lambda>r. r\<lparr>up_deleted_at := Some (uw_now w)\<rparr>) w"

definition markStatus :: "UploadScope \<Rightarrow> string \<Rightarrow> nat \<Rightarrow> string \<Rightarrow> UploadWorld \<Rightarrow> UploadRow option \<times> UploadWorld" where
  "markStatus scope publicId userId status = update_uploads scope
     (\<lambda>r. up_public_id r = publicId \<and> up_user_id r = userId \<and> live_upload r) (\<lambda>r. r\<lparr>up_status := status\<rparr>)"

definition find_active_after :: "(UploadRow \<Rightarrow> bool) \<Rightarrow> nat \<Rightarrow> nat \<Rightarrow> UploadWorld \<Rightarrow> UploadRow list" where
  "find_active_after p afterId limit w = take limit (sort_key up_id
     (filter (\<lambda>r. p r \<and> up_id r > afterId \<and> live_upload r) (uw_rows w)))"

definition findActiveByUserIdAfter :: "nat \<Rightarrow> nat \<Rightarrow> nat \<Rightarrow> UploadWorld \<Rightarrow> UploadRow list" where
  "findActiveByUserIdAfter userId = find_active_after (\<lambda>r. up_user_id r = userId)"

definition findActiveByOrganizationIdAfter :: "nat \<Rightarrow> nat \<Rightarrow> nat \<Rightarrow> UploadWorld \<Rightarrow> UploadRow list" where
  "findActiveByOrganizationIdAfter oid = find_active_after (\<lambda>r. up_organization_id r = Some oid)"

definition softDeleteAllByUserId :: "nat \<Rightarrow> UploadWorld \<Rightarrow> UploadWorld" where
  "softDeleteAllByUserId userId w = snd (update_uploads GlobalRetention
     (\<lambda>r. up_user_id r = userId \<and> live_upload r) (\<lambda>r. r\<lparr>up_deleted_at := Some (uw_now w)\<rparr>) w)"

definition softDeleteAllByOrganizationId :: "nat \<Rightarrow> UploadWorld \<Rightarrow> UploadWorld" where
  "softDeleteAllByOrganizationId oid w = snd (update_uploads GlobalRetention
     (\<lambda>r. up_organization_id r = Some oid \<and> live_upload r) (\<lambda>r. r\<lparr>up_deleted_at := Some (uw_now w)\<rparr>) w)"

definition findPendingUploadsOlderThan :: "millis \<Rightarrow> nat \<Rightarrow> UploadWorld \<Rightarrow> UploadRow list" where
  "findPendingUploadsOlderThan cutoff limit w = take limit (sort_key up_created_at
     (filter (\<lambda>r. up_status r = ''PENDING'' \<and> live_upload r \<and> up_created_at r < cutoff) (uw_rows w)))"

definition setUploadStatusByInternalId :: "nat \<Rightarrow> string \<Rightarrow> UploadWorld \<Rightarrow> UploadWorld" where
  "setUploadStatusByInternalId i status w = snd (update_uploads GlobalRetention (\<lambda>r. up_id r = i) (\<lambda>r. r\<lparr>up_status := status\<rparr>) w)"

definition markConfirmedByInternalId :: "nat \<Rightarrow> string \<Rightarrow> UploadWorld \<Rightarrow> UploadWorld" where
  "markConfirmedByInternalId i finalKey w = snd (update_uploads GlobalRetention
     (\<lambda>r. up_id r = i \<and> live_upload r \<and> up_status r = ''PENDING'') (\<lambda>r. r\<lparr>up_status := ''UPLOADED'', up_file_key := finalKey\<rparr>) w)"

definition hardDeleteUploadsByInternalIds :: "nat list \<Rightarrow> UploadWorld \<Rightarrow> UploadWorld" where
  "hardDeleteUploadsByInternalIds ids w = w\<lparr>uw_rows := delete_where (\<lambda>r. up_id r \<in> set ids) (uw_rows w)\<rparr>"

section \<open>Storage\<close>

text \<open>What goes wrong with a call through \<^verbatim>\<open>outboundCall\<close>: S3 fails or times out, which it wraps, or the circuit
  breaker is open, which it passes on as it is.\<close>

datatype StorageFault = S3Fails | CircuitOpen

datatype StorageError =
    ExternalServiceError
  | CircuitBreakerOpenError
  | PlainError string

fun outbound_error :: "StorageFault \<Rightarrow> StorageError" where
  "outbound_error S3Fails = ExternalServiceError"
| "outbound_error CircuitOpen = CircuitBreakerOpenError"

datatype S3HeadResult =
    Found "string option" nat         \<comment> \<open>content type and length\<close>
  | NotFound
  | TransientError StorageError

definition headObjectResult :: "StorageFault option \<Rightarrow> string \<Rightarrow> UploadWorld \<Rightarrow> S3HeadResult" where
  "headObjectResult fault key w = (case fault of Some f \<Rightarrow> TransientError (outbound_error f)
     | None \<Rightarrow> (case uw_objects w key of None \<Rightarrow> NotFound | Some ob \<Rightarrow> Found (so_content_type ob) (length (so_body ob))))"

definition verifyUploadedObject ::
    "StorageFault option \<Rightarrow> string \<Rightarrow> string \<Rightarrow> nat \<Rightarrow> UploadWorld \<Rightarrow> StorageError + (string option \<times> nat)" where
  "verifyUploadedObject fault key contentType contentLength w = (case headObjectResult fault key w of
       TransientError e \<Rightarrow> Inl e
     | NotFound \<Rightarrow> Inl (PlainError ''upload object not found in storage'')
     | Found ct n \<Rightarrow>
         if ct \<noteq> None \<and> ct \<noteq> Some '''' \<and> ct \<noteq> Some contentType then Inl (PlainError ''upload object content type mismatch'')
         else if n \<noteq> contentLength then Inl (PlainError ''upload object content length mismatch'')
         else Inr (ct, n))"

definition getObject :: "StorageFault option \<Rightarrow> string \<Rightarrow> UploadWorld \<Rightarrow> StorageError + string" where
  "getObject fault key w = (case fault of Some f \<Rightarrow> Inl (outbound_error f)
     | None \<Rightarrow> (case uw_objects w key of None \<Rightarrow> Inl ExternalServiceError | Some ob \<Rightarrow> Inr (so_body ob)))"

text \<open>A range of an empty object is refused by S3.\<close>

definition getObjectFirstBytes ::
    "UploadEnv \<Rightarrow> StorageFault option \<Rightarrow> string \<Rightarrow> nat \<Rightarrow> UploadWorld \<Rightarrow> StorageError + (string \<times> string) option" where
  "getObjectFirstBytes env fault key byteCount w = (case fault of Some f \<Rightarrow> Inl (outbound_error f)
     | None \<Rightarrow> (case uw_objects w key of None \<Rightarrow> Inr None
         | Some ob \<Rightarrow> if so_body ob = '''' then Inl ExternalServiceError
             else Inr (Some (take byteCount (so_body ob), ue_etag env (so_body ob)))))"

definition getObjectLeadingBytes :: "StorageFault option \<Rightarrow> string \<Rightarrow> UploadWorld \<Rightarrow> string option" where
  "getObjectLeadingBytes fault key w = (case fault of Some f \<Rightarrow> None
     | None \<Rightarrow> (case uw_objects w key of None \<Rightarrow> None
         | Some ob \<Rightarrow> if so_body ob = '''' then None else Some (take 512 (so_body ob))))"

definition put_object :: "string \<Rightarrow> StoredObject \<Rightarrow> UploadWorld \<Rightarrow> UploadWorld" where
  "put_object key ob w = w\<lparr>uw_objects := (uw_objects w)(key \<mapsto> ob)\<rparr>"

definition copyObject ::
    "UploadEnv \<Rightarrow> StorageFault option \<Rightarrow> string \<Rightarrow> string \<Rightarrow> string \<Rightarrow> string option \<Rightarrow> UploadWorld \<Rightarrow> StorageError option \<times> UploadWorld" where
  "copyObject env fault sourceKey destinationKey contentType sourceETag w = (case fault of Some f \<Rightarrow> (Some (outbound_error f), w)
     | None \<Rightarrow> (case uw_objects w sourceKey of None \<Rightarrow> (Some ExternalServiceError, w)
         | Some ob \<Rightarrow> if sourceETag \<noteq> None \<and> sourceETag \<noteq> Some (ue_etag env (so_body ob)) then (Some ExternalServiceError, w)
             else (None, put_object destinationKey \<lparr>so_body = so_body ob, so_content_type = Some contentType\<rparr> w)))"

text \<open>The copy of \<^verbatim>\<open>storage.service.ts\<close>, which the sweep uses: unconditional, with the metadata of the source.\<close>

definition storage_copyObject :: "StorageFault option \<Rightarrow> string \<Rightarrow> string \<Rightarrow> UploadWorld \<Rightarrow> StorageError option \<times> UploadWorld" where
  "storage_copyObject fault sourceKey destinationKey w = (case fault of Some f \<Rightarrow> (Some (outbound_error f), w)
     | None \<Rightarrow> (case uw_objects w sourceKey of None \<Rightarrow> (Some ExternalServiceError, w)
         | Some ob \<Rightarrow> (None, put_object destinationKey ob w)))"

definition putObject :: "StorageFault option \<Rightarrow> string \<Rightarrow> string \<Rightarrow> string \<Rightarrow> UploadWorld \<Rightarrow> StorageError option \<times> UploadWorld" where
  "putObject fault key body contentType w = (case fault of Some f \<Rightarrow> (Some (outbound_error f), w)
     | None \<Rightarrow> (None, put_object key \<lparr>so_body = body, so_content_type = Some contentType\<rparr> w))"

definition deleteObject :: "StorageFault option \<Rightarrow> string \<Rightarrow> UploadWorld \<Rightarrow> bool \<times> UploadWorld" where
  "deleteObject fault key w = (if fault = None then (True, w\<lparr>uw_objects := (uw_objects w)(key := None)\<rparr>) else (False, w))"

section \<open>Creating an upload\<close>

definition UPLOAD_PENDING_KEY_PREFIX :: string where "UPLOAD_PENDING_KEY_PREFIX = ''pending/''"

definition buildPendingObjectKey :: "string \<Rightarrow> string" where
  "buildPendingObjectKey finalKey = UPLOAD_PENDING_KEY_PREFIX @ finalKey"

definition stripPendingObjectKeyPrefix :: "string \<Rightarrow> string" where
  "stripPendingObjectKeyPrefix key = (if js_startsWith key UPLOAD_PENDING_KEY_PREFIX
     then drop (length UPLOAD_PENDING_KEY_PREFIX) key else key)"

text \<open>The key, with the random UUID as an argument.\<close>

definition upload_key :: "CreateUploadInput \<Rightarrow> string \<Rightarrow> string \<Rightarrow> string" where
  "upload_key i user uuid =
     keyPrefix (UPLOAD_PURPOSE_CONFIG (ci_purpose i)) @ ''/'' @
     (case ci_purpose i of AVATAR \<Rightarrow> user | ORGANIZATION_LOGO \<Rightarrow> the (ci_organization_id i)
      | _ \<Rightarrow> if ci_for i = ForOrganization then the (ci_organization_id i) else user) @ ''/'' @ uuid @
     getCanonicalExtensionForContentType (ci_content_type i)"

definition resolveUploadOrganizationInternalId :: "CreateUploadInput \<Rightarrow> string \<Rightarrow> UploadWorld \<Rightarrow> app_error + nat option" where
  "resolveUploadOrganizationInternalId i user w = (case ci_organization_id i of
       Some org \<Rightarrow> if ci_for i = ForOrganization \<and> org \<noteq> '''' then
           if ''upload:manage'' \<notin> set (findPermissionCodesForUserInOrganization user org (uw_tenancy w))
           then Inl (ForbiddenError ''errors:insufficientUploadPermissions'')
           else (case findOrganization org (td_billing (uw_tenancy w)) of
               None \<Rightarrow> Inl (NotFoundError ''Organization'') | Some o' \<Rightarrow> Inr (Some (og_id o')))
         else Inr None
     | None \<Rightarrow> Inr None)"

definition insert_upload :: "UploadScope \<Rightarrow> UploadRow \<Rightarrow> UploadWorld \<Rightarrow> app_error + (UploadRow \<times> UploadWorld)" where
  "insert_upload scope row w =
     (if \<not> upload_visible scope (uw_tenancy w) row \<or> up_public_id row \<in> up_public_id ` set (uw_rows w) then Inl (InternalError ''sql'')
      else Inr (row, w\<lparr>uw_rows := uw_rows w @ [row], uw_next_id := Suc (uw_next_id w)\<rparr>))"

definition reservePendingUploadSlot ::
    "UploadEnv \<Rightarrow> string \<Rightarrow> nat \<Rightarrow> string \<Rightarrow> nat option \<Rightarrow> CreateUploadInput \<Rightarrow> string \<Rightarrow> UploadWorld \<Rightarrow> app_error + (UploadRow \<times> UploadWorld)" where
  "reservePendingUploadSlot env publicId userId user oid i fileKey w =
     (let scope = (case (oid, ci_organization_id i) of (Some _, Some org) \<Rightarrow> OrganizationScope org | _ \<Rightarrow> UserScope user) in
      if (case oid of Some x \<Rightarrow> countPendingByOrganizationId scope x w \<ge> ue_maxPendingPerOrganization env | None \<Rightarrow> False)
      then Inl (ValidationError ''errors:uploadPendingQuotaExceeded'')
      else if countPendingByUserId scope userId w \<ge> ue_maxPendingPerUser env
      then Inl (ValidationError ''errors:uploadPendingQuotaExceeded'')
      else insert_upload scope \<lparr>up_id = uw_next_id w, up_public_id = publicId, up_user_id = userId, up_organization_id = oid,
          up_file_name = ci_file_name i, up_file_key = fileKey, up_mime_type = ci_content_type i, up_file_size = ci_file_size i,
          up_status = ''PENDING'', up_deleted_at = None, up_created_at = uw_now w, up_updated_at = uw_now w\<rparr> w)"

text \<open>The row and the key the presigned URL is for.  Signing is local and changes nothing.\<close>

definition createUpload ::
    "UploadEnv \<Rightarrow> string \<Rightarrow> string \<Rightarrow> CreateUploadInput \<Rightarrow> string \<Rightarrow> UploadWorld \<Rightarrow> app_error + (UploadRow \<times> UploadWorld)" where
  "createUpload env publicId uuid i user w = (case requireUserRecordByPublicId user (td_users (uw_tenancy w)) of
       Inl e \<Rightarrow> Inl e
     | Inr u \<Rightarrow> (case resolveUploadOrganizationInternalId i user w of
         Inl e \<Rightarrow> Inl e
       | Inr oid \<Rightarrow> if ue_bucket env = None \<or> ue_bucket env = Some '''' then Inl (ConfigurationError ''S3_BUCKET is not configured'')
           else reservePendingUploadSlot env publicId (us_id u) user oid i (buildPendingObjectKey (upload_key i user uuid)) w))"

section \<open>Confirming, deleting and reading an upload\<close>

text \<open>The gates of the avatar and logo services, which refer to an upload by its key.\<close>

definition assertKeyConfirmed :: "UploadScope \<Rightarrow> string \<Rightarrow> UploadWorld \<Rightarrow> app_error option" where
  "assertKeyConfirmed scope fileKey w = (case findByFileKey scope fileKey w of
       None \<Rightarrow> Some (ValidationError ''errors:validation.uploadNotConfirmed'')
     | Some row \<Rightarrow> if up_status row \<noteq> ''UPLOADED'' then Some (ValidationError ''errors:validation.uploadNotConfirmed'') else None)"

definition assertKeyConfirmedForOwner :: "UploadScope \<Rightarrow> string \<Rightarrow> nat option \<Rightarrow> nat option \<Rightarrow> UploadWorld \<Rightarrow> app_error option" where
  "assertKeyConfirmedForOwner scope fileKey userId oid w =
     (if userId = None \<and> oid = None then Some (ValidationError ''errors:validation.uploadNotConfirmed'')
      else case findByFileKey scope fileKey w of
        None \<Rightarrow> Some (ValidationError ''errors:validation.uploadNotConfirmed'')
      | Some row \<Rightarrow> if up_status row \<noteq> ''UPLOADED'' \<or> (userId \<noteq> None \<and> userId \<noteq> Some (up_user_id row)) \<or>
            (oid \<noteq> None \<and> oid \<noteq> up_organization_id row)
          then Some (ValidationError ''errors:validation.uploadNotConfirmed'') else None)"

definition assertUserCanAccessOrgScopedUpload :: "UploadRow \<Rightarrow> string \<Rightarrow> UploadWorld \<Rightarrow> app_error option" where
  "assertUserCanAccessOrgScopedUpload row user w = (case up_organization_id row of
       None \<Rightarrow> None
     | Some i \<Rightarrow> (case select_first (\<lambda>o'. og_id o' = i \<and> og_deleted_at o' = None) (bd_organizations (td_billing (uw_tenancy w))) of
         None \<Rightarrow> Some (NotFoundError ''Upload'')
       | Some o' \<Rightarrow> if ''upload:manage'' \<in> set (findPermissionCodesForUserInOrganization user (og_public_id o') (uw_tenancy w))
           then None else Some (ForbiddenError ''errors:insufficientUploadPermissions'')))"

definition loadUploadForUserAction ::
    "string \<Rightarrow> string \<Rightarrow> nat \<Rightarrow> string option \<Rightarrow> UploadWorld \<Rightarrow> app_error + (UploadRow \<times> UploadScope)" where
  "loadUploadForUserAction publicId user userId org w =
     (let own = upload_findByPublicId (UserScope user) publicId w;
          other = (case org of None \<Rightarrow> None | Some o' \<Rightarrow> if o' = '''' then None else
            map_option (\<lambda>r. (r, OrganizationScope o')) (upload_findByPublicId (OrganizationScope o') publicId w))
      in case (case own of Some r \<Rightarrow> Some (r, UserScope user) | None \<Rightarrow> other) of
           None \<Rightarrow> Inl (NotFoundError ''Upload'')
         | Some (row, scope) \<Rightarrow>
             if up_organization_id row = None then
               if up_user_id row \<noteq> userId then Inl (NotFoundError ''Upload'') else Inr (row, scope)
             else (case assertUserCanAccessOrgScopedUpload row user w of Some e \<Rightarrow> Inl e | None \<Rightarrow> Inr (row, scope)))"

definition load_upload :: "string \<Rightarrow> string \<Rightarrow> string option \<Rightarrow> UploadWorld \<Rightarrow> app_error + (UploadRow \<times> UploadScope)" where
  "load_upload publicId user org w = (case requireUserRecordByPublicId user (td_users (uw_tenancy w)) of
       Inl e \<Rightarrow> Inl e | Inr u \<Rightarrow> loadUploadForUserAction publicId user (us_id u) org w)"

definition getUpload :: "string \<Rightarrow> string \<Rightarrow> string option \<Rightarrow> UploadWorld \<Rightarrow> app_error + UploadRow" where
  "getUpload publicId user org w = map_sum id fst (load_upload publicId user org w)"

text \<open>\<^verbatim>\<open>confirmUpload\<close>, one storage call or statement at a time.\<close>

datatype ConfirmPhase =
    ConfirmStart string string "string option"                 \<comment> \<open>upload, user, active organization\<close>
  | ConfirmHead UploadRow UploadScope
  | ConfirmBytes UploadRow UploadScope
  | ConfirmSvg UploadRow UploadScope
  | ConfirmPut UploadRow UploadScope string                    \<comment> \<open>the sanitized body\<close>
  | ConfirmCopy UploadRow UploadScope "string option"          \<comment> \<open>the entity tag that was verified\<close>
  | ConfirmMark UploadRow UploadScope
  | ConfirmDropPending UploadRow UploadRow
  | ConfirmFail UploadRow UploadScope
  | Confirmed "app_error + UploadRow"

definition final_key :: "UploadRow \<Rightarrow> string" where
  "final_key r = stripPendingObjectKeyPrefix (up_file_key r)"

text \<open>The \<^verbatim>\<open>catch\<close> of \<^verbatim>\<open>verifyAndPublishUploadedObject\<close>: only an \<^verbatim>\<open>ExternalServiceError\<close> is passed on.\<close>

fun verification_error :: "UploadRow \<Rightarrow> UploadScope \<Rightarrow> StorageError \<Rightarrow> ConfirmPhase" where
  "verification_error row scope ExternalServiceError = Confirmed (Inl (ServiceUnavailableError ''errors:externalServiceUnavailable''))"
| "verification_error row scope CircuitBreakerOpenError = ConfirmFail row scope"
| "verification_error row scope (PlainError m) = ConfirmFail row scope"

definition sanitizeSvgBuffer :: "UploadEnv \<Rightarrow> string \<Rightarrow> StorageError + string" where
  "sanitizeSvgBuffer env body = (let s = ue_sanitizeSvg env body in
     if js_trim s = '''' then Inl (PlainError ''svg sanitization produced empty content'') else Inr s)"

fun confirm_step :: "UploadEnv \<Rightarrow> StorageFault option \<Rightarrow> ConfirmPhase \<Rightarrow> UploadWorld \<Rightarrow> ConfirmPhase \<times> UploadWorld" where
  "confirm_step env fault (ConfirmStart publicId user org) w = (case load_upload publicId user org w of
       Inl e \<Rightarrow> (Confirmed (Inl e), w)
     | Inr (row, scope) \<Rightarrow>
         (if up_status row = ''UPLOADED'' then Confirmed (Inr row)
          else if up_status row \<noteq> ''PENDING'' then Confirmed (Inl (ValidationError ''errors:uploadNotPending''))
          else if final_key row = up_file_key row then ConfirmFail row scope
          else ConfirmHead row scope, w))"
| "confirm_step env fault (ConfirmHead row scope) w =
     (case verifyUploadedObject fault (up_file_key row) (up_mime_type row) (up_file_size row) w of
        Inl e \<Rightarrow> verification_error row scope e
      | Inr (ct, n) \<Rightarrow>
          if \<not> (n = up_file_size row \<and> (ct = None \<or> ct = Some (up_mime_type row))) then ConfirmFail row scope
          else if isSvgContentType (up_mime_type row) then ConfirmSvg row scope
          else if isMagicByteVerifiable (up_mime_type row) then ConfirmBytes row scope
          else ConfirmCopy row scope None, w)"
| "confirm_step env fault (ConfirmBytes row scope) w = (case getObjectFirstBytes env fault (up_file_key row) 32 w of
       Inl e \<Rightarrow> verification_error row scope e
     | Inr None \<Rightarrow> ConfirmFail row scope
     | Inr (Some (body, tag)) \<Rightarrow>
         if verifyFileMagicBytes body (up_mime_type row) then ConfirmCopy row scope (Some tag) else ConfirmFail row scope, w)"
| "confirm_step env fault (ConfirmSvg row scope) w = (case getObject fault (up_file_key row) w of
       Inl e \<Rightarrow> verification_error row scope e
     | Inr body \<Rightarrow> (case sanitizeSvgBuffer env body of Inl e \<Rightarrow> verification_error row scope e | Inr s \<Rightarrow> ConfirmPut row scope s), w)"
| "confirm_step env fault (ConfirmPut row scope body) w =
     (case putObject fault (final_key row) body (up_mime_type row) w of
        (Some e, w') \<Rightarrow> (verification_error row scope e, w') | (None, w') \<Rightarrow> (ConfirmMark row scope, w'))"
| "confirm_step env fault (ConfirmCopy row scope tag) w =
     (case copyObject env fault (up_file_key row) (final_key row) (up_mime_type row) tag w of
        (Some e, w') \<Rightarrow> (verification_error row scope e, w') | (None, w') \<Rightarrow> (ConfirmMark row scope, w'))"
| "confirm_step env fault (ConfirmMark row scope) w =
     (case markConfirmedByPublicId scope (up_public_id row) (final_key row) w of
        (None, w') \<Rightarrow> (Confirmed (Inl (NotFoundError ''Upload'')), w') | (Some u, w') \<Rightarrow> (ConfirmDropPending row u, w'))"
| "confirm_step env fault (ConfirmDropPending row u) w = (Confirmed (Inr u), snd (deleteObject fault (up_file_key row) w))"
| "confirm_step env fault (ConfirmFail row scope) w =
     (case markStatusByPublicId scope (up_public_id row) ''FAILED'' w of
        (None, w') \<Rightarrow> (Confirmed (Inl (NotFoundError ''Upload'')), w')
      | (Some u, w') \<Rightarrow> (Confirmed (Inl (ValidationError ''errors:uploadVerificationFailed'')), w'))"
| "confirm_step env fault (Confirmed result) w = (Confirmed result, w)"

text \<open>A confirmation that nothing interleaves with; a fault for each of its at most seven awaits.\<close>

definition confirmUpload ::
    "UploadEnv \<Rightarrow> StorageFault option list \<Rightarrow> string \<Rightarrow> string \<Rightarrow> string option \<Rightarrow> UploadWorld \<Rightarrow> ConfirmPhase \<times> UploadWorld" where
  "confirmUpload env faults publicId user org w =
     foldl (\<lambda>(p, w) f. confirm_step env f p w) (ConfirmStart publicId user org, w) faults"

datatype DeletePhase =
    DeleteStart string string "string option"
  | DeleteObject UploadRow UploadScope
  | DeleteRow UploadRow UploadScope
  | Deleted "app_error option"

fun delete_step :: "StorageFault option \<Rightarrow> DeletePhase \<Rightarrow> UploadWorld \<Rightarrow> DeletePhase \<times> UploadWorld" where
  "delete_step fault (DeleteStart publicId user org) w = (case load_upload publicId user org w of
       Inl e \<Rightarrow> (Deleted (Some e), w) | Inr (row, scope) \<Rightarrow> (DeleteObject row scope, w))"
| "delete_step fault (DeleteObject row scope) w = (DeleteRow row scope, snd (deleteObject fault (up_file_key row) w))"
| "delete_step fault (DeleteRow row scope) w = (case softDeleteByPublicId scope (up_public_id row) w of
       (None, w') \<Rightarrow> (Deleted (Some (NotFoundError ''Upload'')), w') | (Some _, w') \<Rightarrow> (Deleted None, w'))"
| "delete_step fault (Deleted e) w = (Deleted e, w)"

section \<open>The sweep of stale uploads\<close>

definition UPLOAD_PENDING_SWEEP_BATCH_SIZE :: nat where "UPLOAD_PENDING_SWEEP_BATCH_SIZE = 500"

definition sweep_cutoff :: "UploadEnv \<Rightarrow> millis \<Rightarrow> millis" where
  "sweep_cutoff env now = now - (PRESIGNED_URL_EXPIRY_SECONDS + int (ue_graceSeconds env)) * 1000"

text \<open>Each phase carries the rows still to be looked at and the ids to delete at the end.\<close>

datatype SweepPhase =
    SweepSelect
  | SweepNext "UploadRow list" "nat list"
  | SweepBytes UploadRow "UploadRow list" "nat list"
  | SweepCopy UploadRow "UploadRow list" "nat list"
  | SweepMark UploadRow "UploadRow list" "nat list"
  | SweepDropPending UploadRow "UploadRow list" "nat list"
  | SweepFail UploadRow "UploadRow list" "nat list"
  | SweepOrphan UploadRow "UploadRow list" "nat list"
  | Swept

text \<open>\<^verbatim>\<open>resolvePendingUploadVerdict\<close> up to its ranged read.\<close>

definition sweep_verdict :: "StorageFault option \<Rightarrow> UploadRow \<Rightarrow> UploadRow list \<Rightarrow> nat list \<Rightarrow> UploadWorld \<Rightarrow> SweepPhase" where
  "sweep_verdict fault row rest ids w =
     (if \<not> js_startsWith (up_file_key row) UPLOAD_PENDING_KEY_PREFIX then SweepFail row rest ids
      else if isSvgContentType (up_mime_type row) then SweepFail row rest ids
      else case headObjectResult fault (up_file_key row) w of
        TransientError _ \<Rightarrow> SweepNext rest ids
      | NotFound \<Rightarrow> SweepOrphan row rest ids
      | Found ct n \<Rightarrow>
          if \<not> (n = up_file_size row \<and> (ct = None \<or> ct = Some (up_mime_type row))) then SweepFail row rest ids
          else if isMagicByteVerifiable (up_mime_type row) then SweepBytes row rest ids else SweepCopy row rest ids)"

fun sweep_step :: "UploadEnv \<Rightarrow> StorageFault option \<Rightarrow> SweepPhase \<Rightarrow> UploadWorld \<Rightarrow> SweepPhase \<times> UploadWorld" where
  "sweep_step env fault SweepSelect w =
     (SweepNext (findPendingUploadsOlderThan (sweep_cutoff env (uw_now w)) UPLOAD_PENDING_SWEEP_BATCH_SIZE w) [], w)"
| "sweep_step env fault (SweepNext [] ids) w = (Swept, hardDeleteUploadsByInternalIds ids w)"
| "sweep_step env fault (SweepNext (row # rest) ids) w = (sweep_verdict fault row rest ids w, w)"
| "sweep_step env fault (SweepBytes row rest ids) w =
     (case getObjectLeadingBytes fault (up_file_key row) w of
        None \<Rightarrow> SweepFail row rest ids
      | Some body \<Rightarrow> if verifyFileMagicBytes body (up_mime_type row) then SweepCopy row rest ids else SweepFail row rest ids, w)"
| "sweep_step env fault (SweepCopy row rest ids) w =
     (case storage_copyObject fault (up_file_key row) (final_key row) w of
        (Some _, w') \<Rightarrow> (SweepNext rest ids, w') | (None, w') \<Rightarrow> (SweepMark row rest ids, w'))"
| "sweep_step env fault (SweepMark row rest ids) w =
     (SweepDropPending row rest ids, markConfirmedByInternalId (up_id row) (final_key row) w)"
| "sweep_step env fault (SweepDropPending row rest ids) w = (SweepNext rest ids, snd (deleteObject fault (up_file_key row) w))"
| "sweep_step env fault (SweepFail row rest ids) w = (SweepNext rest ids, setUploadStatusByInternalId (up_id row) ''FAILED'' w)"
| "sweep_step env fault (SweepOrphan row rest ids) w =
     (SweepNext rest (ids @ [up_id row]), snd (deleteObject fault (up_file_key row) w))"
| "sweep_step env fault Swept w = (Swept, w)"

definition runUploadPendingSweepJob :: "UploadEnv \<Rightarrow> StorageFault option list \<Rightarrow> UploadWorld \<Rightarrow> SweepPhase \<times> UploadWorld" where
  "runUploadPendingSweepJob env faults w = foldl (\<lambda>(p, w) f. sweep_step env f p w) (SweepSelect, w) faults"

section \<open>Offboarding and retention\<close>

definition UPLOAD_OFFBOARDING_DELETE_BATCH_SIZE :: nat where "UPLOAD_OFFBOARDING_DELETE_BATCH_SIZE = 500"

text \<open>\<open>faults\<close> is what goes wrong with the deletion of each key.\<close>

definition deleteObjectsWithBoundedConcurrency :: "(string \<Rightarrow> StorageFault option) \<Rightarrow> string list \<Rightarrow> UploadWorld \<Rightarrow> UploadWorld" where
  "deleteObjectsWithBoundedConcurrency faults keys w = foldl (\<lambda>w k. snd (deleteObject (faults k) k w)) w keys"

lemma delete_objects [simp]:
  "uw_rows (deleteObjectsWithBoundedConcurrency faults keys w) = uw_rows w"
  "uw_objects (deleteObjectsWithBoundedConcurrency faults keys w) =
     (\<lambda>k. if k \<in> set keys \<and> faults k = None then None else uw_objects w k)"
  unfolding deleteObjectsWithBoundedConcurrency_def
  by (induction keys arbitrary: w) (auto simp: deleteObject_def fun_eq_iff)

lemma set_find_active_after:
  "r \<in> set (find_active_after p afterId limit w) \<Longrightarrow> r \<in> set (uw_rows w) \<and> p r \<and> up_id r > afterId \<and> live_upload r"
  by (auto simp: find_active_after_def dest!: in_set_takeD)

function delete_active_objects :: "(UploadRow \<Rightarrow> bool) \<Rightarrow> (string \<Rightarrow> StorageFault option) \<Rightarrow> nat \<Rightarrow> UploadWorld \<Rightarrow> UploadWorld" where
  "delete_active_objects p faults afterId w =
     (let rows = find_active_after p afterId UPLOAD_OFFBOARDING_DELETE_BATCH_SIZE w in
      if rows = [] then w
      else let w' = deleteObjectsWithBoundedConcurrency faults (map up_file_key rows) w in
        if length rows < UPLOAD_OFFBOARDING_DELETE_BATCH_SIZE then w'
        else delete_active_objects p faults (up_id (last rows)) w')"
  by auto
termination
proof (relation "measure (\<lambda>(p, faults, a, w). card {r \<in> set (uw_rows w). up_id r > a})", goal_cases)
  case (2 p faults a w rows w')
  then have "last rows \<in> set rows" by simp
  with 2(1) have last: "last rows \<in> set (uw_rows w)" "up_id (last rows) > a" using set_find_active_after by blast+
  have "{r \<in> set (uw_rows w). up_id (last rows) < up_id r} \<subset> {r \<in> set (uw_rows w). a < up_id r}"
    using last by auto
  then have "card {r \<in> set (uw_rows w). up_id (last rows) < up_id r} < card {r \<in> set (uw_rows w). a < up_id r}"
    by (intro psubset_card_mono) auto
  with 2(3) show ?case by simp
qed simp

declare delete_active_objects.simps [simp del]

definition tombstoneAllByUserId :: "(string \<Rightarrow> StorageFault option) \<Rightarrow> nat \<Rightarrow> UploadWorld \<Rightarrow> UploadWorld" where
  "tombstoneAllByUserId faults userId w =
     softDeleteAllByUserId userId (delete_active_objects (\<lambda>r. up_user_id r = userId) faults 0 w)"

definition tombstoneAllByOrganizationId :: "(string \<Rightarrow> StorageFault option) \<Rightarrow> nat \<Rightarrow> UploadWorld \<Rightarrow> UploadWorld" where
  "tombstoneAllByOrganizationId faults oid w =
     softDeleteAllByOrganizationId oid (delete_active_objects (\<lambda>r. up_organization_id r = Some oid) faults 0 w)"

definition PURGE_BATCH_SIZE :: nat where "PURGE_BATCH_SIZE = 500"

definition purge_batch :: "millis \<Rightarrow> UploadWorld \<Rightarrow> UploadRow list" where
  "purge_batch cutoff w = take PURGE_BATCH_SIZE (filter (\<lambda>r. case up_deleted_at r of None \<Rightarrow> False | Some t \<Rightarrow> t < cutoff) (uw_rows w))"

function runUploadTombstoneRetentionJob :: "(string \<Rightarrow> StorageFault option) \<Rightarrow> millis \<Rightarrow> UploadWorld \<Rightarrow> UploadWorld" where
  "runUploadTombstoneRetentionJob faults cutoff w =
     (let batch = purge_batch cutoff w in
      if batch = [] then w
      else let w' = hardDeleteUploadsByInternalIds (map up_id batch)
                (deleteObjectsWithBoundedConcurrency faults (map up_file_key batch) w) in
        if length batch < PURGE_BATCH_SIZE then w' else runUploadTombstoneRetentionJob faults cutoff w')"
  by auto
termination
proof (relation "measure (\<lambda>(faults, c, w). length (uw_rows w))", goal_cases)
  case (2 faults cutoff w batch w')
  then have "hd batch \<in> set batch" by simp
  with 2(1) have "hd batch \<in> set (uw_rows w)" by (auto simp: purge_batch_def dest!: in_set_takeD)
  moreover have "up_id (hd batch) \<in> set (map up_id batch)" using \<open>hd batch \<in> set batch\<close> by simp
  ultimately have "length (filter (\<lambda>r. up_id r \<notin> set (map up_id batch)) (uw_rows w)) < length (uw_rows w)"
    using length_filter_less by fastforce
  with 2(3) show ?case by (simp add: hardDeleteUploadsByInternalIds_def delete_where_def)
qed simp

declare runUploadTombstoneRetentionJob.simps [simp del]

lemma sorted_key_split:
  assumes "sorted (map k xs)" "distinct (map k xs)" "x \<in> set (drop n xs)" "y \<in> set (take n xs)"
  shows "k y < k x"
proof -
  have "map k xs = map k (take n xs) @ map k (drop n xs)" by (simp flip: map_append)
  with assms(1,2) have "sorted (map k (take n xs) @ map k (drop n xs))" "distinct (map k (take n xs) @ map k (drop n xs))" by simp_all
  with assms(3,4) have "k y \<le> k x" "k y \<noteq> k x" by (auto simp: sorted_append)
  then show ?thesis by simp
qed

text \<open>A page that is not full holds everything behind its cursor; a full one everything up to its last id.\<close>

lemma page_complete:
  assumes "distinct (map up_id (uw_rows w))" and "rows = find_active_after p a n w"
    and "r \<in> set (uw_rows w)" "p r" "up_id r > a" "live_upload r"
    and "length rows < n \<or> rows \<noteq> [] \<and> up_id r \<le> up_id (last rows)"
  shows "r \<in> set rows"
proof -
  let ?all = "sort_key up_id (filter (\<lambda>r. p r \<and> up_id r > a \<and> live_upload r) (uw_rows w))"
  have r: "r \<in> set ?all" using assms by simp
  have rows: "rows = take n ?all" using assms(2) by (simp add: find_active_after_def)
  show ?thesis
  proof (cases "length ?all \<le> n")
    case True
    with rows r show ?thesis by simp
  next
    case False
    then have len: "length rows = n" using rows by simp
    with assms(7) have le: "rows \<noteq> []" "up_id r \<le> up_id (last rows)" by auto
    have "distinct (map up_id ?all)" using assms(1) by (simp add: distinct_map distinct_sort inj_on_def)
    moreover have "last rows \<in> set (take n ?all)" using le(1) rows by (metis last_in_set)
    ultimately have "r \<notin> set (drop n ?all)" using le(2) sorted_key_split [of up_id ?all r n "last rows"] by auto
    with r have "r \<in> set (take n ?all)" using set_append [of "take n ?all" "drop n ?all"] by auto
    with rows show ?thesis by simp
  qed
qed

lemma rows_delete_active_objects [simp]: "uw_rows (delete_active_objects p faults a w) = uw_rows w"
  by (induction p faults a w rule: delete_active_objects.induct) (subst delete_active_objects.simps, simp add: Let_def)

lemma delete_active_objects_all:
  assumes "distinct (map up_id (uw_rows w))"
  shows "uw_objects (delete_active_objects p faults a w) =
    (\<lambda>k. if faults k = None \<and> k \<in> up_file_key ` {r \<in> set (uw_rows w). p r \<and> up_id r > a \<and> live_upload r} then None else uw_objects w k)"
  using assms
proof (induction p faults a w rule: delete_active_objects.induct)
  case (1 p faults a w)
  define rows where "rows = find_active_after p a UPLOAD_OFFBOARDING_DELETE_BATCH_SIZE w"
  define w' where "w' = deleteObjectsWithBoundedConcurrency faults (map up_file_key rows) w"
  let ?left = "\<lambda>a. {r \<in> set (uw_rows w). p r \<and> up_id r > a \<and> live_upload r}"
  have sub: "set rows \<subseteq> ?left a" using set_find_active_after unfolding rows_def by blast
  note whole = page_complete [OF 1(2) rows_def]
  show ?case
  proof (cases "length rows < UPLOAD_OFFBOARDING_DELETE_BATCH_SIZE")
    case True
    with sub whole have eq: "set rows = ?left a" by blast
    have step: "delete_active_objects p faults a w = w'"
      using True by (subst delete_active_objects.simps)
        (simp add: Let_def w'_def deleteObjectsWithBoundedConcurrency_def flip: rows_def)
    show ?thesis unfolding step w'_def delete_objects eq [symmetric] by auto
  next
    case False
    then have ne: "rows \<noteq> []" by (auto simp: UPLOAD_OFFBOARDING_DELETE_BATCH_SIZE_def)
    have step: "delete_active_objects p faults a w = delete_active_objects p faults (up_id (last rows)) w'"
      using False ne by (subst delete_active_objects.simps) (simp add: Let_def w'_def flip: rows_def)
    have last: "last rows \<in> ?left a" using sub last_in_set [OF ne] by (rule subsetD)
    have eq: "?left a = set rows \<union> ?left (up_id (last rows))" using sub whole ne last by force
    have "uw_objects (delete_active_objects p faults (up_id (last rows)) w') =
      (\<lambda>k. if faults k = None \<and> k \<in> up_file_key ` ?left (up_id (last rows)) then None else uw_objects w' k)"
      using 1(1) [OF rows_def ne w'_def False] 1(2) by (simp add: w'_def)
    then show ?thesis unfolding step eq by (auto simp: w'_def fun_eq_iff)
  qed
qed

text \<open>C27 Offboarding a user leaves nothing: with any number of pages, every live upload of the user is tombstoned and the
  object of each is gone unless its deletion failed; the rows and the objects of everybody else are as they were.\<close>

theorem offboarding_removes_every_upload:
  assumes "distinct (map up_id (uw_rows w))" and "\<forall>r \<in> set (uw_rows w). 0 < up_id r"
  shows "{r \<in> set (uw_rows (tombstoneAllByUserId faults user w)). up_user_id r = user \<and> live_upload r} = {} \<and>
    {r \<in> set (uw_rows (tombstoneAllByUserId faults user w)). up_user_id r \<noteq> user} = {r \<in> set (uw_rows w). up_user_id r \<noteq> user} \<and>
    (\<lambda>k. uw_objects (tombstoneAllByUserId faults user w) k) =
      (\<lambda>k. if faults k = None \<and> k \<in> up_file_key ` {r \<in> set (uw_rows w). up_user_id r = user \<and> live_upload r} then None
           else uw_objects w k)"
proof -
  let ?mine = "{r \<in> set (uw_rows w). up_user_id r = user \<and> live_upload r}"
  let ?w = "delete_active_objects (\<lambda>r. up_user_id r = user) faults 0 w"
  let ?f = "\<lambda>r. if up_user_id r = user \<and> live_upload r then r\<lparr>up_deleted_at := Some (uw_now ?w), up_updated_at := uw_now ?w\<rparr> else r"
  have mine: "{r \<in> set (uw_rows w). up_user_id r = user \<and> up_id r > 0 \<and> live_upload r} = ?mine"
    using assms(2) by blast
  have rows: "set (uw_rows (tombstoneAllByUserId faults user w)) = ?f ` set (uw_rows w)"
    by (simp add: tombstoneAllByUserId_def softDeleteAllByUserId_def update_uploads_def update_row_def set_update_where)
  have f: "up_user_id (?f r) = up_user_id r" "\<not> (up_user_id (?f r) = user \<and> live_upload (?f r))" "up_user_id r \<noteq> user \<Longrightarrow> ?f r = r" for r
    by (simp_all add: live_upload_def)
  have "uw_objects (tombstoneAllByUserId faults user w) = uw_objects ?w"
    by (simp add: tombstoneAllByUserId_def softDeleteAllByUserId_def update_uploads_def update_row_def)
  then have objects: "uw_objects (tombstoneAllByUserId faults user w) = (\<lambda>k. if faults k = None \<and> k \<in> up_file_key ` ?mine then None
      else uw_objects w k)"
    using delete_active_objects_all [OF assms(1), of "\<lambda>r. up_user_id r = user" faults 0] mine by simp
  show ?thesis
  proof (intro conjI)
    show "{r \<in> set (uw_rows (tombstoneAllByUserId faults user w)). up_user_id r = user \<and> live_upload r} = {}"
      unfolding rows using f(2) by blast
    show "{r \<in> set (uw_rows (tombstoneAllByUserId faults user w)). up_user_id r \<noteq> user} = {r \<in> set (uw_rows w). up_user_id r \<noteq> user}"
      (is "?l = ?r")
    proof (rule subset_antisym)
      show "?l \<subseteq> ?r"
      proof
        fix x assume "x \<in> ?l"
        then obtain r where r: "r \<in> set (uw_rows w)" "x = ?f r" "up_user_id x \<noteq> user" unfolding rows by blast
        from r(2,3) have "up_user_id r \<noteq> user" by (simp only: f(1) not_False_eq_True)
        with r f(3) show "x \<in> ?r" by simp
      qed
      show "?r \<subseteq> ?l"
      proof
        fix r assume "r \<in> ?r"
        then have "r = ?f r" "r \<in> set (uw_rows w)" "up_user_id r \<noteq> user" by auto
        then show "r \<in> ?l" unfolding rows by blast
      qed
    qed
  qed (rule objects)
qed

text \<open>Two uploads of user 1 and one of user 2, who share an organization.\<close>

definition demo_upload :: "nat \<Rightarrow> string \<Rightarrow> nat \<Rightarrow> string \<Rightarrow> UploadRow" where
  "demo_upload i pub user key = \<lparr>up_id = i, up_public_id = pub, up_user_id = user, up_organization_id = None, up_file_name = ''a.png'',
     up_file_key = key, up_mime_type = ''image/png'', up_file_size = 10, up_status = ''PENDING'', up_deleted_at = None,
     up_created_at = 1000, up_updated_at = 1000\<rparr>"

definition demo_png :: StoredObject where
  "demo_png = \<lparr>so_body = [CHR 0x89, CHR 0x50, CHR 0x4e, CHR 0x47, CHR 0x0d, CHR 0x0a, CHR 0x1a, CHR 0x0a, CHR 0x00, CHR 0x00],
     so_content_type = Some ''image/png''\<rparr>"

definition demo_upload_world :: UploadWorld where
  "demo_upload_world = \<lparr>uw_now = 2000, uw_tenancy = demo_tenancy_db, uw_rows = [demo_upload 1 ''upl_1'' 1 ''pending/a'',
     demo_upload 2 ''upl_2'' 1 ''pending/b'', demo_upload 3 ''upl_3'' 2 ''pending/c''], uw_next_id = 4,
     uw_objects = [''pending/a'' \<mapsto> demo_png, ''pending/b'' \<mapsto> demo_png, ''pending/c'' \<mapsto> demo_png]\<rparr>"

definition demo_upload_env :: UploadEnv where
  "demo_upload_env = \<lparr>ue_etag = id, ue_sanitizeSvg = id, ue_bucket = Some ''b'', ue_maxPendingPerUser = 100,
     ue_maxPendingPerOrganization = 2000, ue_graceSeconds = 3600\<rparr>"

theorem offboarding_removes_every_upload_witness:
  "uw_objects (tombstoneAllByUserId (\<lambda>_. None) 1 demo_upload_world) ''pending/b'' = None \<and>
   uw_objects (tombstoneAllByUserId (\<lambda>_. None) 1 demo_upload_world) ''pending/c'' = Some demo_png"
proof -
  have "distinct (map up_id (uw_rows demo_upload_world))" "\<forall>r \<in> set (uw_rows demo_upload_world). 0 < up_id r"
    by (simp_all add: demo_upload_world_def demo_upload_def)
  from offboarding_removes_every_upload [OF this, of "\<lambda>_. None" 1]
  have after: "uw_objects (tombstoneAllByUserId (\<lambda>_. None) 1 demo_upload_world) k =
      (if k \<in> up_file_key ` {r \<in> set (uw_rows demo_upload_world). up_user_id r = 1 \<and> live_upload r} then None
       else uw_objects demo_upload_world k)" for k by (simp add: fun_eq_iff)
  have "{r \<in> set (uw_rows demo_upload_world). up_user_id r = 1 \<and> live_upload r} =
      set (filter (\<lambda>r. up_user_id r = 1 \<and> live_upload r) (uw_rows demo_upload_world))" by simp
  moreover have "up_file_key ` set (filter (\<lambda>r. up_user_id r = 1 \<and> live_upload r) (uw_rows demo_upload_world)) = {''pending/a'', ''pending/b''}"
    by (simp add: demo_upload_world_def demo_upload_def live_upload_def)
  ultimately have "up_file_key ` {r \<in> set (uw_rows demo_upload_world). up_user_id r = 1 \<and> live_upload r} = {''pending/a'', ''pending/b''}" by (simp only:)
  moreover have "uw_objects demo_upload_world ''pending/c'' = Some demo_png" by (simp add: demo_upload_world_def)
  ultimately show ?thesis unfolding after by simp
qed

end
