(* ===== verification/Upload_Races.thy ===== *)
theory Upload_Races
  imports Uploads
begin

text \<open>
  Uploads under concurrency: clients writing through presigned URLs, confirmations, deletions, the sweep and
  offboarding in any interleaving of their storage calls and statements.  First what always holds (served bytes
  are verified bytes), then the races that go wrong.  A presigned URL is for one pending key and one declared type;
  S3 refuses it once it has expired, and it is minted within the sweep's grace after its row.
\<close>

section \<open>The system\<close>

text \<open>\<open>sy_issued\<close>: for each final key, the declared type and the last instant its URL may be used; \<open>sy_pub\<close> and \<open>sy_num\<close>: the
  final key of each public id and row id ever used.  They only record history.\<close>

record UploadSystem =
  sy_world :: UploadWorld
  sy_confirms :: "nat \<Rightarrow> ConfirmPhase option"
  sy_deletes :: "nat \<Rightarrow> DeletePhase option"
  sy_sweeps :: "nat \<Rightarrow> SweepPhase option"
  sy_issued :: "string \<Rightarrow> (string \<times> millis) option"
  sy_pub :: "string \<Rightarrow> string option"
  sy_num :: "nat \<Rightarrow> string option"

definition url_life :: "UploadEnv \<Rightarrow> millis" where
  "url_life env = (PRESIGNED_URL_EXPIRY_SECONDS + int (ue_graceSeconds env)) * 1000"

inductive upload_step :: "UploadEnv \<Rightarrow> UploadSystem \<Rightarrow> UploadSystem \<Rightarrow> bool" for env where
  tick: "uw_now (sy_world s) \<le> t \<Longrightarrow> upload_step env s (s\<lparr>sy_world := (sy_world s)\<lparr>uw_now := t, uw_tenancy := d\<rparr>\<rparr>)"
| create: "validateCreateUpload isPublicId allowSvg i = Inr i \<Longrightarrow> key = upload_key i user uuid \<Longrightarrow>
    createUpload env publicId uuid i user (sy_world s) = Inr (row, w') \<Longrightarrow> sy_issued s key = None \<Longrightarrow> sy_pub s publicId = None \<Longrightarrow>
    upload_step env s (s\<lparr>sy_world := w', sy_issued := (sy_issued s)(key \<mapsto> (ci_content_type i, uw_now (sy_world s) + url_life env)),
      sy_pub := (sy_pub s)(publicId \<mapsto> key), sy_num := (sy_num s)(up_id row \<mapsto> key)\<rparr>)"
| client_put: "sy_issued s key = Some (ct, t) \<Longrightarrow> uw_now (sy_world s) \<le> t \<Longrightarrow>
    upload_step env s (s\<lparr>sy_world := put_object (buildPendingObjectKey key) \<lparr>so_body = body, so_content_type = Some ct\<rparr> (sy_world s)\<rparr>)"
| begin_confirm: "upload_step env s (s\<lparr>sy_confirms := (sy_confirms s)(n \<mapsto> ConfirmStart publicId user org)\<rparr>)"
| confirm: "sy_confirms s n = Some p \<Longrightarrow> confirm_step env fault p (sy_world s) = (p', w') \<Longrightarrow>
    upload_step env s (s\<lparr>sy_confirms := (sy_confirms s)(n \<mapsto> p'), sy_world := w'\<rparr>)"
| begin_delete: "upload_step env s (s\<lparr>sy_deletes := (sy_deletes s)(n \<mapsto> DeleteStart publicId user org)\<rparr>)"
| deletion: "sy_deletes s n = Some p \<Longrightarrow> delete_step fault p (sy_world s) = (p', w') \<Longrightarrow>
    upload_step env s (s\<lparr>sy_deletes := (sy_deletes s)(n \<mapsto> p'), sy_world := w'\<rparr>)"
| begin_sweep: "upload_step env s (s\<lparr>sy_sweeps := (sy_sweeps s)(n \<mapsto> SweepSelect)\<rparr>)"
| sweep: "sy_sweeps s n = Some p \<Longrightarrow> sweep_step env fault p (sy_world s) = (p', w') \<Longrightarrow>
    upload_step env s (s\<lparr>sy_sweeps := (sy_sweeps s)(n \<mapsto> p'), sy_world := w'\<rparr>)"
| offboard_user: "upload_step env s (s\<lparr>sy_world := tombstoneAllByUserId faults u (sy_world s)\<rparr>)"
| offboard_organization: "upload_step env s (s\<lparr>sy_world := tombstoneAllByOrganizationId faults oid (sy_world s)\<rparr>)"
| retention: "upload_step env s (s\<lparr>sy_world := runUploadTombstoneRetentionJob faults cutoff (sy_world s)\<rparr>)"

inductive upload_reachable :: "UploadEnv \<Rightarrow> UploadSystem \<Rightarrow> bool" for env where
  initial: "uw_rows (sy_world s) = [] \<Longrightarrow> uw_objects (sy_world s) = (\<lambda>_. None) \<Longrightarrow> sy_confirms s = (\<lambda>_. None) \<Longrightarrow>
    sy_deletes s = (\<lambda>_. None) \<Longrightarrow> sy_sweeps s = (\<lambda>_. None) \<Longrightarrow> sy_issued s = (\<lambda>_. None) \<Longrightarrow> sy_pub s = (\<lambda>_. None) \<Longrightarrow>
    sy_num s = (\<lambda>_. None) \<Longrightarrow> upload_reachable env s"
| step: "upload_reachable env s \<Longrightarrow> upload_step env s s' \<Longrightarrow> upload_reachable env s'"

section \<open>The invariant\<close>

abbreviation pending_key :: "string \<Rightarrow> bool" where
  "pending_key k \<equiv> js_startsWith k UPLOAD_PENDING_KEY_PREFIX"

text \<open>Bytes that may be served as a type: SVG as the sanitizer left it, anything else by its leading bytes.\<close>

definition published_ok :: "UploadEnv \<Rightarrow> string \<Rightarrow> string \<Rightarrow> bool" where
  "published_ok env ct body \<longleftrightarrow> (if isSvgContentType ct then body \<in> range (ue_sanitizeSvg env) else verifyFileMagicBytes body ct)"

definition known :: "UploadEnv \<Rightarrow> UploadSystem \<Rightarrow> UploadRow \<Rightarrow> bool" where
  "known env s r \<longleftrightarrow> (\<exists>k. sy_pub s (up_public_id r) = Some k \<and> sy_num s (up_id r) = Some k \<and>
     sy_issued s k = Some (up_mime_type r, up_created_at r + url_life env) \<and>
     (up_file_key r = buildPendingObjectKey k \<or> up_file_key r = k))"

definition log_ok :: "UploadSystem \<Rightarrow> bool" where
  "log_ok s \<longleftrightarrow> (\<forall>k ct t. sy_issued s k = Some (ct, t) \<longrightarrow> \<not> pending_key k \<and> (isMagicByteVerifiable ct \<or> isSvgContentType ct))"

definition world_inv :: "UploadEnv \<Rightarrow> UploadSystem \<Rightarrow> UploadWorld \<Rightarrow> bool" where
  "world_inv env s w \<longleftrightarrow>
     (\<forall>r \<in> set (uw_rows w). known env s r \<and> (up_status r = ''UPLOADED'' \<longrightarrow> \<not> pending_key (up_file_key r))) \<and>
     (\<forall>k ob. \<not> pending_key k \<longrightarrow> uw_objects w k = Some ob \<longrightarrow>
        (\<exists>ct t. sy_issued s k = Some (ct, t) \<and> published_ok env ct (so_body ob))) \<and>
     (\<forall>n \<in> dom (sy_num s). n < uw_next_id w)"

definition captured :: "UploadEnv \<Rightarrow> UploadSystem \<Rightarrow> UploadRow \<Rightarrow> bool" where
  "captured env s r \<longleftrightarrow> known env s r \<and> pending_key (up_file_key r)"

fun confirm_inv :: "UploadEnv \<Rightarrow> UploadSystem \<Rightarrow> ConfirmPhase \<Rightarrow> bool" where
  "confirm_inv env s (ConfirmHead row _) = captured env s row"
| "confirm_inv env s (ConfirmBytes row _) = (captured env s row \<and> \<not> isSvgContentType (up_mime_type row))"
| "confirm_inv env s (ConfirmSvg row _) = (captured env s row \<and> isSvgContentType (up_mime_type row))"
| "confirm_inv env s (ConfirmPut row _ body) = (captured env s row \<and> published_ok env (up_mime_type row) body)"
| "confirm_inv env s (ConfirmCopy row _ tag) = (captured env s row \<and>
     (\<exists>body. tag = Some (ue_etag env body) \<and> published_ok env (up_mime_type row) body))"
| "confirm_inv env s (ConfirmMark row _) = captured env s row"
| "confirm_inv env s _ = True"

definition expired :: "UploadEnv \<Rightarrow> UploadWorld \<Rightarrow> UploadRow \<Rightarrow> bool" where
  "expired env w r \<longleftrightarrow> up_created_at r + url_life env < uw_now w"

fun sweep_inv :: "UploadEnv \<Rightarrow> UploadSystem \<Rightarrow> UploadWorld \<Rightarrow> SweepPhase \<Rightarrow> bool" where
  "sweep_inv env s w (SweepNext rows _) = (\<forall>r \<in> set rows. known env s r \<and> expired env w r)"
| "sweep_inv env s w (SweepBytes row rows _) = ((\<forall>r \<in> set (row # rows). known env s r \<and> expired env w r) \<and> captured env s row \<and>
     \<not> isSvgContentType (up_mime_type row))"
| "sweep_inv env s w (SweepCopy row rows _) = ((\<forall>r \<in> set (row # rows). known env s r \<and> expired env w r) \<and> captured env s row \<and>
     (\<forall>ob. uw_objects w (up_file_key row) = Some ob \<longrightarrow> published_ok env (up_mime_type row) (so_body ob)))"
| "sweep_inv env s w (SweepMark row rows _) = ((\<forall>r \<in> set (row # rows). known env s r \<and> expired env w r) \<and> captured env s row)"
| "sweep_inv env s w (SweepDropPending row rows _) = (\<forall>r \<in> set (row # rows). known env s r \<and> expired env w r)"
| "sweep_inv env s w (SweepFail row rows _) = (\<forall>r \<in> set (row # rows). known env s r \<and> expired env w r)"
| "sweep_inv env s w (SweepOrphan row rows _) = (\<forall>r \<in> set (row # rows). known env s r \<and> expired env w r)"
| "sweep_inv env s w _ = True"

text \<open>What a sweep relies on of everybody else: time goes on, and under an expired URL nothing is written.\<close>

definition later :: "UploadSystem \<Rightarrow> UploadWorld \<Rightarrow> UploadWorld \<Rightarrow> bool" where
  "later s w w' \<longleftrightarrow> uw_now w \<le> uw_now w' \<and>
     (\<forall>k ct t. sy_issued s k = Some (ct, t) \<longrightarrow> t < uw_now w \<longrightarrow>
        uw_objects w' (buildPendingObjectKey k) \<in> {None, uw_objects w (buildPendingObjectKey k)})"

definition upload_inv :: "UploadEnv \<Rightarrow> UploadSystem \<Rightarrow> bool" where
  "upload_inv env s \<longleftrightarrow> log_ok s \<and> world_inv env s (sy_world s) \<and>
     (\<forall>n p. sy_confirms s n = Some p \<longrightarrow> confirm_inv env s p) \<and>
     (\<forall>n p. sy_sweeps s n = Some p \<longrightarrow> sweep_inv env s (sy_world s) p)"

lemma pending_keys [simp]:
  "pending_key (buildPendingObjectKey k)" "stripPendingObjectKeyPrefix (buildPendingObjectKey k) = k"
  "\<not> pending_key k \<Longrightarrow> stripPendingObjectKeyPrefix k = k"
  "buildPendingObjectKey k = buildPendingObjectKey k' \<longleftrightarrow> k = k'"
  by (simp_all add: buildPendingObjectKey_def stripPendingObjectKeyPrefix_def UPLOAD_PENDING_KEY_PREFIX_def)

lemma captured_key:
  assumes "log_ok s" "captured env s r"
  obtains k where "up_file_key r = buildPendingObjectKey k" "final_key r = k" "\<not> pending_key k"
    "sy_issued s k = Some (up_mime_type r, up_created_at r + url_life env)" "sy_pub s (up_public_id r) = Some k" "sy_num s (up_id r) = Some k"
  using assms by (auto simp: captured_def known_def log_ok_def final_key_def)

lemma sweep_inv_later:
  assumes "sweep_inv env s w p" "later s w w'" "log_ok s"
  shows "sweep_inv env s w' p"
proof -
  have now: "expired env w' r" if "expired env w r" for r
    using that assms(2) by (auto simp: expired_def later_def)
  show ?thesis
  proof (cases "\<exists>row rows ids. p = SweepCopy row rows ids")
    case True
    then obtain row rows ids where p: "p = SweepCopy row rows ids" by blast
    with assms(1) have "captured env s row" "expired env w row" by auto
    with assms(3) obtain k where k: "up_file_key row = buildPendingObjectKey k"
      "sy_issued s k = Some (up_mime_type row, up_created_at row + url_life env)" by (auto elim: captured_key)
    then have "uw_objects w' (up_file_key row) \<in> {None, uw_objects w (up_file_key row)}"
      using assms(2) \<open>expired env w row\<close> by (auto simp: later_def expired_def)
    with p assms(1) now show ?thesis by auto
  qed (use assms(1) now in \<open>cases p; auto\<close>)
qed

section \<open>What the operations keep\<close>

lemma later_refl [simp]: "later s w w"
  by (simp add: later_def)

lemma world_inv_rows:
  assumes "world_inv env s w" and "\<And>r. r \<in> set t \<Longrightarrow> known env s r \<and> (up_status r = ''UPLOADED'' \<longrightarrow> \<not> pending_key (up_file_key r))"
  shows "world_inv env s (w\<lparr>uw_rows := t\<rparr>) \<and> later s w (w\<lparr>uw_rows := t\<rparr>)"
  using assms by (auto simp: world_inv_def later_def)

lemma world_inv_update:
  assumes "world_inv env s w" and "\<And>r. r \<in> set (uw_rows w) \<Longrightarrow> p r \<Longrightarrow> known env s (f r) \<and> (up_status (f r) = ''UPLOADED'' \<longrightarrow> \<not> pending_key (up_file_key (f r)))"
  shows "world_inv env s (w\<lparr>uw_rows := update_where p f (uw_rows w)\<rparr>) \<and> later s w (w\<lparr>uw_rows := update_where p f (uw_rows w)\<rparr>)"
  using assms by (intro world_inv_rows) (auto simp: set_update_where world_inv_def)

lemma world_inv_delete_object:
  assumes "world_inv env s w"
  shows "world_inv env s (snd (deleteObject fault k w)) \<and> later s w (snd (deleteObject fault k w))"
  using assms by (auto simp: world_inv_def later_def deleteObject_def)

lemma world_inv_delete_objects:
  assumes "world_inv env s w" "uw_rows w' = uw_rows w" "uw_next_id w' = uw_next_id w" "uw_now w' = uw_now w"
    and "\<And>k. uw_objects w' k \<in> {None, uw_objects w k}"
  shows "world_inv env s w' \<and> later s w w'"
  using assms by (auto simp: world_inv_def later_def) (metis option.distinct(1) option.inject)+

lemma world_inv_publish:
  assumes "world_inv env s w" "\<not> pending_key k" "sy_issued s k = Some (ct, t)" "published_ok env ct (so_body ob)"
  shows "world_inv env s (put_object k ob w) \<and> later s w (put_object k ob w)"
proof -
  have "k \<noteq> buildPendingObjectKey k'" for k' using assms(2) pending_keys(1) by metis
  with assms show ?thesis by (auto simp: world_inv_def later_def put_object_def)
qed

lemma known_updates [simp]:
  "known env s (r\<lparr>up_status := x\<rparr>) = known env s r" "known env s (r\<lparr>up_deleted_at := y\<rparr>) = known env s r"
  "known env s (r\<lparr>up_updated_at := z\<rparr>) = known env s r"
  by (simp_all add: known_def)

text \<open>Marking by the public id or the row id of a captured row moves the very row to the captured key.\<close>

lemma known_confirmed:
  assumes "log_ok s" "captured env s row" "known env s r" "up_public_id r = up_public_id row \<or> up_id r = up_id row"
  shows "known env s (r\<lparr>up_status := x, up_file_key := final_key row, up_updated_at := z\<rparr>) \<and> \<not> pending_key (final_key row)"
proof -
  obtain k where k: "final_key row = k" "\<not> pending_key k" "sy_pub s (up_public_id row) = Some k" "sy_num s (up_id row) = Some k"
    using captured_key [OF assms(1,2)] by metis
  from assms(3) obtain k' where k': "sy_pub s (up_public_id r) = Some k'" "sy_num s (up_id r) = Some k'"
    "sy_issued s k' = Some (up_mime_type r, up_created_at r + url_life env)" by (auto simp: known_def)
  from k k' assms(4) have "k' = k" by auto
  with k k' show ?thesis by (auto simp: known_def)
qed

lemma loaded_row:
  assumes "load_upload publicId user org w = Inr (row, scope)"
  shows "row \<in> set (uw_rows w)"
proof -
  have found: "r \<in> set (uw_rows w)" if "upload_findByPublicId sc p w = Some r" for sc p r
    using that by (auto simp: upload_findByPublicId_def dest!: select_first_Some_iff)
  show ?thesis using assms
    by (auto simp: load_upload_def loadUploadForUserAction_def Let_def split: sum.splits option.splits if_splits intro: found)
qed

lemma world_rows: "world_inv env s w \<Longrightarrow> r \<in> set (uw_rows w) \<Longrightarrow> known env s r"
  by (simp add: world_inv_def)

lemma captured_verifiable: "log_ok s \<Longrightarrow> captured env s row \<Longrightarrow> isMagicByteVerifiable (up_mime_type row) \<or> isSvgContentType (up_mime_type row)"
  by (auto simp: log_ok_def captured_def known_def)

lemma verification_error_inv [simp]: "confirm_inv env s (verification_error row scope e)"
  by (cases e) simp_all

lemma confirm_keeps:
  assumes w: "world_inv env s w" and log: "log_ok s" and p: "confirm_inv env s p" and tags: "inj (ue_etag env)"
    and run: "confirm_step env fault p w = (p', w')"
  shows "confirm_inv env s p' \<and> world_inv env s w' \<and> later s w w'"
proof (cases p)
  case (ConfirmStart publicId user org)
  have "captured env s row" if "load_upload publicId user org w = Inr (row, scope)" "final_key row \<noteq> up_file_key row" for row scope
    using world_rows [OF w loaded_row [OF that(1)]] that(2)
    by (auto simp: captured_def final_key_def stripPendingObjectKeyPrefix_def split: if_splits)
  with run w show ?thesis unfolding ConfirmStart by (auto split: sum.splits prod.splits if_splits)
next
  case (ConfirmHead row scope)
  with run w p captured_verifiable [OF log] show ?thesis
    by (auto split: sum.splits if_splits)
next
  case (ConfirmBytes row scope)
  have "published_ok env (up_mime_type row) body" if "verifyFileMagicBytes (take 32 body) (up_mime_type row)" for body
    using that p ConfirmBytes by (simp add: published_ok_def verify_leading_bytes)
  with run w p show ?thesis unfolding ConfirmBytes
    by (fastforce simp: getObjectFirstBytes_def split: option.splits if_splits)
next
  case (ConfirmSvg row scope)
  with run w p show ?thesis
    by (auto simp: sanitizeSvgBuffer_def Let_def published_ok_def split: sum.splits if_splits)
next
  case (ConfirmPut row scope body)
  with p log obtain k where k: "final_key row = k" "\<not> pending_key k" "sy_issued s k = Some (up_mime_type row, up_created_at row + url_life env)"
    "published_ok env (up_mime_type row) body" "captured env s row" by (auto elim: captured_key)
  then show ?thesis using run w world_inv_publish [OF w k(2,3), of "\<lparr>so_body = body, so_content_type = Some (up_mime_type row)\<rparr>"]
    by (auto simp: ConfirmPut putObject_def split: option.splits)
next
  case (ConfirmCopy row scope tag)
  with p log obtain k body where k: "final_key row = k" "\<not> pending_key k" "sy_issued s k = Some (up_mime_type row, up_created_at row + url_life env)"
    "published_ok env (up_mime_type row) body" "tag = Some (ue_etag env body)" "captured env s row" by (auto elim: captured_key)
  have same: "ue_etag env body = ue_etag env b \<longleftrightarrow> body = b" for b using tags by (auto dest: injD)
  show ?thesis using run w k(4-6) world_inv_publish [OF w k(2,3)]
    by (auto simp: ConfirmCopy copyObject_def k(1) same split: option.splits if_splits)
next
  case (ConfirmMark row scope)
  with p have cap: "captured env s row" by simp
  let ?f = "\<lambda>r. r\<lparr>up_status := ''UPLOADED'', up_file_key := final_key row, up_updated_at := uw_now w\<rparr>"
  let ?p = "\<lambda>r. upload_visible scope (uw_tenancy w) r \<and> up_public_id r = up_public_id row \<and> live_upload r"
  have "w' = w\<lparr>uw_rows := update_where ?p ?f (uw_rows w)\<rparr>" "confirm_inv env s p'"
    using run by (auto simp: ConfirmMark markConfirmedByPublicId_def update_uploads_def update_row_def split: option.splits)
  moreover have "world_inv env s (w\<lparr>uw_rows := update_where ?p ?f (uw_rows w)\<rparr>) \<and> later s w (w\<lparr>uw_rows := update_where ?p ?f (uw_rows w)\<rparr>)"
    using known_confirmed [OF log cap world_rows [OF w]] by (intro world_inv_update [OF w]) auto
  ultimately show ?thesis by simp
next
  case (ConfirmDropPending row u)
  with run world_inv_delete_object [OF w] show ?thesis by auto
next
  case (ConfirmFail row scope)
  let ?f = "\<lambda>r. r\<lparr>up_status := ''FAILED'', up_updated_at := uw_now w\<rparr>"
  let ?p = "\<lambda>r. upload_visible scope (uw_tenancy w) r \<and> up_public_id r = up_public_id row \<and> live_upload r"
  have "w' = w\<lparr>uw_rows := update_where ?p ?f (uw_rows w)\<rparr>" "confirm_inv env s p'"
    using run by (auto simp: ConfirmFail markStatusByPublicId_def update_uploads_def update_row_def split: option.splits)
  moreover have "world_inv env s (w\<lparr>uw_rows := update_where ?p ?f (uw_rows w)\<rparr>) \<and> later s w (w\<lparr>uw_rows := update_where ?p ?f (uw_rows w)\<rparr>)"
    using world_rows [OF w] by (intro world_inv_update [OF w]) auto
  ultimately show ?thesis by simp
next
  case (Confirmed result)
  with run w show ?thesis by auto
qed

lemma delete_keeps:
  assumes w: "world_inv env s w" and run: "delete_step fault p w = (p', w')"
  shows "world_inv env s w' \<and> later s w w'"
proof (cases p)
  case (DeleteRow row scope)
  let ?f = "\<lambda>r. r\<lparr>up_deleted_at := Some (uw_now w), up_updated_at := uw_now w\<rparr>"
  let ?p = "\<lambda>r. upload_visible scope (uw_tenancy w) r \<and> up_public_id r = up_public_id row \<and> live_upload r"
  have "w' = w\<lparr>uw_rows := update_where ?p ?f (uw_rows w)\<rparr>"
    using run by (auto simp: DeleteRow softDeleteByPublicId_def update_uploads_def update_row_def split: option.splits)
  moreover have "world_inv env s (w\<lparr>uw_rows := update_where ?p ?f (uw_rows w)\<rparr>) \<and> later s w (w\<lparr>uw_rows := update_where ?p ?f (uw_rows w)\<rparr>)"
    using w world_rows [OF w] by (intro world_inv_update [OF w]) (auto simp: world_inv_def)
  ultimately show ?thesis by simp
qed (use run w world_inv_delete_object [OF w] in \<open>auto split: sum.splits prod.splits\<close>)

lemma sweep_keeps:
  assumes w: "world_inv env s w" and log: "log_ok s" and p: "sweep_inv env s w p"
    and run: "sweep_step env fault p w = (p', w')"
  shows "sweep_inv env s w' p' \<and> world_inv env s w' \<and> later s w w'"
proof -
  have goon: ?thesis if "world_inv env s w' \<and> later s w w'" "sweep_inv env s w p'"
    using that sweep_inv_later log by blast
  show ?thesis
  proof (cases p)
    case SweepSelect
    have "known env s r \<and> expired env w r" if "r \<in> set (findPendingUploadsOlderThan (sweep_cutoff env (uw_now w)) n w)" for r n
      using that world_rows [OF w] by (auto simp: findPendingUploadsOlderThan_def sweep_cutoff_def url_life_def expired_def dest!: in_set_takeD)
    then show ?thesis using run w SweepSelect by (intro goon) auto
  next
    case (SweepNext rows ids)
    show ?thesis
    proof (cases rows)
      case Nil
      with run w SweepNext show ?thesis
        by (intro goon) (auto simp: hardDeleteUploadsByInternalIds_def set_delete_where world_inv_def later_def)
    next
      case (Cons row rest)
      have "known env s row" using p SweepNext Cons by simp
      then have "captured env s row" if "pending_key (up_file_key row)" using that by (simp add: captured_def)
      moreover from this have "isMagicByteVerifiable (up_mime_type row) \<or> isSvgContentType (up_mime_type row)" if "pending_key (up_file_key row)"
        using that captured_verifiable [OF log] by blast
      ultimately show ?thesis using run w p unfolding SweepNext Cons
        by (intro goon) (auto simp: sweep_verdict_def split: S3HeadResult.splits)
    qed
  next
    case (SweepBytes row rest ids)
    have "published_ok env (up_mime_type row) body" if "verifyFileMagicBytes (take 512 body) (up_mime_type row)" for body
      using that p SweepBytes by (simp add: published_ok_def verify_leading_bytes)
    with run w p show ?thesis unfolding SweepBytes
      by (intro goon) (auto simp: getObjectLeadingBytes_def split: option.splits if_splits)
  next
    case (SweepCopy row rest ids)
    with p log obtain k where k: "final_key row = k" "\<not> pending_key k" "sy_issued s k = Some (up_mime_type row, up_created_at row + url_life env)"
      by (auto elim: captured_key)
    then show ?thesis using run w p world_inv_publish [OF w k(2,3)] unfolding SweepCopy
      by (intro goon) (auto simp: storage_copyObject_def split: option.splits)
  next
    case (SweepMark row rest ids)
    with p have cap: "captured env s row" by simp
    let ?f = "\<lambda>r. r\<lparr>up_status := ''UPLOADED'', up_file_key := final_key row, up_updated_at := uw_now w\<rparr>"
    let ?p = "\<lambda>r. upload_visible GlobalRetention (uw_tenancy w) r \<and> up_id r = up_id row \<and> live_upload r \<and> up_status r = ''PENDING''"
    have w': "w' = w\<lparr>uw_rows := update_where ?p ?f (uw_rows w)\<rparr>"
      using run by (auto simp: SweepMark markConfirmedByInternalId_def update_uploads_def update_row_def)
    have "world_inv env s (w\<lparr>uw_rows := update_where ?p ?f (uw_rows w)\<rparr>) \<and> later s w (w\<lparr>uw_rows := update_where ?p ?f (uw_rows w)\<rparr>)"
      using known_confirmed [OF log cap world_rows [OF w]] by (intro world_inv_update [OF w]) auto
    then show ?thesis using run p by (intro goon) (auto simp: w' SweepMark)
  next
    case (SweepDropPending row rest ids)
    with run p world_inv_delete_object [OF w] show ?thesis by (intro goon) auto
  next
    case (SweepFail row rest ids)
    let ?f = "\<lambda>r. r\<lparr>up_status := ''FAILED'', up_updated_at := uw_now w\<rparr>"
    let ?p = "\<lambda>r. upload_visible GlobalRetention (uw_tenancy w) r \<and> up_id r = up_id row"
    have w': "w' = w\<lparr>uw_rows := update_where ?p ?f (uw_rows w)\<rparr>"
      using run by (auto simp: SweepFail setUploadStatusByInternalId_def update_uploads_def update_row_def)
    have "world_inv env s (w\<lparr>uw_rows := update_where ?p ?f (uw_rows w)\<rparr>) \<and> later s w (w\<lparr>uw_rows := update_where ?p ?f (uw_rows w)\<rparr>)"
      using world_rows [OF w] by (intro world_inv_update [OF w]) auto
    then show ?thesis using run p by (intro goon) (auto simp: w' SweepFail)
  next
    case (SweepOrphan row rest ids)
    with run p world_inv_delete_object [OF w] show ?thesis by (intro goon) auto
  next
    case Swept
    with run w show ?thesis by (intro goon) auto
  qed
qed

lemma world_inv_create:
  assumes w: "world_inv env s (sy_world s)" and log: "log_ok s"
    and valid: "validateCreateUpload isPublicId allowSvg i = Inr i"
    and made: "createUpload env publicId uuid i user (sy_world s) = Inr (row, w')"
    and fresh: "sy_issued s (upload_key i user uuid) = None" "sy_pub s publicId = None"
    and s': "s' = s\<lparr>sy_world := w', sy_issued := (sy_issued s)(upload_key i user uuid \<mapsto> (ci_content_type i, uw_now (sy_world s) + url_life env)),
      sy_pub := (sy_pub s)(publicId \<mapsto> upload_key i user uuid), sy_num := (sy_num s)(up_id row \<mapsto> upload_key i user uuid)\<rparr>"
  shows "log_ok s' \<and> world_inv env s' w' \<and> (\<forall>r. known env s r \<longrightarrow> known env s' r) \<and> later s (sy_world s) w'"
proof -
  let ?k = "upload_key i user uuid"
  have type: "isMagicByteVerifiable (ci_content_type i) \<or> isSvgContentType (ci_content_type i)"
    using valid by (cases "ci_purpose i") (auto simp: validateCreateUpload_def Let_def getAllowedContentTypesForPurpose_def
        isMagicByteVerifiable_def MAGIC_SIGNATURES_def isSvgContentType_def SVG_CONTENT_TYPE_def js_lower_def lower_char_def split: if_splits)
  have key: "\<not> pending_key ?k" by (cases "ci_purpose i") (simp_all add: upload_key_def UPLOAD_PENDING_KEY_PREFIX_def)
  from made obtain scope where new: "w' = (sy_world s)\<lparr>uw_rows := uw_rows (sy_world s) @ [row], uw_next_id := Suc (uw_next_id (sy_world s))\<rparr>"
    and row: "up_id row = uw_next_id (sy_world s)" "up_public_id row = publicId" "up_file_key row = buildPendingObjectKey ?k"
      "up_mime_type row = ci_content_type i" "up_created_at row = uw_now (sy_world s)" "up_status row = ''PENDING''"
    by (auto simp: createUpload_def reservePendingUploadSlot_def insert_upload_def Let_def split: sum.splits option.splits if_splits)
  have num: "sy_num s (uw_next_id (sy_world s)) = None" using w by (auto simp: world_inv_def dom_def)
  have more: "known env s' r" if "known env s r" for r
  proof -
    from that obtain k where k: "sy_pub s (up_public_id r) = Some k" "sy_num s (up_id r) = Some k"
      "sy_issued s k = Some (up_mime_type r, up_created_at r + url_life env)" "up_file_key r = buildPendingObjectKey k \<or> up_file_key r = k"
      by (auto simp: known_def)
    from k fresh num row(1) have "k \<noteq> ?k" "up_public_id r \<noteq> publicId" "up_id r \<noteq> up_id row" by auto
    with k show ?thesis unfolding known_def by (intro exI [of _ k]) (simp add: s')
  qed
  have "known env s' row" unfolding s' known_def by (simp add: row)
  moreover have "log_ok s'" using log key type by (auto simp: log_ok_def s')
  moreover have "world_inv env s' w'"
  proof -
    have "known env s' r \<and> (up_status r = ''UPLOADED'' \<longrightarrow> \<not> pending_key (up_file_key r))" if "r \<in> set (uw_rows w')" for r
      using that w more \<open>known env s' row\<close> row(6) by (auto simp: new world_inv_def)
    moreover have "\<exists>ct t. sy_issued s' k = Some (ct, t) \<and> published_ok env ct (so_body ob)"
      if "\<not> pending_key k" "uw_objects w' k = Some ob" for k ob
    proof -
      have "uw_objects (sy_world s) k = Some ob" using that(2) by (simp add: new)
      with that(1) w obtain ct t where k: "sy_issued s k = Some (ct, t)" "published_ok env ct (so_body ob)"
        unfolding world_inv_def by blast
      with fresh(1) have "k \<noteq> ?k" by auto
      with k show ?thesis by (simp add: s')
    qed
    moreover have "n < uw_next_id w'" if "n \<in> dom (sy_num s')" for n
    proof (cases "n = up_id row")
      case False
      with that have "n \<in> dom (sy_num s)" by (auto simp: s')
      with w have "n < uw_next_id (sy_world s)" by (simp add: world_inv_def)
      then show ?thesis by (simp add: new)
    qed (simp add: new row(1))
    ultimately show ?thesis unfolding world_inv_def by blast
  qed
  ultimately show ?thesis using more by (simp add: new later_def)
qed

lemma confirm_inv_more: "(\<And>r. known env s r \<Longrightarrow> known env s' r) \<Longrightarrow> confirm_inv env s p \<Longrightarrow> confirm_inv env s' p"
  by (cases p) (auto simp: captured_def)

lemma sweep_inv_more: "(\<And>r. known env s r \<Longrightarrow> known env s' r) \<Longrightarrow> sweep_inv env s w p \<Longrightarrow> sweep_inv env s' w p"
  by (cases p) (auto simp: captured_def)

lemma ghost_only [simp]:
  "known env (s\<lparr>sy_world := w\<rparr>) = known env s" "known env (s\<lparr>sy_confirms := c\<rparr>) = known env s"
  "known env (s\<lparr>sy_deletes := d\<rparr>) = known env s" "known env (s\<lparr>sy_sweeps := x\<rparr>) = known env s"
  "log_ok (s\<lparr>sy_world := w\<rparr>) = log_ok s" "log_ok (s\<lparr>sy_confirms := c\<rparr>) = log_ok s"
  "log_ok (s\<lparr>sy_deletes := d\<rparr>) = log_ok s" "log_ok (s\<lparr>sy_sweeps := x\<rparr>) = log_ok s"
  by (auto simp: known_def log_ok_def fun_eq_iff)

lemma ghost_only_inv [simp]:
  "world_inv env (s\<lparr>sy_world := w\<rparr>) = world_inv env s" "world_inv env (s\<lparr>sy_confirms := c\<rparr>) = world_inv env s"
  "world_inv env (s\<lparr>sy_deletes := d\<rparr>) = world_inv env s" "world_inv env (s\<lparr>sy_sweeps := x\<rparr>) = world_inv env s"
  by (simp_all add: world_inv_def fun_eq_iff)

lemma ghost_only_phases [simp]:
  "confirm_inv env (s\<lparr>sy_world := w\<rparr>) p = confirm_inv env s p" "confirm_inv env (s\<lparr>sy_confirms := c\<rparr>) p = confirm_inv env s p"
  "confirm_inv env (s\<lparr>sy_deletes := d\<rparr>) p = confirm_inv env s p" "confirm_inv env (s\<lparr>sy_sweeps := x\<rparr>) p = confirm_inv env s p"
  "sweep_inv env (s\<lparr>sy_world := w\<rparr>) w' q = sweep_inv env s w' q" "sweep_inv env (s\<lparr>sy_confirms := c\<rparr>) w' q = sweep_inv env s w' q"
  "sweep_inv env (s\<lparr>sy_deletes := d\<rparr>) w' q = sweep_inv env s w' q" "sweep_inv env (s\<lparr>sy_sweeps := x\<rparr>) w' q = sweep_inv env s w' q"
  by (cases p; simp add: captured_def)+ (cases q; simp add: captured_def)+

lemma upload_inv_world:
  assumes "upload_inv env s" "world_inv env s w \<and> later s (sy_world s) w"
  shows "upload_inv env (s\<lparr>sy_world := w\<rparr>)"
  using assms sweep_inv_later unfolding upload_inv_def by fastforce

lemma delete_objects_rest [simp]:
  "uw_now (deleteObjectsWithBoundedConcurrency faults ks w) = uw_now w"
  "uw_next_id (deleteObjectsWithBoundedConcurrency faults ks w) = uw_next_id w"
  "uw_tenancy (deleteObjectsWithBoundedConcurrency faults ks w) = uw_tenancy w"
  unfolding deleteObjectsWithBoundedConcurrency_def by (induction ks arbitrary: w) (auto simp: deleteObject_def)

lemma tombstone_objects:
  "uw_now (delete_active_objects p faults a w) = uw_now w" "uw_next_id (delete_active_objects p faults a w) = uw_next_id w"
  "uw_objects (delete_active_objects p faults a w) k \<in> {None, uw_objects w k}"
  "uw_tenancy (delete_active_objects p faults a w) = uw_tenancy w"
proof -
  have "uw_now (delete_active_objects p faults a w) = uw_now w \<and> uw_next_id (delete_active_objects p faults a w) = uw_next_id w \<and>
      uw_tenancy (delete_active_objects p faults a w) = uw_tenancy w \<and>
      uw_objects (delete_active_objects p faults a w) k \<in> {None, uw_objects w k}"
  proof (induction p faults a w rule: delete_active_objects.induct)
    case (1 p faults a w)
    then show ?case by (subst (1 2 3 4) delete_active_objects.simps) (auto simp: Let_def)
  qed
  then show "uw_now (delete_active_objects p faults a w) = uw_now w" "uw_next_id (delete_active_objects p faults a w) = uw_next_id w"
    "uw_objects (delete_active_objects p faults a w) k \<in> {None, uw_objects w k}"
    "uw_tenancy (delete_active_objects p faults a w) = uw_tenancy w" by blast+
qed

lemma world_inv_offboard:
  assumes "world_inv env s w"
  shows "world_inv env s (tombstoneAllByUserId faults u w) \<and> later s w (tombstoneAllByUserId faults u w)"
    and "world_inv env s (tombstoneAllByOrganizationId faults oid w) \<and> later s w (tombstoneAllByOrganizationId faults oid w)"
proof -
  have soft: "world_inv env s (snd (update_uploads GlobalRetention p (\<lambda>r. r\<lparr>up_deleted_at := x\<rparr>) v)) \<and>
      later s w (snd (update_uploads GlobalRetention p (\<lambda>r. r\<lparr>up_deleted_at := x\<rparr>) v))" if v: "world_inv env s v \<and> later s w v" for p x v
  proof -
    have "world_inv env s (v\<lparr>uw_rows := update_where p (\<lambda>r. r\<lparr>up_deleted_at := x, up_updated_at := uw_now v\<rparr>) (uw_rows v)\<rparr>)"
      using v by (intro conjunct1 [OF world_inv_update]) (auto simp: world_inv_def)
    then show ?thesis using v by (auto simp: update_uploads_def update_row_def later_def)
  qed
  have "world_inv env s (delete_active_objects p faults 0 w) \<and> later s w (delete_active_objects p faults 0 w)" for p
    using tombstone_objects by (intro world_inv_delete_objects [OF assms]) simp_all
  from soft [OF this] show
    "world_inv env s (tombstoneAllByUserId faults u w) \<and> later s w (tombstoneAllByUserId faults u w)"
    "world_inv env s (tombstoneAllByOrganizationId faults oid w) \<and> later s w (tombstoneAllByOrganizationId faults oid w)"
    by (simp_all add: tombstoneAllByUserId_def softDeleteAllByUserId_def tombstoneAllByOrganizationId_def softDeleteAllByOrganizationId_def)
qed

lemma world_inv_retention:
  assumes "world_inv env s w"
  shows "world_inv env s (runUploadTombstoneRetentionJob faults c w) \<and> later s w (runUploadTombstoneRetentionJob faults c w)"
  using assms
proof (induction faults c w rule: runUploadTombstoneRetentionJob.induct)
  case (1 faults c w)
  define batch where "batch = purge_batch c w"
  define v where "v = deleteObjectsWithBoundedConcurrency faults (map up_file_key batch) w"
  define w' where "w' = hardDeleteUploadsByInternalIds (map up_id batch) v"
  have "world_inv env s v \<and> later s w v"
    by (intro world_inv_delete_objects [OF 1(2)]) (auto simp: v_def)
  then have ok: "world_inv env s w' \<and> later s w w'"
    by (auto simp: w'_def hardDeleteUploadsByInternalIds_def world_inv_def later_def set_delete_where)
  show ?case
  proof (cases "batch \<noteq> [] \<and> \<not> length batch < PURGE_BATCH_SIZE")
    case True
    then have "runUploadTombstoneRetentionJob faults c w = runUploadTombstoneRetentionJob faults c w'"
      by (subst runUploadTombstoneRetentionJob.simps) (simp add: Let_def w'_def v_def flip: batch_def)
    moreover have "world_inv env s (runUploadTombstoneRetentionJob faults c w') \<and> later s w' (runUploadTombstoneRetentionJob faults c w')"
      using 1(1) [of batch w'] True ok by (simp add: batch_def w'_def v_def)
    ultimately show ?thesis using ok by (fastforce simp: later_def)
  next
    case False
    then have "runUploadTombstoneRetentionJob faults c w = (if batch = [] then w else w')"
      by (subst runUploadTombstoneRetentionJob.simps) (auto simp: Let_def w'_def v_def simp flip: batch_def)
    with ok 1(2) show ?thesis by simp
  qed
qed

lemma upload_inv_step:
  assumes "upload_step env s s'" "upload_inv env s" "inj (ue_etag env)"
  shows "upload_inv env s'"
  using assms
proof (induction rule: upload_step.induct)
  case (tick s t d)
  then show ?case by (intro upload_inv_world) (auto simp: upload_inv_def world_inv_def later_def)
next
  case (create isPublicId allowSvg i key user uuid publicId s row w')
  define s' where "s' = s\<lparr>sy_world := w', sy_issued := (sy_issued s)(upload_key i user uuid \<mapsto> (ci_content_type i, uw_now (sy_world s) + url_life env)),
    sy_pub := (sy_pub s)(publicId \<mapsto> upload_key i user uuid), sy_num := (sy_num s)(up_id row \<mapsto> upload_key i user uuid)\<rparr>"
  have inv: "world_inv env s (sy_world s)" "log_ok s" using create.prems by (auto simp: upload_inv_def)
  note made = world_inv_create [OF inv create.hyps(1,3) create.hyps(4,5) [unfolded create.hyps(2)] s'_def]
  have "sweep_inv env s w' p" if "sy_sweeps s n = Some p" for n p
    using that made create.prems inv sweep_inv_later by (fastforce simp: upload_inv_def)
  then have "upload_inv env s'" using made create.prems confirm_inv_more [of env s s'] sweep_inv_more [of env s s' w']
    unfolding upload_inv_def by (simp add: s'_def)
  then show ?case by (simp add: s'_def create.hyps(2))
next
  case (client_put s key ct t body)
  have "uw_objects (put_object (buildPendingObjectKey key) ob (sy_world s)) k = uw_objects (sy_world s) k" if "\<not> pending_key k" for k ob
    using that by (auto simp: put_object_def)
  with client_put show ?case
    by (intro upload_inv_world) (auto simp: upload_inv_def world_inv_def later_def put_object_def)
next
  case (begin_confirm s n publicId user org)
  then show ?case by (auto simp: upload_inv_def)
next
  case (confirm s n p fault p' w')
  then have "confirm_inv env s p' \<and> world_inv env s w' \<and> later s (sy_world s) w'"
    by (intro confirm_keeps) (auto simp: upload_inv_def)
  then have "upload_inv env (s\<lparr>sy_world := w'\<rparr>)" "confirm_inv env s p'" using confirm.prems by (auto intro: upload_inv_world)
  then show ?case by (auto simp: upload_inv_def)
next
  case (begin_delete s n publicId user org)
  then show ?case by (auto simp: upload_inv_def)
next
  case (deletion s n p fault p' w')
  then have "world_inv env s w' \<and> later s (sy_world s) w'" by (intro delete_keeps) (auto simp: upload_inv_def)
  then have "upload_inv env (s\<lparr>sy_world := w'\<rparr>)" using deletion.prems by (auto intro: upload_inv_world)
  then show ?case by (auto simp: upload_inv_def)
next
  case (begin_sweep s n)
  then show ?case by (auto simp: upload_inv_def)
next
  case (sweep s n p fault p' w')
  then have "sweep_inv env s w' p' \<and> world_inv env s w' \<and> later s (sy_world s) w'"
    by (intro sweep_keeps) (auto simp: upload_inv_def)
  then have "upload_inv env (s\<lparr>sy_world := w'\<rparr>)" "sweep_inv env s w' p'" using sweep.prems by (auto intro: upload_inv_world)
  then show ?case by (auto simp: upload_inv_def)
next
  case (offboard_user s faults u)
  then show ?case by (intro upload_inv_world world_inv_offboard) (auto simp: upload_inv_def)
next
  case (offboard_organization s faults oid)
  then show ?case by (intro upload_inv_world world_inv_offboard) (auto simp: upload_inv_def)
next
  case (retention s faults cutoff)
  then show ?case by (intro upload_inv_world world_inv_retention) (auto simp: upload_inv_def)
qed

text \<open>C22 What is served is what was verified: in every interleaving of client writes, confirmations, deletions, sweeps and
  offboardings, with any storage call failing, an upload that is marked as uploaded refers to a key no client
  can write, and the object there, if any, has the leading bytes of its declared type or is the
  sanitizer's output.  Entity tags are assumed not to collide.\<close>

theorem served_bytes_are_verified:
  assumes "upload_reachable env s" and "inj (ue_etag env)" and "r \<in> set (uw_rows (sy_world s))" and "up_status r = ''UPLOADED''"
    and "uw_objects (sy_world s) (up_file_key r) = Some ob"
  shows "\<not> pending_key (up_file_key r) \<and> published_ok env (up_mime_type r) (so_body ob)"
proof -
  from assms(1) have "upload_inv env s"
  proof (induction rule: upload_reachable.induct)
    case (initial s)
    then show ?case by (simp add: upload_inv_def log_ok_def world_inv_def)
  next
    case (step s s')
    then show ?case using assms(2) by (blast intro: upload_inv_step)
  qed
  then have log: "log_ok s" and w: "world_inv env s (sy_world s)" by (auto simp: upload_inv_def)
  from w assms(3,4) have key: "\<not> pending_key (up_file_key r)" and "known env s r" by (auto simp: world_inv_def)
  then obtain k where k: "up_file_key r = k" "sy_issued s k = Some (up_mime_type r, up_created_at r + url_life env)"
    by (auto simp: known_def)
  moreover obtain ct t where "sy_issued s k = Some (ct, t)" "published_ok env ct (so_body ob)"
    using w key assms(5) k(1) unfolding world_inv_def by blast
  ultimately show ?thesis using key by simp
qed

text \<open>An avatar: created, written by the client, confirmed.\<close>

definition go_confirm :: "UploadEnv \<Rightarrow> UploadSystem \<Rightarrow> UploadSystem" where
  "go_confirm env s = (case sy_confirms s 0 of None \<Rightarrow> s\<lparr>sy_confirms := (sy_confirms s)(0 \<mapsto> ConfirmStart ''upl_1'' ''usr_1'' None)\<rparr>
     | Some p \<Rightarrow> (case confirm_step env None p (sy_world s) of
         (p', w') \<Rightarrow> s\<lparr>sy_confirms := (sy_confirms s)(0 \<mapsto> p'), sy_world := w'\<rparr>))"

lemma reachable_go_confirm:
  assumes "upload_reachable env s"
  shows "upload_reachable env ((go_confirm env ^^ k) s)"
proof (induction k)
  case (Suc k)
  let ?s = "(go_confirm env ^^ k) s"
  have "upload_step env ?s (go_confirm env ?s)"
  proof (cases "sy_confirms ?s 0")
    case None
    then show ?thesis by (simp add: go_confirm_def upload_step.begin_confirm)
  next
    case (Some p)
    obtain p' w' where run: "confirm_step env None p (sy_world ?s) = (p', w')" by (rule prod.exhaust)
    from upload_step.confirm [OF Some run] Some run show ?thesis by (simp add: go_confirm_def)
  qed
  with Suc show ?case by (auto intro: upload_reachable.step)
qed (simp add: assms)

definition demo_avatar :: CreateUploadInput where
  "demo_avatar = \<lparr>ci_purpose = AVATAR, ci_for = ForUser, ci_organization_id = None, ci_content_type = ''image/png'',
     ci_file_name = ''me.png'', ci_file_size = 10\<rparr>"

definition demo_empty :: UploadSystem where
  "demo_empty = \<lparr>sy_world = \<lparr>uw_now = 1000, uw_tenancy = demo_tenancy_db, uw_rows = [], uw_next_id = 1, uw_objects = (\<lambda>_. None)\<rparr>,
     sy_confirms = (\<lambda>_. None), sy_deletes = (\<lambda>_. None), sy_sweeps = (\<lambda>_. None), sy_issued = (\<lambda>_. None),
     sy_pub = (\<lambda>_. None), sy_num = (\<lambda>_. None)\<rparr>"

definition demo_avatar_key :: string where "demo_avatar_key = ''avatars/usr_1/u.png''"

definition demo_created :: "UploadRow \<times> UploadWorld" where
  "demo_created = projr (createUpload demo_upload_env ''upl_1'' ''u'' demo_avatar ''usr_1'' (sy_world demo_empty))"

definition demo_issued :: UploadSystem where
  "demo_issued = demo_empty\<lparr>sy_world := snd demo_created, sy_issued := [demo_avatar_key \<mapsto> (''image/png'', 1000 + url_life demo_upload_env)],
     sy_pub := [''upl_1'' \<mapsto> demo_avatar_key], sy_num := [up_id (fst demo_created) \<mapsto> demo_avatar_key]\<rparr>"

definition demo_written :: UploadSystem where
  "demo_written = demo_issued\<lparr>sy_world := put_object (buildPendingObjectKey demo_avatar_key) demo_png (sy_world demo_issued)\<rparr>"

definition demo_served :: UploadSystem where
  "demo_served = (go_confirm demo_upload_env ^^ Suc (Suc (Suc (Suc (Suc (Suc (Suc 0))))))) demo_written"

lemma demo_key: "upload_key demo_avatar ''usr_1'' ''u'' = demo_avatar_key"
  by (simp add: upload_key_def demo_avatar_def demo_avatar_key_def getCanonicalExtensionForContentType_def
      getAllowedExtensionsForContentType_def CONTENT_TYPE_TO_EXTENSIONS_def)

lemmas demo_create_simps = createUpload_def reservePendingUploadSlot_def insert_upload_def resolveUploadOrganizationInternalId_def
  requireUserRecordByPublicId_def findByPublicId_def demo_empty_def demo_avatar_def demo_upload_env_def demo_tenancy_db_def
  countPendingByUserId_def Let_def live_user_def demo_user_def

definition demo_avatar_row :: UploadRow where
  "demo_avatar_row = \<lparr>up_id = 1, up_public_id = ''upl_1'', up_user_id = 1, up_organization_id = None, up_file_name = ''me.png'',
     up_file_key = ''pending/avatars/usr_1/u.png'', up_mime_type = ''image/png'', up_file_size = 10, up_status = ''PENDING'',
     up_deleted_at = None, up_created_at = 1000, up_updated_at = 1000\<rparr>"

lemma demo_created_eq: "demo_created = (demo_avatar_row, \<lparr>uw_now = 1000, uw_tenancy = demo_tenancy_db, uw_rows = [demo_avatar_row],
    uw_next_id = 2, uw_objects = (\<lambda>_. None)\<rparr>)"
  unfolding demo_created_def
  by (simp add: demo_create_simps demo_key [unfolded demo_avatar_def] demo_avatar_row_def buildPendingObjectKey_def UPLOAD_PENDING_KEY_PREFIX_def demo_avatar_key_def)

lemma demo_served_reachable: "upload_reachable demo_upload_env demo_served"
proof -
  have made: "createUpload demo_upload_env ''upl_1'' ''u'' demo_avatar ''usr_1'' (sy_world demo_empty) = Inr (fst demo_created, snd demo_created)"
  proof -
    have "\<not> isl (createUpload demo_upload_env ''upl_1'' ''u'' demo_avatar ''usr_1'' (sy_world demo_empty))"
      by (simp add: demo_create_simps)
    then show ?thesis unfolding demo_created_def by (metis sum.collapse(2) surjective_pairing)
  qed
  have "upload_reachable demo_upload_env demo_empty" by (rule upload_reachable.initial) (simp_all add: demo_empty_def)
  moreover have "upload_step demo_upload_env demo_empty demo_issued"
  proof -
    have valid: "validateCreateUpload (\<lambda>_. True) False demo_avatar = Inr demo_avatar"
      by (simp add: validateCreateUpload_def demo_avatar_def Let_def getAllowedContentTypesForPurpose_def hasControlCharacters_def
          extname_def js_lower_def lower_char_def getAllowedExtensionsForContentType_def CONTENT_TYPE_TO_EXTENSIONS_def)
    from upload_step.create [OF valid refl made] show ?thesis
      by (simp add: demo_issued_def demo_key [unfolded demo_avatar_def] demo_empty_def demo_avatar_def fun_upd_def)
  qed
  ultimately have "upload_reachable demo_upload_env demo_issued" by (rule upload_reachable.step)
  moreover have "upload_step demo_upload_env demo_issued demo_written"
  proof -
    have "uw_now (sy_world demo_issued) \<le> 1000 + url_life demo_upload_env"
      by (simp add: demo_issued_def demo_created_eq url_life_def PRESIGNED_URL_EXPIRY_SECONDS_def demo_upload_env_def)
    moreover have "sy_issued demo_issued demo_avatar_key = Some (''image/png'', 1000 + url_life demo_upload_env)"
      by (simp add: demo_issued_def)
    ultimately show ?thesis
      using upload_step.client_put [of demo_issued demo_avatar_key "''image/png''" "1000 + url_life demo_upload_env" demo_upload_env "so_body demo_png"]
      by (simp add: demo_written_def demo_png_def)
  qed
  ultimately have "upload_reachable demo_upload_env demo_written" by (rule upload_reachable.step)
  then show ?thesis unfolding demo_served_def by (rule reachable_go_confirm)
qed

lemmas demo_confirm_simps = go_confirm_def load_upload_def loadUploadForUserAction_def upload_findByPublicId_def
  verifyUploadedObject_def headObjectResult_def getObjectFirstBytes_def copyObject_def put_object_def markConfirmedByPublicId_def
  update_uploads_def update_row_def deleteObject_def final_key_def stripPendingObjectKeyPrefix_def UPLOAD_PENDING_KEY_PREFIX_def
  isSvgContentType_def SVG_CONTENT_TYPE_def js_lower_def lower_char_def isMagicByteVerifiable_def MAGIC_SIGNATURES_def
  verifyFileMagicBytes_def subarray_def live_upload_def requireUserRecordByPublicId_def findByPublicId_def live_user_def demo_user_def
  demo_tenancy_db_def demo_png_def demo_upload_env_def Let_def

lemma demo_served_eq:
  "uw_rows (sy_world demo_served) = [demo_avatar_row\<lparr>up_status := ''UPLOADED'', up_file_key := ''avatars/usr_1/u.png''\<rparr>]"
  "uw_objects (sy_world demo_served) ''avatars/usr_1/u.png'' = Some demo_png"
  by (simp_all add: demo_served_def demo_written_def demo_issued_def demo_created_eq demo_empty_def buildPendingObjectKey_def demo_avatar_key_def
      demo_avatar_row_def demo_confirm_simps)

theorem served_bytes_are_verified_witness:
  "up_status (hd (uw_rows (sy_world demo_served))) = ''UPLOADED'' \<and>
   \<not> pending_key (up_file_key (hd (uw_rows (sy_world demo_served)))) \<and> published_ok demo_upload_env ''image/png'' (so_body demo_png)"
  using served_bytes_are_verified [OF demo_served_reachable, of "hd (uw_rows (sy_world demo_served))" demo_png] demo_served_eq
  by (simp add: demo_upload_env_def demo_avatar_row_def)

section \<open>Races that go wrong\<close>

text \<open>A confirmation that nothing interleaves with and no call of which fails, from the row it read on.\<close>

definition confirmed_row :: "UploadRow \<Rightarrow> UploadWorld \<Rightarrow> UploadRow" where
  "confirmed_row row w = row\<lparr>up_status := ''UPLOADED'', up_file_key := final_key row, up_updated_at := uw_now w\<rparr>"

lemma loaded_visible:
  assumes "load_upload publicId user org w = Inr (row, scope)"
  shows "upload_visible scope (uw_tenancy w) row \<and> up_public_id row = publicId \<and> live_upload row"
proof -
  have found: "upload_visible sc (uw_tenancy w) r \<and> up_public_id r = publicId \<and> live_upload r" if "upload_findByPublicId sc publicId w = Some r" for sc r
    using that by (auto simp: upload_findByPublicId_def dest!: select_first_Some_iff)
  show ?thesis using assms
    by (auto simp: load_upload_def loadUploadForUserAction_def Let_def dest: found split: sum.splits option.splits if_splits)
qed

lemma upload_visible_cong:
  "up_organization_id r = up_organization_id r' \<Longrightarrow> up_user_id r = up_user_id r' \<Longrightarrow> upload_visible scope d r = upload_visible scope d r'"
  by (cases scope) (simp_all split: option.splits)

lemma visible_updates [simp]:
  "upload_visible scope d (r\<lparr>up_status := x\<rparr>) = upload_visible scope d r"
  "upload_visible scope d (r\<lparr>up_file_key := y\<rparr>) = upload_visible scope d r"
  "upload_visible scope d (r\<lparr>up_updated_at := z\<rparr>) = upload_visible scope d r"
  by (rule upload_visible_cong, simp, simp)+

text \<open>An update by public id of a visible live row reaches this row.\<close>

lemma update_uploads_row:
  assumes "row \<in> set (uw_rows w)" "upload_visible scope (uw_tenancy w) row" "live_upload row"
    and "distinct (map up_public_id (uw_rows w))"
    and "p = (\<lambda>r. up_public_id r = up_public_id row \<and> live_upload r)"
  shows "\<exists>w'. update_uploads scope p f w = (Some ((f row)\<lparr>up_updated_at := uw_now w\<rparr>), w') \<and>
    (f row)\<lparr>up_updated_at := uw_now w\<rparr> \<in> set (uw_rows w') \<and> w' = w\<lparr>uw_rows := uw_rows w'\<rparr>"
proof -
  let ?q = "\<lambda>r. upload_visible scope (uw_tenancy w) r \<and> p r"
  have "r = row" if "r \<in> set (uw_rows w)" "?q r" for r
    using that assms by (auto simp: distinct_map inj_on_def)
  then have all: "set (filter ?q (uw_rows w)) \<subseteq> {row}" by auto
  have "row \<in> set (filter ?q (uw_rows w))" using assms by simp
  then have ne: "filter ?q (uw_rows w) \<noteq> []" by (metis empty_iff empty_set)
  with all have "hd (filter ?q (uw_rows w)) = row" by (metis hd_in_set singletonD subsetD)
  with ne obtain xs where "filter ?q (uw_rows w) = row # xs" by (metis list.collapse)
  moreover have "?q row" using assms by simp
  ultimately show ?thesis using assms(1)
    by (auto simp: update_uploads_def update_row_def update_returning_def set_update_where Let_def)
qed

lemma pending_final_key:
  assumes "pending_key (up_file_key row)"
  shows "final_key row \<noteq> up_file_key row"
proof
  assume same: "final_key row = up_file_key row"
  have "length (final_key row) = length (up_file_key row) - 8"
    using assms by (simp add: final_key_def stripPendingObjectKeyPrefix_def UPLOAD_PENDING_KEY_PREFIX_def)
  with same have "length (up_file_key row) = 0" by arith
  then have "up_file_key row = []" by simp
  with assms show False by (simp add: UPLOAD_PENDING_KEY_PREFIX_def)
qed

fun confirm_run :: "UploadRow \<Rightarrow> UploadScope \<Rightarrow> UploadWorld \<Rightarrow> ConfirmPhase \<Rightarrow> UploadWorld \<Rightarrow> bool" where
  "confirm_run row scope w (ConfirmStart _ _ _) w' = False"
| "confirm_run row scope w (ConfirmDropPending r u) w' = (r = row \<and> u = confirmed_row row w \<and> u \<in> set (uw_rows w'))"
| "confirm_run row scope w (Confirmed (Inl e)) w' = True"
| "confirm_run row scope w (Confirmed (Inr u)) w' = (u = confirmed_row row w \<and> u \<in> set (uw_rows w') \<and> uw_objects w' (up_file_key row) = None)"
| "confirm_run row scope w (ConfirmHead r sc) w' = (r = row \<and> sc = scope \<and> uw_rows w' = uw_rows w)"
| "confirm_run row scope w (ConfirmBytes r sc) w' = (r = row \<and> sc = scope \<and> uw_rows w' = uw_rows w)"
| "confirm_run row scope w (ConfirmSvg r sc) w' = (r = row \<and> sc = scope \<and> uw_rows w' = uw_rows w)"
| "confirm_run row scope w (ConfirmPut r sc _) w' = (r = row \<and> sc = scope \<and> uw_rows w' = uw_rows w)"
| "confirm_run row scope w (ConfirmCopy r sc _) w' = (r = row \<and> sc = scope \<and> uw_rows w' = uw_rows w)"
| "confirm_run row scope w (ConfirmMark r sc) w' = (r = row \<and> sc = scope \<and> uw_rows w' = uw_rows w)"
| "confirm_run row scope w (ConfirmFail r sc) w' = (r = row \<and> sc = scope \<and> uw_rows w' = uw_rows w)"

lemma verification_error_run [simp]:
  "uw_rows w' = uw_rows w \<Longrightarrow> confirm_run row scope w (verification_error row scope e) w'"
  by (cases e) auto

lemma confirm_run_step:
  assumes "row \<in> set (uw_rows w)" "upload_visible scope (uw_tenancy w) row" "live_upload row" "distinct (map up_public_id (uw_rows w))"
    and "confirm_run row scope w p v" "uw_tenancy v = uw_tenancy w" "uw_now v = uw_now w" "map up_public_id (uw_rows v) = map up_public_id (uw_rows w)"
    and "confirm_step env None p v = (p', v')"
  shows "confirm_run row scope w p' v' \<and> uw_tenancy v' = uw_tenancy w \<and> uw_now v' = uw_now w \<and>
    map up_public_id (uw_rows v') = map up_public_id (uw_rows w)"
proof (cases p)
  case (ConfirmMark r sc)
  with assms have "r = row" "sc = scope" "uw_rows v = uw_rows w" by auto
  then have "row \<in> set (uw_rows v)" "upload_visible scope (uw_tenancy v) row" "distinct (map up_public_id (uw_rows v))"
    using assms(1,2,4,6) by simp_all
  from update_uploads_row [OF this(1,2) assms(3) this(3) refl, of "\<lambda>r. r\<lparr>up_status := ''UPLOADED'', up_file_key := final_key row\<rparr>"]
  obtain v'' where run: "markConfirmedByPublicId scope (up_public_id row) (final_key row) v = (Some (confirmed_row row w), v'')"
    and v'': "confirmed_row row w \<in> set (uw_rows v'')" "v'' = v\<lparr>uw_rows := uw_rows v''\<rparr>"
    unfolding markConfirmedByPublicId_def confirmed_row_def assms(7) by blast
  from run have ids: "map up_public_id (uw_rows v'') = map up_public_id (uw_rows v)"
    by (auto simp: markConfirmedByPublicId_def update_uploads_def update_row_def update_where_key)
  have "uw_tenancy v'' = uw_tenancy v" "uw_now v'' = uw_now v" by (subst v''(2), simp)+
  with run v''(1) show ?thesis using assms(6-9) ids ConfirmMark \<open>r = row\<close> \<open>sc = scope\<close> by auto
next
  case (ConfirmFail r sc)
  with assms show ?thesis
    by (auto simp: markStatusByPublicId_def update_uploads_def update_row_def update_where_key Let_def split: option.splits)
next
  case (Confirmed result)
  with assms show ?thesis by auto
qed (use assms in \<open>auto simp: putObject_def copyObject_def put_object_def deleteObject_def split: sum.splits option.splits if_splits prod.splits\<close>)

lemma confirm_run_fold:
  assumes "row \<in> set (uw_rows w)" "upload_visible scope (uw_tenancy w) row" "live_upload row" "distinct (map up_public_id (uw_rows w))"
    and "confirm_run row scope w p v" "uw_tenancy v = uw_tenancy w" "uw_now v = uw_now w" "map up_public_id (uw_rows v) = map up_public_id (uw_rows w)"
    and "foldl (\<lambda>(p, w) f. confirm_step env f p w) (p, v) (replicate n None) = (p', v')"
  shows "confirm_run row scope w p' v' \<and> uw_tenancy v' = uw_tenancy w \<and> uw_now v' = uw_now w \<and>
    map up_public_id (uw_rows v') = map up_public_id (uw_rows w)"
  using assms(5-9)
proof (induction n arbitrary: p v)
  case (Suc n)
  obtain q x where step: "confirm_step env None p v = (q, x)" by (rule prod.exhaust)
  from confirm_run_step [OF assms(1-4) Suc.prems(1-4) step]
  have "confirm_run row scope w q x" "uw_tenancy x = uw_tenancy w" "uw_now x = uw_now w" "map up_public_id (uw_rows x) = map up_public_id (uw_rows w)" by auto
  from Suc.IH [OF this] Suc.prems(5) show ?case by (simp add: step)
qed simp

text \<open>A completed confirmation: the row is moved to its final key and the pending object is gone.\<close>

lemma confirmation_completed:
  assumes "load_upload publicId user org w = Inr (row, scope)" "up_status row = ''PENDING''" "pending_key (up_file_key row)"
    and "distinct (map up_public_id (uw_rows w))"
    and "confirmUpload env (replicate (Suc n) None) publicId user org w = (Confirmed (Inr u), w')"
  shows "u = confirmed_row row w" "u \<in> set (uw_rows w')" "uw_objects w' (up_file_key row) = None"
    "upload_visible scope (uw_tenancy w') u" "live_upload u" "up_public_id u = publicId" "up_id u = up_id row"
    "distinct (map up_public_id (uw_rows w'))"
proof -
  note row = loaded_row [OF assms(1)] loaded_visible [OF assms(1)]
  have key: "final_key row \<noteq> up_file_key row" by (rule pending_final_key [OF assms(3)])
  then have "confirm_step env None (ConfirmStart publicId user org) w = (ConfirmHead row scope, w)"
    using assms(1,2) by simp
  then have "foldl (\<lambda>(p, w) f. confirm_step env f p w) (ConfirmHead row scope, w) (replicate n None) = (Confirmed (Inr u), w')"
    using assms(5) by (simp add: confirmUpload_def del: confirm_step.simps)
  then have run: "confirm_run row scope w (Confirmed (Inr u)) w' \<and> uw_tenancy w' = uw_tenancy w \<and> uw_now w' = uw_now w \<and>
    map up_public_id (uw_rows w') = map up_public_id (uw_rows w)"
    using row assms(4) by (intro confirm_run_fold) auto
  then show "u = confirmed_row row w" "u \<in> set (uw_rows w')" "uw_objects w' (up_file_key row) = None" by auto
  with run row show "upload_visible scope (uw_tenancy w') u" "live_upload u" "up_public_id u = publicId" "up_id u = up_id row"
    "distinct (map up_public_id (uw_rows w'))"
    using assms(4) by (simp_all add: confirmed_row_def live_upload_def)
qed

text \<open>A breaker that is open fails valid uploads: a confirmation whose first storage call fails at S3 changes nothing and can be
  retried, as the code's comment promises for a circuit that is open too; but one that meets the open breaker
  marks the very same upload as failed, for good, though its object was never looked at.\<close>

theorem open_circuit_fails_valid_upload:
  assumes "load_upload publicId user org w = Inr (row, scope)" and "up_status row = ''PENDING''" and "pending_key (up_file_key row)"
    and "distinct (map up_public_id (uw_rows w))"
  shows "confirmUpload env [None, Some S3Fails] publicId user org w =
      (Confirmed (Inl (ServiceUnavailableError ''errors:externalServiceUnavailable'')), w) \<and>
    (\<exists>w'. confirmUpload env [None, Some CircuitOpen, None] publicId user org w =
      (Confirmed (Inl (ValidationError ''errors:uploadVerificationFailed'')), w') \<and>
      row\<lparr>up_status := ''FAILED'', up_updated_at := uw_now w\<rparr> \<in> set (uw_rows w') \<and> uw_objects w' = uw_objects w)"
proof -
  note row = loaded_row [OF assms(1)] loaded_visible [OF assms(1)]
  have key: "final_key row \<noteq> up_file_key row" by (rule pending_final_key [OF assms(3)])
  with update_uploads_row [OF row(1) _ _ assms(4) refl, of scope "\<lambda>r. r\<lparr>up_status := ''FAILED''\<rparr>"] row(2)
  obtain w' where mark: "markStatusByPublicId scope (up_public_id row) ''FAILED'' w = (Some (row\<lparr>up_status := ''FAILED'', up_updated_at := uw_now w\<rparr>), w')"
    and w': "row\<lparr>up_status := ''FAILED'', up_updated_at := uw_now w\<rparr> \<in> set (uw_rows w')" "w' = w\<lparr>uw_rows := uw_rows w'\<rparr>"
    by (auto simp: markStatusByPublicId_def)
  have "uw_objects w' = uw_objects w" by (subst w'(2)) simp
  with key mark w'(1) assms(1,2) show ?thesis
    by (simp add: confirmUpload_def verifyUploadedObject_def headObjectResult_def)
qed

text \<open>The sweep deletes a confirmed upload: it reads its batch first and deletes by row id at the end, so a confirmation that
  succeeds in between, whose client was told that the upload is confirmed, loses its row: the sweep finds the pending object gone, which the
  confirmation itself deleted, and takes the row for an orphan.\<close>

theorem sweep_deletes_confirmed_upload:
  assumes "sweep_step env None SweepSelect w = (SweepNext [row] [], w)"
    and "load_upload publicId user org w = Inr (row, scope)" and "pending_key (up_file_key row)" and "\<not> isSvgContentType (up_mime_type row)"
    and "distinct (map up_public_id (uw_rows w))"
    and "confirmUpload env (replicate (Suc n) None) publicId user org w = (Confirmed (Inr u), w')"
  shows "u \<in> set (uw_rows w') \<and> up_status u = ''UPLOADED'' \<and>
    (\<exists>w''. foldl (\<lambda>(p, w) f. sweep_step env f p w) (SweepNext [row] [], w') [None, None, None] = (Swept, w'') \<and>
      u \<notin> set (uw_rows w'') \<and> (\<forall>k. uw_objects w'' k = uw_objects w' k))"
proof -
  have "row \<in> set (findPendingUploadsOlderThan (sweep_cutoff env (uw_now w)) UPLOAD_PENDING_SWEEP_BATCH_SIZE w)"
    using assms(1) by simp
  then have "up_status row = ''PENDING''" by (auto simp: findPendingUploadsOlderThan_def dest!: in_set_takeD)
  note fin = confirmation_completed [OF assms(2) this assms(3,5,6)]
  have "sweep_verdict None row [] [] w' = SweepOrphan row [] []"
    using assms(3,4) fin(3) by (simp add: sweep_verdict_def headObjectResult_def)
  with fin show ?thesis
    by (auto simp: confirmed_row_def hardDeleteUploadsByInternalIds_def deleteObject_def set_delete_where)
qed

text \<open>A confirmation fails a published upload: of two that read the pending row, the slower one finds the pending object gone after
  the first has published it, and marks the upload, by then uploaded and served, as failed.\<close>

theorem second_confirm_fails_published_upload:
  assumes "confirm_step env None (ConfirmStart publicId user org) w = (ConfirmHead row scope, w)" and "pending_key (up_file_key row)"
    and "distinct (map up_public_id (uw_rows w))"
    and "confirmUpload env (replicate (Suc n) None) publicId user org w = (Confirmed (Inr u), w')"
  shows "u \<in> set (uw_rows w') \<and> up_status u = ''UPLOADED'' \<and>
    (\<exists>w''. foldl (\<lambda>(p, w) f. confirm_step env f p w) (ConfirmHead row scope, w') [None, None] =
        (Confirmed (Inl (ValidationError ''errors:uploadVerificationFailed'')), w'') \<and>
      u\<lparr>up_status := ''FAILED'', up_updated_at := uw_now w'\<rparr> \<in> set (uw_rows w''))"
proof -
  from assms(1) have load: "load_upload publicId user org w = Inr (row, scope)" and "up_status row = ''PENDING''"
    by (auto split: sum.splits if_splits)
  note fin = confirmation_completed [OF load this(2) assms(2-4)]
  have row: "up_public_id row = publicId" using loaded_visible [OF load] by simp
  have "verifyUploadedObject None (up_file_key row) (up_mime_type row) (up_file_size row) w' = Inl (PlainError ''upload object not found in storage'')"
    using fin(3) by (simp add: verifyUploadedObject_def headObjectResult_def)
  moreover from update_uploads_row [OF fin(2,4,5,8) refl, of "\<lambda>r. r\<lparr>up_status := ''FAILED''\<rparr>"]
  obtain w'' where "markStatusByPublicId scope publicId ''FAILED'' w' = (Some (u\<lparr>up_status := ''FAILED'', up_updated_at := uw_now w'\<rparr>), w'')"
    "u\<lparr>up_status := ''FAILED'', up_updated_at := uw_now w'\<rparr> \<in> set (uw_rows w'')"
    by (auto simp: markStatusByPublicId_def fin(6))
  ultimately show ?thesis using fin row by (simp add: confirmed_row_def)
qed

text \<open>An upload that was written and confirmed late, while the sweep was at it.\<close>

definition demo_late :: UploadRow where "demo_late = demo_upload 1 ''upl_1'' 1 ''pending/a''"

definition demo_late_world :: UploadWorld where
  "demo_late_world = \<lparr>uw_now = 9000000, uw_tenancy = demo_tenancy_db, uw_rows = [demo_late], uw_next_id = 2,
     uw_objects = [''pending/a'' \<mapsto> demo_png]\<rparr>"

definition demo_late_confirmed :: UploadWorld where
  "demo_late_confirmed = snd (confirmUpload demo_upload_env (replicate (Suc (Suc (Suc (Suc (Suc (Suc 0)))))) None) ''upl_1'' ''usr_1'' None demo_late_world)"

lemma demo_late_load: "load_upload ''upl_1'' ''usr_1'' None demo_late_world = Inr (demo_late, UserScope ''usr_1'')"
  by (simp add: demo_late_world_def demo_late_def demo_upload_def demo_confirm_simps)

lemma demo_late_row:
  "up_status demo_late = ''PENDING''" "pending_key (up_file_key demo_late)" "\<not> isSvgContentType (up_mime_type demo_late)"
  "distinct (map up_public_id (uw_rows demo_late_world))" "final_key demo_late \<noteq> up_file_key demo_late"
  by (simp_all add: demo_late_def demo_upload_def UPLOAD_PENDING_KEY_PREFIX_def isSvgContentType_def SVG_CONTENT_TYPE_def js_lower_def lower_char_def
      demo_late_world_def final_key_def stripPendingObjectKeyPrefix_def)

lemma demo_late_runs:
  "confirmUpload demo_upload_env (replicate (Suc (Suc (Suc (Suc (Suc (Suc 0)))))) None) ''upl_1'' ''usr_1'' None demo_late_world =
    (Confirmed (Inr (confirmed_row demo_late demo_late_world)), demo_late_confirmed)"
proof -
  have "fst (confirmUpload demo_upload_env (replicate (Suc (Suc (Suc (Suc (Suc (Suc 0)))))) None) ''upl_1'' ''usr_1'' None demo_late_world) =
      Confirmed (Inr (confirmed_row demo_late demo_late_world))"
    by (simp add: confirmUpload_def confirmed_row_def demo_late_world_def demo_late_def demo_upload_def demo_confirm_simps)
  then show ?thesis by (simp add: demo_late_confirmed_def prod_eq_iff)
qed

lemma demo_late_sweep: "sweep_step demo_upload_env None SweepSelect demo_late_world = (SweepNext [demo_late] [], demo_late_world)"
  by (simp add: findPendingUploadsOlderThan_def demo_late_world_def demo_late_def demo_upload_def sweep_cutoff_def
      PRESIGNED_URL_EXPIRY_SECONDS_def demo_upload_env_def live_upload_def UPLOAD_PENDING_SWEEP_BATCH_SIZE_def)

theorem open_circuit_fails_valid_upload_witness:
  "uw_objects demo_late_world ''pending/a'' = Some demo_png \<and>
   fst (confirmUpload demo_upload_env [None, Some CircuitOpen, None] ''upl_1'' ''usr_1'' None demo_late_world) =
     Confirmed (Inl (ValidationError ''errors:uploadVerificationFailed''))"
proof -
  have "uw_objects demo_late_world ''pending/a'' = Some demo_png" by (simp add: demo_late_world_def)
  with open_circuit_fails_valid_upload [OF demo_late_load demo_late_row(1,2,4), of demo_upload_env] show ?thesis by auto
qed

theorem sweep_deletes_confirmed_upload_witness:
  "\<exists>w. foldl (\<lambda>(p, w) f. sweep_step demo_upload_env f p w) (SweepNext [demo_late] [], demo_late_confirmed) [None, None, None] = (Swept, w) \<and>
    confirmed_row demo_late demo_late_world \<in> set (uw_rows demo_late_confirmed) \<and> confirmed_row demo_late demo_late_world \<notin> set (uw_rows w)"
  using sweep_deletes_confirmed_upload [OF demo_late_sweep demo_late_load demo_late_row(2,3,4) demo_late_runs] by blast

theorem second_confirm_fails_published_upload_witness:
  "\<exists>w. foldl (\<lambda>(p, w) f. confirm_step demo_upload_env f p w) (ConfirmHead demo_late (UserScope ''usr_1''), demo_late_confirmed) [None, None] =
     (Confirmed (Inl (ValidationError ''errors:uploadVerificationFailed'')), w)"
proof -
  have "confirm_step demo_upload_env None (ConfirmStart ''upl_1'' ''usr_1'' None) demo_late_world = (ConfirmHead demo_late (UserScope ''usr_1''), demo_late_world)"
    using demo_late_row by (simp add: demo_late_load)
  from second_confirm_fails_published_upload [OF this demo_late_row(2,4) demo_late_runs] show ?thesis by blast
qed

end
