(* ===== verification/Audit_Outbox.thy ===== *)
theory Audit_Outbox
  imports Organizations JS_Values "HOL-Library.Multiset"
begin

text \<open>
  The audit trail of \<^verbatim>\<open>src/src/domains/audit\<close>: \<^verbatim>\<open>AuditService.record\<close> stages a row in \<^verbatim>\<open>audit.outbox\<close> under the
  row-level policy of that table, the worker \<^verbatim>\<open>workers/audit-outbox-drain.processor.ts\<close> claims a batch of pending rows with
  \<^verbatim>\<open>FOR UPDATE SKIP LOCKED\<close>, resolves their public ids, and inserts each one into \<^verbatim>\<open>audit.logs\<close> under a savepoint and
  under the tenant settings of that row.  A pass is one transaction of \<open>Transactions\<close>; the settings (\<^verbatim>\<open>SET LOCAL\<close>) are part of
  its state, so that a rolled back savepoint restores them and a released one does not.  The tables of users, organizations
  and API keys belong to other components and are lookups by public id.  Shown: in every interleaving of events, passes and
  failed passes the ledger holds exactly one entry, of the right tenant, per processed row and nothing else; passes drain the
  backlog; and two defects, the attempt a row is given up on and the rows of a deleted organization.  The serial ids
  of \<^verbatim>\<open>audit.logs\<close> are not modelled.
\<close>

section \<open>The tables\<close>

datatype OutboxStatus = OutboxPending | OutboxProcessed | OutboxFailed

record AuditOutboxRow =
  ao_id :: nat
  ao_status :: OutboxStatus
  ao_actor_user_public_id :: "string option"
  ao_actor_api_key_public_id :: "string option"
  ao_target_user_public_id :: "string option"
  ao_organization_public_id :: "string option"
  ao_action :: string
  ao_resource_type :: string
  ao_resource_id :: "int option"
  ao_ip_address :: "string option"
  ao_user_agent :: "string option"
  ao_severity :: string
  ao_metadata :: js
  ao_attempt_count :: nat
  ao_last_error :: "string option"
  ao_created_at :: millis
  ao_updated_at :: millis
  ao_processed_at :: "millis option"

record AuditLogRow =
  al_actor_user_id :: "nat option"
  al_actor_api_key_id :: "nat option"
  al_target_user_id :: "nat option"
  al_organization_id :: "nat option"
  al_action :: string
  al_resource_type :: string
  al_resource_id :: "int option"
  al_ip_address :: "string option"
  al_user_agent :: "string option"
  al_severity :: string
  al_metadata :: js
  al_created_at :: millis

text \<open>The settings a policy reads through \<^verbatim>\<open>current_setting(.., true)\<close>; an unset one compares equal to no text the
  policies test for, as the empty text does.\<close>

record AuditGucs =
  g_organization :: string
  g_system_audit :: string
  g_drain :: string
  g_admin :: string

definition no_gucs :: AuditGucs where
  "no_gucs = \<lparr>g_organization = [], g_system_audit = [], g_drain = [], g_admin = []\<rparr>"

definition is_true :: "string \<Rightarrow> bool" where "is_true s \<longleftrightarrow> s = ''true''"

record AuditDb =
  ad_outbox :: "AuditOutboxRow tbl"
  ad_logs :: "AuditLogRow tbl"
  ad_gucs :: AuditGucs

definition AUDIT_SEVERITIES :: "string list" where
  "AUDIT_SEVERITIES = [''DEBUG'', ''INFO'', ''WARNING'', ''ERROR'', ''CRITICAL'']"

definition fits :: "nat \<Rightarrow> string option \<Rightarrow> bool" where
  "fits n v \<longleftrightarrow> (case v of None \<Rightarrow> True | Some s \<Rightarrow> length s \<le> n)"

definition outbox_row_ok :: "AuditOutboxRow \<Rightarrow> bool" where
  "outbox_row_ok r \<longleftrightarrow>
     fits 28 (ao_actor_user_public_id r) \<and> fits 28 (ao_actor_api_key_public_id r) \<and> fits 28 (ao_target_user_public_id r) \<and>
     fits 28 (ao_organization_public_id r) \<and> length (ao_action r) \<le> 100 \<and> length (ao_resource_type r) \<le> 50 \<and>
     fits 45 (ao_ip_address r) \<and> ao_severity r \<in> set AUDIT_SEVERITIES \<and>
     (ao_actor_user_public_id r \<noteq> None \<or> ao_actor_api_key_public_id r \<noteq> None)"

definition outbox_insert_policy :: "AuditGucs \<Rightarrow> AuditOutboxRow \<Rightarrow> bool" where
  "outbox_insert_policy g r \<longleftrightarrow>
     ao_organization_public_id r = Some (g_organization g) \<or>
     ao_organization_public_id r = None \<and> is_true (g_system_audit g)"

definition outbox_drain_policy :: "AuditGucs \<Rightarrow> bool" where
  "outbox_drain_policy g \<longleftrightarrow> is_true (g_drain g)"

definition log_row_ok :: "AuditLogRow \<Rightarrow> bool" where
  "log_row_ok l \<longleftrightarrow> length (al_action l) \<le> 100 \<and> length (al_resource_type l) \<le> 50 \<and> fits 45 (al_ip_address l) \<and>
     al_severity l \<in> set AUDIT_SEVERITIES"

text \<open>The policy of \<^verbatim>\<open>tenancy.organizations\<close>: a soft-deleted organization is not shown to its own scope.  Its second arm
  is the setting of the retention jobs, which no transaction of the outbox makes.\<close>

definition organizations_tenant_isolation :: "bool \<Rightarrow> AuditGucs \<Rightarrow> OrganizationRow \<Rightarrow> bool" where
  "organizations_tenant_isolation globalRetentionCleanup g o' \<longleftrightarrow>
     og_public_id o' = g_organization g \<and> og_deleted_at o' = None \<or> globalRetentionCleanup"

text \<open>The policy of \<^verbatim>\<open>audit.logs\<close> compares with the id of the organization of the setting; its subquery reads
  \<^verbatim>\<open>tenancy.organizations\<close> under that table's own policy.\<close>

definition log_insert_policy :: "OrganizationRow tbl \<Rightarrow> AuditGucs \<Rightarrow> AuditLogRow \<Rightarrow> bool" where
  "log_insert_policy organizations g l \<longleftrightarrow>
     al_organization_id l \<noteq> None \<and> al_organization_id l = map_option og_id (select_first
       (\<lambda>o'. og_public_id o' = g_organization g \<and> organizations_tenant_isolation False g o') organizations) \<or>
     al_organization_id l = None \<and> is_true (g_system_audit g)"

section \<open>Recording an event\<close>

record AuditLogRecordInput =
  ai_actorUserPublicId :: "string option"
  ai_actorApiKeyPublicId :: "string option"
  ai_action :: string
  ai_resource_type :: string
  ai_resource_id :: "int option"
  ai_target_user_public_id :: "string option"
  ai_organization_public_id :: "string option"
  ai_ip_address :: "string option"
  ai_user_agent :: "string option"
  ai_severity :: "string option"
  ai_metadata :: "js option"

definition truthy :: "string option \<Rightarrow> string option" where
  "truthy v = (if v = Some [] then None else v)"

text \<open>\<open>i\<close> is the id the table's sequence gives; the sequence never gives an id twice.\<close>

definition insertAuditOutboxRow :: "millis \<Rightarrow> nat \<Rightarrow> AuditLogRecordInput \<Rightarrow> (AuditDb, unit) db" where
  "insertAuditOutboxRow now i input = sql (\<lambda>s.
     let row = \<lparr>ao_id = i, ao_status = OutboxPending, ao_actor_user_public_id = ai_actorUserPublicId input,
           ao_actor_api_key_public_id = ai_actorApiKeyPublicId input, ao_target_user_public_id = ai_target_user_public_id input,
           ao_organization_public_id = ai_organization_public_id input, ao_action = ai_action input,
           ao_resource_type = ai_resource_type input, ao_resource_id = ai_resource_id input, ao_ip_address = ai_ip_address input,
           ao_user_agent = ai_user_agent input, ao_severity = (case ai_severity input of None \<Rightarrow> ''INFO'' | Some v \<Rightarrow> v),
           ao_metadata = (case ai_metadata input of None \<Rightarrow> JObject [] | Some m \<Rightarrow> m), ao_attempt_count = 0,
           ao_last_error = None, ao_created_at = now, ao_updated_at = now, ao_processed_at = None\<rparr>
     in if \<not> outbox_row_ok row then Inl (Sql_check ''audit.outbox'')
        else if \<not> outbox_insert_policy (ad_gucs s) row then Inl (Sql_check ''audit_outbox_tenant_isolation_insert'')
        else Inr ((), s\<lparr>ad_outbox := ad_outbox s @ [row]\<rparr>))"

text \<open>\<^verbatim>\<open>SET LOCAL\<close>, and a context that opens a transaction with its settings and drops them at the end.\<close>

definition setLocalDatabaseConfig :: "(AuditGucs \<Rightarrow> AuditGucs) \<Rightarrow> (AuditDb, unit) db" where
  "setLocalDatabaseConfig f = sql (\<lambda>s. Inr ((), s\<lparr>ad_gucs := f (ad_gucs s)\<rparr>))"

definition with_settings :: "AuditGucs \<Rightarrow> (AuditDb, 'a) db \<Rightarrow> AuditDb \<Rightarrow> (thrown + 'a) \<times> AuditDb" where
  "with_settings g m s = (case run_transaction (act_bind (setLocalDatabaseConfig (\<lambda>_. g)) (\<lambda>_. m)) s of
     (r, s') \<Rightarrow> (r, s'\<lparr>ad_gucs := no_gucs\<rparr>))"

definition AuditService_record :: "millis \<Rightarrow> nat \<Rightarrow> AuditLogRecordInput \<Rightarrow> AuditDb \<Rightarrow> (thrown + unit) \<times> AuditDb" where
  "AuditService_record now i input s =
     (if truthy (ai_actorUserPublicId input) = None \<and> truthy (ai_actorApiKeyPublicId input) = None then (Inr (), s)
      else case truthy (ai_organization_public_id input) of
             Some p \<Rightarrow> with_settings (no_gucs\<lparr>g_organization := p\<rparr>) (insertAuditOutboxRow now i input) s
           | None \<Rightarrow> with_settings (no_gucs\<lparr>g_system_audit := ''true''\<rparr>) (insertAuditOutboxRow now i input) s)"

text \<open>The wrapper controllers call: a failure is logged and dropped.\<close>

definition recordAuditEvent :: "millis \<Rightarrow> nat \<Rightarrow> AuditLogRecordInput \<Rightarrow> AuditDb \<Rightarrow> AuditDb" where
  "recordAuditEvent now i input s = snd (AuditService_record now i input s)"

section \<open>The drain's statements\<close>

text \<open>What one pass meets: the directories it resolves against, the table of organizations when it resolves and when a row is
  inserted, the rows other passes hold locked, the statement
  failures of the database, the order \<^verbatim>\<open>RETURNING\<close> gives the rows in, and the optional environment variables.\<close>

record DrainEnv =
  de_users :: "string \<rightharpoonup> nat"
  de_organization_rows :: "OrganizationRow tbl"
  de_api_keys :: "string \<rightharpoonup> nat"
  de_organization_rows_at :: "nat \<Rightarrow> OrganizationRow tbl"
  de_locked :: "nat \<Rightarrow> bool"
  de_fault :: "nat \<Rightarrow> thrown option"
  de_arrange :: "AuditOutboxRow list \<Rightarrow> AuditOutboxRow list"
  de_message :: "thrown \<Rightarrow> string"
  de_now :: millis
  de_batch_size :: "nat option"
  de_max_attempts :: "nat option"

text \<open>\<^verbatim>\<open>audit.resolve_organization_ids_for_public_ids\<close> is \<^verbatim>\<open>SECURITY DEFINER\<close> and does not look at \<^verbatim>\<open>deleted_at\<close>.\<close>

definition de_organizations :: "DrainEnv \<Rightarrow> string \<rightharpoonup> nat" where
  "de_organizations env p = map_option og_id (select_first (\<lambda>o'. og_public_id o' = p) (de_organization_rows env))"

definition DEFAULT_AUDIT_OUTBOX_DRAIN_BATCH_SIZE :: nat where "DEFAULT_AUDIT_OUTBOX_DRAIN_BATCH_SIZE = 500"
definition DEFAULT_AUDIT_OUTBOX_DRAIN_MAX_ATTEMPTS :: nat where "DEFAULT_AUDIT_OUTBOX_DRAIN_MAX_ATTEMPTS = 5"

definition batch_size :: "DrainEnv \<Rightarrow> nat" where
  "batch_size env = (case de_batch_size env of None \<Rightarrow> DEFAULT_AUDIT_OUTBOX_DRAIN_BATCH_SIZE | Some n \<Rightarrow> n)"

definition max_attempts :: "DrainEnv \<Rightarrow> nat" where
  "max_attempts env = (case de_max_attempts env of None \<Rightarrow> DEFAULT_AUDIT_OUTBOX_DRAIN_MAX_ATTEMPTS | Some n \<Rightarrow> n)"

definition claimable_ids :: "DrainEnv \<Rightarrow> nat \<Rightarrow> AuditOutboxRow tbl \<Rightarrow> nat list" where
  "claimable_ids env limit t =
     take limit (map ao_id (sort_key ao_created_at (filter (\<lambda>r. ao_status r = OutboxPending \<and> \<not> de_locked env (ao_id r)) t)))"

definition claim_row :: "DrainEnv \<Rightarrow> AuditOutboxRow \<Rightarrow> AuditOutboxRow" where
  "claim_row env r = r\<lparr>ao_attempt_count := ao_attempt_count r + 1, ao_updated_at := de_now env\<rparr>"

text \<open>\<^verbatim>\<open>RETURNING\<close> gives the rows as the update leaves them.\<close>

definition claimPendingBatch :: "DrainEnv \<Rightarrow> nat \<Rightarrow> (AuditDb, AuditOutboxRow list) db" where
  "claimPendingBatch env limit =
     act_bind (sql_read (\<lambda>s. outbox_drain_policy (ad_gucs s))) (\<lambda>armed.
     if \<not> armed then act_throw (Plain ''audit_outbox_drain'')
     else sql (\<lambda>s. let ids = claimable_ids env limit (ad_outbox s); p = (\<lambda>r. ao_id r \<in> set ids) in
            Inr (de_arrange env (update_returning p (claim_row env) (ad_outbox s)),
                 s\<lparr>ad_outbox := update_where p (claim_row env) (ad_outbox s)\<rparr>)))"

definition outbox_update :: "(AuditOutboxRow \<Rightarrow> bool) \<Rightarrow> (AuditOutboxRow \<Rightarrow> AuditOutboxRow) \<Rightarrow> (AuditDb, unit) db" where
  "outbox_update p f = sql (\<lambda>s. Inr ((),
     s\<lparr>ad_outbox := update_where (\<lambda>r. outbox_drain_policy (ad_gucs s) \<and> p r) f (ad_outbox s)\<rparr>))"

definition processed_row :: "DrainEnv \<Rightarrow> AuditOutboxRow \<Rightarrow> AuditOutboxRow" where
  "processed_row env r = r\<lparr>ao_status := OutboxProcessed, ao_processed_at := Some (de_now env), ao_updated_at := de_now env\<rparr>"

definition outbox_markProcessed :: "DrainEnv \<Rightarrow> nat list \<Rightarrow> (AuditDb, unit) db" where
  "outbox_markProcessed env ids = (if ids = [] then act_return () else outbox_update (\<lambda>r. ao_id r \<in> set ids) (processed_row env))"

definition transient_row :: "DrainEnv \<Rightarrow> string \<Rightarrow> AuditOutboxRow \<Rightarrow> AuditOutboxRow" where
  "transient_row env error r = r\<lparr>ao_last_error := Some (take 4000 error), ao_updated_at := de_now env\<rparr>"

definition recordTransientFailure :: "DrainEnv \<Rightarrow> nat \<Rightarrow> string \<Rightarrow> (AuditDb, unit) db" where
  "recordTransientFailure env i error = outbox_update (\<lambda>r. ao_id r = i) (transient_row env error)"

definition failed_row :: "DrainEnv \<Rightarrow> string \<Rightarrow> AuditOutboxRow \<Rightarrow> AuditOutboxRow" where
  "failed_row env error r =
     r\<lparr>ao_status := OutboxFailed, ao_last_error := Some (take 4000 error), ao_updated_at := de_now env\<rparr>"

definition markPermanentlyFailed :: "DrainEnv \<Rightarrow> nat \<Rightarrow> string \<Rightarrow> (AuditDb, unit) db" where
  "markPermanentlyFailed env i error = outbox_update (\<lambda>r. ao_id r = i) (failed_row env error)"

section \<open>Resolving the public ids\<close>

record ResolutionMaps =
  userIdsByPublicId :: "string \<rightharpoonup> nat"
  organizationIdsByPublicId :: "string \<rightharpoonup> nat"
  apiKeyIdsByPublicId :: "string \<rightharpoonup> nat"

definition present_ids :: "(AuditOutboxRow \<Rightarrow> string option) \<Rightarrow> AuditOutboxRow list \<Rightarrow> string list" where
  "present_ids f rows = remdups (List.map_filter (\<lambda>r. truthy (f r)) rows)"

definition collectAuditOutboxPublicIds :: "AuditOutboxRow list \<Rightarrow> string list \<times> string list \<times> string list" where
  "collectAuditOutboxPublicIds rows =
     (remdups (present_ids ao_actor_user_public_id rows @ present_ids ao_target_user_public_id rows),
      present_ids ao_organization_public_id rows, present_ids ao_actor_api_key_public_id rows)"

text \<open>The two resolver functions take the ids as one text, joined and split again at the commas.\<close>

fun join_commas :: "string list \<Rightarrow> string" where
  "join_commas [] = []"
| "join_commas [s] = s"
| "join_commas (s # ss) = s @ CHR '','' # join_commas ss"

fun split_commas :: "string \<Rightarrow> string list" where
  "split_commas [] = [[]]"
| "split_commas (c # s) = (if c = CHR '','' then [] # split_commas s
     else case split_commas s of [] \<Rightarrow> [[c]] | w # ws \<Rightarrow> (c # w) # ws)"

definition string_to_array :: "string \<Rightarrow> string list" where
  "string_to_array s = (if s = [] then [] else split_commas s)"

definition lookup_among :: "(string \<rightharpoonup> nat) \<Rightarrow> string list \<Rightarrow> (string \<rightharpoonup> nat)" where
  "lookup_among directory ids p = (if p \<in> set ids then directory p else None)"

definition buildResolutionMaps :: "DrainEnv \<Rightarrow> AuditOutboxRow list \<Rightarrow> (AuditDb, ResolutionMaps) db" where
  "buildResolutionMaps env rows =
     act_bind (setLocalDatabaseConfig (g_admin_update (\<lambda>_. ''true''))) (\<lambda>_.
     sql_read (\<lambda>s. case collectAuditOutboxPublicIds rows of (users, organizations, keys) \<Rightarrow>
       \<lparr>userIdsByPublicId = (if is_true (g_admin (ad_gucs s)) then lookup_among (de_users env) users else Map.empty),
        organizationIdsByPublicId = lookup_among (de_organizations env) (string_to_array (join_commas organizations)),
        apiKeyIdsByPublicId = lookup_among (de_api_keys env) (string_to_array (join_commas keys))\<rparr>))"

definition resolve_id :: "(string \<rightharpoonup> nat) \<Rightarrow> string option \<Rightarrow> nat option" where
  "resolve_id m v = (case truthy v of None \<Rightarrow> None | Some p \<Rightarrow> m p)"

text \<open>\<^verbatim>\<open>created_at\<close> is the column's default, the start of the transaction.\<close>

definition resolveRowInserts :: "millis \<Rightarrow> ResolutionMaps \<Rightarrow> AuditOutboxRow \<Rightarrow> string + AuditLogRow" where
  "resolveRowInserts now maps r =
     (let actor = resolve_id (userIdsByPublicId maps) (ao_actor_user_public_id r);
          key = resolve_id (apiKeyIdsByPublicId maps) (ao_actor_api_key_public_id r);
          target = resolve_id (userIdsByPublicId maps) (ao_target_user_public_id r);
          organization = resolve_id (organizationIdsByPublicId maps) (ao_organization_public_id r)
      in if actor = None \<and> key = None then Inl ''actor public_id did not resolve (user/api-key may have been hard-deleted)''
         else if ao_organization_public_id r \<noteq> None \<and> organization = None
         then Inl (''organization_public_id '' @ the (ao_organization_public_id r) @ '' did not resolve'')
         else Inr \<lparr>al_actor_user_id = actor, al_actor_api_key_id = key, al_target_user_id = target,
                al_organization_id = organization, al_action = ao_action r, al_resource_type = ao_resource_type r,
                al_resource_id = ao_resource_id r, al_ip_address = ao_ip_address r, al_user_agent = ao_user_agent r,
                al_severity = ao_severity r, al_metadata = (if ao_metadata r = JNull then JObject [] else ao_metadata r),
                al_created_at = now\<rparr>)"

section \<open>One pass\<close>

text \<open>A nested transaction: a savepoint that is released, or rolled back with its settings when the callback throws.\<close>

definition savepoint :: "('s, 'a) db \<Rightarrow> ('s, 'a) db" where
  "savepoint m t = (if tx_aborted t then (Inl Sql_aborted, t) else
     case m t of
       (Inl e, t') \<Rightarrow> (Inl (if tx_aborted t' \<and> e = Sql_aborted then tx_error t' else e), t)
     | (Inr a, t') \<Rightarrow> if tx_aborted t' then (Inl (tx_error t'), t) else (Inr a, t'))"

definition insert_log :: "DrainEnv \<Rightarrow> nat \<Rightarrow> AuditLogRow \<Rightarrow> (AuditDb, unit) db" where
  "insert_log env i l = sql (\<lambda>s.
     case de_fault env i of
       Some e \<Rightarrow> Inl e
     | None \<Rightarrow>
         if \<not> log_row_ok l then Inl (Sql_check ''audit.logs'')
         else if \<not> log_insert_policy (de_organization_rows_at env i) (ad_gucs s) l then Inl (Sql_check ''audit_logs_tenant_isolation_insert'')
         else Inr ((), s\<lparr>ad_logs := ad_logs s @ [l]\<rparr>))"

datatype DrainOutboxRowOutcome = DrainSuccess nat | DrainTransient | DrainPermanent

definition drainOutboxRow :: "DrainEnv \<Rightarrow> ResolutionMaps \<Rightarrow> nat \<Rightarrow> AuditOutboxRow \<Rightarrow> (AuditDb, DrainOutboxRowOutcome) db" where
  "drainOutboxRow env maps maxAttempts r =
     (case resolveRowInserts (de_now env) maps r of
        Inl error \<Rightarrow> act_bind (markPermanentlyFailed env (ao_id r) error) (\<lambda>_. act_return DrainPermanent)
      | Inr l \<Rightarrow>
          act_catch
            (act_bind (savepoint
               (act_bind (setLocalDatabaseConfig (g_organization_update (\<lambda>_. case ao_organization_public_id r of None \<Rightarrow> [] | Some p \<Rightarrow> p)))
                (\<lambda>_. act_bind (setLocalDatabaseConfig
                       (g_system_audit_update (\<lambda>_. if ao_organization_public_id r = None then ''true'' else ''false'')))
                (\<lambda>_. insert_log env (ao_id r) l))))
             (\<lambda>_. act_return (DrainSuccess (ao_id r))))
            (\<lambda>e. if ao_attempt_count r + 1 \<ge> maxAttempts
                 then act_bind (markPermanentlyFailed env (ao_id r) (de_message env e)) (\<lambda>_. act_return DrainPermanent)
                 else act_bind (recordTransientFailure env (ao_id r) (de_message env e)) (\<lambda>_. act_return DrainTransient)))"

record AuditOutboxDrainResult =
  drained :: nat
  transientFailed :: nat
  permanentlyFailed :: nat

fun drain_rows :: "DrainEnv \<Rightarrow> ResolutionMaps \<Rightarrow> nat \<Rightarrow> AuditOutboxRow list \<Rightarrow> (AuditDb, DrainOutboxRowOutcome list) db" where
  "drain_rows env maps maxAttempts [] = act_return []"
| "drain_rows env maps maxAttempts (r # rs) =
     act_bind (drainOutboxRow env maps maxAttempts r) (\<lambda>o1.
     act_bind (drain_rows env maps maxAttempts rs) (\<lambda>os. act_return (o1 # os)))"

fun success_id :: "DrainOutboxRowOutcome \<Rightarrow> nat option" where
  "success_id (DrainSuccess i) = Some i"
| "success_id _ = None"

definition runAuditOutboxDrainJob :: "DrainEnv \<Rightarrow> (AuditDb, AuditOutboxDrainResult) db" where
  "runAuditOutboxDrainJob env =
     act_bind (claimPendingBatch env (batch_size env)) (\<lambda>rows.
     if rows = [] then act_return \<lparr>drained = 0, transientFailed = 0, permanentlyFailed = 0\<rparr>
     else act_bind (buildResolutionMaps env rows) (\<lambda>maps.
          act_bind (drain_rows env maps (max_attempts env) rows) (\<lambda>outcomes.
          let successIds = List.map_filter success_id outcomes in
          act_bind (outbox_markProcessed env successIds) (\<lambda>_.
          act_return \<lparr>drained = length successIds, transientFailed = length (filter ((=) DrainTransient) outcomes),
            permanentlyFailed = length (filter ((=) DrainPermanent) outcomes)\<rparr>))))"

text \<open>The worker: \<^verbatim>\<open>withMaintenanceDatabaseContext(AUDIT_OUTBOX_DRAIN)\<close> around the job.\<close>

definition auditOutboxDrainWorker :: "DrainEnv \<Rightarrow> AuditDb \<Rightarrow> (thrown + AuditOutboxDrainResult) \<times> AuditDb" where
  "auditOutboxDrainWorker env = with_settings (no_gucs\<lparr>g_drain := ''true''\<rparr>) (runAuditOutboxDrainJob env)"

section \<open>What a pass does to a row\<close>

text \<open>Joining and splitting loses an id that holds a comma and nothing else.\<close>

lemma split_commas_ne [simp]: "split_commas s \<noteq> []"
  by (induction s) (auto split: list.splits)

lemma split_commas_append: "split_commas (s @ CHR '','' # u) = split_commas s @ split_commas u"
proof (induction s)
  case (Cons c s)
  then show ?case by (cases "split_commas s") simp_all
qed simp

lemma split_commas_plain: "CHR '','' \<notin> set p \<Longrightarrow> split_commas p = [p]"
  by (induction p) auto

lemma split_commas_words: "p \<in> set (split_commas s) \<Longrightarrow> CHR '','' \<notin> set p"
proof (induction s arbitrary: p)
  case (Cons c s)
  then show ?case by (cases "split_commas s") (auto split: if_splits)
qed simp

lemma join_commas_member: "p \<in> set ids \<Longrightarrow> CHR '','' \<notin> set p \<Longrightarrow> p \<in> set (split_commas (join_commas ids))"
  by (induction ids rule: join_commas.induct) (auto simp: split_commas_append split_commas_plain)

lemma join_commas_Nil: "join_commas ids = [] \<Longrightarrow> p \<in> set ids \<Longrightarrow> p = []"
  by (induction ids rule: join_commas.induct) auto

lemma string_to_array_iff:
  assumes "p \<in> set ids" and "p \<noteq> []"
  shows "p \<in> set (string_to_array (join_commas ids)) \<longleftrightarrow> CHR '','' \<notin> set p"
  using assms join_commas_member [of p ids] split_commas_words [of p "join_commas ids"] join_commas_Nil [of ids p]
  by (auto simp: string_to_array_def)

definition without_commas :: "(string \<rightharpoonup> nat) \<Rightarrow> (string \<rightharpoonup> nat)" where
  "without_commas directory p = (if CHR '','' \<in> set p then None else directory p)"

definition directory_maps :: "DrainEnv \<Rightarrow> ResolutionMaps" where
  "directory_maps env = \<lparr>userIdsByPublicId = de_users env, organizationIdsByPublicId = without_commas (de_organizations env),
     apiKeyIdsByPublicId = without_commas (de_api_keys env)\<rparr>"

definition batch_maps :: "DrainEnv \<Rightarrow> AuditOutboxRow list \<Rightarrow> ResolutionMaps" where
  "batch_maps env rows = (case collectAuditOutboxPublicIds rows of (users, organizations, keys) \<Rightarrow>
     \<lparr>userIdsByPublicId = lookup_among (de_users env) users,
      organizationIdsByPublicId = lookup_among (de_organizations env) (string_to_array (join_commas organizations)),
      apiKeyIdsByPublicId = lookup_among (de_api_keys env) (string_to_array (join_commas keys))\<rparr>)"

lemma present_member: "r \<in> set rows \<Longrightarrow> truthy (f r) = Some p \<Longrightarrow> p \<in> set (present_ids f rows)"
  by (force simp: present_ids_def List.map_filter_def image_iff)

lemma truthy_Some: "truthy v = Some p \<Longrightarrow> v = Some p \<and> p \<noteq> []"
  by (auto simp: truthy_def split: if_splits)

lemma resolve_in_batch:
  assumes "r \<in> set rows"
  shows "resolveRowInserts now (batch_maps env rows) r = resolveRowInserts now (directory_maps env) r"
proof -
  have direct: "resolve_id (lookup_among d ids) v = resolve_id d v" if "\<And>p. truthy v = Some p \<Longrightarrow> p \<in> set ids" for d ids v
    using that by (auto simp: resolve_id_def lookup_among_def split: option.splits)
  have joined: "resolve_id (lookup_among d (string_to_array (join_commas ids))) v = resolve_id (without_commas d) v"
    if "\<And>p. truthy v = Some p \<Longrightarrow> p \<in> set ids" for d ids v
    using that string_to_array_iff truthy_Some
    by (fastforce simp: resolve_id_def lookup_among_def without_commas_def split: option.splits)
  show ?thesis
    unfolding resolveRowInserts_def batch_maps_def directory_maps_def collectAuditOutboxPublicIds_def
    by (simp add: direct joined present_member [OF assms])
qed

text \<open>The settings a row is inserted under, the failure of its insert, its entry and the row a pass leaves.\<close>

definition row_gucs :: "AuditOutboxRow \<Rightarrow> AuditGucs \<Rightarrow> AuditGucs" where
  "row_gucs r g = g\<lparr>g_organization := (case ao_organization_public_id r of None \<Rightarrow> [] | Some p \<Rightarrow> p),
     g_system_audit := (if ao_organization_public_id r = None then ''true'' else ''false'')\<rparr>"

definition insert_failure :: "DrainEnv \<Rightarrow> AuditOutboxRow \<Rightarrow> AuditLogRow \<Rightarrow> thrown option" where
  "insert_failure env r l = (case de_fault env (ao_id r) of
       Some e \<Rightarrow> Some e
     | None \<Rightarrow> if \<not> log_row_ok l then Some (Sql_check ''audit.logs'')
         else if \<not> log_insert_policy (de_organization_rows_at env (ao_id r)) (row_gucs r no_gucs) l
         then Some (Sql_check ''audit_logs_tenant_isolation_insert'') else None)"

definition row_result :: "DrainEnv \<Rightarrow> AuditOutboxRow \<Rightarrow> (bool \<times> string) + AuditLogRow" where
  "row_result env r = (case resolveRowInserts (de_now env) (directory_maps env) r of
       Inl error \<Rightarrow> Inl (True, error)
     | Inr l \<Rightarrow> (case insert_failure env r l of
         None \<Rightarrow> Inr l
       | Some e \<Rightarrow> Inl (ao_attempt_count r + 1 \<ge> max_attempts env, de_message env e)))"

definition row_log :: "DrainEnv \<Rightarrow> AuditOutboxRow \<Rightarrow> AuditLogRow option" where
  "row_log env r = (case row_result env r of Inl _ \<Rightarrow> None | Inr l \<Rightarrow> Some l)"

definition row_mark :: "DrainEnv \<Rightarrow> AuditOutboxRow \<Rightarrow> AuditOutboxRow \<Rightarrow> AuditOutboxRow" where
  "row_mark env r = (case row_result env r of
     Inl (True, error) \<Rightarrow> failed_row env error | Inl (False, error) \<Rightarrow> transient_row env error | Inr _ \<Rightarrow> id)"

definition row_outcome :: "DrainEnv \<Rightarrow> AuditOutboxRow \<Rightarrow> DrainOutboxRowOutcome" where
  "row_outcome env r = (case row_result env r of
     Inl (True, _) \<Rightarrow> DrainPermanent | Inl (False, _) \<Rightarrow> DrainTransient | Inr _ \<Rightarrow> DrainSuccess (ao_id r))"

definition settle_row :: "DrainEnv \<Rightarrow> AuditOutboxRow \<Rightarrow> AuditOutboxRow" where
  "settle_row env r = (case row_result env r of Inr _ \<Rightarrow> processed_row env r | Inl _ \<Rightarrow> row_mark env r r)"

lemma mark_id [simp]:
  "ao_id (row_mark env r x) = ao_id x" "ao_id (claim_row env x) = ao_id x" "ao_id (processed_row env x) = ao_id x"
  "ao_id (settle_row env x) = ao_id x"
  by (auto simp: row_mark_def settle_row_def failed_row_def transient_row_def claim_row_def processed_row_def
      split: sum.splits bool.splits)

text \<open>The policy reads two of the settings, and a pass sets both for each row.\<close>

lemma policy_row_gucs: "log_insert_policy v (row_gucs r g) l = log_insert_policy v (row_gucs r no_gucs) l"
  by (simp add: log_insert_policy_def organizations_tenant_isolation_def row_gucs_def)

definition live_drain :: "AuditDb tx \<Rightarrow> bool" where
  "live_drain t \<longleftrightarrow> \<not> tx_aborted t \<and> outbox_drain_policy (ad_gucs (tx_state t))"

definition drain_to :: "(AuditOutboxRow tbl \<Rightarrow> AuditOutboxRow tbl) \<Rightarrow> AuditLogRow list \<Rightarrow> AuditDb tx \<Rightarrow> AuditDb tx \<Rightarrow> bool" where
  "drain_to f ls t t' \<longleftrightarrow> live_drain t' \<and> ad_outbox (tx_state t') = f (ad_outbox (tx_state t)) \<and>
     ad_logs (tx_state t') = ad_logs (tx_state t) @ ls"

lemma outbox_update_live:
  assumes "live_drain t"
  shows "\<exists>t'. outbox_update p f t = (Inr (), t') \<and> drain_to (update_where p f) [] t t'"
  using assms by (simp add: outbox_update_def live_drain_def drain_to_def tx_simps)

definition row_insert :: "DrainEnv \<Rightarrow> AuditOutboxRow \<Rightarrow> AuditLogRow \<Rightarrow> (AuditDb, unit) db" where
  "row_insert env r l = act_bind (setLocalDatabaseConfig (g_organization_update (\<lambda>_. case ao_organization_public_id r of None \<Rightarrow> [] | Some p \<Rightarrow> p)))
     (\<lambda>_. act_bind (setLocalDatabaseConfig (g_system_audit_update (\<lambda>_. if ao_organization_public_id r = None then ''true'' else ''false'')))
     (\<lambda>_. insert_log env (ao_id r) l))"

lemma row_insert_run:
  assumes "live_drain t"
  shows "case insert_failure env r l of
      None \<Rightarrow> \<exists>t'. savepoint (row_insert env r l) t = (Inr (), t') \<and> drain_to id [l] t t'
    | Some e \<Rightarrow> savepoint (row_insert env r l) t = (Inl e, t)"
proof -
  let ?s = "tx_state t\<lparr>ad_gucs := row_gucs r (ad_gucs (tx_state t))\<rparr>"
  have run: "row_insert env r l t = insert_log env (ao_id r) l (t\<lparr>tx_state := ?s\<rparr>)"
    using assms by (simp add: row_insert_def setLocalDatabaseConfig_def live_drain_def tx_simps row_gucs_def act_bind_def)
  show ?thesis
  proof (cases "insert_failure env r l")
    case None
    then have "insert_log env (ao_id r) l (t\<lparr>tx_state := ?s\<rparr>) = (Inr (), t\<lparr>tx_state := ?s\<lparr>ad_logs := ad_logs ?s @ [l]\<rparr>\<rparr>)"
      using assms policy_row_gucs [of _ r "ad_gucs (tx_state t)" l]
      by (auto simp: insert_failure_def insert_log_def live_drain_def sql_def split: option.splits if_splits)
    with None run assms show ?thesis
      by (auto simp: savepoint_def live_drain_def drain_to_def row_gucs_def outbox_drain_policy_def)
  next
    case (Some e)
    then have "insert_log env (ao_id r) l (t\<lparr>tx_state := ?s\<rparr>) = (Inl e, t\<lparr>tx_state := ?s, tx_aborted := True, tx_error := e\<rparr>)"
      using assms policy_row_gucs [of _ r "ad_gucs (tx_state t)" l]
      by (auto simp: insert_failure_def insert_log_def live_drain_def sql_def split: option.splits if_splits)
    with Some run assms show ?thesis
      by (auto simp: savepoint_def live_drain_def)
  qed
qed

lemma drain_to_trans: "drain_to f ls t t' \<Longrightarrow> drain_to g ms t' t'' \<Longrightarrow> drain_to (\<lambda>x. g (f x)) (ls @ ms) t t''"
  by (simp add: drain_to_def)

definition mark_all :: "DrainEnv \<Rightarrow> AuditOutboxRow list \<Rightarrow> AuditOutboxRow tbl \<Rightarrow> AuditOutboxRow tbl" where
  "mark_all env rs = fold (\<lambda>r. update_where (\<lambda>x. ao_id x = ao_id r) (row_mark env r)) rs"

lemma drainOutboxRow_run:
  assumes "live_drain t" and "resolveRowInserts (de_now env) maps r = resolveRowInserts (de_now env) (directory_maps env) r"
  shows "\<exists>t'. drainOutboxRow env maps (max_attempts env) r t = (Inr (row_outcome env r), t') \<and>
    drain_to (mark_all env [r]) (List.map_filter (row_log env) [r]) t t'"
proof (cases "resolveRowInserts (de_now env) (directory_maps env) r")
  case (Inl error)
  obtain t' where "markPermanentlyFailed env (ao_id r) error t = (Inr (), t')"
    and "drain_to (update_where (\<lambda>x. ao_id x = ao_id r) (failed_row env error)) [] t t'"
    using outbox_update_live [OF assms(1)] unfolding markPermanentlyFailed_def by blast
  with Inl assms(2) show ?thesis
    by (simp add: drainOutboxRow_def row_outcome_def row_result_def row_log_def row_mark_def mark_all_def
        List.map_filter_def act_bind_def act_return_def)
next
  case (Inr l)
  show ?thesis
  proof (cases "insert_failure env r l")
    case None
    with row_insert_run [OF assms(1), of env r l] obtain t'
      where "savepoint (row_insert env r l) t = (Inr (), t')" "drain_to id [l] t t'" by auto
    moreover have "update_where p id x = x" for p and x :: "AuditOutboxRow tbl"
      by (induction x) simp_all
    ultimately show ?thesis
      using Inr None assms(2)
      by (simp add: drainOutboxRow_def row_insert_def [symmetric] row_outcome_def row_result_def row_log_def row_mark_def
          mark_all_def List.map_filter_def act_bind_def act_catch_def act_return_def drain_to_def)
  next
    case (Some e)
    let ?f = "if ao_attempt_count r + 1 \<ge> max_attempts env then failed_row env (de_message env e)
      else transient_row env (de_message env e)"
    obtain t' where "outbox_update (\<lambda>x. ao_id x = ao_id r) ?f t = (Inr (), t')"
      and "drain_to (update_where (\<lambda>x. ao_id x = ao_id r) ?f) [] t t'"
      using outbox_update_live [OF assms(1)] by blast
    moreover have "savepoint (row_insert env r l) t = (Inl e, t)"
      using row_insert_run [OF assms(1), of env r l] Some by simp
    ultimately show ?thesis
      using Inr Some assms(2)
      by (cases "ao_attempt_count r + 1 \<ge> max_attempts env")
        (simp_all add: drainOutboxRow_def row_insert_def [symmetric] row_outcome_def row_result_def row_log_def row_mark_def
          mark_all_def List.map_filter_def act_bind_def act_catch_def act_return_def markPermanentlyFailed_def recordTransientFailure_def)
  qed
qed

lemma drain_rows_run:
  assumes "live_drain t"
    and "\<And>r. r \<in> set rs \<Longrightarrow> resolveRowInserts (de_now env) maps r = resolveRowInserts (de_now env) (directory_maps env) r"
  shows "\<exists>t'. drain_rows env maps (max_attempts env) rs t = (Inr (map (row_outcome env) rs), t') \<and>
    drain_to (mark_all env rs) (List.map_filter (row_log env) rs) t t'"
  using assms
proof (induction rs arbitrary: t)
  case Nil
  then show ?case by (simp add: act_return_def drain_to_def mark_all_def List.map_filter_def)
next
  case (Cons r rs)
  obtain t1 where r: "drainOutboxRow env maps (max_attempts env) r t = (Inr (row_outcome env r), t1)"
      "drain_to (mark_all env [r]) (List.map_filter (row_log env) [r]) t t1"
    using drainOutboxRow_run Cons.prems by (metis list.set_intros(1))
  then have "live_drain t1" by (simp add: drain_to_def)
  with Cons obtain t2 where rs: "drain_rows env maps (max_attempts env) rs t1 = (Inr (map (row_outcome env) rs), t2)"
      "drain_to (mark_all env rs) (List.map_filter (row_log env) rs) t1 t2"
    by fastforce
  have "List.map_filter (row_log env) (r # rs) = List.map_filter (row_log env) [r] @ List.map_filter (row_log env) rs"
    by (simp add: List.map_filter_def)
  with r rs drain_to_trans [OF r(2) rs(2)] show ?case
    by (simp add: act_bind_def act_return_def mark_all_def)
qed

lemma mark_all_eq:
  assumes "distinct (map ao_id rs)"
  shows "mark_all env rs t = map (\<lambda>x. case select_first (\<lambda>r. ao_id r = ao_id x) rs of None \<Rightarrow> x | Some r \<Rightarrow> row_mark env r x) t"
  using assms
proof (induction rs arbitrary: t)
  case (Cons r rs)
  then have "select_first (\<lambda>r'. ao_id r' = ao_id r) rs = None"
    by (auto simp: select_first_None_iff image_iff)
  with Cons show ?case by (auto simp: mark_all_def update_where_def)
qed (simp add: mark_all_def)

definition pass_row :: "DrainEnv \<Rightarrow> nat set \<Rightarrow> AuditOutboxRow \<Rightarrow> AuditOutboxRow" where
  "pass_row env ids r = (if ao_id r \<in> ids then settle_row env (claim_row env r) else r)"

definition claimed_rows :: "DrainEnv \<Rightarrow> nat set \<Rightarrow> AuditOutboxRow tbl \<Rightarrow> AuditOutboxRow list" where
  "claimed_rows env ids t = map (claim_row env) (filter (\<lambda>r. ao_id r \<in> ids) t)"

lemma pass_row_id [simp]: "ao_id (pass_row env ids r) = ao_id r"
  by (simp add: pass_row_def)

lemma success_id_outcome: "success_id (row_outcome env r) = map_option (\<lambda>_. ao_id r) (row_log env r)"
  by (auto simp: row_outcome_def row_log_def split: sum.splits bool.splits)

lemma success_ids:
  "i \<in> set (List.map_filter success_id (map (row_outcome env) rs)) \<longleftrightarrow> (\<exists>r \<in> set rs. ao_id r = i \<and> row_log env r \<noteq> None)"
  by (induction rs) (auto simp: List.map_filter_def success_id_outcome)

lemma length_success_ids: "length (List.map_filter success_id (map (row_outcome env) rs)) = length (List.map_filter (row_log env) rs)"
  by (induction rs) (auto simp: List.map_filter_def success_id_outcome)

lemma settled_table:
  assumes d: "distinct (map ao_id t)" and rows: "mset rows = mset (claimed_rows env ids t)"
  shows "update_where (\<lambda>x. ao_id x \<in> set (List.map_filter success_id (map (row_outcome env) rows))) (processed_row env)
      (mark_all env rows (update_where (\<lambda>x. ao_id x \<in> ids) (claim_row env) t)) = map (pass_row env ids) t"
proof -
  have set_rows: "set rows = claim_row env ` {r \<in> set t. ao_id r \<in> ids}"
    using mset_eq_setD [OF rows] by (simp add: claimed_rows_def)
  have "mset (map ao_id rows) = mset (map ao_id (filter (\<lambda>r. ao_id r \<in> ids) t))"
    using rows by (simp add: claimed_rows_def image_mset.compositionality o_def)
  then have dr: "distinct (map ao_id rows)"
    using d by (metis distinct_map_filter mset_eq_imp_distinct_iff)
  have row: "(let y = (case select_first (\<lambda>r. ao_id r = ao_id x) rows of None \<Rightarrow> (if ao_id x \<in> ids then claim_row env x else x)
        | Some r \<Rightarrow> row_mark env r (if ao_id x \<in> ids then claim_row env x else x))
      in if \<exists>r \<in> set rows. ao_id r = ao_id x \<and> row_log env r \<noteq> None then processed_row env y else y) = pass_row env ids x"
    if x: "x \<in> set t" for x
  proof (cases "ao_id x \<in> ids")
    case True
    have same: "r = claim_row env x" if "r \<in> set rows" "ao_id r = ao_id x" for r
      using that x d set_rows by (auto simp: distinct_map inj_on_def)
    have mem: "claim_row env x \<in> set rows" using True x set_rows by auto
    then have "select_first (\<lambda>r. ao_id r = ao_id x) rows = Some (claim_row env x)"
      using select_first_key_only [OF dr mem] by simp
    moreover have "(\<exists>r \<in> set rows. ao_id r = ao_id x \<and> row_log env r \<noteq> None) \<longleftrightarrow> row_log env (claim_row env x) \<noteq> None"
      using same mem by (metis mark_id(2))
    ultimately show ?thesis
      using True by (auto simp: pass_row_def settle_row_def row_log_def row_mark_def split: sum.splits)
  next
    case False
    then have "\<not> ao_id r = ao_id x" if "r \<in> set rows" for r
      using that set_rows by auto
    then have "select_first (\<lambda>r. ao_id r = ao_id x) rows = None" "\<not> (\<exists>r \<in> set rows. ao_id r = ao_id x \<and> row_log env r \<noteq> None)"
      by (auto simp: select_first_None_iff)
    with False show ?thesis by (simp only: pass_row_def Let_def option.case if_False)
  qed
  show ?thesis
    unfolding mark_all_eq [OF dr] success_ids update_where_def map_map
    by (rule map_cong [OF refl], drule row) (auto simp: Let_def split: option.splits if_splits)
qed

lemma claimPendingBatch_run:
  assumes "live_drain t"
    and "ids = set (claimable_ids env n (ad_outbox (tx_state t)))"
  shows "\<exists>t'. claimPendingBatch env n t = (Inr (de_arrange env (claimed_rows env ids (ad_outbox (tx_state t)))), t') \<and>
    drain_to (update_where (\<lambda>x. ao_id x \<in> ids) (claim_row env)) [] t t'"
  using assms
  by (simp add: claimPendingBatch_def live_drain_def drain_to_def tx_simps act_bind_def Let_def claimed_rows_def update_returning_def)

lemma buildResolutionMaps_run:
  assumes "live_drain t"
  shows "\<exists>t'. buildResolutionMaps env rows t = (Inr (batch_maps env rows), t') \<and> drain_to id [] t t'"
  using assms
  by (auto simp: buildResolutionMaps_def setLocalDatabaseConfig_def live_drain_def drain_to_def tx_simps act_bind_def
      batch_maps_def is_true_def outbox_drain_policy_def split: prod.splits)

lemma job_run:
  assumes t: "live_drain t" and d: "distinct (map ao_id (ad_outbox (tx_state t)))" and arr: "\<And>xs. mset (de_arrange env xs) = mset xs"
    and ids: "ids = set (claimable_ids env (batch_size env) (ad_outbox (tx_state t)))"
  shows "\<exists>res t' ls. runAuditOutboxDrainJob env t = (Inr res, t') \<and> drain_to (map (pass_row env ids)) ls t t' \<and>
    mset ls = mset (List.map_filter (row_log env) (claimed_rows env ids (ad_outbox (tx_state t)))) \<and> drained res = length ls"
proof -
  let ?o = "ad_outbox (tx_state t)"
  define rows where "rows = de_arrange env (claimed_rows env ids ?o)"
  have mrows: "mset rows = mset (claimed_rows env ids ?o)" by (simp add: rows_def arr)
  obtain t1 where t1: "claimPendingBatch env (batch_size env) t = (Inr rows, t1)"
      "drain_to (update_where (\<lambda>x. ao_id x \<in> ids) (claim_row env)) [] t t1"
    using claimPendingBatch_run [OF t ids] unfolding rows_def by blast
  show ?thesis
  proof (cases "rows = []")
    case True
    with mrows have none: "claimed_rows env ids ?o = []" by simp
    then have "update_where (\<lambda>x. ao_id x \<in> ids) (claim_row env) ?o = map (pass_row env ids) ?o"
      by (auto simp: claimed_rows_def filter_empty_conv update_where_def pass_row_def)
    with t1 True none show ?thesis
      by (intro exI [of _ "\<lparr>drained = 0, transientFailed = 0, permanentlyFailed = 0\<rparr>"] exI [of _ t1] exI [of _ "[]"])
        (simp add: runAuditOutboxDrainJob_def act_bind_def act_return_def drain_to_def List.map_filter_def)
  next
    case False
    obtain t2 where t2: "buildResolutionMaps env rows t1 = (Inr (batch_maps env rows), t2)" "drain_to id [] t1 t2"
      using buildResolutionMaps_run t1(2) unfolding drain_to_def by blast
    obtain t3 where t3: "drain_rows env (batch_maps env rows) (max_attempts env) rows t2 = (Inr (map (row_outcome env) rows), t3)"
        "drain_to (mark_all env rows) (List.map_filter (row_log env) rows) t2 t3"
      using drain_rows_run [of t2 rows env "batch_maps env rows"] t2(2) resolve_in_batch unfolding drain_to_def by blast
    let ?ids = "List.map_filter success_id (map (row_outcome env) rows)"
    obtain t4 where t4: "outbox_markProcessed env ?ids t3 = (Inr (), t4)"
        "drain_to (update_where (\<lambda>x. ao_id x \<in> set ?ids) (processed_row env)) [] t3 t4"
      using outbox_update_live [of t3 "\<lambda>x. ao_id x \<in> set ?ids" "processed_row env"] t3(2)
      by (cases "?ids = []") (auto simp: outbox_markProcessed_def act_return_def drain_to_def update_where_def)
    have "drain_to (map (pass_row env ids)) (List.map_filter (row_log env) rows) t t4"
      using t1(2) t2(2) t3(2) t4(2) settled_table [OF d mrows] by (simp add: drain_to_def)
    moreover have "mset (List.map_filter (row_log env) rows) = mset (List.map_filter (row_log env) (claimed_rows env ids ?o))"
      using mrows by (simp add: List.map_filter_def mset_map mset_filter)
    ultimately show ?thesis
      using t1(1) t2(1) t3(1) t4(1) False
      by (intro exI [of _ "\<lparr>drained = length ?ids, transientFailed = length (filter ((=) DrainTransient) (map (row_outcome env) rows)),
            permanentlyFailed = length (filter ((=) DrainPermanent) (map (row_outcome env) rows))\<rparr>"] exI [of _ t4]
            exI [of _ "List.map_filter (row_log env) rows"])
        (simp add: runAuditOutboxDrainJob_def act_bind_def act_return_def Let_def length_success_ids)
  qed
qed

text \<open>A pass always returns: no failure of an insert ends it, and what it leaves is decided row by row.\<close>

lemma with_settings_live:
  assumes "\<And>t. live_drain t \<Longrightarrow> tx_state t = s\<lparr>ad_gucs := no_gucs\<lparr>g_drain := ''true''\<rparr>\<rparr> \<Longrightarrow>
    \<exists>a t' ls. m t = (Inr a, t') \<and> drain_to f ls t t' \<and> P a ls"
  shows "\<exists>a ls. with_settings (no_gucs\<lparr>g_drain := ''true''\<rparr>) m s =
    (Inr a, \<lparr>ad_outbox = f (ad_outbox s), ad_logs = ad_logs s @ ls, ad_gucs = no_gucs\<rparr>) \<and> P a ls"
proof -
  let ?t = "(tx_begin s)\<lparr>tx_state := s\<lparr>ad_gucs := no_gucs\<lparr>g_drain := ''true''\<rparr>\<rparr>\<rparr>"
  have "live_drain ?t" by (simp add: live_drain_def outbox_drain_policy_def is_true_def)
  from assms [OF this] obtain a t' ls where run: "m ?t = (Inr a, t')" "drain_to f ls ?t t'" "P a ls" by auto
  then show ?thesis
    by (intro exI [of _ a] exI [of _ ls])
      (simp add: with_settings_def run_transaction_def setLocalDatabaseConfig_def act_bind_def tx_simps drain_to_def live_drain_def)
qed

lemma drain_worker_run:
  assumes d: "distinct (map ao_id (ad_outbox s))" and arr: "\<And>xs. mset (de_arrange env xs) = mset xs"
    and ids: "ids = set (claimable_ids env (batch_size env) (ad_outbox s))"
  shows "\<exists>res ls. auditOutboxDrainWorker env s =
      (Inr res, \<lparr>ad_outbox = map (pass_row env ids) (ad_outbox s), ad_logs = ad_logs s @ ls, ad_gucs = no_gucs\<rparr>) \<and>
    mset ls = mset (List.map_filter (row_log env) (claimed_rows env ids (ad_outbox s))) \<and> drained res = length ls"
  unfolding auditOutboxDrainWorker_def
proof (rule with_settings_live)
  fix t assume t: "live_drain t" "tx_state t = s\<lparr>ad_gucs := no_gucs\<lparr>g_drain := ''true''\<rparr>\<rparr>"
  then have o: "ad_outbox (tx_state t) = ad_outbox s" by simp
  show "\<exists>a t' ls. runAuditOutboxDrainJob env t = (Inr a, t') \<and> drain_to (map (pass_row env ids)) ls t t' \<and>
      (mset ls = mset (List.map_filter (row_log env) (claimed_rows env ids (ad_outbox s))) \<and> drained a = length ls)"
    using job_run [of t env ids] t(1) d arr ids unfolding o by blast
qed

lemma claimable_pending:
  assumes "distinct (map ao_id t)" and "r \<in> set t" and "ao_id r \<in> set (claimable_ids env n t)"
  shows "ao_status r = OutboxPending"
proof -
  from assms(3) obtain x where "x \<in> set t" "ao_id x = ao_id r" "ao_status x = OutboxPending"
    unfolding claimable_ids_def by (auto dest!: in_set_takeD)
  with assms(1,2) show ?thesis by (auto simp: distinct_map inj_on_def)
qed

lemma claim_row_simps [simp]: "ao_status (claim_row env r) = ao_status r" "ao_attempt_count (claim_row env r) = ao_attempt_count r + 1"
  by (simp_all add: claim_row_def)

lemma settle_processed_iff:
  "ao_status c = OutboxPending \<Longrightarrow> ao_status (settle_row env c) = OutboxProcessed \<longleftrightarrow> row_log env c \<noteq> None"
  by (auto simp: settle_row_def row_log_def row_mark_def processed_row_def failed_row_def transient_row_def split: sum.splits bool.splits)

section \<open>The ledger\<close>

text \<open>An entry records a row: the organization of the row, its actor and target where they resolve (one actor at least), and the
  rest as it was staged.\<close>

definition may_resolve :: "(string \<rightharpoonup> nat) \<Rightarrow> string option \<Rightarrow> nat option \<Rightarrow> bool" where
  "may_resolve directory v i \<longleftrightarrow> i = None \<or> i = Option.bind v directory"

definition records_row ::
  "(string \<rightharpoonup> nat) \<Rightarrow> (string \<rightharpoonup> nat) \<Rightarrow> (string \<rightharpoonup> nat) \<Rightarrow> AuditLogRow \<Rightarrow> AuditOutboxRow \<Rightarrow> bool" where
  "records_row users organizations keys l r \<longleftrightarrow>
     al_organization_id l = Option.bind (ao_organization_public_id r) organizations \<and>
     (al_organization_id l = None \<longleftrightarrow> ao_organization_public_id r = None) \<and>
     may_resolve users (ao_actor_user_public_id r) (al_actor_user_id l) \<and>
     may_resolve keys (ao_actor_api_key_public_id r) (al_actor_api_key_id l) \<and>
     (al_actor_user_id l \<noteq> None \<or> al_actor_api_key_id l \<noteq> None) \<and>
     may_resolve users (ao_target_user_public_id r) (al_target_user_id l) \<and>
     al_action l = ao_action r \<and> al_resource_type l = ao_resource_type r \<and> al_resource_id l = ao_resource_id r \<and>
     al_ip_address l = ao_ip_address r \<and> al_user_agent l = ao_user_agent r \<and> al_severity l = ao_severity r \<and>
     al_metadata l = (if ao_metadata r = JNull then JObject [] else ao_metadata r)"

text \<open>The directories of a pass are part of \<open>users\<close>, \<open>organizations\<close> and \<open>keys\<close>: a public id is never given to another row.\<close>

definition sees :: "(string \<rightharpoonup> nat) \<Rightarrow> (string \<rightharpoonup> nat) \<Rightarrow> (string \<rightharpoonup> nat) \<Rightarrow> nat \<Rightarrow> DrainEnv \<Rightarrow> bool" where
  "sees users organizations keys cap env \<longleftrightarrow> max_attempts env = cap \<and> de_users env \<subseteq>\<^sub>m users \<and> de_organizations env \<subseteq>\<^sub>m organizations \<and>
     de_api_keys env \<subseteq>\<^sub>m keys \<and> (\<forall>xs. mset (de_arrange env xs) = mset xs)"

text \<open>Events and passes in any order.  Passes that overlap hold different rows (\<^verbatim>\<open>SKIP LOCKED\<close>), so they are the same as one
  after the other in the order they commit, each with the rows of the others locked; a pass that dies leaves nothing.\<close>

inductive audit_system :: "(string \<rightharpoonup> nat) \<Rightarrow> (string \<rightharpoonup> nat) \<Rightarrow> (string \<rightharpoonup> nat) \<Rightarrow> nat \<Rightarrow> AuditDb \<Rightarrow> bool"
  for users organizations keys cap where
  no_events: "audit_system users organizations keys cap \<lparr>ad_outbox = [], ad_logs = [], ad_gucs = no_gucs\<rparr>"
| event: "audit_system users organizations keys cap s \<Longrightarrow> i \<notin> ao_id ` set (ad_outbox s) \<Longrightarrow>
    audit_system users organizations keys cap (recordAuditEvent now i input s)"
| pass: "audit_system users organizations keys cap s \<Longrightarrow> sees users organizations keys cap env \<Longrightarrow>
    audit_system users organizations keys cap (snd (auditOutboxDrainWorker env s))"

lemma with_settings_insert:
  "snd (with_settings g (insertAuditOutboxRow now i input) s) = s\<lparr>ad_gucs := no_gucs\<rparr> \<or>
   (\<exists>r. snd (with_settings g (insertAuditOutboxRow now i input) s) = s\<lparr>ad_outbox := ad_outbox s @ [r], ad_gucs := no_gucs\<rparr> \<and>
      ao_id r = i \<and> ao_status r = OutboxPending \<and> ao_attempt_count r = 0 \<and> outbox_row_ok r)"
  by (auto simp: with_settings_def run_transaction_def setLocalDatabaseConfig_def insertAuditOutboxRow_def act_bind_def sql_def Let_def)

lemma record_event_cases:
  assumes "s' = recordAuditEvent now i input s"
  obtains "ad_outbox s' = ad_outbox s" "ad_logs s' = ad_logs s"
  | r where "ad_outbox s' = ad_outbox s @ [r]" "ad_logs s' = ad_logs s" "ao_id r = i" "ao_status r = OutboxPending"
      "ao_attempt_count r = 0" "outbox_row_ok r"
proof -
  have "(ad_outbox s' = ad_outbox s \<and> ad_logs s' = ad_logs s) \<or>
    (\<exists>r. ad_outbox s' = ad_outbox s @ [r] \<and> ad_logs s' = ad_logs s \<and> ao_id r = i \<and> ao_status r = OutboxPending \<and>
      ao_attempt_count r = 0 \<and> outbox_row_ok r)"
  proof (cases "truthy (ai_actorUserPublicId input) = None \<and> truthy (ai_actorApiKeyPublicId input) = None")
    case False
    define g where "g = (case truthy (ai_organization_public_id input) of
      Some p \<Rightarrow> no_gucs\<lparr>g_organization := p\<rparr> | None \<Rightarrow> no_gucs\<lparr>g_system_audit := ''true''\<rparr>)"
    with False assms have s': "s' = snd (with_settings g (insertAuditOutboxRow now i input) s)"
      by (auto simp: recordAuditEvent_def AuditService_record_def split: option.splits)
    show ?thesis using with_settings_insert [of g now i input s] unfolding s' [symmetric] by auto
  qed (simp add: assms recordAuditEvent_def AuditService_record_def)
  with that show thesis by blast
qed

lemma resolve_id_Some: "resolve_id m v = Some x \<Longrightarrow> \<exists>p. v = Some p \<and> m p = Some x"
  by (auto simp: resolve_id_def dest: truthy_Some split: option.splits)

lemma resolve_id_may: "m \<subseteq>\<^sub>m directory \<Longrightarrow> may_resolve directory v (resolve_id m v)"
proof (cases "resolve_id m v")
  case (Some x)
  assume le: "m \<subseteq>\<^sub>m directory"
  from Some obtain p where "v = Some p" "m p = Some x" by (auto dest: resolve_id_Some)
  moreover from this le have "directory p = Some x" unfolding map_le_def by (metis domI)
  ultimately show ?thesis using Some by (simp add: may_resolve_def)
qed (simp add: may_resolve_def)

lemma without_commas_le: "without_commas m \<subseteq>\<^sub>m m"
  by (auto simp: map_le_def without_commas_def split: if_splits)

lemma entry_records:
  assumes env: "sees users organizations keys cap env" and l: "row_log env c = Some l"
  shows "records_row users organizations keys l (processed_row env c)"
proof -
  have res: "resolveRowInserts (de_now env) (directory_maps env) c = Inr l"
    using l by (auto simp: row_log_def row_result_def split: sum.splits option.splits)
  have le: "de_users env \<subseteq>\<^sub>m users" "without_commas (de_organizations env) \<subseteq>\<^sub>m organizations" "without_commas (de_api_keys env) \<subseteq>\<^sub>m keys"
    using env without_commas_le map_le_trans unfolding sees_def by blast+
  let ?o = "resolve_id (without_commas (de_organizations env)) (ao_organization_public_id c)"
  have "ao_organization_public_id c = None \<or> ?o \<noteq> None" and some: "al_actor_user_id l \<noteq> None \<or> al_actor_api_key_id l \<noteq> None"
    and l: "l = \<lparr>al_actor_user_id = resolve_id (de_users env) (ao_actor_user_public_id c),
        al_actor_api_key_id = resolve_id (without_commas (de_api_keys env)) (ao_actor_api_key_public_id c),
        al_target_user_id = resolve_id (de_users env) (ao_target_user_public_id c), al_organization_id = ?o,
        al_action = ao_action c, al_resource_type = ao_resource_type c, al_resource_id = ao_resource_id c,
        al_ip_address = ao_ip_address c, al_user_agent = ao_user_agent c, al_severity = ao_severity c,
        al_metadata = (if ao_metadata c = JNull then JObject [] else ao_metadata c), al_created_at = de_now env\<rparr>"
    using res by (auto simp: resolveRowInserts_def directory_maps_def Let_def split: if_splits)
  then have "?o = Option.bind (ao_organization_public_id c) organizations" "?o = None \<longleftrightarrow> ao_organization_public_id c = None"
    using resolve_id_may [OF le(2), of "ao_organization_public_id c"]
    by (auto simp: may_resolve_def resolve_id_def truthy_def)
  with l some show ?thesis
    using resolve_id_may [OF le(1)] resolve_id_may [OF le(3)] by (simp add: records_row_def processed_row_def)
qed

lemma pass_row_cases [simp]:
  "ao_id r \<in> ids \<Longrightarrow> pass_row env ids r = settle_row env (claim_row env r)"
  "ao_id r \<notin> ids \<Longrightarrow> pass_row env ids r = r"
  by (simp_all add: pass_row_def)

lemma ledger_pass:
  assumes env: "sees users organizations keys cap env"
    and pending: "\<And>r. r \<in> set t \<Longrightarrow> ao_id r \<in> ids \<Longrightarrow> ao_status r = OutboxPending"
    and ledger: "rel_mset (records_row users organizations keys) L (mset (filter (\<lambda>r. ao_status r = OutboxProcessed) t))"
  shows "rel_mset (records_row users organizations keys) (L + mset (List.map_filter (row_log env) (claimed_rows env ids t)))
    (mset (filter (\<lambda>r. ao_status r = OutboxProcessed) (map (pass_row env ids) t)))"
  using pending ledger
proof (induction t arbitrary: L)
  case Nil
  then show ?case by (simp add: claimed_rows_def List.map_filter_def)
next
  case (Cons r t)
  let ?R = "records_row users organizations keys"
  show ?case
  proof (cases "ao_id r \<in> ids")
    case True
    with Cons.prems(1) have p: "ao_status r = OutboxPending" by simp
    with Cons.prems have IH: "rel_mset ?R (L + mset (List.map_filter (row_log env) (claimed_rows env ids t)))
        (mset (filter (\<lambda>r. ao_status r = OutboxProcessed) (map (pass_row env ids) t)))"
      by (intro Cons.IH) auto
    show ?thesis
    proof (cases "row_log env (claim_row env r)")
      case None
      then show ?thesis
        using IH True p settle_processed_iff [of "claim_row env r" env]
        by (simp add: claimed_rows_def List.map_filter_def)
    next
      case (Some l)
      then have "settle_row env (claim_row env r) = processed_row env (claim_row env r)"
        by (auto simp: settle_row_def row_log_def split: sum.splits)
      with Some IH True p entry_records [OF env Some] show ?thesis
        using settle_processed_iff [of "claim_row env r" env]
        by (simp add: claimed_rows_def List.map_filter_def rel_mset_Plus)
    qed
  next
    case False
    show ?thesis
    proof (cases "ao_status r = OutboxProcessed")
      case True
      with Cons.prems(2) obtain L1 l where L: "L = add_mset l L1" "?R l r"
          "rel_mset ?R L1 (mset (filter (\<lambda>r. ao_status r = OutboxProcessed) t))"
        by (auto dest: msed_rel_invR)
      with Cons.IH [OF _ L(3)] Cons.prems(1) True False show ?thesis
        by (simp add: claimed_rows_def rel_mset_Plus)
    next
      case np: False
      with Cons False show ?thesis by (simp add: claimed_rows_def)
    qed
  qed
qed

definition ledger_matches :: "(string \<rightharpoonup> nat) \<Rightarrow> (string \<rightharpoonup> nat) \<Rightarrow> (string \<rightharpoonup> nat) \<Rightarrow> AuditDb \<Rightarrow> bool" where
  "ledger_matches users organizations keys s \<longleftrightarrow>
     rel_mset (records_row users organizations keys) (mset (ad_logs s)) (mset (filter (\<lambda>r. ao_status r = OutboxProcessed) (ad_outbox s)))"

lemma audit_system_inv:
  "audit_system users organizations keys cap s \<Longrightarrow> distinct (map ao_id (ad_outbox s)) \<and> ledger_matches users organizations keys s"
proof (induction rule: audit_system.induct)
  case no_events
  then show ?case by (simp add: ledger_matches_def rel_mset_Zero)
next
  case (event s i now input)
  obtain s' where s': "s' = recordAuditEvent now i input s" by simp
  then show ?case
    by (cases rule: record_event_cases) (use event in \<open>auto simp: ledger_matches_def simp flip: s'\<close>)
next
  case (pass s env)
  let ?ids = "set (claimable_ids env (batch_size env) (ad_outbox s))"
  obtain ls where s': "snd (auditOutboxDrainWorker env s) =
      \<lparr>ad_outbox = map (pass_row env ?ids) (ad_outbox s), ad_logs = ad_logs s @ ls, ad_gucs = no_gucs\<rparr>"
    and ls: "mset ls = mset (List.map_filter (row_log env) (claimed_rows env ?ids (ad_outbox s)))"
    using drain_worker_run [of s env ?ids] pass unfolding sees_def by auto
  have "ledger_matches users organizations keys (snd (auditOutboxDrainWorker env s))"
    unfolding ledger_matches_def s' using ledger_pass [OF pass.hyps(2), of "ad_outbox s" ?ids "mset (ad_logs s)"] pass.IH
    by (auto simp: ls ledger_matches_def intro: claimable_pending)
  with pass.IH s' show ?case by (simp add: o_def)
qed

text \<open>C7 The audit ledger.  Whatever events are recorded and whatever drain passes run, overlapping, failing or dying, the entries
  of \<^verbatim>\<open>audit.logs\<close> pair off one to one with the processed rows of the outbox: no event is entered twice, none is entered without having
  been staged, no processed row lacks its entry, and every entry carries the organization and the content of its row.\<close>

theorem ledger_matches_processed_rows:
  assumes "audit_system users organizations keys cap s"
  shows "rel_mset (records_row users organizations keys) (mset (ad_logs s))
    (mset (filter (\<lambda>r. ao_status r = OutboxProcessed) (ad_outbox s)))"
  using audit_system_inv [OF assms] by (simp add: ledger_matches_def)

definition demo_audit_event :: AuditLogRecordInput where
  "demo_audit_event = \<lparr>ai_actorUserPublicId = Some ''ann'', ai_actorApiKeyPublicId = None, ai_action = ''notify.webhook.delete'',
     ai_resource_type = ''webhook'', ai_resource_id = Some 4, ai_target_user_public_id = None, ai_organization_public_id = Some ''acme'',
     ai_ip_address = None, ai_user_agent = None, ai_severity = None, ai_metadata = None\<rparr>"

definition demo_directory :: "string \<rightharpoonup> nat" where
  "demo_directory = [''ann'' \<mapsto> 7, ''acme'' \<mapsto> 3]"

definition demo_acme :: "millis option \<Rightarrow> OrganizationRow" where
  "demo_acme deletedAt = \<lparr>og_id = 3, og_public_id = ''acme'', og_name = ''Acme'', og_slug = Some ''acme'', og_type = ''TEAM'', og_owner_user_id = 7,
     og_status = ''ACTIVE'', og_stripe_customer_id = None, og_deletion_started_at = deletedAt, og_deleted_at = deletedAt\<rparr>"

definition demo_drain :: "millis option \<Rightarrow> DrainEnv" where
  "demo_drain deletedAt = \<lparr>de_users = demo_directory, de_organization_rows = [demo_acme deletedAt], de_api_keys = Map.empty,
     de_organization_rows_at = (\<lambda>_. [demo_acme deletedAt]),
     de_locked = (\<lambda>_. False), de_fault = (\<lambda>_. None), de_arrange = id, de_message = (\<lambda>_. ''refused''), de_now = 2000,
     de_batch_size = None, de_max_attempts = None\<rparr>"

definition demo_recorded :: AuditDb where
  "demo_recorded = recordAuditEvent 1000 1 demo_audit_event \<lparr>ad_outbox = [], ad_logs = [], ad_gucs = no_gucs\<rparr>"

definition demo_drained :: AuditDb where
  "demo_drained = snd (auditOutboxDrainWorker (demo_drain None) demo_recorded)"

lemma demo_recorded_row: "\<exists>r. ad_outbox demo_recorded = [r] \<and> ao_id r = 1 \<and>
    ao_status r = OutboxPending \<and> ao_attempt_count r = 0 \<and> ao_organization_public_id r = Some ''acme''"
  by (simp add: demo_recorded_def recordAuditEvent_def AuditService_record_def demo_audit_event_def truthy_def with_settings_def
      run_transaction_def setLocalDatabaseConfig_def insertAuditOutboxRow_def act_bind_def sql_def Let_def outbox_row_ok_def
      outbox_insert_policy_def fits_def AUDIT_SEVERITIES_def no_gucs_def)

lemma demo_drain_sees: "sees demo_directory demo_directory Map.empty 5 (demo_drain v)"
  by (auto simp: sees_def demo_drain_def max_attempts_def DEFAULT_AUDIT_OUTBOX_DRAIN_MAX_ATTEMPTS_def map_le_def de_organizations_def
      demo_acme_def demo_directory_def split: if_splits)

lemma demo_recorded_reached: "audit_system demo_directory demo_directory Map.empty 5 demo_recorded"
  unfolding demo_recorded_def by (rule audit_system.event [OF audit_system.no_events]) simp

lemma demo_drained_reached: "audit_system demo_directory demo_directory Map.empty 5 demo_drained"
  unfolding demo_drained_def by (rule audit_system.pass [OF demo_recorded_reached demo_drain_sees])

theorem ledger_matches_processed_rows_witness:
  "length (ad_logs demo_drained) = 1 \<and>
   rel_mset (records_row demo_directory demo_directory Map.empty) (mset (ad_logs demo_drained))
     (mset (filter (\<lambda>r. ao_status r = OutboxProcessed) (ad_outbox demo_drained)))"
proof
  show "length (ad_logs demo_drained) = 1"
    by (simp add: demo_drained_def auditOutboxDrainWorker_def demo_recorded_def recordAuditEvent_def AuditService_record_def
        demo_audit_event_def truthy_def with_settings_def run_transaction_def setLocalDatabaseConfig_def insertAuditOutboxRow_def
        act_bind_def act_catch_def act_return_def sql_def sql_read_def Let_def outbox_row_ok_def outbox_insert_policy_def fits_def
        AUDIT_SEVERITIES_def no_gucs_def runAuditOutboxDrainJob_def claimPendingBatch_def claimable_ids_def demo_drain_def
        batch_size_def max_attempts_def DEFAULT_AUDIT_OUTBOX_DRAIN_BATCH_SIZE_def DEFAULT_AUDIT_OUTBOX_DRAIN_MAX_ATTEMPTS_def
        outbox_drain_policy_def is_true_def buildResolutionMaps_def collectAuditOutboxPublicIds_def present_ids_def List.map_filter_def
        claim_row_def drainOutboxRow_def resolveRowInserts_def resolve_id_def lookup_among_def string_to_array_def demo_directory_def
        savepoint_def insert_log_def log_row_ok_def log_insert_policy_def organizations_tenant_isolation_def de_organizations_def
        demo_acme_def outbox_markProcessed_def outbox_update_def processed_row_def)
qed (rule ledger_matches_processed_rows [OF demo_drained_reached])

section \<open>The backlog\<close>

definition run_passes :: "DrainEnv list \<Rightarrow> AuditDb \<Rightarrow> AuditDb" where
  "run_passes envs = fold (\<lambda>env s. snd (auditOutboxDrainWorker env s)) envs"

text \<open>The claims a row can still take under the cap.\<close>

definition claims_left :: "nat \<Rightarrow> AuditOutboxRow \<Rightarrow> nat" where
  "claims_left cap r = (if ao_status r \<noteq> OutboxPending then 0 else if ao_attempt_count r + 2 < cap then cap - 1 - ao_attempt_count r else 1)"

lemma settle_claims_left:
  assumes "ao_status r = OutboxPending"
  shows "claims_left (max_attempts env) (settle_row env (claim_row env r)) < claims_left (max_attempts env) r"
  using assms
  by (auto simp: claims_left_def settle_row_def row_mark_def row_result_def processed_row_def failed_row_def transient_row_def
      split: sum.splits option.splits bool.splits)

lemma sum_list_strict:
  fixes f g :: "'a \<Rightarrow> nat"
  assumes "\<And>x. x \<in> set xs \<Longrightarrow> f x \<le> g x" and "x \<in> set xs" and "f x < g x"
  shows "sum_list (map f xs) < sum_list (map g xs)"
  using assms
proof (induction xs)
  case (Cons y ys)
  then have "sum_list (map f ys) \<le> sum_list (map g ys)" by (intro sum_list_mono) simp
  with Cons show ?case by (auto intro: add_less_le_mono add_le_less_mono)
qed simp

text \<open>A pass that runs alone with at least one row per batch.\<close>

definition lone_pass :: "nat \<Rightarrow> DrainEnv \<Rightarrow> bool" where
  "lone_pass cap env \<longleftrightarrow> max_attempts env = cap \<and> 0 < batch_size env \<and> (\<forall>i. \<not> de_locked env i) \<and> (\<forall>xs. mset (de_arrange env xs) = mset xs)"

definition backlog :: "nat \<Rightarrow> AuditDb \<Rightarrow> nat" where
  "backlog cap s = sum_list (map (claims_left cap) (ad_outbox s))"

lemma lone_pass_run:
  assumes "lone_pass cap env" and "distinct (map ao_id (ad_outbox s))"
  obtains ids where "ad_outbox (snd (auditOutboxDrainWorker env s)) = map (pass_row env ids) (ad_outbox s)"
    and "\<And>r. r \<in> set (ad_outbox s) \<Longrightarrow> ao_id r \<in> ids \<Longrightarrow> ao_status r = OutboxPending"
    and "(\<exists>r \<in> set (ad_outbox s). ao_status r = OutboxPending) \<Longrightarrow> \<exists>r \<in> set (ad_outbox s). ao_id r \<in> ids"
proof (rule that [of "set (claimable_ids env (batch_size env) (ad_outbox s))"])
  show "ad_outbox (snd (auditOutboxDrainWorker env s)) =
      map (pass_row env (set (claimable_ids env (batch_size env) (ad_outbox s)))) (ad_outbox s)"
    using drain_worker_run [of s env] assms by (fastforce simp: lone_pass_def)
  show "ao_status r = OutboxPending" if "r \<in> set (ad_outbox s)" "ao_id r \<in> set (claimable_ids env (batch_size env) (ad_outbox s))" for r
    using claimable_pending assms(2) that by blast
  assume some: "\<exists>r \<in> set (ad_outbox s). ao_status r = OutboxPending"
  let ?l = "sort_key ao_created_at (filter (\<lambda>r. ao_status r = OutboxPending \<and> \<not> de_locked env (ao_id r)) (ad_outbox s))"
  have "set ?l \<noteq> {}" using some assms(1) by (auto simp: lone_pass_def)
  then have "?l \<noteq> []" by (metis list.set(1))
  then obtain r where "ao_id r \<in> set (claimable_ids env (batch_size env) (ad_outbox s))" "r \<in> set ?l"
    using assms(1) by (cases ?l; cases "batch_size env") (auto simp: claimable_ids_def lone_pass_def)
  then show "\<exists>r \<in> set (ad_outbox s). ao_id r \<in> set (claimable_ids env (batch_size env) (ad_outbox s))" by auto
qed

lemma lone_pass_backlog:
  assumes "lone_pass cap env" and "distinct (map ao_id (ad_outbox s))"
  shows "backlog cap (snd (auditOutboxDrainWorker env s)) \<le> backlog cap s - 1"
proof -
  obtain ids where o: "ad_outbox (snd (auditOutboxDrainWorker env s)) = map (pass_row env ids) (ad_outbox s)"
    and p: "\<And>r. r \<in> set (ad_outbox s) \<Longrightarrow> ao_id r \<in> ids \<Longrightarrow> ao_status r = OutboxPending"
    and c: "(\<exists>r \<in> set (ad_outbox s). ao_status r = OutboxPending) \<Longrightarrow> \<exists>r \<in> set (ad_outbox s). ao_id r \<in> ids"
    using lone_pass_run [OF assms] by blast
  have cap: "max_attempts env = cap" using assms(1) by (simp add: lone_pass_def)
  have le: "claims_left cap (pass_row env ids r) \<le> claims_left cap r" if "r \<in> set (ad_outbox s)" for r
    using settle_claims_left [of r env] p [OF that] cap by (cases "ao_id r \<in> ids") auto
  show ?thesis
  proof (cases "\<exists>r \<in> set (ad_outbox s). ao_status r = OutboxPending")
    case True
    with c obtain r where r: "r \<in> set (ad_outbox s)" "ao_id r \<in> ids" by blast
    then have "claims_left cap (pass_row env ids r) < claims_left cap r"
      using settle_claims_left [of r env] p cap by simp
    with r le have "sum_list (map (\<lambda>r. claims_left cap (pass_row env ids r)) (ad_outbox s)) < backlog cap s"
      unfolding backlog_def by (intro sum_list_strict) auto
    then show ?thesis by (simp add: backlog_def o o_def)
  next
    case False
    then have "backlog cap s = 0" by (auto simp: backlog_def claims_left_def)
    moreover have "backlog cap (snd (auditOutboxDrainWorker env s)) \<le> backlog cap s"
      using sum_list_mono [OF le] by (simp add: backlog_def o o_def)
    ultimately show ?thesis by simp
  qed
qed

lemma run_passes_ids:
  assumes "\<forall>env \<in> set envs. lone_pass cap env" and "distinct (map ao_id (ad_outbox s))"
  shows "map ao_id (ad_outbox (run_passes envs s)) = map ao_id (ad_outbox s)"
  using assms
proof (induction envs arbitrary: s)
  case (Cons env envs)
  have e: "lone_pass cap env" using Cons.prems(1) by simp
  obtain ids where "ad_outbox (snd (auditOutboxDrainWorker env s)) = map (pass_row env ids) (ad_outbox s)"
    using lone_pass_run [OF e Cons.prems(2)] by blast
  then have m: "map ao_id (ad_outbox (snd (auditOutboxDrainWorker env s))) = map ao_id (ad_outbox s)" by simp
  with Cons.IH [of "snd (auditOutboxDrainWorker env s)"] Cons.prems show ?case by (simp add: run_passes_def)
qed (simp add: run_passes_def)

lemma run_passes_backlog:
  assumes "\<forall>env \<in> set envs. lone_pass cap env" and "distinct (map ao_id (ad_outbox s))"
  shows "backlog cap (run_passes envs s) \<le> backlog cap s - length envs"
  using assms
proof (induction envs arbitrary: s)
  case (Cons env envs)
  have e: "lone_pass cap env" using Cons.prems(1) by simp
  let ?s = "snd (auditOutboxDrainWorker env s)"
  have "map ao_id (ad_outbox ?s) = map ao_id (ad_outbox s)"
    using run_passes_ids [of "[env]" cap s] e Cons.prems(2) by (simp add: run_passes_def)
  then have "backlog cap (run_passes envs ?s) \<le> backlog cap ?s - length envs"
    using Cons by simp
  with lone_pass_backlog [OF e Cons.prems(2)] show ?case by (simp add: run_passes_def)
qed (simp add: run_passes_def)

lemma backlog_bound:
  "backlog cap s \<le> length (filter (\<lambda>r. ao_status r = OutboxPending) (ad_outbox s)) * max 1 (cap - 1)"
proof -
  have "sum_list (map (claims_left cap) t) \<le> length (filter (\<lambda>r. ao_status r = OutboxPending) t) * max 1 (cap - 1)" for t
    by (induction t) (auto simp: claims_left_def)
  then show ?thesis by (simp add: backlog_def)
qed

lemma no_claims_left: "claims_left cap r = 0 \<longleftrightarrow> ao_status r \<noteq> OutboxPending"
  by (auto simp: claims_left_def)

lemma no_backlog: "backlog cap s = 0 \<Longrightarrow> r \<in> set (ad_outbox s) \<Longrightarrow> ao_status r \<noteq> OutboxPending"
  by (simp add: backlog_def no_claims_left [symmetric, of _ cap])

text \<open>C8 The backlog clears.  However the inserts fail, \<open>cap - 1\<close> passes per pending row leave no row pending: every row staged before is
  processed or marked failed, and no row is dropped from the table.\<close>

theorem outbox_backlog_clears:
  assumes "distinct (map ao_id (ad_outbox s))" and "\<forall>env \<in> set envs. lone_pass cap env"
    and "length (filter (\<lambda>r. ao_status r = OutboxPending) (ad_outbox s)) * max 1 (cap - 1) \<le> length envs"
  shows "map ao_id (ad_outbox (run_passes envs s)) = map ao_id (ad_outbox s) \<and>
    (\<forall>r \<in> set (ad_outbox (run_passes envs s)). ao_status r = OutboxProcessed \<or> ao_status r = OutboxFailed)"
proof -
  have "backlog cap (run_passes envs s) = 0"
    using run_passes_backlog [OF assms(2,1)] backlog_bound [of cap s] assms(3) by linarith
  then show ?thesis
    using run_passes_ids [OF assms(2,1)] no_backlog by (metis OutboxStatus.exhaust)
qed

lemma demo_drain_lone: "lone_pass 5 (demo_drain v)"
  by (simp add: lone_pass_def demo_drain_def max_attempts_def batch_size_def DEFAULT_AUDIT_OUTBOX_DRAIN_BATCH_SIZE_def
      DEFAULT_AUDIT_OUTBOX_DRAIN_MAX_ATTEMPTS_def)

theorem outbox_backlog_clears_witness:
  "filter (\<lambda>r. ao_status r = OutboxPending) (ad_outbox (run_passes (replicate 4 (demo_drain (Some 1500))) demo_recorded)) = []"
proof -
  obtain r where "ad_outbox demo_recorded = [r]" "ao_status r = OutboxPending"
    using demo_recorded_row by blast
  then have "distinct (map ao_id (ad_outbox demo_recorded))"
      "length (filter (\<lambda>r. ao_status r = OutboxPending) (ad_outbox demo_recorded)) * max 1 (5 - 1) \<le> length (replicate 4 (demo_drain (Some 1500)))"
    by simp_all
  then show ?thesis
    using outbox_backlog_clears [of demo_recorded "replicate 4 (demo_drain (Some 1500))" 5] demo_drain_lone
    by (fastforce simp: filter_empty_conv)
qed

section \<open>Two defects of the drain\<close>

lemma attempts_inv:
  assumes "audit_system users organizations keys cap s" and "2 \<le> cap" and "r \<in> set (ad_outbox s)"
  shows "ao_attempt_count r < cap \<and> (ao_status r = OutboxPending \<longrightarrow> ao_attempt_count r + 1 < cap)"
  using assms(1,3)
proof (induction arbitrary: r rule: audit_system.induct)
  case (event s i now input)
  obtain s' where s': "s' = recordAuditEvent now i input s" by simp
  then show ?case
    by (cases rule: record_event_cases) (use event assms(2) in \<open>auto simp flip: s'\<close>)
next
  case (pass s env)
  let ?ids = "set (claimable_ids env (batch_size env) (ad_outbox s))"
  have d: "distinct (map ao_id (ad_outbox s))" using audit_system_inv [OF pass.hyps(1)] by blast
  have "ad_outbox (snd (auditOutboxDrainWorker env s)) = map (pass_row env ?ids) (ad_outbox s)"
    using drain_worker_run [OF d, of env] pass.hyps(2) by (fastforce simp: sees_def)
  with pass.prems obtain x where x: "x \<in> set (ad_outbox s)" "r = pass_row env ?ids x" by auto
  show ?case
  proof (cases "ao_id x \<in> ?ids")
    case True
    then have "ao_status x = OutboxPending" using claimable_pending d x(1) by blast
    with pass.IH [OF x(1)] x(2) True pass.hyps(2) show ?thesis
      by (auto simp: sees_def settle_row_def row_mark_def row_result_def processed_row_def failed_row_def transient_row_def
          split: sum.splits option.splits bool.splits)
  qed (use x pass.IH in simp)
qed simp

text \<open>C12 A row is given up on one attempt early.  \<^verbatim>\<open>claimPendingBatch\<close> counts the attempt before it returns the row, and
  \<^verbatim>\<open>drainOutboxRow\<close> counts it again: with a cap of at least two no row is ever tried as often as
  \<^verbatim>\<open>AUDIT_OUTBOX_DRAIN_MAX_ATTEMPTS\<close> says, although the constant is documented as the failures after which a row is marked failed.\<close>

theorem attempt_cap_never_reached:
  assumes "audit_system users organizations keys cap s" and "2 \<le> cap" and "r \<in> set (ad_outbox s)"
  shows "ao_attempt_count r < cap"
  using attempts_inv [OF assms] by blast

theorem attempt_cap_never_reached_witness:
  "\<exists>r. ad_outbox demo_recorded = [r] \<and> ao_attempt_count r < 5"
proof -
  obtain r where "ad_outbox demo_recorded = [r]" using demo_recorded_row by force
  then show ?thesis using attempt_cap_never_reached [OF demo_recorded_reached, of r] by simp
qed

text \<open>A soft-deleted organization in the table of organizations.\<close>

definition soft_deleted :: "string \<Rightarrow> nat \<Rightarrow> OrganizationRow tbl \<Rightarrow> bool" where
  "soft_deleted p i t \<longleftrightarrow> distinct (map og_id t) \<and> distinct (map og_public_id t) \<and>
     (\<exists>o' \<in> set t. og_public_id o' = p \<and> og_id o' = i \<and> og_deleted_at o' \<noteq> None)"

text \<open>That is what the deletion of an organization leaves.\<close>

lemma softDelete_leaves_soft_deleted:
  assumes "organization_softDelete tenv p (tx_begin d) = (Inr (Some o'), t)"
    and "distinct (map og_id (bd_organizations (td_billing d)))"
  shows "soft_deleted p (og_id o') (bd_organizations (td_billing (tx_state t)))"
proof -
  let ?t = "bd_organizations (td_billing d)" and ?f = "\<lambda>x. x\<lparr>og_deleted_at := Some (te_now tenv)\<rparr>"
  let ?q = "\<lambda>x. current_organization p x \<and> og_deletion_started_at x \<noteq> None"
  have hit: "rows0 (update_returning ?q ?f ?t) = Some o'" and index: "organization_index (update_where ?q ?f ?t) = None"
    and t: "bd_organizations (td_billing (tx_state t)) = update_where ?q ?f ?t"
    using assms(1) by (auto simp: organization_softDelete_def update_organization_def checked_update_def act_bind_def act_return_def sql_def
        Let_def put_organizations_def split: option.splits sum.splits prod.splits if_splits)
  have "o' \<in> set (update_returning ?q ?f ?t)" using hit by (cases "update_returning ?q ?f ?t") (auto simp: rows0_def)
  then obtain x where "x \<in> set ?t" "?q x" "o' = ?f x" by (auto simp: update_returning_def)
  then have "o' \<in> set (update_where ?q ?f ?t)" "og_public_id o' = p" "og_deleted_at o' \<noteq> None"
    by (auto simp: set_update_where current_organization_def)
  moreover have "map og_id (update_where ?q ?f ?t) = map og_id ?t" by (simp add: update_where_def)
  moreover have "distinct (map og_public_id (update_where ?q ?f ?t))" using index by (simp add: organization_index_def split: if_splits)
  ultimately show ?thesis using assms(2) unfolding soft_deleted_def t by auto
qed

lemma resolver_finds_deleted: "soft_deleted p i (de_organization_rows env) \<Longrightarrow> de_organizations env p = Some i"
proof -
  assume d: "soft_deleted p i (de_organization_rows env)"
  then obtain o' where o': "o' \<in> set (de_organization_rows env)" "og_public_id o' = p" "og_id o' = i" by (auto simp: soft_deleted_def)
  then have "select_first (\<lambda>x. og_public_id x = p) (de_organization_rows env) = Some o'"
    using select_first_key_only [of og_public_id "de_organization_rows env" o'] d by (simp add: soft_deleted_def)
  then show ?thesis by (simp add: de_organizations_def o'(3))
qed

text \<open>The policy shows no live organization with the public id or with the id of a deleted one.\<close>

lemma policy_hides_deleted:
  assumes "soft_deleted p i t" and "log_insert_policy t g l"
  shows "al_organization_id l \<noteq> Some i" and "g_organization g = p \<Longrightarrow> al_organization_id l = None"
proof -
  obtain o' where o': "o' \<in> set t" "og_public_id o' = p" "og_id o' = i" "og_deleted_at o' \<noteq> None" using assms(1) by (auto simp: soft_deleted_def)
  have live: "x \<noteq> o'" "og_id x \<noteq> i" "og_public_id x \<noteq> p" if "x \<in> set t" "og_deleted_at x = None" for x
    using that o' assms(1) by (auto simp: soft_deleted_def distinct_map inj_on_def)
  have found: "\<exists>x \<in> set t. og_deleted_at x = None \<and> og_public_id x = g_organization g \<and> og_id x = k"
    if "al_organization_id l = Some k" for k
  proof -
    have "map_option og_id (select_first (\<lambda>o'. og_public_id o' = g_organization g \<and> organizations_tenant_isolation False g o') t) = Some k"
      using assms(2) that by (simp add: log_insert_policy_def)
    then obtain x where "select_first (\<lambda>o'. og_public_id o' = g_organization g \<and> organizations_tenant_isolation False g o') t = Some x" "og_id x = k"
      by auto
    with select_first_Some_iff [OF this(1)] show ?thesis by (auto simp: organizations_tenant_isolation_def)
  qed
  show "al_organization_id l \<noteq> Some i" using found [of i] live by blast
  show "al_organization_id l = None" if "g_organization g = p" using found live that by (cases "al_organization_id l") blast+
qed

lemma deleted_organization_row:
  assumes "soft_deleted p i (de_organization_rows_at env (ao_id c))"
  shows "ao_organization_public_id c = Some p \<Longrightarrow> row_log env c = None"
    and "row_log env c = Some l \<Longrightarrow> al_organization_id l \<noteq> Some i"
proof -
  have passed: "log_insert_policy (de_organization_rows_at env (ao_id c)) (row_gucs c no_gucs) l \<and>
      resolveRowInserts (de_now env) (directory_maps env) c = Inr l" if "row_log env c = Some l" for l
    using that by (auto simp: row_log_def row_result_def insert_failure_def split: sum.splits option.splits if_splits)
  show "row_log env c = Some l \<Longrightarrow> al_organization_id l \<noteq> Some i" using passed policy_hides_deleted(1) [OF assms] by blast
  assume c: "ao_organization_public_id c = Some p"
  have "al_organization_id l \<noteq> None" if "resolveRowInserts now m c = Inr l" for now m l
    using c that by (auto simp: resolveRowInserts_def Let_def split: if_splits)
  moreover have "g_organization (row_gucs c no_gucs) = p" using c by (simp add: row_gucs_def)
  ultimately show "row_log env c = None" using passed policy_hides_deleted(2) [OF assms] by (metis option.exhaust)
qed

definition unprocessed :: "string \<Rightarrow> nat \<Rightarrow> AuditOutboxRow \<Rightarrow> bool" where
  "unprocessed p i r \<longleftrightarrow> ao_id r = i \<and> ao_organization_public_id r = Some p \<and> ao_status r \<noteq> OutboxProcessed"

lemma pass_unprocessed:
  assumes "unprocessed p i r" and "\<And>k. soft_deleted p oid (de_organization_rows_at env k)" and "ao_id r \<in> ids \<Longrightarrow> ao_status r = OutboxPending"
  shows "unprocessed p i (pass_row env ids r)"
proof (cases "ao_id r \<in> ids")
  case True
  have o: "ao_organization_public_id (settle_row env c) = ao_organization_public_id c" for c
    by (auto simp: settle_row_def row_mark_def processed_row_def failed_row_def transient_row_def split: sum.splits bool.splits)
  have c: "ao_organization_public_id (claim_row env r) = Some p" using assms(1) by (simp add: unprocessed_def claim_row_def)
  with o [of "claim_row env r"] assms(1,3) True settle_processed_iff [of "claim_row env r" env] deleted_organization_row(1) [OF assms(2) c]
  show ?thesis by (simp add: unprocessed_def pass_row_def)
qed (use assms in \<open>simp add: pass_row_def\<close>)

text \<open>Passes that run after the deletion.\<close>

definition pass_after_deletion :: "string \<Rightarrow> nat \<Rightarrow> nat \<Rightarrow> DrainEnv \<Rightarrow> bool" where
  "pass_after_deletion p i cap env \<longleftrightarrow> lone_pass cap env \<and> soft_deleted p i (de_organization_rows env) \<and>
     (\<forall>k. soft_deleted p i (de_organization_rows_at env k))"

lemma pass_logs_none:
  assumes "pass_after_deletion p i cap env" and "distinct (map ao_id (ad_outbox s))"
  shows "filter (\<lambda>l. al_organization_id l = Some i) (ad_logs (snd (auditOutboxDrainWorker env s))) =
    filter (\<lambda>l. al_organization_id l = Some i) (ad_logs s)"
proof -
  let ?ids = "set (claimable_ids env (batch_size env) (ad_outbox s))"
  obtain ls where ls: "ad_logs (snd (auditOutboxDrainWorker env s)) = ad_logs s @ ls"
      "mset ls = mset (List.map_filter (row_log env) (claimed_rows env ?ids (ad_outbox s)))"
    using drain_worker_run [of s env ?ids] assms by (auto simp: pass_after_deletion_def lone_pass_def)
  have "al_organization_id l \<noteq> Some i" if "l \<in> set ls" for l
  proof -
    have "l \<in> set (List.map_filter (row_log env) (claimed_rows env ?ids (ad_outbox s)))" using that mset_eq_setD [OF ls(2)] by simp
    then obtain c where "row_log env c = Some l" by (auto simp: List.map_filter_def)
    then show ?thesis using deleted_organization_row(2) [of p i env c l] assms(1) by (simp add: pass_after_deletion_def)
  qed
  then show ?thesis by (simp add: ls(1) filter_empty_conv)
qed

lemma run_passes_deleted:
  assumes "\<forall>env \<in> set envs. pass_after_deletion p i cap env" and "distinct (map ao_id (ad_outbox s))"
    and "r \<in> set (ad_outbox s)" and "unprocessed p k r"
  shows "(\<exists>r' \<in> set (ad_outbox (run_passes envs s)). unprocessed p k r') \<and>
    filter (\<lambda>l. al_organization_id l = Some i) (ad_logs (run_passes envs s)) = filter (\<lambda>l. al_organization_id l = Some i) (ad_logs s)"
  using assms
proof (induction envs arbitrary: s r)
  case (Cons env envs)
  have e: "pass_after_deletion p i cap env" using Cons.prems(1) by simp
  then have lone: "lone_pass cap env" and del: "\<And>k. soft_deleted p i (de_organization_rows_at env k)" by (simp_all add: pass_after_deletion_def)
  obtain ids where o: "ad_outbox (snd (auditOutboxDrainWorker env s)) = map (pass_row env ids) (ad_outbox s)"
    and c: "\<And>r. r \<in> set (ad_outbox s) \<Longrightarrow> ao_id r \<in> ids \<Longrightarrow> ao_status r = OutboxPending"
    using lone_pass_run [OF lone Cons.prems(2)] by blast
  let ?s = "snd (auditOutboxDrainWorker env s)"
  have "map ao_id (ad_outbox ?s) = map ao_id (ad_outbox s)" by (simp add: o)
  then have "distinct (map ao_id (ad_outbox ?s))" using Cons.prems(2) by metis
  moreover have "pass_row env ids r \<in> set (ad_outbox ?s)" using Cons.prems(3) o by simp
  moreover have "unprocessed p k (pass_row env ids r)" using pass_unprocessed [OF Cons.prems(4) del] c [OF Cons.prems(3)] by blast
  ultimately have "(\<exists>r' \<in> set (ad_outbox (run_passes envs ?s)). unprocessed p k r') \<and>
      filter (\<lambda>l. al_organization_id l = Some i) (ad_logs (run_passes envs ?s)) = filter (\<lambda>l. al_organization_id l = Some i) (ad_logs ?s)"
    using Cons.IH [of ?s] Cons.prems(1) by auto
  then show ?case using pass_logs_none [OF e Cons.prems(2)] by (simp add: run_passes_def)
qed (auto simp: run_passes_def)

text \<open>C9 The events of a deleted organization are lost.  Take an event of an organization that is still pending when the organization
  is soft-deleted (its deletion, for one), and passes of the drain after that.  Each pass resolves the organization,
  as the resolver function does not look at \<^verbatim>\<open>deleted_at\<close>; but the policy of \<^verbatim>\<open>audit.logs\<close> reads \<^verbatim>\<open>tenancy.organizations\<close> under that
  table's own policy, which hides deleted rows, and refuses the insert.  When the passes are enough to clear the backlog
  the row is marked failed, and the ledger has not got a single entry of that organization more.\<close>

theorem deleted_organization_events_are_lost:
  assumes "distinct (map ao_id (ad_outbox s))" and "r \<in> set (ad_outbox s)" and "ao_status r = OutboxPending"
    and "ao_organization_public_id r = Some p" and "\<forall>env \<in> set envs. pass_after_deletion p i cap env"
    and "length (filter (\<lambda>r. ao_status r = OutboxPending) (ad_outbox s)) * max 1 (cap - 1) \<le> length envs"
  shows "(\<forall>env \<in> set envs. de_organizations env p = Some i) \<and>
    (\<exists>r' \<in> set (ad_outbox (run_passes envs s)). ao_id r' = ao_id r \<and> ao_status r' = OutboxFailed) \<and>
    filter (\<lambda>l. al_organization_id l = Some i) (ad_logs (run_passes envs s)) = filter (\<lambda>l. al_organization_id l = Some i) (ad_logs s)"
proof -
  have lone: "\<forall>env \<in> set envs. lone_pass cap env" using assms(5) by (simp add: pass_after_deletion_def)
  have "backlog cap (run_passes envs s) = 0"
    using run_passes_backlog [OF lone assms(1)] backlog_bound [of cap s] assms(6) by linarith
  moreover have un: "unprocessed p (ao_id r) r" using assms(3,4) by (simp add: unprocessed_def)
  obtain r' where r': "r' \<in> set (ad_outbox (run_passes envs s))" "unprocessed p (ao_id r) r'"
    using run_passes_deleted [OF assms(5,1,2) un] by blast
  ultimately have "ao_id r' = ao_id r \<and> ao_status r' = OutboxFailed"
    using no_backlog [of cap "run_passes envs s" r'] by (metis OutboxStatus.exhaust unprocessed_def)
  with r'(1) run_passes_deleted [OF assms(5,1,2) un] assms(5) show ?thesis by (auto simp: pass_after_deletion_def intro: resolver_finds_deleted)
qed

theorem deleted_organization_events_are_lost_witness:
  "(\<exists>r' \<in> set (ad_outbox (run_passes (replicate 4 (demo_drain (Some 1500))) demo_recorded)). ao_id r' = 1 \<and> ao_status r' = OutboxFailed) \<and>
   de_organizations (demo_drain (Some 1500)) ''acme'' = Some 3 \<and>
   filter (\<lambda>l. al_organization_id l = Some 3) (ad_logs (run_passes (replicate 4 (demo_drain (Some 1500))) demo_recorded)) =
     filter (\<lambda>l. al_organization_id l = Some 3) (ad_logs demo_recorded)"
proof -
  obtain r where r: "ad_outbox demo_recorded = [r]" "ao_id r = 1" "ao_status r = OutboxPending"
      "ao_organization_public_id r = Some ''acme''"
    using demo_recorded_row by blast
  have after: "\<forall>env \<in> set (replicate 4 (demo_drain (Some 1500))). pass_after_deletion ''acme'' 3 5 env"
    using demo_drain_lone by (simp add: pass_after_deletion_def soft_deleted_def demo_drain_def demo_acme_def)
  show ?thesis
    using deleted_organization_events_are_lost [OF _ _ r(3) r(4) after, of demo_recorded] r by simp
qed

end
