(* ===== verification/Retention.thy ===== *)
theory Retention
  imports Transactions JS_Values
begin

text \<open>
  The retention jobs: \<^verbatim>\<open>deleteInBatchesByCondition\<close> of \<^verbatim>\<open>src/src/infrastructure/database/utils/batch-delete.util.ts\<close> and
  the processors that call it.  A worker opens one transaction per job (\<^verbatim>\<open>withMaintenanceDatabaseContext\<close> with a retention scope),
  and the job deletes the rows of its condition in batches by ascending key.  A row another table still references (\<open>blocked\<close>) fails the
  whole \<^verbatim>\<open>DELETE\<close> that names it.  Shown: without such a row a job deletes exactly the rows of its condition; with one, the fall-back to
  single deletes runs in a transaction that is already aborted, so the job throws and deletes nothing.
\<close>

section \<open>Deleting in batches\<close>

definition DEFAULT_BATCH_SIZE :: nat where "DEFAULT_BATCH_SIZE = 5000"

record BatchDeleteResult =
  deletedCount :: nat
  blockedCount :: nat

definition delete_keys :: "('r \<Rightarrow> 'k) \<Rightarrow> ('r \<Rightarrow> bool) \<Rightarrow> 'k list \<Rightarrow> ('r tbl, unit) db" where
  "delete_keys key blocked ids = sql (\<lambda>t.
     if list_ex (\<lambda>r. key r \<in> set ids \<and> blocked r) t then Inl (Sql_foreign_key ''fk'')
     else Inr ((), delete_where (\<lambda>r. key r \<in> set ids) t))"

fun deleteRowsIndividually :: "('r \<Rightarrow> 'k) \<Rightarrow> ('r \<Rightarrow> bool) \<Rightarrow> 'k list \<Rightarrow> ('r tbl, BatchDeleteResult) db" where
  "deleteRowsIndividually key blocked [] = act_return \<lparr>deletedCount = 0, blockedCount = 0\<rparr>"
| "deleteRowsIndividually key blocked (i # ids) =
     act_bind (act_catch (act_bind (delete_keys key blocked [i]) (\<lambda>_. act_return \<lparr>deletedCount = 1, blockedCount = 0\<rparr>))
       (\<lambda>e. if isPostgresForeignKeyViolation e then act_return \<lparr>deletedCount = 0, blockedCount = 1\<rparr> else act_throw e)) (\<lambda>c1.
     act_bind (deleteRowsIndividually key blocked ids) (\<lambda>c2.
     act_return \<lparr>deletedCount = deletedCount c1 + deletedCount c2, blockedCount = blockedCount c1 + blockedCount c2\<rparr>))"

text \<open>The loop, with fuel for its rounds; \<open>None\<close> is a loop that ran out of it.\<close>

definition scan_batch :: "('r \<Rightarrow> 'k :: linorder) \<Rightarrow> ('r \<Rightarrow> bool) \<Rightarrow> nat \<Rightarrow> 'k option \<Rightarrow> 'r tbl \<Rightarrow> 'k list" where
  "scan_batch key cond batchSize cursor t =
     take batchSize (sort (map key (filter (\<lambda>r. cond r \<and> (case cursor of None \<Rightarrow> True | Some c \<Rightarrow> c < key r)) t)))"

fun delete_batches ::
  "('r \<Rightarrow> 'k :: linorder) \<Rightarrow> ('r \<Rightarrow> bool) \<Rightarrow> ('r \<Rightarrow> bool) \<Rightarrow> nat \<Rightarrow> nat \<Rightarrow> 'k option \<Rightarrow> BatchDeleteResult \<Rightarrow> ('r tbl, BatchDeleteResult option) db" where
  "delete_batches key blocked cond batchSize 0 cursor counts = act_return None"
| "delete_batches key blocked cond batchSize (Suc fuel) cursor counts =
     act_bind (sql_read (scan_batch key cond batchSize cursor)) (\<lambda>identifiers.
     if identifiers = [] then act_return (Some counts)
     else act_bind
       (act_catch (act_bind (delete_keys key blocked identifiers) (\<lambda>_. act_return \<lparr>deletedCount = length identifiers, blockedCount = 0\<rparr>))
          (\<lambda>e. if isPostgresForeignKeyViolation e then deleteRowsIndividually key blocked identifiers else act_throw e))
       (\<lambda>c. let counts' = \<lparr>deletedCount = deletedCount counts + deletedCount c, blockedCount = blockedCount counts + blockedCount c\<rparr>
            in if length identifiers < batchSize then act_return (Some counts')
               else delete_batches key blocked cond batchSize fuel (Some (last identifiers)) counts'))"

definition deleteInBatchesByCondition ::
  "nat \<Rightarrow> ('r \<Rightarrow> 'k :: linorder) \<Rightarrow> ('r \<Rightarrow> bool) \<Rightarrow> ('r \<Rightarrow> bool) \<Rightarrow> nat option \<Rightarrow> ('r tbl, BatchDeleteResult option) db" where
  "deleteInBatchesByCondition fuel key blocked cond batchSize =
     delete_batches key blocked cond (case batchSize of None \<Rightarrow> DEFAULT_BATCH_SIZE | Some n \<Rightarrow> n) fuel None \<lparr>deletedCount = 0, blockedCount = 0\<rparr>"

section \<open>The jobs\<close>

record TombstoneRow =
  tr_id :: nat
  tr_deleted_at :: "millis option"

record AgedRow =
  ar_id :: nat
  ar_created_at :: millis

definition cutoffDate :: "TimeZone \<Rightarrow> millis \<Rightarrow> nat \<Rightarrow> millis" where
  "cutoffDate tz now retentionDays = addDays tz now (- int retentionDays)"

definition tombstone_expired :: "millis \<Rightarrow> TombstoneRow \<Rightarrow> bool" where
  "tombstone_expired cutoff r \<longleftrightarrow> (case tr_deleted_at r of None \<Rightarrow> False | Some d \<Rightarrow> d < cutoff)"

text \<open>A worker: one transaction, with a round of fuel per row and one more.\<close>

definition retention_worker :: "('r \<Rightarrow> 'k :: linorder) \<Rightarrow> ('r \<Rightarrow> bool) \<Rightarrow> ('r \<Rightarrow> bool) \<Rightarrow> 'r tbl \<Rightarrow> (thrown + BatchDeleteResult option) \<times> 'r tbl" where
  "retention_worker key blocked cond t = run_transaction (deleteInBatchesByCondition (length t + 1) key blocked cond None) t"

definition runUserTombstoneRetentionJob :: "TimeZone \<Rightarrow> millis \<Rightarrow> nat \<Rightarrow> (TombstoneRow \<Rightarrow> bool) \<Rightarrow> TombstoneRow tbl \<Rightarrow> (thrown + BatchDeleteResult option) \<times> TombstoneRow tbl" where
  "runUserTombstoneRetentionJob tz now days blocked = retention_worker tr_id blocked (tombstone_expired (cutoffDate tz now days))"

definition runOrganizationTombstoneRetentionJob :: "TimeZone \<Rightarrow> millis \<Rightarrow> nat \<Rightarrow> (TombstoneRow \<Rightarrow> bool) \<Rightarrow> TombstoneRow tbl \<Rightarrow> (thrown + BatchDeleteResult option) \<times> TombstoneRow tbl" where
  "runOrganizationTombstoneRetentionJob tz now days blocked = retention_worker tr_id blocked (tombstone_expired (cutoffDate tz now days))"

definition runMemberRoleTombstoneRetentionJob :: "TimeZone \<Rightarrow> millis \<Rightarrow> nat \<Rightarrow> (TombstoneRow \<Rightarrow> bool) \<Rightarrow> TombstoneRow tbl \<Rightarrow> (thrown + BatchDeleteResult option) \<times> TombstoneRow tbl" where
  "runMemberRoleTombstoneRetentionJob tz now days blocked = retention_worker tr_id blocked (tombstone_expired (cutoffDate tz now days))"

definition runMembershipTombstoneRetentionJob :: "TimeZone \<Rightarrow> millis \<Rightarrow> nat \<Rightarrow> (TombstoneRow \<Rightarrow> bool) \<Rightarrow> TombstoneRow tbl \<Rightarrow> (thrown + BatchDeleteResult option) \<times> TombstoneRow tbl" where
  "runMembershipTombstoneRetentionJob tz now days blocked = retention_worker tr_id blocked (tombstone_expired (cutoffDate tz now days))"

definition runOrganizationApiKeyTombstoneRetentionJob :: "TimeZone \<Rightarrow> millis \<Rightarrow> nat \<Rightarrow> (TombstoneRow \<Rightarrow> bool) \<Rightarrow> TombstoneRow tbl \<Rightarrow> (thrown + BatchDeleteResult option) \<times> TombstoneRow tbl" where
  "runOrganizationApiKeyTombstoneRetentionJob tz now days blocked = retention_worker tr_id blocked (tombstone_expired (cutoffDate tz now days))"

definition runOrganizationNotificationPolicyTombstoneRetentionJob :: "TimeZone \<Rightarrow> millis \<Rightarrow> nat \<Rightarrow> (TombstoneRow \<Rightarrow> bool) \<Rightarrow> TombstoneRow tbl \<Rightarrow> (thrown + BatchDeleteResult option) \<times> TombstoneRow tbl" where
  "runOrganizationNotificationPolicyTombstoneRetentionJob tz now days blocked = retention_worker tr_id blocked (tombstone_expired (cutoffDate tz now days))"

definition runWebhookDeliveryAttemptRetentionJob :: "TimeZone \<Rightarrow> millis \<Rightarrow> nat \<Rightarrow> (AgedRow \<Rightarrow> bool) \<Rightarrow> AgedRow tbl \<Rightarrow> (thrown + BatchDeleteResult option) \<times> AgedRow tbl" where
  "runWebhookDeliveryAttemptRetentionJob tz now days blocked = retention_worker ar_id blocked (\<lambda>r. ar_created_at r < cutoffDate tz now days)"

definition runNotificationRetentionJob :: "TimeZone \<Rightarrow> millis \<Rightarrow> nat \<Rightarrow> (AgedRow \<Rightarrow> bool) \<Rightarrow> AgedRow tbl \<Rightarrow> (thrown + BatchDeleteResult option) \<times> AgedRow tbl" where
  "runNotificationRetentionJob tz now days blocked = retention_worker ar_id blocked (\<lambda>r. ar_created_at r < cutoffDate tz now days)"

section \<open>A batch\<close>

definition beyond :: "'k :: linorder option \<Rightarrow> 'k \<Rightarrow> bool" where
  "beyond cursor k \<longleftrightarrow> (case cursor of None \<Rightarrow> True | Some c \<Rightarrow> c < k)"

abbreviation due :: "('r \<Rightarrow> 'k :: linorder) \<Rightarrow> ('r \<Rightarrow> bool) \<Rightarrow> 'k option \<Rightarrow> 'r tbl \<Rightarrow> 'r list" where
  "due key cond cursor t \<equiv> filter (\<lambda>r. cond r \<and> beyond cursor (key r)) t"

lemma sorted_le_last: "sorted xs \<Longrightarrow> x \<in> set xs \<Longrightarrow> x \<le> last xs"
  by (induction xs) auto

lemma take_split:
  assumes "sorted xs" and "distinct xs" and "take n xs \<noteq> []" and "k \<in> set xs"
  shows "k \<notin> set (take n xs) \<longleftrightarrow> last (take n xs) < k"
proof
  have srt: "sorted (take n xs @ drop n xs)" using assms(1) by simp
  then have le: "\<forall>x \<in> set (take n xs). \<forall>y \<in> set (drop n xs). x \<le> y" unfolding sorted_append by blast
  assume "k \<notin> set (take n xs)"
  moreover from this have "k \<in> set (drop n xs)" using assms(4) by (metis append_take_drop_id Un_iff set_append)
  ultimately show "last (take n xs) < k"
    using le assms(3) last_in_set by (metis order_le_imp_less_or_eq)
next
  assume "last (take n xs) < k"
  moreover have "sorted (take n xs)" using assms(1) by (rule sorted_wrt_take)
  ultimately show "k \<notin> set (take n xs)" using sorted_le_last by fastforce
qed

lemma scan_batch_facts:
  fixes key :: "'r \<Rightarrow> 'k :: linorder"
  assumes d: "distinct (map key t)" and ids: "ids = scan_batch key cond n cursor t"
  shows scan_length: "length ids = min n (length (due key cond cursor t))"
    and scan_due: "r \<in> set t \<Longrightarrow> key r \<in> set ids \<Longrightarrow> r \<in> set (due key cond cursor t)"
    and scan_distinct: "distinct ids"
    and scan_rest: "ids \<noteq> [] \<Longrightarrow> due key cond (Some (last ids)) (filter (\<lambda>r. key r \<notin> set ids) t) =
      filter (\<lambda>r. key r \<notin> set ids) (due key cond cursor t)"
    and scan_last: "length ids < n \<Longrightarrow> r \<in> set (due key cond cursor t) \<Longrightarrow> key r \<in> set ids"
proof -
  let ?M = "due key cond cursor t"
  let ?xs = "sort (map key ?M)"
  have ids': "ids = take n ?xs" by (simp add: ids scan_batch_def beyond_def)
  have dM: "distinct (map key ?M)" using d by (rule distinct_map_filter)
  show "length ids = min n (length ?M)" by (simp add: ids' min.commute)
  show "distinct ids" using dM by (simp add: ids')
  have sub: "set ids \<subseteq> key ` set ?M" using set_take_subset [of n ?xs] by (simp add: ids')
  show due: "r \<in> set ?M" if r: "r \<in> set t" "key r \<in> set ids" for r
  proof -
    from sub r(2) obtain x where x: "x \<in> set ?M" "key x = key r" by auto
    then have "x = r" using d r(1) by (auto simp: distinct_map inj_on_def)
    with x show ?thesis by simp
  qed
  show "key r \<in> set ids" if "length ids < n" "r \<in> set ?M" for r
    using that by (simp add: ids')
  show "due key cond (Some (last ids)) (filter (\<lambda>r. key r \<notin> set ids) t) = filter (\<lambda>r. key r \<notin> set ids) ?M" if ne: "ids \<noteq> []"
  proof -
    have above: "last ids < key r" if "r \<in> set ?M" "key r \<notin> set ids" for r
      using take_split [of ?xs n "key r"] that ne dM by (simp add: ids')
    have past: "beyond cursor (key r)" if "last ids < key r" for r
    proof -
      have "last ids \<in> key ` set ?M" using sub last_in_set [OF ne] by (rule subsetD)
      then obtain x where "last ids = key x" "x \<in> set ?M" by (rule imageE)
      with that show ?thesis by (auto simp: beyond_def split: option.splits)
    qed
    have "(cond r \<and> last ids < key r) \<and> key r \<notin> set ids \<longleftrightarrow> key r \<notin> set ids \<and> cond r \<and> beyond cursor (key r)" if "r \<in> set t" for r
      using above [of r] past [of r] that by auto
    then show ?thesis unfolding filter_filter beyond_def [of "Some _"] option.case by (intro filter_cong refl) blast
  qed
qed

section \<open>A run\<close>

lemma filter_not_member_length:
  assumes "distinct (map key xs)" and "set ids \<subseteq> key ` set xs" and "distinct ids"
  shows "length (filter (\<lambda>r. key r \<notin> set ids) xs) = length xs - length ids"
proof -
  have "inj_on key {r \<in> set xs. key r \<in> set ids}" using assms(1) by (auto simp: distinct_map inj_on_def)
  then have "card {r \<in> set xs. key r \<in> set ids} = card (key ` {r \<in> set xs. key r \<in> set ids})" by (simp add: card_image)
  also have "key ` {r \<in> set xs. key r \<in> set ids} = set ids" using assms(2) by auto
  also have "card (set ids) = length ids" using assms(3) by (rule distinct_card)
  finally have "length (filter (\<lambda>r. key r \<in> set ids) xs) = length ids"
    using assms(1) by (simp add: distinct_map distinct_length_filter Int_def conj_commute)
  then show ?thesis using sum_length_filter_compl [of "\<lambda>r. key r \<in> set ids" xs] by simp
qed

lemma delete_keys_ok:
  assumes "\<not> tx_aborted t" and "\<And>r. r \<in> set (tx_state t) \<Longrightarrow> key r \<in> set ids \<Longrightarrow> \<not> blocked r"
  shows "delete_keys key blocked ids t = (Inr (), t\<lparr>tx_state := filter (\<lambda>r. key r \<notin> set ids) (tx_state t)\<rparr>)"
  using assms by (auto simp: delete_keys_def sql_def delete_where_def list_ex_iff)

lemma delete_keys_refused:
  assumes "\<not> tx_aborted t" and "r \<in> set (tx_state t)" and "key r \<in> set ids" and "blocked r"
  shows "delete_keys key blocked ids t = (Inl (Sql_foreign_key ''fk''), t\<lparr>tx_aborted := True, tx_error := Sql_foreign_key ''fk''\<rparr>)"
  using assms by (auto simp: delete_keys_def sql_def list_ex_iff)

text \<open>The fall-back meets the aborted transaction at its first statement.\<close>

lemma individually_aborted:
  "tx_aborted t \<Longrightarrow> ids \<noteq> [] \<Longrightarrow> deleteRowsIndividually key blocked ids t = (Inl Sql_aborted, t)"
  by (cases ids) (simp_all add: delete_keys_def act_bind_def act_catch_def act_throw_def sql_aborted_eq)

text \<open>What a full batch leaves for the next round.\<close>

lemma next_round:
  fixes key :: "'r \<Rightarrow> 'k :: linorder"
  assumes d: "distinct (map key t)" and ids: "ids = scan_batch key cond n cursor t" and ne: "ids \<noteq> []"
  defines "t' \<equiv> filter (\<lambda>r. key r \<notin> set ids) t"
  shows next_due: "due key cond (Some (last ids)) t' = filter (\<lambda>r. key r \<notin> set ids) (due key cond cursor t)"
    and next_length: "length (due key cond (Some (last ids)) t') + length ids = length (due key cond cursor t)"
    and next_kept: "filter (\<lambda>r. \<not> (cond r \<and> beyond (Some (last ids)) (key r))) t' = filter (\<lambda>r. \<not> (cond r \<and> beyond cursor (key r))) t"
    and next_distinct: "distinct (map key t')"
proof -
  let ?M = "due key cond cursor t"
  note facts = scan_batch_facts [OF d ids]
  show rest: "due key cond (Some (last ids)) t' = filter (\<lambda>r. key r \<notin> set ids) ?M" unfolding t'_def using facts(4) ne by blast
  show "distinct (map key t')" unfolding t'_def using d by (rule distinct_map_filter)
  have sub: "set ids \<subseteq> key ` set ?M"
    unfolding ids scan_batch_def beyond_def using set_take_subset by fastforce
  have "length ids \<le> length ?M" using facts(1) by simp
  then show "length (due key cond (Some (last ids)) t') + length ids = length ?M"
    unfolding rest filter_not_member_length [OF distinct_map_filter [OF d] sub facts(3)] by simp
  have "(key r \<notin> set ids \<and> \<not> (cond r \<and> beyond (Some (last ids)) (key r))) = (\<not> (cond r \<and> beyond cursor (key r)))" if r: "r \<in> set t" for r
  proof (cases "key r \<in> set ids")
    case True
    then show ?thesis using facts(2) [OF r True] by simp
  next
    case out: False
    have "r \<in> set (due key cond (Some (last ids)) t') \<longleftrightarrow> r \<in> set (filter (\<lambda>r. key r \<notin> set ids) ?M)" by (simp only: rest)
    with out r show ?thesis by (simp add: t'_def)
  qed
  then show "filter (\<lambda>r. \<not> (cond r \<and> beyond (Some (last ids)) (key r))) t' = filter (\<lambda>r. \<not> (cond r \<and> beyond cursor (key r))) t"
    unfolding t'_def filter_filter by (rule filter_cong [OF refl])
qed

lemma short_batch:
  fixes key :: "'r \<Rightarrow> 'k :: linorder"
  assumes d: "distinct (map key t)" and ids: "ids = scan_batch key cond n cursor t" and short: "length ids < n"
  shows "filter (\<lambda>r. key r \<notin> set ids) t = filter (\<lambda>r. \<not> (cond r \<and> beyond cursor (key r))) t"
proof (rule filter_cong [OF refl])
  fix r assume "r \<in> set t"
  then show "(key r \<notin> set ids) = (\<not> (cond r \<and> beyond cursor (key r)))"
    using scan_batch_facts(2) [OF d ids, of r] scan_batch_facts(5) [OF d ids short, of r] unfolding set_filter mem_Collect_eq by blast
qed

lemma delete_batches_run:
  fixes key :: "'r \<Rightarrow> 'k :: linorder"
  assumes "\<not> tx_aborted t" and "distinct (map key (tx_state t))" and "0 < n"
    and "length (due key cond cursor (tx_state t)) < fuel"
    and "\<And>r. r \<in> set (due key cond cursor (tx_state t)) \<Longrightarrow> \<not> blocked r"
  shows "delete_batches key blocked cond n fuel cursor counts t =
    (Inr (Some \<lparr>deletedCount = deletedCount counts + length (due key cond cursor (tx_state t)), blockedCount = blockedCount counts\<rparr>),
     t\<lparr>tx_state := filter (\<lambda>r. \<not> (cond r \<and> beyond cursor (key r))) (tx_state t)\<rparr>)"
  using assms
proof (induction fuel arbitrary: t cursor counts)
  case (Suc fuel)
  let ?t = "tx_state t" and ?M = "due key cond cursor (tx_state t)"
  define ids where "ids = scan_batch key cond n cursor ?t"
  note facts = scan_batch_facts [OF Suc.prems(2) ids_def]
  have read: "sql_read (scan_batch key cond n cursor) t = (Inr ids, t)"
    using Suc.prems(1) by (simp add: sql_read_live ids_def)
  show ?case
  proof (cases "ids = []")
    case True
    with facts(1) Suc.prems(3) have none: "?M = []" by (simp add: min_def split: if_splits)
    then have "filter (\<lambda>r. \<not> (cond r \<and> beyond cursor (key r))) ?t = ?t" by (simp add: filter_empty_conv)
    with True none read show ?thesis by (simp add: act_bind_def act_return_def)
  next
    case False
    let ?t' = "t\<lparr>tx_state := filter (\<lambda>r. key r \<notin> set ids) ?t\<rparr>"
    let ?c = "\<lparr>deletedCount = deletedCount counts + length ids, blockedCount = blockedCount counts\<rparr>"
    note nxt = next_round [OF Suc.prems(2) ids_def False]
    have st: "tx_state ?t' = filter (\<lambda>r. key r \<notin> set ids) ?t" by simp
    have del: "delete_keys key blocked ids t = (Inr (), ?t')"
      using Suc.prems(1,5) facts(2) by (intro delete_keys_ok) auto
    have pos: "0 < length ids" using False by blast
    show ?thesis
    proof (cases "length ids < n")
      case True
      moreover have "length ids = length ?M" using facts(1) True by simp
      ultimately show ?thesis
        using read del False short_batch [OF Suc.prems(2) ids_def True]
        by (simp add: act_bind_def act_catch_def act_return_def Let_def)
    next
      case full: False
      have "delete_batches key blocked cond n fuel (Some (last ids)) ?c ?t' =
        (Inr (Some \<lparr>deletedCount = deletedCount ?c + length (due key cond (Some (last ids)) (tx_state ?t')), blockedCount = blockedCount ?c\<rparr>),
         ?t'\<lparr>tx_state := filter (\<lambda>r. \<not> (cond r \<and> beyond (Some (last ids)) (key r))) (tx_state ?t')\<rparr>)"
      proof (rule Suc.IH)
        show "length (due key cond (Some (last ids)) (tx_state ?t')) < fuel"
          unfolding st using nxt(2) pos Suc.prems(4) by linarith
        show "\<not> blocked r" if "r \<in> set (due key cond (Some (last ids)) (tx_state ?t'))" for r
          using Suc.prems(5) that unfolding st nxt(1) by simp
      qed (use Suc.prems nxt(4) in simp_all)
      then have "delete_batches key blocked cond n fuel (Some (last ids)) ?c ?t' =
        (Inr (Some \<lparr>deletedCount = deletedCount counts + length ?M, blockedCount = blockedCount counts\<rparr>),
         t\<lparr>tx_state := filter (\<lambda>r. \<not> (cond r \<and> beyond cursor (key r))) ?t\<rparr>)"
        unfolding st nxt(3) nxt(2) [symmetric] by simp
      then show ?thesis
        using read del False full by (simp add: act_bind_def act_catch_def act_return_def Let_def)
    qed
  qed
qed simp

lemma delete_batches_refused:
  fixes key :: "'r \<Rightarrow> 'k :: linorder"
  assumes "\<not> tx_aborted t" and "distinct (map key (tx_state t))" and "0 < n"
    and "length (due key cond cursor (tx_state t)) < fuel"
    and "r \<in> set (due key cond cursor (tx_state t))" and "blocked r"
  shows "\<exists>t'. delete_batches key blocked cond n fuel cursor counts t = (Inl Sql_aborted, t') \<and> tx_aborted t' \<and>
    tx_error t' = Sql_foreign_key ''fk''"
  using assms
proof (induction fuel arbitrary: t cursor counts)
  case (Suc fuel)
  let ?t = "tx_state t" and ?M = "due key cond cursor (tx_state t)"
  define ids where "ids = scan_batch key cond n cursor ?t"
  note facts = scan_batch_facts [OF Suc.prems(2) ids_def]
  have read: "sql_read (scan_batch key cond n cursor) t = (Inr ids, t)"
    using Suc.prems(1) by (simp add: sql_read_live ids_def)
  have "0 < length ?M" using Suc.prems(5) by (metis length_pos_if_in_set)
  then have pos: "0 < length ids" using facts(1) Suc.prems(3) by linarith
  then have ids: "ids \<noteq> []" by blast
  show ?case
  proof (cases "\<exists>x \<in> set ?t. key x \<in> set ids \<and> blocked x")
    case True
    let ?t' = "t\<lparr>tx_aborted := True, tx_error := Sql_foreign_key ''fk''\<rparr>"
    from True obtain x where "x \<in> set ?t" "key x \<in> set ids" "blocked x" by blast
    then have "delete_keys key blocked ids t = (Inl (Sql_foreign_key ''fk''), ?t')"
      by (rule delete_keys_refused [OF Suc.prems(1)])
    then show ?thesis
      using read ids individually_aborted [of ?t' ids key blocked] by (simp add: act_bind_def act_catch_def)
  next
    case clear: False
    let ?t' = "t\<lparr>tx_state := filter (\<lambda>r. key r \<notin> set ids) ?t\<rparr>"
    let ?c = "\<lparr>deletedCount = deletedCount counts + length ids, blockedCount = blockedCount counts\<rparr>"
    note nxt = next_round [OF Suc.prems(2) ids_def ids]
    have st: "tx_state ?t' = filter (\<lambda>r. key r \<notin> set ids) ?t" by simp
    have del: "delete_keys key blocked ids t = (Inr (), ?t')" using Suc.prems(1) clear by (intro delete_keys_ok) auto
    have out: "key r \<notin> set ids" using clear Suc.prems(5,6) by auto
    then have full: "\<not> length ids < n" using facts(5) Suc.prems(5) by blast
    have "\<exists>t''. delete_batches key blocked cond n fuel (Some (last ids)) ?c ?t' = (Inl Sql_aborted, t'') \<and> tx_aborted t'' \<and>
        tx_error t'' = Sql_foreign_key ''fk''"
    proof (rule Suc.IH)
      show "length (due key cond (Some (last ids)) (tx_state ?t')) < fuel"
        unfolding st using nxt(2) pos Suc.prems(4) by linarith
      show "r \<in> set (due key cond (Some (last ids)) (tx_state ?t'))" unfolding st nxt(1) using out Suc.prems(5) by simp
    qed (use Suc.prems nxt(4) in simp_all)
    then show ?thesis using read del ids full by (auto simp: act_bind_def act_catch_def act_return_def Let_def)
  qed
qed simp

section \<open>What the jobs do\<close>

lemma retention_worker_run:
  assumes "distinct (map key t)"
  shows "retention_worker key blocked cond t =
    (if \<exists>r \<in> set t. cond r \<and> blocked r then (Inl (Sql_foreign_key ''fk''), t)
     else (Inr (Some \<lparr>deletedCount = length (filter cond t), blockedCount = 0\<rparr>), filter (\<lambda>r. \<not> cond r) t))"
proof -
  have due: "due key cond None t = filter cond t" by (simp add: beyond_def)
  have fuel: "length (due key cond None (tx_state (tx_begin t))) < length t + 1"
    using length_filter_le [of cond t] by (simp add: due del: length_filter_le)
  have run: "retention_worker key blocked cond t =
      run_transaction (delete_batches key blocked cond DEFAULT_BATCH_SIZE (length t + 1) None \<lparr>deletedCount = 0, blockedCount = 0\<rparr>) t"
    by (simp add: retention_worker_def deleteInBatchesByCondition_def)
  show ?thesis
  proof (cases "\<exists>r \<in> set t. cond r \<and> blocked r")
    case True
    then obtain r where "r \<in> set t" "cond r" "blocked r" by blast
    then show ?thesis
      using delete_batches_refused [of "tx_begin t" key DEFAULT_BATCH_SIZE cond None "length t + 1" r blocked
          "\<lparr>deletedCount = 0, blockedCount = 0\<rparr>"] fuel assms True
      by (auto simp: run run_transaction_def DEFAULT_BATCH_SIZE_def beyond_def)
  next
    case False
    have "delete_batches key blocked cond DEFAULT_BATCH_SIZE (length t + 1) None \<lparr>deletedCount = 0, blockedCount = 0\<rparr> (tx_begin t) =
      (Inr (Some \<lparr>deletedCount = length (filter cond t), blockedCount = 0\<rparr>), (tx_begin t)\<lparr>tx_state := filter (\<lambda>r. \<not> cond r) t\<rparr>)"
      using delete_batches_run [of "tx_begin t" key DEFAULT_BATCH_SIZE cond None "length t + 1" blocked
          "\<lparr>deletedCount = 0, blockedCount = 0\<rparr>"] fuel assms False
      by (auto simp: DEFAULT_BATCH_SIZE_def beyond_def)
    with False show ?thesis by (simp add: run run_transaction_def)
  qed
qed

text \<open>C11 Retention of users.  When nothing references the expired tombstones, the job ends, removes exactly the users deleted before the
  cut-off, however many batches that takes, and reports their number.\<close>

theorem retention_deletes_expired_users:
  assumes "distinct (map tr_id t)" and "\<forall>r \<in> set t. tombstone_expired (cutoffDate tz now days) r \<longrightarrow> \<not> blocked r"
  shows "runUserTombstoneRetentionJob tz now days blocked t =
    (Inr (Some \<lparr>deletedCount = length (filter (tombstone_expired (cutoffDate tz now days)) t), blockedCount = 0\<rparr>),
     filter (\<lambda>r. \<not> tombstone_expired (cutoffDate tz now days) r) t)"
  using assms unfolding runUserTombstoneRetentionJob_def retention_worker_run [OF assms(1)] by auto

definition demo_tombstones :: "TombstoneRow tbl" where
  "demo_tombstones = [\<lparr>tr_id = 1, tr_deleted_at = None\<rparr>, \<lparr>tr_id = 2, tr_deleted_at = Some 0\<rparr>, \<lparr>tr_id = 3, tr_deleted_at = Some 5\<rparr>]"

theorem retention_deletes_expired_users_witness:
  "runUserTombstoneRetentionJob utc 86400001 1 (\<lambda>r. tr_id r = 3) demo_tombstones =
     (Inr (Some \<lparr>deletedCount = 1, blockedCount = 0\<rparr>), [\<lparr>tr_id = 1, tr_deleted_at = None\<rparr>, \<lparr>tr_id = 3, tr_deleted_at = Some 5\<rparr>])"
  using retention_deletes_expired_users [of demo_tombstones utc 86400001 1 "\<lambda>r. tr_id r = 3"]
  by (simp add: demo_tombstones_def tombstone_expired_def cutoffDate_def utc_def addDays_def)

text \<open>C10 One referenced tombstone stops all retention.  A user another table still references (the owner of an organization, the uploader of
  a file) is meant to be counted as blocked while the others are deleted; the job runs in one transaction, which the first refused
  \<^verbatim>\<open>DELETE\<close> aborts, so the deletes of the fall-back are refused too, the job throws and every deletion is rolled back: as long as
  the row is there, no expired user is ever removed.\<close>

theorem blocked_tombstone_stops_retention:
  assumes "distinct (map tr_id t)" and "r \<in> set t" and "tombstone_expired (cutoffDate tz now days) r" and "blocked r"
  shows "runUserTombstoneRetentionJob tz now days blocked t = (Inl (Sql_foreign_key ''fk''), t)"
  using assms unfolding runUserTombstoneRetentionJob_def retention_worker_run [OF assms(1)] by auto

theorem blocked_tombstone_stops_retention_witness:
  "runUserTombstoneRetentionJob utc 86400010 1 (\<lambda>r. tr_id r = 3) demo_tombstones = (Inl (Sql_foreign_key ''fk''), demo_tombstones)"
  using blocked_tombstone_stops_retention [of demo_tombstones "\<lparr>tr_id = 3, tr_deleted_at = Some 5\<rparr>" utc 86400010 1 "\<lambda>r. tr_id r = 3"]
  by (simp add: demo_tombstones_def tombstone_expired_def cutoffDate_def utc_def addDays_def)

end
