(* ===== verification/Spec2Isabelle.thy ===== *)
theory Spec2Isabelle
  imports Mail_Outbox Webhook_Delivery Circuit_Breaker Rate_Limit_Store Redis_Protocols Idempotency Credential_Safety Stripe_Webhooks Membership_Races Permission_Cache Upload_Races Audit_Outbox Retention
begin

text \<open>
  \<^bold>\<open>A verification development for core-be\<close>

  core-be is a multi-tenant SaaS backend in TypeScript (Fastify, PostgreSQL with row-level security,
  Redis, BullMQ).  A request passes the middlewares (rate limit, authentication, idempotency), a
  handler calls a domain service, the service runs its repositories inside a database context, and
  after the response the lifecycle hook settles the transaction, stores the idempotency entry and
  flushes deferred jobs.  Redis holds what must be shared and may be lost: rate counters, circuit
  state, caches, locks, idempotency entries, one-time handles.  PostgreSQL holds what must last.

  \<^bold>\<open>Theories and the code they model\<close> (paths below \<^verbatim>\<open>src/src/\<close>)
  \<^item> \<open>Prelude\<close>: application errors (\<^verbatim>\<open>shared/errors\<close>), tables as lists of rows with the statements the
    repositories issue, Redis as a map with expiry, the counter of
    \<^verbatim>\<open>shared/utils/infrastructure/redis-counter.util.ts\<close>.
  \<^item> \<open>JS_Values\<close>: the JavaScript string operations, calendar days and JSON values used; the time zone of the process is
    an argument.
  \<^item> \<open>Circuit_Breaker\<close>: \<^verbatim>\<open>infrastructure/resilience/circuit-breaker.ts\<close> and its Lua script.  The locale
    \<open>circuit_store\<close> is the contract of a state store; the script and the in-process fall-back both
    interpret it.  The script stores its key with an hour to live, and the model of the shared store has that expiry.
  \<^item> \<open>Rate_Limit_Store\<close>: \<^verbatim>\<open>shared/middlewares/rate-limit/rate-limit-fallback-store.ts\<close>.
  \<^item> \<open>Redis_Protocols\<close>: \<^verbatim>\<open>infrastructure/cache/redis-tombstone-cache.util.ts\<close> and \<^verbatim>\<open>redis-lock.util.ts\<close>, as
    functions and as step relations of several processes.  The locale \<open>revocable_cache\<close> (an invalidated
    key stays a miss against late populations) is interpreted here and by the session-token cache.
  \<^item> \<open>Idempotency_Key\<close>, \<open>Idempotency\<close>: \<^verbatim>\<open>shared/utils/idempotency\<close>,
    \<^verbatim>\<open>shared/middlewares/core/idempotency.middleware.ts\<close>, \<^verbatim>\<open>request-lifecycle.middleware.ts\<close>.
  \<^item> \<open>Users\<close>: \<^verbatim>\<open>domains/user/user.repository.ts\<close> and the account guards.
  \<^item> \<open>Sessions\<close>: \<^verbatim>\<open>domains/auth/sub-domains/auth-session\<close>: repository, service, token cache.
  \<^item> \<open>Single_Use\<close>: MFA session handles, WebAuthn challenges, OAuth states, verification tokens and email
    codes.  The locale \<open>single_use\<close> (accepted at most once) is interpreted for all five.
  \<^item> \<open>Login\<close>: \<^verbatim>\<open>domains/auth/auth.service.ts\<close>, \<^verbatim>\<open>complete-first-factor-auth.ts\<close>, \<^verbatim>\<open>email-login.service.ts\<close>.
  \<^item> \<open>Auth_Methods\<close>, \<open>Credentials\<close>, \<open>Federated_Login\<close>, \<open>Credential_Safety\<close>: \<^verbatim>\<open>auth-method\<close>, \<^verbatim>\<open>auth-mfa\<close>, \<^verbatim>\<open>auth-webauthn\<close> and the OAuth
    sub-domain: the table of methods with the last-method guard, TOTP enrolment and verification with lockout and replay
    guard, recovery codes, passkeys, password changes, and the OAuth callback from the state to the session.  The two TOTP checks the
    source writes out, of sign-in and of step-up, are two definitions.
  \<^item> \<open>Transactions\<close>: a unit of work of \<^verbatim>\<open>infrastructure/database/contexts/database-context.ts\<close>: statements
    on a snapshot, commit, rollback on a throw, and the aborted state after a failed statement; the
    retry of \<^verbatim>\<open>shared/utils/infrastructure/postgres-error.util.ts\<close>.  The locales \<open>action_order\<close> and \<open>state_order\<close>
    carry a preorder on states through every composition of actions.
  \<^item> \<open>Subscriptions\<close>: \<^verbatim>\<open>domains/billing/sub-domains/plan\<close> and \<^verbatim>\<open>subscription\<close>, with the Stripe provider and its
    compensations; it interprets the two locales for tenancy, terminal rows and read-only parts.
  \<^item> \<open>Stripe_Webhooks\<close>: \<^verbatim>\<open>domains/billing/sub-domains/stripe-webhook\<close>: ledger, tenant resolution, handlers,
    queue and workers.

  \<^item> \<open>Tenant_Tables\<close>, \<open>Roles\<close>, \<open>Memberships\<close>, \<open>Organizations\<close>: \<^verbatim>\<open>domains/tenancy\<close>: the tables with their checks,
    unique indexes and row-level security; roles, their permissions and API keys; memberships and
    invitations; organizations and their provisioning.  \<open>tenancy_request\<close> is any one request of these services.
  \<^item> \<open>Tenant_Integrity\<close>, \<open>Grants\<close>, \<open>Member_Lifecycle\<close>, \<open>Membership_Races\<close>: what every request keeps, what it can
    grant, when seats are taken and memberships become active, and where two requests interfere.  The locale
    \<open>membership_watch\<close> carries a condition on memberships through every request and is interpreted for
    seats and for consent.
  \<^item> \<open>Permission_Cache\<close>: \<^verbatim>\<open>domains/tenancy/sub-domains/permission/permission-cache.service.ts\<close> and the cached lookup of
    \<^verbatim>\<open>authorization.service.ts\<close>, one Redis command or database read a step (a cached read is two \<^verbatim>\<open>GET\<close>s, a poll a timer and two
    more), with a step relation of lookups, commits, invalidations and time.
  \<^item> \<open>Uploads\<close>, \<open>Upload_Races\<close>: \<^verbatim>\<open>domains/upload\<close>, \<^verbatim>\<open>infrastructure/storage\<close> and \<^verbatim>\<open>file-magic.util.ts\<close>: validation, the
    table, confirmation, deletion, sweep, offboarding and retention with one step per storage call; S3 is a map of
    objects that all have entity tags (the unconditional copy the code falls back to without one is not taken), a client writes through a presigned URL until it expires.

  \<^item> \<open>Pagination\<close>: \<^verbatim>\<open>shared/utils/http/pagination.util.ts\<close> and \<^verbatim>\<open>list-query.util.ts\<close>: the query schema with its limits, the cursor codec,
    the keyset conditions and the page, with three repositories that list by them.  The locale \<open>keyset\<close> (an order and the condition that continues it)
    is interpreted for the four orders.
  \<^item> \<open>Mail_Outbox\<close>: \<^verbatim>\<open>infrastructure/mail\<close>: the outbox table, the worker one statement at a time, the sweeper, and a step relation
    of workers, crashes and sweeps.

  \<^item> \<open>Webhooks\<close>, \<open>Webhook_Delivery\<close>: \<^verbatim>\<open>domains/notify/sub-domains/webhook\<close> with the URL guard and the field secrets of
    \<^verbatim>\<open>shared/utils/security\<close>: configuration and secret rotation, delivery attempts, the worker one statement or call at a time, the
    cache of breakers.
  \<^item> \<open>Audit_Outbox\<close>: \<^verbatim>\<open>domains/audit\<close>: recording an event, the outbox and the ledger with their insert policies, the policy of
    \<^verbatim>\<open>tenancy.organizations\<close> the second one reads through, the drain
    statement by statement with its savepoints and settings, and a step relation of events and passes.
  \<^item> \<open>Retention\<close>: \<^verbatim>\<open>infrastructure/database/utils/batch-delete.util.ts\<close> and the jobs that delete by age, in the transaction their
    worker opens.

  \<^bold>\<open>How code becomes definitions\<close>
  A class or row is a \<^theory_text>\<open>record\<close>, a union a \<^theory_text>\<open>datatype\<close>, a method one definition of the same name that takes
  the state and returns it updated.  A throw is \<^const>\<open>Inl\<close> of an error; it undoes the writes of the
  transaction it leaves and no others.  A nullable column is an option, and a comparison with it is
  false on \<^const>\<open>None\<close>.  A statement under row-level security sees the rows of the organization its
  transaction is pinned to.  Instants are epoch milliseconds; the database clock and the process clock are
  separate arguments where the code uses both.  Every Redis call that the code guards with a catch
  has an availability flag.  Random values, generated ids, SHA-256, HMAC, argon2, the JWT signer,
  \<^verbatim>\<open>JSON.parse\<close> and the answers of services not modelled yet are arguments.  Integers are unbounded:
  the counters and instants stay far below \<open>2 ^ 53\<close>, where JavaScript numbers are exact.  Every
  function is total; loops of the source that poll are lists of polls.  Fuel appears in following cursors, a page per row and
  one more, and in the batched delete, a round per row and one more; the theorems show that this is enough.  Loops that poll take one
  answer per await, and the bound on their number is proved exact.
  Characters are bytes, which covers the ASCII alphabets of keys, codes and header names.

  \<^bold>\<open>What is shown\<close>
  \<^item> Idempotency: at most one execution at a time and one stored success a day per key over all
    interleavings of processes, exact replay, fail-closed claims, release of what did not commit;
    and that the sixty-second bound on a request is needed.
  \<^item> Sessions: exactly which refresh secrets rotate, family revocation on replay, immediate
    revocation against in-flight validations when Redis takes the tombstone and within two minutes when it does not, the cap on live sessions, and what happens to two
    concurrent refreshes.
  \<^item> Sign-in: no first factor skips a second one, a right password is not locked out, wrong ones
    count and lock, five refused guesses at an email code close it for logins and step-ups, one-time artifacts are accepted once.
  \<^item> Credentials: OAuth enters only the account of the attested address, and an existing one only when it was verified, bare or
    linked to that very identity; a TOTP code is redeemed once over sign-in, step-up and enrolment; and where the
    guards break: TOTP removed through the generic endpoint, two removals that overlap.
  \<^item> Billing: a deleted subscription is never live again, update events commute on the columns all of them carry or none, an event writes one
    tenant, an event is dispatched once per lease, provider failures leave the subscriptions alone and
    failed creates are undone at Stripe; and where these break: a withdrawn cancellation, a deletion behind the watermark, a claim
    by insert, a failed seat count after a plan change, a retry inside an aborted transaction.
  \<^item> Tenancy: owners stay active members, memberships keep their role, nobody gains a permission the caller
    does not hold, a membership becomes active only with its holder's consent, seats stay within the plan, a
    permission cached before an invalidation is not served after it while the version key lives, a lookup always answers; and where these
    break: a PATCH to \<^verbatim>\<open>INVITED\<close>, a suspension that races an ownership transfer, the expiry of the version key.
  \<^item> Uploads: what is served as uploaded is what was verified, in every interleaving; offboarding leaves no upload; and
    where an upload is lost: an open breaker, a sweep or a second confirmation that overlaps the first.
  \<^item> Lists: a cursor reads back, following cursors that fit the query schema gives every row once; and rows of one millisecond are skipped, the cursor of a
    long name is refused.
  \<^item> Mail: every request carries the recorded message under one key, sweeping and delivering drains the outbox while calls are accepted; and a
    refused address ends as skipped.
  \<^item> Webhooks: every POST goes to a checked address and is signed, rotation keeps the replaced secret, a job posts once and the
    breaker cache is least-recently-used; and where these break: replays and restarts that deliver nothing, a create on a live URL,
    secrets that do not fit their column.
  \<^item> Audit: the ledger holds one entry of the right tenant per processed event in every interleaving, passes drain the backlog;
    and a failing row is given up one attempt early, and the events of a deleted organization are lost.
  \<^item> Retention: a job removes exactly the expired rows; and one row that is still referenced stops it altogether.
  \<^item> Infrastructure: the breaker's fall-back refines its script over commands until the shared key expires, the rate limiter's fall-back counts as
    Redis does and stays bounded, cached reads are never stale, locks exclude.

  \<^bold>\<open>What is not modelled\<close>
  The dead-letter queue, the export of the audit log, the event bus with its commit dispatch, account offboarding and
  notifications hold state and could follow the same pattern; they are the next candidates.  HTTP wiring, OpenAPI,
  telemetry, configuration and the third-party adapters hold no state of their own.
\<close>

end
